(* ===== verification/ZbPrelude.thy ===== *)
theory ZbPrelude
  imports Main "HOL-Library.Word" "HOL-Library.Monad_Syntax"
begin

text \<open>
  Shared vocabulary of the development: the fixed-width integer types, the model of byte
  buffers and of little-endian fields, the checked reads of the frame parsers and the
  scans over fixed arrays that every table of the stack uses.

  \<^item> A pointer that may be null is a value of an option type; \<open>ptr\<close> is a byte pointer,
    the bytes readable from it being the list.
  \<^item> Buffer lengths and indices are \<open>nat\<close>; the places where the C code casts a length
    to \<open>uint8_t\<close> or \<open>uint16_t\<close> are written with \<open>cast8\<close> and \<open>cast16\<close>.
  \<^item> A parser is a computation in the option monad whose reads are checked: \<open>None\<close> is a
    read outside the buffer, which no parser of the code tests for and C leaves undefined.
    The value inside is the C function's own answer.
  \<^item> A frame builder writes a prefix of its output buffer, so it is modelled by the bytes
    it writes: \<open>None\<close> is the answer 0, \<open>Some bs\<close> means that \<open>bs\<close> was stored from \<open>out[0]\<close>
    on. The value that C returns is \<open>built_len\<close> of it.
\<close>

unbundle bit_operations_syntax

type_synonym u8 = "8 word"
type_synonym u16 = "16 word"
type_synonym u32 = "32 word"
type_synonym u64 = "64 word"
type_synonym ptr = "u8 list option"

named_theorems wire_simps \<open>reads of fields at known offsets of a built frame\<close>

section \<open>Lengths and casts\<close>

definition cast8 :: "nat \<Rightarrow> nat" where
  "cast8 n = n mod 256"

definition cast16 :: "nat \<Rightarrow> nat" where
  "cast16 n = n mod 65536"

definition built_len :: "u8 list option \<Rightarrow> nat" where
  "built_len r = (case r of None \<Rightarrow> 0 | Some bs \<Rightarrow> cast8 (length bs))"

lemma cast8_id [simp]: "n < 256 \<Longrightarrow> cast8 n = n"
  by (simp add: cast8_def)

lemma cast8_lt [simp]: "cast8 n < 256"
  by (simp add: cast8_def)

lemma cast8_le: "cast8 n \<le> n"
  by (simp add: cast8_def)

lemma cast16_id [simp]: "n < 65536 \<Longrightarrow> cast16 n = n"
  by (simp add: cast16_def)

lemma u8_unat_lt [simp]: "unat (w :: u8) < 256"
  using unsigned_less [of w, where 'a = nat] by simp

lemma u8_unat_le [simp]: "unat (w :: u8) \<le> 255"
  using u8_unat_lt [of w] by linarith

lemma unat_of_nat_u8 [simp]: "n < 256 \<Longrightarrow> unat (of_nat n :: u8) = n"
  by (simp add: unsigned_of_nat take_bit_nat_eq_self)

lemma take_bit_small: "unat w < 2 ^ n \<Longrightarrow> take_bit n w = (w :: 'w::len word)"
  by (simp add: word_unat_eq_iff unsigned_take_bit_eq take_bit_nat_eq_self)

section \<open>Little-endian fields\<close>

text \<open>
  \<open>writeLe16\<close>, \<open>writeLe32\<close> and \<open>writeLe64\<close> of the code store the bytes of a value from
  the least significant one on; the reads shift each byte back to its place.
\<close>

definition le_bytes :: "nat \<Rightarrow> 'w::len word \<Rightarrow> u8 list" where
  "le_bytes n v = map (\<lambda>i. ucast (drop_bit (8 * i) v)) [0..<n]"

primrec le_val :: "u8 list \<Rightarrow> 'w::len word" where
  "le_val [] = 0"
| "le_val (b # bs) = ucast b OR push_bit 8 (le_val bs)"

definition le16 :: "u16 \<Rightarrow> u8 list" where
  "le16 v = le_bytes 2 v"

definition le32 :: "u32 \<Rightarrow> u8 list" where
  "le32 v = le_bytes 4 v"

definition le64 :: "u64 \<Rightarrow> u8 list" where
  "le64 v = le_bytes 8 v"

lemma length_le_bytes [simp]: "length (le_bytes n v) = n"
  by (simp add: le_bytes_def)

lemma length_le16 [simp]: "length (le16 v) = 2"
  by (simp add: le16_def)

lemma length_le32 [simp]: "length (le32 v) = 4"
  by (simp add: le32_def)

lemma length_le64 [simp]: "length (le64 v) = 8"
  by (simp add: le64_def)

lemma le_bytes_Suc: "le_bytes (Suc n) v = ucast v # le_bytes n (drop_bit 8 v)"
proof -
  have "[0..<Suc n] = 0 # map Suc [0..<n]"
    by (metis map_Suc_upt upt_conv_Cons zero_less_Suc)
  then show ?thesis
    by (simp add: le_bytes_def drop_bit_drop_bit add.commute)
qed

lemma le_val_step:
  fixes v :: "'w::len word"
  shows "ucast (ucast v :: u8) OR push_bit 8 (take_bit n (drop_bit 8 v)) = take_bit (8 + n) v"
  by (rule bit_word_eqI) (auto simp: bit_simps)

lemma le_val_le_bytes: "le_val (le_bytes n v) = take_bit (8 * n) (v :: 'w::len word)"
proof (induction n arbitrary: v)
  case 0
  then show ?case by (simp add: le_bytes_def)
next
  case (Suc n)
  have "le_val (le_bytes (Suc n) v) =
      ucast (ucast v :: u8) OR push_bit 8 (take_bit (8 * n) (drop_bit 8 v))"
    by (simp add: le_bytes_Suc Suc.IH)
  also have "\<dots> = take_bit (8 * Suc n) v"
    by (simp add: le_val_step)
  finally show ?case .
qed

lemma le_val_le16 [simp]: "le_val (le16 v) = v"
  by (simp add: le16_def le_val_le_bytes take_bit_word_eq_self)

lemma le_val_le32 [simp]: "le_val (le32 v) = v"
  by (simp add: le32_def le_val_le_bytes take_bit_word_eq_self)

lemma le_val_le64 [simp]: "le_val (le64 v) = v"
  by (simp add: le64_def le_val_le_bytes take_bit_word_eq_self)

lemma bit_le_val:
  "8 * length bs \<le> LENGTH('w) \<Longrightarrow>
     bit (le_val bs :: 'w::len word) k \<longleftrightarrow> k < 8 * length bs \<and> bit (bs ! (k div 8)) (k mod 8)"
proof (induction bs arbitrary: k)
  case (Cons b bs)
  show ?case
  proof (cases "k < 8")
    case True
    then have "k div 8 = 0" "k mod 8 = k" by simp_all
    then show ?thesis using True Cons.prems by (simp add: bit_simps)
  next
    case False
    then obtain j where j: "k = 8 + j" by (metis le_Suc_ex not_less)
    have "\<not> bit b (8 + j)" using bit_imp_le_length [of b "8 + j"] by auto
    then have "bit (le_val (b # bs) :: 'w word) k \<longleftrightarrow> k < LENGTH('w) \<and> bit (le_val bs :: 'w word) j"
      by (simp add: bit_simps j)
    moreover have "(8 + j) div 8 = Suc (j div 8)" "(8 + j) mod 8 = j mod 8" by simp_all
    moreover have "bit (le_val bs :: 'w word) j \<longleftrightarrow> j < 8 * length bs \<and> bit (bs ! (j div 8)) (j mod 8)"
      using Cons by simp
    ultimately show ?thesis using Cons.prems by (auto simp: j)
  qed
qed simp

lemma le_bytes_le_val:
  assumes "length bs = n" "8 * n \<le> LENGTH('w)"
  shows "le_bytes n (le_val bs :: 'w::len word) = bs"
proof (rule nth_equalityI)
  fix i assume i: "i < length (le_bytes n (le_val bs :: 'w word))"
  show "le_bytes n (le_val bs :: 'w word) ! i = bs ! i"
  proof (rule bit_word_eqI)
    fix k assume k: "k < LENGTH(8)"
    then have k': "k < 8" by simp
    have "(8 * i + k) div 8 = i" "(8 * i + k) mod 8 = k" using k' by auto
    moreover have "8 * i + k < 8 * n" using i k' by simp
    ultimately show "bit (le_bytes n (le_val bs :: 'w word) ! i) k = bit (bs ! i) k"
      using i k' assms by (simp add: le_bytes_def bit_simps bit_le_val)
  qed
qed (use assms in simp)

lemma le_val_inv:
  "length bs = 2 \<Longrightarrow> le16 (le_val bs) = bs" "length cs = 4 \<Longrightarrow> le32 (le_val cs) = cs"
  "length ds = 8 \<Longrightarrow> le64 (le_val ds) = ds"
  by (simp_all add: le16_def le32_def le64_def le_bytes_le_val)

section \<open>Checked reads\<close>

definition rd8 :: "u8 list \<Rightarrow> nat \<Rightarrow> u8 option" where
  "rd8 bs i = (if i < length bs then Some (bs ! i) else None)"

definition rd_bytes :: "u8 list \<Rightarrow> nat \<Rightarrow> nat \<Rightarrow> u8 list option" where
  "rd_bytes bs i n = (if i + n \<le> length bs then Some (take n (drop i bs)) else None)"

definition rd16 :: "u8 list \<Rightarrow> nat \<Rightarrow> u16 option" where
  "rd16 bs i = map_option le_val (rd_bytes bs i 2)"

definition rd32 :: "u8 list \<Rightarrow> nat \<Rightarrow> u32 option" where
  "rd32 bs i = map_option le_val (rd_bytes bs i 4)"

definition rd64 :: "u8 list \<Rightarrow> nat \<Rightarrow> u64 option" where
  "rd64 bs i = map_option le_val (rd_bytes bs i 8)"

lemma rd8_in: "i < length bs \<Longrightarrow> rd8 bs i = Some (bs ! i)"
  by (simp add: rd8_def)

lemma rd16_in: "i + 2 \<le> length bs \<Longrightarrow> rd16 bs i = Some (le_val (take 2 (drop i bs)))"
  by (simp add: rd16_def rd_bytes_def)

lemma rd32_in: "i + 4 \<le> length bs \<Longrightarrow> rd32 bs i = Some (le_val (take 4 (drop i bs)))"
  by (simp add: rd32_def rd_bytes_def)

lemma rd64_in: "i + 8 \<le> length bs \<Longrightarrow> rd64 bs i = Some (le_val (take 8 (drop i bs)))"
  by (simp add: rd64_def rd_bytes_def)

lemma rd8_0: "bs \<noteq> [] \<Longrightarrow> rd8 bs 0 = Some (bs ! 0)"
  by (simp add: rd8_def)

lemmas rd_in = rd8_in rd16_in rd32_in rd64_in rd8_0

lemma ucast_u8_u16 [simp]: "ucast (ucast (w :: u8) :: u16) = w"
  by (rule bit_word_eqI) (auto simp: bit_simps)

lemma rd_out: "length bs < i + 2 \<Longrightarrow> rd16 bs i = None"
  by (simp add: rd16_def rd_bytes_def)


section \<open>Output buffers and copied payloads\<close>

text \<open>
  An output buffer is its capacity (\<open>outMax\<close>), or \<open>None\<close> for a null pointer. \<open>copied p n\<close> is what
  the loop \<open>for (i = 0; i < n; ++i) out[k + i] = p[i]\<close> appends; the pointer and the length are
  two arguments of the C functions, and so they are here.
\<close>

type_synonym out_buf = "nat option"

definition copied :: "ptr \<Rightarrow> nat \<Rightarrow> u8 list" where
  "copied p n = (case p of None \<Rightarrow> [] | Some bs \<Rightarrow> take n bs)"

lemma copied_all [simp]: "copied (Some bs) (length bs) = bs"
  by (simp add: copied_def)

lemma copied_0 [simp]: "copied p 0 = []"
  by (cases p) (simp_all add: copied_def)

text \<open>Where a built frame is a sequence of fields, a read skips whole fields.\<close>

lemma rd8_skip: "length xs \<le> i \<Longrightarrow> rd8 (xs @ ys) i = rd8 ys (i - length xs)"
  by (auto simp: rd8_def nth_append)

lemma rd8_Cons: "rd8 (x # xs) i = (if i = 0 then Some x else rd8 xs (i - 1))"
  by (cases i) (simp_all add: rd8_def)

lemma rd_bytes_skip: "length xs \<le> i \<Longrightarrow> rd_bytes (xs @ ys) i n = rd_bytes ys (i - length xs) n"
  by (auto simp: rd_bytes_def)

lemma rd_bytes_Cons: "0 < i \<Longrightarrow> rd_bytes (x # xs) i n = rd_bytes xs (i - 1) n"
  by (cases i) (auto simp: rd_bytes_def)

lemma rd_bytes_hit: "length xs = n \<Longrightarrow> rd_bytes (xs @ ys) 0 n = Some xs"
  by (simp add: rd_bytes_def)

lemma rd_bytes_hit_end: "length xs = n \<Longrightarrow> rd_bytes xs 0 n = Some xs"
  by (simp add: rd_bytes_def)

lemma rd16_skip [wire_simps]:
  "length xs \<le> i \<Longrightarrow> rd16 (xs @ ys) i = rd16 ys (i - length xs)"
  "0 < i \<Longrightarrow> rd16 (x # zs) i = rd16 zs (i - 1)"
  by (simp_all add: rd16_def rd_bytes_skip rd_bytes_Cons)

lemma rd32_skip [wire_simps]:
  "length xs \<le> i \<Longrightarrow> rd32 (xs @ ys) i = rd32 ys (i - length xs)"
  "0 < i \<Longrightarrow> rd32 (x # zs) i = rd32 zs (i - 1)"
  by (simp_all add: rd32_def rd_bytes_skip rd_bytes_Cons)

lemma rd64_skip [wire_simps]:
  "length xs \<le> i \<Longrightarrow> rd64 (xs @ ys) i = rd64 ys (i - length xs)"
  "0 < i \<Longrightarrow> rd64 (x # zs) i = rd64 zs (i - 1)"
  by (simp_all add: rd64_def rd_bytes_skip rd_bytes_Cons)

lemma rd_hit [wire_simps]:
  "rd16 (le16 a @ ys) 0 = Some a" "rd16 (le16 a) 0 = Some a"
  "rd32 (le32 b @ ys) 0 = Some b" "rd32 (le32 b) 0 = Some b"
  "rd64 (le64 c @ ys) 0 = Some c" "rd64 (le64 c) 0 = Some c"
  by (simp_all add: rd16_def rd32_def rd64_def rd_bytes_hit rd_bytes_hit_end)

lemmas rd8_wire [wire_simps] = rd8_skip rd8_Cons


lemma rd16_concat_le16:
  "i < length rs \<Longrightarrow> rd16 (concat (map le16 rs) @ ys) (i * 2) = Some (rs ! i)"
proof (induction rs arbitrary: i)
  case Nil
  then show ?case by simp
next
  case (Cons r rs)
  show ?case
  proof (cases i)
    case 0
    then show ?thesis by (simp add: wire_simps)
  next
    case (Suc j)
    then have "rd16 (concat (map le16 (r # rs)) @ ys) (i * 2) = rd16 (concat (map le16 rs) @ ys) (j * 2)"
      by (simp add: rd16_skip(1))
    with Suc Cons show ?thesis by simp
  qed
qed

lemma length_concat_le16 [simp]: "length (concat (map le16 rs)) = 2 * length rs"
  by (induction rs) simp_all

lemma u8_le3_cases: "(dr :: u8) \<le> 3 \<Longrightarrow> dr = 0 \<or> dr = 1 \<or> dr = 2 \<or> dr = 3"
  by (simp add: word_le_nat_alt word_unat_eq_iff) arith

text \<open>
  Deadlines on the wrapping millisecond clock: \<open>(int32_t)(a - b)\<close> compares two instants that
  lie less than \<open>2 ^ 31\<close> milliseconds after a common one, wherever that one is.
\<close>

lemma sint_diff_u32:
  fixes t x k :: u32
  assumes "x < 0x80000000" "k < 0x80000000"
  shows "sint ((t + x) - (t + k)) = uint x - uint k"
proof -
  have ux: "0 \<le> uint x" "uint x < 2147483648" "0 \<le> uint k" "uint k < 2147483648"
    using assms by (simp_all add: word_less_def)
  have "(t + x) - (t + k) = (word_of_int (uint x - uint k) :: u32)" by simp
  then have "sint ((t + x) - (t + k)) = signed_take_bit 31 (uint x - uint k)"
    by (simp only: sint_sbintrunc') simp
  also have "\<dots> = uint x - uint k"
  proof -
    have "- 2147483648 \<le> uint x - uint k" "uint x - uint k < 2147483648" using ux by linarith+
    then show ?thesis by (intro signed_take_bit_int_eq_self) simp_all
  qed
  finally show ?thesis .
qed

lemma deadline_reached:
  fixes t x k :: u32
  assumes "x < 0x80000000" "k < 0x80000000"
  shows "0 \<le> sint ((t + x) - (t + k)) \<longleftrightarrow> k \<le> x" "sint ((t + x) - (t + k)) < 0 \<longleftrightarrow> x < k"
  unfolding sint_diff_u32 [OF assms] by (simp_all add: word_le_def word_less_def)

end
