(* ===== verification/ZbSlots.thy ===== *)
theory ZbSlots
  imports ZbPrelude
begin

text \<open>
  Fixed arrays of slots. Every table of the stack is a caller-owned array whose elements
  have a \<open>used\<close> flag; the operations scan it from index 0 with \<open>for (i = 0; i < capacity_; ++i)\<close>
  and return a pointer to a slot. A pointer into the array is modelled by its index.

  \<^item> \<open>find_idx\<close>: the scan that returns the first slot satisfying a test;
  \<^item> \<open>scan_best\<close>/\<open>best_idx\<close>: the scan that keeps the best slot so far and replaces it only by
    a strictly better one (LRU victims, parent selection);
  \<^item> \<open>sweep\<close>: the scan that blanks every slot satisfying a test (expiry);
  \<^item> locale \<open>slot_table\<close>: what those scans guarantee for a table whose slots carry a key;
  \<^item> locale \<open>bounded_cache\<close>: the contract that the clients of a table rely on.
\<close>

lemma option_ext: "(\<And>x. a = Some x \<longleftrightarrow> b = Some x) \<Longrightarrow> a = b"
  by (cases a; cases b) auto

text \<open>\<open>if (!entry) entry = ...\<close>: the first answer that is not null.\<close>

definition or_else :: "'a option \<Rightarrow> 'a option \<Rightarrow> 'a option" where
  "or_else a b = (case a of None \<Rightarrow> b | Some _ \<Rightarrow> a)"

lemma or_else_simps [simp]: "or_else None b = b" "or_else (Some x) b = Some x"
  by (simp_all add: or_else_def)

lemma or_else_None: "or_else a b = None \<longleftrightarrow> a = None \<and> b = None"
  by (cases a) simp_all

section \<open>Scans\<close>

fun find_idx :: "('a \<Rightarrow> bool) \<Rightarrow> 'a list \<Rightarrow> nat option" where
  "find_idx P [] = None"
| "find_idx P (x # xs) = (if P x then Some 0 else map_option Suc (find_idx P xs))"

lemma find_idx_None: "find_idx P xs = None \<longleftrightarrow> (\<forall>x\<in>set xs. \<not> P x)"
  by (induction xs) auto

lemma find_idx_SomeD:
  "find_idx P xs = Some i \<Longrightarrow> i < length xs \<and> P (xs ! i) \<and> (\<forall>j<i. \<not> P (xs ! j))"
proof (induction xs arbitrary: i)
  case Nil
  then show ?case by simp
next
  case (Cons x xs)
  show ?case
  proof (cases "P x")
    case True
    with Cons.prems show ?thesis by simp
  next
    case False
    with Cons.prems obtain k where k: "find_idx P xs = Some k" "i = Suc k" by auto
    from Cons.IH [OF k(1)] k(2) False show ?thesis
      by (auto simp: nth_Cons' less_Suc_eq_0_disj)
  qed
qed

lemma find_idx_SomeI:
  assumes "i < length xs" "P (xs ! i)" "\<And>j. j < i \<Longrightarrow> \<not> P (xs ! j)"
  shows "find_idx P xs = Some i"
proof (cases "find_idx P xs")
  case None
  with assms(1,2) show ?thesis by (auto simp: find_idx_None)
next
  case (Some k)
  from find_idx_SomeD [OF this] assms have "k = i"
    by (metis linorder_neqE_nat)
  with Some show ?thesis by simp
qed

lemma find_idx_Some_iff:
  "find_idx P xs = Some i \<longleftrightarrow> i < length xs \<and> P (xs ! i) \<and> (\<forall>j<i. \<not> P (xs ! j))"
  by (blast intro: find_idx_SomeI dest: find_idx_SomeD)

lemma find_idx_bound: "find_idx P xs = Some i \<Longrightarrow> i < length xs"
  by (simp add: find_idx_Some_iff)

lemma find_idx_sat: "find_idx P xs = Some i \<Longrightarrow> P (xs ! i)"
  by (simp add: find_idx_Some_iff)

lemma find_idx_ex: "find_idx P xs \<noteq> None \<longleftrightarrow> (\<exists>i<length xs. P (xs ! i))"
  by (simp add: find_idx_None) (metis in_set_conv_nth)

fun scan_best ::
  "('a \<Rightarrow> bool) \<Rightarrow> ('a \<Rightarrow> 'a \<Rightarrow> bool) \<Rightarrow> 'a list \<Rightarrow> nat \<Rightarrow> (nat \<times> 'a) option \<Rightarrow> (nat \<times> 'a) option"
where
  "scan_best ok better [] i b = b"
| "scan_best ok better (x # xs) i b =
     scan_best ok better xs (Suc i)
       (if ok x \<and> (case b of None \<Rightarrow> True | Some (_, y) \<Rightarrow> better x y) then Some (i, x) else b)"

definition best_idx :: "('a \<Rightarrow> bool) \<Rightarrow> ('a \<Rightarrow> 'a \<Rightarrow> bool) \<Rightarrow> 'a list \<Rightarrow> nat option" where
  "best_idx ok better xs = map_option fst (scan_best ok better xs 0 None)"

lemma scan_best_in:
  "scan_best ok better xs n b = Some (i, x) \<Longrightarrow>
     b = Some (i, x) \<or> (n \<le> i \<and> i - n < length xs \<and> x = xs ! (i - n) \<and> ok x)"
proof (induction xs arbitrary: n b)
  case Nil
  then show ?case by simp
next
  case (Cons y ys)
  let ?b = "if ok y \<and> (case b of None \<Rightarrow> True | Some (_, z) \<Rightarrow> better y z) then Some (n, y) else b"
  from Cons.prems have "scan_best ok better ys (Suc n) ?b = Some (i, x)" by simp
  from Cons.IH [OF this] show ?case
  proof
    assume "?b = Some (i, x)"
    then show ?thesis by (auto split: if_splits)
  next
    assume h: "Suc n \<le> i \<and> i - Suc n < length ys \<and> x = ys ! (i - Suc n) \<and> ok x"
    then have "Suc n \<le> i" by simp
    then have "i - n = Suc (i - Suc n)" by arith
    with h have "x = (y # ys) ! (i - n)" "i - n < length (y # ys)" "n \<le> i"
      by simp_all
    with h show ?thesis by blast
  qed
qed

lemma scan_best_None_iff:
  "scan_best ok better xs n b = None \<longleftrightarrow> b = None \<and> (\<forall>x\<in>set xs. \<not> ok x)"
  by (induction xs arbitrary: n b) (auto split: option.splits)

lemma scan_best_minimal:
  assumes irr: "\<And>x y. better x y \<longleftrightarrow> key x < (key y :: 'k::linorder)"
  shows "scan_best ok better xs n b = Some (i, x) \<Longrightarrow>
    (\<forall>y\<in>set xs. ok y \<longrightarrow> \<not> better y x) \<and> (\<forall>j z. b = Some (j, z) \<longrightarrow> \<not> better z x)"
proof (induction xs arbitrary: n b)
  case Nil
  then show ?case by (auto simp: irr)
next
  case (Cons y ys)
  let ?b = "if ok y \<and> (case b of None \<Rightarrow> True | Some (_, z) \<Rightarrow> better y z) then Some (n, y) else b"
  from Cons.prems have "scan_best ok better ys (Suc n) ?b = Some (i, x)" by simp
  from Cons.IH [OF this] show ?case
    by (auto simp: irr split: if_splits option.splits) (fastforce+)?
qed

lemma best_idx_None: "best_idx ok better xs = None \<longleftrightarrow> (\<forall>x\<in>set xs. \<not> ok x)"
  by (simp add: best_idx_def scan_best_None_iff)

lemma best_idx_bound: "best_idx ok better xs = Some i \<Longrightarrow> i < length xs"
  by (auto simp: best_idx_def dest: scan_best_in)

lemma best_idx_ok: "best_idx ok better xs = Some i \<Longrightarrow> ok (xs ! i)"
  by (auto simp: best_idx_def dest: scan_best_in)

lemma best_idx_minimal:
  assumes "best_idx ok (\<lambda>x y. key x < (key y :: 'k::linorder)) xs = Some i"
    and "j < length xs" "ok (xs ! j)"
  shows "key (xs ! i) \<le> key (xs ! j)"
proof -
  from assms(1) obtain x where x: "scan_best ok (\<lambda>x y. key x < key y) xs 0 None = Some (i, x)"
    by (auto simp: best_idx_def)
  from scan_best_in [OF this] have "x = xs ! i" by simp
  moreover have "\<forall>y\<in>set xs. ok y \<longrightarrow> \<not> key y < key x"
    using scan_best_minimal [OF refl x] by blast
  ultimately show ?thesis using assms(2,3) by (auto simp: not_less)
qed

definition sweep :: "('a \<Rightarrow> bool) \<Rightarrow> 'a \<Rightarrow> 'a list \<Rightarrow> 'a list" where
  "sweep p blank = map (\<lambda>e. if p e then blank else e)"

lemma length_sweep [simp]: "length (sweep p blank es) = length es"
  by (simp add: sweep_def)

lemma nth_sweep [simp]:
  "i < length es \<Longrightarrow> sweep p blank es ! i = (if p (es ! i) then blank else es ! i)"
  by (simp add: sweep_def)

lemma sweep_idem: "\<not> p blank \<Longrightarrow> sweep p blank (sweep p blank es) = sweep p blank es"
  by (simp add: sweep_def)

definition used_count :: "('a \<Rightarrow> bool) \<Rightarrow> 'a list \<Rightarrow> nat" where
  "used_count used es = length (filter used es)"

lemma used_count_le: "used_count used es \<le> length es"
  by (simp add: used_count_def)

lemma used_count_update:
  "i < length es \<Longrightarrow>
     used_count u (es[i := e]) + of_bool (u (es ! i)) = used_count u es + of_bool (u e)"
proof (induction es arbitrary: i)
  case Nil
  then show ?case by simp
next
  case (Cons a es)
  show ?case
  proof (cases i)
    case 0
    then show ?thesis by (simp add: used_count_def)
  next
    case (Suc j)
    with Cons.IH [of j] Cons.prems show ?thesis by (auto simp: used_count_def)
  qed
qed

lemma used_count_replicate [simp]: "\<not> u b \<Longrightarrow> used_count u (replicate n b) = 0"
  by (simp add: used_count_def)

section \<open>Tables of keyed slots\<close>

definition slot_find :: "('e \<Rightarrow> bool) \<Rightarrow> ('e \<Rightarrow> 'k) \<Rightarrow> 'e list \<Rightarrow> 'k \<Rightarrow> nat option" where
  "slot_find used key es k = find_idx (\<lambda>e. used e \<and> key e = k) es"

definition slot_get :: "('e \<Rightarrow> bool) \<Rightarrow> ('e \<Rightarrow> 'k) \<Rightarrow> 'e list \<Rightarrow> 'k \<Rightarrow> 'e option" where
  "slot_get used key es k = map_option (nth es) (slot_find used key es k)"

definition slot_uniq :: "('e \<Rightarrow> bool) \<Rightarrow> ('e \<Rightarrow> 'k) \<Rightarrow> 'e list \<Rightarrow> bool" where
  "slot_uniq used key es \<longleftrightarrow> distinct (map key (filter used es))"

lemma slot_uniq_iff:
  "slot_uniq used key es \<longleftrightarrow>
     (\<forall>i<length es. \<forall>j<length es. used (es ! i) \<longrightarrow> used (es ! j) \<longrightarrow> key (es ! i) = key (es ! j) \<longrightarrow> i = j)"
proof (induction es)
  case Nil
  then show ?case by (simp add: slot_uniq_def)
next
  case (Cons a es)
  have "slot_uniq used key (a # es) \<longleftrightarrow>
      (used a \<longrightarrow> (\<forall>x\<in>set es. used x \<longrightarrow> key x \<noteq> key a)) \<and> slot_uniq used key es"
    by (cases "used a") (auto simp: slot_uniq_def image_iff)
  then show ?case
    unfolding Cons.IH by (auto simp: all_set_conv_all_nth All_less_Suc2)
qed

lemma slot_find_bound: "slot_find used key es k = Some i \<Longrightarrow> i < length es"
  by (simp add: slot_find_def find_idx_bound)

lemma slot_find_sat: "slot_find used key es k = Some i \<Longrightarrow> used (es ! i) \<and> key (es ! i) = k"
  unfolding slot_find_def by (drule find_idx_sat) simp

lemma slot_find_None:
  "slot_find used key es k = None \<longleftrightarrow> (\<forall>e\<in>set es. used e \<longrightarrow> key e \<noteq> k)"
  by (auto simp: slot_find_def find_idx_None)

lemma slot_get_None: "slot_get used key es k = None \<longleftrightarrow> slot_find used key es k = None"
  by (simp add: slot_get_def)

lemma slot_find_uniq:
  assumes "slot_uniq used key es" "i < length es" "used (es ! i)" "key (es ! i) = k"
  shows "slot_find used key es k = Some i"
  unfolding slot_find_def
proof (rule find_idx_SomeI)
  show "i < length es" by fact
  show "used (es ! i) \<and> key (es ! i) = k" using assms by simp
  fix j assume j: "j < i"
  with assms(2) have "j < length es" by simp
  with assms j show "\<not> (used (es ! j) \<and> key (es ! j) = k)"
    unfolding slot_uniq_iff by (metis less_irrefl)
qed

lemma slot_uniq_map:
  assumes "slot_uniq used key es" "\<And>e. used (f e) \<Longrightarrow> used e \<and> key (f e) = key e"
  shows "slot_uniq used key (map f es)"
  using assms unfolding slot_uniq_iff length_map by (metis nth_map)

lemma slot_get_iff:
  assumes "slot_uniq used key es"
  shows "slot_get used key es k = Some e \<longleftrightarrow>
    (\<exists>i<length es. es ! i = e \<and> used e \<and> key e = k)"
  using assms
  by (auto simp: slot_get_def slot_find_uniq dest: slot_find_bound slot_find_sat)


lemma slot_get_map:
  assumes u: "slot_uniq used key es"
    and f: "\<And>e. used (f e) \<Longrightarrow> used e \<and> key (f e) = key e"
  shows "slot_get used key (map f es) k =
    (case slot_get used key es k of None \<Rightarrow> None | Some e \<Rightarrow> if used (f e) then Some (f e) else None)"
proof (rule option_ext)
  fix x
  have u': "slot_uniq used key (map f es)" using u f by (rule slot_uniq_map)
  have "slot_get used key (map f es) k = Some x \<longleftrightarrow>
      (\<exists>i<length es. f (es ! i) = x \<and> used x \<and> key x = k)"
    unfolding slot_get_iff [OF u'] by auto
  also have "\<dots> \<longleftrightarrow> (\<exists>e. slot_get used key es k = Some e \<and> f e = x \<and> used x)"
    unfolding slot_get_iff [OF u] using f by metis
  also have "\<dots> \<longleftrightarrow> (case slot_get used key es k of None \<Rightarrow> None
      | Some e \<Rightarrow> if used (f e) then Some (f e) else None) = Some x"
    by (auto split: option.splits)
  finally show "slot_get used key (map f es) k = Some x \<longleftrightarrow>
    (case slot_get used key es k of None \<Rightarrow> None
      | Some e \<Rightarrow> if used (f e) then Some (f e) else None) = Some x" .
qed

lemma slot_dom:
  "slot_uniq used key es \<Longrightarrow> dom (slot_get used key es) = key ` set (filter used es)"
  by (auto simp: dom_def slot_get_iff in_set_conv_nth image_iff)

lemma slot_dom_finite [simp]: "slot_uniq used key es \<Longrightarrow> finite (dom (slot_get used key es))"
  by (simp add: slot_dom)

lemma slot_dom_card: "slot_uniq used key es \<Longrightarrow> card (dom (slot_get used key es)) = used_count used es"
  using distinct_card [of "map key (filter used es)"]
  by (simp add: slot_dom) (simp add: slot_uniq_def used_count_def)

text \<open>
  The slot an insertion takes: the one that already has the key, else the first free one,
  else the victim of the eviction scan. The tables that evict share this shape.
\<close>

definition slot_pick ::
  "('e \<Rightarrow> bool) \<Rightarrow> ('e \<Rightarrow> 'k) \<Rightarrow> ('e \<Rightarrow> 'e \<Rightarrow> bool) \<Rightarrow> 'e list \<Rightarrow> 'k \<Rightarrow> nat option"
where
  "slot_pick used key better es k =
     or_else (slot_find used key es k)
       (or_else (find_idx (\<lambda>e. \<not> used e) es) (best_idx used better es))"

lemma best_idx_all_ok:
  assumes "find_idx (\<lambda>e. \<not> used e) es = None"
  shows "best_idx (\<lambda>_. True) better es = best_idx used better es"
proof -
  have "scan_best (\<lambda>_. True) better es n b = scan_best used better es n b" if "\<forall>e\<in>set es. used e" for n b
    using that by (induction es arbitrary: n b) auto
  moreover have "\<forall>e\<in>set es. used e" using assms by (simp add: find_idx_None)
  ultimately show ?thesis by (simp add: best_idx_def)
qed

lemma slot_pick_oldest:
  "slot_find used key es k = None \<Longrightarrow>
   or_else (find_idx (\<lambda>e. \<not> used e) es) (best_idx (\<lambda>_. True) better es) = slot_pick used key better es k"
  using best_idx_all_ok [of used es]
  by (cases "find_idx (\<lambda>e. \<not> used e) es") (simp_all add: slot_pick_def)

definition slot_room :: "('e \<Rightarrow> bool) \<Rightarrow> ('e \<Rightarrow> 'k) \<Rightarrow> 'e list \<Rightarrow> 'k \<Rightarrow> bool" where
  "slot_room used key es k \<longleftrightarrow> slot_find used key es k \<noteq> None \<or> (\<exists>e\<in>set es. \<not> used e)"

lemma slot_pick_bound: "slot_pick used key better es k = Some i \<Longrightarrow> i < length es"
  by (auto simp: slot_pick_def or_else_def split: option.splits
      dest: slot_find_bound find_idx_bound best_idx_bound)

lemma slot_pick_ex: "es \<noteq> [] \<Longrightarrow> \<exists>i. slot_pick used key better es k = Some i"
proof -
  assume "es \<noteq> []"
  then have "find_idx (\<lambda>e. \<not> used e) es \<noteq> None \<or> best_idx used better es \<noteq> None"
    by (cases es) (auto simp: find_idx_None best_idx_None)
  then have "slot_pick used key better es k \<noteq> None"
    by (auto simp: slot_pick_def or_else_None)
  then show ?thesis by blast
qed

lemma slot_pick_cases:
  assumes "slot_pick used key better es k = Some i"
  obtains (hit) "slot_find used key es k = Some i" "used (es ! i)" "key (es ! i) = k"
  | (free) "slot_find used key es k = None" "find_idx (\<lambda>e. \<not> used e) es = Some i" "\<not> used (es ! i)"
  | (evict) "slot_find used key es k = None" "\<forall>e\<in>set es. used e"
      "best_idx used better es = Some i" "used (es ! i)"
  using assms
  by (auto simp: slot_pick_def or_else_def find_idx_None split: option.splits
      dest: slot_find_sat find_idx_sat best_idx_ok)

text \<open>
  The laws of a table of keyed slots: \<open>blank\<close> is the value-initialised slot that a removal
  or an expiry stores. Distinctness of the keys in use is what makes the first match of a
  scan the only match.
\<close>

locale slot_table =
  fixes used :: "'e \<Rightarrow> bool"
    and key :: "'e \<Rightarrow> 'k"
    and blank :: "'e"
  assumes blank_free [simp]: "\<not> used blank"
begin

lemma uniq_put:
  assumes "slot_uniq used key es"
    and "\<And>j. j < length es \<Longrightarrow> j \<noteq> i \<Longrightarrow> used (es ! j) \<Longrightarrow> used e \<Longrightarrow> key (es ! j) \<noteq> key e"
  shows "slot_uniq used key (es[i := e])"
  using assms unfolding slot_uniq_iff length_list_update
  by (metis nth_list_update_eq nth_list_update_neq)

lemma get_put:
  assumes u: "slot_uniq used key es" and i: "i < length es" and e: "used e"
    and fresh: "\<And>j. j < length es \<Longrightarrow> j \<noteq> i \<Longrightarrow> used (es ! j) \<Longrightarrow> key (es ! j) \<noteq> key e"
  shows "slot_get used key (es[i := e]) k =
    (if k = key e then Some e
     else if used (es ! i) \<and> key (es ! i) = k then None
     else slot_get used key es k)"
proof -
  have u': "slot_uniq used key (es[i := e])"
    using u fresh by (rule uniq_put)
  show ?thesis
  proof (rule option_ext)
    fix x
    have "slot_get used key (es[i := e]) k = Some x \<longleftrightarrow>
      (k = key e \<and> x = e) \<or> (\<exists>j<length es. j \<noteq> i \<and> es ! j = x \<and> used x \<and> key x = k)"
      unfolding slot_get_iff [OF u'] using i e by (auto simp: nth_list_update)
    moreover have "slot_get used key es k = Some x \<longleftrightarrow>
      (es ! i = x \<and> used x \<and> key x = k) \<or> (\<exists>j<length es. j \<noteq> i \<and> es ! j = x \<and> used x \<and> key x = k)"
      unfolding slot_get_iff [OF u] using i by auto
    moreover have "\<not> (\<exists>j<length es. j \<noteq> i \<and> es ! j = x \<and> used x \<and> key x = key e)"
      using fresh by blast
    moreover have "\<not> (\<exists>j<length es. j \<noteq> i \<and> es ! j = x \<and> used x \<and> key x = key (es ! i))" if "used (es ! i)"
      using u i that unfolding slot_uniq_iff by blast
    ultimately show "slot_get used key (es[i := e]) k = Some x \<longleftrightarrow>
      (if k = key e then Some e
       else if used (es ! i) \<and> key (es ! i) = k then None
       else slot_get used key es k) = Some x"
      by auto
  qed
qed

lemma get_put_same_key:
  assumes u: "slot_uniq used key es" and f: "slot_find used key es k = Some i"
    and e: "used e" "key e = k"
  shows "slot_uniq used key (es[i := e])"
    and "slot_get used key (es[i := e]) = (slot_get used key es)(k := Some e)"
proof -
  have i: "i < length es" "used (es ! i)" "key (es ! i) = k"
    using slot_find_bound [OF f] slot_find_sat [OF f] by auto
  have fresh: "\<And>j. j < length es \<Longrightarrow> j \<noteq> i \<Longrightarrow> used (es ! j) \<Longrightarrow> key (es ! j) \<noteq> key e"
    using u i e unfolding slot_uniq_iff by metis
  show "slot_uniq used key (es[i := e])" using u fresh by (rule uniq_put)
  show "slot_get used key (es[i := e]) = (slot_get used key es)(k := Some e)"
    using get_put [OF u i(1) e(1) fresh] i e by auto
qed

lemma get_put_new_key:
  assumes u: "slot_uniq used key es" and f: "slot_find used key es (key e) = None"
    and i: "i < length es" and e: "used e"
  shows "slot_uniq used key (es[i := e])"
    and "slot_get used key (es[i := e]) k =
      (if k = key e then Some e
       else if used (es ! i) \<and> key (es ! i) = k then None
       else slot_get used key es k)"
proof -
  have fresh: "\<And>j. j < length es \<Longrightarrow> j \<noteq> i \<Longrightarrow> used (es ! j) \<Longrightarrow> key (es ! j) \<noteq> key e"
    using f by (auto simp: slot_find_None)
  show "slot_uniq used key (es[i := e])" using u fresh by (rule uniq_put)
  show "slot_get used key (es[i := e]) k =
      (if k = key e then Some e
       else if used (es ! i) \<and> key (es ! i) = k then None
       else slot_get used key es k)"
    by (rule get_put [OF u i e fresh])
qed

lemma uniq_sweep:
  "slot_uniq used key es \<Longrightarrow> slot_uniq used key (sweep p blank es)"
  by (auto simp: slot_uniq_iff)

lemma get_sweep:
  assumes u: "slot_uniq used key es"
  shows "slot_get used key (sweep p blank es) k =
    (case slot_get used key es k of None \<Rightarrow> None | Some e \<Rightarrow> if p e then None else Some e)"
proof -
  have "slot_get used key (sweep p blank es) k = Some x \<longleftrightarrow>
    slot_get used key es k = Some x \<and> \<not> p x" for x
    unfolding slot_get_iff [OF u] slot_get_iff [OF uniq_sweep [OF u]]
    using blank_free by (auto split: if_splits)
  then show ?thesis
    by (intro option_ext) (auto split: option.splits)
qed

lemma uniq_clear:
  "slot_uniq used key es \<Longrightarrow> slot_uniq used key (es[i := blank])"
  by (rule uniq_put) auto

lemma get_clear:
  assumes u: "slot_uniq used key es" and f: "slot_find used key es k = Some i"
  shows "slot_get used key (es[i := blank]) = (slot_get used key es)(k := None)"
proof -
  have i: "i < length es" "used (es ! i)" "key (es ! i) = k"
    using slot_find_bound [OF f] slot_find_sat [OF f] by auto
  show ?thesis
  proof (intro ext option_ext)
    fix k' x
    have "slot_get used key (es[i := blank]) k' = Some x \<longleftrightarrow>
      (\<exists>j<length es. j \<noteq> i \<and> es ! j = x \<and> used x \<and> key x = k')"
      unfolding slot_get_iff [OF uniq_clear [OF u]] length_list_update
      by (metis blank_free nth_list_update_eq nth_list_update_neq)
    moreover have "slot_get used key es k' = Some x \<longleftrightarrow>
      (es ! i = x \<and> used x \<and> key x = k') \<or> (\<exists>j<length es. j \<noteq> i \<and> es ! j = x \<and> used x \<and> key x = k')"
      unfolding slot_get_iff [OF u] using i by auto
    moreover have "\<not> (\<exists>j<length es. j \<noteq> i \<and> es ! j = x \<and> used x \<and> key x = k)"
      using u i unfolding slot_uniq_iff by blast
    ultimately show "slot_get used key (es[i := blank]) k' = Some x \<longleftrightarrow>
      ((slot_get used key es)(k := None)) k' = Some x"
      using i by auto
  qed
qed

lemma put_pick:
  assumes u: "slot_uniq used key es" and p: "slot_pick used key better es k = Some i"
    and e: "used e" "key e = k"
  shows "slot_uniq used key (es[i := e])"
    and "slot_get used key (es[i := e]) k' =
      (if k' = k then Some e
       else if used (es ! i) \<and> key (es ! i) = k' then None
       else slot_get used key es k')"
proof -
  have "slot_uniq used key (es[i := e]) \<and> slot_get used key (es[i := e]) k' =
      (if k' = k then Some e
       else if used (es ! i) \<and> key (es ! i) = k' then None
       else slot_get used key es k')"
    using p
  proof (cases rule: slot_pick_cases)
    case hit
    then show ?thesis using get_put_same_key [OF u hit(1) e] by simp
  next
    case free
    then show ?thesis
      using get_put_new_key [OF u, of e i] e slot_pick_bound [OF p] by simp
  next
    case evict
    then show ?thesis
      using get_put_new_key [OF u, of e i] e slot_pick_bound [OF p] by simp
  qed
  then show "slot_uniq used key (es[i := e])"
    and "slot_get used key (es[i := e]) k' =
      (if k' = k then Some e
       else if used (es ! i) \<and> key (es ! i) = k' then None
       else slot_get used key es k')" by blast+
qed

lemma put_pick_room:
  assumes u: "slot_uniq used key es" and p: "slot_pick used key better es k = Some i"
    and e: "used e" "key e = k" and r: "slot_room used key es k" and k: "k' \<noteq> k"
  shows "slot_get used key (es[i := e]) k' = slot_get used key es k'"
  using p
proof (cases rule: slot_pick_cases)
  case evict
  with r show ?thesis by (simp add: slot_room_def)
qed (use put_pick(2) [OF u p e, of k'] k in simp_all)

lemma put_pick_fits:
  assumes u: "slot_uniq used key es" and p: "slot_pick used key better es k = Some i"
    and e: "used e" "key e = k" and c: "card (insert k (dom (slot_get used key es))) \<le> length es"
  shows "slot_get used key (es[i := e]) = (slot_get used key es)(k := Some e)"
proof -
  have "slot_room used key es k"
  proof (rule ccontr)
    assume n: "\<not> slot_room used key es k"
    then have "k \<notin> dom (slot_get used key es)" "filter used es = es"
      by (auto simp: slot_room_def slot_get_def filter_id_conv)
    then have "card (insert k (dom (slot_get used key es))) = Suc (length es)"
      using u by (simp add: slot_dom_card used_count_def)
    with c show False by simp
  qed
  then show ?thesis
    using put_pick_room [OF u p e] put_pick(2) [OF u p e, of k] by (intro ext) simp
qed

lemma uniq_blank [simp]: "slot_uniq used key (replicate n blank)"
  by (simp add: slot_uniq_def)

lemma get_blank [simp]: "slot_get used key (replicate n blank) = Map.empty"
  by (rule ext) (simp add: slot_get_None slot_find_None)

end

text \<open>A component driven by a sequence of operations, and the results it gave.\<close>

fun run_results :: "('s \<Rightarrow> 'o \<Rightarrow> 's \<times> 'r) \<Rightarrow> 's \<Rightarrow> 'o list \<Rightarrow> 's \<times> 'r list" where
  "run_results f s [] = (s, [])"
| "run_results f s (x # xs) = (let (s, r) = f s x; (s, rs) = run_results f s xs in (s, r # rs))"

section \<open>The contract of a bounded cache\<close>

text \<open>
  What a client may rely on when it stores into a table of bounded size: the entry just
  stored is found, an entry of another key is either kept as it was or evicted, and nothing
  is ever invented. \<open>room s k\<close> says that storing under \<open>k\<close> evicts nobody.
\<close>

fun put_all :: "('k \<Rightarrow> 'v \<Rightarrow> 's \<Rightarrow> 's) \<Rightarrow> ('k \<times> 'v) list \<Rightarrow> 's \<Rightarrow> 's" where
  "put_all put [] s = s"
| "put_all put ((k, v) # kvs) s = put_all put kvs (put k v s)"

locale bounded_cache =
  fixes inv :: "'s \<Rightarrow> bool"
    and room :: "'s \<Rightarrow> 'k \<Rightarrow> bool"
    and get :: "'s \<Rightarrow> 'k \<Rightarrow> 'v option"
    and put :: "'k \<Rightarrow> 'v \<Rightarrow> 's \<Rightarrow> 's"
  assumes put_inv: "inv s \<Longrightarrow> inv (put k v s)"
    and put_get: "inv s \<Longrightarrow> get (put k v s) k = Some v"
    and put_other: "inv s \<Longrightarrow> k' \<noteq> k \<Longrightarrow> get (put k v s) k' = get s k' \<or> get (put k v s) k' = None"
    and put_room: "inv s \<Longrightarrow> room s k \<Longrightarrow> k' \<noteq> k \<Longrightarrow> get (put k v s) k' = get s k'"
begin

lemma put_all_inv: "inv s \<Longrightarrow> inv (put_all put kvs s)"
proof (induction kvs arbitrary: s)
  case (Cons kv kvs)
  then show ?case by (cases kv) (simp add: put_inv)
qed simp

lemma put_all_origin:
  "inv s \<Longrightarrow> get (put_all put kvs s) k = Some v \<Longrightarrow> get s k = Some v \<or> (k, v) \<in> set kvs"
proof (induction kvs arbitrary: s)
  case Nil
  then show ?case by simp
next
  case (Cons kv kvs)
  obtain k' v' where kv: "kv = (k', v')" by (cases kv)
  with Cons have "get (put k' v' s) k = Some v \<or> (k, v) \<in> set kvs"
    by (simp add: put_inv)
  with Cons.prems(1) kv show ?case
    using put_get [of s k' v'] put_other [of s k k' v'] by (cases "k = k'") auto
qed

lemma put_all_last: "inv s \<Longrightarrow> get (put_all put (kvs @ [(k, v)]) s) k = Some v"
proof (induction kvs arbitrary: s)
  case Nil
  then show ?case by (simp add: put_get)
next
  case (Cons kv kvs)
  then show ?case by (cases kv) (simp add: put_inv)
qed

end

end
