(* ===== verification/ZbTables.thy ===== *)
theory ZbTables
  imports ZbSlots
begin

text \<open>
  \<open>ZigbeeTables.h\<close> and \<open>ZigbeeTables.cpp\<close>: the neighbor table and the route table, over
  caller-owned storage. A table is the array it was given (\<open>None\<close> for \<open>entries_ == nullptr\<close>,
  \<open>capacity_\<close> being the length of the array otherwise); an operation that mutates an entry
  returns the new array, one that returns a pointer to an entry returns its index.
\<close>

section \<open>Neighbor table\<close>

abbreviation (input) "ZB_DEVICE_COORDINATOR \<equiv> (0 :: u8)"
abbreviation (input) "ZB_DEVICE_ROUTER \<equiv> (1 :: u8)"
abbreviation (input) "ZB_DEVICE_END_DEVICE \<equiv> (2 :: u8)"
abbreviation (input) "ZB_DEVICE_UNKNOWN \<equiv> (0xFF :: u8)"

abbreviation (input) "ZB_REL_PARENT \<equiv> (0 :: u8)"
abbreviation (input) "ZB_REL_CHILD \<equiv> (1 :: u8)"
abbreviation (input) "ZB_REL_SIBLING \<equiv> (2 :: u8)"
abbreviation (input) "ZB_REL_NONE \<equiv> (3 :: u8)"
abbreviation (input) "ZB_REL_PREVIOUS_CHILD \<equiv> (4 :: u8)"

record neighbor =
  nb_used :: bool
  nb_nwk :: u16
  nb_ieee :: u64
  nb_deviceType :: u8
  nb_relationship :: u8
  nb_depth :: u8
  nb_lqi :: u8
  nb_incomingCost :: u8
  nb_outgoingCost :: u8
  nb_rxOnWhenIdle :: bool
  nb_permitJoining :: bool
  nb_lastSeenMs :: u32

definition neighbor0 :: neighbor where
  "neighbor0 = \<lparr>nb_used = False, nb_nwk = 0, nb_ieee = 0, nb_deviceType = 0,
     nb_relationship = 0, nb_depth = 0, nb_lqi = 0, nb_incomingCost = 0, nb_outgoingCost = 0,
     nb_rxOnWhenIdle = False, nb_permitJoining = False, nb_lastSeenMs = 0\<rparr>"

type_synonym neighbor_table = "neighbor list option"

interpretation nbr: slot_table nb_used nb_nwk neighbor0
  by unfold_locales (simp add: neighbor0_def)

definition nt_clear :: "neighbor_table \<Rightarrow> neighbor_table" where
  "nt_clear t = map_option (map (\<lambda>_. neighbor0)) t"

definition nt_begin :: "neighbor_table \<Rightarrow> neighbor_table" where
  "nt_begin storage = nt_clear storage"

definition nt_count :: "neighbor_table \<Rightarrow> nat" where
  "nt_count t = (case t of None \<Rightarrow> 0 | Some es \<Rightarrow> used_count nb_used es)"

definition nt_slot :: "neighbor_table \<Rightarrow> nat \<Rightarrow> neighbor option" where
  "nt_slot t i = (case t of None \<Rightarrow> None | Some es \<Rightarrow> if i < length es then Some (es ! i) else None)"

definition nt_findByNwk :: "neighbor_table \<Rightarrow> u16 \<Rightarrow> nat option" where
  "nt_findByNwk t a = (case t of None \<Rightarrow> None | Some es \<Rightarrow> slot_find nb_used nb_nwk es a)"

definition nt_findByIeee :: "neighbor_table \<Rightarrow> u64 \<Rightarrow> nat option" where
  "nt_findByIeee t a = (case t of None \<Rightarrow> None | Some es \<Rightarrow> slot_find nb_used nb_ieee es a)"

definition nt_firstFree :: "neighbor_table \<Rightarrow> nat option" where
  "nt_firstFree t = (case t of None \<Rightarrow> None | Some es \<Rightarrow> find_idx (\<lambda>e. \<not> nb_used e) es)"

definition nt_leastRecentlySeen :: "neighbor_table \<Rightarrow> nat option" where
  "nt_leastRecentlySeen t = (case t of None \<Rightarrow> None | Some es \<Rightarrow>
     best_idx nb_used (\<lambda>e b. nb_lastSeenMs e < nb_lastSeenMs b) es)"

definition nt_at :: "neighbor_table \<Rightarrow> u16 \<Rightarrow> neighbor option" where
  "nt_at t a = (case t of None \<Rightarrow> None | Some es \<Rightarrow> slot_get nb_used nb_nwk es a)"

definition nt_victim :: "neighbor_table \<Rightarrow> u16 \<Rightarrow> u64 \<Rightarrow> nat option" where
  "nt_victim t nwk ieee =
     or_else (nt_findByNwk t nwk)
       (or_else (if ieee \<noteq> 0 then nt_findByIeee t ieee else None)
         (or_else (nt_firstFree t) (nt_leastRecentlySeen t)))"

definition nt_fill ::
  "neighbor \<Rightarrow> u16 \<Rightarrow> u64 \<Rightarrow> u8 \<Rightarrow> u8 \<Rightarrow> u8 \<Rightarrow> u8 \<Rightarrow> bool \<Rightarrow> bool \<Rightarrow> u32 \<Rightarrow> neighbor"
where
  "nt_fill e nwk ieee deviceType relationship depth lqi rxOn permit now =
     (let fresh = \<not> nb_used e \<or> nb_nwk e \<noteq> nwk;
          e = e\<lparr>nb_used := True, nb_nwk := nwk, nb_ieee := ieee, nb_deviceType := deviceType,
                nb_relationship := relationship, nb_depth := depth, nb_lqi := lqi\<rparr>;
          e = (if fresh then e\<lparr>nb_incomingCost := 0, nb_outgoingCost := 0\<rparr> else e)
      in e\<lparr>nb_rxOnWhenIdle := rxOn, nb_permitJoining := permit, nb_lastSeenMs := now\<rparr>)"

definition nt_upsert ::
  "neighbor_table \<Rightarrow> u16 \<Rightarrow> u64 \<Rightarrow> u8 \<Rightarrow> u8 \<Rightarrow> u8 \<Rightarrow> u8 \<Rightarrow> bool \<Rightarrow> bool \<Rightarrow> u32
     \<Rightarrow> neighbor_table \<times> nat option"
where
  "nt_upsert t nwk ieee deviceType relationship depth lqi rxOn permit now =
     (case nt_victim t nwk ieee of
        None \<Rightarrow> (t, None)
      | Some i \<Rightarrow>
          (map_option (\<lambda>es. es[i := nt_fill (es ! i) nwk ieee deviceType relationship depth lqi
                                 rxOn permit now]) t,
           Some i))"

definition nt_stale :: "u32 \<Rightarrow> u16 \<Rightarrow> neighbor \<Rightarrow> bool" where
  "nt_stale cutoff spare n \<longleftrightarrow>
     nb_used n \<and> nb_nwk n \<noteq> spare \<and>
     (nb_deviceType n = ZB_DEVICE_ROUTER \<or> nb_deviceType n = ZB_DEVICE_COORDINATOR) \<and>
     nb_lastSeenMs n < cutoff \<and> nb_relationship n \<noteq> ZB_REL_PREVIOUS_CHILD"

definition nt_age :: "neighbor \<Rightarrow> neighbor" where
  "nt_age n =
     (if nb_relationship n = ZB_REL_CHILD \<and> nb_ieee n \<noteq> 0
      then n\<lparr>nb_relationship := ZB_REL_PREVIOUS_CHILD, nb_incomingCost := 0,
             nb_outgoingCost := 0, nb_permitJoining := False\<rparr>
      else neighbor0)"

definition nt_removeStaleRouters :: "neighbor_table \<Rightarrow> u32 \<Rightarrow> u16 \<Rightarrow> neighbor_table \<times> nat" where
  "nt_removeStaleRouters t cutoff spare =
     (map_option (map (\<lambda>n. if nt_stale cutoff spare n then nt_age n else n)) t,
      case t of None \<Rightarrow> 0 | Some es \<Rightarrow> length (filter (nt_stale cutoff spare) es))"

definition nt_removeByNwk :: "neighbor_table \<Rightarrow> u16 \<Rightarrow> neighbor_table \<times> bool" where
  "nt_removeByNwk t a =
     (case nt_findByNwk t a of
        None \<Rightarrow> (t, False)
      | Some i \<Rightarrow> (map_option (\<lambda>es. es[i := neighbor0]) t, True))"

definition nt_removeOlderThan :: "neighbor_table \<Rightarrow> u32 \<Rightarrow> neighbor_table \<times> nat" where
  "nt_removeOlderThan t cutoff =
     (map_option (sweep (\<lambda>n. nb_used n \<and> nb_lastSeenMs n < cutoff) neighbor0) t,
      case t of None \<Rightarrow> 0
      | Some es \<Rightarrow> length (filter (\<lambda>n. nb_used n \<and> nb_lastSeenMs n < cutoff) es))"

definition nt_joinable :: "neighbor \<Rightarrow> bool" where
  "nt_joinable e \<longleftrightarrow> nb_used e \<and> nb_permitJoining e \<and>
     (nb_deviceType e = ZB_DEVICE_COORDINATOR \<or> nb_deviceType e = ZB_DEVICE_ROUTER)"

definition nt_bestParentCandidate :: "neighbor_table \<Rightarrow> nat option" where
  "nt_bestParentCandidate t =
     (case t of None \<Rightarrow> None
      | Some es \<Rightarrow> best_idx nt_joinable
          (\<lambda>e b. nb_lqi e > nb_lqi b \<or> nb_lqi e = nb_lqi b \<and> nb_depth e < nb_depth b) es)"

section \<open>Route table\<close>

abbreviation (input) "ZB_ROUTE_ACTIVE \<equiv> (0 :: u8)"
abbreviation (input) "ZB_ROUTE_DISCOVERY_UNDERWAY \<equiv> (1 :: u8)"
abbreviation (input) "ZB_ROUTE_DISCOVERY_FAILED \<equiv> (2 :: u8)"
abbreviation (input) "ZB_ROUTE_INACTIVE \<equiv> (3 :: u8)"
abbreviation (input) "ZB_ROUTE_VALIDATION_UNDERWAY \<equiv> (4 :: u8)"

record route =
  rt_used :: bool
  rt_dst :: u16
  rt_nextHop :: u16
  rt_status :: u8
  rt_manyToOne :: bool
  rt_recordRequired :: bool
  rt_updatedMs :: u32

definition route0 :: route where
  "route0 = \<lparr>rt_used = False, rt_dst = 0, rt_nextHop = 0, rt_status = 0, rt_manyToOne = False,
     rt_recordRequired = False, rt_updatedMs = 0\<rparr>"

type_synonym route_table = "route list option"

interpretation rte: slot_table rt_used rt_dst route0
  by unfold_locales (simp add: route0_def)

definition rt_clear :: "route_table \<Rightarrow> route_table" where
  "rt_clear t = map_option (map (\<lambda>_. route0)) t"

definition rt_begin :: "route_table \<Rightarrow> route_table" where
  "rt_begin storage = rt_clear storage"

definition rt_count :: "route_table \<Rightarrow> nat" where
  "rt_count t = (case t of None \<Rightarrow> 0 | Some es \<Rightarrow> used_count rt_used es)"

definition rt_find :: "route_table \<Rightarrow> u16 \<Rightarrow> nat option" where
  "rt_find t d = (case t of None \<Rightarrow> None | Some es \<Rightarrow> slot_find rt_used rt_dst es d)"

definition rt_firstFree :: "route_table \<Rightarrow> nat option" where
  "rt_firstFree t = (case t of None \<Rightarrow> None | Some es \<Rightarrow> find_idx (\<lambda>e. \<not> rt_used e) es)"

definition rt_leastRecentlyUpdated :: "route_table \<Rightarrow> nat option" where
  "rt_leastRecentlyUpdated t = (case t of None \<Rightarrow> None | Some es \<Rightarrow>
     best_idx rt_used (\<lambda>e b. rt_updatedMs e < rt_updatedMs b) es)"

definition rt_victim :: "route_table \<Rightarrow> u16 \<Rightarrow> nat option" where
  "rt_victim t d = or_else (rt_find t d) (or_else (rt_firstFree t) (rt_leastRecentlyUpdated t))"

definition rt_upsert ::
  "route_table \<Rightarrow> u16 \<Rightarrow> u16 \<Rightarrow> u8 \<Rightarrow> bool \<Rightarrow> bool \<Rightarrow> u32 \<Rightarrow> route_table \<times> nat option"
where
  "rt_upsert t dst nextHop status manyToOne recordRequired now =
     (case rt_victim t dst of
        None \<Rightarrow> (t, None)
      | Some i \<Rightarrow>
          (map_option (\<lambda>es. es[i := (es ! i)\<lparr>rt_used := True, rt_dst := dst, rt_nextHop := nextHop,
              rt_status := status, rt_manyToOne := manyToOne,
              rt_recordRequired := recordRequired, rt_updatedMs := now\<rparr>]) t,
           Some i))"

definition rt_remove :: "route_table \<Rightarrow> u16 \<Rightarrow> route_table \<times> bool" where
  "rt_remove t d =
     (case rt_find t d of
        None \<Rightarrow> (t, False)
      | Some i \<Rightarrow> (map_option (\<lambda>es. es[i := route0]) t, True))"

definition rt_removeInactive :: "route_table \<Rightarrow> route_table \<times> nat" where
  "rt_removeInactive t =
     (map_option (sweep (\<lambda>e. rt_used e \<and> rt_status e \<noteq> ZB_ROUTE_ACTIVE) route0) t,
      case t of None \<Rightarrow> 0
      | Some es \<Rightarrow> length (filter (\<lambda>e. rt_used e \<and> rt_status e \<noteq> ZB_ROUTE_ACTIVE) es))"


section \<open>Route table: facts\<close>

definition rt_at :: "route_table \<Rightarrow> u16 \<Rightarrow> route option" where
  "rt_at t d = (case t of None \<Rightarrow> None | Some es \<Rightarrow> slot_get rt_used rt_dst es d)"

definition rt_wf :: "route_table \<Rightarrow> bool" where
  "rt_wf t \<longleftrightarrow> (case t of None \<Rightarrow> True | Some es \<Rightarrow> slot_uniq rt_used rt_dst es)"

definition rt_attached :: "route_table \<Rightarrow> bool" where
  "rt_attached t \<longleftrightarrow> (\<exists>es. t = Some es \<and> es \<noteq> [])"

definition rt_room :: "route_table \<Rightarrow> u16 \<Rightarrow> bool" where
  "rt_room t d \<longleftrightarrow> (case t of None \<Rightarrow> False | Some es \<Rightarrow> slot_room rt_used rt_dst es d)"

lemma rt_at_index: "rt_at (Some es) d = map_option (nth es) (rt_find (Some es) d)"
  by (simp add: rt_at_def rt_find_def slot_get_def)

lemma rt_at_None: "rt_at t d = None \<longleftrightarrow> rt_find t d = None"
  by (cases t) (simp_all add: rt_at_def rt_find_def slot_get_None)

lemma rt_at_sat: "rt_at t d = Some r \<Longrightarrow> rt_used r \<and> rt_dst r = d"
  by (auto simp: rt_at_def slot_get_def split: option.splits dest: slot_find_sat)

lemma rt_victim_pick:
  "rt_victim (Some es) d =
     slot_pick rt_used rt_dst (\<lambda>e b. rt_updatedMs e < rt_updatedMs b) es d"
  by (simp add: rt_victim_def rt_find_def rt_firstFree_def rt_leastRecentlyUpdated_def slot_pick_def)

definition rt_entry :: "u16 \<Rightarrow> u16 \<Rightarrow> u8 \<Rightarrow> bool \<Rightarrow> bool \<Rightarrow> u32 \<Rightarrow> route" where
  "rt_entry dst nextHop status manyToOne recordRequired now =
     \<lparr>rt_used = True, rt_dst = dst, rt_nextHop = nextHop, rt_status = status,
      rt_manyToOne = manyToOne, rt_recordRequired = recordRequired, rt_updatedMs = now\<rparr>"

lemma rt_entry_sel [simp]:
  "rt_used (rt_entry d n s m r w)" "rt_dst (rt_entry d n s m r w) = d"
  "rt_nextHop (rt_entry d n s m r w) = n" "rt_status (rt_entry d n s m r w) = s"
  "rt_updatedMs (rt_entry d n s m r w) = w"
  by (simp_all add: rt_entry_def)

lemma rt_overwrite:
  "e\<lparr>rt_used := True, rt_dst := d, rt_nextHop := n, rt_status := s, rt_manyToOne := m,
     rt_recordRequired := r, rt_updatedMs := w\<rparr> = rt_entry d n s m r w"
  by (cases e) (simp add: rt_entry_def)

lemma rt_upsert_Some:
  assumes "es \<noteq> []"
  obtains i where "rt_victim (Some es) d = Some i" "i < length es"
    "rt_upsert (Some es) d n s m r w = (Some (es[i := rt_entry d n s m r w]), Some i)"
proof -
  obtain i where i: "rt_victim (Some es) d = Some i"
    using slot_pick_ex [OF assms] unfolding rt_victim_pick by metis
  then have "i < length es" by (simp add: rt_victim_pick slot_pick_bound)
  moreover have "rt_upsert (Some es) d n s m r w = (Some (es[i := rt_entry d n s m r w]), Some i)"
    by (simp add: rt_upsert_def i rt_overwrite)
  ultimately show thesis using i that by blast
qed

lemma rt_upsert_wf: "rt_wf t \<Longrightarrow> rt_wf (fst (rt_upsert t d n s m r w))"
proof (cases "rt_attached t")
  case True
  assume wf: "rt_wf t"
  from True obtain es where es: "t = Some es" "es \<noteq> []" by (auto simp: rt_attached_def)
  obtain i where "rt_victim (Some es) d = Some i"
    "rt_upsert (Some es) d n s m r w = (Some (es[i := rt_entry d n s m r w]), Some i)"
    using rt_upsert_Some [OF es(2)] by metis
  with wf es show ?thesis
    by (simp add: rt_wf_def rt_victim_pick rte.put_pick)
next
  case False
  assume wf: "rt_wf t"
  from False wf show ?thesis
    by (cases t) (simp_all add: rt_attached_def rt_upsert_def rt_victim_def rt_find_def rt_firstFree_def
        rt_leastRecentlyUpdated_def slot_find_def best_idx_def)
qed

lemma rt_upsert_attached: "rt_attached (fst (rt_upsert t d n s m r w)) = rt_attached t"
  by (cases t) (auto simp: rt_attached_def rt_upsert_def split: option.splits)

lemma rt_upsert_at:
  assumes "rt_wf t" "rt_attached t"
  shows "rt_at (fst (rt_upsert t d n s m r w)) d = Some (rt_entry d n s m r w)"
proof -
  from assms(2) obtain es where es: "t = Some es" "es \<noteq> []" by (auto simp: rt_attached_def)
  obtain i where "rt_victim (Some es) d = Some i"
    "rt_upsert (Some es) d n s m r w = (Some (es[i := rt_entry d n s m r w]), Some i)"
    using rt_upsert_Some [OF es(2)] by metis
  with assms es show ?thesis
    by (simp add: rt_wf_def rt_at_def rt_victim_pick rte.put_pick)
qed

lemma rt_upsert_other:
  assumes "rt_wf t" "rt_attached t" "d' \<noteq> d"
  shows "rt_at (fst (rt_upsert t d n s m r w)) d' = rt_at t d' \<or>
         rt_at (fst (rt_upsert t d n s m r w)) d' = None"
    and "rt_room t d \<Longrightarrow> rt_at (fst (rt_upsert t d n s m r w)) d' = rt_at t d'"
proof -
  from assms(2) obtain es where es: "t = Some es" "es \<noteq> []" by (auto simp: rt_attached_def)
  obtain i where i: "rt_victim (Some es) d = Some i"
    "rt_upsert (Some es) d n s m r w = (Some (es[i := rt_entry d n s m r w]), Some i)"
    using rt_upsert_Some [OF es(2)] by metis
  show "rt_at (fst (rt_upsert t d n s m r w)) d' = rt_at t d' \<or>
         rt_at (fst (rt_upsert t d n s m r w)) d' = None"
    using assms es i by (simp add: rt_wf_def rt_at_def rt_victim_pick rte.put_pick)
  show "rt_room t d \<Longrightarrow> rt_at (fst (rt_upsert t d n s m r w)) d' = rt_at t d'"
    using assms es i by (simp add: rt_wf_def rt_at_def rt_room_def rt_victim_pick rte.put_pick_room)
qed

definition rt_put :: "u16 \<Rightarrow> u16 \<times> u8 \<times> bool \<times> bool \<times> u32 \<Rightarrow> route_table \<Rightarrow> route_table" where
  "rt_put d v t = (case v of (n, s, m, r, w) \<Rightarrow> fst (rt_upsert t d n s m r w))"

definition rt_value :: "route_table \<Rightarrow> u16 \<Rightarrow> (u16 \<times> u8 \<times> bool \<times> bool \<times> u32) option" where
  "rt_value t d = map_option (\<lambda>e. (rt_nextHop e, rt_status e, rt_manyToOne e, rt_recordRequired e,
     rt_updatedMs e)) (rt_at t d)"

interpretation rtc: bounded_cache "\<lambda>t. rt_wf t \<and> rt_attached t" rt_room rt_value rt_put
proof unfold_locales
  fix t :: route_table and d d' :: u16
    and v :: "u16 \<times> u8 \<times> bool \<times> bool \<times> u32"
  assume inv: "rt_wf t \<and> rt_attached t"
  obtain n s m r w where v: "v = (n, s, m, r, w)" by (cases v) auto
  show "rt_wf (rt_put d v t) \<and> rt_attached (rt_put d v t)"
    using inv by (simp add: rt_put_def v rt_upsert_wf rt_upsert_attached)
  show "rt_value (rt_put d v t) d = Some v"
    using inv by (simp add: rt_put_def rt_value_def v rt_upsert_at) (simp add: rt_entry_def)
  show "rt_value (rt_put d v t) d' = rt_value t d' \<or> rt_value (rt_put d v t) d' = None"
    if "d' \<noteq> d" using inv rt_upsert_other(1) [OF _ _ that, of t n s m r w]
    by (auto simp: rt_put_def rt_value_def v)
  show "rt_value (rt_put d v t) d' = rt_value t d'" if "rt_room t d" "d' \<noteq> d"
    using inv rt_upsert_other(2) [OF _ _ that(2) that(1), of n s m r w]
    by (auto simp: rt_put_def rt_value_def v)
qed


section \<open>Neighbor table: facts\<close>

definition nt_wf :: "neighbor_table \<Rightarrow> bool" where
  "nt_wf t \<longleftrightarrow> (case t of None \<Rightarrow> True | Some es \<Rightarrow> slot_uniq nb_used nb_nwk es)"

definition nt_attached :: "neighbor_table \<Rightarrow> bool" where
  "nt_attached t \<longleftrightarrow> (\<exists>es. t = Some es \<and> es \<noteq> [])"

lemma nt_fill_sel [simp]:
  "nb_used (nt_fill e nwk ieee dt rel dep lqi rx per now)"
  "nb_nwk (nt_fill e nwk ieee dt rel dep lqi rx per now) = nwk"
  "nb_ieee (nt_fill e nwk ieee dt rel dep lqi rx per now) = ieee"
  "nb_deviceType (nt_fill e nwk ieee dt rel dep lqi rx per now) = dt"
  "nb_relationship (nt_fill e nwk ieee dt rel dep lqi rx per now) = rel"
  "nb_depth (nt_fill e nwk ieee dt rel dep lqi rx per now) = dep"
  "nb_lqi (nt_fill e nwk ieee dt rel dep lqi rx per now) = lqi"
  "nb_permitJoining (nt_fill e nwk ieee dt rel dep lqi rx per now) = per"
  "nb_rxOnWhenIdle (nt_fill e nwk ieee dt rel dep lqi rx per now) = rx"
  "nb_lastSeenMs (nt_fill e nwk ieee dt rel dep lqi rx per now) = now"
  by (simp_all add: nt_fill_def Let_def)

lemma nt_victim_bound: "nt_victim (Some es) nwk ieee = Some i \<Longrightarrow> i < length es"
  by (auto simp: nt_victim_def or_else_def nt_findByNwk_def nt_findByIeee_def nt_firstFree_def
      nt_leastRecentlySeen_def split: option.splits if_splits
      dest: slot_find_bound find_idx_bound best_idx_bound)

lemma nt_victim_ex:
  assumes "es \<noteq> []"
  obtains i where "nt_victim (Some es) nwk ieee = Some i" "i < length es"
proof -
  have "find_idx (\<lambda>e. \<not> nb_used e) es \<noteq> None \<or>
      best_idx nb_used (\<lambda>e b. nb_lastSeenMs e < nb_lastSeenMs b) es \<noteq> None"
    using assms by (cases es) (auto simp: find_idx_None best_idx_None)
  then have "nt_victim (Some es) nwk ieee \<noteq> None"
    by (auto simp: nt_victim_def or_else_None nt_firstFree_def nt_leastRecentlySeen_def)
  then show thesis using that nt_victim_bound by blast
qed

lemma nt_put_victim:
  assumes u: "slot_uniq nb_used nb_nwk es" and v: "nt_victim (Some es) nwk ieee = Some i"
    and e: "nb_used e" "nb_nwk e = nwk"
  shows "slot_uniq nb_used nb_nwk (es[i := e]) \<and>
    slot_get nb_used nb_nwk (es[i := e]) a =
      (if a = nwk then Some e
       else if nb_used (es ! i) \<and> nb_nwk (es ! i) = a then None
       else slot_get nb_used nb_nwk es a)"
proof (cases "slot_find nb_used nb_nwk es nwk")
  case None
  with e have f: "slot_find nb_used nb_nwk es (nb_nwk e) = None" by simp
  note p = nbr.get_put_new_key [OF u f nt_victim_bound [OF v] e(1)]
  show ?thesis using p(1) p(2) [of a] e(2) by simp
next
  case (Some j)
  with v have ij: "j = i" by (simp add: nt_victim_def nt_findByNwk_def)
  with Some have "nb_used (es ! i) \<and> nb_nwk (es ! i) = nwk" by (simp add: slot_find_sat)
  with nbr.get_put_same_key [OF u Some [unfolded ij] e] show ?thesis by simp
qed

lemma nt_upsert_cases:
  assumes "es \<noteq> []"
  obtains i where "nt_victim (Some es) nwk ieee = Some i" "i < length es"
    "nt_upsert (Some es) nwk ieee dt rel dep lqi rx per now =
       (Some (es[i := nt_fill (es ! i) nwk ieee dt rel dep lqi rx per now]), Some i)"
proof -
  obtain i where i: "nt_victim (Some es) nwk ieee = Some i" "i < length es"
    using assms by (rule nt_victim_ex)
  then show thesis using that by (simp add: nt_upsert_def)
qed

lemma nt_not_attached:
  "\<not> nt_attached t \<Longrightarrow> nt_upsert t nwk ieee dt rel dep lqi rx per now = (t, None)"
  by (cases t) (simp_all add: nt_attached_def nt_upsert_def nt_victim_def nt_findByNwk_def
      nt_findByIeee_def nt_firstFree_def nt_leastRecentlySeen_def slot_find_def best_idx_def)

lemma nt_upsert_attached [simp]:
  "nt_attached (fst (nt_upsert t nwk ieee dt rel dep lqi rx per now)) = nt_attached t"
  by (cases t) (auto simp: nt_attached_def nt_upsert_def split: option.splits)

lemma nt_upsert_wf:
  assumes "nt_wf t"
  shows "nt_wf (fst (nt_upsert t nwk ieee dt rel dep lqi rx per now))"
proof (cases "nt_attached t")
  case False
  with assms show ?thesis by (simp add: nt_not_attached)
next
  case True
  then obtain es where es: "t = Some es" "es \<noteq> []" by (auto simp: nt_attached_def)
  obtain i where "nt_victim (Some es) nwk ieee = Some i"
    "nt_upsert (Some es) nwk ieee dt rel dep lqi rx per now =
       (Some (es[i := nt_fill (es ! i) nwk ieee dt rel dep lqi rx per now]), Some i)"
    using nt_upsert_cases [OF es(2)] by metis
  with assms es show ?thesis by (simp add: nt_wf_def nt_put_victim)
qed

lemma nt_upsert_at:
  assumes "nt_wf t" "nt_attached t"
  obtains es es' i where "t = Some es" "i < length es" "nt_victim t nwk ieee = Some i"
    "nt_upsert t nwk ieee dt rel dep lqi rx per now = (Some es', Some i)"
    "es' = es[i := nt_fill (es ! i) nwk ieee dt rel dep lqi rx per now]"
    "\<And>a. nt_at (Some es') a =
      (if a = nwk then Some (nt_fill (es ! i) nwk ieee dt rel dep lqi rx per now)
       else if nb_used (es ! i) \<and> nb_nwk (es ! i) = a then None else nt_at t a)"
proof -
  from assms(2) obtain es where es: "t = Some es" "es \<noteq> []" by (auto simp: nt_attached_def)
  obtain i where i: "nt_victim (Some es) nwk ieee = Some i" "i < length es"
    "nt_upsert (Some es) nwk ieee dt rel dep lqi rx per now =
       (Some (es[i := nt_fill (es ! i) nwk ieee dt rel dep lqi rx per now]), Some i)"
    using nt_upsert_cases [OF es(2)] by metis
  show thesis
  proof (rule that [OF es(1) i(2)])
    show "nt_victim t nwk ieee = Some i" using i es by simp
    show "nt_upsert t nwk ieee dt rel dep lqi rx per now =
       (Some (es[i := nt_fill (es ! i) nwk ieee dt rel dep lqi rx per now]), Some i)"
      using i es by simp
    show "es[i := nt_fill (es ! i) nwk ieee dt rel dep lqi rx per now] =
      es[i := nt_fill (es ! i) nwk ieee dt rel dep lqi rx per now]" ..
    show "nt_at (Some (es[i := nt_fill (es ! i) nwk ieee dt rel dep lqi rx per now])) a =
      (if a = nwk then Some (nt_fill (es ! i) nwk ieee dt rel dep lqi rx per now)
       else if nb_used (es ! i) \<and> nb_nwk (es ! i) = a then None else nt_at t a)" for a
      using assms i es by (simp add: nt_wf_def nt_at_def nt_put_victim)
  qed
qed

lemma nt_at_sat: "nt_at t a = Some n \<Longrightarrow> nb_used n \<and> nb_nwk n = a"
  by (auto simp: nt_at_def slot_get_def split: option.splits dest: slot_find_sat)

lemma nt_age_stale_wf:
  assumes "nt_wf t"
  shows "nt_wf (fst (nt_removeStaleRouters t cutoff spare))"
proof (cases t)
  case None
  then show ?thesis by (simp add: nt_wf_def nt_removeStaleRouters_def)
next
  case (Some es)
  let ?f = "\<lambda>n. if nt_stale cutoff spare n then nt_age n else n"
  have "slot_uniq nb_used nb_nwk (map ?f es)"
  proof (rule slot_uniq_map)
    show "slot_uniq nb_used nb_nwk es" using assms Some by (simp add: nt_wf_def)
    show "nb_used (?f n) \<Longrightarrow> nb_used n \<and> nb_nwk (?f n) = nb_nwk n" for n
      by (auto simp: nt_stale_def nt_age_def neighbor0_def split: if_splits)
  qed
  then show ?thesis using Some by (simp add: nt_wf_def nt_removeStaleRouters_def)
qed

lemma nt_removeByNwk_wf: "nt_wf t \<Longrightarrow> nt_wf (fst (nt_removeByNwk t a))"
  by (auto simp: nt_wf_def nt_removeByNwk_def nbr.uniq_clear split: option.splits)

lemma nt_removeOlderThan_wf: "nt_wf t \<Longrightarrow> nt_wf (fst (nt_removeOlderThan t c))"
  by (auto simp: nt_wf_def nt_removeOlderThan_def nbr.uniq_sweep split: option.splits)

lemma nt_clear_wf: "nt_wf (nt_clear t)"
  by (cases t) (auto simp: nt_wf_def nt_clear_def slot_uniq_iff neighbor0_def)


lemma nt_wf_get:
  "nt_wf t \<Longrightarrow> nt_at t a = Some n \<longleftrightarrow> (\<exists>es. t = Some es \<and> (\<exists>i<length es. es ! i = n \<and> nb_used n \<and> nb_nwk n = a))"
  by (cases t) (auto simp: nt_wf_def nt_at_def slot_get_iff)

lemma nt_findByNwk_at: "nt_findByNwk (Some es) a = Some i \<Longrightarrow> nt_at (Some es) a = Some (es ! i)"
  by (simp add: nt_findByNwk_def nt_at_def slot_get_def)

lemma nt_at_None_find: "nt_at t a = None \<longleftrightarrow> nt_findByNwk t a = None"
  by (cases t) (simp_all add: nt_at_def nt_findByNwk_def slot_get_None)

lemma nt_victim_cases:
  assumes "nt_victim (Some es) nwk ieee = Some i"
  obtains (hit) "nt_findByNwk (Some es) nwk = Some i" "nb_used (es ! i)" "nb_nwk (es ! i) = nwk"
  | (renamed) "nt_findByNwk (Some es) nwk = None" "ieee \<noteq> 0" "nt_findByIeee (Some es) ieee = Some i"
      "nb_used (es ! i)" "nb_ieee (es ! i) = ieee"
  | (free) "nt_findByNwk (Some es) nwk = None" "\<not> nb_used (es ! i)"
  | (evicted) "nt_findByNwk (Some es) nwk = None" "\<forall>e\<in>set es. nb_used e"
      "best_idx nb_used (\<lambda>e b. nb_lastSeenMs e < nb_lastSeenMs b) es = Some i"
  using assms
  by (auto simp: nt_victim_def or_else_def nt_findByNwk_def nt_findByIeee_def nt_firstFree_def
      nt_leastRecentlySeen_def find_idx_None split: option.splits if_splits
      dest: slot_find_sat find_idx_sat)

section \<open>Neighbor table: operations in sequence\<close>

text \<open>
  Every mutation the table offers, as one step; \<open>SetCosts\<close> stands for the link-cost fields
  that \<open>ZigbeeNetwork::handleLinkStatus\<close> writes through the returned pointer.
\<close>

datatype nt_op =
    Upsert u16 u64 u8 u8 u8 u8 bool bool u32
  | RemoveByNwk u16
  | RemoveOlderThan u32
  | RemoveStaleRouters u32 u16
  | SetCosts nat u8 u8
  | Clear

fun nt_step :: "neighbor_table \<Rightarrow> nt_op \<Rightarrow> neighbor_table" where
  "nt_step t (Upsert nwk ieee dt rel dep lqi rx per now) =
     fst (nt_upsert t nwk ieee dt rel dep lqi rx per now)"
| "nt_step t (RemoveByNwk a) = fst (nt_removeByNwk t a)"
| "nt_step t (RemoveOlderThan c) = fst (nt_removeOlderThan t c)"
| "nt_step t (RemoveStaleRouters c s) = fst (nt_removeStaleRouters t c s)"
| "nt_step t (SetCosts i inc outg) =
     map_option (\<lambda>es. es[i := (es ! i)\<lparr>nb_incomingCost := inc, nb_outgoingCost := outg\<rparr>]) t"
| "nt_step t Clear = nt_clear t"

inductive nt_reach :: "nat \<Rightarrow> neighbor_table \<Rightarrow> bool" for n :: nat where
  begin_storage: "length es = n \<Longrightarrow> nt_reach n (nt_begin (Some es))"
| nt_reach_step: "nt_reach n t \<Longrightarrow> nt_reach n (nt_step t oper)"

lemma nt_costs_wf:
  assumes "nt_wf t" shows "nt_wf (nt_step t (SetCosts i inc outg))"
proof (cases t)
  case None
  then show ?thesis by (simp add: nt_wf_def)
next
  case (Some es)
  let ?e = "(es ! i)\<lparr>nb_incomingCost := inc, nb_outgoingCost := outg\<rparr>"
  have "slot_uniq nb_used nb_nwk (es[i := ?e])"
  proof (cases "i < length es")
    case False
    with assms Some show ?thesis by (simp add: nt_wf_def list_update_beyond)
  next
    case True
    show ?thesis
    proof (rule nbr.uniq_put)
      show "slot_uniq nb_used nb_nwk es" using assms Some by (simp add: nt_wf_def)
      then show "nb_nwk (es ! j) \<noteq> nb_nwk ?e"
        if "j < length es" "j \<noteq> i" "nb_used (es ! j)" "nb_used ?e" for j
        using that True by (auto simp: slot_uniq_iff)
    qed
  qed
  with Some show ?thesis by (simp add: nt_wf_def)
qed

lemma nt_step_wf: "nt_wf t \<Longrightarrow> nt_wf (nt_step t oper)"
  by (cases oper) (simp_all add: nt_upsert_wf nt_removeByNwk_wf nt_removeOlderThan_wf nt_age_stale_wf
      nt_clear_wf nt_costs_wf del: nt_step.simps(5))

lemma nt_step_length:
  "map_option length (nt_step t oper) = map_option length t"
  by (cases t; cases oper) (auto simp: nt_upsert_def nt_removeByNwk_def nt_removeOlderThan_def
      nt_removeStaleRouters_def nt_clear_def split: option.splits)

lemma nt_reach_inv: "nt_reach n t \<Longrightarrow> nt_wf t \<and> map_option length t = Some n"
proof (induction rule: nt_reach.induct)
  case (begin_storage es)
  then show ?case using nt_clear_wf [of "Some es"] by (simp add: nt_begin_def nt_clear_def)
next
  case (nt_reach_step t oper)
  then show ?case using nt_step_wf nt_step_length by simp
qed

section \<open>Properties\<close>

text \<open>In every state that any sequence of the neighbor table's operations can reach from freshly
  attached storage, the table keeps its capacity and no short address occupies two slots, so
  \<open>findByNwk\<close> finds an address in the only slot that holds it.\<close>

theorem neighbor_addresses_distinct:
  assumes "nt_reach n t"
  shows "\<exists>es. t = Some es \<and> length es = n \<and> distinct (map nb_nwk (filter nb_used es)) \<and>
    (\<forall>i<n. nb_used (es ! i) \<longrightarrow> nt_findByNwk t (nb_nwk (es ! i)) = Some i)"
proof -
  from nt_reach_inv [OF assms] obtain es where
    es: "t = Some es" "length es = n" "slot_uniq nb_used nb_nwk es"
    by (cases t) (auto simp: nt_wf_def)
  then have "\<forall>i<n. nb_used (es ! i) \<longrightarrow> nt_findByNwk t (nb_nwk (es ! i)) = Some i"
    by (auto simp: nt_findByNwk_def slot_find_uniq)
  with es show ?thesis by (auto simp: slot_uniq_def)
qed

lemma neighbor_addresses_distinct_witness:
  "\<exists>es. nt_step (nt_begin (Some [neighbor0, neighbor0])) (Upsert 7 9 1 1 2 100 True False 5) = Some es \<and>
     length es = 2 \<and> distinct (map nb_nwk (filter nb_used es))"
proof -
  have "nt_reach 2 (nt_step (nt_begin (Some [neighbor0, neighbor0])) (Upsert 7 9 1 1 2 100 True False 5))"
    by (intro nt_reach_step begin_storage) simp
  from neighbor_addresses_distinct [OF this] show ?thesis by blast
qed

text \<open>\<open>upsert\<close> on an attached table always succeeds; afterwards the address is found in the
  returned slot with the given fields, keeping its measured link costs exactly when the slot
  already belonged to that address (any other slot starts with unknown costs).\<close>

theorem neighbor_upsert_correct:
  assumes "nt_wf t" "nt_attached t"
  shows "\<exists>t' i n. nt_upsert t nwk ieee dt rel dep lqi rx per now = (t', Some i) \<and>
    nt_wf t' \<and> nt_findByNwk t' nwk = Some i \<and> nt_at t' nwk = Some n \<and>
    nb_ieee n = ieee \<and> nb_deviceType n = dt \<and> nb_relationship n = rel \<and> nb_depth n = dep \<and>
    nb_lqi n = lqi \<and> nb_rxOnWhenIdle n = rx \<and> nb_permitJoining n = per \<and> nb_lastSeenMs n = now \<and>
    (case nt_at t nwk of
       None \<Rightarrow> nb_incomingCost n = 0 \<and> nb_outgoingCost n = 0
     | Some old \<Rightarrow> nb_incomingCost n = nb_incomingCost old \<and> nb_outgoingCost n = nb_outgoingCost old)"
proof -
  obtain es es' i where up: "t = Some es" "i < length es" "nt_victim t nwk ieee = Some i"
    "nt_upsert t nwk ieee dt rel dep lqi rx per now = (Some es', Some i)"
    "es' = es[i := nt_fill (es ! i) nwk ieee dt rel dep lqi rx per now]"
    and at: "\<And>a. nt_at (Some es') a =
      (if a = nwk then Some (nt_fill (es ! i) nwk ieee dt rel dep lqi rx per now)
       else if nb_used (es ! i) \<and> nb_nwk (es ! i) = a then None else nt_at t a)"
    by (rule nt_upsert_at [OF assms]) (rule that, assumption+)
  let ?n = "nt_fill (es ! i) nwk ieee dt rel dep lqi rx per now"
  have wf: "nt_wf (Some es')" using nt_upsert_wf [OF assms(1), of nwk ieee dt rel dep lqi rx per now] up by simp
  have "nt_findByNwk (Some es') nwk = Some i"
    using wf up by (auto simp: nt_wf_def nt_findByNwk_def intro: slot_find_uniq)
  moreover have "case nt_at t nwk of
       None \<Rightarrow> nb_incomingCost ?n = 0 \<and> nb_outgoingCost ?n = 0
     | Some old \<Rightarrow> nb_incomingCost ?n = nb_incomingCost old \<and> nb_outgoingCost ?n = nb_outgoingCost old"
  proof (cases "nt_at t nwk")
    case None
    have "\<not> (nb_used (es ! i) \<and> nb_nwk (es ! i) = nwk)"
      using None up(1,2) nt_wf_get [OF assms(1), of nwk "es ! i"] by auto
    with None show ?thesis by (auto simp: nt_fill_def)
  next
    case (Some old)
    then obtain j where j: "nt_findByNwk t nwk = Some j"
      using nt_at_None_find [of t nwk] by auto
    with up(3) have "nt_findByNwk t nwk = Some i" by (simp add: nt_victim_def)
    then have "es ! i = old" "nb_used (es ! i)" "nb_nwk (es ! i) = nwk"
      using Some up(1) nt_at_sat [OF Some] by (auto dest: nt_findByNwk_at)
    with Some show ?thesis by (simp add: nt_fill_def)
  qed
  ultimately show ?thesis using up(4) wf at [of nwk] by auto
qed

lemma neighbor_upsert_correct_witness:
  "\<exists>t' i n. nt_upsert (Some [neighbor0]) 7 9 1 1 2 100 True False 5 = (t', Some i) \<and>
     nt_at t' 7 = Some n \<and> nb_ieee n = 9 \<and> nb_incomingCost n = 0"
proof -
  have "nt_wf (Some [neighbor0])" "nt_attached (Some [neighbor0])" "nt_at (Some [neighbor0]) 7 = None"
    by (simp_all add: nt_wf_def nt_attached_def slot_uniq_def nt_at_def slot_get_None slot_find_None neighbor0_def)
  from neighbor_upsert_correct [OF this(1,2), of 7 9 1 1 2 100 True False 5] this(3)
  show ?thesis by auto
qed

text \<open>\<open>upsert\<close> changes no other address, except that it may drop one: the entry of the same
  device under its previous address (the rename that \<open>findByIeee\<close> makes), or, only when every slot is
  in use, an entry that no other entry was seen longer ago than.\<close>

theorem neighbor_upsert_frame:
  assumes "nt_wf t" "nt_attached t" "a \<noteq> nwk"
    and "nt_at (fst (nt_upsert t nwk ieee dt rel dep lqi rx per now)) a \<noteq> nt_at t a"
  shows "\<exists>es old. t = Some es \<and> nt_at t a = Some old \<and>
    nt_at (fst (nt_upsert t nwk ieee dt rel dep lqi rx per now)) a = None \<and>
    (ieee \<noteq> 0 \<and> nb_ieee old = ieee \<or>
     (\<forall>e\<in>set es. nb_used e \<and> nb_lastSeenMs old \<le> nb_lastSeenMs e))"
proof -
  obtain es es' i where up: "t = Some es" "i < length es" "nt_victim t nwk ieee = Some i"
    "nt_upsert t nwk ieee dt rel dep lqi rx per now = (Some es', Some i)"
    "es' = es[i := nt_fill (es ! i) nwk ieee dt rel dep lqi rx per now]"
    and at: "\<And>a. nt_at (Some es') a =
      (if a = nwk then Some (nt_fill (es ! i) nwk ieee dt rel dep lqi rx per now)
       else if nb_used (es ! i) \<and> nb_nwk (es ! i) = a then None else nt_at t a)"
    by (rule nt_upsert_at [OF assms(1,2)]) (rule that, assumption+)
  have ev: "nb_used (es ! i)" "nb_nwk (es ! i) = a" "nt_at (Some es') a = None"
    using assms(3,4) up at [of a] by (auto split: if_splits)
  have old: "nt_at t a = Some (es ! i)"
    unfolding nt_wf_get [OF assms(1)] using ev(1,2) up(1,2) by blast
  have "ieee \<noteq> 0 \<and> nb_ieee (es ! i) = ieee \<or>
     (\<forall>e\<in>set es. nb_used e \<and> nb_lastSeenMs (es ! i) \<le> nb_lastSeenMs e)"
    using up(3) [unfolded up(1)]
  proof (cases rule: nt_victim_cases)
    case hit
    with ev assms(3) show ?thesis by simp
  next
    case evicted
    then show ?thesis
      using best_idx_minimal [of nb_used nb_lastSeenMs es i] by (metis in_set_conv_nth)
  qed (use ev in auto)
  with up old ev show ?thesis by auto
qed

lemma neighbor_upsert_frame_witness:
  "\<exists>es old. nt_at (Some [neighbor0\<lparr>nb_used := True, nb_nwk := 3\<rparr>]) 3 = Some old \<and>
     nt_at (fst (nt_upsert (Some [neighbor0\<lparr>nb_used := True, nb_nwk := 3\<rparr>]) 7 9 1 1 2 100 True False 5)) 3 = None"
proof -
  let ?t = "Some [neighbor0\<lparr>nb_used := True, nb_nwk := 3\<rparr>]"
  have h: "nt_wf ?t" "nt_attached ?t" "(3::u16) \<noteq> 7"
    "nt_at (fst (nt_upsert ?t 7 9 1 1 2 100 True False 5)) 3 \<noteq> nt_at ?t 3"
    by (simp_all add: nt_wf_def nt_attached_def slot_uniq_def nt_at_def slot_get_def slot_find_def
        neighbor0_def nt_upsert_def nt_victim_def nt_findByNwk_def nt_findByIeee_def nt_firstFree_def
        nt_leastRecentlySeen_def best_idx_def nt_fill_def)
  from neighbor_upsert_frame [OF h] show ?thesis by blast
qed


lemma nt_stale_map_get:
  assumes "nt_wf t"
  shows "nt_at (fst (nt_removeStaleRouters t cutoff spare)) a =
    (case nt_at t a of None \<Rightarrow> None
     | Some n \<Rightarrow>
         if \<not> nt_stale cutoff spare n then Some n
         else if nb_relationship n = ZB_REL_CHILD \<and> nb_ieee n \<noteq> 0 then Some (nt_age n) else None)"
proof (cases t)
  case None
  then show ?thesis by (simp add: nt_at_def nt_removeStaleRouters_def)
next
  case (Some es)
  let ?f = "\<lambda>n. if nt_stale cutoff spare n then nt_age n else n"
  have f: "nb_used (?f n) \<Longrightarrow> nb_used n \<and> nb_nwk (?f n) = nb_nwk n" for n
    by (auto simp: nt_stale_def nt_age_def neighbor0_def split: if_splits)
  have u: "slot_uniq nb_used nb_nwk es" using assms Some by (simp add: nt_wf_def)
  have sat: "slot_get nb_used nb_nwk es a = Some n \<Longrightarrow> nb_used n" for n
    by (auto simp: slot_get_def dest: slot_find_sat)
  have "nt_at (fst (nt_removeStaleRouters t cutoff spare)) a = slot_get nb_used nb_nwk (map ?f es) a"
    by (simp add: nt_at_def nt_removeStaleRouters_def Some)
  moreover have "slot_get nb_used nb_nwk (map ?f es) a = (case slot_get nb_used nb_nwk es a of
      None \<Rightarrow> None | Some e \<Rightarrow> if nb_used (?f e) then Some (?f e) else None)"
    using u f by (rule slot_get_map)
  ultimately show ?thesis
    by (auto simp: nt_at_def Some nt_age_def neighbor0_def split: option.split dest: sat)
qed

text \<open>Aging a neighbor: the spared address, end devices, entries heard since the cutoff and
  previous-child leases stay as they are; a stale router child with a known IEEE address
  becomes a lease that keeps its short and IEEE address; any other stale router is removed. A
  second pass with the same cutoff ages nothing.\<close>

theorem neighbor_aging:
  assumes "nt_wf t" "nt_at t a = Some n"
  shows "nt_at (fst (nt_removeStaleRouters t cutoff spare)) a =
      (if a = spare \<or> nb_deviceType n \<notin> {ZB_DEVICE_ROUTER, ZB_DEVICE_COORDINATOR} \<or>
          cutoff \<le> nb_lastSeenMs n \<or> nb_relationship n = ZB_REL_PREVIOUS_CHILD
       then Some n
       else if nb_relationship n = ZB_REL_CHILD \<and> nb_ieee n \<noteq> 0
       then Some (n\<lparr>nb_relationship := ZB_REL_PREVIOUS_CHILD, nb_incomingCost := 0,
                    nb_outgoingCost := 0, nb_permitJoining := False\<rparr>)
       else None) \<and>
    snd (nt_removeStaleRouters (fst (nt_removeStaleRouters t cutoff spare)) cutoff spare) = 0"
proof (rule conjI)
  show "nt_at (fst (nt_removeStaleRouters t cutoff spare)) a =
      (if a = spare \<or> nb_deviceType n \<notin> {ZB_DEVICE_ROUTER, ZB_DEVICE_COORDINATOR} \<or>
          cutoff \<le> nb_lastSeenMs n \<or> nb_relationship n = ZB_REL_PREVIOUS_CHILD
       then Some n
       else if nb_relationship n = ZB_REL_CHILD \<and> nb_ieee n \<noteq> 0
       then Some (n\<lparr>nb_relationship := ZB_REL_PREVIOUS_CHILD, nb_incomingCost := 0,
                    nb_outgoingCost := 0, nb_permitJoining := False\<rparr>)
       else None)"
    unfolding nt_stale_map_get [OF assms(1)] using assms(2) nt_at_sat [OF assms(2)]
    by (auto simp: nt_stale_def nt_age_def not_less)
  have "\<not> nt_stale cutoff spare (if nt_stale cutoff spare e then nt_age e else e)" for e
    by (auto simp: nt_stale_def nt_age_def neighbor0_def)
  then show "snd (nt_removeStaleRouters (fst (nt_removeStaleRouters t cutoff spare)) cutoff spare) = 0"
    by (cases t) (simp_all add: nt_removeStaleRouters_def filter_map o_def)
qed

lemma neighbor_aging_witness:
  "\<exists>t n. nt_at t 3 = Some n \<and> nb_relationship n = ZB_REL_CHILD \<and>
     nt_at (fst (nt_removeStaleRouters t 50 0xFFFF)) 3 =
       Some (n\<lparr>nb_relationship := ZB_REL_PREVIOUS_CHILD, nb_incomingCost := 0,
               nb_outgoingCost := 0, nb_permitJoining := False\<rparr>)"
proof -
  let ?n = "neighbor0\<lparr>nb_used := True, nb_nwk := 3, nb_ieee := 9, nb_deviceType := 1, nb_relationship := 1\<rparr>"
  have h: "nt_wf (Some [?n])" "nt_at (Some [?n]) 3 = Some ?n"
    by (simp_all add: nt_wf_def slot_uniq_def nt_at_def slot_get_def slot_find_def)
  from neighbor_aging [THEN conjunct1, OF h, of 50 "0xFFFF"]
  have "nt_at (fst (nt_removeStaleRouters (Some [?n]) 50 0xFFFF)) 3 =
     Some (?n\<lparr>nb_relationship := ZB_REL_PREVIOUS_CHILD, nb_incomingCost := 0,
               nb_outgoingCost := 0, nb_permitJoining := False\<rparr>)"
    by (simp add: neighbor0_def)
  with h(2) show ?thesis by (intro exI [of _ "Some [?n]"] exI [of _ ?n]) simp
qed

definition parent_rank :: "neighbor \<Rightarrow> nat" where
  "parent_rank e = (255 - unat (nb_lqi e)) * 256 + unat (nb_depth e)"

lemma lex_less_255:
  assumes "a \<le> 255" "b \<le> 255" "c \<le> 255" "d \<le> (255 :: nat)"
  shows "(b < a \<or> a = b \<and> c < d) \<longleftrightarrow> (255 - a) * 256 + c < (255 - b) * 256 + d"
proof (cases a b rule: linorder_cases)
  case less
  with assms have "255 - b + 1 \<le> 255 - a" by arith
  then have "(255 - b + 1) * 256 \<le> (255 - a) * 256" by (rule mult_right_mono) simp
  with less assms show ?thesis by simp
next
  case greater
  with assms have "255 - a + 1 \<le> 255 - b" by arith
  then have "(255 - a + 1) * 256 \<le> (255 - b) * 256" by (rule mult_right_mono) simp
  with greater assms show ?thesis by simp
qed simp

lemma parent_rank_less:
  "(nb_lqi e > nb_lqi b \<or> nb_lqi e = nb_lqi b \<and> nb_depth e < nb_depth b) \<longleftrightarrow>
     parent_rank e < parent_rank b"
  unfolding parent_rank_def word_less_nat_alt word_unat_eq_iff
  by (rule lex_less_255) simp_all

text \<open>\<open>bestParentCandidate\<close> answers null exactly when no joinable router or coordinator is in
  the table, and otherwise a joinable entry that no joinable entry beats: none has a higher LQI,
  and none of the same LQI is shallower.\<close>

theorem best_parent_candidate:
  "case nt_bestParentCandidate (Some es) of
     None \<Rightarrow> \<forall>e\<in>set es. \<not> nt_joinable e
   | Some i \<Rightarrow> i < length es \<and> nt_joinable (es ! i) \<and>
       (\<forall>e\<in>set es. nt_joinable e \<longrightarrow> nb_lqi e < nb_lqi (es ! i) \<or>
          nb_lqi e = nb_lqi (es ! i) \<and> nb_depth (es ! i) \<le> nb_depth e)"
proof (cases "nt_bestParentCandidate (Some es)")
  case None
  then have "\<forall>e\<in>set es. \<not> nt_joinable e" by (simp add: nt_bestParentCandidate_def best_idx_None)
  with None show ?thesis by simp
next
  case (Some i)
  then have b: "best_idx nt_joinable (\<lambda>e b. parent_rank e < parent_rank b) es = Some i"
    by (simp add: nt_bestParentCandidate_def parent_rank_less)
  have "nb_lqi e < nb_lqi (es ! i) \<or> nb_lqi e = nb_lqi (es ! i) \<and> nb_depth (es ! i) \<le> nb_depth e"
    if "e \<in> set es" "nt_joinable e" for e
  proof -
    from that b have "parent_rank (es ! i) \<le> parent_rank e"
      by (metis best_idx_minimal in_set_conv_nth)
    then have "\<not> (nb_lqi e > nb_lqi (es ! i) \<or> nb_lqi e = nb_lqi (es ! i) \<and> nb_depth e < nb_depth (es ! i))"
      unfolding parent_rank_less by simp
    then show ?thesis by auto
  qed
  then show ?thesis using Some best_idx_bound [OF b] best_idx_ok [OF b] by simp
qed

lemma best_parent_candidate_witness:
  "\<exists>e\<in>set [neighbor0, neighbor0\<lparr>nb_used := True, nb_permitJoining := True\<rparr>]. nt_joinable e"
proof -
  let ?es = "[neighbor0, neighbor0\<lparr>nb_used := True, nb_permitJoining := True\<rparr>]"
  have "nt_bestParentCandidate (Some ?es) = Some 1"
    by (simp add: nt_bestParentCandidate_def best_idx_def nt_joinable_def neighbor0_def)
  with best_parent_candidate [of ?es] have "1 < length ?es \<and> nt_joinable (?es ! 1)" by simp
  then show ?thesis by simp
qed

text \<open>\<open>ZigbeeRouteTable::upsert\<close> on an attached table succeeds and \<open>find\<close> then returns the route
  just stored; any other destination keeps its route, or loses it only when the table was full of
  other destinations and no route was updated longer ago.\<close>

theorem route_upsert_correct:
  assumes "rt_wf t" "rt_attached t"
  shows "rt_wf (fst (rt_upsert t d n s m r w)) \<and>
    rt_at (fst (rt_upsert t d n s m r w)) d = Some (rt_entry d n s m r w) \<and>
    (d' \<noteq> d \<longrightarrow> rt_at (fst (rt_upsert t d n s m r w)) d' = rt_at t d' \<or>
      (rt_at t d = None \<and> rt_at (fst (rt_upsert t d n s m r w)) d' = None \<and>
       (\<exists>es old. t = Some es \<and> rt_at t d' = Some old \<and>
         (\<forall>e\<in>set es. rt_used e \<and> rt_updatedMs old \<le> rt_updatedMs e))))"
proof (intro conjI impI)
  show "rt_wf (fst (rt_upsert t d n s m r w))" using assms(1) by (rule rt_upsert_wf)
  show "rt_at (fst (rt_upsert t d n s m r w)) d = Some (rt_entry d n s m r w)"
    using assms by (rule rt_upsert_at)
  assume d': "d' \<noteq> d"
  from assms(2) obtain es where es: "t = Some es" "es \<noteq> []" by (auto simp: rt_attached_def)
  obtain i where i: "rt_victim (Some es) d = Some i" "i < length es"
    "rt_upsert (Some es) d n s m r w = (Some (es[i := rt_entry d n s m r w]), Some i)"
    using rt_upsert_Some [OF es(2)] by metis
  have u: "slot_uniq rt_used rt_dst es" using assms(1) es by (simp add: rt_wf_def)
  from i(1) [unfolded rt_victim_pick]
  show "rt_at (fst (rt_upsert t d n s m r w)) d' = rt_at t d' \<or>
      (rt_at t d = None \<and> rt_at (fst (rt_upsert t d n s m r w)) d' = None \<and>
       (\<exists>es old. t = Some es \<and> rt_at t d' = Some old \<and>
         (\<forall>e\<in>set es. rt_used e \<and> rt_updatedMs old \<le> rt_updatedMs e)))"
  proof (cases rule: slot_pick_cases)
    case evict
    show ?thesis
    proof (cases "rt_dst (es ! i) = d'")
      case True
      have "rt_at t d' = Some (es ! i)"
        using True i(2) evict(4) es unfolding rt_at_def by (simp add: slot_get_iff [OF u]) blast
      moreover have "\<forall>e\<in>set es. rt_updatedMs (es ! i) \<le> rt_updatedMs e"
        using best_idx_minimal [of rt_used rt_updatedMs es i] evict(2,3) by (metis in_set_conv_nth)
      moreover have "rt_at (fst (rt_upsert t d n s m r w)) d' = None"
        using rte.put_pick(2) [OF u i(1) [unfolded rt_victim_pick], of "rt_entry d n s m r w" d']
          d' True evict(4) i(3) es by (simp add: rt_at_def)
      ultimately show ?thesis using evict es by (auto simp: rt_at_def slot_get_None)
    next
      case False
      then show ?thesis
        using rte.put_pick(2) [OF u i(1) [unfolded rt_victim_pick], of "rt_entry d n s m r w" d']
          d' i(3) es by (simp add: rt_at_def)
    qed
  qed (use rte.put_pick(2) [OF u i(1) [unfolded rt_victim_pick], of "rt_entry d n s m r w" d']
        d' i(3) es in \<open>simp_all add: rt_at_def\<close>)
qed

lemma route_upsert_correct_witness:
  "rt_at (fst (rt_upsert (Some [route0]) 5 6 0 False False 1)) 5 = Some (rt_entry 5 6 0 False False 1)"
  by (rule route_upsert_correct [THEN conjunct2, THEN conjunct1]) (simp_all add: rt_wf_def rt_attached_def slot_uniq_def route0_def)

text \<open>
  The neighbor table keeps short addresses distinct but not IEEE addresses: when a device is
  heard under a short address that another entry already holds, \<open>upsert\<close> takes the slot of that
  short address and leaves the device's old entry behind.
\<close>

lemma neighbor_ieee_twice:
  "\<exists>t i j es. nt_reach 2 t \<and> t = Some es \<and> i < length es \<and> j < length es \<and> i \<noteq> j \<and>
     nb_used (es ! i) \<and> nb_used (es ! j) \<and> nb_ieee (es ! i) = nb_ieee (es ! j) \<and> nb_ieee (es ! i) \<noteq> 0"
proof -
  let ?ops = "\<lambda>t. nt_step (nt_step (nt_step t (Upsert 1 11 1 2 1 9 True False 0))
     (Upsert 2 22 1 2 1 9 True False 1)) (Upsert 1 22 1 2 1 9 True False 2)"
  let ?t = "?ops (nt_begin (Some [neighbor0, neighbor0]))"
  have r: "nt_reach 2 ?t" by (intro nt_reach_step begin_storage) simp
  have "?t = Some [neighbor0\<lparr>nb_used := True, nb_nwk := 1, nb_ieee := 22, nb_deviceType := 1,
        nb_relationship := 2, nb_depth := 1, nb_lqi := 9, nb_rxOnWhenIdle := True, nb_lastSeenMs := 2\<rparr>,
      neighbor0\<lparr>nb_used := True, nb_nwk := 2, nb_ieee := 22, nb_deviceType := 1,
        nb_relationship := 2, nb_depth := 1, nb_lqi := 9, nb_rxOnWhenIdle := True, nb_lastSeenMs := 1\<rparr>]"
    by (simp add: nt_begin_def nt_clear_def nt_upsert_def nt_victim_def nt_findByNwk_def slot_find_def
        nt_findByIeee_def nt_firstFree_def nt_fill_def neighbor0_def Let_def)
  with r show ?thesis
    by (intro exI [of _ ?t] exI [of _ 0] exI [of _ 1]) simp
qed

end
