(* ===== verification/ZbNwk.thy ===== *)
theory ZbNwk
  imports ZbPrelude
begin

text \<open>
  \<open>ZigbeeNwk.h\<close> and \<open>ZigbeeNwk.cpp\<close>: the NWK frame codec and the source-route forwarding
  decision. A parser returns the pair of its \<open>bool\<close> answer and of the output record as the C
  code leaves it (the record may be partly filled when the answer is \<open>false\<close>), inside the
  option of a checked read; a pointer that a record keeps into the parsed buffer is the rest of
  the buffer from there.
\<close>

section \<open>Frame records\<close>

abbreviation (input) "NWK_FRAME_DATA \<equiv> (0 :: u16)"
abbreviation (input) "NWK_FRAME_COMMAND \<equiv> (1 :: u16)"

definition kProtocolVersion :: u16 where "kProtocolVersion = 2"
definition kBaseHeaderLen :: nat where "kBaseHeaderLen = 8"
definition kMaxPayload :: nat where "kMaxPayload = 116 - 8"

lemmas nwk_consts [simp] = kProtocolVersion_def kBaseHeaderLen_def kMaxPayload_def

record nwk_frame =
  nf_valid :: bool
  nf_frameType :: u8
  nf_protocolVersion :: u8
  nf_discoverRoute :: u8
  nf_multicast :: bool
  nf_security :: bool
  nf_sourceRoute :: bool
  nf_dstIeeePresent :: bool
  nf_srcIeeePresent :: bool
  nf_endDeviceInitiator :: bool
  nf_dstShort :: u16
  nf_srcShort :: u16
  nf_radius :: u8
  nf_sequence :: u8

text \<open>\<open>NwkDataFrame\<close> and \<open>NwkCommandFrame\<close> share their first fourteen fields.\<close>

record nwk_data_frame = nwk_frame +
  nd_srRelayCount :: u8
  nd_srRelayIndex :: u8
  nd_srRelayList :: ptr
  nd_payload :: ptr
  nd_payloadLen :: nat

record nwk_command_frame = nwk_frame +
  nc_commandId :: u8
  nc_payload :: ptr
  nc_payloadLen :: nat

definition nwk_data_frame0 :: nwk_data_frame where
  "nwk_data_frame0 = \<lparr>nf_valid = False, nf_frameType = 0, nf_protocolVersion = 0,
     nf_discoverRoute = 0, nf_multicast = False, nf_security = False, nf_sourceRoute = False,
     nf_dstIeeePresent = False, nf_srcIeeePresent = False, nf_endDeviceInitiator = False,
     nf_dstShort = 0, nf_srcShort = 0, nf_radius = 0, nf_sequence = 0,
     nd_srRelayCount = 0, nd_srRelayIndex = 0, nd_srRelayList = None,
     nd_payload = None, nd_payloadLen = 0\<rparr>"

definition nwk_command_frame0 :: nwk_command_frame where
  "nwk_command_frame0 = \<lparr>nf_valid = False, nf_frameType = 0, nf_protocolVersion = 0,
     nf_discoverRoute = 0, nf_multicast = False, nf_security = False, nf_sourceRoute = False,
     nf_dstIeeePresent = False, nf_srcIeeePresent = False, nf_endDeviceInitiator = False,
     nf_dstShort = 0, nf_srcShort = 0, nf_radius = 0, nf_sequence = 0,
     nc_commandId = 0, nc_payload = None, nc_payloadLen = 0\<rparr>"

section \<open>Data and command frames\<close>

text \<open>The frame control field that the three builders assemble.\<close>

definition nwk_fcf :: "u16 \<Rightarrow> u8 \<Rightarrow> u16" where
  "nwk_fcf frameType discoverRoute =
     0 OR frameType OR push_bit 2 kProtocolVersion OR push_bit 6 (ucast (discoverRoute AND 0x03))"

definition nwk_buildDataFrame ::
  "out_buf \<Rightarrow> u16 \<Rightarrow> u16 \<Rightarrow> u8 \<Rightarrow> u8 \<Rightarrow> ptr \<Rightarrow> nat \<Rightarrow> u8 \<Rightarrow> u8 list option"
where
  "nwk_buildDataFrame out dstShort srcShort radius sequence payload payloadLen discoverRoute =
     (case out of None \<Rightarrow> None | Some outMax \<Rightarrow>
        if payloadLen > kMaxPayload then None
        else if outMax < kBaseHeaderLen + payloadLen then None
        else if payloadLen > 0 \<and> payload = None then None
        else if discoverRoute > 3 then None
        else Some (le16 (nwk_fcf NWK_FRAME_DATA discoverRoute) @ le16 dstShort @ le16 srcShort @
          [radius, sequence] @ copied payload payloadLen))"

text \<open>
  The source-routed builder computes the header length in eight bits, stores all relays and
  then the payload from the header length on. Its model gives the bytes stored and the returned
  length separately, since for more than 122 relays they differ.
\<close>

definition nwk_buildDataFrameSourceRouted ::
  "out_buf \<Rightarrow> u16 \<Rightarrow> u16 \<Rightarrow> u8 \<Rightarrow> u8 \<Rightarrow> u16 list option \<Rightarrow> u8 \<Rightarrow> u8 \<Rightarrow> ptr \<Rightarrow> nat \<Rightarrow> u8
     \<Rightarrow> (u8 list \<times> nat) option"
where
  "nwk_buildDataFrameSourceRouted out dstShort srcShort radius sequence relays relayCount
       relayIndex payload payloadLen discoverRoute =
     (case out of None \<Rightarrow> None | Some outMax \<Rightarrow>
        if discoverRoute > 3 then None
        else if relayCount > 0 \<and> relays = None then None
        else if payloadLen > 0 \<and> payload = None then None
        else
          let subframeLen = cast8 (2 + unat relayCount * 2);
              headerLen = cast8 (kBaseHeaderLen + subframeLen)
          in if headerLen + payloadLen > outMax then None
             else if payloadLen > kMaxPayload then None
             else Some
               (let fixed = le16 (nwk_fcf NWK_FRAME_DATA discoverRoute OR push_bit 10 1) @
                      le16 dstShort @ le16 srcShort @ [radius, sequence, relayCount, relayIndex];
                    list = (case relays of None \<Rightarrow> [] | Some rs \<Rightarrow>
                              concat (map le16 (take (unat relayCount) rs)));
                    pl = copied payload payloadLen;
                    written = fixed @ list
                in (take headerLen written @ pl @ drop (headerLen + length pl) written,
                    cast8 (headerLen + payloadLen))))"

definition nwk_parseDataFrame :: "ptr \<Rightarrow> (bool \<times> nwk_data_frame) option" where
  "nwk_parseDataFrame npdu =
     (case npdu of None \<Rightarrow> Some (False, nwk_data_frame0) | Some bs \<Rightarrow>
      if length bs < kBaseHeaderLen then Some (False, nwk_data_frame0)
      else do {
        fcf \<leftarrow> rd16 bs 0;
        if fcf AND 0x03 \<noteq> NWK_FRAME_DATA then Some (False, nwk_data_frame0)
        else if bit fcf 8 \<or> bit fcf 9 \<or> bit fcf 11 \<or> bit fcf 12 then Some (False, nwk_data_frame0)
        else do {
          sr \<leftarrow> (if bit fcf 10 then
                   if length bs < cast8 (kBaseHeaderLen + 2) then Some None
                   else do {
                     cnt \<leftarrow> rd8 bs kBaseHeaderLen;
                     idx \<leftarrow> rd8 bs (kBaseHeaderLen + 1);
                     let subframeLen = cast8 (2 + unat cnt * 2);
                     if length bs < cast8 (kBaseHeaderLen + subframeLen) then Some None
                     else Some (Some (cnt, idx, Some (drop (kBaseHeaderLen + 2) bs),
                                      cast8 (kBaseHeaderLen + subframeLen)))
                   }
                 else Some (Some (0, 0, None, kBaseHeaderLen)));
          case sr of None \<Rightarrow> Some (False, nwk_data_frame0)
          | Some (cnt, idx, relayList, offset) \<Rightarrow> do {
              dst \<leftarrow> rd16 bs 2;
              src \<leftarrow> rd16 bs 4;
              radius \<leftarrow> rd8 bs 6;
              sequence \<leftarrow> rd8 bs 7;
              Some (True, \<lparr>nf_valid = True, nf_frameType = ucast (fcf AND 0x03),
                nf_protocolVersion = ucast (drop_bit 2 fcf AND 0x0F),
                nf_discoverRoute = ucast (drop_bit 6 fcf AND 0x03),
                nf_multicast = bit fcf 8, nf_security = bit fcf 9, nf_sourceRoute = bit fcf 10,
                nf_dstIeeePresent = bit fcf 11, nf_srcIeeePresent = bit fcf 12,
                nf_endDeviceInitiator = bit fcf 13, nf_dstShort = dst, nf_srcShort = src,
                nf_radius = radius, nf_sequence = sequence, nd_srRelayCount = cnt,
                nd_srRelayIndex = idx, nd_srRelayList = relayList,
                nd_payload = Some (drop offset bs), nd_payloadLen = cast8 (length bs - offset)\<rparr>)
            }
        }
      })"

definition nwk_buildCommandFrame ::
  "out_buf \<Rightarrow> u16 \<Rightarrow> u16 \<Rightarrow> u8 \<Rightarrow> u8 \<Rightarrow> u8 \<Rightarrow> ptr \<Rightarrow> nat \<Rightarrow> u8 \<Rightarrow> u8 list option"
where
  "nwk_buildCommandFrame out dstShort srcShort radius sequence commandId payload payloadLen
       discoverRoute =
     (case out of None \<Rightarrow> None | Some outMax \<Rightarrow>
        if payloadLen > cast8 (kMaxPayload - 1) then None
        else if outMax < kBaseHeaderLen + 1 + payloadLen then None
        else if payloadLen > 0 \<and> payload = None then None
        else if discoverRoute > 3 then None
        else Some (le16 (nwk_fcf NWK_FRAME_COMMAND discoverRoute) @ le16 dstShort @ le16 srcShort @
          [radius, sequence, commandId] @ copied payload payloadLen))"

definition nwk_parseCommandFrame :: "ptr \<Rightarrow> (bool \<times> nwk_command_frame) option" where
  "nwk_parseCommandFrame npdu =
     (case npdu of None \<Rightarrow> Some (False, nwk_command_frame0) | Some bs \<Rightarrow>
      if length bs < kBaseHeaderLen + 1 then Some (False, nwk_command_frame0)
      else do {
        fcf \<leftarrow> rd16 bs 0;
        if fcf AND 0x03 \<noteq> NWK_FRAME_COMMAND then Some (False, nwk_command_frame0)
        else if bit fcf 8 \<or> bit fcf 9 \<or> bit fcf 10 \<or> bit fcf 11 \<or> bit fcf 12
        then Some (False, nwk_command_frame0)
        else do {
          dst \<leftarrow> rd16 bs 2;
          src \<leftarrow> rd16 bs 4;
          radius \<leftarrow> rd8 bs 6;
          sequence \<leftarrow> rd8 bs 7;
          commandId \<leftarrow> rd8 bs 8;
          Some (True, \<lparr>nf_valid = True, nf_frameType = ucast (fcf AND 0x03),
            nf_protocolVersion = ucast (drop_bit 2 fcf AND 0x0F),
            nf_discoverRoute = ucast (drop_bit 6 fcf AND 0x03),
            nf_multicast = bit fcf 8, nf_security = bit fcf 9, nf_sourceRoute = bit fcf 10,
            nf_dstIeeePresent = bit fcf 11, nf_srcIeeePresent = bit fcf 12,
            nf_endDeviceInitiator = bit fcf 13, nf_dstShort = dst, nf_srcShort = src,
            nf_radius = radius, nf_sequence = sequence, nc_commandId = commandId,
            nc_payload = Some (drop (kBaseHeaderLen + 1) bs),
            nc_payloadLen = cast8 (length bs - kBaseHeaderLen - 1)\<rparr>)
        }
      })"

section \<open>Source-routed forwarding\<close>

definition nwk_getDataFrameRelay :: "nwk_data_frame \<Rightarrow> nat \<Rightarrow> u16 option option" where
  "nwk_getDataFrameRelay frame index =
     (case nd_srRelayList frame of None \<Rightarrow> Some None | Some l \<Rightarrow>
        if \<not> nf_valid frame \<or> \<not> nf_sourceRoute frame \<or> index \<ge> unat (nd_srRelayCount frame)
        then Some None
        else map_option Some (rd16 l (index * 2)))"

datatype sr_action = SR_DELIVER | SR_RELAY u16 u8 | SR_DROP

definition nwk_sourceRouteAction :: "nwk_data_frame \<Rightarrow> u16 \<Rightarrow> sr_action option" where
  "nwk_sourceRouteAction frame selfShort =
     (if \<not> nf_valid frame \<or> \<not> nf_sourceRoute frame then Some SR_DROP
      else if nf_dstShort frame = selfShort then Some SR_DELIVER
      else case nd_srRelayList frame of None \<Rightarrow> Some SR_DROP | Some l \<Rightarrow>
        if nd_srRelayIndex frame \<ge> nd_srRelayCount frame then Some SR_DROP
        else do {
          expected \<leftarrow> rd16 l (unat (nd_srRelayIndex frame) * 2);
          if expected \<noteq> selfShort then Some SR_DROP
          else do {
            let nextIdx = nd_srRelayIndex frame + 1;
            nextHop \<leftarrow> (if nextIdx < nd_srRelayCount frame then rd16 l (unat nextIdx * 2)
                        else Some (nf_dstShort frame));
            Some (SR_RELAY nextHop nextIdx)
          }
        })"


section \<open>Command payloads\<close>

record nwk_route_request =
  rq_valid :: bool
  rq_manyToOne :: bool
  rq_destinationIeeePresent :: bool
  rq_multicast :: bool
  rq_routeRequestId :: u8
  rq_destination :: u16
  rq_pathCost :: u8
  rq_destinationIeee :: u64

definition nwk_route_request0 :: nwk_route_request where
  "nwk_route_request0 = \<lparr>rq_valid = False, rq_manyToOne = False, rq_destinationIeeePresent = False,
     rq_multicast = False, rq_routeRequestId = 0, rq_destination = 0, rq_pathCost = 0,
     rq_destinationIeee = 0\<rparr>"

definition flag8 :: "bool \<Rightarrow> u8 \<Rightarrow> u8" where
  "flag8 b m = (if b then m else 0)"

definition nwk_buildRouteRequestPayload ::
  "out_buf \<Rightarrow> u8 \<Rightarrow> u16 \<Rightarrow> u8 \<Rightarrow> bool \<Rightarrow> u64 option \<Rightarrow> bool \<Rightarrow> u8 list option"
where
  "nwk_buildRouteRequestPayload out routeRequestId destination pathCost manyToOne destinationIeee
       multicast =
     (let n = (case destinationIeee of Some _ \<Rightarrow> 13 | None \<Rightarrow> (5 :: nat)) in
      case out of None \<Rightarrow> None | Some outMax \<Rightarrow>
        if outMax < n then None
        else
          let options = 0 OR flag8 manyToOne 0x08 OR flag8 (destinationIeee \<noteq> None) 0x10 OR
                flag8 multicast 0x20
          in Some ([options, routeRequestId] @ le16 destination @ [pathCost] @
               (case destinationIeee of None \<Rightarrow> [] | Some a \<Rightarrow> le64 a)))"

definition nwk_parseRouteRequestPayload :: "ptr \<Rightarrow> (bool \<times> nwk_route_request) option" where
  "nwk_parseRouteRequestPayload payload =
     (case payload of None \<Rightarrow> Some (False, nwk_route_request0) | Some bs \<Rightarrow>
      if length bs < 5 then Some (False, nwk_route_request0)
      else do {
        options \<leftarrow> rd8 bs 0;
        rid \<leftarrow> rd8 bs 1;
        dst \<leftarrow> rd16 bs 2;
        cost \<leftarrow> rd8 bs 4;
        let c = \<lparr>rq_valid = True, rq_manyToOne = (options AND 0x08 \<noteq> 0),
          rq_destinationIeeePresent = (options AND 0x10 \<noteq> 0),
          rq_multicast = (options AND 0x20 \<noteq> 0), rq_routeRequestId = rid,
          rq_destination = dst, rq_pathCost = cost, rq_destinationIeee = 0\<rparr>;
        if rq_destinationIeeePresent c then
          if length bs < 13 then Some (False, c)
          else do { a \<leftarrow> rd64 bs 5; Some (True, c\<lparr>rq_destinationIeee := a\<rparr>) }
        else Some (True, c)
      })"

record nwk_route_reply =
  rp_valid :: bool
  rp_originatorIeeePresent :: bool
  rp_responderIeeePresent :: bool
  rp_multicast :: bool
  rp_routeRequestId :: u8
  rp_originator :: u16
  rp_responder :: u16
  rp_pathCost :: u8
  rp_originatorIeee :: u64
  rp_responderIeee :: u64

definition nwk_route_reply0 :: nwk_route_reply where
  "nwk_route_reply0 = \<lparr>rp_valid = False, rp_originatorIeeePresent = False,
     rp_responderIeeePresent = False, rp_multicast = False, rp_routeRequestId = 0,
     rp_originator = 0, rp_responder = 0, rp_pathCost = 0, rp_originatorIeee = 0,
     rp_responderIeee = 0\<rparr>"

definition nwk_buildRouteReplyPayload ::
  "out_buf \<Rightarrow> u8 \<Rightarrow> u16 \<Rightarrow> u16 \<Rightarrow> u8 \<Rightarrow> u64 option \<Rightarrow> u64 option \<Rightarrow> bool \<Rightarrow> u8 list option"
where
  "nwk_buildRouteReplyPayload out routeRequestId originator responder pathCost originatorIeee
       responderIeee multicast =
     (let n = (7 :: nat) + (if originatorIeee \<noteq> None then 8 else 0) +
              (if responderIeee \<noteq> None then 8 else 0) in
      case out of None \<Rightarrow> None | Some outMax \<Rightarrow>
        if outMax < n then None
        else
          let options = 0 OR flag8 (originatorIeee \<noteq> None) 0x10 OR
                flag8 (responderIeee \<noteq> None) 0x20 OR flag8 multicast 0x40
          in Some ([options, routeRequestId] @ le16 originator @ le16 responder @ [pathCost] @
               (case originatorIeee of None \<Rightarrow> [] | Some a \<Rightarrow> le64 a) @
               (case responderIeee of None \<Rightarrow> [] | Some a \<Rightarrow> le64 a)))"

definition nwk_parseRouteReplyPayload :: "ptr \<Rightarrow> (bool \<times> nwk_route_reply) option" where
  "nwk_parseRouteReplyPayload payload =
     (case payload of None \<Rightarrow> Some (False, nwk_route_reply0) | Some bs \<Rightarrow>
      if length bs < 7 then Some (False, nwk_route_reply0)
      else do {
        options \<leftarrow> rd8 bs 0;
        rid \<leftarrow> rd8 bs 1;
        orig \<leftarrow> rd16 bs 2;
        resp \<leftarrow> rd16 bs 4;
        cost \<leftarrow> rd8 bs 6;
        let c = \<lparr>rp_valid = True, rp_originatorIeeePresent = (options AND 0x10 \<noteq> 0),
          rp_responderIeeePresent = (options AND 0x20 \<noteq> 0),
          rp_multicast = (options AND 0x40 \<noteq> 0), rp_routeRequestId = rid,
          rp_originator = orig, rp_responder = resp, rp_pathCost = cost,
          rp_originatorIeee = 0, rp_responderIeee = 0\<rparr>;
        first \<leftarrow> (if rp_originatorIeeePresent c then
                    if length bs < 7 + 8 then Some (False, c, 7)
                    else do { a \<leftarrow> rd64 bs 7; Some (True, c\<lparr>rp_originatorIeee := a\<rparr>, 7 + 8) }
                  else Some (True, c, 7));
        (case first of (ok, c, idx) \<Rightarrow>
           if \<not> ok then Some (False, c)
           else if rp_responderIeeePresent c then
             if length bs < idx + 8 then Some (False, c)
             else do { a \<leftarrow> rd64 bs idx; Some (True, c\<lparr>rp_responderIeee := a\<rparr>) }
           else Some (True, c))
      })"

record nwk_network_status =
  ns_valid :: bool
  ns_status :: u8
  ns_destination :: u16

definition nwk_buildNetworkStatusPayload :: "out_buf \<Rightarrow> u8 \<Rightarrow> u16 \<Rightarrow> u8 list option" where
  "nwk_buildNetworkStatusPayload out status destination =
     (case out of None \<Rightarrow> None | Some outMax \<Rightarrow>
        if outMax < 3 then None else Some ([status] @ le16 destination))"

definition nwk_parseNetworkStatusPayload :: "ptr \<Rightarrow> (bool \<times> nwk_network_status) option" where
  "nwk_parseNetworkStatusPayload payload =
     (case payload of None \<Rightarrow> Some (False, \<lparr>ns_valid = False, ns_status = 0, ns_destination = 0\<rparr>)
      | Some bs \<Rightarrow>
      if length bs < 3 then Some (False, \<lparr>ns_valid = False, ns_status = 0, ns_destination = 0\<rparr>)
      else do {
        s \<leftarrow> rd8 bs 0;
        d \<leftarrow> rd16 bs 1;
        Some (True, \<lparr>ns_valid = True, ns_status = s, ns_destination = d\<rparr>)
      })"

record nwk_route_record =
  rr_valid :: bool
  rr_relayCount :: u8
  rr_relayList :: ptr

definition nwk_buildRouteRecordPayload :: "out_buf \<Rightarrow> u16 list option \<Rightarrow> u8 \<Rightarrow> u8 list option" where
  "nwk_buildRouteRecordPayload out relays relayCount =
     (case out of None \<Rightarrow> None | Some outMax \<Rightarrow>
        if outMax < cast8 (1 + unat relayCount * 2) then None
        else if relayCount > 0 \<and> relays = None then None
        else Some (relayCount # (case relays of None \<Rightarrow> []
               | Some rs \<Rightarrow> concat (map le16 (take (unat relayCount) rs)))))"

definition nwk_parseRouteRecordPayload :: "ptr \<Rightarrow> (bool \<times> nwk_route_record) option" where
  "nwk_parseRouteRecordPayload payload =
     (case payload of None \<Rightarrow> Some (False, \<lparr>rr_valid = False, rr_relayCount = 0, rr_relayList = None\<rparr>)
      | Some bs \<Rightarrow>
      if length bs < 1 then Some (False, \<lparr>rr_valid = False, rr_relayCount = 0, rr_relayList = None\<rparr>)
      else do {
        cnt \<leftarrow> rd8 bs 0;
        if length bs < cast8 (1 + unat cnt * 2)
        then Some (False, \<lparr>rr_valid = False, rr_relayCount = cnt, rr_relayList = None\<rparr>)
        else Some (True, \<lparr>rr_valid = True, rr_relayCount = cnt, rr_relayList = Some (drop 1 bs)\<rparr>)
      })"

definition nwk_getRouteRecordRelay :: "nwk_route_record \<Rightarrow> nat \<Rightarrow> u16 option option" where
  "nwk_getRouteRecordRelay command index =
     (case rr_relayList command of None \<Rightarrow> Some None | Some l \<Rightarrow>
        if \<not> rr_valid command \<or> index \<ge> unat (rr_relayCount command) then Some None
        else map_option Some (rd16 l (index * 2)))"

record nwk_leave =
  lv_valid :: bool
  lv_rejoin :: bool
  lv_request :: bool
  lv_removeChildren :: bool

definition nwk_buildLeavePayload :: "out_buf \<Rightarrow> bool \<Rightarrow> bool \<Rightarrow> bool \<Rightarrow> u8 list option" where
  "nwk_buildLeavePayload out rejoin request removeChildren =
     (case out of None \<Rightarrow> None | Some outMax \<Rightarrow>
        if outMax < 1 then None
        else Some [0 OR flag8 rejoin 0x20 OR flag8 request 0x40 OR flag8 removeChildren 0x80])"

definition nwk_parseLeavePayload :: "ptr \<Rightarrow> (bool \<times> nwk_leave) option" where
  "nwk_parseLeavePayload payload =
     (let none = \<lparr>lv_valid = False, lv_rejoin = False, lv_request = False, lv_removeChildren = False\<rparr> in
      case payload of None \<Rightarrow> Some (False, none) | Some bs \<Rightarrow>
      if length bs < 1 then Some (False, none)
      else do {
        o0 \<leftarrow> rd8 bs 0;
        Some (True, \<lparr>lv_valid = True, lv_rejoin = (o0 AND 0x20 \<noteq> 0), lv_request = (o0 AND 0x40 \<noteq> 0),
          lv_removeChildren = (o0 AND 0x80 \<noteq> 0)\<rparr>)
      })"

definition nwk_buildRejoinRequestPayload :: "out_buf \<Rightarrow> u8 \<Rightarrow> u8 list option" where
  "nwk_buildRejoinRequestPayload out capability =
     (case out of None \<Rightarrow> None | Some outMax \<Rightarrow> if outMax < 1 then None else Some [capability])"

record nwk_rejoin_request =
  rjq_valid :: bool
  rjq_capability :: u8

definition nwk_parseRejoinRequestPayload :: "ptr \<Rightarrow> (bool \<times> nwk_rejoin_request) option" where
  "nwk_parseRejoinRequestPayload payload =
     (case payload of None \<Rightarrow> Some (False, \<lparr>rjq_valid = False, rjq_capability = 0\<rparr>) | Some bs \<Rightarrow>
      if length bs < 1 then Some (False, \<lparr>rjq_valid = False, rjq_capability = 0\<rparr>)
      else do { c \<leftarrow> rd8 bs 0; Some (True, \<lparr>rjq_valid = True, rjq_capability = c\<rparr>) })"

record nwk_rejoin_response =
  rjr_valid :: bool
  rjr_nwkAddress :: u16
  rjr_status :: u8

definition nwk_buildRejoinResponsePayload :: "out_buf \<Rightarrow> u16 \<Rightarrow> u8 \<Rightarrow> u8 list option" where
  "nwk_buildRejoinResponsePayload out nwkAddress status =
     (case out of None \<Rightarrow> None | Some outMax \<Rightarrow>
        if outMax < 3 then None else Some (le16 nwkAddress @ [status]))"

definition nwk_parseRejoinResponsePayload :: "ptr \<Rightarrow> (bool \<times> nwk_rejoin_response) option" where
  "nwk_parseRejoinResponsePayload payload =
     (case payload of None \<Rightarrow> Some (False, \<lparr>rjr_valid = False, rjr_nwkAddress = 0, rjr_status = 0\<rparr>)
      | Some bs \<Rightarrow>
      if length bs < 3 then Some (False, \<lparr>rjr_valid = False, rjr_nwkAddress = 0, rjr_status = 0\<rparr>)
      else do {
        a \<leftarrow> rd16 bs 0;
        s \<leftarrow> rd8 bs 2;
        Some (True, \<lparr>rjr_valid = True, rjr_nwkAddress = a, rjr_status = s\<rparr>)
      })"

section \<open>Link Status and beacon payloads\<close>

record nwk_link_entry =
  le_address :: u16
  le_incomingCost :: u8
  le_outgoingCost :: u8

record nwk_link_status =
  ls_valid :: bool
  ls_firstFrame :: bool
  ls_lastFrame :: bool
  ls_entryCount :: u8
  ls_entries :: ptr

definition nwk_link_status0 :: nwk_link_status where
  "nwk_link_status0 = \<lparr>ls_valid = False, ls_firstFrame = False, ls_lastFrame = False,
     ls_entryCount = 0, ls_entries = None\<rparr>"

definition nwk_cost_byte :: "nwk_link_entry \<Rightarrow> u8" where
  "nwk_cost_byte e = (le_incomingCost e AND 0x07) OR push_bit 4 (le_outgoingCost e AND 0x07)"

definition nwk_link_record :: "nwk_link_entry \<Rightarrow> u8 list" where
  "nwk_link_record e = le16 (le_address e) @ [nwk_cost_byte e]"

definition nwk_buildLinkStatusPayload ::
  "out_buf \<Rightarrow> nwk_link_entry list option \<Rightarrow> u8 \<Rightarrow> bool \<Rightarrow> bool \<Rightarrow> u8 list option"
where
  "nwk_buildLinkStatusPayload out entries entryCount firstFrame lastFrame =
     (case out of None \<Rightarrow> None | Some outMax \<Rightarrow>
        if entryCount > 0 \<and> entries = None then None
        else if entryCount > 31 then None
        else if outMax < cast8 (1 + 3 * unat entryCount) then None
        else Some (((entryCount AND 0x1F) OR flag8 firstFrame 0x20 OR flag8 lastFrame 0x40) #
               (case entries of None \<Rightarrow> []
                | Some es \<Rightarrow> concat (map nwk_link_record (take (unat entryCount) es)))))"

definition nwk_parseLinkStatusPayload :: "ptr \<Rightarrow> (bool \<times> nwk_link_status) option" where
  "nwk_parseLinkStatusPayload payload =
     (case payload of None \<Rightarrow> Some (False, nwk_link_status0) | Some bs \<Rightarrow>
      if length bs < 1 then Some (False, nwk_link_status0)
      else do {
        b0 \<leftarrow> rd8 bs 0;
        let count = b0 AND 0x1F;
        if length bs < 1 + 3 * unat count then Some (False, nwk_link_status0)
        else Some (True, \<lparr>ls_valid = True, ls_firstFrame = (b0 AND 0x20 \<noteq> 0),
          ls_lastFrame = (b0 AND 0x40 \<noteq> 0), ls_entryCount = count, ls_entries = Some (drop 1 bs)\<rparr>)
      })"

definition nwk_getLinkStatusEntry :: "nwk_link_status \<Rightarrow> nat \<Rightarrow> nwk_link_entry option option" where
  "nwk_getLinkStatusEntry command index =
     (if \<not> ls_valid command \<or> index \<ge> unat (ls_entryCount command) then Some None
      else case ls_entries command of None \<Rightarrow> Some None | Some l \<Rightarrow> do {
        a \<leftarrow> rd16 l (3 * index);
        c \<leftarrow> rd8 l (3 * index + 2);
        Some (Some \<lparr>le_address = a, le_incomingCost = c AND 0x07,
          le_outgoingCost = drop_bit 4 c AND 0x07\<rparr>)
      })"

record nwk_beacon =
  bp_valid :: bool
  bp_protocolId :: u8
  bp_stackProfile :: u8
  bp_protocolVersion :: u8
  bp_routerCapacity :: bool
  bp_deviceDepth :: u8
  bp_endDeviceCapacity :: bool
  bp_extendedPanId :: u64
  bp_txOffset :: u32
  bp_updateId :: u8

definition nwk_beacon0 :: nwk_beacon where
  "nwk_beacon0 = \<lparr>bp_valid = False, bp_protocolId = 0, bp_stackProfile = 0, bp_protocolVersion = 0,
     bp_routerCapacity = False, bp_deviceDepth = 0, bp_endDeviceCapacity = False,
     bp_extendedPanId = 0, bp_txOffset = 0, bp_updateId = 0\<rparr>"

definition nwk_buildBeaconPayload ::
  "out_buf \<Rightarrow> u64 \<Rightarrow> u8 \<Rightarrow> bool \<Rightarrow> bool \<Rightarrow> u8 \<Rightarrow> u8 \<Rightarrow> u8 list option"
where
  "nwk_buildBeaconPayload out extendedPanId deviceDepth routerCapacity endDeviceCapacity updateId
       stackProfile =
     (case out of None \<Rightarrow> None | Some outMax \<Rightarrow>
        if outMax < 15 then None
        else Some ([0x00,
            (stackProfile AND 0x0F) OR push_bit 4 (2 AND 0x0F),
            push_bit 2 (of_bool routerCapacity) OR push_bit 3 (deviceDepth AND 0x0F) OR
              push_bit 7 (of_bool endDeviceCapacity)] @
          le64 extendedPanId @ [0xFF, 0xFF, 0xFF, updateId]))"

definition nwk_parseBeaconPayload :: "ptr \<Rightarrow> (bool \<times> nwk_beacon) option" where
  "nwk_parseBeaconPayload payload =
     (case payload of None \<Rightarrow> Some (False, nwk_beacon0) | Some bs \<Rightarrow>
      if length bs < 15 then Some (False, nwk_beacon0)
      else do {
        b0 \<leftarrow> rd8 bs 0;
        if b0 \<noteq> 0x00 then Some (False, nwk_beacon0)
        else do {
          b1 \<leftarrow> rd8 bs 1;
          b2 \<leftarrow> rd8 bs 2;
          epid \<leftarrow> rd64 bs 3;
          t0 \<leftarrow> rd8 bs 11;
          t1 \<leftarrow> rd8 bs 12;
          t2 \<leftarrow> rd8 bs 13;
          upd \<leftarrow> rd8 bs 14;
          Some (True, \<lparr>bp_valid = True, bp_protocolId = b0, bp_stackProfile = b1 AND 0x0F,
            bp_protocolVersion = drop_bit 4 b1 AND 0x0F, bp_routerCapacity = bit b2 2,
            bp_deviceDepth = drop_bit 3 b2 AND 0x0F, bp_endDeviceCapacity = bit b2 7,
            bp_extendedPanId = epid,
            bp_txOffset = ucast t0 OR push_bit 8 (ucast t1) OR push_bit 16 (ucast t2),
            bp_updateId = upd\<rparr>)
        }
      })"

end
