(* ===== verification/ZbNwkFacts.thy ===== *)
theory ZbNwkFacts
  imports ZbNwk
begin

text \<open>
  Properties of the NWK codec of \<open>ZbNwk\<close>: no parser reads outside its buffer, what a builder
  wrote a parser gives back, builders stay inside their output buffer, and a source-routed frame
  is forwarded along exactly its relay list. The eight-bit length arithmetic of the relay lists
  breaks two of these for long lists, which the last section proves on concrete frames.
\<close>

section \<open>Parsers never read outside the buffer\<close>

declare length_greater_0_conv [simp del] and rd_in [simp]

lemma nwk_parseDataFrame_safe: "nwk_parseDataFrame npdu \<noteq> None"
proof (cases npdu)
  case None
  then show ?thesis by (simp add: nwk_parseDataFrame_def)
next
  case (Some bs)
  have sr: "length bs \<ge> 10" if "\<not> length bs < cast8 (kBaseHeaderLen + 2)" using that by simp
  show ?thesis
    by (auto simp: nwk_parseDataFrame_def Some Let_def split: option.splits if_splits dest: sr)
qed

lemma nwk_parseCommandFrame_safe: "nwk_parseCommandFrame npdu \<noteq> None"
  by (auto simp: nwk_parseCommandFrame_def split: option.split)

lemma nwk_parseRouteRequestPayload_safe: "nwk_parseRouteRequestPayload p \<noteq> None"
  by (auto simp: nwk_parseRouteRequestPayload_def Let_def split: option.split)

lemma nwk_parseRouteReplyPayload_safe: "nwk_parseRouteReplyPayload p \<noteq> None"
  by (auto simp: nwk_parseRouteReplyPayload_def Let_def split: option.split)

lemma nwk_small_parsers_safe:
  "nwk_parseNetworkStatusPayload p \<noteq> None" "nwk_parseRouteRecordPayload p \<noteq> None"
  "nwk_parseLeavePayload p \<noteq> None" "nwk_parseRejoinRequestPayload p \<noteq> None"
  "nwk_parseRejoinResponsePayload p \<noteq> None" "nwk_parseLinkStatusPayload p \<noteq> None"
  by (auto simp: nwk_parseNetworkStatusPayload_def nwk_parseRouteRecordPayload_def
      nwk_parseLeavePayload_def nwk_parseRejoinRequestPayload_def
      nwk_parseRejoinResponsePayload_def nwk_parseLinkStatusPayload_def Let_def split: option.split)

lemma nwk_parseBeaconPayload_safe: "nwk_parseBeaconPayload p \<noteq> None"
  by (auto simp: nwk_parseBeaconPayload_def split: option.split)

declare length_greater_0_conv [simp] and rd_in [simp del]

section \<open>Round trips\<close>

lemma nwk_fcf_fields:
  assumes "dr \<le> 3" "ft = 0 \<or> ft = 1"
  shows "nwk_fcf ft dr AND 3 = ft" "drop_bit 2 (nwk_fcf ft dr) AND 0xF = 2"
    "drop_bit 6 (nwk_fcf ft dr) AND 3 = ucast dr"
    "\<not> bit (nwk_fcf ft dr) 8" "\<not> bit (nwk_fcf ft dr) 9" "\<not> bit (nwk_fcf ft dr) 10"
    "\<not> bit (nwk_fcf ft dr) 11" "\<not> bit (nwk_fcf ft dr) 12" "\<not> bit (nwk_fcf ft dr) 13"
  using u8_le3_cases [OF assms(1)] assms(2) by (auto simp: nwk_fcf_def)

lemma nwk_data_roundtrip:
  assumes "nwk_buildDataFrame out dst src radius seq (Some pl) (length pl) dr = Some bs"
  shows "nwk_parseDataFrame (Some bs) = Some (True, nwk_data_frame0\<lparr>nf_valid := True,
      nf_protocolVersion := 2, nf_discoverRoute := dr, nf_dstShort := dst, nf_srcShort := src,
      nf_radius := radius, nf_sequence := seq, nd_payload := Some pl, nd_payloadLen := length pl\<rparr>)"
proof -
  have g: "length pl \<le> 108" "dr \<le> 3" and bs: "bs = le16 (nwk_fcf 0 dr) @ le16 dst @ le16 src @ [radius, seq] @ pl"
    using assms by (auto simp: nwk_buildDataFrame_def not_less split: option.splits if_splits)
  note f = nwk_fcf_fields [OF g(2), of 0, simplified]
  show ?thesis
    using g(1) by (simp add: nwk_parseDataFrame_def bs f wire_simps nwk_data_frame0_def)
qed


lemma nwk_command_roundtrip:
  assumes "nwk_buildCommandFrame out dst src radius seq cmd (Some pl) (length pl) dr = Some bs"
  shows "nwk_parseCommandFrame (Some bs) = Some (True, nwk_command_frame0\<lparr>nf_valid := True,
      nf_frameType := 1, nf_protocolVersion := 2, nf_discoverRoute := dr, nf_dstShort := dst,
      nf_srcShort := src, nf_radius := radius, nf_sequence := seq, nc_commandId := cmd,
      nc_payload := Some pl, nc_payloadLen := length pl\<rparr>)"
proof -
  have g: "length pl \<le> 107" "dr \<le> 3"
    and bs: "bs = le16 (nwk_fcf 1 dr) @ le16 dst @ le16 src @ [radius, seq, cmd] @ pl"
    using assms by (auto simp: nwk_buildCommandFrame_def not_less split: option.splits if_splits)
  note f = nwk_fcf_fields [OF g(2), of 1, simplified]
  show ?thesis
    using g(1) by (simp add: nwk_parseCommandFrame_def bs f wire_simps nwk_command_frame0_def)
qed

lemma nwk_sr_fcf:
  assumes "dr \<le> 3"
  shows "(nwk_fcf 0 dr OR push_bit 10 1) AND 3 = 0" "drop_bit 2 (nwk_fcf 0 dr OR push_bit 10 1) AND 0xF = 2"
    "drop_bit 6 (nwk_fcf 0 dr OR push_bit 10 1) AND 3 = ucast dr" "bit (nwk_fcf 0 dr OR push_bit 10 1) 10"
    "\<not> bit (nwk_fcf 0 dr OR push_bit 10 1) 8" "\<not> bit (nwk_fcf 0 dr OR push_bit 10 1) 9"
    "\<not> bit (nwk_fcf 0 dr OR push_bit 10 1) 11" "\<not> bit (nwk_fcf 0 dr OR push_bit 10 1) 12"
    "\<not> bit (nwk_fcf 0 dr OR push_bit 10 1) 13"
  using u8_le3_cases [OF assms(1)] by (auto simp: nwk_fcf_def)

definition sr_frame :: "u16 \<Rightarrow> u16 \<Rightarrow> u8 \<Rightarrow> u8 \<Rightarrow> u16 list \<Rightarrow> u8 \<Rightarrow> u8 \<Rightarrow> u8 list \<Rightarrow> u8 \<Rightarrow> nwk_data_frame" where
  "sr_frame dst src radius seq rs cnt idx pl dr = nwk_data_frame0\<lparr>nf_valid := True,
      nf_protocolVersion := 2, nf_discoverRoute := dr, nf_sourceRoute := True, nf_dstShort := dst,
      nf_srcShort := src, nf_radius := radius, nf_sequence := seq, nd_srRelayCount := cnt,
      nd_srRelayIndex := idx, nd_srRelayList := Some (concat (map le16 rs) @ pl),
      nd_payload := Some pl, nd_payloadLen := length pl\<rparr>"

lemma nwk_sr_build:
  assumes "nwk_buildDataFrameSourceRouted (Some outMax) dst src radius seq (Some rs) cnt idx
      (Some pl) (length pl) dr = Some (bs, n)"
    and "length rs = unat cnt" "length rs \<le> 122" "outMax \<le> 255"
  shows "bs = le16 (nwk_fcf 0 dr OR push_bit 10 1) @ le16 dst @ le16 src @ [radius, seq, cnt, idx] @
      concat (map le16 rs) @ pl" "n = length bs" "length bs \<le> outMax" "dr \<le> 3" "length pl \<le> 108"
proof -
  have c: "unat cnt * 2 \<le> 244" using assms(2,3) by simp
  show "bs = le16 (nwk_fcf 0 dr OR push_bit 10 1) @ le16 dst @ le16 src @ [radius, seq, cnt, idx] @
      concat (map le16 rs) @ pl" "n = length bs" "length bs \<le> outMax" "dr \<le> 3" "length pl \<le> 108"
    using assms c by (auto simp: nwk_buildDataFrameSourceRouted_def Let_def not_less split: if_splits)
qed

lemma nwk_sr_roundtrip:
  assumes "nwk_buildDataFrameSourceRouted (Some outMax) dst src radius seq (Some rs) cnt idx
      (Some pl) (length pl) dr = Some (bs, n)"
    and "length rs = unat cnt" "length rs \<le> 122" "outMax \<le> 255"
  shows "nwk_parseDataFrame (Some bs) = Some (True, sr_frame dst src radius seq rs cnt idx pl dr)"
proof -
  define F where "F = nwk_fcf 0 dr OR push_bit 10 1"
  note b = nwk_sr_build [OF assms, folded F_def]
  note f = nwk_sr_fcf [OF b(4), folded F_def]
  have d: "drop (4 + k) (w # x # y # z # zs) = drop k zs" for k and w x y z :: u8 and zs
    by (simp add: numeral_eq_Suc)
  have c: "unat cnt * 2 \<le> 244" "length rs * 2 = unat cnt * 2" using assms(2,3) by simp_all
  show ?thesis
    using c b(5) assms(2)
    by (simp add: nwk_parseDataFrame_def b(1) f wire_simps sr_frame_def nwk_data_frame0_def Let_def d)
qed

lemma nwk_sr_relays:
  assumes "length rs = unat cnt" "i < length rs"
  shows "nwk_getDataFrameRelay (sr_frame dst src radius seq rs cnt idx pl dr) i = Some (Some (rs ! i))"
  using assms by (simp add: nwk_getDataFrameRelay_def sr_frame_def rd16_concat_le16)

lemma flag8_bits [simp]:
  "(flag8 a 0x08 OR flag8 b 0x10 OR flag8 c 0x20) AND 0x08 \<noteq> 0 \<longleftrightarrow> a"
  "(flag8 a 0x08 OR flag8 b 0x10 OR flag8 c 0x20) AND 0x10 \<noteq> 0 \<longleftrightarrow> b"
  "(flag8 a 0x08 OR flag8 b 0x10 OR flag8 c 0x20) AND 0x20 \<noteq> 0 \<longleftrightarrow> c"
  "(flag8 a 0x10 OR flag8 b 0x20 OR flag8 c 0x40) AND 0x10 \<noteq> 0 \<longleftrightarrow> a"
  "(flag8 a 0x10 OR flag8 b 0x20 OR flag8 c 0x40) AND 0x20 \<noteq> 0 \<longleftrightarrow> b"
  "(flag8 a 0x10 OR flag8 b 0x20 OR flag8 c 0x40) AND 0x40 \<noteq> 0 \<longleftrightarrow> c"
  "(flag8 a 0x20 OR flag8 b 0x40 OR flag8 c 0x80) AND 0x20 \<noteq> 0 \<longleftrightarrow> a"
  "(flag8 a 0x20 OR flag8 b 0x40 OR flag8 c 0x80) AND 0x40 \<noteq> 0 \<longleftrightarrow> b"
  "(flag8 a 0x20 OR flag8 b 0x40 OR flag8 c 0x80) AND 0x80 \<noteq> 0 \<longleftrightarrow> c"
  by (cases a; cases b; cases c; simp add: flag8_def)+

lemma nwk_rreq_roundtrip:
  assumes "nwk_buildRouteRequestPayload out rid dst cost m2o ieee mc = Some bs"
  shows "nwk_parseRouteRequestPayload (Some bs) = Some (True,
    \<lparr>rq_valid = True, rq_manyToOne = m2o, rq_destinationIeeePresent = (ieee \<noteq> None), rq_multicast = mc,
     rq_routeRequestId = rid, rq_destination = dst, rq_pathCost = cost,
     rq_destinationIeee = (case ieee of None \<Rightarrow> 0 | Some a \<Rightarrow> a)\<rparr>)"
  using assms
  by (auto simp: nwk_buildRouteRequestPayload_def nwk_parseRouteRequestPayload_def Let_def wire_simps
      split: option.splits if_splits)

lemma nwk_rrep_roundtrip:
  assumes "nwk_buildRouteReplyPayload out rid orig resp cost oi ri mc = Some bs"
  shows "nwk_parseRouteReplyPayload (Some bs) = Some (True,
    \<lparr>rp_valid = True, rp_originatorIeeePresent = (oi \<noteq> None), rp_responderIeeePresent = (ri \<noteq> None),
     rp_multicast = mc, rp_routeRequestId = rid, rp_originator = orig, rp_responder = resp,
     rp_pathCost = cost, rp_originatorIeee = (case oi of None \<Rightarrow> 0 | Some a \<Rightarrow> a),
     rp_responderIeee = (case ri of None \<Rightarrow> 0 | Some a \<Rightarrow> a)\<rparr>)"
  using assms
  by (auto simp: nwk_buildRouteReplyPayload_def nwk_parseRouteReplyPayload_def Let_def wire_simps
      split: option.splits if_splits)


lemma nwk_small_payload_roundtrips:
  "nwk_buildNetworkStatusPayload out st dst = Some bs \<Longrightarrow> nwk_parseNetworkStatusPayload (Some bs) =
     Some (True, \<lparr>ns_valid = True, ns_status = st, ns_destination = dst\<rparr>)"
  "nwk_buildLeavePayload out rj rq rc = Some bs \<Longrightarrow> nwk_parseLeavePayload (Some bs) =
     Some (True, \<lparr>lv_valid = True, lv_rejoin = rj, lv_request = rq, lv_removeChildren = rc\<rparr>)"
  "nwk_buildRejoinRequestPayload out cap = Some bs \<Longrightarrow> nwk_parseRejoinRequestPayload (Some bs) =
     Some (True, \<lparr>rjq_valid = True, rjq_capability = cap\<rparr>)"
  "nwk_buildRejoinResponsePayload out a st = Some bs \<Longrightarrow> nwk_parseRejoinResponsePayload (Some bs) =
     Some (True, \<lparr>rjr_valid = True, rjr_nwkAddress = a, rjr_status = st\<rparr>)"
  by (auto simp: nwk_buildNetworkStatusPayload_def nwk_parseNetworkStatusPayload_def
      nwk_buildLeavePayload_def nwk_parseLeavePayload_def nwk_buildRejoinRequestPayload_def
      nwk_parseRejoinRequestPayload_def nwk_buildRejoinResponsePayload_def
      nwk_parseRejoinResponsePayload_def Let_def wire_simps
      split: option.splits if_splits)

lemma nwk_record_roundtrip:
  assumes "nwk_buildRouteRecordPayload (Some outMax) (Some rs) cnt = Some bs"
    and "length rs = unat cnt" "length rs \<le> 127"
  shows "nwk_parseRouteRecordPayload (Some bs) = Some (True,
      \<lparr>rr_valid = True, rr_relayCount = cnt, rr_relayList = Some (concat (map le16 rs))\<rparr>)"
    and "length bs \<le> outMax"
    and "i < length rs \<Longrightarrow> nwk_getRouteRecordRelay
      \<lparr>rr_valid = True, rr_relayCount = cnt, rr_relayList = Some (concat (map le16 rs))\<rparr> i = Some (Some (rs ! i))"
proof -
  have b: "bs = cnt # concat (map le16 rs)" "\<not> outMax < cast8 (1 + unat cnt * 2)"
    using assms by (auto simp: nwk_buildRouteRecordPayload_def split: if_splits)
  have c: "1 + unat cnt * 2 < 256" using assms(2,3) by simp
  show "nwk_parseRouteRecordPayload (Some bs) = Some (True,
      \<lparr>rr_valid = True, rr_relayCount = cnt, rr_relayList = Some (concat (map le16 rs))\<rparr>)"
    using c assms(2) by (simp add: nwk_parseRouteRecordPayload_def b wire_simps)
  show "length bs \<le> outMax"
    using b c assms(2) by simp
  show "i < length rs \<Longrightarrow> nwk_getRouteRecordRelay
      \<lparr>rr_valid = True, rr_relayCount = cnt, rr_relayList = Some (concat (map le16 rs))\<rparr> i = Some (Some (rs ! i))"
    using assms(2) rd16_concat_le16 [of i rs "[]"] by (simp add: nwk_getRouteRecordRelay_def)
qed

lemma link_record_read:
  "i < length es \<Longrightarrow> rd16 (concat (map nwk_link_record es) @ ys) (3 * i) = Some (le_address (es ! i)) \<and>
     rd8 (concat (map nwk_link_record es) @ ys) (3 * i + 2) =
       Some (nwk_cost_byte (es ! i))"
proof (induction es arbitrary: i)
  case Nil
  then show ?case by simp
next
  case (Cons e es)
  show ?case
  proof (cases i)
    case 0
    then show ?thesis by (simp add: nwk_link_record_def wire_simps)
  next
    case (Suc j)
    have l: "length (nwk_link_record e) = 3" by (simp add: nwk_link_record_def)
    have "rd16 (concat (map nwk_link_record (e # es)) @ ys) (3 * i) =
        rd16 (concat (map nwk_link_record es) @ ys) (3 * j)"
      "rd8 (concat (map nwk_link_record (e # es)) @ ys) (3 * i + 2) =
        rd8 (concat (map nwk_link_record es) @ ys) (3 * j + 2)"
      using Suc by (simp_all add: rd16_skip(1) rd8_skip l)
    with Suc Cons show ?thesis by simp
  qed
qed

lemma length_link_records [simp]: "length (concat (map nwk_link_record es)) = 3 * length es"
  by (induction es) (simp_all add: nwk_link_record_def)

lemma cost_nibbles:
  "nwk_cost_byte e AND 0x07 = le_incomingCost e AND 0x07"
  "drop_bit 4 (nwk_cost_byte e) AND 0x07 = le_outgoingCost e AND 0x07"
proof -
  have m: "(7 :: u8) = mask 3" by (simp add: mask_eq_exp_minus_1)
  show "nwk_cost_byte e AND 0x07 = le_incomingCost e AND 0x07"
    unfolding m nwk_cost_byte_def by (rule bit_word_eqI) (auto simp: bit_simps)
  show "drop_bit 4 (nwk_cost_byte e) AND 0x07 = le_outgoingCost e AND 0x07"
    unfolding m nwk_cost_byte_def by (rule bit_word_eqI) (auto simp: bit_simps)
qed

lemma count_bits:
  assumes "cnt \<le> (31 :: u8)"
  shows "((cnt AND 0x1F) OR flag8 f 0x20 OR flag8 l 0x40) AND 0x1F = cnt"
    "((cnt AND 0x1F) OR flag8 f 0x20 OR flag8 l 0x40) AND 0x20 \<noteq> 0 \<longleftrightarrow> f"
    "((cnt AND 0x1F) OR flag8 f 0x20 OR flag8 l 0x40) AND 0x40 \<noteq> 0 \<longleftrightarrow> l"
proof -
  have m: "(31 :: u8) = mask 5" by (simp add: mask_eq_exp_minus_1)
  have "unat cnt < 2 ^ 5" using assms by (simp add: word_le_nat_alt)
  then have "take_bit 5 cnt = cnt" by (rule take_bit_small)
  then have c: "cnt AND 0x1F = cnt" by (simp only: m take_bit_eq_mask)
  have e: "flag8 f 0x20 AND 0x1F = 0" "flag8 l 0x40 AND 0x1F = 0" "flag8 f 0x20 AND 0x40 = 0"
    "flag8 l 0x40 AND 0x20 = 0" "flag8 f 0x20 AND 0x20 \<noteq> 0 \<longleftrightarrow> f" "flag8 l 0x40 AND 0x40 \<noteq> 0 \<longleftrightarrow> l"
    by (cases f; cases l; simp add: flag8_def)+
  have d: "cnt AND 0x20 = 0" "cnt AND 0x40 = 0"
    by (subst c [symmetric], simp add: and.assoc)+
  show "((cnt AND 0x1F) OR flag8 f 0x20 OR flag8 l 0x40) AND 0x1F = cnt"
    "((cnt AND 0x1F) OR flag8 f 0x20 OR flag8 l 0x40) AND 0x20 \<noteq> 0 \<longleftrightarrow> f"
    "((cnt AND 0x1F) OR flag8 f 0x20 OR flag8 l 0x40) AND 0x40 \<noteq> 0 \<longleftrightarrow> l"
    using c d e by (simp_all add: bit.conj_disj_distrib2)
qed

lemma nwk_link_status_roundtrip:
  assumes "nwk_buildLinkStatusPayload out (Some es) cnt f l = Some bs" "length es = unat cnt"
  obtains c where "nwk_parseLinkStatusPayload (Some bs) = Some (True, c)"
    "ls_firstFrame c = f" "ls_lastFrame c = l" "ls_entryCount c = cnt"
    "\<And>i. i < length es \<Longrightarrow> nwk_getLinkStatusEntry c i = Some (Some \<lparr>le_address = le_address (es ! i),
       le_incomingCost = le_incomingCost (es ! i) AND 0x07,
       le_outgoingCost = le_outgoingCost (es ! i) AND 0x07\<rparr>)"
proof -
  let ?b = "(cnt AND 0x1F) OR flag8 f 0x20 OR flag8 l 0x40"
  let ?rs = "concat (map nwk_link_record es)"
  have g: "cnt \<le> 31" and bs: "bs = ?b # ?rs"
    using assms by (auto simp: nwk_buildLinkStatusPayload_def not_less split: option.splits if_splits)
  note c = count_bits [OF g, of f l]
  let ?c = "\<lparr>ls_valid = True, ls_firstFrame = f, ls_lastFrame = l, ls_entryCount = cnt, ls_entries = Some ?rs\<rparr>"
  have p: "nwk_parseLinkStatusPayload (Some bs) = Some (True, ?c)"
    using assms(2) by (simp add: nwk_parseLinkStatusPayload_def bs c Let_def wire_simps)
  have "nwk_getLinkStatusEntry ?c i = Some (Some \<lparr>le_address = le_address (es ! i),
       le_incomingCost = le_incomingCost (es ! i) AND 0x07,
       le_outgoingCost = le_outgoingCost (es ! i) AND 0x07\<rparr>)" if "i < length es" for i
    using link_record_read [OF that, of "[]"] that assms(2)
    by (simp add: nwk_getLinkStatusEntry_def cost_nibbles not_le)
  with p show thesis using that [of ?c] by simp
qed


text \<open>The beacon payload masks the stack profile and the depth to four bits each.\<close>

lemma nwk_beacon_octet:
  fixes d o2 :: u8
  assumes o2_def: "o2 = push_bit 2 (of_bool rc) OR push_bit 3 (d AND 0x0F) OR push_bit 7 (of_bool ec)"
  shows "bit o2 2 = rc" "drop_bit 3 o2 AND 0x0F = d AND 0x0F" "bit o2 7 = ec"
proof -
  have m: "(15 :: u8) = mask 4" by (simp add: mask_eq_exp_minus_1)
  show "bit o2 2 = rc" "bit o2 7 = ec"
    unfolding o2_def m by (cases rc; cases ec; simp add: bit_simps)+
  have "bit (2 ^ 4 :: u8) n \<longleftrightarrow> n = 4" for n
    unfolding bit_exp_iff by auto
  then have e: "bit (16 :: u8) n \<longleftrightarrow> n = 4" for n by simp
  have "bit (2 ^ 4 :: int) n \<longleftrightarrow> n = 4" for n
    unfolding bit_exp_iff by auto
  then have e': "bit (16 :: int) n \<longleftrightarrow> n = 4" for n by simp
  show "drop_bit 3 o2 AND 0x0F = d AND 0x0F"
    unfolding o2_def m by (rule bit_word_eqI; cases rc; cases ec) (auto simp: bit_simps e e')
qed

lemma nwk_beacon_roundtrip:
  assumes "nwk_buildBeaconPayload out epid depth rc ec upd profile = Some bs"
  shows "nwk_parseBeaconPayload (Some bs) = Some (True,
    \<lparr>bp_valid = True, bp_protocolId = 0, bp_stackProfile = profile AND 0x0F, bp_protocolVersion = 2,
     bp_routerCapacity = rc, bp_deviceDepth = depth AND 0x0F, bp_endDeviceCapacity = ec,
     bp_extendedPanId = epid, bp_txOffset = 0xFFFFFF, bp_updateId = upd\<rparr>)"
proof -
  define o1 where "o1 = (profile AND 0x0F) OR push_bit 4 (2 AND 0x0F)"
  define o2 where "o2 = push_bit 2 (of_bool rc) OR push_bit 3 (depth AND 0x0F) OR push_bit 7 (of_bool ec)"
  have bs: "bs = [0, o1, o2] @ le64 epid @ [0xFF, 0xFF, 0xFF, upd]"
    using assms by (auto simp: nwk_buildBeaconPayload_def o1_def o2_def split: option.splits if_splits)
  have m: "(15 :: u8) = mask 4" by (simp add: mask_eq_exp_minus_1)
  have o1: "o1 AND 0x0F = profile AND 0x0F" "drop_bit 4 o1 AND 0x0F = 2"
  proof -
    have h: "(push_bit 4 (2 AND 0x0F) :: u8) = 0x20" by simp
    show "o1 AND 0x0F = profile AND 0x0F"
      by (simp add: o1_def bit.conj_disj_distrib2)
    have "drop_bit 4 (profile AND 0x0F) = 0"
      unfolding m by (rule bit_word_eqI) (auto simp: bit_simps)
    then show "drop_bit 4 o1 AND 0x0F = 2"
      unfolding o1_def h by (simp add: drop_bit_or)
  qed
  note o2 = nwk_beacon_octet [OF o2_def]
  show ?thesis by (simp add: nwk_parseBeaconPayload_def bs o1 o2 wire_simps)
qed

section \<open>Following a source route\<close>

text \<open>
  Each node on the way decides with \<open>sourceRouteAction\<close> and, when it relays, hands the frame
  with the new relay index to the next hop. \<open>sr_walk\<close> follows a frame for at most the given
  number of hops and gives the nodes visited and the last decision.
\<close>

fun sr_walk :: "nat \<Rightarrow> nwk_data_frame \<Rightarrow> u16 \<Rightarrow> u16 list \<times> sr_action option" where
  "sr_walk 0 f self = ([], None)"
| "sr_walk (Suc k) f self =
     (case nwk_sourceRouteAction f self of
        Some (SR_RELAY nextHop idx) \<Rightarrow>
          (let (path, r) = sr_walk k (f\<lparr>nd_srRelayIndex := idx\<rparr>) nextHop in (self # path, r))
      | r \<Rightarrow> ([self], r))"

lemma sr_frame_index [simp]:
  "sr_frame dst src radius seq rs cnt idx pl dr\<lparr>nd_srRelayIndex := j\<rparr> =
     sr_frame dst src radius seq rs cnt j pl dr"
  by (simp add: sr_frame_def)

lemma sr_action_relay:
  assumes "length rs = unat cnt" "i < length rs" "dst \<noteq> rs ! i"
  shows "nwk_sourceRouteAction (sr_frame dst src radius seq rs cnt (of_nat i) pl dr) (rs ! i) =
    Some (SR_RELAY (if Suc i < length rs then rs ! Suc i else dst) (of_nat (Suc i)))"
proof -
  have c: "length rs < 256" "i < 256"
    using assms(1,2) u8_unat_lt [of cnt] by linarith+
  have i: "unat (of_nat i :: u8) = i" "unat (of_nat i + 1 :: u8) = Suc i"
    using assms(2) c by (simp_all add: unat_word_ariths(1))
  have n: "\<not> unat cnt \<le> i" "(of_nat i + 1 < cnt) = (Suc i < length rs)"
    using assms(1,2) i by (simp_all add: word_less_nat_alt)
  show ?thesis
    using assms i n c rd16_concat_le16 [of i rs pl] rd16_concat_le16 [of "Suc i" rs pl]
    by (simp add: nwk_sourceRouteAction_def sr_frame_def word_le_nat_alt Let_def add.commute)
qed

lemma sr_walk_from:
  assumes "length rs = unat cnt" "dst \<notin> set rs" "i \<le> length rs"
  shows "sr_walk (Suc (length rs - i)) (sr_frame dst src radius seq rs cnt (of_nat i) pl dr)
      (if i < length rs then rs ! i else dst) = (drop i rs @ [dst], Some SR_DELIVER)"
  using assms(3)
proof (induction "length rs - i" arbitrary: i)
  case 0
  then show ?case by (simp add: nwk_sourceRouteAction_def sr_frame_def)
next
  case (Suc k)
  then have i: "i < length rs" "length rs - i = Suc (length rs - Suc i)" by simp_all
  have "dst \<noteq> rs ! i" using assms(2) i by auto
  note a = sr_action_relay [OF assms(1) i(1) this]
  have k: "k = length rs - Suc i" "Suc i \<le> length rs" using Suc.hyps(2) i by simp_all
  note w = Suc.hyps(1) [OF k]
  have "sr_walk (Suc (length rs - i)) (sr_frame dst src radius seq rs cnt (of_nat i) pl dr) (rs ! i) =
    (rs ! i # drop (Suc i) rs @ [dst], Some SR_DELIVER)"
    using a w i(2) by (simp del: sr_walk.simps of_nat_Suc add: sr_walk.simps(2) [of "Suc (length rs - Suc i)"])
  with i show ?case by (simp add: Cons_nth_drop_Suc)
qed


section \<open>Properties\<close>

text \<open>No NWK parser reads outside the buffer it is given, whatever the bytes are and however
  short the buffer is; a null buffer is answered, not read.\<close>

theorem nwk_parsers_memory_safe:
  "nwk_parseDataFrame p \<noteq> None \<and> nwk_parseCommandFrame p \<noteq> None \<and>
   nwk_parseRouteRequestPayload p \<noteq> None \<and> nwk_parseRouteReplyPayload p \<noteq> None \<and>
   nwk_parseNetworkStatusPayload p \<noteq> None \<and> nwk_parseRouteRecordPayload p \<noteq> None \<and>
   nwk_parseLeavePayload p \<noteq> None \<and> nwk_parseRejoinRequestPayload p \<noteq> None \<and>
   nwk_parseRejoinResponsePayload p \<noteq> None \<and> nwk_parseLinkStatusPayload p \<noteq> None \<and>
   nwk_parseBeaconPayload p \<noteq> None"
  by (intro conjI) (rule nwk_parseDataFrame_safe nwk_parseCommandFrame_safe nwk_parseRouteRequestPayload_safe
      nwk_parseRouteReplyPayload_safe nwk_small_parsers_safe nwk_parseBeaconPayload_safe)+

text \<open>A data frame and a command frame that the builders accept fit the output buffer, and
  parsing them gives back every field, the payload included.\<close>

theorem nwk_frames_roundtrip:
  "(nwk_buildDataFrame (Some outMax) dst src radius seq (Some pl) (length pl) dr = Some bs \<longrightarrow>
     length bs \<le> outMax \<and>
     nwk_parseDataFrame (Some bs) = Some (True, nwk_data_frame0\<lparr>nf_valid := True,
       nf_protocolVersion := 2, nf_discoverRoute := dr, nf_dstShort := dst, nf_srcShort := src,
       nf_radius := radius, nf_sequence := seq, nd_payload := Some pl, nd_payloadLen := length pl\<rparr>)) \<and>
   (nwk_buildCommandFrame (Some outMax) dst src radius seq cmd (Some pl) (length pl) dr = Some bs \<longrightarrow>
     length bs \<le> outMax \<and>
     nwk_parseCommandFrame (Some bs) = Some (True, nwk_command_frame0\<lparr>nf_valid := True,
       nf_frameType := 1, nf_protocolVersion := 2, nf_discoverRoute := dr, nf_dstShort := dst,
       nf_srcShort := src, nf_radius := radius, nf_sequence := seq, nc_commandId := cmd,
       nc_payload := Some pl, nc_payloadLen := length pl\<rparr>))"
proof (rule conjI; rule impI)
  show "nwk_buildDataFrame (Some outMax) dst src radius seq (Some pl) (length pl) dr = Some bs \<Longrightarrow>
     length bs \<le> outMax \<and>
     nwk_parseDataFrame (Some bs) = Some (True, nwk_data_frame0\<lparr>nf_valid := True,
       nf_protocolVersion := 2, nf_discoverRoute := dr, nf_dstShort := dst, nf_srcShort := src,
       nf_radius := radius, nf_sequence := seq, nd_payload := Some pl, nd_payloadLen := length pl\<rparr>)"
    by (frule nwk_data_roundtrip) (auto simp: nwk_buildDataFrame_def split: if_splits)
  show "nwk_buildCommandFrame (Some outMax) dst src radius seq cmd (Some pl) (length pl) dr = Some bs \<Longrightarrow>
     length bs \<le> outMax \<and>
     nwk_parseCommandFrame (Some bs) = Some (True, nwk_command_frame0\<lparr>nf_valid := True,
       nf_frameType := 1, nf_protocolVersion := 2, nf_discoverRoute := dr, nf_dstShort := dst,
       nf_srcShort := src, nf_radius := radius, nf_sequence := seq, nc_commandId := cmd,
       nc_payload := Some pl, nc_payloadLen := length pl\<rparr>)"
    by (frule nwk_command_roundtrip) (auto simp: nwk_buildCommandFrame_def split: if_splits)
qed

lemma nwk_frames_roundtrip_witness:
  "nwk_parseDataFrame (Some [0x48, 0, 2, 0, 1, 0, 30, 7, 0xAB]) = Some (True, nwk_data_frame0\<lparr>nf_valid := True,
       nf_protocolVersion := 2, nf_discoverRoute := 1, nf_dstShort := 2, nf_srcShort := 1,
       nf_radius := 30, nf_sequence := 7, nd_payload := Some [0xAB], nd_payloadLen := 1\<rparr>)"
proof -
  have "nwk_buildDataFrame (Some 20) 2 1 30 7 (Some [0xAB]) (length [0xAB :: u8]) 1 =
      Some [0x48, 0, 2, 0, 1, 0, 30, 7, 0xAB]"
    by code_simp
  from nwk_frames_roundtrip [THEN conjunct1, THEN mp, OF this] show ?thesis by simp
qed

text \<open>A source-routed data frame with at most 122 relays fits its output buffer and is delivered:
  starting at the first relay, the nodes that handle it are exactly the relay list in order and
  then the destination, which delivers it, each relay passing the frame on with the relay index
  that \<open>sourceRouteAction\<close> gave.\<close>

theorem nwk_source_route_delivery:
  assumes "nwk_buildDataFrameSourceRouted (Some outMax) dst src radius seq (Some rs) cnt 0
      (Some pl) (length pl) dr = Some (bs, n)"
    and "length rs = unat cnt" "length rs \<le> 122" "outMax \<le> 255" "rs \<noteq> []" "dst \<notin> set rs"
  shows "n = length bs \<and> length bs \<le> outMax \<and>
    (\<exists>f. nwk_parseDataFrame (Some bs) = Some (True, f) \<and> nd_payload f = Some pl \<and>
      sr_walk (Suc (length rs)) f (hd rs) = (rs @ [dst], Some SR_DELIVER))"
proof -
  let ?f = "sr_frame dst src radius seq rs cnt 0 pl dr"
  have "nwk_parseDataFrame (Some bs) = Some (True, ?f)"
    using nwk_sr_roundtrip [OF assms(1-4)] .
  moreover have "nd_payload ?f = Some pl" by (simp add: sr_frame_def)
  moreover have "sr_walk (Suc (length rs)) ?f (hd rs) = (rs @ [dst], Some SR_DELIVER)"
    using sr_walk_from [OF assms(2) assms(6), of 0 src radius seq pl dr] assms(5)
    by (simp add: hd_conv_nth del: sr_walk.simps)
  ultimately show ?thesis using nwk_sr_build [OF assms(1-4)] by blast
qed

lemma nwk_source_route_delivery_witness:
  "\<exists>bs n f. nwk_buildDataFrameSourceRouted (Some 40) 9 0 30 7 (Some [1, 2]) 2 0 (Some [0xAB]) 1 0 = Some (bs, n) \<and>
     nwk_parseDataFrame (Some bs) = Some (True, f) \<and>
     sr_walk 3 f 1 = ([1, 2, 9], Some SR_DELIVER)"
proof -
  obtain bs n where b: "nwk_buildDataFrameSourceRouted (Some 40) 9 0 30 7 (Some [1, 2]) 2 0
      (Some [0xAB]) (length [0xAB :: u8]) 0 = Some (bs, n)"
    by (simp add: nwk_buildDataFrameSourceRouted_def Let_def)
  from nwk_source_route_delivery [OF b] show ?thesis using b by (auto simp: numeral_3_eq_3)
qed

text \<open>A relay that parsed a source-routed frame of at most 122 relays reads its relay list inside
  the frame: neither \<open>getDataFrameRelay\<close> nor the forwarding decision leaves the buffer.\<close>

theorem nwk_relay_reads_safe:
  assumes "nwk_parseDataFrame (Some bs) = Some (True, f)" "nd_srRelayCount f \<le> 122"
  shows "nwk_getDataFrameRelay f i \<noteq> None \<and> nwk_sourceRouteAction f self \<noteq> None"
proof (rule conjI)
  have l: "\<forall>l. nd_srRelayList f = Some l \<longrightarrow> length l \<ge> 2 * unat (nd_srRelayCount f)"
  proof (intro allI impI)
    fix l assume l: "nd_srRelayList f = Some l"
    let ?c = "nd_srRelayCount f"
    have c: "unat ?c * 2 \<le> 244" using assms(2) by (simp add: word_le_nat_alt)
    from assms(1) l have "l = drop 10 bs" "\<not> length bs < cast8 (8 + cast8 (2 + unat ?c * 2))"
      by (auto simp: nwk_parseDataFrame_def Let_def bind_eq_Some_conv split: if_splits option.splits)
    then show "length l \<ge> 2 * unat ?c" using c by simp
  qed
  then show "nwk_getDataFrameRelay f i \<noteq> None"
    by (auto simp: nwk_getDataFrameRelay_def rd_in split: option.split)
  have u: "unat (nd_srRelayIndex f + 1) \<le> unat (nd_srRelayIndex f) + 1"
    by (simp add: unat_word_ariths(1))
  show "nwk_sourceRouteAction f self \<noteq> None"
    using l by (auto simp: nwk_sourceRouteAction_def Let_def rd_in word_le_nat_alt word_less_nat_alt
        split: option.split)
qed

lemma nwk_relay_reads_safe_witness:
  "nwk_sourceRouteAction (sr_frame 9 0 30 7 [1, 2] 2 0 [] 0) 1 \<noteq> None"
proof -
  have "nwk_buildDataFrameSourceRouted (Some 40) 9 0 30 7 (Some [1, 2]) 2 0 (Some []) (length ([] :: u8 list)) 0 =
      Some (le16 0x408 @ le16 9 @ le16 0 @ [30, 7, 2, 0] @ concat (map le16 [1, 2]) @ [], 14)"
    by (simp add: nwk_buildDataFrameSourceRouted_def Let_def nwk_fcf_def)
  from nwk_sr_roundtrip [OF this]
  show ?thesis by (rule nwk_relay_reads_safe [THEN conjunct2]) (simp_all add: sr_frame_def)
qed

text \<open>Route Request and Route Reply payloads round-trip, with and without each of their optional
  IEEE addresses.\<close>

theorem nwk_route_payloads_roundtrip:
  "(nwk_buildRouteRequestPayload out rid dst cost m2o ieee mc = Some bs \<longrightarrow>
    nwk_parseRouteRequestPayload (Some bs) = Some (True,
    \<lparr>rq_valid = True, rq_manyToOne = m2o, rq_destinationIeeePresent = (ieee \<noteq> None), rq_multicast = mc,
     rq_routeRequestId = rid, rq_destination = dst, rq_pathCost = cost,
     rq_destinationIeee = (case ieee of None \<Rightarrow> 0 | Some a \<Rightarrow> a)\<rparr>)) \<and>
   (nwk_buildRouteReplyPayload out rid orig resp cost oi ri mc = Some bs' \<longrightarrow>
    nwk_parseRouteReplyPayload (Some bs') = Some (True,
    \<lparr>rp_valid = True, rp_originatorIeeePresent = (oi \<noteq> None), rp_responderIeeePresent = (ri \<noteq> None),
     rp_multicast = mc, rp_routeRequestId = rid, rp_originator = orig, rp_responder = resp,
     rp_pathCost = cost, rp_originatorIeee = (case oi of None \<Rightarrow> 0 | Some a \<Rightarrow> a),
     rp_responderIeee = (case ri of None \<Rightarrow> 0 | Some a \<Rightarrow> a)\<rparr>))"
  by (intro conjI impI nwk_rreq_roundtrip nwk_rrep_roundtrip)

lemma nwk_route_payloads_roundtrip_witness:
  "\<exists>bs c. nwk_buildRouteReplyPayload (Some 20) 4 1 9 3 None (Some 77) True = Some bs \<and>
     nwk_parseRouteReplyPayload (Some bs) = Some (True, c) \<and> rp_responder c = 9 \<and> rp_responderIeee c = 77"
proof -
  obtain bs where b: "nwk_buildRouteReplyPayload (Some 20) 4 1 9 3 None (Some 77) True = Some bs"
    by (simp add: nwk_buildRouteReplyPayload_def Let_def)
  from nwk_route_payloads_roundtrip [THEN conjunct2, THEN mp, OF b] b show ?thesis by simp
qed

text \<open>A Link Status payload round-trips: the parser recovers both frame flags and the entry count,
  and the entry accessor gives back each neighbor with its two costs cut to three bits.\<close>

theorem nwk_link_status_codec:
  assumes "nwk_buildLinkStatusPayload out (Some es) cnt f l = Some bs" "length es = unat cnt"
  shows "\<exists>c. nwk_parseLinkStatusPayload (Some bs) = Some (True, c) \<and>
    ls_firstFrame c = f \<and> ls_lastFrame c = l \<and> ls_entryCount c = cnt \<and>
    (\<forall>i<length es. nwk_getLinkStatusEntry c i = Some (Some \<lparr>le_address = le_address (es ! i),
       le_incomingCost = le_incomingCost (es ! i) AND 0x07,
       le_outgoingCost = le_outgoingCost (es ! i) AND 0x07\<rparr>))"
  using assms by (rule nwk_link_status_roundtrip) blast

lemma nwk_link_status_codec_witness:
  "\<exists>bs c. nwk_buildLinkStatusPayload (Some 9) (Some [\<lparr>le_address = 5, le_incomingCost = 1, le_outgoingCost = 3\<rparr>])
      1 True True = Some bs \<and> nwk_parseLinkStatusPayload (Some bs) = Some (True, c) \<and>
    nwk_getLinkStatusEntry c 0 = Some (Some \<lparr>le_address = 5, le_incomingCost = 1, le_outgoingCost = 3\<rparr>)"
proof -
  let ?es = "[\<lparr>le_address = 5, le_incomingCost = 1, le_outgoingCost = 3\<rparr>] :: nwk_link_entry list"
  obtain bs where b: "nwk_buildLinkStatusPayload (Some 9) (Some ?es) 1 True True = Some bs"
    by (simp add: nwk_buildLinkStatusPayload_def)
  have "length ?es = unat (1 :: u8)" by simp
  from nwk_link_status_codec [OF b this] b show ?thesis by auto
qed

section \<open>Where the eight-bit lengths wrap\<close>

text \<open>
  A ten-byte data frame whose source-route subframe claims 127 relays is accepted, because
  \<open>2 + 127 * 2\<close> is 0 in eight bits; reading any of its relays then leaves the frame.
\<close>

lemma nwk_relay_count_wraps:
  "\<exists>bs f. length bs = 10 \<and> nwk_parseDataFrame (Some bs) = Some (True, f) \<and> nd_srRelayCount f = 127 \<and>
     nwk_getDataFrameRelay f 0 = None \<and> nwk_sourceRouteAction f 9 = None"
  by (intro exI [of _ "[0x08, 0x04, 1, 0, 2, 0, 30, 7, 127, 0]"])
    (simp add: nwk_parseDataFrame_def rd16_def rd_bytes_def rd8_def cast8_def Let_def
      nwk_getDataFrameRelay_def nwk_sourceRouteAction_def)

text \<open>The Route Record builder checks its buffer against the same wrapped length.\<close>

lemma nwk_record_builder_overflows:
  "\<exists>bs. nwk_buildRouteRecordPayload (Some 1) (Some (replicate 128 0)) 128 = Some bs \<and> length bs = 257"
  by (simp add: nwk_buildRouteRecordPayload_def cast8_def length_concat_le16 del: map_replicate)

text \<open>A Route Record of one byte that claims 128 relays is accepted as well.\<close>

lemma nwk_record_parser_wraps:
  "\<exists>c. nwk_parseRouteRecordPayload (Some [128]) = Some (True, c) \<and> nwk_getRouteRecordRelay c 0 = None"
  by (simp add: nwk_parseRouteRecordPayload_def rd8_def cast8_def nwk_getRouteRecordRelay_def
      rd16_def rd_bytes_def)

end
