(* ===== verification/ZbRouting.thy ===== *)
theory ZbRouting
  imports ZbTables ZbNwk
begin

text \<open>
  \<open>ZigbeeRouting.h\<close> and \<open>ZigbeeRouting.cpp\<close>: the AODV decisions of one node. The class keeps
  four discovery entries (\<open>discoveries_\<close>), a request counter and a pointer to the sketch's
  route table; the pointer is \<open>zr_routes\<close> (\<open>None\<close> before \<open>attachRouteTable\<close>), and because the
  table is only reached through it, its content is part of the state that is passed. The
  second half of the theory puts the nodes of a network together: a step relation for one
  Route Request flood, and the walk of the Route Reply back to the originator.
\<close>

section \<open>State and decisions\<close>

definition kMaxDiscoveries :: nat where "kMaxDiscoveries = 4"
definition kDiscoveryLifetimeMs :: u32 where "kDiscoveryLifetimeMs = 10000"
definition kNoNextHop :: u16 where "kNoNextHop = 0xFFFF"

record discovery =
  dc_used :: bool
  dc_requestId :: u8
  dc_originator :: u16
  dc_previousHop :: u16
  dc_forwardCost :: u8
  dc_expiresMs :: u32

definition discovery0 :: discovery where
  "discovery0 = \<lparr>dc_used = False, dc_requestId = 0, dc_originator = 0, dc_previousHop = 0,
     dc_forwardCost = 0, dc_expiresMs = 0\<rparr>"

definition dc_key :: "discovery \<Rightarrow> u8 \<times> u16" where
  "dc_key d = (dc_requestId d, dc_originator d)"

record rreq_decision =
  qd_duplicate :: bool
  qd_replyAsDestination :: bool
  qd_rebroadcast :: bool
  qd_replyTo :: u16
  qd_pathCost :: u8

definition rreq_decision0 :: rreq_decision where
  "rreq_decision0 = \<lparr>qd_duplicate = False, qd_replyAsDestination = False, qd_rebroadcast = False,
     qd_replyTo = 0, qd_pathCost = 0\<rparr>"

record rrep_decision =
  pd_routeInstalled :: bool
  pd_forward :: bool
  pd_forwardTo :: u16
  pd_pathCost :: u8

definition rrep_decision0 :: rrep_decision where
  "rrep_decision0 = \<lparr>pd_routeInstalled = False, pd_forward = False, pd_forwardTo = 0, pd_pathCost = 0\<rparr>"

record routing =
  zr_routes :: "route_table option"
  zr_discoveries :: "discovery list"
  zr_requestId :: u8

definition zr_init :: routing where
  "zr_init = \<lparr>zr_routes = None, zr_discoveries = replicate kMaxDiscoveries discovery0, zr_requestId = 0\<rparr>"

definition zr_attachRouteTable :: "routing \<Rightarrow> route_table \<Rightarrow> routing" where
  "zr_attachRouteTable z routes = z\<lparr>zr_routes := Some routes\<rparr>"

section \<open>Operations\<close>

definition zr_findDiscovery :: "routing \<Rightarrow> u8 \<Rightarrow> u16 \<Rightarrow> nat option" where
  "zr_findDiscovery z rid originator =
     find_idx (\<lambda>d. dc_used d \<and> dc_requestId d = rid \<and> dc_originator d = originator) (zr_discoveries z)"

definition zr_allocDiscovery :: "routing \<Rightarrow> nat option" where
  "zr_allocDiscovery z =
     or_else (find_idx (\<lambda>d. \<not> dc_used d) (zr_discoveries z))
       (best_idx dc_used (\<lambda>d b. dc_expiresMs d < dc_expiresMs b) (zr_discoveries z))"

text \<open>\<open>if (routes_) routes_->upsert(...)\<close>\<close>

definition zr_upsert :: "routing \<Rightarrow> u16 \<Rightarrow> u16 \<Rightarrow> u8 \<Rightarrow> u32 \<Rightarrow> routing" where
  "zr_upsert z dst nextHop status now =
     z\<lparr>zr_routes := map_option (\<lambda>t. fst (rt_upsert t dst nextHop status False False now)) (zr_routes z)\<rparr>"

definition zr_originateDiscovery :: "routing \<Rightarrow> u16 \<Rightarrow> u32 \<Rightarrow> routing \<times> u8" where
  "zr_originateDiscovery z destination now =
     (let z = z\<lparr>zr_requestId := zr_requestId z + 1\<rparr>
      in (zr_upsert z destination kNoNextHop ZB_ROUTE_DISCOVERY_UNDERWAY now, zr_requestId z))"

definition zr_handleRouteRequest ::
  "routing \<Rightarrow> u16 \<Rightarrow> bool \<Rightarrow> u16 \<Rightarrow> u16 \<Rightarrow> nwk_route_request \<Rightarrow> u8 \<Rightarrow> u32 \<Rightarrow> routing \<times> rreq_decision"
where
  "zr_handleRouteRequest z selfShort isRouter previousHop originator rreq linkCost now =
     (let decision = rreq_decision0\<lparr>qd_replyTo := previousHop\<rparr> in
      if \<not> rq_valid rreq \<or> originator = selfShort then (z, decision\<lparr>qd_duplicate := True\<rparr>)
      else
        let cost = rq_pathCost rreq + linkCost;
            entry = zr_findDiscovery z (rq_routeRequestId rreq) originator
        in if (case entry of None \<Rightarrow> False | Some i \<Rightarrow> dc_forwardCost (zr_discoveries z ! i) \<le> cost)
           then (z, decision\<lparr>qd_duplicate := True\<rparr>)
           else
             case or_else entry (zr_allocDiscovery z) of
               None \<Rightarrow> (z, decision\<lparr>qd_duplicate := True\<rparr>)
             | Some i \<Rightarrow>
                 let z = z\<lparr>zr_discoveries := (zr_discoveries z)[i := (zr_discoveries z ! i)
                       \<lparr>dc_used := True, dc_requestId := rq_routeRequestId rreq,
                        dc_originator := originator, dc_previousHop := previousHop,
                        dc_forwardCost := cost, dc_expiresMs := now + kDiscoveryLifetimeMs\<rparr>]\<rparr>;
                     z = zr_upsert z originator previousHop ZB_ROUTE_ACTIVE now
                 in if rq_destination rreq = selfShort
                    then (z, decision\<lparr>qd_replyAsDestination := True, qd_pathCost := 0\<rparr>)
                    else if isRouter
                    then (z, decision\<lparr>qd_rebroadcast := True, qd_pathCost := cost\<rparr>)
                    else (z, decision))"

definition zr_handleRouteReply ::
  "routing \<Rightarrow> u16 \<Rightarrow> u16 \<Rightarrow> nwk_route_reply \<Rightarrow> u8 \<Rightarrow> u32 \<Rightarrow> routing \<times> rrep_decision"
where
  "zr_handleRouteReply z selfShort previousHop rrep linkCost now =
     (let decision = rrep_decision0 in
      if \<not> rp_valid rrep then (z, decision)
      else
        let cost = rp_pathCost rrep + linkCost;
            decision = decision\<lparr>pd_pathCost := cost\<rparr>
        in if rp_originator rrep = selfShort
           then (zr_upsert z (rp_responder rrep) previousHop ZB_ROUTE_ACTIVE now,
                 decision\<lparr>pd_routeInstalled := True\<rparr>)
           else
             case zr_findDiscovery z (rp_routeRequestId rrep) (rp_originator rrep) of
               None \<Rightarrow> (z, decision)
             | Some i \<Rightarrow>
                 (zr_upsert z (rp_responder rrep) previousHop ZB_ROUTE_ACTIVE now,
                  decision\<lparr>pd_forward := True, pd_forwardTo := dc_previousHop (zr_discoveries z ! i)\<rparr>))"

definition zr_nextHopFor :: "routing \<Rightarrow> u16 \<Rightarrow> u16" where
  "zr_nextHopFor z destination =
     (case zr_routes z of None \<Rightarrow> kNoNextHop
      | Some t \<Rightarrow>
          (case rt_at t destination of None \<Rightarrow> kNoNextHop
           | Some route \<Rightarrow> if rt_status route \<noteq> ZB_ROUTE_ACTIVE then kNoNextHop else rt_nextHop route))"

definition zr_routeIsActive :: "routing \<Rightarrow> u16 \<Rightarrow> bool" where
  "zr_routeIsActive z destination \<longleftrightarrow> zr_nextHopFor z destination \<noteq> kNoNextHop"

definition zr_expired :: "u32 \<Rightarrow> discovery \<Rightarrow> bool" where
  "zr_expired now d \<longleftrightarrow> dc_used d \<and> 0 \<le> sint (now - dc_expiresMs d)"

definition zr_expire :: "routing \<Rightarrow> u32 \<Rightarrow> routing" where
  "zr_expire z now = z\<lparr>zr_discoveries := sweep (zr_expired now) discovery0 (zr_discoveries z)\<rparr>"

section \<open>One node: facts\<close>

interpretation dsc: slot_table dc_used dc_key discovery0
  by unfold_locales (simp add: discovery0_def)

definition zr_wf :: "routing \<Rightarrow> bool" where
  "zr_wf z \<longleftrightarrow> length (zr_discoveries z) = kMaxDiscoveries \<and>
     slot_uniq dc_used dc_key (zr_discoveries z) \<and>
     (case zr_routes z of None \<Rightarrow> True | Some t \<Rightarrow> rt_wf t)"

definition zr_has_routes :: "routing \<Rightarrow> bool" where
  "zr_has_routes z \<longleftrightarrow> (\<exists>t. zr_routes z = Some t \<and> rt_attached t)"

definition zr_entry :: "routing \<Rightarrow> u8 \<Rightarrow> u16 \<Rightarrow> discovery option" where
  "zr_entry z rid originator = slot_get dc_used dc_key (zr_discoveries z) (rid, originator)"

definition zr_accepts :: "routing \<Rightarrow> u16 \<Rightarrow> u16 \<Rightarrow> nwk_route_request \<Rightarrow> u8 \<Rightarrow> bool" where
  "zr_accepts z self originator rreq lc \<longleftrightarrow> rq_valid rreq \<and> originator \<noteq> self \<and>
     (case zr_entry z (rq_routeRequestId rreq) originator of None \<Rightarrow> True
      | Some e \<Rightarrow> rq_pathCost rreq + lc < dc_forwardCost e)"

lemma zr_findDiscovery_slot:
  "zr_findDiscovery z rid o' = slot_find dc_used dc_key (zr_discoveries z) (rid, o')"
  by (simp add: zr_findDiscovery_def slot_find_def dc_key_def)

lemma zr_pick_slot:
  "or_else (zr_findDiscovery z rid o') (zr_allocDiscovery z) =
     slot_pick dc_used dc_key (\<lambda>d b. dc_expiresMs d < dc_expiresMs b) (zr_discoveries z) (rid, o')"
  by (simp add: zr_findDiscovery_slot zr_allocDiscovery_def slot_pick_def)

lemma zr_entry_find:
  "zr_entry z rid o' = map_option (nth (zr_discoveries z)) (zr_findDiscovery z rid o')"
  by (simp add: zr_entry_def slot_get_def zr_findDiscovery_slot)

lemma zr_entry_key: "zr_entry z rid o' = Some e \<Longrightarrow> dc_used e \<and> dc_requestId e = rid \<and> dc_originator e = o'"
  by (auto simp: zr_entry_def slot_get_def dc_key_def dest: slot_find_sat)

lemma zr_upsert_sel [simp]:
  "zr_discoveries (zr_upsert z d n s w) = zr_discoveries z"
  "zr_requestId (zr_upsert z d n s w) = zr_requestId z"
  "zr_entry (zr_upsert z d n s w) rid o' = zr_entry z rid o'"
  "zr_has_routes (zr_upsert z d n s w) = zr_has_routes z"
  by (auto simp: zr_upsert_def zr_entry_def zr_has_routes_def rt_upsert_attached)

lemma zr_upsert_wf [simp]: "zr_wf z \<Longrightarrow> zr_wf (zr_upsert z d n s w)"
  by (auto simp: zr_wf_def zr_upsert_def rt_upsert_wf split: option.splits)

lemma zr_upsert_nextHop:
  assumes "zr_wf z" "zr_has_routes z"
  shows "zr_nextHopFor (zr_upsert z d n s w) d = (if s = ZB_ROUTE_ACTIVE then n else kNoNextHop)"
  using assms by (auto simp: zr_nextHopFor_def zr_upsert_def zr_wf_def zr_has_routes_def rt_upsert_at)

lemma zr_upsert_nextHop_other:
  assumes "zr_wf z" "zr_has_routes z" "d' \<noteq> d"
  shows "zr_nextHopFor (zr_upsert z d n s w) d' \<in> {zr_nextHopFor z d', kNoNextHop}"
proof -
  from assms obtain t where t: "zr_routes z = Some t" "rt_attached t" "rt_wf t"
    by (auto simp: zr_has_routes_def zr_wf_def)
  from rt_upsert_other(1) [OF t(3,2) assms(3), of n s False False w] t(1)
  show ?thesis by (auto simp: zr_nextHopFor_def zr_upsert_def)
qed

lemma zr_rreq_reject:
  assumes "\<not> zr_accepts z self o' rreq lc" "zr_wf z"
  shows "zr_handleRouteRequest z self isR prev o' rreq lc now =
    (z, rreq_decision0\<lparr>qd_replyTo := prev, qd_duplicate := True\<rparr>)"
  using assms
  by (auto simp: zr_accepts_def zr_handleRouteRequest_def zr_entry_find not_less Let_def
      split: option.splits)

lemma zr_rreq_accept:
  assumes "zr_accepts z self o' rreq lc" "zr_wf z"
  obtains z' e where
    "zr_handleRouteRequest z self isR prev o' rreq lc now = (z',
       rreq_decision0\<lparr>qd_replyTo := prev, qd_replyAsDestination := (rq_destination rreq = self),
         qd_rebroadcast := (rq_destination rreq \<noteq> self \<and> isR),
         qd_pathCost := (if rq_destination rreq \<noteq> self \<and> isR then rq_pathCost rreq + lc else 0)\<rparr>)"
    "zr_entry z' (rq_routeRequestId rreq) o' = Some e" "dc_previousHop e = prev"
    "dc_forwardCost e = rq_pathCost rreq + lc" "dc_expiresMs e = now + kDiscoveryLifetimeMs"
    "\<And>rid p. (rid, p) \<noteq> (rq_routeRequestId rreq, o') \<Longrightarrow> zr_entry z' rid p \<in> {zr_entry z rid p, None}"
    "zr_wf z'" "zr_has_routes z' = zr_has_routes z"
    "zr_has_routes z \<Longrightarrow> zr_nextHopFor z' o' = prev"
    "zr_requestId z' = zr_requestId z"
proof -
  let ?better = "\<lambda>d b. dc_expiresMs d < dc_expiresMs b" and ?ds = "zr_discoveries z"
    and ?k = "(rq_routeRequestId rreq, o')"
  from assms(2) have u: "slot_uniq dc_used dc_key ?ds" and len: "length ?ds = 4"
    by (simp_all add: zr_wf_def kMaxDiscoveries_def)
  from len have "?ds \<noteq> []" by auto
  from slot_pick_ex [OF this, of dc_used dc_key ?better ?k]
  obtain i where i: "slot_pick dc_used dc_key ?better ?ds ?k = Some i" ..
  let ?e = "\<lparr>dc_used = True, dc_requestId = rq_routeRequestId rreq,
      dc_originator = o', dc_previousHop = prev, dc_forwardCost = rq_pathCost rreq + lc,
      dc_expiresMs = now + kDiscoveryLifetimeMs\<rparr>"
  let ?z1 = "z\<lparr>zr_discoveries := ?ds[i := ?e]\<rparr>"
  let ?z' = "zr_upsert ?z1 o' prev ZB_ROUTE_ACTIVE now"
  have e: "dc_used ?e" "dc_key ?e = ?k" by (simp_all add: dc_key_def)
  note p = dsc.put_pick [OF u i e]
  have ov: "(?ds ! i)\<lparr>dc_used := True, dc_requestId := rq_routeRequestId rreq, dc_originator := o',
      dc_previousHop := prev, dc_forwardCost := rq_pathCost rreq + lc,
      dc_expiresMs := now + kDiscoveryLifetimeMs\<rparr> = ?e"
    by (cases "?ds ! i") simp
  have wf1: "zr_wf ?z1" using assms(2) p(1) by (simp add: zr_wf_def)
  have hr: "zr_has_routes ?z1 = zr_has_routes z" by (simp add: zr_has_routes_def)
  show thesis
  proof (rule that [of ?z' ?e])
    show "zr_handleRouteRequest z self isR prev o' rreq lc now = (?z',
       rreq_decision0\<lparr>qd_replyTo := prev, qd_replyAsDestination := (rq_destination rreq = self),
         qd_rebroadcast := (rq_destination rreq \<noteq> self \<and> isR),
         qd_pathCost := (if rq_destination rreq \<noteq> self \<and> isR then rq_pathCost rreq + lc else 0)\<rparr>)"
      using assms(1) i
      by (auto simp: zr_accepts_def zr_handleRouteRequest_def zr_pick_slot ov rreq_decision0_def
          zr_entry_find Let_def split: option.splits)
    show "zr_entry ?z' (rq_routeRequestId rreq) o' = Some ?e"
      using p(2) [of ?k] by (simp add: zr_entry_def)
    show "zr_entry ?z' rid q \<in> {zr_entry z rid q, None}" if "(rid, q) \<noteq> ?k" for rid q
      using p(2) [of "(rid, q)"] that by (auto simp: zr_entry_def)
    show "zr_wf ?z'" using wf1 by simp
    show "zr_has_routes ?z' = zr_has_routes z" using hr by simp
    show "zr_nextHopFor ?z' o' = prev" if "zr_has_routes z"
      using zr_upsert_nextHop [OF wf1] that hr by simp
    show "zr_requestId ?z' = zr_requestId z" by simp
  qed simp_all
qed

section \<open>The sketch's command handler\<close>

text \<open>
  What a joined node sends for a received route command (\<open>onNwkCommand\<close> of the sketch
  \<open>CC2530_BeaconJoin.ino\<close>): it parses the payload, asks the routing object, and builds the
  reply or the rebroadcast into a 16-byte buffer. The outer option is a read outside the payload.
\<close>

datatype sk_out =
    SK_NOTHING
  | SK_REPLY u16 "u8 list"
  | SK_REBROADCAST u8 "u8 list"
  | SK_INSTALLED

definition sk_routeRequest ::
  "routing \<Rightarrow> u16 \<Rightarrow> bool \<Rightarrow> u16 \<Rightarrow> u16 \<Rightarrow> u8 \<Rightarrow> u8 list \<Rightarrow> u8 \<Rightarrow> u32 \<Rightarrow> (routing \<times> sk_out) option"
where
  "sk_routeRequest z self isRouter macSrc nwkSrc radius payload linkCost now =
     (case nwk_parseRouteRequestPayload (Some payload) of
        None \<Rightarrow> None
      | Some (ok, rreq) \<Rightarrow>
          if \<not> ok then Some (z, SK_NOTHING)
          else
            let (z, d) = zr_handleRouteRequest z self isRouter macSrc nwkSrc rreq linkCost now in
            Some (z,
              if qd_duplicate d then SK_NOTHING
              else if qd_replyAsDestination d
              then (case nwk_buildRouteReplyPayload (Some 16) (rq_routeRequestId rreq) nwkSrc self
                           (qd_pathCost d) None None False of
                      None \<Rightarrow> SK_NOTHING | Some p \<Rightarrow> SK_REPLY (qd_replyTo d) p)
              else if qd_rebroadcast d
              then (case nwk_buildRouteRequestPayload (Some 16) (rq_routeRequestId rreq)
                           (rq_destination rreq) (qd_pathCost d) (rq_manyToOne rreq)
                           (if rq_destinationIeeePresent rreq then Some (rq_destinationIeee rreq) else None)
                           (rq_multicast rreq) of
                      None \<Rightarrow> SK_NOTHING
                    | Some p \<Rightarrow> SK_REBROADCAST (if 1 < radius then radius - 1 else 1) p)
              else SK_NOTHING))"

definition sk_routeReply ::
  "routing \<Rightarrow> u16 \<Rightarrow> u16 \<Rightarrow> u8 list \<Rightarrow> u8 \<Rightarrow> u32 \<Rightarrow> (routing \<times> sk_out) option"
where
  "sk_routeReply z self macSrc payload linkCost now =
     (case nwk_parseRouteReplyPayload (Some payload) of
        None \<Rightarrow> None
      | Some (ok, rrep) \<Rightarrow>
          if \<not> ok then Some (z, SK_NOTHING)
          else
            let (z, d) = zr_handleRouteReply z self macSrc rrep linkCost now in
            Some (z,
              if pd_routeInstalled d then SK_INSTALLED
              else if pd_forward d
              then (case nwk_buildRouteReplyPayload (Some 16) (rp_routeRequestId rrep)
                           (rp_originator rrep) (rp_responder rrep) (pd_pathCost d) None None False of
                      None \<Rightarrow> SK_NOTHING | Some p \<Rightarrow> SK_REPLY (pd_forwardTo d) p)
              else SK_NOTHING))"

section \<open>One flood in a network\<close>

text \<open>
  The nodes of a network by short address, and the Route Requests that have been broadcast.
  A broadcast stays in \<open>fl_air\<close>, so a delivery may be lost, repeated or late, and any node may
  be the one that hears it, over a link whose cost is at least 1. A delivery whose accumulated
  cost would leave eight bits is not in the relation: \<open>rreq_cost_wraps\<close> shows what it would do.
\<close>

record flood =
  fl_node :: "u16 \<Rightarrow> routing"
  fl_air :: "(u16 \<times> u8 list) list"

definition rreq_of :: "u8 list \<Rightarrow> nwk_route_request" where
  "rreq_of bs = (case nwk_parseRouteRequestPayload (Some bs) of None \<Rightarrow> nwk_route_request0 | Some (_, m) \<Rightarrow> m)"

definition fl_send :: "u16 \<Rightarrow> sk_out \<Rightarrow> (u16 \<times> u8 list) list \<Rightarrow> (u16 \<times> u8 list) list" where
  "fl_send n out air = (case out of SK_REBROADCAST _ bs \<Rightarrow> (n, bs) # air | _ \<Rightarrow> air)"

inductive flood_reach :: "(u16 \<Rightarrow> routing) \<Rightarrow> u16 \<Rightarrow> u16 \<Rightarrow> u8 \<Rightarrow> flood \<Rightarrow> bool"
  for net :: "u16 \<Rightarrow> routing" and orig :: u16 and dst :: u16 and rid :: u8
where
  start: "zr_originateDiscovery (net orig) dst now = (z, rid) \<Longrightarrow>
    nwk_buildRouteRequestPayload (Some 16) rid dst 0 False None False = Some bs \<Longrightarrow>
    flood_reach net orig dst rid \<lparr>fl_node = net(orig := z), fl_air = [(orig, bs)]\<rparr>"
| deliver: "flood_reach net orig dst rid S \<Longrightarrow> (s, bs) \<in> set (fl_air S) \<Longrightarrow>
    1 \<le> lc \<Longrightarrow> unat (rq_pathCost (rreq_of bs)) + unat lc < 256 \<Longrightarrow>
    sk_routeRequest (fl_node S n) n isRouter s orig radius bs lc now = Some (z, out) \<Longrightarrow>
    flood_reach net orig dst rid
      \<lparr>fl_node = (fl_node S)(n := z), fl_air = fl_send n out (fl_air S)\<rparr>"

text \<open>The next hops toward \<open>d\<close>, followed for \<open>k\<close> hops, and the reply on its way back.\<close>

definition follow_hops :: "(u16 \<Rightarrow> routing) \<Rightarrow> u16 \<Rightarrow> nat \<Rightarrow> u16 \<Rightarrow> u16" where
  "follow_hops net d k = ((\<lambda>a. zr_nextHopFor (net a) d) ^^ k)"

fun reply_walk ::
  "nat \<Rightarrow> (u16 \<Rightarrow> u8) \<Rightarrow> u32 \<Rightarrow> (u16 \<Rightarrow> routing) \<Rightarrow> u16 \<Rightarrow> u16 \<Rightarrow> u8 list \<Rightarrow> (u16 \<Rightarrow> routing) option"
where
  "reply_walk 0 lc now net from at bs = None"
| "reply_walk (Suc n) lc now net from at bs =
     (case sk_routeReply (net at) at from bs (lc at) now of
        Some (z, SK_INSTALLED) \<Rightarrow> Some (net(at := z))
      | Some (z, SK_REPLY nxt bs') \<Rightarrow> reply_walk n lc now (net(at := z)) at nxt bs'
      | _ \<Rightarrow> None)"

end
