(* ===== verification/ZbRoutingFacts.thy ===== *)
theory ZbRoutingFacts
  imports ZbRouting ZbNwkFacts
begin

text \<open>
  Properties of route discovery: the decision of one node on every branch, what a node keeps of
  one flood, expiry, and for a network that the reverse paths of a flood lead to the originator
  and that the reply walking back along them installs the path to the destination.
\<close>

section \<open>One node\<close>

text \<open>Handling a Route Request. A copy is dropped without any change exactly when it is malformed, is
  the node's own request, or is no cheaper than the copy already recorded. Otherwise the node
  records its sender and accumulated cost, routes back to the originator over that sender, and
  replies if it is the destination, rebroadcasts the accumulated cost if it is a router, and does
  nothing else otherwise. Another discovery is kept, or recycled from the full table.\<close>

theorem rreq_decision_correct:
  assumes "zr_wf z" "zr_has_routes z"
    and "zr_handleRouteRequest z self isR prev o' rreq lc now = (z', d)"
  shows "(\<not> (rq_valid rreq \<and> o' \<noteq> self \<and> (\<forall>e. zr_entry z (rq_routeRequestId rreq) o' = Some e \<longrightarrow>
           rq_pathCost rreq + lc < dc_forwardCost e)) \<longrightarrow>
      z' = z \<and> d = rreq_decision0\<lparr>qd_replyTo := prev, qd_duplicate := True\<rparr>) \<and>
    (rq_valid rreq \<and> o' \<noteq> self \<and> (\<forall>e. zr_entry z (rq_routeRequestId rreq) o' = Some e \<longrightarrow>
           rq_pathCost rreq + lc < dc_forwardCost e) \<longrightarrow>
      zr_wf z' \<and> zr_nextHopFor z' o' = prev \<and>
      (\<exists>e. zr_entry z' (rq_routeRequestId rreq) o' = Some e \<and> dc_previousHop e = prev \<and>
        dc_forwardCost e = rq_pathCost rreq + lc) \<and>
      (\<forall>rid p. (rid, p) \<noteq> (rq_routeRequestId rreq, o') \<longrightarrow> zr_entry z' rid p \<in> {zr_entry z rid p, None}) \<and>
      \<not> qd_duplicate d \<and> qd_replyTo d = prev \<and>
      (qd_replyAsDestination d \<longleftrightarrow> rq_destination rreq = self) \<and>
      (qd_rebroadcast d \<longleftrightarrow> rq_destination rreq \<noteq> self \<and> isR) \<and>
      (qd_rebroadcast d \<longrightarrow> qd_pathCost d = rq_pathCost rreq + lc))"
proof (rule conjI; rule impI)
  have acc: "zr_accepts z self o' rreq lc \<longleftrightarrow> rq_valid rreq \<and> o' \<noteq> self \<and>
      (\<forall>e. zr_entry z (rq_routeRequestId rreq) o' = Some e \<longrightarrow> rq_pathCost rreq + lc < dc_forwardCost e)"
    by (auto simp: zr_accepts_def split: option.splits)
  show "z' = z \<and> d = rreq_decision0\<lparr>qd_replyTo := prev, qd_duplicate := True\<rparr>"
    if "\<not> (rq_valid rreq \<and> o' \<noteq> self \<and> (\<forall>e. zr_entry z (rq_routeRequestId rreq) o' = Some e \<longrightarrow>
           rq_pathCost rreq + lc < dc_forwardCost e))"
    using zr_rreq_reject [OF that [folded acc] assms(1), of isR prev now] assms(3) by simp
  assume "rq_valid rreq \<and> o' \<noteq> self \<and> (\<forall>e. zr_entry z (rq_routeRequestId rreq) o' = Some e \<longrightarrow>
           rq_pathCost rreq + lc < dc_forwardCost e)"
  then have "zr_accepts z self o' rreq lc" using acc by blast
  from zr_rreq_accept [OF this assms(1), of isR prev now]
  obtain y e where "zr_handleRouteRequest z self isR prev o' rreq lc now = (y,
       rreq_decision0\<lparr>qd_replyTo := prev, qd_replyAsDestination := (rq_destination rreq = self),
         qd_rebroadcast := (rq_destination rreq \<noteq> self \<and> isR),
         qd_pathCost := (if rq_destination rreq \<noteq> self \<and> isR then rq_pathCost rreq + lc else 0)\<rparr>)"
    and y: "zr_entry y (rq_routeRequestId rreq) o' = Some e" "dc_previousHop e = prev"
    "dc_forwardCost e = rq_pathCost rreq + lc" "zr_wf y" "zr_nextHopFor y o' = prev"
    "\<And>rid p. (rid, p) \<noteq> (rq_routeRequestId rreq, o') \<Longrightarrow> zr_entry y rid p \<in> {zr_entry z rid p, None}"
    using assms(2) by (metis (no_types, lifting))
  with assms(3) have yz: "y = z'" "d = rreq_decision0\<lparr>qd_replyTo := prev,
         qd_replyAsDestination := (rq_destination rreq = self),
         qd_rebroadcast := (rq_destination rreq \<noteq> self \<and> isR),
         qd_pathCost := (if rq_destination rreq \<noteq> self \<and> isR then rq_pathCost rreq + lc else 0)\<rparr>"
    by simp_all
  have other: "\<forall>rid p. (rid, p) \<noteq> (rq_routeRequestId rreq, o') \<longrightarrow>
      zr_entry z' rid p \<in> {zr_entry z rid p, None}"
    using y(6) unfolding yz by blast
  show "zr_wf z' \<and> zr_nextHopFor z' o' = prev \<and>
      (\<exists>e. zr_entry z' (rq_routeRequestId rreq) o' = Some e \<and> dc_previousHop e = prev \<and>
        dc_forwardCost e = rq_pathCost rreq + lc) \<and>
      (\<forall>rid p. (rid, p) \<noteq> (rq_routeRequestId rreq, o') \<longrightarrow> zr_entry z' rid p \<in> {zr_entry z rid p, None}) \<and>
      \<not> qd_duplicate d \<and> qd_replyTo d = prev \<and>
      (qd_replyAsDestination d \<longleftrightarrow> rq_destination rreq = self) \<and>
      (qd_rebroadcast d \<longleftrightarrow> rq_destination rreq \<noteq> self \<and> isR) \<and>
      (qd_rebroadcast d \<longrightarrow> qd_pathCost d = rq_pathCost rreq + lc)"
    using y(1-5) other unfolding yz by (simp add: rreq_decision0_def)
qed

definition zr_example :: routing where
  "zr_example = zr_attachRouteTable zr_init (Some [route0, route0])"

lemma zr_example_ok: "zr_wf zr_example" "zr_has_routes zr_example" "zr_entry zr_example r p = None"
  by (simp_all add: zr_example_def zr_attachRouteTable_def zr_wf_def zr_init_def kMaxDiscoveries_def
      rt_wf_def slot_uniq_def route0_def zr_has_routes_def rt_attached_def zr_entry_def
      dsc.get_blank)

lemma rreq_decision_correct_witness:
  "\<exists>z' d. zr_handleRouteRequest zr_example 3 True 2 1
      (nwk_route_request0\<lparr>rq_valid := True, rq_destination := 9, rq_pathCost := 4\<rparr>) 1 0 = (z', d) \<and>
    qd_rebroadcast d \<and> qd_pathCost d = 5 \<and> zr_nextHopFor z' 1 = 2"
proof -
  let ?q = "nwk_route_request0\<lparr>rq_valid := True, rq_destination := 9, rq_pathCost := 4\<rparr>"
  obtain z' d where h: "zr_handleRouteRequest zr_example 3 True 2 1 ?q 1 0 = (z', d)" by fastforce
  from rreq_decision_correct [OF zr_example_ok(1,2) h] show ?thesis using h zr_example_ok(3) by auto
qed

text \<open>The copies of one flood that reach one node, in the order they arrive.\<close>

record rreq_copy =
  cp_prev :: u16
  cp_rreq :: nwk_route_request
  cp_link :: u8
  cp_now :: u32

definition cp_cost :: "rreq_copy \<Rightarrow> u8" where
  "cp_cost c = rq_pathCost (cp_rreq c) + cp_link c"

fun rreq_run :: "routing \<Rightarrow> u16 \<Rightarrow> bool \<Rightarrow> u16 \<Rightarrow> rreq_copy list \<Rightarrow> routing \<times> rreq_decision list" where
  "rreq_run z self isR o' [] = (z, [])"
| "rreq_run z self isR o' (c # cs) =
     (let (z, d) = zr_handleRouteRequest z self isR (cp_prev c) o' (cp_rreq c) (cp_link c) (cp_now c);
          (z, ds) = rreq_run z self isR o' cs
      in (z, d # ds))"

definition zr_view :: "routing \<Rightarrow> u8 \<Rightarrow> u16 \<Rightarrow> (u16 \<times> u8) option" where
  "zr_view z rid o' = map_option (\<lambda>e. (dc_previousHop e, dc_forwardCost e)) (zr_entry z rid o')"

lemma rreq_run_scan:
  assumes "zr_wf z" "o' \<noteq> self"
    and "\<forall>c\<in>set cs. rq_valid (cp_rreq c) \<and> rq_routeRequestId (cp_rreq c) = rid"
    and "zr_view z rid o' = map_option (\<lambda>p. (cp_prev (snd p), cp_cost (snd p))) b"
  shows "zr_view (fst (rreq_run z self isR o' cs)) rid o' =
    map_option (\<lambda>p. (cp_prev (snd p), cp_cost (snd p))) (scan_best (\<lambda>_. True) (\<lambda>x y. cp_cost x < cp_cost y) cs i b)"
  using assms
proof (induction cs arbitrary: z i b)
  case Nil
  then show ?case by simp
next
  case (Cons c cs)
  let ?n = "zr_handleRouteRequest z self isR (cp_prev c) o' (cp_rreq c) (cp_link c) (cp_now c)"
  let ?take = "case b of None \<Rightarrow> True | Some y \<Rightarrow> cp_cost c < cp_cost (snd y)"
  have q: "rq_valid (cp_rreq c)" "rq_routeRequestId (cp_rreq c) = rid" using Cons.prems(3) by auto
  have acc: "zr_accepts z self o' (cp_rreq c) (cp_link c) \<longleftrightarrow> ?take"
    using Cons.prems(2,4) q by (auto simp: zr_accepts_def zr_view_def cp_cost_def split: option.splits)
  have "zr_wf (fst ?n) \<and> zr_view (fst ?n) rid o' =
      map_option (\<lambda>p. (cp_prev (snd p), cp_cost (snd p))) (if ?take then Some (i, c) else b)"
  proof (cases ?take)
    case True
    with acc have a: "zr_accepts z self o' (cp_rreq c) (cp_link c)" by simp
    show ?thesis
      by (rule zr_rreq_accept [OF a Cons.prems(1), of isR "cp_prev c" "cp_now c"])
        (use True q in \<open>auto simp: zr_view_def cp_cost_def\<close>)
  next
    case False
    with acc have a: "\<not> zr_accepts z self o' (cp_rreq c) (cp_link c)" by simp
    from zr_rreq_reject [OF a Cons.prems(1), of isR "cp_prev c" "cp_now c"] False Cons.prems(1,4)
    show ?thesis by simp
  qed
  then have "zr_view (fst (rreq_run (fst ?n) self isR o' cs)) rid o' =
    map_option (\<lambda>p. (cp_prev (snd p), cp_cost (snd p)))
      (scan_best (\<lambda>_. True) (\<lambda>x y. cp_cost x < cp_cost y) cs (Suc i) (if ?take then Some (i, c) else b))"
    using Cons.prems(2,3) by (intro Cons.IH) simp_all
  moreover have "scan_best (\<lambda>_. True) (\<lambda>x y. cp_cost x < cp_cost y) (c # cs) i b =
      scan_best (\<lambda>_. True) (\<lambda>x y. cp_cost x < cp_cost y) cs (Suc i) (if ?take then Some (i, c) else b)"
    by (cases b) (auto simp del: scan_best.simps(1))
  ultimately show ?case by (simp only: rreq_run.simps Let_def case_prod_beta fst_conv)
qed

text \<open>Whatever copies of one flood reach a node, and in whatever order, the node ends with the
  cheapest copy: the recorded previous hop is the sender of the first copy of least accumulated
  cost, and its route to the originator goes over that sender.\<close>

theorem rreq_keeps_cheapest_copy:
  assumes "zr_wf z" "o' \<noteq> self" "zr_entry z rid o' = None" "cs \<noteq> []"
    and "\<forall>c\<in>set cs. rq_valid (cp_rreq c) \<and> rq_routeRequestId (cp_rreq c) = rid"
  shows "\<exists>i e. i < length cs \<and> zr_entry (fst (rreq_run z self isR o' cs)) rid o' = Some e \<and>
    dc_previousHop e = cp_prev (cs ! i) \<and> dc_forwardCost e = cp_cost (cs ! i) \<and>
    (\<forall>c\<in>set cs. cp_cost (cs ! i) \<le> cp_cost c)"
proof -
  let ?better = "\<lambda>x y. cp_cost x < cp_cost y"
  obtain i c where b: "scan_best (\<lambda>_. True) ?better cs 0 None = Some (i, c)"
    using assms(4) by (cases "scan_best (\<lambda>_. True) ?better cs 0 None") (auto simp: scan_best_None_iff)
  then have bi: "best_idx (\<lambda>_. True) ?better cs = Some i" by (simp add: best_idx_def)
  from scan_best_in [OF b] have c: "c = cs ! i" "i < length cs" by auto
  have "zr_view (fst (rreq_run z self isR o' cs)) rid o' = Some (cp_prev c, cp_cost c)"
    using rreq_run_scan [OF assms(1,2,5), of None isR 0] assms(3) b by (simp add: zr_view_def)
  moreover have "\<forall>x\<in>set cs. cp_cost c \<le> cp_cost x"
    using best_idx_minimal [OF bi] c by (auto simp: in_set_conv_nth)
  ultimately show ?thesis using c by (auto simp: zr_view_def)
qed

lemma rreq_keeps_cheapest_copy_witness:
  "\<exists>e. zr_entry (fst (rreq_run zr_example 3 True 1
      (map (\<lambda>(p, k). \<lparr>cp_prev = p, cp_rreq = nwk_route_request0\<lparr>rq_valid := True, rq_destination := 9,
          rq_pathCost := k\<rparr>, cp_link = 1, cp_now = 0\<rparr>) [(5, 9), (6, 2), (7, 4)]))) 0 1 = Some e \<and>
    dc_previousHop e = 6"
proof -
  let ?cs = "map (\<lambda>(p, k). \<lparr>cp_prev = p, cp_rreq = nwk_route_request0\<lparr>rq_valid := True, rq_destination := 9,
          rq_pathCost := k\<rparr>, cp_link = 1, cp_now = 0\<rparr>) [(5 :: u16, 9 :: u8), (6, 2), (7, 4)]"
  have "\<forall>c\<in>set ?cs. rq_valid (cp_rreq c) \<and> rq_routeRequestId (cp_rreq c) = 0"
    by (simp add: nwk_route_request0_def)
  from rreq_keeps_cheapest_copy [OF zr_example_ok(1) _ zr_example_ok(3) _ this, of 1 3 True]
  obtain i e where i: "i < length ?cs" and e: "zr_entry (fst (rreq_run zr_example 3 True 1 ?cs)) 0 1 = Some e"
    "dc_previousHop e = cp_prev (?cs ! i)" "\<forall>c\<in>set ?cs. cp_cost (?cs ! i) \<le> cp_cost c" by auto
  from i have "i = 0 \<or> i = 1 \<or> i = 2" by auto
  with e(3) have "i = 1" by (auto simp: cp_cost_def)
  with e show ?thesis by simp
qed

section \<open>Expiry\<close>

lemma zr_expire_entry:
  assumes "zr_wf z"
  shows "zr_entry (zr_expire z now) rid p =
    (case zr_entry z rid p of None \<Rightarrow> None | Some e \<Rightarrow> if zr_expired now e then None else Some e)"
  using assms by (simp add: zr_entry_def zr_expire_def zr_wf_def dsc.get_sweep)

text \<open>An accepted Route Request is remembered for ten seconds and no longer, across the wrap of the
  millisecond clock: \<open>expire\<close> at \<open>x\<close> milliseconds after it was accepted (less than \<open>2 ^ 31\<close>)
  keeps its entry if and only if \<open>x < 10000\<close>, and changes no route.\<close>

theorem discovery_lifetime:
  assumes "zr_wf z" "zr_accepts z self o' rreq lc" "x < 0x80000000"
    and "zr_handleRouteRequest z self isR prev o' rreq lc now = (z', d)"
  shows "zr_entry (zr_expire z' (now + x)) (rq_routeRequestId rreq) o' =
      (if x < kDiscoveryLifetimeMs then zr_entry z' (rq_routeRequestId rreq) o' else None) \<and>
    zr_routes (zr_expire z' (now + x)) = zr_routes z'"
proof (rule conjI)
  from zr_rreq_accept [OF assms(2,1), of isR prev now] assms(4)
  obtain e where e: "zr_entry z' (rq_routeRequestId rreq) o' = Some e"
      "dc_expiresMs e = now + kDiscoveryLifetimeMs" "zr_wf z'" by (metis prod.inject)
  have "zr_expired (now + x) e \<longleftrightarrow> \<not> x < kDiscoveryLifetimeMs"
    using deadline_reached(1) [OF assms(3), of 10000 now] zr_entry_key [OF e(1)] e(2)
    by (simp add: zr_expired_def kDiscoveryLifetimeMs_def not_less)
  then show "zr_entry (zr_expire z' (now + x)) (rq_routeRequestId rreq) o' =
      (if x < kDiscoveryLifetimeMs then zr_entry z' (rq_routeRequestId rreq) o' else None)"
    using e by (simp add: zr_expire_entry)
  show "zr_routes (zr_expire z' (now + x)) = zr_routes z'" by (simp add: zr_expire_def)
qed

lemma discovery_lifetime_witness:
  "\<exists>z' d. zr_handleRouteRequest zr_example 3 True 2 1 (nwk_route_request0\<lparr>rq_valid := True\<rparr>) 1 0xFFFFFFF0 = (z', d) \<and>
     zr_entry (zr_expire z' (0xFFFFFFF0 + 10000)) 0 1 = None \<and>
     zr_entry (zr_expire z' (0xFFFFFFF0 + 9999)) 0 1 = zr_entry z' 0 1"
proof -
  let ?q = "nwk_route_request0\<lparr>rq_valid := True\<rparr>"
  obtain z' d where h: "zr_handleRouteRequest zr_example 3 True 2 1 ?q 1 0xFFFFFFF0 = (z', d)" by fastforce
  have a: "zr_accepts zr_example 3 1 ?q 1"
    by (simp add: zr_accepts_def zr_example_ok)
  from discovery_lifetime [OF zr_example_ok(1) a _ h, of 10000]
    discovery_lifetime [OF zr_example_ok(1) a _ h, of 9999] h
  show ?thesis by (simp add: kDiscoveryLifetimeMs_def nwk_route_request0_def)
qed

section \<open>One flood in a network: facts\<close>

lemma cost_grows: "1 \<le> (lc :: u8) \<Longrightarrow> unat pc + unat lc < 256 \<Longrightarrow> pc < pc + lc"
  by (simp add: word_less_nat_alt word_le_nat_alt unat_word_ariths)

definition flood_inv :: "u16 \<Rightarrow> u16 \<Rightarrow> u8 \<Rightarrow> flood \<Rightarrow> bool" where
  "flood_inv orig dst rid S \<longleftrightarrow>
     (\<forall>n. zr_wf (fl_node S n) \<and> zr_has_routes (fl_node S n)) \<and>
     (\<forall>n e. zr_entry (fl_node S n) rid orig = Some e \<longrightarrow>
        n \<noteq> orig \<and> zr_nextHopFor (fl_node S n) orig = dc_previousHop e \<and>
        (dc_previousHop e = orig \<or>
         (\<exists>e'. zr_entry (fl_node S (dc_previousHop e)) rid orig = Some e' \<and>
            dc_forwardCost e' < dc_forwardCost e))) \<and>
     (\<forall>s bs. (s, bs) \<in> set (fl_air S) \<longrightarrow>
        (\<exists>m. nwk_parseRouteRequestPayload (Some bs) = Some (True, m) \<and> rq_valid m \<and>
           rq_routeRequestId m = rid \<and> rq_destination m = dst \<and>
           (s = orig \<or> (\<exists>e'. zr_entry (fl_node S s) rid orig = Some e' \<and>
              dc_forwardCost e' \<le> rq_pathCost m))))"

lemma sk_routeRequest_reject:
  assumes "nwk_parseRouteRequestPayload (Some bs) = Some (True, m)" "zr_wf z"
    "\<not> zr_accepts z self orig m lc"
  shows "sk_routeRequest z self isR s orig radius bs lc now = Some (z, SK_NOTHING)"
  using assms zr_rreq_reject [OF assms(3,2), of isR s now] by (simp add: sk_routeRequest_def)

lemma sk_routeRequest_accept:
  assumes p: "nwk_parseRouteRequestPayload (Some bs) = Some (True, m)" and wf: "zr_wf z"
    and a: "zr_accepts z self orig m lc"
    and sk: "sk_routeRequest z self isR s orig radius bs lc now = Some (z', out)"
  obtains e where "zr_entry z' (rq_routeRequestId m) orig = Some e" "dc_previousHop e = s"
    "dc_forwardCost e = rq_pathCost m + lc" "zr_wf z'" "zr_has_routes z' = zr_has_routes z"
    "zr_has_routes z \<Longrightarrow> zr_nextHopFor z' orig = s"
    "\<And>r bs'. out = SK_REBROADCAST r bs' \<Longrightarrow> \<exists>m'. nwk_parseRouteRequestPayload (Some bs') = Some (True, m') \<and>
       rq_valid m' \<and> rq_routeRequestId m' = rq_routeRequestId m \<and> rq_destination m' = rq_destination m \<and>
       rq_pathCost m' = rq_pathCost m + lc"
proof -
  obtain y e where h: "zr_handleRouteRequest z self isR s orig m lc now = (y,
       rreq_decision0\<lparr>qd_replyTo := s, qd_replyAsDestination := (rq_destination m = self),
         qd_rebroadcast := (rq_destination m \<noteq> self \<and> isR),
         qd_pathCost := (if rq_destination m \<noteq> self \<and> isR then rq_pathCost m + lc else 0)\<rparr>)"
    and y: "zr_entry y (rq_routeRequestId m) orig = Some e" "dc_previousHop e = s"
    "dc_forwardCost e = rq_pathCost m + lc" "zr_wf y" "zr_has_routes y = zr_has_routes z"
    "zr_has_routes z \<Longrightarrow> zr_nextHopFor y orig = s"
    using zr_rreq_accept [OF a wf, of isR s now] by metis
  from sk p h have z': "z' = y" by (simp add: sk_routeRequest_def)
  show thesis
  proof (rule that [of e])
    fix r bs' assume "out = SK_REBROADCAST r bs'"
    with sk p h have "nwk_buildRouteRequestPayload (Some 16) (rq_routeRequestId m)
                           (rq_destination m) (rq_pathCost m + lc) (rq_manyToOne m)
                           (if rq_destinationIeeePresent m then Some (rq_destinationIeee m) else None)
                           (rq_multicast m) = Some bs'"
      by (auto simp: sk_routeRequest_def rreq_decision0_def split: if_splits option.splits)
    from nwk_rreq_roundtrip [OF this]
    show "\<exists>m'. nwk_parseRouteRequestPayload (Some bs') = Some (True, m') \<and>
       rq_valid m' \<and> rq_routeRequestId m' = rq_routeRequestId m \<and> rq_destination m' = rq_destination m \<and>
       rq_pathCost m' = rq_pathCost m + lc" by simp
  qed (use y z' in simp_all)
qed

lemma flood_inv_start:
  assumes net: "\<And>n. zr_wf (net n) \<and> zr_has_routes (net n) \<and> zr_entry (net n) rid orig = None"
    and o: "zr_originateDiscovery (net orig) dst now = (z, rid)"
    and b: "nwk_buildRouteRequestPayload (Some 16) rid dst 0 False None False = Some bs"
  shows "flood_inv orig dst rid \<lparr>fl_node = net(orig := z), fl_air = [(orig, bs)]\<rparr>"
proof -
  let ?y = "net orig\<lparr>zr_requestId := zr_requestId (net orig) + 1\<rparr>"
  have y: "zr_wf ?y" "zr_has_routes ?y" "zr_entry ?y rid orig = None"
    using net [of orig] by (simp_all add: zr_wf_def zr_has_routes_def zr_entry_def)
  from o have "z = zr_upsert ?y dst kNoNextHop ZB_ROUTE_DISCOVERY_UNDERWAY now"
    by (auto simp: zr_originateDiscovery_def Let_def)
  then have "zr_wf z \<and> zr_has_routes z \<and> zr_entry z rid orig = None" using y by simp
  then show ?thesis using net nwk_rreq_roundtrip [OF b] by (simp add: flood_inv_def)
qed

lemma flood_inv_deliver:
  assumes inv: "flood_inv orig dst rid S" and air: "(s, bs) \<in> set (fl_air S)"
    and lc: "1 \<le> lc" "unat (rq_pathCost (rreq_of bs)) + unat lc < 256"
    and sk: "sk_routeRequest (fl_node S n) n isR s orig radius bs lc now = Some (z, out)"
  shows "flood_inv orig dst rid \<lparr>fl_node = (fl_node S)(n := z), fl_air = fl_send n out (fl_air S)\<rparr>"
proof -
  note invD = inv [unfolded flood_inv_def]
  from invD air obtain m where m: "nwk_parseRouteRequestPayload (Some bs) = Some (True, m)" "rq_valid m"
      "rq_routeRequestId m = rid" "rq_destination m = dst"
      "s = orig \<or> (\<exists>e'. zr_entry (fl_node S s) rid orig = Some e' \<and> dc_forwardCost e' \<le> rq_pathCost m)"
    by blast
  have wf: "zr_wf (fl_node S n)" "zr_has_routes (fl_node S n)" using invD by blast+
  show ?thesis
  proof (cases "zr_accepts (fl_node S n) n orig m lc")
    case False
    from sk_routeRequest_reject [OF m(1) wf(1) False, of isR s radius now] sk
    have "z = fl_node S n" "out = SK_NOTHING" by simp_all
    then show ?thesis using inv by (simp add: fl_send_def flood_inv_def)
  next
    case True
    from lc m(1) have up: "rq_pathCost m < rq_pathCost m + lc" by (intro cost_grows) (simp_all add: rreq_of_def)
    from True have no: "n \<noteq> orig" by (auto simp: zr_accepts_def)
    obtain e where e: "zr_entry z rid orig = Some e" "dc_previousHop e = s"
        "dc_forwardCost e = rq_pathCost m + lc" "zr_wf z" "zr_has_routes z" "zr_nextHopFor z orig = s"
      and rb: "\<And>r bs'. out = SK_REBROADCAST r bs' \<Longrightarrow>
        \<exists>m'. nwk_parseRouteRequestPayload (Some bs') = Some (True, m') \<and> rq_valid m' \<and>
          rq_routeRequestId m' = rid \<and> rq_destination m' = dst \<and> rq_pathCost m' = rq_pathCost m + lc"
      using sk_routeRequest_accept [OF m(1) wf(1) True sk] wf(2) m(3,4) by (metis (no_types, lifting))
    have less: "\<And>e'. zr_entry (fl_node S n) rid orig = Some e' \<Longrightarrow> dc_forwardCost e < dc_forwardCost e'"
      using True m(3) e(3) by (auto simp: zr_accepts_def)
    have sn: "s \<noteq> n"
    proof
      assume "s = n"
      with m(5) no obtain e' where "zr_entry (fl_node S n) rid orig = Some e'" "dc_forwardCost e' \<le> rq_pathCost m"
        by blast
      with less [of e'] e(3) up show False by simp
    qed
    let ?net = "(fl_node S)(n := z)"
    have keep: "\<exists>e''. zr_entry (?net a) rid orig = Some e'' \<and> dc_forwardCost e'' \<le> dc_forwardCost e'"
      if "zr_entry (fl_node S a) rid orig = Some e'" for a e'
      using that less e(1) by (cases "a = n") (auto simp: less_imp_le)
    show ?thesis
      unfolding flood_inv_def fl_send_def
    proof (intro conjI allI impI)
      fix a
      show "zr_wf (fl_node \<lparr>fl_node = ?net, fl_air = case out of SK_REBROADCAST x bs \<Rightarrow> (n, bs) # fl_air S | _ \<Rightarrow> fl_air S\<rparr> a)"
        "zr_has_routes (fl_node \<lparr>fl_node = ?net, fl_air = case out of SK_REBROADCAST x bs \<Rightarrow> (n, bs) # fl_air S | _ \<Rightarrow> fl_air S\<rparr> a)"
        using invD e(4,5) by simp_all
    next
      fix a ea
      assume ea: "zr_entry (fl_node \<lparr>fl_node = ?net, fl_air = case out of SK_REBROADCAST x bs \<Rightarrow> (n, bs) # fl_air S | _ \<Rightarrow> fl_air S\<rparr> a) rid orig = Some ea"
      show "a \<noteq> orig" using ea invD no by (cases "a = n") auto
      show "zr_nextHopFor (fl_node \<lparr>fl_node = ?net, fl_air = case out of SK_REBROADCAST x bs \<Rightarrow> (n, bs) # fl_air S | _ \<Rightarrow> fl_air S\<rparr> a) orig = dc_previousHop ea"
        using ea invD e by (cases "a = n") auto
      have "dc_previousHop ea = orig \<or> (\<exists>e'. zr_entry (fl_node S (dc_previousHop ea)) rid orig = Some e' \<and>
          dc_forwardCost e' < dc_forwardCost ea)"
      proof (cases "a = n")
        case True
        with ea e m(5) up show ?thesis by (auto intro: le_less_trans)
      next
        case False
        with ea invD show ?thesis by auto
      qed
      then show "dc_previousHop ea = orig \<or> (\<exists>e'. zr_entry (fl_node \<lparr>fl_node = ?net, fl_air = case out of SK_REBROADCAST x bs \<Rightarrow> (n, bs) # fl_air S | _ \<Rightarrow> fl_air S\<rparr> (dc_previousHop ea)) rid orig = Some e' \<and>
          dc_forwardCost e' < dc_forwardCost ea)"
        using keep [of "dc_previousHop ea"] unfolding flood.select_convs by (blast intro: le_less_trans)
    next
      fix a bs'
      assume "(a, bs') \<in> set (fl_air \<lparr>fl_node = ?net, fl_air = case out of SK_REBROADCAST x bs \<Rightarrow> (n, bs) # fl_air S | _ \<Rightarrow> fl_air S\<rparr>)"
      then consider (new) r where "out = SK_REBROADCAST r bs'" "a = n" | (old) "(a, bs') \<in> set (fl_air S)"
        by (auto split: sk_out.splits)
      then show "\<exists>m. nwk_parseRouteRequestPayload (Some bs') = Some (True, m) \<and> rq_valid m \<and>
           rq_routeRequestId m = rid \<and> rq_destination m = dst \<and>
           (a = orig \<or> (\<exists>e'. zr_entry (fl_node \<lparr>fl_node = ?net, fl_air = case out of SK_REBROADCAST x bs \<Rightarrow> (n, bs) # fl_air S | _ \<Rightarrow> fl_air S\<rparr> a) rid orig = Some e' \<and>
              dc_forwardCost e' \<le> rq_pathCost m))"
      proof cases
        case new
        with rb [OF new(1)] e(1,3) show ?thesis by auto
      next
        case old
        with invD obtain m' where "nwk_parseRouteRequestPayload (Some bs') = Some (True, m')" "rq_valid m'"
           "rq_routeRequestId m' = rid" "rq_destination m' = dst"
           "a = orig \<or> (\<exists>e'. zr_entry (fl_node S a) rid orig = Some e' \<and> dc_forwardCost e' \<le> rq_pathCost m')"
          by blast
        with keep [of a] show ?thesis by (auto intro: order_trans)
      qed
    qed
  qed
qed

definition quiet_net :: "(u16 \<Rightarrow> routing) \<Rightarrow> u16 \<Rightarrow> u8 \<Rightarrow> bool" where
  "quiet_net net orig rid \<longleftrightarrow>
     (\<forall>n. zr_wf (net n) \<and> zr_has_routes (net n) \<and> zr_entry (net n) rid orig = None)"

lemma flood_reach_inv:
  assumes "flood_reach net orig dst rid S" "quiet_net net orig rid"
  shows "flood_inv orig dst rid S"
  using assms
proof (induction rule: flood_reach.induct)
  case (start now z bs)
  then show ?case by (intro flood_inv_start) (auto simp: quiet_net_def)
next
  case (deliver S s bs lc n isRouter radius now z out)
  then show ?case by (intro flood_inv_deliver) auto
qed

text \<open>The distance that a flood gives a node: 0 at the originator, and decreasing along the recorded
  previous hops.\<close>

definition hop_rank :: "u8 \<Rightarrow> u16 \<Rightarrow> (u16 \<Rightarrow> routing) \<Rightarrow> u16 \<Rightarrow> nat" where
  "hop_rank rid orig net n =
     (if n = orig then 0 else case zr_entry (net n) rid orig of None \<Rightarrow> 0 | Some e \<Rightarrow> Suc (unat (dc_forwardCost e)))"

lemma follow_hops_Suc: "follow_hops net d (Suc k) a = zr_nextHopFor (net (follow_hops net d k a)) d"
  by (simp add: follow_hops_def)

lemma follow_hops_Suc2: "follow_hops net d (Suc k) a = follow_hops net d k (zr_nextHopFor (net a) d)"
  by (simp add: follow_hops_def funpow_Suc_right del: funpow.simps)

lemma flood_prev:
  assumes "flood_inv orig dst rid S" "zr_entry (fl_node S n) rid orig = Some e"
  shows "n \<noteq> orig" "zr_nextHopFor (fl_node S n) orig = dc_previousHop e"
    "hop_rank rid orig (fl_node S) (dc_previousHop e) < hop_rank rid orig (fl_node S) n"
    "dc_previousHop e = orig \<or> (\<exists>e'. zr_entry (fl_node S (dc_previousHop e)) rid orig = Some e')"
proof -
  note h = assms(1) [unfolded flood_inv_def]
  show n: "n \<noteq> orig" and "zr_nextHopFor (fl_node S n) orig = dc_previousHop e"
    and "dc_previousHop e = orig \<or> (\<exists>e'. zr_entry (fl_node S (dc_previousHop e)) rid orig = Some e')"
    using h assms(2) by blast+
  from h assms(2) have "dc_previousHop e = orig \<or> (\<exists>e'. zr_entry (fl_node S (dc_previousHop e)) rid orig = Some e' \<and>
            dc_forwardCost e' < dc_forwardCost e)" by blast
  then show "hop_rank rid orig (fl_node S) (dc_previousHop e) < hop_rank rid orig (fl_node S) n"
    using n assms(2) by (auto simp: hop_rank_def word_less_nat_alt)
qed

lemma reverse_path_reaches:
  assumes "flood_inv orig dst rid S" "n = orig \<or> zr_entry (fl_node S n) rid orig \<noteq> None"
  shows "\<exists>k \<le> hop_rank rid orig (fl_node S) n. follow_hops (fl_node S) orig k n = orig"
  using assms(2)
proof (induction "hop_rank rid orig (fl_node S) n" arbitrary: n rule: less_induct)
  case less
  show ?case
  proof (cases "n = orig")
    case True
    then show ?thesis by (intro exI [of _ 0]) (simp add: follow_hops_def)
  next
    case False
    with less.prems obtain e where e: "zr_entry (fl_node S n) rid orig = Some e" by blast
    note p = flood_prev [OF assms(1) e]
    have "dc_previousHop e = orig \<or> zr_entry (fl_node S (dc_previousHop e)) rid orig \<noteq> None" using p(4) by blast
    from less.hyps [OF p(3) this] obtain k where
      k: "k \<le> hop_rank rid orig (fl_node S) (dc_previousHop e)"
        "follow_hops (fl_node S) orig k (dc_previousHop e) = orig" by blast
    then show ?thesis using p(2,3) by (intro exI [of _ "Suc k"]) (simp add: follow_hops_Suc2)
  qed
qed

text \<open>C11: In every state of a flood, with deliveries lost, repeated and reordered in any way, the
  routes to the originator have no loop: from every node that accepted a copy, following
  \<open>nextHopFor\<close> leads to the originator within 256 hops, and the accumulated cost decreases at
  each hop.\<close>

theorem reverse_paths_loop_free:
  assumes "flood_reach net orig dst rid S" "quiet_net net orig rid"
    and "zr_entry (fl_node S n) rid orig = Some e"
  shows "(\<exists>k \<le> 256. follow_hops (fl_node S) orig k n = orig) \<and>
    (zr_nextHopFor (fl_node S n) orig = orig \<or>
      (\<exists>e'. zr_entry (fl_node S (zr_nextHopFor (fl_node S n) orig)) rid orig = Some e' \<and>
         dc_forwardCost e' < dc_forwardCost e))"
proof (rule conjI)
  have inv: "flood_inv orig dst rid S" using assms(1,2) by (rule flood_reach_inv)
  have "hop_rank rid orig (fl_node S) n \<le> 256"
    using u8_unat_lt by (auto simp: hop_rank_def Suc_le_eq split: option.split)
  with reverse_path_reaches [OF inv] assms(3)
  show "\<exists>k \<le> 256. follow_hops (fl_node S) orig k n = orig" by (metis option.distinct(1) order_trans)
  show "zr_nextHopFor (fl_node S n) orig = orig \<or>
      (\<exists>e'. zr_entry (fl_node S (zr_nextHopFor (fl_node S n) orig)) rid orig = Some e' \<and>
         dc_forwardCost e' < dc_forwardCost e)"
    using inv assms(3) unfolding flood_inv_def by metis
qed

section \<open>The reply\<close>

definition rrep_is :: "u8 list \<Rightarrow> u8 \<Rightarrow> u16 \<Rightarrow> u16 \<Rightarrow> bool" where
  "rrep_is bs rid orig dst \<longleftrightarrow> (\<exists>m. nwk_parseRouteReplyPayload (Some bs) = Some (True, m) \<and> rp_valid m \<and>
     rp_routeRequestId m = rid \<and> rp_originator m = orig \<and> rp_responder m = dst)"

lemma sk_reply_install:
  assumes "rrep_is bs rid orig dst" "zr_wf z" "zr_has_routes z"
  obtains z' where "sk_routeReply z orig from bs lc now = Some (z', SK_INSTALLED)"
    "zr_wf z'" "zr_has_routes z'" "zr_nextHopFor z' dst = from" "\<And>r p. zr_entry z' r p = zr_entry z r p"
proof -
  from assms(1) obtain m where m: "nwk_parseRouteReplyPayload (Some bs) = Some (True, m)" "rp_valid m"
      "rp_originator m = orig" "rp_responder m = dst" by (auto simp: rrep_is_def)
  have "sk_routeReply z orig from bs lc now = Some (zr_upsert z dst from ZB_ROUTE_ACTIVE now, SK_INSTALLED)"
    using m by (simp add: sk_routeReply_def zr_handleRouteReply_def Let_def)
  then show thesis using that assms(2,3) zr_upsert_nextHop [OF assms(2,3), of dst "from" 0 now] by simp
qed

lemma sk_reply_forward:
  assumes "rrep_is bs rid orig dst" "zr_wf z" "zr_has_routes z" "self \<noteq> orig" "zr_entry z rid orig = Some e"
  obtains z' bs' where "sk_routeReply z self from bs lc now = Some (z', SK_REPLY (dc_previousHop e) bs')"
    "rrep_is bs' rid orig dst"
    "zr_wf z'" "zr_has_routes z'" "zr_nextHopFor z' dst = from" "\<And>r p. zr_entry z' r p = zr_entry z r p"
proof -
  from assms(1) obtain m where m: "nwk_parseRouteReplyPayload (Some bs) = Some (True, m)" "rp_valid m"
      "rp_routeRequestId m = rid" "rp_originator m = orig" "rp_responder m = dst" by (auto simp: rrep_is_def)
  obtain bs' where b: "nwk_buildRouteReplyPayload (Some 16) rid orig dst (rp_pathCost m + lc) None None False = Some bs'"
    by (simp add: nwk_buildRouteReplyPayload_def Let_def)
  have sk: "sk_routeReply z self from bs lc now =
      Some (zr_upsert z dst from ZB_ROUTE_ACTIVE now, SK_REPLY (dc_previousHop e) bs')"
    using m assms(4,5) b
    by (auto simp: sk_routeReply_def zr_handleRouteReply_def zr_entry_find rrep_decision0_def Let_def
        split: option.splits)
  have "rrep_is bs' rid orig dst" using nwk_rrep_roundtrip [OF b] by (simp add: rrep_is_def)
  with sk show thesis using that assms(2,3) zr_upsert_nextHop [OF assms(2,3), of dst "from" 0 now] by simp
qed

definition path_net :: "u8 \<Rightarrow> u16 \<Rightarrow> (u16 \<Rightarrow> routing) \<Rightarrow> bool" where
  "path_net rid orig net \<longleftrightarrow>
     (\<forall>n. zr_wf (net n) \<and> zr_has_routes (net n)) \<and>
     (\<forall>n e. zr_entry (net n) rid orig = Some e \<longrightarrow> n \<noteq> orig \<and>
        hop_rank rid orig net (dc_previousHop e) < hop_rank rid orig net n \<and>
        (dc_previousHop e = orig \<or> (\<exists>e'. zr_entry (net (dc_previousHop e)) rid orig = Some e')))"

lemma hop_rank_entries:
  "(\<And>n. zr_entry (net' n) rid orig = zr_entry (net n) rid orig) \<Longrightarrow>
     hop_rank rid orig net' = hop_rank rid orig net"
  by (rule ext) (simp add: hop_rank_def)

lemma path_net_update:
  assumes "path_net rid orig net" "zr_wf z" "zr_has_routes z" "\<And>r p. zr_entry z r p = zr_entry (net a) r p"
  shows "path_net rid orig (net(a := z))" "hop_rank rid orig (net(a := z)) = hop_rank rid orig net"
proof -
  have e: "zr_entry ((net(a := z)) n) r p = zr_entry (net n) r p" for n r p using assms(4) by simp
  show r: "hop_rank rid orig (net(a := z)) = hop_rank rid orig net"
    using e by (rule hop_rank_entries)
  show "path_net rid orig (net(a := z))"
    using assms(1-3) unfolding path_net_def e r by simp
qed

lemma reply_walk_installs:
  assumes "path_net rid orig net" "rrep_is bs rid orig dst"
    and "at = orig \<or> zr_entry (net at) rid orig \<noteq> None"
    and "hop_rank rid orig net at < fuel"
  shows "\<exists>net'. reply_walk fuel lc now net from at bs = Some net' \<and>
    (\<forall>n. hop_rank rid orig net at < hop_rank rid orig net n \<longrightarrow> net' n = net n) \<and>
    zr_nextHopFor (net' at) dst = from \<and>
    (\<exists>k \<le> hop_rank rid orig net at. follow_hops net' dst k orig = at)"
  using assms
proof (induction fuel arbitrary: net "from" at bs)
  case 0
  then show ?case by simp
next
  case (Suc fuel)
  have wf: "zr_wf (net at)" "zr_has_routes (net at)" using Suc.prems(1) by (simp_all add: path_net_def)
  show ?case
  proof (cases "at = orig")
    case True
    obtain z' where z': "sk_routeReply (net at) at from bs (lc at) now = Some (z', SK_INSTALLED)"
        "zr_nextHopFor z' dst = from"
      using sk_reply_install [OF Suc.prems(2) wf, of "from" "lc at" now] True by metis
    then show ?thesis using True by (auto simp: follow_hops_def hop_rank_def)
  next
    case False
    with Suc.prems(3) obtain e where e: "zr_entry (net at) rid orig = Some e" by blast
    let ?p = "dc_previousHop e"
    obtain z' bs' where z': "sk_routeReply (net at) at from bs (lc at) now = Some (z', SK_REPLY ?p bs')"
        "rrep_is bs' rid orig dst" "zr_wf z'" "zr_has_routes z'" "zr_nextHopFor z' dst = from"
        "\<And>r p. zr_entry z' r p = zr_entry (net at) r p"
      by (rule sk_reply_forward [OF Suc.prems(2) wf False e, of "from" "lc at" now])
        (rule that, assumption+)
    let ?net = "net(at := z')"
    note u = path_net_update [OF Suc.prems(1) z'(3,4,6)]
    have less: "hop_rank rid orig net ?p < hop_rank rid orig net at"
      and pe: "?p = orig \<or> (\<exists>e'. zr_entry (net ?p) rid orig = Some e')"
      using Suc.prems(1) e unfolding path_net_def by blast+
    have pa: "?p \<noteq> at" using less by auto
    have "?p = orig \<or> zr_entry (?net ?p) rid orig \<noteq> None" using pe pa by auto
    moreover have "hop_rank rid orig ?net ?p < fuel" using u(2) less Suc.prems(4) by simp
    ultimately obtain net' k where n: "reply_walk fuel lc now ?net at ?p bs' = Some net'"
        "\<forall>n. hop_rank rid orig net ?p < hop_rank rid orig net n \<longrightarrow> net' n = ?net n"
        "zr_nextHopFor (net' ?p) dst = at" "k \<le> hop_rank rid orig net ?p" "follow_hops net' dst k orig = ?p"
      using Suc.IH [OF u(1) z'(2), of ?p at] unfolding u(2) by blast
    have nat: "net' at = z'" using n(2) less by simp
    have "follow_hops net' dst (Suc k) orig = at" using n(3,5) by (simp add: follow_hops_Suc)
    moreover have "reply_walk (Suc fuel) lc now net from at bs = Some net'" using z'(1) n(1) by simp
    moreover have "\<forall>n. hop_rank rid orig net at < hop_rank rid orig net n \<longrightarrow> net' n = net n"
      using n(2) less by auto
    moreover have "zr_nextHopFor (net' at) dst = from" using nat z'(5) by simp
    moreover have "Suc k \<le> hop_rank rid orig net at" using n(4) less by simp
    ultimately show ?thesis by blast
  qed
qed

text \<open>C1: Route discovery end to end. Once a Route Request flood has reached the destination, the reply that
  the destination sends to its recorded previous hop is relayed back, node by node, until the
  originator installs its route; then following \<open>nextHopFor\<close> from the originator leads to the
  destination in at most 257 hops.\<close>

theorem discovery_end_to_end:
  assumes "flood_reach net orig dst rid S" "quiet_net net orig rid"
    and "zr_entry (fl_node S dst) rid orig = Some e"
    and "nwk_buildRouteReplyPayload (Some 16) rid orig dst 0 None None False = Some bs"
  shows "\<exists>net' k. reply_walk 257 lc now (fl_node S) dst (dc_previousHop e) bs = Some net' \<and>
    k \<le> 257 \<and> follow_hops net' dst k orig = dst"
proof -
  have inv: "flood_inv orig dst rid S" using assms(1,2) by (rule flood_reach_inv)
  have path: "path_net rid orig (fl_node S)"
    unfolding path_net_def using inv flood_prev [OF inv] by (auto simp: flood_inv_def)
  have r: "rrep_is bs rid orig dst" using nwk_rrep_roundtrip [OF assms(4)] by (simp add: rrep_is_def)
  have h: "hop_rank rid orig (fl_node S) n < 257" for n
    using u8_unat_lt by (auto simp: hop_rank_def split: option.split intro: less_trans)
  have "dc_previousHop e = orig \<or> zr_entry (fl_node S (dc_previousHop e)) rid orig \<noteq> None"
    using flood_prev(4) [OF inv assms(3)] by blast
  from reply_walk_installs [OF path r this h, of lc now dst]
  obtain net' k where "reply_walk 257 lc now (fl_node S) dst (dc_previousHop e) bs = Some net'"
      "k \<le> hop_rank rid orig (fl_node S) (dc_previousHop e)"
      "follow_hops net' dst k orig = dc_previousHop e" "zr_nextHopFor (net' (dc_previousHop e)) dst = dst"
    by blast
  with h [of "dc_previousHop e"] show ?thesis
    by (intro exI [of _ net'] exI [of _ "Suc k"]) (simp add: follow_hops_Suc)
qed

text \<open>A network of two nodes in range of each other, after the destination heard the request.\<close>

lemma flood_example:
  obtains S e where "flood_reach (\<lambda>_. zr_example) 1 2 1 S" "quiet_net (\<lambda>_. zr_example) 1 1"
    "zr_entry (fl_node S 2) 1 1 = Some e" "dc_previousHop e = 1" "zr_nextHopFor (fl_node S 2) 1 = 1"
proof -
  have q: "quiet_net (\<lambda>_. zr_example) 1 1" by (simp add: quiet_net_def zr_example_ok)
  obtain z where z: "zr_originateDiscovery zr_example 2 0 = (z, 1)"
    by (simp add: zr_originateDiscovery_def zr_example_def zr_attachRouteTable_def zr_init_def zr_upsert_def)
  obtain bs where b: "nwk_buildRouteRequestPayload (Some 16) 1 2 0 False None False = Some bs"
    by (simp add: nwk_buildRouteRequestPayload_def)
  note m = nwk_rreq_roundtrip [OF b]
  let ?S0 = "\<lparr>fl_node = (\<lambda>_. zr_example)(1 := z), fl_air = [(1, bs)]\<rparr>"
  have s0: "flood_reach (\<lambda>_. zr_example) 1 2 1 ?S0" using z b by (rule flood_reach.start)
  have "sk_routeRequest zr_example 2 True 1 1 30 bs 1 0 \<noteq> None"
    using m by (simp add: sk_routeRequest_def case_prod_beta)
  then obtain z' out where sk: "sk_routeRequest zr_example 2 True 1 1 30 bs 1 0 = Some (z', out)"
    by (metis not_None_eq surj_pair)
  have a: "zr_accepts zr_example 2 1
      \<lparr>rq_valid = True, rq_manyToOne = False, rq_destinationIeeePresent = (None \<noteq> (None :: u64 option)),
       rq_multicast = False, rq_routeRequestId = 1, rq_destination = 2, rq_pathCost = 0,
       rq_destinationIeee = case None of None \<Rightarrow> 0 | Some a \<Rightarrow> a\<rparr> 1"
    by (simp add: zr_accepts_def zr_example_ok)
  obtain e where e: "zr_entry z' 1 1 = Some e" "dc_previousHop e = 1" "zr_nextHopFor z' 1 = 1"
    by (rule sk_routeRequest_accept [OF m zr_example_ok(1) a sk]) (use that zr_example_ok(2) in auto)
  show thesis
  proof (rule that)
    show "flood_reach (\<lambda>_. zr_example) 1 2 1
        \<lparr>fl_node = (fl_node ?S0)(2 := z'), fl_air = fl_send 2 out (fl_air ?S0)\<rparr>"
      by (rule flood_reach.deliver [OF s0, of 1 bs 1 2 True 30 0]) (use sk m in \<open>simp_all add: rreq_of_def\<close>)
  qed (use q e in simp_all)
qed

lemma reverse_paths_loop_free_witness:
  "\<exists>S k. flood_reach (\<lambda>_. zr_example) 1 2 1 S \<and> k \<le> 256 \<and> follow_hops (fl_node S) 1 k 2 = 1"
proof -
  obtain S e where S: "flood_reach (\<lambda>_. zr_example) 1 2 1 S" "quiet_net (\<lambda>_. zr_example) 1 1"
    "zr_entry (fl_node S 2) 1 1 = Some e" by (rule flood_example)
  from reverse_paths_loop_free [OF this] S(1) show ?thesis by blast
qed

lemma discovery_end_to_end_witness:
  "\<exists>S bs net' k. flood_reach (\<lambda>_. zr_example) 1 2 1 S \<and>
     reply_walk 257 (\<lambda>_. 1) 0 (fl_node S) 2 1 bs = Some net' \<and> k \<le> 257 \<and> follow_hops net' 2 k 1 = 2"
proof -
  obtain S e where S: "flood_reach (\<lambda>_. zr_example) 1 2 1 S" "quiet_net (\<lambda>_. zr_example) 1 1"
    "zr_entry (fl_node S 2) 1 1 = Some e" "dc_previousHop e = 1" by (rule flood_example)
  obtain bs where b: "nwk_buildRouteReplyPayload (Some 16) 1 1 2 0 None None False = Some bs"
    by (simp add: nwk_buildRouteReplyPayload_def Let_def)
  from discovery_end_to_end [OF S(1-3) b, of "\<lambda>_. 1" 0] S(1,4) show ?thesis by metis
qed

text \<open>
  The accumulated cost is eight bits wide (\<open>(uint8_t)(rreq.pathCost + linkCost)\<close>): a copy whose
  cost wraps looks cheaper than every real path, and replaces the better copy.
\<close>

lemma rreq_cost_wraps:
  assumes "zr_wf z" "zr_entry z rid o' = Some e" "o' \<noteq> self" "1 \<le> dc_forwardCost e"
    and "rq_valid q" "rq_routeRequestId q = rid" "rq_pathCost q = 255"
  shows "zr_accepts z self o' q 1"
  using assms by (simp add: zr_accepts_def word_less_nat_alt word_le_nat_alt unat_word_ariths)

end
