(* ===== verification/ZbBroadcast.thy ===== *)
theory ZbBroadcast
  imports ZbSlots
begin

text \<open>
  \<open>ZigbeeBroadcastTable.h\<close>: the broadcast transaction table. Entries are keyed by source and
  sequence number; a repeat counts as a passive acknowledgement, and \<open>due\<close>/\<open>markRebroadcast\<close>
  drive the retries of a router's own copies. With storage of capacity 0 \<open>allocate\<close> would take
  the address of \<open>entries_[0]\<close>: operations that reach it return \<open>None\<close>.
\<close>

section \<open>The table\<close>

definition bt_kDefaultExpiryMs :: u32 where "bt_kDefaultExpiryMs = 9000"

record bcast =
  bc_used :: bool
  bc_source :: u16
  bc_sequence :: u8
  bc_firstSeenMs :: u32
  bc_lastTxMs :: u32
  bc_retries :: u8
  bc_passiveAcks :: u8

definition bcast0 :: bcast where
  "bcast0 = \<lparr>bc_used = False, bc_source = 0, bc_sequence = 0, bc_firstSeenMs = 0, bc_lastTxMs = 0,
     bc_retries = 0, bc_passiveAcks = 0\<rparr>"

definition bc_key :: "bcast \<Rightarrow> u16 \<times> u8" where
  "bc_key e = (bc_source e, bc_sequence e)"

type_synonym bcast_table = "bcast list option"

definition bt_begin :: "bcast_table \<Rightarrow> bcast_table" where
  "bt_begin storage = map_option (map (\<lambda>_. bcast0)) storage"

definition bt_find :: "bcast_table \<Rightarrow> u16 \<Rightarrow> u8 \<Rightarrow> nat option" where
  "bt_find t source sequence =
     (case t of None \<Rightarrow> None
      | Some es \<Rightarrow> find_idx (\<lambda>e. bc_used e \<and> bc_source e = source \<and> bc_sequence e = sequence) es)"

text \<open>\<open>allocate\<close>: the outer option is the access to \<open>entries_[0]\<close> of an empty array, the inner one
  the null result; the recycled slot is reset before it is returned.\<close>

definition bt_allocate :: "bcast_table \<Rightarrow> u32 \<Rightarrow> (bcast_table \<times> nat option) option" where
  "bt_allocate t now =
     (case t of None \<Rightarrow> Some (None, None)
      | Some es \<Rightarrow>
          (case find_idx (\<lambda>e. \<not> bc_used e) es of
             Some i \<Rightarrow> Some (Some es, Some i)
           | None \<Rightarrow>
               (case best_idx (\<lambda>_. True) (\<lambda>e oldest. now - bc_firstSeenMs e > now - bc_firstSeenMs oldest) es of
                  None \<Rightarrow> None
                | Some i \<Rightarrow> Some (Some (es[i := bcast0]), Some i))))"

definition bt_ack :: "bcast \<Rightarrow> bcast" where
  "bt_ack e = (if bc_passiveAcks e < 0xFF then e\<lparr>bc_passiveAcks := bc_passiveAcks e + 1\<rparr> else e)"

definition bt_recordIncoming :: "bcast_table \<Rightarrow> u16 \<Rightarrow> u8 \<Rightarrow> u32 \<Rightarrow> (bcast_table \<times> bool) option" where
  "bt_recordIncoming t source sequence now =
     (case bt_find t source sequence of
        Some i \<Rightarrow> Some (map_option (\<lambda>es. es[i := bt_ack (es ! i)]) t, False)
      | None \<Rightarrow>
          (case bt_allocate t now of
             None \<Rightarrow> None
           | Some (t, None) \<Rightarrow> Some (t, True)
           | Some (t, Some i) \<Rightarrow>
               Some (map_option (\<lambda>es. es[i := (es ! i)\<lparr>bc_used := True, bc_source := source,
                   bc_sequence := sequence, bc_firstSeenMs := now, bc_lastTxMs := now,
                   bc_retries := 0, bc_passiveAcks := 0\<rparr>]) t, True)))"

definition bt_recordOutgoing ::
  "bcast_table \<Rightarrow> u16 \<Rightarrow> u8 \<Rightarrow> u32 \<Rightarrow> (bcast_table \<times> nat option) option"
where
  "bt_recordOutgoing t source sequence now =
     (case bt_find t source sequence of
        Some i \<Rightarrow> Some (map_option (\<lambda>es. es[i := (es ! i)\<lparr>bc_lastTxMs := now\<rparr>]) t, Some i)
      | None \<Rightarrow>
          (case bt_allocate t now of
             None \<Rightarrow> None
           | Some (t, None) \<Rightarrow> Some (t, None)
           | Some (t, Some i) \<Rightarrow>
               Some (map_option (\<lambda>es. es[i := (es ! i)\<lparr>bc_used := True, bc_source := source,
                   bc_sequence := sequence, bc_firstSeenMs := now, bc_retries := 0,
                   bc_passiveAcks := 0, bc_lastTxMs := now\<rparr>]) t, Some i)))"

definition bt_markPassiveAck :: "bcast_table \<Rightarrow> u16 \<Rightarrow> u8 \<Rightarrow> bcast_table \<times> bool" where
  "bt_markPassiveAck t source sequence =
     (case bt_find t source sequence of
        None \<Rightarrow> (t, False)
      | Some i \<Rightarrow> (map_option (\<lambda>es. es[i := bt_ack (es ! i)]) t, True))"

definition bt_isDue :: "u32 \<Rightarrow> u8 \<Rightarrow> u32 \<Rightarrow> u8 \<Rightarrow> bcast \<Rightarrow> bool" where
  "bt_isDue now neededAcks retryMs maxRetries e \<longleftrightarrow>
     bc_used e \<and> \<not> maxRetries \<le> bc_retries e \<and> \<not> neededAcks \<le> bc_passiveAcks e \<and>
     retryMs \<le> now - bc_lastTxMs e"

definition bt_due :: "bcast_table \<Rightarrow> u32 \<Rightarrow> u8 \<Rightarrow> u32 \<Rightarrow> u8 \<Rightarrow> nat option" where
  "bt_due t now neededAcks retryMs maxRetries =
     (case t of None \<Rightarrow> None | Some es \<Rightarrow> find_idx (bt_isDue now neededAcks retryMs maxRetries) es)"

definition bt_sent :: "u32 \<Rightarrow> bcast \<Rightarrow> bcast" where
  "bt_sent now e =
     (let e = (if bc_retries e < 0xFF then e\<lparr>bc_retries := bc_retries e + 1\<rparr> else e)
      in e\<lparr>bc_lastTxMs := now\<rparr>)"

definition bt_markRebroadcast :: "bcast_table \<Rightarrow> nat option \<Rightarrow> u32 \<Rightarrow> bcast_table" where
  "bt_markRebroadcast t e now =
     (case e of None \<Rightarrow> t | Some i \<Rightarrow> map_option (\<lambda>es. es[i := bt_sent now (es ! i)]) t)"

definition bt_stale :: "u32 \<Rightarrow> u32 \<Rightarrow> bcast \<Rightarrow> bool" where
  "bt_stale now expiryMs e \<longleftrightarrow> bc_used e \<and> expiryMs \<le> now - bc_firstSeenMs e"

definition bt_expire :: "bcast_table \<Rightarrow> u32 \<Rightarrow> u32 \<Rightarrow> bcast_table \<times> nat" where
  "bt_expire t now expiryMs =
     (map_option (sweep (bt_stale now expiryMs) bcast0) t,
      case t of None \<Rightarrow> 0 | Some es \<Rightarrow> length (filter (bt_stale now expiryMs) es))"

definition bt_activeCount :: "bcast_table \<Rightarrow> nat" where
  "bt_activeCount t = (case t of None \<Rightarrow> 0 | Some es \<Rightarrow> used_count bc_used es)"

section \<open>Facts\<close>

interpretation bcs: slot_table bc_used bc_key bcast0
  by unfold_locales (simp add: bcast0_def)

definition bt_at :: "bcast list \<Rightarrow> u16 \<times> u8 \<Rightarrow> bcast option" where
  "bt_at = slot_get bc_used bc_key"

lemma bt_find_slot: "bt_find (Some es) s q = slot_find bc_used bc_key es (s, q)"
  by (simp add: bt_find_def slot_find_def bc_key_def)

lemma bt_ack_sel [simp]:
  "bc_used (bt_ack e) = bc_used e" "bc_key (bt_ack e) = bc_key e" "bc_retries (bt_ack e) = bc_retries e"
  by (simp_all add: bt_ack_def bc_key_def)

lemma unat_ack: "unat (bc_passiveAcks (bt_ack e)) = min 255 (unat (bc_passiveAcks e) + 1)"
proof (cases "unat (bc_passiveAcks e) < 255")
  case True
  then show ?thesis by (simp add: bt_ack_def word_less_nat_alt unat_word_ariths)
next
  case False
  with u8_unat_lt [of "bc_passiveAcks e"] have "unat (bc_passiveAcks e) = 255" by linarith
  then show ?thesis by (simp add: bt_ack_def word_less_nat_alt)
qed

definition bt_new :: "u16 \<times> u8 \<Rightarrow> u32 \<Rightarrow> bcast" where
  "bt_new k now = \<lparr>bc_used = True, bc_source = fst k, bc_sequence = snd k, bc_firstSeenMs = now,
     bc_lastTxMs = now, bc_retries = 0, bc_passiveAcks = 0\<rparr>"

lemma bt_new_sel [simp]: "bc_used (bt_new k now)" "bc_key (bt_new k now) = k" "bc_passiveAcks (bt_new k now) = 0"
  by (simp_all add: bt_new_def bc_key_def)

lemma bt_recordIncoming_hit:
  assumes "slot_uniq bc_used bc_key es" "bt_at es (s, q) = Some e"
  obtains es' where "bt_recordIncoming (Some es) s q now = Some (Some es', False)" "length es' = length es"
    "slot_uniq bc_used bc_key es'" "bt_at es' = (bt_at es)((s, q) := Some (bt_ack e))"
    "used_count bc_used es' = used_count bc_used es"
proof -
  from assms(2) obtain i where i: "slot_find bc_used bc_key es (s, q) = Some i" "es ! i = e"
    by (auto simp: bt_at_def slot_get_def)
  note b = slot_find_bound [OF i(1)]
  note sat = slot_find_sat [OF i(1)]
  have e: "bc_used (bt_ack (es ! i))" "bc_key (bt_ack (es ! i)) = (s, q)" using sat by simp_all
  note p = bcs.get_put_same_key [OF assms(1) i(1) e]
  show thesis
    by (rule that [of "es[i := bt_ack (es ! i)]"])
      (use p i b sat used_count_update [OF b, of bc_used "bt_ack (es ! i)"] in
        \<open>simp_all add: bt_recordIncoming_def bt_find_slot bt_at_def\<close>)
qed

lemma bt_recordIncoming_room:
  assumes "slot_uniq bc_used bc_key es" "bt_at es (s, q) = None" "used_count bc_used es < length es"
  obtains es' where "bt_recordIncoming (Some es) s q now = Some (Some es', True)" "length es' = length es"
    "slot_uniq bc_used bc_key es'" "bt_at es' = (bt_at es)((s, q) := Some (bt_new (s, q) now))"
    "used_count bc_used es' = Suc (used_count bc_used es)"
proof -
  have "filter bc_used es \<noteq> es" using assms(3) by (auto simp: used_count_def)
  then have "\<not> (\<forall>e\<in>set es. bc_used e)" by (metis filter_True)
  then obtain i where i: "find_idx (\<lambda>e. \<not> bc_used e) es = Some i"
    by (cases "find_idx (\<lambda>e. \<not> bc_used e) es") (auto simp: find_idx_None)
  note b = find_idx_bound [OF i]
  from find_idx_sat [OF i] have nu: "\<not> bc_used (es ! i)" by simp
  from assms(2) have f: "slot_find bc_used bc_key es (s, q) = None" by (simp add: bt_at_def slot_get_None)
  let ?e = "bt_new (s, q) now"
  have ov: "(es ! i)\<lparr>bc_used := True, bc_source := s, bc_sequence := q, bc_firstSeenMs := now,
      bc_lastTxMs := now, bc_retries := 0, bc_passiveAcks := 0\<rparr> = ?e"
    by (cases "es ! i") (simp add: bt_new_def)
  have f': "slot_find bc_used bc_key es (bc_key ?e) = None" using f by simp
  note p = bcs.get_put_new_key [OF assms(1) f' b bt_new_sel(1)]
  have "bt_at (es[i := ?e]) = (bt_at es)((s, q) := Some ?e)"
    using p(2) nu by (auto simp: bt_at_def)
  then show thesis
    by (intro that [of "es[i := ?e]"])
      (use p(1) b f i nu ov used_count_update [OF b, of bc_used ?e] in
        \<open>simp_all add: bt_recordIncoming_def bt_find_slot bt_allocate_def\<close>)
qed

section \<open>A sequence of arrivals\<close>

fun bt_run :: "bcast_table \<Rightarrow> ((u16 \<times> u8) \<times> u32) list \<Rightarrow> (bcast_table \<times> bool list) option" where
  "bt_run t [] = Some (t, [])"
| "bt_run t ((k, now) # as) =
     (case bt_recordIncoming t (fst k) (snd k) now of
        None \<Rightarrow> None
      | Some (t, b) \<Rightarrow> map_option (\<lambda>(t, bs). (t, b # bs)) (bt_run t as))"

lemma bt_run_exact:
  assumes "slot_uniq bc_used bc_key es"
    and "used_count bc_used es = card (dom (bt_at es))" "finite (dom (bt_at es))"
    and "card (dom (bt_at es) \<union> fst ` set as) \<le> length es"
  shows "\<exists>es' bs. bt_run (Some es) as = Some (Some es', bs) \<and> length bs = length as \<and>
    (\<forall>i<length as. bs ! i \<longleftrightarrow> fst (as ! i) \<notin> dom (bt_at es) \<union> fst ` set (take i as)) \<and>
    (\<forall>k. map_option (\<lambda>e. unat (bc_passiveAcks e)) (bt_at es' k) =
      (case bt_at es k of
         Some e \<Rightarrow> Some (min 255 (unat (bc_passiveAcks e) + length (filter (\<lambda>a. fst a = k) as)))
       | None \<Rightarrow> if k \<in> fst ` set as then Some (min 255 (length (filter (\<lambda>a. fst a = k) as) - 1)) else None))"
  using assms
proof (induction as arbitrary: es)
  case Nil
  have "unat (bc_passiveAcks e) = min 255 (unat (bc_passiveAcks e))" for e
    using u8_unat_lt [of "bc_passiveAcks e"] by linarith
  then show ?case by (auto split: option.split)
next
  case (Cons a as)
  obtain s q now where a: "a = ((s, q), now)" by (metis surj_pair)
  let ?k = "(s, q)"
  have "\<exists>es1 b. bt_recordIncoming (Some es) s q now = Some (Some es1, b) \<and> length es1 = length es \<and>
      slot_uniq bc_used bc_key es1 \<and> b = (?k \<notin> dom (bt_at es)) \<and>
      bt_at es1 = (bt_at es)(?k := Some (case bt_at es ?k of None \<Rightarrow> bt_new ?k now | Some e \<Rightarrow> bt_ack e)) \<and>
      used_count bc_used es1 = card (insert ?k (dom (bt_at es)))"
  proof (cases "bt_at es ?k")
    case None
    then have nd: "?k \<notin> dom (bt_at es)" by auto
    have "card (insert ?k (dom (bt_at es))) \<le> card (dom (bt_at es) \<union> fst ` set (a # as))"
      using Cons.prems(3) by (intro card_mono) (auto simp: a)
    with Cons.prems nd have r: "used_count bc_used es < length es" by simp
    show ?thesis
      by (rule bt_recordIncoming_room [OF Cons.prems(1) None r, of now])
        (use nd None Cons.prems(2,3) in auto)
  next
    case (Some e)
    then have "?k \<in> dom (bt_at es)" by auto
    then show ?thesis
      by - (rule bt_recordIncoming_hit [OF Cons.prems(1) Some, of now],
        use Some Cons.prems(2) in \<open>auto simp: insert_absorb\<close>)
  qed
  then obtain es1 b where 1: "bt_recordIncoming (Some es) s q now = Some (Some es1, b)"
      "length es1 = length es" "slot_uniq bc_used bc_key es1" "b = (?k \<notin> dom (bt_at es))"
      "bt_at es1 = (bt_at es)(?k := Some (case bt_at es ?k of None \<Rightarrow> bt_new ?k now | Some e \<Rightarrow> bt_ack e))"
      "used_count bc_used es1 = card (insert ?k (dom (bt_at es)))" by blast
  have dom1: "dom (bt_at es1) = insert ?k (dom (bt_at es))" using 1(5) by auto
  have "\<exists>es' bs. bt_run (Some es1) as = Some (Some es', bs) \<and> length bs = length as \<and>
    (\<forall>i<length as. bs ! i \<longleftrightarrow> fst (as ! i) \<notin> dom (bt_at es1) \<union> fst ` set (take i as)) \<and>
    (\<forall>k. map_option (\<lambda>e. unat (bc_passiveAcks e)) (bt_at es' k) =
      (case bt_at es1 k of
         Some e \<Rightarrow> Some (min 255 (unat (bc_passiveAcks e) + length (filter (\<lambda>a. fst a = k) as)))
       | None \<Rightarrow> if k \<in> fst ` set as then Some (min 255 (length (filter (\<lambda>a. fst a = k) as) - 1)) else None))"
  proof (rule Cons.IH [OF 1(3)])
    show "used_count bc_used es1 = card (dom (bt_at es1))" using 1(6) dom1 by simp
    show "finite (dom (bt_at es1))" using dom1 Cons.prems(3) by simp
    show "card (dom (bt_at es1) \<union> fst ` set as) \<le> length es1"
      using Cons.prems(4) dom1 1(2) by (simp add: a insert_commute)
  qed
  then obtain es' bs where 2: "bt_run (Some es1) as = Some (Some es', bs)" "length bs = length as"
    "\<And>i. i < length as \<Longrightarrow> bs ! i \<longleftrightarrow> fst (as ! i) \<notin> dom (bt_at es1) \<union> fst ` set (take i as)"
    "\<And>k. map_option (\<lambda>e. unat (bc_passiveAcks e)) (bt_at es' k) =
      (case bt_at es1 k of
         Some e \<Rightarrow> Some (min 255 (unat (bc_passiveAcks e) + length (filter (\<lambda>a. fst a = k) as)))
       | None \<Rightarrow> if k \<in> fst ` set as then Some (min 255 (length (filter (\<lambda>a. fst a = k) as) - 1)) else None)"
    by blast
  have run: "bt_run (Some es) (a # as) = Some (Some es', b # bs)" using 1(1) 2(1) by (simp add: a)
  have idx: "(b # bs) ! i \<longleftrightarrow> fst ((a # as) ! i) \<notin> dom (bt_at es) \<union> fst ` set (take i (a # as))"
    if "i < length (a # as)" for i
    using that 1(4) 2(3) dom1 by (cases i) (auto simp: a)
  have acks: "map_option (\<lambda>e. unat (bc_passiveAcks e)) (bt_at es' k) =
      (case bt_at es k of
         Some e \<Rightarrow> Some (min 255 (unat (bc_passiveAcks e) + length (filter (\<lambda>x. fst x = k) (a # as))))
       | None \<Rightarrow> if k \<in> fst ` set (a # as)
           then Some (min 255 (length (filter (\<lambda>x. fst x = k) (a # as)) - 1)) else None)" for k
  proof (cases "k = ?k")
    case True
    then show ?thesis using 2(4) [of ?k] 1(5) by (cases "bt_at es ?k") (auto simp: a unat_ack)
  next
    case False
    then show ?thesis using 2(4) [of k] 1(5) by (auto simp: a split: option.splits)
  qed
  show ?case using run idx acks 2(2) by (intro exI [of _ es'] exI [of _ "b # bs"]) simp
qed

text \<open>C26: Exactly-once processing of broadcasts. Whatever frames arrive, with repeats and interleaving, as long
  as no more transactions than the table has slots are heard, \<open>recordIncoming\<close> reports new for
  exactly the first copy of each transaction, and counts every further copy as a passive
  acknowledgement (up to 255).\<close>

theorem broadcast_exactly_once:
  assumes "card (fst ` set as) \<le> length storage"
  shows "\<exists>es bs. bt_run (bt_begin (Some storage)) as = Some (Some es, bs) \<and> length bs = length as \<and>
    (\<forall>i<length as. bs ! i \<longleftrightarrow> fst (as ! i) \<notin> fst ` set (take i as)) \<and>
    (\<forall>k\<in>fst ` set as. \<exists>e. bt_at es k = Some e \<and>
       unat (bc_passiveAcks e) = min 255 (length (filter (\<lambda>a. fst a = k) as) - 1))"
proof -
  let ?es = "map (\<lambda>_. bcast0) storage"
  have r: "?es = replicate (length storage) bcast0" by (simp add: map_replicate_const)
  have e: "bt_at ?es = Map.empty" "slot_uniq bc_used bc_key ?es" "used_count bc_used ?es = 0"
    unfolding r bt_at_def by simp_all
  have "used_count bc_used ?es = card (dom (bt_at ?es))" "finite (dom (bt_at ?es))"
    "card (dom (bt_at ?es) \<union> fst ` set as) \<le> length ?es"
    using assms e by simp_all
  from bt_run_exact [OF e(2) this] obtain es bs where
    b: "bt_run (Some ?es) as = Some (Some es, bs)" "length bs = length as"
      "\<forall>i<length as. bs ! i \<longleftrightarrow> fst (as ! i) \<notin> fst ` set (take i as)"
    and k: "\<And>k. map_option (\<lambda>e. unat (bc_passiveAcks e)) (bt_at es k) =
        (if k \<in> fst ` set as then Some (min 255 (length (filter (\<lambda>a. fst a = k) as) - 1)) else None)"
    using e(1) by auto
  have "\<exists>e. bt_at es k = Some e \<and> unat (bc_passiveAcks e) = min 255 (length (filter (\<lambda>a. fst a = k) as) - 1)"
    if "k \<in> fst ` set as" for k
    using k [of k] that by (cases "bt_at es k") simp_all
  with b show ?thesis by (auto simp: bt_begin_def)
qed

lemma broadcast_exactly_once_witness:
  "\<exists>es. bt_run (bt_begin (Some [bcast0, bcast0])) [((1, 7), 0), ((1, 8), 5), ((1, 7), 9), ((1, 7), 12)] =
     Some (Some es, [True, True, False, False])"
proof -
  let ?as = "[((1, 7), 0), ((1, 8), 5), ((1, 7), 9), ((1, 7), 12)] :: ((u16 \<times> u8) \<times> u32) list"
  have "fst ` set ?as = {(1, 7), (1, 8)}" by auto
  then have "card (fst ` set ?as) \<le> length [bcast0, bcast0]" by simp
  from broadcast_exactly_once [OF this] obtain es bs where
    b: "bt_run (bt_begin (Some [bcast0, bcast0])) ?as = Some (Some es, bs)" "length bs = length ?as"
      "\<forall>i<length ?as. bs ! i \<longleftrightarrow> fst (?as ! i) \<notin> fst ` set (take i ?as)" by blast
  from b(2) obtain b0 b1 b2 b3 where bs: "bs = [b0, b1, b2, b3]"
    by (auto simp: length_Suc_conv)
  from b(3) have "bs ! 0" "bs ! 1" "\<not> bs ! 2" "\<not> bs ! 3"
    by (simp_all add: numeral_2_eq_2 numeral_3_eq_3)
  with b(1) bs show ?thesis by simp
qed

section \<open>Retries\<close>

text \<open>The caller's loop at one instant: rebroadcast what is due until nothing is.\<close>

fun bt_pump :: "nat \<Rightarrow> bcast_table \<Rightarrow> u32 \<Rightarrow> u8 \<Rightarrow> u32 \<Rightarrow> u8 \<Rightarrow> (bcast_table \<times> nat list) option" where
  "bt_pump 0 t now acks retryMs maxR = None"
| "bt_pump (Suc n) t now acks retryMs maxR =
     (case bt_due t now acks retryMs maxR of
        None \<Rightarrow> Some (t, [])
      | Some i \<Rightarrow> map_option (\<lambda>(t, is). (t, i # is))
          (bt_pump n (bt_markRebroadcast t (Some i) now) now acks retryMs maxR))"

lemma bt_sent_not_due: "1 \<le> retryMs \<Longrightarrow> \<not> bt_isDue now acks retryMs maxR (bt_sent now e)"
  by (simp add: bt_isDue_def bt_sent_def Let_def word_le_nat_alt)

lemma bt_pump_spec:
  assumes "1 \<le> retryMs" "length (filter (bt_isDue now acks retryMs maxR) es) < n"
  shows "\<exists>is. bt_pump n (Some es) now acks retryMs maxR =
    Some (Some (map (\<lambda>e. if bt_isDue now acks retryMs maxR e then bt_sent now e else e) es), is) \<and>
    length is = length (filter (bt_isDue now acks retryMs maxR) es)"
  using assms(2)
proof (induction n arbitrary: es)
  case 0
  then show ?case by simp
next
  case (Suc n)
  let ?P = "bt_isDue now acks retryMs maxR"
  let ?f = "\<lambda>e. if ?P e then bt_sent now e else e"
  show ?case
  proof (cases "find_idx ?P es")
    case None
    then have n: "\<forall>e\<in>set es. \<not> ?P e" by (simp add: find_idx_None)
    then have "map ?f es = es" by (intro map_idI) auto
    with None n show ?thesis by (auto simp: bt_due_def filter_empty_conv)
  next
    case (Some i)
    have i: "i < length es" "?P (es ! i)" using find_idx_bound [OF Some] find_idx_sat [OF Some] by auto
    let ?es = "es[i := bt_sent now (es ! i)]"
    have nd: "\<not> ?P (bt_sent now (es ! i))" using assms(1) by (rule bt_sent_not_due)
    have c: "Suc (length (filter ?P ?es)) = length (filter ?P es)"
      using used_count_update [OF i(1), of ?P "bt_sent now (es ! i)"] i(2) nd by (simp add: used_count_def)
    have m: "map ?f ?es = map ?f es"
      by (intro nth_equalityI) (use i nd in \<open>auto simp: nth_list_update\<close>)
    from c Suc.prems have "length (filter ?P ?es) < n" by simp
    from Suc.IH [OF this] Some c m show ?thesis
      by (auto simp: bt_due_def bt_markRebroadcast_def)
  qed
qed

text \<open>Draining the retries terminates. With a retry window of at least a millisecond, rebroadcasting what
  \<open>due\<close> returns until it returns null ends after at most \<open>capacity\<close> rebroadcasts; every entry
  that was due has been sent once and had its retry counted, no other entry has changed, and no
  entry reaches more than \<open>maxRetries\<close> retries.\<close>

theorem broadcast_retries_drain:
  assumes "1 \<le> retryMs" "length es < n"
  shows "\<exists>es' is. bt_pump n (Some es) now acks retryMs maxR = Some (Some es', is) \<and>
    length is \<le> length es \<and> length es' = length es \<and> bt_due (Some es') now acks retryMs maxR = None \<and>
    (\<forall>i<length es. es' ! i =
       (if bt_isDue now acks retryMs maxR (es ! i)
        then (es ! i)\<lparr>bc_retries := bc_retries (es ! i) + 1, bc_lastTxMs := now\<rparr> else es ! i)) \<and>
    (\<forall>i<length es. bc_retries (es ! i) \<le> maxR \<longrightarrow> bc_retries (es' ! i) \<le> maxR)"
proof -
  let ?P = "bt_isDue now acks retryMs maxR"
  let ?es' = "map (\<lambda>e. if ?P e then bt_sent now e else e) es"
  have "length (filter ?P es) < n" using assms(2) length_filter_le [of ?P es] by linarith
  from bt_pump_spec [OF assms(1) this] obtain "is" where
    p: "bt_pump n (Some es) now acks retryMs maxR = Some (Some ?es', is)" "length is = length (filter ?P es)"
    by blast
  have s: "bt_sent now e = e\<lparr>bc_retries := bc_retries e + 1, bc_lastTxMs := now\<rparr> \<and> bc_retries e + 1 \<le> maxR"
    if "?P e" for e
  proof -
    have l: "bc_retries e < maxR" using that by (simp add: bt_isDue_def not_le)
    also have "maxR \<le> 255" by (simp add: word_le_nat_alt)
    finally have "bc_retries e < 255" .
    moreover have "bc_retries e + 1 \<le> maxR" using l by (rule inc_le)
    ultimately show ?thesis by (simp add: bt_sent_def)
  qed
  have "bt_due (Some ?es') now acks retryMs maxR = None"
    by (auto simp: bt_due_def find_idx_None bt_sent_not_due [OF assms(1)])
  moreover have "\<forall>i<length es. ?es' ! i =
       (if ?P (es ! i) then (es ! i)\<lparr>bc_retries := bc_retries (es ! i) + 1, bc_lastTxMs := now\<rparr> else es ! i)"
    using s by simp
  moreover have "\<forall>i<length es. bc_retries (es ! i) \<le> maxR \<longrightarrow> bc_retries (?es' ! i) \<le> maxR"
    using s by simp
  ultimately show ?thesis using p by (intro exI [of _ ?es'] exI [of _ "is"]) simp
qed

lemma broadcast_retries_drain_witness:
  "\<exists>es' is. bt_pump 3 (Some [bt_new (1, 7) 0, bt_new (1, 8) 90]) 100 1 50 3 = Some (Some es', is) \<and>
     bc_retries (es' ! 0) = 1 \<and> bc_retries (es' ! 1) = 0"
proof -
  let ?es = "[bt_new (1, 7) 0, bt_new (1, 8) 90]"
  have "(1 :: u32) \<le> 50" "length ?es < 3" by simp_all
  from broadcast_retries_drain [OF this, of 100 1 3] obtain es' "is" where
    p: "bt_pump 3 (Some ?es) 100 1 50 3 = Some (Some es', is)"
    and e: "\<forall>i<length ?es. es' ! i =
       (if bt_isDue 100 1 50 3 (?es ! i)
        then (?es ! i)\<lparr>bc_retries := bc_retries (?es ! i) + 1, bc_lastTxMs := 100\<rparr> else ?es ! i)" by blast
  from e have "bc_retries (es' ! 0) = 1" "bc_retries (es' ! 1) = 0"
    by (simp_all add: bt_isDue_def bt_new_def)
  with p show ?thesis by blast
qed

end
