(* ===== verification/ZbAps.thy ===== *)
theory ZbAps
  imports ZbPrelude
begin

text \<open>
  \<open>ZigbeeAps.h\<close>, \<open>ZigbeeAps.cpp\<close> and the fragment codec of \<open>ZigbeeApsFragment.h\<close>: APS data,
  group data and acknowledgement frames, and the fragments of a long ASDU. Builders return the
  bytes they wrote (\<open>None\<close> where the code returns 0); parsers return the flag and the frame, and
  \<open>None\<close> where a read would leave the APDU. The frame's payload pointer is the rest of the APDU.
\<close>

section \<open>Frames\<close>

abbreviation (input) "APS_FRAME_DATA \<equiv> (0 :: u8)"
abbreviation (input) "APS_FRAME_COMMAND \<equiv> (1 :: u8)"
abbreviation (input) "APS_FRAME_ACK \<equiv> (2 :: u8)"
abbreviation (input) "APS_DELIVERY_UNICAST \<equiv> (0 :: u8)"
abbreviation (input) "APS_DELIVERY_INDIRECT \<equiv> (1 :: u8)"
abbreviation (input) "APS_DELIVERY_BROADCAST \<equiv> (2 :: u8)"
abbreviation (input) "APS_DELIVERY_GROUP \<equiv> (3 :: u8)"

record aps_data_frame =
  ap_valid :: bool
  ap_frameType :: u8
  ap_deliveryMode :: u8
  ap_ackRequest :: bool
  ap_security :: bool
  ap_extendedHeader :: bool
  ap_firstBlock :: bool
  ap_blockNumber :: u8
  ap_dstEndpoint :: u8
  ap_groupAddress :: u16
  ap_clusterId :: u16
  ap_profileId :: u16
  ap_srcEndpoint :: u8
  ap_counter :: u8
  ap_payload :: ptr
  ap_payloadLen :: nat

definition aps_data_frame0 :: aps_data_frame where
  "aps_data_frame0 = \<lparr>ap_valid = False, ap_frameType = 0, ap_deliveryMode = 0, ap_ackRequest = False,
     ap_security = False, ap_extendedHeader = False, ap_firstBlock = False, ap_blockNumber = 0,
     ap_dstEndpoint = 0, ap_groupAddress = 0, ap_clusterId = 0, ap_profileId = 0,
     ap_srcEndpoint = 0, ap_counter = 0, ap_payload = None, ap_payloadLen = 0\<rparr>"

record aps_ack_frame =
  ak_valid :: bool
  ak_dstEndpoint :: u8
  ak_clusterId :: u16
  ak_profileId :: u16
  ak_srcEndpoint :: u8
  ak_counter :: u8

definition aps_ack_frame0 :: aps_ack_frame where
  "aps_ack_frame0 = \<lparr>ak_valid = False, ak_dstEndpoint = 0, ak_clusterId = 0, ak_profileId = 0,
     ak_srcEndpoint = 0, ak_counter = 0\<rparr>"

definition aps_kBaseHeaderLen :: nat where "aps_kBaseHeaderLen = 8"
definition aps_kGroupHeaderLen :: nat where "aps_kGroupHeaderLen = 9"
definition aps_kMaxFrame :: nat where "aps_kMaxFrame = 108"
definition aps_kMaxPayload :: nat where "aps_kMaxPayload = 108 - 8"

lemmas aps_consts [simp] = aps_kBaseHeaderLen_def aps_kGroupHeaderLen_def aps_kMaxFrame_def
  aps_kMaxPayload_def

definition aps_fcf :: "u8 \<Rightarrow> u8 \<Rightarrow> bool \<Rightarrow> u8" where
  "aps_fcf frameType deliveryMode ackRequest =
     frameType OR push_bit 2 deliveryMode OR (if ackRequest then push_bit 6 1 else 0)"

definition aps_buildDataFrame ::
  "out_buf \<Rightarrow> u8 \<Rightarrow> u16 \<Rightarrow> u16 \<Rightarrow> u8 \<Rightarrow> u8 \<Rightarrow> ptr \<Rightarrow> nat \<Rightarrow> bool \<Rightarrow> u8 list option"
where
  "aps_buildDataFrame out dstEndpoint clusterId profileId srcEndpoint counter payload payloadLen
       ackRequest =
     (case out of None \<Rightarrow> None | Some outMax \<Rightarrow>
        if payloadLen > aps_kMaxPayload then None
        else if outMax < aps_kBaseHeaderLen + payloadLen then None
        else if payloadLen > 0 \<and> payload = None then None
        else Some ([aps_fcf APS_FRAME_DATA APS_DELIVERY_UNICAST ackRequest, dstEndpoint] @
          le16 clusterId @ le16 profileId @ [srcEndpoint, counter] @ copied payload payloadLen))"

definition aps_buildGroupDataFrame ::
  "out_buf \<Rightarrow> u16 \<Rightarrow> u16 \<Rightarrow> u16 \<Rightarrow> u8 \<Rightarrow> u8 \<Rightarrow> ptr \<Rightarrow> nat \<Rightarrow> bool \<Rightarrow> u8 list option"
where
  "aps_buildGroupDataFrame out groupAddress clusterId profileId srcEndpoint counter payload
       payloadLen ackRequest =
     (case out of None \<Rightarrow> None | Some outMax \<Rightarrow>
        if payloadLen > cast8 (aps_kMaxFrame - aps_kGroupHeaderLen) then None
        else if outMax < cast8 (aps_kGroupHeaderLen + payloadLen) then None
        else if payloadLen > 0 \<and> payload = None then None
        else Some ([aps_fcf APS_FRAME_DATA APS_DELIVERY_GROUP ackRequest] @ le16 groupAddress @
          le16 clusterId @ le16 profileId @ [srcEndpoint, counter] @ copied payload payloadLen))"

definition aps_frameType :: "ptr \<Rightarrow> u8 option" where
  "aps_frameType apdu =
     (case apdu of None \<Rightarrow> Some 0xFF | Some bs \<Rightarrow>
        if length bs < 1 then Some 0xFF else map_option (\<lambda>b. b AND 0x03) (rd8 bs 0))"

definition aps_buildAckFrame ::
  "out_buf \<Rightarrow> u8 \<Rightarrow> u16 \<Rightarrow> u16 \<Rightarrow> u8 \<Rightarrow> u8 \<Rightarrow> u8 list option"
where
  "aps_buildAckFrame out ackDstEndpoint clusterId profileId ackSrcEndpoint counter =
     (case out of None \<Rightarrow> None | Some outMax \<Rightarrow>
        if outMax < aps_kBaseHeaderLen then None
        else Some ([aps_fcf APS_FRAME_ACK APS_DELIVERY_UNICAST False, ackDstEndpoint] @
          le16 clusterId @ le16 profileId @ [ackSrcEndpoint, counter]))"

definition aps_parseAckFrame :: "ptr \<Rightarrow> (bool \<times> aps_ack_frame) option" where
  "aps_parseAckFrame apdu =
     (case apdu of None \<Rightarrow> Some (False, aps_ack_frame0) | Some bs \<Rightarrow>
      if length bs < aps_kBaseHeaderLen then Some (False, aps_ack_frame0)
      else do {
        fcf \<leftarrow> rd8 bs 0;
        if fcf AND 0x03 \<noteq> APS_FRAME_ACK then Some (False, aps_ack_frame0)
        else do {
          dst \<leftarrow> rd8 bs 1;
          cluster \<leftarrow> rd16 bs 2;
          profile \<leftarrow> rd16 bs 4;
          src \<leftarrow> rd8 bs 6;
          counter \<leftarrow> rd8 bs 7;
          Some (True, \<lparr>ak_valid = True, ak_dstEndpoint = dst, ak_clusterId = cluster,
            ak_profileId = profile, ak_srcEndpoint = src, ak_counter = counter\<rparr>)
        }
      })"

definition aps_parseDataFrame :: "ptr \<Rightarrow> (bool \<times> aps_data_frame) option" where
  "aps_parseDataFrame apdu =
     (case apdu of None \<Rightarrow> Some (False, aps_data_frame0) | Some bs \<Rightarrow>
      if length bs < aps_kBaseHeaderLen then Some (False, aps_data_frame0)
      else do {
        fcf \<leftarrow> rd8 bs 0;
        let frameType = fcf AND 0x03;
        let deliveryMode = drop_bit 2 fcf AND 0x03;
        let security = bit fcf 5;
        let extendedHeader = bit fcf 7;
        if frameType \<noteq> APS_FRAME_DATA then Some (False, aps_data_frame0)
        else if security then Some (False, aps_data_frame0)
        else if deliveryMode \<noteq> APS_DELIVERY_UNICAST \<and> deliveryMode \<noteq> APS_DELIVERY_GROUP
        then Some (False, aps_data_frame0)
        else do {
          let frame = aps_data_frame0\<lparr>ap_valid := True, ap_frameType := frameType,
                ap_deliveryMode := deliveryMode, ap_ackRequest := bit fcf 6,
                ap_security := security, ap_extendedHeader := extendedHeader\<rparr>;
          if deliveryMode = APS_DELIVERY_GROUP \<and> length bs < aps_kGroupHeaderLen
          then Some (False, frame)
          else do {
            (frame, hdr) \<leftarrow> (if deliveryMode = APS_DELIVERY_GROUP then do {
                 g \<leftarrow> rd16 bs 1;
                 c \<leftarrow> rd16 bs 3;
                 p \<leftarrow> rd16 bs 5;
                 s \<leftarrow> rd8 bs 7;
                 n \<leftarrow> rd8 bs 8;
                 Some (frame\<lparr>ap_groupAddress := g, ap_clusterId := c, ap_profileId := p,
                         ap_srcEndpoint := s, ap_counter := n\<rparr>, aps_kGroupHeaderLen)
               } else do {
                 d \<leftarrow> rd8 bs 1;
                 c \<leftarrow> rd16 bs 2;
                 p \<leftarrow> rd16 bs 4;
                 s \<leftarrow> rd8 bs 6;
                 n \<leftarrow> rd8 bs 7;
                 Some (frame\<lparr>ap_dstEndpoint := d, ap_clusterId := c, ap_profileId := p,
                         ap_srcEndpoint := s, ap_counter := n\<rparr>, aps_kBaseHeaderLen)
               });
            if extendedHeader \<and> hdr + 2 > length bs then Some (False, frame)
            else do {
              (frame, hdr) \<leftarrow> (if extendedHeader then do {
                   e \<leftarrow> rd8 bs hdr;
                   b \<leftarrow> rd8 bs (hdr + 1);
                   Some (frame\<lparr>ap_firstBlock := (e AND 0x03 = 0x01), ap_blockNumber := b\<rparr>, hdr + 2)
                 } else Some (frame, hdr));
              Some (True, frame\<lparr>ap_payload := Some (drop hdr bs), ap_payloadLen := cast8 (length bs - hdr)\<rparr>)
            }
          }
        }
      })"

section \<open>Fragments\<close>

record aps_fragment =
  fr_valid :: bool
  fr_frameType :: u8
  fr_deliveryMode :: u8
  fr_ackRequest :: bool
  fr_dstEndpoint :: u8
  fr_clusterId :: u16
  fr_profileId :: u16
  fr_srcEndpoint :: u8
  fr_counter :: u8
  fr_firstBlock :: bool
  fr_blockNumber :: u8
  fr_payload :: ptr
  fr_payloadLen :: nat

definition aps_fragment0 :: aps_fragment where
  "aps_fragment0 = \<lparr>fr_valid = False, fr_frameType = 0, fr_deliveryMode = 0, fr_ackRequest = False,
     fr_dstEndpoint = 0, fr_clusterId = 0, fr_profileId = 0, fr_srcEndpoint = 0, fr_counter = 0,
     fr_firstBlock = False, fr_blockNumber = 0, fr_payload = None, fr_payloadLen = 0\<rparr>"

definition frag_kHeaderLen :: nat where "frag_kHeaderLen = 8 + 2"

definition frag_buildFragment ::
  "out_buf \<Rightarrow> u8 \<Rightarrow> u16 \<Rightarrow> u16 \<Rightarrow> u8 \<Rightarrow> u8 \<Rightarrow> bool \<Rightarrow> u8 \<Rightarrow> ptr \<Rightarrow> nat \<Rightarrow> bool \<Rightarrow> u8 list option"
where
  "frag_buildFragment out dstEndpoint clusterId profileId srcEndpoint counter firstBlock
       blockNumber block blockLen ackRequest =
     (case out of None \<Rightarrow> None | Some outMax \<Rightarrow>
        if blockLen > 0 \<and> block = None then None
        else if outMax < frag_kHeaderLen + blockLen then None
        else Some ([0 OR push_bit 2 0 OR 0x80 OR (if ackRequest then push_bit 6 1 else 0), dstEndpoint,
            ucast clusterId, ucast (drop_bit 8 clusterId), ucast profileId, ucast (drop_bit 8 profileId),
            srcEndpoint, counter, if firstBlock then 0x01 else 0x02, blockNumber] @
          copied block blockLen))"

definition frag_parseFragment :: "ptr \<Rightarrow> (bool \<times> aps_fragment) option" where
  "frag_parseFragment apdu =
     (case apdu of None \<Rightarrow> Some (False, aps_fragment0) | Some bs \<Rightarrow>
      if length bs < frag_kHeaderLen then Some (False, aps_fragment0)
      else do {
        fcf \<leftarrow> rd8 bs 0;
        if fcf AND 0x80 = 0 then Some (False, aps_fragment0)
        else if fcf AND 0x03 \<noteq> 0 then Some (False, aps_fragment0)
        else do {
          dst \<leftarrow> rd8 bs 1;
          cluster \<leftarrow> rd16 bs 2;
          profile \<leftarrow> rd16 bs 4;
          src \<leftarrow> rd8 bs 6;
          counter \<leftarrow> rd8 bs 7;
          ext \<leftarrow> rd8 bs 8;
          block \<leftarrow> rd8 bs 9;
          Some (True, \<lparr>fr_valid = True, fr_frameType = 0, fr_deliveryMode = drop_bit 2 fcf AND 0x03,
            fr_ackRequest = bit fcf 6, fr_dstEndpoint = dst, fr_clusterId = cluster,
            fr_profileId = profile, fr_srcEndpoint = src, fr_counter = counter,
            fr_firstBlock = (ext AND 0x03 = 0x01), fr_blockNumber = block,
            fr_payload = Some (drop frag_kHeaderLen bs),
            fr_payloadLen = cast8 (length bs - frag_kHeaderLen)\<rparr>)
        }
      })"

section \<open>Facts\<close>

lemma aps_fcf_data [simp]:
  "aps_fcf 0 0 a AND 3 = 0" "drop_bit 2 (aps_fcf 0 0 a) AND 3 = 0" "\<not> bit (aps_fcf 0 0 a) 5"
  "\<not> bit (aps_fcf 0 0 a) 7" "bit (aps_fcf 0 0 a) 6 \<longleftrightarrow> a"
  "aps_fcf 0 3 a AND 3 = 0" "drop_bit 2 (aps_fcf 0 3 a) AND 3 = 3" "\<not> bit (aps_fcf 0 3 a) 5"
  "\<not> bit (aps_fcf 0 3 a) 7" "bit (aps_fcf 0 3 a) 6 \<longleftrightarrow> a"
  "aps_fcf 2 0 False AND 3 = 2"
  by (cases a; simp add: aps_fcf_def)+

lemma le16_bytes: "[ucast (v :: u16), ucast (drop_bit 8 v)] = le16 v"
  by (simp add: le16_def numeral_2_eq_2 le_bytes_Suc) (simp add: le_bytes_def)

lemma aps_parsers_in_bounds:
  "aps_parseDataFrame p \<noteq> None" "aps_parseAckFrame p \<noteq> None" "aps_frameType p \<noteq> None"
  "frag_parseFragment p \<noteq> None"
proof -
  show "aps_parseDataFrame p \<noteq> None"
    by (auto simp: aps_parseDataFrame_def Let_def rd_in simp del: length_greater_0_conv split: option.split)
  show "aps_parseAckFrame p \<noteq> None" "aps_frameType p \<noteq> None" "frag_parseFragment p \<noteq> None"
    by (auto simp: aps_parseAckFrame_def aps_frameType_def frag_parseFragment_def frag_kHeaderLen_def rd_in
        simp del: length_greater_0_conv split: option.split)
qed

lemma aps_data_roundtrip:
  assumes "aps_buildDataFrame (Some outMax) dst cluster profile src counter (Some pl) (length pl) ack = Some bs"
  shows "length bs = 8 + length pl" "length bs \<le> outMax"
    "aps_parseDataFrame (Some bs) = Some (True, aps_data_frame0\<lparr>ap_valid := True, ap_ackRequest := ack,
       ap_dstEndpoint := dst, ap_clusterId := cluster, ap_profileId := profile, ap_srcEndpoint := src,
       ap_counter := counter, ap_payload := Some pl, ap_payloadLen := length pl\<rparr>)"
proof -
  from assms have b: "bs = [aps_fcf 0 0 ack, dst] @ le16 cluster @ le16 profile @ [src, counter] @ pl"
    and l: "length pl \<le> 100" "8 + length pl \<le> outMax"
    by (auto simp: aps_buildDataFrame_def split: if_splits)
  show "length bs = 8 + length pl" "length bs \<le> outMax" using b l by simp_all
  show "aps_parseDataFrame (Some bs) = Some (True, aps_data_frame0\<lparr>ap_valid := True, ap_ackRequest := ack,
       ap_dstEndpoint := dst, ap_clusterId := cluster, ap_profileId := profile, ap_srcEndpoint := src,
       ap_counter := counter, ap_payload := Some pl, ap_payloadLen := length pl\<rparr>)"
    unfolding b using l by (simp add: aps_parseDataFrame_def wire_simps aps_data_frame0_def Let_def)
qed

lemma aps_group_roundtrip:
  assumes "aps_buildGroupDataFrame (Some outMax) grp cluster profile src counter (Some pl) (length pl) ack = Some bs"
  shows "length bs = 9 + length pl" "length bs \<le> outMax"
    "aps_parseDataFrame (Some bs) = Some (True, aps_data_frame0\<lparr>ap_valid := True, ap_deliveryMode := 3,
       ap_ackRequest := ack, ap_groupAddress := grp, ap_clusterId := cluster, ap_profileId := profile,
       ap_srcEndpoint := src, ap_counter := counter, ap_payload := Some pl, ap_payloadLen := length pl\<rparr>)"
proof -
  from assms have b: "bs = [aps_fcf 0 3 ack] @ le16 grp @ le16 cluster @ le16 profile @ [src, counter] @ pl"
    and l: "length pl \<le> 99" "9 + length pl \<le> outMax"
    by (auto simp: aps_buildGroupDataFrame_def split: if_splits)
  show "length bs = 9 + length pl" "length bs \<le> outMax" using b l by simp_all
  show "aps_parseDataFrame (Some bs) = Some (True, aps_data_frame0\<lparr>ap_valid := True, ap_deliveryMode := 3,
       ap_ackRequest := ack, ap_groupAddress := grp, ap_clusterId := cluster, ap_profileId := profile,
       ap_srcEndpoint := src, ap_counter := counter, ap_payload := Some pl, ap_payloadLen := length pl\<rparr>)"
    unfolding b using l by (simp add: aps_parseDataFrame_def wire_simps aps_data_frame0_def Let_def)
qed

lemma aps_ack_roundtrip:
  assumes "aps_buildAckFrame (Some outMax) dst cluster profile src counter = Some bs"
  shows "aps_parseAckFrame (Some bs) = Some (True, \<lparr>ak_valid = True, ak_dstEndpoint = dst,
      ak_clusterId = cluster, ak_profileId = profile, ak_srcEndpoint = src, ak_counter = counter\<rparr>)"
    "aps_parseDataFrame (Some bs) = Some (False, aps_data_frame0)"
  using assms
  by (auto simp: aps_buildAckFrame_def aps_parseAckFrame_def aps_parseDataFrame_def wire_simps Let_def
      split: if_splits)

lemma frag_bytes:
  assumes "frag_buildFragment (Some outMax) dst cluster profile src counter first num (Some pl) (length pl) ack = Some bs"
  shows "bs = [0x80 OR (if ack then push_bit 6 1 else 0), dst] @ le16 cluster @ le16 profile @
      [src, counter, if first then 1 else 2, num] @ pl" "10 + length pl \<le> outMax" "length bs \<le> outMax"
  using assms by (auto simp: frag_buildFragment_def frag_kHeaderLen_def le16_bytes [symmetric] split: if_splits)

lemma frag_fcf [simp]:
  "(0x80 OR (if a then push_bit 6 1 else 0)) AND 0x80 \<noteq> (0 :: u8)"
  "(0x80 OR (if a then push_bit 6 1 else 0)) AND 3 = (0 :: u8)"
  "drop_bit 2 (0x80 OR (if a then push_bit 6 1 else 0)) AND 3 = (0 :: u8)"
  "bit (0x80 OR (if a then push_bit 6 1 else 0) :: u8) 6 \<longleftrightarrow> a"
  "bit (0x80 OR (if a then push_bit 6 1 else 0) :: u8) 7"
  "\<not> bit (0x80 OR (if a then push_bit 6 1 else 0) :: u8) 5"
  by (cases a; simp)+

lemma frag_roundtrip:
  assumes "frag_buildFragment (Some outMax) dst cluster profile src counter first num (Some pl) (length pl) ack = Some bs"
    and "outMax \<le> 255"
  shows "frag_parseFragment (Some bs) = Some (True, aps_fragment0\<lparr>fr_valid := True, fr_ackRequest := ack,
      fr_dstEndpoint := dst, fr_clusterId := cluster, fr_profileId := profile, fr_srcEndpoint := src,
      fr_counter := counter, fr_firstBlock := first, fr_blockNumber := num, fr_payload := Some pl,
      fr_payloadLen := length pl\<rparr>)"
    "aps_parseDataFrame (Some bs) = Some (True, aps_data_frame0\<lparr>ap_valid := True, ap_ackRequest := ack,
      ap_extendedHeader := True, ap_firstBlock := first, ap_blockNumber := num,
      ap_dstEndpoint := dst, ap_clusterId := cluster, ap_profileId := profile, ap_srcEndpoint := src,
      ap_counter := counter, ap_payload := Some pl, ap_payloadLen := length pl\<rparr>)"
proof -
  define F :: u8 where "F = 0x80 OR (if ack then push_bit 6 1 else 0)"
  note f = frag_fcf [of ack, folded F_def]
  note b = frag_bytes [OF assms(1), folded F_def]
  have d: "drop (2 + k) (w # x # zs) = drop k zs" for k and w x :: u8 and zs by simp
  show "frag_parseFragment (Some bs) = Some (True, aps_fragment0\<lparr>fr_valid := True, fr_ackRequest := ack,
      fr_dstEndpoint := dst, fr_clusterId := cluster, fr_profileId := profile, fr_srcEndpoint := src,
      fr_counter := counter, fr_firstBlock := first, fr_blockNumber := num, fr_payload := Some pl,
      fr_payloadLen := length pl\<rparr>)"
    using b(2) assms(2) unfolding b(1)
    by (simp add: frag_parseFragment_def frag_kHeaderLen_def wire_simps f aps_fragment0_def)
  show "aps_parseDataFrame (Some bs) = Some (True, aps_data_frame0\<lparr>ap_valid := True, ap_ackRequest := ack,
      ap_extendedHeader := True, ap_firstBlock := first, ap_blockNumber := num,
      ap_dstEndpoint := dst, ap_clusterId := cluster, ap_profileId := profile, ap_srcEndpoint := src,
      ap_counter := counter, ap_payload := Some pl, ap_payloadLen := length pl\<rparr>)"
    using b(2) assms(2) unfolding b(1)
    by (simp add: aps_parseDataFrame_def wire_simps f aps_data_frame0_def Let_def)
qed

section \<open>Properties\<close>

text \<open>APS frames round-trip inside their output buffer: a unicast data frame, a group-addressed data
  frame, an acknowledgement and a fragment are parsed back field by field. An acknowledgement is
  never taken for data, and a fragment is read the same way by the fragment parser and by the
  data parser (extended header).\<close>

theorem aps_frames_roundtrip:
  "(aps_buildDataFrame (Some outMax) dst cluster profile src counter (Some pl) (length pl) ack = Some bs \<longrightarrow>
     length bs \<le> outMax \<and>
     aps_parseDataFrame (Some bs) = Some (True, aps_data_frame0\<lparr>ap_valid := True, ap_ackRequest := ack,
       ap_dstEndpoint := dst, ap_clusterId := cluster, ap_profileId := profile, ap_srcEndpoint := src,
       ap_counter := counter, ap_payload := Some pl, ap_payloadLen := length pl\<rparr>)) \<and>
   (aps_buildGroupDataFrame (Some outMax) grp cluster profile src counter (Some pl) (length pl) ack = Some bs \<longrightarrow>
     length bs \<le> outMax \<and>
     aps_parseDataFrame (Some bs) = Some (True, aps_data_frame0\<lparr>ap_valid := True, ap_deliveryMode := 3,
       ap_ackRequest := ack, ap_groupAddress := grp, ap_clusterId := cluster, ap_profileId := profile,
       ap_srcEndpoint := src, ap_counter := counter, ap_payload := Some pl, ap_payloadLen := length pl\<rparr>)) \<and>
   (aps_buildAckFrame (Some outMax) dst cluster profile src counter = Some bs \<longrightarrow>
     aps_parseAckFrame (Some bs) = Some (True, \<lparr>ak_valid = True, ak_dstEndpoint = dst,
       ak_clusterId = cluster, ak_profileId = profile, ak_srcEndpoint = src, ak_counter = counter\<rparr>) \<and>
     aps_parseDataFrame (Some bs) = Some (False, aps_data_frame0)) \<and>
   (frag_buildFragment (Some outMax) dst cluster profile src counter first num (Some pl) (length pl) ack = Some bs \<longrightarrow>
     outMax \<le> 255 \<longrightarrow> length bs \<le> outMax \<and>
     frag_parseFragment (Some bs) = Some (True, aps_fragment0\<lparr>fr_valid := True, fr_ackRequest := ack,
       fr_dstEndpoint := dst, fr_clusterId := cluster, fr_profileId := profile, fr_srcEndpoint := src,
       fr_counter := counter, fr_firstBlock := first, fr_blockNumber := num, fr_payload := Some pl,
       fr_payloadLen := length pl\<rparr>) \<and>
     aps_parseDataFrame (Some bs) = Some (True, aps_data_frame0\<lparr>ap_valid := True, ap_ackRequest := ack,
       ap_extendedHeader := True, ap_firstBlock := first, ap_blockNumber := num,
       ap_dstEndpoint := dst, ap_clusterId := cluster, ap_profileId := profile, ap_srcEndpoint := src,
       ap_counter := counter, ap_payload := Some pl, ap_payloadLen := length pl\<rparr>))"
  apply (intro conjI impI)
  subgoal by (rule aps_data_roundtrip)
  subgoal by (rule aps_data_roundtrip)
  subgoal by (rule aps_group_roundtrip)
  subgoal by (rule aps_group_roundtrip)
  subgoal by (rule aps_ack_roundtrip)
  subgoal by (rule aps_ack_roundtrip)
  subgoal by (rule frag_bytes(3))
  subgoal by (rule frag_roundtrip)
  subgoal by (rule frag_roundtrip)
  done

lemma aps_frames_roundtrip_witness:
  "\<exists>bs. aps_buildGroupDataFrame (Some 20) 0x1234 6 0x0104 1 77 (Some [1, 77, 2]) (length [1 :: u8, 77, 2]) True = Some bs \<and>
     (\<exists>f. aps_parseDataFrame (Some bs) = Some (True, f) \<and> ap_groupAddress f = 0x1234 \<and> ap_ackRequest f)"
proof -
  obtain bs where b: "aps_buildGroupDataFrame (Some 20) 0x1234 6 0x0104 1 77 (Some [1, 77, 2])
      (length [1 :: u8, 77, 2]) True = Some bs"
    by (simp add: aps_buildGroupDataFrame_def)
  from aps_frames_roundtrip [THEN conjunct2, THEN conjunct1, THEN mp, OF b] b show ?thesis by auto
qed

text \<open>No APS parser reads outside the APDU it was given, whatever its bytes and length.\<close>

theorem aps_parsers_memory_safe:
  "aps_parseDataFrame p \<noteq> None \<and> aps_parseAckFrame p \<noteq> None \<and> aps_frameType p \<noteq> None \<and>
     frag_parseFragment p \<noteq> None"
  using aps_parsers_in_bounds by blast

end
