(* ===== verification/ZbFragment.thy ===== *)
theory ZbFragment
  imports ZbAps
begin

text \<open>
  The two machines of \<open>ZigbeeApsFragment.h\<close>: \<open>ZigbeeApsFragmenter\<close> cuts one ASDU into fragment
  APDUs, \<open>ZigbeeApsReassembler\<close> puts the blocks it is fed back together in a caller-owned buffer.
  A reassembler is a record of the class's members; the buffer has \<open>bufMax_\<close> bytes.
\<close>

section \<open>Reassembler\<close>

definition ra_kMaxBlocks :: nat where "ra_kMaxBlocks = 16"

record reasm =
  ra_buffer :: ptr
  ra_bufMax :: nat
  ra_length :: nat
  ra_totalBlocks :: u8
  ra_received :: u8
  ra_counter :: u8
  ra_haveCounter :: bool
  ra_blockSize :: u8
  ra_got :: "bool list"

definition ra_reset :: "reasm \<Rightarrow> reasm" where
  "ra_reset r = r\<lparr>ra_length := 0, ra_totalBlocks := 0, ra_received := 0, ra_haveCounter := False,
     ra_got := replicate ra_kMaxBlocks False\<rparr>"

definition ra_begin :: "reasm \<Rightarrow> ptr \<Rightarrow> nat \<Rightarrow> u8 \<Rightarrow> reasm" where
  "ra_begin r buffer bufMax blockSize =
     (ra_reset (r\<lparr>ra_buffer := buffer, ra_bufMax := bufMax\<rparr>))\<lparr>ra_blockSize := blockSize\<rparr>"

definition ra_complete :: "reasm \<Rightarrow> bool" where
  "ra_complete r \<longleftrightarrow> 0 < ra_totalBlocks r \<and> ra_totalBlocks r \<le> ra_received r"

definition buf_write :: "u8 list \<Rightarrow> nat \<Rightarrow> u8 list \<Rightarrow> u8 list" where
  "buf_write buf offset xs = take offset buf @ xs @ drop (offset + length xs) buf"

definition ra_storeBlock :: "reasm \<Rightarrow> u8 \<Rightarrow> ptr \<Rightarrow> nat \<Rightarrow> reasm" where
  "ra_storeBlock r index data len =
     (if ra_kMaxBlocks \<le> unat index then r
      else
        let offset = cast16 (unat index * unat (ra_blockSize r)) in
        if offset + len > ra_bufMax r then r
        else
          let r = r\<lparr>ra_buffer := map_option (\<lambda>buf. buf_write buf offset (copied data len)) (ra_buffer r)\<rparr>;
              r = (if offset + len > ra_length r then r\<lparr>ra_length := cast16 (offset + len)\<rparr> else r)
          in if \<not> ra_got r ! unat index
             then r\<lparr>ra_got := (ra_got r)[unat index := True], ra_received := ra_received r + 1\<rparr>
             else r)"

definition ra_addBlock :: "reasm \<Rightarrow> aps_fragment \<Rightarrow> reasm \<times> bool" where
  "ra_addBlock r f =
     (if ra_buffer r = None \<or> \<not> fr_valid f then (r, False)
      else
        let r = (if \<not> ra_haveCounter r \<or> fr_counter f \<noteq> ra_counter r
                 then (ra_reset r)\<lparr>ra_counter := fr_counter f, ra_haveCounter := True\<rparr> else r);
            r = (if fr_firstBlock f
                 then ra_storeBlock (r\<lparr>ra_totalBlocks := fr_blockNumber f\<rparr>) 0 (fr_payload f) (fr_payloadLen f)
                 else ra_storeBlock r (fr_blockNumber f) (fr_payload f) (fr_payloadLen f))
        in (r, ra_complete r))"

section \<open>Fragmenter\<close>

record fragmenter =
  fm_payload :: ptr
  fm_payloadLen :: nat
  fm_blockSize :: u8
  fm_dstEndpoint :: u8
  fm_clusterId :: u16
  fm_profileId :: u16
  fm_srcEndpoint :: u8
  fm_counter :: u8
  fm_index :: u8
  fm_total :: u8

definition fm_begin :: "ptr \<Rightarrow> nat \<Rightarrow> u8 \<Rightarrow> u8 \<Rightarrow> u16 \<Rightarrow> u16 \<Rightarrow> u8 \<Rightarrow> u8 \<Rightarrow> fragmenter" where
  "fm_begin payload payloadLen blockSize dstEndpoint clusterId profileId srcEndpoint counter =
     (let bs = (if blockSize \<noteq> 0 then blockSize else 1);
          total = of_nat ((payloadLen + unat bs - 1) div unat bs) :: u8
      in \<lparr>fm_payload = payload, fm_payloadLen = payloadLen, fm_blockSize = bs,
          fm_dstEndpoint = dstEndpoint, fm_clusterId = clusterId, fm_profileId = profileId,
          fm_srcEndpoint = srcEndpoint, fm_counter = counter, fm_index = 0,
          fm_total = (if total = 0 then 1 else total)\<rparr>)"

definition fm_done :: "fragmenter \<Rightarrow> bool" where
  "fm_done m \<longleftrightarrow> fm_total m \<le> fm_index m"

text \<open>\<open>next\<close>: the offset is a \<open>uint16_t\<close>, while \<open>payloadLen_ - offset\<close> is an \<open>int\<close>.\<close>

definition fm_offset :: "fragmenter \<Rightarrow> nat" where
  "fm_offset m = cast16 (unat (fm_index m) * unat (fm_blockSize m))"

definition fm_blockLen :: "fragmenter \<Rightarrow> nat" where
  "fm_blockLen m =
     (let rest = int (fm_payloadLen m) - int (fm_offset m)
      in unat (word_of_int (if rest < uint (fm_blockSize m) then rest else uint (fm_blockSize m)) :: u8))"

definition fm_next :: "fragmenter \<Rightarrow> out_buf \<Rightarrow> bool \<Rightarrow> fragmenter \<times> u8 list option" where
  "fm_next m out ackRequest =
     (if fm_done m \<or> out = None then (m, None)
      else
        let first = (fm_index m = 0);
            blockNumber = (if first then fm_total m else fm_index m);
            n = frag_buildFragment out (fm_dstEndpoint m) (fm_clusterId m) (fm_profileId m)
                  (fm_srcEndpoint m) (fm_counter m) first blockNumber
                  (map_option (drop (fm_offset m)) (fm_payload m)) (fm_blockLen m) ackRequest
        in (if n \<noteq> None then m\<lparr>fm_index := fm_index m + 1\<rparr> else m, n))"

text \<open>The sender's loop \<open>while (!f.done()) send(f.next(...))\<close>, given up when \<open>next\<close> returns 0.\<close>

fun fm_send_all :: "nat \<Rightarrow> fragmenter \<Rightarrow> out_buf \<Rightarrow> bool \<Rightarrow> u8 list list option" where
  "fm_send_all 0 m out ack = None"
| "fm_send_all (Suc n) m out ack =
     (if fm_done m then Some []
      else case fm_next m out ack of
        (m, None) \<Rightarrow> None
      | (m, Some bs) \<Rightarrow> map_option ((#) bs) (fm_send_all n m out ack))"

text \<open>The receiver: parse an APDU and feed it.\<close>

definition ra_receive :: "reasm \<Rightarrow> u8 list \<Rightarrow> (reasm \<times> bool) option" where
  "ra_receive r apdu =
     (case frag_parseFragment (Some apdu) of None \<Rightarrow> None
      | Some (ok, f) \<Rightarrow> Some (if ok then ra_addBlock r f else (r, False)))"

fun ra_feed :: "reasm \<Rightarrow> u8 list list \<Rightarrow> reasm option" where
  "ra_feed r [] = Some r"
| "ra_feed r (a # as) = (case ra_receive r a of None \<Rightarrow> None | Some (r, _) \<Rightarrow> ra_feed r as)"

section \<open>Facts\<close>

definition blk :: "nat \<Rightarrow> u8 list \<Rightarrow> nat \<Rightarrow> u8 list" where
  "blk b pl i = take b (drop (i * b) pl)"

definition blocks :: "nat \<Rightarrow> u8 list \<Rightarrow> nat" where
  "blocks b pl = max 1 ((length pl + b - 1) div b)"

lemma blocks_bounds:
  assumes "0 < b"
  shows "length pl \<le> blocks b pl * b" "i < blocks b pl \<Longrightarrow> i * b \<le> length pl"
    "i < blocks b pl \<Longrightarrow> length (blk b pl i) = min b (length pl - i * b)"
    "i < blocks b pl \<Longrightarrow> Suc i < blocks b pl \<Longrightarrow> length (blk b pl i) = b"
proof -
  let ?q = "(length pl + b - 1) div b"
  have q: "?q * b \<le> length pl + b - 1" by simp
  have "length pl + b - 1 < (?q + 1) * b"
    using dividend_less_div_times [OF assms, of "length pl + b - 1"] by (simp add: algebra_simps)
  then have "length pl \<le> ?q * b" using assms by (simp add: algebra_simps)
  also have "\<dots> \<le> blocks b pl * b" by (simp add: blocks_def)
  finally show "length pl \<le> blocks b pl * b" .
  have lt: "i * b + b \<le> ?q * b" if "i < ?q" for i
  proof -
    from that have "Suc i * b \<le> ?q * b" by (intro mult_right_mono) simp_all
    then show ?thesis by (simp add: algebra_simps)
  qed
  have le: "i * b \<le> length pl" if "i < blocks b pl" for i
  proof (cases "?q = 0")
    case True
    with that show ?thesis by (simp add: blocks_def)
  next
    case False
    with that have "i < ?q" by (simp add: blocks_def)
    from lt [OF this] q assms show ?thesis by linarith
  qed
  show "i < blocks b pl \<Longrightarrow> i * b \<le> length pl" by (rule le)
  show "i < blocks b pl \<Longrightarrow> length (blk b pl i) = min b (length pl - i * b)" by (simp add: blk_def)
  show "i < blocks b pl \<Longrightarrow> Suc i < blocks b pl \<Longrightarrow> length (blk b pl i) = b"
    using le [of "Suc i"] by (simp add: blk_def)
qed

section \<open>The fragmenter emits every block once\<close>

definition frag_apdu :: "u8 \<Rightarrow> u16 \<Rightarrow> u16 \<Rightarrow> u8 \<Rightarrow> u8 \<Rightarrow> nat \<Rightarrow> u8 list \<Rightarrow> bool \<Rightarrow> nat \<Rightarrow> u8 list" where
  "frag_apdu dst cluster profile src counter b pl ack i =
     (case frag_buildFragment (Some 255) dst cluster profile src counter (i = 0)
        (of_nat (if i = 0 then blocks b pl else i)) (Some (blk b pl i)) (length (blk b pl i)) ack of
      None \<Rightarrow> [] | Some bs \<Rightarrow> bs)"

lemma fm_next_block:
  assumes b: "0 < unat bs" "unat bs \<le> 245" and T: "blocks (unat bs) pl \<le> 255" "i < blocks (unat bs) pl"
    and m: "fm_payload m = Some pl" "fm_payloadLen m = length pl" "fm_blockSize m = bs"
      "fm_total m = of_nat (blocks (unat bs) pl)" "fm_index m = of_nat i"
    and out: "10 + unat bs \<le> outMax"
  shows "fm_next m (Some outMax) ack = (m\<lparr>fm_index := of_nat (Suc i)\<rparr>,
    Some (frag_apdu (fm_dstEndpoint m) (fm_clusterId m) (fm_profileId m) (fm_srcEndpoint m)
      (fm_counter m) (unat bs) pl ack i))"
proof -
  let ?b = "unat bs" and ?B = "blk (unat bs) pl i"
  have i: "i < 256" using T by simp
  have le: "i * ?b \<le> length pl" using blocks_bounds(2) [OF b(1) T(2)] .
  have "i * ?b \<le> 255 * 255" using i b(2) by (intro mult_le_mono) simp_all
  then have off: "fm_offset m = i * ?b" using m i by (simp add: fm_offset_def)
  have len: "length ?B = min ?b (length pl - i * ?b)" using blocks_bounds(3) [OF b(1) T(2)] .
  have "unat (word_of_int (if int (length pl) - int (i * ?b) < uint bs then int (length pl) - int (i * ?b)
      else uint bs) :: u8) = length ?B"
  proof (cases "length pl - i * ?b < ?b")
    case True
    have "int (length pl) - int (i * ?b) < int ?b" using le True by linarith
    then have "int (length pl) - int (i * ?b) < uint bs" by simp
    moreover have "int (length pl) - int (i * ?b) = int (length ?B)" using True le len by linarith
    moreover have "length ?B < 256" using len b(2) by simp
    ultimately show ?thesis by (simp only: if_True) simp
  next
    case False
    have "\<not> int (length pl) - int (i * ?b) < int ?b" using le False by linarith
    then have "\<not> int (length pl) - int (i * ?b) < uint bs" by simp
    moreover have "length ?B = ?b" using False len by simp
    ultimately show ?thesis by (simp only: if_False) simp
  qed
  then have bl: "fm_blockLen m = length ?B" unfolding fm_blockLen_def Let_def off m(2,3) by simp
  have nd: "\<not> fm_done m" using T m(4,5) i by (simp add: fm_done_def word_le_nat_alt)
  have c: "copied (Some (drop (i * ?b) pl)) (length ?B) = ?B"
    by (simp add: copied_def blk_def min_def)
  have z: "fm_index m = 0 \<longleftrightarrow> i = 0" using m(5) i by (simp add: word_unat_eq_iff)
  have lb: "length ?B \<le> ?b" using len by simp
  have "frag_buildFragment (Some 255) d c p s n f k (Some ?B) (length ?B) ack =
      frag_buildFragment (Some outMax) d c p s n f k (Some (drop (i * ?b) pl)) (length ?B) ack"
    "frag_buildFragment (Some outMax) d c p s n f k (Some (drop (i * ?b) pl)) (length ?B) ack \<noteq> None"
    for d c p s n f k
    using c copied_all [of ?B] lb out b(2) by (simp_all add: frag_buildFragment_def frag_kHeaderLen_def del: copied_all)
  note fb = this
  let ?n = "of_nat (if i = 0 then blocks ?b pl else i) :: u8"
  have num: "(if i = 0 then fm_total m else fm_index m) = ?n" using m z by simp
  obtain r where r: "frag_buildFragment (Some outMax) (fm_dstEndpoint m) (fm_clusterId m) (fm_profileId m)
      (fm_srcEndpoint m) (fm_counter m) (i = 0) ?n (Some (drop (i * ?b) pl)) (length ?B) ack = Some r"
    using fb(2) by blast
  then have a: "frag_apdu (fm_dstEndpoint m) (fm_clusterId m) (fm_profileId m) (fm_srcEndpoint m)
      (fm_counter m) ?b pl ack i = r" by (simp only: frag_apdu_def fb(1) option.case)
  have "fm_next m (Some outMax) ack = (m\<lparr>fm_index := fm_index m + 1\<rparr>, Some r)"
    unfolding fm_next_def Let_def z num off bl m(1) option.map r using nd by simp
  then show ?thesis unfolding a using m(5) by (simp add: add.commute)
qed

lemma fm_send_all_from:
  assumes b: "0 < unat bs" "unat bs \<le> 245" and T: "blocks (unat bs) pl \<le> 255"
    and m: "fm_payload m = Some pl" "fm_payloadLen m = length pl" "fm_blockSize m = bs"
      "fm_total m = of_nat (blocks (unat bs) pl)" "fm_index m = of_nat i"
    and out: "10 + unat bs \<le> outMax" and i: "i \<le> blocks (unat bs) pl" "blocks (unat bs) pl - i < n"
  shows "fm_send_all n m (Some outMax) ack =
    Some (map (frag_apdu (fm_dstEndpoint m) (fm_clusterId m) (fm_profileId m) (fm_srcEndpoint m)
      (fm_counter m) (unat bs) pl ack) [i..<blocks (unat bs) pl])"
  using m i
proof (induction n arbitrary: m i)
  case 0
  then show ?case by simp
next
  case (Suc n)
  show ?case
  proof (cases "i = blocks (unat bs) pl")
    case True
    then show ?thesis using Suc.prems by (simp add: fm_done_def)
  next
    case False
    then have i: "i < blocks (unat bs) pl" using Suc.prems by simp
    note nx = fm_next_block [OF b T i Suc.prems(1-5) out, of ack]
    have nd: "\<not> fm_done m" using T Suc.prems(4,5) i by (simp add: fm_done_def word_le_nat_alt)
    have "fm_send_all n (m\<lparr>fm_index := of_nat (Suc i)\<rparr>) (Some outMax) ack =
      Some (map (frag_apdu (fm_dstEndpoint m) (fm_clusterId m) (fm_profileId m) (fm_srcEndpoint m)
        (fm_counter m) (unat bs) pl ack) [Suc i..<blocks (unat bs) pl])"
      using Suc.IH [of "m\<lparr>fm_index := of_nat (Suc i)\<rparr>" "Suc i"] Suc.prems i by simp
    then show ?thesis using nd nx i by (simp add: upt_conv_Cons)
  qed
qed

section \<open>Reassembly in any order\<close>

definition ra_inv :: "u8 \<Rightarrow> u8 \<Rightarrow> u8 list \<Rightarrow> nat set \<Rightarrow> u8 \<Rightarrow> reasm \<Rightarrow> bool" where
  "ra_inv c bs pl S tot r \<longleftrightarrow>
     (\<exists>buf. ra_buffer r = Some buf \<and> length buf = ra_bufMax r \<and>
        (\<forall>j<length pl. j div unat bs \<in> S \<longrightarrow> buf ! j = pl ! j)) \<and>
     ra_bufMax r < 65536 \<and> length pl \<le> ra_bufMax r \<and> ra_blockSize r = bs \<and> 0 < unat bs \<and>
     ra_haveCounter r \<and> ra_counter r = c \<and> ra_totalBlocks r = tot \<and>
     length (ra_got r) = 16 \<and> (\<forall>i<16. ra_got r ! i \<longleftrightarrow> i \<in> S) \<and>
     unat (ra_received r) = card S \<and> S \<subseteq> {..<blocks (unat bs) pl} \<and> blocks (unat bs) pl \<le> 16 \<and>
     (\<forall>i\<in>S. i * unat bs + length (blk (unat bs) pl i) \<le> ra_length r) \<and> ra_length r \<le> length pl"

lemma nth_buf_write:
  assumes "off + length xs \<le> length buf" "j < length buf"
  shows "buf_write buf off xs ! j = (if off \<le> j \<and> j < off + length xs then xs ! (j - off) else buf ! j)"
  using assms by (auto simp: buf_write_def nth_append)

lemma length_buf_write: "off + length xs \<le> length buf \<Longrightarrow> length (buf_write buf off xs) = length buf"
  by (simp add: buf_write_def)

lemma ra_store_inv:
  assumes inv: "ra_inv c bs pl S tot r" and i: "i < blocks (unat bs) pl"
  shows "ra_inv c bs pl (insert i S) tot
    (ra_storeBlock r (of_nat i) (Some (blk (unat bs) pl i)) (length (blk (unat bs) pl i)))"
proof -
  let ?b = "unat bs" and ?B = "blk (unat bs) pl i"
  obtain buf where buf: "ra_buffer r = Some buf" "length buf = ra_bufMax r"
      "\<And>j. j < length pl \<Longrightarrow> j div ?b \<in> S \<Longrightarrow> buf ! j = pl ! j"
    using inv unfolding ra_inv_def by blast
  have inv': "ra_bufMax r < 65536" "length pl \<le> ra_bufMax r" "ra_blockSize r = bs" "0 < ?b"
     "ra_haveCounter r" "ra_counter r = c" "ra_totalBlocks r = tot"
     "length (ra_got r) = 16" "\<And>k. k < 16 \<Longrightarrow> ra_got r ! k \<longleftrightarrow> k \<in> S"
     "unat (ra_received r) = card S" "S \<subseteq> {..<blocks ?b pl}" "blocks ?b pl \<le> 16"
     "\<forall>k\<in>S. k * ?b + length (blk ?b pl k) \<le> ra_length r" "ra_length r \<le> length pl"
    using inv unfolding ra_inv_def by blast+
  have i16: "i < 16" using i inv'(12) by simp
  have ui: "unat (of_nat i :: u8) = i" using i16 by simp
  have len: "length ?B = min ?b (length pl - i * ?b)" using blocks_bounds(3) [OF inv'(4) i] .
  have le: "i * ?b + length ?B \<le> length pl" using blocks_bounds(2) [OF inv'(4) i] len by simp
  then have off: "cast16 (i * ?b) = i * ?b" using inv'(1,2) by simp
  have c16: "cast16 (i * ?b + length ?B) = i * ?b + length ?B" using le inv'(1,2) by simp
  have fits: "i * ?b + length ?B \<le> length buf" using le inv'(2) buf(2) by simp
  let ?buf = "buf_write buf (i * ?b) ?B"
  have data: "?buf ! j = pl ! j" if j: "j < length pl" "j div ?b = i \<or> j div ?b \<in> S" for j
  proof (cases "i * ?b \<le> j \<and> j < i * ?b + length ?B")
    case True
    have jb: "j < length buf" using j(1) inv'(2) buf(2) by simp
    from True len have "i * ?b \<le> j" "j - i * ?b < ?b" by auto
    then have "?B ! (j - i * ?b) = pl ! j" using j(1) by (simp add: blk_def)
    then show ?thesis using nth_buf_write [OF fits jb] True by simp
  next
    case False
    have "j div ?b \<noteq> i"
    proof
      assume d: "j div ?b = i"
      have "i * ?b \<le> j" using d by auto
      moreover have "j < i * ?b + ?b" using d dividend_less_div_times [OF inv'(4), of j] by (simp add: add.commute)
      ultimately show False using False len j(1) by auto
    qed
    with j(2) have "j div ?b \<in> S" by simp
    moreover have jb: "j < length buf" using j(1) inv'(2) buf(2) by simp
    ultimately show ?thesis using nth_buf_write [OF fits jb] False buf(3) [OF j(1)] by auto
  qed
  have finS: "finite S" using inv'(11) finite_subset by blast
  have cS: "card S < 255"
  proof -
    have "card S \<le> card {..<blocks ?b pl}" using inv'(11) by (intro card_mono) auto
    then show ?thesis using inv'(12) by simp
  qed
  have rec: "unat (ra_received r + 1) = Suc (card S)"
    using inv'(10) cS by (simp add: unat_word_ariths)
  define r1 where "r1 = r\<lparr>ra_buffer := Some ?buf,
    ra_length := max (ra_length r) (i * ?b + length ?B)\<rparr>"
  have st: "ra_storeBlock r (of_nat i) (Some ?B) (length ?B) =
      (if i \<in> S then r1 else r1\<lparr>ra_got := (ra_got r)[i := True], ra_received := ra_received r + 1\<rparr>)"
    using i16 fits buf(1,2) inv'(3,9) off c16 ui
    by (auto simp: ra_storeBlock_def ra_kMaxBlocks_def Let_def r1_def max_def)
  have "\<exists>buf. Some ?buf = Some buf \<and> length buf = ra_bufMax r \<and>
        (\<forall>j<length pl. j div ?b \<in> insert i S \<longrightarrow> buf ! j = pl ! j)"
    using data buf(2) length_buf_write [OF fits] by auto
  then show ?thesis
    unfolding st ra_inv_def
    using inv' rec finS i i16 le
    by (auto simp: r1_def insert_absorb nth_list_update le_max_iff_disj)
qed

lemma ra_receive_block:
  assumes T: "blocks (unat bs) pl \<le> 16" and i: "i < blocks (unat bs) pl" and b: "0 < unat bs" "unat bs \<le> 245"
  shows "ra_receive r (frag_apdu dst cluster profile src c (unat bs) pl ack i) =
    Some (ra_addBlock r (aps_fragment0\<lparr>fr_valid := True, fr_ackRequest := ack,
      fr_dstEndpoint := dst, fr_clusterId := cluster, fr_profileId := profile, fr_srcEndpoint := src,
      fr_counter := c, fr_firstBlock := (i = 0),
      fr_blockNumber := of_nat (if i = 0 then blocks (unat bs) pl else i),
      fr_payload := Some (blk (unat bs) pl i), fr_payloadLen := length (blk (unat bs) pl i)\<rparr>))"
proof -
  let ?B = "blk (unat bs) pl i" and ?n = "of_nat (if i = 0 then blocks (unat bs) pl else i) :: u8"
  have "length ?B \<le> 245" using blocks_bounds(3) [OF b(1) i] b(2) by simp
  then obtain bytes where f: "frag_buildFragment (Some 255) dst cluster profile src c (i = 0) ?n (Some ?B) (length ?B) ack = Some bytes"
    by (auto simp: frag_buildFragment_def frag_kHeaderLen_def)
  have "frag_apdu dst cluster profile src c (unat bs) pl ack i = bytes" unfolding frag_apdu_def f by simp
  moreover have "frag_parseFragment (Some bytes) = Some (True, aps_fragment0\<lparr>fr_valid := True, fr_ackRequest := ack,
      fr_dstEndpoint := dst, fr_clusterId := cluster, fr_profileId := profile, fr_srcEndpoint := src,
      fr_counter := c, fr_firstBlock := (i = 0), fr_blockNumber := ?n, fr_payload := Some ?B,
      fr_payloadLen := length ?B\<rparr>)" by (rule frag_roundtrip(1) [OF f]) simp
  ultimately show ?thesis by (simp only: ra_receive_def option.case prod.case if_True)
qed

definition ra_ready :: "reasm \<Rightarrow> u8 \<Rightarrow> u8 \<Rightarrow> u8 list \<Rightarrow> bool" where
  "ra_ready r c bs pl \<longleftrightarrow>
     (\<exists>buf. ra_buffer r = Some buf \<and> length buf = ra_bufMax r) \<and> ra_bufMax r < 65536 \<and>
     length pl \<le> ra_bufMax r \<and> ra_blockSize r = bs \<and> (\<not> ra_haveCounter r \<or> ra_counter r \<noteq> c)"

lemma ra_add_first:
  assumes r: "ra_ready r c bs pl" and T: "blocks (unat bs) pl \<le> 16" and i: "i < blocks (unat bs) pl"
    and b: "0 < unat bs"
    and f: "fr_valid f" "fr_counter f = c" "fr_firstBlock f = (i = 0)"
      "fr_blockNumber f = of_nat (if i = 0 then blocks (unat bs) pl else i)"
      "fr_payload f = Some (blk (unat bs) pl i)" "fr_payloadLen f = length (blk (unat bs) pl i)"
  shows "ra_inv c bs pl {i} (if i = 0 then of_nat (blocks (unat bs) pl) else 0) (fst (ra_addBlock r f))"
proof -
  let ?r = "(ra_reset r)\<lparr>ra_counter := c, ra_haveCounter := True\<rparr>"
  let ?tot = "if i = 0 then of_nat (blocks (unat bs) pl) else 0 :: u8"
  from r obtain buf where buf: "ra_buffer r = Some buf" "length buf = ra_bufMax r" by (auto simp: ra_ready_def)
  have "ra_inv c bs pl {} ?tot (?r\<lparr>ra_totalBlocks := ?tot\<rparr>)"
    using r buf b T by (simp add: ra_inv_def ra_ready_def ra_reset_def ra_kMaxBlocks_def)
  from ra_store_inv [OF this i]
  have inv: "ra_inv c bs pl {i} ?tot (ra_storeBlock (?r\<lparr>ra_totalBlocks := ?tot\<rparr>) (of_nat i)
      (Some (blk (unat bs) pl i)) (length (blk (unat bs) pl i)))" .
  have z: "?r\<lparr>ra_totalBlocks := 0\<rparr> = ?r" by (simp add: ra_reset_def)
  have "fst (ra_addBlock r f) = ra_storeBlock (?r\<lparr>ra_totalBlocks := ?tot\<rparr>) (of_nat i)
      (Some (blk (unat bs) pl i)) (length (blk (unat bs) pl i))"
    using r f buf z by (auto simp: ra_addBlock_def ra_ready_def Let_def)
  with inv show ?thesis by simp
qed

lemma ra_add_more:
  assumes inv: "ra_inv c bs pl S tot r" and i: "i < blocks (unat bs) pl"
    and f: "fr_valid f" "fr_counter f = c" "fr_firstBlock f = (i = 0)"
      "fr_blockNumber f = of_nat (if i = 0 then blocks (unat bs) pl else i)"
      "fr_payload f = Some (blk (unat bs) pl i)" "fr_payloadLen f = length (blk (unat bs) pl i)"
  shows "ra_inv c bs pl (insert i S) (if i = 0 then of_nat (blocks (unat bs) pl) else tot) (fst (ra_addBlock r f))"
proof -
  let ?tot = "if i = 0 then of_nat (blocks (unat bs) pl) else tot"
  from inv obtain buf where buf: "ra_buffer r = Some buf" by (auto simp: ra_inv_def)
  have r: "ra_haveCounter r" "ra_counter r = c" "ra_totalBlocks r = tot" using inv by (simp_all add: ra_inv_def)
  have "ra_inv c bs pl S ?tot (r\<lparr>ra_totalBlocks := ?tot\<rparr>)" using inv by (simp add: ra_inv_def)
  from ra_store_inv [OF this i]
  have inv': "ra_inv c bs pl (insert i S) ?tot (ra_storeBlock (r\<lparr>ra_totalBlocks := ?tot\<rparr>) (of_nat i)
      (Some (blk (unat bs) pl i)) (length (blk (unat bs) pl i)))" .
  have z: "r\<lparr>ra_totalBlocks := tot\<rparr> = r" using r(3) by simp
  have "fst (ra_addBlock r f) = ra_storeBlock (r\<lparr>ra_totalBlocks := ?tot\<rparr>) (of_nat i)
      (Some (blk (unat bs) pl i)) (length (blk (unat bs) pl i))"
    using r f buf z by (auto simp: ra_addBlock_def Let_def)
  with inv' show ?thesis by simp
qed

lemma ra_complete_iff:
  assumes inv: "ra_inv c bs pl S (if 0 \<in> S then of_nat (blocks (unat bs) pl) else 0) r"
  shows "ra_complete r \<longleftrightarrow> S = {..<blocks (unat bs) pl}"
proof -
  let ?T = "blocks (unat bs) pl"
  have S: "S \<subseteq> {..<?T}" and T: "?T \<le> 16" and rc: "unat (ra_received r) = card S"
    and tot: "ra_totalBlocks r = (if 0 \<in> S then of_nat ?T else 0)"
    using inv by (simp_all add: ra_inv_def)
  have T1: "1 \<le> ?T" by (simp add: blocks_def)
  have c: "card S \<le> ?T" using S card_mono [of "{..<?T}" S] by simp
  have "card S = ?T \<longleftrightarrow> S = {..<?T}" using S card_subset_eq [of "{..<?T}" S] by auto
  then show ?thesis
    using T T1 rc tot c by (auto simp: ra_complete_def word_less_nat_alt word_le_nat_alt)
qed

lemma ra_data:
  assumes inv: "ra_inv c bs pl {..<blocks (unat bs) pl} tot r"
  shows "ra_length r = length pl" "map_option (take (length pl)) (ra_buffer r) = Some pl"
proof -
  let ?b = "unat bs"
  let ?T = "blocks ?b pl"
  from inv obtain buf where buf: "ra_buffer r = Some buf" "length buf = ra_bufMax r"
      "\<And>j. j < length pl \<Longrightarrow> j div ?b < ?T \<Longrightarrow> buf ! j = pl ! j"
    by (auto simp: ra_inv_def)
  have b: "0 < ?b" and fit: "length pl \<le> ra_bufMax r"
    and up: "ra_length r \<le> length pl"
    and lo: "\<forall>i<?T. i * ?b + length (blk ?b pl i) \<le> ra_length r"
    using inv by (simp_all add: ra_inv_def)
  have cover: "length pl \<le> ?T * ?b" using blocks_bounds(1) [OF b] .
  have T1: "1 \<le> ?T" by (simp add: blocks_def)
  then have l: "?T - 1 < ?T" by simp
  from T1 have "(?T - 1) * ?b + ?b = ?T * ?b" by (simp add: algebra_simps diff_mult_distrib)
  then have "length pl \<le> (?T - 1) * ?b + length (blk ?b pl (?T - 1))"
    using blocks_bounds(3) [OF b l] cover by linarith
  with lo l have "length pl \<le> ra_length r" by (meson order_trans)
  with up show "ra_length r = length pl" by simp
  have "j div ?b < ?T" if "j < length pl" for j
    using that cover b by (simp add: div_less_iff_less_mult)
  then have "take (length pl) buf = pl"
    using buf fit by (intro nth_equalityI) simp_all
  with buf(1) show "map_option (take (length pl)) (ra_buffer r) = Some pl" by simp
qed

lemma ra_feed_inv:
  assumes "ra_inv c bs pl S (if 0 \<in> S then of_nat (blocks (unat bs) pl) else 0) r"
    and "set order \<subseteq> {..<blocks (unat bs) pl}" "unat bs \<le> 245"
  shows "\<exists>r'. ra_feed r (map (frag_apdu dst cluster profile src c (unat bs) pl ack) order) = Some r' \<and>
    ra_inv c bs pl (S \<union> set order) (if 0 \<in> S \<union> set order then of_nat (blocks (unat bs) pl) else 0) r'"
  using assms(1,2)
proof (induction order arbitrary: r S)
  case Nil
  then show ?case by simp
next
  case (Cons i order)
  let ?T = "of_nat (blocks (unat bs) pl) :: u8"
  let ?f = "aps_fragment0\<lparr>fr_valid := True, fr_ackRequest := ack,
      fr_dstEndpoint := dst, fr_clusterId := cluster, fr_profileId := profile, fr_srcEndpoint := src,
      fr_counter := c, fr_firstBlock := (i = 0),
      fr_blockNumber := of_nat (if i = 0 then blocks (unat bs) pl else i),
      fr_payload := Some (blk (unat bs) pl i), fr_payloadLen := length (blk (unat bs) pl i)\<rparr>"
  have i: "i < blocks (unat bs) pl" using Cons.prems(2) by simp
  have b: "0 < unat bs" "blocks (unat bs) pl \<le> 16" using Cons.prems(1) by (simp_all add: ra_inv_def)
  have "ra_inv c bs pl (insert i S) (if i = 0 then ?T else (if 0 \<in> S then ?T else 0)) (fst (ra_addBlock r ?f))"
    by (rule ra_add_more [OF Cons.prems(1) i]) simp_all
  moreover have "(if i = 0 then ?T else (if 0 \<in> S then ?T else 0)) = (if 0 \<in> insert i S then ?T else 0)"
    by auto
  ultimately have "ra_inv c bs pl (insert i S) (if 0 \<in> insert i S then ?T else 0) (fst (ra_addBlock r ?f))"
    by simp
  from Cons.IH [OF this] Cons.prems(2) obtain r' where
    "ra_feed (fst (ra_addBlock r ?f)) (map (frag_apdu dst cluster profile src c (unat bs) pl ack) order) = Some r'"
    "ra_inv c bs pl (insert i S \<union> set order) (if 0 \<in> insert i S \<union> set order then ?T else 0) r'" by auto
  moreover have "ra_receive r (frag_apdu dst cluster profile src c (unat bs) pl ack i) = Some (ra_addBlock r ?f)"
    by (rule ra_receive_block [OF b(2) i b(1) assms(3)])
  ultimately show ?case by (auto simp: case_prod_beta)
qed

section \<open>Properties\<close>

text \<open>The fragmenter emits each block of the ASDU once. For an ASDU of at most 255 blocks and output
  buffers that hold a block, the sender's loop ends, having sent exactly the fragments of blocks
  \<open>0, 1, ...\<close> in order: block \<open>i\<close> carries the bytes from \<open>i * blockSize\<close> on, and the first one
  carries the number of blocks.\<close>

theorem fragmenter_sends_all_blocks:
  assumes "0 < unat bs" "unat bs \<le> 245" "blocks (unat bs) pl \<le> 255" "10 + unat bs \<le> outMax"
  shows "fm_send_all 256 (fm_begin (Some pl) (length pl) bs dst cluster profile src c) (Some outMax) ack =
    Some (map (frag_apdu dst cluster profile src c (unat bs) pl ack) [0..<blocks (unat bs) pl]) \<and>
    concat (map (blk (unat bs) pl) [0..<blocks (unat bs) pl]) = pl"
proof (rule conjI)
  let ?m = "fm_begin (Some pl) (length pl) bs dst cluster profile src c"
  have nz: "bs \<noteq> 0" using assms(1) by auto
  have q: "(length pl + unat bs - 1) div unat bs < 256" using assms(3) by (simp add: blocks_def)
  then have t: "fm_total ?m = of_nat (blocks (unat bs) pl)"
    using nz by (auto simp: fm_begin_def Let_def blocks_def max_def word_unat_eq_iff)
  have m: "fm_payload ?m = Some pl" "fm_payloadLen ?m = length pl" "fm_blockSize ?m = bs"
    "fm_index ?m = of_nat 0" "fm_dstEndpoint ?m = dst" "fm_clusterId ?m = cluster"
    "fm_profileId ?m = profile" "fm_srcEndpoint ?m = src" "fm_counter ?m = c"
    using nz by (simp_all add: fm_begin_def Let_def)
  show "fm_send_all 256 ?m (Some outMax) ack =
    Some (map (frag_apdu dst cluster profile src c (unat bs) pl ack) [0..<blocks (unat bs) pl])"
    using fm_send_all_from [OF assms(1-3) m(1-3) t m(4) assms(4), of 256 ack] assms(3) unfolding m by simp
  have "concat (map (blk (unat bs) pl) [0..<n]) = take (n * unat bs) pl" for n
    by (induction n) (simp_all add: blk_def take_add [symmetric] add.commute)
  then show "concat (map (blk (unat bs) pl) [0..<blocks (unat bs) pl]) = pl"
    using blocks_bounds(1) [OF assms(1), of pl] by simp
qed

lemma fragmenter_sends_all_blocks_witness:
  "\<exists>as. fm_send_all 256 (fm_begin (Some [1, 2, 3, 4, 5]) (length [1 :: u8, 2, 3, 4, 5]) 2 1 6 0x0104 1 9)
     (Some 100) False = Some as \<and> length as = 3"
proof -
  let ?pl = "[1, 2, 3, 4, 5] :: u8 list"
  have h: "0 < unat (2 :: u8)" "unat (2 :: u8) \<le> 245" "blocks (unat (2 :: u8)) ?pl \<le> 255"
    "10 + unat (2 :: u8) \<le> 100" by (simp_all add: blocks_def)
  from fragmenter_sends_all_blocks [THEN conjunct1, OF h, of 1 6 "0x0104" 1 9 False] show ?thesis
    by (simp add: blocks_def numeral_3_eq_3)
qed

text \<open>C22: Reassembly works in any order. An ASDU of at most 16 blocks whose fragments arrive in any order, with
  any of them repeated, is reported complete exactly when every block has arrived, and its buffer
  then holds the ASDU and \<open>length()\<close> its length.\<close>

theorem reassembly_any_order:
  assumes "ra_ready r c bs pl" "0 < unat bs" "unat bs \<le> 245" "blocks (unat bs) pl \<le> 16"
    and "order \<noteq> []" "set order \<subseteq> {..<blocks (unat bs) pl}"
  shows "\<exists>r'. ra_feed r (map (frag_apdu dst cluster profile src c (unat bs) pl ack) order) = Some r' \<and>
    (ra_complete r' \<longleftrightarrow> set order = {..<blocks (unat bs) pl}) \<and>
    (ra_complete r' \<longrightarrow> ra_length r' = length pl \<and> map_option (take (length pl)) (ra_buffer r') = Some pl)"
proof -
  obtain i rest where o: "order = i # rest" using assms(5) by (cases order) auto
  have i: "i < blocks (unat bs) pl" using assms(6) o by simp
  let ?T = "of_nat (blocks (unat bs) pl) :: u8"
  let ?f = "aps_fragment0\<lparr>fr_valid := True, fr_ackRequest := ack,
      fr_dstEndpoint := dst, fr_clusterId := cluster, fr_profileId := profile, fr_srcEndpoint := src,
      fr_counter := c, fr_firstBlock := (i = 0),
      fr_blockNumber := of_nat (if i = 0 then blocks (unat bs) pl else i),
      fr_payload := Some (blk (unat bs) pl i), fr_payloadLen := length (blk (unat bs) pl i)\<rparr>"
  have "ra_inv c bs pl {i} (if i = 0 then ?T else 0) (fst (ra_addBlock r ?f))"
    by (rule ra_add_first [OF assms(1,4) i assms(2)]) simp_all
  moreover have z: "0 \<in> {i} \<longleftrightarrow> i = 0" by auto
  ultimately have i0: "ra_inv c bs pl {i} (if 0 \<in> {i} then ?T else 0) (fst (ra_addBlock r ?f))" by (simp only: z)
  have sub: "set rest \<subseteq> {..<blocks (unat bs) pl}" using assms(6) o by simp
  have s: "{i} \<union> set rest = set order" using o by simp
  from ra_feed_inv [OF i0 sub assms(3), of dst cluster profile src ack, unfolded s] obtain r' where
    r': "ra_feed (fst (ra_addBlock r ?f)) (map (frag_apdu dst cluster profile src c (unat bs) pl ack) rest) = Some r'"
    "ra_inv c bs pl (set order) (if 0 \<in> set order then ?T else 0) r'" by blast
  have "ra_feed r (map (frag_apdu dst cluster profile src c (unat bs) pl ack) order) = Some r'"
    using ra_receive_block [OF assms(4) i assms(2,3), of r dst cluster profile src c ack] r'(1)
    by (simp add: o case_prod_beta)
  moreover have c: "ra_complete r' \<longleftrightarrow> set order = {..<blocks (unat bs) pl}"
    using r'(2) by (rule ra_complete_iff)
  moreover have "ra_length r' = length pl \<and> map_option (take (length pl)) (ra_buffer r') = Some pl"
    if "ra_complete r'"
    using ra_data [OF r'(2) [unfolded that [unfolded c]]] by simp
  ultimately show ?thesis by blast
qed

lemma reassembly_any_order_witness:
  "\<exists>r'. ra_feed (ra_begin \<lparr>ra_buffer = None, ra_bufMax = 0, ra_length = 0, ra_totalBlocks = 0, ra_received = 0,
      ra_counter = 0, ra_haveCounter = False, ra_blockSize = 0, ra_got = []\<rparr> (Some [0, 0, 0, 0, 0, 0]) 6 2)
      (map (frag_apdu 1 6 0x0104 1 9 2 [1, 2, 3, 4, 5] False) [2, 0, 2, 1]) = Some r' \<and>
    ra_complete r' \<and> map_option (take (length [1 :: u8, 2, 3, 4, 5])) (ra_buffer r') = Some [1, 2, 3, 4, 5]"
proof -
  let ?pl = "[1, 2, 3, 4, 5] :: u8 list"
  let ?r = "ra_begin \<lparr>ra_buffer = None, ra_bufMax = 0, ra_length = 0, ra_totalBlocks = 0, ra_received = 0,
      ra_counter = 0, ra_haveCounter = False, ra_blockSize = 0, ra_got = []\<rparr> (Some [0, 0, 0, 0, 0, 0]) 6 2"
  have r: "ra_ready ?r 9 2 ?pl" by (simp add: ra_ready_def ra_begin_def ra_reset_def)
  have h: "0 < unat (2 :: u8)" "unat (2 :: u8) \<le> 245" "blocks (unat (2 :: u8)) ?pl \<le> 16"
    "[2, 0, 2, 1] \<noteq> ([] :: nat list)" "set [2, 0, 2, 1] \<subseteq> {..<blocks (unat (2 :: u8)) ?pl}"
    by (simp_all add: blocks_def)
  have all: "set [2, 0, 2, 1] = {..<blocks (unat (2 :: u8)) ?pl}" by (auto simp: blocks_def)
  from reassembly_any_order [OF r h, of 1 6 "0x0104" 1 False] all obtain r' where
    "ra_feed ?r (map (frag_apdu 1 6 0x0104 1 9 (unat (2 :: u8)) ?pl False) [2, 0, 2, 1]) = Some r'" "ra_complete r'"
    "map_option (take (length ?pl)) (ra_buffer r') = Some ?pl" by blast
  then show ?thesis by (intro exI [of _ r']) simp
qed

section \<open>Where the counts go wrong\<close>

text \<open>The block count is computed in eight bits: an ASDU of 256 one-byte blocks is sent as one block.\<close>

lemma fragmenter_total_wraps:
  "fm_total (fm_begin (Some (replicate 256 0)) 256 1 dst cluster profile src c) = 1"
  by (simp add: fm_begin_def Let_def)

text \<open>
  A block whose index is not below the announced count is stored and counted like the others: after
  the first of two blocks, a stray block 5 completes the ASDU although block 1 never arrived.
\<close>

lemma reassembly_counts_stray_blocks:
  "\<exists>r'. ra_feed (ra_begin \<lparr>ra_buffer = None, ra_bufMax = 0, ra_length = 0, ra_totalBlocks = 0, ra_received = 0,
      ra_counter = 0, ra_haveCounter = False, ra_blockSize = 0, ra_got = []\<rparr> (Some (replicate 20 0)) 20 2)
     [[0x80, 1, 6, 0, 4, 1, 1, 9, 1, 2, 0xAA, 0xBB], [0x80, 1, 6, 0, 4, 1, 1, 9, 2, 5, 0xEE]] = Some r' \<and>
     ra_complete r' \<and> \<not> ra_got r' ! 1"
  by (simp add: ra_receive_def frag_parseFragment_def frag_kHeaderLen_def rd_in ra_addBlock_def
      ra_begin_def ra_reset_def ra_storeBlock_def ra_kMaxBlocks_def ra_complete_def Let_def
      aps_fragment0_def)

end
