(* ===== verification/ZbApsDelivery.thy ===== *)
theory ZbApsDelivery
  imports ZbSlots
begin

text \<open>
  \<open>ZigbeeApsDuplicateTable.h\<close> and \<open>ZigbeeApsRetransmit.h\<close>: the receiver's duplicate filter and the
  sender's table of frames that wait for an APS acknowledgement.
\<close>

section \<open>Duplicate rejection\<close>

record dupe =
  du_used :: bool
  du_srcShort :: u16
  du_srcEndpoint :: u8
  du_lastCounter :: u8
  du_lastSeenMs :: u32

definition dupe0 :: dupe where
  "dupe0 = \<lparr>du_used = False, du_srcShort = 0, du_srcEndpoint = 0, du_lastCounter = 0, du_lastSeenMs = 0\<rparr>"

type_synonym dupe_table = "dupe list option"

definition du_begin :: "dupe_table \<Rightarrow> dupe_table" where
  "du_begin storage = map_option (map (\<lambda>_. dupe0)) storage"

definition du_key :: "dupe \<Rightarrow> u16 \<times> u8" where
  "du_key e = (du_srcShort e, du_srcEndpoint e)"

text \<open>The outer option is the access to \<open>entries_[0]\<close> of a table of capacity 0.\<close>

definition du_checkAndRecord ::
  "dupe_table \<Rightarrow> u16 \<Rightarrow> u8 \<Rightarrow> u8 \<Rightarrow> u32 \<Rightarrow> (dupe_table \<times> bool) option"
where
  "du_checkAndRecord t srcShort srcEndpoint counter now =
     (case t of None \<Rightarrow> Some (None, True)
      | Some es \<Rightarrow>
          (case find_idx (\<lambda>e. du_used e \<and> du_srcShort e = srcShort \<and> du_srcEndpoint e = srcEndpoint) es of
             Some i \<Rightarrow>
               Some (Some (es[i := (es ! i)\<lparr>du_lastCounter := counter, du_lastSeenMs := now\<rparr>]),
                     du_lastCounter (es ! i) \<noteq> counter)
           | None \<Rightarrow>
               (case or_else (find_idx (\<lambda>e. \<not> du_used e) es)
                       (best_idx (\<lambda>_. True) (\<lambda>e s. du_lastSeenMs e < du_lastSeenMs s) es) of
                  None \<Rightarrow> None
                | Some i \<Rightarrow>
                    Some (Some (es[i := (es ! i)\<lparr>du_used := True, du_srcShort := srcShort,
                      du_srcEndpoint := srcEndpoint, du_lastCounter := counter, du_lastSeenMs := now\<rparr>]),
                      True))))"

interpretation dup: slot_table du_used du_key dupe0
  by unfold_locales (simp add: dupe0_def)

definition du_at :: "dupe list \<Rightarrow> u16 \<times> u8 \<Rightarrow> u8 option" where
  "du_at es k = map_option du_lastCounter (slot_get du_used du_key es k)"

lemma du_find_slot:
  "find_idx (\<lambda>e. du_used e \<and> du_srcShort e = s \<and> du_srcEndpoint e = p) es = slot_find du_used du_key es (s, p)"
  by (simp add: slot_find_def du_key_def)

lemmas du_pick = slot_pick_oldest [of du_used du_key]

lemma du_check_spec:
  assumes u: "slot_uniq du_used du_key es" and ne: "es \<noteq> []"
  obtains es' i where
    "du_checkAndRecord (Some es) s p c now = Some (Some es', du_at es (s, p) \<noteq> Some c)"
    "slot_pick du_used du_key (\<lambda>e s. du_lastSeenMs e < du_lastSeenMs s) es (s, p) = Some i"
    "es' = es[i := \<lparr>du_used = True, du_srcShort = s, du_srcEndpoint = p, du_lastCounter = c, du_lastSeenMs = now\<rparr>]"
proof -
  let ?better = "\<lambda>e s. du_lastSeenMs e < du_lastSeenMs s"
  let ?e = "\<lparr>du_used = True, du_srcShort = s, du_srcEndpoint = p, du_lastCounter = c, du_lastSeenMs = now\<rparr>"
  from slot_pick_ex [OF ne, of du_used du_key ?better "(s, p)"]
  obtain i where i: "slot_pick du_used du_key ?better es (s, p) = Some i" ..
  have "du_checkAndRecord (Some es) s p c now = Some (Some (es[i := ?e]), du_at es (s, p) \<noteq> Some c)"
  proof (cases "slot_find du_used du_key es (s, p)")
    case None
    have ov: "(es ! i)\<lparr>du_used := True, du_srcShort := s, du_srcEndpoint := p, du_lastCounter := c,
        du_lastSeenMs := now\<rparr> = ?e" by (cases "es ! i") simp
    show ?thesis
      using None i by (simp add: du_checkAndRecord_def du_find_slot du_pick [OF None] du_at_def slot_get_def ov)
  next
    case (Some j)
    with i have "j = i" by (simp add: slot_pick_def)
    moreover have "(es ! j)\<lparr>du_lastCounter := c, du_lastSeenMs := now\<rparr> = ?e"
      using slot_find_sat [OF Some] by (cases "es ! j") (simp add: du_key_def)
    ultimately show ?thesis
      using Some by (simp add: du_checkAndRecord_def du_find_slot du_at_def slot_get_def)
  qed
  with i show thesis using that by blast
qed

fun du_run :: "dupe_table \<Rightarrow> ((u16 \<times> u8) \<times> u8 \<times> u32) list \<Rightarrow> (dupe_table \<times> bool list) option" where
  "du_run t [] = Some (t, [])"
| "du_run t ((k, c, now) # as) =
     (case du_checkAndRecord t (fst k) (snd k) c now of
        None \<Rightarrow> None
      | Some (t, b) \<Rightarrow> map_option (\<lambda>(t, bs). (t, b # bs)) (du_run t as))"

text \<open>The specification: a map from peers to the counter last seen from them.\<close>

fun du_ref :: "(u16 \<times> u8 \<Rightarrow> u8 option) \<Rightarrow> ((u16 \<times> u8) \<times> u8 \<times> u32) list \<Rightarrow> bool list" where
  "du_ref m [] = []"
| "du_ref m ((k, c, now) # as) = (m k \<noteq> Some c) # du_ref (m(k := Some c)) as"

lemma du_run_ref:
  assumes "slot_uniq du_used du_key es" "es \<noteq> []"
    and "card (dom (slot_get du_used du_key es) \<union> fst ` set as) \<le> length es"
  shows "\<exists>es'. du_run (Some es) as = Some (Some es', du_ref (du_at es) as)"
  using assms
proof (induction as arbitrary: es)
  case Nil
  then show ?case by simp
next
  case (Cons a as)
  obtain s p c now where a: "a = ((s, p), c, now)" by (metis surj_pair)
  let ?k = "(s, p)"
  let ?e = "\<lparr>du_used = True, du_srcShort = s, du_srcEndpoint = p, du_lastCounter = c, du_lastSeenMs = now\<rparr>"
  have e: "du_used ?e" "du_key ?e = ?k" by (simp_all add: du_key_def)
  obtain es' i where st: "du_checkAndRecord (Some es) s p c now = Some (Some es', du_at es ?k \<noteq> Some c)"
    and i: "slot_pick du_used du_key (\<lambda>e s. du_lastSeenMs e < du_lastSeenMs s) es ?k = Some i"
    and es': "es' = es[i := ?e]"
    using du_check_spec [OF Cons.prems(1,2)] by blast
  have fin: "finite (dom (slot_get du_used du_key es))" using Cons.prems(1) by simp
  have "card (insert ?k (dom (slot_get du_used du_key es))) \<le>
      card (dom (slot_get du_used du_key es) \<union> fst ` set (a # as))"
    using fin by (intro card_mono) (auto simp: a)
  with Cons.prems(3) have "card (insert ?k (dom (slot_get du_used du_key es))) \<le> length es" by linarith
  from dup.put_pick_fits [OF Cons.prems(1) i e this]
  have g: "slot_get du_used du_key es' = (slot_get du_used du_key es)(?k := Some ?e)" by (simp add: es')
  have u: "slot_uniq du_used du_key es'" using dup.put_pick(1) [OF Cons.prems(1) i e] by (simp add: es')
  have m: "du_at es' = (du_at es)(?k := Some c)" using g by (auto simp: du_at_def)
  have "card (dom (slot_get du_used du_key es') \<union> fst ` set as) \<le> length es'"
  proof -
    have "dom (slot_get du_used du_key es') = insert ?k (dom (slot_get du_used du_key es))" using g by simp
    moreover have "length es' = length es" by (simp add: es')
    ultimately show ?thesis using Cons.prems(3) by (simp add: a)
  qed
  moreover have "es' \<noteq> []" using Cons.prems(2) by (simp add: es')
  ultimately obtain es'' where "du_run (Some es') as = Some (Some es'', du_ref (du_at es') as)"
    using Cons.IH [OF u] by blast
  then show ?case using st by (simp add: a m)
qed

text \<open>The APS duplicate filter refines a map from peers to last counters. For any sequence of frames
  from at most as many peers (short address and endpoint) as the table has slots,
  \<open>checkAndRecord\<close> reports a frame as new exactly when its counter differs from the one last seen
  from that peer.\<close>

theorem duplicate_filter_refines_map:
  assumes "storage \<noteq> []" "card (fst ` set as) \<le> length storage"
  shows "map_option snd (du_run (du_begin (Some storage)) as) = Some (du_ref Map.empty as)"
proof -
  let ?es = "map (\<lambda>_. dupe0) storage"
  have r: "?es = replicate (length storage) dupe0" by (simp add: map_replicate_const)
  have g: "slot_get du_used du_key ?es = Map.empty" "slot_uniq du_used du_key ?es"
    unfolding r by simp_all
  then have "du_at ?es = Map.empty" by (auto simp: du_at_def)
  with du_run_ref [OF g(2), of as] assms g(1) show ?thesis by (auto simp: du_begin_def)
qed

lemma duplicate_filter_refines_map_witness:
  "map_option snd (du_run (du_begin (Some [dupe0, dupe0]))
     [((5, 1), 10, 0), ((6, 1), 10, 1), ((5, 1), 10, 2), ((5, 1), 11, 3)]) = Some [True, True, False, True]"
proof -
  let ?as = "[((5, 1), 10, 0), ((6, 1), 10, 1), ((5, 1), 10, 2), ((5, 1), 11, 3)]
    :: ((u16 \<times> u8) \<times> u8 \<times> u32) list"
  have "fst ` set ?as = {(5, 1), (6, 1)}" by auto
  then have "card (fst ` set ?as) \<le> length [dupe0, dupe0]" by simp
  from duplicate_filter_refines_map [OF _ this] show ?thesis by simp
qed

end
