(* ===== verification/ZbRetransmit.thy ===== *)
theory ZbRetransmit
  imports ZbSlots ZbAps
begin

text \<open>
  \<open>ZigbeeApsRetransmit.h\<close>: frames sent with an acknowledgement request wait here until their
  ACK arrives or their tries run out. The caller's loop re-sends what \<open>due\<close> returns and calls
  \<open>markAttempted\<close>; \<open>rx_service\<close> is one turn of it.
\<close>

section \<open>The table\<close>

record pending =
  pe_used :: bool
  pe_dstShort :: u16
  pe_apsCounter :: u8
  pe_srcEndpoint :: u8
  pe_nextAttemptMs :: u32
  pe_intervalMs :: u16
  pe_triesLeft :: u8
  pe_apdu :: "u8 list"
  pe_apduLen :: nat

definition pending0 :: pending where
  "pending0 = \<lparr>pe_used = False, pe_dstShort = 0, pe_apsCounter = 0, pe_srcEndpoint = 0,
     pe_nextAttemptMs = 0, pe_intervalMs = 0, pe_triesLeft = 0,
     pe_apdu = replicate aps_kMaxFrame 0, pe_apduLen = 0\<rparr>"

record rx_stats =
  st_queued :: u32
  st_delivered :: u32
  st_retransmits :: u32
  st_dropped :: u32

definition rx_stats0 :: rx_stats where
  "rx_stats0 = \<lparr>st_queued = 0, st_delivered = 0, st_retransmits = 0, st_dropped = 0\<rparr>"

record retransmit =
  rx_entries :: "pending list option"
  rx_stats :: rx_stats

definition rx_begin :: "pending list option \<Rightarrow> retransmit" where
  "rx_begin storage = \<lparr>rx_entries = map_option (map (\<lambda>_. pending0)) storage, rx_stats = rx_stats0\<rparr>"

definition rx_add ::
  "retransmit \<Rightarrow> u16 \<Rightarrow> u8 \<Rightarrow> u8 \<Rightarrow> ptr \<Rightarrow> nat \<Rightarrow> u8 \<Rightarrow> u16 \<Rightarrow> u32 \<Rightarrow> retransmit \<times> nat option"
where
  "rx_add r dstShort apsCounter srcEndpoint apdu apduLen maxRetries intervalMs now =
     (case rx_entries r of None \<Rightarrow> (r, None)
      | Some es \<Rightarrow>
          if apdu = None \<or> apduLen > aps_kMaxFrame then (r, None)
          else case find_idx (\<lambda>e. \<not> pe_used e) es of
            None \<Rightarrow> (r, None)
          | Some i \<Rightarrow>
              (r\<lparr>rx_entries := Some (es[i := (es ! i)\<lparr>pe_used := True, pe_dstShort := dstShort,
                   pe_apsCounter := apsCounter, pe_srcEndpoint := srcEndpoint,
                   pe_nextAttemptMs := now + ucast intervalMs, pe_intervalMs := intervalMs,
                   pe_triesLeft := maxRetries, pe_apduLen := apduLen,
                   pe_apdu := copied apdu apduLen @ drop apduLen (pe_apdu (es ! i))\<rparr>]),
                 rx_stats := (rx_stats r)\<lparr>st_queued := st_queued (rx_stats r) + 1\<rparr>\<rparr>,
               Some i))"

definition rx_onAck :: "retransmit \<Rightarrow> u8 \<Rightarrow> u8 \<Rightarrow> retransmit \<times> bool" where
  "rx_onAck r apsCounter ackDstEndpoint =
     (case rx_entries r of None \<Rightarrow> (r, False)
      | Some es \<Rightarrow>
          (case find_idx (\<lambda>e. pe_used e \<and> pe_apsCounter e = apsCounter \<and> pe_srcEndpoint e = ackDstEndpoint) es of
             None \<Rightarrow> (r, False)
           | Some i \<Rightarrow>
               (r\<lparr>rx_entries := Some (es[i := pending0]),
                  rx_stats := (rx_stats r)\<lparr>st_delivered := st_delivered (rx_stats r) + 1\<rparr>\<rparr>, True)))"

definition pe_waiting :: "u32 \<Rightarrow> pending \<Rightarrow> bool" where
  "pe_waiting now e \<longleftrightarrow> \<not> pe_used e \<or> sint (now - pe_nextAttemptMs e) < 0"

text \<open>The loop of \<open>due\<close>: entries whose time has come and that have no tries left are dropped on
  the way to the first one that can be re-sent.\<close>

fun rx_scan :: "u32 \<Rightarrow> pending list \<Rightarrow> pending list \<times> u32 \<times> nat option" where
  "rx_scan now [] = ([], 0, None)"
| "rx_scan now (e # es) =
     (if pe_waiting now e then
        (case rx_scan now es of (es, d, i) \<Rightarrow> (e # es, d, map_option Suc i))
      else if pe_triesLeft e = 0 then
        (case rx_scan now es of (es, d, i) \<Rightarrow> (pending0 # es, d + 1, map_option Suc i))
      else (e # es, 0, Some 0))"

definition rx_due :: "retransmit \<Rightarrow> u32 \<Rightarrow> retransmit \<times> nat option" where
  "rx_due r now =
     (case rx_entries r of None \<Rightarrow> (r, None)
      | Some es \<Rightarrow>
          (case rx_scan now es of (es, d, i) \<Rightarrow>
             (r\<lparr>rx_entries := Some es,
                rx_stats := (rx_stats r)\<lparr>st_dropped := st_dropped (rx_stats r) + d\<rparr>\<rparr>, i)))"

definition rx_markAttempted :: "retransmit \<Rightarrow> nat option \<Rightarrow> u32 \<Rightarrow> retransmit" where
  "rx_markAttempted r entry now =
     (case (entry, rx_entries r) of
        (Some i, Some es) \<Rightarrow>
          if \<not> pe_used (es ! i) then r
          else
            let e = es ! i;
                e = (if 0 < pe_triesLeft e then e\<lparr>pe_triesLeft := pe_triesLeft e - 1\<rparr> else e);
                e = e\<lparr>pe_nextAttemptMs := now + ucast (pe_intervalMs e)\<rparr>
            in r\<lparr>rx_entries := Some (es[i := e]),
                 rx_stats := (rx_stats r)\<lparr>st_retransmits := st_retransmits (rx_stats r) + 1\<rparr>\<rparr>
      | _ \<Rightarrow> r)"

definition rx_pending :: "retransmit \<Rightarrow> nat" where
  "rx_pending r = (case rx_entries r of None \<Rightarrow> 0 | Some es \<Rightarrow> used_count pe_used es)"

definition rx_hasPendingFor :: "retransmit \<Rightarrow> u16 \<Rightarrow> u8 \<Rightarrow> bool" where
  "rx_hasPendingFor r dstShort srcEndpoint \<longleftrightarrow>
     (case rx_entries r of None \<Rightarrow> False
      | Some es \<Rightarrow> \<exists>e\<in>set es. pe_used e \<and> pe_dstShort e = dstShort \<and> pe_srcEndpoint e = srcEndpoint)"

section \<open>The caller's operations\<close>

definition rx_service :: "retransmit \<Rightarrow> u32 \<Rightarrow> retransmit \<times> nat option" where
  "rx_service r now = (case rx_due r now of (r, i) \<Rightarrow> (rx_markAttempted r i now, i))"

datatype rx_op =
    AddFrame u16 u8 u8 "u8 list" u8 u16 u32
  | AckFrame u8 u8
  | Service u32

fun rx_step :: "retransmit \<Rightarrow> rx_op \<Rightarrow> retransmit" where
  "rx_step r (AddFrame dst c ep apdu maxR interval now) =
     fst (rx_add r dst c ep (Some apdu) (length apdu) maxR interval now)"
| "rx_step r (AckFrame c ep) = fst (rx_onAck r c ep)"
| "rx_step r (Service now) = fst (rx_service r now)"

fun rx_budget :: "rx_op list \<Rightarrow> nat" where
  "rx_budget [] = 0"
| "rx_budget (AddFrame dst c ep apdu maxR interval now # ops) = unat maxR + rx_budget ops"
| "rx_budget (AckFrame c ep # ops) = rx_budget ops"
| "rx_budget (Service now # ops) = rx_budget ops"

definition rx_tries :: "pending list \<Rightarrow> nat" where
  "rx_tries es = sum_list (map (\<lambda>e. if pe_used e then unat (pe_triesLeft e) else 0) es)"

lemma sum_list_update_nat:
  "i < length xs \<Longrightarrow> sum_list (map f (xs[i := x])) + f (xs ! i) = sum_list (map f xs) + (f x :: nat)"
proof (induction xs arbitrary: i)
  case (Cons y xs)
  then show ?case by (cases i) auto
qed simp

lemma pending0_unused [simp]: "\<not> pe_used pending0"
  by (simp add: pending0_def)

lemma rx_scan_facts:
  assumes "rx_scan now es = (es', d, i)"
  shows "length es' = length es" "of_nat (used_count pe_used es) = d + of_nat (used_count pe_used es')"
    "rx_tries es' = rx_tries es"
    "i = Some k \<Longrightarrow> k < length es \<and> es' ! k = es ! k \<and> \<not> pe_waiting now (es ! k) \<and> 0 < pe_triesLeft (es ! k)"
    "i = None \<Longrightarrow> \<forall>e\<in>set es'. pe_waiting now e"
proof -
  have "length es' = length es \<and> of_nat (used_count pe_used es) = d + of_nat (used_count pe_used es') \<and>
    rx_tries es' = rx_tries es \<and>
    (\<forall>k. i = Some k \<longrightarrow> k < length es \<and> es' ! k = es ! k \<and> \<not> pe_waiting now (es ! k) \<and> 0 < pe_triesLeft (es ! k)) \<and>
    (i = None \<longrightarrow> (\<forall>e\<in>set es'. pe_waiting now e))"
    using assms
  proof (induction es arbitrary: es' d i)
    case Nil
    then show ?case by simp
  next
    case (Cons e es)
    obtain es1 d1 i1 where s: "rx_scan now es = (es1, d1, i1)" by (metis prod_cases3)
    note IH = Cons.IH [OF s]
    have w0: "pe_waiting now pending0" by (simp add: pe_waiting_def)
    consider "pe_waiting now e" | "\<not> pe_waiting now e" "pe_triesLeft e = 0"
      | "\<not> pe_waiting now e" "pe_triesLeft e \<noteq> 0" by blast
    then show ?case
    proof cases
      case 1
      with Cons.prems s IH show ?thesis by (auto simp: used_count_def rx_tries_def add.assoc add.left_commute)
    next
      case 2
      then have "pe_used e" by (simp add: pe_waiting_def)
      with 2 Cons.prems s IH w0 show ?thesis
        by (auto simp: used_count_def rx_tries_def add.assoc add.left_commute)
    next
      case 3
      with Cons.prems show ?thesis by (auto simp: word_neq_0_conv)
    qed
  qed
  then show "length es' = length es" "of_nat (used_count pe_used es) = d + of_nat (used_count pe_used es')"
    "rx_tries es' = rx_tries es"
    "i = Some k \<Longrightarrow> k < length es \<and> es' ! k = es ! k \<and> \<not> pe_waiting now (es ! k) \<and> 0 < pe_triesLeft (es ! k)"
    "i = None \<Longrightarrow> \<forall>e\<in>set es'. pe_waiting now e" by blast+
qed

lemma rx_budget_append: "rx_budget (ops @ ops') = rx_budget ops + rx_budget ops'"
  by (induction ops rule: rx_budget.induct) simp_all

definition rx_inv :: "retransmit \<Rightarrow> nat \<Rightarrow> bool" where
  "rx_inv r B \<longleftrightarrow>
     (\<exists>es. rx_entries r = Some es \<and>
        st_queued (rx_stats r) = st_delivered (rx_stats r) + st_dropped (rx_stats r) + of_nat (used_count pe_used es) \<and>
        unat (st_retransmits (rx_stats r)) + rx_tries es \<le> B)"

lemma rx_tries_update:
  "i < length es \<Longrightarrow> rx_tries (es[i := e]) + (if pe_used (es ! i) then unat (pe_triesLeft (es ! i)) else 0) =
     rx_tries es + (if pe_used e then unat (pe_triesLeft e) else 0)"
  unfolding rx_tries_def by (rule sum_list_update_nat)

lemma unat_Suc_le: "unat (w + 1 :: u32) \<le> unat w + 1"
  by (simp add: unat_word_ariths)

lemma rx_inv_begin: "rx_inv (rx_begin (Some storage)) 0"
proof -
  have "rx_tries (map (\<lambda>_. pending0) storage) = 0" "used_count pe_used (map (\<lambda>_. pending0) storage) = 0"
    by (induction storage) (simp_all add: rx_tries_def used_count_def)
  then show ?thesis by (simp add: rx_inv_def rx_begin_def rx_stats0_def)
qed

lemma rx_inv_add:
  assumes "rx_inv r B"
  shows "rx_inv (rx_step r (AddFrame dst c ep apdu maxR interval now)) (B + unat maxR)"
proof -
  from assms obtain es where es: "rx_entries r = Some es"
      "st_queued (rx_stats r) = st_delivered (rx_stats r) + st_dropped (rx_stats r) + of_nat (used_count pe_used es)"
      "unat (st_retransmits (rx_stats r)) + rx_tries es \<le> B" by (auto simp: rx_inv_def)
  show ?thesis
  proof (cases "find_idx (\<lambda>e. \<not> pe_used e) es")
    case None
    with es show ?thesis by (simp add: rx_add_def rx_inv_def)
  next
    case (Some i)
    have i: "i < length es" "\<not> pe_used (es ! i)" using find_idx_bound [OF Some] find_idx_sat [OF Some] by auto
    have "used_count pe_used (es[i := e]) = Suc (used_count pe_used es)" if "pe_used e" for e
      using used_count_update [OF i(1), of pe_used e] i(2) that by simp
    moreover have "rx_tries (es[i := e]) = rx_tries es + unat (pe_triesLeft e)" if "pe_used e" for e
      using rx_tries_update [OF i(1), of e] i(2) that by simp
    ultimately show ?thesis using es Some by (simp add: rx_add_def rx_inv_def)
  qed
qed

lemma rx_inv_ack:
  assumes "rx_inv r B"
  shows "rx_inv (rx_step r (AckFrame c ep)) B"
proof -
  from assms obtain es where es: "rx_entries r = Some es"
      "st_queued (rx_stats r) = st_delivered (rx_stats r) + st_dropped (rx_stats r) + of_nat (used_count pe_used es)"
      "unat (st_retransmits (rx_stats r)) + rx_tries es \<le> B" by (auto simp: rx_inv_def)
  let ?P = "\<lambda>e. pe_used e \<and> pe_apsCounter e = c \<and> pe_srcEndpoint e = ep"
  show ?thesis
  proof (cases "find_idx ?P es")
    case None
    with es show ?thesis by (simp add: rx_onAck_def rx_inv_def)
  next
    case (Some i)
    have i: "i < length es" "pe_used (es ! i)" using find_idx_bound [OF Some] find_idx_sat [OF Some] by auto
    have "used_count pe_used es = Suc (used_count pe_used (es[i := pending0]))"
      using used_count_update [OF i(1), of pe_used pending0] i(2) by simp
    moreover have "rx_tries (es[i := pending0]) \<le> rx_tries es"
      using rx_tries_update [OF i(1), of pending0] by simp
    ultimately show ?thesis using es Some by (simp add: rx_onAck_def rx_inv_def)
  qed
qed

lemma rx_inv_service:
  assumes "rx_inv r B"
  shows "rx_inv (rx_step r (Service now)) B"
proof -
  from assms obtain es where es: "rx_entries r = Some es"
      "st_queued (rx_stats r) = st_delivered (rx_stats r) + st_dropped (rx_stats r) + of_nat (used_count pe_used es)"
      "unat (st_retransmits (rx_stats r)) + rx_tries es \<le> B" by (auto simp: rx_inv_def)
  obtain es' d i where s: "rx_scan now es = (es', d, i)" by (metis prod_cases3)
  note f = rx_scan_facts [OF s]
  show ?thesis
  proof (cases i)
    case None
    with es s f(2,3) show ?thesis
      by (simp add: rx_service_def rx_due_def rx_markAttempted_def rx_inv_def)
  next
    case (Some k)
    note k = f(4) [OF Some]
    have k': "k < length es'" "pe_used (es' ! k)" "0 < pe_triesLeft (es' ! k)"
      using k f(1) by (auto simp: pe_waiting_def)
    let ?e = "(es' ! k)\<lparr>pe_triesLeft := pe_triesLeft (es' ! k) - 1, pe_nextAttemptMs := now + ucast (pe_intervalMs (es' ! k))\<rparr>"
    have "used_count pe_used (es'[k := ?e]) = used_count pe_used es'"
      using used_count_update [OF k'(1), of pe_used ?e] k'(2) by simp
    moreover have "rx_tries (es'[k := ?e]) + 1 = rx_tries es'"
    proof -
      have "Suc (unat (pe_triesLeft (es' ! k) - 1)) = unat (pe_triesLeft (es' ! k))"
      proof -
        have "pe_triesLeft (es' ! k) \<noteq> 0" using k'(3) by auto
        with k'(3) show ?thesis by (simp add: unat_minus_one word_less_nat_alt)
      qed
      then show ?thesis using rx_tries_update [OF k'(1), of ?e] k'(2) by simp
    qed
    moreover have "unat (st_retransmits (rx_stats r) + 1) \<le> unat (st_retransmits (rx_stats r)) + 1"
      by (rule unat_Suc_le)
    ultimately have "unat (st_retransmits (rx_stats r) + 1) + rx_tries (es'[k := ?e]) \<le> B"
      "used_count pe_used (es'[k := ?e]) = used_count pe_used es'"
      using es(3) f(3) by simp_all
    with es s f(2) Some k' show ?thesis
      by (simp add: rx_service_def rx_due_def rx_markAttempted_def rx_inv_def Let_def)
  qed
qed

section \<open>Properties\<close>

text \<open>C27: No acked frame is lost from the books. After any sequence of \<open>add\<close>, \<open>onAck\<close> and service turns, the
  frames queued are exactly those delivered, dropped or still pending, and the retransmissions
  never exceed the retry budgets of the frames added.\<close>

theorem retransmit_conservation:
  "let r = foldl rx_step (rx_begin (Some storage)) ops in
     st_queued (rx_stats r) = st_delivered (rx_stats r) + st_dropped (rx_stats r) + of_nat (rx_pending r) \<and>
     unat (st_retransmits (rx_stats r)) \<le> rx_budget ops"
proof -
  have "rx_inv (foldl rx_step (rx_begin (Some storage)) ops) (rx_budget ops)"
  proof (induction ops rule: rev_induct)
    case Nil
    then show ?case by (simp add: rx_inv_begin)
  next
    case (snoc op ops)
    then show ?case
      by (cases op) (simp_all del: rx_step.simps add: rx_budget_append rx_inv_add rx_inv_ack rx_inv_service)
  qed
  then show ?thesis by (auto simp: rx_inv_def rx_pending_def Let_def)
qed

fun gaps_ok :: "u32 \<Rightarrow> u16 \<Rightarrow> u32 list \<Rightarrow> bool" where
  "gaps_ok t interval [] = True"
| "gaps_ok t interval (n # ns) = (ucast interval \<le> n - t \<and> n - t < 0x80000000 \<and> gaps_ok n interval ns)"

fun rx_services :: "retransmit \<Rightarrow> u32 list \<Rightarrow> retransmit \<times> nat option list" where
  "rx_services r [] = (r, [])"
| "rx_services r (now # ns) =
     (let (r, i) = rx_service r now; (r, is) = rx_services r ns in (r, i # is))"

lemma gap_not_waiting:
  assumes "pe_used e" "pe_nextAttemptMs e = t + ucast (interval :: u16)"
    and "ucast interval \<le> now - t" "now - t < 0x80000000"
  shows "\<not> pe_waiting now e"
proof -
  have "(ucast interval :: u32) < 0x80000000" using assms(3,4) by (rule le_less_trans)
  from deadline_reached(2) [OF assms(4) this, of t] assms show ?thesis by (simp add: pe_waiting_def)
qed

lemma rx_scan_unused: "\<forall>e\<in>set es. \<not> pe_used e \<Longrightarrow> rx_scan now es = (es, 0, None)"
  by (induction es) (auto simp: pe_waiting_def)

lemma rx_services_single:
  assumes "rx_entries r = Some (e # es)" "\<forall>e\<in>set es. \<not> pe_used e" "pe_used e" "pe_intervalMs e = interval"
    and "pe_nextAttemptMs e = t + ucast interval" "unat (pe_triesLeft e) = n"
    and "length ns = Suc n" "gaps_ok t interval ns"
  shows "snd (rx_services r ns) = replicate n (Some 0) @ [None] \<and> rx_pending (fst (rx_services r ns)) = 0 \<and>
    st_dropped (rx_stats (fst (rx_services r ns))) = st_dropped (rx_stats r) + 1 \<and>
    st_retransmits (rx_stats (fst (rx_services r ns))) = st_retransmits (rx_stats r) + of_nat n"
  using assms
proof (induction n arbitrary: r e t ns)
  case 0
  then obtain now where ns: "ns = [now]" by (auto simp: length_Suc_conv)
  have w: "\<not> pe_waiting now e" using 0 ns by (intro gap_not_waiting) auto
  have "pe_triesLeft e = 0" using 0(6) by (simp add: unat_eq_zero)
  moreover have "used_count pe_used es = 0" using 0(2) by (simp add: used_count_def)
  ultimately show ?case
    using 0 w ns rx_scan_unused [OF 0(2)]
    by (simp add: rx_service_def rx_due_def rx_markAttempted_def rx_pending_def used_count_def)
next
  case (Suc n)
  then obtain now ns' where ns: "ns = now # ns'" "length ns' = Suc n" by (auto simp: length_Suc_conv)
  have w: "\<not> pe_waiting now e" using Suc.prems ns by (intro gap_not_waiting) auto
  have nz: "pe_triesLeft e \<noteq> 0" using Suc.prems(6) by auto
  then have pos: "0 < pe_triesLeft e" by (simp add: word_neq_0_conv)
  let ?e = "e\<lparr>pe_triesLeft := pe_triesLeft e - 1, pe_nextAttemptMs := now + ucast interval\<rparr>"
  let ?r = "r\<lparr>rx_entries := Some (?e # es), rx_stats := (rx_stats r)\<lparr>st_retransmits := st_retransmits (rx_stats r) + 1\<rparr>\<rparr>"
  have s: "rx_service r now = (?r, Some 0)"
    using Suc.prems w nz pos
    by (simp add: rx_service_def rx_due_def rx_markAttempted_def Let_def)
  have "unat (pe_triesLeft ?e) = n" using Suc.prems(6) nz by (simp add: unat_minus_one)
  then have "snd (rx_services ?r ns') = replicate n (Some 0) @ [None] \<and> rx_pending (fst (rx_services ?r ns')) = 0 \<and>
    st_dropped (rx_stats (fst (rx_services ?r ns'))) = st_dropped (rx_stats ?r) + 1 \<and>
    st_retransmits (rx_stats (fst (rx_services ?r ns'))) = st_retransmits (rx_stats ?r) + of_nat n"
    using Suc.prems ns by (intro Suc.IH [of ?r ?e now]) auto
  then show ?case by (simp add: ns s case_prod_beta Let_def)
qed

text \<open>A frame that is never acknowledged is sent again exactly \<open>maxRetries\<close> times and then given up. If
  the table is serviced at instants whose gaps are at least the retry interval (and below \<open>2 ^ 31\<close>
  ms, across the wrap of the clock), the first \<open>maxRetries\<close> turns re-send it, the next one drops
  it, and nothing is pending then.\<close>

theorem retransmit_gives_up:
  assumes "rx_add (rx_begin (Some storage)) dst c ep (Some apdu) (length apdu) maxR interval now = (r, Some i)"
    and "length ns = Suc (unat maxR)" "gaps_ok now interval ns"
  shows "snd (rx_services r ns) = replicate (unat maxR) (Some 0) @ [None] \<and>
    rx_pending (fst (rx_services r ns)) = 0 \<and>
    st_dropped (rx_stats (fst (rx_services r ns))) = 1 \<and>
    st_retransmits (rx_stats (fst (rx_services r ns))) = of_nat (unat maxR)"
proof -
  have "storage \<noteq> []" using assms(1) by (auto simp: rx_add_def rx_begin_def split: if_splits)
  then obtain x xs where st: "storage = x # xs" by (cases storage) auto
  let ?e = "pending0\<lparr>pe_used := True, pe_dstShort := dst, pe_apsCounter := c, pe_srcEndpoint := ep,
    pe_nextAttemptMs := now + ucast interval, pe_intervalMs := interval, pe_triesLeft := maxR,
    pe_apduLen := length apdu, pe_apdu := apdu @ drop (length apdu) (pe_apdu pending0)\<rparr>"
  have r: "r = \<lparr>rx_entries = Some (?e # map (\<lambda>_. pending0) xs), rx_stats = rx_stats0\<lparr>st_queued := 1\<rparr>\<rparr>"
    using assms(1) by (auto simp: rx_add_def rx_begin_def st rx_stats0_def split: if_splits)
  have "snd (rx_services r ns) = replicate (unat maxR) (Some 0) @ [None] \<and> rx_pending (fst (rx_services r ns)) = 0 \<and>
    st_dropped (rx_stats (fst (rx_services r ns))) = st_dropped (rx_stats r) + 1 \<and>
    st_retransmits (rx_stats (fst (rx_services r ns))) = st_retransmits (rx_stats r) + of_nat (unat maxR)"
    by (rule rx_services_single [of r ?e "map (\<lambda>_. pending0) xs" interval now "unat maxR" ns])
      (use assms(2,3) in \<open>simp_all add: r\<close>)
  then show ?thesis by (simp add: r rx_stats0_def)
qed

lemma retransmit_gives_up_witness:
  "\<exists>r i. rx_add (rx_begin (Some [pending0])) 7 1 1 (Some [1, 2]) (length [1 :: u8, 2]) 2 100 0xFFFFFFF0 = (r, Some i) \<and>
     snd (rx_services r [0x60, 0xC4, 0x200]) = [Some 0, Some 0, None]"
proof -
  have "snd (rx_add (rx_begin (Some [pending0])) 7 1 1 (Some [1, 2]) (length [1 :: u8, 2]) 2 100 0xFFFFFFF0) = Some 0"
    by (simp add: rx_add_def rx_begin_def)
  then obtain r where r: "rx_add (rx_begin (Some [pending0])) 7 1 1 (Some [1, 2]) (length [1 :: u8, 2]) 2 100 0xFFFFFFF0 = (r, Some 0)"
    by (metis prod.collapse)
  have "length [0x60, 0xC4, 0x200] = Suc (unat (2 :: u8))" "gaps_ok 0xFFFFFFF0 100 [0x60, 0xC4, 0x200]"
    by simp_all
  note g = retransmit_gives_up [THEN conjunct1, OF r this]
  have "unat (2 :: u8) = Suc (Suc 0)" by simp
  then have "snd (rx_services r [0x60, 0xC4, 0x200]) = [Some 0, Some 0, None]"
    unfolding g by (simp only: replicate.simps append.simps)
  with r show ?thesis by blast
qed

end
