(* ===== verification/ZbGroups.thy ===== *)
theory ZbGroups
  imports ZbSlots
begin

text \<open>
  \<open>ZigbeeGroupTable.h\<close> (the groups a device belongs to, a dense array with a count) and
  \<open>ZigbeeBindingTable.h\<close> (source endpoint and cluster to destination, an array of slots walked
  with a cursor).
\<close>

section \<open>Group table\<close>

record group_table =
  gt_groups :: "u16 list option"
  gt_count :: nat

definition gt_begin :: "u16 list option \<Rightarrow> group_table" where
  "gt_begin storage = \<lparr>gt_groups = storage, gt_count = 0\<rparr>"

definition gt_capacity :: "group_table \<Rightarrow> nat" where
  "gt_capacity g = (case gt_groups g of None \<Rightarrow> 0 | Some xs \<Rightarrow> length xs)"

definition gt_isMember :: "group_table \<Rightarrow> u16 \<Rightarrow> bool" where
  "gt_isMember g x \<longleftrightarrow> (case gt_groups g of None \<Rightarrow> False | Some xs \<Rightarrow> x \<in> set (take (gt_count g) xs))"

definition gt_add :: "group_table \<Rightarrow> u16 \<Rightarrow> group_table \<times> bool" where
  "gt_add g x =
     (case gt_groups g of None \<Rightarrow> (g, False)
      | Some xs \<Rightarrow>
          if gt_isMember g x then (g, True)
          else if gt_capacity g \<le> gt_count g then (g, False)
          else (g\<lparr>gt_groups := Some (xs[gt_count g := x]), gt_count := gt_count g + 1\<rparr>, True))"

definition gt_remove :: "group_table \<Rightarrow> u16 \<Rightarrow> group_table \<times> bool" where
  "gt_remove g x =
     (case gt_groups g of None \<Rightarrow> (g, False)
      | Some xs \<Rightarrow>
          (case find_idx (\<lambda>y. y = x) (take (gt_count g) xs) of
             None \<Rightarrow> (g, False)
           | Some i \<Rightarrow>
               (g\<lparr>gt_groups := Some (xs[i := xs ! (gt_count g - 1)]), gt_count := gt_count g - 1\<rparr>, True)))"

definition gt_at :: "group_table \<Rightarrow> nat \<Rightarrow> u16" where
  "gt_at g i = (case gt_groups g of None \<Rightarrow> 0xFFFF
     | Some xs \<Rightarrow> if i < gt_count g then xs ! i else 0xFFFF)"

definition gt_clear :: "group_table \<Rightarrow> group_table" where
  "gt_clear g = g\<lparr>gt_count := 0\<rparr>"

datatype gt_op = JoinGroup u16 | LeaveGroup u16 | ClearGroups

fun gt_step :: "group_table \<Rightarrow> gt_op \<Rightarrow> group_table \<times> bool" where
  "gt_step g (JoinGroup x) = gt_add g x"
| "gt_step g (LeaveGroup x) = gt_remove g x"
| "gt_step g ClearGroups = (gt_clear g, True)"

text \<open>The specification: a set of at most \<open>cap\<close> groups.\<close>

fun gs_step :: "nat \<Rightarrow> u16 set \<Rightarrow> gt_op \<Rightarrow> u16 set \<times> bool" where
  "gs_step cap S (JoinGroup x) =
     (if x \<in> S then (S, True) else if card S < cap then (insert x S, True) else (S, False))"
| "gs_step cap S (LeaveGroup x) = (S - {x}, x \<in> S)"
| "gs_step cap S ClearGroups = ({}, True)"

definition gt_list :: "group_table \<Rightarrow> u16 list" where
  "gt_list g = (case gt_groups g of None \<Rightarrow> [] | Some xs \<Rightarrow> take (gt_count g) xs)"

definition gt_ok :: "nat \<Rightarrow> group_table \<Rightarrow> bool" where
  "gt_ok cap g \<longleftrightarrow> (\<exists>xs. gt_groups g = Some xs \<and> length xs = cap \<and> gt_count g \<le> cap \<and>
     distinct (take (gt_count g) xs))"

lemma swap_remove:
  assumes "distinct xs" "i < length xs"
  shows "distinct (butlast (xs[i := last xs]))" "set (butlast (xs[i := last xs])) = set xs - {xs ! i}"
proof -
  obtain ys y where ys: "xs = ys @ [y]" using assms(2) by (cases xs rule: rev_cases) auto
  have "distinct (butlast (xs[i := last xs])) \<and> set (butlast (xs[i := last xs])) = set xs - {xs ! i}"
  proof (cases "i = length ys")
    case True
    then show ?thesis using assms(1) ys by auto
  next
    case False
    with assms(2) ys have i: "i < length ys" by simp
    have d: "distinct ys" "y \<notin> set ys" using assms(1) ys by auto
    have s: "set (ys[i := y]) = insert y (set ys - {ys ! i})"
    proof -
      have "ys = take i ys @ ys ! i # drop (Suc i) ys" using i by (rule id_take_nth_drop)
      moreover from this d(1) have "distinct (take i ys @ ys ! i # drop (Suc i) ys)" by simp
      ultimately have "set ys - {ys ! i} = set (take i ys) \<union> set (drop (Suc i) ys)"
        by (metis (no_types, lifting) Diff_insert_absorb Un_insert_right distinct.simps(2) distinct_append
            disjoint_insert(1) list.simps(15) set_append UnE)
      then show ?thesis using i by (simp add: upd_conv_take_nth_drop)
    qed
    have "distinct (ys[i := y])" using d by (intro distinct_list_update) auto
    moreover have "xs ! i = ys ! i" "butlast (xs[i := last xs]) = ys[i := y]"
      using ys i by (simp_all add: nth_append list_update_append butlast_append)
    ultimately show ?thesis using s d i ys by auto
  qed
  then show "distinct (butlast (xs[i := last xs]))" "set (butlast (xs[i := last xs])) = set xs - {xs ! i}"
    by blast+
qed

lemma gt_step_refines:
  assumes ok: "gt_ok cap g"
  shows "gt_ok cap (fst (gt_step g op)) \<and>
    gs_step cap (set (gt_list g)) op = (set (gt_list (fst (gt_step g op))), snd (gt_step g op))"
proof -
  obtain xs where xs: "gt_groups g = Some xs" "length xs = cap" "gt_count g \<le> cap"
      "distinct (take (gt_count g) xs)" using ok by (auto simp: gt_ok_def)
  let ?l = "take (gt_count g) xs"
  have l: "gt_list g = ?l" using xs(1) by (simp add: gt_list_def)
  have c: "card (set ?l) = gt_count g" using xs by (simp add: distinct_card)
  have cap: "gt_capacity g = cap" using xs by (simp add: gt_capacity_def)
  have mem: "gt_isMember g x \<longleftrightarrow> x \<in> set ?l" for x using xs(1) by (simp add: gt_isMember_def)
  show ?thesis
  proof (cases op)
    case (JoinGroup x)
    show ?thesis
    proof (cases "x \<in> set ?l \<or> cap \<le> gt_count g")
      case True
      then show ?thesis using ok xs(1) c cap l by (auto simp: JoinGroup gt_add_def mem)
    next
      case False
      then have n: "gt_count g < length xs" "x \<notin> set ?l" using xs(2) by auto
      have t: "take (Suc (gt_count g)) (xs[gt_count g := x]) = ?l @ [x]"
        using n(1) by (simp add: take_Suc_conv_app_nth)
      show ?thesis using n xs c cap l t by (simp add: JoinGroup gt_add_def mem gt_ok_def gt_list_def)
    qed
  next
    case (LeaveGroup x)
    show ?thesis
    proof (cases "find_idx (\<lambda>y. y = x) ?l")
      case None
      then have "x \<notin> set ?l" by (auto simp: find_idx_None)
      then show ?thesis using ok xs(1) l None by (simp add: LeaveGroup gt_remove_def)
    next
      case (Some i)
      have i: "i < length ?l" "?l ! i = x" using find_idx_bound [OF Some] find_idx_sat [OF Some] by auto
      then have pos: "0 < gt_count g" "i < gt_count g" by auto
      have last: "last ?l = xs ! (gt_count g - 1)"
      proof -
        have "?l \<noteq> []" using i by auto
        then show ?thesis using pos xs(2,3) by (simp add: last_conv_nth)
      qed
      have t: "take (gt_count g - 1) (xs[i := xs ! (gt_count g - 1)]) = butlast (?l[i := last ?l])"
        using pos xs(2,3) by (simp add: butlast_conv_take take_update_swap last min_def)
      note s = swap_remove [OF xs(4) i(1)]
      have xi: "x \<in> set ?l" using i nth_mem by metis
      show ?thesis
        using xs(1-3) l s i(2) t xi Some by (simp add: LeaveGroup gt_remove_def gt_ok_def gt_list_def)
    qed
  next
    case ClearGroups
    then show ?thesis using xs by (simp add: gt_clear_def gt_ok_def gt_list_def)
  qed
qed

lemma gt_run_refines:
  assumes "gt_ok cap g"
  shows "gt_ok cap (fst (run_results gt_step g ops)) \<and>
    run_results (gs_step cap) (set (gt_list g)) ops =
      (set (gt_list (fst (run_results gt_step g ops))), snd (run_results gt_step g ops))"
  using assms
proof (induction ops arbitrary: g)
  case (Cons op ops)
  from gt_step_refines [OF Cons.prems, of op] Cons.IH [of "fst (gt_step g op)"] show ?case
    by (simp add: case_prod_beta Let_def)
qed simp

text \<open>The group table is a bounded set. After any joins, leaves and clears it refuses a join exactly when
  the group is new and the table full, answers every operation and every membership question as
  the set does, counts its groups, and enumerates each group exactly once.\<close>

theorem group_table_refines_set:
  assumes "run_results gt_step (gt_begin (Some storage)) ops = (g, rs)"
    and "run_results (gs_step (length storage)) {} ops = (S, rs')"
  shows "rs = rs' \<and> (gt_isMember g x \<longleftrightarrow> x \<in> S) \<and> gt_count g = card S \<and>
    distinct (map (gt_at g) [0..<gt_count g]) \<and> set (map (gt_at g) [0..<gt_count g]) = S"
proof (intro conjI)
  have ok0: "gt_ok (length storage) (gt_begin (Some storage))" "gt_list (gt_begin (Some storage)) = []"
    by (simp_all add: gt_ok_def gt_begin_def gt_list_def)
  from gt_run_refines [OF ok0(1), of ops] assms ok0(2)
  have ok: "gt_ok (length storage) g" and S: "S = set (gt_list g)" and r: "rs' = rs" by simp_all
  show "rs = rs'" using r by simp
  from ok obtain xs where xs: "gt_groups g = Some xs" "length xs = length storage" "gt_count g \<le> length storage"
      "distinct (take (gt_count g) xs)" by (auto simp: gt_ok_def)
  have l: "gt_list g = take (gt_count g) xs" using xs(1) by (simp add: gt_list_def)
  show "gt_isMember g x \<longleftrightarrow> x \<in> S" using xs(1) l S by (simp add: gt_isMember_def)
  show "gt_count g = card S" using xs l S by (simp add: distinct_card)
  have m: "map (gt_at g) [0..<gt_count g] = gt_list g"
    unfolding l using xs(1-3) by (intro nth_equalityI) (simp_all add: gt_at_def)
  show "distinct (map (gt_at g) [0..<gt_count g])" unfolding m using xs(4) l by simp
  show "set (map (gt_at g) [0..<gt_count g]) = S" unfolding m using S by simp
qed

lemma group_table_refines_set_witness:
  "snd (run_results gt_step (gt_begin (Some [0, 0]))
     [JoinGroup 5, JoinGroup 6, JoinGroup 5, JoinGroup 7, LeaveGroup 5, JoinGroup 7]) =
   [True, True, True, False, True, True]"
proof -
  let ?ops = "[JoinGroup 5, JoinGroup 6, JoinGroup 5, JoinGroup 7, LeaveGroup 5, JoinGroup 7]"
  obtain g rs where g: "run_results gt_step (gt_begin (Some [0, 0])) ?ops = (g, rs)" by fastforce
  obtain S rs' where s: "run_results (gs_step (length [0 :: u16, 0])) {} ?ops = (S, rs')" by fastforce
  from group_table_refines_set [THEN conjunct1, OF g s] have "rs = rs'" .
  moreover have "rs' = [True, True, True, False, True, True]" using s by (auto simp: Let_def)
  ultimately show ?thesis using g by simp
qed

section \<open>Binding table\<close>

abbreviation (input) "ZB_BIND_ADDR_GROUP \<equiv> (0x01 :: u8)"
abbreviation (input) "ZB_BIND_ADDR_IEEE \<equiv> (0x03 :: u8)"

record binding =
  bd_used :: bool
  bd_srcIeee :: u64
  bd_srcEndpoint :: u8
  bd_clusterId :: u16
  bd_dstAddrMode :: u8
  bd_dstGroup :: u16
  bd_dstIeee :: u64
  bd_dstEndpoint :: u8

definition binding0 :: binding where
  "binding0 = \<lparr>bd_used = False, bd_srcIeee = 0, bd_srcEndpoint = 0, bd_clusterId = 0,
     bd_dstAddrMode = 0, bd_dstGroup = 0, bd_dstIeee = 0, bd_dstEndpoint = 0\<rparr>"

type_synonym binding_table = "binding list option"

definition bd_begin :: "binding_table \<Rightarrow> binding_table" where
  "bd_begin storage = map_option (map (\<lambda>_. binding0)) storage"

definition bd_count :: "binding_table \<Rightarrow> nat" where
  "bd_count t = (case t of None \<Rightarrow> 0 | Some es \<Rightarrow> used_count bd_used es)"

definition bd_same :: "binding \<Rightarrow> binding \<Rightarrow> bool" where
  "bd_same b e \<longleftrightarrow>
     bd_used e \<and> \<not> (bd_srcEndpoint e \<noteq> bd_srcEndpoint b \<or> bd_clusterId e \<noteq> bd_clusterId b) \<and>
     \<not> bd_dstAddrMode e \<noteq> bd_dstAddrMode b \<and>
     (if bd_dstAddrMode b = ZB_BIND_ADDR_GROUP then bd_dstGroup e = bd_dstGroup b
      else bd_dstIeee e = bd_dstIeee b \<and> bd_dstEndpoint e = bd_dstEndpoint b)"

definition bd_find :: "binding_table \<Rightarrow> binding \<Rightarrow> nat option" where
  "bd_find t b = (case t of None \<Rightarrow> None | Some es \<Rightarrow> find_idx (bd_same b) es)"

definition bd_add :: "binding_table \<Rightarrow> binding \<Rightarrow> binding_table \<times> bool" where
  "bd_add t b =
     (case t of None \<Rightarrow> (None, False)
      | Some es \<Rightarrow>
          if bd_find t b \<noteq> None then (t, True)
          else case find_idx (\<lambda>e. \<not> bd_used e) es of
            None \<Rightarrow> (t, False)
          | Some i \<Rightarrow> (Some (es[i := b\<lparr>bd_used := True\<rparr>]), True))"

definition bd_remove :: "binding_table \<Rightarrow> binding \<Rightarrow> binding_table \<times> bool" where
  "bd_remove t b =
     (case bd_find t b of None \<Rightarrow> (t, False)
      | Some i \<Rightarrow> (map_option (\<lambda>es. es[i := binding0]) t, True))"

text \<open>\<open>next\<close>: \<open>while (cursor < capacity_)\<close> over the slots from the cursor on.\<close>

definition bd_next :: "binding_table \<Rightarrow> u8 \<Rightarrow> u16 \<Rightarrow> nat \<Rightarrow> nat option \<times> nat" where
  "bd_next t srcEndpoint clusterId cursor =
     (case t of None \<Rightarrow> (None, cursor)
      | Some es \<Rightarrow>
          (case find_idx (\<lambda>e. bd_used e \<and> bd_srcEndpoint e = srcEndpoint \<and> bd_clusterId e = clusterId)
                  (drop cursor es) of
             None \<Rightarrow> (None, max cursor (length es))
           | Some k \<Rightarrow> (Some (cursor + k), cursor + k + 1)))"

text \<open>The sender's walk: \<open>cursor = 0; while ((b = next(ep, cluster, cursor))) ...\<close>\<close>

fun bd_walk :: "nat \<Rightarrow> binding_table \<Rightarrow> u8 \<Rightarrow> u16 \<Rightarrow> nat \<Rightarrow> nat list option" where
  "bd_walk 0 t ep cl cursor = None"
| "bd_walk (Suc n) t ep cl cursor =
     (case bd_next t ep cl cursor of
        (None, _) \<Rightarrow> Some []
      | (Some i, cursor) \<Rightarrow> map_option ((#) i) (bd_walk n t ep cl cursor))"

section \<open>Binding table: facts\<close>

definition bd_key :: "binding \<Rightarrow> u8 \<times> u16 \<times> u8 \<times> (u16 + u64 \<times> u8)" where
  "bd_key b = (bd_srcEndpoint b, bd_clusterId b, bd_dstAddrMode b,
     if bd_dstAddrMode b = ZB_BIND_ADDR_GROUP then Inl (bd_dstGroup b)
     else Inr (bd_dstIeee b, bd_dstEndpoint b))"

interpretation bnd: slot_table bd_used bd_key binding0
  by unfold_locales (simp add: binding0_def)

lemma bd_same_key: "bd_same b e \<longleftrightarrow> bd_used e \<and> bd_key e = bd_key b"
  by (auto simp: bd_same_def bd_key_def)

lemma bd_find_slot: "bd_find (Some es) b = slot_find bd_used bd_key es (bd_key b)"
  by (simp add: bd_find_def slot_find_def bd_same_key [abs_def])

lemma bd_walk_from:
  assumes "length es - cursor < n"
  shows "bd_walk n (Some es) ep cl cursor =
    Some (filter (\<lambda>i. bd_used (es ! i) \<and> bd_srcEndpoint (es ! i) = ep \<and> bd_clusterId (es ! i) = cl)
      [cursor..<length es])"
  using assms
proof (induction n arbitrary: cursor)
  case 0
  then show ?case by simp
next
  case (Suc n)
  let ?P = "\<lambda>e. bd_used e \<and> bd_srcEndpoint e = ep \<and> bd_clusterId e = cl"
  show ?case
  proof (cases "find_idx ?P (drop cursor es)")
    case None
    then have n: "\<forall>e\<in>set (drop cursor es). \<not> ?P e" by (simp add: find_idx_None)
    have "es ! i \<in> set (drop cursor es)" if "cursor \<le> i" "i < length es" for i
      using nth_mem [of "i - cursor" "drop cursor es"] that by simp
    with n have "\<forall>i\<in>set [cursor..<length es]. \<not> ?P (es ! i)" by auto
    then show ?thesis using None by (simp add: bd_next_def filter_empty_conv)
  next
    case (Some k)
    from find_idx_SomeD [OF Some]
    have k: "cursor + k < length es" "?P (es ! (cursor + k))" "\<And>j. j < k \<Longrightarrow> \<not> ?P (es ! (cursor + j))"
      by auto
    have "[cursor..<length es] = [cursor..<cursor + k] @ (cursor + k) # [Suc (cursor + k)..<length es]"
      using k(1) by (metis le_add1 less_imp_le upt_add_eq_append upt_conv_Cons le_Suc_ex)
    moreover have "filter (\<lambda>i. ?P (es ! i)) [cursor..<cursor + k] = []"
    proof -
      have "\<not> ?P (es ! i)" if "cursor \<le> i" "i < cursor + k" for i
        using k(3) [of "i - cursor"] that by simp
      then show ?thesis by (auto simp: filter_empty_conv)
    qed
    moreover have "length es - Suc (cursor + k) < n" using Suc.prems k(1) by simp
    ultimately show ?thesis
      using Some k(2) Suc.IH [of "Suc (cursor + k)"] by (simp add: bd_next_def)
  qed
qed

lemma bd_add_uniq:
  "slot_uniq bd_used bd_key es \<Longrightarrow> \<exists>es'. fst (bd_add (Some es) b) = Some es' \<and> slot_uniq bd_used bd_key es' \<and> length es' = length es"
proof -
  assume u: "slot_uniq bd_used bd_key es"
  show ?thesis
  proof (cases "bd_find (Some es) b = None \<and> (\<exists>e\<in>set es. \<not> bd_used e)")
    case False
    then show ?thesis using u by (auto simp: bd_add_def find_idx_Some_iff split: option.split)
  next
    case True
    then obtain i where i: "find_idx (\<lambda>e. \<not> bd_used e) es = Some i"
      by (cases "find_idx (\<lambda>e. \<not> bd_used e) es") (auto simp: find_idx_None)
    have "bd_key (b\<lparr>bd_used := True\<rparr>) = bd_key b" by (simp add: bd_key_def)
    then have f: "slot_find bd_used bd_key es (bd_key (b\<lparr>bd_used := True\<rparr>)) = None"
      using True by (simp add: bd_find_slot)
    from bnd.get_put_new_key(1) [OF u f find_idx_bound [OF i]] True i
    show ?thesis by (simp add: bd_add_def)
  qed
qed

section \<open>Binding table: property\<close>

datatype bd_op = Bind binding | Unbind binding

fun bd_step :: "binding_table \<Rightarrow> bd_op \<Rightarrow> binding_table \<times> bool" where
  "bd_step t (Bind b) = bd_add t b"
| "bd_step t (Unbind b) = bd_remove t b"

lemma bd_step_inv:
  assumes "slot_uniq bd_used bd_key es"
  shows "\<exists>es'. fst (bd_step (Some es) op) = Some es' \<and> slot_uniq bd_used bd_key es' \<and> length es' = length es"
proof (cases op)
  case (Bind b)
  then show ?thesis using bd_add_uniq [OF assms] by simp
next
  case (Unbind b)
  then show ?thesis
    using assms bnd.uniq_clear [OF assms] by (auto simp: bd_remove_def split: option.split)
qed

lemma bd_run_inv:
  assumes "slot_uniq bd_used bd_key es"
  shows "\<exists>es'. fst (run_results bd_step (Some es) ops) = Some es' \<and> slot_uniq bd_used bd_key es' \<and>
    length es' = length es"
  using assms
proof (induction ops arbitrary: es)
  case (Cons op ops)
  from bd_step_inv [OF Cons.prems, of op] obtain es1 where
    e: "fst (bd_step (Some es) op) = Some es1" "slot_uniq bd_used bd_key es1" "length es1 = length es" by blast
  from Cons.IH [OF e(2)] e show ?case by (simp add: case_prod_beta Let_def)
qed simp

text \<open>Delivery over bindings. After any binds and unbinds, the sender's cursor walk ends and visits, in slot
  order, exactly the slots in use whose source endpoint and cluster match, and no two of them hold
  the same destination, so a bound destination gets the message once.\<close>

theorem binding_walk_visits_each_once:
  assumes "fst (run_results bd_step (bd_begin (Some storage)) ops) = Some es"
  shows "\<exists>is. bd_walk (Suc (length storage)) (Some es) ep cl 0 = Some is \<and> sorted_wrt (<) is \<and>
    set is = {i. i < length es \<and> bd_used (es ! i) \<and> bd_srcEndpoint (es ! i) = ep \<and> bd_clusterId (es ! i) = cl} \<and>
    distinct (map (\<lambda>i. bd_key (es ! i)) is)"
proof -
  let ?es0 = "map (\<lambda>_. binding0) storage"
  have r: "?es0 = replicate (length storage) binding0" by (simp add: map_replicate_const)
  have "slot_uniq bd_used bd_key ?es0" unfolding r by simp
  from bd_run_inv [OF this, of ops] assms have u: "slot_uniq bd_used bd_key es" and l: "length es = length storage"
    by (auto simp: bd_begin_def)
  let ?P = "\<lambda>i. bd_used (es ! i) \<and> bd_srcEndpoint (es ! i) = ep \<and> bd_clusterId (es ! i) = cl"
  let ?is = "filter ?P [0..<length es]"
  have w: "bd_walk (Suc (length storage)) (Some es) ep cl 0 = Some ?is"
    using bd_walk_from [of es 0 "Suc (length storage)" ep cl] l by simp
  have "inj_on (\<lambda>i. bd_key (es ! i)) (set ?is)"
    using u by (auto simp: inj_on_def slot_uniq_iff)
  then have "distinct (map (\<lambda>i. bd_key (es ! i)) ?is)" by (simp add: distinct_map)
  moreover have "sorted_wrt (<) ?is" by (simp add: sorted_wrt_filter)
  ultimately show ?thesis using w by (intro exI [of _ ?is]) auto
qed

lemma binding_walk_visits_each_once_witness:
  "\<exists>es is. fst (run_results bd_step (bd_begin (Some [binding0, binding0, binding0]))
      [Bind (binding0\<lparr>bd_srcEndpoint := 1, bd_clusterId := 6, bd_dstAddrMode := 3, bd_dstIeee := 77\<rparr>),
       Bind (binding0\<lparr>bd_srcEndpoint := 1, bd_clusterId := 8, bd_dstAddrMode := 1, bd_dstGroup := 4\<rparr>),
       Bind (binding0\<lparr>bd_srcEndpoint := 1, bd_clusterId := 6, bd_dstAddrMode := 3, bd_dstIeee := 77\<rparr>)]) = Some es \<and>
     bd_walk 4 (Some es) 1 6 0 = Some is \<and> set is = {0}"
proof -
  let ?ops = "[Bind (binding0\<lparr>bd_srcEndpoint := 1, bd_clusterId := 6, bd_dstAddrMode := 3, bd_dstIeee := 77\<rparr>),
       Bind (binding0\<lparr>bd_srcEndpoint := 1, bd_clusterId := 8, bd_dstAddrMode := 1, bd_dstGroup := 4\<rparr>),
       Bind (binding0\<lparr>bd_srcEndpoint := 1, bd_clusterId := 6, bd_dstAddrMode := 3, bd_dstIeee := 77\<rparr>)]"
  let ?es = "[binding0\<lparr>bd_used := True, bd_srcEndpoint := 1, bd_clusterId := 6, bd_dstAddrMode := 3, bd_dstIeee := 77\<rparr>,
     binding0\<lparr>bd_used := True, bd_srcEndpoint := 1, bd_clusterId := 8, bd_dstAddrMode := 1, bd_dstGroup := 4\<rparr>, binding0]"
  have e: "fst (run_results bd_step (bd_begin (Some [binding0, binding0, binding0])) ?ops) = Some ?es"
    by (simp add: bd_begin_def bd_add_def bd_find_def bd_same_def binding0_def Let_def)
  from binding_walk_visits_each_once [OF e, of 1 6] obtain "is" where
    w: "bd_walk (Suc (length [binding0, binding0, binding0])) (Some ?es) 1 6 0 = Some is"
    "set is = {i. i < length ?es \<and> bd_used (?es ! i) \<and> bd_srcEndpoint (?es ! i) = 1 \<and> bd_clusterId (?es ! i) = 6}"
    by blast
  have "i < length ?es \<and> bd_used (?es ! i) \<and> bd_srcEndpoint (?es ! i) = 1 \<and> bd_clusterId (?es ! i) = 6 \<longleftrightarrow> i = 0" for i
    by (auto simp: binding0_def nth_Cons split: nat.splits)
  then have s: "set is = {0}" using w(2) by auto
  have "Suc (length [binding0, binding0, binding0]) = 4" by simp
  with w(1) have "bd_walk 4 (Some ?es) 1 6 0 = Some is" by (simp only:)
  with e s show ?thesis by blast
qed

end
