(* ===== verification/ZbIndirect.thy ===== *)
theory ZbIndirect
  imports ZbSlots
begin

text \<open>
  What a parent keeps for its sleepy children: \<open>ZigbeeIndirectQueue.h\<close>, the frames buffered until
  a child polls, and \<open>ZigbeeEndDeviceTimeout.h\<close>, the timeout negotiation codec. The payload
  array of an entry is modelled by the bytes stored since the entry was reset; the bytes that
  the constructor leaves unset are never read.
\<close>

section \<open>Indirect queue\<close>

definition iq_kMaxPayload :: nat where "iq_kMaxPayload = 100"
definition iq_kDefaultPersistenceMs :: u32 where "iq_kDefaultPersistenceMs = 7680"

record indirect =
  iq_used :: bool
  iq_child :: u16
  iq_expiryMs :: u32
  iq_length :: nat
  iq_payload :: "u8 list"

definition indirect0 :: indirect where
  "indirect0 = \<lparr>iq_used = False, iq_child = 0xFFFF, iq_expiryMs = 0, iq_length = 0, iq_payload = []\<rparr>"

type_synonym indirect_queue = "indirect list option"

definition iq_begin :: "indirect_queue \<Rightarrow> indirect_queue" where
  "iq_begin storage = map_option (map (\<lambda>_. indirect0)) storage"

definition iq_find :: "indirect_queue \<Rightarrow> u16 \<Rightarrow> nat option" where
  "iq_find t c = (case t of None \<Rightarrow> None | Some es \<Rightarrow> find_idx (\<lambda>e. iq_used e \<and> iq_child e = c) es)"

definition iq_firstFree :: "indirect_queue \<Rightarrow> nat option" where
  "iq_firstFree t = (case t of None \<Rightarrow> None | Some es \<Rightarrow> find_idx (\<lambda>e. \<not> iq_used e) es)"

definition iq_oldest :: "indirect_queue \<Rightarrow> nat option" where
  "iq_oldest t = (case t of None \<Rightarrow> None
     | Some es \<Rightarrow> best_idx iq_used (\<lambda>e b. sint (iq_expiryMs e - iq_expiryMs b) < 0) es)"

definition iq_enqueue ::
  "indirect_queue \<Rightarrow> u16 \<Rightarrow> ptr \<Rightarrow> nat \<Rightarrow> u32 \<Rightarrow> u32 \<Rightarrow> indirect_queue \<times> bool"
where
  "iq_enqueue t childShort data len now persistenceMs =
     (if t = None \<or> data = None \<or> len > iq_kMaxPayload then (t, False)
      else case or_else (iq_find t childShort) (or_else (iq_firstFree t) (iq_oldest t)) of
        None \<Rightarrow> (t, False)
      | Some i \<Rightarrow>
          (map_option (\<lambda>es. es[i := (es ! i)\<lparr>iq_used := True, iq_child := childShort,
              iq_expiryMs := now + persistenceMs, iq_length := len,
              iq_payload := copied data len @ drop len (iq_payload (es ! i))\<rparr>]) t, True))"

definition iq_hasPending :: "indirect_queue \<Rightarrow> u16 \<Rightarrow> bool" where
  "iq_hasPending t c \<longleftrightarrow> iq_find t c \<noteq> None"

definition iq_pending :: "indirect_queue \<Rightarrow> u16 \<Rightarrow> indirect option" where
  "iq_pending t c = (case t of None \<Rightarrow> None | Some es \<Rightarrow> map_option (nth es) (iq_find t c))"

definition iq_dequeue_entry :: "indirect_queue \<Rightarrow> nat option \<Rightarrow> indirect_queue" where
  "iq_dequeue_entry t e = (case e of None \<Rightarrow> t | Some i \<Rightarrow> map_option (\<lambda>es. es[i := indirect0]) t)"

definition iq_dequeue :: "indirect_queue \<Rightarrow> u16 \<Rightarrow> indirect_queue \<times> bool" where
  "iq_dequeue t c =
     (case iq_find t c of None \<Rightarrow> (t, False)
      | Some i \<Rightarrow> (map_option (\<lambda>es. es[i := indirect0]) t, True))"

definition iq_stale :: "u32 \<Rightarrow> indirect \<Rightarrow> bool" where
  "iq_stale now e \<longleftrightarrow> iq_used e \<and> 0 \<le> sint (now - iq_expiryMs e)"

definition iq_expire :: "indirect_queue \<Rightarrow> u32 \<Rightarrow> indirect_queue \<times> nat" where
  "iq_expire t now =
     (map_option (sweep (iq_stale now) indirect0) t,
      case t of None \<Rightarrow> 0 | Some es \<Rightarrow> length (filter (iq_stale now) es))"

definition iq_activeCount :: "indirect_queue \<Rightarrow> nat" where
  "iq_activeCount t = (case t of None \<Rightarrow> 0 | Some es \<Rightarrow> used_count iq_used es)"

text \<open>The frame the parent transmits when a child polls.\<close>

definition iq_frame :: "indirect \<Rightarrow> u8 list" where
  "iq_frame e = take (iq_length e) (iq_payload e)"

section \<open>Indirect queue: facts\<close>

interpretation ind: slot_table iq_used iq_child indirect0
  by unfold_locales (simp add: indirect0_def)

lemma iq_find_slot: "iq_find (Some es) c = slot_find iq_used iq_child es c"
  by (simp add: iq_find_def slot_find_def)

lemma iq_pending_get: "iq_pending (Some es) c = slot_get iq_used iq_child es c"
  by (simp add: iq_pending_def iq_find_slot slot_get_def)

lemma iq_pick:
  "or_else (iq_find (Some es) c) (or_else (iq_firstFree (Some es)) (iq_oldest (Some es))) =
     slot_pick iq_used iq_child (\<lambda>e b. sint (iq_expiryMs e - iq_expiryMs b) < 0) es c"
  by (simp add: slot_pick_def iq_find_slot iq_firstFree_def iq_oldest_def)

lemma iq_enqueue_spec:
  assumes u: "slot_uniq iq_used iq_child es" and ne: "es \<noteq> []" and len: "length d \<le> 100"
  obtains e es' where "iq_enqueue (Some es) c (Some d) (length d) now p = (Some es', True)"
    "slot_uniq iq_used iq_child es'" "length es' = length es" "slot_get iq_used iq_child es' c = Some e"
    "iq_used e" "iq_child e = c" "iq_expiryMs e = now + p" "iq_frame e = d"
    "\<And>c'. c' \<noteq> c \<Longrightarrow> slot_get iq_used iq_child es' c' \<in> {slot_get iq_used iq_child es c', None}"
    "card (insert c (dom (slot_get iq_used iq_child es))) \<le> length es \<Longrightarrow>
      slot_get iq_used iq_child es' = (slot_get iq_used iq_child es)(c := Some e)"
proof -
  let ?better = "\<lambda>e b. sint (iq_expiryMs e - iq_expiryMs b) < 0"
  from slot_pick_ex [OF ne, of iq_used iq_child ?better c]
  obtain i where i: "slot_pick iq_used iq_child ?better es c = Some i" ..
  let ?e = "(es ! i)\<lparr>iq_used := True, iq_child := c, iq_expiryMs := now + p, iq_length := length d,
      iq_payload := d @ drop (length d) (iq_payload (es ! i))\<rparr>"
  have e: "iq_used ?e" "iq_child ?e = c" by simp_all
  note p = ind.put_pick [OF u i e]
  show thesis
  proof (rule that [of "es[i := ?e]" ?e])
    show "iq_enqueue (Some es) c (Some d) (length d) now p = (Some (es[i := ?e]), True)"
      using len i by (simp add: iq_enqueue_def iq_kMaxPayload_def iq_pick)
    show "slot_uniq iq_used iq_child (es[i := ?e])" by (rule p(1))
    show "slot_get iq_used iq_child (es[i := ?e]) c = Some ?e" using p(2) [of c] by simp
    show "slot_get iq_used iq_child (es[i := ?e]) c' \<in> {slot_get iq_used iq_child es c', None}" if "c' \<noteq> c" for c'
      using p(2) [of c'] that by simp
    show "slot_get iq_used iq_child (es[i := ?e]) = (slot_get iq_used iq_child es)(c := Some ?e)"
      if "card (insert c (dom (slot_get iq_used iq_child es))) \<le> length es"
      using ind.put_pick_fits [OF u i e that] .
  qed (simp_all add: iq_frame_def)
qed

section \<open>Indirect queue: property\<close>

datatype iq_op = Enqueue u16 "u8 list" u32 u32 | Poll u16 | Dequeue u16
datatype iq_res = Done bool | Frame "u8 list option"

fun iq_step :: "indirect_queue \<Rightarrow> iq_op \<Rightarrow> indirect_queue \<times> iq_res" where
  "iq_step t (Enqueue c d now p) = (case iq_enqueue t c (Some d) (length d) now p of (t, b) \<Rightarrow> (t, Done b))"
| "iq_step t (Poll c) = (t, Frame (map_option iq_frame (iq_pending t c)))"
| "iq_step t (Dequeue c) = (case iq_dequeue t c of (t, b) \<Rightarrow> (t, Done b))"

text \<open>The specification: a map from children to the latest frame for them.\<close>

fun im_step :: "(u16 \<Rightarrow> u8 list option) \<Rightarrow> iq_op \<Rightarrow> (u16 \<Rightarrow> u8 list option) \<times> iq_res" where
  "im_step m (Enqueue c d now p) = (if length d \<le> 100 then (m(c := Some d), Done True) else (m, Done False))"
| "im_step m (Poll c) = (m, Frame (m c))"
| "im_step m (Dequeue c) = (m(c := None), Done (m c \<noteq> None))"

fun iq_target :: "iq_op \<Rightarrow> u16" where
  "iq_target (Enqueue c d now p) = c"
| "iq_target (Poll c) = c"
| "iq_target (Dequeue c) = c"

definition iq_abs :: "indirect list \<Rightarrow> u16 \<Rightarrow> u8 list option" where
  "iq_abs es c = map_option iq_frame (slot_get iq_used iq_child es c)"

lemma iq_dom_abs: "dom (iq_abs es) = dom (slot_get iq_used iq_child es)"
  by (auto simp: iq_abs_def)

lemma iq_step_refines:
  assumes u: "slot_uniq iq_used iq_child es" and ne: "es \<noteq> []"
    and c: "card (insert (iq_target op) (dom (iq_abs es))) \<le> length es"
  shows "\<exists>es'. iq_step (Some es) op = (Some es', snd (im_step (iq_abs es) op)) \<and>
    slot_uniq iq_used iq_child es' \<and> length es' = length es \<and> iq_abs es' = fst (im_step (iq_abs es) op)"
proof (cases op)
  case (Enqueue ch d now p)
  show ?thesis
  proof (cases "length d \<le> 100")
    case False
    then show ?thesis using u by (simp add: Enqueue iq_enqueue_def iq_kMaxPayload_def)
  next
    case True
    from c have "card (insert ch (dom (slot_get iq_used iq_child es))) \<le> length es"
      by (simp add: iq_dom_abs Enqueue)
    then obtain e es' where x: "iq_enqueue (Some es) ch (Some d) (length d) now p = (Some es', True)"
      "slot_uniq iq_used iq_child es'" "length es' = length es" "iq_frame e = d"
      "slot_get iq_used iq_child es' = (slot_get iq_used iq_child es)(ch := Some e)"
      using iq_enqueue_spec [OF u ne True, of ch now p] by metis
    have "iq_abs es' = (iq_abs es)(ch := Some d)" using x(4,5) by (auto simp: iq_abs_def)
    with x True show ?thesis by (simp add: Enqueue)
  qed
next
  case (Poll ch)
  then show ?thesis using u by (simp add: iq_pending_get iq_abs_def)
next
  case (Dequeue ch)
  show ?thesis
  proof (cases "slot_find iq_used iq_child es ch")
    case None
    then have "iq_abs es ch = None" by (simp add: iq_abs_def slot_get_def)
    moreover from this have "(iq_abs es)(ch := None) = iq_abs es" by auto
    ultimately show ?thesis using None u by (simp add: Dequeue iq_dequeue_def iq_find_slot)
  next
    case (Some i)
    from ind.get_clear [OF u Some] have "iq_abs (es[i := indirect0]) = (iq_abs es)(ch := None)"
      by (auto simp: iq_abs_def)
    moreover have "iq_abs es ch \<noteq> None" using Some by (simp add: iq_abs_def slot_get_def)
    ultimately show ?thesis
      using Some ind.uniq_clear [OF u, of i] by (simp add: Dequeue iq_dequeue_def iq_find_slot)
  qed
qed

lemma im_step_dom: "dom (fst (im_step m op)) \<subseteq> insert (iq_target op) (dom m)"
  by (cases op) auto

lemma iq_run_refines:
  assumes "slot_uniq iq_used iq_child es" "es \<noteq> []"
    and "card (dom (iq_abs es) \<union> iq_target ` set ops) \<le> length es"
  shows "snd (run_results iq_step (Some es) ops) = snd (run_results im_step (iq_abs es) ops)"
  using assms
proof (induction ops arbitrary: es)
  case Nil
  then show ?case by simp
next
  case (Cons op ops)
  have fin: "finite (dom (iq_abs es))" using Cons.prems(1) by (simp add: iq_dom_abs)
  have sub: "card A \<le> length es" if "A \<subseteq> dom (iq_abs es) \<union> iq_target ` set (op # ops)" for A
    using card_mono [OF _ that] fin Cons.prems(3) by fastforce
  have "card (insert (iq_target op) (dom (iq_abs es))) \<le> length es" by (rule sub) auto
  from iq_step_refines [OF Cons.prems(1,2) this] obtain es' where
    x: "iq_step (Some es) op = (Some es', snd (im_step (iq_abs es) op))" "slot_uniq iq_used iq_child es'"
      "length es' = length es" "iq_abs es' = fst (im_step (iq_abs es) op)" by blast
  have "card (dom (iq_abs es') \<union> iq_target ` set ops) \<le> length es'"
    unfolding x(3,4) using im_step_dom [of "iq_abs es" op] by (intro sub) auto
  moreover have "es' \<noteq> []" using x(3) Cons.prems(2) by auto
  ultimately have "snd (run_results iq_step (Some es') ops) = snd (run_results im_step (iq_abs es') ops)"
    using Cons.IH [OF x(2)] by blast
  then show ?case using x(1,4) by (simp add: case_prod_beta Let_def)
qed

text \<open>C29: A parent keeps the latest frame for each sleepy child. For any sequence of enqueues, polls and
  confirmed deliveries for at most as many children as the queue has slots, every poll is
  answered with exactly the last frame enqueued for that child and not yet delivered, and a frame
  is refused only when it is longer than 100 bytes.\<close>

theorem indirect_queue_refines_map:
  assumes "storage \<noteq> []" "card (iq_target ` set ops) \<le> length storage"
  shows "snd (run_results iq_step (iq_begin (Some storage)) ops) = snd (run_results im_step Map.empty ops)"
proof -
  let ?es = "map (\<lambda>_. indirect0) storage"
  have r: "?es = replicate (length storage) indirect0" by (simp add: map_replicate_const)
  have g: "slot_get iq_used iq_child ?es = Map.empty" "slot_uniq iq_used iq_child ?es" unfolding r by simp_all
  then have a: "iq_abs ?es = Map.empty" by (auto simp: iq_abs_def)
  have "card (dom (iq_abs ?es) \<union> iq_target ` set ops) \<le> length ?es" using a assms(2) by simp
  moreover have "?es \<noteq> []" using assms(1) by simp
  ultimately show ?thesis using iq_run_refines [OF g(2)] a by (simp add: iq_begin_def)
qed

lemma indirect_queue_refines_map_witness:
  "snd (run_results iq_step (iq_begin (Some [indirect0, indirect0]))
     [Enqueue 5 [1] 0 7680, Enqueue 6 [2] 10 7680, Enqueue 5 [3, 4] 20 7680, Poll 5, Dequeue 5, Poll 5, Poll 6]) =
   [Done True, Done True, Done True, Frame (Some [3, 4]), Done True, Frame None, Frame (Some [2])]"
proof -
  let ?ops = "[Enqueue 5 [1] 0 7680, Enqueue 6 [2] 10 7680, Enqueue 5 [3, 4] 20 7680, Poll 5, Dequeue 5, Poll 5, Poll 6]"
  have "iq_target ` set ?ops = {5, 6}" by auto
  then have "card (iq_target ` set ?ops) \<le> length [indirect0, indirect0]" by simp
  from indirect_queue_refines_map [OF _ this] show ?thesis by (simp add: Let_def)
qed

text \<open>A buffered frame lives exactly as long as it was asked to: \<open>expire\<close> at \<open>x\<close> milliseconds after it was
  enqueued with a persistence of \<open>p\<close> drops it if and only if \<open>p \<le> x\<close> (both below \<open>2 ^ 31\<close>), also
  when the clock wraps in between.\<close>

theorem indirect_frame_lifetime:
  assumes "slot_uniq iq_used iq_child es" "es \<noteq> []" "length d \<le> 100"
    and "iq_enqueue (Some es) c (Some d) (length d) now p = (t, True)"
    and "p < 0x80000000" "x < 0x80000000"
  shows "map_option iq_frame (iq_pending (fst (iq_expire t (now + x))) c) = (if p \<le> x then None else Some d)"
proof -
  obtain e es' where e: "iq_enqueue (Some es) c (Some d) (length d) now p = (Some es', True)"
    "slot_uniq iq_used iq_child es'" "slot_get iq_used iq_child es' c = Some e" "iq_used e"
    "iq_expiryMs e = now + p" "iq_frame e = d"
    using iq_enqueue_spec [OF assms(1-3), of c now p] by metis
  have t: "t = Some es'" using e(1) assms(4) by simp
  have "iq_stale (now + x) e \<longleftrightarrow> p \<le> x"
    using deadline_reached(1) [OF assms(6,5), of now] e(4,5) by (simp add: iq_stale_def)
  then show ?thesis
    using ind.get_sweep [OF e(2), of "iq_stale (now + x)" c] e(3,6)
    by (simp add: t iq_expire_def iq_pending_get)
qed

lemma indirect_frame_lifetime_witness:
  "\<exists>t. iq_enqueue (Some [indirect0]) 5 (Some [1, 2]) (length [1 :: u8, 2]) 0xFFFFF000 7680 = (t, True) \<and>
     map_option iq_frame (iq_pending (fst (iq_expire t (0xFFFFF000 + 7679))) 5) = Some [1, 2] \<and>
     map_option iq_frame (iq_pending (fst (iq_expire t (0xFFFFF000 + 7680))) 5) = None"
proof -
  let ?d = "[1, 2] :: u8 list"
  obtain t b where t: "iq_enqueue (Some [indirect0]) 5 (Some ?d) (length ?d) 0xFFFFF000 7680 = (t, b)" by fastforce
  have b: b using t by (auto simp: iq_enqueue_def iq_find_def iq_firstFree_def iq_kMaxPayload_def indirect0_def)
  have u: "slot_uniq iq_used iq_child [indirect0]" "[indirect0] \<noteq> []" "length ?d \<le> 100"
    by (simp_all add: slot_uniq_def indirect0_def)
  from indirect_frame_lifetime [OF u, of 5 "0xFFFFF000" 7680 t 7679]
    indirect_frame_lifetime [OF u, of 5 "0xFFFFF000" 7680 t 7680] t b
  show ?thesis by simp
qed

section \<open>End Device Timeout\<close>

record ed_request =
  ed_timeoutIndex :: u8
  ed_configuration :: u8

record ed_response =
  ed_status :: u8
  ed_parentInfo :: u8

definition ed_kMaxTimeoutIndex :: u8 where "ed_kMaxTimeoutIndex = 14"

definition ed_timeoutSeconds :: "u8 \<Rightarrow> u32" where
  "ed_timeoutSeconds index =
     (if index = 0 then 10 else if index > ed_kMaxTimeoutIndex then 0
      else 60 * push_bit (unat index) 1)"

definition ed_buildRequest :: "out_buf \<Rightarrow> ed_request \<Rightarrow> u8 list option" where
  "ed_buildRequest out req =
     (case out of None \<Rightarrow> None | Some outMax \<Rightarrow>
        if outMax < 2 \<or> ed_timeoutIndex req > ed_kMaxTimeoutIndex then None
        else Some [ed_timeoutIndex req, ed_configuration req])"

definition ed_parseRequest :: "ptr \<Rightarrow> (bool \<times> ed_request) option" where
  "ed_parseRequest payload =
     (let req0 = \<lparr>ed_timeoutIndex = 0, ed_configuration = 0\<rparr> in
      case payload of None \<Rightarrow> Some (False, req0) | Some bs \<Rightarrow>
        if length bs < 2 then Some (False, req0)
        else do {
          i \<leftarrow> rd8 bs 0;
          if i > ed_kMaxTimeoutIndex then Some (False, req0)
          else do { c \<leftarrow> rd8 bs 1; Some (True, \<lparr>ed_timeoutIndex = i, ed_configuration = c\<rparr>) }
        })"

definition ed_buildResponse :: "out_buf \<Rightarrow> ed_response \<Rightarrow> u8 list option" where
  "ed_buildResponse out rsp =
     (case out of None \<Rightarrow> None | Some outMax \<Rightarrow>
        if outMax < 2 then None else Some [ed_status rsp, ed_parentInfo rsp])"

definition ed_parseResponse :: "ptr \<Rightarrow> (bool \<times> ed_response) option" where
  "ed_parseResponse payload =
     (let rsp0 = \<lparr>ed_status = 0, ed_parentInfo = 0\<rparr> in
      case payload of None \<Rightarrow> Some (False, rsp0) | Some bs \<Rightarrow>
        if length bs < 2 then Some (False, rsp0)
        else do { s \<leftarrow> rd8 bs 0; p \<leftarrow> rd8 bs 1; Some (True, \<lparr>ed_status = s, ed_parentInfo = p\<rparr>) })"

text \<open>The end-device timeout negotiation. A timeout request can be built exactly for the indices 0 to 14 and
  is parsed back; each of those indices stands for a timeout that grows strictly with the index
  (10 s, then \<open>2 ^ n\<close> minutes, without overflow), and every other index is refused on both sides
  and stands for 0.\<close>

theorem ed_timeout_negotiation:
  "(ed_timeoutIndex req \<le> 14 \<longrightarrow> 2 \<le> outMax \<longrightarrow>
     (\<exists>bs. ed_buildRequest (Some outMax) req = Some bs \<and> ed_parseRequest (Some bs) = Some (True, req))) \<and>
   (14 < i \<longrightarrow> ed_buildRequest out \<lparr>ed_timeoutIndex = i, ed_configuration = c\<rparr> = None \<and>
     ed_parseRequest (Some (i # c # bs)) = Some (False, \<lparr>ed_timeoutIndex = 0, ed_configuration = 0\<rparr>) \<and>
     ed_timeoutSeconds i = 0) \<and>
   (1 \<le> i \<longrightarrow> i \<le> 14 \<longrightarrow> unat (ed_timeoutSeconds i) = 60 * 2 ^ unat i) \<and>
   (i < j \<longrightarrow> j \<le> 14 \<longrightarrow> ed_timeoutSeconds i < ed_timeoutSeconds j)"
proof -
  have 1: "ed_timeoutIndex req \<le> 14 \<Longrightarrow> 2 \<le> outMax \<Longrightarrow>
     \<exists>bs. ed_buildRequest (Some outMax) req = Some bs \<and> ed_parseRequest (Some bs) = Some (True, req)"
    by (simp add: ed_buildRequest_def ed_parseRequest_def ed_kMaxTimeoutIndex_def wire_simps not_less)
  have 2: "14 < i \<Longrightarrow> ed_buildRequest out \<lparr>ed_timeoutIndex = i, ed_configuration = c\<rparr> = None \<and>
     ed_parseRequest (Some (i # c # bs)) = Some (False, \<lparr>ed_timeoutIndex = 0, ed_configuration = 0\<rparr>) \<and>
     ed_timeoutSeconds i = 0"
    by (auto simp: ed_buildRequest_def ed_parseRequest_def ed_timeoutSeconds_def ed_kMaxTimeoutIndex_def
        wire_simps split: option.split)
  have v: "unat (ed_timeoutSeconds i) = 60 * 2 ^ unat i" if "1 \<le> i" "i \<le> 14" for i
  proof -
    have n: "unat i \<le> 14" "i \<noteq> 0" using that by (auto simp: word_le_nat_alt)
    then have "(2 :: nat) ^ unat i \<le> 2 ^ 14" by (intro power_increasing) simp_all
    then have l: "60 * 2 ^ unat i < (4294967296 :: nat)" by simp
    have "\<not> 14 < i" using that(2) by simp
    then have "ed_timeoutSeconds i = of_nat (60 * 2 ^ unat i)"
      using n by (simp add: ed_timeoutSeconds_def ed_kMaxTimeoutIndex_def push_bit_eq_mult)
    then show ?thesis using l by (simp only: unat_of_nat) simp
  qed
  have 4: "ed_timeoutSeconds i < ed_timeoutSeconds j" if ij: "i < j" "j \<le> 14"
  proof -
    have j: "1 \<le> j" using ij(1) by (simp add: word_less_nat_alt word_le_nat_alt)
    have "unat (ed_timeoutSeconds i) < 60 * 2 ^ unat j"
    proof (cases "i = 0")
      case True
      have "(1 :: nat) \<le> 2 ^ unat j" by simp
      then have "10 < (60 :: nat) * 2 ^ unat j" by linarith
      moreover have "unat (ed_timeoutSeconds i) = 10" using True by (simp add: ed_timeoutSeconds_def)
      ultimately show ?thesis by (simp only:)
    next
      case False
      then have "unat i \<noteq> 0" by (simp add: unat_eq_zero)
      then have "1 \<le> i" by (simp add: word_le_nat_alt)
      moreover have "i \<le> 14" using ij by simp
      ultimately have "unat (ed_timeoutSeconds i) = 60 * 2 ^ unat i" by (rule v)
      then show ?thesis using ij(1) by (simp add: word_less_nat_alt)
    qed
    then show ?thesis using v [OF j ij(2)] by (simp add: word_less_nat_alt)
  qed
  show ?thesis using 1 2 v 4 by blast
qed

lemma ed_timeout_negotiation_witness: "ed_timeoutSeconds 3 < ed_timeoutSeconds 4"
  using ed_timeout_negotiation [where i = 3 and j = 4] by simp

end
