(* ===== verification/ZbSourceRoute.thy ===== *)
theory ZbSourceRoute
  imports ZbSlots ZbNwkFacts
begin

text \<open>
  \<open>ZigbeeSourceRouteTable.h\<close>: the concentrator's store of relay paths, filled from Route Record
  commands and read back in reverse for the NWK source-route subframe. The relay array of an
  entry is modelled by the relays stored since the entry was reset.
\<close>

definition sr_kMaxRelays :: nat where "sr_kMaxRelays = 8"
definition sr_kDefaultMaxAgeMs :: u32 where "sr_kDefaultMaxAgeMs = 60000"

record source_route =
  so_used :: bool
  so_destAddr :: u16
  so_relayCount :: nat
  so_relays :: "u16 list"
  so_updatedMs :: u32

definition source_route0 :: source_route where
  "source_route0 = \<lparr>so_used = False, so_destAddr = 0xFFFF, so_relayCount = 0, so_relays = [], so_updatedMs = 0\<rparr>"

type_synonym source_table = "source_route list option"

definition so_begin :: "source_table \<Rightarrow> source_table" where
  "so_begin storage = map_option (map (\<lambda>_. source_route0)) storage"

definition so_find :: "source_table \<Rightarrow> u16 \<Rightarrow> nat option" where
  "so_find t d = (case t of None \<Rightarrow> None | Some es \<Rightarrow> find_idx (\<lambda>e. so_used e \<and> so_destAddr e = d) es)"

definition so_firstFree :: "source_table \<Rightarrow> nat option" where
  "so_firstFree t = (case t of None \<Rightarrow> None | Some es \<Rightarrow> find_idx (\<lambda>e. \<not> so_used e) es)"

definition so_oldest :: "source_table \<Rightarrow> nat option" where
  "so_oldest t = (case t of None \<Rightarrow> None
     | Some es \<Rightarrow> best_idx so_used (\<lambda>e b. sint (so_updatedMs e - so_updatedMs b) < 0) es)"

definition so_install :: "source_table \<Rightarrow> u16 \<Rightarrow> u16 list option \<Rightarrow> nat \<Rightarrow> u32 \<Rightarrow> source_table \<times> bool" where
  "so_install t destAddr relays relayCount now =
     (if t = None \<or> relayCount > sr_kMaxRelays then (t, False)
      else if relayCount > 0 \<and> relays = None then (t, False)
      else case or_else (so_find t destAddr) (or_else (so_firstFree t) (so_oldest t)) of
        None \<Rightarrow> (t, False)
      | Some i \<Rightarrow>
          (map_option (\<lambda>es. es[i := (es ! i)\<lparr>so_used := True, so_destAddr := destAddr,
              so_relayCount := relayCount,
              so_relays := (case relays of None \<Rightarrow> [] | Some rs \<Rightarrow> take relayCount rs) @
                 drop relayCount (so_relays (es ! i)),
              so_updatedMs := now\<rparr>]) t, True))"

definition so_lookup :: "source_table \<Rightarrow> u16 \<Rightarrow> source_route option" where
  "so_lookup t d = (case t of None \<Rightarrow> None | Some es \<Rightarrow> map_option (nth es) (so_find t d))"

text \<open>\<open>downstreamRoute\<close>: the relays written to \<open>out\<close>, or \<open>None\<close> for the result 255.\<close>

definition so_downstreamRoute :: "source_table \<Rightarrow> u16 \<Rightarrow> nat \<Rightarrow> u16 list option" where
  "so_downstreamRoute t destAddr outMax =
     (case so_lookup t destAddr of None \<Rightarrow> None
      | Some e \<Rightarrow>
          if outMax < so_relayCount e then None
          else Some (map (\<lambda>i. so_relays e ! (so_relayCount e - 1 - i)) [0..<so_relayCount e]))"

definition so_remove :: "source_table \<Rightarrow> u16 \<Rightarrow> source_table \<times> bool" where
  "so_remove t d =
     (case so_find t d of None \<Rightarrow> (t, False)
      | Some i \<Rightarrow> (map_option (\<lambda>es. es[i := source_route0]) t, True))"

definition so_stale :: "u32 \<Rightarrow> u32 \<Rightarrow> source_route \<Rightarrow> bool" where
  "so_stale now maxAgeMs e \<longleftrightarrow> so_used e \<and> maxAgeMs \<le> now - so_updatedMs e"

definition so_expire :: "source_table \<Rightarrow> u32 \<Rightarrow> u32 \<Rightarrow> source_table \<times> nat" where
  "so_expire t now maxAgeMs =
     (map_option (sweep (so_stale now maxAgeMs) source_route0) t,
      case t of None \<Rightarrow> 0 | Some es \<Rightarrow> length (filter (so_stale now maxAgeMs) es))"

definition so_activeCount :: "source_table \<Rightarrow> nat" where
  "so_activeCount t = (case t of None \<Rightarrow> 0 | Some es \<Rightarrow> used_count so_used es)"

section \<open>Facts\<close>

interpretation sor: slot_table so_used so_destAddr source_route0
  by unfold_locales (simp add: source_route0_def)

lemma so_find_slot: "so_find (Some es) d = slot_find so_used so_destAddr es d"
  by (simp add: so_find_def slot_find_def)

lemma so_lookup_get: "so_lookup (Some es) d = slot_get so_used so_destAddr es d"
  by (simp add: so_lookup_def so_find_slot slot_get_def)

lemma so_pick:
  "or_else (so_find (Some es) d) (or_else (so_firstFree (Some es)) (so_oldest (Some es))) =
     slot_pick so_used so_destAddr (\<lambda>e b. sint (so_updatedMs e - so_updatedMs b) < 0) es d"
  by (simp add: slot_pick_def so_find_slot so_firstFree_def so_oldest_def)

lemma so_reverse:
  "length rs = n \<Longrightarrow> map (\<lambda>i. (rs @ ys) ! (n - 1 - i)) [0..<n] = rev rs"
  by (intro nth_equalityI) (simp_all add: nth_append rev_nth)

lemma so_install_spec:
  assumes u: "slot_uniq so_used so_destAddr es" and ne: "es \<noteq> []" and len: "length rs \<le> 8"
  obtains es' e where "so_install (Some es) d (Some rs) (length rs) now = (Some es', True)"
    "slot_uniq so_used so_destAddr es'" "length es' = length es"
    "slot_get so_used so_destAddr es' d = Some e" "so_used e" "so_updatedMs e = now"
    "so_downstreamRoute (Some es') d n = (if n < length rs then None else Some (rev rs))"
    "\<And>d'. d' \<noteq> d \<Longrightarrow> slot_get so_used so_destAddr es' d' \<in> {slot_get so_used so_destAddr es d', None}"
    "\<And>d'. d' \<noteq> d \<Longrightarrow> slot_room so_used so_destAddr es d \<Longrightarrow>
      slot_get so_used so_destAddr es' d' = slot_get so_used so_destAddr es d'"
proof -
  let ?better = "\<lambda>e b. sint (so_updatedMs e - so_updatedMs b) < 0"
  from slot_pick_ex [OF ne, of so_used so_destAddr ?better d]
  obtain i where i: "slot_pick so_used so_destAddr ?better es d = Some i" ..
  let ?e = "(es ! i)\<lparr>so_used := True, so_destAddr := d, so_relayCount := length rs,
      so_relays := rs @ drop (length rs) (so_relays (es ! i)), so_updatedMs := now\<rparr>"
  have e: "so_used ?e" "so_destAddr ?e = d" by simp_all
  note p = sor.put_pick [OF u i e]
  have g: "slot_get so_used so_destAddr (es[i := ?e]) d = Some ?e" using p(2) [of d] by simp
  show thesis
  proof (rule that [of "es[i := ?e]" ?e])
    show "so_install (Some es) d (Some rs) (length rs) now = (Some (es[i := ?e]), True)"
      using len i by (simp add: so_install_def sr_kMaxRelays_def so_pick)
    show "slot_uniq so_used so_destAddr (es[i := ?e])" by (rule p(1))
    show "slot_get so_used so_destAddr (es[i := ?e]) d = Some ?e" by (rule g)
    show "so_downstreamRoute (Some (es[i := ?e])) d n = (if n < length rs then None else Some (rev rs))"
      using so_reverse [OF refl, of rs] by (simp add: so_downstreamRoute_def so_lookup_get g)
    show "slot_get so_used so_destAddr (es[i := ?e]) d' \<in> {slot_get so_used so_destAddr es d', None}"
      if "d' \<noteq> d" for d' using p(2) [of d'] that by simp
    show "slot_get so_used so_destAddr (es[i := ?e]) d' = slot_get so_used so_destAddr es d'"
      if "d' \<noteq> d" "slot_room so_used so_destAddr es d" for d'
      using sor.put_pick_room [OF u i e that(2,1)] .
  qed simp_all
qed

text \<open>What the concentrator does with a received Route Record: read the relays one by one with
  \<open>getRouteRecordRelay\<close>, then install the path.\<close>

definition so_onRouteRecord :: "source_table \<Rightarrow> u16 \<Rightarrow> u8 list \<Rightarrow> u32 \<Rightarrow> (source_table \<times> bool) option" where
  "so_onRouteRecord t src payload now =
     (case nwk_parseRouteRecordPayload (Some payload) of
        None \<Rightarrow> None
      | Some (ok, rec) \<Rightarrow>
          if \<not> ok then Some (t, False)
          else
            let relays = map (nwk_getRouteRecordRelay rec) [0..<unat (rr_relayCount rec)] in
            if None \<in> set relays then None
            else Some (so_install t src (Some (map (the \<circ> the) relays)) (unat (rr_relayCount rec)) now))"

lemma so_onRouteRecord_spec:
  assumes b: "nwk_buildRouteRecordPayload (Some outMax) (Some rs) cnt = Some bs"
    and len: "length rs = unat cnt" "length rs \<le> 8"
  shows "so_onRouteRecord t src bs now = Some (so_install t src (Some rs) (length rs) now)"
proof -
  let ?rec = "\<lparr>rr_valid = True, rr_relayCount = cnt, rr_relayList = Some (concat (map le16 rs))\<rparr>"
  have l: "length rs \<le> 127" using len(2) by simp
  note r = nwk_record_roundtrip [OF b len(1) l]
  have m: "map (nwk_getRouteRecordRelay ?rec) [0..<unat cnt] = map (\<lambda>x. Some (Some x)) rs"
    by (rule nth_equalityI) (use r(3) len(1) in simp_all)
  have "None \<notin> set (map (\<lambda>x. Some (Some x)) rs)" by auto
  moreover have "map (the \<circ> the) (map (\<lambda>x. Some (Some x)) rs) = rs" by (simp add: o_def)
  ultimately show ?thesis
    unfolding so_onRouteRecord_def r(1)
    by (simp only: option.case prod.case if_True not_True_eq_False if_False nwk_route_record.select_convs
        m Let_def len(1))
qed

section \<open>Properties\<close>

text \<open>C24: Source routing end to end. When a concentrator stores the path of a Route Record that came over one to
  eight relays, and sends a frame along the route it then reads back, the nodes that handle the
  frame are the relays of the record in reverse order, and the device that sent the record
  delivers it.\<close>

theorem source_route_end_to_end:
  assumes "nwk_buildRouteRecordPayload (Some recMax) (Some rs) cnt = Some rec"
    and "length rs = unat cnt" "1 \<le> length rs" "length rs \<le> 8" "dev \<notin> set rs"
    and "slot_uniq so_used so_destAddr es" "es \<noteq> []"
    and "so_onRouteRecord (Some es) dev rec now = Some (t, True)"
    and "so_downstreamRoute t dev 8 = Some route"
    and "nwk_buildDataFrameSourceRouted (Some outMax) dev src radius seq (Some route) cnt 0
      (Some pl) (length pl) dr = Some (bs, n)" "outMax \<le> 255"
  shows "route = rev rs \<and> length bs \<le> outMax \<and>
    (\<exists>f. nwk_parseDataFrame (Some bs) = Some (True, f) \<and> nd_payload f = Some pl \<and>
      sr_walk (Suc (length rs)) f (last rs) = (rev rs @ [dev], Some SR_DELIVER))"
proof -
  obtain es' where "so_install (Some es) dev (Some rs) (length rs) now = (Some es', True)"
    "so_downstreamRoute (Some es') dev 8 = (if 8 < length rs then None else Some (rev rs))"
    using so_install_spec [OF assms(6,7,4)] by metis
  with assms(8,9) so_onRouteRecord_spec [OF assms(1,2,4)] assms(4) have r: "route = rev rs" by simp
  have len: "length (rev rs) = unat cnt" "length (rev rs) \<le> 122" using assms(2,4) by simp_all
  note bld = assms(10) [unfolded r]
  let ?f = "sr_frame dev src radius seq (rev rs) cnt 0 pl dr"
  have "nwk_parseDataFrame (Some bs) = Some (True, ?f)" using nwk_sr_roundtrip [OF bld len assms(11)] .
  moreover have "nd_payload ?f = Some pl" by (simp add: sr_frame_def)
  moreover have "sr_walk (Suc (length rs)) ?f (last rs) = (rev rs @ [dev], Some SR_DELIVER)"
  proof -
    have "rs \<noteq> []" using assms(3) by auto
    then have "rev rs ! 0 = last rs" by (simp add: hd_conv_nth [symmetric] hd_rev)
    then show ?thesis
      using sr_walk_from [OF len(1), of dev 0 src radius seq pl dr] assms(3,5) \<open>rs \<noteq> []\<close>
      by (simp del: sr_walk.simps)
  qed
  ultimately show ?thesis using r nwk_sr_build(3) [OF bld len assms(11)] by blast
qed

lemma source_route_end_to_end_witness:
  "\<exists>rec t bs n f. nwk_buildRouteRecordPayload (Some 40) (Some [3, 2]) 2 = Some rec \<and>
     so_onRouteRecord (Some [source_route0]) 4 rec 0 = Some (t, True) \<and>
     nwk_buildDataFrameSourceRouted (Some 100) 4 0 30 1 (Some [2, 3]) 2 0 (Some [7]) (length [7 :: u8]) 0 = Some (bs, n) \<and>
     nwk_parseDataFrame (Some bs) = Some (True, f) \<and>
     sr_walk (Suc (length [3 :: u16, 2])) f (last [3, 2]) = (rev [3, 2] @ [4], Some SR_DELIVER)"
proof -
  obtain rec where rec: "nwk_buildRouteRecordPayload (Some 40) (Some [3, 2]) 2 = Some rec"
    by (simp add: nwk_buildRouteRecordPayload_def)
  have u: "slot_uniq so_used so_destAddr [source_route0]" "[source_route0] \<noteq> []" "length [3 :: u16, 2] \<le> 8"
    by (simp_all add: slot_uniq_def source_route0_def)
  obtain es' where i: "so_install (Some [source_route0]) 4 (Some [3, 2]) (length [3 :: u16, 2]) 0 = (Some es', True)"
    "so_downstreamRoute (Some es') 4 8 = (if 8 < length [3 :: u16, 2] then None else Some (rev [3, 2]))"
    using so_install_spec [OF u] by metis
  have c: "length [3 :: u16, 2] = unat (2 :: u8)" "1 \<le> length [3 :: u16, 2]" "(4 :: u16) \<notin> set [3, 2]" by simp_all
  have o: "so_onRouteRecord (Some [source_route0]) 4 rec 0 = Some (Some es', True)"
    using so_onRouteRecord_spec [OF rec c(1) u(3)] i(1) by simp
  have d: "so_downstreamRoute (Some es') 4 8 = Some [2, 3]" using i(2) by simp
  obtain bs n where b: "nwk_buildDataFrameSourceRouted (Some 100) 4 0 30 1 (Some [2, 3]) 2 0 (Some [7]) (length [7 :: u8]) 0 = Some (bs, n)"
    by (simp add: nwk_buildDataFrameSourceRouted_def Let_def)
  from source_route_end_to_end [OF rec c(1,2) u(3) c(3) u(1,2) o d b] rec o b show ?thesis by auto
qed

text \<open>Installing a path replaces the device's old one and disturbs no other as long as the table has a free
  slot; reading a path back gives the recorded relays reversed, is refused when the output is too
  small, and ages out exactly when its age reaches the limit.\<close>

theorem source_route_table_correct:
  assumes "slot_uniq so_used so_destAddr es" "es \<noteq> []" "length rs \<le> 8"
    and "so_install (Some es) d (Some rs) (length rs) now = (t, ok)"
  shows "ok \<and> so_downstreamRoute t d n = (if n < length rs then None else Some (rev rs)) \<and>
    (d' \<noteq> d \<longrightarrow> (\<exists>e\<in>set es. \<not> so_used e) \<longrightarrow> so_lookup t d' = so_lookup (Some es) d') \<and>
    so_downstreamRoute (fst (so_expire t (now + age) limit)) d 8 = (if limit \<le> age then None else Some (rev rs))"
proof (intro conjI impI)
  obtain es' e where i: "so_install (Some es) d (Some rs) (length rs) now = (Some es', True)"
    "slot_uniq so_used so_destAddr es'" "slot_get so_used so_destAddr es' d = Some e" "so_used e"
    "so_updatedMs e = now" "so_downstreamRoute (Some es') d n = (if n < length rs then None else Some (rev rs))"
    "\<And>d'. d' \<noteq> d \<Longrightarrow> slot_room so_used so_destAddr es d \<Longrightarrow>
      slot_get so_used so_destAddr es' d' = slot_get so_used so_destAddr es d'"
    by (rule so_install_spec [OF assms(1-3), of d now n]) (rule that, assumption+)
  have t: "t = Some es'" "ok" using i(1) assms(4) by simp_all
  show ok by (rule t(2))
  show "so_downstreamRoute t d n = (if n < length rs then None else Some (rev rs))" unfolding t(1) by (rule i(6))
  show "so_lookup t d' = so_lookup (Some es) d'" if "d' \<noteq> d" "\<exists>e\<in>set es. \<not> so_used e"
    using i(7) [OF that(1)] that(2) by (simp add: t(1) so_lookup_get slot_room_def)
  obtain es2 where "so_install (Some es) d (Some rs) (length rs) now = (Some es2, True)"
    "so_downstreamRoute (Some es2) d 8 = (if 8 < length rs then None else Some (rev rs))"
    using so_install_spec [OF assms(1-3), of d now 8] by metis
  then have r8: "so_downstreamRoute (Some es') d 8 = Some (rev rs)" using i(1) assms(3) by simp
  have "so_stale (now + age) limit e \<longleftrightarrow> limit \<le> age" using i(4,5) by (simp add: so_stale_def)
  then have "so_lookup (Some (sweep (so_stale (now + age) limit) source_route0 es')) d =
      (if limit \<le> age then None else so_lookup (Some es') d)"
    using sor.get_sweep [OF i(2), of "so_stale (now + age) limit" d] i(3) by (simp add: so_lookup_get)
  then show "so_downstreamRoute (fst (so_expire t (now + age) limit)) d 8 = (if limit \<le> age then None else Some (rev rs))"
    using r8 by (simp add: t(1) so_expire_def so_downstreamRoute_def)
qed

lemma source_route_table_correct_witness:
  "\<exists>t. so_install (Some [source_route0]) 4 (Some [3, 2]) (length [3 :: u16, 2]) 100 = (t, True) \<and>
     so_downstreamRoute t 4 8 = Some [2, 3]"
proof -
  have u: "slot_uniq so_used so_destAddr [source_route0]" "[source_route0] \<noteq> []" "length [3 :: u16, 2] \<le> 8"
    by (simp_all add: slot_uniq_def source_route0_def)
  obtain t ok where i: "so_install (Some [source_route0]) 4 (Some [3, 2]) (length [3 :: u16, 2]) 100 = (t, ok)"
    by fastforce
  from source_route_table_correct [OF u i, of 8] i show ?thesis by simp
qed

end
