(* ===== verification/ZbCcm.thy ===== *)
theory ZbCcm
  imports ZbPrelude "HOL-Library.Signed_Division"
begin

text \<open>
  \<open>ZigbeeCcmStar.h\<close>: AES-CCM* with a two-byte length field, the one routine behind the network
  and the APS layer security. The AES block itself is the chip's (\<open>NrfEcb::encrypt\<close> of the Arduino
  core, not part of the repository), so it is the argument \<open>ecb\<close>: key and block to the output
  block, or \<open>None\<close> where the hardware reports a failure. All that is assumed of it is the shape of
  its interface: it writes sixteen bytes (\<open>ecb_sized\<close>), and, for the results that promise an answer,
  it does not fail on a sixteen-byte key and block (\<open>ecb_works\<close>).

  The C buffers \<open>in\<close>, \<open>aad\<close> are passed with their lengths; here they are the lists of the bytes in use.
\<close>

type_synonym block_cipher = "u8 list \<Rightarrow> u8 list \<Rightarrow> u8 list option"

definition ecb_sized :: "block_cipher \<Rightarrow> bool" where
  "ecb_sized ecb \<longleftrightarrow> (\<forall>k b y. ecb k b = Some y \<longrightarrow> length y = 16)"

definition ecb_works :: "block_cipher \<Rightarrow> bool" where
  "ecb_works ecb \<longleftrightarrow> ecb_sized ecb \<and> (\<forall>k b. length k = 16 \<longrightarrow> length b = 16 \<longrightarrow> ecb k b \<noteq> None)"

definition xor_bytes :: "u8 list \<Rightarrow> u8 list \<Rightarrow> u8 list" where
  "xor_bytes xs ys = map2 (XOR) xs ys"

text \<open>\<open>while (fill < 16) chunk[fill++] = 0\<close>\<close>

definition pad16 :: "u8 list \<Rightarrow> u8 list" where
  "pad16 bs = bs @ replicate (16 - length bs) 0"

text \<open>The CBC loop over sixteen-byte chunks.\<close>

fun cbc_mac :: "block_cipher \<Rightarrow> u8 list \<Rightarrow> u8 list \<Rightarrow> u8 list \<Rightarrow> u8 list option" where
  "cbc_mac ecb key x bs =
     (if bs = [] then Some x
      else do {
        y \<leftarrow> ecb key (xor_bytes x (pad16 (take 16 bs)));
        cbc_mac ecb key y (drop 16 bs)
      })"

declare cbc_mac.simps [simp del]

definition be16 :: "u16 \<Rightarrow> u8 list" where
  "be16 c = [ucast (drop_bit 8 c), ucast (c AND 0xFF)]"

text \<open>The counter-mode loop: block \<open>A\<^sub>i\<close> is the flags, the nonce and the counter.\<close>

fun ctr_xor :: "block_cipher \<Rightarrow> u8 list \<Rightarrow> u8 list \<Rightarrow> u16 \<Rightarrow> u8 list \<Rightarrow> u8 list option" where
  "ctr_xor ecb key nonce counter bs =
     (if bs = [] then Some []
      else do {
        ks \<leftarrow> ecb key (0x01 # nonce @ be16 counter);
        rest \<leftarrow> ctr_xor ecb key nonce (counter + 1) (drop 16 bs);
        Some (xor_bytes (take 16 bs) ks @ rest)
      })"

declare ctr_xor.simps [simp del]

definition ccm_b0 :: "nat \<Rightarrow> u8 list \<Rightarrow> nat \<Rightarrow> u8 list" where
  "ccm_b0 micLen nonce inLen =
     (0x40 OR push_bit 3 (word_of_int ((int micLen - 2) sdiv 2)) OR 0x01) # nonce @ [0, of_nat inLen]"

text \<open>The additional data is prefixed by its length; with none, the first loop does not run.\<close>

definition ccm_aad :: "u8 list \<Rightarrow> u8 list" where
  "ccm_aad aad = (if aad = [] then [] else 0 # of_nat (length aad) # aad)"

definition ccm_diff :: "u8 list \<Rightarrow> u8 list \<Rightarrow> u8" where
  "ccm_diff micIn mic = foldl (OR) 0 (xor_bytes micIn mic)"

text \<open>
  \<open>ccmStarCrypt\<close>: \<open>None\<close> is its answer false, the bytes are what it writes to \<open>out\<close> and to \<open>micOut\<close>
  (a null \<open>micIn\<close> is \<open>None\<close>).
\<close>

definition ccm_starCrypt ::
  "block_cipher \<Rightarrow> bool \<Rightarrow> u8 list \<Rightarrow> nat \<Rightarrow> u8 list \<Rightarrow> u8 list \<Rightarrow> u8 list \<Rightarrow> ptr \<Rightarrow>
     (u8 list \<times> u8 list) option"
where
  "ccm_starCrypt ecb enc key micLen nonce aad inb micIn = do {
     x \<leftarrow> ecb key (ccm_b0 micLen nonce (length inb));
     x \<leftarrow> cbc_mac ecb key x (ccm_aad aad);
     x \<leftarrow> cbc_mac ecb key x inb;
     s0 \<leftarrow> ecb key (0x01 # nonce @ be16 0);
     let mic = take micLen (xor_bytes x s0);
     if (case micIn of None \<Rightarrow> False | Some m \<Rightarrow> ccm_diff (take micLen m) mic \<noteq> 0) then None
     else if enc then do {
       out \<leftarrow> ctr_xor ecb key nonce 1 inb;
       Some (out, mic)
     }
     else Some ([], mic)
   }"

section \<open>Facts\<close>

lemma cbc_mac_Nil [simp]: "cbc_mac ecb key x [] = Some x"
  by (subst cbc_mac.simps) simp

lemma cbc_mac_step:
  "bs \<noteq> [] \<Longrightarrow> cbc_mac ecb key x bs = Option.bind (ecb key (xor_bytes x (pad16 (take 16 bs))))
     (\<lambda>y. cbc_mac ecb key y (drop 16 bs))"
  by (subst cbc_mac.simps) simp

lemma ctr_xor_Nil [simp]: "ctr_xor ecb key nonce c [] = Some []"
  by (subst ctr_xor.simps) simp

lemma ctr_xor_step:
  "bs \<noteq> [] \<Longrightarrow> ctr_xor ecb key nonce c bs = Option.bind (ecb key (0x01 # nonce @ be16 c))
     (\<lambda>ks. Option.bind (ctr_xor ecb key nonce (c + 1) (drop 16 bs))
       (\<lambda>rest. Some (xor_bytes (take 16 bs) ks @ rest)))"
  by (subst ctr_xor.simps) simp

lemma length_xor_bytes [simp]: "length (xor_bytes xs ys) = min (length xs) (length ys)"
  by (simp add: xor_bytes_def)

lemma xor_bytes_twice: "length xs \<le> length ys \<Longrightarrow> xor_bytes (xor_bytes xs ys) ys = xs"
proof (induction xs arbitrary: ys)
  case (Cons x xs)
  then show ?case by (cases ys) (simp_all add: xor_bytes_def xor.assoc)
qed (simp add: xor_bytes_def)

lemma length_pad16 [simp]: "length bs \<le> 16 \<Longrightarrow> length (pad16 bs) = 16"
  by (simp add: pad16_def)

lemma length_be16 [simp]: "length (be16 c) = 2"
  by (simp add: be16_def)

lemma ecb_sizedD: "ecb_sized ecb \<Longrightarrow> ecb k b = Some y \<Longrightarrow> length y = 16"
  by (simp add: ecb_sized_def)

lemma ecb_works_sized: "ecb_works ecb \<Longrightarrow> ecb_sized ecb"
  by (simp add: ecb_works_def)

lemma ecb_worksE:
  assumes "ecb_works ecb" "length k = 16" "length b = 16"
  obtains y where "ecb k b = Some y" "length y = 16"
proof -
  from assms obtain y where y: "ecb k b = Some y" by (auto simp: ecb_works_def)
  with ecb_sizedD [OF ecb_works_sized [OF assms(1)] y] that show thesis by blast
qed

lemma xor_self_eq_0: "(a :: 'w::len word) XOR b = 0 \<longleftrightarrow> a = b"
proof
  assume "a XOR b = 0"
  then have "(a XOR b) XOR b = b" by simp
  then show "a = b" by (simp add: xor.assoc)
qed simp

lemma foldl_or_0: "foldl (OR) (a :: u8) ds = 0 \<longleftrightarrow> a = 0 \<and> (\<forall>d\<in>set ds. d = 0)"
proof (induction ds arbitrary: a)
  case (Cons d ds)
  have "a OR d = 0 \<longleftrightarrow> a = 0 \<and> d = 0"
    by (rule or_eq_0_iff)
  with Cons show ?case by auto
qed simp

lemma ccm_diff_0: "length xs = length ys \<Longrightarrow> ccm_diff xs ys = 0 \<longleftrightarrow> xs = ys"
proof -
  assume l: "length xs = length ys"
  have "(\<forall>d\<in>set (xor_bytes xs ys). d = 0) \<longleftrightarrow> xs = ys"
    using l by (induction xs ys rule: list_induct2) (simp_all add: xor_bytes_def xor_self_eq_0)
  then show ?thesis by (simp add: ccm_diff_def foldl_or_0)
qed

lemma cbc_mac_length:
  "ecb_sized ecb \<Longrightarrow> length x = 16 \<Longrightarrow> cbc_mac ecb key x bs = Some y \<Longrightarrow> length y = 16"
proof (induction ecb key x bs rule: cbc_mac.induct)
  case (1 ecb key x bs)
  show ?case
  proof (cases "bs = []")
    case True
    then show ?thesis using 1(2-) by simp
  next
    case False
    with "1.prems"(3) obtain z where z: "ecb key (xor_bytes x (pad16 (take 16 bs))) = Some z"
      "cbc_mac ecb key z (drop 16 bs) = Some y"
      by (auto simp: cbc_mac_step bind_eq_Some_conv)
    show ?thesis
      by (rule "1.IH" [OF False z(1) "1.prems"(1) ecb_sizedD [OF "1.prems"(1) z(1)] z(2)])
  qed
qed

lemma cbc_mac_works:
  assumes "ecb_works ecb" "length key = 16"
  shows "length x = 16 \<Longrightarrow> \<exists>y. cbc_mac ecb key x bs = Some y \<and> length y = 16"
proof (induction bs arbitrary: x rule: length_induct)
  case (1 bs)
  show ?case
  proof (cases "bs = []")
    case True
    then show ?thesis using 1(2-) by simp
  next
    case False
    have "length (xor_bytes x (pad16 (take 16 bs))) = 16" using 1(2) by simp
    with assms obtain z where z: "ecb key (xor_bytes x (pad16 (take 16 bs))) = Some z" "length z = 16"
      by (rule ecb_worksE)
    have "length (drop 16 bs) < length bs" using False by simp
    with 1(1) z(2) obtain y where "cbc_mac ecb key z (drop 16 bs) = Some y \<and> length y = 16" by blast
    then show ?thesis using False z(1) by (simp add: cbc_mac_step)
  qed
qed

lemma ctr_xor_length:
  "ecb_sized ecb \<Longrightarrow> ctr_xor ecb key nonce c bs = Some cs \<Longrightarrow> length cs = length bs"
proof (induction bs arbitrary: c cs rule: length_induct)
  case (1 bs)
  show ?case
  proof (cases "bs = []")
    case True
    then show ?thesis using 1(2-) by simp
  next
    case False
    with 1(3) obtain ks rest where k: "ecb key (0x01 # nonce @ be16 c) = Some ks"
      "ctr_xor ecb key nonce (c + 1) (drop 16 bs) = Some rest" "cs = xor_bytes (take 16 bs) ks @ rest"
      by (auto simp: ctr_xor_step bind_eq_Some_conv)
    have "length rest = length (drop 16 bs)" using 1(1) [rule_format, OF _ 1(2) k(2)] False by simp
    moreover have "length ks = 16" by (rule ecb_sizedD [OF 1(2) k(1)])
    ultimately show ?thesis using k(3) by simp
  qed
qed

text \<open>Counter mode is its own inverse.\<close>

lemma ctr_xor_twice:
  "ecb_sized ecb \<Longrightarrow> ctr_xor ecb key nonce c bs = Some cs \<Longrightarrow> ctr_xor ecb key nonce c cs = Some bs"
proof (induction bs arbitrary: c cs rule: length_induct)
  case (1 bs)
  show ?case
  proof (cases "bs = []")
    case True
    then show ?thesis using 1(2-) by simp
  next
    case False
    with 1(3) obtain ks rest where k: "ecb key (0x01 # nonce @ be16 c) = Some ks"
      "ctr_xor ecb key nonce (c + 1) (drop 16 bs) = Some rest" "cs = xor_bytes (take 16 bs) ks @ rest"
      by (auto simp: ctr_xor_step bind_eq_Some_conv)
    have l: "length ks = 16" by (rule ecb_sizedD [OF 1(2) k(1)])
    have r: "ctr_xor ecb key nonce (c + 1) rest = Some (drop 16 bs)" using 1(1) [rule_format, OF _ 1(2) k(2)] False by simp
    have ne: "cs \<noteq> []" using ctr_xor_length [OF 1(2,3)] False by auto
    have "take 16 cs = xor_bytes (take 16 bs) ks \<and> drop 16 cs = rest"
    proof (cases "length bs \<ge> 16")
      case True
      then show ?thesis using k(3) l by (simp add: min_def)
    next
      case short: False
      then have "drop 16 bs = []" by simp
      with k(2) have "rest = []" by simp
      then show ?thesis using k(3) l short by simp
    qed
    moreover have "xor_bytes (xor_bytes (take 16 bs) ks) ks = take 16 bs"
      using l by (intro xor_bytes_twice) simp
    ultimately have "ctr_xor ecb key nonce c cs = Some (take 16 bs @ drop 16 bs)"
      using ne k(1) r by (simp add: ctr_xor_step)
    then show ?thesis by simp
  qed
qed

lemma ctr_xor_works:
  assumes "ecb_works ecb" "length key = 16" "length nonce = 13"
  shows "\<exists>cs. ctr_xor ecb key nonce c bs = Some cs"
proof (induction bs arbitrary: c rule: length_induct)
  case (1 bs)
  show ?case
  proof (cases "bs = []")
    case True
    then show ?thesis by simp
  next
    case False
    have "length (0x01 # nonce @ be16 c) = 16" using assms(3) by simp
    with assms(1,2) obtain ks where k: "ecb key (0x01 # nonce @ be16 c) = Some ks" by (rule ecb_worksE)
    have "length (drop 16 bs) < length bs" using False by simp
    with 1 obtain rest where "ctr_xor ecb key nonce (c + 1) (drop 16 bs) = Some rest" by blast
    then show ?thesis using False k by (simp add: ctr_xor_step)
  qed
qed

end
