(* ===== verification/ZbSecurity.thy ===== *)
theory ZbSecurity
  imports ZbCcm ZbSlots
begin

text \<open>
  \<open>ZigbeeSecurity.h\<close> and \<open>ZigbeeSecurity.cpp\<close>: network-layer frame security. The state is the object's:
  the active and the alternate network key with their sequence numbers, the counters, and the
  table of eight replay entries. \<open>npduLen\<close> is the length of the frame passed in.
\<close>

record sec_stats =
  ss_secured :: u32
  ss_opened :: u32
  ss_micFailures :: u32
  ss_duplicates :: u32
  ss_replays :: u32

record replay_entry =
  re_used :: bool
  re_ieee :: u64
  re_keySeq :: u8
  re_lastCounter :: u32

datatype replay_result = ReplayFresh | ReplayDuplicate | ReplayStale

record security =
  sc_hasKey :: bool
  sc_key :: "u8 list"
  sc_keySequence :: u8
  sc_hasAlt :: bool
  sc_altKey :: "u8 list"
  sc_altKeySeq :: u8
  sc_stats :: sec_stats
  sc_replay :: "replay_entry list"

abbreviation (input) "kKeyLen \<equiv> 16 :: nat"
abbreviation (input) "kMicLen \<equiv> 4 :: nat"
abbreviation (input) "kAuxLen \<equiv> 14 :: nat"
abbreviation (input) "kLevel \<equiv> 5 :: u8"
abbreviation (input) "kMaxReplayPeers \<equiv> 8 :: nat"

definition replay0 :: replay_entry where
  "replay0 = \<lparr>re_used = False, re_ieee = 0, re_keySeq = 0, re_lastCounter = 0\<rparr>"

definition sc_resetReplayTable :: "security \<Rightarrow> security" where
  "sc_resetReplayTable s = s\<lparr>sc_replay := replicate kMaxReplayPeers replay0\<rparr>"

definition sc_init :: security where
  "sc_init = sc_resetReplayTable \<lparr>sc_hasKey = False, sc_key = replicate kKeyLen 0, sc_keySequence = 0,
     sc_hasAlt = False, sc_altKey = replicate kKeyLen 0, sc_altKeySeq = 0,
     sc_stats = \<lparr>ss_secured = 0, ss_opened = 0, ss_micFailures = 0, ss_duplicates = 0, ss_replays = 0\<rparr>,
     sc_replay = []\<rparr>"

definition sc_setNetworkKey :: "u8 list \<Rightarrow> u8 \<Rightarrow> security \<Rightarrow> security" where
  "sc_setNetworkKey key keySequence s =
     s\<lparr>sc_key := take kKeyLen key, sc_keySequence := keySequence, sc_hasKey := True\<rparr>"

definition sc_setAlternateKey :: "u8 list \<Rightarrow> u8 \<Rightarrow> security \<Rightarrow> security" where
  "sc_setAlternateKey key keySequence s =
     s\<lparr>sc_altKey := take kKeyLen key, sc_altKeySeq := keySequence, sc_hasAlt := True\<rparr>"

definition sc_switchKey :: "u8 \<Rightarrow> security \<Rightarrow> security \<times> bool" where
  "sc_switchKey keySequence s =
     (if sc_hasKey s \<and> keySequence = sc_keySequence s then (s, True)
      else if sc_hasAlt s \<and> keySequence = sc_altKeySeq s then
        (s\<lparr>sc_key := sc_altKey s, sc_keySequence := sc_altKeySeq s,
           sc_altKey := sc_key s, sc_altKeySeq := sc_keySequence s,
           sc_hasAlt := sc_hasKey s, sc_hasKey := True\<rparr>, True)
      else (s, False))"

definition sc_resetReplayPeer :: "u64 \<Rightarrow> security \<Rightarrow> security" where
  "sc_resetReplayPeer ieee s =
     s\<lparr>sc_replay := sweep (\<lambda>e. re_used e \<and> re_ieee e = ieee) replay0 (sc_replay s)\<rparr>"

text \<open>
  The second branch takes the first free slot, else the one with the lowest counter. The table is
  never empty, so the last \<open>None\<close> does not occur.
\<close>

definition sc_replayCheckAndUpdate ::
  "u64 \<Rightarrow> u8 \<Rightarrow> u32 \<Rightarrow> replay_entry list \<Rightarrow> replay_result \<times> replay_entry list"
where
  "sc_replayCheckAndUpdate ieee keySeq counter es =
     (case find_idx (\<lambda>e. re_used e \<and> re_ieee e = ieee \<and> re_keySeq e = keySeq) es of
        Some i \<Rightarrow>
          if counter = re_lastCounter (es ! i) then (ReplayDuplicate, es)
          else if counter < re_lastCounter (es ! i) then (ReplayStale, es)
          else (ReplayFresh, es[i := (es ! i)\<lparr>re_lastCounter := counter\<rparr>])
      | None \<Rightarrow>
          (case or_else (find_idx (\<lambda>e. \<not> re_used e) es)
                  (best_idx (\<lambda>_. True) (\<lambda>e s. re_lastCounter e < re_lastCounter s) es) of
             Some i \<Rightarrow> (ReplayFresh, es[i := (es ! i)\<lparr>re_used := True, re_ieee := ieee,
               re_keySeq := keySeq, re_lastCounter := counter\<rparr>])
           | None \<Rightarrow> (ReplayFresh, es)))"

definition sc_setSecurityBit :: "bool \<Rightarrow> u8 list \<Rightarrow> u8 list" where
  "sc_setSecurityBit on hdr = hdr[1 := (if on then hdr ! 1 OR 0x02 else hdr ! 1 AND NOT 0x02)]"

text \<open>\<open>srRelayIndexOffset\<close>; 0 stands for a frame without a source route.\<close>

definition sc_srRelayIndexOffset :: "u8 list \<Rightarrow> nat \<Rightarrow> nat" where
  "sc_srRelayIndexOffset hdr headerLen =
     (let fcf = (ucast (hdr ! 0) OR push_bit 8 (ucast (hdr ! 1)) :: u16);
          off = 8 + (if bit fcf 11 then 8 else 0) + (if bit fcf 12 then 8 else 0)
                  + (if bit fcf 8 then 1 else 0) + 1
      in if \<not> bit fcf 10 then 0 else if off < headerLen then off else 0)"

definition sc_nonce :: "u64 \<Rightarrow> u32 \<Rightarrow> u8 \<Rightarrow> u8 list" where
  "sc_nonce srcIeee frameCounter control = le64 srcIeee @ le32 frameCounter @ [control]"

text \<open>
  The end of the \<open>aadBuf\<close> preparation that both directions share: the control byte as computed
  with, and the relay index blanked.
\<close>

definition sc_aad :: "u8 list \<Rightarrow> nat \<Rightarrow> u8 \<Rightarrow> u8 list" where
  "sc_aad aadBuf headerLen control =
     (let aad = aadBuf[headerLen := control];
          sr = sc_srRelayIndexOffset aad headerLen
      in if sr \<noteq> 0 then aad[sr := 0] else aad)"

text \<open>
  \<open>secureNpdu\<close>. The outer \<open>None\<close> is a write behind \<open>out\<close> or behind \<open>aadBuf\<close>, which the casts of
  \<open>total\<close> and \<open>aadLen\<close> to one byte do not exclude for frames of 238 bytes and more.
\<close>

definition sc_secureNpdu ::
  "block_cipher \<Rightarrow> ptr \<Rightarrow> nat \<Rightarrow> u64 \<Rightarrow> u32 \<Rightarrow> out_buf \<Rightarrow> security \<Rightarrow> (u8 list option \<times> security) option"
where
  "sc_secureNpdu ecb npdu headerLen srcIeee frameCounter out s =
     (case (npdu, out) of
        (Some bs, Some outMax) \<Rightarrow>
          if \<not> sc_hasKey s \<or> length bs < headerLen then Some (None, s)
          else if outMax < cast8 (length bs + kAuxLen + kMicLen) then Some (None, s)
          else if outMax < headerLen + kAuxLen then None
          else
            let hdr = sc_setSecurityBit True (take headerLen bs);
                controlOnAir = 0x28;
                controlCrypto = controlOnAir OR kLevel;
                aux = controlOnAir # le32 frameCounter @ le64 srcIeee @ [sc_keySequence s];
                nonce = sc_nonce srcIeee frameCounter controlCrypto
            in
              if 40 < cast8 (headerLen + kAuxLen) then Some (None, s)
              else if 40 < headerLen + kAuxLen \<or> outMax < length bs + kAuxLen + kMicLen then None
              else
                (case ccm_starCrypt ecb True (sc_key s) kMicLen nonce
                        (sc_aad (hdr @ aux) headerLen controlCrypto) (drop headerLen bs) None of
                   None \<Rightarrow> Some (None, s)
                 | Some (cipher, mic) \<Rightarrow>
                     Some (Some (hdr @ aux @ cipher @ mic),
                       s\<lparr>sc_stats := (sc_stats s)\<lparr>ss_secured := ss_secured (sc_stats s) + 1\<rparr>\<rparr>))
      | _ \<Rightarrow> Some (None, s))"

definition sc_selectKey :: "u8 \<Rightarrow> security \<Rightarrow> u8 list option" where
  "sc_selectKey auxKeySeq s =
     (if sc_hasAlt s then
        if auxKeySeq = sc_keySequence s then Some (sc_key s)
        else if auxKeySeq = sc_altKeySeq s then Some (sc_altKey s)
        else None
      else Some (sc_key s))"

definition sc_micFailure :: "security \<Rightarrow> security" where
  "sc_micFailure s = s\<lparr>sc_stats := (sc_stats s)\<lparr>ss_micFailures := ss_micFailures (sc_stats s) + 1\<rparr>\<rparr>"

text \<open>
  \<open>openNpdu\<close>: the answer is the plain frame with the sender's address, \<open>None\<close> for the answer 0.
  The outer \<open>None\<close> is the read of \<open>npdu[1]\<close> or the write of \<open>out[1]\<close> outside the buffer.
\<close>

definition sc_openNpdu ::
  "block_cipher \<Rightarrow> ptr \<Rightarrow> nat \<Rightarrow> out_buf \<Rightarrow> security \<Rightarrow> ((u8 list \<times> u64) option \<times> security) option"
where
  "sc_openNpdu ecb npdu headerLen out s =
     (case (npdu, out) of
        (Some bs, Some outMax) \<Rightarrow>
          if \<not> sc_hasKey s then Some (None, s)
          else if length bs < 2 then None
          else if bs ! 1 AND 0x02 = 0 \<or> length bs < headerLen + kAuxLen + kMicLen then
            Some (None, sc_micFailure s)
          else
            let aux = take kAuxLen (drop headerLen bs);
                frameCounter = le_val (take 4 (drop 1 aux));
                srcIeee = le_val (take 8 (drop 5 aux));
                auxKeySeq = aux ! 13;
                controlCrypto = (aux ! 0 AND NOT 0x07) OR kLevel
            in
              (case sc_selectKey auxKeySeq s of
                 None \<Rightarrow> Some (None, sc_micFailure s)
               | Some useKey \<Rightarrow>
                   let cipherLen = length bs - headerLen - kAuxLen - kMicLen;
                       nonce = sc_nonce srcIeee frameCounter controlCrypto
                   in
                     if outMax < headerLen + cipherLen then Some (None, s)
                     else if outMax < 2 then None
                     else
                       (case ctr_xor ecb useKey nonce 1 (take cipherLen (drop (headerLen + kAuxLen) bs)) of
                          None \<Rightarrow> Some (None, s)
                        | Some plain \<Rightarrow>
                            if 40 < headerLen + kAuxLen then Some (None, s)
                            else
                              let aadBuf = sc_setSecurityBit True (take headerLen bs @ aux);
                                  mic = drop (length bs - kMicLen) bs
                              in
                                (case ccm_starCrypt ecb False useKey kMicLen nonce
                                        (sc_aad aadBuf headerLen controlCrypto) plain (Some mic) of
                                   None \<Rightarrow> Some (None, sc_micFailure s)
                                 | Some _ \<Rightarrow>
                                     (case sc_replayCheckAndUpdate srcIeee auxKeySeq frameCounter (sc_replay s) of
                                        (ReplayDuplicate, es) \<Rightarrow> Some (None, s\<lparr>sc_replay := es,
                                          sc_stats := (sc_stats s)\<lparr>ss_duplicates := ss_duplicates (sc_stats s) + 1\<rparr>\<rparr>)
                                      | (ReplayStale, es) \<Rightarrow> Some (None, s\<lparr>sc_replay := es,
                                          sc_stats := (sc_stats s)\<lparr>ss_replays := ss_replays (sc_stats s) + 1\<rparr>\<rparr>)
                                      | (ReplayFresh, es) \<Rightarrow>
                                          Some (Some (sc_setSecurityBit False (take headerLen bs) @ plain, srcIeee),
                                            s\<lparr>sc_replay := es,
                                              sc_stats := (sc_stats s)\<lparr>ss_opened := ss_opened (sc_stats s) + 1\<rparr>\<rparr>)))))
      | _ \<Rightarrow> Some (None, s))"

end
