(* ===== verification/ZbSecurityFacts.thy ===== *)
theory ZbSecurityFacts
  imports ZbSecurity
begin

text \<open>
  What network-layer security promises: what the sender secures the receiver opens, hop-by-hop
  changes of the relay index included; what the receiver opens a holder of the key secured; no
  frame is accepted twice; a key switch does not lose frames.
\<close>

section \<open>The authenticated data\<close>

text \<open>What a relaying hop does to a source-routed frame: it rewrites the relay index.\<close>

definition sc_relay :: "u8 \<Rightarrow> nat \<Rightarrow> u8 list \<Rightarrow> u8 list" where
  "sc_relay r headerLen frame =
     (let off = sc_srRelayIndexOffset frame headerLen in if off \<noteq> 0 then frame[off := r] else frame)"

lemma sc_offset_bounds: "sc_srRelayIndexOffset x h = 0 \<or> (9 \<le> sc_srRelayIndexOffset x h \<and> sc_srRelayIndexOffset x h < h)"
  by (auto simp: sc_srRelayIndexOffset_def Let_def)

lemma bit_fcf_high:
  fixes a b :: u8
  shows "8 \<le> n \<Longrightarrow> n < 16 \<Longrightarrow> bit (ucast a OR push_bit 8 (ucast b) :: u16) n = bit b (n - 8)"
  using bit_imp_le_length [of a n] by (auto simp: bit_simps)

lemma sc_offset_cong:
  assumes "\<And>n. n \<noteq> 1 \<Longrightarrow> n < 8 \<Longrightarrow> bit (x ! 1) n = bit (y ! 1) n"
  shows "sc_srRelayIndexOffset x h = sc_srRelayIndexOffset y h"
proof -
  have "bit (ucast (x ! 0) OR push_bit 8 (ucast (x ! 1)) :: u16) n =
      bit (ucast (y ! 0) OR push_bit 8 (ucast (y ! 1)) :: u16) n" if "n \<in> {8, 10, 11, 12}" for n
    using that assms by (auto simp: bit_fcf_high)
  then show ?thesis by (simp add: sc_srRelayIndexOffset_def Let_def)
qed

lemma sc_setbit_bits: "n \<noteq> 1 \<Longrightarrow> n < 8 \<Longrightarrow> 1 < length x \<Longrightarrow> bit (sc_setSecurityBit on x ! 1) n = bit (x ! 1) n"
  by (auto simp: sc_setSecurityBit_def bit_simps bit_2_iff)

lemma length_setbit [simp]: "length (sc_setSecurityBit on x) = length x"
  by (simp add: sc_setSecurityBit_def)

lemma sc_setbit_append: "2 \<le> length x \<Longrightarrow> sc_setSecurityBit on (x @ y) = sc_setSecurityBit on x @ y"
  by (simp add: sc_setSecurityBit_def list_update_append nth_append)

lemma sc_setbit_take: "2 \<le> h \<Longrightarrow> 2 \<le> length x \<Longrightarrow> sc_setSecurityBit on (take h x) = take h (sc_setSecurityBit on x)"
  by (simp add: sc_setSecurityBit_def take_update_swap)

lemma or_and_word8: "((b :: u8) OR 2) AND 2 = 2" "b AND 2 \<noteq> 0 \<Longrightarrow> b OR 2 = b"
    "(b OR 2) AND NOT 2 = b AND NOT 2" "(b AND NOT 2) OR 2 = b OR 2" "(b OR 2) OR 2 = b OR 2"
proof -
  have two: "bit (2 :: u8) n \<longleftrightarrow> n = 1" for n by (auto simp: bit_2_iff)
  show "(b OR 2) AND 2 = 2" "(b OR 2) AND NOT 2 = b AND NOT 2" "(b AND NOT 2) OR 2 = b OR 2" "(b OR 2) OR 2 = b OR 2"
    by (rule bit_word_eqI; auto simp: bit_simps two)+
  assume "b AND 2 \<noteq> 0"
  moreover have "b AND 2 = 0" if "\<not> bit b 1" using that by (intro bit_word_eqI) (auto simp: bit_simps two)
  ultimately have "bit b 1" by blast
  then show "b OR 2 = b" by (intro bit_word_eqI) (auto simp: bit_simps two)
qed

lemma sc_setbit_simps [simp]:
  "1 < length x \<Longrightarrow> sc_setSecurityBit True x ! 1 AND 2 = 2"
  "sc_setSecurityBit True (sc_setSecurityBit on x) = sc_setSecurityBit True x"
  "sc_setSecurityBit False (sc_setSecurityBit True x) = sc_setSecurityBit False x"
proof -
  show "1 < length x \<Longrightarrow> sc_setSecurityBit True x ! 1 AND 2 = 2"
    by (simp add: sc_setSecurityBit_def or_and_word8(1))
  show "sc_setSecurityBit True (sc_setSecurityBit on x) = sc_setSecurityBit True x"
    "sc_setSecurityBit False (sc_setSecurityBit True x) = sc_setSecurityBit False x"
    unfolding sc_setSecurityBit_def
    by (cases "1 < length x"; cases on;
      simp only: nth_list_update_eq list_update_overwrite if_True if_False or_and_word8(3-) not_less list_update_beyond)+
qed

lemma sc_setbit_set: "x ! 1 AND 2 \<noteq> 0 \<Longrightarrow> sc_setSecurityBit True x = x"
  by (simp add: sc_setSecurityBit_def or_and_word8(2))

lemma sc_offset_setbit [simp]:
  "1 < length x \<Longrightarrow> sc_srRelayIndexOffset (sc_setSecurityBit on x) h = sc_srRelayIndexOffset x h"
  by (rule sc_offset_cong) (rule sc_setbit_bits)

lemma sc_offset_update: "1 < i \<Longrightarrow> sc_srRelayIndexOffset (x[i := v]) h = sc_srRelayIndexOffset x h"
  by (rule sc_offset_cong) simp

lemma sc_offset_append: "1 < length x \<Longrightarrow> sc_srRelayIndexOffset (x @ y) h = sc_srRelayIndexOffset x h"
  by (rule sc_offset_cong) (simp add: nth_append)

lemma sc_offset_take: "1 < n \<Longrightarrow> sc_srRelayIndexOffset (take n x) h = sc_srRelayIndexOffset x h"
  by (rule sc_offset_cong) simp

text \<open>The relay index is outside the authenticated data, the security bit is normalised in it.\<close>

lemma sc_relay_setbit: "1 < length x \<Longrightarrow> sc_relay r h (sc_setSecurityBit on x) = sc_setSecurityBit on (sc_relay r h x)"
proof (cases "sc_srRelayIndexOffset x h = 0")
  case False
  assume l: "1 < length x"
  let ?o = "sc_srRelayIndexOffset x h"
  have o: "?o \<noteq> 1" "1 \<noteq> ?o" using sc_offset_bounds [of x h] False by auto
  have "x[1 := v, ?o := r] = x[?o := r, 1 := v]" for v using o by (intro list_update_swap) simp
  then have "(sc_setSecurityBit on x)[?o := r] = sc_setSecurityBit on (x[?o := r])"
    using o by (simp add: sc_setSecurityBit_def)
  then show ?thesis using l by (simp add: sc_relay_def Let_def)
qed (simp add: sc_relay_def)

lemma sc_aad_relay: "1 < h \<Longrightarrow> sc_aad (sc_relay r h x) h c = sc_aad x h c"
proof (cases "sc_srRelayIndexOffset x h = 0")
  case False
  assume h: "1 < h"
  let ?o = "sc_srRelayIndexOffset x h"
  have o: "9 \<le> ?o" "?o < h" using sc_offset_bounds [of x h] False by auto
  then have "x[?o := r, h := c, ?o := 0] = x[h := c, ?o := 0]"
    by (simp add: list_update_swap)
  then show ?thesis using h o
    by (simp add: sc_aad_def sc_relay_def Let_def sc_offset_update)
qed (simp add: sc_relay_def)

section \<open>Sealing and opening\<close>

lemma length_ccm_b0 [simp]: "length (ccm_b0 m nonce n) = length nonce + 3"
  by (simp add: ccm_b0_def)

lemma ccm_sized:
  assumes "ecb_sized ecb" "ccm_starCrypt ecb enc key 4 nonce aad inb micIn = Some (c, mic)"
  shows "length mic = 4"
proof -
  from assms(2) obtain x0 x1 x s0 where e: "ecb key (ccm_b0 4 nonce (length inb)) = Some x0"
    "cbc_mac ecb key x0 (ccm_aad aad) = Some x1" "cbc_mac ecb key x1 inb = Some x"
    "ecb key (0x01 # nonce @ be16 0) = Some s0" "mic = take 4 (xor_bytes x s0)"
    by (auto simp: ccm_starCrypt_def Let_def bind_eq_Some_conv split: if_splits)
  have "length x = 16"
    by (rule cbc_mac_length [OF assms(1) cbc_mac_length [OF assms(1) ecb_sizedD [OF assms(1) e(1)] e(2)] e(3)])
  then show ?thesis using e(5) ecb_sizedD [OF assms(1) e(4)] by simp
qed

lemma ccm_seal:
  assumes w: "ecb_works ecb" and k: "length key = 16" and n: "length nonce = 13"
  obtains c mic where "ccm_starCrypt ecb True key 4 nonce aad inb None = Some (c, mic)"
    "length c = length inb" "length mic = 4" "ctr_xor ecb key nonce 1 c = Some inb"
    "ccm_starCrypt ecb False key 4 nonce aad inb (Some mic) = Some ([], mic)"
proof -
  note sized = ecb_works_sized [OF w]
  have l: "length (ccm_b0 4 nonce (length inb)) = 16" "length (0x01 # nonce @ be16 0) = 16"
    using n by simp_all
  obtain x0 where x0: "ecb key (ccm_b0 4 nonce (length inb)) = Some x0" "length x0 = 16"
    using w k l(1) by (rule ecb_worksE)
  obtain x1 where x1: "cbc_mac ecb key x0 (ccm_aad aad) = Some x1" "length x1 = 16"
    using cbc_mac_works [OF w k x0(2)] by blast
  obtain x where x: "cbc_mac ecb key x1 inb = Some x" "length x = 16"
    using cbc_mac_works [OF w k x1(2)] by blast
  obtain s0 where s0: "ecb key (0x01 # nonce @ be16 0) = Some s0" "length s0 = 16"
    using w k l(2) by (rule ecb_worksE)
  obtain c where c: "ctr_xor ecb key nonce 1 inb = Some c" using ctr_xor_works [OF w k n] by blast
  let ?m = "take 4 (xor_bytes x s0)"
  have "ccm_starCrypt ecb True key 4 nonce aad inb None = Some (c, ?m)"
    using x0 x1 x s0 c by (simp add: ccm_starCrypt_def Let_def)
  moreover have "ccm_starCrypt ecb False key 4 nonce aad inb (Some ?m) = Some ([], ?m)"
    using x0 x1 x s0 by (simp add: ccm_starCrypt_def Let_def ccm_diff_0)
  ultimately show thesis
    using that [OF _ ctr_xor_length [OF sized c] _ ctr_xor_twice [OF sized c]] x(2) s0(2) by simp
qed

lemma ccm_unseal:
  assumes sized: "ecb_sized ecb" and v: "ccm_starCrypt ecb False key 4 nonce aad plain (Some m) = Some r"
    and c: "ctr_xor ecb key nonce 1 c = Some plain" and m: "length m = 4"
  shows "ccm_starCrypt ecb True key 4 nonce aad plain None = Some (c, m)"
proof -
  from v obtain x0 x1 x s0 where e: "ecb key (ccm_b0 4 nonce (length plain)) = Some x0"
    "cbc_mac ecb key x0 (ccm_aad aad) = Some x1" "cbc_mac ecb key x1 plain = Some x"
    "ecb key (0x01 # nonce @ be16 0) = Some s0" "ccm_diff m (take 4 (xor_bytes x s0)) = 0"
    using m by (auto simp: ccm_starCrypt_def Let_def bind_eq_Some_conv split: if_splits)
  have "length x = 16"
    by (rule cbc_mac_length [OF sized cbc_mac_length [OF sized ecb_sizedD [OF sized e(1)] e(2)] e(3)])
  then have "m = take 4 (xor_bytes x s0)"
    using e(5) m ecb_sizedD [OF sized e(4)] by (simp add: ccm_diff_0)
  then show ?thesis using e(1-4) ctr_xor_twice [OF sized c] by (simp add: ccm_starCrypt_def Let_def)
qed

definition sc_aux :: "u32 \<Rightarrow> u64 \<Rightarrow> u8 \<Rightarrow> u8 list" where
  "sc_aux frameCounter srcIeee keySeq = 0x28 # le32 frameCounter @ le64 srcIeee @ [keySeq]"

lemma sc_aux_fields [simp]:
  "length (sc_aux fc ieee q) = 14" "le_val (take 4 (drop 1 (sc_aux fc ieee q))) = fc"
  "le_val (take 8 (drop 5 (sc_aux fc ieee q))) = ieee" "sc_aux fc ieee q ! 13 = q" "sc_aux fc ieee q ! 0 = 0x28"
  by (simp_all add: sc_aux_def nth_append)

lemma length_sc_nonce [simp]: "length (sc_nonce ieee fc c) = 13"
  by (simp add: sc_nonce_def)

text \<open>The two directions on a frame written as header, auxiliary header, ciphertext and MIC.\<close>

lemma sc_secure_eq:
  assumes "sc_hasKey s" "h \<le> length npdu" "h \<le> 26" "length npdu + 18 \<le> outMax" "outMax \<le> 255"
    and "ccm_starCrypt ecb True (sc_key s) 4 (sc_nonce ieee fc 0x2D)
      (sc_aad (sc_setSecurityBit True (take h npdu) @ sc_aux fc ieee (sc_keySequence s)) h 0x2D) (drop h npdu) None = Some (c, mic)"
  shows "sc_secureNpdu ecb (Some npdu) h ieee fc (Some outMax) s =
    Some (Some (sc_setSecurityBit True (take h npdu) @ sc_aux fc ieee (sc_keySequence s) @ c @ mic),
      s\<lparr>sc_stats := (sc_stats s)\<lparr>ss_secured := ss_secured (sc_stats s) + 1\<rparr>\<rparr>)"
  using assms by (simp add: sc_secureNpdu_def Let_def sc_aux_def)

lemma sc_open_eq:
  assumes "sc_hasKey s" "sc_selectKey q s = Some key" "2 \<le> length hdr" "length hdr \<le> 26" "hdr ! 1 AND 2 \<noteq> 0"
    and "length mic = 4" "length hdr + length c \<le> outMax"
    and "ctr_xor ecb key (sc_nonce ieee fc 0x2D) 1 c = Some plain"
    and "ccm_starCrypt ecb False key 4 (sc_nonce ieee fc 0x2D)
      (sc_aad (hdr @ sc_aux fc ieee q) (length hdr) 0x2D) plain (Some mic) = Some r"
    and "sc_replayCheckAndUpdate ieee q fc (sc_replay s) = (ReplayFresh, es)"
  shows "sc_openNpdu ecb (Some (hdr @ sc_aux fc ieee q @ c @ mic)) (length hdr) (Some outMax) s =
    Some (Some (sc_setSecurityBit False hdr @ plain, ieee),
      s\<lparr>sc_replay := es, sc_stats := (sc_stats s)\<lparr>ss_opened := ss_opened (sc_stats s) + 1\<rparr>\<rparr>)"
proof -
  have ctl: "((0x28 :: u8) AND NOT 7) OR 5 = 0x2D" by simp
  have set: "sc_setSecurityBit True (hdr @ sc_aux fc ieee q) = hdr @ sc_aux fc ieee q"
    using assms(3,5) by (intro sc_setbit_set) (simp add: nth_append)
  have tk: "take 14 (drop (length hdr) (hdr @ sc_aux fc ieee q @ c @ mic)) = sc_aux fc ieee q"
    "take (length c) (drop (length hdr + 14) (hdr @ sc_aux fc ieee q @ c @ mic)) = c"
    "drop (length (hdr @ sc_aux fc ieee q @ c @ mic) - 4) (hdr @ sc_aux fc ieee q @ c @ mic) = mic"
    "take (length hdr) (hdr @ sc_aux fc ieee q @ c @ mic) = hdr"
    "(hdr @ sc_aux fc ieee q @ c @ mic) ! 1 = hdr ! 1"
    "length (hdr @ sc_aux fc ieee q @ c @ mic) - length hdr - 14 - 4 = length c"
    using assms(3,6) by (simp_all add: nth_append)
  have nf: "\<not> length (hdr @ sc_aux fc ieee q @ c @ mic) < 2" "\<not> length (hdr @ sc_aux fc ieee q @ c @ mic) < length hdr + 14 + 4"
    "\<not> outMax < length hdr + length c" "\<not> outMax < 2" "\<not> 40 < length hdr + 14"
    using assms(3,4,6,7) by simp_all
  show ?thesis
    unfolding sc_openNpdu_def Let_def
    by (simp only: prod.case option.case tk sc_aux_fields ctl set assms nf if_False not_True_eq_False HOL.simp_thms replay_result.case)
qed

lemma sc_relay_append: "length x = h \<Longrightarrow> 2 \<le> h \<Longrightarrow> sc_relay r h (x @ y) = sc_relay r h x @ y"
  using sc_offset_bounds [of x h] by (auto simp: sc_relay_def Let_def sc_offset_append list_update_append)

lemma length_relay [simp]: "length (sc_relay r h x) = length x"
  by (simp add: sc_relay_def Let_def)

lemma sc_relay_byte1: "sc_relay r h x ! 1 = x ! 1"
  using sc_offset_bounds [of x h] by (auto simp: sc_relay_def Let_def)

text \<open>A secured frame opens under any header that authenticates like the one it was sealed with.\<close>

text \<open>What a node keeps of a frame it secured, and of one it opened.\<close>

definition sc_securedOne :: "security \<Rightarrow> security" where
  "sc_securedOne s = s\<lparr>sc_stats := (sc_stats s)\<lparr>ss_secured := ss_secured (sc_stats s) + 1\<rparr>\<rparr>"

definition sc_openedOne :: "u64 \<Rightarrow> u8 \<Rightarrow> u32 \<Rightarrow> security \<Rightarrow> security" where
  "sc_openedOne ieee q fc s = s\<lparr>sc_replay := snd (sc_replayCheckAndUpdate ieee q fc (sc_replay s)),
     sc_stats := (sc_stats s)\<lparr>ss_opened := ss_opened (sc_stats s) + 1\<rparr>\<rparr>"

lemma sc_sealed_counted:
  assumes w: "ecb_works ecb" and tx: "sc_hasKey tx" "length (sc_key tx) = 16"
    and h: "2 \<le> h" "h \<le> 26" "h \<le> length npdu" and out: "length npdu + 18 \<le> outMax" "outMax \<le> 255"
  obtains c mic where
    "sc_secureNpdu ecb (Some npdu) h ieee fc (Some outMax) tx =
       Some (Some (sc_setSecurityBit True (take h npdu) @ sc_aux fc ieee (sc_keySequence tx) @ c @ mic), sc_securedOne tx)"
    "length c = length npdu - h" "length mic = 4"
    "\<And>rx hdr outMax'. sc_hasKey rx \<Longrightarrow> sc_selectKey (sc_keySequence tx) rx = Some (sc_key tx) \<Longrightarrow> length npdu \<le> outMax' \<Longrightarrow>
       fst (sc_replayCheckAndUpdate ieee (sc_keySequence tx) fc (sc_replay rx)) = ReplayFresh \<Longrightarrow>
       length hdr = h \<Longrightarrow> hdr ! 1 AND 2 \<noteq> 0 \<Longrightarrow>
       sc_aad (hdr @ sc_aux fc ieee (sc_keySequence tx)) h 0x2D =
         sc_aad (sc_setSecurityBit True (take h npdu) @ sc_aux fc ieee (sc_keySequence tx)) h 0x2D \<Longrightarrow>
       sc_openNpdu ecb (Some (hdr @ sc_aux fc ieee (sc_keySequence tx) @ c @ mic)) h (Some outMax') rx =
         Some (Some (sc_setSecurityBit False hdr @ drop h npdu, ieee), sc_openedOne ieee (sc_keySequence tx) fc rx)"
proof -
  let ?hdr = "sc_setSecurityBit True (take h npdu)" and ?aux = "sc_aux fc ieee (sc_keySequence tx)"
  let ?n = "sc_nonce ieee fc 0x2D" and ?aad = "sc_aad (?hdr @ ?aux) h 0x2D"
  obtain c mic where s: "ccm_starCrypt ecb True (sc_key tx) 4 ?n ?aad (drop h npdu) None = Some (c, mic)"
    "length c = length (drop h npdu)" "length mic = 4" "ctr_xor ecb (sc_key tx) ?n 1 c = Some (drop h npdu)"
    "ccm_starCrypt ecb False (sc_key tx) 4 ?n ?aad (drop h npdu) (Some mic) = Some ([], mic)"
    using ccm_seal [OF w tx(2) length_sc_nonce] by blast
  note sec = sc_secure_eq [OF tx(1) h(3,2) out s(1), folded sc_securedOne_def]
  have "sc_openNpdu ecb (Some (hdr @ ?aux @ c @ mic)) h (Some outMax') rx =
      Some (Some (sc_setSecurityBit False hdr @ drop h npdu, ieee), sc_openedOne ieee (sc_keySequence tx) fc rx)"
    if rx: "sc_hasKey rx" "sc_selectKey (sc_keySequence tx) rx = Some (sc_key tx)" "length npdu \<le> outMax'"
      "fst (sc_replayCheckAndUpdate ieee (sc_keySequence tx) fc (sc_replay rx)) = ReplayFresh"
      and hdr: "length hdr = h" "hdr ! 1 AND 2 \<noteq> 0" "sc_aad (hdr @ ?aux) h 0x2D = ?aad" for rx hdr outMax'
  proof -
    obtain es where es: "sc_replayCheckAndUpdate ieee (sc_keySequence tx) fc (sc_replay rx) = (ReplayFresh, es)"
      using rx(4) by (metis prod.collapse)
    show ?thesis
      using sc_open_eq [where hdr = hdr and s = rx and outMax = outMax', OF rx(1,2) _ _ hdr(2) s(3) _ s(4) _ es]
        s(2,5) h rx(3) hdr es by (simp add: sc_openedOne_def)
  qed
  then show thesis using that [of c mic] sec s(2,3) by simp
qed

lemma sc_sealed:
  assumes w: "ecb_works ecb" and tx: "sc_hasKey tx" "length (sc_key tx) = 16"
    and h: "2 \<le> h" "h \<le> 26" "h \<le> length npdu" and out: "length npdu + 18 \<le> outMax" "outMax \<le> 255"
  obtains c mic tx' where
    "sc_secureNpdu ecb (Some npdu) h ieee fc (Some outMax) tx =
       Some (Some (sc_setSecurityBit True (take h npdu) @ sc_aux fc ieee (sc_keySequence tx) @ c @ mic), tx')"
    "length c = length npdu - h" "length mic = 4"
    "\<And>rx hdr outMax'. sc_hasKey rx \<Longrightarrow> sc_selectKey (sc_keySequence tx) rx = Some (sc_key tx) \<Longrightarrow> length npdu \<le> outMax' \<Longrightarrow>
       fst (sc_replayCheckAndUpdate ieee (sc_keySequence tx) fc (sc_replay rx)) = ReplayFresh \<Longrightarrow>
       length hdr = h \<Longrightarrow> hdr ! 1 AND 2 \<noteq> 0 \<Longrightarrow>
       sc_aad (hdr @ sc_aux fc ieee (sc_keySequence tx)) h 0x2D =
         sc_aad (sc_setSecurityBit True (take h npdu) @ sc_aux fc ieee (sc_keySequence tx)) h 0x2D \<Longrightarrow>
       \<exists>rx'. sc_openNpdu ecb (Some (hdr @ sc_aux fc ieee (sc_keySequence tx) @ c @ mic)) h (Some outMax') rx =
         Some (Some (sc_setSecurityBit False hdr @ drop h npdu, ieee), rx')"
  by (rule sc_sealed_counted [OF assms, of ieee fc]) (rule that, assumption+, blast)

lemma sc_sealed_bit: "2 \<le> h \<Longrightarrow> h \<le> length npdu \<Longrightarrow> sc_setSecurityBit True (take h npdu) ! 1 AND 2 \<noteq> 0"
proof -
  assume "2 \<le> h" "h \<le> length npdu"
  then have "1 < length (take h npdu)" by simp
  then show ?thesis by (simp only: sc_setbit_simps) simp
qed

text \<open>Without a hop in between.\<close>

lemma sc_deliver:
  assumes w: "ecb_works ecb" and tx: "sc_hasKey tx" "length (sc_key tx) = 16"
    and h: "2 \<le> h" "h \<le> 26" "h \<le> length npdu" and out: "length npdu + 18 \<le> outMax" "outMax \<le> 255"
    and rx: "sc_hasKey rx" "sc_selectKey (sc_keySequence tx) rx = Some (sc_key tx)" "length npdu \<le> outMax'"
    and fresh: "fst (sc_replayCheckAndUpdate ieee (sc_keySequence tx) fc (sc_replay rx)) = ReplayFresh"
  shows "\<exists>frame tx' rx'. sc_secureNpdu ecb (Some npdu) h ieee fc (Some outMax) tx = Some (Some frame, tx') \<and>
    sc_openNpdu ecb (Some frame) h (Some outMax') rx = Some (Some (sc_setSecurityBit False npdu, ieee), rx')"
proof -
  let ?hdr = "sc_setSecurityBit True (take h npdu)"
  have l: "length ?hdr = h" "1 < length (take h npdu)" using h by simp_all
  obtain c mic tx' where s:
    "sc_secureNpdu ecb (Some npdu) h ieee fc (Some outMax) tx =
       Some (Some (?hdr @ sc_aux fc ieee (sc_keySequence tx) @ c @ mic), tx')"
    and opens: "\<exists>rx'. sc_openNpdu ecb (Some (?hdr @ sc_aux fc ieee (sc_keySequence tx) @ c @ mic)) h (Some outMax') rx =
      Some (Some (sc_setSecurityBit False ?hdr @ drop h npdu, ieee), rx')"
    by (rule sc_sealed [OF w tx h out, of ieee fc]) (rule that, assumption, use rx fresh l(1) sc_sealed_bit [OF h(1,3)] in blast)
  have "sc_setSecurityBit False ?hdr = sc_setSecurityBit False (take h npdu)" by (rule sc_setbit_simps)
  then have "sc_setSecurityBit False ?hdr @ drop h npdu = sc_setSecurityBit False npdu"
    using h sc_setbit_append [of "take h npdu" False "drop h npdu"] by simp
  then show ?thesis using s opens by metis
qed

text \<open>C6: Sealing and opening are inverse, across hops. Whatever header (with or without a source
  route) and payload, a frame secured under a key opens at a receiver that holds that key under
  its sequence number and has not seen the counter, even after hops rewrote its relay index: the
  result is the sender's frame with the security bit cleared and that relay index, and the
  sender's address. The secured frame is 18 bytes longer. Of the sender's state only the count of secured frames
  changes, by one; of the receiver's only the count of opened frames, by one, and the replay table, as
  the check of the counter leaves it.\<close>

theorem secured_frame_roundtrip:
  assumes w: "ecb_works ecb" and tx: "sc_hasKey tx" "length (sc_key tx) = 16"
    and h: "2 \<le> h" "h \<le> 26" "h \<le> length npdu" and out: "length npdu + 18 \<le> outMax" "outMax \<le> 255"
    and rx: "sc_hasKey rx" "sc_selectKey (sc_keySequence tx) rx = Some (sc_key tx)" "length npdu \<le> outMax'"
    and fresh: "fst (sc_replayCheckAndUpdate ieee (sc_keySequence tx) fc (sc_replay rx)) = ReplayFresh"
  shows "\<exists>frame. sc_secureNpdu ecb (Some npdu) h ieee fc (Some outMax) tx =
      Some (Some frame, tx\<lparr>sc_stats := (sc_stats tx)\<lparr>ss_secured := ss_secured (sc_stats tx) + 1\<rparr>\<rparr>) \<and>
    length frame = length npdu + 18 \<and>
    sc_openNpdu ecb (Some (sc_relay r h frame)) h (Some outMax') rx =
      Some (Some (sc_relay r h (sc_setSecurityBit False npdu), ieee),
        rx\<lparr>sc_replay := snd (sc_replayCheckAndUpdate ieee (sc_keySequence tx) fc (sc_replay rx)),
           sc_stats := (sc_stats rx)\<lparr>ss_opened := ss_opened (sc_stats rx) + 1\<rparr>\<rparr>)"
proof -
  let ?hdr = "sc_setSecurityBit True (take h npdu)" and ?aux = "sc_aux fc ieee (sc_keySequence tx)"
  let ?hdr' = "sc_relay r h ?hdr"
  have lh: "length ?hdr' = h" "length ?hdr = h" "1 < length (take h npdu)" using h by simp_all
  obtain c mic where s:
    "sc_secureNpdu ecb (Some npdu) h ieee fc (Some outMax) tx = Some (Some (?hdr @ ?aux @ c @ mic), sc_securedOne tx)"
    "length c = length npdu - h" "length mic = 4"
    and opens: "sc_aad (?hdr' @ ?aux) h 0x2D = sc_aad (?hdr @ ?aux) h 0x2D \<Longrightarrow> ?hdr' ! 1 AND 2 \<noteq> 0 \<Longrightarrow>
      sc_openNpdu ecb (Some (?hdr' @ ?aux @ c @ mic)) h (Some outMax') rx =
        Some (Some (sc_setSecurityBit False ?hdr' @ drop h npdu, ieee), sc_openedOne ieee (sc_keySequence tx) fc rx)"
    by (rule sc_sealed_counted [OF w tx h out, of ieee fc]) (rule that, assumption+, use rx fresh lh(1) in blast)
  have aad: "sc_aad (?hdr' @ ?aux) h 0x2D = sc_aad (?hdr @ ?aux) h 0x2D"
    using sc_aad_relay [of h r "?hdr @ ?aux" "0x2D"] h lh(2) by (simp add: sc_relay_append)
  have b: "?hdr' ! 1 AND 2 \<noteq> 0" using sc_sealed_bit [OF h(1,3)] by (simp only: sc_relay_byte1) simp
  have "length (?hdr @ ?aux @ c @ mic) = length npdu + 18" using h s(2,3) by simp
  moreover have "sc_relay r h (?hdr @ ?aux @ c @ mic) = ?hdr' @ ?aux @ c @ mic"
    using h lh by (simp add: sc_relay_append)
  moreover have "sc_setSecurityBit False ?hdr' @ drop h npdu = sc_relay r h (sc_setSecurityBit False npdu)"
  proof -
    have "sc_setSecurityBit False ?hdr' = sc_relay r h (sc_setSecurityBit False (take h npdu))"
      using sc_relay_setbit [of ?hdr r h False] lh by (simp add: sc_relay_setbit)
    moreover have "sc_relay r h (sc_setSecurityBit False (take h npdu)) @ drop h npdu =
        sc_relay r h (sc_setSecurityBit False (take h npdu @ drop h npdu))"
      using h by (subst sc_setbit_append) (simp_all add: sc_relay_append)
    ultimately show ?thesis by simp
  qed
  ultimately show ?thesis using s(1) opens [OF aad b] unfolding sc_securedOne_def sc_openedOne_def by metis
qed

definition ecb_example :: block_cipher where
  "ecb_example k b = Some (take 16 (xor_bytes k (rev b) @ replicate 16 7))"

lemma ecb_example_works: "ecb_works ecb_example"
  by (auto simp: ecb_works_def ecb_sized_def ecb_example_def min_def)

lemma secured_frame_roundtrip_witness:
  "\<exists>frame tx' rx'. sc_secureNpdu ecb_example (Some [0x08, 0x04, 1, 2, 3, 4, 5, 6, 1, 0, 9, 9, 42]) 12 77 5 (Some 127)
       (sc_setNetworkKey (replicate 16 3) 1 sc_init) = Some (Some frame, tx') \<and> length frame = 13 + 18 \<and>
    sc_openNpdu ecb_example (Some (sc_relay 6 12 frame)) 12 (Some 127) (sc_setNetworkKey (replicate 16 3) 1 sc_init) =
      Some (Some (sc_relay 6 12 [0x08, 0x04, 1, 2, 3, 4, 5, 6, 1, 0, 9, 9, 42], 77), rx') \<and>
    ss_secured (sc_stats tx') = 1 \<and> ss_opened (sc_stats rx') = 1"
proof -
  let ?s = "sc_setNetworkKey (replicate 16 3) 1 sc_init" and ?npdu = "[0x08, 0x04, 1, 2, 3, 4, 5, 6, 1, 0, 9, 9, 42] :: u8 list"
  have k: "sc_hasKey ?s" "length (sc_key ?s) = 16" "sc_selectKey (sc_keySequence ?s) ?s = Some (sc_key ?s)"
    "ss_secured (sc_stats ?s) = 0" "ss_opened (sc_stats ?s) = 0"
    by (simp_all add: sc_setNetworkKey_def sc_init_def sc_resetReplayTable_def sc_selectKey_def)
  have f: "fst (sc_replayCheckAndUpdate 77 (sc_keySequence ?s) 5 (sc_replay ?s)) = ReplayFresh"
    by (simp add: sc_setNetworkKey_def sc_init_def sc_resetReplayTable_def sc_replayCheckAndUpdate_def replay0_def numeral_eq_Suc)
  have l: "(2 :: nat) \<le> 12" "(12 :: nat) \<le> 26" "12 \<le> length ?npdu" "length ?npdu + 18 \<le> 127" "(127 :: nat) \<le> 255" "length ?npdu \<le> 127"
    by simp_all
  have n: "sc_setSecurityBit False ?npdu = ?npdu" "length ?npdu = 13" by (simp_all add: sc_setSecurityBit_def)
  from secured_frame_roundtrip [OF ecb_example_works k(1,2) l(1-5) k(1,3) l(6) f, of 6, unfolded n]
  show ?thesis
    by (elim exE conjE) (intro exI conjI, assumption+, simp_all add: k(4,5))
qed

section \<open>What an accepted frame is\<close>

definition sc_counterOf :: "nat \<Rightarrow> u8 list \<Rightarrow> u32" where
  "sc_counterOf h bs = le_val (take 4 (drop 1 (take 14 (drop h bs))))"

definition sc_senderOf :: "nat \<Rightarrow> u8 list \<Rightarrow> u64 \<times> u8" where
  "sc_senderOf h bs = (le_val (take 8 (drop 5 (take 14 (drop h bs)))), take 14 (drop h bs) ! 13)"

abbreviation (input) "sc_controlOf h bs \<equiv> ((take 14 (drop h bs) ! 0 AND NOT 7) OR 5 :: u8)"

text \<open>An opened frame passed every test: the frame was long enough, a key was held, the counter fresh.\<close>

lemma sc_openE:
  assumes "sc_openNpdu ecb (Some bs) h (Some outMax) s = Some (Some (plain, ieee), s')"
  obtains key body where
    "sc_hasKey s" "bs ! 1 AND 2 \<noteq> 0" "h + 18 \<le> length bs" "h \<le> 26" "ieee = fst (sc_senderOf h bs)"
    "sc_selectKey (snd (sc_senderOf h bs)) s = Some key"
    "ctr_xor ecb key (sc_nonce ieee (sc_counterOf h bs) (sc_controlOf h bs)) 1
       (take (length bs - h - 18) (drop (h + 14) bs)) = Some body"
    "ccm_starCrypt ecb False key 4 (sc_nonce ieee (sc_counterOf h bs) (sc_controlOf h bs))
       (sc_aad (sc_setSecurityBit True (take h bs @ take 14 (drop h bs))) h (sc_controlOf h bs))
       body (Some (drop (length bs - 4) bs)) \<noteq> None"
    "plain = sc_setSecurityBit False (take h bs) @ body"
    "sc_replayCheckAndUpdate ieee (snd (sc_senderOf h bs)) (sc_counterOf h bs) (sc_replay s) = (ReplayFresh, sc_replay s')"
proof -
  let ?aux = "take 14 (drop h bs)"
  let ?q = "?aux ! 13" and ?ieee = "le_val (take 8 (drop 5 ?aux)) :: u64" and ?ctl = "sc_controlOf h bs"
  let ?n = "sc_nonce ?ieee (sc_counterOf h bs) ?ctl" and ?m = "drop (length bs - 4) bs"
  let ?c = "take (length bs - h - 18) (drop (h + 14) bs)"
  have k: "sc_hasKey s" by (rule ccontr) (use assms in \<open>simp add: sc_openNpdu_def\<close>)
  have l: "2 \<le> length bs" by (rule ccontr) (use assms k in \<open>simp add: sc_openNpdu_def\<close>)
  have b: "bs ! 1 AND 2 \<noteq> 0" "h + 18 \<le> length bs"
    by (rule ccontr, use assms k l in \<open>simp add: sc_openNpdu_def\<close>)+
  have cl: "length bs - h - 14 - 4 = length bs - h - 18" by simp
  note def = assms [unfolded sc_openNpdu_def Let_def prod.case option.case, folded sc_counterOf_def, unfolded cl]
  obtain key where key: "sc_selectKey ?q s = Some key"
    by (cases "sc_selectKey ?q s") (use def k l b in simp_all)
  have def2: "(if outMax < h + (length bs - h - 18) then Some (None, s) else if outMax < 2 then None
     else (case ctr_xor ecb key ?n 1 ?c of None \<Rightarrow> Some (None, s)
       | Some body \<Rightarrow> if 40 < h + 14 then Some (None, s)
          else (case ccm_starCrypt ecb False key 4 ?n
                  (sc_aad (sc_setSecurityBit True (take h bs @ ?aux)) h ?ctl) body (Some ?m) of
             None \<Rightarrow> Some (None, sc_micFailure s)
           | Some _ \<Rightarrow> (case sc_replayCheckAndUpdate ?ieee ?q (sc_counterOf h bs) (sc_replay s) of
                (ReplayDuplicate, es) \<Rightarrow> Some (None, s\<lparr>sc_replay := es,
                   sc_stats := (sc_stats s)\<lparr>ss_duplicates := ss_duplicates (sc_stats s) + 1\<rparr>\<rparr>)
              | (ReplayStale, es) \<Rightarrow> Some (None, s\<lparr>sc_replay := es,
                   sc_stats := (sc_stats s)\<lparr>ss_replays := ss_replays (sc_stats s) + 1\<rparr>\<rparr>)
              | (ReplayFresh, es) \<Rightarrow>
                  Some (Some (sc_setSecurityBit False (take h bs) @ body, ?ieee),
                    s\<lparr>sc_replay := es,
                      sc_stats := (sc_stats s)\<lparr>ss_opened := ss_opened (sc_stats s) + 1\<rparr>\<rparr>))))) =
     Some (Some (plain, ieee), s')"
    using def k l b key by simp
  obtain body where body: "ctr_xor ecb key ?n 1 ?c = Some body"
    using def2 by (cases "ctr_xor ecb key ?n 1 ?c") (simp_all split: if_splits)
  note def3 = def2 [unfolded body option.case]
  have h: "h \<le> 26" using def3 by (simp split: if_splits)
  obtain r where r: "ccm_starCrypt ecb False key 4 ?n
      (sc_aad (sc_setSecurityBit True (take h bs @ ?aux)) h ?ctl) body (Some ?m) = Some r"
    using def3 h by (cases "ccm_starCrypt ecb False key 4 ?n
      (sc_aad (sc_setSecurityBit True (take h bs @ ?aux)) h ?ctl) body (Some ?m)") (simp_all split: if_splits)
  obtain v es where v: "sc_replayCheckAndUpdate ?ieee ?q (sc_counterOf h bs) (sc_replay s) = (v, es)" by fastforce
  note def4 = def3 [unfolded r v option.case prod.case]
  have "v = ReplayFresh" "es = sc_replay s'" "ieee = ?ieee" "plain = sc_setSecurityBit False (take h bs) @ body"
    using def4 h by (cases v; auto split: if_splits)+
  then show thesis
    using that [of key body] k b h key body r v by (simp add: sc_senderOf_def)
qed

text \<open>The three level bits of the control byte on air are read as 5.\<close>

lemma sc_openNpdu_level:
  assumes "npdu ! h AND NOT 7 = c AND NOT 7" and that: "2 \<le> h"
  shows "sc_openNpdu ecb (Some (npdu[h := c])) h out s = sc_openNpdu ecb (Some npdu) h out s"
proof (cases "h + 18 \<le> length npdu")
  case False
  then show ?thesis using that by (simp add: sc_openNpdu_def split: option.split)
next
  case True
  let ?aux = "take 14 (drop h npdu)" and ?bs = "npdu[h := c]"
  have aux: "take 14 (drop h ?bs) = ?aux[0 := c]" using True by (simp add: drop_update_swap take_update_swap)
  have l: "length ?aux = 14" using True by simp
  have r: "take h ?bs = take h npdu" "drop (h + 14) ?bs = drop (h + 14) npdu" "?bs ! 1 = npdu ! 1"
    "drop (length npdu - 4) ?bs = drop (length npdu - 4) npdu" "length ?bs = length npdu"
    "take 4 (drop 1 (?aux[0 := c])) = take 4 (drop 1 ?aux)" "take 8 (drop 5 (?aux[0 := c])) = take 8 (drop 5 ?aux)"
    "?aux[0 := c] ! 13 = ?aux ! 13" "?aux[0 := c] ! 0 AND NOT 7 = ?aux ! 0 AND NOT 7"
    using True that assms by simp_all
  have aad: "sc_aad (sc_setSecurityBit True (take h npdu @ ?aux[0 := c])) h x = sc_aad (sc_setSecurityBit True (take h npdu @ ?aux)) h x" for x
  proof -
    have "(take h npdu @ ?aux[0 := c]) = (take h npdu @ ?aux)[h := c]" using True by (simp add: list_update_append)
    moreover have "sc_setSecurityBit True (bs[h := c]) = (sc_setSecurityBit True bs)[h := c]" for bs
      using that by (simp add: sc_setSecurityBit_def list_update_swap)
    ultimately show ?thesis by (simp add: sc_aad_def)
  qed
  show ?thesis unfolding sc_openNpdu_def option.case prod.case Let_def aux r aad by (rule refl)
qed

lemma sc_opened_sealed:
  assumes sized: "ecb_sized ecb" and len: "length npdu \<le> 255" and h: "2 \<le> h" "npdu ! h = 0x28"
    and opened: "sc_openNpdu ecb (Some npdu) h (Some outMax) rx = Some (Some (plain, ieee), rx')"
    and tx: "sc_hasKey tx" "sc_keySequence tx = npdu ! (h + 13)"
      "sc_selectKey (npdu ! (h + 13)) rx = Some (sc_key tx)"
  shows "\<exists>tx'. sc_secureNpdu ecb (Some plain) h ieee (sc_counterOf h npdu) (Some 255) tx = Some (Some npdu, tx')"
proof -
  let ?aux = "take 14 (drop h npdu)" and ?cnt = "sc_counterOf h npdu"
  from opened obtain key body where o: "sc_hasKey rx" "npdu ! 1 AND 2 \<noteq> 0" "h + 18 \<le> length npdu" "h \<le> 26"
    "ieee = fst (sc_senderOf h npdu)" "sc_selectKey (snd (sc_senderOf h npdu)) rx = Some key"
    "ctr_xor ecb key (sc_nonce ieee ?cnt (sc_controlOf h npdu)) 1
       (take (length npdu - h - 18) (drop (h + 14) npdu)) = Some body"
    "ccm_starCrypt ecb False key 4 (sc_nonce ieee ?cnt (sc_controlOf h npdu))
       (sc_aad (sc_setSecurityBit True (take h npdu @ ?aux)) h (sc_controlOf h npdu))
       body (Some (drop (length npdu - 4) npdu)) \<noteq> None"
    "plain = sc_setSecurityBit False (take h npdu) @ body"
    by (rule sc_openE)
  let ?c = "take (length npdu - h - 18) (drop (h + 14) npdu)" and ?m = "drop (length npdu - 4) npdu"
  have a13: "?aux ! 13 = npdu ! (h + 13)" "?aux ! 0 = 0x28" using o(3) h(2) by simp_all
  then have ctl: "sc_controlOf h npdu = 0x2D" by simp
  have key: "key = sc_key tx" using o(6) tx(3) a13 by (simp add: sc_senderOf_def)
  have aux: "?aux = sc_aux ?cnt ieee (npdu ! (h + 13))"
  proof (rule nth_equalityI)
    fix i assume "i < length ?aux"
    then have i: "i < 14" by simp
    have c: "le32 ?cnt = take 4 (drop 1 ?aux)" "le64 ieee = take 8 (drop 5 ?aux)"
      using o(3,5) by (simp_all add: sc_counterOf_def sc_senderOf_def le_val_inv)
    consider "i = 0" | "1 \<le> i" "i < 5" | "5 \<le> i" "i < 13" | "i = 13" using i by linarith
    then show "?aux ! i = sc_aux ?cnt ieee (npdu ! (h + 13)) ! i"
      using o(3) a13 unfolding sc_aux_def c by cases (auto simp: nth_append nth_Cons')
  qed (use o(3) in simp)
  have hd: "length (take h npdu) = h" "2 \<le> length (take h npdu)" using o(3) h(1) by simp_all
  have b: "take h npdu ! 1 AND 2 \<noteq> 0" using o(2) h(1) by simp
  have set: "sc_setSecurityBit True (take h plain) = take h npdu"
    "sc_setSecurityBit True (take h npdu @ ?aux) = take h npdu @ ?aux" "drop h plain = body"
    using o(9) hd b by (simp_all add: sc_setbit_set sc_setbit_append)
  have lb: "length body = length npdu - h - 18"
    using ctr_xor_length [OF sized o(7)] o(3) by simp
  have "ccm_starCrypt ecb True key 4 (sc_nonce ieee ?cnt 0x2D) (sc_aad (take h npdu @ ?aux) h 0x2D) body None =
      Some (?c, ?m)"
  proof -
    from o(8) [unfolded ctl set] obtain r where "ccm_starCrypt ecb False key 4 (sc_nonce ieee ?cnt 0x2D)
        (sc_aad (take h npdu @ ?aux) h 0x2D) body (Some ?m) = Some r" by blast
    then show ?thesis
      by (rule ccm_unseal [OF sized _ o(7) [unfolded ctl]]) (use o(3) in simp)
  qed
  then have "\<exists>tx'. sc_secureNpdu ecb (Some plain) h ieee ?cnt (Some 255) tx =
      Some (Some (take h npdu @ ?aux @ ?c @ ?m), tx')"
    using sc_secure_eq [of tx h plain 255 ecb ieee ?cnt ?c ?m] tx(1,2) o(3,4,9) lb len
    by (auto simp: set aux key sc_setbit_set [OF b])
  moreover have "take h npdu @ ?aux @ ?c @ ?m = npdu"
  proof -
    have "?c @ ?m = drop (h + 14) npdu"
      using append_take_drop_id [of "length npdu - h - 18" "drop (h + 14) npdu"] o(3) by simp
    moreover have "?aux @ drop (h + 14) npdu = drop h npdu"
      using append_take_drop_id [of 14 "drop h npdu"] by (simp add: add.commute)
    ultimately show ?thesis by simp
  qed
  ultimately show ?thesis by metis
qed

text \<open>C23: What opens was secured. Whatever frame opens under a key, its encrypted part and its integrity code are
  what CCM* makes of the plain frame, the header and the counter it carries under that key, and nothing else is in the
  frame; and when its control byte is the one every sender of the library puts on air, in whatever way the level bits
  are set, which the receiver ignores, then \<open>secureNpdu\<close> of a holder of that key makes from the plain
  frame and the counter that very frame, with the level bits clear. The relay index alone escapes the authentication.\<close>

theorem opened_frame_was_secured:
  assumes sized: "ecb_sized ecb" and len: "length npdu \<le> 255" and h: "2 \<le> h"
    and opened: "sc_openNpdu ecb (Some npdu) h (Some outMax) rx = Some (Some (plain, ieee), rx')"
    and tx: "sc_hasKey tx" "sc_keySequence tx = npdu ! (h + 13)"
      "sc_selectKey (npdu ! (h + 13)) rx = Some (sc_key tx)"
  shows "(\<exists>cipher mic. npdu = take (h + 14) npdu @ cipher @ mic \<and> length mic = 4 \<and>
      take h plain = sc_setSecurityBit False (take h npdu) \<and>
      ccm_starCrypt ecb True (sc_key tx) 4 (sc_nonce ieee (sc_counterOf h npdu) (npdu ! h AND NOT 7 OR 5))
        (sc_aad (take (h + 14) npdu) h (npdu ! h AND NOT 7 OR 5)) (drop h plain) None = Some (cipher, mic)) \<and>
    (npdu ! h AND NOT 7 = 0x28 \<longrightarrow>
      (\<exists>tx'. sc_secureNpdu ecb (Some plain) h ieee (sc_counterOf h npdu) (Some 255) tx = Some (Some (npdu[h := 0x28]), tx')))"
proof (rule conjI, goal_cases)
  case 1
  let ?aux = "take 14 (drop h npdu)" and ?c = "take (length npdu - h - 18) (drop (h + 14) npdu)" and ?m = "drop (length npdu - 4) npdu"
  from opened obtain key body where o: "npdu ! 1 AND 2 \<noteq> 0" "h + 18 \<le> length npdu"
    "sc_selectKey (snd (sc_senderOf h npdu)) rx = Some key"
    "ctr_xor ecb key (sc_nonce ieee (sc_counterOf h npdu) (sc_controlOf h npdu)) 1 ?c = Some body"
    "ccm_starCrypt ecb False key 4 (sc_nonce ieee (sc_counterOf h npdu) (sc_controlOf h npdu))
       (sc_aad (sc_setSecurityBit True (take h npdu @ ?aux)) h (sc_controlOf h npdu)) body (Some ?m) \<noteq> None"
    "plain = sc_setSecurityBit False (take h npdu) @ body"
    by (rule sc_openE)
  have a: "?aux ! 13 = npdu ! (h + 13)" "?aux ! 0 = npdu ! h" using o(2) by simp_all
  have key: "key = sc_key tx" using o(3) tx(3) a(1) by (simp add: sc_senderOf_def)
  have b: "take h npdu ! 1 AND 2 \<noteq> 0" "length (take h npdu) = h" using o(1,2) h by simp_all
  have hd: "take h npdu @ ?aux = take (h + 14) npdu" by (simp add: take_add)
  have set: "sc_setSecurityBit True (take h npdu @ ?aux) = take (h + 14) npdu"
    using b h hd by (simp add: sc_setbit_set sc_setbit_append)
  have m: "length ?m = 4" using o(2) by simp
  obtain r where r: "ccm_starCrypt ecb False key 4 (sc_nonce ieee (sc_counterOf h npdu) (sc_controlOf h npdu))
       (sc_aad (take (h + 14) npdu) h (sc_controlOf h npdu)) body (Some ?m) = Some r" using o(5) [unfolded set] by blast
  have "?c @ ?m = drop (h + 14) npdu"
    using append_take_drop_id [of "length npdu - h - 18" "drop (h + 14) npdu"] o(2) by simp
  then have n: "npdu = take (h + 14) npdu @ ?c @ ?m" by simp
  have p: "take h plain = sc_setSecurityBit False (take h npdu)" "drop h plain = body" using o(6) b(2) by simp_all
  show ?case using n m p ccm_unseal [OF sized r o(4) m] unfolding key a(2) by blast
next
  case 2
  show ?case
  proof
    assume c: "npdu ! h AND NOT 7 = 0x28"
    let ?b = "npdu[h := 0x28]"
    have l: "h + 18 \<le> length npdu" using opened by (rule sc_openE)
    have o: "sc_openNpdu ecb (Some ?b) h (Some outMax) rx = Some (Some (plain, ieee), rx')"
      using sc_openNpdu_level [of npdu h "0x28" ecb "Some outMax" rx] c h opened by simp
    have "sc_counterOf h ?b = sc_counterOf h npdu" using l by (simp add: sc_counterOf_def drop_update_swap take_update_swap)
    then show "\<exists>tx'. sc_secureNpdu ecb (Some plain) h ieee (sc_counterOf h npdu) (Some 255) tx = Some (Some ?b, tx')"
      using sc_opened_sealed [OF sized _ h _ o tx(1)] tx(2,3) len l by simp
  qed
qed

abbreviation (input) "frame_example \<equiv>
  [8, 2, 1, 2, 3, 4, 5, 6, 40, 5, 0, 0, 0, 77, 0, 0, 0, 0, 0, 0, 0, 1, 40, 7, 78, 46, 3] :: u8 list"

definition holder_example :: security where
  "holder_example = sc_setNetworkKey (replicate 16 3) 1 sc_init"

lemma frame_example_opens:
  "map_option fst (sc_openNpdu ecb_example (Some frame_example) 8 (Some 127) holder_example) =
     Some (Some ([8, 0, 1, 2, 3, 4, 5, 6, 42], 77))"
  by code_simp

lemma opened_frame_was_secured_witness:
  "\<exists>tx'. sc_secureNpdu ecb_example (Some [8, 0, 1, 2, 3, 4, 5, 6, 42]) 8 77 (sc_counterOf 8 frame_example)
     (Some 255) holder_example = Some (Some frame_example, tx')"
proof -
  obtain rx' where o: "sc_openNpdu ecb_example (Some frame_example) 8 (Some 127) holder_example =
      Some (Some ([8, 0, 1, 2, 3, 4, 5, 6, 42], 77), rx')"
    using frame_example_opens by (auto simp: map_option_eq_Some)
  have "length frame_example \<le> 255" "(2 :: nat) \<le> 8" by simp_all
  from opened_frame_was_secured [OF ecb_works_sized [OF ecb_example_works] this o, of holder_example] show ?thesis
    by (simp add: holder_example_def sc_setNetworkKey_def sc_init_def sc_resetReplayTable_def sc_selectKey_def)
qed

section \<open>Replay\<close>

definition re_key :: "replay_entry \<Rightarrow> u64 \<times> u8" where
  "re_key e = (re_ieee e, re_keySeq e)"

interpretation rep: slot_table re_used re_key replay0
  by unfold_locales (simp add: replay0_def)

definition re_at :: "replay_entry list \<Rightarrow> u64 \<times> u8 \<Rightarrow> u32 option" where
  "re_at es k = map_option re_lastCounter (slot_get re_used re_key es k)"

lemma re_find_slot:
  "find_idx (\<lambda>e. re_used e \<and> re_ieee e = a \<and> re_keySeq e = q) es = slot_find re_used re_key es (a, q)"
  by (simp add: slot_find_def re_key_def)

text \<open>The map the table stands for: identity to last counter. A check answers by the map, as long as
  the table has room for the identity.\<close>

definition rm_check :: "u32 option \<Rightarrow> u32 \<Rightarrow> replay_result" where
  "rm_check m c = (case m of None \<Rightarrow> ReplayFresh
     | Some d \<Rightarrow> if c = d then ReplayDuplicate else if c < d then ReplayStale else ReplayFresh)"

lemma re_check_spec:
  assumes u: "slot_uniq re_used re_key es" and ne: "es \<noteq> []"
    and fit: "card (insert (a, q) (dom (slot_get re_used re_key es))) \<le> length es"
  obtains es' where "sc_replayCheckAndUpdate a q c es = (rm_check (re_at es (a, q)) c, es')"
    "slot_uniq re_used re_key es'" "length es' = length es"
    "dom (slot_get re_used re_key es') \<subseteq> insert (a, q) (dom (slot_get re_used re_key es))"
    "re_at es' = (if rm_check (re_at es (a, q)) c = ReplayFresh then (re_at es)((a, q) := Some c) else re_at es)"
    "rm_check (re_at es (a, q)) c \<noteq> ReplayFresh \<longrightarrow> es' = es"
proof -
  let ?k = "(a, q)" and ?better = "\<lambda>e s. re_lastCounter e < re_lastCounter s"
  let ?e = "\<lparr>re_used = True, re_ieee = a, re_keySeq = q, re_lastCounter = c\<rparr>"
  have e: "re_used ?e" "re_key ?e = ?k" by (simp_all add: re_key_def)
  obtain i where i: "slot_pick re_used re_key ?better es ?k = Some i"
    using slot_pick_ex [OF ne, of re_used re_key ?better ?k] by blast
  have f: "slot_get re_used re_key (es[i := ?e]) = (slot_get re_used re_key es)(?k := Some ?e)"
    using rep.put_pick_fits [OF u i e fit] .
  have put: "slot_uniq re_used re_key (es[i := ?e])"
    "dom (slot_get re_used re_key (es[i := ?e])) \<subseteq> insert ?k (dom (slot_get re_used re_key es))"
    "re_at (es[i := ?e]) = (re_at es)(?k := Some c)"
    using rep.put_pick(1) [OF u i e] f by (auto simp: re_at_def)
  show thesis
  proof (cases "slot_find re_used re_key es ?k")
    case None
    have ov: "(es ! i)\<lparr>re_used := True, re_ieee := a, re_keySeq := q, re_lastCounter := c\<rparr> = ?e"
      by (cases "es ! i") simp
    have n: "re_at es ?k = None" using None by (simp add: re_at_def slot_get_def)
    have "sc_replayCheckAndUpdate a q c es = (ReplayFresh, es[i := ?e])"
      using None i by (simp add: sc_replayCheckAndUpdate_def re_find_slot slot_pick_oldest [OF None] ov)
    then show thesis using that put n by (simp add: rm_check_def)
  next
    case (Some j)
    with i have "j = i" by (simp add: slot_pick_def)
    then have ov: "(es ! j)\<lparr>re_lastCounter := c\<rparr> = ?e" "re_at es ?k = Some (re_lastCounter (es ! j))"
      using slot_find_sat [OF Some] Some by (cases "es ! j"; simp add: re_key_def re_at_def slot_get_def)+
    have "sc_replayCheckAndUpdate a q c es =
        (rm_check (re_at es ?k) c, if rm_check (re_at es ?k) c = ReplayFresh then es[i := ?e] else es)"
      using Some ov \<open>j = i\<close> by (simp add: sc_replayCheckAndUpdate_def re_find_slot rm_check_def)
    then show thesis using that put u by (cases "rm_check (re_at es ?k) c = ReplayFresh") auto
  qed
qed

lemma re_check_keeps: "sc_replayCheckAndUpdate a q c es = (v, es') \<Longrightarrow> v \<noteq> ReplayFresh \<Longrightarrow> es' = es"
  by (auto simp: sc_replayCheckAndUpdate_def split: option.splits if_splits)

lemma sc_open_rejects:
  "sc_openNpdu ecb (Some bs) h (Some outMax) s = Some (None, s') \<Longrightarrow> sc_replay s' = sc_replay s"
  by (auto simp: sc_openNpdu_def Let_def sc_micFailure_def
      split: if_splits option.splits prod.splits replay_result.splits dest: re_check_keeps)

text \<open>A receiver that opens one frame after the other.\<close>

fun sc_openAll ::
  "block_cipher \<Rightarrow> nat \<Rightarrow> (u8 list \<times> nat) list \<Rightarrow> security \<Rightarrow> ((u8 list \<times> u64) option list \<times> security) option"
where
  "sc_openAll ecb outMax [] s = Some ([], s)"
| "sc_openAll ecb outMax ((bs, h) # fs) s =
     (case sc_openNpdu ecb (Some bs) h (Some outMax) s of
        None \<Rightarrow> None
      | Some (r, s) \<Rightarrow> map_option (\<lambda>(rs, s). (r # rs, s)) (sc_openAll ecb outMax fs s))"

definition sc_senders :: "(u8 list \<times> nat) list \<Rightarrow> (u64 \<times> u8) set" where
  "sc_senders fs = (\<lambda>(bs, h). sc_senderOf h bs) ` set fs"

definition sc_accepted :: "(u64 \<times> u8) \<Rightarrow> (u8 list \<times> nat) list \<Rightarrow> (u8 list \<times> u64) option list \<Rightarrow> u32 list" where
  "sc_accepted k fs rs = [sc_counterOf h bs. ((bs, h), r) \<leftarrow> zip fs rs, r \<noteq> None \<and> sc_senderOf h bs = k]"

lemma sc_openAll_accepted:
  assumes "sc_openAll ecb outMax fs s = Some (rs, s')"
    and "slot_uniq re_used re_key (sc_replay s)" "sc_replay s \<noteq> []"
    and "card (dom (slot_get re_used re_key (sc_replay s)) \<union> sc_senders fs) \<le> length (sc_replay s)"
  shows "sorted_wrt (<) (sc_accepted k fs rs) \<and>
    (\<forall>c\<in>set (sc_accepted k fs rs). \<forall>d. re_at (sc_replay s) k = Some d \<longrightarrow> d < c)"
  using assms
proof (induction fs arbitrary: s rs)
  case Nil
  then show ?case by (simp add: sc_accepted_def)
next
  case (Cons f fs)
  obtain bs h where f: "f = (bs, h)" by fastforce
  from Cons.prems(1) obtain r s1 rs1 where o: "sc_openNpdu ecb (Some bs) h (Some outMax) s = Some (r, s1)"
    and rest: "sc_openAll ecb outMax fs s1 = Some (rs1, s')" and rs: "rs = r # rs1"
    by (auto simp: f split: option.splits)
  let ?id = "sc_senderOf h bs" and ?c = "sc_counterOf h bs"
  let ?dom = "\<lambda>s. dom (slot_get re_used re_key (sc_replay s))"
  have fin: "finite (?dom s \<union> sc_senders (f # fs))" using Cons.prems(2) by (simp add: sc_senders_def)
  show ?case
  proof (cases r)
    case None
    have keep: "sc_replay s1 = sc_replay s" by (rule sc_open_rejects [OF o [unfolded None]])
    have "card (?dom s \<union> sc_senders fs) \<le> card (?dom s \<union> sc_senders (f # fs))"
      using fin by (intro card_mono) (auto simp: sc_senders_def)
    then have "card (?dom s1 \<union> sc_senders fs) \<le> length (sc_replay s1)" using Cons.prems(4) keep by simp
    from Cons.IH [OF rest _ _ this] Cons.prems(2,3) keep show ?thesis
      by (simp add: sc_accepted_def rs f None)
  next
    case (Some pr)
    then obtain plain ieee where r: "r = Some (plain, ieee)" by fastforce
    have acc: "sc_replayCheckAndUpdate (fst ?id) (snd ?id) ?c (sc_replay s) = (ReplayFresh, sc_replay s1)"
      using o [unfolded r] by (rule sc_openE) simp
    have "card (insert ?id (?dom s)) \<le> card (?dom s \<union> sc_senders (f # fs))"
      using fin by (intro card_mono) (auto simp: sc_senders_def f)
    then have fit: "card (insert (fst ?id, snd ?id) (?dom s)) \<le> length (sc_replay s)"
      using Cons.prems(4) by simp
    obtain es' where es': "sc_replayCheckAndUpdate (fst ?id) (snd ?id) ?c (sc_replay s) =
        (rm_check (re_at (sc_replay s) (fst ?id, snd ?id)) ?c, es')"
      "slot_uniq re_used re_key es'" "length es' = length (sc_replay s)"
      "dom (slot_get re_used re_key es') \<subseteq> insert (fst ?id, snd ?id) (?dom s)"
      "re_at es' = (if rm_check (re_at (sc_replay s) (fst ?id, snd ?id)) ?c = ReplayFresh
         then (re_at (sc_replay s))((fst ?id, snd ?id) := Some ?c) else re_at (sc_replay s))"
      using re_check_spec [OF Cons.prems(2,3) fit] by blast
    have eq: "es' = sc_replay s1" "rm_check (re_at (sc_replay s) ?id) ?c = ReplayFresh"
      using acc es'(1) by simp_all
    have m: "re_at (sc_replay s1) = (re_at (sc_replay s))(?id := Some ?c)" using es'(5) eq by simp
    have low: "d < ?c" if "re_at (sc_replay s) ?id = Some d" for d
      using eq(2) that by (auto simp: rm_check_def split: if_splits)
    have "card (?dom s1 \<union> sc_senders fs) \<le> card (?dom s \<union> sc_senders (f # fs))"
      using fin es'(4) eq(1) by (intro card_mono) (auto simp: sc_senders_def f)
    then have fit1: "card (?dom s1 \<union> sc_senders fs) \<le> length (sc_replay s1)"
      using Cons.prems(4) es'(3) eq(1) by simp
    have "sc_replay s1 \<noteq> []" using es'(3) eq(1) Cons.prems(3) by auto
    with Cons.IH [OF rest _ _ fit1] es'(2) eq(1)
    have ih: "sorted_wrt (<) (sc_accepted k fs rs1)"
      "\<forall>c\<in>set (sc_accepted k fs rs1). \<forall>d. re_at (sc_replay s1) k = Some d \<longrightarrow> d < c" by blast+
    have "sc_accepted k (f # fs) rs = (if ?id = k then ?c # sc_accepted k fs rs1 else sc_accepted k fs rs1)"
      by (simp add: sc_accepted_def rs f r)
    then show ?thesis using ih low by (auto simp: m split: if_splits intro: less_trans)
  qed
qed

text \<open>C8: No replay. A receiver with a fresh replay table that is offered any frames, in any order and
  any number of times, from at most eight identities (sender and key sequence number, the size of
  the table), accepts from each identity frames of strictly increasing counters only; so it never
  accepts a frame twice.\<close>

theorem replay_never_accepted:
  assumes "sc_openAll ecb outMax frames s = Some (rs, s')"
    and "sc_replay s = sc_replay (sc_resetReplayTable s)" "card (sc_senders frames) \<le> 8"
  shows "sorted_wrt (<) (sc_accepted k frames rs) \<and> distinct (sc_accepted k frames rs)"
proof -
  have r: "sc_replay s = replicate 8 replay0" using assms(2) by (simp add: sc_resetReplayTable_def)
  have g: "slot_get re_used re_key (replicate 8 replay0) = Map.empty"
    "slot_uniq re_used re_key (replicate 8 replay0)" by (rule rep.get_blank rep.uniq_blank)+
  from sc_openAll_accepted [OF assms(1), of k] assms(3) g
  have "sorted_wrt (<) (sc_accepted k frames rs)" by (simp add: r)
  then show ?thesis by (simp add: strict_sorted_iff)
qed

lemma replay_never_accepted_witness:
  "\<exists>rs s'. sc_openAll ecb_example 127 [(frame_example, 8), (frame_example, 8)] holder_example = Some (rs, s') \<and>
     rs \<noteq> [None, None] \<and> distinct (sc_accepted (77, 1) [(frame_example, 8), (frame_example, 8)] rs)"
proof -
  have e: "map_option fst (sc_openAll ecb_example 127 [(frame_example, 8), (frame_example, 8)] holder_example) =
      Some [Some ([8, 0, 1, 2, 3, 4, 5, 6, 42], 77), None]"
    by code_simp
  then obtain s' where o: "sc_openAll ecb_example 127 [(frame_example, 8), (frame_example, 8)] holder_example =
      Some ([Some ([8, 0, 1, 2, 3, 4, 5, 6, 42], 77), None], s')"
    by (auto simp: map_option_eq_Some)
  have "sc_replay holder_example = sc_replay (sc_resetReplayTable holder_example)"
    by (simp add: holder_example_def sc_setNetworkKey_def sc_init_def sc_resetReplayTable_def)
  moreover have "card (sc_senders [(frame_example, 8), (frame_example, 8)]) \<le> 8" by (simp add: sc_senders_def)
  ultimately show ?thesis
    using o replay_never_accepted [OF o, of "(77, 1)", THEN conjunct2] by blast
qed

text \<open>With a ninth identity the table recycles the entry with the lowest counter, and that identity's
  old frames pass again.\<close>

lemma replay_eviction_accepts_again:
  "let check = (\<lambda>a es. snd (sc_replayCheckAndUpdate a 0 (ucast a) es));
       es = fold check [1, 2, 3, 4, 5, 6, 7, 8] (replicate 8 replay0)
   in fst (sc_replayCheckAndUpdate 1 0 1 es) = ReplayDuplicate \<and>
      fst (sc_replayCheckAndUpdate 1 0 1 (check 9 es)) = ReplayFresh"
  by code_simp

section \<open>Switching keys\<close>

text \<open>Two runs of the same branches that differ only in the state they return give the same answer.\<close>

lemma answer_if:
  "map_option fst a = map_option fst a' \<Longrightarrow> map_option fst b = map_option fst b' \<Longrightarrow>
   map_option fst (if c then a else b) = map_option fst (if c then a' else b')"
  by simp

lemma answer_option:
  "map_option fst a = map_option fst a' \<Longrightarrow> (\<And>y. map_option fst (g y) = map_option fst (g' y)) \<Longrightarrow>
   map_option fst (case x of None \<Rightarrow> a | Some y \<Rightarrow> g y) = map_option fst (case x of None \<Rightarrow> a' | Some y \<Rightarrow> g' y)"
  by (cases x) simp_all

lemma answer_let:
  "(\<And>y. map_option fst (g y) = map_option fst (g' y)) \<Longrightarrow>
   map_option fst (let y = x in g y) = map_option fst (let y = x in g' y)"
  by (simp add: Let_def)

lemma answer_prod:
  "(\<And>y z. map_option fst (g y z) = map_option fst (g' y z)) \<Longrightarrow>
   map_option fst (case x of (y, z) \<Rightarrow> g y z) = map_option fst (case x of (y, z) \<Rightarrow> g' y z)"
  by (cases x) simp

lemma answer_result:
  "map_option fst a = map_option fst a' \<Longrightarrow> map_option fst b = map_option fst b' \<Longrightarrow>
   map_option fst c = map_option fst c' \<Longrightarrow>
   map_option fst (case v of ReplayFresh \<Rightarrow> a | ReplayDuplicate \<Rightarrow> b | ReplayStale \<Rightarrow> c) =
   map_option fst (case v of ReplayFresh \<Rightarrow> a' | ReplayDuplicate \<Rightarrow> b' | ReplayStale \<Rightarrow> c')"
  by (cases v) simp_all

text \<open>C28: A key switch loses no frames. With an active and an alternate key under different sequence
  numbers, \<open>switchKey\<close> succeeds exactly for those two numbers, makes that key the outgoing one,
  keeps both keys, and changes nothing in what the receiver accepts; switching back restores the
  object.\<close>

theorem key_switch_keeps_receiving:
  assumes "sc_hasKey s" "sc_hasAlt s" "sc_keySequence s \<noteq> sc_altKeySeq s"
    and "sc_switchKey q s = (s', ok)"
  shows "(ok \<longleftrightarrow> q = sc_keySequence s \<or> q = sc_altKeySeq s) \<and>
    (ok \<longrightarrow> sc_keySequence s' = q \<and> sc_selectKey q s' = Some (sc_key s')) \<and>
    (\<forall>seq. sc_selectKey seq s' = sc_selectKey seq s) \<and>
    map_option fst (sc_openNpdu ecb npdu h out s') = map_option fst (sc_openNpdu ecb npdu h out s) \<and>
    fst (sc_switchKey (sc_keySequence s) s') = s"
proof -
  have sel: "sc_selectKey seq s' = sc_selectKey seq s" for seq
    using assms by (auto simp: sc_switchKey_def sc_selectKey_def split: if_splits)
  have same: "sc_hasKey s' = sc_hasKey s" "sc_replay s' = sc_replay s"
    using assms by (auto simp: sc_switchKey_def split: if_splits)
  have "map_option fst (sc_openNpdu ecb npdu h out s') = map_option fst (sc_openNpdu ecb npdu h out s)"
    unfolding sc_openNpdu_def sel same
    by (rule answer_prod answer_option answer_if answer_let answer_result | simp only: option.map prod.sel)+
  moreover have s': "s' = fst (sc_switchKey q s)" "ok = snd (sc_switchKey q s)" using assms(4) by simp_all
  have "fst (sc_switchKey (sc_keySequence s) s') = s"
    unfolding s' using assms(1-3)
    by (cases "q = sc_keySequence s"; cases "q = sc_altKeySeq s";
      auto simp: sc_switchKey_def intro!: security.equality)
  moreover have "ok \<longleftrightarrow> q = sc_keySequence s \<or> q = sc_altKeySeq s" "ok \<longrightarrow> sc_keySequence s' = q"
    "ok \<longrightarrow> sc_selectKey q s' = Some (sc_key s')"
    unfolding s' using assms(1-3) by (simp_all add: sc_switchKey_def sc_selectKey_def)
  ultimately show ?thesis using sel by blast
qed

lemma key_switch_keeps_receiving_witness:
  "sc_keySequence (fst (sc_switchKey 2 (sc_setAlternateKey (replicate 16 9) 2 holder_example))) = 2"
  using key_switch_keeps_receiving [where s = "sc_setAlternateKey (replicate 16 9) 2 holder_example" and q = 2,
    OF _ _ _ surjective_pairing, THEN conjunct2, THEN conjunct1, THEN mp, THEN conjunct1]
  by (simp add: holder_example_def sc_setNetworkKey_def sc_setAlternateKey_def sc_init_def
    sc_resetReplayTable_def sc_switchKey_def)

end
