(* ===== verification/ZbMac.thy ===== *)
theory ZbMac
  imports ZbPrelude
begin

text \<open>
  \<open>ZigbeeMac.h\<close> and \<open>ZigbeeMac.cpp\<close>: the IEEE 802.15.4 frames below the network layer, in the
  conventions of the network-layer codec: builders give the bytes they store, parsers the answer
  and the record as the code leaves it, under checked reads.
\<close>

section \<open>Frame records\<close>

abbreviation (input) "MAC_FRAME_BEACON \<equiv> (0 :: u16)"
abbreviation (input) "MAC_FRAME_DATA \<equiv> (1 :: u16)"
abbreviation (input) "MAC_FRAME_COMMAND \<equiv> (3 :: u16)"
abbreviation (input) "MAC_ADDR_NONE \<equiv> (0 :: u16)"
abbreviation (input) "MAC_ADDR_SHORT \<equiv> (2 :: u16)"
abbreviation (input) "MAC_ADDR_EXTENDED \<equiv> (3 :: u16)"
abbreviation (input) "MAC_CMD_ASSOCIATION_REQUEST \<equiv> (0x01 :: u8)"
abbreviation (input) "MAC_CMD_ASSOCIATION_RESPONSE \<equiv> (0x02 :: u8)"
abbreviation (input) "MAC_CMD_DATA_REQUEST \<equiv> (0x04 :: u8)"
abbreviation (input) "MAC_CMD_BEACON_REQUEST \<equiv> (0x07 :: u8)"
abbreviation (input) "MAC_ASSOC_SUCCESS \<equiv> (0x00 :: u8)"
abbreviation (input) "MAC_ASSOC_PAN_AT_CAPACITY \<equiv> (0x01 :: u8)"
abbreviation (input) "MAC_ASSOC_PAN_ACCESS_DENIED \<equiv> (0x02 :: u8)"
abbreviation (input) "kMaxPsdu \<equiv> (125 :: nat)"

record mac_data_frame =
  md_valid :: bool
  md_frameType :: u8
  md_sequence :: u8
  md_ackRequest :: bool
  md_panIdCompression :: bool
  md_dstPanId :: u16
  md_dstShort :: u16
  md_srcPanId :: u16
  md_srcShort :: u16
  md_payload :: ptr
  md_payloadLen :: nat

record mac_command_frame =
  mc_valid :: bool
  mc_frameType :: u8
  mc_sequence :: u8
  mc_ackRequest :: bool
  mc_panIdCompression :: bool
  mc_dstAddrMode :: u8
  mc_srcAddrMode :: u8
  mc_dstPanId :: u16
  mc_dstShort :: u16
  mc_dstIeee :: u64
  mc_srcPanId :: u16
  mc_srcShort :: u16
  mc_srcIeee :: u64
  mc_commandId :: u8
  mc_payload :: ptr
  mc_payloadLen :: nat

record mac_assoc_request =
  ar_valid :: bool
  ar_capability :: u8
  ar_allocateAddress :: bool
  ar_receiverOnWhenIdle :: bool
  ar_fullFunctionDevice :: bool

record mac_assoc_response =
  as_valid :: bool
  as_shortAddress :: u16
  as_status :: u8

record mac_interpan_frame =
  mi_valid :: bool
  mi_sequence :: u8
  mi_ackRequest :: bool
  mi_dstAddrMode :: u8
  mi_dstPanId :: u16
  mi_dstShort :: u16
  mi_dstIeee :: u64
  mi_srcPanId :: u16
  mi_srcIeee :: u64
  mi_payload :: ptr
  mi_payloadLen :: nat

record mac_beacon_frame =
  mb_valid :: bool
  mb_sequence :: u8
  mb_srcPanId :: u16
  mb_srcShort :: u16
  mb_panCoordinator :: bool
  mb_associationPermit :: bool
  mb_payload :: ptr
  mb_payloadLen :: nat

text \<open>The value-initialised records.\<close>

definition mac_data_frame0 :: mac_data_frame where
  "mac_data_frame0 = \<lparr>md_valid = False, md_frameType = 0, md_sequence = 0, md_ackRequest = False,
     md_panIdCompression = False, md_dstPanId = 0, md_dstShort = 0, md_srcPanId = 0, md_srcShort = 0,
     md_payload = None, md_payloadLen = 0\<rparr>"

definition mac_command_frame0 :: mac_command_frame where
  "mac_command_frame0 = \<lparr>mc_valid = False, mc_frameType = 0, mc_sequence = 0, mc_ackRequest = False,
     mc_panIdCompression = False, mc_dstAddrMode = 0, mc_srcAddrMode = 0, mc_dstPanId = 0, mc_dstShort = 0,
     mc_dstIeee = 0, mc_srcPanId = 0, mc_srcShort = 0, mc_srcIeee = 0, mc_commandId = 0,
     mc_payload = None, mc_payloadLen = 0\<rparr>"

definition mac_assoc_request0 :: mac_assoc_request where
  "mac_assoc_request0 = \<lparr>ar_valid = False, ar_capability = 0, ar_allocateAddress = False,
     ar_receiverOnWhenIdle = False, ar_fullFunctionDevice = False\<rparr>"

definition mac_assoc_response0 :: mac_assoc_response where
  "mac_assoc_response0 = \<lparr>as_valid = False, as_shortAddress = 0, as_status = 0\<rparr>"

definition mac_interpan_frame0 :: mac_interpan_frame where
  "mac_interpan_frame0 = \<lparr>mi_valid = False, mi_sequence = 0, mi_ackRequest = False, mi_dstAddrMode = 0,
     mi_dstPanId = 0, mi_dstShort = 0, mi_dstIeee = 0, mi_srcPanId = 0, mi_srcIeee = 0,
     mi_payload = None, mi_payloadLen = 0\<rparr>"

definition mac_beacon_frame0 :: mac_beacon_frame where
  "mac_beacon_frame0 = \<lparr>mb_valid = False, mb_sequence = 0, mb_srcPanId = 0, mb_srcShort = 0,
     mb_panCoordinator = False, mb_associationPermit = False, mb_payload = None, mb_payloadLen = 0\<rparr>"

section \<open>Builders\<close>

definition mac_buildShortDataFrame ::
  "out_buf \<Rightarrow> u16 \<Rightarrow> u16 \<Rightarrow> u16 \<Rightarrow> u8 \<Rightarrow> ptr \<Rightarrow> nat \<Rightarrow> bool \<Rightarrow> u8 list option"
where
  "mac_buildShortDataFrame out panId dstShort srcShort sequence payload payloadLen ackRequest =
     (case out of None \<Rightarrow> None | Some outMax \<Rightarrow>
        let headerLen = 9 in
        if payloadLen > kMaxPsdu - headerLen then None
        else if outMax < headerLen + payloadLen then None
        else if payloadLen > 0 \<and> payload = None then None
        else
          let fcf = 0 OR MAC_FRAME_DATA OR (if ackRequest then push_bit 5 1 else 0) OR push_bit 6 1
                OR push_bit 10 2 OR push_bit 12 1 OR push_bit 14 2
          in Some (le16 fcf @ [sequence] @ le16 panId @ le16 dstShort @ le16 srcShort @
               copied payload payloadLen))"

definition mac_buildAssociationRequest ::
  "out_buf \<Rightarrow> u16 \<Rightarrow> u16 \<Rightarrow> u64 \<Rightarrow> u8 \<Rightarrow> u8 \<Rightarrow> bool \<Rightarrow> u8 list option"
where
  "mac_buildAssociationRequest out panId coordShort srcIeee sequence capability ackRequest =
     (case out of None \<Rightarrow> None | Some outMax \<Rightarrow>
        if outMax < 17 then None
        else
          let fcf = 0 OR MAC_FRAME_COMMAND OR (if ackRequest then push_bit 5 1 else 0) OR push_bit 6 1
                OR push_bit 10 MAC_ADDR_SHORT OR push_bit 12 1 OR push_bit 14 MAC_ADDR_EXTENDED
          in Some (le16 fcf @ [sequence] @ le16 panId @ le16 coordShort @ le64 srcIeee @
               [MAC_CMD_ASSOCIATION_REQUEST, capability]))"

definition mac_buildAssociationResponse ::
  "out_buf \<Rightarrow> u16 \<Rightarrow> u64 \<Rightarrow> u16 \<Rightarrow> u8 \<Rightarrow> u16 \<Rightarrow> u8 \<Rightarrow> bool \<Rightarrow> u8 list option"
where
  "mac_buildAssociationResponse out panId dstIeee srcShort sequence assignedShort status ackRequest =
     (case out of None \<Rightarrow> None | Some outMax \<Rightarrow>
        if outMax < 19 then None
        else
          let fcf = 0 OR MAC_FRAME_COMMAND OR (if ackRequest then push_bit 5 1 else 0) OR push_bit 6 1
                OR push_bit 10 MAC_ADDR_EXTENDED OR push_bit 12 1 OR push_bit 14 MAC_ADDR_SHORT
          in Some (le16 fcf @ [sequence] @ le16 panId @ le64 dstIeee @ le16 srcShort @
               [MAC_CMD_ASSOCIATION_RESPONSE] @ le16 assignedShort @ [status]))"

definition mac_buildBeaconRequest :: "out_buf \<Rightarrow> u8 \<Rightarrow> u8 list option" where
  "mac_buildBeaconRequest out sequence =
     (case out of None \<Rightarrow> None | Some outMax \<Rightarrow>
        if outMax < 8 then None
        else
          let fcf = 0 OR MAC_FRAME_COMMAND OR push_bit 10 MAC_ADDR_SHORT OR push_bit 14 MAC_ADDR_NONE
          in Some (le16 fcf @ [sequence] @ le16 0xFFFF @ le16 0xFFFF @ [MAC_CMD_BEACON_REQUEST]))"

definition mac_buildDataRequest :: "out_buf \<Rightarrow> u16 \<Rightarrow> u16 \<Rightarrow> u16 \<Rightarrow> u8 \<Rightarrow> u8 list option" where
  "mac_buildDataRequest out panId parentShort childShort sequence =
     (case out of None \<Rightarrow> None | Some outMax \<Rightarrow>
        if outMax < 10 then None
        else
          let fcf = 0 OR MAC_FRAME_COMMAND OR push_bit 5 1 OR push_bit 6 1
                OR push_bit 10 MAC_ADDR_SHORT OR push_bit 14 MAC_ADDR_SHORT
          in Some (le16 fcf @ [sequence] @ le16 panId @ le16 parentShort @ le16 childShort @
               [MAC_CMD_DATA_REQUEST]))"

definition mac_buildInterPanFrame ::
  "out_buf \<Rightarrow> u8 \<Rightarrow> u16 \<Rightarrow> u16 \<Rightarrow> u64 \<Rightarrow> u16 \<Rightarrow> u64 \<Rightarrow> u8 \<Rightarrow> ptr \<Rightarrow> nat \<Rightarrow> bool \<Rightarrow> u8 list option"
where
  "mac_buildInterPanFrame out dstAddrMode dstPanId dstShort dstIeee srcPanId srcIeee sequence
       payload payloadLen ackRequest =
     (case out of None \<Rightarrow> None | Some outMax \<Rightarrow>
        if dstAddrMode \<noteq> 2 \<and> dstAddrMode \<noteq> 3 then None
        else
          let dstAddrLen = (if dstAddrMode = 3 then 8 else 2);
              headerLen = 2 + 1 + 2 + dstAddrLen + 2 + 8
          in if payloadLen > kMaxPsdu - headerLen then None
             else if outMax < headerLen + payloadLen then None
             else if payloadLen > 0 \<and> payload = None then None
             else
               let fcf = 0 OR MAC_FRAME_DATA OR (if ackRequest then push_bit 5 1 else 0)
                     OR push_bit 10 (ucast (dstAddrMode AND 0x3)) OR push_bit 14 MAC_ADDR_EXTENDED
               in Some (le16 fcf @ [sequence] @ le16 dstPanId @
                    (if dstAddrMode = 2 then le16 dstShort else le64 dstIeee) @
                    le16 srcPanId @ le64 srcIeee @ copied payload payloadLen))"

definition mac_buildBeacon ::
  "out_buf \<Rightarrow> u16 \<Rightarrow> u16 \<Rightarrow> u8 \<Rightarrow> bool \<Rightarrow> bool \<Rightarrow> ptr \<Rightarrow> nat \<Rightarrow> u8 list option"
where
  "mac_buildBeacon out srcPanId srcShort sequence panCoordinator associationPermit payload payloadLen =
     (case out of None \<Rightarrow> None | Some outMax \<Rightarrow>
        let headerLen = 11 in
        if payloadLen > kMaxPsdu - headerLen then None
        else if outMax < headerLen + payloadLen then None
        else if payloadLen > 0 \<and> payload = None then None
        else
          let fcf = 0 OR MAC_FRAME_BEACON OR push_bit 14 MAC_ADDR_SHORT;
              superframe = 0x0FFF OR (if panCoordinator then push_bit 14 1 else 0)
                OR (if associationPermit then push_bit 15 1 else 0)
          in Some (le16 fcf @ [sequence] @ le16 srcPanId @ le16 srcShort @ le16 superframe @ [0, 0] @
               copied payload payloadLen))"

section \<open>Parsers\<close>

definition mac_parseShortDataFrame :: "ptr \<Rightarrow> (bool \<times> mac_data_frame) option" where
  "mac_parseShortDataFrame psdu =
     (case psdu of None \<Rightarrow> Some (False, mac_data_frame0) | Some bs \<Rightarrow>
      if length bs < 9 then Some (False, mac_data_frame0)
      else do {
        fcf \<leftarrow> rd16 bs 0;
        let frameType = fcf AND 0x7;
        let dstMode = drop_bit 10 fcf AND 0x3;
        let srcMode = drop_bit 14 fcf AND 0x3;
        let panCompression = bit fcf 6;
        if frameType \<noteq> MAC_FRAME_DATA \<or> dstMode \<noteq> 2 \<or> srcMode \<noteq> 2 then Some (False, mac_data_frame0)
        else do {
          sequence \<leftarrow> rd8 bs 2;
          dstPan \<leftarrow> rd16 bs 3;
          dst \<leftarrow> rd16 bs 5;
          let fr = mac_data_frame0\<lparr>md_sequence := sequence, md_dstPanId := dstPan, md_dstShort := dst\<rparr>;
          src \<leftarrow> (if panCompression then Some (Some (dstPan, 7))
                 else if length bs < 7 + 2 then Some None
                 else do { p \<leftarrow> rd16 bs 7; Some (Some (p, 9)) });
          case src of None \<Rightarrow> Some (False, fr)
          | Some (srcPan, offset) \<Rightarrow>
              let fr = fr\<lparr>md_srcPanId := srcPan\<rparr> in
              if length bs < offset + 2 then Some (False, fr)
              else do {
                srcShort \<leftarrow> rd16 bs offset;
                Some (True, fr\<lparr>md_srcShort := srcShort, md_valid := True, md_frameType := ucast frameType,
                  md_ackRequest := bit fcf 5, md_panIdCompression := panCompression,
                  md_payload := Some (drop (offset + 2) bs),
                  md_payloadLen := cast8 (length bs - (offset + 2))\<rparr>)
              }
        }
      })"

text \<open>
  The two address blocks of \<open>parseCommandFrame\<close>: \<open>Inl\<close> is its early \<open>return false\<close> with the record
  as filled so far, \<open>Inr\<close> goes on at the new offset.
\<close>

definition mac_commandDst ::
  "u8 list \<Rightarrow> u16 \<Rightarrow> mac_command_frame \<Rightarrow> nat \<Rightarrow> (mac_command_frame + mac_command_frame \<times> nat) option"
where
  "mac_commandDst bs dstMode fr offset =
     (if dstMode = MAC_ADDR_NONE then Some (Inr (fr, offset))
      else if length bs < offset + 2 then Some (Inl fr)
      else do {
        pan \<leftarrow> rd16 bs offset;
        let fr = fr\<lparr>mc_dstPanId := pan\<rparr>;
        let offset = offset + 2;
        if dstMode = MAC_ADDR_SHORT then
          if length bs < offset + 2 then Some (Inl fr)
          else do { a \<leftarrow> rd16 bs offset; Some (Inr (fr\<lparr>mc_dstShort := a\<rparr>, offset + 2)) }
        else if dstMode = MAC_ADDR_EXTENDED then
          if length bs < offset + 8 then Some (Inl fr)
          else do { a \<leftarrow> rd64 bs offset; Some (Inr (fr\<lparr>mc_dstIeee := a\<rparr>, offset + 8)) }
        else Some (Inl fr)
      })"

definition mac_commandSrc ::
  "u8 list \<Rightarrow> u16 \<Rightarrow> bool \<Rightarrow> mac_command_frame \<Rightarrow> nat \<Rightarrow> (mac_command_frame + mac_command_frame \<times> nat) option"
where
  "mac_commandSrc bs srcMode panCompression fr offset =
     (if srcMode = MAC_ADDR_NONE then Some (Inr (fr, offset))
      else do {
        pan \<leftarrow> (if panCompression then Some (Some (mc_dstPanId fr, offset))
               else if length bs < offset + 2 then Some None
               else do { p \<leftarrow> rd16 bs offset; Some (Some (p, offset + 2)) });
        case pan of None \<Rightarrow> Some (Inl fr)
        | Some (p, offset) \<Rightarrow>
            let fr = fr\<lparr>mc_srcPanId := p\<rparr> in
            if srcMode = MAC_ADDR_SHORT then
              if length bs < offset + 2 then Some (Inl fr)
              else do { a \<leftarrow> rd16 bs offset; Some (Inr (fr\<lparr>mc_srcShort := a\<rparr>, offset + 2)) }
            else if srcMode = MAC_ADDR_EXTENDED then
              if length bs < offset + 8 then Some (Inl fr)
              else do { a \<leftarrow> rd64 bs offset; Some (Inr (fr\<lparr>mc_srcIeee := a\<rparr>, offset + 8)) }
            else Some (Inl fr)
      })"

definition mac_parseCommandFrame :: "ptr \<Rightarrow> (bool \<times> mac_command_frame) option" where
  "mac_parseCommandFrame psdu =
     (case psdu of None \<Rightarrow> Some (False, mac_command_frame0) | Some bs \<Rightarrow>
      if length bs < 4 then Some (False, mac_command_frame0)
      else do {
        fcf \<leftarrow> rd16 bs 0;
        let frameType = fcf AND 0x7;
        let dstMode = drop_bit 10 fcf AND 0x3;
        let srcMode = drop_bit 14 fcf AND 0x3;
        let panCompression = bit fcf 6;
        if frameType \<noteq> MAC_FRAME_COMMAND then Some (False, mac_command_frame0)
        else do {
          sequence \<leftarrow> rd8 bs 2;
          let fr = mac_command_frame0\<lparr>mc_sequence := sequence, mc_dstAddrMode := ucast dstMode,
                     mc_srcAddrMode := ucast srcMode\<rparr>;
          d \<leftarrow> mac_commandDst bs dstMode fr 3;
          case d of Inl fr \<Rightarrow> Some (False, fr)
          | Inr (fr, offset) \<Rightarrow> do {
              s \<leftarrow> mac_commandSrc bs srcMode panCompression fr offset;
              case s of Inl fr \<Rightarrow> Some (False, fr)
              | Inr (fr, offset) \<Rightarrow>
                  if length bs < offset + 1 then Some (False, fr)
                  else do {
                    commandId \<leftarrow> rd8 bs offset;
                    Some (True, fr\<lparr>mc_commandId := commandId, mc_valid := True,
                      mc_frameType := ucast frameType, mc_ackRequest := bit fcf 5,
                      mc_panIdCompression := panCompression,
                      mc_payload := Some (drop (offset + 1) bs),
                      mc_payloadLen := cast8 (length bs - (offset + 1))\<rparr>)
                  }
            }
        }
      })"

text \<open>The association payload parsers read through the payload pointer of a parsed frame.\<close>

definition mac_parseAssociationRequest :: "mac_command_frame \<Rightarrow> (bool \<times> mac_assoc_request) option" where
  "mac_parseAssociationRequest frame =
     (if \<not> mc_valid frame \<or> mc_commandId frame \<noteq> MAC_CMD_ASSOCIATION_REQUEST \<or> mc_payloadLen frame < 1
      then Some (False, mac_assoc_request0)
      else do {
        p \<leftarrow> mc_payload frame;
        capability \<leftarrow> rd8 p 0;
        Some (True, \<lparr>ar_valid = True, ar_capability = capability,
          ar_allocateAddress = (capability AND 0x80 \<noteq> 0),
          ar_receiverOnWhenIdle = (capability AND 0x08 \<noteq> 0),
          ar_fullFunctionDevice = (capability AND 0x02 \<noteq> 0)\<rparr>)
      })"

definition mac_parseAssociationResponse :: "mac_command_frame \<Rightarrow> (bool \<times> mac_assoc_response) option" where
  "mac_parseAssociationResponse frame =
     (if \<not> mc_valid frame \<or> mc_commandId frame \<noteq> MAC_CMD_ASSOCIATION_RESPONSE \<or> mc_payloadLen frame < 3
      then Some (False, mac_assoc_response0)
      else do {
        p \<leftarrow> mc_payload frame;
        shortAddress \<leftarrow> rd16 p 0;
        status \<leftarrow> rd8 p 2;
        Some (True, \<lparr>as_valid = True, as_shortAddress = shortAddress, as_status = status\<rparr>)
      })"

definition mac_parseInterPanFrame :: "ptr \<Rightarrow> (bool \<times> mac_interpan_frame) option" where
  "mac_parseInterPanFrame psdu =
     (case psdu of None \<Rightarrow> Some (False, mac_interpan_frame0) | Some bs \<Rightarrow>
      if length bs < 5 then Some (False, mac_interpan_frame0)
      else do {
        fcf \<leftarrow> rd16 bs 0;
        let frameType = fcf AND 0x7;
        let dstMode = drop_bit 10 fcf AND 0x3;
        let srcMode = drop_bit 14 fcf AND 0x3;
        if frameType \<noteq> MAC_FRAME_DATA \<or> srcMode \<noteq> MAC_ADDR_EXTENDED \<or> bit fcf 6 then
          Some (False, mac_interpan_frame0)
        else if dstMode \<noteq> MAC_ADDR_SHORT \<and> dstMode \<noteq> MAC_ADDR_EXTENDED then
          Some (False, mac_interpan_frame0)
        else do {
          sequence \<leftarrow> rd8 bs 2;
          let fr = mac_interpan_frame0\<lparr>mi_sequence := sequence\<rparr>;
          if length bs < 3 + 2 then Some (False, fr)
          else do {
            dstPan \<leftarrow> rd16 bs 3;
            let fr = fr\<lparr>mi_dstPanId := dstPan, mi_dstAddrMode := ucast dstMode\<rparr>;
            d \<leftarrow> (if dstMode = MAC_ADDR_SHORT then
                   if length bs < 5 + 2 then Some None
                   else do { a \<leftarrow> rd16 bs 5; Some (Some (fr\<lparr>mi_dstShort := a\<rparr>, 7)) }
                 else
                   if length bs < 5 + 8 then Some None
                   else do { a \<leftarrow> rd64 bs 5; Some (Some (fr\<lparr>mi_dstIeee := a\<rparr>, 13)) });
            case d of None \<Rightarrow> Some (False, fr)
            | Some (fr, offset) \<Rightarrow>
                if length bs < offset + 2 then Some (False, fr)
                else do {
                  srcPan \<leftarrow> rd16 bs offset;
                  let fr = fr\<lparr>mi_srcPanId := srcPan\<rparr>;
                  let offset = offset + 2;
                  if length bs < offset + 8 then Some (False, fr)
                  else do {
                    srcIeee \<leftarrow> rd64 bs offset;
                    let offset = offset + 8;
                    Some (True, fr\<lparr>mi_srcIeee := srcIeee, mi_valid := True, mi_ackRequest := bit fcf 5,
                      mi_payload := Some (drop offset bs), mi_payloadLen := cast8 (length bs - offset)\<rparr>)
                  }
                }
          }
        }
      })"

definition mac_parseBeacon :: "ptr \<Rightarrow> (bool \<times> mac_beacon_frame) option" where
  "mac_parseBeacon psdu =
     (case psdu of None \<Rightarrow> Some (False, mac_beacon_frame0) | Some bs \<Rightarrow>
      if length bs < 11 then Some (False, mac_beacon_frame0)
      else do {
        fcf \<leftarrow> rd16 bs 0;
        let frameType = fcf AND 0x7;
        let dstMode = drop_bit 10 fcf AND 0x3;
        let srcMode = drop_bit 14 fcf AND 0x3;
        if frameType \<noteq> MAC_FRAME_BEACON \<or> dstMode \<noteq> MAC_ADDR_NONE \<or> srcMode \<noteq> MAC_ADDR_SHORT then
          Some (False, mac_beacon_frame0)
        else do {
          sequence \<leftarrow> rd8 bs 2;
          srcPan \<leftarrow> rd16 bs 3;
          src \<leftarrow> rd16 bs 5;
          superframe \<leftarrow> rd16 bs 7;
          let fr = mac_beacon_frame0\<lparr>mb_sequence := sequence, mb_srcPanId := srcPan, mb_srcShort := src,
                     mb_panCoordinator := bit superframe 14, mb_associationPermit := bit superframe 15\<rparr>;
          gts \<leftarrow> rd8 bs 9;
          let gtsCount = unat (gts AND 0x07);
          let gtsBytes = cast8 (1 + 3 * gtsCount);
          if gtsCount > 0 \<and> length bs < 10 + gtsBytes then Some (False, fr)
          else
            let offset = (if gtsCount > 0 then 10 + gtsBytes else 10) in
            if length bs < offset + 1 then Some (False, fr)
            else do {
              pending \<leftarrow> rd8 bs offset;
              let offset = offset + 1;
              let pendingBytes = cast8 (2 * unat (pending AND 0x07) + 8 * unat (drop_bit 4 pending AND 0x07));
              if length bs < offset + pendingBytes then Some (False, fr)
              else
                let offset = offset + pendingBytes in
                Some (True, fr\<lparr>mb_valid := True, mb_payload := Some (drop offset bs),
                  mb_payloadLen := cast8 (length bs - offset)\<rparr>)
            }
        }
      })"

end
