(* ===== verification/ZbNetwork.thy ===== *)
theory ZbNetwork
  imports ZbTables ZbNwk ZbMac
begin

text \<open>
  \<open>ZigbeeNetwork.h\<close> and \<open>ZigbeeNetwork.cpp\<close>: the local network state of a node. The state is that of
  the three classes: the permit-join window, the short-address allocator, and the network object
  with its identity, its scan candidates and the neighbor table attached to it. Every \<open>nowMs\<close> is an
  argument.
\<close>

abbreviation (input) "ZB_NWK_ADDR_COORDINATOR \<equiv> (0x0000 :: u16)"
abbreviation (input) "ZB_NWK_ADDR_INVALID \<equiv> (0xFFFF :: u16)"
abbreviation (input) "ZB_NWK_ADDR_RESERVED_MIN \<equiv> (0xFFF8 :: u16)"

abbreviation (input) "ZB_NWK_STATE_IDLE \<equiv> (0 :: u8)"
abbreviation (input) "ZB_NWK_STATE_COORDINATOR \<equiv> (1 :: u8)"
abbreviation (input) "ZB_NWK_STATE_JOINING \<equiv> (2 :: u8)"
abbreviation (input) "ZB_NWK_STATE_ROUTER \<equiv> (3 :: u8)"
abbreviation (input) "ZB_NWK_STATE_END_DEVICE \<equiv> (4 :: u8)"
abbreviation (input) "ZB_NWK_STATE_SCANNING \<equiv> (6 :: u8)"

section \<open>Permit-join window\<close>

record permit_join =
  pj_open :: bool
  pj_durationSeconds :: u8
  pj_openedMs :: u32

definition pj_init :: permit_join where
  "pj_init = \<lparr>pj_open = False, pj_durationSeconds = 0, pj_openedMs = 0\<rparr>"

definition pj_openWindow :: "u8 \<Rightarrow> u32 \<Rightarrow> permit_join \<Rightarrow> permit_join" where
  "pj_openWindow durationSeconds now p =
     p\<lparr>pj_durationSeconds := durationSeconds, pj_openedMs := now, pj_open := durationSeconds \<noteq> 0\<rparr>"

definition pj_close :: "permit_join \<Rightarrow> permit_join" where
  "pj_close p = p\<lparr>pj_open := False, pj_durationSeconds := 0, pj_openedMs := 0\<rparr>"

definition pj_isOpen :: "permit_join \<Rightarrow> u32 \<Rightarrow> bool" where
  "pj_isOpen p now =
     (if \<not> pj_open p then False
      else if pj_durationSeconds p = 0xFF then True
      else now - pj_openedMs p < ucast (pj_durationSeconds p) * 1000)"

definition pj_remainingSeconds :: "permit_join \<Rightarrow> u32 \<Rightarrow> u8" where
  "pj_remainingSeconds p now =
     (if \<not> pj_isOpen p now then 0
      else if pj_durationSeconds p = 0xFF then 0xFF
      else
        let elapsedSec = (now - pj_openedMs p) div 1000 in
        if elapsedSec \<ge> ucast (pj_durationSeconds p) then 0
        else ucast (ucast (pj_durationSeconds p) - elapsedSec))"

section \<open>Address allocator\<close>

record allocator =
  aa_first :: u16
  aa_last :: u16
  aa_next :: u16

definition aa_init :: allocator where
  "aa_init = \<lparr>aa_first = 0x0001, aa_last = 0xFFF7, aa_next = 0x0001\<rparr>"

definition aa_isUsable :: "u16 \<Rightarrow> bool" where
  "aa_isUsable address \<longleftrightarrow> address \<noteq> ZB_NWK_ADDR_COORDINATOR \<and> address < ZB_NWK_ADDR_RESERVED_MIN"

definition aa_begin :: "u16 \<Rightarrow> u16 \<Rightarrow> allocator" where
  "aa_begin firstAddress lastAddress =
     (let f = (if \<not> aa_isUsable firstAddress \<or> firstAddress > lastAddress then 0x0001 else firstAddress);
          l = (if \<not> aa_isUsable lastAddress \<or> lastAddress < f then 0xFFF7 else lastAddress)
      in \<lparr>aa_first = f, aa_last = l, aa_next = f\<rparr>)"

definition aa_isInPool :: "allocator \<Rightarrow> u16 \<Rightarrow> bool" where
  "aa_isInPool a address \<longleftrightarrow> aa_isUsable address \<and> address \<ge> aa_first a \<and> address \<le> aa_last a"

definition aa_advance :: "allocator \<Rightarrow> u16 \<Rightarrow> u16" where
  "aa_advance a address = (if address \<ge> aa_last a then aa_first a else address + 1)"

definition aa_allocatedChild :: "neighbor_table \<Rightarrow> u16 \<Rightarrow> bool" where
  "aa_allocatedChild t candidate =
     (case nt_findByNwk t candidate of None \<Rightarrow> False
      | Some i \<Rightarrow>
          (case nt_slot t i of None \<Rightarrow> False
           | Some occupant \<Rightarrow> nb_ieee occupant \<noteq> 0 \<and>
               (nb_relationship occupant = ZB_REL_CHILD \<or> nb_relationship occupant = ZB_REL_PREVIOUS_CHILD)))"

text \<open>The loop \<open>for (i = 0; i < span; ++i)\<close> of \<open>allocate\<close>, with the iterations left.\<close>

primrec aa_scan :: "allocator \<Rightarrow> neighbor_table \<Rightarrow> nat \<Rightarrow> u16 \<Rightarrow> u16 option" where
  "aa_scan a t 0 candidate = None"
| "aa_scan a t (Suc n) candidate =
     (if aa_isInPool a candidate \<and> \<not> aa_allocatedChild t candidate then Some candidate
      else aa_scan a t n (aa_advance a candidate))"

definition aa_allocate :: "neighbor_table \<Rightarrow> allocator \<Rightarrow> allocator \<times> u16" where
  "aa_allocate t a =
     (if aa_first a > aa_last a then (a, ZB_NWK_ADDR_INVALID)
      else
        let span = aa_last a - aa_first a + 1 in
        (case aa_scan a t (unat span) (aa_next a) of
           Some candidate \<Rightarrow> (a\<lparr>aa_next := aa_advance a candidate\<rparr>, candidate)
         | None \<Rightarrow> (a, ZB_NWK_ADDR_INVALID)))"

section \<open>Network object\<close>

record network_info =
  ni_joined :: bool
  ni_state :: u8
  ni_deviceType :: u8
  ni_panId :: u16
  ni_extendedPanId :: u64
  ni_channel :: u8
  ni_nwkAddress :: u16
  ni_parentAddress :: u16
  ni_depth :: u8
  ni_updateId :: u8
  ni_outgoingFrameCounter :: u32

record candidate =
  ca_used :: bool
  ca_channel :: u8
  ca_panId :: u16
  ca_extendedPanId :: u64
  ca_shortAddress :: u16
  ca_depth :: u8
  ca_lqi :: u8
  ca_rssi :: u8
  ca_permitJoining :: bool
  ca_routerCapacity :: bool
  ca_endDeviceCapacity :: bool
  ca_stackProfile :: u8
  ca_updateId :: u8

record assoc_decision =
  ad_accepted :: bool
  ad_assignedAddress :: u16
  ad_status :: u8
  ad_deviceType :: u8
  ad_rxOnWhenIdle :: bool

text \<open>\<open>nw_neighbors\<close> is the attached table object, \<open>None\<close> for the null pointer.\<close>

record network =
  nw_info :: network_info
  nw_neighbors :: "neighbor_table option"
  nw_permitJoin :: permit_join
  nw_allocator :: allocator
  nw_candidates :: "candidate list"
  nw_scanDeviceType :: u8
  nw_joinAttempts :: u8
  nw_lastLinkStatusMs :: u32

definition network_info0 :: network_info where
  "network_info0 = \<lparr>ni_joined = False, ni_state = 0, ni_deviceType = 0, ni_panId = 0, ni_extendedPanId = 0,
     ni_channel = 0, ni_nwkAddress = 0, ni_parentAddress = 0, ni_depth = 0, ni_updateId = 0,
     ni_outgoingFrameCounter = 0\<rparr>"

definition candidate0 :: candidate where
  "candidate0 = \<lparr>ca_used = False, ca_channel = 0, ca_panId = 0, ca_extendedPanId = 0, ca_shortAddress = 0,
     ca_depth = 0, ca_lqi = 0, ca_rssi = 0, ca_permitJoining = False, ca_routerCapacity = False,
     ca_endDeviceCapacity = False, ca_stackProfile = 0, ca_updateId = 0\<rparr>"

definition kMaxParentCandidates :: nat where "kMaxParentCandidates = 8"
definition kLinkStatusPeriodMs :: u32 where "kLinkStatusPeriodMs = 15000"
definition kRouterAgeLimit :: u32 where "kRouterAgeLimit = 3"

definition nw_clearCandidates :: "network \<Rightarrow> network" where
  "nw_clearCandidates s = s\<lparr>nw_candidates := replicate kMaxParentCandidates candidate0\<rparr>"

definition nw_leave :: "network \<Rightarrow> network" where
  "nw_leave s = s\<lparr>
     nw_info := network_info0\<lparr>ni_joined := False, ni_state := ZB_NWK_STATE_IDLE,
       ni_deviceType := ZB_DEVICE_UNKNOWN, ni_panId := 0xFFFF, ni_extendedPanId := 0, ni_channel := 0,
       ni_nwkAddress := ZB_NWK_ADDR_INVALID, ni_parentAddress := ZB_NWK_ADDR_INVALID, ni_depth := 0xFF,
       ni_updateId := 0, ni_outgoingFrameCounter := 0\<rparr>,
     nw_permitJoin := pj_close (nw_permitJoin s)\<rparr>"

definition nw_init :: network where
  "nw_init = nw_leave (nw_clearCandidates \<lparr>nw_info = network_info0, nw_neighbors = None,
     nw_permitJoin = pj_init, nw_allocator = aa_init, nw_candidates = [],
     nw_scanDeviceType = ZB_DEVICE_UNKNOWN, nw_joinAttempts = 0, nw_lastLinkStatusMs = 0\<rparr>)"

definition nw_attachNeighborTable :: "neighbor_table \<Rightarrow> network \<Rightarrow> network" where
  "nw_attachNeighborTable t s = s\<lparr>nw_neighbors := Some t\<rparr>"

definition nw_configureAddressPool :: "u16 \<Rightarrow> u16 \<Rightarrow> network \<Rightarrow> network" where
  "nw_configureAddressPool firstAddress lastAddress s =
     s\<lparr>nw_allocator := aa_begin firstAddress lastAddress\<rparr>"

definition nw_isCoordinator :: "network \<Rightarrow> bool" where
  "nw_isCoordinator s \<longleftrightarrow> ni_joined (nw_info s) \<and> ni_deviceType (nw_info s) = ZB_DEVICE_COORDINATOR"

definition nw_isRouter :: "network \<Rightarrow> bool" where
  "nw_isRouter s \<longleftrightarrow> ni_joined (nw_info s) \<and> ni_deviceType (nw_info s) = ZB_DEVICE_ROUTER"

definition nw_isEndDevice :: "network \<Rightarrow> bool" where
  "nw_isEndDevice s \<longleftrightarrow> ni_joined (nw_info s) \<and> ni_deviceType (nw_info s) = ZB_DEVICE_END_DEVICE"

definition nw_isJoining :: "network \<Rightarrow> bool" where
  "nw_isJoining s \<longleftrightarrow> ni_state (nw_info s) = ZB_NWK_STATE_JOINING"

definition nw_permitJoining :: "u8 \<Rightarrow> u32 \<Rightarrow> network \<Rightarrow> network" where
  "nw_permitJoining durationSeconds now s =
     s\<lparr>nw_permitJoin := pj_openWindow durationSeconds now (nw_permitJoin s)\<rparr>"

definition nw_closeJoining :: "network \<Rightarrow> network" where
  "nw_closeJoining s = s\<lparr>nw_permitJoin := pj_close (nw_permitJoin s)\<rparr>"

definition nw_beginCoordinator :: "u16 \<Rightarrow> u64 \<Rightarrow> u8 \<Rightarrow> u8 \<Rightarrow> network \<Rightarrow> network" where
  "nw_beginCoordinator panId extendedPanId channel updateId s = s\<lparr>
     nw_info := network_info0\<lparr>ni_joined := True, ni_state := ZB_NWK_STATE_COORDINATOR,
       ni_deviceType := ZB_DEVICE_COORDINATOR, ni_panId := panId, ni_extendedPanId := extendedPanId,
       ni_channel := channel, ni_nwkAddress := ZB_NWK_ADDR_COORDINATOR,
       ni_parentAddress := ZB_NWK_ADDR_INVALID, ni_depth := 0, ni_updateId := updateId,
       ni_outgoingFrameCounter := 0\<rparr>\<rparr>"

definition nw_beginJoinedDevice ::
  "u8 \<Rightarrow> u16 \<Rightarrow> u64 \<Rightarrow> u8 \<Rightarrow> u16 \<Rightarrow> u16 \<Rightarrow> u8 \<Rightarrow> u8 \<Rightarrow> network \<Rightarrow> network"
where
  "nw_beginJoinedDevice deviceType panId extendedPanId channel nwkAddress parentAddress depth updateId s = s\<lparr>
     nw_info := network_info0\<lparr>ni_joined := True,
       ni_state := (if deviceType = ZB_DEVICE_ROUTER then ZB_NWK_STATE_ROUTER
         else if deviceType = ZB_DEVICE_END_DEVICE then ZB_NWK_STATE_END_DEVICE else ZB_NWK_STATE_IDLE),
       ni_deviceType := deviceType, ni_panId := panId, ni_extendedPanId := extendedPanId,
       ni_channel := channel, ni_nwkAddress := nwkAddress, ni_parentAddress := parentAddress,
       ni_depth := depth, ni_updateId := updateId, ni_outgoingFrameCounter := 0\<rparr>\<rparr>"

definition nw_beginJoining :: "u8 \<Rightarrow> u16 \<Rightarrow> u64 \<Rightarrow> u8 \<Rightarrow> u16 \<Rightarrow> u8 \<Rightarrow> network \<Rightarrow> network" where
  "nw_beginJoining deviceType panId extendedPanId channel parentAddress updateId s = s\<lparr>
     nw_info := network_info0\<lparr>ni_joined := False, ni_state := ZB_NWK_STATE_JOINING,
       ni_deviceType := deviceType, ni_panId := panId, ni_extendedPanId := extendedPanId,
       ni_channel := channel, ni_nwkAddress := ZB_NWK_ADDR_INVALID, ni_parentAddress := parentAddress,
       ni_depth := 0xFF, ni_updateId := updateId, ni_outgoingFrameCounter := 0\<rparr>\<rparr>"

definition nw_completeJoin :: "u16 \<Rightarrow> u16 \<Rightarrow> u8 \<Rightarrow> network \<Rightarrow> network \<times> bool" where
  "nw_completeJoin nwkAddress parentAddress parentDepth s =
     (if \<not> nw_isJoining s then (s, False)
      else if \<not> aa_isUsable nwkAddress then (s, False)
      else
        (s\<lparr>nw_info := (nw_info s)\<lparr>ni_joined := True, ni_nwkAddress := nwkAddress,
             ni_parentAddress := parentAddress, ni_depth := parentDepth + 1,
             ni_state := (if ni_deviceType (nw_info s) = ZB_DEVICE_ROUTER then ZB_NWK_STATE_ROUTER
               else ZB_NWK_STATE_END_DEVICE)\<rparr>\<rparr>, True))"

definition nw_rejoinParent :: "network \<Rightarrow> network \<times> bool" where
  "nw_rejoinParent s =
     (let i = nw_info s in
      if ni_panId i = 0xFFFF \<or> ni_parentAddress i = ZB_NWK_ADDR_INVALID \<or>
         ni_deviceType i = ZB_DEVICE_UNKNOWN \<or> ni_deviceType i = ZB_DEVICE_COORDINATOR
      then (s, False)
      else (s\<lparr>nw_info := i\<lparr>ni_joined := False, ni_state := ZB_NWK_STATE_JOINING,
              ni_nwkAddress := ZB_NWK_ADDR_INVALID, ni_depth := 0xFF\<rparr>\<rparr>, True))"

definition nw_nextFrameCounter :: "network \<Rightarrow> network \<times> u32" where
  "nw_nextFrameCounter s =
     (let c = ni_outgoingFrameCounter (nw_info s) + 1
      in (s\<lparr>nw_info := (nw_info s)\<lparr>ni_outgoingFrameCounter := c\<rparr>\<rparr>, c))"

definition nw_noteJoinAttempt :: "network \<Rightarrow> network" where
  "nw_noteJoinAttempt s = s\<lparr>nw_joinAttempts := nw_joinAttempts s + 1\<rparr>"

definition nw_resetJoinAttempts :: "network \<Rightarrow> network" where
  "nw_resetJoinAttempts s = s\<lparr>nw_joinAttempts := 0\<rparr>"

section \<open>Children and parent\<close>

definition nw_acceptChild :: "u64 \<Rightarrow> u8 \<Rightarrow> bool \<Rightarrow> u8 \<Rightarrow> u32 \<Rightarrow> network \<Rightarrow> network \<times> nat option" where
  "nw_acceptChild ieeeAddress deviceType rxOnWhenIdle lqi now s =
     (case nw_neighbors s of None \<Rightarrow> (s, None) | Some t \<Rightarrow>
        if \<not> nw_isCoordinator s \<and> \<not> nw_isRouter s then (s, None)
        else if \<not> pj_isOpen (nw_permitJoin s) now then (s, None)
        else
          let (alloc, shortAddress) =
                (case nt_findByIeee t ieeeAddress of
                   Some i \<Rightarrow> (nw_allocator s, nb_nwk (the (nt_slot t i)))
                 | None \<Rightarrow> aa_allocate t (nw_allocator s));
              s = s\<lparr>nw_allocator := alloc\<rparr>
          in if shortAddress = ZB_NWK_ADDR_INVALID then (s, None)
             else
               let (t, child) = nt_upsert t shortAddress ieeeAddress deviceType ZB_REL_CHILD
                     (ni_depth (nw_info s) + 1) lqi rxOnWhenIdle False now
               in (s\<lparr>nw_neighbors := Some t\<rparr>, child))"

definition nw_handleAssociationRequest ::
  "u64 \<Rightarrow> mac_assoc_request \<Rightarrow> u8 \<Rightarrow> u32 \<Rightarrow> network \<Rightarrow> network \<times> assoc_decision"
where
  "nw_handleAssociationRequest ieeeAddress request lqi now s =
     (let decision = \<lparr>ad_accepted = False, ad_assignedAddress = ZB_NWK_ADDR_INVALID,
            ad_status = MAC_ASSOC_PAN_ACCESS_DENIED, ad_deviceType = 0, ad_rxOnWhenIdle = False\<rparr>
      in
        if \<not> ar_valid request \<or> \<not> ar_allocateAddress request then (s, decision)
        else if nw_neighbors s = None \<or> \<not> nw_isCoordinator s \<and> \<not> nw_isRouter s \<or>
                \<not> pj_isOpen (nw_permitJoin s) now then (s, decision)
        else
          let childType = (if ar_fullFunctionDevice request then ZB_DEVICE_ROUTER else ZB_DEVICE_END_DEVICE)
          in (case nw_acceptChild ieeeAddress childType (ar_receiverOnWhenIdle request) lqi now s of
                (s, None) \<Rightarrow> (s, decision\<lparr>ad_status := MAC_ASSOC_PAN_AT_CAPACITY\<rparr>)
              | (s, Some child) \<Rightarrow>
                  (s, decision\<lparr>ad_accepted := True,
                     ad_assignedAddress := nb_nwk (the (nt_slot (the (nw_neighbors s)) child)),
                     ad_status := MAC_ASSOC_SUCCESS, ad_deviceType := childType,
                     ad_rxOnWhenIdle := ar_receiverOnWhenIdle request\<rparr>)))"

definition nw_noteParent :: "u16 \<Rightarrow> u64 \<Rightarrow> u8 \<Rightarrow> u8 \<Rightarrow> u8 \<Rightarrow> bool \<Rightarrow> u32 \<Rightarrow> network \<Rightarrow> network \<times> bool" where
  "nw_noteParent nwkAddress ieeeAddress deviceType depth lqi permitJoining now s =
     (case nw_neighbors s of None \<Rightarrow> (s, False) | Some t \<Rightarrow>
        if \<not> ni_joined (nw_info s) then (s, False)
        else
          (case nt_upsert t nwkAddress ieeeAddress deviceType ZB_REL_PARENT depth lqi True permitJoining now of
             (t, None) \<Rightarrow> (s\<lparr>nw_neighbors := Some t\<rparr>, False)
           | (t, Some _) \<Rightarrow>
               (s\<lparr>nw_neighbors := Some t, nw_info := (nw_info s)\<lparr>ni_parentAddress := nwkAddress\<rparr>\<rparr>, True)))"

section \<open>Active scan\<close>

definition nw_beginScan :: "u8 \<Rightarrow> network \<Rightarrow> network" where
  "nw_beginScan deviceType s = (nw_clearCandidates s)\<lparr>nw_scanDeviceType := deviceType,
     nw_info := network_info0\<lparr>ni_joined := False, ni_state := ZB_NWK_STATE_SCANNING,
       ni_deviceType := deviceType, ni_panId := 0xFFFF, ni_nwkAddress := ZB_NWK_ADDR_INVALID,
       ni_parentAddress := ZB_NWK_ADDR_INVALID, ni_depth := 0xFF\<rparr>\<rparr>"

definition nw_isScanning :: "network \<Rightarrow> bool" where
  "nw_isScanning s \<longleftrightarrow> ni_state (nw_info s) = ZB_NWK_STATE_SCANNING"

definition ca_fill :: "u8 \<Rightarrow> mac_beacon_frame \<Rightarrow> nwk_beacon \<Rightarrow> u8 \<Rightarrow> u8 \<Rightarrow> candidate" where
  "ca_fill channel beacon payload rssi lqi = \<lparr>ca_used = True, ca_channel = channel,
     ca_panId = mb_srcPanId beacon, ca_extendedPanId = bp_extendedPanId payload,
     ca_shortAddress = mb_srcShort beacon, ca_depth = bp_deviceDepth payload, ca_lqi = lqi, ca_rssi = rssi,
     ca_permitJoining = mb_associationPermit beacon, ca_routerCapacity = bp_routerCapacity payload,
     ca_endDeviceCapacity = bp_endDeviceCapacity payload, ca_stackProfile = bp_stackProfile payload,
     ca_updateId = bp_updateId payload\<rparr>"

text \<open>
  \<open>noteBeacon\<close>: the same-sender entry, else the first free one, else the weakest; the candidate array
  is not empty, so the last \<open>None\<close> does not occur.
\<close>

definition nw_noteBeacon ::
  "u8 \<Rightarrow> mac_beacon_frame \<Rightarrow> nwk_beacon \<Rightarrow> u8 \<Rightarrow> u8 \<Rightarrow> u64 \<Rightarrow> network \<Rightarrow> network \<times> bool"
where
  "nw_noteBeacon channel beacon payload rssi lqi requiredExtendedPanId s =
     (if \<not> mb_valid beacon \<or> \<not> bp_valid payload then (s, False)
      else if requiredExtendedPanId \<noteq> 0 \<and> bp_extendedPanId payload \<noteq> requiredExtendedPanId then (s, False)
      else
        let cs = nw_candidates s; new = ca_fill channel beacon payload rssi lqi in
        (case find_idx (\<lambda>c. ca_used c \<and> ca_channel c = channel \<and> ca_panId c = mb_srcPanId beacon \<and>
                 ca_shortAddress c = mb_srcShort beacon) cs of
           Some i \<Rightarrow>
             if lqi < ca_lqi (cs ! i) then (s, True)
             else (s\<lparr>nw_candidates := cs[i := new]\<rparr>, True)
         | None \<Rightarrow>
             (case find_idx (\<lambda>c. \<not> ca_used c) cs of
                Some i \<Rightarrow> (s\<lparr>nw_candidates := cs[i := new]\<rparr>, True)
              | None \<Rightarrow>
                  (case best_idx (\<lambda>_. True) (\<lambda>c w. ca_lqi c < ca_lqi w) cs of
                     Some i \<Rightarrow>
                       if ca_lqi (cs ! i) \<ge> lqi then (s, False)
                       else (s\<lparr>nw_candidates := cs[i := new]\<rparr>, True)
                   | None \<Rightarrow> (s, False)))))"

definition nw_candidateCount :: "network \<Rightarrow> nat" where
  "nw_candidateCount s = used_count ca_used (nw_candidates s)"

text \<open>\<open>candidate(index)\<close>: the \<open>index\<close>-th used entry.\<close>

definition nw_candidate :: "nat \<Rightarrow> network \<Rightarrow> candidate option" where
  "nw_candidate index s =
     (let used = filter ca_used (nw_candidates s) in if index < length used then Some (used ! index) else None)"

definition nw_candidateUsableFor :: "candidate \<Rightarrow> u8 \<Rightarrow> bool" where
  "nw_candidateUsableFor c deviceType =
     (if \<not> ca_used c \<or> \<not> ca_permitJoining c then False
      else if ca_stackProfile c \<noteq> 2 then False
      else if deviceType = ZB_DEVICE_ROUTER then ca_routerCapacity c
      else if deviceType = ZB_DEVICE_END_DEVICE then ca_endDeviceCapacity c
      else False)"

definition nw_selectParent :: "network \<Rightarrow> nat option" where
  "nw_selectParent s =
     best_idx (\<lambda>c. nw_candidateUsableFor c (nw_scanDeviceType s))
       (\<lambda>c b. ca_lqi c > ca_lqi b \<or> ca_lqi c = ca_lqi b \<and> ca_depth c < ca_depth b) (nw_candidates s)"

definition nw_beginJoiningCandidate :: "candidate \<Rightarrow> network \<Rightarrow> network \<times> bool" where
  "nw_beginJoiningCandidate parent s =
     (if \<not> ca_used parent then (s, False)
      else (nw_beginJoining (nw_scanDeviceType s) (ca_panId parent) (ca_extendedPanId parent)
              (ca_channel parent) (ca_shortAddress parent) (ca_updateId parent) s, True))"

section \<open>Link status and aging\<close>

definition nw_costFromLqi :: "u8 \<Rightarrow> u8" where
  "nw_costFromLqi lqi =
     (if lqi \<ge> 105 then 1 else if lqi \<ge> 95 then 2 else if lqi \<ge> 85 then 3 else if lqi \<ge> 75 then 4
      else if lqi \<ge> 65 then 5 else if lqi \<ge> 55 then 6 else 7)"

definition nw_linkStatusDue :: "u32 \<Rightarrow> network \<Rightarrow> bool" where
  "nw_linkStatusDue now s =
     (if \<not> nw_isCoordinator s \<and> \<not> nw_isRouter s then False
      else now - nw_lastLinkStatusMs s \<ge> kLinkStatusPeriodMs)"

definition nw_markLinkStatusSent :: "u32 \<Rightarrow> network \<Rightarrow> network" where
  "nw_markLinkStatusSent now s = s\<lparr>nw_lastLinkStatusMs := now\<rparr>"

definition nw_listed :: "neighbor \<Rightarrow> bool" where
  "nw_listed n \<longleftrightarrow> nb_used n \<and> nb_relationship n \<noteq> ZB_REL_PREVIOUS_CHILD \<and>
     (nb_deviceType n = ZB_DEVICE_ROUTER \<or> nb_deviceType n = ZB_DEVICE_COORDINATOR)"

definition nw_linkEntry :: "neighbor \<Rightarrow> nwk_link_entry" where
  "nw_linkEntry n = \<lparr>le_address = nb_nwk n,
     le_incomingCost = (if nb_incomingCost n \<noteq> 0 then nb_incomingCost n else nw_costFromLqi (nb_lqi n)),
     le_outgoingCost = nb_outgoingCost n\<rparr>"

definition nw_collectLinkStatusEntries :: "nat \<Rightarrow> network \<Rightarrow> nwk_link_entry list" where
  "nw_collectLinkStatusEntries maxEntries s =
     (case nw_neighbors s of
        Some (Some es) \<Rightarrow> take maxEntries (map nw_linkEntry (filter nw_listed es))
      | _ \<Rightarrow> [])"

text \<open>The loop over the received entries: the first one that names this node, with the iterations left.\<close>

primrec nw_ownEntry :: "nwk_link_status \<Rightarrow> u16 \<Rightarrow> nat \<Rightarrow> nat \<Rightarrow> nwk_link_entry option option" where
  "nw_ownEntry command own 0 i = Some None"
| "nw_ownEntry command own (Suc n) i =
     (case nwk_getLinkStatusEntry command i of
        None \<Rightarrow> None
      | Some None \<Rightarrow> Some None
      | Some (Some entry) \<Rightarrow>
          if le_address entry = own then Some (Some entry) else nw_ownEntry command own n (Suc i))"

definition nw_setIncoming :: "nat \<Rightarrow> u8 \<Rightarrow> neighbor_table \<Rightarrow> neighbor_table" where
  "nw_setIncoming i c t = map_option (\<lambda>es. es[i := (es ! i)\<lparr>nb_incomingCost := c\<rparr>]) t"

definition nw_setOutgoing :: "nat \<Rightarrow> u8 \<Rightarrow> neighbor_table \<Rightarrow> neighbor_table" where
  "nw_setOutgoing i c t = map_option (\<lambda>es. es[i := (es ! i)\<lparr>nb_outgoingCost := c\<rparr>]) t"

definition nw_handleLinkStatus ::
  "u16 \<Rightarrow> nwk_link_status \<Rightarrow> u8 \<Rightarrow> u32 \<Rightarrow> network \<Rightarrow> (network \<times> bool) option"
where
  "nw_handleLinkStatus senderShort command lqi now s =
     (case nw_neighbors s of None \<Rightarrow> Some (s, False) | Some t \<Rightarrow>
        if \<not> ls_valid command \<or> \<not> ni_joined (nw_info s) then Some (s, False)
        else
          let existing = (case nt_findByNwk t senderShort of None \<Rightarrow> None | Some i \<Rightarrow> nt_slot t i);
              isParent = (senderShort = ni_parentAddress (nw_info s));
              relationship = (case existing of
                  Some e \<Rightarrow> if isParent then ZB_REL_PARENT else nb_relationship e
                | None \<Rightarrow> if isParent then ZB_REL_PARENT else ZB_REL_SIBLING);
              ieee = (case existing of Some e \<Rightarrow> nb_ieee e | None \<Rightarrow> 0);
              depth = (case existing of Some e \<Rightarrow> nb_depth e | None \<Rightarrow> 0xFF);
              permit = (case existing of Some e \<Rightarrow> nb_permitJoining e | None \<Rightarrow> False)
          in
            (case nt_upsert t senderShort ieee ZB_DEVICE_ROUTER relationship depth lqi True permit now of
               (t, None) \<Rightarrow> Some (s\<lparr>nw_neighbors := Some t\<rparr>, False)
             | (t, Some i) \<Rightarrow>
                 let t = nw_setIncoming i (nw_costFromLqi lqi) t in
                 (case nw_ownEntry command (ni_nwkAddress (nw_info s)) (unat (ls_entryCount command)) 0 of
                    None \<Rightarrow> None
                  | Some None \<Rightarrow> Some (s\<lparr>nw_neighbors := Some t\<rparr>, True)
                  | Some (Some entry) \<Rightarrow>
                      Some (s\<lparr>nw_neighbors := Some (nw_setOutgoing i (le_incomingCost entry) t)\<rparr>, True))))"

text \<open>\<open>AgingResult\<close> is the pair of its two fields.\<close>

definition nw_ageNeighbors :: "u32 \<Rightarrow> network \<Rightarrow> network \<times> nat \<times> bool" where
  "nw_ageNeighbors now s =
     (case nw_neighbors s of None \<Rightarrow> (s, 0, False) | Some t \<Rightarrow>
        if \<not> ni_joined (nw_info s) then (s, 0, False)
        else
          let maxAge = kLinkStatusPeriodMs * kRouterAgeLimit in
          if now < maxAge then (s, 0, False)
          else
            let cutoff = now - maxAge;
                (t, removed) = nt_removeStaleRouters t cutoff (ni_parentAddress (nw_info s));
                parentLost =
                  (\<not> nw_isCoordinator s \<and> ni_parentAddress (nw_info s) \<noteq> ZB_NWK_ADDR_INVALID \<and>
                   (case nt_findByNwk t (ni_parentAddress (nw_info s)) of
                      None \<Rightarrow> False
                    | Some i \<Rightarrow> nb_lastSeenMs (the (nt_slot t i)) < cutoff))
            in (s\<lparr>nw_neighbors := Some t\<rparr>, cast8 removed, parentLost))"

end
