(* ===== verification/ZbMacFacts.thy ===== *)
theory ZbMacFacts
  imports ZbMac
begin

text \<open>
  The MAC codec: no parser reads outside its buffer, and parsing what a builder wrote gives back
  every field.
\<close>

section \<open>Reads stay inside the buffer\<close>

lemma mac_parseShortDataFrame_safe: "mac_parseShortDataFrame p \<noteq> None"
  by (cases p) (auto simp: mac_parseShortDataFrame_def Let_def rd_in)

lemma mac_parseInterPanFrame_safe: "mac_parseInterPanFrame p \<noteq> None"
  by (cases p) (auto simp: mac_parseInterPanFrame_def Let_def rd_in)

lemma mac_parseBeacon_safe: "mac_parseBeacon p \<noteq> None"
  by (cases p) (auto simp: mac_parseBeacon_def Let_def rd_in)

lemma mac_commandDst_safe: "mac_commandDst bs m fr off \<noteq> None"
  by (auto simp: mac_commandDst_def Let_def rd_in)

lemma mac_commandSrc_safe: "mac_commandSrc bs m c fr off \<noteq> None"
  by (auto simp: mac_commandSrc_def Let_def rd_in)

lemma safe_bind: "a \<noteq> None \<Longrightarrow> (\<And>x. f x \<noteq> None) \<Longrightarrow> Option.bind a f \<noteq> None"
  by (cases a) simp_all

lemma safe_sum: "(\<And>x. f x \<noteq> None) \<Longrightarrow> (\<And>y. g y \<noteq> None) \<Longrightarrow> (case s of Inl x \<Rightarrow> f x | Inr y \<Rightarrow> g y) \<noteq> None"
  by (cases s) simp_all

lemma safe_prod: "(\<And>x y. f x y \<noteq> None) \<Longrightarrow> (case p of (x, y) \<Rightarrow> f x y) \<noteq> None"
  by (cases p) simp

lemma safe_if: "(c \<Longrightarrow> a \<noteq> None) \<Longrightarrow> (\<not> c \<Longrightarrow> b \<noteq> None) \<Longrightarrow> (if c then a else b) \<noteq> None"
  by simp

lemma mac_parseCommandFrame_safe: "mac_parseCommandFrame p \<noteq> None"
proof (cases p)
  case (Some bs)
  show ?thesis
    unfolding mac_parseCommandFrame_def Some option.case Let_def
    by (intro safe_if safe_bind safe_sum safe_prod mac_commandDst_safe mac_commandSrc_safe)
      (simp_all add: rd_in)
qed (simp add: mac_parseCommandFrame_def)

text \<open>The payload pointer of an accepted command frame, and the length it claims.\<close>

definition mac_good :: "(u8 list \<Rightarrow> nat \<Rightarrow> bool) \<Rightarrow> (bool \<times> mac_command_frame) option \<Rightarrow> bool" where
  "mac_good P r \<longleftrightarrow> (\<forall>fr. r = Some (True, fr) \<longrightarrow> (\<exists>pl. mc_payload fr = Some pl \<and> P pl (mc_payloadLen fr)))"

lemma mac_good_intros:
  "(\<And>x. mac_good P (f x)) \<Longrightarrow> mac_good P (Option.bind a f)"
  "(\<And>x. mac_good P (f' x)) \<Longrightarrow> (\<And>y. mac_good P (g y)) \<Longrightarrow> mac_good P (case s of Inl x \<Rightarrow> f' x | Inr y \<Rightarrow> g y)"
  "(\<And>x y. mac_good P (h x y)) \<Longrightarrow> mac_good P (case p of (x, y) \<Rightarrow> h x y)"
  "mac_good P b \<Longrightarrow> mac_good P b' \<Longrightarrow> mac_good P (if c then b else b')"
  "mac_good P (Some (False, fr))"
  by (cases a; cases s; cases p; simp add: mac_good_def)+

lemma mac_parse_payload:
  assumes "mac_parseCommandFrame (Some bs) = Some (True, fr)" "length bs \<le> 255"
  shows "\<exists>pl. mc_payload fr = Some pl \<and> mc_payloadLen fr = length pl"
proof -
  have "mac_good (\<lambda>pl n. n = length pl) (mac_parseCommandFrame (Some bs))"
    unfolding mac_parseCommandFrame_def option.case Let_def
    by (intro mac_good_intros) (use assms(2) in \<open>simp_all add: mac_good_def\<close>)
  with assms(1) show ?thesis by (simp add: mac_good_def)
qed

lemma mac_command_in_payload:
  assumes "mac_parseCommandFrame (Some bs) = Some (True, fr)"
  shows "\<exists>pl. mc_payload fr = Some pl \<and> mc_payloadLen fr \<le> length pl"
proof -
  have "mac_good (\<lambda>pl n. n \<le> length pl) (mac_parseCommandFrame (Some bs))"
    unfolding mac_parseCommandFrame_def option.case Let_def
    by (intro mac_good_intros) (simp_all add: mac_good_def cast8_def)
  with assms show ?thesis by (simp add: mac_good_def)
qed

section \<open>Round trips\<close>

lemma mac_data_roundtrip:
  assumes "mac_buildShortDataFrame (Some outMax) pan dst src seq (Some pl) (length pl) ack = Some bs"
  shows "length bs \<le> outMax \<and> mac_parseShortDataFrame (Some bs) = Some (True,
    \<lparr>md_valid = True, md_frameType = 1, md_sequence = seq, md_ackRequest = ack, md_panIdCompression = True,
     md_dstPanId = pan, md_dstShort = dst, md_srcPanId = pan, md_srcShort = src,
     md_payload = Some pl, md_payloadLen = length pl\<rparr>)"
proof -
  from assms have l: "length pl \<le> 116" "9 + length pl \<le> outMax"
    and bs: "bs = le16 (if ack then 0x9861 else 0x9841) @ [seq] @ le16 pan @ le16 dst @ le16 src @ pl"
    by (auto simp: mac_buildShortDataFrame_def not_less not_le split: if_splits)
  show ?thesis using l
    by (cases ack) (simp_all add: mac_parseShortDataFrame_def bs wire_simps mac_data_frame0_def)
qed

lemma mac_beacon_roundtrip:
  assumes "mac_buildBeacon (Some outMax) pan src seq coord permit (Some pl) (length pl) = Some bs"
  shows "length bs \<le> outMax \<and> mac_parseBeacon (Some bs) = Some (True,
    \<lparr>mb_valid = True, mb_sequence = seq, mb_srcPanId = pan, mb_srcShort = src, mb_panCoordinator = coord,
     mb_associationPermit = permit, mb_payload = Some pl, mb_payloadLen = length pl\<rparr>)"
proof -
  let ?sf = "0x0FFF OR (if coord then 0x4000 else 0) OR (if permit then 0x8000 else 0) :: u16"
  from assms have l: "length pl \<le> 114" "11 + length pl \<le> outMax"
    and bs: "bs = le16 0x8000 @ [seq] @ le16 pan @ le16 src @ le16 ?sf @ [0, 0] @ pl"
    by (auto simp: mac_buildBeacon_def not_less not_le split: if_splits)
  have sf: "bit ?sf 14 = coord" "bit ?sf 15 = permit" by (cases coord; cases permit; simp)+
  show ?thesis using l
    by (simp add: mac_parseBeacon_def bs wire_simps mac_beacon_frame0_def sf)
qed

lemma mac_interpan_roundtrip:
  assumes "mac_buildInterPanFrame (Some outMax) mode dpan dst dIeee span sIeee seq (Some pl) (length pl) ack = Some bs"
  shows "length bs \<le> outMax \<and> mac_parseInterPanFrame (Some bs) = Some (True,
    \<lparr>mi_valid = True, mi_sequence = seq, mi_ackRequest = ack, mi_dstAddrMode = mode, mi_dstPanId = dpan,
     mi_dstShort = (if mode = 2 then dst else 0), mi_dstIeee = (if mode = 2 then 0 else dIeee),
     mi_srcPanId = span, mi_srcIeee = sIeee, mi_payload = Some pl, mi_payloadLen = length pl\<rparr>)"
proof -
  from assms have l: "length pl \<le> 108" "15 + (if mode = 2 then 2 else 8) + length pl \<le> outMax" "mode = 2 \<or> mode = 3"
    and bs: "bs = le16 ((if ack then 0x21 else 1) OR (if mode = 2 then 0x800 else 0xC00) OR 0xC000) @ [seq] @
      le16 dpan @ (if mode = 2 then le16 dst else le64 dIeee) @ le16 span @ le64 sIeee @ pl"
    by (auto simp: mac_buildInterPanFrame_def Let_def not_less not_le split: if_splits)
  show ?thesis using l(3)
  proof
    assume "mode = 2"
    then show ?thesis using l
      by (cases ack) (simp_all add: mac_parseInterPanFrame_def bs wire_simps mac_interpan_frame0_def)
  next
    assume "mode = 3"
    then show ?thesis using l
      by (cases ack) (simp_all add: mac_parseInterPanFrame_def bs wire_simps mac_interpan_frame0_def)
  qed
qed

lemmas mac_command_defs = mac_parseCommandFrame_def mac_commandDst_def mac_commandSrc_def mac_command_frame0_def

lemma mac_assoc_request_roundtrip:
  assumes "mac_buildAssociationRequest (Some outMax) pan coord ieee seq cap ack = Some bs"
  shows "length bs \<le> outMax \<and> length bs = 17 \<and> mac_parseCommandFrame (Some bs) = Some (True, mac_command_frame0
    \<lparr>mc_valid := True, mc_frameType := 3, mc_sequence := seq, mc_ackRequest := ack, mc_panIdCompression := True,
     mc_dstAddrMode := 2, mc_srcAddrMode := 3, mc_dstPanId := pan, mc_dstShort := coord, mc_srcPanId := pan,
     mc_srcIeee := ieee, mc_commandId := 1, mc_payload := Some [cap], mc_payloadLen := 1\<rparr>)"
proof -
  from assms have l: "17 \<le> outMax"
    and bs: "bs = le16 (if ack then 0xD863 else 0xD843) @ [seq] @ le16 pan @ le16 coord @ le64 ieee @ [1, cap]"
    by (auto simp: mac_buildAssociationRequest_def not_less split: if_splits)
  show ?thesis using l
    by (cases ack) (simp_all add: mac_command_defs bs wire_simps)
qed

lemma mac_assoc_response_roundtrip:
  assumes "mac_buildAssociationResponse (Some outMax) pan ieee src seq short st ack = Some bs"
  shows "length bs \<le> outMax \<and> length bs = 19 \<and> mac_parseCommandFrame (Some bs) = Some (True, mac_command_frame0
    \<lparr>mc_valid := True, mc_frameType := 3, mc_sequence := seq, mc_ackRequest := ack, mc_panIdCompression := True,
     mc_dstAddrMode := 3, mc_srcAddrMode := 2, mc_dstPanId := pan, mc_dstIeee := ieee, mc_srcPanId := pan,
     mc_srcShort := src, mc_commandId := 2, mc_payload := Some (le16 short @ [st]), mc_payloadLen := 3\<rparr>)"
proof -
  from assms have l: "19 \<le> outMax"
    and bs: "bs = le16 (if ack then 0x9C63 else 0x9C43) @ [seq] @ le16 pan @ le64 ieee @ le16 src @ [2] @ le16 short @ [st]"
    by (auto simp: mac_buildAssociationResponse_def not_less split: if_splits)
  show ?thesis using l
    by (cases ack) (simp_all add: mac_command_defs bs wire_simps)
qed

lemma mac_assoc_request_heard:
  assumes "mac_buildAssociationRequest (Some outMax) pan coord ieee seq cap ack = Some bs"
  shows "\<exists>fr. mac_parseCommandFrame (Some bs) = Some (True, fr) \<and> mc_srcIeee fr = ieee \<and> mc_dstPanId fr = pan \<and>
    mc_dstShort fr = coord \<and> mac_parseAssociationRequest fr = Some (True, \<lparr>ar_valid = True, ar_capability = cap,
      ar_allocateAddress = (cap AND 0x80 \<noteq> 0), ar_receiverOnWhenIdle = (cap AND 0x08 \<noteq> 0),
      ar_fullFunctionDevice = (cap AND 0x02 \<noteq> 0)\<rparr>)"
  using mac_assoc_request_roundtrip [OF assms]
  by (intro exI conjI) (erule conjE, erule conjE, assumption,
    simp_all add: mac_parseAssociationRequest_def rd8_def mac_command_frame0_def)

lemma mac_assoc_response_heard:
  assumes "mac_buildAssociationResponse (Some outMax) pan ieee src seq short st ack = Some bs"
  shows "\<exists>fr. mac_parseCommandFrame (Some bs) = Some (True, fr) \<and> mc_dstIeee fr = ieee \<and> mc_srcShort fr = src \<and>
    mac_parseAssociationResponse fr = Some (True, \<lparr>as_valid = True, as_shortAddress = short, as_status = st\<rparr>)"
  using mac_assoc_response_roundtrip [OF assms]
  by (intro exI conjI) (erule conjE, erule conjE, assumption,
    simp_all add: mac_parseAssociationResponse_def wire_simps nth_append rd8_def mac_command_frame0_def)

lemma mac_probe_roundtrips:
  "8 \<le> outMax \<Longrightarrow> \<exists>bs. mac_buildBeaconRequest (Some outMax) seq = Some bs \<and> length bs \<le> outMax \<and>
     mac_parseCommandFrame (Some bs) = Some (True, mac_command_frame0\<lparr>mc_valid := True, mc_frameType := 3,
       mc_sequence := seq, mc_dstAddrMode := 2, mc_dstPanId := 0xFFFF, mc_dstShort := 0xFFFF, mc_commandId := 7,
       mc_payload := Some []\<rparr>)"
  "10 \<le> outMax \<Longrightarrow> \<exists>bs. mac_buildDataRequest (Some outMax) pan parent child seq = Some bs \<and> length bs \<le> outMax \<and>
     mac_parseCommandFrame (Some bs) = Some (True, mac_command_frame0\<lparr>mc_valid := True, mc_frameType := 3,
       mc_sequence := seq, mc_ackRequest := True, mc_panIdCompression := True, mc_dstAddrMode := 2,
       mc_srcAddrMode := 2, mc_dstPanId := pan, mc_dstShort := parent, mc_srcPanId := pan, mc_srcShort := child,
       mc_commandId := 4, mc_payload := Some []\<rparr>)"
  by (simp_all add: mac_buildBeaconRequest_def mac_buildDataRequest_def mac_command_defs wire_simps)

section \<open>Properties\<close>

text \<open>No parser of the MAC layer reads outside the frame it is given, whatever the bytes: the
  reserved address modes, the GTS and pending-address fields of a beacon included. The association
  payloads of an accepted command frame are read inside that frame too.\<close>

theorem mac_parsers_memory_safe:
  "mac_parseShortDataFrame p \<noteq> None \<and> mac_parseInterPanFrame p \<noteq> None \<and> mac_parseBeacon p \<noteq> None \<and>
   mac_parseCommandFrame p \<noteq> None \<and>
   (length bs \<le> 255 \<longrightarrow> mac_parseCommandFrame (Some bs) = Some (True, fr) \<longrightarrow>
      mac_parseAssociationRequest fr \<noteq> None \<and> mac_parseAssociationResponse fr \<noteq> None)"
proof (intro conjI impI)
  assume "length bs \<le> 255" "mac_parseCommandFrame (Some bs) = Some (True, fr)"
  then obtain pl where "mc_payload fr = Some pl" "mc_payloadLen fr = length pl"
    using mac_parse_payload by blast
  then show "mac_parseAssociationRequest fr \<noteq> None" "mac_parseAssociationResponse fr \<noteq> None"
    by (auto simp: mac_parseAssociationRequest_def mac_parseAssociationResponse_def rd_in not_less not_le)
qed (rule mac_parseShortDataFrame_safe mac_parseInterPanFrame_safe mac_parseBeacon_safe mac_parseCommandFrame_safe)+

lemma mac_parsers_memory_safe_witness:
  "mac_parseAssociationRequest (mac_command_frame0\<lparr>mc_valid := True, mc_frameType := 3, mc_sequence := 1,
     mc_dstAddrMode := 2, mc_dstPanId := 0xFFFF, mc_dstShort := 0xFFFF, mc_commandId := 7, mc_payload := Some []\<rparr>) \<noteq> None"
proof -
  obtain bs where "mac_buildBeaconRequest (Some 8) 1 = Some bs" "length bs \<le> 8"
    "mac_parseCommandFrame (Some bs) = Some (True, mac_command_frame0\<lparr>mc_valid := True, mc_frameType := 3, mc_sequence := 1,
       mc_dstAddrMode := 2, mc_dstPanId := 0xFFFF, mc_dstShort := 0xFFFF, mc_commandId := 7, mc_payload := Some []\<rparr>)"
    using mac_probe_roundtrips(1) [of 8 1] by auto
  then show ?thesis
    using mac_parsers_memory_safe [THEN conjunct2, THEN conjunct2, THEN conjunct2, THEN conjunct2, THEN mp, THEN mp, of bs]
    by auto
qed

text \<open>A data frame, a beacon and an inter-PAN frame that the builders accept fit the output buffer,
  and parsing them gives back every field, the payload included.\<close>

theorem mac_frames_roundtrip:
  "(mac_buildShortDataFrame (Some outMax) pan dst src seq (Some pl) (length pl) ack = Some bs \<longrightarrow>
     length bs \<le> outMax \<and> mac_parseShortDataFrame (Some bs) = Some (True,
       \<lparr>md_valid = True, md_frameType = 1, md_sequence = seq, md_ackRequest = ack, md_panIdCompression = True,
        md_dstPanId = pan, md_dstShort = dst, md_srcPanId = pan, md_srcShort = src,
        md_payload = Some pl, md_payloadLen = length pl\<rparr>)) \<and>
   (mac_buildBeacon (Some outMax) pan src seq coord permit (Some pl) (length pl) = Some bs \<longrightarrow>
     length bs \<le> outMax \<and> mac_parseBeacon (Some bs) = Some (True,
       \<lparr>mb_valid = True, mb_sequence = seq, mb_srcPanId = pan, mb_srcShort = src, mb_panCoordinator = coord,
        mb_associationPermit = permit, mb_payload = Some pl, mb_payloadLen = length pl\<rparr>)) \<and>
   (mac_buildInterPanFrame (Some outMax) mode pan dst dIeee span sIeee seq (Some pl) (length pl) ack = Some bs \<longrightarrow>
     length bs \<le> outMax \<and> mac_parseInterPanFrame (Some bs) = Some (True,
       \<lparr>mi_valid = True, mi_sequence = seq, mi_ackRequest = ack, mi_dstAddrMode = mode, mi_dstPanId = pan,
        mi_dstShort = (if mode = 2 then dst else 0), mi_dstIeee = (if mode = 2 then 0 else dIeee),
        mi_srcPanId = span, mi_srcIeee = sIeee, mi_payload = Some pl, mi_payloadLen = length pl\<rparr>))"
  by (intro conjI impI mac_data_roundtrip mac_beacon_roundtrip mac_interpan_roundtrip)

lemma mac_frames_roundtrip_witness:
  "\<exists>bs. mac_buildShortDataFrame (Some 127) 0x1AAA 0 5 9 (Some [1, 2, 3]) (length [1, 2, 3 :: u8]) True = Some bs \<and>
     length bs \<le> 127 \<and> map_option fst (mac_parseShortDataFrame (Some bs)) = Some True"
proof -
  obtain bs where b: "mac_buildShortDataFrame (Some 127) 0x1AAA 0 5 9 (Some [1, 2, 3]) (length [1, 2, 3 :: u8]) True = Some bs"
    by (simp add: mac_buildShortDataFrame_def)
  from mac_frames_roundtrip [THEN conjunct1, THEN mp, OF b] b show ?thesis by auto
qed

end
