(* ===== verification/ZbNetworkFacts.thy ===== *)
theory ZbNetworkFacts
  imports ZbNetwork ZbMacFacts
begin

text \<open>
  The contracts of the network object: the allocator never leases an address twice and fails only
  when the pool is leased out, an association leaves a lease behind, the life cycle of a node, what
  a scan selects.
\<close>

section \<open>Address allocation\<close>

definition aa_ok :: "allocator \<Rightarrow> bool" where
  "aa_ok a \<longleftrightarrow> aa_isUsable (aa_first a) \<and> aa_isUsable (aa_last a) \<and> aa_first a \<le> aa_last a \<and>
     aa_first a \<le> aa_next a \<and> aa_next a \<le> aa_last a"

lemma aa_begin_ok: "aa_ok (aa_begin f l)"
  by (auto simp: aa_ok_def aa_begin_def aa_isUsable_def Let_def not_less not_le word_le_nat_alt word_less_nat_alt unat_eq_zero Suc_le_eq unat_gt_0)

lemma aa_init_ok: "aa_ok aa_init"
  by (simp add: aa_ok_def aa_init_def aa_isUsable_def)

lemma aa_pool: "aa_ok a \<Longrightarrow> aa_isInPool a x \<longleftrightarrow> aa_first a \<le> x \<and> x \<le> aa_last a"
  by (auto simp: aa_ok_def aa_isInPool_def aa_isUsable_def word_le_nat_alt word_less_nat_alt unat_eq_zero)

text \<open>Advancing is adding one modulo the size of the pool.\<close>

definition aa_span :: "allocator \<Rightarrow> nat" where
  "aa_span a = unat (aa_last a) - unat (aa_first a) + 1"

definition aa_pos :: "allocator \<Rightarrow> nat \<Rightarrow> u16" where
  "aa_pos a k = aa_first a + of_nat (k mod aa_span a)"

lemma unat_of_nat_u16: "n < 65536 \<Longrightarrow> unat (of_nat n :: u16) = n"
  by (simp add: unsigned_of_nat take_bit_nat_eq_self)

lemma aa_span_last: "aa_ok a \<Longrightarrow> unat (aa_first a) + (aa_span a - 1) = unat (aa_last a) \<and> 0 < aa_span a"
  by (simp add: aa_span_def aa_ok_def word_le_nat_alt)

lemma aa_pos_bound: "aa_ok a \<Longrightarrow> unat (aa_first a) + k mod aa_span a \<le> unat (aa_last a)"
  using aa_span_last [of a] mod_less_divisor [of "aa_span a" k] by linarith

lemma unat_aa_pos: "aa_ok a \<Longrightarrow> unat (aa_pos a k) = unat (aa_first a) + k mod aa_span a"
proof -
  assume "aa_ok a"
  then have l: "unat (aa_first a) + k mod aa_span a < 65536"
    using aa_pos_bound [of a k] unsigned_less [of "aa_last a", where 'a = nat] by simp
  have "of_nat (unat (aa_first a) + k mod aa_span a) = aa_pos a k" by (simp add: aa_pos_def)
  then show ?thesis
    using l by (metis unat_of_nat_u16)
qed

lemma aa_pos_in_pool: "aa_ok a \<Longrightarrow> aa_first a \<le> aa_pos a k \<and> aa_pos a k \<le> aa_last a"
  using aa_pos_bound [of a k] by (simp add: word_le_nat_alt unat_aa_pos)

lemma aa_advance_pos: "aa_ok a \<Longrightarrow> aa_advance a (aa_pos a k) = aa_pos a (Suc k)"
proof -
  assume ok: "aa_ok a"
  let ?n = "aa_span a"
  have n: "0 < ?n" "unat (aa_last a) = unat (aa_first a) + (?n - 1)"
    using aa_span_last [OF ok] by simp_all
  show ?thesis
  proof (cases "aa_pos a k \<ge> aa_last a")
    case True
    then have "?n - 1 \<le> k mod ?n" using ok n by (simp add: word_le_nat_alt unat_aa_pos)
    then have "Suc (k mod ?n) = ?n" using n(1) mod_less_divisor [of ?n k] by linarith
    then have "Suc k mod ?n = 0" by (metis mod_Suc)
    then show ?thesis using True by (simp add: aa_advance_def aa_pos_def)
  next
    case False
    then have "k mod ?n < ?n - 1" using ok n by (simp add: word_le_nat_alt unat_aa_pos)
    then have "Suc k mod ?n = Suc (k mod ?n)" by (simp add: mod_Suc)
    then show ?thesis using False by (simp add: aa_advance_def aa_pos_def add.commute add.left_commute)
  qed
qed

lemma aa_pos_onto: "aa_ok a \<Longrightarrow> aa_first a \<le> x \<Longrightarrow> x \<le> aa_last a \<Longrightarrow> \<exists>k<aa_span a. x = aa_pos a (i + k)"
proof -
  assume ok: "aa_ok a" and x: "aa_first a \<le> x" "x \<le> aa_last a"
  let ?n = "aa_span a" and ?d = "unat x - unat (aa_first a)"
  have d: "?d < ?n" using x by (simp add: aa_span_def word_le_nat_alt)
  let ?k = "(?d + (?n - i mod ?n)) mod ?n"
  have n: "0 < ?n" by (simp add: aa_span_def)
  have "(i + ?k) mod ?n = (i mod ?n + (?d + (?n - i mod ?n))) mod ?n"
    by (simp add: mod_simps)
  also have "i mod ?n + (?d + (?n - i mod ?n)) = ?d + ?n"
    using mod_less_divisor [OF n, of i] by linarith
  finally have "(i + ?k) mod ?n = ?d" using d by simp
  then have "unat (aa_pos a (i + ?k)) = unat x"
    using ok x(1) by (simp add: unat_aa_pos word_le_nat_alt)
  then have "x = aa_pos a (i + ?k)" by (simp add: word_unat_eq_iff)
  moreover have "?k < ?n" using n by simp
  ultimately show ?thesis by blast
qed

lemma aa_scan_spec:
  assumes "aa_ok a"
  shows "case aa_scan a t n (aa_pos a i) of
      None \<Rightarrow> \<forall>k<n. aa_allocatedChild t (aa_pos a (i + k))
    | Some x \<Rightarrow> aa_isInPool a x \<and> \<not> aa_allocatedChild t x"
proof (induction n arbitrary: i)
  case (Suc n)
  have p: "aa_isInPool a (aa_pos a i)" using aa_pool [OF assms] aa_pos_in_pool [OF assms] by simp
  show ?case
  proof (cases "aa_allocatedChild t (aa_pos a i)")
    case True
    then have "aa_scan a t (Suc n) (aa_pos a i) = aa_scan a t n (aa_pos a (Suc i))"
      by (simp add: aa_advance_pos [OF assms])
    then show ?thesis using Suc [of "Suc i"] True
      by (auto split: option.splits simp: less_Suc_eq_0_disj)
  qed (use p in simp)
qed simp

lemma allocator_complete_facts:
  assumes "aa_ok a" "aa_allocate t a = (a', x)"
  shows "aa_ok a' \<and> aa_first a' = aa_first a \<and> aa_last a' = aa_last a \<and>
    (if \<exists>y. aa_isInPool a y \<and> \<not> aa_allocatedChild t y
     then aa_isInPool a x \<and> \<not> aa_allocatedChild t x else x = 0xFFFF \<and> a' = a)"
proof -
  let ?n = "aa_span a"
  have ok: "aa_first a \<le> aa_last a" "aa_first a \<le> aa_next a" "aa_next a \<le> aa_last a"
    using assms(1) by (simp_all add: aa_ok_def)
  have "unat (aa_last a - aa_first a + 1) = ?n"
  proof -
    have "unat (aa_last a) < 65536 - 8" using assms(1) by (simp add: aa_ok_def aa_isUsable_def word_less_nat_alt)
    then show ?thesis using ok(1) by (simp add: aa_span_def unat_word_ariths unat_sub)
  qed
  moreover obtain i where i: "aa_next a = aa_pos a i" using aa_pos_onto [OF assms(1) ok(2,3), of 0] by auto
  ultimately have al: "(a', x) = (case aa_scan a t ?n (aa_pos a i) of
      Some c \<Rightarrow> (a\<lparr>aa_next := aa_advance a c\<rparr>, c) | None \<Rightarrow> (a, 0xFFFF))"
    using assms(2) leD [OF ok(1)] by (simp add: aa_allocate_def Let_def)
  show ?thesis
  proof (cases "aa_scan a t ?n (aa_pos a i)")
    case None
    then have "\<forall>k<?n. aa_allocatedChild t (aa_pos a (i + k))"
      using aa_scan_spec [OF assms(1), where t = t and n = ?n and i = i] by simp
    then have "aa_allocatedChild t y" if "aa_isInPool a y" for y
      using aa_pos_onto [OF assms(1), of y i] that aa_pool [OF assms(1)] by auto
    then show ?thesis using al None assms(1) by auto
  next
    case (Some c)
    then have c: "aa_isInPool a c" "\<not> aa_allocatedChild t c"
      using aa_scan_spec [OF assms(1), where t = t and n = ?n and i = i] by simp_all
    obtain k where "c = aa_pos a k" using aa_pos_onto [OF assms(1), of c 0] c aa_pool [OF assms(1)] by auto
    then have "aa_first a \<le> aa_advance a c" "aa_advance a c \<le> aa_last a"
      using aa_advance_pos [OF assms(1), of k] aa_pos_in_pool [OF assms(1), of "Suc k"] by simp_all
    then have "aa_ok (a\<lparr>aa_next := aa_advance a c\<rparr>)" using assms(1) by (simp add: aa_ok_def)
    then show ?thesis using al Some c by auto
  qed
qed

text \<open>The allocator hands out an address of its pool that no child holds a lease on, and refuses
  only when every address of the pool is leased; the pool is never left, from any configuration.\<close>

theorem allocator_complete:
  assumes "aa_ok a" "aa_allocate t a = (a', x)"
  shows "aa_ok a' \<and> aa_first a' = aa_first a \<and> aa_last a' = aa_last a \<and>
    (if \<exists>y. aa_isInPool a y \<and> \<not> aa_allocatedChild t y
     then aa_isInPool a x \<and> \<not> aa_allocatedChild t x else x = 0xFFFF \<and> a' = a)"
  using assms by (rule allocator_complete_facts)

lemma allocator_complete_witness: "aa_allocate (Some [neighbor0]) (aa_begin 5 6) = (\<lparr>aa_first = 5, aa_last = 6, aa_next = 6\<rparr>, 5) \<and>
    aa_isInPool (aa_begin 5 6) 5 \<and> \<not> aa_allocatedChild (Some [neighbor0]) 5"
proof -
  have e: "aa_allocate (Some [neighbor0]) (aa_begin 5 6) = (\<lparr>aa_first = 5, aa_last = 6, aa_next = 6\<rparr>, 5)"
    by code_simp
  have "aa_isInPool (aa_begin 5 6) 5 \<and> \<not> aa_allocatedChild (Some [neighbor0]) 5"
    by code_simp
  with allocator_complete [OF aa_begin_ok e] e show ?thesis by auto
qed

section \<open>Association\<close>

interpretation nbi: slot_table nb_used nb_ieee neighbor0
  by unfold_locales (simp add: neighbor0_def)

text \<open>The leases a table stands for: device to short address.\<close>

definition nl_leases :: "neighbor list \<Rightarrow> u64 \<Rightarrow> u16 option" where
  "nl_leases es k = map_option nb_nwk (slot_get nb_used nb_ieee es k)"

text \<open>A table that only associations have filled: its entries are children with known addresses.\<close>

definition nl_ok :: "allocator \<Rightarrow> neighbor list \<Rightarrow> bool" where
  "nl_ok a es \<longleftrightarrow> slot_uniq nb_used nb_nwk es \<and> slot_uniq nb_used nb_ieee es \<and>
     (\<forall>e\<in>set es. nb_used e \<longrightarrow> nb_relationship e = ZB_REL_CHILD \<and> nb_ieee e \<noteq> 0 \<and> aa_isInPool a (nb_nwk e))"

lemma nl_allocatedChild:
  assumes "nl_ok a es"
  shows "aa_allocatedChild (Some es) x \<longleftrightarrow> (\<exists>e\<in>set es. nb_used e \<and> nb_nwk e = x)"
proof (cases "slot_find nb_used nb_nwk es x")
  case None
  then have "\<not> (\<exists>e\<in>set es. nb_used e \<and> nb_nwk e = x)" by (auto simp: slot_find_None)
  then show ?thesis using None by (simp add: aa_allocatedChild_def nt_findByNwk_def)
next
  case (Some i)
  from slot_find_bound [OF Some] slot_find_sat [OF Some] assms show ?thesis
    using Some by (auto simp: aa_allocatedChild_def nt_findByNwk_def nt_slot_def nl_ok_def)
qed

lemma nl_children_update:
  "nl_ok a es \<Longrightarrow> slot_uniq nb_used nb_nwk (es[i := e]) \<Longrightarrow> slot_uniq nb_used nb_ieee (es[i := e]) \<Longrightarrow>
   nb_relationship e = ZB_REL_CHILD \<Longrightarrow> nb_ieee e \<noteq> 0 \<Longrightarrow> aa_isInPool a (nb_nwk e) \<Longrightarrow> nl_ok a (es[i := e])"
  using set_update_subset_insert [of es i e] by (auto simp: nl_ok_def)

lemma nl_upsert_known:
  assumes ok: "nl_ok a es" and f: "slot_find nb_used nb_ieee es k = Some i"
  obtains es' where "nt_upsert (Some es) (nb_nwk (es ! i)) k dt ZB_REL_CHILD dep lqi rx per now = (Some es', Some i)"
    "nl_ok a es'" "length es' = length es" "nl_leases es' = nl_leases es" "nb_nwk (es' ! i) = nb_nwk (es ! i)"
proof -
  let ?x = "nb_nwk (es ! i)"
  let ?e = "nt_fill (es ! i) ?x k dt ZB_REL_CHILD dep lqi rx per now"
  have i: "i < length es" "nb_used (es ! i)" "nb_ieee (es ! i) = k"
    using slot_find_bound [OF f] slot_find_sat [OF f] by simp_all
  have u: "slot_uniq nb_used nb_nwk es" "slot_uniq nb_used nb_ieee es" using ok by (simp_all add: nl_ok_def)
  have fx: "slot_find nb_used nb_nwk es ?x = Some i" using slot_find_uniq [OF u(1) i(1,2)] by simp
  then have up: "nt_upsert (Some es) ?x k dt ZB_REL_CHILD dep lqi rx per now = (Some (es[i := ?e]), Some i)"
    by (simp add: nt_upsert_def nt_victim_def nt_findByNwk_def)
  have n: "slot_uniq nb_used nb_nwk (es[i := ?e])" by (rule nbr.get_put_same_key(1) [OF u(1) fx]) simp_all
  have m: "slot_uniq nb_used nb_ieee (es[i := ?e])"
    "slot_get nb_used nb_ieee (es[i := ?e]) = (slot_get nb_used nb_ieee es)(k := Some ?e)"
    by (rule nbi.get_put_same_key [OF u(2) f]; simp)+
  have "es ! i \<in> set es" using i(1) by simp
  then have "k \<noteq> 0" "aa_isInPool a ?x" using ok i by (auto simp: nl_ok_def)
  then have "nl_ok a (es[i := ?e])" using nl_children_update [OF ok n m(1)] by simp
  moreover have "nl_leases (es[i := ?e]) = nl_leases es"
    using m(2) f by (auto simp: nl_leases_def slot_get_def)
  ultimately show thesis using that [of "es[i := ?e]"] up i(1) by simp
qed

lemma nl_upsert_new:
  assumes ok: "nl_ok a es" and f: "slot_find nb_used nb_ieee es k = None" and k: "k \<noteq> 0"
    and fit: "card (insert k (dom (nl_leases es))) \<le> length es"
    and x: "aa_isInPool a x" "\<not> aa_allocatedChild (Some es) x"
  obtains es' i where "nt_upsert (Some es) x k dt ZB_REL_CHILD dep lqi rx per now = (Some es', Some i)"
    "nl_ok a es'" "length es' = length es" "nl_leases es' = (nl_leases es)(k := Some x)" "nb_nwk (es' ! i) = x" "i < length es"
proof -
  have u: "slot_uniq nb_used nb_nwk es" "slot_uniq nb_used nb_ieee es" using ok by (simp_all add: nl_ok_def)
  have dom: "dom (nl_leases es) = dom (slot_get nb_used nb_ieee es)" by (auto simp: nl_leases_def)
  have "k \<notin> dom (nl_leases es)" using f by (simp add: nl_leases_def slot_get_def dom_def)
  with fit have "used_count nb_used es < length es"
    using slot_dom_card [OF u(2)] slot_dom_finite [OF u(2)] by (simp add: dom)
  then obtain i where i: "find_idx (\<lambda>e. \<not> nb_used e) es = Some i"
    by (cases "find_idx (\<lambda>e. \<not> nb_used e) es") (auto simp: find_idx_None used_count_def filter_id_conv)
  have ib: "i < length es" "\<not> nb_used (es ! i)" using find_idx_bound [OF i] find_idx_sat [OF i] by simp_all
  have fx: "slot_find nb_used nb_nwk es x = None" using x(2) by (auto simp: nl_allocatedChild [OF ok] slot_find_None)
  let ?e = "nt_fill (es ! i) x k dt ZB_REL_CHILD dep lqi rx per now"
  have up: "nt_upsert (Some es) x k dt ZB_REL_CHILD dep lqi rx per now = (Some (es[i := ?e]), Some i)"
    using fx f i by (simp add: nt_upsert_def nt_victim_def nt_findByNwk_def nt_findByIeee_def nt_firstFree_def)
  have n: "slot_uniq nb_used nb_nwk (es[i := ?e])" by (rule nbr.get_put_new_key(1) [OF u(1) _ ib(1)]) (simp_all add: fx)
  have f': "slot_find nb_used nb_ieee es (nb_ieee ?e) = None" using f by simp
  note m = nbi.get_put_new_key [OF u(2) f' ib(1)]
  have "nl_ok a (es[i := ?e])" using nl_children_update [OF ok n m(1)] k x(1) by simp
  moreover have "nl_leases (es[i := ?e]) = (nl_leases es)(k := Some x)"
    using m(2) ib(2) by (auto simp: nl_leases_def)
  ultimately show thesis using that [of "es[i := ?e]" i] up ib(1) by simp
qed

text \<open>One association request of a device with an address, on a node whose table is such a table.\<close>

definition nw_ok :: "network \<Rightarrow> bool" where
  "nw_ok s \<longleftrightarrow> aa_ok (nw_allocator s) \<and>
     (\<exists>es. nw_neighbors s = Some (Some es) \<and> es \<noteq> [] \<and> nl_ok (nw_allocator s) es)"

definition nw_table :: "network \<Rightarrow> neighbor list" where
  "nw_table s = the (the (nw_neighbors s))"

definition nw_admits :: "network \<Rightarrow> u32 \<Rightarrow> bool" where
  "nw_admits s now \<longleftrightarrow> (nw_isCoordinator s \<or> nw_isRouter s) \<and> pj_isOpen (nw_permitJoin s) now"

definition nw_sameRole :: "network \<Rightarrow> network \<Rightarrow> bool" where
  "nw_sameRole s s' \<longleftrightarrow> nw_info s' = nw_info s \<and> nw_permitJoin s' = nw_permitJoin s \<and>
     aa_first (nw_allocator s') = aa_first (nw_allocator s) \<and> aa_last (nw_allocator s') = aa_last (nw_allocator s)"

lemma nl_ok_pool:
  "aa_first a' = aa_first a \<Longrightarrow> aa_last a' = aa_last a \<Longrightarrow> nl_ok a' es = nl_ok a es"
  by (simp add: nl_ok_def aa_isInPool_def)

lemma nw_accept_spec:
  assumes ok: "nw_ok s" and adm: "nw_admits s now" and k: "k \<noteq> 0"
    and fit: "card (insert k (dom (nl_leases (nw_table s)))) \<le> length (nw_table s)"
  obtains (full) s' where "nw_acceptChild k dt rx lqi now s = (s', None)" "nw_ok s'" "nw_sameRole s s'"
      "nw_table s' = nw_table s" "nl_leases (nw_table s) k = None"
      "\<forall>y. aa_isInPool (nw_allocator s) y \<longrightarrow> y \<in> ran (nl_leases (nw_table s))"
  | (granted) s' i x where "nw_acceptChild k dt rx lqi now s = (s', Some i)" "nw_ok s'" "nw_sameRole s s'"
      "length (nw_table s') = length (nw_table s)" "nl_leases (nw_table s') = (nl_leases (nw_table s))(k := Some x)"
      "nl_leases (nw_table s) k = None \<or> nl_leases (nw_table s) k = Some x" "aa_isInPool (nw_allocator s) x"
      "i < length (nw_table s')" "nb_nwk (nw_table s' ! i) = x"
proof -
  from ok obtain es where es: "nw_neighbors s = Some (Some es)" "es \<noteq> []" "nl_ok (nw_allocator s) es"
    and a: "aa_ok (nw_allocator s)" by (auto simp: nw_ok_def)
  have t: "nw_table s = es" using es by (simp add: nw_table_def)
  have adm': "nw_isCoordinator s \<or> nw_isRouter s" "pj_isOpen (nw_permitJoin s) now" using adm by (simp_all add: nw_admits_def)
  show thesis
  proof (cases "slot_find nb_used nb_ieee es k")
    case None
    obtain a' x where al: "aa_allocate (Some es) (nw_allocator s) = (a', x)" by fastforce
    note c = allocator_complete_facts [OF a al]
    show thesis
    proof (cases "\<exists>y. aa_isInPool (nw_allocator s) y \<and> \<not> aa_allocatedChild (Some es) y")
      case True
      with c have x: "aa_isInPool (nw_allocator s) x" "\<not> aa_allocatedChild (Some es) x" by simp_all
      then have inv: "x \<noteq> 0xFFFF" by (auto simp: aa_isInPool_def aa_isUsable_def)
      obtain es' i where up: "nt_upsert (Some es) x k dt ZB_REL_CHILD (ni_depth (nw_info s) + 1) lqi rx False now = (Some es', Some i)"
        "nl_ok (nw_allocator s) es'" "length es' = length es" "nl_leases es' = (nl_leases es)(k := Some x)"
        "nb_nwk (es' ! i) = x" "i < length es"
        by (rule nl_upsert_new [OF es(3) None k fit [unfolded t] x]) (rule that, assumption+)
      let ?s = "s\<lparr>nw_allocator := a', nw_neighbors := Some (Some es')\<rparr>"
      have "nw_acceptChild k dt rx lqi now s = (?s, Some i)"
        using None al inv up(1) es(1) adm' by (auto simp: nw_acceptChild_def nt_findByIeee_def)
      moreover have "nw_ok ?s" using c up es(2) by (auto simp: nw_ok_def nl_ok_pool [of a' "nw_allocator s"])
      moreover have "nw_sameRole s ?s" using c by (simp add: nw_sameRole_def)
      moreover have "nw_table ?s = es'" by (simp add: nw_table_def)
      moreover have "nl_leases es k = None" using None by (simp add: nl_leases_def slot_get_def)
      ultimately show thesis using granted [of ?s i x] up x t by simp
    next
      case False
      with c have x: "x = 0xFFFF" "a' = nw_allocator s" by simp_all
      have "nw_acceptChild k dt rx lqi now s = (s, None)"
        using None al x es(1) adm' by (auto simp: nw_acceptChild_def nt_findByIeee_def)
      moreover have "y \<in> ran (nl_leases es)" if y: "aa_isInPool (nw_allocator s) y" for y
      proof -
        from False y obtain e where e: "e \<in> set es" "nb_used e" "nb_nwk e = y"
          using nl_allocatedChild [OF es(3)] by blast
        then have "slot_get nb_used nb_ieee es (nb_ieee e) = Some e"
          using es(3) by (auto simp: nl_ok_def slot_get_iff in_set_conv_nth)
        then show ?thesis using e(3) by (auto simp: nl_leases_def ran_def intro!: exI [of _ "nb_ieee e"])
      qed
      moreover have "nl_leases es k = None" using None by (simp add: nl_leases_def slot_get_def)
      ultimately show thesis using full [of s] ok t by (simp add: nw_sameRole_def)
    qed
  next
    case (Some i)
    let ?x = "nb_nwk (es ! i)"
    have i: "i < length es" "nb_used (es ! i)" using slot_find_bound [OF Some] slot_find_sat [OF Some] by simp_all
    then have x: "aa_isInPool (nw_allocator s) ?x" using es(3) nth_mem [OF i(1)] by (auto simp: nl_ok_def)
    then have inv: "?x \<noteq> 0xFFFF" by (auto simp: aa_isInPool_def aa_isUsable_def)
    obtain es' where up: "nt_upsert (Some es) ?x k dt ZB_REL_CHILD (ni_depth (nw_info s) + 1) lqi rx False now = (Some es', Some i)"
        "nl_ok (nw_allocator s) es'" "length es' = length es" "nl_leases es' = nl_leases es" "nb_nwk (es' ! i) = ?x"
      by (rule nl_upsert_known [OF es(3) Some]) (rule that, assumption+)
    let ?s = "s\<lparr>nw_neighbors := Some (Some es')\<rparr>"
    have "nw_acceptChild k dt rx lqi now s = (?s, Some i)"
      using Some inv up(1) es(1) adm' i by (auto simp: nw_acceptChild_def nt_findByIeee_def nt_slot_def)
    moreover have l: "nl_leases es k = Some ?x" using Some by (simp add: nl_leases_def slot_get_def)
    moreover have "nw_ok ?s" using a up es(2) by (auto simp: nw_ok_def)
    moreover have "(nl_leases es)(k := Some ?x) = nl_leases es" using l by auto
    ultimately show thesis using granted [of ?s i ?x] up x t i by (simp add: nw_sameRole_def nw_table_def)
  qed
qed

fun nw_associations ::
  "(u64 \<times> mac_assoc_request \<times> u8 \<times> u32) list \<Rightarrow> network \<Rightarrow> network \<times> assoc_decision list"
where
  "nw_associations [] s = (s, [])"
| "nw_associations ((ieee, request, lqi, now) # rs) s =
     (let (s, d) = nw_handleAssociationRequest ieee request lqi now s;
          (s, ds) = nw_associations rs s
      in (s, d # ds))"

lemma nw_association_step:
  assumes ok: "nw_ok s" and k: "k \<noteq> 0"
    and fit: "card (insert k (dom (nl_leases (nw_table s)))) \<le> length (nw_table s)"
    and h: "nw_handleAssociationRequest k request lqi now s = (s', d)"
  shows "nw_ok s' \<and> nw_sameRole s s' \<and> length (nw_table s') = length (nw_table s) \<and>
    (if ad_accepted d
     then nl_leases (nw_table s') = (nl_leases (nw_table s))(k := Some (ad_assignedAddress d)) \<and>
       (nl_leases (nw_table s) k = None \<or> nl_leases (nw_table s) k = Some (ad_assignedAddress d)) \<and>
       aa_isInPool (nw_allocator s) (ad_assignedAddress d) \<and> ad_status d = 0
     else nw_table s' = nw_table s \<and> ad_assignedAddress d = 0xFFFF \<and> ad_status d \<noteq> 0)"
proof (cases "ar_valid request \<and> ar_allocateAddress request \<and> nw_admits s now")
  case False
  then have "s' = s \<and> \<not> ad_accepted d \<and> ad_assignedAddress d = 0xFFFF \<and> ad_status d \<noteq> 0"
    using h by (auto simp: nw_handleAssociationRequest_def nw_admits_def Let_def split: if_splits)
  then show ?thesis using ok by (simp add: nw_sameRole_def)
next
  case True
  let ?dt = "if ar_fullFunctionDevice request then ZB_DEVICE_ROUTER else ZB_DEVICE_END_DEVICE"
  have n: "nw_neighbors s \<noteq> None" using ok by (auto simp: nw_ok_def)
  from True have adm: "nw_admits s now" by simp
  show ?thesis
  proof (cases rule: nw_accept_spec [OF ok adm k fit, of ?dt "ar_receiverOnWhenIdle request" lqi])
    case (1 s1)
    then show ?thesis using h n True by (auto simp: nw_handleAssociationRequest_def nw_admits_def Let_def)
  next
    case granted: (2 s1 i x)
    from granted(2) obtain es1 where es1: "nw_neighbors s1 = Some (Some es1)" by (auto simp: nw_ok_def)
    then have "nb_nwk (the (nt_slot (the (nw_neighbors s1)) i)) = x"
      using granted(8,9) by (simp add: nw_table_def nt_slot_def)
    then show ?thesis using h n True granted by (auto simp: nw_handleAssociationRequest_def nw_admits_def Let_def)
  qed
qed

lemma nw_associations_leases:
  assumes "nw_associations rs s = (s', ds)" "nw_ok s" "\<forall>r\<in>set rs. fst r \<noteq> 0"
    and "card (dom (nl_leases (nw_table s)) \<union> fst ` set rs) \<le> length (nw_table s)"
  shows "nw_ok s' \<and> length ds = length rs \<and> nl_leases (nw_table s) \<subseteq>\<^sub>m nl_leases (nw_table s') \<and>
    (\<forall>i<length rs. ad_accepted (ds ! i) \<longrightarrow>
       nl_leases (nw_table s') (fst (rs ! i)) = Some (ad_assignedAddress (ds ! i)) \<and>
       aa_isInPool (nw_allocator s) (ad_assignedAddress (ds ! i)))"
  using assms
proof (induction rs arbitrary: s ds)
  case Nil
  then show ?case by (simp add: map_le_def)
next
  case (Cons r rs)
  obtain k request lqi now where r: "r = (k, request, lqi, now)" by (metis surj_pair)
  obtain s1 d where h: "nw_handleAssociationRequest k request lqi now s = (s1, d)" by fastforce
  obtain ds1 where rest: "nw_associations rs s1 = (s', ds1)" and ds: "ds = d # ds1"
    using Cons.prems(1) h by (auto simp: r split: prod.splits)
  have fin: "finite (dom (nl_leases (nw_table s)))"
  proof -
    from Cons.prems(2) obtain es where "nw_table s = es" "slot_uniq nb_used nb_ieee es" by (auto simp: nw_ok_def nw_table_def nl_ok_def)
    then have "finite (dom (slot_get nb_used nb_ieee (nw_table s)))" by simp
    then show ?thesis by (rule finite_subset [rotated]) (auto simp: nl_leases_def)
  qed
  have "card (insert k (dom (nl_leases (nw_table s)))) \<le> card (dom (nl_leases (nw_table s)) \<union> fst ` set (r # rs))"
    using fin by (intro card_mono) (auto simp: r)
  then have fit: "card (insert k (dom (nl_leases (nw_table s)))) \<le> length (nw_table s)" using Cons.prems(4) by simp
  have "k \<noteq> 0" using Cons.prems(3) by (simp add: r)
  note step = nw_association_step [OF Cons.prems(2) this fit h]
  have sub: "dom (nl_leases (nw_table s1)) \<subseteq> insert k (dom (nl_leases (nw_table s)))"
    and le: "nl_leases (nw_table s) \<subseteq>\<^sub>m nl_leases (nw_table s1)"
    using step by (auto simp: map_le_def split: if_splits)
  have "card (dom (nl_leases (nw_table s1)) \<union> fst ` set rs) \<le> card (dom (nl_leases (nw_table s)) \<union> fst ` set (r # rs))"
    using fin sub by (intro card_mono) (auto simp: r)
  then have "card (dom (nl_leases (nw_table s1)) \<union> fst ` set rs) \<le> length (nw_table s1)" using Cons.prems(4) step by simp
  with Cons.IH [OF rest] step Cons.prems(3)
  have ih: "nw_ok s'" "length ds1 = length rs" "nl_leases (nw_table s1) \<subseteq>\<^sub>m nl_leases (nw_table s')"
    "\<forall>i<length rs. ad_accepted (ds1 ! i) \<longrightarrow>
       nl_leases (nw_table s') (fst (rs ! i)) = Some (ad_assignedAddress (ds1 ! i)) \<and>
       aa_isInPool (nw_allocator s1) (ad_assignedAddress (ds1 ! i))" by simp_all
  have pool: "aa_isInPool (nw_allocator s1) x = aa_isInPool (nw_allocator s) x" for x
    using step by (simp add: nw_sameRole_def aa_isInPool_def)
  have "nl_leases (nw_table s') k = Some (ad_assignedAddress d)" if "ad_accepted d"
    using step that ih(3) by (auto simp: map_le_def dom_def)
  then have "ad_accepted (ds ! i) \<longrightarrow> nl_leases (nw_table s') (fst ((r # rs) ! i)) = Some (ad_assignedAddress (ds ! i)) \<and>
       aa_isInPool (nw_allocator s) (ad_assignedAddress (ds ! i))" if "i < length (r # rs)" for i
    using that ih(4) step pool by (cases i) (auto simp: ds r)
  then show ?case using ih(1,2) map_le_trans [OF le ih(3)] ds by simp
qed

lemma nl_leases_entry:
  assumes "nl_leases es k = Some x"
  shows "\<exists>i<length es. nb_used (es ! i) \<and> nb_ieee (es ! i) = k \<and> nb_nwk (es ! i) = x"
proof -
  from assms obtain i where "slot_find nb_used nb_ieee es k = Some i" "nb_nwk (es ! i) = x"
    by (auto simp: nl_leases_def slot_get_def)
  then show ?thesis using slot_find_bound slot_find_sat by metis
qed

text \<open>C25: Associations give every device an address of its own, and keep it. On a coordinator or router
  with an empty neighbor table, whatever association requests of at most as many devices as the
  table has slots arrive (repeated, refused, across permit-join windows): two accepted requests got
  the same short address exactly when they came from the same device, and every address given out
  lies in the configured pool.\<close>

theorem association_addresses_unique:
  assumes "nw_associations rs (nw_attachNeighborTable (nt_begin (Some storage)) s) = (s', ds)"
    and "aa_ok (nw_allocator s)" "storage \<noteq> []" "\<forall>r\<in>set rs. fst r \<noteq> 0" "card (fst ` set rs) \<le> length storage"
  shows "\<forall>i<length rs. \<forall>j<length rs. ad_accepted (ds ! i) \<longrightarrow> ad_accepted (ds ! j) \<longrightarrow>
    (ad_assignedAddress (ds ! i) = ad_assignedAddress (ds ! j) \<longleftrightarrow> fst (rs ! i) = fst (rs ! j)) \<and>
    aa_isInPool (nw_allocator s) (ad_assignedAddress (ds ! i))"
proof -
  let ?s = "nw_attachNeighborTable (nt_begin (Some storage)) s"
  let ?es = "replicate (length storage) neighbor0"
  have t: "nw_table ?s = ?es"
    by (simp add: nw_table_def nw_attachNeighborTable_def nt_begin_def nt_clear_def map_replicate_const)
  have ok: "nw_ok ?s"
    using assms(2,3) by (auto simp: nw_ok_def nw_attachNeighborTable_def nt_begin_def nt_clear_def nl_ok_def
        map_replicate_const)
  have l: "nl_leases ?es = Map.empty" by (simp add: nl_leases_def fun_eq_iff)
  have fit: "card (dom (nl_leases (nw_table ?s)) \<union> fst ` set rs) \<le> length (nw_table ?s)"
    using assms(5) by (simp add: t l)
  note run = nw_associations_leases [OF assms(1) ok assms(4) fit]
  then obtain es where es: "nw_table s' = es" "slot_uniq nb_used nb_nwk es" by (auto simp: nw_ok_def nw_table_def nl_ok_def)
  have inj: "k = k'" if "nl_leases es k = Some x" "nl_leases es k' = Some x" for k k' x
    using nl_leases_entry [OF that(1)] nl_leases_entry [OF that(2)] es(2) unfolding slot_uniq_iff by metis
  have "nw_allocator ?s = nw_allocator s" by (simp add: nw_attachNeighborTable_def)
  then have g: "nl_leases es (fst (rs ! i)) = Some (ad_assignedAddress (ds ! i))"
    "aa_isInPool (nw_allocator s) (ad_assignedAddress (ds ! i))" if "i < length rs" "ad_accepted (ds ! i)" for i
    using run es(1) that by simp_all
  show ?thesis using g inj by (metis option.inject)
qed

definition coordinator_example :: network where
  "coordinator_example = nw_permitJoining 255 0 (nw_configureAddressPool 5 6 (nw_beginCoordinator 0x1AAA 9 11 0 nw_init))"

definition request_example :: mac_assoc_request where
  "request_example = \<lparr>ar_valid = True, ar_capability = 0x8E, ar_allocateAddress = True,
     ar_receiverOnWhenIdle = True, ar_fullFunctionDevice = True\<rparr>"

lemmas nw_eval = request_example_def coordinator_example_def nw_permitJoining_def pj_openWindow_def
  nw_beginCoordinator_def nw_configureAddressPool_def nw_attachNeighborTable_def aa_begin_def aa_isUsable_def
  nt_begin_def nt_clear_def neighbor0_def nw_init_def nw_leave_def network_info0_def nw_clearCandidates_def

lemma aa_scan_num:
  "aa_scan a t (numeral v) c = (if aa_isInPool a c \<and> \<not> aa_allocatedChild t c then Some c
     else aa_scan a t (pred_numeral v) (aa_advance a c))"
  by (simp add: numeral_eq_Suc)

lemma association_addresses_unique_witness:
  "\<exists>s' ds. nw_associations
     [(101, request_example, 90, 1), (102, request_example, 90, 2), (101, request_example, 90, 3)]
     (nw_attachNeighborTable (nt_begin (Some [neighbor0, neighbor0])) coordinator_example) = (s', ds) \<and>
   map ad_accepted ds = [True, True, True] \<and> ad_assignedAddress (ds ! 0) = ad_assignedAddress (ds ! 2) \<and>
   ad_assignedAddress (ds ! 0) \<noteq> ad_assignedAddress (ds ! 1)"
proof -
  let ?rs = "[(101, request_example, 90, 1), (102, request_example, 90, 2), (101, request_example, 90, 3)]
    :: (u64 \<times> mac_assoc_request \<times> u8 \<times> u32) list"
  let ?s = "nw_attachNeighborTable (nt_begin (Some [neighbor0, neighbor0])) coordinator_example"
  obtain s' ds where run: "nw_associations ?rs ?s = (s', ds)" by fastforce
  have "map ad_accepted (snd (nw_associations ?rs ?s)) = [True, True, True]"
    by (simp add: nw_eval aa_scan_num Let_def nw_handleAssociationRequest_def nw_isCoordinator_def
      pj_isOpen_def nw_acceptChild_def aa_allocate_def aa_isInPool_def nt_findByIeee_def slot_find_def
      aa_allocatedChild_def nt_findByNwk_def nt_upsert_def nt_victim_def nt_slot_def nt_firstFree_def
      aa_advance_def nt_fill_def)
  then have acc: "map ad_accepted ds = [True, True, True]" using run by simp
  obtain a b c where ds: "ds = [a, b, c]" using acc by (auto simp: map_eq_Cons_conv)
  have ok: "aa_ok (nw_allocator coordinator_example)"
    by (simp add: coordinator_example_def nw_permitJoining_def nw_configureAddressPool_def aa_begin_ok)
  have "fst ` set ?rs = {101, 102}" by auto
  then have fit: "card (fst ` set ?rs) \<le> length [neighbor0, neighbor0]" by (simp only:) simp
  have nz: "\<forall>r\<in>set ?rs. fst r \<noteq> 0" by simp
  note u = association_addresses_unique [OF run ok _ nz fit, simplified]
  have "ad_assignedAddress (ds ! 0) = ad_assignedAddress (ds ! 2)"
    using u [rule_format, of 0 2] acc ds by simp
  moreover have "ad_assignedAddress (ds ! 0) \<noteq> ad_assignedAddress (ds ! 1)"
    using u [rule_format, of 0 1] acc ds by simp
  ultimately show ?thesis using run acc by (intro exI conjI)
qed

text \<open>Finding: with more devices than slots the bound is needed. The table drops the device seen least recently when it is
  full, and with the entry its lease: the address it still uses is given to another device.\<close>

lemma association_reassigns_when_full:
  "map (\<lambda>d. (ad_accepted d, ad_assignedAddress d)) (snd (nw_associations
     [(101, request_example, 90, 1), (102, request_example, 90, 2), (103, request_example, 90, 3)]
     (nw_attachNeighborTable (nt_begin (Some [neighbor0])) coordinator_example))) = [(True, 5), (True, 6), (True, 5)]"
  by (simp add: nw_eval aa_scan_num Let_def nw_handleAssociationRequest_def nw_isCoordinator_def
    pj_isOpen_def nw_acceptChild_def aa_allocate_def aa_isInPool_def nt_findByIeee_def slot_find_def
    aa_allocatedChild_def nt_findByNwk_def nt_upsert_def nt_victim_def nt_slot_def nt_firstFree_def
    aa_advance_def nt_fill_def nt_leastRecentlySeen_def best_idx_def)

text \<open>C9: The association handshake, frame by frame. A device in the joining state builds an association
  request; a coordinator or router with an open permit-join window whose table holds only children
  and has room, and whose pool has a free address, parses it, grants a lease and answers; the device
  parses the answer and completes the join. It then has exactly the address that the parent's table
  now leases to its IEEE address, and the depth below the parent.\<close>

theorem association_handshake:
  assumes par: "nw_ok par" "nw_admits par now" "ieee \<noteq> 0" "nl_leases (nw_table par) ieee = None"
    and room: "card (insert ieee (dom (nl_leases (nw_table par)))) \<le> length (nw_table par)"
      "\<exists>y. aa_isInPool (nw_allocator par) y \<and> y \<notin> ran (nl_leases (nw_table par))"
    and cap: "cap AND 0x80 \<noteq> 0" and dev: "nw_isJoining dev"
  shows "\<exists>req fr r par' d resp fr' r' dev'.
    mac_buildAssociationRequest (Some 127) pan (ni_nwkAddress (nw_info par)) ieee seq cap True = Some req \<and>
    mac_parseCommandFrame (Some req) = Some (True, fr) \<and> mac_parseAssociationRequest fr = Some (True, r) \<and>
    nw_handleAssociationRequest (mc_srcIeee fr) r lqi now par = (par', d) \<and>
    mac_buildAssociationResponse (Some 127) (mc_dstPanId fr) (mc_srcIeee fr) (mc_dstShort fr) seq'
      (ad_assignedAddress d) (ad_status d) True = Some resp \<and>
    mac_parseCommandFrame (Some resp) = Some (True, fr') \<and> mc_dstIeee fr' = ieee \<and>
    mac_parseAssociationResponse fr' = Some (True, r') \<and> as_status r' = MAC_ASSOC_SUCCESS \<and>
    nw_completeJoin (as_shortAddress r') (mc_srcShort fr') (ni_depth (nw_info par)) dev = (dev', True) \<and>
    ni_joined (nw_info dev') \<and> ni_parentAddress (nw_info dev') = ni_nwkAddress (nw_info par) \<and>
    ni_depth (nw_info dev') = ni_depth (nw_info par) + 1 \<and>
    nl_leases (nw_table par') = (nl_leases (nw_table par))(ieee := Some (ni_nwkAddress (nw_info dev')))"
proof -
  let ?r = "\<lparr>ar_valid = True, ar_capability = cap, ar_allocateAddress = (cap AND 0x80 \<noteq> 0),
       ar_receiverOnWhenIdle = (cap AND 0x08 \<noteq> 0), ar_fullFunctionDevice = (cap AND 0x02 \<noteq> 0)\<rparr>"
  obtain req where req: "mac_buildAssociationRequest (Some 127) pan (ni_nwkAddress (nw_info par)) ieee seq cap True = Some req"
    by (simp add: mac_buildAssociationRequest_def)
  obtain fr where fr: "mac_parseCommandFrame (Some req) = Some (True, fr)" "mc_srcIeee fr = ieee" "mc_dstPanId fr = pan"
    "mc_dstShort fr = ni_nwkAddress (nw_info par)" "mac_parseAssociationRequest fr = Some (True, ?r)"
    using mac_assoc_request_heard [OF req] by blast
  obtain par' d where h: "nw_handleAssociationRequest ieee ?r lqi now par = (par', d)" by fastforce
  note step = nw_association_step [OF par(1,3) room(1) h]
  have acc: "ad_accepted d"
  proof (rule ccontr)
    assume n: "\<not> ad_accepted d"
    let ?dt = "if ar_fullFunctionDevice ?r then ZB_DEVICE_ROUTER else ZB_DEVICE_END_DEVICE"
    have nn: "nw_neighbors par \<noteq> None" using par(1) by (auto simp: nw_ok_def)
    show False
    proof (cases rule: nw_accept_spec [OF par(1,2,3) room(1), of ?dt "ar_receiverOnWhenIdle ?r" lqi])
      case (1 s1)
      then show False using room(2) by blast
    next
      case (2 s1 i x)
      then show False using h n par(2) nn cap by (auto simp: nw_handleAssociationRequest_def nw_admits_def Let_def)
    qed
  qed
  let ?x = "ad_assignedAddress d"
  have x: "aa_isUsable ?x" "ad_status d = 0" using step acc by (simp_all add: aa_isInPool_def)
  obtain resp where resp: "mac_buildAssociationResponse (Some 127) pan ieee (ni_nwkAddress (nw_info par)) seq' ?x (ad_status d) True = Some resp"
    by (simp add: mac_buildAssociationResponse_def)
  obtain fr' where fr': "mac_parseCommandFrame (Some resp) = Some (True, fr')" "mc_dstIeee fr' = ieee"
    "mc_srcShort fr' = ni_nwkAddress (nw_info par)" "mac_parseAssociationResponse fr' =
      Some (True, \<lparr>as_valid = True, as_shortAddress = ?x, as_status = ad_status d\<rparr>)"
    using mac_assoc_response_heard [OF resp] by blast
  obtain dev' where dev': "nw_completeJoin ?x (ni_nwkAddress (nw_info par)) (ni_depth (nw_info par)) dev = (dev', True)"
    "ni_joined (nw_info dev')" "ni_nwkAddress (nw_info dev') = ?x" "ni_parentAddress (nw_info dev') = ni_nwkAddress (nw_info par)"
    "ni_depth (nw_info dev') = ni_depth (nw_info par) + 1"
    using dev x(1) by (simp add: nw_completeJoin_def)
  show ?thesis
    by (rule exI [of _ req], rule exI [of _ fr], rule exI [of _ ?r], rule exI [of _ par'], rule exI [of _ d],
        rule exI [of _ resp], rule exI [of _ fr'],
        rule exI [of _ "\<lparr>as_valid = True, as_shortAddress = ?x, as_status = ad_status d\<rparr>"], rule exI [of _ dev'])
      (use req fr h resp fr' dev' x(2) step acc in simp)
qed

lemma association_handshake_witness:
  "\<exists>req (dev' :: network). mac_buildAssociationRequest (Some 127) 0x1AAA 0 101 1 0x8E True = Some req \<and>
     ni_joined (nw_info dev') \<and> ni_parentAddress (nw_info dev') = 0 \<and> ni_depth (nw_info dev') = 0 + 1"
proof -
  let ?par = "nw_attachNeighborTable (nt_begin (Some [neighbor0, neighbor0])) coordinator_example"
  let ?dev = "nw_beginJoining 1 0x1AAA 9 11 0 0 nw_init"
  have ok: "nw_ok ?par"
    by (simp add: nw_ok_def nw_attachNeighborTable_def nt_begin_def nt_clear_def nl_ok_def slot_uniq_def
      coordinator_example_def nw_permitJoining_def nw_configureAddressPool_def aa_begin_ok neighbor0_def)
  have l: "nl_leases (nw_table ?par) = Map.empty"
    by (simp add: nw_table_def nw_attachNeighborTable_def nt_begin_def nt_clear_def nl_leases_def fun_eq_iff
      slot_get_def slot_find_def neighbor0_def)
  have t: "length (nw_table ?par) = 2" by (simp add: nw_table_def nw_attachNeighborTable_def nt_begin_def nt_clear_def)
  have i: "nw_info ?par = nw_info coordinator_example" "nw_allocator ?par = aa_begin 5 6"
    by (simp_all add: nw_attachNeighborTable_def coordinator_example_def nw_permitJoining_def nw_configureAddressPool_def
      nw_beginCoordinator_def)
  have adm: "nw_admits ?par 3"
    by (simp add: nw_admits_def nw_isCoordinator_def nw_eval pj_isOpen_def)
  have pool: "\<exists>y. aa_isInPool (nw_allocator ?par) y \<and> y \<notin> ran (nl_leases (nw_table ?par))"
    unfolding i l by (rule exI [of _ 5]) (simp add: aa_isInPool_def aa_begin_def aa_isUsable_def)
  have dev: "nw_isJoining ?dev" by (simp add: nw_isJoining_def nw_beginJoining_def)
  have n: "ni_nwkAddress (nw_info ?par) = 0" "ni_depth (nw_info ?par) = 0" unfolding i by (simp_all add: nw_eval)
  have fit: "card (insert 101 (dom (nl_leases (nw_table ?par)))) \<le> length (nw_table ?par)" using l t by simp
  have "nl_leases (nw_table ?par) 101 = None" "(101 :: u64) \<noteq> 0" "(0x8E :: u8) AND 0x80 \<noteq> 0" by (simp_all add: l)
  note h = association_handshake [OF ok adm this(2,1) fit pool this(3) dev, where pan = "0x1AAA" and seq = 1 and lqi = 90
    and seq' = 2, unfolded n]
  show ?thesis using h by (elim exE conjE) (intro exI conjI, assumption+)
qed

end
