(* ===== verification/ZbNetworkLife.thy ===== *)
theory ZbNetworkLife
  imports ZbNetworkFacts
begin

text \<open>
  The life of a network object over time: the permit-join window against the millisecond clock, and
  the states the operations of \<open>src/src/ZigbeeNetwork.cpp\<close> can reach in any order, as a step relation
  whose rules carry what the callers of the code respect (roles and assigned addresses).
\<close>

section \<open>Permit-join window\<close>

lemma unat_u32_of_u8: "unat (ucast (d :: u8) :: u32) = unat d"
proof -
  have "unat d < 4294967296" using u8_unat_lt [of d] by linarith
  then show ?thesis by (simp add: unsigned_ucast_eq take_bit_eq_mod)
qed

lemma pj_limit: "unat (ucast (d :: u8) * 1000 :: u32) = unat d * 1000"
proof -
  have "unat d * 1000 < 4294967296" using u8_unat_lt [of d] by linarith
  then show ?thesis by (simp add: unat_word_ariths unat_u32_of_u8)
qed

lemma pj_close_not_open: "\<not> pj_isOpen (pj_close p) now"
  by (simp add: pj_isOpen_def pj_close_def)

lemma pj_open_after:
  assumes "t < 2 ^ 32" "d \<noteq> 0" "d \<noteq> 255"
  shows "pj_isOpen (pj_openWindow d now p) (now + of_nat t) \<longleftrightarrow> t < 1000 * unat d"
proof -
  have t: "unat (of_nat t :: u32) = t" using assms(1) by (simp add: unat_of_nat)
  then show ?thesis using assms by (simp add: pj_isOpen_def pj_openWindow_def word_less_nat_alt pj_limit mult.commute)
qed

lemma pj_remaining_after:
  assumes "t < 2 ^ 32" "d \<noteq> 0" "d \<noteq> 255"
  shows "unat (pj_remainingSeconds (pj_openWindow d now p) (now + of_nat t)) = unat d - t div 1000"
proof (cases "t < 1000 * unat d")
  case False
  then have "unat d \<le> t div 1000" by (simp add: less_eq_div_iff_mult_less_eq mult.commute)
  then show ?thesis using False by (simp add: pj_remainingSeconds_def pj_open_after [OF assms])
next
  case True
  have t: "unat (of_nat t :: u32) = t" using assms(1) by (simp add: unat_of_nat)
  then have e: "unat ((of_nat t :: u32) div 1000) = t div 1000" by (simp add: unat_div_distrib)
  have d: "unat (ucast d :: u32) = unat d" by (rule unat_u32_of_u8)
  have lt: "t div 1000 < unat d" using True by (simp add: div_less_iff_less_mult mult.commute)
  have b: "unat d - t div 1000 < 256" using u8_unat_lt [of d] by linarith
  have "unat (ucast d - (of_nat t :: u32) div 1000) = unat d - t div 1000"
    using lt by (subst unat_sub) (simp_all add: word_le_nat_alt d e)
  then have "unat (ucast (ucast d - (of_nat t :: u32) div 1000) :: u8) = unat d - t div 1000"
    using b by (simp add: unsigned_ucast_eq take_bit_eq_mod)
  moreover have "pj_isOpen (pj_openWindow d now p) (now + of_nat t)" using True pj_open_after [OF assms] by simp
  moreover have "pj_durationSeconds (pj_openWindow d now p) = d" "pj_openedMs (pj_openWindow d now p) = now"
    by (simp_all add: pj_openWindow_def)
  ultimately show ?thesis using lt assms(3) d e by (simp add: pj_remainingSeconds_def word_le_nat_alt not_le)
qed

text \<open>The permit-join window. Opened for d seconds (0 < d < 255) it admits joiners exactly for d seconds,
  also across the wrap of the millisecond clock, and the seconds it reports as remaining count down
  by the whole second and are zero exactly when it is shut; 255 leaves it open until it is closed,
  and 0 shuts it.\<close>

theorem permit_join_window:
  assumes t: "t < 2 ^ 32"
  shows "unat (pj_remainingSeconds (pj_openWindow d now p) (now + of_nat t)) =
      (if d = 255 then 255 else unat d - t div 1000) \<and>
    (pj_isOpen (pj_openWindow d now p) (now + of_nat t) \<longleftrightarrow> d = 255 \<or> t < 1000 * unat d) \<and>
    (pj_isOpen (pj_openWindow d now p) (now + of_nat t) \<longleftrightarrow>
       pj_remainingSeconds (pj_openWindow d now p) (now + of_nat t) \<noteq> 0) \<and>
    \<not> pj_isOpen (pj_close p) (now + of_nat t)"
proof -
  have lt: "t div 1000 < unat d \<longleftrightarrow> t < 1000 * unat d" for d :: u8
    by (simp add: div_less_iff_less_mult mult.commute)
  consider "d = 0" | "d = 255" | "d \<noteq> 0" "d \<noteq> 255" by blast
  then show ?thesis
  proof cases
    case 3
    have "pj_remainingSeconds (pj_openWindow d now p) (now + of_nat t) \<noteq> 0 \<longleftrightarrow> 0 < unat d - t div 1000"
      using pj_remaining_after [OF t 3, of now p] by (metis neq0_conv unat_eq_zero)
    then show ?thesis using 3 lt [of d] pj_open_after [OF t 3] pj_remaining_after [OF t 3]
      by (simp add: pj_close_not_open)
  qed (simp_all add: pj_close_not_open, simp_all add: pj_isOpen_def pj_remainingSeconds_def pj_openWindow_def)
qed

lemma permit_join_window_witness:
  "pj_isOpen (pj_openWindow 60 (0xFFFFFF00 :: u32) pj_init) (0xFFFFFF00 + 59999) \<and>
   \<not> pj_isOpen (pj_openWindow 60 (0xFFFFFF00 :: u32) pj_init) (0xFFFFFF00 + 60000)"
  using permit_join_window [of 59999 60 "0xFFFFFF00" pj_init] permit_join_window [of 60000 60 "0xFFFFFF00" pj_init]
  by simp

section \<open>Life cycle\<close>

text \<open>
  One operation on the network object, in any order. The device types are the two that can join; an
  assigned address is a usable one (\<open>completeJoin\<close> checks that itself), the caller of
  \<open>beginJoiningCandidate\<close> joins the candidate that \<open>selectParent\<close> gave it.
\<close>

abbreviation (input) "zb_role \<equiv> \<lambda>d. d = ZB_DEVICE_ROUTER \<or> d = ZB_DEVICE_END_DEVICE"

inductive nw_step :: "network \<Rightarrow> network \<Rightarrow> bool" where
  form: "nw_step s (nw_beginCoordinator pan epan ch upd s)"
| restore: "zb_role dt \<Longrightarrow> aa_isUsable addr \<Longrightarrow> nw_step s (nw_beginJoinedDevice dt pan epan ch addr par dep upd s)"
| joining: "zb_role dt \<Longrightarrow> nw_step s (nw_beginJoining dt pan epan ch par upd s)"
| complete: "nw_step s (fst (nw_completeJoin addr par dep s))"
| leave: "nw_step s (nw_leave s)"
| rejoin: "nw_step s (fst (nw_rejoinParent s))"
| scan: "zb_role dt \<Longrightarrow> nw_step s (nw_beginScan dt s)"
| beacon: "nw_step s (fst (nw_noteBeacon ch beacon payload rssi lqi epan s))"
| choose: "nw_selectParent s = Some i \<Longrightarrow> nw_step s (fst (nw_beginJoiningCandidate (nw_candidates s ! i) s))"
| attach: "nw_step s (nw_attachNeighborTable t s)"
| pool: "nw_step s (nw_configureAddressPool a b s)"
| associate: "nw_step s (fst (nw_handleAssociationRequest ieee request lqi now s))"
| parent: "nw_step s (fst (nw_noteParent addr ieee dt dep lqi permit now s))"
| status: "nw_handleLinkStatus sender command lqi now s = Some (s', ok) \<Longrightarrow> nw_step s s'"
| age: "nw_step s (fst (nw_ageNeighbors now s))"
| counter: "nw_step s (fst (nw_nextFrameCounter s))"
| permit: "nw_step s (nw_permitJoining d now s)"
| shut: "nw_step s (nw_closeJoining s)"
| attempt: "nw_step s (nw_noteJoinAttempt s)"
| attempts: "nw_step s (nw_resetJoinAttempts s)"
| sent: "nw_step s (nw_markLinkStatusSent now s)"

text \<open>What the fields of \<open>info()\<close> promise each other.\<close>

definition ni_ok :: "network_info \<Rightarrow> bool" where
  "ni_ok i \<longleftrightarrow>
     (if ni_state i = ZB_NWK_STATE_COORDINATOR then
        ni_joined i \<and> ni_deviceType i = ZB_DEVICE_COORDINATOR \<and> ni_nwkAddress i = ZB_NWK_ADDR_COORDINATOR \<and> ni_depth i = 0
      else if ni_state i = ZB_NWK_STATE_ROUTER \<or> ni_state i = ZB_NWK_STATE_END_DEVICE then
        ni_joined i \<and> aa_isUsable (ni_nwkAddress i) \<and>
        ni_deviceType i = (if ni_state i = ZB_NWK_STATE_ROUTER then ZB_DEVICE_ROUTER else ZB_DEVICE_END_DEVICE)
      else
        \<not> ni_joined i \<and> ni_nwkAddress i = ZB_NWK_ADDR_INVALID \<and> ni_depth i = 0xFF \<and>
        (if ni_state i = ZB_NWK_STATE_IDLE then ni_deviceType i = ZB_DEVICE_UNKNOWN \<and> ni_parentAddress i = ZB_NWK_ADDR_INVALID
         else (ni_state i = ZB_NWK_STATE_JOINING \<or> ni_state i = ZB_NWK_STATE_SCANNING) \<and> zb_role (ni_deviceType i)))"

definition ca_key :: "candidate \<Rightarrow> u8 \<times> u16 \<times> u16" where
  "ca_key c = (ca_channel c, ca_panId c, ca_shortAddress c)"

interpretation cas: slot_table ca_used ca_key candidate0
  by unfold_locales (simp add: candidate0_def)

definition nw_life :: "network \<Rightarrow> bool" where
  "nw_life s \<longleftrightarrow> ni_ok (nw_info s) \<and> length (nw_candidates s) = kMaxParentCandidates \<and>
     slot_uniq ca_used ca_key (nw_candidates s) \<and>
     (zb_role (nw_scanDeviceType s) \<or> nw_scanDeviceType s = ZB_DEVICE_UNKNOWN)"

text \<open>\<open>noteBeacon\<close> either drops the sighting or puts it into the slot of its sender, a free one or the weakest.\<close>

abbreviation (input) "ca_pick cs k \<equiv> slot_pick ca_used ca_key (\<lambda>c w. ca_lqi c < ca_lqi w) cs k"

lemma ca_fill_simps [simp]:
  "ca_used (ca_fill ch b p r l)" "ca_lqi (ca_fill ch b p r l) = l"
  "ca_key (ca_fill ch b p r l) = (ch, mb_srcPanId b, mb_srcShort b)"
  by (simp_all add: ca_fill_def ca_key_def)

lemma ca_find:
  "find_idx (\<lambda>c. ca_used c \<and> ca_channel c = ch \<and> ca_panId c = pan \<and> ca_shortAddress c = addr) cs =
   slot_find ca_used ca_key cs (ch, pan, addr)"
  by (simp add: slot_find_def ca_key_def)

lemma nw_note_cases:
  obtains (ignored) ok where "nw_noteBeacon ch b p r l epan s = (s, ok)"
  | (stored) i where "ca_pick (nw_candidates s) (ca_key (ca_fill ch b p r l)) = Some i"
      "nw_noteBeacon ch b p r l epan s =
        (s\<lparr>nw_candidates := (nw_candidates s)[i := ca_fill ch b p r l]\<rparr>, True)"
proof -
  let ?cs = "nw_candidates s" and ?k = "ca_key (ca_fill ch b p r l)"
  have pick: "slot_find ca_used ca_key ?cs ?k = None \<Longrightarrow>
      or_else (find_idx (\<lambda>c. \<not> ca_used c) ?cs) (best_idx (\<lambda>_. True) (\<lambda>c w. ca_lqi c < ca_lqi w) ?cs) = ca_pick ?cs ?k"
    by (rule slot_pick_oldest)
  show thesis
  proof (cases "\<exists>ok. nw_noteBeacon ch b p r l epan s = (s, ok)")
    case False
    then have "\<exists>i. ca_pick ?cs ?k = Some i \<and> nw_noteBeacon ch b p r l epan s =
        (s\<lparr>nw_candidates := ?cs[i := ca_fill ch b p r l]\<rparr>, True)"
      using pick by (auto simp: nw_noteBeacon_def ca_find Let_def slot_pick_def split: option.splits if_splits)
    with stored show thesis by blast
  qed (use ignored in blast)
qed

lemma nw_note_keeps:
  assumes "slot_uniq ca_used ca_key (nw_candidates s)"
  shows "slot_uniq ca_used ca_key (nw_candidates (fst (nw_noteBeacon ch b p r l epan s))) \<and>
    length (nw_candidates (fst (nw_noteBeacon ch b p r l epan s))) = length (nw_candidates s) \<and>
    nw_info (fst (nw_noteBeacon ch b p r l epan s)) = nw_info s \<and>
    nw_scanDeviceType (fst (nw_noteBeacon ch b p r l epan s)) = nw_scanDeviceType s"
proof (cases rule: nw_note_cases [of ch b p r l epan s])
  case (stored i)
  then show ?thesis using cas.put_pick(1) [OF assms stored(1)] by (simp del: ca_fill_simps(3))
qed (use assms in simp)

text \<open>The operations that leave everything the invariant speaks of.\<close>

lemma nw_accept_same:
  "nw_info (fst (nw_acceptChild k dt rx lqi now s)) = nw_info s \<and>
   nw_candidates (fst (nw_acceptChild k dt rx lqi now s)) = nw_candidates s \<and>
   nw_scanDeviceType (fst (nw_acceptChild k dt rx lqi now s)) = nw_scanDeviceType s"
  by (auto simp: nw_acceptChild_def Let_def split: option.split prod.split)

lemma nw_associate_same:
  "nw_info (fst (nw_handleAssociationRequest k q lqi now s)) = nw_info s \<and>
   nw_candidates (fst (nw_handleAssociationRequest k q lqi now s)) = nw_candidates s \<and>
   nw_scanDeviceType (fst (nw_handleAssociationRequest k q lqi now s)) = nw_scanDeviceType s"
  using nw_accept_same
  by (auto simp: nw_handleAssociationRequest_def Let_def split: option.split prod.split) (metis fst_conv)+

lemma nw_status_same:
  "nw_handleLinkStatus sender command lqi now s = Some (s', ok) \<Longrightarrow>
   nw_info s' = nw_info s \<and> nw_candidates s' = nw_candidates s \<and> nw_scanDeviceType s' = nw_scanDeviceType s"
  by (auto simp: nw_handleLinkStatus_def Let_def split: option.splits prod.splits if_splits)

lemma nw_age_same:
  "nw_info (fst (nw_ageNeighbors now s)) = nw_info s \<and> nw_candidates (fst (nw_ageNeighbors now s)) = nw_candidates s \<and>
   nw_scanDeviceType (fst (nw_ageNeighbors now s)) = nw_scanDeviceType s"
  by (auto simp: nw_ageNeighbors_def Let_def split: option.split prod.split)

lemma ni_ok_parent: "ni_joined i \<Longrightarrow> ni_ok i \<Longrightarrow> ni_ok (i\<lparr>ni_parentAddress := a\<rparr>)"
  by (simp add: ni_ok_def split: if_splits)

lemma nw_parent_same:
  "ni_ok (nw_info s) \<Longrightarrow> ni_ok (nw_info (fst (nw_noteParent addr ieee dt dep lqi permit now s))) \<and>
   nw_candidates (fst (nw_noteParent addr ieee dt dep lqi permit now s)) = nw_candidates s \<and>
   nw_scanDeviceType (fst (nw_noteParent addr ieee dt dep lqi permit now s)) = nw_scanDeviceType s"
  by (simp add: nw_noteParent_def ni_ok_parent split: option.split prod.split)

lemma ni_ok_complete: "ni_ok (nw_info s) \<Longrightarrow> ni_ok (nw_info (fst (nw_completeJoin addr par dep s)))"
  by (auto simp: nw_completeJoin_def nw_isJoining_def ni_ok_def)

lemma ni_ok_rejoin: "ni_ok (nw_info s) \<Longrightarrow> ni_ok (nw_info (fst (nw_rejoinParent s)))"
  by (auto simp: nw_rejoinParent_def Let_def ni_ok_def split: if_splits)

lemmas nw_setup_defs = nw_beginCoordinator_def nw_beginJoinedDevice_def nw_beginJoining_def nw_leave_def
  nw_beginScan_def nw_clearCandidates_def network_info0_def

lemma nw_chosen_role:
  assumes "nw_selectParent s = Some i"
  shows "zb_role (nw_scanDeviceType s)"
proof -
  from assms have "nw_candidateUsableFor (nw_candidates s ! i) (nw_scanDeviceType s)"
    unfolding nw_selectParent_def by (rule best_idx_ok)
  then show ?thesis by (auto simp: nw_candidateUsableFor_def split: if_splits)
qed

lemma nw_step_life: "nw_step s s' \<Longrightarrow> nw_life s \<Longrightarrow> nw_life s'"
proof (induction rule: nw_step.induct)
  case (choose s i)
  then show ?case using nw_chosen_role [OF choose(1)]
    by (auto simp: nw_life_def nw_beginJoiningCandidate_def nw_beginJoining_def ni_ok_def network_info0_def)
next
  case (beacon s ch b p r l epan)
  then show ?case using nw_note_keeps by (simp add: nw_life_def)
next
  case (associate s k q l now)
  then show ?case using nw_associate_same by (simp add: nw_life_def)
next
  case (status sender command lqi now s s' ok)
  then show ?case using nw_status_same [OF status(1)] by (simp add: nw_life_def)
next
  case (age s now)
  then show ?case using nw_age_same by (simp add: nw_life_def)
next
  case (parent s addr ieee dt dep lqi permit now)
  then show ?case using nw_parent_same by (simp add: nw_life_def)
next
  case (complete s addr par dep)
  then show ?case using ni_ok_complete [of s addr par dep] by (simp add: nw_life_def nw_completeJoin_def)
next
  case (rejoin s)
  then show ?case using ni_ok_rejoin [of s] by (simp add: nw_life_def nw_rejoinParent_def Let_def)
next
  case (counter s)
  then show ?case by (simp add: nw_life_def nw_nextFrameCounter_def Let_def ni_ok_def)
qed (auto simp: nw_life_def nw_setup_defs ni_ok_def nw_attachNeighborTable_def nw_configureAddressPool_def
  nw_permitJoining_def nw_closeJoining_def nw_noteJoinAttempt_def nw_resetJoinAttempts_def nw_markLinkStatusSent_def)

lemma nw_reach_life: "nw_step\<^sup>*\<^sup>* nw_init s \<Longrightarrow> nw_life s"
proof (induction rule: rtranclp_induct)
  case base
  have "slot_uniq ca_used ca_key (replicate kMaxParentCandidates candidate0)" by (rule cas.uniq_blank)
  then show ?case by (simp add: nw_life_def nw_init_def nw_setup_defs ni_ok_def)
qed (use nw_step_life in blast)

lemma nw_associate_role:
  assumes "ad_accepted (snd (nw_handleAssociationRequest k q lqi now s))"
  shows "nw_isCoordinator s \<or> nw_isRouter s"
  using assms by (auto simp: nw_handleAssociationRequest_def Let_def split: if_splits)

text \<open>C32: The life cycle of a node. Whatever operations were called in whatever order: the state byte, the
  joined flag and the device type tell the same story; a joined node has an address, 0 exactly for
  the coordinator and a usable one otherwise, and a node that is not joined has none; the scan keeps
  at most eight candidates, one per sender; and only a coordinator or a router admits a child.\<close>

theorem network_life_cycle:
  assumes "nw_step\<^sup>*\<^sup>* nw_init s"
  shows "(nw_isCoordinator s \<longleftrightarrow> ni_state (nw_info s) = ZB_NWK_STATE_COORDINATOR) \<and>
    (nw_isRouter s \<longleftrightarrow> ni_state (nw_info s) = ZB_NWK_STATE_ROUTER) \<and>
    (nw_isEndDevice s \<longleftrightarrow> ni_state (nw_info s) = ZB_NWK_STATE_END_DEVICE) \<and>
    (ni_joined (nw_info s) \<longleftrightarrow> nw_isCoordinator s \<or> nw_isRouter s \<or> nw_isEndDevice s) \<and>
    (if ni_joined (nw_info s)
     then (ni_nwkAddress (nw_info s) = ZB_NWK_ADDR_COORDINATOR \<longleftrightarrow> nw_isCoordinator s) \<and>
       (nw_isCoordinator s \<or> aa_isUsable (ni_nwkAddress (nw_info s)))
     else ni_nwkAddress (nw_info s) = ZB_NWK_ADDR_INVALID) \<and>
    nw_candidateCount s \<le> 8 \<and> slot_uniq ca_used ca_key (nw_candidates s) \<and>
    (ad_accepted (snd (nw_handleAssociationRequest k q lqi now s)) \<longrightarrow>
       ni_state (nw_info s) = ZB_NWK_STATE_COORDINATOR \<or> ni_state (nw_info s) = ZB_NWK_STATE_ROUTER)"
proof -
  have l: "ni_ok (nw_info s)" "length (nw_candidates s) = 8" "slot_uniq ca_used ca_key (nw_candidates s)"
    using nw_reach_life [OF assms] by (simp_all add: nw_life_def kMaxParentCandidates_def)
  have role: "(nw_isCoordinator s \<longleftrightarrow> ni_state (nw_info s) = ZB_NWK_STATE_COORDINATOR) \<and>
    (nw_isRouter s \<longleftrightarrow> ni_state (nw_info s) = ZB_NWK_STATE_ROUTER) \<and>
    (nw_isEndDevice s \<longleftrightarrow> ni_state (nw_info s) = ZB_NWK_STATE_END_DEVICE) \<and>
    (ni_joined (nw_info s) \<longleftrightarrow> nw_isCoordinator s \<or> nw_isRouter s \<or> nw_isEndDevice s)"
    using l(1) by (auto simp: ni_ok_def nw_isCoordinator_def nw_isRouter_def nw_isEndDevice_def split: if_splits)
  moreover have "if ni_joined (nw_info s)
     then (ni_nwkAddress (nw_info s) = ZB_NWK_ADDR_COORDINATOR \<longleftrightarrow> nw_isCoordinator s) \<and>
       (nw_isCoordinator s \<or> aa_isUsable (ni_nwkAddress (nw_info s)))
     else ni_nwkAddress (nw_info s) = ZB_NWK_ADDR_INVALID"
    using l(1) role by (auto simp: ni_ok_def aa_isUsable_def split: if_splits)
  moreover have "nw_candidateCount s \<le> 8"
    using used_count_le [of ca_used "nw_candidates s"] l(2) by (simp add: nw_candidateCount_def)
  ultimately show ?thesis using l(3) nw_associate_role by blast
qed

lemma network_life_cycle_witness:
  "\<exists>s. nw_step\<^sup>*\<^sup>* nw_init s \<and> nw_isRouter s \<and> ni_nwkAddress (nw_info s) = 0x1234 \<and> \<not> nw_isCoordinator s"
proof -
  let ?j = "nw_beginJoining 1 0x1A62 7 15 0 0 nw_init" and ?s = "fst (nw_completeJoin 0x1234 0 0 (nw_beginJoining 1 0x1A62 7 15 0 0 nw_init))"
  have "nw_step nw_init ?j" "nw_step ?j ?s" by (auto intro: nw_step.intros)
  then have r: "nw_step\<^sup>*\<^sup>* nw_init ?s" by auto
  have "ni_state (nw_info ?s) = ZB_NWK_STATE_ROUTER \<and> ni_nwkAddress (nw_info ?s) = 0x1234"
    by (simp add: nw_completeJoin_def nw_isJoining_def nw_beginJoining_def aa_isUsable_def network_info0_def)
  then show ?thesis using network_life_cycle [OF r] r by auto
qed

end
