(* ===== verification/ZbScan.thy ===== *)
theory ZbScan
  imports ZbNetworkLife ZbNwkFacts
begin

text \<open>
  The active scan of \<open>src/src/ZigbeeNetwork.cpp\<close> over a whole beacon sequence: the candidate list
  refines the map from senders to their best sighting, and the parent selected is a best one.
\<close>

section \<open>What was heard\<close>

type_synonym sighting = "u8 \<times> mac_beacon_frame \<times> nwk_beacon \<times> u8 \<times> u8"

fun ca_of :: "sighting \<Rightarrow> candidate" where
  "ca_of (ch, b, p, r, l) = ca_fill ch b p r l"

fun ca_heard :: "u64 \<Rightarrow> sighting \<Rightarrow> bool" where
  "ca_heard epan (ch, b, p, r, l) \<longleftrightarrow>
     mb_valid b \<and> bp_valid p \<and> (epan = 0 \<or> bp_extendedPanId p = epan)"

fun nw_noteBeacons :: "u64 \<Rightarrow> sighting list \<Rightarrow> network \<Rightarrow> network" where
  "nw_noteBeacons epan [] s = s"
| "nw_noteBeacons epan ((ch, b, p, r, l) # bs) s =
     nw_noteBeacons epan bs (fst (nw_noteBeacon ch b p r l epan s))"

text \<open>The candidates a beacon sequence offers, in the order they were heard.\<close>

definition ca_offers :: "u64 \<Rightarrow> sighting list \<Rightarrow> candidate list" where
  "ca_offers epan bs = map ca_of (filter (ca_heard epan) bs)"

text \<open>The specification: the last of the strongest sightings of a sender.\<close>

definition ca_strongest :: "candidate list \<Rightarrow> u8 \<times> u16 \<times> u16 \<Rightarrow> candidate list" where
  "ca_strongest cs k = filter (\<lambda>c. ca_key c = k \<and> (\<forall>x\<in>set cs. ca_key x = k \<longrightarrow> ca_lqi x \<le> ca_lqi c)) cs"

definition ca_best :: "candidate list \<Rightarrow> u8 \<times> u16 \<times> u16 \<Rightarrow> candidate option" where
  "ca_best cs k = (if ca_strongest cs k = [] then None else Some (last (ca_strongest cs k)))"

definition ca_sight :: "(u8 \<times> u16 \<times> u16 \<Rightarrow> candidate option) \<Rightarrow> candidate \<Rightarrow> u8 \<times> u16 \<times> u16 \<Rightarrow> candidate option" where
  "ca_sight m c = (case m (ca_key c) of
       None \<Rightarrow> m(ca_key c \<mapsto> c)
     | Some old \<Rightarrow> if ca_lqi c < ca_lqi old then m else m(ca_key c \<mapsto> c))"

lemma ca_strongest_empty: "ca_strongest cs k = [] \<longleftrightarrow> (\<forall>c\<in>set cs. ca_key c \<noteq> k)"
proof (rule ccontr)
  let ?S = "{c \<in> set cs. ca_key c = k}"
  assume n: "(ca_strongest cs k = []) \<noteq> (\<forall>c\<in>set cs. ca_key c \<noteq> k)"
  then have "?S \<noteq> {}" by (auto simp: ca_strongest_def filter_empty_conv)
  then have m: "Max (ca_lqi ` ?S) \<in> ca_lqi ` ?S" by (intro Max_in) auto
  then obtain c where c: "c \<in> ?S" "ca_lqi c = Max (ca_lqi ` ?S)" by auto
  then have "\<forall>x\<in>set cs. ca_key x = k \<longrightarrow> ca_lqi x \<le> ca_lqi c" by simp
  with c(1) n show False by (auto simp: ca_strongest_def filter_empty_conv)
qed

lemma ca_best_in: "ca_best cs k = Some c \<Longrightarrow> c \<in> set cs \<and> ca_key c = k \<and> (\<forall>x\<in>set cs. ca_key x = k \<longrightarrow> ca_lqi x \<le> ca_lqi c)"
  using last_in_set [of "ca_strongest cs k"] by (auto simp: ca_best_def ca_strongest_def split: if_splits)

lemma ca_best_snoc: "ca_best (cs @ [x]) = ca_sight (ca_best cs) x"
proof
  fix k
  show "ca_best (cs @ [x]) k = ca_sight (ca_best cs) x k"
  proof (cases "ca_key x = k")
    case False
    then have "ca_strongest (cs @ [x]) k = ca_strongest cs k" by (simp add: ca_strongest_def cong: filter_cong)
    then show ?thesis using False by (simp add: ca_best_def ca_sight_def split: option.split)
  next
    case True
    show ?thesis
    proof (cases "\<forall>y\<in>set cs. ca_key y = k \<longrightarrow> ca_lqi y \<le> ca_lqi x")
      case top: True
      then have l: "ca_strongest (cs @ [x]) k =
          filter (\<lambda>c. ca_key c = k \<and> (\<forall>y\<in>set (cs @ [x]). ca_key y = k \<longrightarrow> ca_lqi y \<le> ca_lqi c)) cs @ [x]"
        using True by (simp add: ca_strongest_def)
      have "ca_best (cs @ [x]) k = Some x" by (simp add: ca_best_def l)
      moreover have "ca_sight (ca_best cs) x k = Some x"
        using True top ca_best_in [of cs k] by (force simp: ca_sight_def split: option.split)
      ultimately show ?thesis by simp
    next
      case False
      then obtain y where y: "y \<in> set cs" "ca_key y = k" "ca_lqi x < ca_lqi y" by auto
      have "ca_strongest (cs @ [x]) k = ca_strongest cs k"
        using True y by (fastforce simp: ca_strongest_def intro!: filter_cong)
      moreover have "ca_strongest cs k \<noteq> []" using y by (auto simp: ca_strongest_empty)
      moreover have "ca_lqi y \<le> ca_lqi (last (ca_strongest cs k))"
        using ca_best_in [of cs k "last (ca_strongest cs k)"] calculation(2) y by (simp add: ca_best_def)
      ultimately show ?thesis using True y(3) by (simp add: ca_best_def ca_sight_def)
    qed
  qed
qed

lemma ca_best_Nil [simp]: "ca_best [] = Map.empty"
  by (simp add: ca_best_def ca_strongest_def fun_eq_iff)

section \<open>The candidate list refines it\<close>

lemma nw_note_get:
  assumes u: "slot_uniq ca_used ca_key (nw_candidates s)" and ne: "nw_candidates s \<noteq> []"
    and fit: "card (insert (ca_key (ca_fill ch b p r l)) (dom (slot_get ca_used ca_key (nw_candidates s)))) \<le> length (nw_candidates s)"
    and heard: "ca_heard epan (ch, b, p, r, l)"
  shows "slot_get ca_used ca_key (nw_candidates (fst (nw_noteBeacon ch b p r l epan s))) =
    ca_sight (slot_get ca_used ca_key (nw_candidates s)) (ca_fill ch b p r l)"
proof -
  let ?cs = "nw_candidates s" and ?c = "ca_fill ch b p r l" and ?k = "(ch, mb_srcPanId b, mb_srcShort b)"
  show ?thesis
  proof (cases "slot_find ca_used ca_key ?cs ?k")
    case (Some i)
    then have g: "slot_get ca_used ca_key ?cs ?k = Some (?cs ! i)" by (simp add: slot_get_def)
    show ?thesis
      using cas.get_put_same_key(2) [OF u Some, of ?c] heard Some g
      by (auto simp: nw_noteBeacon_def ca_find Let_def ca_sight_def)
  next
    case None
    then have g: "slot_get ca_used ca_key ?cs ?k = None" by (simp add: slot_get_def)
    then have "Suc (used_count ca_used ?cs) \<le> length ?cs"
      using fit slot_dom_card [OF u] slot_dom_finite [OF u] by (simp add: dom_def)
    then obtain i where i: "find_idx (\<lambda>c. \<not> ca_used c) ?cs = Some i"
      by (cases "find_idx (\<lambda>c. \<not> ca_used c) ?cs") (auto simp: find_idx_None used_count_def filter_id_conv)
    from find_idx_bound [OF i] find_idx_sat [OF i]
    show ?thesis
      using cas.get_put_new_key(2) [OF u, of ?c i] heard None g i
      by (auto simp: nw_noteBeacon_def ca_find Let_def ca_sight_def fun_eq_iff)
  qed
qed

lemma nw_note_unheard: "\<not> ca_heard epan (ch, b, p, r, l) \<Longrightarrow> nw_noteBeacon ch b p r l epan s = (s, False)"
  by (auto simp: nw_noteBeacon_def)

lemma nw_noteBeacons_refine:
  assumes "slot_uniq ca_used ca_key (nw_candidates s)" "length (nw_candidates s) = 8"
    and "slot_get ca_used ca_key (nw_candidates s) = ca_best cs"
    and "card (ca_key ` set (cs @ ca_offers epan bs)) \<le> 8"
  shows "slot_uniq ca_used ca_key (nw_candidates (nw_noteBeacons epan bs s)) \<and>
    slot_get ca_used ca_key (nw_candidates (nw_noteBeacons epan bs s)) = ca_best (cs @ ca_offers epan bs) \<and>
    nw_scanDeviceType (nw_noteBeacons epan bs s) = nw_scanDeviceType s"
  using assms
proof (induction epan bs s arbitrary: cs rule: nw_noteBeacons.induct)
  case (1 epan s)
  then show ?case by (simp add: ca_offers_def)
next
  case (2 epan ch b p r l bs s)
  let ?s = "fst (nw_noteBeacon ch b p r l epan s)" and ?c = "ca_fill ch b p r l"
  note keeps = nw_note_keeps [OF 2(2), of ch b p r l epan]
  show ?case
  proof (cases "ca_heard epan (ch, b, p, r, l)")
    case False
    then have "ca_offers epan ((ch, b, p, r, l) # bs) = ca_offers epan bs"
      by (simp add: ca_offers_def del: ca_heard.simps)
    then show ?thesis using 2 nw_note_unheard [OF False] by simp
  next
    case True
    then have o: "ca_offers epan ((ch, b, p, r, l) # bs) = ?c # ca_offers epan bs" by (simp add: ca_offers_def)
    have d: "dom (ca_best cs) = ca_key ` set cs"
      by (auto simp: ca_best_def ca_strongest_empty dom_def intro: rev_image_eqI)
    let ?K = "ca_key ` set (cs @ ca_offers epan ((ch, b, p, r, l) # bs))"
    have sub: "insert (ca_key ?c) (dom (slot_get ca_used ca_key (nw_candidates s))) \<subseteq> ?K"
      unfolding 2(4) d o by auto
    have "card (insert (ca_key ?c) (dom (slot_get ca_used ca_key (nw_candidates s)))) \<le> card ?K"
      by (rule card_mono [OF _ sub]) simp
    then have fit: "card (insert (ca_key ?c) (dom (slot_get ca_used ca_key (nw_candidates s)))) \<le> length (nw_candidates s)"
      using 2(3,5) by linarith
    have g: "slot_get ca_used ca_key (nw_candidates ?s) = ca_best (cs @ [?c])"
    proof -
      have "nw_candidates s \<noteq> []" using 2(3) by auto
      from nw_note_get [OF 2(2) this fit True] show ?thesis by (simp add: ca_best_snoc 2(4))
    qed
    show ?thesis using 2(1) [of "cs @ [?c]"] keeps g 2(3,5) o by simp
  qed
qed

section \<open>The selected parent\<close>

definition ca_rank :: "candidate \<Rightarrow> nat" where
  "ca_rank c = (255 - unat (ca_lqi c)) * 256 + unat (ca_depth c)"

lemma ca_rank_less:
  "(ca_lqi c > ca_lqi b \<or> ca_lqi c = ca_lqi b \<and> ca_depth c < ca_depth b) \<longleftrightarrow> ca_rank c < ca_rank b"
  unfolding ca_rank_def word_less_nat_alt word_unat_eq_iff by (rule lex_less_255) simp_all

lemma nw_select_spec:
  "case nw_selectParent s of
     None \<Rightarrow> \<forall>c\<in>set (nw_candidates s). \<not> nw_candidateUsableFor c (nw_scanDeviceType s)
   | Some i \<Rightarrow> i < length (nw_candidates s) \<and>
       nw_candidateUsableFor (nw_candidates s ! i) (nw_scanDeviceType s) \<and>
       (\<forall>c\<in>set (nw_candidates s). nw_candidateUsableFor c (nw_scanDeviceType s) \<longrightarrow>
          ca_rank (nw_candidates s ! i) \<le> ca_rank c)"
proof (cases "nw_selectParent s")
  case None
  then have "\<forall>c\<in>set (nw_candidates s). \<not> nw_candidateUsableFor c (nw_scanDeviceType s)"
    by (simp add: nw_selectParent_def best_idx_None)
  with None show ?thesis by simp
next
  case (Some i)
  then have b: "best_idx (\<lambda>c. nw_candidateUsableFor c (nw_scanDeviceType s)) (\<lambda>c b. ca_rank c < ca_rank b)
      (nw_candidates s) = Some i"
    by (simp add: nw_selectParent_def ca_rank_less)
  then show ?thesis
    using Some best_idx_bound [OF b] best_idx_ok [OF b] best_idx_minimal [OF b] by (auto simp: in_set_conv_nth)
qed

lemma ca_usable_used: "nw_candidateUsableFor c dt \<Longrightarrow> ca_used c"
  by (simp add: nw_candidateUsableFor_def split: if_splits)

lemma scan_candidates:
  fixes s :: network
  assumes "card (ca_key ` set (ca_offers epan bs)) \<le> 8"
  shows "slot_uniq ca_used ca_key (nw_candidates (nw_noteBeacons epan bs (nw_beginScan dt s)))"
    and "slot_get ca_used ca_key (nw_candidates (nw_noteBeacons epan bs (nw_beginScan dt s))) = ca_best (ca_offers epan bs)"
    and "nw_scanDeviceType (nw_noteBeacons epan bs (nw_beginScan dt s)) = dt"
proof -
  let ?b = "nw_beginScan dt s" and ?s = "nw_noteBeacons epan bs (nw_beginScan dt s)"
  have c0: "nw_candidates ?b = replicate 8 candidate0" "nw_scanDeviceType ?b = dt"
    by (simp_all add: nw_beginScan_def nw_clearCandidates_def kMaxParentCandidates_def)
  have g0: "slot_get ca_used ca_key (nw_candidates ?b) = ca_best []" "slot_uniq ca_used ca_key (nw_candidates ?b)"
    unfolding c0 by (simp_all add: cas.get_blank cas.uniq_blank)
  from nw_noteBeacons_refine [OF g0(2) _ g0(1), of epan bs] assms c0
  show "slot_uniq ca_used ca_key (nw_candidates ?s)" "slot_get ca_used ca_key (nw_candidates ?s) = ca_best (ca_offers epan bs)"
    "nw_scanDeviceType ?s = dt" by simp_all
qed

lemma scan_selects:
  fixes s :: network
  assumes "card (ca_key ` set (ca_offers epan bs)) \<le> 8"
  shows "case nw_selectParent (nw_noteBeacons epan bs (nw_beginScan dt s)) of
      None \<Rightarrow> \<forall>k c. ca_best (ca_offers epan bs) k = Some c \<longrightarrow> \<not> nw_candidateUsableFor c dt
    | Some i \<Rightarrow> \<exists>c. nw_candidates (nw_noteBeacons epan bs (nw_beginScan dt s)) ! i = c \<and>
        ca_best (ca_offers epan bs) (ca_key c) = Some c \<and> nw_candidateUsableFor c dt \<and>
        (\<forall>k d. ca_best (ca_offers epan bs) k = Some d \<longrightarrow> nw_candidateUsableFor d dt \<longrightarrow>
           ca_lqi d < ca_lqi c \<or> ca_lqi d = ca_lqi c \<and> ca_depth c \<le> ca_depth d)"
proof -
  let ?s = "nw_noteBeacons epan bs (nw_beginScan dt s)"
  note u = scan_candidates(1) [OF assms, of dt s] and g = scan_candidates(2) [OF assms, of dt s]
    and d = scan_candidates(3) [of epan bs dt s, OF assms]
  have used: "ca_best (ca_offers epan bs) k = Some c \<longleftrightarrow> c \<in> set (nw_candidates ?s) \<and> ca_used c \<and> ca_key c = k" for k c
    unfolding g [symmetric] slot_get_iff [OF u] by (auto simp: in_set_conv_nth)
  note sel = nw_select_spec [of ?s, unfolded d]
  show ?thesis
  proof (cases "nw_selectParent ?s")
    case None
    then show ?thesis using sel by (simp add: used)
  next
    case (Some i)
    let ?c = "nw_candidates ?s ! i"
    have c: "?c \<in> set (nw_candidates ?s)" "nw_candidateUsableFor ?c dt"
      "\<forall>d\<in>set (nw_candidates ?s). nw_candidateUsableFor d dt \<longrightarrow> ca_rank ?c \<le> ca_rank d"
      using sel Some by simp_all
    have "ca_lqi d < ca_lqi ?c \<or> ca_lqi d = ca_lqi ?c \<and> ca_depth ?c \<le> ca_depth d"
      if "d \<in> set (nw_candidates ?s)" "nw_candidateUsableFor d dt" for d
    proof -
      have "\<not> ca_rank d < ca_rank ?c" using c(3) that by (simp add: not_less)
      then show ?thesis unfolding ca_rank_less [symmetric] by auto
    qed
    then show ?thesis using Some c ca_usable_used by (simp add: used)
  qed
qed

text \<open>C31: The scan finds the best parent. After \<open>beginScan\<close> and any beacons from at most eight senders
  (repeated, of other networks, malformed), the candidate list is the map from each sender to its strongest
  sighting, and \<open>selectParent\<close> answers null exactly when the strongest sighting of no sender is usable for the device type; otherwise it answers such a sighting, and no
  sender's usable strongest sighting has a higher LQI, or the same and a smaller depth.\<close>

theorem scan_selects_best_parent:
  fixes s :: network
  assumes "card (ca_key ` set (ca_offers epan bs)) \<le> 8"
  shows "slot_get ca_used ca_key (nw_candidates (nw_noteBeacons epan bs (nw_beginScan dt s))) = ca_best (ca_offers epan bs) \<and>
    (case nw_selectParent (nw_noteBeacons epan bs (nw_beginScan dt s)) of
      None \<Rightarrow> \<forall>k c. ca_best (ca_offers epan bs) k = Some c \<longrightarrow> \<not> nw_candidateUsableFor c dt
    | Some i \<Rightarrow> \<exists>c. nw_candidates (nw_noteBeacons epan bs (nw_beginScan dt s)) ! i = c \<and>
        ca_best (ca_offers epan bs) (ca_key c) = Some c \<and> nw_candidateUsableFor c dt \<and>
        (\<forall>k d. ca_best (ca_offers epan bs) k = Some d \<longrightarrow> nw_candidateUsableFor d dt \<longrightarrow>
           ca_lqi d < ca_lqi c \<or> ca_lqi d = ca_lqi c \<and> ca_depth c \<le> ca_depth d))"
  using scan_candidates(2) [OF assms] scan_selects [OF assms] by (rule conjI)

definition beacon_example :: "u16 \<Rightarrow> u8 \<Rightarrow> sighting" where
  "beacon_example addr lqi = (15, mac_beacon_frame0\<lparr>mb_valid := True, mb_srcPanId := 0x1A62, mb_srcShort := addr,
     mb_associationPermit := True\<rparr>,
     nwk_beacon0\<lparr>bp_valid := True, bp_stackProfile := 2, bp_routerCapacity := True, bp_deviceDepth := 1\<rparr>, 0, lqi)"

lemma scan_selects_best_parent_witness:
  "\<exists>i c. nw_selectParent (nw_noteBeacons 0 [beacon_example 1 80, beacon_example 2 100, beacon_example 2 90]
        (nw_beginScan ZB_DEVICE_ROUTER nw_init)) = Some i \<and>
     nw_candidateUsableFor c ZB_DEVICE_ROUTER \<and>
     nw_candidates (nw_noteBeacons 0 [beacon_example 1 80, beacon_example 2 100, beacon_example 2 90]
        (nw_beginScan ZB_DEVICE_ROUTER nw_init)) ! i = c"
proof -
  let ?bs = "[beacon_example 1 80, beacon_example 2 100, beacon_example 2 90]"
  have o: "ca_offers 0 ?bs = map ca_of ?bs"
    by (simp add: ca_offers_def beacon_example_def mac_beacon_frame0_def nwk_beacon0_def)
  have "card (ca_key ` set (ca_offers 0 ?bs)) \<le> 8"
    unfolding o using card_length [of "map ca_key (map ca_of ?bs)"] by simp
  note sel = scan_selects_best_parent [OF this, of ZB_DEVICE_ROUTER nw_init]
  have "nw_candidateUsableFor (ca_of (beacon_example 1 80)) ZB_DEVICE_ROUTER"
    by (simp add: beacon_example_def ca_fill_def nw_candidateUsableFor_def mac_beacon_frame0_def nwk_beacon0_def)
  moreover have "ca_best (ca_offers 0 ?bs) (15, 0x1A62, 1) = Some (ca_of (beacon_example 1 80))"
    unfolding o by (simp add: ca_best_def ca_strongest_def beacon_example_def mac_beacon_frame0_def)
  ultimately show ?thesis using sel
    by (cases "nw_selectParent (nw_noteBeacons 0 ?bs (nw_beginScan ZB_DEVICE_ROUTER nw_init))") auto
qed

end
