(* ===== verification/ZbLinkStatus.thy ===== *)
theory ZbLinkStatus
  imports ZbNetworkLife ZbNwkFacts
begin

text \<open>
  The link-status exchange of two neighbors, from one node's table over the payload on air into the
  other node's table (\<open>collectLinkStatusEntries\<close>, the Link Status codec, \<open>handleLinkStatus\<close>).
\<close>

definition nw_reportedCost :: "neighbor \<Rightarrow> u8" where
  "nw_reportedCost n = le_incomingCost (nw_linkEntry n)"

lemma costFromLqi_bounds: "1 \<le> nw_costFromLqi lqi" "nw_costFromLqi lqi \<le> 7"
  by (simp_all add: nw_costFromLqi_def)

lemma cost_masked: "c \<le> 7 \<Longrightarrow> c AND 7 = (c :: u8)"
proof -
  assume "c \<le> 7"
  then have "unat c < 2 ^ 3" by (simp add: word_le_nat_alt)
  then have "take_bit 3 c = c" by (simp add: word_unat_eq_iff unsigned_take_bit_eq take_bit_nat_eq_self)
  then show ?thesis by (simp add: take_bit_eq_mask mask_numeral)
qed

lemma nw_ownEntry_found:
  assumes get: "\<And>i. i < length es \<Longrightarrow> nwk_getLinkStatusEntry cmd i = Some (Some (f (es ! i)))"
    and addr: "\<And>e. le_address (f e) = le_address e"
    and uniq: "\<And>e'. e' \<in> set es \<Longrightarrow> le_address e' = own \<Longrightarrow> e' = e" "le_address e = own"
  shows "e \<in> set (drop j es) \<Longrightarrow> n = length es - j \<Longrightarrow> nw_ownEntry cmd own n j = Some (Some (f e))"
proof (induction n arbitrary: j)
  case 0
  then show ?case by simp
next
  case (Suc n)
  then have j: "j < length es" by simp
  then have d: "drop j es = es ! j # drop (Suc j) es" by (simp add: Cons_nth_drop_Suc)
  show ?case
  proof (cases "le_address (es ! j) = own")
    case True
    then have "es ! j = e" using uniq(1) j by simp
    with True show ?thesis using get [OF j] addr by simp
  next
    case False
    then have "e \<in> set (drop (Suc j) es)" using Suc.prems d uniq(2) by auto
    moreover have "n = length es - Suc j" using Suc.prems(2) by simp
    moreover have "nw_ownEntry cmd own (Suc n) j = nw_ownEntry cmd own n (Suc j)"
      using False get [OF j] addr by simp
    ultimately show ?thesis using Suc.IH [of "Suc j"] by simp
  qed
qed

text \<open>What the receiver stores: the cost it measured, and the one reported for it.\<close>

definition nw_heardStatus :: "(network \<times> bool) option \<Rightarrow> network \<Rightarrow> u16 \<Rightarrow> u8 \<Rightarrow> u8 \<Rightarrow> u32 \<Rightarrow> bool" where
  "nw_heardStatus r s sender lqi reported now \<longleftrightarrow>
     (\<exists>s' t' n. r = Some (s', True) \<and> nw_info s' = nw_info s \<and> nw_neighbors s' = Some t' \<and> nt_wf t' \<and>
        nt_at t' sender = Some n \<and> nb_incomingCost n = nw_costFromLqi lqi \<and> nb_outgoingCost n = reported \<and>
        nb_lastSeenMs n = now)"

lemma nw_heard_upsert:
  assumes t: "nt_wf t" "nt_attached t"
  shows "nw_heardStatus
    (case nt_upsert t sender ieee ZB_DEVICE_ROUTER rel depth lqi True permit now of
       (t, None) \<Rightarrow> Some (s\<lparr>nw_neighbors := Some t\<rparr>, False)
     | (t, Some i) \<Rightarrow>
         Some (s\<lparr>nw_neighbors := Some (nw_setOutgoing i c (nw_setIncoming i (nw_costFromLqi lqi) t))\<rparr>, True))
    s sender lqi c now"
proof -
  obtain es es' i where up: "t = Some es" "i < length es"
    "nt_upsert t sender ieee ZB_DEVICE_ROUTER rel depth lqi True permit now = (Some es', Some i)"
    "es' = es[i := nt_fill (es ! i) sender ieee ZB_DEVICE_ROUTER rel depth lqi True permit now]"
    by (rule nt_upsert_at [OF t, of sender ieee ZB_DEVICE_ROUTER rel depth lqi True permit now])
  let ?n = "nt_fill (es ! i) sender ieee ZB_DEVICE_ROUTER rel depth lqi True permit now"
  let ?m = "?n\<lparr>nb_incomingCost := nw_costFromLqi lqi, nb_outgoingCost := c\<rparr>"
  have wf: "slot_uniq nb_used nb_nwk es'"
    using nt_upsert_wf [OF t(1), of sender ieee ZB_DEVICE_ROUTER rel depth lqi True permit now] up(3) by (simp add: nt_wf_def)
  have e': "es' ! i = ?n" "i < length es'" using up(2,4) by simp_all
  have f: "slot_find nb_used nb_nwk es' sender = Some i"
    using slot_find_uniq [OF wf e'(2)] e'(1) by simp
  have "nw_setOutgoing i c (nw_setIncoming i (nw_costFromLqi lqi) (Some es')) = Some (es'[i := ?m])"
    using e' by (simp add: nw_setIncoming_def nw_setOutgoing_def)
  then show ?thesis
    using nbr.get_put_same_key [OF wf f, of ?m] by (simp add: nw_heardStatus_def up(3) nt_wf_def nt_at_def)
qed

lemma nw_handleLinkStatus_stores:
  assumes "ls_valid cmd" "nw_neighbors s = Some t" "nt_wf t" "nt_attached t" "ni_joined (nw_info s)"
    and "nw_ownEntry cmd (ni_nwkAddress (nw_info s)) (unat (ls_entryCount cmd)) 0 = Some (Some e)"
  shows "nw_heardStatus (nw_handleLinkStatus sender cmd lqi now s) s sender lqi (le_incomingCost e) now"
  unfolding nw_handleLinkStatus_def Let_def
  by (simp only: assms option.case simp_thms if_False nw_heard_upsert)

text \<open>C30: The two directions of a link. When a router's Link Status, built from its neighbor table and sent
  as bytes, reaches a neighbor it lists, the neighbor stores the cost it measured as the incoming
  cost and the cost the sender reported for it (the sender's measure of that direction) as the
  outgoing cost, both between 1 and 7, and has seen the sender now.\<close>

theorem link_status_exchange:
  assumes a: "nw_neighbors a = Some (Some es)" "slot_uniq nb_used nb_nwk es" "length (filter nw_listed es) \<le> 16"
    and n: "n \<in> set es" "nw_listed n" "nb_nwk n = ni_nwkAddress (nw_info b)" "nb_incomingCost n \<le> 7"
    and b: "nw_neighbors b = Some t" "nt_wf t" "nt_attached t" "ni_joined (nw_info b)"
    and air: "nwk_buildLinkStatusPayload out (Some (nw_collectLinkStatusEntries 16 a))
      (of_nat (length (nw_collectLinkStatusEntries 16 a))) True True = Some bs"
  shows "\<exists>cmd b' t' m. nwk_parseLinkStatusPayload (Some bs) = Some (True, cmd) \<and>
    nw_handleLinkStatus (ni_nwkAddress (nw_info a)) cmd lqi now b = Some (b', True) \<and>
    nw_neighbors b' = Some t' \<and> nt_wf t' \<and> nt_at t' (ni_nwkAddress (nw_info a)) = Some m \<and>
    nb_incomingCost m = nw_costFromLqi lqi \<and>
    nb_outgoingCost m = (if nb_incomingCost n = 0 then nw_costFromLqi (nb_lqi n) else nb_incomingCost n) \<and>
    nb_incomingCost m \<in> {1..7} \<and> nb_outgoingCost m \<in> {1..7} \<and> nb_lastSeenMs m = now"
proof -
  let ?ls = "map nw_linkEntry (filter nw_listed es)" and ?own = "ni_nwkAddress (nw_info b)"
  have ls: "nw_collectLinkStatusEntries 16 a = ?ls" using a by (simp add: nw_collectLinkStatusEntries_def)
  have len: "length ?ls = unat (of_nat (length ?ls) :: u8)" using a(3) by simp
  obtain cmd where c: "nwk_parseLinkStatusPayload (Some bs) = Some (True, cmd)" "ls_entryCount cmd = of_nat (length ?ls)"
    "\<And>i. i < length ?ls \<Longrightarrow> nwk_getLinkStatusEntry cmd i = Some (Some \<lparr>le_address = le_address (?ls ! i),
       le_incomingCost = le_incomingCost (?ls ! i) AND 0x07, le_outgoingCost = le_outgoingCost (?ls ! i) AND 0x07\<rparr>)"
    by (rule nwk_link_status_roundtrip [OF air [unfolded ls] len]) (rule that, assumption+)
  let ?f = "\<lambda>e. \<lparr>le_address = le_address e, le_incomingCost = le_incomingCost e AND 0x07,
    le_outgoingCost = le_outgoingCost e AND 0x07\<rparr> :: nwk_link_entry"
  have mem: "nw_linkEntry n \<in> set ?ls" using n by simp
  from c(3) [OF length_pos_if_in_set [OF mem]] have valid: "ls_valid cmd" by (auto simp: nwk_getLinkStatusEntry_def split: if_splits)
  have uniq: "e' = nw_linkEntry n" if e': "e' \<in> set ?ls" "le_address e' = ?own" for e'
  proof -
    from e' obtain n' where n': "n' \<in> set es" "nw_listed n'" "e' = nw_linkEntry n'" by auto
    with e'(2) n have "nb_nwk n' = nb_nwk n" "nb_used n'" "nb_used n" by (simp_all add: nw_linkEntry_def nw_listed_def)
    then have "n' = n" using a(2) n(1) n'(1) unfolding slot_uniq_iff in_set_conv_nth by metis
    with n' show ?thesis by simp
  qed
  have "nw_ownEntry cmd ?own (length ?ls) 0 = Some (Some (?f (nw_linkEntry n)))"
  proof (rule nw_ownEntry_found [where es = ?ls and f = ?f])
    show "nwk_getLinkStatusEntry cmd i = Some (Some (?f (?ls ! i)))" if "i < length ?ls" for i
      using c(3) [OF that] .
    show "le_address (?f e) = le_address e" for e by simp
    show "e' = nw_linkEntry n" if "e' \<in> set ?ls" "le_address e' = ?own" for e' using that by (rule uniq)
    show "le_address (nw_linkEntry n) = ?own" using n(3) by (simp add: nw_linkEntry_def)
    show "nw_linkEntry n \<in> set (drop 0 ?ls)" unfolding drop_0 by (rule mem)
  qed simp
  then have own: "nw_ownEntry cmd ?own (unat (ls_entryCount cmd)) 0 = Some (Some (?f (nw_linkEntry n)))"
    using c(2) len by simp
  let ?r = "if nb_incomingCost n = 0 then nw_costFromLqi (nb_lqi n) else nb_incomingCost n"
  have "nb_incomingCost n \<noteq> 0 \<Longrightarrow> Suc 0 \<le> unat (nb_incomingCost n)"
    by (metis unsigned_eq_0_iff Suc_le_eq neq0_conv)
  then have r: "?r \<in> {1..7}" using costFromLqi_bounds [of "nb_lqi n"] n(4) by (auto simp: word_le_nat_alt)
  then have f: "le_incomingCost (?f (nw_linkEntry n)) = ?r" using cost_masked [of ?r] by (auto simp: nw_linkEntry_def)
  have "nw_heardStatus (nw_handleLinkStatus (ni_nwkAddress (nw_info a)) cmd lqi now b) b (ni_nwkAddress (nw_info a)) lqi ?r now"
    using nw_handleLinkStatus_stores [OF valid b own, of "ni_nwkAddress (nw_info a)" lqi now] unfolding f .
  then show ?thesis using c(1) r costFromLqi_bounds [of lqi] unfolding nw_heardStatus_def by auto
qed

lemma link_status_exchange_witness:
  "\<exists>(a :: network) (b :: network) bs cmd b' t' m. nwk_parseLinkStatusPayload (Some bs) = Some (True, cmd) \<and>
    nw_handleLinkStatus (ni_nwkAddress (nw_info a)) cmd 110 5000 b = Some (b', True) \<and>
    nw_neighbors b' = Some t' \<and> nt_at t' (ni_nwkAddress (nw_info a)) = Some m \<and>
    nb_incomingCost m = 1 \<and> nb_outgoingCost m = 3"
proof -
  let ?n = "neighbor0\<lparr>nb_used := True, nb_nwk := 7, nb_deviceType := ZB_DEVICE_ROUTER, nb_lqi := 90\<rparr>"
  let ?a = "nw_attachNeighborTable (Some [?n]) (nw_beginCoordinator 0x1A62 7 15 0 nw_init)"
  let ?b = "nw_attachNeighborTable (Some [neighbor0]) (nw_beginJoinedDevice ZB_DEVICE_ROUTER 0x1A62 7 15 7 0 1 0 nw_init)"
  have a: "nw_neighbors ?a = Some (Some [?n])" "ni_nwkAddress (nw_info ?a) = 0"
    by (simp_all add: nw_attachNeighborTable_def nw_beginCoordinator_def network_info0_def)
  have b: "nw_neighbors ?b = Some (Some [neighbor0])" "ni_nwkAddress (nw_info ?b) = 7" "ni_joined (nw_info ?b)"
    by (simp_all add: nw_attachNeighborTable_def nw_beginJoinedDevice_def network_info0_def)
  have l: "nw_listed ?n" by (simp add: nw_listed_def neighbor0_def)
  have ls: "nw_collectLinkStatusEntries 16 ?a = [nw_linkEntry ?n]"
    using a l by (simp add: nw_collectLinkStatusEntries_def)
  obtain bs where air: "nwk_buildLinkStatusPayload (Some 80) (Some (nw_collectLinkStatusEntries 16 ?a))
      (of_nat (length (nw_collectLinkStatusEntries 16 ?a))) True True = Some bs"
    unfolding ls by (simp add: nwk_buildLinkStatusPayload_def)
  have "slot_uniq nb_used nb_nwk [?n]" "length (filter nw_listed [?n]) \<le> 16" "?n \<in> set [?n]"
    "nb_nwk ?n = ni_nwkAddress (nw_info ?b)" "nb_incomingCost ?n \<le> 7" "nt_wf (Some [neighbor0])" "nt_attached (Some [neighbor0])"
    unfolding b(2) by (simp_all add: slot_uniq_def neighbor0_def nt_wf_def nt_attached_def)
  note x = link_status_exchange [OF a(1) this(1,2,3) l this(4,5) b(1) this(6,7) b(3) air, of 110 5000]
  have "nb_incomingCost ?n = 0" "nw_costFromLqi 110 = 1" "nw_costFromLqi (nb_lqi ?n) = 3"
    by (simp_all add: neighbor0_def nw_costFromLqi_def)
  with x show ?thesis by (simp only: simp_thms if_True) blast
qed

end
