(* ===== verification/ZbApsSecurity.thy ===== *)
theory ZbApsSecurity
  imports ZbSecurity
begin

text \<open>
  Key establishment: \<open>ZigbeeApsSecurity.h\<close> (the AES-MMO hash, HMAC, key derivation, the CCM* envelope of
  APS commands and data frames), \<open>ZigbeeApsKey.h\<close> (the key-transport commands), \<open>ZigbeeInstallCode.h\<close>
  and the trust centre's link-key table of \<open>ZigbeeTcLinkKeyStore.h\<close>, and the two functions of the
  \<open>CC2530_BeaconJoin\<close> sketch that send and install the network key. The AES block is the parameter
  \<open>ecb\<close>, as in the network layer.
\<close>

section \<open>AES-MMO and the derived keys\<close>

abbreviation (input) "APS_SEC_KEY_DATA \<equiv> (0 :: u8)"
abbreviation (input) "APS_SEC_KEY_NETWORK \<equiv> (1 :: u8)"
abbreviation (input) "APS_SEC_KEY_KEY_TRANSPORT \<equiv> (2 :: u8)"
abbreviation (input) "APS_SEC_KEY_KEY_LOAD \<equiv> (3 :: u8)"
abbreviation (input) "kApsAuxLen \<equiv> 13 :: nat"

definition mmo_total :: "nat \<Rightarrow> nat" where
  "mmo_total len = cast16 ((len + 3 + 15) div 16 * 16)"

definition mmo_pad :: "u8 list \<Rightarrow> u8 list" where
  "mmo_pad msg = msg @ [0x80] @ replicate (mmo_total (length msg) - length msg - 3) 0 @
     be16 (of_nat (length msg * 8))"

fun mmo_blocks :: "block_cipher \<Rightarrow> u8 list \<Rightarrow> u8 list \<Rightarrow> u8 list option" where
  "mmo_blocks ecb hash buf =
     (if buf = [] then Some hash
      else do {
        enc \<leftarrow> ecb hash (take 16 buf);
        mmo_blocks ecb (xor_bytes enc (take 16 buf)) (drop 16 buf)
      })"

declare mmo_blocks.simps [simp del]

text \<open>
  \<open>aesMmoHash\<close>: the inner \<open>None\<close> is its answer false. The outer \<open>None\<close> is the write behind the 96-byte
  scratch buffer that a message of 65518 bytes or more would make, whose padded length is cut to
  sixteen bits.
\<close>

definition aps_aesMmoHash :: "block_cipher \<Rightarrow> u8 list \<Rightarrow> u8 list option option" where
  "aps_aesMmoHash ecb msg =
     (if mmo_total (length msg) > 96 then Some None
      else if length msg > 93 then None
      else Some (mmo_blocks ecb (replicate 16 0) (mmo_pad msg)))"

definition aps_hmacAesMmo :: "block_cipher \<Rightarrow> u8 list \<Rightarrow> u8 list \<Rightarrow> u8 list option option" where
  "aps_hmacAesMmo ecb key data =
     (let kIpad = map (\<lambda>b. b XOR 0x36) key; kOpad = map (\<lambda>b. b XOR 0x5C) key in
      if cast16 (16 + length data) > 80 then Some None
      else if length data > 64 then None
      else do {
        inner \<leftarrow> aps_aesMmoHash ecb (kIpad @ data);
        case inner of None \<Rightarrow> Some None
        | Some inner \<Rightarrow> aps_aesMmoHash ecb (kOpad @ inner)
      })"

definition aps_deriveKeyTransportKey :: "block_cipher \<Rightarrow> u8 list \<Rightarrow> u8 list option option" where
  "aps_deriveKeyTransportKey ecb linkKey = aps_hmacAesMmo ecb linkKey [0x00]"

definition aps_deriveKeyLoadKey :: "block_cipher \<Rightarrow> u8 list \<Rightarrow> u8 list option option" where
  "aps_deriveKeyLoadKey ecb linkKey = aps_hmacAesMmo ecb linkKey [0x02]"

section \<open>Secured commands and data frames\<close>

definition aps_onAirControl :: "u8 \<Rightarrow> u8" where
  "aps_onAirControl keyId = push_bit 3 (keyId AND 0x03) OR 0x20"

definition aps_cryptoControlByte :: "u8 \<Rightarrow> u8" where
  "aps_cryptoControlByte keyId = kLevel OR push_bit 3 (keyId AND 0x03) OR 0x20"

definition aps_secureCommand ::
  "block_cipher \<Rightarrow> u8 list \<Rightarrow> u8 list \<Rightarrow> u8 \<Rightarrow> u64 \<Rightarrow> u32 \<Rightarrow> u8 list \<Rightarrow> out_buf \<Rightarrow> u8 list option"
where
  "aps_secureCommand ecb apsHeader key keyId srcIeee frameCounter payload out =
     (let total = length apsHeader + kApsAuxLen + length payload + kMicLen;
          aux = aps_onAirControl keyId # le32 frameCounter @ le64 srcIeee;
          cryptoControl = aps_cryptoControlByte keyId;
          nonce = sc_nonce srcIeee frameCounter cryptoControl
      in
        (case out of None \<Rightarrow> None | Some outMax \<Rightarrow>
          if outMax < total then None
          else if length apsHeader + kApsAuxLen > 80 then None
          else
            (case ccm_starCrypt ecb True key kMicLen nonce
                    ((apsHeader @ aux)[length apsHeader := cryptoControl]) payload None of
               None \<Rightarrow> None
             | Some (cipher, mic) \<Rightarrow> Some (apsHeader @ aux @ cipher @ mic))))"

text \<open>
  \<open>openCommand\<close>: the plaintext with the counter and the address of the auxiliary header, \<open>None\<close> where the
  code answers 0 before it writes those. The code answers the length of the plaintext, which is 0 also
  for a genuine empty command.
\<close>

definition aps_openCommand ::
  "block_cipher \<Rightarrow> ptr \<Rightarrow> nat \<Rightarrow> u8 list \<Rightarrow> nat \<Rightarrow> (u8 list \<times> u32 \<times> u64) option"
where
  "aps_openCommand ecb secured apsHeaderLen key payloadOutMax =
     (case secured of None \<Rightarrow> None | Some bs \<Rightarrow>
        if length bs < apsHeaderLen + kApsAuxLen + kMicLen then None
        else
          let aux = take kApsAuxLen (drop apsHeaderLen bs);
              frameCounter = le_val (take 4 (drop 1 aux));
              srcIeee = le_val (take 8 (drop 5 aux));
              cryptoControl = (aux ! 0 AND NOT 0x07) OR kLevel;
              cipherLen = length bs - apsHeaderLen - kApsAuxLen - kMicLen;
              nonce = sc_nonce srcIeee frameCounter cryptoControl
          in
            if payloadOutMax < cipherLen then None
            else
              (case ctr_xor ecb key nonce 1 (take cipherLen (drop (apsHeaderLen + kApsAuxLen) bs)) of
                 None \<Rightarrow> None
               | Some plain \<Rightarrow>
                   if apsHeaderLen + kApsAuxLen > 80 then None
                   else
                     (case ccm_starCrypt ecb False key kMicLen nonce
                             ((take apsHeaderLen bs @ aux)[apsHeaderLen := cryptoControl]) plain
                             (Some (drop (length bs - kMicLen) bs)) of
                        None \<Rightarrow> None
                      | Some _ \<Rightarrow> Some (plain, frameCounter, srcIeee))))"

definition aps_secureDataFrame ::
  "block_cipher \<Rightarrow> ptr \<Rightarrow> nat \<Rightarrow> u8 list \<Rightarrow> u64 \<Rightarrow> u32 \<Rightarrow> out_buf \<Rightarrow> u8 list option"
where
  "aps_secureDataFrame ecb apsFrame headerLen key srcIeee frameCounter out =
     (case apsFrame of None \<Rightarrow> None | Some bs \<Rightarrow>
        if length bs < headerLen then None
        else if headerLen > 16 then None
        else
          let hdr = take headerLen bs; hdr = hdr[0 := hdr ! 0 OR 0x20] in
          aps_secureCommand ecb hdr key APS_SEC_KEY_DATA srcIeee frameCounter (drop headerLen bs) out)"

definition aps_openDataFrame ::
  "block_cipher \<Rightarrow> ptr \<Rightarrow> nat \<Rightarrow> u8 list \<Rightarrow> nat \<Rightarrow> (u8 list \<times> u32) option"
where
  "aps_openDataFrame ecb secured headerLen key outMax =
     (case secured of None \<Rightarrow> None | Some bs \<Rightarrow>
        if length bs < headerLen \<or> headerLen > outMax then None
        else
          (case aps_openCommand ecb secured headerLen key 96 of
             None \<Rightarrow> None
           | Some (payload, frameCounter, _) \<Rightarrow>
               if payload = [] then None
               else if headerLen + length payload > outMax then None
               else
                 let hdr = take headerLen bs in
                 Some (hdr[0 := hdr ! 0 AND NOT 0x20] @ payload, frameCounter)))"

section \<open>Key commands\<close>

abbreviation (input) "APS_CMD_TRANSPORT_KEY \<equiv> (0x05 :: u8)"
abbreviation (input) "APS_CMD_REQUEST_KEY \<equiv> (0x08 :: u8)"
abbreviation (input) "APS_CMD_SWITCH_KEY \<equiv> (0x09 :: u8)"
abbreviation (input) "APS_KEY_STANDARD_NETWORK \<equiv> (0x01 :: u8)"
abbreviation (input) "APS_KEY_APP_LINK \<equiv> (0x03 :: u8)"
abbreviation (input) "APS_KEY_HIGH_SECURITY_NETWORK \<equiv> (0x05 :: u8)"

record aps_transport_key =
  tk_keyType :: u8
  tk_key :: "u8 list"
  tk_keySeqNumber :: u8
  tk_destAddress :: u64
  tk_srcAddress :: u64

record aps_request_key =
  rk_keyType :: u8
  rk_partnerAddress :: u64

definition aps_transport_key0 :: aps_transport_key where
  "aps_transport_key0 = \<lparr>tk_keyType = 0, tk_key = replicate 16 0, tk_keySeqNumber = 0,
     tk_destAddress = 0, tk_srcAddress = 0\<rparr>"

definition aps_request_key0 :: aps_request_key where
  "aps_request_key0 = \<lparr>rk_keyType = 0, rk_partnerAddress = 0\<rparr>"

definition ak_buildTransportNetworkKey :: "out_buf \<Rightarrow> aps_transport_key \<Rightarrow> u8 list option" where
  "ak_buildTransportNetworkKey out t =
     (case out of None \<Rightarrow> None | Some outMax \<Rightarrow>
        if outMax < 35 then None
        else Some (APS_CMD_TRANSPORT_KEY # tk_keyType t # take 16 (tk_key t) @ [tk_keySeqNumber t] @
               le64 (tk_destAddress t) @ le64 (tk_srcAddress t)))"

definition ak_parseTransportNetworkKey :: "ptr \<Rightarrow> (bool \<times> aps_transport_key) option" where
  "ak_parseTransportNetworkKey payload =
     (let t = aps_transport_key0 in
      case payload of None \<Rightarrow> Some (False, t) | Some bs \<Rightarrow>
        if length bs < 35 then Some (False, t)
        else do {
          cmd \<leftarrow> rd8 bs 0;
          if cmd \<noteq> APS_CMD_TRANSPORT_KEY then Some (False, t)
          else do {
            keyType \<leftarrow> rd8 bs 1;
            let t = t\<lparr>tk_keyType := keyType\<rparr>;
            if keyType \<noteq> APS_KEY_STANDARD_NETWORK \<and> keyType \<noteq> APS_KEY_HIGH_SECURITY_NETWORK
            then Some (False, t)
            else do {
              key \<leftarrow> rd_bytes bs 2 16;
              keySeq \<leftarrow> rd8 bs 18;
              dst \<leftarrow> rd64 bs 19;
              src \<leftarrow> rd64 bs 27;
              Some (True, t\<lparr>tk_key := key, tk_keySeqNumber := keySeq, tk_destAddress := dst,
                tk_srcAddress := src\<rparr>)
            }
          }
        })"

definition ak_buildRequestKey :: "out_buf \<Rightarrow> aps_request_key \<Rightarrow> u8 list option" where
  "ak_buildRequestKey out r =
     (let withPartner = rk_keyType r = APS_KEY_APP_LINK in
      case out of None \<Rightarrow> None | Some outMax \<Rightarrow>
        if outMax < 2 + (if withPartner then 8 else 0) then None
        else Some (APS_CMD_REQUEST_KEY # rk_keyType r #
               (if withPartner then le64 (rk_partnerAddress r) else [])))"

definition ak_parseRequestKey :: "ptr \<Rightarrow> (bool \<times> aps_request_key) option" where
  "ak_parseRequestKey payload =
     (let r = aps_request_key0 in
      case payload of None \<Rightarrow> Some (False, r) | Some bs \<Rightarrow>
        if length bs < 2 then Some (False, r)
        else do {
          cmd \<leftarrow> rd8 bs 0;
          if cmd \<noteq> APS_CMD_REQUEST_KEY then Some (False, r)
          else do {
            keyType \<leftarrow> rd8 bs 1;
            let r = r\<lparr>rk_keyType := keyType\<rparr>;
            if keyType = APS_KEY_APP_LINK then
              if length bs < 10 then Some (False, r)
              else do { partner \<leftarrow> rd64 bs 2; Some (True, r\<lparr>rk_partnerAddress := partner\<rparr>) }
            else Some (True, r)
          }
        })"

definition ak_buildSwitchKey :: "out_buf \<Rightarrow> u8 \<Rightarrow> u8 list option" where
  "ak_buildSwitchKey out keySeqNumber =
     (case out of None \<Rightarrow> None | Some outMax \<Rightarrow>
        if outMax < 2 then None else Some [APS_CMD_SWITCH_KEY, keySeqNumber])"

text \<open>\<open>None\<close> inside: the parser answers false and leaves its result untouched.\<close>

definition ak_parseSwitchKey :: "ptr \<Rightarrow> u8 option option" where
  "ak_parseSwitchKey payload =
     (case payload of None \<Rightarrow> Some None | Some bs \<Rightarrow>
        if length bs < 2 then Some None
        else do {
          cmd \<leftarrow> rd8 bs 0;
          if cmd \<noteq> APS_CMD_SWITCH_KEY then Some None
          else do { keySeq \<leftarrow> rd8 bs 1; Some (Some keySeq) }
        })"

section \<open>Install codes\<close>

definition ic_crcStep :: "u16 \<Rightarrow> u16" where
  "ic_crcStep crc = (if crc AND 1 \<noteq> 0 then drop_bit 1 crc XOR 0x8408 else drop_bit 1 crc)"

definition ic_crcByte :: "u16 \<Rightarrow> u8 \<Rightarrow> u16" where
  "ic_crcByte crc b = (ic_crcStep ^^ 8) (crc XOR ucast b)"

definition ic_crc16 :: "u8 list \<Rightarrow> u16" where
  "ic_crc16 data = foldl ic_crcByte 0xFFFF data XOR 0xFFFF"

definition ic_validate :: "ptr \<Rightarrow> bool" where
  "ic_validate codeWithCrc =
     (case codeWithCrc of None \<Rightarrow> False | Some bs \<Rightarrow>
        if length bs \<noteq> 8 \<and> length bs \<noteq> 10 \<and> length bs \<noteq> 14 \<and> length bs \<noteq> 18 then False
        else
          let computed = ic_crc16 (take (length bs - 2) bs);
              stored = ucast (bs ! (length bs - 2)) OR push_bit 8 (ucast (bs ! (length bs - 1)))
          in computed = stored)"

definition ic_build :: "ptr \<Rightarrow> out_buf \<Rightarrow> u8 list option" where
  "ic_build data out =
     (case (data, out) of
        (Some bs, Some outMax) \<Rightarrow>
          if length bs \<noteq> 6 \<and> length bs \<noteq> 8 \<and> length bs \<noteq> 12 \<and> length bs \<noteq> 16 then None
          else if outMax < length bs + 2 then None
          else
            let crc = ic_crc16 bs in
            Some (bs @ [ucast (crc AND 0xFF), ucast (drop_bit 8 crc)])
      | _ \<Rightarrow> None)"

definition ic_deriveLinkKey :: "block_cipher \<Rightarrow> ptr \<Rightarrow> u8 list option option" where
  "ic_deriveLinkKey ecb codeWithCrc =
     (if \<not> ic_validate codeWithCrc then Some None
      else case codeWithCrc of None \<Rightarrow> Some None | Some bs \<Rightarrow> aps_aesMmoHash ecb bs)"

section \<open>The trust centre's link keys\<close>

definition defaultTcLinkKey :: "u8 list" where
  "defaultTcLinkKey = [0x5A, 0x69, 0x67, 0x42, 0x65, 0x65, 0x41, 0x6C,
     0x6C, 0x69, 0x61, 0x6E, 0x63, 0x65, 0x30, 0x39]"

record tc_entry =
  tc_used :: bool
  tc_ieee :: u64
  tc_key :: "u8 list"

record tc_store =
  tc_entries :: "tc_entry list option"
  tc_global :: "u8 list"

definition tc_entry0 :: tc_entry where
  "tc_entry0 = \<lparr>tc_used = False, tc_ieee = 0, tc_key = replicate 16 0\<rparr>"

definition tc_init :: tc_store where
  "tc_init = \<lparr>tc_entries = None, tc_global = take 16 defaultTcLinkKey\<rparr>"

definition tc_begin :: "tc_entry list option \<Rightarrow> tc_store \<Rightarrow> tc_store" where
  "tc_begin storage s = s\<lparr>tc_entries := map_option (map (\<lambda>_. tc_entry0)) storage\<rparr>"

definition tc_setGlobalKey :: "u8 list \<Rightarrow> tc_store \<Rightarrow> tc_store" where
  "tc_setGlobalKey key s = s\<lparr>tc_global := take 16 key\<rparr>"

definition tc_find :: "tc_store \<Rightarrow> u64 \<Rightarrow> nat option" where
  "tc_find s ieee = (case tc_entries s of None \<Rightarrow> None
     | Some es \<Rightarrow> find_idx (\<lambda>e. tc_used e \<and> tc_ieee e = ieee) es)"

definition tc_firstFree :: "tc_store \<Rightarrow> nat option" where
  "tc_firstFree s = (case tc_entries s of None \<Rightarrow> None | Some es \<Rightarrow> find_idx (\<lambda>e. \<not> tc_used e) es)"

definition tc_provision :: "u64 \<Rightarrow> u8 list \<Rightarrow> tc_store \<Rightarrow> tc_store \<times> bool" where
  "tc_provision ieee key s =
     (case or_else (tc_find s ieee) (tc_firstFree s) of
        None \<Rightarrow> (s, False)
      | Some i \<Rightarrow>
          (s\<lparr>tc_entries := map_option (\<lambda>es. es[i := (es ! i)\<lparr>tc_used := True, tc_ieee := ieee,
               tc_key := take 16 key\<rparr>]) (tc_entries s)\<rparr>, True))"

definition tc_provisionInstallCode ::
  "block_cipher \<Rightarrow> u64 \<Rightarrow> ptr \<Rightarrow> tc_store \<Rightarrow> (tc_store \<times> bool) option"
where
  "tc_provisionInstallCode ecb ieee codeWithCrc s =
     (case ic_deriveLinkKey ecb codeWithCrc of
        None \<Rightarrow> None
      | Some None \<Rightarrow> Some (s, False)
      | Some (Some key) \<Rightarrow> Some (tc_provision ieee key s))"

definition tc_remove :: "u64 \<Rightarrow> tc_store \<Rightarrow> tc_store \<times> bool" where
  "tc_remove ieee s =
     (case tc_find s ieee of None \<Rightarrow> (s, False)
      | Some i \<Rightarrow> (s\<lparr>tc_entries := map_option (\<lambda>es. es[i := tc_entry0]) (tc_entries s)\<rparr>, True))"

definition tc_hasPerDevice :: "tc_store \<Rightarrow> u64 \<Rightarrow> bool" where
  "tc_hasPerDevice s ieee \<longleftrightarrow> tc_find s ieee \<noteq> None"

definition tc_keyFor :: "tc_store \<Rightarrow> u64 \<Rightarrow> u8 list" where
  "tc_keyFor s ieee =
     (case (tc_find s ieee, tc_entries s) of
        (Some i, Some es) \<Rightarrow> tc_key (es ! i)
      | _ \<Rightarrow> tc_global s)"

section \<open>Key transport in the sketch\<close>

text \<open>
  \<open>serviceKeyTransport\<close>, from the \<open>ApsTransportKey\<close> it fills to the secured command it hands to the APS
  layer; \<open>installNetworkKeyFrom\<close>, whose result says whether the key was installed.
\<close>

definition sk_keyTransportCommand ::
  "block_cipher \<Rightarrow> u8 list \<Rightarrow> u8 list \<Rightarrow> u64 \<Rightarrow> u64 \<Rightarrow> u32 \<Rightarrow> security \<Rightarrow> u8 list option"
where
  "sk_keyTransportCommand ecb gKtk networkKey selfIeee joinerIeee apsSecCounter s =
     (let t = \<lparr>tk_keyType = APS_KEY_STANDARD_NETWORK, tk_key = take 16 networkKey,
            tk_keySeqNumber = sc_keySequence s, tk_destAddress = joinerIeee, tk_srcAddress = selfIeee\<rparr>
      in case ak_buildTransportNetworkKey (Some 40) t of None \<Rightarrow> None
         | Some cmd \<Rightarrow> aps_secureCommand ecb [0x21] gKtk APS_SEC_KEY_KEY_TRANSPORT selfIeee apsSecCounter cmd (Some 80))"

definition sk_installNetworkKeyFrom ::
  "block_cipher \<Rightarrow> u8 list \<Rightarrow> u8 list \<Rightarrow> security \<Rightarrow> (security \<times> bool) option"
where
  "sk_installNetworkKeyFrom ecb gKtk blob s =
     (case aps_openCommand ecb (Some blob) 1 gKtk 40 of
        None \<Rightarrow> Some (s, False)
      | Some (plain, _, _) \<Rightarrow>
          if plain = [] then Some (s, False)
          else
            (case ak_parseTransportNetworkKey (Some plain) of
               None \<Rightarrow> None
             | Some (ok, t) \<Rightarrow>
                 if \<not> ok then Some (s, False)
                 else Some (sc_setNetworkKey (tk_key t) (tk_keySeqNumber t) s, True)))"

end
