(* ===== verification/ZbApsSecurityFacts.thy ===== *)
theory ZbApsSecurityFacts
  imports ZbApsSecurity ZbSecurityFacts
begin

text \<open>
  Properties of key establishment: what the install-code checksum detects, the link-key table against
  a map, the APS envelope in both directions, and the whole key transport into network security.
\<close>

section \<open>The install-code checksum\<close>

lemma odd_bit0: "(x AND 1 \<noteq> 0) = bit (x :: u16) 0"
  by (simp add: bit_0 and_one_eq mod_2_eq_odd)

lemma xor_shuffle:
  "(x XOR c) XOR (y XOR c) = x XOR (y :: u16)" "(x XOR c) XOR y = (x XOR y) XOR c" "x XOR (y XOR c) = (x XOR y) XOR c"
  "(x XOR c) XOR c = x"
  by (rule bit_word_eqI; auto simp: bit_simps)+

lemma ic_crcStep_xor: "ic_crcStep (a XOR b) = ic_crcStep a XOR ic_crcStep b"
proof -
  have "bit (a XOR b) 0 = (bit a 0 \<noteq> bit b 0)" by (simp add: bit_xor_iff)
  moreover have "drop_bit 1 (a XOR b) = drop_bit 1 a XOR drop_bit 1 b" by (rule drop_bit_xor)
  ultimately show ?thesis unfolding ic_crcStep_def odd_bit0
    by (cases "bit a 0"; cases "bit b 0") (simp_all only: xor_shuffle if_True if_False simp_thms)
qed

lemma ic_crcStep_0 [simp]: "ic_crcStep 0 = 0"
  by (simp add: ic_crcStep_def)

text \<open>The constant sets the bit that the shift clears, so the step can be undone.\<close>

lemma ic_crcStep_eq_0: "ic_crcStep x = 0 \<longleftrightarrow> x = 0"
proof
  assume z: "ic_crcStep x = 0"
  have top: "\<not> bit (drop_bit 1 x) 15" using bit_imp_le_length [of x 16] by (auto simp: bit_simps)
  have "bit (0x8408 :: u16) 15" by simp
  then have "bit (drop_bit 1 x XOR 0x8408) 15" using top by (simp add: bit_simps)
  then have "drop_bit 1 x XOR 0x8408 \<noteq> 0" by auto
  with z have e: "x AND 1 = 0" "drop_bit 1 x = 0" by (auto simp: ic_crcStep_def split: if_splits)
  show "x = 0"
  proof (rule bit_word_eqI)
    fix n assume "n < LENGTH(16)"
    show "bit x n = bit (0 :: u16) n"
      using arg_cong [OF e(2), of "\<lambda>w. bit w (n - 1)"] e(1)
      by (cases n) (auto simp: bit_simps bit_0 and_one_eq mod_2_eq_odd)
  qed
qed simp

lemma ic_steps_xor: "(ic_crcStep ^^ n) (a XOR b) = (ic_crcStep ^^ n) a XOR (ic_crcStep ^^ n) b"
  by (induction n) (simp_all add: ic_crcStep_xor)

lemma ic_steps_eq_0: "(ic_crcStep ^^ n) x = 0 \<longleftrightarrow> x = 0"
  by (induction n) (simp_all add: ic_crcStep_eq_0)

lemma ic_steps_byte:
  "n \<le> 8 \<Longrightarrow> (ic_crcStep ^^ n) (push_bit n (ucast (y :: u8))) = ucast y"
proof (induction n)
  case (Suc n)
  let ?w = "push_bit (Suc n) (ucast y) :: u16"
  have "\<not> bit ?w 0" unfolding bit_push_bit_iff by simp
  then have "ic_crcStep ?w = drop_bit 1 ?w" unfolding ic_crcStep_def odd_bit0 by simp
  moreover have "drop_bit 1 ?w = push_bit n (ucast y)"
  proof (rule bit_word_eqI)
    fix k
    show "bit (drop_bit 1 ?w) k = bit (push_bit n (ucast y) :: u16) k"
      using Suc.prems bit_imp_le_length [of y "k - n"] by (auto simp: bit_simps simp del: push_bit_Suc)
  qed
  ultimately show ?case using Suc by (simp add: funpow_swap1)
qed simp

lemma ic_steps_byte_apart:
  assumes "(ic_crcStep ^^ 8) (ucast (x :: u8)) = ucast (y :: u8)"
  shows "x = 0 \<and> y = 0"
proof -
  let ?y = "push_bit 8 (ucast y) :: u16"
  have "(ic_crcStep ^^ 8) (ucast x XOR ?y) = ucast y XOR ucast y"
    unfolding ic_steps_xor using assms ic_steps_byte [of 8 y] by simp
  then have z: "ucast x XOR ?y = 0" by (simp add: ic_steps_eq_0)
  have "bit (ucast x XOR ?y) n = bit x n" "bit (ucast x XOR ?y) (n + 8) = bit y n" if "n < 8" for n
    using that bit_imp_le_length [of x "n + 8"] by (auto simp: bit_simps)
  then show ?thesis unfolding z by (auto intro!: bit_word_eqI)
qed

lemma ic_crcByte_xor: "ic_crcByte c a XOR ic_crcByte c' a' = (ic_crcStep ^^ 8) ((c XOR c') XOR ucast (a XOR a'))"
proof -
  have "(c XOR ucast a) XOR (c' XOR ucast a') = (c XOR c') XOR (ucast (a XOR a') :: u16)"
    by (rule bit_word_eqI) (auto simp: bit_simps)
  then show ?thesis by (simp add: ic_crcByte_def ic_steps_xor [symmetric])
qed

lemma ic_crcByte_inj: "ic_crcByte c a = ic_crcByte c' a \<longleftrightarrow> c = c'"
  using xor_self_eq_0 [of "ic_crcByte c a" "ic_crcByte c' a"] xor_self_eq_0 [of c c']
  by (simp add: ic_crcByte_xor ic_steps_eq_0)

lemma ic_crc_fold_inj: "foldl ic_crcByte c xs = foldl ic_crcByte c' xs \<longleftrightarrow> c = c'"
  by (induction xs arbitrary: c c') (simp_all add: ic_crcByte_inj)

lemma ic_crc_two:
  assumes "ic_crcByte (ic_crcByte c a) b = ic_crcByte (ic_crcByte c a') b'"
  shows "a = a' \<and> b = b'"
proof -
  from assms have "ic_crcByte (ic_crcByte c a) b XOR ic_crcByte (ic_crcByte c a') b' = 0"
    by (simp only: xor_self_eq_0)
  then have "(ic_crcStep ^^ 8) (ucast (a XOR a')) XOR ucast (b XOR b') = 0"
    unfolding ic_crcByte_xor [of "ic_crcByte c a"] ic_steps_eq_0 ic_crcByte_xor [of c] by simp
  then have "(ic_crcStep ^^ 8) (ucast (a XOR a')) = ucast (b XOR b')"
    by (simp only: xor_self_eq_0)
  from ic_steps_byte_apart [OF this] show ?thesis by (simp add: xor_self_eq_0)
qed

lemma ic_valid_iff:
  assumes "length bs \<in> {6, 8, 12, 16}"
  shows "ic_validate (Some (bs @ [lo, hi])) \<longleftrightarrow> ic_crc16 bs = ucast lo OR push_bit 8 (ucast hi)"
  using assms by (auto simp: ic_validate_def nth_append)

lemma ic_stored_xor:
  "(ucast lo OR push_bit 8 (ucast hi)) XOR (ucast lo' OR push_bit 8 (ucast hi')) =
   (ucast (lo XOR lo') OR push_bit 8 (ucast (hi XOR hi')) :: u16)" for lo hi lo' hi' :: u8
  using bit_imp_le_length by (intro bit_word_eqI) (fastforce simp: bit_simps)

lemma ic_stored_inj: "(ucast lo OR push_bit 8 (ucast hi) :: u16) = ucast lo' OR push_bit 8 (ucast hi') \<Longrightarrow>
   lo = lo' \<and> hi = hi'" for lo hi lo' hi' :: u8
proof -
  assume e: "(ucast lo OR push_bit 8 (ucast hi) :: u16) = ucast lo' OR push_bit 8 (ucast hi')"
  have b: "bit (ucast lo OR push_bit 8 (ucast hi) :: u16) n = bit lo n"
    "bit (ucast lo OR push_bit 8 (ucast hi) :: u16) (n + 8) = bit hi n" if "n < 8" for n and lo hi :: u8
    using that bit_imp_le_length [of lo "n + 8"] by (auto simp: bit_simps)
  show ?thesis using b [of _ lo hi] b [of _ lo' hi'] unfolding e by (auto intro!: bit_word_eqI)
qed

lemma ic_burst:
  assumes v: "ic_validate (Some (pre @ [a, b] @ post))" "ic_validate (Some (pre @ [a', b'] @ post))"
  shows "a' = a \<and> b' = b"
proof -
  have len: "length pre + length post + 2 \<in> {8, 10, 14, 18}" using v(1) by (auto simp: ic_validate_def split: if_splits)
  consider "post = []" | hi where "post = [hi]" | mid lo hi where "post = mid @ [lo, hi]"
    by (metis append_butlast_last_id append.assoc append_Cons append_Nil)
  then show ?thesis
  proof cases
    case 1
    with v len show ?thesis using ic_stored_inj [of a b a' b'] by (simp add: ic_valid_iff)
  next
    case 2
    have "ic_crc16 (pre @ [a]) = ucast b OR push_bit 8 (ucast hi)" "ic_crc16 (pre @ [a']) = ucast b' OR push_bit 8 (ucast hi)"
      using v len 2 ic_valid_iff [of "pre @ [a]" b hi] ic_valid_iff [of "pre @ [a']" b' hi] by auto
    then have "ic_crc16 (pre @ [a]) XOR ic_crc16 (pre @ [a']) = (ucast (b XOR b') OR push_bit 8 (ucast (hi XOR hi)) :: u16)"
      by (simp only: ic_stored_xor)
    then have "(ic_crcStep ^^ 8) (ucast (a XOR a')) = ucast (b XOR b')"
      by (simp add: ic_crc16_def xor_shuffle(1) ic_crcByte_xor)
    from ic_steps_byte_apart [OF this] show ?thesis by (simp add: xor_self_eq_0)
  next
    case 3
    have "ic_crc16 (pre @ [a, b] @ mid) = ic_crc16 (pre @ [a', b'] @ mid)"
      using v len 3 ic_valid_iff [of "pre @ [a, b] @ mid" lo hi] ic_valid_iff [of "pre @ [a', b'] @ mid" lo hi] by auto
    then have "foldl ic_crcByte 0xFFFF (pre @ [a, b] @ mid) = foldl ic_crcByte 0xFFFF (pre @ [a', b'] @ mid)"
      by (metis ic_crc16_def xor_shuffle(4))
    then show ?thesis using ic_crc_two [of "foldl ic_crcByte 0xFFFF pre" a b a' b'] by (auto simp: ic_crc_fold_inj)
  qed
qed

lemma ic_built_valid:
  assumes "ic_build (Some data) (Some outMax) = Some code"
  shows "ic_validate (Some code)"
proof -
  let ?c = "ic_crc16 data"
  have "?c = ucast (ucast ?c :: u8) OR push_bit 8 (ucast (ucast (drop_bit 8 ?c) :: u8))"
    using le_val_le16 [of ?c] by (simp add: le16_def le_bytes_def upt_rec)
  moreover have "?c AND 0xFF = take_bit 8 ?c" by (simp add: take_bit_eq_mask mask_eq_exp_minus_1)
  then have "(ucast (?c AND 0xFF) :: u8) = ucast ?c"
    by (simp only:) (rule bit_word_eqI, auto simp: bit_simps)
  ultimately show ?thesis
    using assms ic_valid_iff [of data "ucast (?c AND 0xFF)" "ucast (drop_bit 8 ?c)"]
    by (auto simp: ic_build_def Let_def split: if_splits)
qed

text \<open>C35: Install codes. A code that \<open>build\<close> completes is valid, and no misprint confined to two adjacent bytes
  of it, in the data, the checksum or across their border, leaves a valid code.\<close>

theorem install_code_misprint_refused:
  assumes "ic_build (Some data) (Some outMax) = Some code" "code = pre @ [a, b] @ post"
  shows "length code = length data + 2 \<and> ic_validate (Some code) \<and>
    (ic_validate (Some (pre @ [a', b'] @ post)) \<longleftrightarrow> a' = a \<and> b' = b)"
proof -
  have "length code = length data + 2" using assms(1) by (auto simp: ic_build_def Let_def split: if_splits)
  then show ?thesis using ic_built_valid [OF assms(1)] ic_burst [of pre a b post a' b'] unfolding assms(2) by auto
qed

lemma install_code_misprint_refused_witness:
  "\<exists>code. ic_build (Some [0x83, 0xFE, 0xD3, 0x40, 0x7A, 0x93]) (Some 20) = Some code \<and>
     ic_validate (Some code) \<and> \<not> ic_validate (Some ([0x83, 0xFE] @ [0xD2, 0x40] @ drop 4 code))"
proof -
  let ?d = "[0x83, 0xFE, 0xD3, 0x40, 0x7A, 0x93] :: u8 list"
  obtain code where c: "ic_build (Some ?d) (Some 20) = Some code" by (simp add: ic_build_def Let_def)
  then have "code = [0x83, 0xFE] @ [0xD3, 0x40] @ drop 4 code" by (auto simp: ic_build_def Let_def)
  from install_code_misprint_refused [OF c this, of "0xD2" "0x40"] c show ?thesis by simp
qed

section \<open>Keys are always derived\<close>

lemma mmo_blocks_Nil [simp]: "mmo_blocks ecb h [] = Some h"
  by (subst mmo_blocks.simps) simp

lemma mmo_blocks_works:
  assumes "ecb_works ecb"
  shows "length h = 16 \<Longrightarrow> 16 dvd length buf \<Longrightarrow> \<exists>y. mmo_blocks ecb h buf = Some y \<and> length y = 16"
proof (induction buf arbitrary: h rule: length_induct)
  case (1 buf)
  show ?case
  proof (cases "buf = []")
    case True
    then show ?thesis using 1(2) by simp
  next
    case False
    then have l: "16 \<le> length buf" using 1(3) by (auto dest: dvd_imp_le)
    then have "length (take 16 buf) = 16" by simp
    with assms 1(2) obtain enc where e: "ecb h (take 16 buf) = Some enc" "length enc = 16" by (rule ecb_worksE)
    have "length (xor_bytes enc (take 16 buf)) = 16" "16 dvd length (drop 16 buf)" "length (drop 16 buf) < length buf"
      using e l 1(3) False by (simp_all add: dvd_minus_self)
    with 1(1) obtain y where "mmo_blocks ecb (xor_bytes enc (take 16 buf)) (drop 16 buf) = Some y" "length y = 16" by blast
    then show ?thesis using e False by (subst mmo_blocks.simps) simp
  qed
qed

lemma mmo_pad_length:
  assumes "length msg \<le> 93"
  shows "mmo_total (length msg) \<le> 96" "16 dvd length (mmo_pad msg)"
proof -
  let ?q = "(length msg + 3 + 15) div 16"
  have q: "?q * 16 \<le> length msg + 18" "length msg + 3 \<le> ?q * 16" by linarith+
  then have t: "mmo_total (length msg) = ?q * 16" using assms by (simp add: mmo_total_def)
  have "?q \<le> 6" using assms by linarith
  then show "mmo_total (length msg) \<le> 96" unfolding t by linarith
  have "length (mmo_pad msg) = ?q * 16" using q by (simp add: mmo_pad_def t)
  then show "16 dvd length (mmo_pad msg)" by simp
qed

lemma aps_hash_works:
  assumes "ecb_works ecb" "length msg \<le> 93"
  obtains y where "aps_aesMmoHash ecb msg = Some (Some y)" "length y = 16"
proof -
  from mmo_blocks_works [OF assms(1), of "replicate 16 0" "mmo_pad msg"] mmo_pad_length [OF assms(2)]
  obtain y where y: "mmo_blocks ecb (replicate 16 0) (mmo_pad msg) = Some y" "length y = 16" by auto
  then show thesis using that mmo_pad_length(1) [OF assms(2)] assms(2) by (simp add: aps_aesMmoHash_def not_less)
qed

lemma aps_hmac_works:
  assumes w: "ecb_works ecb" and k: "length key = 16" and d: "length data \<le> 64"
  obtains y where "aps_hmacAesMmo ecb key data = Some (Some y)" "length y = 16"
proof -
  obtain i where i: "aps_aesMmoHash ecb (map (\<lambda>b. b XOR 0x36) key @ data) = Some (Some i)" "length i = 16"
    by (rule aps_hash_works [OF w, of "map (\<lambda>b. b XOR 0x36) key @ data"]) (use k d in auto)
  obtain y where y: "aps_aesMmoHash ecb (map (\<lambda>b. b XOR 0x5C) key @ i) = Some (Some y)" "length y = 16"
    by (rule aps_hash_works [OF w, of "map (\<lambda>b. b XOR 0x5C) key @ i"]) (use k i in auto)
  from i y d show thesis using that by (simp add: aps_hmacAesMmo_def not_less)
qed

section \<open>The command envelope\<close>

lemma u8_and3_cases: "(k :: u8) AND 3 = 0 \<or> k AND 3 = 1 \<or> k AND 3 = 2 \<or> k AND 3 = 3"
proof (rule u8_le3_cases)
  have "k AND 3 = take_bit 2 k" by (simp add: take_bit_eq_mask mask_eq_exp_minus_1)
  moreover have "unat (take_bit 2 k) < 2 ^ 2" unfolding unsigned_take_bit_eq by (rule take_bit_nat_less_exp)
  ultimately show "k AND 3 \<le> 3" by (simp add: word_le_nat_alt)
qed

lemma aps_control [simp]: "(aps_onAirControl k AND NOT 7) OR 5 = aps_cryptoControlByte k"
proof -
  have "((push_bit 3 y OR 0x20) AND NOT 7) OR 5 = (5 :: u8) OR push_bit 3 y OR 0x20" if "y \<in> {0, 1, 2, 3}" for y
    using that by auto
  then show ?thesis using u8_and3_cases [of k] unfolding aps_onAirControl_def aps_cryptoControlByte_def by blast
qed

definition aps_aux :: "u8 \<Rightarrow> u32 \<Rightarrow> u64 \<Rightarrow> u8 list" where
  "aps_aux keyId frameCounter srcIeee = aps_onAirControl keyId # le32 frameCounter @ le64 srcIeee"

lemma aps_aux_fields [simp]:
  "length (aps_aux k fc ieee) = 13" "le_val (take 4 (drop 1 (aps_aux k fc ieee))) = fc"
  "le_val (take 8 (drop 5 (aps_aux k fc ieee))) = ieee" "aps_aux k fc ieee ! 0 = aps_onAirControl k"
  by (simp_all add: aps_aux_def)

lemma aps_aux_of:
  assumes "length aux = 13" "aux ! 0 = aps_onAirControl k"
  shows "aux = aps_aux k (le_val (take 4 (drop 1 aux))) (le_val (take 8 (drop 5 aux)))"
proof -
  obtain a rest where a: "aux = a # rest" using assms(1) by (cases aux) auto
  then have r: "length rest = 12" "rest = take 4 rest @ take 8 (drop 4 rest)"
    using assms(1) append_take_drop_id [of 4 rest] by simp_all
  then show ?thesis using a assms(2) by (simp add: aps_aux_def le_val_inv)
qed

text \<open>A command sealed under a key opens under it.\<close>

lemma aps_sealed:
  assumes w: "ecb_works ecb" and k: "length key = 16" and h: "length hdr + 13 \<le> 80"
    and out: "length hdr + 17 + length payload \<le> outMax" and m: "length payload \<le> room"
  obtains c mic where
    "aps_secureCommand ecb hdr key keyId ieee fc payload (Some outMax) = Some (hdr @ aps_aux keyId fc ieee @ c @ mic)"
    "length c = length payload" "length mic = 4"
    "aps_openCommand ecb (Some (hdr @ aps_aux keyId fc ieee @ c @ mic)) (length hdr) key room = Some (payload, fc, ieee)"
proof -
  let ?aux = "aps_aux keyId fc ieee" and ?n = "sc_nonce ieee fc (aps_cryptoControlByte keyId)"
  let ?aad = "(hdr @ ?aux)[length hdr := aps_cryptoControlByte keyId]"
  obtain c mic where s: "ccm_starCrypt ecb True key 4 ?n ?aad payload None = Some (c, mic)"
    "length c = length payload" "length mic = 4" "ctr_xor ecb key ?n 1 c = Some payload"
    "ccm_starCrypt ecb False key 4 ?n ?aad payload (Some mic) = Some ([], mic)"
    using ccm_seal [OF w k length_sc_nonce] by blast
  have "aps_secureCommand ecb hdr key keyId ieee fc payload (Some outMax) = Some (hdr @ ?aux @ c @ mic)"
    using s(1) h out by (simp add: aps_secureCommand_def Let_def aps_aux_def)
  moreover have tk: "take 13 (drop (length hdr) (hdr @ ?aux @ c @ mic)) = ?aux"
    "take (length c) (drop (length hdr + 13) (hdr @ ?aux @ c @ mic)) = c"
    "drop (length (hdr @ ?aux @ c @ mic) - 4) (hdr @ ?aux @ c @ mic) = mic"
    "take (length hdr) (hdr @ ?aux @ c @ mic) = hdr"
    "length (hdr @ ?aux @ c @ mic) - length hdr - 13 - 4 = length c"
    using s(3) by simp_all
  have nf: "\<not> length (hdr @ ?aux @ c @ mic) < length hdr + 13 + 4" "\<not> room < length c" "\<not> 80 < length hdr + 13"
    using s(2,3) h m by simp_all
  have "aps_openCommand ecb (Some (hdr @ ?aux @ c @ mic)) (length hdr) key room = Some (payload, fc, ieee)"
    unfolding aps_openCommand_def Let_def
    by (simp only: option.case prod.case tk aps_aux_fields aps_control nf if_False s(1,4,5))
  ultimately show thesis using that s(2,3) by blast
qed

lemma open_shape:
  "(if P then None else if Q then None else case x of None \<Rightarrow> None
     | Some p \<Rightarrow> if R then None else case y p of None \<Rightarrow> None | Some _ \<Rightarrow> Some (p, a, b)) = Some (p', a', b') \<longleftrightarrow>
   \<not> P \<and> \<not> Q \<and> x = Some p' \<and> \<not> R \<and> y p' \<noteq> None \<and> a' = a \<and> b' = b"
  by (auto split: option.splits)

text \<open>And what opens under a key was sealed under it.\<close>

lemma aps_opened_was_sealed:
  assumes w: "ecb_sized ecb" and b: "length bs \<le> 255" "bs ! h = aps_onAirControl keyId"
    and o: "aps_openCommand ecb (Some bs) h key room = Some (plain, fc, ieee)"
  shows "aps_secureCommand ecb (take h bs) key keyId ieee fc plain (Some 255) = Some bs \<and> length plain \<le> room"
proof -
  let ?aux = "take 13 (drop h bs)" and ?c = "take (length bs - h - 13 - 4) (drop (h + 13) bs)" and ?m = "drop (length bs - 4) bs"
  have len: "h + 17 \<le> length bs" using o by (auto simp: aps_openCommand_def not_less split: if_splits)
  then have a0: "?aux ! 0 = aps_onAirControl keyId" "length ?aux = 13" using b(2) by simp_all
  note ctl = aps_control [of keyId, folded a0(1)]
  let ?n = "sc_nonce (le_val (take 8 (drop 5 ?aux))) (le_val (take 4 (drop 1 ?aux))) (aps_cryptoControlByte keyId)"
  have e: "\<not> room < length bs - h - 13 - 4" "ctr_xor ecb key ?n 1 ?c = Some plain" "\<not> 80 < h + 13"
    "ccm_starCrypt ecb False key 4 ?n ((take h bs @ ?aux)[h := aps_cryptoControlByte keyId]) plain (Some ?m) \<noteq> None"
    "fc = le_val (take 4 (drop 1 ?aux))" "ieee = le_val (take 8 (drop 5 ?aux))"
    by (simp_all only: o [unfolded aps_openCommand_def Let_def option.case ctl open_shape] not_False_eq_True)
  have aux: "?aux = aps_aux keyId fc ieee" using aps_aux_of [OF a0(2,1)] e(5,6) by simp
  obtain r where r: "ccm_starCrypt ecb False key 4 ?n ((take h bs @ ?aux)[h := aps_cryptoControlByte keyId]) plain (Some ?m) = Some r"
    using e(4) by blast
  have "length ?m = 4" using len by simp
  from ccm_unseal [OF w r e(2) this]
  have s: "ccm_starCrypt ecb True key 4 ?n ((take h bs @ ?aux)[h := aps_cryptoControlByte keyId]) plain None = Some (?c, ?m)" .
  have lp: "length plain = length bs - h - 17" using ctr_xor_length [OF w e(2)] len by simp
  have "bs = take h bs @ ?aux @ ?c @ ?m"
  proof -
    have "drop (length bs - 4) bs = drop (length bs - h - 13 - 4) (drop (h + 13) bs)" using len by simp
    then have "?c @ ?m = drop (h + 13) bs" by (metis append_take_drop_id)
    moreover have "?aux @ drop (h + 13) bs = drop h bs" 
      using append_take_drop_id [of 13 "drop h bs"] by (simp add: add.commute)
    ultimately show ?thesis by simp
  qed
  moreover have "aps_secureCommand ecb (take h bs) key keyId ieee fc plain (Some 255) = Some (take h bs @ ?aux @ ?c @ ?m)"
    using s [folded e(5,6)] e(3) len b(1) lp unfolding aux
    by (simp add: aps_secureCommand_def Let_def aps_aux_def [symmetric] min_def)
  ultimately show ?thesis using e(1) lp by simp
qed

lemma aps_opens_iff:
  assumes "ecb_works ecb" "length key = 16" "h + 17 \<le> length bs" "length bs \<le> 255" "h \<le> 67"
    and "bs ! h = aps_onAirControl keyId"
  shows "aps_openCommand ecb (Some bs) h key room = Some (plain, fc, ieee) \<longleftrightarrow>
    aps_secureCommand ecb (take h bs) key keyId ieee fc plain (Some 255) = Some bs \<and> length plain \<le> room"
proof
  assume "aps_openCommand ecb (Some bs) h key room = Some (plain, fc, ieee)"
  then show "aps_secureCommand ecb (take h bs) key keyId ieee fc plain (Some 255) = Some bs \<and> length plain \<le> room"
    by (rule aps_opened_was_sealed [OF ecb_works_sized [OF assms(1)] assms(4,6)])
next
  assume a: "aps_secureCommand ecb (take h bs) key keyId ieee fc plain (Some 255) = Some bs \<and> length plain \<le> room"
  then have fits: "length (take h bs) + 17 + length plain \<le> 255" "length (take h bs) + 13 \<le> 80"
    using assms(3) by (auto simp: aps_secureCommand_def Let_def min_def split: if_splits)
  obtain c mic where s:
    "aps_secureCommand ecb (take h bs) key keyId ieee fc plain (Some 255) = Some (take h bs @ aps_aux keyId fc ieee @ c @ mic)"
    "aps_openCommand ecb (Some (take h bs @ aps_aux keyId fc ieee @ c @ mic)) (length (take h bs)) key room = Some (plain, fc, ieee)"
    by (rule aps_sealed [OF assms(1,2) fits(2,1) a [THEN conjunct2], of keyId ieee fc]) (rule that, assumption+)
  with a assms(3) show "aps_openCommand ecb (Some bs) h key room = Some (plain, fc, ieee)" by (simp add: min_def)
qed

text \<open>The three level bits of the control byte on air are read as 5.\<close>

lemma aps_openCommand_level:
  assumes "bs ! h AND NOT 7 = c AND NOT 7"
  shows "aps_openCommand ecb (Some (bs[h := c])) h key room = aps_openCommand ecb (Some bs) h key room"
proof (cases "h + 17 \<le> length bs")
  case False
  then show ?thesis by (simp add: aps_openCommand_def)
next
  case True
  let ?aux = "take 13 (drop h bs)" and ?b = "bs[h := c]"
  have aux: "take 13 (drop h ?b) = ?aux[0 := c]" using True by (simp add: drop_update_swap take_update_swap)
  have r: "length ?b = length bs" "take h ?b = take h bs" "drop (h + 13) ?b = drop (h + 13) bs"
    "drop (length bs - 4) ?b = drop (length bs - 4) bs"
    "take 4 (drop 1 (?aux[0 := c])) = take 4 (drop 1 ?aux)" "take 8 (drop 5 (?aux[0 := c])) = take 8 (drop 5 ?aux)"
    "?aux[0 := c] ! 0 AND NOT 7 = ?aux ! 0 AND NOT 7"
    "(take h bs @ ?aux[0 := c])[h := x] = (take h bs @ ?aux)[h := x]" for x
    using True assms by (simp_all add: list_update_append)
  show ?thesis unfolding aps_openCommand_def option.case Let_def aux r by (rule refl)
qed

text \<open>C33: Secured APS commands are exactly what opens. For a frame whose control byte is that of a key identifier,
  in whatever way the level bits are set, which the receiver ignores: opening it with a link key gives a plaintext, a
  counter and a sender exactly when securing that plaintext with that counter and sender under the same key
  gives the frame with the level bits clear. (A control byte with other bits is no sender's of the library.)\<close>

theorem aps_command_opens_iff_secured:
  assumes "ecb_works ecb" "length key = 16" "h + 17 \<le> length bs" "length bs \<le> 255" "h \<le> 67"
    and "bs ! h AND NOT 7 = aps_onAirControl keyId"
  shows "aps_openCommand ecb (Some bs) h key room = Some (plain, fc, ieee) \<longleftrightarrow>
    aps_secureCommand ecb (take h bs) key keyId ieee fc plain (Some 255) = Some (bs[h := aps_onAirControl keyId]) \<and>
    length plain \<le> room"
proof -
  let ?b = "bs[h := aps_onAirControl keyId]"
  have "bs ! h AND NOT 7 = aps_onAirControl keyId AND NOT 7" using assms(6) by (simp add: and.assoc flip: assms(6))
  then have "aps_openCommand ecb (Some ?b) h key room = aps_openCommand ecb (Some bs) h key room"
    by (rule aps_openCommand_level)
  then show ?thesis using aps_opens_iff [OF assms(1,2), of h ?b keyId room plain fc ieee] assms(3-5) by simp
qed

lemma aps_command_opens_iff_secured_witness:
  "\<exists>bs. aps_secureCommand ecb_example [0x21] (replicate 16 3) 2 77 5 [1, 2, 3] (Some 255) = Some bs \<and>
     aps_openCommand ecb_example (Some bs) 1 (replicate 16 3) 40 = Some ([1, 2, 3], 5, 77)"
proof -
  have k: "length (replicate 16 3 :: u8 list) = 16" by simp
  obtain c mic where s: "aps_secureCommand ecb_example [0x21] (replicate 16 3) 2 77 5 [1, 2, 3] (Some 255) =
      Some ([0x21] @ aps_aux 2 5 77 @ c @ mic)" "length c = length [1 :: u8, 2, 3]" "length mic = 4"
    by (rule aps_sealed [OF ecb_example_works k, of "[0x21]" "[1, 2, 3]" 255 255 2 77 5]) simp_all
  let ?bs = "[0x21] @ aps_aux 2 5 77 @ c @ mic"
  have "1 + 17 \<le> length ?bs" "length ?bs \<le> 255" "(1 :: nat) \<le> 67" "?bs ! 1 = aps_onAirControl 2" "take 1 ?bs = [0x21]"
    using s(2,3) by (simp_all add: nth_append)
  note b = this
  have c: "?bs ! 1 AND NOT 7 = aps_onAirControl 2" unfolding b(4) by (simp add: aps_onAirControl_def)
  have "?bs[1 := aps_onAirControl 2] = ?bs" using b(4) by (metis list_update_id)
  then show ?thesis
    using aps_command_opens_iff_secured [OF ecb_example_works k b(1-3) c, of 40 "[1, 2, 3]" 5 77] b(5) s(1) by simp
qed

section \<open>The link-key table\<close>

interpretation tcs: slot_table tc_used tc_ieee tc_entry0
  by unfold_locales (simp add: tc_entry0_def)

datatype tc_op = Provision u64 "u8 list" | Revoke u64

fun tc_step :: "tc_store \<Rightarrow> tc_op \<Rightarrow> tc_store \<times> bool" where
  "tc_step s (Provision k key) = tc_provision k key s"
| "tc_step s (Revoke k) = tc_remove k s"

text \<open>The specification: a map from devices to keys, of at most \<open>cap\<close> devices.\<close>

fun tm_step :: "nat \<Rightarrow> (u64 \<Rightarrow> u8 list option) \<Rightarrow> tc_op \<Rightarrow> (u64 \<Rightarrow> u8 list option) \<times> bool" where
  "tm_step cap m (Provision k key) =
     (if k \<in> dom m \<or> card (dom m) < cap then (m(k \<mapsto> take 16 key), True) else (m, False))"
| "tm_step cap m (Revoke k) = (m(k := None), k \<in> dom m)"

definition tc_map :: "tc_store \<Rightarrow> u64 \<Rightarrow> u8 list option" where
  "tc_map s k = (case tc_entries s of None \<Rightarrow> None | Some es \<Rightarrow> map_option tc_key (slot_get tc_used tc_ieee es k))"

definition tc_ok :: "nat \<Rightarrow> tc_store \<Rightarrow> bool" where
  "tc_ok cap s \<longleftrightarrow> (\<exists>es. tc_entries s = Some es \<and> length es = cap \<and> slot_uniq tc_used tc_ieee es)"

lemma tc_find_slot: "tc_entries s = Some es \<Longrightarrow> tc_find s k = slot_find tc_used tc_ieee es k"
  by (simp add: tc_find_def slot_find_def)

lemma tc_dom: "tc_entries s = Some es \<Longrightarrow> dom (tc_map s) = dom (slot_get tc_used tc_ieee es)"
  by (auto simp: tc_map_def)

lemma tc_step_refines:
  assumes "tc_ok cap s"
  shows "tc_ok cap (fst (tc_step s op)) \<and> tc_global (fst (tc_step s op)) = tc_global s \<and>
    tm_step cap (tc_map s) op = (tc_map (fst (tc_step s op)), snd (tc_step s op))"
proof -
  from assms obtain es where es: "tc_entries s = Some es" "length es = cap" "slot_uniq tc_used tc_ieee es"
    by (auto simp: tc_ok_def)
  have m: "tc_map s k = map_option tc_key (slot_get tc_used tc_ieee es k)" for k by (simp add: tc_map_def es(1))
  show ?thesis
  proof (cases op)
    case (Provision k key)
    define e where "e i = (es ! i)\<lparr>tc_used := True, tc_ieee := k, tc_key := take 16 key\<rparr>" for i
    have e: "tc_used (e i)" "tc_ieee (e i) = k" "tc_key (e i) = take 16 key" for i by (simp_all add: e_def)
    show ?thesis
    proof (cases "slot_find tc_used tc_ieee es k")
      case (Some i)
      then have "k \<in> dom (tc_map s)" by (simp add: m slot_get_def dom_def)
      moreover have "tc_provision k key s = (s\<lparr>tc_entries := Some (es[i := e i])\<rparr>, True)"
        using Some by (simp add: tc_provision_def tc_find_slot [OF es(1)] es(1) e_def)
      ultimately show ?thesis
        using Provision tcs.get_put_same_key [OF es(3) Some e(1,2)] es e
        by (auto simp: tc_ok_def tc_map_def fun_eq_iff)
    next
      case None
      then have k: "k \<notin> dom (tc_map s)" by (simp add: m slot_get_def dom_def)
      have c: "card (dom (tc_map s)) = used_count tc_used es" by (simp add: tc_dom [OF es(1)] slot_dom_card [OF es(3)])
      show ?thesis
      proof (cases "find_idx (\<lambda>e. \<not> tc_used e) es")
        case full: None
        then have "filter tc_used es = es" by (simp add: find_idx_None filter_id_conv)
        then have "card (dom (tc_map s)) = cap" using c es(2) by (simp add: used_count_def)
        moreover have "tc_provision k key s = (s, False)"
          using None full by (simp add: tc_provision_def tc_find_slot [OF es(1)] tc_firstFree_def es(1))
        ultimately show ?thesis using Provision k assms by simp
      next
        case (Some i)
        then have i: "i < length es" "\<not> tc_used (es ! i)" by (simp_all add: find_idx_bound find_idx_sat [of "\<lambda>e. \<not> tc_used e"])
        have "length (filter tc_used es) < length es" using length_filter_less [of "es ! i" es tc_used] i by simp
        then have "card (dom (tc_map s)) < cap" using c es(2) by (simp add: used_count_def)
        moreover have "tc_provision k key s = (s\<lparr>tc_entries := Some (es[i := e i])\<rparr>, True)"
          using None Some by (simp add: tc_provision_def tc_find_slot [OF es(1)] tc_firstFree_def es(1) e_def)
        ultimately show ?thesis
          using Provision tcs.get_put_new_key [OF es(3), of "e i" i] None es e i
          by (auto simp: tc_ok_def tc_map_def fun_eq_iff)
      qed
    qed
  next
    case (Revoke k)
    show ?thesis
    proof (cases "slot_find tc_used tc_ieee es k")
      case None
      then have "tc_map s k = None" by (simp add: m slot_get_def)
      then show ?thesis using Revoke None assms by (auto simp: tc_remove_def tc_find_slot [OF es(1)] fun_upd_idem)
    next
      case (Some i)
      then have "k \<in> dom (tc_map s)" by (simp add: m slot_get_def dom_def)
      then show ?thesis
        using Revoke Some tcs.get_clear [OF es(3) Some] tcs.uniq_clear [OF es(3)] es
        by (auto simp: tc_remove_def tc_find_slot [OF es(1)] tc_ok_def tc_map_def fun_eq_iff)
    qed
  qed
qed

lemma tc_run_refines:
  assumes "tc_ok cap s"
  shows "tc_ok cap (fst (run_results tc_step s ops)) \<and> tc_global (fst (run_results tc_step s ops)) = tc_global s \<and>
    run_results (tm_step cap) (tc_map s) ops =
      (tc_map (fst (run_results tc_step s ops)), snd (run_results tc_step s ops))"
  using assms
proof (induction ops arbitrary: s)
  case (Cons op ops)
  from tc_step_refines [OF Cons.prems, of op] Cons.IH [of "fst (tc_step s op)"] show ?case
    by (simp add: case_prod_beta Let_def)
qed simp

text \<open>The link-key table refines a bounded map. Whatever keys are provisioned and removed, the answers are
  those of a map from devices to keys that holds at most as many devices as the table has slots, and
  \<open>keyFor\<close> gives a device its own key if it has one and the global key otherwise.\<close>

theorem link_key_table_refines_map:
  assumes "run_results tc_step (tc_begin (Some storage) s) ops = (s', rs)"
    and "run_results (tm_step (length storage)) Map.empty ops = (m, rs')"
  shows "rs = rs' \<and> tc_hasPerDevice s' k = (k \<in> dom m) \<and>
    tc_keyFor s' k = (case m k of Some key \<Rightarrow> key | None \<Rightarrow> tc_global s)"
proof -
  let ?s = "tc_begin (Some storage) s"
  have r: "map (\<lambda>_. tc_entry0) storage = replicate (length storage) tc_entry0" by (simp add: map_replicate_const)
  have ok: "tc_ok (length storage) ?s" "tc_map ?s = Map.empty" "tc_global ?s = tc_global s"
    by (auto simp: tc_ok_def tc_begin_def tc_map_def r)
  from tc_run_refines [OF ok(1), of ops] assms ok(2,3)
  have f: "tc_ok (length storage) s'" "tc_global s' = tc_global s" "m = tc_map s'" "rs' = rs" by simp_all
  from f(1) obtain es where es: "tc_entries s' = Some es" by (auto simp: tc_ok_def)
  show ?thesis unfolding f(3,4) f(2) [symmetric]
    by (auto simp: tc_hasPerDevice_def tc_keyFor_def tc_map_def es tc_find_slot [OF es] slot_get_def split: option.split)
qed

lemma link_key_table_refines_map_witness:
  "\<exists>s'. fst (run_results tc_step (tc_begin (Some [tc_entry0]) tc_init)
       [Provision 7 (replicate 16 3), Provision 8 (replicate 16 4), Revoke 9]) = s' \<and>
     tc_keyFor s' 7 = replicate 16 3 \<and> tc_keyFor s' 8 = defaultTcLinkKey"
proof -
  let ?ops = "[Provision 7 (replicate 16 3), Provision 8 (replicate 16 4), Revoke 9]"
  obtain s' rs where r: "run_results tc_step (tc_begin (Some [tc_entry0]) tc_init) ?ops = (s', rs)" by fastforce
  have m: "run_results (tm_step (length [tc_entry0])) Map.empty ?ops = ([7 \<mapsto> replicate 16 3], [True, False, False])"
    by (simp add: Let_def fun_eq_iff)
  from link_key_table_refines_map [OF r m, of 7] link_key_table_refines_map [OF r m, of 8] r
  show ?thesis by (simp add: tc_init_def defaultTcLinkKey_def)
qed

lemma tc_provision_key:
  assumes "tc_provision k key s = (s', True)" "length key = 16"
  shows "tc_keyFor s' k = key"
proof -
  obtain i where i: "or_else (tc_find s k) (tc_firstFree s) = Some i"
    using assms(1) by (cases "or_else (tc_find s k) (tc_firstFree s)") (simp_all add: tc_provision_def)
  then obtain es where es: "tc_entries s = Some es" by (cases "tc_entries s") (simp_all add: tc_find_def tc_firstFree_def)
  let ?P = "\<lambda>e. tc_used e \<and> tc_ieee e = k" and ?e = "(es ! i)\<lparr>tc_used := True, tc_ieee := k, tc_key := take 16 key\<rparr>"
  have s': "s' = s\<lparr>tc_entries := Some (es[i := ?e])\<rparr>" using assms(1) i es by (simp add: tc_provision_def)
  have ib: "i < length es" using i es by (auto simp: tc_find_def tc_firstFree_def or_else_def find_idx_bound split: option.splits)
  have "find_idx ?P (es[i := ?e]) = Some i"
  proof (rule find_idx_SomeI)
    show "i < length (es[i := ?e])" "?P (es[i := ?e] ! i)" using ib by simp_all
    fix j assume j: "j < i"
    have "\<not> ?P (es ! j)"
    proof (cases "find_idx ?P es")
      case None
      then show ?thesis using j ib by (auto simp: find_idx_None)
    next
      case (Some i')
      then have "i' = i" using i es by (simp add: tc_find_def)
      then show ?thesis using find_idx_SomeD [OF Some] j by auto
    qed
    then show "\<not> ?P (es[i := ?e] ! j)" using j by simp
  qed
  then show ?thesis using ib assms(2) by (simp add: tc_keyFor_def s' tc_find_def)
qed

section \<open>Secure join\<close>

lemma ak_transport_roundtrip:
  assumes "tk_keyType t = 1 \<or> tk_keyType t = 5" "length (tk_key t) = 16" "35 \<le> outMax"
  obtains cmd where "ak_buildTransportNetworkKey (Some outMax) t = Some cmd" "length cmd = 35"
    "ak_parseTransportNetworkKey (Some cmd) = Some (True, t)"
proof -
  let ?cmd = "5 # tk_keyType t # tk_key t @ [tk_keySeqNumber t] @ le64 (tk_destAddress t) @ le64 (tk_srcAddress t)"
  have "ak_parseTransportNetworkKey (Some ?cmd) = Some (True, t)"
    using assms(1,2) by (auto simp: ak_parseTransportNetworkKey_def aps_transport_key0_def wire_simps
      rd_bytes_Cons rd_bytes_hit rd_bytes_skip)
  then show thesis using that [of ?cmd] assms by (simp add: ak_buildTransportNetworkKey_def)
qed

text \<open>C7: Secure join. The trust centre is told a device's install code; the device derives its link key from
  the code alone. Then both derive the same key-transport key, the Transport-Key command the centre
  sends installs the centre's network key and sequence number in the device, and every frame the
  centre secures from then on opens there, unchanged and with the centre's address.\<close>

theorem secure_join_delivers_network_key:
  assumes w: "ecb_works ecb"
    and code: "tc_provisionInstallCode ecb joiner (Some code) store = Some (store', True)"
    and tc: "sc_hasKey tc" "length (sc_key tc) = 16"
    and frame: "2 \<le> h" "h \<le> 26" "h \<le> length npdu" "length npdu + 18 \<le> 127"
  shows "\<exists>linkKey ktk command device secured tc' device'.
    ic_deriveLinkKey ecb (Some code) = Some (Some linkKey) \<and> tc_keyFor store' joiner = linkKey \<and>
    aps_deriveKeyTransportKey ecb linkKey = Some (Some ktk) \<and>
    sk_keyTransportCommand ecb ktk (sc_key tc) self joiner apsCounter tc = Some command \<and>
    sk_installNetworkKeyFrom ecb ktk command sc_init = Some (device, True) \<and>
    sc_hasKey device \<and> sc_key device = sc_key tc \<and> sc_keySequence device = sc_keySequence tc \<and>
    sc_secureNpdu ecb (Some npdu) h self frameCounter (Some 127) tc = Some (Some secured, tc') \<and>
    sc_openNpdu ecb (Some secured) h (Some 127) device = Some (Some (sc_setSecurityBit False npdu, self), device')"
proof -
  obtain linkKey where l: "ic_deriveLinkKey ecb (Some code) = Some (Some linkKey)"
    "tc_provision joiner linkKey store = (store', True)"
    using code by (auto simp: tc_provisionInstallCode_def split: option.splits)
  have v: "ic_validate (Some code)" "aps_aesMmoHash ecb code = Some (Some linkKey)"
    using l(1) by (auto simp: ic_deriveLinkKey_def split: if_splits)
  then have "length code \<le> 93" by (auto simp: ic_validate_def split: if_splits)
  from aps_hash_works [OF w this] v(2) have ll: "length linkKey = 16" by auto
  have key: "tc_keyFor store' joiner = linkKey"
    using l(2) ll tc_provision_key by blast
  obtain ktk where k: "aps_deriveKeyTransportKey ecb linkKey = Some (Some ktk)" "length ktk = 16"
    by (rule aps_hmac_works [OF w ll, of "[0]"]) (simp_all add: aps_deriveKeyTransportKey_def)
  let ?t = "\<lparr>tk_keyType = 1, tk_key = sc_key tc, tk_keySeqNumber = sc_keySequence tc, tk_destAddress = joiner, tk_srcAddress = self\<rparr>"
  obtain cmd where cmd: "ak_buildTransportNetworkKey (Some 40) ?t = Some cmd" "length cmd = 35"
    "ak_parseTransportNetworkKey (Some cmd) = Some (True, ?t)"
    by (rule ak_transport_roundtrip [of ?t 40]) (use tc in simp_all)
  obtain c mic where s:
    "aps_secureCommand ecb [0x21] ktk 2 self apsCounter cmd (Some 80) = Some ([0x21] @ aps_aux 2 apsCounter self @ c @ mic)"
    "aps_openCommand ecb (Some ([0x21] @ aps_aux 2 apsCounter self @ c @ mic)) (length [0x21 :: u8]) ktk 40 = Some (cmd, apsCounter, self)"
    by (rule aps_sealed [OF w k(2), of "[0x21]" cmd 80 40 2 self apsCounter]) (use cmd(2) in simp_all)
  let ?b = "[0x21] @ aps_aux 2 apsCounter self @ c @ mic" and ?d = "sc_setNetworkKey (sc_key tc) (sc_keySequence tc) sc_init"
  have send: "sk_keyTransportCommand ecb ktk (sc_key tc) self joiner apsCounter tc = Some ?b"
    using cmd(1) s(1) tc(2) by (simp add: sk_keyTransportCommand_def Let_def)
  have "cmd \<noteq> []" using cmd(2) by auto
  then have install: "sk_installNetworkKeyFrom ecb ktk ?b sc_init = Some (?d, True)"
    using s(2) cmd(3) by (simp add: sk_installNetworkKeyFrom_def)
  have d: "sc_hasKey ?d" "sc_key ?d = sc_key tc" "sc_keySequence ?d = sc_keySequence tc"
    "sc_selectKey (sc_keySequence tc) ?d = Some (sc_key tc)"
    "fst (sc_replayCheckAndUpdate self (sc_keySequence tc) frameCounter (sc_replay ?d)) = ReplayFresh"
    using tc(2) by (simp_all add: sc_setNetworkKey_def sc_init_def sc_resetReplayTable_def sc_selectKey_def
        sc_replayCheckAndUpdate_def replay0_def numeral_eq_Suc)
  from sc_deliver [OF w tc frame _ d(1,4) _ d(5), where outMax' = 127] frame(4) obtain secured tc' device' where
    "sc_secureNpdu ecb (Some npdu) h self frameCounter (Some 127) tc = Some (Some secured, tc')"
    "sc_openNpdu ecb (Some secured) h (Some 127) ?d = Some (Some (sc_setSecurityBit False npdu, self), device')"
    by auto
  with l(1) key k(1) send install d(1-3) show ?thesis by blast
qed

lemma secure_join_delivers_network_key_witness:
  "\<exists>code ktk command device secured tc' device'.
    ic_build (Some [0x83, 0xFE, 0xD3, 0x40, 0x7A, 0x93]) (Some 8) = Some code \<and>
    sk_keyTransportCommand ecb_example ktk (replicate 16 9) 1 2 5 (sc_setNetworkKey (replicate 16 9) 3 sc_init) = Some command \<and>
    sk_installNetworkKeyFrom ecb_example ktk command sc_init = Some (device, True) \<and> sc_keySequence device = 3 \<and>
    sc_secureNpdu ecb_example (Some [0x08, 0x04, 1, 2, 3, 4, 30, 7, 42]) 8 1 100 (Some 127)
      (sc_setNetworkKey (replicate 16 9) 3 sc_init) = Some (Some secured, tc') \<and>
    sc_openNpdu ecb_example (Some secured) 8 (Some 127) device = Some (Some ([0x08, 0x04, 1, 2, 3, 4, 30, 7, 42], 1), device')"
proof -
  let ?tc = "sc_setNetworkKey (replicate 16 9) 3 sc_init" and ?npdu = "[0x08, 0x04, 1, 2, 3, 4, 30, 7, 42] :: u8 list"
  obtain code where c: "ic_build (Some [0x83, 0xFE, 0xD3, 0x40, 0x7A, 0x93]) (Some 8) = Some code" "length code = 8"
    by (simp add: ic_build_def Let_def)
  obtain key where k: "aps_aesMmoHash ecb_example code = Some (Some key)"
    by (rule aps_hash_works [OF ecb_example_works, of code]) (use c(2) in simp_all)
  obtain store' where p: "tc_provisionInstallCode ecb_example 2 (Some code) (tc_begin (Some [tc_entry0]) tc_init) = Some (store', True)"
    using k ic_built_valid [OF c(1)]
    by (simp add: tc_provisionInstallCode_def ic_deriveLinkKey_def tc_provision_def tc_find_def tc_firstFree_def tc_begin_def tc_entry0_def)
  have "sc_hasKey ?tc" "length (sc_key ?tc) = 16" "(2 :: nat) \<le> 8" "(8 :: nat) \<le> 26" "8 \<le> length ?npdu" "length ?npdu + 18 \<le> 127"
    "sc_key ?tc = replicate 16 9" "sc_keySequence ?tc = 3" "sc_setSecurityBit False ?npdu = ?npdu"
    by (simp_all add: sc_setNetworkKey_def sc_setSecurityBit_def)
  with secure_join_delivers_network_key [OF ecb_example_works p this(1-6), of 1 5 100] c(1) show ?thesis by metis
qed

end
