(* ===== verification/ZbPanId.thy ===== *)
theory ZbPanId
  imports ZbPrelude
begin

text \<open>
  \<open>ZigbeePanIdConflict.h\<close>: the Network Report and Network Update command payloads, the
  half-window comparison of update ids, and the network manager that notes the PAN ids it hears,
  picks a fresh one, announces a change and applies the changes of others.

  The array \<open>heard_\<close> is a list of 16 entries; \<open>noteBeacon\<close> answers whether the beacon conflicts.
\<close>

section \<open>Network Report and Network Update\<close>

abbreviation (input) "NWK_UPDATE_PAN_ID \<equiv> (0 :: u8)"
abbreviation (input) "NWK_UPDATE_CHANNEL \<equiv> (1 :: u8)"

definition kMaxPanIds :: nat where "kMaxPanIds = 8"
definition kMaxHeardPanIds :: nat where "kMaxHeardPanIds = 16"

lemmas pan_consts [simp] = kMaxPanIds_def kMaxHeardPanIds_def

text \<open>
  The constructor of a report leaves the array \<open>panIds\<close> as it is; the model keeps the entries
  that have been stored.
\<close>

record nwk_report =
  nr_reportType :: u8
  nr_extendedPanId :: u64
  nr_count :: u8
  nr_panIds :: "u16 list"

definition nwk_report0 :: nwk_report where
  "nwk_report0 = \<lparr>nr_reportType = 0, nr_extendedPanId = 0, nr_count = 0, nr_panIds = []\<rparr>"

record nwk_update =
  nu_updateType :: u8
  nu_extendedPanId :: u64
  nu_updateId :: u8
  nu_newPanId :: u16
  nu_newChannel :: u8

definition nwk_update0 :: nwk_update where
  "nwk_update0 = \<lparr>nu_updateType = 0, nu_extendedPanId = 0, nu_updateId = 0, nu_newPanId = 0,
     nu_newChannel = 0\<rparr>"

definition pc_isConflict :: "u16 \<Rightarrow> u64 \<Rightarrow> u16 \<Rightarrow> u64 \<Rightarrow> bool" where
  "pc_isConflict ourPanId ourExtPanId heardPanId heardExtPanId =
     (heardPanId = ourPanId \<and> heardExtPanId \<noteq> ourExtPanId)"

definition pc_buildReport :: "out_buf \<Rightarrow> nwk_report \<Rightarrow> u8 list option" where
  "pc_buildReport out r =
     (case out of None \<Rightarrow> None | Some outMax \<Rightarrow>
        if unat (nr_count r) > kMaxPanIds then None
        else if outMax < cast8 (1 + 8 + unat (nr_count r) * 2) then None
        else Some ((push_bit 5 (nr_reportType r AND 0x07) OR (nr_count r AND 0x1F)) #
               le64 (nr_extendedPanId r) @
               concat (map le16 (take (unat (nr_count r)) (nr_panIds r)))))"

text \<open>The loop that reads \<open>n\<close> PAN ids from offset \<open>p\<close> on.\<close>

primrec pc_readPanIds :: "u8 list \<Rightarrow> nat \<Rightarrow> nat \<Rightarrow> u16 list option" where
  "pc_readPanIds bs p 0 = Some []"
| "pc_readPanIds bs p (Suc n) = do {
     x \<leftarrow> rd16 bs p;
     xs \<leftarrow> pc_readPanIds bs (p + 2) n;
     Some (x # xs)
   }"

definition pc_parseReport :: "ptr \<Rightarrow> (bool \<times> nwk_report) option" where
  "pc_parseReport payload =
     (case payload of None \<Rightarrow> Some (False, nwk_report0) | Some bs \<Rightarrow>
      if length bs < 9 then Some (False, nwk_report0)
      else do {
        options \<leftarrow> rd8 bs 0;
        let r = nwk_report0\<lparr>nr_reportType := drop_bit 5 options AND 0x07,
                            nr_count := options AND 0x1F\<rparr>;
        if unat (nr_count r) > kMaxPanIds then Some (False, r)
        else if length bs < cast8 (9 + unat (nr_count r) * 2) then Some (False, r)
        else do {
          epid \<leftarrow> rd64 bs 1;
          ids \<leftarrow> pc_readPanIds bs 9 (unat (nr_count r));
          Some (True, r\<lparr>nr_extendedPanId := epid, nr_panIds := ids\<rparr>)
        }
      })"

definition pc_buildUpdate :: "out_buf \<Rightarrow> nwk_update \<Rightarrow> u8 list option" where
  "pc_buildUpdate out u =
     (case out of None \<Rightarrow> None | Some outMax \<Rightarrow>
        if outMax < 12 then None
        else Some ((push_bit 5 (nu_updateType u AND 0x07) OR 0x01) #
               le64 (nu_extendedPanId u) @ [nu_updateId u] @ le16 (nu_newPanId u)))"

definition pc_parseUpdate :: "ptr \<Rightarrow> (bool \<times> nwk_update) option" where
  "pc_parseUpdate payload =
     (case payload of None \<Rightarrow> Some (False, nwk_update0) | Some bs \<Rightarrow>
      if length bs < 12 then Some (False, nwk_update0)
      else do {
        options \<leftarrow> rd8 bs 0;
        epid \<leftarrow> rd64 bs 1;
        uid \<leftarrow> rd8 bs 9;
        pan \<leftarrow> rd16 bs 10;
        Some (True, nwk_update0\<lparr>nu_updateType := drop_bit 5 options AND 0x07,
          nu_extendedPanId := epid, nu_updateId := uid, nu_newPanId := pan\<rparr>)
      })"

definition pc_buildChannelUpdate :: "out_buf \<Rightarrow> nwk_update \<Rightarrow> u8 list option" where
  "pc_buildChannelUpdate out u =
     (case out of None \<Rightarrow> None | Some outMax \<Rightarrow>
        if outMax < 11 then None
        else Some ((push_bit 5 (NWK_UPDATE_CHANNEL AND 0x07) OR 0x01) #
               le64 (nu_extendedPanId u) @ [nu_updateId u, nu_newChannel u]))"

definition pc_parseChannelUpdate :: "ptr \<Rightarrow> (bool \<times> nwk_update) option" where
  "pc_parseChannelUpdate payload =
     (case payload of None \<Rightarrow> Some (False, nwk_update0) | Some bs \<Rightarrow>
      if length bs < 11 then Some (False, nwk_update0)
      else do {
        options \<leftarrow> rd8 bs 0;
        let u = nwk_update0\<lparr>nu_updateType := drop_bit 5 options AND 0x07\<rparr>;
        if nu_updateType u \<noteq> NWK_UPDATE_CHANNEL then Some (False, u)
        else do {
          epid \<leftarrow> rd64 bs 1;
          uid \<leftarrow> rd8 bs 9;
          ch \<leftarrow> rd8 bs 10;
          Some (True, u\<lparr>nu_extendedPanId := epid, nu_updateId := uid, nu_newChannel := ch\<rparr>)
        }
      })"

definition pc_updateIdIsNewer :: "u8 \<Rightarrow> u8 \<Rightarrow> bool" where
  "pc_updateIdIsNewer incoming current = (incoming - current \<noteq> 0 \<and> incoming - current < 128)"

section \<open>The network manager\<close>

record net_manager =
  pm_panId :: u16
  pm_extPanId :: u64
  pm_channel :: u8
  pm_updateId :: u8
  pm_heard :: "u16 list"
  pm_heardCount :: nat
  pm_evict :: nat

definition pm_init :: net_manager where
  "pm_init = \<lparr>pm_panId = 0, pm_extPanId = 0, pm_channel = 11, pm_updateId = 0,
     pm_heard = replicate kMaxHeardPanIds 0, pm_heardCount = 0, pm_evict = 0\<rparr>"

definition pm_begin :: "net_manager \<Rightarrow> u16 \<Rightarrow> u64 \<Rightarrow> u8 \<Rightarrow> u8 \<Rightarrow> net_manager" where
  "pm_begin m panId extPanId channel nwkUpdateId =
     m\<lparr>pm_panId := panId, pm_extPanId := extPanId, pm_channel := channel,
       pm_updateId := nwkUpdateId, pm_heardCount := 0\<rparr>"

definition pm_isHeard :: "net_manager \<Rightarrow> u16 \<Rightarrow> bool" where
  "pm_isHeard m panId = (panId \<in> set (take (pm_heardCount m) (pm_heard m)))"

definition pm_recordHeardPanId :: "net_manager \<Rightarrow> u16 \<Rightarrow> net_manager" where
  "pm_recordHeardPanId m panId =
     (if pm_isHeard m panId then m
      else if pm_heardCount m < kMaxHeardPanIds then
        m\<lparr>pm_heard := (pm_heard m)[pm_heardCount m := panId], pm_heardCount := pm_heardCount m + 1\<rparr>
      else
        m\<lparr>pm_heard := (pm_heard m)[pm_evict m := panId],
          pm_evict := cast8 ((pm_evict m + 1) mod kMaxHeardPanIds)\<rparr>)"

definition pm_noteBeacon :: "net_manager \<Rightarrow> u16 \<Rightarrow> u64 \<Rightarrow> bool \<times> net_manager" where
  "pm_noteBeacon m heardPanId heardExtPanId =
     (let m1 = pm_recordHeardPanId m heardPanId
      in (pc_isConflict (pm_panId m1) (pm_extPanId m1) heardPanId heardExtPanId, m1))"

text \<open>The search loop: \<open>n\<close> candidates are left, \<open>cand\<close> is the next.\<close>

primrec pm_selectFrom :: "net_manager \<Rightarrow> u16 \<Rightarrow> nat \<Rightarrow> u16" where
  "pm_selectFrom m cand 0 = pm_panId m"
| "pm_selectFrom m cand (Suc n) =
     (if cand = 0x0000 \<or> cand = 0xFFFF then pm_selectFrom m (cand + 1) n
      else if cand = pm_panId m then pm_selectFrom m (cand + 1) n
      else if \<not> pm_isHeard m cand then cand
      else pm_selectFrom m (cand + 1) n)"

definition pm_selectNewPanId :: "net_manager \<Rightarrow> u16 \<Rightarrow> u16" where
  "pm_selectNewPanId m seed = pm_selectFrom m seed 0xFFFE"

definition pm_buildPanIdChange :: "net_manager \<Rightarrow> out_buf \<Rightarrow> u16 \<Rightarrow> u8 list option" where
  "pm_buildPanIdChange m out newPanId =
     pc_buildUpdate out (nwk_update0\<lparr>nu_updateType := NWK_UPDATE_PAN_ID,
       nu_extendedPanId := pm_extPanId m, nu_updateId := pm_updateId m + 1,
       nu_newPanId := newPanId\<rparr>)"

definition pm_buildChannelChange :: "net_manager \<Rightarrow> out_buf \<Rightarrow> u8 \<Rightarrow> u8 list option" where
  "pm_buildChannelChange m out newChannel =
     pc_buildChannelUpdate out (nwk_update0\<lparr>nu_updateType := NWK_UPDATE_CHANNEL,
       nu_extendedPanId := pm_extPanId m, nu_updateId := pm_updateId m + 1,
       nu_newChannel := newChannel\<rparr>)"

definition pm_applyUpdate :: "net_manager \<Rightarrow> nwk_update \<Rightarrow> bool \<times> net_manager" where
  "pm_applyUpdate m u =
     (if nu_extendedPanId u \<noteq> pm_extPanId m then (False, m)
      else if \<not> pc_updateIdIsNewer (nu_updateId u) (pm_updateId m) then (False, m)
      else if nu_updateType u = NWK_UPDATE_PAN_ID then
        (True, m\<lparr>pm_panId := nu_newPanId u, pm_updateId := nu_updateId u\<rparr>)
      else if nu_updateType u = NWK_UPDATE_CHANNEL then
        (True, m\<lparr>pm_channel := nu_newChannel u, pm_updateId := nu_updateId u\<rparr>)
      else (False, m))"

definition pm_commitPanId :: "net_manager \<Rightarrow> u16 \<Rightarrow> net_manager" where
  "pm_commitPanId m newPanId = m\<lparr>pm_panId := newPanId, pm_updateId := pm_updateId m + 1\<rparr>"

definition pm_commitChannel :: "net_manager \<Rightarrow> u8 \<Rightarrow> net_manager" where
  "pm_commitChannel m newChannel = m\<lparr>pm_channel := newChannel, pm_updateId := pm_updateId m + 1\<rparr>"

end
