(* ===== verification/ZbPanIdFacts.thy ===== *)
theory ZbPanIdFacts
  imports ZbPanId
begin

text \<open>
  What the PAN id machinery guarantees: the payloads round-trip, a fresh PAN id is found within
  twenty candidates and is none that was heard, and PAN id changes reach every node whatever
  announcements it lost, repeated or received late.
\<close>

section \<open>Payloads\<close>

lemma bits_u8: fixes a b :: u8
  shows "drop_bit 5 (push_bit 5 (a AND 7) OR (b AND 31)) AND 7 = a AND 7"
    and "(push_bit 5 (a AND 7) OR (b AND 31)) AND 31 = b AND 31"
proof -
  have c: "(7 :: u8) = mask 3" "(31 :: u8) = mask 5" by (simp_all add: mask_eq_exp_minus_1)
  show "drop_bit 5 (push_bit 5 (a AND 7) OR (b AND 31)) AND 7 = a AND 7"
    unfolding c by (rule bit_word_eqI) (auto simp: bit_simps)
  show "(push_bit 5 (a AND 7) OR (b AND 31)) AND 31 = b AND 31"
    unfolding c by (rule bit_word_eqI) (auto simp: bit_simps)
qed

lemma and_small: "unat (b :: u8) < 32 \<Longrightarrow> b AND 31 = b" "unat (a :: u8) < 8 \<Longrightarrow> a AND 7 = a"
proof -
  have c: "(7 :: u8) = mask 3" "(31 :: u8) = mask 5" by (simp_all add: mask_eq_exp_minus_1)
  show "unat b < 32 \<Longrightarrow> b AND 31 = b" "unat a < 8 \<Longrightarrow> a AND 7 = a"
    unfolding c by (simp_all only: take_bit_eq_mask [symmetric], simp_all add: take_bit_small)
qed

lemma readPanIds_concat:
  "length pre = p \<Longrightarrow> pc_readPanIds (pre @ concat (map le16 xs)) p (length xs) = Some xs"
proof (induction xs arbitrary: p pre)
  case (Cons x xs)
  have "pc_readPanIds ((pre @ le16 x) @ concat (map le16 xs)) (p + 2) (length xs) = Some xs"
    using Cons.prems by (intro Cons.IH) simp
  with Cons.prems show ?case by (simp add: wire_simps)
qed simp

lemma report_roundtrip:
  assumes "unat (nr_count r) \<le> 8" "length (nr_panIds r) = 8" "unat (nr_reportType r) < 8"
    "9 + 2 * unat (nr_count r) \<le> outMax"
  shows "\<exists>bs. pc_buildReport (Some outMax) r = Some bs \<and> length bs \<le> outMax \<and>
    pc_parseReport (Some bs) = Some (True, r\<lparr>nr_panIds := take (unat (nr_count r)) (nr_panIds r)\<rparr>)"
proof -
  let ?xs = "take (unat (nr_count r)) (nr_panIds r)"
  let ?o = "push_bit 5 (nr_reportType r AND 0x07) OR (nr_count r AND 0x1F)"
  let ?bs = "?o # le64 (nr_extendedPanId r) @ concat (map le16 ?xs)"
  have lx: "length ?xs = unat (nr_count r)" using assms by simp
  have "pc_readPanIds ((?o # le64 (nr_extendedPanId r)) @ concat (map le16 ?xs)) 9 (length ?xs) = Some ?xs"
    by (rule readPanIds_concat) simp
  then have rd: "pc_readPanIds ?bs 9 (unat (nr_count r)) = Some ?xs" using lx by simp
  obtain opt where opt: "opt = ?o" by blast
  have bits: "drop_bit 5 opt AND 7 = nr_reportType r" "opt AND 31 = nr_count r"
    unfolding opt by (simp_all only: bits_u8) (use assms in \<open>simp_all add: and_small\<close>)
  have built: "pc_buildReport (Some outMax) r =
      Some (opt # le64 (nr_extendedPanId r) @ concat (map le16 ?xs))"
    using assms unfolding opt pc_buildReport_def by (simp del: take_map)
  show ?thesis
    unfolding built using assms lx rd [folded opt] bits
    by (simp add: pc_parseReport_def wire_simps nwk_report0_def)
qed

lemma update_roundtrip:
  assumes "nu_updateType u = NWK_UPDATE_PAN_ID" "nu_newChannel u = 0" "12 \<le> outMax"
  shows "\<exists>bs. pc_buildUpdate (Some outMax) u = Some bs \<and> length bs = 12 \<and>
    pc_parseUpdate (Some bs) = Some (True, u)"
  using assms
  by (simp add: pc_buildUpdate_def pc_parseUpdate_def wire_simps nwk_update0_def)

lemma channel_update_roundtrip:
  assumes "nu_updateType u = NWK_UPDATE_CHANNEL" "nu_newPanId u = 0" "11 \<le> outMax"
  shows "\<exists>bs. pc_buildChannelUpdate (Some outMax) u = Some bs \<and> length bs = 11 \<and>
    pc_parseChannelUpdate (Some bs) = Some (True, u)"
  using assms
  by (simp add: pc_buildChannelUpdate_def pc_parseChannelUpdate_def wire_simps nwk_update0_def)

section \<open>A fresh PAN id\<close>

datatype pm_op = PmBeacon u16 u64 | PmApply nwk_update | PmCommitPan u16 | PmCommitChannel u8

fun pm_step :: "net_manager \<Rightarrow> pm_op \<Rightarrow> net_manager" where
  "pm_step m (PmBeacon p e) = snd (pm_noteBeacon m p e)"
| "pm_step m (PmApply u) = snd (pm_applyUpdate m u)"
| "pm_step m (PmCommitPan p) = pm_commitPanId m p"
| "pm_step m (PmCommitChannel c) = pm_commitChannel m c"

fun pm_ear :: "pm_op \<Rightarrow> u16 set" where
  "pm_ear (PmBeacon p e) = {p}"
| "pm_ear _ = {}"

definition pm_run :: "net_manager \<Rightarrow> pm_op list \<Rightarrow> net_manager" where
  "pm_run m ops = foldl pm_step m ops"

definition pm_heardIn :: "pm_op list \<Rightarrow> u16 set" where
  "pm_heardIn ops = \<Union> (pm_ear ` set ops)"

text \<open>The ring holds distinct ids that were heard, and all of them while they are at most 16.\<close>

definition pm_ring :: "net_manager \<Rightarrow> u16 set \<Rightarrow> bool" where
  "pm_ring m H \<longleftrightarrow> length (pm_heard m) = 16 \<and> pm_heardCount m \<le> 16 \<and> pm_evict m < 16 \<and>
     distinct (take (pm_heardCount m) (pm_heard m)) \<and>
     (card H \<le> 16 \<longrightarrow> set (take (pm_heardCount m) (pm_heard m)) = H)"

lemma pm_ring_begin: "pm_ring (pm_begin pm_init pan ext ch uid) {}"
  by (simp add: pm_ring_def pm_begin_def pm_init_def)

lemma pm_ring_record:
  assumes r: "pm_ring m H" and H: "finite H"
  shows "pm_ring (pm_recordHeardPanId m p) (insert p H)"
proof -
  let ?l = "take (pm_heardCount m) (pm_heard m)"
  have len: "length (pm_heard m) = 16" and cnt: "pm_heardCount m \<le> 16" and ev: "pm_evict m < 16"
    and d: "distinct ?l" and all: "card H \<le> 16 \<Longrightarrow> set ?l = H"
    using r by (auto simp: pm_ring_def)
  have smaller: "card H \<le> 16" if "card (insert p H) \<le> 16"
    using that card_mono [of "insert p H" H] H by (meson finite_insert le_trans subset_insertI)
  consider (known) "pm_isHeard m p" | (room) "\<not> pm_isHeard m p" "pm_heardCount m < 16"
    | (full) "\<not> pm_isHeard m p" "pm_heardCount m = 16" using cnt by linarith
  then show ?thesis
  proof cases
    case known
    then have "p \<in> set ?l" by (simp add: pm_isHeard_def)
    then show ?thesis
      using r known smaller all by (auto simp: pm_ring_def pm_recordHeardPanId_def insert_absorb)
  next
    case room
    have "take (Suc (pm_heardCount m)) ((pm_heard m)[pm_heardCount m := p]) = ?l @ [p]"
      using room len by (simp add: take_Suc_conv_app_nth)
    then show ?thesis
      using room len ev d all smaller
      by (auto simp: pm_ring_def pm_recordHeardPanId_def pm_isHeard_def)
  next
    case full
    then have l: "?l = pm_heard m" using len by simp
    then have p: "p \<notin> set (pm_heard m)" using full by (simp add: pm_isHeard_def)
    have "\<not> card (insert p H) \<le> 16"
    proof
      assume c: "card (insert p H) \<le> 16"
      then have "H = set (pm_heard m)" using all smaller l by auto
      then have "card (insert p H) = 17" using p d l len by (simp add: distinct_card)
      with c show False by simp
    qed
    then show ?thesis
      using full len ev d l p by (simp add: pm_ring_def pm_recordHeardPanId_def distinct_list_update
          mod_less_divisor)
  qed
qed

lemma pm_ring_step:
  assumes "pm_ring m H" "finite H"
  shows "pm_ring (pm_step m act) (pm_ear act \<union> H)"
proof (cases act)
  case (PmBeacon p e)
  with assms show ?thesis by (simp add: pm_noteBeacon_def Let_def pm_ring_record)
qed (use assms in \<open>simp_all add: pm_ring_def pm_applyUpdate_def pm_commitPanId_def
  pm_commitChannel_def\<close>)

lemma pm_heardIn_snoc: "pm_heardIn (ops @ [act]) = pm_ear act \<union> pm_heardIn ops"
  by (simp add: pm_heardIn_def)

lemma finite_pm_heardIn [simp]: "finite (pm_heardIn ops)"
proof -
  have "finite (pm_ear act)" for act by (cases act) simp_all
  then show ?thesis by (simp add: pm_heardIn_def)
qed

lemma pm_ring_run: "pm_ring (pm_run (pm_begin pm_init pan ext ch uid) ops) (pm_heardIn ops)"
proof (induction ops rule: rev_induct)
  case Nil
  then show ?case by (simp add: pm_run_def pm_heardIn_def pm_ring_begin)
next
  case (snoc act ops)
  then show ?case by (simp add: pm_run_def pm_heardIn_snoc pm_ring_step)
qed

definition pm_usable :: "net_manager \<Rightarrow> u16 \<Rightarrow> bool" where
  "pm_usable m c \<longleftrightarrow> c \<noteq> 0 \<and> c \<noteq> 0xFFFF \<and> c \<noteq> pm_panId m \<and> \<not> pm_isHeard m c"

lemma pm_selectFrom_finds:
  "k < n \<Longrightarrow> pm_usable m (c + of_nat k) \<Longrightarrow>
     \<exists>j\<le>k. pm_selectFrom m c n = c + of_nat j \<and> pm_usable m (c + of_nat j)"
proof (induction n arbitrary: c k)
  case (Suc n)
  show ?case
  proof (cases "pm_usable m c")
    case True
    then show ?thesis by (intro exI [of _ 0]) (simp add: pm_usable_def)
  next
    case False
    then have next_c: "pm_selectFrom m c (Suc n) = pm_selectFrom m (c + 1) n" by (auto simp: pm_usable_def)
    obtain k' where k': "k = Suc k'" using False Suc.prems by (cases k) auto
    then have "pm_usable m (c + 1 + of_nat k')" using Suc.prems by (simp add: algebra_simps)
    from Suc.IH [OF _ this] k' Suc.prems obtain j where
      "j \<le> k'" "pm_selectFrom m (c + 1) n = c + 1 + of_nat j" "pm_usable m (c + 1 + of_nat j)" by auto
    then show ?thesis using next_c k' by (intro exI [of _ "Suc j"]) (simp add: algebra_simps)
  qed
qed simp

text \<open>At most 19 of twenty consecutive candidates are excluded.\<close>

lemma pm_usable_near:
  assumes "pm_ring m H"
  shows "\<exists>k<20. pm_usable m (c + of_nat k)"
proof (rule ccontr)
  assume none: "\<not> ?thesis"
  let ?bad = "{0, 0xFFFF, pm_panId m} \<union> set (take (pm_heardCount m) (pm_heard m))"
  have "(\<lambda>k. c + of_nat k) ` {..<20} \<subseteq> ?bad"
    using none by (auto simp: pm_usable_def pm_isHeard_def)
  moreover have "inj_on (\<lambda>k. c + of_nat k :: u16) {..<20}"
  proof (rule inj_onI)
    fix x y :: nat
    assume xy: "x \<in> {..<20}" "y \<in> {..<20}" "c + of_nat x = c + (of_nat y :: u16)"
    then have "unat (of_nat x :: u16) = unat (of_nat y :: u16)" by simp
    then show "x = y" using xy by (simp add: unsigned_of_nat take_bit_nat_eq_self)
  qed
  ultimately have "20 \<le> card ?bad"
    using card_mono [of ?bad "(\<lambda>k. c + of_nat k) ` {..<20}"] by (simp add: card_image)
  also have "\<dots> \<le> card {0, 0xFFFF, pm_panId m} + card (set (take (pm_heardCount m) (pm_heard m)))"
    by (rule card_Un_le)
  also have "\<dots> \<le> 3 + 16"
  proof (rule add_mono)
    show "card {0, 0xFFFF, pm_panId m} \<le> 3" by (simp add: card_insert_if)
    show "card (set (take (pm_heardCount m) (pm_heard m))) \<le> 16"
      by (rule order_trans [OF card_length]) (use assms in \<open>simp add: pm_ring_def\<close>)
  qed
  finally show False by simp
qed

lemma pm_select_usable:
  assumes "pm_ring m H"
  shows "\<exists>j<20. pm_selectNewPanId m seed = seed + of_nat j \<and> pm_usable m (seed + of_nat j)"
proof -
  obtain k where k: "k < 20" "pm_usable m (seed + of_nat k)" using pm_usable_near [OF assms] by blast
  have "k < 0xFFFE" using k by simp
  from pm_selectFrom_finds [OF this k(2)] k(1) show ?thesis
    unfolding pm_selectNewPanId_def by (meson le_less_trans)
qed

text \<open>The PAN id that the manager picks is a fresh one. After any sequence of beacons, applied
  updates and commits that heard at most sixteen PAN ids, \<open>selectNewPanId\<close> answers, from any
  seed, an id that is neither 0 nor the broadcast id, nor the current one, nor any id heard, and
  it finds it within twenty candidates.
\<close>

theorem new_pan_id_is_fresh:
  assumes "card (pm_heardIn ops) \<le> 16" and m_def: "m = pm_run (pm_begin pm_init pan ext ch uid) ops"
  shows "pm_selectNewPanId m seed \<notin> {0, 0xFFFF, pm_panId m} \<union> pm_heardIn ops \<and>
    (\<exists>j<20. pm_selectNewPanId m seed = seed + of_nat j)"
proof -
  have r: "pm_ring m (pm_heardIn ops)" unfolding m_def by (rule pm_ring_run)
  have fresh: "pm_usable m x \<longleftrightarrow> x \<notin> {0, 0xFFFF, pm_panId m} \<union> pm_heardIn ops" for x
    using assms(1) r by (auto simp: pm_usable_def pm_isHeard_def pm_ring_def)
  from pm_select_usable [OF r, of seed] obtain j where
    "j < 20" "pm_selectNewPanId m seed = seed + of_nat j" "pm_usable m (pm_selectNewPanId m seed)" by auto
  then show ?thesis unfolding fresh by blast
qed

theorem new_pan_id_is_fresh_witness:
  "let ops = [PmBeacon 0x1A63 7, PmCommitPan 0x1A62];
       m = pm_run (pm_begin pm_init 5 9 11 0) ops
   in card (pm_heardIn ops) \<le> 16 \<and> pm_selectNewPanId m 0x1A62 \<notin> {0, 0xFFFF, pm_panId m} \<union> pm_heardIn ops"
proof -
  let ?ops = "[PmBeacon 0x1A63 7, PmCommitPan 0x1A62]"
  let ?m = "pm_run (pm_begin pm_init 5 9 11 0) ?ops"
  have c: "card (pm_heardIn ?ops) \<le> 16" by (simp add: pm_heardIn_def)
  have "pm_selectNewPanId ?m 0x1A62 \<notin> {0, 0xFFFF, pm_panId ?m} \<union> pm_heardIn ?ops"
    using new_pan_id_is_fresh [OF c refl, where seed = "0x1A62"] by blast
  with c show ?thesis by (simp only: Let_def simp_thms)
qed

section \<open>A change reaches the network\<close>

text \<open>
  The manager announces the PAN ids \<open>ps\<close> one after the other and commits each. Announcement \<open>k\<close>
  is the frame it builds after \<open>k\<close> commits; a node that receives a frame parses it and applies it.
\<close>

definition pm_after :: "net_manager \<Rightarrow> u16 list \<Rightarrow> net_manager" where
  "pm_after m ps = foldl pm_commitPanId m ps"

definition pm_announcement :: "net_manager \<Rightarrow> u16 list \<Rightarrow> nat \<Rightarrow> ptr" where
  "pm_announcement m ps k = pm_buildPanIdChange (pm_after m (take k ps)) (Some 12) (ps ! k)"

definition pm_receive :: "net_manager \<Rightarrow> ptr \<Rightarrow> net_manager" where
  "pm_receive w frame =
     (case pc_parseUpdate frame of Some (True, u) \<Rightarrow> snd (pm_applyUpdate w u) | _ \<Rightarrow> w)"

lemma pm_after_fields:
  "pm_extPanId (pm_after m ps) = pm_extPanId m"
  "pm_updateId (pm_after m ps) = pm_updateId m + of_nat (length ps)"
  "pm_panId (pm_after m ps) = (if ps = [] then pm_panId m else last ps)"
  "pm_channel (pm_after m ps) = pm_channel m"
  by (induction ps rule: rev_induct) (simp_all add: pm_after_def pm_commitPanId_def)

lemma pm_receive_announcement:
  assumes "k < length ps" "pm_extPanId w = pm_extPanId m"
  shows "pm_receive w (pm_announcement m ps k) =
    (if pc_updateIdIsNewer (pm_updateId m + of_nat (Suc k)) (pm_updateId w)
     then w\<lparr>pm_panId := ps ! k, pm_updateId := pm_updateId m + of_nat (Suc k)\<rparr> else w)"
proof -
  let ?u = "nwk_update0\<lparr>nu_updateType := NWK_UPDATE_PAN_ID, nu_extendedPanId := pm_extPanId m,
       nu_updateId := pm_updateId m + of_nat (Suc k), nu_newPanId := ps ! k\<rparr>"
  have "pm_announcement m ps k = pc_buildUpdate (Some 12) ?u"
    using assms by (simp add: pm_announcement_def pm_buildPanIdChange_def pm_after_fields algebra_simps)
  moreover have "\<exists>bs. pc_buildUpdate (Some 12) ?u = Some bs \<and> length bs = 12 \<and>
      pc_parseUpdate (Some bs) = Some (True, ?u)"
    by (rule update_roundtrip) (simp_all add: nwk_update0_def)
  ultimately have "pc_parseUpdate (pm_announcement m ps k) = Some (True, ?u)" by auto
  then show ?thesis using assms by (simp add: pm_receive_def pm_applyUpdate_def)
qed

lemma half_window:
  fixes b :: u8
  assumes "i \<le> 127" "j \<le> 127"
  shows "pc_updateIdIsNewer (b + of_nat i) (b + of_nat j) \<longleftrightarrow> j < i"
proof (cases "j < i")
  case True
  then have d: "(b + of_nat i) - (b + of_nat j) = (of_nat (i - j) :: u8)" by (simp add: of_nat_diff)
  have u: "unat (of_nat (i - j) :: u8) = i - j" using assms by simp
  then have "(of_nat (i - j) :: u8) \<noteq> 0" using True by (metis diff_is_0_eq not_le unsigned_0)
  with u show ?thesis
    using True assms unfolding pc_updateIdIsNewer_def d by (simp only: word_less_nat_alt) simp
next
  case False
  then have d: "(b + of_nat i) - (b + of_nat j) = - (of_nat (j - i) :: u8)" by (simp add: of_nat_diff)
  show ?thesis
  proof (cases "j = i")
    case False
    with \<open>\<not> j < i\<close> have pos: "0 < j - i" "j - i < 128" using assms by auto
    obtain n where n: "n = j - i" by blast
    have "- (of_nat n :: u8) = of_nat (256 - n)"
      using pos n by (simp add: of_nat_diff)
    then have "unat (- (of_nat n :: u8)) = 256 - n" using pos n by (simp del: of_nat_diff)
    moreover have "\<not> 256 - n < 128" using pos n by linarith
    ultimately show ?thesis
      using \<open>\<not> j < i\<close> unfolding pc_updateIdIsNewer_def d n [symmetric]
      by (simp add: word_less_nat_alt)
  qed (simp add: pc_updateIdIsNewer_def)
qed

definition newest :: "nat list \<Rightarrow> nat" where
  "newest ks = Max (insert 0 (Suc ` set ks))"

lemma newest_snoc: "newest (ks @ [k]) = max (newest ks) (Suc k)"
proof -
  have "insert 0 (Suc ` set (ks @ [k])) = insert (Suc k) (insert 0 (Suc ` set ks))" by auto
  then show ?thesis by (simp add: newest_def max.commute del: image_insert insert_iff set_append)
qed

lemma newest_le: "\<forall>k\<in>set ks. k < n \<Longrightarrow> newest ks \<le> n"
  by (auto simp: newest_def)

text \<open>C36: PAN id changes converge. The network manager announces up to 127 PAN ids one after the other
  and commits each; a node that starts with the manager's extended PAN id and update id receives
  the announcements with losses, repeats and in any order. It then has exactly the PAN id and the
  update id that the manager had after the newest announcement the node has heard: a late or
  repeated announcement never takes it back, and nothing else of the node changes.
\<close>

theorem pan_id_changes_converge:
  assumes "length ps \<le> 127" "\<forall>k\<in>set ks. k < length ps"
    and "pm_extPanId w = pm_extPanId m" "pm_updateId w = pm_updateId m" "pm_panId w = pm_panId m"
  shows "foldl (\<lambda>w k. pm_receive w (pm_announcement m ps k)) w ks =
    w\<lparr>pm_panId := pm_panId (pm_after m (take (newest ks) ps)),
      pm_updateId := pm_updateId (pm_after m (take (newest ks) ps))\<rparr>"
  using assms(2)
proof (induction ks rule: rev_induct)
  case Nil
  then show ?case using assms by (simp add: newest_def pm_after_def)
next
  case (snoc k ks)
  have k: "k < length ps" and ks: "newest ks \<le> length ps" using snoc.prems by (auto intro: newest_le)
  let ?w = "\<lambda>r. w\<lparr>pm_panId := pm_panId (pm_after m (take r ps)),
      pm_updateId := pm_updateId (pm_after m (take r ps))\<rparr>"
  have ids: "pm_updateId (?w r) = pm_updateId m + of_nat r" if "r \<le> length ps" for r
    using that by (simp add: pm_after_fields)
  have "pm_receive (?w (newest ks)) (pm_announcement m ps k) =
      (if newest ks < Suc k then (?w (newest ks))\<lparr>pm_panId := ps ! k,
         pm_updateId := pm_updateId m + of_nat (Suc k)\<rparr> else ?w (newest ks))"
    using k ks assms half_window [of "Suc k" "newest ks" "pm_updateId m"]
    by (subst pm_receive_announcement) (simp_all add: pm_after_fields)
  also have "\<dots> = ?w (max (newest ks) (Suc k))"
    using k ks by (auto simp: pm_after_fields take_Suc_conv_app_nth max_def)
  finally show ?case using snoc by (simp add: newest_snoc)
qed

theorem pan_id_changes_converge_witness:
  "let m = pm_begin pm_init 5 9 11 254; w = pm_begin pm_init 5 9 11 254
   in pm_panId (foldl (\<lambda>w k. pm_receive w (pm_announcement m [6, 7, 8] k)) w [1, 0, 1]) = 7"
proof -
  let ?m = "pm_begin pm_init 5 9 11 254"
  have "newest [1, 0, 1] = 2" by (simp add: newest_def)
  then show ?thesis
    using pan_id_changes_converge [of "[6, 7, 8]" "[1, 0, 1]" ?m ?m]
    by (simp add: Let_def pm_after_fields del: foldl.simps foldl_Cons)
qed

text \<open>
  Both kinds of change share one update id. A node that misses a PAN id change and hears the
  channel change after it takes the newer update id, and refuses the PAN id change for good.
\<close>

lemma missed_pan_change_is_refused:
  assumes "nu_extendedPanId u = pm_extPanId w" "nu_updateType u = NWK_UPDATE_CHANNEL"
    and "nu_updateId u = pm_updateId w + 2" "nu_extendedPanId v = pm_extPanId w"
    and "nu_updateId v = pm_updateId w + 1"
  shows "pm_applyUpdate w u = (True, w\<lparr>pm_channel := nu_newChannel u, pm_updateId := nu_updateId u\<rparr>) \<and>
    pm_applyUpdate (snd (pm_applyUpdate w u)) v = (False, snd (pm_applyUpdate w u))"
proof -
  have "pc_updateIdIsNewer (pm_updateId w + 2) (pm_updateId w)"
    "\<not> pc_updateIdIsNewer (pm_updateId w + 1) (pm_updateId w + 2)"
    using half_window [of 2 0 "pm_updateId w"] half_window [of 1 2 "pm_updateId w"] by simp_all
  then show ?thesis using assms by (simp add: pm_applyUpdate_def)
qed

end
