(* ===== verification/ZbZcl.thy ===== *)
theory ZbZcl
  imports ZbPrelude
begin

text \<open>
  \<open>ZigbeeZcl.h/.cpp\<close>, \<open>ZigbeeClusters.h/.cpp\<close> and \<open>ZigbeeReporting.h/.cpp\<close>: the ZCL frame
  codec, attribute records, the report-configuration payloads, the On/Off and Basic cluster
  servers and the scheduler that reports one boolean attribute.

  Functions of the code that fill in reference arguments return them in an option; a payload
  pointer and its length are two arguments, as in the code, so that every read is checked.
\<close>

section \<open>ZCL frames\<close>

abbreviation (input) "ZCL_FRAME_PROFILE_WIDE \<equiv> (0 :: u8)"
abbreviation (input) "ZCL_FRAME_CLUSTER_SPECIFIC \<equiv> (1 :: u8)"
abbreviation (input) "ZCL_DIRECTION_CLIENT_TO_SERVER \<equiv> (0 :: u8)"
abbreviation (input) "ZCL_DIRECTION_SERVER_TO_CLIENT \<equiv> (1 :: u8)"
abbreviation (input) "ZCL_CMD_READ_ATTRIBUTES \<equiv> (0x00 :: u8)"
abbreviation (input) "ZCL_CMD_READ_ATTRIBUTES_RESPONSE \<equiv> (0x01 :: u8)"
abbreviation (input) "ZCL_CMD_REPORT_ATTRIBUTES \<equiv> (0x0A :: u8)"
abbreviation (input) "ZCL_CMD_DEFAULT_RESPONSE \<equiv> (0x0B :: u8)"
abbreviation (input) "ZCL_STATUS_SUCCESS \<equiv> (0x00 :: u8)"
abbreviation (input) "ZCL_STATUS_UNSUPPORTED_CLUSTER_COMMAND \<equiv> (0x81 :: u8)"
abbreviation (input) "ZCL_STATUS_UNSUPPORTED_ATTRIBUTE \<equiv> (0x86 :: u8)"
abbreviation (input) "ZCL_REPORT_DIRECTION_REPORTED \<equiv> (0x00 :: u8)"
abbreviation (input) "ZCL_TYPE_BOOLEAN \<equiv> (0x10 :: u8)"
abbreviation (input) "ZCL_TYPE_UINT8 \<equiv> (0x20 :: u8)"
abbreviation (input) "ZCL_TYPE_UINT16 \<equiv> (0x21 :: u8)"
abbreviation (input) "ZCL_TYPE_INT16 \<equiv> (0x29 :: u8)"
abbreviation (input) "ZCL_TYPE_CHAR_STRING \<equiv> (0x42 :: u8)"

definition zcl_kBaseHeaderLen :: nat where "zcl_kBaseHeaderLen = 3"
definition zcl_kManufacturerHeaderLen :: nat where "zcl_kManufacturerHeaderLen = 5"
definition zcl_kMaxFrame :: nat where "zcl_kMaxFrame = 100"
definition zcl_kMaxPayload :: nat where "zcl_kMaxPayload = 100 - 3"

lemmas zcl_consts [simp] = zcl_kBaseHeaderLen_def zcl_kManufacturerHeaderLen_def
  zcl_kMaxFrame_def zcl_kMaxPayload_def

record zcl_frame =
  zf_valid :: bool
  zf_frameType :: u8
  zf_manufacturerSpecific :: bool
  zf_manufacturerCode :: u16
  zf_direction :: u8
  zf_disableDefaultResponse :: bool
  zf_sequence :: u8
  zf_commandId :: u8
  zf_payload :: ptr
  zf_payloadLen :: nat

definition zcl_frame0 :: zcl_frame where
  "zcl_frame0 = \<lparr>zf_valid = False, zf_frameType = 0, zf_manufacturerSpecific = False,
     zf_manufacturerCode = 0, zf_direction = 0, zf_disableDefaultResponse = False, zf_sequence = 0,
     zf_commandId = 0, zf_payload = None, zf_payloadLen = 0\<rparr>"

definition zcl_buildCommandFrame ::
  "out_buf \<Rightarrow> u8 \<Rightarrow> u8 \<Rightarrow> u8 \<Rightarrow> ptr \<Rightarrow> nat \<Rightarrow> u8 \<Rightarrow> bool \<Rightarrow> u8 list option"
where
  "zcl_buildCommandFrame out frameType sequence commandId payload payloadLen direction
       disableDefaultResponse =
     (case out of None \<Rightarrow> None | Some outMax \<Rightarrow>
        if frameType > ZCL_FRAME_CLUSTER_SPECIFIC then None
        else if direction > ZCL_DIRECTION_SERVER_TO_CLIENT then None
        else if payloadLen > zcl_kMaxPayload then None
        else if outMax < zcl_kBaseHeaderLen + payloadLen then None
        else if payloadLen > 0 \<and> payload = None then None
        else
          let fcf = (frameType AND 0x03)
                OR (if direction = ZCL_DIRECTION_SERVER_TO_CLIENT then push_bit 3 1 else 0)
                OR (if disableDefaultResponse then push_bit 4 1 else 0)
          in Some ([fcf, sequence, commandId] @ copied payload payloadLen))"

definition zcl_parseFrame :: "ptr \<Rightarrow> (bool \<times> zcl_frame) option" where
  "zcl_parseFrame zcl =
     (case zcl of None \<Rightarrow> Some (False, zcl_frame0) | Some bs \<Rightarrow>
      if length bs < zcl_kBaseHeaderLen then Some (False, zcl_frame0)
      else do {
        fcf \<leftarrow> rd8 bs 0;
        let frameType = fcf AND 0x03;
        let manufacturerSpecific = bit fcf 2;
        if frameType > ZCL_FRAME_CLUSTER_SPECIFIC then Some (False, zcl_frame0)
        else do {
          mf \<leftarrow> (if manufacturerSpecific then
                   if length bs < zcl_kManufacturerHeaderLen then Some None
                   else do { c \<leftarrow> rd16 bs 1; Some (Some (c, 3)) }
                 else Some (Some (0, 1)));
          case mf of None \<Rightarrow> Some (False, zcl_frame0)
          | Some (code, offset) \<Rightarrow>
              if length bs < offset + 2 then Some (False, zcl_frame0\<lparr>zf_manufacturerCode := code\<rparr>)
              else do {
                sequence \<leftarrow> rd8 bs offset;
                command \<leftarrow> rd8 bs (offset + 1);
                Some (True, \<lparr>zf_valid = True, zf_frameType = frameType,
                  zf_manufacturerSpecific = manufacturerSpecific, zf_manufacturerCode = code,
                  zf_direction = (if bit fcf 3 then ZCL_DIRECTION_SERVER_TO_CLIENT
                                  else ZCL_DIRECTION_CLIENT_TO_SERVER),
                  zf_disableDefaultResponse = bit fcf 4, zf_sequence = sequence,
                  zf_commandId = command, zf_payload = Some (drop (offset + 2) bs),
                  zf_payloadLen = cast8 (length bs - (offset + 2))\<rparr>)
              }
        }
      })"

section \<open>Payloads and attribute records\<close>

definition zcl_buildReadAttributesPayload :: "out_buf \<Rightarrow> u16 list option \<Rightarrow> nat \<Rightarrow> u8 list option" where
  "zcl_buildReadAttributesPayload out attrIds attrCount =
     (case (out, attrIds) of
        (Some outMax, Some ids) \<Rightarrow>
          if attrCount = 0 then None
          else if outMax < attrCount * 2 then None
          else Some (concat (map le16 (take attrCount ids)))
      | _ \<Rightarrow> None)"

definition zcl_getReadAttributeId :: "ptr \<Rightarrow> nat \<Rightarrow> u8 \<Rightarrow> u16 option option" where
  "zcl_getReadAttributeId payload payloadLen index =
     (let offset = cast8 (unat index * 2) in
      case payload of None \<Rightarrow> Some None | Some bs \<Rightarrow>
        if offset > payloadLen \<or> payloadLen - offset < 2 then Some None
        else map_option Some (rd16 bs offset))"

definition zcl_buildDefaultResponsePayload :: "out_buf \<Rightarrow> u8 \<Rightarrow> u8 \<Rightarrow> u8 list option" where
  "zcl_buildDefaultResponsePayload out commandId status =
     (case out of None \<Rightarrow> None | Some outMax \<Rightarrow>
        if outMax < 2 then None else Some [commandId, status])"

definition zcl_parseDefaultResponsePayload :: "ptr \<Rightarrow> nat \<Rightarrow> (u8 \<times> u8) option option" where
  "zcl_parseDefaultResponsePayload payload payloadLen =
     (case payload of None \<Rightarrow> Some None | Some bs \<Rightarrow>
        if payloadLen < 2 then Some None
        else do { c \<leftarrow> rd8 bs 0; s \<leftarrow> rd8 bs 1; Some (Some (c, s)) })"

definition zcl_buildAttributeStatusRecord :: "out_buf \<Rightarrow> u16 \<Rightarrow> u8 \<Rightarrow> u8 list option" where
  "zcl_buildAttributeStatusRecord out attrId status =
     (case out of None \<Rightarrow> None | Some outMax \<Rightarrow>
        if outMax < 3 then None else Some (le16 attrId @ [status]))"

definition zcl_buildBoolAttributeRecord :: "out_buf \<Rightarrow> u16 \<Rightarrow> bool \<Rightarrow> u8 list option" where
  "zcl_buildBoolAttributeRecord out attrId val =
     (case out of None \<Rightarrow> None | Some outMax \<Rightarrow>
        if outMax < 5 then None
        else Some (le16 attrId @ [ZCL_STATUS_SUCCESS, ZCL_TYPE_BOOLEAN, if val then 1 else 0]))"

definition zcl_buildUint8AttributeRecord :: "out_buf \<Rightarrow> u16 \<Rightarrow> u8 \<Rightarrow> u8 list option" where
  "zcl_buildUint8AttributeRecord out attrId val =
     (case out of None \<Rightarrow> None | Some outMax \<Rightarrow>
        if outMax < 5 then None
        else Some (le16 attrId @ [ZCL_STATUS_SUCCESS, ZCL_TYPE_UINT8, val]))"

definition zcl_buildUint16AttributeRecord :: "out_buf \<Rightarrow> u16 \<Rightarrow> u16 \<Rightarrow> u8 list option" where
  "zcl_buildUint16AttributeRecord out attrId val =
     (case out of None \<Rightarrow> None | Some outMax \<Rightarrow>
        if outMax < 6 then None
        else Some (le16 attrId @ [ZCL_STATUS_SUCCESS, ZCL_TYPE_UINT16] @ le16 val))"

text \<open>Signed values are passed as their two's complement, the cast \<open>(uint16_t)value\<close>.\<close>

definition zcl_buildInt16AttributeRecord :: "out_buf \<Rightarrow> u16 \<Rightarrow> u16 \<Rightarrow> u8 list option" where
  "zcl_buildInt16AttributeRecord out attrId val =
     (case out of None \<Rightarrow> None | Some outMax \<Rightarrow>
        if outMax < 6 then None
        else Some (le16 attrId @ [ZCL_STATUS_SUCCESS, ZCL_TYPE_INT16] @ le16 val))"

definition zcl_buildTyped8AttributeRecord :: "out_buf \<Rightarrow> u16 \<Rightarrow> u8 \<Rightarrow> u8 \<Rightarrow> u8 list option" where
  "zcl_buildTyped8AttributeRecord out attrId type val =
     (case out of None \<Rightarrow> None | Some outMax \<Rightarrow>
        if outMax < 5 then None
        else Some (le16 attrId @ [ZCL_STATUS_SUCCESS, type, val]))"

definition zcl_buildReportUint16AttributePayload :: "out_buf \<Rightarrow> u16 \<Rightarrow> u16 \<Rightarrow> u8 list option" where
  "zcl_buildReportUint16AttributePayload out attrId val =
     (case out of None \<Rightarrow> None | Some outMax \<Rightarrow>
        if outMax < 5 then None else Some (le16 attrId @ [ZCL_TYPE_UINT16] @ le16 val))"

definition zcl_buildReportInt16AttributePayload :: "out_buf \<Rightarrow> u16 \<Rightarrow> u16 \<Rightarrow> u8 list option" where
  "zcl_buildReportInt16AttributePayload out attrId val =
     (case out of None \<Rightarrow> None | Some outMax \<Rightarrow>
        if outMax < 5 then None else Some (le16 attrId @ [ZCL_TYPE_INT16] @ le16 val))"

text \<open>A C string is the list of its characters up to the terminating zero.\<close>

definition c_string :: "u8 list \<Rightarrow> u8 list" where
  "c_string cs = takeWhile (\<lambda>c. c \<noteq> 0) cs"

definition zcl_buildCharStringAttributeRecord :: "out_buf \<Rightarrow> u16 \<Rightarrow> ptr \<Rightarrow> u8 list option" where
  "zcl_buildCharStringAttributeRecord out attrId val =
     (case (out, val) of
        (Some outMax, Some cs) \<Rightarrow>
          let len = min (length (c_string cs)) 255 in
          if outMax < 5 + len then None
          else Some (le16 attrId @ [ZCL_STATUS_SUCCESS, ZCL_TYPE_CHAR_STRING, of_nat len] @
                 take len (c_string cs))
      | _ \<Rightarrow> None)"

definition zcl_buildReportBoolAttributePayload :: "out_buf \<Rightarrow> u16 \<Rightarrow> bool \<Rightarrow> u8 list option" where
  "zcl_buildReportBoolAttributePayload out attrId val =
     (case out of None \<Rightarrow> None | Some outMax \<Rightarrow>
        if outMax < 4 then None
        else Some (le16 attrId @ [ZCL_TYPE_BOOLEAN, if val then 1 else 0]))"

definition zcl_parseReportBoolAttributePayload :: "ptr \<Rightarrow> nat \<Rightarrow> (u16 \<times> bool) option option" where
  "zcl_parseReportBoolAttributePayload payload payloadLen =
     (case payload of None \<Rightarrow> Some None | Some bs \<Rightarrow>
        if payloadLen < 4 then Some None
        else do {
          attrId \<leftarrow> rd16 bs 0;
          t \<leftarrow> rd8 bs 2;
          if t \<noteq> ZCL_TYPE_BOOLEAN then Some None
          else do { v \<leftarrow> rd8 bs 3; Some (Some (attrId, v \<noteq> 0)) }
        })"

definition zcl_buildConfigureReportingBoolPayload ::
  "out_buf \<Rightarrow> u16 \<Rightarrow> u16 \<Rightarrow> u16 \<Rightarrow> u8 list option"
where
  "zcl_buildConfigureReportingBoolPayload out attrId minIntervalSec maxIntervalSec =
     (case out of None \<Rightarrow> None | Some outMax \<Rightarrow>
        if outMax < 8 then None
        else Some ([ZCL_REPORT_DIRECTION_REPORTED] @ le16 attrId @ [ZCL_TYPE_BOOLEAN] @
               le16 minIntervalSec @ le16 maxIntervalSec))"

definition zcl_parseConfigureReportingBoolPayload ::
  "ptr \<Rightarrow> nat \<Rightarrow> (u16 \<times> u16 \<times> u16) option option"
where
  "zcl_parseConfigureReportingBoolPayload payload payloadLen =
     (case payload of None \<Rightarrow> Some None | Some bs \<Rightarrow>
        if payloadLen < 8 then Some None
        else do {
          d \<leftarrow> rd8 bs 0;
          if d \<noteq> ZCL_REPORT_DIRECTION_REPORTED then Some None
          else do {
            t \<leftarrow> rd8 bs 3;
            if t \<noteq> ZCL_TYPE_BOOLEAN then Some None
            else do {
              attrId \<leftarrow> rd16 bs 1;
              lo \<leftarrow> rd16 bs 4;
              hi \<leftarrow> rd16 bs 6;
              Some (Some (attrId, lo, hi))
            }
          }
        })"

definition zcl_buildConfigureReportingResponsePayload ::
  "out_buf \<Rightarrow> u8 \<Rightarrow> u8 \<Rightarrow> u16 \<Rightarrow> u8 list option"
where
  "zcl_buildConfigureReportingResponsePayload out status direction attrId =
     (if status = ZCL_STATUS_SUCCESS then None
      else case out of None \<Rightarrow> None | Some outMax \<Rightarrow>
        if outMax < 4 then None else Some ([status, direction] @ le16 attrId))"

definition zcl_parseConfigureReportingStatusRecord :: "ptr \<Rightarrow> nat \<Rightarrow> (u8 \<times> u8 \<times> u16) option option" where
  "zcl_parseConfigureReportingStatusRecord payload payloadLen =
     (case payload of None \<Rightarrow> Some None | Some bs \<Rightarrow>
        if payloadLen < 4 then Some None
        else do {
          s \<leftarrow> rd8 bs 0;
          d \<leftarrow> rd8 bs 1;
          a \<leftarrow> rd16 bs 2;
          Some (Some (s, d, a))
        })"

definition zcl_applyOnOffCommand :: "u8 \<Rightarrow> bool \<Rightarrow> bool \<times> bool" where
  "zcl_applyOnOffCommand commandId on =
     (if commandId = 0x00 then (True, False)
      else if commandId = 0x01 then (True, True)
      else if commandId = 0x02 then (True, \<not> on)
      else (False, on))"

section \<open>Cluster servers\<close>

definition cl_buildReadResponseFrame :: "zcl_frame \<Rightarrow> u8 list \<Rightarrow> out_buf \<Rightarrow> u8 list option" where
  "cl_buildReadResponseFrame request payload out =
     zcl_buildCommandFrame out ZCL_FRAME_PROFILE_WIDE (zf_sequence request)
       ZCL_CMD_READ_ATTRIBUTES_RESPONSE (Some payload) (length payload)
       ZCL_DIRECTION_SERVER_TO_CLIENT True"

definition cl_buildDefaultResponseFrame :: "zcl_frame \<Rightarrow> u8 \<Rightarrow> out_buf \<Rightarrow> u8 list option" where
  "cl_buildDefaultResponseFrame request status out =
     (case zcl_buildDefaultResponsePayload (Some 2) (zf_commandId request) status of
        None \<Rightarrow> None
      | Some p \<Rightarrow> zcl_buildCommandFrame out ZCL_FRAME_PROFILE_WIDE (zf_sequence request)
          ZCL_CMD_DEFAULT_RESPONSE (Some p) (length p) ZCL_DIRECTION_SERVER_TO_CLIENT True)"

text \<open>
  The loop over the requested attributes, which the two servers share: \<open>i\<close> is its 8-bit counter
  and \<open>acc\<close> the part of the 97-byte payload that is filled. The inner \<open>None\<close> is the answer 0, the
  outer one a read or a write outside a buffer. The loop has no bound of its own; it ends because
  every record takes room.
\<close>

function cl_readLoop ::
  "(u16 \<Rightarrow> nat \<Rightarrow> u8 list option) \<Rightarrow> zcl_frame \<Rightarrow> u8 \<Rightarrow> u8 list \<Rightarrow> u8 list option option"
where
  "cl_readLoop append_record request i acc =
     (case zcl_getReadAttributeId (zf_payload request) (zf_payloadLen request) i of
        None \<Rightarrow> None
      | Some None \<Rightarrow> Some (Some acc)
      | Some (Some attrId) \<Rightarrow>
          (case append_record attrId (cast8 (zcl_kMaxPayload - length acc)) of
             None \<Rightarrow> Some None
           | Some r \<Rightarrow>
               if r = [] then Some None
               else if zcl_kMaxPayload < length acc + length r then None
               else cl_readLoop append_record request (i + 1) (acc @ r)))"
  by pat_completeness auto

termination
  by (relation "measure (\<lambda>(_, _, _, acc). 98 - length acc)") (auto simp: neq_Nil_conv)

declare cl_readLoop.simps [simp del]

definition cl_buildReadAttributesResponse ::
  "(u16 \<Rightarrow> nat \<Rightarrow> u8 list option) \<Rightarrow> zcl_frame \<Rightarrow> out_buf \<Rightarrow> u8 list option option"
where
  "cl_buildReadAttributesResponse append_record request out =
     (if out = None \<or> zf_payload request = None \<or> zf_payloadLen request = 0 then Some None
      else case cl_readLoop append_record request 0 [] of
        None \<Rightarrow> None
      | Some None \<Rightarrow> Some None
      | Some (Some payload) \<Rightarrow>
          if payload = [] then Some None else Some (cl_buildReadResponseFrame request payload out))"

definition kAttrOnOff :: u16 where "kAttrOnOff = 0x0000"

definition onoff_appendReadAttributeRecord :: "bool \<Rightarrow> u16 \<Rightarrow> nat \<Rightarrow> u8 list option" where
  "onoff_appendReadAttributeRecord on attrId outMax =
     (if attrId = kAttrOnOff then zcl_buildBoolAttributeRecord (Some outMax) attrId on
      else zcl_buildAttributeStatusRecord (Some outMax) attrId ZCL_STATUS_UNSUPPORTED_ATTRIBUTE)"

definition onoff_handleFrame :: "bool \<Rightarrow> zcl_frame \<Rightarrow> out_buf \<Rightarrow> (u8 list option \<times> bool) option" where
  "onoff_handleFrame on request out =
     (if out = None then Some (None, on)
      else if zf_frameType request = ZCL_FRAME_CLUSTER_SPECIFIC \<and>
              zf_direction request = ZCL_DIRECTION_CLIENT_TO_SERVER then
        (let (ok, on') = zcl_applyOnOffCommand (zf_commandId request) on;
             status = (if ok then ZCL_STATUS_SUCCESS else ZCL_STATUS_UNSUPPORTED_CLUSTER_COMMAND)
         in Some (cl_buildDefaultResponseFrame request status out, on'))
      else if zf_frameType request = ZCL_FRAME_PROFILE_WIDE \<and>
              zf_commandId request = ZCL_CMD_READ_ATTRIBUTES then
        map_option (\<lambda>r. (r, on))
          (cl_buildReadAttributesResponse (onoff_appendReadAttributeRecord on) request out)
      else Some (None, on))"

record basic_cluster =
  bc_zclVersion :: u8
  bc_applicationVersion :: u8
  bc_stackVersion :: u8
  bc_hardwareVersion :: u8
  bc_powerSource :: u8
  bc_manufacturerName :: "u8 list"
  bc_modelIdentifier :: "u8 list"
  bc_dateCode :: "u8 list"

definition bc_setVersions :: "u8 \<Rightarrow> u8 \<Rightarrow> u8 \<Rightarrow> u8 \<Rightarrow> basic_cluster \<Rightarrow> basic_cluster" where
  "bc_setVersions zclVersion applicationVersion stackVersion hardwareVersion b =
     b\<lparr>bc_zclVersion := zclVersion, bc_applicationVersion := applicationVersion,
       bc_stackVersion := stackVersion, bc_hardwareVersion := hardwareVersion\<rparr>"

definition bc_setIdentity :: "ptr \<Rightarrow> ptr \<Rightarrow> ptr \<Rightarrow> basic_cluster \<Rightarrow> basic_cluster" where
  "bc_setIdentity manufacturerName modelIdentifier dateCode b =
     (let str = (\<lambda>p. case p of None \<Rightarrow> [] | Some cs \<Rightarrow> cs) in
      b\<lparr>bc_manufacturerName := str manufacturerName, bc_modelIdentifier := str modelIdentifier,
        bc_dateCode := str dateCode\<rparr>)"

definition bc_appendReadAttributeRecord :: "basic_cluster \<Rightarrow> u16 \<Rightarrow> nat \<Rightarrow> u8 list option" where
  "bc_appendReadAttributeRecord b attrId outMax =
     (if attrId = 0x0000 then zcl_buildUint8AttributeRecord (Some outMax) attrId (bc_zclVersion b)
      else if attrId = 0x0001 then zcl_buildUint8AttributeRecord (Some outMax) attrId (bc_applicationVersion b)
      else if attrId = 0x0002 then zcl_buildUint8AttributeRecord (Some outMax) attrId (bc_stackVersion b)
      else if attrId = 0x0003 then zcl_buildUint8AttributeRecord (Some outMax) attrId (bc_hardwareVersion b)
      else if attrId = 0x0004 then
        zcl_buildCharStringAttributeRecord (Some outMax) attrId (Some (bc_manufacturerName b))
      else if attrId = 0x0005 then
        zcl_buildCharStringAttributeRecord (Some outMax) attrId (Some (bc_modelIdentifier b))
      else if attrId = 0x0006 then zcl_buildCharStringAttributeRecord (Some outMax) attrId (Some (bc_dateCode b))
      else if attrId = 0x0007 then zcl_buildUint8AttributeRecord (Some outMax) attrId (bc_powerSource b)
      else zcl_buildAttributeStatusRecord (Some outMax) attrId ZCL_STATUS_UNSUPPORTED_ATTRIBUTE)"

definition bc_handleFrame :: "basic_cluster \<Rightarrow> zcl_frame \<Rightarrow> out_buf \<Rightarrow> u8 list option option" where
  "bc_handleFrame b request out =
     (if out = None then Some None
      else if zf_frameType request = ZCL_FRAME_PROFILE_WIDE \<and>
              zf_commandId request = ZCL_CMD_READ_ATTRIBUTES then
        cl_buildReadAttributesResponse (bc_appendReadAttributeRecord b) request out
      else Some None)"

section \<open>The report scheduler\<close>

record report_scheduler =
  rp_configured :: bool
  rp_attrId :: u16
  rp_minIntervalSec :: u16
  rp_maxIntervalSec :: u16
  rp_lastValue :: bool
  rp_lastReportMs :: u32

definition rp_init :: report_scheduler where
  "rp_init = \<lparr>rp_configured = False, rp_attrId = 0, rp_minIntervalSec = 0, rp_maxIntervalSec = 0,
     rp_lastValue = False, rp_lastReportMs = 0\<rparr>"

definition rp_secondsToMs :: "u16 \<Rightarrow> u32" where
  "rp_secondsToMs seconds = ucast seconds * 1000"

definition rp_configure :: "u16 \<Rightarrow> u16 \<Rightarrow> u16 \<Rightarrow> bool \<Rightarrow> u32 \<Rightarrow> report_scheduler \<Rightarrow> report_scheduler" where
  "rp_configure attrId minIntervalSec maxIntervalSec currentValue nowMs s =
     s\<lparr>rp_configured := True, rp_attrId := attrId, rp_minIntervalSec := minIntervalSec,
       rp_maxIntervalSec := maxIntervalSec, rp_lastValue := currentValue, rp_lastReportMs := nowMs\<rparr>"

definition rp_disable :: "report_scheduler \<Rightarrow> report_scheduler" where
  "rp_disable s = s\<lparr>rp_configured := False\<rparr>"

definition rp_shouldReport :: "bool \<Rightarrow> u32 \<Rightarrow> report_scheduler \<Rightarrow> bool" where
  "rp_shouldReport currentValue nowMs s =
     (if \<not> rp_configured s then False
      else if rp_maxIntervalSec s = 0xFFFF then False
      else
        let elapsed = nowMs - rp_lastReportMs s in
        if currentValue \<noteq> rp_lastValue s then rp_secondsToMs (rp_minIntervalSec s) \<le> elapsed
        else 0 < rp_maxIntervalSec s \<and> rp_secondsToMs (rp_maxIntervalSec s) \<le> elapsed)"

definition rp_markReported :: "bool \<Rightarrow> u32 \<Rightarrow> report_scheduler \<Rightarrow> report_scheduler" where
  "rp_markReported currentValue nowMs s = s\<lparr>rp_lastValue := currentValue, rp_lastReportMs := nowMs\<rparr>"

definition rp_buildReportCommand :: "u8 \<Rightarrow> bool \<Rightarrow> out_buf \<Rightarrow> report_scheduler \<Rightarrow> u8 list option" where
  "rp_buildReportCommand zclSequence currentValue out s =
     (if \<not> rp_configured s then None
      else case zcl_buildReportBoolAttributePayload (Some 4) (rp_attrId s) currentValue of
        None \<Rightarrow> None
      | Some payload \<Rightarrow>
          zcl_buildCommandFrame out ZCL_FRAME_PROFILE_WIDE zclSequence ZCL_CMD_REPORT_ATTRIBUTES
            (Some payload) (length payload) ZCL_DIRECTION_SERVER_TO_CLIENT True)"

end
