(* ===== verification/ZbZclFacts.thy ===== *)
theory ZbZclFacts
  imports ZbZcl
begin

text \<open>
  What the ZCL layer guarantees: frames and report payloads round-trip, the cluster servers answer
  every requested attribute in order or nothing at all, and the report scheduler keeps its two
  intervals on the wrapping clock.
\<close>

section \<open>Frames\<close>

lemma zcl_build_shape:
  assumes "frameType \<le> 1" "direction \<le> 1" "length payload \<le> 97" "3 + length payload \<le> outMax"
  shows "\<exists>fcf. zcl_buildCommandFrame (Some outMax) frameType sequence commandId (Some payload)
      (length payload) direction ddr = Some (fcf # sequence # commandId # payload) \<and>
    fcf AND 3 = frameType \<and> \<not> bit fcf 2 \<and> (bit fcf 3 \<longleftrightarrow> direction = 1) \<and> (bit fcf 4 \<longleftrightarrow> ddr)"
proof -
  have "frameType = 0 \<or> frameType = 1" "direction = 0 \<or> direction = 1"
    using assms(1,2) by (simp_all add: word_le_nat_alt word_unat_eq_iff) arith+
  then show ?thesis
    using assms(3,4) by (cases ddr) (auto simp: zcl_buildCommandFrame_def Let_def not_less)
qed

lemma zcl_frame_roundtrip:
  assumes "frameType \<le> 1" "direction \<le> 1" "length payload \<le> 97" "3 + length payload \<le> outMax"
  shows "\<exists>bs. zcl_buildCommandFrame (Some outMax) frameType sequence commandId (Some payload)
      (length payload) direction ddr = Some bs \<and> length bs = 3 + length payload \<and>
    zcl_parseFrame (Some bs) = Some (True, \<lparr>zf_valid = True, zf_frameType = frameType,
      zf_manufacturerSpecific = False, zf_manufacturerCode = 0, zf_direction = direction,
      zf_disableDefaultResponse = ddr, zf_sequence = sequence, zf_commandId = commandId,
      zf_payload = Some payload, zf_payloadLen = length payload\<rparr>)"
proof -
  have d: "direction = 0 \<or> direction = 1"
    using assms(2) by (simp add: word_le_nat_alt word_unat_eq_iff) arith
  from zcl_build_shape [OF assms, of sequence commandId ddr] obtain fcf where
    b: "zcl_buildCommandFrame (Some outMax) frameType sequence commandId (Some payload)
      (length payload) direction ddr = Some (fcf # sequence # commandId # payload)"
    and f: "fcf AND 3 = frameType" "\<not> bit fcf 2" "bit fcf 3 \<longleftrightarrow> direction = 1" "bit fcf 4 \<longleftrightarrow> ddr"
    by auto
  have "\<not> frameType > 1" using assms(1) by (simp add: not_less)
  then show ?thesis
    unfolding b using f d assms(3) by (auto simp: zcl_parseFrame_def rd8_Cons)
qed

lemma zcl_report_roundtrip:
  "\<exists>bs. zcl_buildReportBoolAttributePayload (Some 4) attrId v = Some bs \<and> length bs = 4 \<and>
     zcl_parseReportBoolAttributePayload (Some bs) (length bs) = Some (Some (attrId, v))"
  by (cases v) (simp_all add: zcl_buildReportBoolAttributePayload_def
      zcl_parseReportBoolAttributePayload_def wire_simps)

lemma zcl_configure_roundtrip:
  "\<exists>bs. zcl_buildConfigureReportingBoolPayload (Some 8) attrId lo hi = Some bs \<and> length bs = 8 \<and>
     zcl_parseConfigureReportingBoolPayload (Some bs) (length bs) = Some (Some (attrId, lo, hi))"
  by (simp add: zcl_buildConfigureReportingBoolPayload_def
      zcl_parseConfigureReportingBoolPayload_def wire_simps)

section \<open>Read Attributes\<close>

lemma read_id:
  assumes "length ids \<le> 48" "i \<le> length ids"
  shows "zcl_getReadAttributeId (Some (concat (map le16 ids))) (2 * length ids) (of_nat i) =
    (if i < length ids then Some (Some (ids ! i)) else Some None)"
proof -
  have "unat (of_nat i :: u8) = i" using assms by simp
  moreover have "rd16 (concat (map le16 ids) @ []) (i * 2) = Some (ids ! i)" if "i < length ids"
    by (rule rd16_concat_le16 [OF that])
  moreover have "2 * length ids - i * 2 < 2 \<longleftrightarrow> i = length ids" using assms by arith
  ultimately show ?thesis using assms by (auto simp: zcl_getReadAttributeId_def Let_def)
qed

text \<open>
  A record function answers a nonempty record when it fits and nothing otherwise; \<open>recs\<close> are the
  records that it gives when there is room.
\<close>

definition record_function :: "(u16 \<Rightarrow> nat \<Rightarrow> u8 list option) \<Rightarrow> (u16 \<Rightarrow> u8 list) \<Rightarrow> bool" where
  "record_function f recs \<longleftrightarrow> (\<forall>a n. f a n = (if n < length (recs a) then None else Some (recs a))) \<and>
     (\<forall>a. recs a \<noteq> [])"

lemma cl_readLoop_answers:
  assumes f: "record_function f recs" and ids: "length ids \<le> 48" "i \<le> length ids"
    and request: "zf_payload request = Some (concat (map le16 ids))" "zf_payloadLen request = 2 * length ids"
    and acc: "length acc \<le> 97"
  shows "cl_readLoop f request (of_nat i) acc =
    (let all = acc @ concat (map recs (drop i ids)) in Some (if length all \<le> 97 then Some all else None))"
  using ids(2) acc
proof (induction "length ids - i" arbitrary: i acc)
  case 0
  then show ?case
    using ids request read_id [of ids i] by (subst cl_readLoop.simps) (simp add: Let_def)
next
  case (Suc k)
  let ?a = "ids ! i"
  have i: "i < length ids" using Suc.hyps by simp
  have d: "drop i ids = ?a # drop (Suc i) ids" using i by (simp add: Cons_nth_drop_Suc)
  have fa: "f ?a n = (if n < length (recs ?a) then None else Some (recs ?a))" "recs ?a \<noteq> []" for n
    using f by (simp_all add: record_function_def)
  show ?case
  proof (cases "length acc + length (recs ?a) \<le> 97")
    case True
    have "cl_readLoop f request (of_nat i) acc = cl_readLoop f request (of_nat (Suc i)) (acc @ recs ?a)"
      using True i ids request fa Suc.prems by (subst cl_readLoop.simps) (auto simp: read_id add.commute)
    also have "\<dots> = (let all = (acc @ recs ?a) @ concat (map recs (drop (Suc i) ids))
        in Some (if length all \<le> 97 then Some all else None))"
      by (rule Suc.hyps(1)) (use Suc.hyps True i in auto)
    finally show ?thesis unfolding d by simp
  next
    case False
    then have "cl_readLoop f request (of_nat i) acc = Some None"
      using i ids request fa Suc.prems by (subst cl_readLoop.simps) (auto simp: read_id)
    with False show ?thesis unfolding d by simp
  qed
qed

definition onoff_record :: "bool \<Rightarrow> u16 \<Rightarrow> u8 list" where
  "onoff_record on a = (if a = kAttrOnOff then le16 a @ [0x00, 0x10, if on then 1 else 0] else le16 a @ [0x86])"

lemma onoff_record_function: "record_function (onoff_appendReadAttributeRecord on) (onoff_record on)"
  by (simp add: record_function_def onoff_appendReadAttributeRecord_def onoff_record_def
      zcl_buildBoolAttributeRecord_def zcl_buildAttributeStatusRecord_def)

definition record_builder :: "(nat \<Rightarrow> u8 list option) \<Rightarrow> bool" where
  "record_builder g \<longleftrightarrow> (\<exists>r. (\<forall>n. g n = (if n < length r then None else Some r)) \<and> r \<noteq> [])"

lemma record_builders:
  "record_builder (\<lambda>n. zcl_buildUint8AttributeRecord (Some n) a v)"
  "record_builder (\<lambda>n. zcl_buildAttributeStatusRecord (Some n) a v)"
  "record_builder (\<lambda>n. zcl_buildCharStringAttributeRecord (Some n) a (Some cs))"
proof -
  show "record_builder (\<lambda>n. zcl_buildUint8AttributeRecord (Some n) a v)"
    unfolding record_builder_def
    by (rule exI [of _ "le16 a @ [0, 0x20, v]"]) (simp add: zcl_buildUint8AttributeRecord_def)
  show "record_builder (\<lambda>n. zcl_buildAttributeStatusRecord (Some n) a v)"
    unfolding record_builder_def
    by (rule exI [of _ "le16 a @ [v]"]) (simp add: zcl_buildAttributeStatusRecord_def)
  let ?l = "min (length (c_string cs)) 255"
  show "record_builder (\<lambda>n. zcl_buildCharStringAttributeRecord (Some n) a (Some cs))"
    unfolding record_builder_def
    by (rule exI [of _ "le16 a @ [0, 0x42, of_nat ?l] @ take ?l (c_string cs)"])
      (simp add: zcl_buildCharStringAttributeRecord_def Let_def)
qed

lemma record_builder_if:
  "record_builder g \<Longrightarrow> record_builder h \<Longrightarrow> record_builder (\<lambda>n. if c then g n else h n)"
  by (cases c) simp_all

lemma bc_record_function: "\<exists>recs. record_function (bc_appendReadAttributeRecord b) recs"
proof -
  have "record_builder (bc_appendReadAttributeRecord b a)" for a
    unfolding bc_appendReadAttributeRecord_def [abs_def] by (intro record_builder_if record_builders)
  then have "\<forall>a. \<exists>r. (\<forall>n. bc_appendReadAttributeRecord b a n = (if n < length r then None else Some r)) \<and> r \<noteq> []"
    by (simp add: record_builder_def)
  from choice [OF this] show ?thesis by (auto simp: record_function_def)
qed

text \<open>What both servers do with a Read Attributes request.\<close>

lemma cl_read_response:
  assumes f: "record_function f recs" and ids: "ids \<noteq> []" "length ids \<le> 48"
    and request: "zf_payload request = Some (concat (map le16 ids))" "zf_payloadLen request = 2 * length ids"
  shows "cl_buildReadAttributesResponse f request (Some outMax) =
    Some (if length (concat (map recs ids)) \<le> 97
      then cl_buildReadResponseFrame request (concat (map recs ids)) (Some outMax) else None)"
proof -
  obtain p where p: "p = concat (map recs ids)" by blast
  have "p \<noteq> []" unfolding p using f ids(1) by (cases ids) (auto simp: record_function_def)
  moreover have "cl_readLoop f request 0 [] = Some (if length p \<le> 97 then Some p else None)"
    unfolding p using cl_readLoop_answers [OF f ids(2) _ request, of 0 "[]"] by (simp add: Let_def)
  ultimately show ?thesis
    using ids request by (simp add: cl_buildReadAttributesResponse_def p [symmetric])
qed

text \<open>Read Attributes over the air. A client asks an On/Off server for any list of 1 to 48 attribute
  ids; the request frame parses at the server, and the server answers every id in the order asked,
  the state for OnOff and "unsupported attribute" for any other, in a frame that the client parses
  with its own sequence number - or answers nothing at all when the records exceed the 97 bytes of
  a payload. Reading does not change the state.
\<close>

theorem read_attributes_answered:
  assumes "ids \<noteq> []" "length ids \<le> 48"
  shows "\<exists>payload bs request.
    zcl_buildReadAttributesPayload (Some 97) (Some ids) (length ids) = Some payload \<and>
    zcl_buildCommandFrame (Some 100) ZCL_FRAME_PROFILE_WIDE sequence ZCL_CMD_READ_ATTRIBUTES (Some payload)
      (length payload) ZCL_DIRECTION_CLIENT_TO_SERVER True = Some bs \<and>
    zcl_parseFrame (Some bs) = Some (True, request) \<and>
    (let answer = concat (map (onoff_record on) ids) in
     if length answer \<le> 97 then \<exists>response. onoff_handleFrame on request (Some 100) = Some (Some response, on) \<and>
       zcl_parseFrame (Some response) = Some (True, \<lparr>zf_valid = True, zf_frameType = ZCL_FRAME_PROFILE_WIDE,
         zf_manufacturerSpecific = False, zf_manufacturerCode = 0, zf_direction = ZCL_DIRECTION_SERVER_TO_CLIENT,
         zf_disableDefaultResponse = True, zf_sequence = sequence, zf_commandId = ZCL_CMD_READ_ATTRIBUTES_RESPONSE,
         zf_payload = Some answer, zf_payloadLen = length answer\<rparr>)
     else onoff_handleFrame on request (Some 100) = Some (None, on))"
proof -
  let ?p = "concat (map le16 ids)"
  obtain answer where a: "answer = concat (map (onoff_record on) ids)" by blast
  have p: "zcl_buildReadAttributesPayload (Some 97) (Some ids) (length ids) = Some ?p"
    using assms by (simp add: zcl_buildReadAttributesPayload_def)
  obtain bs request where b: "zcl_buildCommandFrame (Some 100) 0 sequence 0 (Some ?p) (length ?p) 0 True = Some bs"
    and q: "zcl_parseFrame (Some bs) = Some (True, request)" and r: "request = \<lparr>zf_valid = True, zf_frameType = 0,
      zf_manufacturerSpecific = False, zf_manufacturerCode = 0, zf_direction = 0,
      zf_disableDefaultResponse = True, zf_sequence = sequence, zf_commandId = 0,
      zf_payload = Some ?p, zf_payloadLen = length ?p\<rparr>"
    using zcl_frame_roundtrip [of 0 0 ?p 100 sequence 0 True] assms by auto
  have h: "onoff_handleFrame on request (Some 100) = Some (if length answer \<le> 97
      then cl_buildReadResponseFrame request answer (Some 100) else None, on)"
    using cl_read_response [OF onoff_record_function assms, of request on 100, folded a]
    by (simp add: onoff_handleFrame_def r)
  show ?thesis
  proof (cases "length answer \<le> 97")
    case True
    obtain response where "cl_buildReadResponseFrame request answer (Some 100) = Some response"
      "zcl_parseFrame (Some response) = Some (True, \<lparr>zf_valid = True, zf_frameType = 0,
         zf_manufacturerSpecific = False, zf_manufacturerCode = 0, zf_direction = 1,
         zf_disableDefaultResponse = True, zf_sequence = sequence, zf_commandId = 1,
         zf_payload = Some answer, zf_payloadLen = length answer\<rparr>)"
      using zcl_frame_roundtrip [of 0 1 answer 100 sequence 1 True] True
      by (auto simp: cl_buildReadResponseFrame_def r)
    then show ?thesis using p b q h True unfolding a [symmetric] Let_def by auto
  next
    case False
    then show ?thesis using p b q h unfolding a [symmetric] Let_def by auto
  qed
qed

theorem read_attributes_answered_witness:
  "\<exists>request response frame. onoff_handleFrame True request (Some 100) = Some (Some response, True) \<and>
     zcl_parseFrame (Some response) = Some (True, frame) \<and>
     zf_payload frame = Some [0, 0, 0, 0x10, 1, 5, 0, 0x86]"
proof -
  have "concat (map (onoff_record True) [0, 5]) = [0, 0, 0, 0x10, 1, 5, 0, 0x86]" by code_simp
  then show ?thesis using read_attributes_answered [of "[0, 5]" 7 True] by (fastforce simp: Let_def)
qed

section \<open>Report intervals\<close>

text \<open>
  A sketch polls the scheduler: each poll comes some milliseconds after the previous one with the
  current value, and reports when asked to. The reports, with their true times, start with the
  configuration.
\<close>

fun rp_poll ::
  "report_scheduler \<times> nat \<times> (nat \<times> bool) list \<Rightarrow> nat \<times> bool \<Rightarrow>
   report_scheduler \<times> nat \<times> (nat \<times> bool) list"
where
  "rp_poll (s, now, reports) (d, v) =
     (if rp_shouldReport v (of_nat (now + d)) s
      then (rp_markReported v (of_nat (now + d)) s, now + d, reports @ [(now + d, v)])
      else (s, now + d, reports))"

definition rp_start :: "u16 \<Rightarrow> u16 \<Rightarrow> u16 \<Rightarrow> nat \<Rightarrow> bool \<Rightarrow> report_scheduler \<times> nat \<times> (nat \<times> bool) list" where
  "rp_start attrId lo hi now v = (rp_configure attrId lo hi v (of_nat now) rp_init, now, [(now, v)])"

definition rp_gap :: "u16 \<Rightarrow> u16 \<Rightarrow> nat \<times> bool \<Rightarrow> nat \<times> bool \<Rightarrow> bool" where
  "rp_gap lo hi a b \<longleftrightarrow> fst a + 1000 * unat (if snd a \<noteq> snd b then lo else hi) \<le> fst b"

definition rp_inv :: "u16 \<Rightarrow> u16 \<Rightarrow> report_scheduler \<times> nat \<times> (nat \<times> bool) list \<Rightarrow> bool" where
  "rp_inv lo hi = (\<lambda>(s, now, reports). reports \<noteq> [] \<and> rp_configured s \<and>
     rp_minIntervalSec s = lo \<and> rp_maxIntervalSec s = hi \<and> rp_lastValue s = snd (last reports) \<and>
     rp_lastReportMs s = of_nat (fst (last reports)) \<and> fst (last reports) \<le> now \<and>
     now < fst (last reports) + 1000 * max (unat lo) (unat hi) \<and> successively (rp_gap lo hi) reports)"

lemma seconds_ms: "unat (rp_secondsToMs x) = 1000 * unat x"
proof -
  have x: "unat x < 65536" using unsigned_less [of x, where 'a = nat] by simp
  have "rp_secondsToMs x = of_nat (1000 * unat x)" by (simp add: rp_secondsToMs_def)
  also have "unat \<dots> = 1000 * unat x"
    unfolding unsigned_of_nat using x by (simp add: take_bit_nat_eq_self)
  finally show ?thesis .
qed

lemma elapsed_ms: "a \<le> b \<Longrightarrow> b < a + 2 ^ 32 \<Longrightarrow> unat (of_nat b - of_nat a :: u32) = b - a"
  by (simp add: of_nat_diff [symmetric] unsigned_of_nat take_bit_nat_eq_self del: of_nat_diff)

text \<open>What the scheduler decides at a poll within the range of the clock.\<close>

lemma rp_decision:
  assumes "rp_configured s" "rp_maxIntervalSec s \<noteq> 0" "rp_maxIntervalSec s \<noteq> 0xFFFF"
    and "rp_lastReportMs s = of_nat a" "a \<le> b" "b < a + 2 ^ 32"
  shows "rp_shouldReport v (of_nat b) s \<longleftrightarrow>
    1000 * unat (if v \<noteq> rp_lastValue s then rp_minIntervalSec s else rp_maxIntervalSec s) \<le> b - a"
  using assms by (simp add: rp_shouldReport_def Let_def word_le_nat_alt seconds_ms elapsed_ms word_gt_0)

lemma rp_inv_poll:
  assumes inv: "rp_inv lo hi (s, now, reports)" and hi: "hi \<noteq> 0" "hi \<noteq> 0xFFFF" and d: "d \<le> 2 ^ 31"
  shows "rp_inv lo hi (rp_poll (s, now, reports) (d, v))" (is ?inv)
    and "case rp_poll (s, now, reports) (d, v) of (s', now', reports') \<Rightarrow>
      snd (last reports') \<noteq> v \<longrightarrow> now' < fst (last reports') + 1000 * unat lo" (is ?fresh)
proof -
  let ?a = "fst (last reports)"
  have f: "reports \<noteq> []" "rp_configured s" "rp_minIntervalSec s = lo" "rp_maxIntervalSec s = hi"
    "rp_lastValue s = snd (last reports)" "rp_lastReportMs s = of_nat ?a" "?a \<le> now"
    "now < ?a + 1000 * max (unat lo) (unat hi)" "successively (rp_gap lo hi) reports"
    using inv by (simp_all add: rp_inv_def)
  have hl: "0 < unat hi" "unat hi < 65536" "unat lo < 65536"
    using hi(1) unsigned_less [of hi, where 'a = nat] unsigned_less [of lo, where 'a = nat]
    by (simp_all add: word_unat_eq_iff)
  have dec: "rp_shouldReport v (of_nat (now + d)) s \<longleftrightarrow>
      1000 * unat (if v \<noteq> snd (last reports) then lo else hi) \<le> now + d - ?a"
    using rp_decision [of s ?a "now + d" v] f hi d hl by simp
  show ?inv
  proof (cases "rp_shouldReport v (of_nat (now + d)) s")
    case True
    then have "rp_gap lo hi (last reports) (now + d, v)" using dec f by (auto simp: rp_gap_def)
    then show ?thesis
      using True f hl by (simp add: rp_inv_def rp_markReported_def successively_append_iff)
  next
    case False
    have "now + d < ?a + 1000 * max (unat lo) (unat hi)"
      using False dec f(7) by (auto split: if_splits)
    then show ?thesis using False f by (simp add: rp_inv_def)
  qed
  show ?fresh using dec f by auto
qed

lemma rp_inv_start: "hi \<noteq> 0 \<Longrightarrow> rp_inv lo hi (rp_start attrId lo hi now v)"
  by (simp add: rp_inv_def rp_start_def rp_configure_def word_unat_eq_iff less_max_iff_disj)

text \<open>The report scheduler keeps its intervals, across wraps of the millisecond clock. Polled at
  least every 2^31 ms, it reports a change no sooner than the minimum interval after the previous
  report and an unchanged value no sooner than the maximum interval; after every poll the last
  report is younger than the larger interval, and when it does not carry the polled value it is
  younger than the minimum interval.
\<close>

theorem report_intervals_kept:
  assumes "hi \<noteq> 0" "hi \<noteq> 0xFFFF" "\<forall>(d, v) \<in> set polls. d \<le> 2 ^ 31" "polls \<noteq> []"
  shows "case foldl rp_poll (rp_start attrId lo hi start v0) polls of (s, now, reports) \<Rightarrow>
    successively (rp_gap lo hi) reports \<and>
    now < fst (last reports) + 1000 * max (unat lo) (unat hi) \<and>
    (snd (last reports) \<noteq> snd (last polls) \<longrightarrow> now < fst (last reports) + 1000 * unat lo)"
proof -
  have inv: "rp_inv lo hi (foldl rp_poll (rp_start attrId lo hi start v0) ps)"
    if "\<forall>(d, v) \<in> set ps. d \<le> 2 ^ 31" for ps
    using that
  proof (induction ps rule: rev_induct)
    case Nil
    then show ?case using assms(1) by (simp add: rp_inv_start)
  next
    case (snoc p ps)
    obtain d v s now reports where "p = (d, v)" "foldl rp_poll (rp_start attrId lo hi start v0) ps = (s, now, reports)"
      by (metis prod_cases3 surj_pair)
    with snoc rp_inv_poll(1) [of lo hi s now reports d v] assms(1,2) show ?case by simp
  qed
  obtain ps d v where p: "polls = ps @ [(d, v)]" using assms(4) by (metis append_butlast_last_id surj_pair)
  obtain s now reports where e: "foldl rp_poll (rp_start attrId lo hi start v0) ps = (s, now, reports)"
    by (metis prod_cases3)
  have i: "rp_inv lo hi (s, now, reports)" and d: "d \<le> 2 ^ 31"
    using inv [of ps] assms(3) e p by auto
  show ?thesis
    using rp_inv_poll [OF i assms(1,2) d, of v] p e by (auto simp: rp_inv_def split: prod.splits)
qed

theorem report_intervals_kept_witness:
  "case foldl rp_poll (rp_start 0 1 2 4294967000 False) [(500, True), (600, True), (2000, True)] of
     (s, now, reports) \<Rightarrow> successively (rp_gap 1 2) reports \<and> length reports = 3"
proof -
  have "case foldl rp_poll (rp_start 0 1 2 4294967000 False) [(500, True), (600, True), (2000, True)] of
     (s, now, reports) \<Rightarrow> length reports = 3"
    by (simp add: rp_start_def rp_shouldReport_def rp_configure_def rp_markReported_def rp_secondsToMs_def)
  then show ?thesis
    using report_intervals_kept [of 2 "[(500, True), (600, True), (2000, True)]" 1 0 4294967000 False]
    by (simp del: rp_poll.simps foldl.simps foldl_Cons split: prod.splits)
qed

end
