(* ===== verification/ZbRadio.thy ===== *)
theory ZbRadio
  imports ZbSecurity ZbMac ZbNwk ZbAps ZbZcl
begin

text \<open>
  \<open>modules/CC2530/CC2530Radio.h/.cpp\<close>: the host driver of the CC2530 radio module, where the
  layers of the stack meet. It frames commands for the module on a serial line, parses the bytes
  that come back, opens secured network frames and hands every received frame to the callbacks of
  the layers it reaches; in the other direction it builds a frame layer by layer.

  \<^item> The callbacks are function pointers of the application. The model keeps which of them are
    set and returns the calls as a list of events, in order, with the arguments passed. What a
    callback does to the radio while it runs is not part of the model.
  \<^item> The serial line is the list of bytes written, and the list of bytes that arrive before a
    time limit; a wait that runs out of bytes is a timeout.
  \<^item> The functions that transmit answer the PSDU that they pass to \<open>send\<close>, \<open>None\<close> where they
    return before it.
  \<^item> The outer option of the receive functions is a read outside a buffer.
\<close>

abbreviation (input) "uart_SOF \<equiv> (0xFE :: u8)"
abbreviation (input) "CMD_PING \<equiv> (0x01 :: u8)"
abbreviation (input) "CMD_SET_CHANNEL \<equiv> (0x02 :: u8)"
abbreviation (input) "CMD_TX \<equiv> (0x03 :: u8)"
abbreviation (input) "CMD_SET_PROMISC \<equiv> (0x04 :: u8)"
abbreviation (input) "CMD_SET_ADDR \<equiv> (0x05 :: u8)"
abbreviation (input) "CMD_SET_MAC \<equiv> (0x06 :: u8)"
abbreviation (input) "CMD_GET_MAC \<equiv> (0x07 :: u8)"
abbreviation (input) "CMD_TX_ADV \<equiv> (0x08 :: u8)"
abbreviation (input) "CMD_SET_TX_POWER \<equiv> (0x09 :: u8)"
abbreviation (input) "CMD_SET_PENDING \<equiv> (0x0A :: u8)"
abbreviation (input) "CMD_GET_STATS \<equiv> (0x0B :: u8)"
abbreviation (input) "CMD_ED_SCAN \<equiv> (0x0C :: u8)"
abbreviation (input) "CMD_SET_MAC_PIB \<equiv> (0x0D :: u8)"
abbreviation (input) "RSP_RESET_IND \<equiv> (0x80 :: u8)"
abbreviation (input) "RSP_PONG \<equiv> (0x81 :: u8)"
abbreviation (input) "RSP_OK \<equiv> (0x82 :: u8)"
abbreviation (input) "RSP_TXSTAT \<equiv> (0x83 :: u8)"
abbreviation (input) "RSP_RX_FRAME \<equiv> (0x84 :: u8)"
abbreviation (input) "RSP_MAC_INFO \<equiv> (0x85 :: u8)"
abbreviation (input) "RSP_STATS \<equiv> (0x86 :: u8)"
abbreviation (input) "RSP_ED_RESULT \<equiv> (0x87 :: u8)"

section \<open>State\<close>

record callbacks =
  cb_rx :: bool
  cb_data :: bool
  cb_macCommand :: bool
  cb_beacon :: bool
  cb_nwk :: bool
  cb_nwkCommand :: bool
  cb_aps :: bool
  cb_zdo :: bool
  cb_zcl :: bool
  cb_apsAck :: bool

datatype radio_event =
    EvRx "u8 list" u8 u8
  | EvData mac_data_frame u8 u8
  | EvMacCommand mac_command_frame u8 u8
  | EvBeacon mac_beacon_frame u8 u8
  | EvNwk mac_data_frame nwk_data_frame u8 u8
  | EvNwkCommand mac_data_frame nwk_command_frame u8 u8
  | EvApsAck mac_data_frame nwk_data_frame aps_ack_frame u8 u8
  | EvAps mac_data_frame nwk_data_frame aps_data_frame u8 u8
  | EvZdo mac_data_frame nwk_data_frame aps_data_frame u8 u8
  | EvZcl mac_data_frame nwk_data_frame aps_data_frame zcl_frame u8 u8

record radio =
  cc_cb :: callbacks
  cc_version :: u16
  cc_channel :: u8
  cc_macSequence :: u8
  cc_nwkSequence :: u8
  cc_apsCounter :: u8
  cc_zclSequence :: u8
  cc_lastTxAttempts :: u8
  cc_localShortAddress :: u16
  cc_security :: "security option"
  cc_securityIeee :: u64
  cc_securityCounter :: u32
  cc_promiscuous :: bool
  cc_state :: nat
  cc_len :: nat
  cc_idx :: nat
  cc_fcs :: u8
  cc_buf :: "u8 list"
  cc_respCmd :: u8
  cc_respData :: "u8 list"
  cc_respLen :: nat
  cc_respReady :: bool

definition callbacks0 :: callbacks where
  "callbacks0 = \<lparr>cb_rx = False, cb_data = False, cb_macCommand = False, cb_beacon = False, cb_nwk = False,
     cb_nwkCommand = False, cb_aps = False, cb_zdo = False, cb_zcl = False, cb_apsAck = False\<rparr>"

definition radio_init :: radio where
  "radio_init = \<lparr>cc_cb = callbacks0, cc_version = 0, cc_channel = 11, cc_macSequence = 0, cc_nwkSequence = 0,
     cc_apsCounter = 0, cc_zclSequence = 0, cc_lastTxAttempts = 0, cc_localShortAddress = 0xFFFF,
     cc_security = None, cc_securityIeee = 0, cc_securityCounter = 0, cc_promiscuous = False, cc_state = 0,
     cc_len = 0, cc_idx = 0, cc_fcs = 0, cc_buf = replicate 140 0, cc_respCmd = 0,
     cc_respData = replicate 16 0, cc_respLen = 0, cc_respReady = False\<rparr>"

definition radio_attachSecurity :: "security \<Rightarrow> u64 \<Rightarrow> radio \<Rightarrow> radio" where
  "radio_attachSecurity s selfIeee r = r\<lparr>cc_security := Some s, cc_securityIeee := selfIeee\<rparr>"

definition radio_setSecurityFrameCounter :: "u32 \<Rightarrow> radio \<Rightarrow> radio" where
  "radio_setSecurityFrameCounter counter r = r\<lparr>cc_securityCounter := counter\<rparr>"

section \<open>Frames for the module\<close>

definition uart_fcs :: "u8 \<Rightarrow> u8 list \<Rightarrow> u8" where
  "uart_fcs cmd data = foldl (\<lambda>f b. f XOR b) (of_nat (length data + 1) XOR cmd) data"

definition radio_sendFrame :: "u8 \<Rightarrow> u8 list \<Rightarrow> u8 list" where
  "radio_sendFrame cmd data = [uart_SOF, of_nat (length data + 1), cmd] @ data @ [uart_fcs cmd data]"

section \<open>Receiving\<close>

text \<open>A parsed payload is the pointer with its length.\<close>

definition ptr_take :: "ptr \<Rightarrow> nat \<Rightarrow> ptr" where
  "ptr_take p n = map_option (take n) p"

definition radio_nwkHeaderLength :: "u8 list \<Rightarrow> nat" where
  "radio_nwkHeaderLength npdu =
     (if length npdu < 8 then 8
      else
        let fcf = (ucast (npdu ! 0) OR push_bit 8 (ucast (npdu ! 1)) :: u16);
            h = 8 + (if bit fcf 11 then 8 else 0) + (if bit fcf 12 then 8 else 0) + (if bit fcf 8 then 1 else 0)
        in if bit fcf 10 \<and> h < length npdu then cast8 (h + cast8 (2 + unat (npdu ! h) * 2)) else h)"

text \<open>
  The network frame that the upper layers see: \<open>None\<close> for a frame dropped, with the security state
  after the attempt. \<open>npdu\<close> is the MAC payload.
\<close>

definition radio_openNwk :: "block_cipher \<Rightarrow> u8 list \<Rightarrow> radio \<Rightarrow> (u8 list option \<times> radio) option" where
  "radio_openNwk ecb npdu r =
     (case cc_security r of
        None \<Rightarrow> Some (Some npdu, r)
      | Some s \<Rightarrow>
          if sc_hasKey s \<and> \<not> cc_promiscuous r \<and> 8 \<le> length npdu \<and> npdu ! 1 AND 0x02 \<noteq> 0 then
            (case sc_openNpdu ecb (Some npdu) (radio_nwkHeaderLength npdu) (Some 140) s of
               None \<Rightarrow> None
             | Some (res, s') \<Rightarrow>
                 Some ((case res of None \<Rightarrow> None | Some (plain, src) \<Rightarrow> if plain = [] then None else Some plain),
                       r\<lparr>cc_security := Some s'\<rparr>))
          else Some (Some npdu, r))"

definition radio_localDestination :: "radio \<Rightarrow> nwk_data_frame \<Rightarrow> bool" where
  "radio_localDestination r nwk = (nf_dstShort nwk = cc_localShortAddress r \<or> nf_dstShort nwk \<ge> 0xFFF8)"

definition radio_apsEvents ::
  "callbacks \<Rightarrow> mac_data_frame \<Rightarrow> nwk_data_frame \<Rightarrow> u8 \<Rightarrow> u8 \<Rightarrow> radio_event list option"
where
  "radio_apsEvents cb frame nwk rssi lqi = do {
     let apdu = ptr_take (nd_payload nwk) (nd_payloadLen nwk);
     ackEvents \<leftarrow> (if cb_apsAck cb then do {
         t \<leftarrow> aps_frameType apdu;
         if t = APS_FRAME_ACK then do {
           (ok, ack) \<leftarrow> aps_parseAckFrame apdu;
           Some (if ok then [EvApsAck frame nwk ack rssi lqi] else [])
         } else Some []
       } else Some []);
     dataEvents \<leftarrow> (if cb_aps cb \<or> cb_zdo cb \<or> cb_zcl cb then do {
         (ok, aps) \<leftarrow> aps_parseDataFrame apdu;
         if \<not> ok then Some []
         else do {
           zclEvents \<leftarrow> (if cb_zcl cb then do {
               (zok, zcl) \<leftarrow> zcl_parseFrame (ptr_take (ap_payload aps) (ap_payloadLen aps));
               Some (if zok then [EvZcl frame nwk aps zcl rssi lqi] else [])
             } else Some []);
           Some ((if cb_aps cb then [EvAps frame nwk aps rssi lqi] else []) @
                 (if cb_zdo cb \<and> ap_profileId aps = 0x0000 \<and> ap_dstEndpoint aps = 0
                  then [EvZdo frame nwk aps rssi lqi] else []) @
                 zclEvents)
         }
       } else Some []);
     Some (ackEvents @ dataEvents)
   }"

definition radio_nwkEvents ::
  "radio \<Rightarrow> mac_data_frame \<Rightarrow> u8 list \<Rightarrow> u8 \<Rightarrow> u8 \<Rightarrow> radio_event list option"
where
  "radio_nwkEvents r frame npdu rssi lqi = do {
     let cb = cc_cb r;
     dataEvents \<leftarrow> (if cb_nwk cb \<or> cb_aps cb \<or> cb_zdo cb \<or> cb_zcl cb \<or> cb_apsAck cb then do {
         (ok, nwk) \<leftarrow> nwk_parseDataFrame (Some npdu);
         if \<not> ok then Some []
         else do {
           up \<leftarrow> (if radio_localDestination r nwk then radio_apsEvents cb frame nwk rssi lqi else Some []);
           Some ((if cb_nwk cb then [EvNwk frame nwk rssi lqi] else []) @ up)
         }
       } else Some []);
     commandEvents \<leftarrow> (if cb_nwkCommand cb then do {
         (ok, cmd) \<leftarrow> nwk_parseCommandFrame (Some npdu);
         Some (if ok then [EvNwkCommand frame cmd rssi lqi] else [])
       } else Some []);
     Some (dataEvents @ commandEvents)
   }"

definition radio_macEvents :: "callbacks \<Rightarrow> u8 list \<Rightarrow> u8 \<Rightarrow> u8 \<Rightarrow> radio_event list option" where
  "radio_macEvents cb psdu rssi lqi = do {
     commandEvents \<leftarrow> (if cb_macCommand cb then do {
         (ok, cmd) \<leftarrow> mac_parseCommandFrame (Some psdu);
         Some (if ok then [EvMacCommand cmd rssi lqi] else [])
       } else Some []);
     beaconEvents \<leftarrow> (if cb_beacon cb then do {
         (ok, beacon) \<leftarrow> mac_parseBeacon (Some psdu);
         Some (if ok then [EvBeacon beacon rssi lqi] else [])
       } else Some []);
     Some (commandEvents @ beaconEvents)
   }"

definition radio_deliver ::
  "block_cipher \<Rightarrow> u8 list \<Rightarrow> u8 \<Rightarrow> u8 \<Rightarrow> radio \<Rightarrow> (radio \<times> radio_event list) option"
where
  "radio_deliver ecb psdu rssi lqi r =
     (let cb = cc_cb r;
          raw = (if cb_rx cb then [EvRx psdu rssi lqi] else [])
      in if \<not> (cb_data cb \<or> cb_macCommand cb \<or> cb_beacon cb \<or> cb_nwk cb \<or> cb_nwkCommand cb \<or>
               cb_aps cb \<or> cb_zdo cb \<or> cb_zcl cb) then Some (r, raw)
         else do {
           (ok, frame) \<leftarrow> mac_parseShortDataFrame (Some psdu);
           if ok then do {
             npdu \<leftarrow> ptr_take (md_payload frame) (md_payloadLen frame);
             (opened, r') \<leftarrow> radio_openNwk ecb npdu r;
             events \<leftarrow> (case opened of None \<Rightarrow> Some [] | Some plain \<Rightarrow> radio_nwkEvents r' frame plain rssi lqi);
             Some (r', raw @ (if cb_data cb then [EvData frame rssi lqi] else []) @ events)
           } else do {
             events \<leftarrow> radio_macEvents cb psdu rssi lqi;
             Some (r, raw @ events)
           }
         })"

text \<open>The copy of a response: \<open>len - 1\<close> bytes, at most 16 of them.\<close>

definition radio_stash :: "u8 \<Rightarrow> radio \<Rightarrow> radio" where
  "radio_stash cmd r =
     (let n = cast8 (cc_len r - 1) in
      r\<lparr>cc_respCmd := cmd, cc_respLen := n,
        cc_respData := take (min n 16) (drop 1 (cc_buf r)) @ drop (min n 16) (cc_respData r),
        cc_respReady := True\<rparr>)"

definition radio_frame :: "block_cipher \<Rightarrow> radio \<Rightarrow> (radio \<times> radio_event list) option" where
  "radio_frame ecb r =
     (let cmd = cc_buf r ! 0 in
      if cmd = RSP_RX_FRAME then
        if 3 \<le> cc_len r then
          radio_deliver ecb (take (cast8 (cc_len r - 3)) (drop 3 (cc_buf r))) (cc_buf r ! 1 - 73) (cc_buf r ! 2) r
        else Some (r, [])
      else if cmd = RSP_RESET_IND \<or> cmd = RSP_PONG then
        Some (radio_stash cmd (if 3 \<le> cc_len r
          then r\<lparr>cc_version := push_bit 8 (ucast (cc_buf r ! 1)) OR ucast (cc_buf r ! 2)\<rparr> else r), [])
      else Some (radio_stash cmd r, []))"

definition radio_feed :: "block_cipher \<Rightarrow> u8 \<Rightarrow> radio \<Rightarrow> (radio \<times> radio_event list) option" where
  "radio_feed ecb b r =
     (if cc_state r = 0 then Some (if b = uart_SOF then r\<lparr>cc_state := 1\<rparr> else r, [])
      else if cc_state r = 1 then
        Some (r\<lparr>cc_len := unat b, cc_idx := 0, cc_fcs := b,
                cc_state := (if unat b = 0 \<or> 140 < unat b then 0 else 2)\<rparr>, [])
      else if cc_state r = 2 then
        Some (r\<lparr>cc_buf := (cc_buf r)[cc_idx r := b], cc_idx := cc_idx r + 1, cc_fcs := cc_fcs r XOR b,
                cc_state := (if cc_len r \<le> cc_idx r + 1 then 3 else 2)\<rparr>, [])
      else
        let r' = r\<lparr>cc_state := 0\<rparr> in
        if b \<noteq> cc_fcs r then Some (r', []) else radio_frame ecb r')"

primrec radio_poll :: "block_cipher \<Rightarrow> u8 list \<Rightarrow> radio \<Rightarrow> (radio \<times> radio_event list) option" where
  "radio_poll ecb [] r = Some (r, [])"
| "radio_poll ecb (b # bs) r = do {
     (r1, evs1) \<leftarrow> radio_feed ecb b r;
     (r2, evs2) \<leftarrow> radio_poll ecb bs r1;
     Some (r2, evs1 @ evs2)
   }"

section \<open>Commands to the module\<close>

text \<open>
  \<open>waitResp\<close> with the bytes that arrive before the timeout; it stops at the awaited response and
  leaves the rest for later. A response with another command stays marked as ready.
\<close>

primrec radio_waitBytes ::
  "block_cipher \<Rightarrow> u8 \<Rightarrow> u8 list \<Rightarrow> radio \<Rightarrow> (bool \<times> radio \<times> radio_event list \<times> u8 list) option"
where
  "radio_waitBytes ecb cmd [] r = Some (False, r, [], [])"
| "radio_waitBytes ecb cmd (b # bs) r = do {
     (r1, evs1) \<leftarrow> radio_feed ecb b r;
     if cc_respReady r1 \<and> cc_respCmd r1 = cmd then Some (True, r1\<lparr>cc_respReady := False\<rparr>, evs1, bs)
     else do {
       (ok, r2, evs2, rest) \<leftarrow> radio_waitBytes ecb cmd bs r1;
       Some (ok, r2, evs1 @ evs2, rest)
     }
   }"

definition radio_waitResp ::
  "block_cipher \<Rightarrow> u8 \<Rightarrow> u8 list \<Rightarrow> radio \<Rightarrow> (bool \<times> radio \<times> radio_event list \<times> u8 list) option"
where
  "radio_waitResp ecb cmd bytes r = radio_waitBytes ecb cmd bytes (r\<lparr>cc_respReady := False\<rparr>)"

text \<open>The part of the commands before the wait: the state and the bytes written.\<close>

definition radio_clampChannel :: "u8 \<Rightarrow> u8" where
  "radio_clampChannel ch = (let ch = (if ch < 11 then 11 else ch) in if ch > 26 then 26 else ch)"

definition radio_setChannel ::
  "block_cipher \<Rightarrow> u8 \<Rightarrow> u8 list \<Rightarrow> radio \<Rightarrow> (u8 list \<times> (bool \<times> radio \<times> radio_event list \<times> u8 list) option)"
where
  "radio_setChannel ecb ch bytes r =
     (let ch = radio_clampChannel ch in
      (radio_sendFrame CMD_SET_CHANNEL [ch],
       map_option (\<lambda>(ok, r', evs, rest). (ok, if ok then r'\<lparr>cc_channel := ch\<rparr> else r', evs, rest))
         (radio_waitResp ecb RSP_OK bytes r)))"

definition radio_setPromiscuous ::
  "block_cipher \<Rightarrow> bool \<Rightarrow> u8 list \<Rightarrow> radio \<Rightarrow> (u8 list \<times> (bool \<times> radio \<times> radio_event list \<times> u8 list) option)"
where
  "radio_setPromiscuous ecb on bytes r =
     (radio_sendFrame CMD_SET_PROMISC [if on then 0 else 1],
      radio_waitResp ecb RSP_OK bytes (r\<lparr>cc_promiscuous := on\<rparr>))"

definition radio_setAddress ::
  "block_cipher \<Rightarrow> u16 \<Rightarrow> u16 \<Rightarrow> ptr \<Rightarrow> u8 list \<Rightarrow> radio
     \<Rightarrow> (u8 list \<times> (bool \<times> radio \<times> radio_event list \<times> u8 list) option)"
where
  "radio_setAddress ecb panId shortAddress ieeeAddress bytes r =
     (radio_sendFrame CMD_SET_ADDR (le16 panId @ le16 shortAddress @
        (case ieeeAddress of None \<Rightarrow> replicate 8 0 | Some a \<Rightarrow> take 8 a)),
      map_option (\<lambda>(ok, r', evs, rest). (ok, if ok then r'\<lparr>cc_localShortAddress := shortAddress\<rparr> else r', evs, rest))
        (radio_waitResp ecb RSP_OK bytes r))"

definition radio_configureMac ::
  "block_cipher \<Rightarrow> u8 \<Rightarrow> u8 \<Rightarrow> u8 list \<Rightarrow> radio \<Rightarrow> (u8 list \<times> (bool \<times> radio \<times> radio_event list \<times> u8 list) option)"
where
  "radio_configureMac ecb flags retries bytes r =
     (radio_sendFrame CMD_SET_MAC [flags AND (0x01 OR 0x02 OR 0x04), retries],
      radio_waitResp ecb RSP_OK bytes
        (if flags AND 0x01 \<noteq> 0 then r\<lparr>cc_promiscuous := False\<rparr> else r))"

definition radio_setMacPib ::
  "block_cipher \<Rightarrow> u8 \<Rightarrow> u8 \<Rightarrow> u8 \<Rightarrow> u8 \<Rightarrow> u8 list \<Rightarrow> radio
     \<Rightarrow> (u8 list \<times> (bool \<times> radio \<times> radio_event list \<times> u8 list) option)"
where
  "radio_setMacPib ecb minBE maxBE maxBackoffs maxFrameRetries bytes r =
     (radio_sendFrame CMD_SET_MAC_PIB [minBE, maxBE, maxBackoffs, maxFrameRetries],
      radio_waitResp ecb RSP_OK bytes r)"

definition radio_ping ::
  "block_cipher \<Rightarrow> u8 list \<Rightarrow> radio \<Rightarrow> (u8 list \<times> (bool \<times> radio \<times> radio_event list \<times> u8 list) option)"
where
  "radio_ping ecb bytes r = (radio_sendFrame CMD_PING [], radio_waitResp ecb RSP_PONG bytes r)"

definition radio_setTxPowerRaw ::
  "block_cipher \<Rightarrow> u8 \<Rightarrow> u8 list \<Rightarrow> radio \<Rightarrow> (u8 list \<times> (bool \<times> radio \<times> radio_event list \<times> u8 list) option)"
where
  "radio_setTxPowerRaw ecb txpower bytes r =
     (radio_sendFrame CMD_SET_TX_POWER [txpower], radio_waitResp ecb RSP_OK bytes r)"

definition radio_setFramePending ::
  "block_cipher \<Rightarrow> bool \<Rightarrow> u8 list \<Rightarrow> radio \<Rightarrow> (u8 list \<times> (bool \<times> radio \<times> radio_event list \<times> u8 list) option)"
where
  "radio_setFramePending ecb pending bytes r =
     (radio_sendFrame CMD_SET_PENDING [if pending then 1 else 0], radio_waitResp ecb RSP_OK bytes r)"

text \<open>The two readers of module state answer what they read: flags, retries, PAN id, short and
  extended address; and the two counters.\<close>

definition radio_getMacInfo ::
  "block_cipher \<Rightarrow> u8 list \<Rightarrow> radio
     \<Rightarrow> (u8 list \<times> ((u8 \<times> u8 \<times> u16 \<times> u16 \<times> u8 list) option \<times> radio \<times> radio_event list \<times> u8 list) option)"
where
  "radio_getMacInfo ecb bytes r =
     (radio_sendFrame CMD_GET_MAC [],
      map_option (\<lambda>(ok, r', evs, rest).
          (if \<not> ok \<or> cc_respLen r' < 14 then None
           else let d = cc_respData r' in
             Some (d ! 0, d ! 1, le_val (take 2 (drop 2 d)), le_val (take 2 (drop 4 d)), take 8 (drop 6 d)),
           r', evs, rest))
        (radio_waitResp ecb RSP_MAC_INFO bytes r))"

definition radio_getMacStats ::
  "block_cipher \<Rightarrow> u8 list \<Rightarrow> radio
     \<Rightarrow> (u8 list \<times> ((u16 \<times> u16) option \<times> radio \<times> radio_event list \<times> u8 list) option)"
where
  "radio_getMacStats ecb bytes r =
     (radio_sendFrame CMD_GET_STATS [],
      map_option (\<lambda>(ok, r', evs, rest).
          (if \<not> ok \<or> cc_respLen r' < 4 then None
           else Some (le_val (take 2 (cc_respData r')), le_val (take 2 (drop 2 (cc_respData r')))),
           r', evs, rest))
        (radio_waitResp ecb RSP_STATS bytes r))"

text \<open>\<open>send\<close> and \<open>sendWithRetries\<close> (\<open>retries\<close> given): refused without a byte written when too long.\<close>

definition radio_send ::
  "block_cipher \<Rightarrow> u8 option \<Rightarrow> u8 list \<Rightarrow> u8 list \<Rightarrow> radio
     \<Rightarrow> (u8 list \<times> (bool \<times> radio \<times> radio_event list \<times> u8 list) option)"
where
  "radio_send ecb retries payload bytes r =
     (if 125 < length payload then ([], Some (False, r, [], bytes))
      else
        ((case retries of None \<Rightarrow> radio_sendFrame CMD_TX payload
          | Some n \<Rightarrow> radio_sendFrame CMD_TX_ADV (n # payload)),
         map_option (\<lambda>(ok, r', evs, rest).
             if ok then
               (1 \<le> cc_respLen r' \<and> cc_respData r' ! 0 = 0,
                r'\<lparr>cc_lastTxAttempts := (if 2 \<le> cc_respLen r' then cc_respData r' ! 1 else 0)\<rparr>, evs, rest)
             else (False, r', evs, rest))
           (radio_waitResp ecb RSP_TXSTAT bytes r)))"

text \<open>
  The two operations that repeat a command: \<open>chunks\<close> are the bytes that arrive during each wait, and
  what one wait leaves unread is there for the next one. They answer what they wrote, too.
\<close>

primrec radio_edAttempts ::
  "block_cipher \<Rightarrow> u8 \<Rightarrow> u8 list \<Rightarrow> u8 list list \<Rightarrow> radio
     \<Rightarrow> (u8 option \<times> u8 list \<times> radio \<times> radio_event list \<times> u8 list) option"
where
  "radio_edAttempts ecb channel pending [] r = Some (None, [], r, [], pending)"
| "radio_edAttempts ecb channel pending (c # cs) r = do {
     (ok, r1, evs1, rest) \<leftarrow> radio_waitResp ecb RSP_ED_RESULT (pending @ c) r;
     let w = radio_sendFrame CMD_ED_SCAN [channel];
     if ok \<and> 2 \<le> cc_respLen r1 then Some (Some (cc_respData r1 ! 1), w, r1\<lparr>cc_channel := channel\<rparr>, evs1, rest)
     else do {
       (peak, w2, r2, evs2, rest2) \<leftarrow> radio_edAttempts ecb channel rest cs r1;
       Some (peak, w @ w2, r2, evs1 @ evs2, rest2)
     }
   }"

definition radio_energyScan ::
  "block_cipher \<Rightarrow> u8 \<Rightarrow> u8 list \<times> u8 list \<times> u8 list \<Rightarrow> radio
     \<Rightarrow> (u8 option \<times> u8 list \<times> radio \<times> radio_event list \<times> u8 list) option"
where
  "radio_energyScan ecb channel chunks r =
     (case chunks of (c1, c2, c3) \<Rightarrow> radio_edAttempts ecb channel [] [c1, c2, c3] r)"

primrec radio_pings ::
  "block_cipher \<Rightarrow> u8 list \<Rightarrow> u8 list list \<Rightarrow> radio
     \<Rightarrow> (bool \<times> u8 list \<times> radio \<times> radio_event list \<times> u8 list) option"
where
  "radio_pings ecb pending [] r = Some (False, [], r, [], pending)"
| "radio_pings ecb pending (c # cs) r = do {
     let (w, res) = radio_ping ecb (pending @ c) r;
     (alive, r1, evs1, rest) \<leftarrow> res;
     if alive then Some (True, w, r1, evs1, rest)
     else do {
       (alive, w2, r2, evs2, rest2) \<leftarrow> radio_pings ecb rest cs r1;
       Some (alive, w @ w2, r2, evs1 @ evs2, rest2)
     }
   }"

text \<open>\<open>begin\<close>, from the 140 zero bytes on: what was received before is discarded.\<close>

definition radio_begin ::
  "block_cipher \<Rightarrow> u8 \<Rightarrow> u8 list \<times> u8 list \<times> u8 list \<Rightarrow> u8 list \<Rightarrow> u8 list \<Rightarrow> radio
     \<Rightarrow> (bool \<times> u8 list \<times> radio \<times> radio_event list \<times> u8 list) option"
where
  "radio_begin ecb channel chunks c4 c5 r = do {
     let (c1, c2, c3) = chunks;
     let zeros = replicate 140 0;
     (alive, w1, r1, evs1, rest1) \<leftarrow> radio_pings ecb [] [c1, c2, c3] r;
     if \<not> alive then Some (False, zeros @ w1, r1, evs1, rest1)
     else do {
       let (w2, res2) = radio_setPromiscuous ecb True (rest1 @ c4) r1;
       (_, r2, evs2, rest2) \<leftarrow> res2;
       let (w3, res3) = radio_setChannel ecb channel (rest2 @ c5) r2;
       (ok, r3, evs3, rest3) \<leftarrow> res3;
       Some (ok, zeros @ w1 @ w2 @ w3, r3, evs1 @ evs2 @ evs3, rest3)
     }
   }"

section \<open>Transmitting\<close>

definition radio_applyTxSecurity :: "block_cipher \<Rightarrow> u8 list \<Rightarrow> radio \<Rightarrow> (u8 list option \<times> radio) option" where
  "radio_applyTxSecurity ecb npdu r =
     (case cc_security r of
        None \<Rightarrow> Some (Some npdu, r)
      | Some s \<Rightarrow>
          if \<not> sc_hasKey s then Some (Some npdu, r)
          else
            let counter = cc_securityCounter r + 1 in
            (case sc_secureNpdu ecb (Some npdu) (radio_nwkHeaderLength npdu) (cc_securityIeee r) counter
                    (Some (116 + kAuxLen + kMicLen)) s of
               None \<Rightarrow> None
             | Some (res, s') \<Rightarrow>
                 Some ((case res of None \<Rightarrow> None
                        | Some f \<Rightarrow> if length f = 0 \<or> 116 + kAuxLen + kMicLen < length f then None else Some f),
                       r\<lparr>cc_security := Some s', cc_securityCounter := counter\<rparr>)))"

definition radio_sendData ::
  "u16 \<Rightarrow> u16 \<Rightarrow> u16 \<Rightarrow> u8 list \<Rightarrow> bool \<Rightarrow> radio \<Rightarrow> u8 list option \<times> radio"
where
  "radio_sendData panId dstShort srcShort payload ackRequest r =
     (mac_buildShortDataFrame (Some 125) panId dstShort srcShort (cc_macSequence r) (Some payload)
        (length payload) ackRequest,
      r\<lparr>cc_macSequence := cc_macSequence r + 1\<rparr>)"

definition radio_sendAssociationRequest ::
  "u16 \<Rightarrow> u16 \<Rightarrow> u64 \<Rightarrow> u8 \<Rightarrow> bool \<Rightarrow> radio \<Rightarrow> u8 list option \<times> radio"
where
  "radio_sendAssociationRequest panId coordShort srcIeee capability ackRequest r =
     (mac_buildAssociationRequest (Some 125) panId coordShort srcIeee (cc_macSequence r) capability ackRequest,
      r\<lparr>cc_macSequence := cc_macSequence r + 1\<rparr>)"

definition radio_sendAssociationResponse ::
  "u16 \<Rightarrow> u64 \<Rightarrow> u16 \<Rightarrow> u16 \<Rightarrow> u8 \<Rightarrow> bool \<Rightarrow> radio \<Rightarrow> u8 list option \<times> radio"
where
  "radio_sendAssociationResponse panId dstIeee srcShort assignedShort status ackRequest r =
     (mac_buildAssociationResponse (Some 125) panId dstIeee srcShort (cc_macSequence r) assignedShort status
        ackRequest,
      r\<lparr>cc_macSequence := cc_macSequence r + 1\<rparr>)"

definition radio_sendBeaconRequest :: "radio \<Rightarrow> u8 list option \<times> radio" where
  "radio_sendBeaconRequest r =
     (mac_buildBeaconRequest (Some 125) (cc_macSequence r), r\<lparr>cc_macSequence := cc_macSequence r + 1\<rparr>)"

definition radio_sendBeacon :: "u16 \<Rightarrow> u16 \<Rightarrow> bool \<Rightarrow> bool \<Rightarrow> u8 list \<Rightarrow> radio \<Rightarrow> u8 list option \<times> radio" where
  "radio_sendBeacon panId srcShort panCoordinator associationPermit payload r =
     (mac_buildBeacon (Some 125) panId srcShort (cc_macSequence r) panCoordinator associationPermit
        (Some payload) (length payload),
      r\<lparr>cc_macSequence := cc_macSequence r + 1\<rparr>)"

definition radio_sendNpdu ::
  "block_cipher \<Rightarrow> u16 \<Rightarrow> u16 \<Rightarrow> u16 \<Rightarrow> u8 list option \<Rightarrow> bool \<Rightarrow> radio \<Rightarrow> (u8 list option \<times> radio) option"
where
  "radio_sendNpdu ecb panId macDstShort macSrcShort npdu ackRequest r =
     (case npdu of None \<Rightarrow> Some (None, r) | Some bs \<Rightarrow>
        (case radio_applyTxSecurity ecb bs r of
           None \<Rightarrow> None
         | Some (None, r') \<Rightarrow> Some (None, r')
         | Some (Some secured, r') \<Rightarrow> Some (radio_sendData panId macDstShort macSrcShort secured ackRequest r')))"

definition radio_sendNwkData ::
  "block_cipher \<Rightarrow> u16 \<Rightarrow> u16 \<Rightarrow> u16 \<Rightarrow> u16 \<Rightarrow> u16 \<Rightarrow> u8 list \<Rightarrow> u8 \<Rightarrow> bool \<Rightarrow> radio
     \<Rightarrow> (u8 list option \<times> radio) option"
where
  "radio_sendNwkData ecb panId macDstShort macSrcShort nwkDstShort nwkSrcShort payload radius ackRequest r =
     radio_sendNpdu ecb panId macDstShort macSrcShort
       (nwk_buildDataFrame (Some 116) nwkDstShort nwkSrcShort radius (cc_nwkSequence r) (Some payload)
          (length payload) 0) ackRequest
       (r\<lparr>cc_nwkSequence := cc_nwkSequence r + 1\<rparr>)"

definition radio_sendNwkDataSourceRouted ::
  "block_cipher \<Rightarrow> u16 \<Rightarrow> u16 \<Rightarrow> u16 \<Rightarrow> u16 \<Rightarrow> u16 \<Rightarrow> u16 list option \<Rightarrow> u8 \<Rightarrow> u8 \<Rightarrow> u8 list \<Rightarrow> u8 \<Rightarrow> u8
     \<Rightarrow> bool \<Rightarrow> radio \<Rightarrow> (u8 list option \<times> radio) option"
where
  "radio_sendNwkDataSourceRouted ecb panId macDstShort macSrcShort nwkDstShort nwkSrcShort relays relayCount
       relayIndex payload radius sequence ackRequest r =
     radio_sendNpdu ecb panId macDstShort macSrcShort
       (Option.bind
         (nwk_buildDataFrameSourceRouted (Some 116) nwkDstShort nwkSrcShort radius sequence relays relayCount
            relayIndex (Some payload) (length payload) 0)
         (\<lambda>(bs, n). if n = 0 then None else Some (take n bs))) ackRequest r"

definition radio_sendNwkDataUnsecured ::
  "u16 \<Rightarrow> u16 \<Rightarrow> u16 \<Rightarrow> u16 \<Rightarrow> u16 \<Rightarrow> u8 list \<Rightarrow> u8 \<Rightarrow> bool \<Rightarrow> radio \<Rightarrow> u8 list option \<times> radio"
where
  "radio_sendNwkDataUnsecured panId macDstShort macSrcShort nwkDstShort nwkSrcShort payload radius ackRequest r =
     (let r1 = r\<lparr>cc_nwkSequence := cc_nwkSequence r + 1\<rparr> in
      case nwk_buildDataFrame (Some 116) nwkDstShort nwkSrcShort radius (cc_nwkSequence r) (Some payload)
             (length payload) 0 of
        None \<Rightarrow> (None, r1)
      | Some npdu \<Rightarrow> radio_sendData panId macDstShort macSrcShort npdu ackRequest r1)"

definition radio_sendNwkCommand ::
  "block_cipher \<Rightarrow> u16 \<Rightarrow> u16 \<Rightarrow> u16 \<Rightarrow> u16 \<Rightarrow> u16 \<Rightarrow> u8 \<Rightarrow> u8 list \<Rightarrow> u8 \<Rightarrow> bool \<Rightarrow> radio
     \<Rightarrow> (u8 list option \<times> radio) option"
where
  "radio_sendNwkCommand ecb panId macDstShort macSrcShort nwkDstShort nwkSrcShort commandId payload radius
       ackRequest r =
     radio_sendNpdu ecb panId macDstShort macSrcShort
       (nwk_buildCommandFrame (Some 116) nwkDstShort nwkSrcShort radius (cc_nwkSequence r) commandId
          (Some payload) (length payload) 0) ackRequest
       (r\<lparr>cc_nwkSequence := cc_nwkSequence r + 1\<rparr>)"

definition radio_sendApsData ::
  "block_cipher \<Rightarrow> u16 \<Rightarrow> u16 \<Rightarrow> u16 \<Rightarrow> u16 \<Rightarrow> u16 \<Rightarrow> u8 \<Rightarrow> u16 \<Rightarrow> u16 \<Rightarrow> u8 \<Rightarrow> u8 list \<Rightarrow> u8 \<Rightarrow> bool \<Rightarrow> radio
     \<Rightarrow> (u8 list option \<times> radio) option"
where
  "radio_sendApsData ecb panId macDstShort macSrcShort nwkDstShort nwkSrcShort dstEndpoint clusterId profileId
       srcEndpoint payload radius ackRequest r =
     (let r1 = r\<lparr>cc_apsCounter := cc_apsCounter r + 1\<rparr> in
      case aps_buildDataFrame (Some 108) dstEndpoint clusterId profileId srcEndpoint (cc_apsCounter r)
             (Some payload) (length payload) False of
        None \<Rightarrow> Some (None, r1)
      | Some apdu \<Rightarrow> radio_sendNwkData ecb panId macDstShort macSrcShort nwkDstShort nwkSrcShort apdu radius
          ackRequest r1)"

definition radio_sendZdoCommand ::
  "block_cipher \<Rightarrow> u16 \<Rightarrow> u16 \<Rightarrow> u16 \<Rightarrow> u16 \<Rightarrow> u16 \<Rightarrow> u16 \<Rightarrow> u8 list \<Rightarrow> u8 \<Rightarrow> bool \<Rightarrow> radio
     \<Rightarrow> (u8 list option \<times> radio) option"
where
  "radio_sendZdoCommand ecb panId macDstShort macSrcShort nwkDstShort nwkSrcShort clusterId payload radius
       ackRequest r =
     radio_sendApsData ecb panId macDstShort macSrcShort nwkDstShort nwkSrcShort 0 clusterId 0x0000 0 payload
       radius ackRequest r"

definition radio_sendZclCommand ::
  "block_cipher \<Rightarrow> u16 \<Rightarrow> u16 \<Rightarrow> u16 \<Rightarrow> u16 \<Rightarrow> u16 \<Rightarrow> u8 \<Rightarrow> u16 \<Rightarrow> u16 \<Rightarrow> u8 \<Rightarrow> u8 \<Rightarrow> u8 list \<Rightarrow> u8 \<Rightarrow> u8
     \<Rightarrow> u8 \<Rightarrow> bool \<Rightarrow> radio \<Rightarrow> (u8 list option \<times> radio) option"
where
  "radio_sendZclCommand ecb panId macDstShort macSrcShort nwkDstShort nwkSrcShort dstEndpoint clusterId
       profileId srcEndpoint commandId payload zclFrameType zclDirection radius ackRequest r =
     (let r1 = r\<lparr>cc_zclSequence := cc_zclSequence r + 1\<rparr> in
      case zcl_buildCommandFrame (Some 100) zclFrameType (cc_zclSequence r) commandId (Some payload)
             (length payload) zclDirection True of
        None \<Rightarrow> Some (None, r1)
      | Some zcl \<Rightarrow> radio_sendApsData ecb panId macDstShort macSrcShort nwkDstShort nwkSrcShort dstEndpoint
          clusterId profileId srcEndpoint zcl radius ackRequest r1)"

end
