(* ===== verification/ZbRadioLine.thy ===== *)
theory ZbRadioLine
  imports ZbRadio ZbSecurityFacts
begin

text \<open>
  The serial line between the host driver and the radio module: a frame written with
  \<open>sendFrame\<close>'s framing is acted on once it is complete, and its checksum detects every single
  corrupted byte.
\<close>

section \<open>The serial framing\<close>

abbreviation (input) xor_all :: "u8 \<Rightarrow> u8 list \<Rightarrow> u8" where
  "xor_all f bs \<equiv> foldl (\<lambda>f b. f XOR b) f bs"

lemma radio_poll_append:
  "radio_poll ecb (xs @ ys) r = do {
     (r1, evs1) \<leftarrow> radio_poll ecb xs r;
     (r2, evs2) \<leftarrow> radio_poll ecb ys r1;
     Some (r2, evs1 @ evs2)
   }"
proof (induction xs arbitrary: r)
  case Nil
  then show ?case by (cases "radio_poll ecb ys r") (simp_all split: prod.split)
next
  case (Cons x xs)
  then show ?case
    by (cases "radio_feed ecb x r") (auto split: prod.split option.split Option.bind_splits)
qed

lemma radio_poll_then:
  "radio_poll ecb xs r = Some (r1, []) \<Longrightarrow> radio_poll ecb (xs @ ys) r = radio_poll ecb ys r1"
  by (cases "radio_poll ecb ys r1") (simp_all add: radio_poll_append split: prod.split)

text \<open>The bytes of a body fill the buffer and the checksum.\<close>

lemma radio_poll_body:
  assumes "cc_state r = 2" "bs \<noteq> []" "cc_idx r + length bs = cc_len r" "cc_len r \<le> length (cc_buf r)"
  shows "radio_poll ecb bs r = Some (r\<lparr>cc_state := 3, cc_idx := cc_len r, cc_fcs := xor_all (cc_fcs r) bs,
    cc_buf := take (cc_idx r) (cc_buf r) @ bs @ drop (cc_len r) (cc_buf r)\<rparr>, [])"
  using assms
proof (induction bs arbitrary: r)
  case (Cons b bs)
  let ?r = "r\<lparr>cc_buf := (cc_buf r)[cc_idx r := b], cc_idx := cc_idx r + 1, cc_fcs := cc_fcs r XOR b,
    cc_state := (if cc_len r \<le> cc_idx r + 1 then 3 else 2)\<rparr>"
  have step: "radio_feed ecb b r = Some (?r, [])" using Cons.prems by (simp add: radio_feed_def)
  have i: "cc_idx r < length (cc_buf r)" using Cons.prems by simp
  have buf: "take (Suc (cc_idx r)) ((cc_buf r)[cc_idx r := b]) = take (cc_idx r) (cc_buf r) @ [b]"
    using i by (simp add: take_Suc_conv_app_nth)
  show ?case
  proof (cases "bs = []")
    case True
    have "(cc_buf r)[cc_idx r := b] = take (cc_idx r) (cc_buf r) @ b # drop (Suc (cc_idx r)) (cc_buf r)"
      by (rule upd_conv_take_nth_drop [OF i])
    then show ?thesis using step True Cons.prems by simp
  next
    case False
    then have "cc_state ?r = 2" "cc_idx ?r + length bs = cc_len ?r" "cc_len ?r \<le> length (cc_buf ?r)"
      using Cons.prems by (auto simp: Suc_le_eq neq_Nil_conv)
    from Cons.IH [OF this(1) False this(2,3)] show ?thesis
      using step buf Cons.prems by (simp add: drop_update_cancel)
  qed
qed simp

text \<open>
  A whole frame, from the idle state: with the right checksum the frame is acted on, with any other
  byte in its place nothing happens. \<open>radio_with\<close> is the parser's state with the frame in it.
\<close>

definition radio_with :: "u8 list \<Rightarrow> radio \<Rightarrow> radio" where
  "radio_with body r = r\<lparr>cc_len := length body, cc_idx := length body,
     cc_fcs := xor_all (of_nat (length body)) body, cc_buf := body @ drop (length body) (cc_buf r),
     cc_state := 0\<rparr>"

lemma radio_poll_frame:
  assumes "cc_state r = 0" "length (cc_buf r) = 140" "body \<noteq> []" "length body \<le> 140"
  shows "radio_poll ecb (uart_SOF # of_nat (length body) # body @ [c]) r =
    (if c = xor_all (of_nat (length body)) body then radio_frame ecb (radio_with body r)
     else Some (radio_with body r, []))"
proof -
  let ?n = "of_nat (length body) :: u8"
  let ?r = "r\<lparr>cc_state := 2, cc_len := length body, cc_idx := 0, cc_fcs := ?n\<rparr>"
  have n: "unat ?n = length body" using assms by simp
  have "length body \<noteq> 0" using assms by simp
  then have head: "radio_poll ecb [uart_SOF, ?n] r = Some (?r, [])"
    using assms by (simp add: radio_feed_def n del: length_0_conv)
  have body: "radio_poll ecb body ?r = Some (r\<lparr>cc_state := 3, cc_len := length body, cc_idx := length body,
      cc_fcs := xor_all ?n body, cc_buf := body @ drop (length body) (cc_buf r)\<rparr>, [])"
    using radio_poll_body [of ?r body ecb] assms by simp
  have "radio_poll ecb ([uart_SOF, ?n] @ body @ [c]) r =
      radio_poll ecb [c] (r\<lparr>cc_state := 3, cc_len := length body, cc_idx := length body,
        cc_fcs := xor_all ?n body, cc_buf := body @ drop (length body) (cc_buf r)\<rparr>)"
    by (simp only: radio_poll_then [OF head] radio_poll_then [OF body])
  also have "\<dots> = (if c = xor_all ?n body then radio_frame ecb (radio_with body r) else Some (radio_with body r, []))"
    by (cases "radio_frame ecb (radio_with body r)") (simp_all add: radio_feed_def radio_with_def split: prod.split)
  finally show ?thesis by simp
qed

lemma sendFrame_bytes: "radio_sendFrame cmd data =
  uart_SOF # of_nat (length (cmd # data)) # (cmd # data) @ [xor_all (of_nat (length (cmd # data))) (cmd # data)]"
  by (simp add: radio_sendFrame_def uart_fcs_def)

lemma xor_all_xor: "xor_all (a XOR f) bs = a XOR xor_all f bs"
  by (induction bs arbitrary: f) (simp_all add: xor.assoc)

lemma xor_all_0: "xor_all f bs = f XOR xor_all 0 bs"
  using xor_all_xor [of f 0 bs] by simp

lemma xor_cancel: "(a :: u8) XOR c = b XOR c \<longleftrightarrow> a = b"
proof
  assume "a XOR c = b XOR c"
  then have "(a XOR c) XOR c = (b XOR c) XOR c" by simp
  then show "a = b" by (simp add: xor.assoc)
qed simp

lemma xor_all_inj: "xor_all f bs = xor_all g bs \<longleftrightarrow> f = g"
  using xor_cancel [of f "xor_all 0 bs" g] xor_all_0 [of f bs] xor_all_0 [of g bs] by simp

lemma xor_all_update:
  assumes "i < length bs" "xor_all f (bs[i := x]) = xor_all f bs"
  shows "x = bs ! i"
proof -
  have s: "bs = take i bs @ bs ! i # drop (Suc i) bs" by (rule id_take_nth_drop [OF assms(1)])
  have "bs[i := x] = take i bs @ x # drop (Suc i) bs" by (rule upd_conv_take_nth_drop [OF assms(1)])
  then have "xor_all f (take i bs @ x # drop (Suc i) bs) = xor_all f (take i bs @ bs ! i # drop (Suc i) bs)"
    using assms(2) s by simp
  then have "xor_all f (take i bs) XOR x = xor_all f (take i bs) XOR bs ! i" by (simp add: xor_all_inj)
  then show ?thesis using xor_cancel [of x "xor_all f (take i bs)" "bs ! i"] by (simp add: xor.commute)
qed

lemma radio_poll_bad:
  assumes "cc_state r = 0" "length (cc_buf r) = 140" "body \<noteq> []" "length body \<le> 140"
    and "n = length body" "c \<noteq> xor_all (of_nat n) body" "bs = body @ [c]"
  shows "radio_poll ecb (uart_SOF # of_nat n # bs) r = Some (radio_with body r, [])"
  using radio_poll_frame [OF assms(1-4), of ecb c] assms(5-7) by (simp del: radio_poll.simps)

lemma uart_byte_ignored:
  assumes "cc_state r = 0" "length (cc_buf r) = 140" "length data \<le> 139"
    and "2 \<le> i" "i < length (radio_sendFrame cmd data)" "x \<noteq> radio_sendFrame cmd data ! i"
  shows "\<exists>body. radio_poll ecb ((radio_sendFrame cmd data)[i := x]) r = Some (radio_with body r, []) \<and> length body \<le> 140"
proof -
  obtain body where b: "body = cmd # data" by blast
  let ?n = "of_nat (length body) :: u8"
  let ?c = "xor_all ?n body"
  have bytes: "radio_sendFrame cmd data = uart_SOF # ?n # body @ [?c]" unfolding b by (rule sendFrame_bytes)
  have l: "body \<noteq> []" "length body \<le> 140" using b assms(3) by simp_all
  obtain j where j: "i = Suc (Suc j)"
    by (rule that [of "i - 2"]) (use assms(4) in simp)
  have upd: "(radio_sendFrame cmd data)[i := x] = uart_SOF # ?n # (body @ [?c])[j := x]"
    unfolding bytes j by simp
  have x: "x \<noteq> (body @ [?c]) ! j" using assms(6) unfolding bytes j by simp
  show ?thesis
  proof (cases "j < length body")
    case True
    have "?c \<noteq> xor_all ?n (body[j := x])"
    proof
      assume "?c = xor_all ?n (body[j := x])"
      then have "x = body ! j" by (intro xor_all_update [OF True]) (rule sym)
      with x True show False by (simp only: nth_append if_True)
    qed
    then have "radio_poll ecb ((radio_sendFrame cmd data)[i := x]) r = Some (radio_with (body[j := x]) r, [])"
      unfolding upd using l True by (intro radio_poll_bad assms(1,2)) (simp_all add: list_update_append1)
    then show ?thesis using l(2) by (intro exI [of _ "body[j := x]"]) simp
  next
    case False
    then have last: "j = length body" using assms(5) unfolding bytes j by simp
    then have "x \<noteq> ?c" using x unfolding last by (simp only: nth_append_length not_False_eq_True)
    then have "radio_poll ecb ((radio_sendFrame cmd data)[i := x]) r = Some (radio_with body r, [])"
      unfolding upd last using l by (intro radio_poll_bad assms(1,2)) simp_all
    then show ?thesis using l(2) by blast
  qed
qed

text \<open>Without a start byte among them, all bytes are skipped by an idle parser.\<close>

lemma radio_poll_skips:
  "cc_state r = 0 \<Longrightarrow> uart_SOF \<notin> set bs \<Longrightarrow> radio_poll ecb bs r = Some (r, [])"
  by (induction bs) (auto simp: radio_feed_def)

text \<open>C40: The serial line's checksum. When the driver is idle and one byte of a frame's command, data or
  checksum arrives changed, the driver acts on nothing: no callback runs, no response is marked, no
  frame is opened, and the parser is idle again for the next frame. The same holds for a changed start byte, and for
  a length byte changed to one that is out of range, when no byte behind it looks like a start byte. (A length byte
  changed to another one in range is not in the claim: the parser takes more or fewer bytes than the frame has.)\<close>

theorem uart_corruption_ignored:
  assumes "cc_state r = 0" "length (cc_buf r) = 140" "length data \<le> 139"
    and "i < length (radio_sendFrame cmd data)" "x \<noteq> radio_sendFrame cmd data ! i"
    and "i < 2 \<longrightarrow> uart_SOF \<notin> set (drop (Suc i) (radio_sendFrame cmd data))" "i = 1 \<longrightarrow> x = 0 \<or> 140 < unat x"
  shows "\<exists>buf idx len fcs. length buf = 140 \<and> radio_poll ecb ((radio_sendFrame cmd data)[i := x]) r =
    Some (r\<lparr>cc_buf := buf, cc_idx := idx, cc_len := len, cc_fcs := fcs\<rparr>, [])"
proof -
  let ?f = "radio_sendFrame cmd data"
  have f: "?f = uart_SOF # (of_nat (length data + 1)) # cmd # data @ [uart_fcs cmd data]" by (simp add: radio_sendFrame_def)
  consider "i = 0" | "i = 1" | "2 \<le> i" by linarith
  then show ?thesis
  proof cases
    case 1
    then have "uart_SOF \<notin> set (?f[i := x])" using assms(5,6) unfolding f by simp
    from radio_poll_skips [OF assms(1) this] assms(2) show ?thesis
      by (intro exI [of _ "cc_buf r"] exI [of _ "cc_idx r"] exI [of _ "cc_len r"] exI [of _ "cc_fcs r"]) simp
  next
    case 2
    let ?r = "r\<lparr>cc_len := unat x, cc_idx := 0, cc_fcs := x\<rparr>"
    have "unat x = 0 \<or> 140 < unat x" using assms(7) 2 by auto
    then have h: "radio_poll ecb [uart_SOF, x] r = Some (?r, [])" using assms(1) by (auto simp: radio_feed_def)
    have "uart_SOF \<notin> set (drop 2 ?f)" using assms(6) 2 by (simp add: numeral_2_eq_2)
    then have "radio_poll ecb (drop 2 ?f) ?r = Some (?r, [])" using assms(1) by (intro radio_poll_skips) simp_all
    moreover have "?f[i := x] = [uart_SOF, x] @ drop 2 ?f" using 2 unfolding f by simp
    ultimately have "radio_poll ecb (?f[i := x]) r = Some (?r, [])" by (simp only: radio_poll_then [OF h])
    then show ?thesis using assms(2)
      by (intro exI [of _ "cc_buf r"] exI [of _ 0] exI [of _ "unat x"] exI [of _ x]) simp
  next
    case 3
    obtain body where b: "radio_poll ecb (?f[i := x]) r = Some (radio_with body r, [])" "length body \<le> 140"
      using uart_byte_ignored [OF assms(1-3) 3 assms(4,5), of ecb] by blast
    have "radio_with body r = r\<lparr>cc_buf := body @ drop (length body) (cc_buf r), cc_idx := length body, cc_len := length body,
        cc_fcs := xor_all (of_nat (length body)) body\<rparr>" using assms(1) by (simp add: radio_with_def)
    then show ?thesis using b assms(2)
      by (intro exI [of _ "body @ drop (length body) (cc_buf r)"] exI [of _ "length body"] exI [of _ "xor_all (of_nat (length body)) body"]) simp
  qed
qed

theorem uart_corruption_ignored_witness:
  "\<exists>r r'. radio_poll ecb_example ((radio_sendFrame RSP_PONG [0, 10])[3 := 9]) radio_init = Some (r, []) \<and>
     radio_poll ecb_example ((radio_sendFrame RSP_PONG [0, 10])[0 := 9]) radio_init = Some (r', [])"
proof -
  have f: "radio_sendFrame RSP_PONG [0, 10] = [uart_SOF, 3, RSP_PONG, 0, 10, uart_fcs RSP_PONG [0, 10]]" by (simp add: radio_sendFrame_def)
  have i: "cc_state radio_init = 0" "length (cc_buf radio_init) = 140" "length [0, 10 :: u8] \<le> 139" by (simp_all add: radio_init_def)
  have c: "uart_fcs RSP_PONG [0, 10] \<noteq> uart_SOF" by (simp add: uart_fcs_def)
  show ?thesis
    using uart_corruption_ignored [OF i, of 3 RSP_PONG 9 ecb_example] uart_corruption_ignored [OF i, of 0 RSP_PONG 9 ecb_example] c
    unfolding f by auto
qed

end
