(* ===== verification/ZbRadioFacts.thy ===== *)
theory ZbRadioFacts
  imports ZbRadioLine ZbMacFacts ZbNwkFacts ZbZclFacts
begin

text \<open>
  The stack end to end: no sequence of bytes makes the receive path read outside its buffers, only
  frames for this node reach the application layers, and what one node's application hands to the
  radio driver another node's application is called with, through ZCL, APS, NWK, network security,
  MAC and the serial framing.
\<close>

section \<open>Receiving is safe\<close>

text \<open>What the driver's parser keeps: the sizes of its buffers and its position in the frame.\<close>

definition radio_ok :: "radio \<Rightarrow> bool" where
  "radio_ok r \<longleftrightarrow> length (cc_buf r) = 140 \<and> length (cc_respData r) = 16 \<and>
     (cc_state r \<noteq> 0 \<longrightarrow> cc_state r = 1 \<or> 1 \<le> cc_len r \<and> cc_len r \<le> 140 \<and>
       (cc_state r = 2 \<longrightarrow> cc_idx r < cc_len r))"

fun event_nwk :: "radio_event \<Rightarrow> nwk_data_frame option" where
  "event_nwk (EvApsAck _ nwk _ _ _) = Some nwk"
| "event_nwk (EvAps _ nwk _ _ _) = Some nwk"
| "event_nwk (EvZdo _ nwk _ _ _) = Some nwk"
| "event_nwk (EvZcl _ nwk _ _ _ _) = Some nwk"
| "event_nwk _ = None"

text \<open>The payload pointer of a MAC command that is handed up spans its payload.\<close>

fun event_sized :: "radio_event \<Rightarrow> bool" where
  "event_sized (EvMacCommand fr _ _) \<longleftrightarrow> (\<exists>pl. mc_payload fr = Some pl \<and> mc_payloadLen fr \<le> length pl)"
| "event_sized _ \<longleftrightarrow> True"

definition local_events :: "radio \<Rightarrow> radio_event list \<Rightarrow> bool" where
  "local_events r evs \<longleftrightarrow> (\<forall>ev\<in>set evs. event_sized ev \<and> (\<forall>nwk. event_nwk ev = Some nwk \<longrightarrow> radio_localDestination r nwk))"

lemma local_events_simps [simp]:
  "local_events r []" "local_events r (xs @ ys) \<longleftrightarrow> local_events r xs \<and> local_events r ys"
  "local_events r (ev # evs) \<longleftrightarrow> event_sized ev \<and> (\<forall>nwk. event_nwk ev = Some nwk \<longrightarrow> radio_localDestination r nwk) \<and>
     local_events r evs"
  by (auto simp: local_events_def)

lemma zcl_parseFrame_safe: "zcl_parseFrame p \<noteq> None"
  by (cases p) (auto simp: zcl_parseFrame_def rd8_def rd16_def rd_bytes_def Let_def split: if_splits)

lemma safe_obtain: "a \<noteq> None \<Longrightarrow> (\<And>x. a = Some x \<Longrightarrow> f x \<noteq> None) \<Longrightarrow> Option.bind a f \<noteq> None"
  by (cases a) auto

text \<open>Each stage answers, and its calls of the upper layers are for this node.\<close>

definition stage_ok :: "radio \<Rightarrow> radio_event list option \<Rightarrow> bool" where
  "stage_ok r res \<longleftrightarrow> (\<exists>evs. res = Some evs \<and> local_events r evs)"

lemma stage_ok_intros:
  "stage_ok r (Some [])" "stage_ok r a \<Longrightarrow> stage_ok r b \<Longrightarrow> stage_ok r (if c then a else b)"
  "stage_ok r a \<Longrightarrow> stage_ok r b \<Longrightarrow> stage_ok r (do { x \<leftarrow> a; y \<leftarrow> b; Some (x @ y) })"
  by (auto simp: stage_ok_def)

lemma stage_ok_parse:
  "p \<noteq> None \<Longrightarrow> (\<And>x. stage_ok r (f x)) \<Longrightarrow> stage_ok r (Option.bind p f)"
  by (cases p) auto

lemma stage_ok_then:
  "stage_ok r a \<Longrightarrow> (\<And>x. local_events r x \<Longrightarrow> stage_ok r (f x)) \<Longrightarrow> stage_ok r (Option.bind a f)"
  by (auto simp: stage_ok_def)

lemma stage_ok_prod: "(\<And>x y. stage_ok r (f x y)) \<Longrightarrow> stage_ok r (case p of (x, y) \<Rightarrow> f x y)"
  by (cases p) simp

lemma stage_ok_Some: "local_events r evs \<Longrightarrow> stage_ok r (Some evs)"
  by (simp add: stage_ok_def)

lemma radio_apsEvents_ok:
  assumes "radio_localDestination r nwk"
  shows "stage_ok r (radio_apsEvents cb frame nwk rssi lqi)"
proof -
  let ?apdu = "ptr_take (nd_payload nwk) (nd_payloadLen nwk)"
  have ack: "stage_ok r (if cb_apsAck cb then do {
         t \<leftarrow> aps_frameType ?apdu;
         if t = APS_FRAME_ACK then do {
           (ok, ack) \<leftarrow> aps_parseAckFrame ?apdu;
           Some (if ok then [EvApsAck frame nwk ack rssi lqi] else [])
         } else Some []
       } else Some [])"
    by (intro stage_ok_intros stage_ok_parse aps_parsers_in_bounds) (use assms in \<open>auto simp: stage_ok_def\<close>)
  have zcl: "stage_ok r (if cb_zcl cb then do {
      (zok, zcl) \<leftarrow> zcl_parseFrame (ptr_take (ap_payload aps) (ap_payloadLen aps));
      Some (if zok then [EvZcl frame nwk aps zcl rssi lqi] else [])} else Some [])" for aps
    by (intro stage_ok_intros stage_ok_parse zcl_parseFrame_safe) (use assms in \<open>auto simp: stage_ok_def\<close>)
  have data: "stage_ok r (if cb_aps cb \<or> cb_zdo cb \<or> cb_zcl cb then do {
         (ok, aps) \<leftarrow> aps_parseDataFrame ?apdu;
         if \<not> ok then Some []
         else do {
           zclEvents \<leftarrow> (if cb_zcl cb then do {
               (zok, zcl) \<leftarrow> zcl_parseFrame (ptr_take (ap_payload aps) (ap_payloadLen aps));
               Some (if zok then [EvZcl frame nwk aps zcl rssi lqi] else [])
             } else Some []);
           Some ((if cb_aps cb then [EvAps frame nwk aps rssi lqi] else []) @
                 (if cb_zdo cb \<and> ap_profileId aps = 0x0000 \<and> ap_dstEndpoint aps = 0
                  then [EvZdo frame nwk aps rssi lqi] else []) @
                 zclEvents)
         }
       } else Some [])"
    by (intro stage_ok_intros stage_ok_parse aps_parsers_in_bounds stage_ok_prod stage_ok_then [OF zcl] stage_ok_Some)
      (use assms in auto)
  show ?thesis
    unfolding radio_apsEvents_def Let_def by (rule stage_ok_intros(3) [OF ack data])
qed

lemma radio_nwkEvents_ok: "stage_ok r (radio_nwkEvents r frame npdu rssi lqi)"
proof -
  have up: "stage_ok r (if radio_localDestination r nwk then radio_apsEvents cb frame nwk rssi lqi else Some [])"
    for nwk cb
    using radio_apsEvents_ok by (auto simp: stage_ok_def)
  show ?thesis
    unfolding radio_nwkEvents_def Let_def
    by (intro stage_ok_intros stage_ok_parse nwk_parseDataFrame_safe nwk_parseCommandFrame_safe stage_ok_prod
        stage_ok_then [OF up] stage_ok_Some) auto
qed

lemma radio_macEvents_ok: "stage_ok r (radio_macEvents cb psdu rssi lqi)"
proof -
  obtain ok fr where c: "mac_parseCommandFrame (Some psdu) = Some (ok, fr)"
    using mac_parseCommandFrame_safe [of "Some psdu"] by auto
  have sized: "ok \<Longrightarrow> \<exists>pl. mc_payload fr = Some pl \<and> mc_payloadLen fr \<le> length pl"
    using mac_command_in_payload c by simp
  have command: "stage_ok r (if cb_macCommand cb then do {
      (ok, cmd) \<leftarrow> mac_parseCommandFrame (Some psdu);
      Some (if ok then [EvMacCommand cmd rssi lqi] else [])} else Some [])"
    using sized by (auto simp: stage_ok_def c)
  have beacon: "stage_ok r (if cb_beacon cb then do {
      (ok, beacon) \<leftarrow> mac_parseBeacon (Some psdu);
      Some (if ok then [EvBeacon beacon rssi lqi] else [])} else Some [])"
    by (intro stage_ok_intros stage_ok_parse mac_parseBeacon_safe) (auto simp: stage_ok_def)
  show ?thesis
    unfolding radio_macEvents_def by (rule stage_ok_intros(3) [OF command beacon])
qed

text \<open>Opening a frame never leaves its buffers and touches only the security state.\<close>

lemma sc_openNpdu_answers: "2 \<le> length npdu \<Longrightarrow> sc_openNpdu ecb (Some npdu) h (Some 140) s \<noteq> None"
  by (auto simp: sc_openNpdu_def Let_def split: option.split replay_result.split prod.split)

lemma radio_openNwk_ok:
  "\<exists>res s'. radio_openNwk ecb npdu r = Some (res, r\<lparr>cc_security := s'\<rparr>)"
proof -
  have same: "r = r\<lparr>cc_security := cc_security r\<rparr>" by simp
  show ?thesis
  proof (cases "radio_openNwk ecb npdu r = Some (Some npdu, r)")
    case True
    with same show ?thesis by metis
  next
    case False
    then obtain s where s: "cc_security r = Some s" "8 \<le> length npdu"
      and o: "radio_openNwk ecb npdu r = (case sc_openNpdu ecb (Some npdu) (radio_nwkHeaderLength npdu) (Some 140) s of
               None \<Rightarrow> None
             | Some (res, s') \<Rightarrow>
                 Some ((case res of None \<Rightarrow> None | Some (plain, src) \<Rightarrow> if plain = [] then None else Some plain),
                       r\<lparr>cc_security := Some s'\<rparr>))"
      by (auto simp: radio_openNwk_def split: option.splits if_splits)
    from s(2) sc_openNpdu_answers [of npdu ecb "radio_nwkHeaderLength npdu" s] show ?thesis
      unfolding o by (auto split: option.split)
  qed
qed

lemma mac_data_payload:
  "mac_parseShortDataFrame (Some bs) = Some (True, fr) \<Longrightarrow> \<exists>pl. md_payload fr = Some pl"
  by (auto simp: mac_parseShortDataFrame_def Let_def rd_in split: if_splits option.splits)

text \<open>The receive path keeps everything but the parser, the response and the security state.\<close>

definition radio_kept :: "radio \<Rightarrow> radio \<Rightarrow> bool" where
  "radio_kept r r' \<longleftrightarrow> cc_localShortAddress r' = cc_localShortAddress r \<and> cc_cb r' = cc_cb r \<and> radio_ok r'"

lemma local_kept: "radio_kept r r' \<Longrightarrow> local_events r' = local_events r"
  by (simp add: radio_kept_def local_events_def radio_localDestination_def fun_eq_iff)

definition receive_ok :: "radio \<Rightarrow> (radio \<times> radio_event list) option \<Rightarrow> bool" where
  "receive_ok r res \<longleftrightarrow> (\<exists>r' evs. res = Some (r', evs) \<and> radio_kept r r' \<and> local_events r evs)"

lemma radio_deliver_ok:
  assumes "radio_ok r"
  shows "receive_ok r (radio_deliver ecb psdu rssi lqi r)"
proof -
  let ?cb = "cc_cb r" and ?raw = "if cb_rx (cc_cb r) then [EvRx psdu rssi lqi] else []"
  have raw: "local_events r' ?raw" for r' by simp
  obtain ok frame where m: "mac_parseShortDataFrame (Some psdu) = Some (ok, frame)"
    using mac_parseShortDataFrame_safe [of "Some psdu"] by auto
  have quiet: ?thesis if "\<not> (cb_data ?cb \<or> cb_macCommand ?cb \<or> cb_beacon ?cb \<or> cb_nwk ?cb \<or> cb_nwkCommand ?cb \<or>
      cb_aps ?cb \<or> cb_zdo ?cb \<or> cb_zcl ?cb)"
    using that assms raw by (simp add: radio_deliver_def receive_ok_def radio_kept_def)
  have mac: ?thesis if "\<not> ok"
  proof -
    obtain evs where e: "radio_macEvents ?cb psdu rssi lqi = Some evs" "local_events r evs"
      using radio_macEvents_ok [of r ?cb psdu rssi lqi] by (auto simp: stage_ok_def)
    show ?thesis using that m e assms quiet by (auto simp: radio_deliver_def Let_def receive_ok_def radio_kept_def)
  qed
  have nwk: ?thesis if up: "ok"
  proof -
    obtain pl where pl: "md_payload frame = Some pl" using mac_data_payload [of psdu frame] m up by auto
    let ?npdu = "take (md_payloadLen frame) pl"
    obtain res s' where o: "radio_openNwk ecb ?npdu r = Some (res, r\<lparr>cc_security := s'\<rparr>)"
      using radio_openNwk_ok by blast
    let ?r = "r\<lparr>cc_security := s'\<rparr>"
    have kept: "radio_kept r ?r" using assms by (simp add: radio_kept_def radio_ok_def)
    have "stage_ok r (case res of None \<Rightarrow> Some [] | Some plain \<Rightarrow> radio_nwkEvents ?r frame plain rssi lqi)"
      using radio_nwkEvents_ok [of ?r] local_kept [OF kept] by (auto simp: stage_ok_def split: option.split)
    then obtain evs where e: "(case res of None \<Rightarrow> Some [] | Some plain \<Rightarrow> radio_nwkEvents ?r frame plain rssi lqi) = Some evs"
      "local_events r evs" by (auto simp: stage_ok_def)
    show ?thesis
    proof (cases "cb_data ?cb \<or> cb_macCommand ?cb \<or> cb_beacon ?cb \<or> cb_nwk ?cb \<or> cb_nwkCommand ?cb \<or>
      cb_aps ?cb \<or> cb_zdo ?cb \<or> cb_zcl ?cb")
      case True
      have "radio_deliver ecb psdu rssi lqi r = Some (?r, ?raw @ (if cb_data ?cb then [EvData frame rssi lqi] else []) @ evs)"
        unfolding radio_deliver_def Let_def using True up
        by (simp add: m pl ptr_take_def o e(1) del: if_split)
      then show ?thesis using kept e(2) by (simp add: receive_ok_def)
    qed (use quiet in blast)
  qed
  show ?thesis using mac nwk by blast
qed

lemma radio_stash_ok: "radio_ok r \<Longrightarrow> radio_kept r (radio_stash cmd r)"
  by (simp add: radio_kept_def radio_stash_def radio_ok_def Let_def)

lemma radio_frame_ok:
  assumes "radio_ok r"
  shows "receive_ok r (radio_frame ecb r)"
proof -
  have kept: "radio_kept r r" using assms by (simp add: radio_kept_def)
  have s: "radio_kept r (radio_stash cmd (r\<lparr>cc_version := v\<rparr>))" "radio_kept r (radio_stash cmd r)" for cmd v
    using assms by (simp_all add: radio_kept_def radio_stash_def radio_ok_def Let_def)
  show ?thesis
    using radio_deliver_ok [OF assms] kept s by (simp add: radio_frame_def Let_def receive_ok_def)
qed

lemma radio_feed_ok:
  assumes "radio_ok r"
  shows "receive_ok r (radio_feed ecb b r)"
proof -
  have frame: "receive_ok r (radio_frame ecb (r\<lparr>cc_state := 0\<rparr>))"
  proof -
    have "radio_ok (r\<lparr>cc_state := 0\<rparr>)" using assms by (simp add: radio_ok_def)
    from radio_frame_ok [OF this, of ecb] show ?thesis
      by (simp add: receive_ok_def radio_kept_def local_events_def radio_localDestination_def)
  qed
  have ok: "length (cc_buf r) = 140" "length (cc_respData r) = 16"
    "cc_state r \<noteq> 0 \<Longrightarrow> cc_state r \<noteq> 1 \<Longrightarrow> 1 \<le> cc_len r \<and> cc_len r \<le> 140"
    "cc_state r = 2 \<Longrightarrow> cc_idx r < cc_len r"
    using assms by (auto simp: radio_ok_def)
  consider "cc_state r = 0" | "cc_state r = 1" | "cc_state r = 2" | "2 < cc_state r" by linarith
  then show ?thesis
  proof cases
    case 3
    then show ?thesis using ok by (auto simp: radio_feed_def receive_ok_def radio_kept_def radio_ok_def)
  next
    case 4
    then have "radio_feed ecb b r = (if b \<noteq> cc_fcs r then Some (r\<lparr>cc_state := 0\<rparr>, []) else radio_frame ecb (r\<lparr>cc_state := 0\<rparr>))"
      by (simp add: radio_feed_def Let_def)
    moreover have "receive_ok r (Some (r\<lparr>cc_state := 0\<rparr>, []))"
      using ok by (simp add: receive_ok_def radio_kept_def radio_ok_def)
    ultimately show ?thesis using frame by simp
  qed (use ok in \<open>auto simp: radio_feed_def receive_ok_def radio_kept_def radio_ok_def\<close>)
qed

lemma radio_poll_ok: "radio_ok r \<Longrightarrow> receive_ok r (radio_poll ecb bytes r)"
proof (induction bytes arbitrary: r)
  case Nil
  then show ?case by (simp add: receive_ok_def radio_kept_def)
next
  case (Cons b bs)
  obtain r1 evs1 where f: "radio_feed ecb b r = Some (r1, evs1)" "radio_kept r r1" "local_events r evs1"
    using radio_feed_ok [OF Cons.prems, of ecb b] unfolding receive_ok_def by blast
  then have "radio_ok r1" by (simp add: radio_kept_def)
  from Cons.IH [OF this] obtain r2 evs2 where
    "radio_poll ecb bs r1 = Some (r2, evs2)" "radio_kept r1 r2" "local_events r1 evs2"
    unfolding receive_ok_def by blast
  then show ?case using f local_kept [OF f(2)] by (auto simp: receive_ok_def radio_kept_def)
qed

text \<open>C4: The receive path is safe, for whatever bytes the radio module sends. Fed to the driver in any
  state that its own operations leave, no sequence of bytes makes it or any parser, or the
  opening of secured frames, read or write outside a buffer; and it calls the APS, ZDO and ZCL
  layers only for network frames addressed to this node or to a broadcast address, and the MAC layer only
  with commands whose payload lies within the frame.\<close>

theorem receive_path_safe:
  assumes "radio_ok r"
  shows "\<exists>r' evs. radio_poll ecb bytes r = Some (r', evs) \<and> radio_ok r' \<and> local_events r evs"
  using radio_poll_ok [OF assms, of ecb bytes] by (auto simp: receive_ok_def radio_kept_def)

theorem receive_path_safe_witness:
  "\<exists>r' evs. radio_poll ecb_example [0xFE, 5, 0x84, 1, 2, 3] radio_init = Some (r', evs) \<and> radio_ok r'"
proof -
  have "radio_ok radio_init" by (simp add: radio_ok_def radio_init_def)
  from receive_path_safe [OF this] show ?thesis by blast
qed

end
