(* ===== verification/ZbHop.thy ===== *)
theory ZbHop
  imports ZbRadioFacts
begin

text \<open>One hop of a secured network data frame, from one driver through the air to another.\<close>

lemma plain_header: "radio_nwkHeaderLength (8 # 0 # xs) = 8" "radio_nwkHeaderLength (8 # 2 # xs) = 8"
  by (simp_all add: radio_nwkHeaderLength_def)

lemma nwk_build_shape:
  assumes "length pl \<le> 108"
  shows "\<exists>hdr. nwk_buildDataFrame (Some 116) dst src radius seq (Some pl) (length pl) 0 = Some (8 # 0 # hdr @ pl) \<and>
    length hdr = 6"
proof -
  have "le16 (nwk_fcf 0 0) = [8, 0]" by code_simp
  then show ?thesis
    using assms by (intro exI [of _ "le16 dst @ le16 src @ [radius, seq]"]) (simp add: nwk_buildDataFrame_def)
qed

text \<open>The network frame, secured by the sender's driver and opened by the receiver's.\<close>

lemma npdu_delivered:
  assumes w: "ecb_works ecb" and npdu: "npdu = 8 # 0 # hdr @ pl" "length hdr = 6" "length pl \<le> 108"
    and a: "cc_security a = Some tx" "sc_hasKey tx" "length (sc_key tx) = 16"
    and b: "\<not> cc_promiscuous b" "cc_security b = Some rx" "sc_hasKey rx"
      "sc_selectKey (sc_keySequence tx) rx = Some (sc_key tx)"
      "fst (sc_replayCheckAndUpdate (cc_securityIeee a) (sc_keySequence tx) (cc_securityCounter a + 1)
         (sc_replay rx)) = ReplayFresh"
  obtains secured tx' rx' where
    "radio_applyTxSecurity ecb npdu a = Some (Some secured, a\<lparr>cc_security := Some tx',
       cc_securityCounter := cc_securityCounter a + 1\<rparr>)"
    "length secured = length npdu + 18"
    "\<And>b'. cc_promiscuous b' = cc_promiscuous b \<Longrightarrow> cc_security b' = cc_security b \<Longrightarrow>
       radio_openNwk ecb secured b' = Some (Some npdu, b'\<lparr>cc_security := Some rx'\<rparr>)"
proof -
  let ?c = "cc_securityCounter a + 1" and ?i = "cc_securityIeee a" and ?h = "8 # 2 # hdr"
  have hdr: "sc_setSecurityBit True (take 8 npdu) = ?h" "take 8 npdu = 8 # 0 # hdr"
    "sc_setSecurityBit False ?h = 8 # 0 # hdr" "drop 8 npdu = pl"
    using npdu by (simp_all add: sc_setSecurityBit_def)
  have len: "(2 :: nat) \<le> 8" "(8 :: nat) \<le> 26" "8 \<le> length npdu" "length npdu + 18 \<le> 134" "(134 :: nat) \<le> 255"
    using npdu by simp_all
  have h: "length ?h = 8" "?h ! 1 AND 2 \<noteq> 0" "length npdu \<le> 140" using npdu by simp_all
  obtain c mic tx' where s:
    "sc_secureNpdu ecb (Some npdu) 8 ?i ?c (Some 134) tx = Some (Some (?h @ sc_aux ?c ?i (sc_keySequence tx) @ c @ mic), tx')"
    and l: "length c = length npdu - 8" "length mic = 4"
    and o: "\<exists>rx'. sc_openNpdu ecb (Some (?h @ sc_aux ?c ?i (sc_keySequence tx) @ c @ mic)) 8 (Some 140) rx =
      Some (Some (sc_setSecurityBit False ?h @ drop 8 npdu, ?i), rx')"
    by (rule sc_sealed [OF w a(2,3) len, of ?i ?c, unfolded hdr(1)])
      (rule that, assumption, assumption, assumption, use b(3-5) h in blast)
  let ?f = "?h @ sc_aux ?c ?i (sc_keySequence tx) @ c @ mic"
  obtain rx' where o': "sc_openNpdu ecb (Some ?f) 8 (Some 140) rx = Some (Some (npdu, ?i), rx')"
    using o hdr npdu(1) by auto
  have lf: "length ?f = length npdu + 18" using npdu l by simp
  show thesis
  proof (rule that [of ?f tx' rx'])
    show "radio_applyTxSecurity ecb npdu a = Some (Some ?f, a\<lparr>cc_security := Some tx', cc_securityCounter := ?c\<rparr>)"
      using a s lf npdu by (simp add: radio_applyTxSecurity_def plain_header Let_def)
    show "length ?f = length npdu + 18" by (rule lf)
    show "radio_openNwk ecb ?f b' = Some (Some npdu, b'\<lparr>cc_security := Some rx'\<rparr>)"
      if "cc_promiscuous b' = cc_promiscuous b" "cc_security b' = cc_security b" for b'
      using that b o' lf npdu by (simp add: radio_openNwk_def plain_header)
  qed
qed

lemma ptr_take_all: "ptr_take (Some xs) (length xs) = Some xs"
  by (simp add: ptr_take_def)

lemma aps_data_type:
  assumes "aps_buildDataFrame (Some 108) dst cluster profile src ctr (Some pl) (length pl) ack = Some apdu"
  shows "aps_frameType (Some apdu) = Some 0"
  using assms by (auto simp: aps_buildDataFrame_def aps_frameType_def aps_fcf_def rd8_Cons split: if_splits)

definition sc_sameKeys :: "security \<Rightarrow> security \<Rightarrow> bool" where
  "sc_sameKeys s s' \<longleftrightarrow> sc_hasKey s' = sc_hasKey s \<and> sc_key s' = sc_key s \<and> sc_keySequence s' = sc_keySequence s \<and>
     sc_hasAlt s' = sc_hasAlt s \<and> sc_altKey s' = sc_altKey s \<and> sc_altKeySeq s' = sc_altKeySeq s"

text \<open>A branching computation leaves a state in which \<open>P\<close> holds, on every branch that answers.\<close>

definition leaves :: "('s \<Rightarrow> bool) \<Rightarrow> ('a \<times> 's) option \<Rightarrow> bool" where
  "leaves P r \<longleftrightarrow> (\<forall>x s. r = Some (x, s) \<longrightarrow> P s)"

lemma leaves_None: "leaves P None" and leaves_Some: "P s \<Longrightarrow> leaves P (Some (x, s))"
  by (simp_all add: leaves_def)

lemma leaves_if: "leaves P a \<Longrightarrow> leaves P b \<Longrightarrow> leaves P (if c then a else b)"
  by simp

lemma leaves_option: "leaves P a \<Longrightarrow> (\<And>y. leaves P (g y)) \<Longrightarrow> leaves P (case x of None \<Rightarrow> a | Some y \<Rightarrow> g y)"
  by (cases x) simp_all

lemma leaves_let: "(\<And>y. leaves P (g y)) \<Longrightarrow> leaves P (let y = x in g y)"
  by (simp add: Let_def)

lemma leaves_prod: "(\<And>y z. leaves P (g y z)) \<Longrightarrow> leaves P (case x of (y, z) \<Rightarrow> g y z)"
  by (cases x) simp

lemma leaves_result:
  "leaves P a \<Longrightarrow> leaves P b \<Longrightarrow> leaves P c \<Longrightarrow>
   leaves P (case v of ReplayFresh \<Rightarrow> a | ReplayDuplicate \<Rightarrow> b | ReplayStale \<Rightarrow> c)"
  by (cases v) simp_all

lemmas leaves_branches = leaves_prod leaves_option leaves_if leaves_let leaves_result leaves_None

lemma sc_sameKeys_refl [simp]: "sc_sameKeys s s"
  by (simp add: sc_sameKeys_def)

lemma sc_micFailure_same [simp]: "sc_sameKeys s (sc_micFailure s)"
  by (simp add: sc_sameKeys_def sc_micFailure_def)

lemma sc_secureNpdu_keeps: "leaves (sc_sameKeys s) (sc_secureNpdu ecb npdu h ieee c out s)"
  unfolding sc_secureNpdu_def
  by (rule leaves_branches | (rule leaves_Some, simp add: sc_sameKeys_def; fail))+

lemma sc_openNpdu_keeps: "leaves (sc_sameKeys s) (sc_openNpdu ecb npdu h out s)"
  unfolding sc_openNpdu_def
  by (rule leaves_branches | (rule leaves_Some, simp; fail) | (rule leaves_Some, simp add: sc_sameKeys_def; fail))+

definition radio_sameKeys :: "radio \<Rightarrow> radio \<Rightarrow> bool" where
  "radio_sameKeys r r' \<longleftrightarrow> rel_option sc_sameKeys (cc_security r) (cc_security r') \<and>
     cc_securityIeee r' = cc_securityIeee r \<and> cc_localShortAddress r' = cc_localShortAddress r \<and> cc_cb r' = cc_cb r \<and>
     cc_promiscuous r' = cc_promiscuous r"

lemma applyTxSecurity_keeps:
  assumes "radio_applyTxSecurity ecb npdu r = Some (res, r')"
  shows "radio_sameKeys r r'"
  using assms sc_secureNpdu_keeps [unfolded leaves_def]
  by (auto simp: radio_applyTxSecurity_def radio_sameKeys_def Let_def option.rel_refl split: option.splits if_splits)

lemma openNwk_keeps:
  assumes "radio_openNwk ecb npdu r = Some (res, r')"
  shows "radio_sameKeys r r'" "cc_securityCounter r' = cc_securityCounter r"
  using assms sc_openNpdu_keeps [unfolded leaves_def]
  by (auto simp: radio_openNwk_def radio_sameKeys_def Let_def option.rel_refl split: option.splits if_splits)

text \<open>What the driver delivers for an opened network data frame.\<close>

lemma nwk_dispatched:
  assumes mac: "mac_parseShortDataFrame (Some psdu) = Some (True, frame)"
      "md_payload frame = Some secured" "md_payloadLen frame = length secured"
    and opened: "radio_openNwk ecb secured b = Some (Some npdu, b')" "cc_cb b' = cc_cb b"
    and nwk: "nwk_parseDataFrame (Some npdu) = Some (True, nwk)"
      "map_option fst (nwk_parseCommandFrame (Some npdu)) = Some False"
    and up: "(if radio_localDestination b' nwk then radio_apsEvents (cc_cb b) frame nwk rssi lqi else Some []) = Some up"
    and cb: "cb_nwk (cc_cb b) \<or> cb_zcl (cc_cb b)"
  shows "radio_deliver ecb psdu rssi lqi b = Some (b', (if cb_rx (cc_cb b) then [EvRx psdu rssi lqi] else []) @
     (if cb_data (cc_cb b) then [EvData frame rssi lqi] else []) @
     (if cb_nwk (cc_cb b) then [EvNwk frame nwk rssi lqi] else []) @ up)"
proof -
  obtain cmd where c: "nwk_parseCommandFrame (Some npdu) = Some (False, cmd)" using nwk(2) by auto
  have n: "radio_nwkEvents b' frame npdu rssi lqi =
    Some ((if cb_nwk (cc_cb b) then [EvNwk frame nwk rssi lqi] else []) @ up)"
    unfolding radio_nwkEvents_def Let_def opened(2) using nwk(1) c cb up by (auto simp del: if_split)
  show ?thesis
    unfolding radio_deliver_def Let_def using mac opened(1) n cb
    by (auto simp: ptr_take_all simp del: if_split)
qed

lemma data_frame_built:
  assumes "length apdu \<le> 90" "8 \<le> length apdu"
  obtains npdu hdr nwk where
    "nwk_buildDataFrame (Some 116) dst src radius nseq (Some apdu) (length apdu) 0 = Some npdu"
    "nwk_parseDataFrame (Some npdu) = Some (True, nwk)"
    "map_option fst (nwk_parseCommandFrame (Some npdu)) = Some False"
    "nwk = nwk_data_frame0\<lparr>nf_valid := True, nf_protocolVersion := 2, nf_dstShort := dst, nf_srcShort := src,
       nf_radius := radius, nf_sequence := nseq, nd_payload := Some apdu, nd_payloadLen := length apdu\<rparr>"
    "npdu = 8 # 0 # hdr @ apdu" "length hdr = 6"
proof -
  obtain hdr where nb: "nwk_buildDataFrame (Some 116) dst src radius nseq (Some apdu) (length apdu) 0 = Some (8 # 0 # hdr @ apdu)"
    "length hdr = 6" using nwk_build_shape [of apdu dst src radius nseq] assms by auto
  have nc: "map_option fst (nwk_parseCommandFrame (Some (8 # 0 # hdr @ apdu))) = Some False"
    using nb(2) assms(2) by (auto simp: nwk_parseCommandFrame_def rd16_def rd_bytes_def)
  show thesis
    by (rule that [OF nb(1) nwk_data_roundtrip [OF nb(1)] nc _ refl nb(2)]) (simp add: nwk_data_frame0_def)
qed

text \<open>The serial frame of a received PSDU, delivered by a driver at rest.\<close>

lemma psdu_polled:
  assumes "radio_ok b" "cc_state b = 0" "length psdu \<le> 134"
  shows "radio_poll ecb (radio_sendFrame RSP_RX_FRAME (rssi # lqi # psdu)) b =
    radio_deliver ecb psdu (rssi - 73) lqi (radio_with (RSP_RX_FRAME # rssi # lqi # psdu) b)"
proof -
  let ?body = "RSP_RX_FRAME # rssi # lqi # psdu"
  have l: "length ?body \<le> 140" "cast8 (length ?body - 3) = length psdu" using assms(3) by simp_all
  have "radio_poll ecb (radio_sendFrame RSP_RX_FRAME (rssi # lqi # psdu)) b = radio_frame ecb (radio_with ?body b)"
    unfolding sendFrame_bytes using radio_poll_frame [of b ?body ecb] assms(1,2) l(1)
    by (simp add: radio_ok_def del: radio_poll.simps foldl.simps foldl_Cons)
  also have "\<dots> = radio_deliver ecb psdu (rssi - 73) lqi (radio_with ?body b)"
    unfolding radio_frame_def Let_def using l(2) by (simp add: radio_with_def)
  finally show ?thesis .
qed

lemma localDestination_eq: "cc_localShortAddress b' = cc_localShortAddress b \<Longrightarrow>
  radio_localDestination b' nwk = radio_localDestination b nwk"
  by (simp add: radio_localDestination_def)

text \<open>The hop: what the receiver's driver calls, and what the hop leaves of both drivers.\<close>

lemma data_hop:
  assumes w: "ecb_works ecb"
    and a: "cc_security a = Some tx" "sc_hasKey tx" "length (sc_key tx) = 16"
    and b: "radio_ok b" "cc_state b = 0" "\<not> cc_promiscuous b" "cc_security b = Some rx" "sc_hasKey rx"
      "sc_selectKey (sc_keySequence tx) rx = Some (sc_key tx)" "cb_nwk (cc_cb b) \<or> cb_zcl (cc_cb b)"
    and fresh: "fst (sc_replayCheckAndUpdate (cc_securityIeee a) (sc_keySequence tx) (cc_securityCounter a + 1)
         (sc_replay rx)) = ReplayFresh"
    and len: "8 \<le> length apdu" "length apdu \<le> 90"
  obtains psdu a' b' frame nwk where
    "radio_sendNwkData ecb pan macDst macSrc dst src apdu radius ack a = Some (Some psdu, a')"
    "radio_sameKeys a a'" "cc_securityCounter a' = cc_securityCounter a + 1"
    "radio_sameKeys b b'" "cc_securityCounter b' = cc_securityCounter b" "radio_ok b'" "cc_state b' = 0"
    "md_dstShort frame = macDst" "md_srcShort frame = macSrc"
    "nwk = nwk_data_frame0\<lparr>nf_valid := True, nf_protocolVersion := 2, nf_dstShort := dst, nf_srcShort := src,
       nf_radius := radius, nf_sequence := cc_nwkSequence a, nd_payload := Some apdu, nd_payloadLen := length apdu\<rparr>"
    "\<And>up. (if radio_localDestination b nwk then radio_apsEvents (cc_cb b) frame nwk (rssi - 73) lqi else Some []) = Some up \<Longrightarrow>
       radio_poll ecb (radio_sendFrame RSP_RX_FRAME (rssi # lqi # psdu)) b =
         Some (b', (if cb_rx (cc_cb b) then [EvRx psdu (rssi - 73) lqi] else []) @
           (if cb_data (cc_cb b) then [EvData frame (rssi - 73) lqi] else []) @
           (if cb_nwk (cc_cb b) then [EvNwk frame nwk (rssi - 73) lqi] else []) @ up)"
proof -
  let ?a = "a\<lparr>cc_nwkSequence := cc_nwkSequence a + 1\<rparr>"
  obtain npdu hdr nwk where nb:
    "nwk_buildDataFrame (Some 116) dst src radius (cc_nwkSequence a) (Some apdu) (length apdu) 0 = Some npdu"
    "nwk_parseDataFrame (Some npdu) = Some (True, nwk)" "map_option fst (nwk_parseCommandFrame (Some npdu)) = Some False"
    and nwk: "nwk = nwk_data_frame0\<lparr>nf_valid := True, nf_protocolVersion := 2, nf_dstShort := dst, nf_srcShort := src,
       nf_radius := radius, nf_sequence := cc_nwkSequence a, nd_payload := Some apdu, nd_payloadLen := length apdu\<rparr>"
    and shape: "npdu = 8 # 0 # hdr @ apdu" "length hdr = 6"
    by (rule data_frame_built [OF len(2,1), of dst src radius "cc_nwkSequence a"]) (rule that)
  have len': "length apdu \<le> 108" using len by simp
  have a': "cc_security ?a = Some tx" using a(1) by simp
  have fresh': "fst (sc_replayCheckAndUpdate (cc_securityIeee ?a) (sc_keySequence tx) (cc_securityCounter ?a + 1)
         (sc_replay rx)) = ReplayFresh" using fresh by simp
  obtain secured tx' rx' where sec:
    "radio_applyTxSecurity ecb npdu ?a = Some (Some secured, ?a\<lparr>cc_security := Some tx',
       cc_securityCounter := cc_securityCounter ?a + 1\<rparr>)" "length secured = length npdu + 18"
    and opened: "\<And>b'. cc_promiscuous b' = cc_promiscuous b \<Longrightarrow> cc_security b' = cc_security b \<Longrightarrow>
      radio_openNwk ecb secured b' = Some (Some npdu, b'\<lparr>cc_security := Some rx'\<rparr>)"
    by (rule npdu_delivered [OF w shape len' a' a(2,3) b(3-6) fresh']) (rule that)
  have ls: "length secured \<le> 116" using sec(2) shape len by simp
  obtain psdu where mb: "mac_buildShortDataFrame (Some 125) pan macDst macSrc (cc_macSequence a) (Some secured)
      (length secured) ack = Some psdu" "length psdu = 9 + length secured"
    using ls by (simp add: mac_buildShortDataFrame_def Let_def)
  obtain frame where frame: "mac_parseShortDataFrame (Some psdu) = Some (True, frame)"
      "md_payload frame = Some secured" "md_payloadLen frame = length secured" "md_dstShort frame = macDst"
      "md_srcShort frame = macSrc"
    using mac_data_roundtrip [OF mb(1)] by auto
  let ?a' = "?a\<lparr>cc_security := Some tx', cc_securityCounter := cc_securityCounter ?a + 1, cc_macSequence := cc_macSequence a + 1\<rparr>"
  have sent: "radio_sendNwkData ecb pan macDst macSrc dst src apdu radius ack a = Some (Some psdu, ?a')"
    using sec(1) nb(1) mb(1) by (simp add: radio_sendNwkData_def radio_sendNpdu_def radio_sendData_def Let_def)
  let ?b = "radio_with (RSP_RX_FRAME # rssi # lqi # psdu) b"
  have keep: "cc_promiscuous ?b = cc_promiscuous b" "cc_security ?b = cc_security b" "cc_cb ?b = cc_cb b"
    "cc_localShortAddress ?b = cc_localShortAddress b" "cc_state ?b = 0" "cc_securityIeee ?b = cc_securityIeee b"
    "cc_securityCounter ?b = cc_securityCounter b"
    by (simp_all add: radio_with_def)
  note o = opened [OF keep(1,2)]
  let ?b' = "?b\<lparr>cc_security := Some rx'\<rparr>"
  have lp: "length psdu \<le> 134" using mb(2) ls by simp
  have polled: "radio_poll ecb (radio_sendFrame RSP_RX_FRAME (rssi # lqi # psdu)) b =
         Some (?b', (if cb_rx (cc_cb b) then [EvRx psdu (rssi - 73) lqi] else []) @
           (if cb_data (cc_cb b) then [EvData frame (rssi - 73) lqi] else []) @
           (if cb_nwk (cc_cb b) then [EvNwk frame nwk (rssi - 73) lqi] else []) @ up)"
    if "(if radio_localDestination b nwk then radio_apsEvents (cc_cb b) frame nwk (rssi - 73) lqi else Some []) = Some up" for up
  proof -
    have cb: "cc_cb ?b' = cc_cb ?b" "cc_localShortAddress ?b' = cc_localShortAddress b" using keep(4) by simp_all
    have "(if radio_localDestination ?b' nwk then radio_apsEvents (cc_cb ?b) frame nwk (rssi - 73) lqi else Some []) = Some up"
      using that unfolding localDestination_eq [OF cb(2)] keep(3) .
    from nwk_dispatched [OF frame(1-3) o cb(1) nb(2,3) this] b(7) show ?thesis
      unfolding psdu_polled [OF b(1,2) lp] keep(3) by blast
  qed
  have same: "radio_sameKeys a ?a'" "radio_sameKeys b ?b'"
    using applyTxSecurity_keeps [OF sec(1)] openNwk_keeps(1) [OF o] keep a(1) b(4) by (simp_all add: radio_sameKeys_def)
  have ok: "radio_ok ?b'" using b(1) lp by (simp add: radio_ok_def radio_with_def)
  show thesis
    by (rule that [OF sent same(1) _ same(2) _ ok _ frame(4,5) nwk polled]) (simp_all add: keep)
qed

end
