(* ===== verification/ZbStack.thy ===== *)
theory ZbStack
  imports ZbHop
begin

text \<open>
  The layers composed: a ZCL command that one node sends through its radio driver arrives at the
  ZCL callback of another node, unchanged, through every layer of both.
\<close>

text \<open>What the receiving driver calls for a ZCL frame that reaches it.\<close>

definition stack_events ::
  "callbacks \<Rightarrow> u8 list \<Rightarrow> mac_data_frame \<Rightarrow> nwk_data_frame \<Rightarrow> aps_data_frame \<Rightarrow> zcl_frame \<Rightarrow> u8 \<Rightarrow> u8 \<Rightarrow> radio_event list"
where
  "stack_events cb psdu frame nwk aps zcl rssi lqi =
     (if cb_rx cb then [EvRx psdu rssi lqi] else []) @
     (if cb_data cb then [EvData frame rssi lqi] else []) @
     (if cb_nwk cb then [EvNwk frame nwk rssi lqi] else []) @
     (if cb_aps cb then [EvAps frame nwk aps rssi lqi] else []) @
     (if cb_zdo cb \<and> ap_profileId aps = 0x0000 \<and> ap_dstEndpoint aps = 0 then [EvZdo frame nwk aps rssi lqi] else []) @
     [EvZcl frame nwk aps zcl rssi lqi]"

text \<open>The frames that the sending driver builds above the network layer.\<close>

lemma zcl_frames_built:
  assumes "length payload \<le> 79" "ft \<le> 1" "dir \<le> 1"
  obtains bs apdu zcl aps where
    "zcl_buildCommandFrame (Some 100) ft zseq cmd (Some payload) (length payload) dir True = Some bs"
    "zcl_parseFrame (Some bs) = Some (True, zcl)"
    "zcl = \<lparr>zf_valid = True, zf_frameType = ft, zf_manufacturerSpecific = False, zf_manufacturerCode = 0,
       zf_direction = dir, zf_disableDefaultResponse = True, zf_sequence = zseq, zf_commandId = cmd,
       zf_payload = Some payload, zf_payloadLen = length payload\<rparr>"
    "aps_buildDataFrame (Some 108) dstEp cluster profile srcEp actr (Some bs) (length bs) False = Some apdu"
    "aps_parseDataFrame (Some apdu) = Some (True, aps)" "aps_frameType (Some apdu) = Some 0"
    "aps = aps_data_frame0\<lparr>ap_valid := True, ap_dstEndpoint := dstEp, ap_clusterId := cluster,
       ap_profileId := profile, ap_srcEndpoint := srcEp, ap_counter := actr, ap_payload := Some bs,
       ap_payloadLen := length bs\<rparr>"
    "8 \<le> length apdu" "length apdu \<le> 90"
proof -
  obtain bs where z: "zcl_buildCommandFrame (Some 100) ft zseq cmd (Some payload) (length payload) dir True = Some bs"
    "length bs = 3 + length payload"
    "zcl_parseFrame (Some bs) = Some (True, \<lparr>zf_valid = True, zf_frameType = ft, zf_manufacturerSpecific = False,
       zf_manufacturerCode = 0, zf_direction = dir, zf_disableDefaultResponse = True, zf_sequence = zseq,
       zf_commandId = cmd, zf_payload = Some payload, zf_payloadLen = length payload\<rparr>)"
    using zcl_frame_roundtrip [of ft dir payload 100 zseq cmd True] assms by auto
  have lb: "length bs \<le> 82" using z(2) assms by simp
  then obtain apdu where ab: "aps_buildDataFrame (Some 108) dstEp cluster profile srcEp actr (Some bs) (length bs) False = Some apdu"
    by (simp add: aps_buildDataFrame_def)
  note ar = aps_data_roundtrip [OF ab]
  show thesis
    by (rule that [OF z(1,3) refl ab ar(3) aps_data_type [OF ab]]) (use ar(1) lb in \<open>simp_all add: aps_data_frame0_def\<close>)
qed

text \<open>The calls of the layers above the network layer for such a frame.\<close>

lemma zcl_dispatched:
  assumes "nd_payload nwk = Some apdu" "nd_payloadLen nwk = length apdu"
    and "aps_parseDataFrame (Some apdu) = Some (True, aps)" "ap_payload aps = Some bs"
      "ap_payloadLen aps = length bs" "aps_frameType (Some apdu) = Some 0"
    and "zcl_parseFrame (Some bs) = Some (True, zcl)" "cb_zcl cb"
  shows "radio_apsEvents cb frame nwk rssi lqi = Some ((if cb_aps cb then [EvAps frame nwk aps rssi lqi] else []) @
     (if cb_zdo cb \<and> ap_profileId aps = 0x0000 \<and> ap_dstEndpoint aps = 0 then [EvZdo frame nwk aps rssi lqi] else []) @
     [EvZcl frame nwk aps zcl rssi lqi])"
  unfolding radio_apsEvents_def Let_def assms(1,2) ptr_take_all using assms(3-8) by (simp add: ptr_take_all)

text \<open>C2: The stack end to end. A ZCL command handed to one node's radio driver, whose frame another node's
  radio module forwards on its serial line, reaches that node's ZCL callback unchanged: same command,
  payload, sequence number, cluster, profile, endpoints and network addresses, decrypted with the
  shared network key and authenticated. The receiver calls exactly the registered callbacks of the layers the frame
  passes, from the bottom up, each once; the sender's security counter moves on by one.\<close>

theorem stack_end_to_end:
  assumes w: "ecb_works ecb"
    and a: "cc_security a = Some tx" "sc_hasKey tx" "length (sc_key tx) = 16"
    and b: "radio_ok b" "cc_state b = 0" "\<not> cc_promiscuous b" "cc_security b = Some rx" "sc_hasKey rx"
      "sc_selectKey (sc_keySequence tx) rx = Some (sc_key tx)" "cb_zcl (cc_cb b)"
    and fresh: "fst (sc_replayCheckAndUpdate (cc_securityIeee a) (sc_keySequence tx) (cc_securityCounter a + 1)
         (sc_replay rx)) = ReplayFresh"
    and dst: "dst = cc_localShortAddress b \<or> 0xFFF8 \<le> dst"
    and len: "length payload \<le> 79" "ft \<le> 1" "dir \<le> 1"
  shows "\<exists>psdu a' b' frame nwk aps zcl.
    radio_sendZclCommand ecb pan macDst macSrc dst src dstEp cluster profile srcEp cmd payload ft dir radius ack a =
      Some (Some psdu, a') \<and>
    radio_poll ecb (radio_sendFrame RSP_RX_FRAME (rssi # lqi # psdu)) b =
      Some (b', stack_events (cc_cb b) psdu frame nwk aps zcl (rssi - 73) lqi) \<and>
    zf_frameType zcl = ft \<and> zf_direction zcl = dir \<and> zf_commandId zcl = cmd \<and> zf_sequence zcl = cc_zclSequence a \<and>
    zf_payload zcl = Some payload \<and> zf_payloadLen zcl = length payload \<and>
    ap_dstEndpoint aps = dstEp \<and> ap_clusterId aps = cluster \<and> ap_profileId aps = profile \<and> ap_srcEndpoint aps = srcEp \<and>
    nf_dstShort nwk = dst \<and> nf_srcShort nwk = src \<and> md_dstShort frame = macDst \<and> md_srcShort frame = macSrc \<and>
    cc_securityCounter a' = cc_securityCounter a + 1 \<and> cc_state b' = 0"
proof -
  obtain bs apdu zcl aps where f:
    "zcl_buildCommandFrame (Some 100) ft (cc_zclSequence a) cmd (Some payload) (length payload) dir True = Some bs"
    "zcl_parseFrame (Some bs) = Some (True, zcl)"
    and zcl: "zcl = \<lparr>zf_valid = True, zf_frameType = ft, zf_manufacturerSpecific = False, zf_manufacturerCode = 0,
       zf_direction = dir, zf_disableDefaultResponse = True, zf_sequence = cc_zclSequence a, zf_commandId = cmd,
       zf_payload = Some payload, zf_payloadLen = length payload\<rparr>"
    and ap: "aps_buildDataFrame (Some 108) dstEp cluster profile srcEp (cc_apsCounter a) (Some bs) (length bs) False = Some apdu"
    "aps_parseDataFrame (Some apdu) = Some (True, aps)" "aps_frameType (Some apdu) = Some 0"
    and aps: "aps = aps_data_frame0\<lparr>ap_valid := True, ap_dstEndpoint := dstEp, ap_clusterId := cluster,
       ap_profileId := profile, ap_srcEndpoint := srcEp, ap_counter := cc_apsCounter a, ap_payload := Some bs,
       ap_payloadLen := length bs\<rparr>"
    and apdu: "8 \<le> length apdu" "length apdu \<le> 90"
    by (rule zcl_frames_built [OF len, of "cc_zclSequence a" cmd dstEp cluster profile srcEp "cc_apsCounter a"]) (rule that)
  let ?a = "a\<lparr>cc_zclSequence := cc_zclSequence a + 1, cc_apsCounter := cc_apsCounter a + 1\<rparr>"
  have a': "cc_security ?a = Some tx" "fst (sc_replayCheckAndUpdate (cc_securityIeee ?a) (sc_keySequence tx)
      (cc_securityCounter ?a + 1) (sc_replay rx)) = ReplayFresh" using a(1) fresh by simp_all
  obtain psdu a' b' frame nwk where
    sent: "radio_sendNwkData ecb pan macDst macSrc dst src apdu radius ack ?a = Some (Some psdu, a')"
      "cc_securityCounter a' = cc_securityCounter ?a + 1"
    and b': "cc_state b' = 0" and frame: "md_dstShort frame = macDst" "md_srcShort frame = macSrc"
    and nwk: "nwk = nwk_data_frame0\<lparr>nf_valid := True, nf_protocolVersion := 2, nf_dstShort := dst, nf_srcShort := src,
       nf_radius := radius, nf_sequence := cc_nwkSequence ?a, nd_payload := Some apdu, nd_payloadLen := length apdu\<rparr>"
    and poll: "\<And>up. (if radio_localDestination b nwk then radio_apsEvents (cc_cb b) frame nwk (rssi - 73) lqi else Some []) = Some up \<Longrightarrow>
       radio_poll ecb (radio_sendFrame RSP_RX_FRAME (rssi # lqi # psdu)) b =
         Some (b', (if cb_rx (cc_cb b) then [EvRx psdu (rssi - 73) lqi] else []) @
           (if cb_data (cc_cb b) then [EvData frame (rssi - 73) lqi] else []) @
           (if cb_nwk (cc_cb b) then [EvNwk frame nwk (rssi - 73) lqi] else []) @ up)"
    by (rule data_hop [OF w a'(1) a(2,3) b(1-6) disjI2 [OF b(7)] a'(2) apdu, of pan macDst macSrc dst src radius ack rssi lqi])
      (rule that, assumption+)
  have "radio_localDestination b nwk" using dst by (simp add: radio_localDestination_def nwk nwk_data_frame0_def)
  moreover have "radio_apsEvents (cc_cb b) frame nwk (rssi - 73) lqi = Some (
      (if cb_aps (cc_cb b) then [EvAps frame nwk aps (rssi - 73) lqi] else []) @
     (if cb_zdo (cc_cb b) \<and> ap_profileId aps = 0x0000 \<and> ap_dstEndpoint aps = 0 then [EvZdo frame nwk aps (rssi - 73) lqi] else []) @
     [EvZcl frame nwk aps zcl (rssi - 73) lqi])"
    by (rule zcl_dispatched [OF _ _ ap(2) _ _ ap(3) f(2) b(7)]) (simp_all add: nwk aps)
  ultimately have polled: "radio_poll ecb (radio_sendFrame RSP_RX_FRAME (rssi # lqi # psdu)) b =
      Some (b', stack_events (cc_cb b) psdu frame nwk aps zcl (rssi - 73) lqi)"
    unfolding stack_events_def by (intro poll) simp
  have "radio_sendZclCommand ecb pan macDst macSrc dst src dstEp cluster profile srcEp cmd payload ft dir radius ack a =
      Some (Some psdu, a')"
    using sent(1) f(1) ap(1) by (simp add: radio_sendZclCommand_def radio_sendApsData_def Let_def)
  moreover have "cc_securityCounter a' = cc_securityCounter a + 1" using sent(2) by simp
  ultimately show ?thesis using polled frame b'
    by (intro exI conjI) (assumption | simp add: zcl aps nwk aps_data_frame0_def nwk_data_frame0_def)+
qed

theorem stack_end_to_end_witness:
  "\<exists>psdu a' b' frame nwk aps zcl.
    radio_sendZclCommand ecb_example 0x1A62 5 6 5 6 1 6 0x0104 1 2 [] 1 0 30 True
      (radio_attachSecurity (sc_setNetworkKey (replicate 16 3) 1 sc_init) 77 radio_init) = Some (Some psdu, a') \<and>
    radio_poll ecb_example (radio_sendFrame RSP_RX_FRAME (200 # 9 # psdu))
      (radio_attachSecurity (sc_setNetworkKey (replicate 16 3) 1 sc_init) 78
        (radio_init\<lparr>cc_localShortAddress := 5, cc_cb := callbacks0\<lparr>cb_zcl := True\<rparr>\<rparr>)) =
      Some (b', [EvZcl frame nwk aps zcl 127 9]) \<and> zf_commandId zcl = 2 \<and> zf_payload zcl = Some []"
proof -
  let ?s = "sc_setNetworkKey (replicate 16 3) 1 sc_init"
  let ?a = "radio_attachSecurity ?s 77 radio_init"
  let ?b = "radio_attachSecurity ?s 78 (radio_init\<lparr>cc_localShortAddress := 5, cc_cb := callbacks0\<lparr>cb_zcl := True\<rparr>\<rparr>)"
  have s: "sc_hasKey ?s" "length (sc_key ?s) = 16" "sc_selectKey (sc_keySequence ?s) ?s = Some (sc_key ?s)"
    "fst (sc_replayCheckAndUpdate 77 (sc_keySequence ?s) 1 (sc_replay ?s)) = ReplayFresh"
    by (simp_all add: sc_setNetworkKey_def sc_init_def sc_resetReplayTable_def sc_selectKey_def
        sc_replayCheckAndUpdate_def replay0_def numeral_eq_Suc)
  have ab: "cc_security ?a = Some ?s" "cc_security ?b = Some ?s" "cc_securityIeee ?a = 77" "cc_securityCounter ?a = 0"
    "radio_ok ?b" "cc_state ?b = 0" "\<not> cc_promiscuous ?b" "cb_zcl (cc_cb ?b)" "5 = cc_localShortAddress ?b"
    by (simp_all add: radio_attachSecurity_def radio_init_def radio_ok_def)
  have fresh: "fst (sc_replayCheckAndUpdate (cc_securityIeee ?a) (sc_keySequence ?s) (cc_securityCounter ?a + 1)
     (sc_replay ?s)) = ReplayFresh" using s(4) ab by simp
  have dst: "5 = cc_localShortAddress ?b \<or> 0xFFF8 \<le> (5 :: u16)" using ab(9) by blast
  have evs: "stack_events (cc_cb ?b) psdu frame nwk aps zcl (200 - 73) 9 = [EvZcl frame nwk aps zcl 127 9]" for psdu frame nwk aps zcl
    by (simp add: stack_events_def radio_attachSecurity_def callbacks0_def)
  from stack_end_to_end [OF ecb_example_works ab(1) s(1,2) ab(5,6,7) ab(2) s(1,3) ab(8) fresh dst,
      where payload = "[]" and ft = 1 and dir = 0 and pan = "0x1A62" and macDst = 5 and macSrc = 6 and src = 6
        and dstEp = 1 and cluster = 6 and profile = "0x0104" and srcEp = 1 and cmd = 2 and radius = 30 and ack = True
        and rssi = 200 and lqi = 9]
  show ?thesis unfolding evs by fastforce
qed

text \<open>
  A network frame without the security bit passes the driver unopened also when a network key is
  installed: it reaches the callbacks like an authenticated one.
\<close>

lemma unsecured_frame_passes_with_key:
  assumes "npdu ! 1 AND 0x02 = 0"
  shows "radio_openNwk ecb npdu r = Some (Some npdu, r)"
  using assms by (simp add: radio_openNwk_def split: option.split)

end
