(* ===== verification/ZbFirmware.thy ===== *)
theory ZbFirmware
  imports ZbPrelude
begin

text \<open>
  \<open>extras/firmware/cc2530/cc2530_radio.c\<close>: the firmware of the radio module. It parses commands from
  the serial line, transmits frames with CSMA-CA, acknowledgement waits and retransmissions, and
  forwards what it receives.

  \<^item> The radio hardware is the record \<open>air\<close>: whether the \<open>k\<close>-th transmission since the start gets the
    channel and finishes, what stands in the receive FIFO at the polls of the wait after it, and the
    samples of the RSSI register. The frames loaded for transmission are the list \<open>fw_aired\<close> of the state.
  \<^item> Registers that the code writes and that keep their value are fields of the state. Of the busy
    waits only the number of back-off periods is kept, in \<open>fw_waits\<close>.
  \<^item> \<open>unsigned int\<close> has 16 bits on this processor.
\<close>

record air =
  air_once :: "nat \<Rightarrow> bool"
  air_heard :: "nat \<Rightarrow> u8 list list"
  air_rssi :: "nat \<Rightarrow> u8"

record firmware =
  fw_macFlags :: u8
  fw_txRetries :: u8
  fw_rng :: u16
  fw_macRetx :: u16
  fw_macNoack :: u16
  fw_minBe :: u8
  fw_maxBe :: u8
  fw_maxBackoffs :: u8
  fw_maxRetries :: u8
  fw_address :: "u8 list"
  fw_freqctrl :: u8
  fw_txpower :: u8
  fw_frmfilt0 :: u8
  fw_frmctrl0 :: u8
  fw_frmctrl1 :: u8
  fw_st :: nat
  fw_ln :: nat
  fw_idx :: nat
  fw_cmd :: "u8 list"
  fw_waits :: "nat list"
  fw_aired :: "u8 list list"

abbreviation (input) "MAC_FLAG_FILTER \<equiv> (0x01 :: u8)"
abbreviation (input) "MAC_FLAG_AUTOACK \<equiv> (0x02 :: u8)"
abbreviation (input) "MAC_FLAG_CCA_TX \<equiv> (0x04 :: u8)"
abbreviation (input) "FRMCTRL1_PENDING_OR \<equiv> (0x04 :: u8)"

section \<open>Answers to the host\<close>

definition fw_sendFrame :: "u8 \<Rightarrow> u8 list \<Rightarrow> u8 list" where
  "fw_sendFrame resp d =
     [0xFE, of_nat (length d + 1), resp] @ d @ [foldl (\<lambda>f b. f XOR b) (of_nat (length d + 1) XOR resp) d]"

text \<open>\<open>forward_rx\<close>: \<open>rxbuf\<close> holds the frame and the two status bytes behind it.\<close>

definition fw_forwardRx :: "u8 list \<Rightarrow> u8 list" where
  "fw_forwardRx rxbuf =
     (let rlen = length rxbuf;
          rssi = rxbuf ! (rlen - 2);
          lqi = rxbuf ! (rlen - 1);
          psdu = take (rlen - 2) rxbuf
      in [0xFE, of_nat (rlen + 1), 0x84, rssi, lqi] @ psdu @
         [foldl (\<lambda>f b. f XOR b) (of_nat (rlen + 1) XOR 0x84 XOR rssi XOR lqi) psdu])"

text \<open>
  \<open>radio_rx\<close> on the bytes that stand in the FIFO or follow before the guard runs out: the frame with
  its status bytes, \<open>None\<close> for the answer 0.
\<close>

definition fw_radioRx :: "u8 list \<Rightarrow> u8 list option" where
  "fw_radioRx fifo =
     (case fifo of
        [] \<Rightarrow> None
      | len # rest \<Rightarrow>
          if len = 0 \<or> len > 127 then None
          else if length rest < unat len then None
          else Some (take (unat len) rest))"

section \<open>Registers\<close>

definition fw_applyMac :: "firmware \<Rightarrow> firmware" where
  "fw_applyMac s = s\<lparr>
     fw_frmfilt0 := 0x0C OR (if fw_macFlags s AND MAC_FLAG_FILTER \<noteq> 0 then 0x01 else 0x00),
     fw_frmctrl0 := 0x40 OR (if fw_macFlags s AND MAC_FLAG_AUTOACK \<noteq> 0 then 0x20 else 0x00)\<rparr>"

definition fw_setAddress :: "u8 list \<Rightarrow> firmware \<Rightarrow> firmware" where
  "fw_setAddress d s =
     (let seed = (ucast (d ! 4) OR push_bit 8 (ucast (d ! 5)) :: u16) in
      s\<lparr>fw_address := take 12 d, fw_rng := (if seed = 0 then 0xACE1 else seed)\<rparr>)"

definition fw_radioInit :: "u8 \<Rightarrow> firmware \<Rightarrow> firmware" where
  "fw_radioInit ch s =
     (let ch = (if ch < 11 then 11 else ch);
          ch = (if ch > 26 then 26 else ch)
      in (fw_applyMac s)\<lparr>fw_freqctrl := 11 + 5 * (ch - 11), fw_txpower := 0xF5\<rparr>)"

text \<open>\<open>ed_scan\<close>: 200 samples, the largest as a signed value, from -128 on.\<close>

definition fw_edScan :: "air \<Rightarrow> u8 \<Rightarrow> firmware \<Rightarrow> u8 \<times> firmware" where
  "fw_edScan w ch s =
     (foldl (\<lambda>peak i. if sint (air_rssi w i) > sint peak then air_rssi w i else peak) 0x80 [0..<200],
      fw_radioInit ch s)"

section \<open>Transmitting\<close>

definition fw_rngByte :: "firmware \<Rightarrow> u8 \<times> firmware" where
  "fw_rngByte s =
     (let x = fw_rng s;
          x = x XOR push_bit 7 x;
          x = x XOR drop_bit 9 x;
          x = x XOR push_bit 8 x
      in (ucast (x AND 0xFF), s\<lparr>fw_rng := (if x \<noteq> 0 then x else 0xACE1)\<rparr>))"

text \<open>
  \<open>wait_for_ack\<close> over the FIFO contents of its polls: the first matching acknowledgement ends it, any
  other frame is forwarded. The answer holds the bytes written to the host.
\<close>

definition fw_isAck :: "u8 \<Rightarrow> u8 list \<Rightarrow> bool" where
  "fw_isAck dsn rxbuf \<longleftrightarrow> 5 \<le> length rxbuf \<and> rxbuf ! 0 AND 0x07 = 0x02 \<and>
     rxbuf ! (length rxbuf - 1) AND 0x80 \<noteq> 0 \<and> rxbuf ! 2 = dsn"

primrec fw_waitForAck :: "u8 \<Rightarrow> u8 list list \<Rightarrow> bool \<times> u8 list" where
  "fw_waitForAck dsn [] = (False, [])"
| "fw_waitForAck dsn (fifo # polls) =
     (case fw_radioRx fifo of
        None \<Rightarrow> fw_waitForAck dsn polls
      | Some f \<Rightarrow>
          if 2 \<le> length f then
            if fw_isAck dsn f then (True, [])
            else (let (acked, out) = fw_waitForAck dsn polls in (acked, fw_forwardRx f @ out))
          else fw_waitForAck dsn polls)"

text \<open>\<open>psdu\<close> is the buffer behind the pointer; its first \<open>len\<close> bytes are the frame.\<close>

definition fw_radioTxOnce :: "air \<Rightarrow> u8 list \<Rightarrow> nat \<Rightarrow> firmware \<Rightarrow> u8 \<times> firmware" where
  "fw_radioTxOnce w psdu len s =
     (if 125 < len then (2, s)
      else (if air_once w (length (fw_aired s)) then 0 else 1, s\<lparr>fw_aired := fw_aired s @ [take len psdu]\<rparr>))"

definition fw_backoffDelay :: "u8 \<Rightarrow> firmware \<Rightarrow> firmware" where
  "fw_backoffDelay periods s = s\<lparr>fw_waits := fw_waits s @ [unat periods]\<rparr>"

text \<open>The channel access of one frame, with \<open>n\<close> tries left.\<close>

primrec fw_csma ::
  "air \<Rightarrow> u8 list \<Rightarrow> nat \<Rightarrow> nat \<Rightarrow> u8 \<Rightarrow> u8 \<Rightarrow> firmware \<Rightarrow> u8 \<times> u8 \<times> firmware"
where
  "fw_csma w psdu len 0 be tot s = (1, tot, s)"
| "fw_csma w psdu len (Suc n) be tot s =
     (let (r, s1) = fw_radioTxOnce w psdu len s;
          tot = (if tot + 1 = 0 then 255 else tot + 1)
      in if r = 0 then (0, tot, s1)
         else
           let (b, s2) = fw_rngByte s1;
               s3 = fw_backoffDelay (b AND (ucast (push_bit (unat be) 1 - 1 :: u16))) s2
           in fw_csma w psdu len n (if be < fw_maxBe s3 then be + 1 else be) tot s3)"

text \<open>The loop over the retransmissions of a frame, with \<open>n\<close> passes left and \<open>fr\<close> made.\<close>

record tx_result =
  tx_r :: u8
  tx_attempts :: u8
  tx_output :: "u8 list"

primrec fw_passes ::
  "air \<Rightarrow> u8 list \<Rightarrow> nat \<Rightarrow> nat \<Rightarrow> u8 \<Rightarrow> u8 \<Rightarrow> firmware \<Rightarrow> tx_result \<times> firmware"
where
  "fw_passes w psdu len 0 fr tot s =
     (\<lparr>tx_r = 1, tx_attempts = tot, tx_output = []\<rparr>, s\<lparr>fw_macNoack := fw_macNoack s + 1\<rparr>)"
| "fw_passes w psdu len (Suc n) fr tot s =
     (let (r, tot, s1) = fw_csma w psdu len (unat (fw_maxBackoffs s) + 1) (fw_minBe s) tot s in
      if r \<noteq> 0 then (\<lparr>tx_r = r, tx_attempts = tot, tx_output = []\<rparr>, s1)
      else if psdu ! 0 AND 0x20 = 0 then (\<lparr>tx_r = 0, tx_attempts = tot, tx_output = []\<rparr>, s1)
      else
        let (acked, out) = fw_waitForAck (psdu ! 2) (air_heard w (length (fw_aired s1) - 1)) in
        if acked then
          (\<lparr>tx_r = 0, tx_attempts = tot, tx_output = out\<rparr>,
           if 0 < fr then s1\<lparr>fw_macRetx := fw_macRetx s1 + 1\<rparr> else s1)
        else
          let (res, s') = fw_passes w psdu len n (fr + 1) tot s1
          in (res\<lparr>tx_output := out @ tx_output res\<rparr>, s'))"

text \<open>The plain retry loop of the mode without CSMA-CA; \<open>i\<close> counts the attempts made.\<close>

primrec fw_retry :: "air \<Rightarrow> u8 list \<Rightarrow> nat \<Rightarrow> nat \<Rightarrow> u8 \<Rightarrow> u8 \<Rightarrow> firmware \<Rightarrow> tx_result \<times> firmware" where
  "fw_retry w psdu len 0 i r s = (\<lparr>tx_r = r, tx_attempts = i, tx_output = []\<rparr>, s)"
| "fw_retry w psdu len (Suc n) i r s =
     (let (r, s1) = fw_radioTxOnce w psdu len s in
      if r = 0 then (\<lparr>tx_r = 0, tx_attempts = i + 1, tx_output = []\<rparr>, s1)
      else fw_retry w psdu len n (i + 1) r s1)"

definition fw_radioTx :: "air \<Rightarrow> u8 list \<Rightarrow> nat \<Rightarrow> u8 \<Rightarrow> firmware \<Rightarrow> tx_result \<times> firmware" where
  "fw_radioTx w psdu len retries s =
     (if 125 < len then (\<lparr>tx_r = 2, tx_attempts = 0, tx_output = []\<rparr>, s)
      else if fw_macFlags s AND MAC_FLAG_CCA_TX \<noteq> 0 then
        fw_passes w psdu len (unat (fw_maxRetries s) + 1) 0 0 s
      else fw_retry w psdu len (unat (retries + 1)) 0 1 s)"

section \<open>Commands\<close>

definition fw_transmit :: "air \<Rightarrow> u8 list \<Rightarrow> nat \<Rightarrow> u8 \<Rightarrow> firmware \<Rightarrow> u8 list \<times> firmware" where
  "fw_transmit w psdu len retries s =
     (let (res, s') = fw_radioTx w psdu len retries s
      in (tx_output res @ fw_sendFrame 0x83 [tx_r res, tx_attempts res], s'))"

text \<open>A complete command with a good checksum: its \<open>ln\<close> bytes stand in the buffer \<open>c\<close>.\<close>

definition fw_command :: "air \<Rightarrow> u8 list \<Rightarrow> nat \<Rightarrow> firmware \<Rightarrow> u8 list \<times> firmware" where
  "fw_command w c ln s =
     (let cc = c ! 0; ok = fw_sendFrame 0x82 [] in
      if cc = 0x01 then (fw_sendFrame 0x81 [0, 10], s)
      else if cc = 0x02 \<and> 2 \<le> ln then (ok, fw_radioInit (c ! 1) s)
      else if cc = 0x03 then fw_transmit w (drop 1 c) (ln - 1) (fw_txRetries s) s
      else if cc = 0x04 \<and> 2 \<le> ln then
        (ok, fw_applyMac (s\<lparr>fw_macFlags := (if c ! 1 \<noteq> 0 then fw_macFlags s OR MAC_FLAG_FILTER
                                            else fw_macFlags s AND NOT MAC_FLAG_FILTER)\<rparr>))
      else if cc = 0x05 \<and> 13 \<le> ln then (ok, fw_setAddress (drop 1 c) s)
      else if cc = 0x06 \<and> 3 \<le> ln then
        (ok, fw_applyMac (s\<lparr>fw_macFlags := c ! 1 AND (MAC_FLAG_FILTER OR MAC_FLAG_AUTOACK OR MAC_FLAG_CCA_TX),
                             fw_txRetries := c ! 2\<rparr>))
      else if cc = 0x07 then
        (fw_sendFrame 0x85 ([fw_macFlags s, fw_txRetries s] @ fw_address s), s)
      else if cc = 0x08 \<and> 2 \<le> ln then fw_transmit w (drop 2 c) (ln - 2) (c ! 1) s
      else if cc = 0x09 \<and> 2 \<le> ln then (ok, s\<lparr>fw_txpower := c ! 1\<rparr>)
      else if cc = 0x0A \<and> 2 \<le> ln then
        (ok, s\<lparr>fw_frmctrl1 := (if c ! 1 \<noteq> 0 then fw_frmctrl1 s OR FRMCTRL1_PENDING_OR
                                else fw_frmctrl1 s AND NOT FRMCTRL1_PENDING_OR)\<rparr>)
      else if cc = 0x0B then (fw_sendFrame 0x86 (le16 (fw_macRetx s) @ le16 (fw_macNoack s)), s)
      else if cc = 0x0C \<and> 2 \<le> ln then
        (let (e, s') = fw_edScan w (c ! 1) s in (fw_sendFrame 0x87 [c ! 1, e], s'))
      else if cc = 0x0D \<and> 5 \<le> ln then
        (let b = (if c ! 2 > 8 then 8 else c ! 2);
             a = (if c ! 1 > b then b else c ! 1);
             k = (if c ! 3 > 8 then 8 else c ! 3);
             rt = (if c ! 4 > 7 then 7 else c ! 4)
         in (ok, s\<lparr>fw_minBe := a, fw_maxBe := b, fw_maxBackoffs := k, fw_maxRetries := rt\<rparr>))
      else ([], s))"

text \<open>One byte from the host.\<close>

definition fw_byte :: "air \<Rightarrow> u8 \<Rightarrow> firmware \<Rightarrow> u8 list \<times> firmware" where
  "fw_byte w c s =
     (if fw_st s = 0 then ([], if c = 0xFE then s\<lparr>fw_st := 1\<rparr> else s)
      else if fw_st s = 1 then
        ([], s\<lparr>fw_st := (if unat c = 0 \<or> 137 < unat c then 0 else 2), fw_ln := unat c, fw_idx := 0\<rparr>)
      else
        let s1 = s\<lparr>fw_idx := fw_idx s + 1, fw_cmd := (fw_cmd s)[fw_idx s := c]\<rparr> in
        if fw_ln s1 + 1 \<le> fw_idx s1 then
          let good = foldl (\<lambda>f b. f XOR b) (of_nat (fw_ln s1)) (take (fw_ln s1) (fw_cmd s1));
              (out, s2) = (if good = fw_cmd s1 ! fw_ln s1 then fw_command w (fw_cmd s1) (fw_ln s1) s1
                           else ([], s1))
          in (out, s2\<lparr>fw_st := 0\<rparr>)
        else ([], s1))"

text \<open>The main loop: received frames are forwarded, bytes from the host are parsed.\<close>

datatype fw_input = FromHost u8 | FromAir "u8 list"

fun fw_step :: "air \<Rightarrow> fw_input \<Rightarrow> firmware \<Rightarrow> u8 list \<times> firmware" where
  "fw_step w (FromHost c) s = fw_byte w c s"
| "fw_step w (FromAir fifo) s =
     (case fw_radioRx fifo of
        None \<Rightarrow> ([], s)
      | Some f \<Rightarrow> (if 2 \<le> length f then fw_forwardRx f else [], s))"

primrec fw_main :: "air \<Rightarrow> fw_input list \<Rightarrow> firmware \<Rightarrow> u8 list \<times> firmware" where
  "fw_main w [] s = ([], s)"
| "fw_main w (i # is) s =
     (let (out1, s1) = fw_step w i s; (out2, s2) = fw_main w is s1 in (out1 @ out2, s2))"

text \<open>The start of \<open>main\<close>: the state before the loop and the reset indication.\<close>

definition fw_boot :: "u8 list \<times> firmware" where
  "fw_boot =
     (fw_sendFrame 0x80 [0, 10],
      fw_radioInit 11 (fw_setAddress (replicate 4 0xFF @ replicate 8 0)
        \<lparr>fw_macFlags = 0, fw_txRetries = 0, fw_rng = 0xACE1, fw_macRetx = 0, fw_macNoack = 0, fw_minBe = 3,
         fw_maxBe = 5, fw_maxBackoffs = 4, fw_maxRetries = 3, fw_address = [], fw_freqctrl = 0, fw_txpower = 0,
         fw_frmfilt0 = 0, fw_frmctrl0 = 0, fw_frmctrl1 = 0, fw_st = 0, fw_ln = 0, fw_idx = 0,
         fw_cmd = replicate 140 0, fw_waits = [], fw_aired = []\<rparr>))"

end
