(* ===== verification/ZbFirmwareFacts.thy ===== *)
theory ZbFirmwareFacts
  imports ZbFirmware ZbRadioLine
begin

text \<open>
  The firmware of the radio module: its state invariant, the transmission with channel access,
  acknowledgements and retransmissions, and the command parser on the serial line.
\<close>

section \<open>The invariant\<close>

text \<open>\<open>fw_tuned\<close>: the bounds that \<open>CMD_SET_MAC_PIB\<close> enforces. \<open>fw_parsing\<close>: the parser's position.\<close>

definition fw_tuned :: "firmware \<Rightarrow> bool" where
  "fw_tuned s \<longleftrightarrow> fw_minBe s \<le> fw_maxBe s \<and> fw_maxBe s \<le> 8 \<and> fw_maxBackoffs s \<le> 8 \<and> fw_maxRetries s \<le> 7 \<and>
     fw_rng s \<noteq> 0 \<and> length (fw_address s) = 12"

definition fw_parsing :: "firmware \<Rightarrow> bool" where
  "fw_parsing s \<longleftrightarrow> length (fw_cmd s) = 140 \<and> fw_st s \<le> 2 \<and>
     (fw_st s = 2 \<longrightarrow> 1 \<le> fw_ln s \<and> fw_ln s \<le> 137 \<and> fw_idx s \<le> fw_ln s)"

section \<open>Transmitting\<close>

lemma unat_le_8: "(be :: u8) \<le> 8 \<Longrightarrow> unat be \<le> 8"
  by (simp add: word_le_nat_alt)

lemma backoff_window:
  assumes "(be :: u8) \<le> 8"
  shows "unat (b AND ucast (push_bit (unat be) 1 - 1 :: u16) :: u8) < 2 ^ unat be"
proof -
  have m: "push_bit (unat be) 1 - 1 = (mask (unat be) :: u16)"
    by (simp add: mask_eq_exp_minus_1 push_bit_eq_mult)
  have "b AND ucast (mask (unat be) :: u16) = take_bit (unat be) b"
    using unat_le_8 [OF assms] by (intro bit_word_eqI) (auto simp: bit_simps)
  then show ?thesis by (simp only: m unsigned_take_bit_eq take_bit_nat_less_exp)
qed

lemma rng_nonzero: "fw_rngByte s = (b, s') \<Longrightarrow> \<exists>g. g \<noteq> 0 \<and> s' = s\<lparr>fw_rng := g\<rparr>"
  by (intro exI [of _ "fw_rng s'"]) (clarsimp simp: fw_rngByte_def Let_def)

lemma saturated_count: "unat (if t + 1 = 0 then 255 else t + 1 :: u8) = min 255 (unat t + 1)"
proof (cases "unat t = 255")
  case True
  then have "t = 255" by (simp add: word_unat_eq_iff)
  then show ?thesis by simp
next
  case False
  then have "unat t + 1 < 256" using u8_unat_lt [of t] by linarith
  then have "unat (t + 1) = unat t + 1" by (simp add: unat_word_ariths)
  then show ?thesis using False \<open>unat t + 1 < 256\<close> by (auto simp: word_unat_eq_iff)
qed

text \<open>The state after \<open>k\<close> transmissions, that are all the channel access changes.\<close>

definition fw_after :: "nat \<Rightarrow> u8 list \<Rightarrow> firmware \<Rightarrow> firmware \<Rightarrow> bool" where
  "fw_after k f s s' \<longleftrightarrow> (\<exists>g ws.
     s' = s\<lparr>fw_rng := g, fw_waits := fw_waits s @ ws, fw_aired := fw_aired s @ replicate k f\<rparr> \<and>
     (fw_rng s \<noteq> 0 \<longrightarrow> g \<noteq> 0) \<and> length ws \<le> k \<and> (\<forall>p\<in>set ws. p < 2 ^ unat (fw_maxBe s)))"

lemma fw_after_0: "fw_after 0 f s s"
  unfolding fw_after_def by (intro exI [of _ "fw_rng s"] exI [of _ "[]"]) simp

lemma fw_after_trans:
  assumes "fw_after k f s s1" "fw_after m f s1 s2"
  shows "fw_after (k + m) f s s2"
proof -
  obtain g ws where 1: "s1 = s\<lparr>fw_rng := g, fw_waits := fw_waits s @ ws, fw_aired := fw_aired s @ replicate k f\<rparr>"
      "fw_rng s \<noteq> 0 \<longrightarrow> g \<noteq> 0" "length ws \<le> k" "\<forall>p\<in>set ws. p < 2 ^ unat (fw_maxBe s)"
    using assms(1) unfolding fw_after_def by blast
  obtain h vs where 2: "s2 = s1\<lparr>fw_rng := h, fw_waits := fw_waits s1 @ vs, fw_aired := fw_aired s1 @ replicate m f\<rparr>"
      "fw_rng s1 \<noteq> 0 \<longrightarrow> h \<noteq> 0" "length vs \<le> m" "\<forall>p\<in>set vs. p < 2 ^ unat (fw_maxBe s1)"
    using assms(2) unfolding fw_after_def by blast
  show ?thesis
    unfolding fw_after_def using 1 2
    by (intro exI [of _ h] exI [of _ "ws @ vs"]) (auto simp: replicate_add)
qed

lemma fw_after_aired: "fw_after k f s s' \<Longrightarrow> fw_aired s' = fw_aired s @ replicate k f"
  by (auto simp: fw_after_def)

lemma fw_after_keeps:
  "fw_after k f s s' \<Longrightarrow> fw_minBe s' = fw_minBe s \<and> fw_maxBe s' = fw_maxBe s \<and>
     fw_maxBackoffs s' = fw_maxBackoffs s \<and> fw_maxRetries s' = fw_maxRetries s \<and> fw_macFlags s' = fw_macFlags s \<and>
     fw_macRetx s' = fw_macRetx s \<and> fw_macNoack s' = fw_macNoack s \<and>
     length (fw_aired s') = length (fw_aired s) + k"
  by (auto simp: fw_after_def)

lemma fw_csma_spec:
  assumes "fw_csma w psdu len n be t s = (r, t', s')" "len \<le> 125" "be \<le> fw_maxBe s" "fw_maxBe s \<le> 8"
  shows "\<exists>k\<le>n. fw_after k (take len psdu) s s' \<and> unat t' = min 255 (unat t + k) \<and>
    (\<forall>i. i + 1 < k \<longrightarrow> \<not> air_once w (length (fw_aired s) + i)) \<and> (0 < n \<longrightarrow> 0 < k) \<and>
    (r = 0 \<and> 0 < k \<and> air_once w (length (fw_aired s) + k - 1) \<or>
     r = 1 \<and> k = n \<and> (0 < k \<longrightarrow> \<not> air_once w (length (fw_aired s) + k - 1)))"
  using assms
proof (induction n arbitrary: be t s)
  case 0
  then show ?case by (auto intro!: exI [of _ 0] simp: fw_after_0)
next
  case (Suc n)
  let ?f = "take len psdu"
  let ?L = "length (fw_aired s)"
  let ?t = "if t + 1 = 0 then 255 else t + 1"
  let ?s1 = "s\<lparr>fw_aired := fw_aired s @ [?f]\<rparr>"
  show ?case
  proof (cases "air_once w ?L")
    case True
    then have "r = 0" "t' = ?t" "s' = ?s1" using Suc.prems by (auto simp: fw_radioTxOnce_def Let_def)
    moreover have "fw_after 1 ?f s ?s1"
      unfolding fw_after_def by (intro exI [of _ "fw_rng s"] exI [of _ "[]"]) simp
    ultimately show ?thesis using True saturated_count [of t] by (intro exI [of _ 1]) simp
  next
    case False
    obtain b s2 where b: "fw_rngByte ?s1 = (b, s2)" by (cases "fw_rngByte ?s1")
    then obtain g where g: "g \<noteq> 0" "s2 = ?s1\<lparr>fw_rng := g\<rparr>" using rng_nonzero by blast
    let ?p = "b AND ucast (push_bit (unat be) 1 - 1 :: u16)"
    let ?s3 = "fw_backoffDelay ?p s2"
    let ?be = "if be < fw_maxBe ?s3 then be + 1 else be"
    have max: "fw_maxBe ?s3 = fw_maxBe s" by (simp add: g fw_backoffDelay_def)
    have be: "?be \<le> fw_maxBe ?s3" unfolding max using Suc.prems(3) by (auto simp: inc_le)
    have "unat ?p < 2 ^ unat be" using backoff_window [of be b] Suc.prems(3,4) by simp
    also have "\<dots> \<le> 2 ^ unat (fw_maxBe s)" using Suc.prems(3) by (simp add: word_le_nat_alt)
    finally have step: "fw_after 1 ?f s ?s3"
      unfolding fw_after_def g fw_backoffDelay_def using g(1)
      by (intro exI [of _ g] exI [of _ "[unat ?p]"]) simp
    have run: "fw_csma w psdu len n ?be ?t ?s3 = (r, t', s')"
      using Suc.prems False b by (simp add: fw_radioTxOnce_def Let_def)
    have "fw_maxBe ?s3 \<le> 8" using Suc.prems(4) max by simp
    from Suc.IH [OF run Suc.prems(2) be this] obtain k where k: "k \<le> n" "fw_after k ?f ?s3 s'"
        "unat t' = min 255 (unat ?t + k)" "\<And>i. i + 1 < k \<Longrightarrow> \<not> air_once w (length (fw_aired ?s3) + i)"
        "r = 0 \<and> 0 < k \<and> air_once w (length (fw_aired ?s3) + k - 1) \<or>
         r = 1 \<and> k = n \<and> (0 < k \<longrightarrow> \<not> air_once w (length (fw_aired ?s3) + k - 1))"
      by blast
    have L: "length (fw_aired ?s3) = ?L + 1" using fw_after_keeps [OF step] by simp
    have "\<not> air_once w (?L + i)" if "i + 1 < Suc k" for i
      using k(4) [of "i - 1"] False that unfolding L by (cases i) auto
    moreover have "fw_after (1 + k) ?f s s'" by (rule fw_after_trans [OF step k(2)])
    moreover have "unat t' = min 255 (unat t + Suc k)" using k(3) saturated_count [of t] by simp
    moreover have "r = 0 \<and> air_once w (?L + k) \<or> r = 1 \<and> k = n \<and> \<not> air_once w (?L + k)"
      using k(5) False unfolding L by (cases k) auto
    ultimately show ?thesis using k(1) by (intro exI [of _ "Suc k"]) simp
  qed
qed

text \<open>
  \<open>tx_done\<close>: transmission \<open>k\<close> got the channel and, where an acknowledgement was requested, one that
  matches was heard in its window.
\<close>

definition tx_done :: "air \<Rightarrow> u8 list \<Rightarrow> nat \<Rightarrow> bool" where
  "tx_done w psdu k \<longleftrightarrow> air_once w k \<and>
     (psdu ! 0 AND 0x20 \<noteq> 0 \<longrightarrow> fst (fw_waitForAck (psdu ! 2) (air_heard w k)))"

text \<open>
  Giving up on a frame sent \<open>k\<close> times from number \<open>L\<close> on: the last \<open>b\<close> tries found the channel busy, or
  the frame went out \<open>n\<close> times.
\<close>

definition tx_gave_up :: "air \<Rightarrow> nat \<Rightarrow> nat \<Rightarrow> nat \<Rightarrow> nat \<Rightarrow> bool" where
  "tx_gave_up w n b L k \<longleftrightarrow> b \<le> k \<and> (\<forall>i<k. k - b \<le> i \<longrightarrow> \<not> air_once w (L + i)) \<or>
     length (filter (\<lambda>i. air_once w (L + i)) [0..<k]) = n"

lemma only_last:
  assumes "0 < k" "\<And>i. i + 1 < k \<Longrightarrow> \<not> P i" "P (k - 1)"
  shows "length (filter P [0..<k]) = 1"
proof -
  obtain j where k: "k = Suc j" using assms(1) by (cases k) auto
  have "filter P [0..<j] = []" using assms(2) unfolding k by (simp add: filter_empty_conv)
  then show ?thesis using assms(3) unfolding k by simp
qed

lemma tx_gave_up_later:
  assumes "tx_gave_up w n b (L + k) m" "length (filter (\<lambda>i. air_once w (L + i)) [0..<k]) = 1"
  shows "tx_gave_up w (Suc n) b L (k + m)"
proof -
  have "[0..<k + m] = [0..<k] @ map (\<lambda>i. k + i) [0..<m]"
    using upt_add_eq_append [of 0 k m] map_add_upt [of k m] by (simp add: add.commute)
  then have count: "length (filter (\<lambda>i. air_once w (L + i)) [0..<k + m]) =
      1 + length (filter (\<lambda>i. air_once w (L + k + i)) [0..<m])"
    by (simp add: filter_map comp_def assms(2) add.assoc)
  have busy: "\<not> air_once w (L + i)"
    if "b \<le> m" "\<And>i. i < m \<Longrightarrow> m - b \<le> i \<Longrightarrow> \<not> air_once w (L + k + i)" "i < k + m" "k + m - b \<le> i" for i
    using that(2) [of "i - k"] that(1,3,4) by (simp add: add.assoc)
  show ?thesis using assms(1) count busy unfolding tx_gave_up_def by auto
qed

text \<open>The outcome of a transmission that went on the air \<open>k\<close> times, from the state \<open>s\<close> to \<open>s'\<close>.\<close>

definition tx_outcome :: "air \<Rightarrow> u8 list \<Rightarrow> nat \<Rightarrow> nat \<Rightarrow> u8 \<Rightarrow> firmware \<Rightarrow> nat \<Rightarrow> tx_result \<Rightarrow> firmware \<Rightarrow> bool" where
  "tx_outcome w psdu len n t s k res s' \<longleftrightarrow>
     (let L = length (fw_aired s);
          sent = 0 < k \<and> tx_done w psdu (L + k - 1);
          heard = 0 < k \<longrightarrow> air_once w (L + k - 1)
      in (\<forall>i. i + 1 < k \<longrightarrow> \<not> tx_done w psdu (L + i)) \<and>
         tx_r res = (if sent then 0 else 1) \<and>
         (\<not> sent \<longrightarrow> tx_gave_up w n (unat (fw_maxBackoffs s) + 1) L k) \<and>
         unat (tx_attempts res) = min 255 (unat t + k) \<and>
         fw_macNoack s' = fw_macNoack s + (if \<not> sent \<and> heard then 1 else 0) \<and>
         fw_after k (take len psdu) s
           (s'\<lparr>fw_macRetx := fw_macRetx s, fw_macNoack := fw_macNoack s\<rparr>))"

lemma fw_passes_spec:
  assumes "fw_passes w psdu len n fr t s = (res, s')" "len \<le> 125" "fw_minBe s \<le> fw_maxBe s" "fw_maxBe s \<le> 8"
  shows "\<exists>k. k \<le> n * (unat (fw_maxBackoffs s) + 1) \<and> (0 < n \<longrightarrow> 0 < k) \<and> tx_outcome w psdu len n t s k res s'"
  using assms
proof (induction n arbitrary: fr t s res)
  case 0
  then show ?case
    by (auto intro!: exI [of _ 0] simp: tx_outcome_def Let_def fw_after_0 tx_gave_up_def)
next
  case (Suc n)
  let ?f = "take len psdu"
  let ?L = "length (fw_aired s)"
  let ?b = "unat (fw_maxBackoffs s) + 1"
  obtain r t1 s1 where c: "fw_csma w psdu len ?b (fw_minBe s) t s = (r, t1, s1)" by (cases "fw_csma w psdu len ?b (fw_minBe s) t s")
  have "0 < ?b" by simp
  with fw_csma_spec [OF c Suc.prems(2-4)] obtain k where k: "k \<le> ?b" "0 < k" "fw_after k ?f s s1"
      "unat t1 = min 255 (unat t + k)" "\<And>i. i + 1 < k \<Longrightarrow> \<not> air_once w (?L + i)"
      "r = 0 \<and> air_once w (?L + k - 1) \<or> r = 1 \<and> k = ?b \<and> \<not> air_once w (?L + k - 1)"
    by auto
  note keep = fw_after_keeps [OF k(3)]
  have before: "\<not> tx_done w psdu (?L + i)" if "i + 1 < k" for i using k(5) [OF that] by (simp add: tx_done_def)
  obtain acked out where h: "fw_waitForAck (psdu ! 2) (air_heard w (?L + k - 1)) = (acked, out)"
    by (cases "fw_waitForAck (psdu ! 2) (air_heard w (?L + k - 1))")
  have ack_at: "length (fw_aired s1) - 1 = ?L + k - 1" using keep by simp
  have fin: "tx_done w psdu (?L + k - 1) \<longleftrightarrow> r = 0 \<and> (psdu ! 0 AND 0x20 = 0 \<or> acked)"
    using k(6) h by (auto simp: tx_done_def)
  show ?case
  proof (cases "r = 0 \<and> psdu ! 0 AND 0x20 \<noteq> 0 \<and> \<not> acked")
    case False
    have "s'\<lparr>fw_macRetx := fw_macRetx s, fw_macNoack := fw_macNoack s\<rparr> = s1" "fw_macNoack s' = fw_macNoack s"
      "tx_r res = r" "tx_attempts res = t1"
      using Suc.prems(1) c h ack_at False keep by (auto split: if_splits)
    moreover have "tx_gave_up w (Suc n) ?b ?L k" if "r \<noteq> 0"
    proof -
      have "\<not> air_once w (?L + i)" if "i < k" for i
        using k(5) [of i] k(2,6) \<open>r \<noteq> 0\<close> that by (cases "i + 1 = k") auto
      then show ?thesis using k(6) \<open>r \<noteq> 0\<close> by (auto simp: tx_gave_up_def)
    qed
    ultimately have "tx_outcome w psdu len (Suc n) t s k res s'"
      unfolding tx_outcome_def Let_def using k(1-6) before fin False by auto
    then show ?thesis using k(1,2) by (intro exI [of _ k]) simp
  next
    case True
    then obtain res1 where run: "fw_passes w psdu len n (fr + 1) t1 s1 = (res1, s')" "res = res1\<lparr>tx_output := out @ tx_output res1\<rparr>"
      using Suc.prems(1) c h ack_at by (auto split: prod.splits)
    from Suc.IH [OF run(1) Suc.prems(2)] Suc.prems(3,4) keep obtain m where m:
        "m \<le> n * ?b" "tx_outcome w psdu len n t1 s1 m res1 s'" by auto
    have aft: "fw_after (k + m) ?f s (s'\<lparr>fw_macRetx := fw_macRetx s, fw_macNoack := fw_macNoack s\<rparr>)"
      using m(2) keep by (intro fw_after_trans [OF k(3)]) (simp add: tx_outcome_def Let_def)
    have got: "air_once w (?L + k - 1)" using k(6) True by auto
    have no: "\<not> tx_done w psdu (?L + k - 1)" using fin True by simp
    have "\<not> tx_done w psdu (?L + i)" if "i + 1 < k + m" for i
    proof (cases "i + 1 < k \<or> i + 1 = k")
      case False
      then have "(i - k) + 1 < m" using that False by arith
      then have "\<not> tx_done w psdu (length (fw_aired s1) + (i - k))" using m(2) by (simp add: tx_outcome_def Let_def)
      then show ?thesis using False keep by (simp add: not_less)
    qed (use before no in auto)
    moreover have "length (fw_aired s1) + m - 1 = ?L + (k + m) - 1" using keep by simp
    moreover have "tx_gave_up w (Suc n) ?b ?L (k + m)" if "tx_gave_up w n ?b (?L + k) m"
      using got k(2,5) by (intro tx_gave_up_later [OF that] only_last) auto
    ultimately have "tx_outcome w psdu len (Suc n) t s (k + m) res s'"
      using m(2) keep k(2,4) got True no run(2) aft
      unfolding tx_outcome_def Let_def by (cases "m = 0") auto
    then show ?thesis using k(1,2) m(1) by (intro exI [of _ "k + m"]) (simp add: distrib_right)
  qed
qed

text \<open>Whatever is transmitted, the tuning and the parser's buffer stay.\<close>

definition fw_steady :: "firmware \<Rightarrow> firmware \<Rightarrow> bool" where
  "fw_steady s s' \<longleftrightarrow> fw_cmd s' = fw_cmd s \<and> (fw_tuned s \<longrightarrow> fw_tuned s')"

lemma fw_steady_refl [simp]: "fw_steady s s"
  by (simp add: fw_steady_def)

lemma fw_steady_trans: "fw_steady s s1 \<Longrightarrow> fw_steady s1 s2 \<Longrightarrow> fw_steady s s2"
  by (simp add: fw_steady_def)

lemma fw_csma_steady: "fw_csma w psdu len n be t s = (r, t', s') \<Longrightarrow> fw_steady s s'"
proof (induction n arbitrary: be t s)
  case (Suc n)
  obtain r1 s1 where o: "fw_radioTxOnce w psdu len s = (r1, s1)" by (cases "fw_radioTxOnce w psdu len s")
  then have s1: "fw_steady s s1"
    by (auto simp: fw_radioTxOnce_def fw_steady_def fw_tuned_def split: if_splits)
  show ?case
  proof (cases "r1 = 0")
    case False
    obtain b s2 where b: "fw_rngByte s1 = (b, s2)" by (cases "fw_rngByte s1")
    let ?s3 = "fw_backoffDelay (b AND ucast (push_bit (unat be) 1 - 1 :: u16)) s2"
    have s3: "fw_steady s1 ?s3"
      using rng_nonzero [OF b] by (auto simp: fw_steady_def fw_backoffDelay_def fw_tuned_def)
    have "fw_steady ?s3 s'" by (rule Suc.IH) (use Suc.prems o b False in \<open>simp add: Let_def\<close>)
    then show ?thesis using s1 s3 fw_steady_trans by blast
  qed (use Suc.prems o s1 in \<open>simp add: Let_def\<close>)
qed simp

lemma fw_passes_steady: "fw_passes w psdu len n fr t s = (res, s') \<Longrightarrow> fw_steady s s'"
proof (induction n arbitrary: fr t s res)
  case 0
  then show ?case by (auto simp: fw_steady_def fw_tuned_def)
next
  case (Suc n)
  obtain r t1 s1 where c: "fw_csma w psdu len (unat (fw_maxBackoffs s) + 1) (fw_minBe s) t s = (r, t1, s1)"
    by (cases "fw_csma w psdu len (unat (fw_maxBackoffs s) + 1) (fw_minBe s) t s")
  note s1 = fw_csma_steady [OF c]
  obtain acked out where h: "fw_waitForAck (psdu ! 2) (air_heard w (length (fw_aired s1) - 1)) = (acked, out)"
    by (cases "fw_waitForAck (psdu ! 2) (air_heard w (length (fw_aired s1) - 1))")
  show ?case
  proof (cases "r = 0 \<and> psdu ! 0 AND 0x20 \<noteq> 0 \<and> \<not> acked")
    case True
    then obtain res1 where "fw_passes w psdu len n (fr + 1) t1 s1 = (res1, s')"
      using Suc.prems c h by (auto split: prod.splits)
    from Suc.IH [OF this] show ?thesis by (rule fw_steady_trans [OF s1])
  next
    case False
    moreover have "fw_steady s1 (s1\<lparr>fw_macRetx := fw_macRetx s1 + 1\<rparr>)" by (simp add: fw_steady_def fw_tuned_def)
    ultimately show ?thesis using Suc.prems c h s1 fw_steady_trans [OF s1] by (auto split: if_splits)
  qed
qed

lemma fw_retry_steady: "fw_retry w psdu len n i r s = (res, s') \<Longrightarrow> fw_steady s s'"
proof (induction n arbitrary: i r s)
  case (Suc n)
  obtain r1 s1 where o: "fw_radioTxOnce w psdu len s = (r1, s1)" by (cases "fw_radioTxOnce w psdu len s")
  then have s1: "fw_steady s s1"
    by (auto simp: fw_radioTxOnce_def fw_steady_def fw_tuned_def split: if_splits)
  show ?case using Suc o s1 fw_steady_trans [OF s1] by (auto split: if_splits)
qed simp

lemma steady_if:
  "(P \<Longrightarrow> fw_steady s (snd a)) \<Longrightarrow> (\<not> P \<Longrightarrow> fw_steady s (snd b)) \<Longrightarrow> fw_steady s (snd (if P then a else b))"
  by simp

lemma steady_pair: "fw_steady s s' \<Longrightarrow> fw_steady s (snd (out, s'))"
  by simp

lemma fw_transmit_steady: "fw_steady s (snd (fw_transmit w psdu len retries s))"
proof -
  have "fw_steady s (snd (fw_radioTx w psdu len retries s))"
    unfolding fw_radioTx_def
    by (intro steady_if steady_pair fw_steady_refl fw_passes_steady [OF surjective_pairing]
        fw_retry_steady [OF surjective_pairing])
  then show ?thesis by (simp add: fw_transmit_def Let_def prod.case_eq_if)
qed

lemma fw_registers_steady:
  "fw_steady s (fw_applyMac s)" "fw_steady s (fw_radioInit ch s)" "fw_steady s (snd (fw_edScan w ch s))"
  "fw_steady s (fw_applyMac (s\<lparr>fw_macFlags := a\<rparr>))" "fw_steady s (fw_applyMac (s\<lparr>fw_macFlags := a, fw_txRetries := b\<rparr>))"
  "fw_steady s (s\<lparr>fw_txpower := c\<rparr>)" "fw_steady s (s\<lparr>fw_frmctrl1 := d\<rparr>)"
  "12 \<le> length e \<Longrightarrow> fw_steady s (fw_setAddress e s)"
  by (simp_all add: fw_steady_def fw_tuned_def fw_applyMac_def fw_radioInit_def fw_edScan_def fw_setAddress_def Let_def)

lemma fw_pib_steady:
  assumes "b = (if b0 > 8 then 8 else b0)" "a = (if a0 > b then b else a0)" "k = (if k0 > 8 then 8 else k0)"
    "rt = (if rt0 > 7 then 7 else rt0)"
  shows "fw_steady s (s\<lparr>fw_minBe := a, fw_maxBe := b, fw_maxBackoffs := k, fw_maxRetries := rt\<rparr>)"
  using assms by (auto simp: fw_steady_def fw_tuned_def not_less)

lemma fw_command_steady:
  assumes "13 \<le> length c"
  shows "fw_steady s (snd (fw_command w c ln s))"
proof -
  have e: "12 \<le> length (drop 1 c)" using assms by simp
  show ?thesis
    unfolding fw_command_def Let_def prod.case_eq_if
    by (intro steady_if steady_pair fw_transmit_steady fw_registers_steady(1-7) fw_registers_steady(8) [OF e]
        fw_pib_steady [OF refl refl refl refl] fw_steady_refl)
qed

text \<open>The parser: any input keeps its position inside the buffer.\<close>

definition fw_sound :: "firmware \<Rightarrow> bool" where
  "fw_sound s \<longleftrightarrow> fw_tuned s \<and> fw_parsing s"

lemma fw_byte_sound: "fw_sound s \<Longrightarrow> fw_sound (snd (fw_byte w c s))"
proof -
  assume s: "fw_sound s"
  let ?s1 = "s\<lparr>fw_idx := fw_idx s + 1, fw_cmd := (fw_cmd s)[fw_idx s := c]\<rparr>"
  have t: "fw_tuned ?s1" "13 \<le> length (fw_cmd ?s1)"
    using s by (simp_all add: fw_sound_def fw_tuned_def fw_parsing_def)
  have "fw_steady ?s1 (snd (fw_command w (fw_cmd ?s1) (fw_ln ?s1) ?s1))" by (rule fw_command_steady [OF t(2)])
  with t s show ?thesis
    by (auto simp: fw_byte_def Let_def fw_sound_def fw_tuned_def fw_parsing_def fw_steady_def split: prod.split)
qed

lemma fw_step_sound: "fw_sound s \<Longrightarrow> fw_sound (snd (fw_step w i s))"
  by (cases i) (auto intro: fw_byte_sound split: option.split)

lemma fw_main_sound: "fw_sound s \<Longrightarrow> fw_sound (snd (fw_main w is s))"
  using fw_step_sound by (induction "is" arbitrary: s) (auto simp: Let_def prod.case_eq_if)

lemma fw_boot_sound: "fw_sound (snd fw_boot)"
  by (simp add: fw_boot_def fw_sound_def fw_tuned_def fw_parsing_def fw_setAddress_def fw_radioInit_def fw_applyMac_def Let_def)

lemma fw_main_append:
  "fw_main w (is @ js) s = (let (out1, s1) = fw_main w is s; (out2, s2) = fw_main w js s1 in (out1 @ out2, s2))"
  by (induction "is" arbitrary: s) (simp_all add: Let_def prod.case_eq_if)


section \<open>The command parser\<close>

lemma fw_main_then: "fw_main w is s = ([], s1) \<Longrightarrow> fw_main w (is @ js) s = fw_main w js s1"
  by (simp add: fw_main_append)

lemma fw_main_body:
  assumes "fw_st s = 2" "fw_idx s + length bs \<le> fw_ln s" "fw_ln s \<le> length (fw_cmd s)"
  shows "fw_main w (map FromHost bs) s = ([], s\<lparr>fw_idx := fw_idx s + length bs,
    fw_cmd := take (fw_idx s) (fw_cmd s) @ bs @ drop (fw_idx s + length bs) (fw_cmd s)\<rparr>)"
  using assms
proof (induction bs arbitrary: s)
  case (Cons b bs)
  let ?s = "s\<lparr>fw_idx := fw_idx s + 1, fw_cmd := (fw_cmd s)[fw_idx s := b]\<rparr>"
  have step: "fw_byte w b s = ([], ?s)" using Cons.prems by (simp add: fw_byte_def Let_def)
  have "take (Suc (fw_idx s)) ((fw_cmd s)[fw_idx s := b]) = take (fw_idx s) (fw_cmd s) @ [b]"
    using Cons.prems by (simp add: take_Suc_conv_app_nth)
  then show ?case using Cons.IH [of ?s] Cons.prems step by (simp add: drop_update_cancel)
qed simp

text \<open>
  The state that a complete frame with the command bytes \<open>body\<close> and the checksum byte \<open>c\<close> leaves in the
  parser, and the effect of the command.
\<close>

definition fw_with :: "u8 list \<Rightarrow> u8 \<Rightarrow> firmware \<Rightarrow> firmware" where
  "fw_with body c s = s\<lparr>fw_st := 2, fw_ln := length body, fw_idx := length body + 1,
     fw_cmd := body @ c # drop (length body + 1) (fw_cmd s)\<rparr>"

definition fw_executed :: "air \<Rightarrow> u8 list \<Rightarrow> firmware \<Rightarrow> u8 list \<times> firmware" where
  "fw_executed w body s =
     (let s1 = fw_with body (xor_all (of_nat (length body)) body) s;
          (out, s2) = fw_command w (fw_cmd s1) (length body) s1
      in (out, s2\<lparr>fw_st := 0\<rparr>))"

lemma fw_main_frame:
  assumes "fw_st s = 0" "length (fw_cmd s) = 140" "body \<noteq> []" "length body \<le> 137"
  shows "fw_main w (map FromHost (0xFE # of_nat (length body) # body @ [c])) s =
    (if c = xor_all (of_nat (length body)) body then fw_executed w body s else ([], fw_with body c s\<lparr>fw_st := 0\<rparr>))"
proof -
  let ?n = "of_nat (length body) :: u8"
  let ?s = "s\<lparr>fw_st := 2, fw_ln := length body, fw_idx := 0\<rparr>"
  let ?s1 = "?s\<lparr>fw_idx := length body, fw_cmd := body @ drop (length body) (fw_cmd s)\<rparr>"
  have n: "unat ?n = length body" using assms by simp
  have "length body \<noteq> 0" using assms by simp
  then have head: "fw_main w (map FromHost [0xFE, ?n]) s = ([], ?s)"
    using assms by (simp add: fw_byte_def n del: length_0_conv)
  have body: "fw_main w (map FromHost body) ?s = ([], ?s1)"
    using fw_main_body [of ?s body w] assms by simp
  have upd: "(body @ drop (length body) (fw_cmd s))[length body := c] = body @ c # drop (length body + 1) (fw_cmd s)"
  proof -
    have "length body < length (fw_cmd s)" using assms by simp
    then have "drop (length body) (fw_cmd s) = fw_cmd s ! length body # drop (Suc (length body)) (fw_cmd s)"
      by (rule Cons_nth_drop_Suc [symmetric])
    then show ?thesis by simp
  qed
  have last: "fw_byte w c ?s1 = (if c = xor_all ?n body then fw_executed w body s else ([], fw_with body c s\<lparr>fw_st := 0\<rparr>))"
    by (simp add: fw_byte_def Let_def upd fw_executed_def fw_with_def)
  have one: "fw_main w [FromHost c] ?s1 = fw_byte w c ?s1" by (simp add: Let_def prod.case_eq_if)
  have "map FromHost (0xFE # ?n # body @ [c]) = map FromHost [0xFE, ?n] @ map FromHost body @ [FromHost c]" by simp
  then show ?thesis
    by (simp only: fw_main_then [OF head] fw_main_then [OF body] one last)
qed

text \<open>Zero bytes bring the parser home: the bytes of a frame still awaited get fewer.\<close>

definition fw_due :: "firmware \<Rightarrow> nat" where
  "fw_due s = (if fw_st s = 0 then 0 else if fw_st s = 1 then 1 else fw_ln s + 1 - fw_idx s)"

lemma fw_zero_byte:
  assumes "fw_sound s"
  shows "fw_due (snd (fw_byte w 0 s)) \<le> fw_due s - 1"
  using assms by (auto simp: fw_byte_def fw_due_def Let_def fw_sound_def fw_parsing_def split: prod.split)

lemma fw_zero_bytes:
  "fw_sound s \<Longrightarrow> fw_due (snd (fw_main w (replicate n (FromHost 0)) s)) \<le> fw_due s - n"
proof (induction n arbitrary: s)
  case (Suc n)
  have "fw_due (snd (fw_main w (replicate n (FromHost 0)) (snd (fw_byte w 0 s)))) \<le> fw_due (snd (fw_byte w 0 s)) - n"
    by (rule Suc.IH [OF fw_byte_sound [OF Suc.prems]])
  then show ?case using fw_zero_byte [OF Suc.prems, of w] by (simp add: Let_def prod.case_eq_if)
qed simp

lemma fw_due_sound: "fw_sound s \<Longrightarrow> fw_due s \<le> 138" "fw_sound s \<Longrightarrow> fw_due s = 0 \<Longrightarrow> fw_st s = 0"
  by (auto simp: fw_due_def fw_sound_def fw_parsing_def split: if_splits)

text \<open>C39: Resynchronisation. Whatever the module has been sent and has received since it started, even
  half a command, after the 140 zero bytes that the driver's start writes it is idle with its tuning
  in bounds, and the next command frame of the driver is executed, once and as it was written.\<close>

theorem module_resynchronised:
  assumes "s = snd (fw_main w (is @ map FromHost (replicate 140 0)) (snd fw_boot))" "length data \<le> 136"
  shows "fw_st s = 0 \<and> fw_sound s \<and>
    fw_main w (map FromHost (radio_sendFrame cmd data)) s = fw_executed w (cmd # data) s"
proof -
  let ?s = "snd (fw_main w is (snd fw_boot))"
  have s: "fw_sound ?s" by (rule fw_main_sound [OF fw_boot_sound])
  have z: "s = snd (fw_main w (replicate 140 (FromHost 0)) ?s)"
    by (simp only: assms(1) fw_main_append Let_def prod.case_eq_if snd_conv map_replicate)
  have sound: "fw_sound s" unfolding z by (rule fw_main_sound [OF s])
  have "fw_due s \<le> fw_due ?s - 140" unfolding z by (rule fw_zero_bytes [OF s])
  then have idle: "fw_st s = 0" using fw_due_sound(1) [OF s] by (intro fw_due_sound(2) [OF sound]) simp
  obtain body where b: "body = cmd # data" by blast
  have l: "body \<noteq> []" "length body \<le> 137" using assms(2) b by simp_all
  have "fw_main w (map FromHost (radio_sendFrame cmd data)) s = fw_executed w body s"
    using fw_main_frame [of s body w "xor_all (of_nat (length body)) body"] idle sound l
    unfolding sendFrame_bytes b [symmetric] by (simp add: fw_sound_def fw_parsing_def del: fw_main.simps list.map)
  then show ?thesis using idle sound b by simp
qed

theorem module_resynchronised_witness:
  "let w = \<lparr>air_once = (\<lambda>k. True), air_heard = (\<lambda>k. []), air_rssi = (\<lambda>k. 0)\<rparr>;
       s = snd (fw_main w (map FromHost [0xFE, 50, 3] @ map FromHost (replicate 140 0)) (snd fw_boot))
   in fst (fw_main w (map FromHost (radio_sendFrame CMD_PING [])) s) = [0xFE, 3, 0x81, 0, 10, 0x88]"
proof -
  let ?w = "\<lparr>air_once = (\<lambda>k. True), air_heard = (\<lambda>k. []), air_rssi = (\<lambda>k. 0)\<rparr> :: air"
  obtain s where s: "s = snd (fw_main ?w (map FromHost [0xFE, 50, 3] @ map FromHost (replicate 140 0)) (snd fw_boot))"
    by blast
  have "fw_main ?w (map FromHost (radio_sendFrame CMD_PING [])) s = fw_executed ?w [CMD_PING] s"
    using module_resynchronised [OF s, of "[]" CMD_PING] by simp
  moreover have "fst (fw_executed ?w [CMD_PING] s) = [0xFE, 3, 0x81, 0, 10, 0x88]"
    by (simp add: fw_executed_def fw_with_def fw_command_def fw_sendFrame_def Let_def)
  ultimately show ?thesis unfolding Let_def s by simp
qed

end
