(* ===== verification/ZbModule.thy ===== *)
theory ZbModule
  imports ZbFirmwareFacts ZbRadioFacts
begin

text \<open>
  The host driver and the module's firmware together, over the serial line: what the driver's \<open>send\<close>
  answers is what happened on the air.
\<close>

section \<open>The driver waits\<close>

lemma radio_deliver_only_security:
  "radio_deliver ecb psdu rssi lqi r = Some (r', evs) \<Longrightarrow> \<exists>s. r' = r\<lparr>cc_security := s\<rparr>"
proof -
  assume d: "radio_deliver ecb psdu rssi lqi r = Some (r', evs)"
  have same: "\<exists>s. r = r\<lparr>cc_security := s\<rparr>" by (rule exI [of _ "cc_security r"]) simp
  have opened: "\<exists>s. r1 = r\<lparr>cc_security := s\<rparr>" if "radio_openNwk ecb npdu r = Some (res, r1)" for npdu res r1
    using radio_openNwk_ok [of ecb npdu r] that by auto
  show ?thesis
    using d same opened unfolding radio_deliver_def Let_def
    by (auto split: if_splits Option.bind_splits prod.splits)
qed

lemma radio_feed_ready: "radio_feed ecb b r = Some (r', evs) \<Longrightarrow> cc_respReady r \<Longrightarrow> cc_respReady r'"
  by (auto simp: radio_feed_def radio_frame_def radio_stash_def Let_def split: if_splits
      dest!: radio_deliver_only_security)

lemma radio_poll_ready: "radio_poll ecb bs r = Some (r', evs) \<Longrightarrow> cc_respReady r \<Longrightarrow> cc_respReady r'"
proof (induction bs arbitrary: r evs)
  case (Cons b bs)
  then obtain r1 ev1 ev2 where f: "radio_feed ecb b r = Some (r1, ev1)" "radio_poll ecb bs r1 = Some (r', ev2)"
    by (auto split: Option.bind_splits)
  show ?case by (rule Cons.IH [OF f(2) radio_feed_ready [OF f(1) Cons.prems(2)]])
qed simp

text \<open>Bytes after which no response is ready are passed over.\<close>

lemma radio_wait_past:
  assumes "radio_poll ecb xs r = Some (r1, evs1)" "\<not> cc_respReady r1"
  shows "radio_waitBytes ecb cmd (xs @ ys) r = do {
     (ok, r2, evs2, rest) \<leftarrow> radio_waitBytes ecb cmd ys r1;
     Some (ok, r2, evs1 @ evs2, rest)
   }"
  using assms(1)
proof (induction xs arbitrary: r evs1)
  case Nil
  then show ?case using Nil by (cases "radio_waitBytes ecb cmd ys r1") (auto split: prod.split)
next
  case (Cons x xs)
  then obtain r0 ev0 ev2 where f: "radio_feed ecb x r = Some (r0, ev0)" "radio_poll ecb xs r0 = Some (r1, ev2)"
      "evs1 = ev0 @ ev2"
    by (auto split: Option.bind_splits)
  have "\<not> cc_respReady r0" using radio_poll_ready [OF f(2)] assms(2) by blast
  then show ?case
    using f Cons.IH [OF f(2)] by (cases "radio_waitBytes ecb cmd ys r1") (auto split: prod.split)
qed

lemma radio_poll_upto:
  assumes "cc_state r = 0" "length (cc_buf r) = 140" "body \<noteq> []" "length body \<le> 140"
  shows "radio_poll ecb (uart_SOF # of_nat (length body) # body) r =
    Some (radio_with body r\<lparr>cc_state := 3\<rparr>, [])"
proof -
  let ?n = "of_nat (length body) :: u8"
  let ?r = "r\<lparr>cc_state := 2, cc_len := length body, cc_idx := 0, cc_fcs := ?n\<rparr>"
  have n: "unat ?n = length body" using assms by simp
  have "length body \<noteq> 0" using assms by simp
  then have head: "radio_poll ecb [uart_SOF, ?n] r = Some (?r, [])"
    using assms by (simp add: radio_feed_def n del: length_0_conv)
  have "radio_poll ecb body ?r = Some (radio_with body r\<lparr>cc_state := 3\<rparr>, [])"
    using radio_poll_body [of ?r body ecb] assms by (simp add: radio_with_def)
  then have "radio_poll ecb ([uart_SOF, ?n] @ body) r = Some (radio_with body r\<lparr>cc_state := 3\<rparr>, [])"
    by (simp only: radio_poll_then [OF head])
  then show ?thesis by simp
qed

text \<open>The awaited response, and a received frame on the way to it.\<close>

lemma radio_wait_response:
  assumes "cc_state r = 0" "length (cc_buf r) = 140" "length data \<le> 139" "\<not> cc_respReady r"
    and "cmd \<notin> {RSP_RX_FRAME, RSP_RESET_IND, RSP_PONG}"
  shows "radio_waitBytes ecb cmd (radio_sendFrame cmd data @ rest) r =
    Some (True, radio_stash cmd (radio_with (cmd # data) r)\<lparr>cc_respReady := False\<rparr>, [], rest)"
proof -
  obtain body where b: "body = cmd # data" by blast
  have l: "body \<noteq> []" "length body \<le> 140" "body ! 0 = cmd" using assms(3) b by simp_all
  let ?c = "xor_all (of_nat (length body)) body"
  let ?r = "radio_with body r\<lparr>cc_state := 3\<rparr>"
  have feed: "radio_feed ecb ?c ?r = Some (radio_stash cmd (radio_with body r), [])"
    using assms(5) l by (simp add: radio_feed_def radio_with_def radio_frame_def nth_append del: append_assoc)
  have ready: "\<not> cc_respReady ?r" using assms(4) by (simp add: radio_with_def)
  have "radio_sendFrame cmd data @ rest = (uart_SOF # of_nat (length body) # body) @ ?c # rest"
    unfolding sendFrame_bytes b by simp
  then have "radio_waitBytes ecb cmd (radio_sendFrame cmd data @ rest) r =
      (do { (ok, r2, evs2, rs) \<leftarrow> radio_waitBytes ecb cmd (?c # rest) ?r; Some (ok, r2, [] @ evs2, rs) })"
    by (simp only: radio_wait_past [OF radio_poll_upto [OF assms(1,2) l(1,2)] ready])
  also have "\<dots> = Some (True, radio_stash cmd (radio_with body r)\<lparr>cc_respReady := False\<rparr>, [], rest)"
    by (simp add: feed radio_stash_def Let_def)
  finally show ?thesis unfolding b .
qed

section \<open>The module transmits\<close>

lemma forward_is_frame:
  assumes "2 \<le> length f"
  shows "fw_forwardRx f = radio_sendFrame RSP_RX_FRAME (f ! (length f - 2) # f ! (length f - 1) # take (length f - 2) f)"
proof -
  have n: "length f - 2 + 2 = length f" "Suc (Suc (length f - 2)) = length f" using assms by simp_all
  show ?thesis by (simp add: fw_forwardRx_def radio_sendFrame_def uart_fcs_def Let_def n xor.assoc)
qed

lemma answer_is_frame: "fw_sendFrame resp data = radio_sendFrame resp data"
  by (simp add: fw_sendFrame_def radio_sendFrame_def uart_fcs_def)

text \<open>The bytes written while a transmission is under way are forwarded frames.\<close>

definition forwarded :: "u8 list \<Rightarrow> bool" where
  "forwarded out \<longleftrightarrow> (\<exists>fs. out = concat (map fw_forwardRx fs) \<and> (\<forall>f\<in>set fs. 2 \<le> length f \<and> length f \<le> 127))"

lemma forwarded_intros [intro]:
  "forwarded []" "forwarded a \<Longrightarrow> forwarded b \<Longrightarrow> forwarded (a @ b)"
  "2 \<le> length f \<Longrightarrow> length f \<le> 127 \<Longrightarrow> forwarded a \<Longrightarrow> forwarded (fw_forwardRx f @ a)"
proof -
  show "forwarded []" by (simp add: forwarded_def exI [of _ "[]"])
  show "forwarded (a @ b)" if ab: "forwarded a" "forwarded b"
  proof -
    obtain fs gs where "a = concat (map fw_forwardRx fs)" "b = concat (map fw_forwardRx gs)"
      "\<forall>f\<in>set fs. 2 \<le> length f \<and> length f \<le> 127" "\<forall>f\<in>set gs. 2 \<le> length f \<and> length f \<le> 127"
      using ab unfolding forwarded_def by blast
    then show ?thesis unfolding forwarded_def by (intro exI [of _ "fs @ gs"]) auto
  qed
  show "forwarded (fw_forwardRx f @ a)" if "2 \<le> length f" "length f \<le> 127" and a: "forwarded a"
  proof -
    obtain fs where "a = concat (map fw_forwardRx fs)" "\<forall>f\<in>set fs. 2 \<le> length f \<and> length f \<le> 127"
      using a unfolding forwarded_def by blast
    then show ?thesis unfolding forwarded_def using that(1,2) by (intro exI [of _ "f # fs"]) auto
  qed
qed

lemma fw_radioRx_size: "fw_radioRx fifo = Some f \<Longrightarrow> length f \<le> 127"
  by (auto simp: fw_radioRx_def not_less word_le_nat_alt split: list.splits if_splits)

lemma fw_waitForAck_out: "forwarded (snd (fw_waitForAck dsn polls))"
  by (induction polls) (auto simp: prod.case_eq_if dest: fw_radioRx_size split: option.split)

lemma fw_passes_out: "fw_passes w psdu len n fr t s = (res, s') \<Longrightarrow> forwarded (tx_output res)"
proof (induction n arbitrary: fr t s res)
  case (Suc n)
  obtain r t1 s1 where c: "fw_csma w psdu len (unat (fw_maxBackoffs s) + 1) (fw_minBe s) t s = (r, t1, s1)"
    by (cases "fw_csma w psdu len (unat (fw_maxBackoffs s) + 1) (fw_minBe s) t s")
  obtain acked out where h: "fw_waitForAck (psdu ! 2) (air_heard w (length (fw_aired s1) - 1)) = (acked, out)"
    by (cases "fw_waitForAck (psdu ! 2) (air_heard w (length (fw_aired s1) - 1))")
  then have out: "forwarded out" using fw_waitForAck_out [of "psdu ! 2" "air_heard w (length (fw_aired s1) - 1)"] by simp
  show ?case
  proof (cases "r = 0 \<and> psdu ! 0 AND 0x20 \<noteq> 0 \<and> \<not> acked")
    case True
    then obtain res1 where run: "fw_passes w psdu len n (fr + 1) t1 s1 = (res1, s')"
        "res = res1\<lparr>tx_output := out @ tx_output res1\<rparr>"
      using Suc.prems c h by (auto split: prod.splits)
    from Suc.IH [OF run(1)] out show ?thesis unfolding run(2) by auto
  next
    case False
    then show ?thesis using Suc.prems c h out by (auto split: if_splits)
  qed
qed auto

text \<open>The driver passes over forwarded frames: it delivers them and waits on.\<close>

lemma radio_past_frame:
  assumes "cc_state r = 0" "radio_ok r" "\<not> cc_respReady r" "2 \<le> length f" "length f \<le> 127"
  shows "\<exists>r1 evs. radio_poll ecb (fw_forwardRx f) r = Some (r1, evs) \<and> cc_state r1 = 0 \<and> radio_ok r1 \<and> \<not> cc_respReady r1"
proof -
  obtain body where b: "body = RSP_RX_FRAME # f ! (length f - 2) # f ! (length f - 1) # take (length f - 2) f" by blast
  have l: "body \<noteq> []" "length body \<le> 140" "3 \<le> length body" "body ! 0 = RSP_RX_FRAME" using assms(4,5) b by simp_all
  let ?r = "radio_with body r"
  have ok: "radio_ok ?r" using assms(2) l by (simp add: radio_ok_def radio_with_def)
  have "radio_poll ecb (fw_forwardRx f) r = radio_frame ecb ?r"
    unfolding forward_is_frame [OF assms(4)] sendFrame_bytes b [symmetric]
    using radio_poll_frame [of r body ecb] assms(1,2) l by (simp add: radio_ok_def del: radio_poll.simps)
  moreover obtain r1 evs where d: "radio_frame ecb ?r = Some (r1, evs)" "radio_ok r1"
    using radio_frame_ok [OF ok, of ecb] unfolding receive_ok_def radio_kept_def by blast
  moreover have "cc_buf ?r ! 0 = RSP_RX_FRAME" "3 \<le> cc_len ?r" using l by (simp_all add: radio_with_def nth_append)
  then have "\<exists>s. r1 = ?r\<lparr>cc_security := s\<rparr>"
    using d(1) by (intro radio_deliver_only_security) (simp add: radio_frame_def Let_def)
  then have "cc_state r1 = 0 \<and> \<not> cc_respReady r1" using assms(1,3) by (auto simp: radio_with_def)
  ultimately show ?thesis by auto
qed

lemma radio_past_forwarded:
  assumes "forwarded out" "cc_state r = 0" "radio_ok r" "\<not> cc_respReady r"
  shows "\<exists>r1 evs. radio_poll ecb out r = Some (r1, evs) \<and> cc_state r1 = 0 \<and> radio_ok r1 \<and> \<not> cc_respReady r1"
proof -
  obtain fs where fs: "out = concat (map fw_forwardRx fs)" "\<forall>f\<in>set fs. 2 \<le> length f \<and> length f \<le> 127"
    using assms(1) unfolding forwarded_def by blast
  have "\<exists>r1 evs. radio_poll ecb (concat (map fw_forwardRx fs)) r = Some (r1, evs) \<and> cc_state r1 = 0 \<and> radio_ok r1 \<and>
      \<not> cc_respReady r1"
    using fs(2) assms(2-4)
  proof (induction fs arbitrary: r)
    case (Cons f fs)
    obtain r1 evs where 1: "radio_poll ecb (fw_forwardRx f) r = Some (r1, evs)" "cc_state r1 = 0" "radio_ok r1"
        "\<not> cc_respReady r1"
      using radio_past_frame [of r f ecb] Cons.prems by auto
    obtain r2 ev2 where "radio_poll ecb (concat (map fw_forwardRx fs)) r1 = Some (r2, ev2)" "cc_state r2 = 0"
        "radio_ok r2" "\<not> cc_respReady r2"
      using Cons.IH [OF _ 1(2-4)] Cons.prems by auto
    with 1(1) show ?case by (simp add: radio_poll_append)
  qed auto
  then show ?thesis unfolding fs(1) .
qed

text \<open>The command frame of \<open>send\<close> and \<open>sendWithRetries\<close>.\<close>

definition send_body :: "u8 option \<Rightarrow> u8 list \<Rightarrow> u8 list" where
  "send_body retries psdu = (case retries of None \<Rightarrow> CMD_TX # psdu | Some n \<Rightarrow> CMD_TX_ADV # n # psdu)"

lemma tx_done_prefix: "3 \<le> length psdu \<Longrightarrow> tx_done w (psdu @ tail) = tx_done w psdu"
  by (cases psdu) (auto simp: tx_done_def fun_eq_iff nth_append)

lemma fw_executes_send:
  assumes "fw_sound s" "fw_macFlags s AND MAC_FLAG_CCA_TX \<noteq> 0" "3 \<le> length psdu" "length psdu \<le> 125"
  shows "\<exists>k res s2. fw_executed w (send_body retries psdu) s =
      (tx_output res @ fw_sendFrame 0x83 [tx_r res, tx_attempts res], s2\<lparr>fw_st := 0\<rparr>) \<and>
    0 < k \<and> k \<le> (unat (fw_maxRetries s) + 1) * (unat (fw_maxBackoffs s) + 1) \<and>
    forwarded (tx_output res) \<and>
    tx_outcome w psdu (length psdu) (unat (fw_maxRetries s) + 1) 0
      (fw_with (send_body retries psdu) (xor_all (of_nat (length (send_body retries psdu))) (send_body retries psdu)) s)
      k res s2"
proof -
  obtain body where b: "body = send_body retries psdu" by blast
  define s1 where "s1 = fw_with body (xor_all (of_nat (length body)) body) s"
  define p where "p = drop (length body - length psdu) (fw_cmd s1)"
  have "take (length psdu) p = psdu"
    by (cases retries) (simp_all add: p_def s1_def fw_with_def b send_body_def)
  then obtain tail where p: "p = psdu @ tail" by (metis append_take_drop_id)
  have s1: "fw_aired s1 = fw_aired s" "fw_maxRetries s1 = fw_maxRetries s" "fw_maxBackoffs s1 = fw_maxBackoffs s"
    "fw_macFlags s1 = fw_macFlags s" "fw_minBe s1 \<le> fw_maxBe s1" "fw_maxBe s1 \<le> 8" "fw_macNoack s1 = fw_macNoack s"
    using assms(1) by (simp_all add: s1_def fw_with_def fw_sound_def fw_tuned_def)
  obtain res s2 where run: "fw_passes w p (length psdu) (unat (fw_maxRetries s1) + 1) 0 0 s1 = (res, s2)"
    by (cases "fw_passes w p (length psdu) (unat (fw_maxRetries s1) + 1) 0 0 s1")
  have tx: "fw_radioTx w p (length psdu) n s1 = (res, s2)" for n
    using run assms(2,4) s1(4) by (simp add: fw_radioTx_def)
  have "fw_command w (fw_cmd s1) (length body) s1 = (tx_output res @ fw_sendFrame 0x83 [tx_r res, tx_attempts res], s2)"
    using tx by (cases retries) (simp_all add: fw_command_def fw_transmit_def p_def s1_def fw_with_def b send_body_def Let_def)
  then have "fw_executed w body s = (tx_output res @ fw_sendFrame 0x83 [tx_r res, tx_attempts res], s2\<lparr>fw_st := 0\<rparr>)"
    by (simp add: fw_executed_def Let_def s1_def)
  moreover from fw_passes_spec [OF run assms(4) s1(5,6)] obtain k where
      "k \<le> (unat (fw_maxRetries s) + 1) * (unat (fw_maxBackoffs s) + 1)" "0 < k"
      "tx_outcome w p (length psdu) (unat (fw_maxRetries s) + 1) 0 s1 k res s2"
    by (auto simp: s1)
  moreover from this(3) have "tx_outcome w psdu (length psdu) (unat (fw_maxRetries s) + 1) 0 s1 k res s2"
    by (simp add: tx_outcome_def p tx_done_prefix assms(3))
  ultimately show ?thesis using fw_passes_out [OF run] unfolding s1_def b by blast
qed

lemma radio_send_answer:
  assumes "forwarded out" "cc_state r = 0" "radio_ok r" "length psdu \<le> 125"
  shows "\<exists>r' evs. snd (radio_send ecb retries psdu (out @ fw_sendFrame RSP_TXSTAT [a, t]) r) = Some (a = 0, r', evs, []) \<and>
    cc_lastTxAttempts r' = t"
proof -
  let ?r = "r\<lparr>cc_respReady := False\<rparr>"
  obtain r1 evs where p: "radio_poll ecb out ?r = Some (r1, evs)" "cc_state r1 = 0" "radio_ok r1" "\<not> cc_respReady r1"
    using radio_past_forwarded [OF assms(1), of ?r ecb] assms(2,3) by (auto simp: radio_ok_def)
  let ?r2 = "radio_stash RSP_TXSTAT (radio_with [RSP_TXSTAT, a, t] r1)\<lparr>cc_respReady := False\<rparr>"
  have "radio_waitBytes ecb RSP_TXSTAT (radio_sendFrame RSP_TXSTAT [a, t] @ []) r1 = Some (True, ?r2, [], [])"
    using p by (intro radio_wait_response) (simp_all add: radio_ok_def)
  then have "radio_waitResp ecb RSP_TXSTAT (out @ fw_sendFrame RSP_TXSTAT [a, t]) r = Some (True, ?r2, evs, [])"
    unfolding radio_waitResp_def by (simp add: answer_is_frame radio_wait_past [OF p(1,4)])
  moreover have "cc_respLen ?r2 = 2"
    by (simp_all add: radio_stash_def radio_with_def Let_def)
  moreover have "cc_respData ?r2 ! 0 = a" "cc_respData ?r2 ! 1 = t"
    by (simp_all add: radio_stash_def radio_with_def Let_def)
  ultimately show ?thesis using assms(4) by (simp add: radio_send_def)
qed

text \<open>C5: A transmission end to end. The driver's command goes over the serial line to the idle module,
  which runs CSMA-CA, waits for the acknowledgement and retransmits; its answer, behind whatever frames
  it received meanwhile, comes back. The driver answers success exactly when the last transmission got
  the channel and, where one was requested, its acknowledgement was heard; each of the transmissions is
  the frame as the driver was given it, none follows a successful one, and the driver learns their
  number. A failure is reported only after the configured tries were all used: the channel was busy
  at back-offs + 1 tries in a row, or the frame went out retries + 1 times unacknowledged.\<close>

theorem transmission_end_to_end:
  assumes "fw_sound s" "fw_st s = 0" "fw_macFlags s AND MAC_FLAG_CCA_TX \<noteq> 0"
    and "radio_ok r" "cc_state r = 0" "3 \<le> length psdu" "length psdu \<le> 125"
    and "fw_main w (map FromHost (fst (radio_send ecb retries psdu answer r))) s = (answer, s')"
  shows "\<exists>k r' evs. let first = length (fw_aired s); success = tx_done w psdu (first + k - 1) in
    snd (radio_send ecb retries psdu answer r) = Some (success, r', evs, []) \<and>
    fw_aired s' = fw_aired s @ replicate k psdu \<and> (\<forall>i. i + 1 < k \<longrightarrow> \<not> tx_done w psdu (first + i)) \<and>
    0 < k \<and> k \<le> (unat (fw_maxRetries s) + 1) * (unat (fw_maxBackoffs s) + 1) \<and>
    (\<not> success \<longrightarrow> tx_gave_up w (unat (fw_maxRetries s) + 1) (unat (fw_maxBackoffs s) + 1) first k) \<and>
    unat (cc_lastTxAttempts r') = min 255 k \<and> fw_st s' = 0"
proof -
  let ?body = "send_body retries psdu"
  let ?s1 = "fw_with ?body (xor_all (of_nat (length ?body)) ?body) s"
  have body: "?body \<noteq> []" "length ?body \<le> 137" using assms(7) by (cases retries; simp add: send_body_def)+
  have "fst (radio_send ecb retries psdu answer r) =
      0xFE # of_nat (length ?body) # ?body @ [xor_all (of_nat (length ?body)) ?body]"
    using assms(7) by (cases retries) (simp_all add: radio_send_def send_body_def sendFrame_bytes)
  then have run: "fw_executed w ?body s = (answer, s')"
    using assms(8) fw_main_frame [OF assms(2) _ body, of w "xor_all (of_nat (length ?body)) ?body"] assms(1)
    by (simp add: fw_sound_def fw_parsing_def del: fw_main.simps list.map)
  from fw_executes_send [OF assms(1,3,6,7), of w retries] obtain k res s2 where k: "0 < k"
      "k \<le> (unat (fw_maxRetries s) + 1) * (unat (fw_maxBackoffs s) + 1)" "forwarded (tx_output res)"
      "tx_outcome w psdu (length psdu) (unat (fw_maxRetries s) + 1) 0 ?s1 k res s2"
      "answer = tx_output res @ fw_sendFrame 0x83 [tx_r res, tx_attempts res]" "s' = s2\<lparr>fw_st := 0\<rparr>"
    unfolding run by auto
  have s1: "fw_aired ?s1 = fw_aired s" "fw_maxBackoffs ?s1 = fw_maxBackoffs s" by (simp_all add: fw_with_def)
  have sent: "fw_aired s2 = fw_aired s @ replicate k psdu"
    using k(4) fw_after_aired s1 unfolding tx_outcome_def Let_def by fastforce
  have o: "tx_r res = 0 \<longleftrightarrow> tx_done w psdu (length (fw_aired s) + k - 1)" "unat (tx_attempts res) = min 255 k"
    "\<forall>i. i + 1 < k \<longrightarrow> \<not> tx_done w psdu (length (fw_aired s) + i)"
    "\<not> tx_done w psdu (length (fw_aired s) + k - 1) \<Longrightarrow>
       tx_gave_up w (unat (fw_maxRetries s) + 1) (unat (fw_maxBackoffs s) + 1) (length (fw_aired s)) k"
    using k(4) k(1) unfolding tx_outcome_def Let_def s1 by auto
  obtain r' evs where "snd (radio_send ecb retries psdu answer r) = Some (tx_r res = 0, r', evs, [])"
      "cc_lastTxAttempts r' = tx_attempts res"
    using radio_send_answer [OF k(3) assms(5,4,7)] k(5) by blast
  then show ?thesis using k(1,2,6) o sent by (intro exI [of _ k] exI [of _ r'] exI [of _ evs]) (simp add: Let_def)
qed

theorem transmission_end_to_end_witness:
  "let w = \<lparr>air_once = (\<lambda>k. k = 1), air_heard = (\<lambda>k. []), air_rssi = (\<lambda>k. 0)\<rparr>;
       s = (snd fw_boot)\<lparr>fw_macFlags := MAC_FLAG_CCA_TX\<rparr>;
       (answer, s') = fw_main w (map FromHost (radio_sendFrame CMD_TX [1, 8, 7])) s
   in \<exists>r' evs. snd (radio_send ecb_example None [1, 8, 7] answer radio_init) = Some (True, r', evs, []) \<and>
        fw_aired s' = [[1, 8, 7], [1, 8, 7]]"
proof -
  let ?w = "\<lparr>air_once = (\<lambda>k. k = 1), air_heard = (\<lambda>k. []), air_rssi = (\<lambda>k. 0)\<rparr> :: air"
  let ?s = "(snd fw_boot)\<lparr>fw_macFlags := MAC_FLAG_CCA_TX\<rparr>"
  let ?psdu = "[1, 8, 7] :: u8 list"
  obtain answer s' where run: "fw_main ?w (map FromHost (radio_sendFrame CMD_TX ?psdu)) ?s = (answer, s')" by fastforce
  have s: "fw_sound ?s" using fw_boot_sound by (simp add: fw_sound_def fw_tuned_def fw_parsing_def)
  have b: "fw_st ?s = 0" "fw_aired ?s = []" "fw_maxRetries ?s = 3" "fw_maxBackoffs ?s = 4"
    by (simp_all add: fw_boot_def fw_setAddress_def fw_radioInit_def fw_applyMac_def Let_def)
  have done1: "tx_done ?w ?psdu k \<longleftrightarrow> k = 1" for k by (simp add: tx_done_def)
  have ok: "radio_ok radio_init" "cc_state radio_init = 0" by (simp_all add: radio_ok_def radio_init_def)
  have "fw_main ?w (map FromHost (fst (radio_send ecb_example None ?psdu answer radio_init))) ?s = (answer, s')"
    using run by (simp add: radio_send_def)
  from transmission_end_to_end [OF s b(1) _ ok _ _ this] obtain k r' evs where
      k: "snd (radio_send ecb_example None ?psdu answer radio_init) = Some (k - 1 = 1, r', evs, [])"
      "fw_aired s' = replicate k ?psdu" "\<forall>i. i + 1 < k \<longrightarrow> i \<noteq> 1" "0 < k" "k - 1 \<noteq> 1 \<longrightarrow> tx_gave_up ?w 4 5 0 k"
    unfolding b(2-4) done1 Let_def by auto
  have "k \<le> 2" using k(3) by (metis Suc_eq_plus1 not_less one_add_one plus_1_eq_Suc)
  moreover have "\<not> tx_gave_up ?w 4 5 0 1" by (simp add: tx_gave_up_def)
  ultimately have "k = 2" using k(4,5) by (cases "k = 1") auto
  then show ?thesis using k(1,2) run by (auto simp: numeral_2_eq_2)
qed

end
