(* ===== verification/ZbPersist.thy ===== *)
theory ZbPersist
  imports ZbRadio ZbNetwork
begin

text \<open>
  \<open>ZigbeePersistence.h\<close>: the network state as a fixed blob with a CRC-16, and the code of the sketch
  \<open>CC2530_BeaconJoin.ino\<close> that saves it to flash and starts from it after a power cycle.

  \<^item> The EEPROM is its list of 64 bytes, as \<open>commit\<close> leaves it.
  \<^item> A power cycle is \<open>setup\<close> on fresh objects; of it the model keeps what it does to the network object,
    the route table and the driver's frame counter. The module commands that follow set the
    module's registers only.
\<close>

section \<open>The blob\<close>

record persistent_state =
  ps_panId :: u16
  ps_extendedPanId :: u64
  ps_channel :: u8
  ps_nwkAddress :: u16
  ps_parentAddress :: u16
  ps_depth :: u8
  ps_deviceType :: u8
  ps_ieeeAddress :: u64
  ps_outgoingFrameCounter :: u32
  ps_keySequence :: u8

definition persistent_state0 :: persistent_state where
  "persistent_state0 = \<lparr>ps_panId = 0, ps_extendedPanId = 0, ps_channel = 0, ps_nwkAddress = 0,
     ps_parentAddress = 0, ps_depth = 0, ps_deviceType = 0, ps_ieeeAddress = 0,
     ps_outgoingFrameCounter = 0, ps_keySequence = 0\<rparr>"

abbreviation (input) "ps_kMagic \<equiv> (0x4E5A4231 :: u32)"
abbreviation (input) "ps_kVersion \<equiv> (1 :: u8)"
abbreviation (input) "ps_kBlobSize \<equiv> (37 :: nat)"

text \<open>CRC-16/CCITT-FALSE.\<close>

definition ps_crcStep :: "u16 \<Rightarrow> u16" where
  "ps_crcStep crc = (if crc AND 0x8000 \<noteq> 0 then push_bit 1 crc XOR 0x1021 else push_bit 1 crc)"

definition ps_crcByte :: "u16 \<Rightarrow> u8 \<Rightarrow> u16" where
  "ps_crcByte crc b = (ps_crcStep ^^ 8) (crc XOR push_bit 8 (ucast b))"

definition ps_crc16 :: "u8 list \<Rightarrow> u16" where
  "ps_crc16 bs = foldl ps_crcByte 0xFFFF bs"

definition ps_fields :: "persistent_state \<Rightarrow> u8 list" where
  "ps_fields s = le32 ps_kMagic @ [ps_kVersion] @ le16 (ps_panId s) @ le64 (ps_extendedPanId s) @ [ps_channel s] @
     le16 (ps_nwkAddress s) @ le16 (ps_parentAddress s) @ [ps_depth s, ps_deviceType s] @
     le64 (ps_ieeeAddress s) @ le32 (ps_outgoingFrameCounter s) @ [ps_keySequence s]"

definition ps_serialize :: "persistent_state \<Rightarrow> out_buf \<Rightarrow> u8 list option" where
  "ps_serialize s out =
     (case out of
        None \<Rightarrow> None
      | Some outMax \<Rightarrow>
          if outMax < ps_kBlobSize then None
          else Some (ps_fields s @ le16 (ps_crc16 (ps_fields s))))"

definition ps_deserialize :: "ptr \<Rightarrow> nat \<Rightarrow> (bool \<times> persistent_state) option" where
  "ps_deserialize p len =
     (case p of
        None \<Rightarrow> Some (False, persistent_state0)
      | Some bs \<Rightarrow>
          if len < ps_kBlobSize then Some (False, persistent_state0)
          else do {
            magic \<leftarrow> rd32 bs 0;
            if magic \<noteq> ps_kMagic then Some (False, persistent_state0)
            else do {
              version \<leftarrow> rd8 bs 4;
              if version \<noteq> ps_kVersion then Some (False, persistent_state0)
              else do {
                storedCrc \<leftarrow> rd16 bs (ps_kBlobSize - 2);
                if ps_crc16 (take (ps_kBlobSize - 2) bs) \<noteq> storedCrc then Some (False, persistent_state0)
                else do {
                  panId \<leftarrow> rd16 bs 5;
                  extendedPanId \<leftarrow> rd64 bs 7;
                  channel \<leftarrow> rd8 bs 15;
                  nwkAddress \<leftarrow> rd16 bs 16;
                  parentAddress \<leftarrow> rd16 bs 18;
                  depth \<leftarrow> rd8 bs 20;
                  deviceType \<leftarrow> rd8 bs 21;
                  ieeeAddress \<leftarrow> rd64 bs 22;
                  outgoingFrameCounter \<leftarrow> rd32 bs 30;
                  keySequence \<leftarrow> rd8 bs 34;
                  Some (True, \<lparr>ps_panId = panId, ps_extendedPanId = extendedPanId, ps_channel = channel,
                    ps_nwkAddress = nwkAddress, ps_parentAddress = parentAddress, ps_depth = depth,
                    ps_deviceType = deviceType, ps_ieeeAddress = ieeeAddress,
                    ps_outgoingFrameCounter = outgoingFrameCounter, ps_keySequence = keySequence\<rparr>)
                }
              }
            }
          })"

section \<open>Saving and starting again\<close>

abbreviation (input) "COUNTER_MARGIN \<equiv> (1024 :: u32)"

definition sk_savedState :: "u64 \<Rightarrow> network \<Rightarrow> u32 \<Rightarrow> u8 \<Rightarrow> persistent_state" where
  "sk_savedState THIS_IEEE net counter keySequence =
     (let info = nw_info net in
      \<lparr>ps_panId = ni_panId info, ps_extendedPanId = ni_extendedPanId info, ps_channel = ni_channel info,
       ps_nwkAddress = ni_nwkAddress info, ps_parentAddress = ni_parentAddress info, ps_depth = ni_depth info,
       ps_deviceType = ni_deviceType info, ps_ieeeAddress = THIS_IEEE,
       ps_outgoingFrameCounter = counter + COUNTER_MARGIN, ps_keySequence = keySequence\<rparr>)"

definition sk_saveState :: "u64 \<Rightarrow> network \<Rightarrow> u32 \<Rightarrow> u8 \<Rightarrow> u8 list \<Rightarrow> u8 list" where
  "sk_saveState THIS_IEEE net counter keySequence eeprom =
     (case ps_serialize (sk_savedState THIS_IEEE net counter keySequence) (Some ps_kBlobSize) of
        None \<Rightarrow> eeprom
      | Some blob \<Rightarrow> blob @ drop ps_kBlobSize eeprom)"

definition sk_loadState :: "u64 \<Rightarrow> u8 list \<Rightarrow> (bool \<times> persistent_state) option" where
  "sk_loadState THIS_IEEE eeprom =
     map_option (\<lambda>(ok, s). (ok \<and> ps_ieeeAddress s = THIS_IEEE, s))
       (ps_deserialize (Some (take ps_kBlobSize eeprom)) ps_kBlobSize)"

text \<open>
  The start of a coordinator, with the constants of the sketch as \<open>coordinator_setup\<close>, and of a device
  that finds its saved state.
\<close>

record coordinator_setup =
  cs_panId :: u16
  cs_extendedPanId :: u64
  cs_channel :: u8
  cs_poolFirst :: u16
  cs_poolLast :: u16

definition sk_startCoordinator ::
  "coordinator_setup \<Rightarrow> bool \<times> persistent_state \<Rightarrow> u32 \<Rightarrow> network \<Rightarrow> radio \<Rightarrow> network \<times> radio"
where
  "sk_startCoordinator cs loaded now net r =
     (case loaded of (haveSaved, saved) \<Rightarrow>
        (nw_permitJoining 0xFF now (nw_configureAddressPool (cs_poolFirst cs) (cs_poolLast cs)
           (nw_beginCoordinator (cs_panId cs) (cs_extendedPanId cs) (cs_channel cs) 0 net)),
         if haveSaved then radio_setSecurityFrameCounter (ps_outgoingFrameCounter saved) r else r))"

definition sk_restoreDevice ::
  "persistent_state \<Rightarrow> u32 \<Rightarrow> network \<Rightarrow> route_table \<Rightarrow> radio \<Rightarrow> network \<times> route_table \<times> radio"
where
  "sk_restoreDevice saved now net routes r =
     (nw_beginJoinedDevice (ps_deviceType saved) (ps_panId saved) (ps_extendedPanId saved) (ps_channel saved)
        (ps_nwkAddress saved) (ps_parentAddress saved) (ps_depth saved) 0 net,
      fst (rt_upsert routes ZB_NWK_ADDR_COORDINATOR (ps_parentAddress saved) ZB_ROUTE_ACTIVE False False now),
      radio_setSecurityFrameCounter (ps_outgoingFrameCounter saved) r)"

end
