(* ===== verification/ZbPersistFacts.thy ===== *)
theory ZbPersistFacts
  imports ZbPersist ZbSecurityFacts ZbNetworkFacts
begin

text \<open>
  The saved state: the blob opens exactly when it is one that was saved, corruption is refused, and
  over any number of power cycles no frame counter is used twice.
\<close>

section \<open>The checksum\<close>

lemma word16_shuffle:
  "(x XOR c) XOR (y XOR c) = x XOR (y :: u16)" "(x XOR c) XOR y = (x XOR y) XOR c" "x XOR (y XOR c) = (x XOR y) XOR c"
  "(x XOR c) XOR c = x"
  by (rule bit_word_eqI; auto simp: bit_simps)+

lemma top_bit: "(x AND 0x8000 \<noteq> 0) = bit (x :: u16) 15"
proof -
  have "x AND 0x8000 = (if bit x 15 then 0x8000 else 0)"
    by (rule bit_word_eqI) (auto simp: bit_simps numeral_eq_Suc less_Suc_eq)
  then show ?thesis by simp
qed

lemma ps_crcStep_xor: "ps_crcStep (a XOR b) = ps_crcStep a XOR ps_crcStep b"
proof -
  have "bit (a XOR b) 15 = (bit a 15 \<noteq> bit b 15)" by (simp add: bit_xor_iff)
  moreover have "push_bit 1 (a XOR b) = push_bit 1 a XOR push_bit 1 b" by (rule push_bit_xor)
  ultimately show ?thesis unfolding ps_crcStep_def top_bit
    by (cases "bit a 15"; cases "bit b 15") (simp_all only: word16_shuffle if_True if_False simp_thms)
qed

lemma ps_crcStep_0 [simp]: "ps_crcStep 0 = 0"
  by (simp add: ps_crcStep_def)

text \<open>The constant sets the bit that the shift clears, so the step can be undone.\<close>

lemma ps_crcStep_eq_0: "ps_crcStep x = 0 \<longleftrightarrow> x = 0"
proof
  assume z: "ps_crcStep x = 0"
  have low: "\<not> bit (push_bit 1 x) 0" unfolding bit_push_bit_iff by simp
  have "bit (0x1021 :: u16) 0" by simp
  then have "bit (push_bit 1 x XOR 0x1021) 0" using low by (simp only: bit_xor_iff simp_thms)
  then have "push_bit 1 x XOR 0x1021 \<noteq> 0" by auto
  with z have e: "\<not> bit x 15" "push_bit 1 x = 0" unfolding ps_crcStep_def top_bit by (auto split: if_splits)
  show "x = 0"
  proof (rule bit_word_eqI)
    fix n assume n: "n < LENGTH(16)"
    have "bit (push_bit 1 x) (Suc n) = bit (0 :: u16) (Suc n)" by (simp only: e(2))
    then have "n < 15 \<Longrightarrow> \<not> bit x n" unfolding bit_push_bit_iff by simp
    then show "bit x n = bit (0 :: u16) n" using e(1) n by (cases "n = 15") auto
  qed
qed simp

lemma ps_steps_xor: "(ps_crcStep ^^ n) (a XOR b) = (ps_crcStep ^^ n) a XOR (ps_crcStep ^^ n) b"
  by (induction n) (simp_all add: ps_crcStep_xor)

lemma ps_steps_eq_0: "(ps_crcStep ^^ n) x = 0 \<longleftrightarrow> x = 0"
  by (induction n) (simp_all add: ps_crcStep_eq_0)

lemma ps_steps_byte: "n \<le> 8 \<Longrightarrow> (ps_crcStep ^^ n) (ucast (y :: u8)) = push_bit n (ucast y)"
proof (induction n)
  case (Suc n)
  have "\<not> bit (push_bit n (ucast y) :: u16) 15"
    using Suc.prems bit_imp_le_length [of y "15 - n"] by (auto simp: bit_simps)
  then show ?case using Suc by (simp add: ps_crcStep_def top_bit)
qed simp

lemma ps_steps_byte_apart:
  assumes "(ps_crcStep ^^ 8) (push_bit 8 (ucast (x :: u8))) = push_bit 8 (ucast (y :: u8))"
  shows "x = 0 \<and> y = 0"
proof -
  have "(ps_crcStep ^^ 8) (push_bit 8 (ucast x) XOR ucast y) = push_bit 8 (ucast y) XOR push_bit 8 (ucast y)"
    unfolding ps_steps_xor using assms ps_steps_byte [of 8 y] by simp
  then have z: "push_bit 8 (ucast x) XOR ucast y = (0 :: u16)" by (simp add: ps_steps_eq_0)
  have "bit (push_bit 8 (ucast x) XOR ucast y :: u16) (n + 8) = bit x n"
    "bit (push_bit 8 (ucast x) XOR ucast y :: u16) n = bit y n" if "n < 8" for n
    using that bit_imp_le_length [of y "n + 8"] by (auto simp: bit_simps)
  then show ?thesis unfolding z by (auto intro!: bit_word_eqI)
qed

lemma ps_crcByte_xor: "ps_crcByte c a XOR ps_crcByte c' a' = (ps_crcStep ^^ 8) ((c XOR c') XOR push_bit 8 (ucast (a XOR a')))"
proof -
  have "(c XOR push_bit 8 (ucast a)) XOR (c' XOR push_bit 8 (ucast a')) = (c XOR c') XOR (push_bit 8 (ucast (a XOR a')) :: u16)"
    by (rule bit_word_eqI) (auto simp: bit_simps)
  then show ?thesis by (simp add: ps_crcByte_def ps_steps_xor [symmetric])
qed

lemma ps_crcByte_inj: "ps_crcByte c a = ps_crcByte c' a \<longleftrightarrow> c = c'"
  using xor_self_eq_0 [of "ps_crcByte c a" "ps_crcByte c' a"] xor_self_eq_0 [of c c']
  by (simp add: ps_crcByte_xor ps_steps_eq_0)

lemma ps_crc_fold_inj: "foldl ps_crcByte c xs = foldl ps_crcByte c' xs \<longleftrightarrow> c = c'"
  by (induction xs arbitrary: c c') (simp_all add: ps_crcByte_inj)

lemma ps_crc_two:
  assumes "ps_crcByte (ps_crcByte c a) b = ps_crcByte (ps_crcByte c a') b'"
  shows "a = a' \<and> b = b'"
proof -
  from assms have "ps_crcByte (ps_crcByte c a) b XOR ps_crcByte (ps_crcByte c a') b' = 0"
    by (simp only: xor_self_eq_0)
  then have "(ps_crcStep ^^ 8) (push_bit 8 (ucast (a XOR a'))) XOR push_bit 8 (ucast (b XOR b')) = 0"
    unfolding ps_crcByte_xor [of "ps_crcByte c a"] ps_steps_eq_0 ps_crcByte_xor [of c] by simp
  then have "(ps_crcStep ^^ 8) (push_bit 8 (ucast (a XOR a'))) = push_bit 8 (ucast (b XOR b'))"
    by (simp only: xor_self_eq_0)
  from ps_steps_byte_apart [OF this] show ?thesis by (simp add: xor_self_eq_0)
qed

lemma ps_burst:
  assumes "ps_crc16 (pre @ [a, b] @ post) = ps_crc16 (pre @ [a', b'] @ post)"
  shows "a = a' \<and> b = b'"
proof -
  have "foldl ps_crcByte (ps_crcByte (ps_crcByte (ps_crc16 pre) a) b) post =
      foldl ps_crcByte (ps_crcByte (ps_crcByte (ps_crc16 pre) a') b') post"
    using assms by (simp add: ps_crc16_def)
  then show ?thesis by (intro ps_crc_two) (simp only: ps_crc_fold_inj)
qed

section \<open>The blob\<close>

definition ps_blob :: "persistent_state \<Rightarrow> u8 list" where
  "ps_blob s = ps_fields s @ le16 (ps_crc16 (ps_fields s))"

lemma length_ps_fields [simp]: "length (ps_fields s) = 35"
  by (simp add: ps_fields_def)

lemma length_ps_blob [simp]: "length (ps_blob s) = 37"
  by (simp add: ps_blob_def)

lemma ps_serialize_blob: "ps_serialize s (Some n) = (if n < 37 then None else Some (ps_blob s))"
  by (simp add: ps_serialize_def ps_blob_def)

lemma ps_reads_back:
  assumes "37 \<le> n"
  shows "ps_deserialize (Some (ps_blob s @ rest)) n = Some (True, s)"
proof -
  have "take 35 (ps_blob s @ rest) = ps_fields s" by (simp add: ps_blob_def)
  moreover have "rd16 (ps_blob s @ rest) 35 = Some (ps_crc16 (ps_fields s))"
    by (simp add: ps_blob_def rd16_skip(1) rd_hit)
  moreover have "ps_blob s @ rest = ps_fields s @ (le16 (ps_crc16 (ps_fields s)) @ rest)" by (simp add: ps_blob_def)
  ultimately show ?thesis
    using assms by (simp add: ps_deserialize_def ps_fields_def wire_simps)
qed

lemma take_chunk: "take (n + m) (drop i bs) = take n (drop i bs) @ take m (drop (i + n) bs)"
  by (simp only: take_add drop_drop add.commute [of n i])

lemma take_one: "i < length bs \<Longrightarrow> take 1 (drop i bs) = [bs ! i]"
  by (simp add: take_Suc_conv_app_nth)

lemma ps_opens_blob:
  assumes "37 \<le> length bs" "37 \<le> n" "ps_deserialize (Some bs) n = Some (True, s)"
  shows "take 37 bs = ps_blob s"
proof -
  let ?f = "\<lambda>i n. take n (drop i bs)"
  have "le_val (?f 0 4) = ps_kMagic" "bs ! 4 = ps_kVersion" "ps_crc16 (take 35 bs) = le_val (?f 35 2)"
    "ps_panId s = le_val (?f 5 2)" "ps_extendedPanId s = le_val (?f 7 8)" "ps_channel s = bs ! 15"
    "ps_nwkAddress s = le_val (?f 16 2)" "ps_parentAddress s = le_val (?f 18 2)" "ps_depth s = bs ! 20"
    "ps_deviceType s = bs ! 21" "ps_ieeeAddress s = le_val (?f 22 8)"
    "ps_outgoingFrameCounter s = le_val (?f 30 4)" "ps_keySequence s = bs ! 34"
    using assms by (auto simp: ps_deserialize_def rd_in split: if_splits)
  note f = this
  have l: "length (?f i k) = k" if "i + k \<le> 37" for i k using that assms(1) by simp
  have fields: "take 35 bs = ps_fields s"
  proof -
    have "take 35 bs = ?f 0 4 @ ?f 4 1 @ ?f 5 2 @ ?f 7 8 @ ?f 15 1 @ ?f 16 2 @ ?f 18 2 @ ?f 20 1 @ ?f 21 1 @
        ?f 22 8 @ ?f 30 4 @ ?f 34 1"
      using take_chunk [of 4 31 0 bs] take_chunk [of 1 30 4 bs] take_chunk [of 2 28 5 bs] take_chunk [of 8 20 7 bs]
        take_chunk [of 1 19 15 bs] take_chunk [of 2 17 16 bs] take_chunk [of 2 15 18 bs] take_chunk [of 1 14 20 bs]
        take_chunk [of 1 13 21 bs] take_chunk [of 8 5 22 bs] take_chunk [of 4 1 30 bs]
      by simp
    moreover have "?f 0 4 = le32 ps_kMagic" using le_val_inv(2) [OF l [of 0 4]] f(1) by simp
    ultimately show ?thesis
      unfolding ps_fields_def using f assms(1) le_val_inv l take_one [of _ bs] by simp
  qed
  have "take 37 bs = take 35 bs @ ?f 35 2" using take_chunk [of 35 2 0 bs] by simp
  then show ?thesis using f(3) le_val_inv(1) [OF l [of 35 2]] unfolding fields ps_blob_def by simp
qed

text \<open>The saved state is read back, and nothing else is: a blob of at least 37 bytes opens to a state
  exactly when its first 37 bytes are what \<open>serialize\<close> writes for that state.\<close>

theorem saved_state_opens_iff:
  assumes "37 \<le> n" "n \<le> length bs"
  shows "ps_deserialize (Some bs) n = Some (True, s) \<longleftrightarrow> ps_serialize s (Some 37) = Some (take 37 bs)"
proof
  assume "ps_deserialize (Some bs) n = Some (True, s)"
  then show "ps_serialize s (Some 37) = Some (take 37 bs)"
    using ps_opens_blob [of bs n s] assms by (simp add: ps_serialize_blob)
next
  assume "ps_serialize s (Some 37) = Some (take 37 bs)"
  then have "bs = ps_blob s @ drop 37 bs" using append_take_drop_id [of 37 bs] by (simp add: ps_serialize_blob)
  with ps_reads_back [OF assms(1)] show "ps_deserialize (Some bs) n = Some (True, s)" by metis
qed

definition ps_example :: persistent_state where
  "ps_example = \<lparr>ps_panId = 0x1A62, ps_extendedPanId = 7, ps_channel = 20, ps_nwkAddress = 3, ps_parentAddress = 0,
     ps_depth = 1, ps_deviceType = 1, ps_ieeeAddress = 9, ps_outgoingFrameCounter = 5000, ps_keySequence = 0\<rparr>"

theorem saved_state_opens_iff_witness:
  "ps_deserialize (ps_serialize ps_example (Some 64)) 37 = Some (True, ps_example)"
proof -
  have "ps_deserialize (Some (ps_blob ps_example)) 37 = Some (True, ps_example)"
    by (subst saved_state_opens_iff) (simp_all add: ps_serialize_blob)
  then show ?thesis by (simp add: ps_serialize_blob)
qed

lemma ps_answers: "37 \<le> length bs \<Longrightarrow> \<exists>ok s. ps_deserialize (Some bs) n = Some (ok, s) \<and> (\<not> ok \<longrightarrow> s = persistent_state0)"
  by (auto simp: ps_deserialize_def rd_in split: if_splits)

lemma update_pair:
  "i + 1 < length xs \<Longrightarrow> xs[i := x, i + 1 := y] = take i xs @ [x, y] @ drop (i + 2) xs"
  by (simp add: upd_conv_take_nth_drop [of i xs] take_Suc_conv_app_nth upd_conv_take_nth_drop list_update_append
      Cons_nth_drop_Suc [symmetric])

text \<open>Corruption of the saved state is refused. When one byte of the blob, or two neighbouring bytes,
  changed while it lay in flash, the start does not take it for a saved state. The one place where
  two neighbouring bytes are not covered is the border between the fields and the checksum, which is
  stored low byte first.\<close>

theorem corrupted_state_refused:
  assumes "ps_serialize s (Some 37) = Some blob" "i + 1 < 37" "i \<noteq> 34" "blob[i := x, i + 1 := y] \<noteq> blob"
  shows "ps_deserialize (Some (blob[i := x, i + 1 := y])) 37 = Some (False, persistent_state0)"
proof (rule ccontr)
  assume r: "\<not> ?thesis"
  let ?b = "blob[i := x, i + 1 := y]"
  let ?f = "ps_fields s"
  let ?c = "le16 (ps_crc16 ?f)"
  have b: "blob = ?f @ ?c" "length blob = 37" using assms(1) by (auto simp: ps_serialize_blob ps_blob_def)
  from r ps_answers [of ?b 37] obtain t where "ps_deserialize (Some ?b) 37 = Some (True, t)"
    using b(2) by auto
  then have t: "?b = ps_fields t @ le16 (ps_crc16 (ps_fields t))"
    using ps_opens_blob [of ?b 37 t] b(2) by (simp add: ps_blob_def)
  show False
  proof (cases "i \<le> 33")
    case True
    then have "?b = ?f[i := x, i + 1 := y] @ ?c" unfolding b by (simp add: list_update_append)
    then have e: "?f[i := x, i + 1 := y] = ps_fields t" "?c = le16 (ps_crc16 (ps_fields t))" using t by simp_all
    have f: "?f = take i ?f @ [?f ! i, ?f ! (i + 1)] @ drop (i + 2) ?f"
      using update_pair [of i ?f "?f ! i" "?f ! (i + 1)"] True by simp
    have "ps_crc16 (ps_fields t) = ps_crc16 ?f" using arg_cong [OF e(2), of "le_val :: _ \<Rightarrow> u16"] by simp
    moreover have u: "ps_fields t = take i ?f @ [x, y] @ drop (i + 2) ?f"
      using update_pair [of i ?f x y] True e(1) by simp
    ultimately have "ps_crc16 (take i ?f @ [x, y] @ drop (i + 2) ?f) =
        ps_crc16 (take i ?f @ [?f ! i, ?f ! (i + 1)] @ drop (i + 2) ?f)"
      using f by simp
    then have "x = ?f ! i \<and> y = ?f ! (i + 1)" by (rule ps_burst)
    then have "?f[i := x, i + 1 := y] = ?f" by (simp add: list_update_id)
    then show False using assms(4) \<open>?b = ?f[i := x, i + 1 := y] @ ?c\<close> b(1) by simp
  next
    case False
    then have "i = 35" using assms(2,3) by simp
    then have "?b = ?f @ [x, y]" unfolding b by (simp add: list_update_append le16_def le_bytes_def upt_rec)
    then have "ps_fields t = ?f" using t by simp
    then show False using assms(4) t b(1) by simp
  qed
qed

theorem corrupted_state_refused_witness:
  "ps_deserialize (Some ((ps_blob ps_example)[30 := 0xFF, 31 := 0xFF])) 37 = Some (False, persistent_state0)"
proof -
  have "(ps_blob ps_example)[30 := 0xFF, 30 + 1 := 0xFF] \<noteq> ps_blob ps_example"
    by (simp add: ps_blob_def ps_fields_def ps_example_def le32_def le64_def le16_def le_bytes_def upt_rec)
  from corrupted_state_refused [OF _ _ _ this, of ps_example] show ?thesis by (simp add: ps_serialize_blob)
qed

section \<open>Power cycles\<close>

text \<open>
  A node: its objects and the EEPROM, which alone survives. \<open>setup\<close> of the node is the constants of its
  sketch; \<open>ns_role\<close> is \<open>None\<close> for a device. Its steps are the transmission of a network frame, the
  periodic save, and the loss of power, after which the sketch starts with fresh objects.
\<close>

record node_setup =
  ns_ieee :: u64
  ns_key :: "u8 list"
  ns_role :: "coordinator_setup option"
  ns_routes :: route_table

record node =
  nd_network :: network
  nd_routes :: route_table
  nd_radio :: radio
  nd_eeprom :: "u8 list"

datatype node_step = Transmit "u8 list" | SaveState | PowerCycle u32

definition nd_boot :: "node_setup \<Rightarrow> u32 \<Rightarrow> u8 list \<Rightarrow> node option" where
  "nd_boot ns now eeprom = do {
     let r0 = radio_attachSecurity (sc_setNetworkKey (ns_key ns) 0 sc_init) (ns_ieee ns) radio_init;
     loaded \<leftarrow> sk_loadState (ns_ieee ns) eeprom;
     Some (case ns_role ns of
        Some cs \<Rightarrow> (let (net, r) = sk_startCoordinator cs loaded now nw_init r0
                    in \<lparr>nd_network = net, nd_routes = ns_routes ns, nd_radio = r, nd_eeprom = eeprom\<rparr>)
      | None \<Rightarrow>
          if fst loaded then
            (let (net, routes, r) = sk_restoreDevice (snd loaded) now nw_init (ns_routes ns) r0
             in \<lparr>nd_network = net, nd_routes = routes, nd_radio = r, nd_eeprom = eeprom\<rparr>)
          else \<lparr>nd_network = nw_init, nd_routes = ns_routes ns, nd_radio = r0, nd_eeprom = eeprom\<rparr>)
   }"

definition nd_save :: "node_setup \<Rightarrow> node \<Rightarrow> node" where
  "nd_save ns nd = nd\<lparr>nd_eeprom := sk_saveState (ns_ieee ns) (nd_network nd) (cc_securityCounter (nd_radio nd))
     (case cc_security (nd_radio nd) of None \<Rightarrow> 0 | Some s \<Rightarrow> sc_keySequence s) (nd_eeprom nd)\<rparr>"

text \<open>The second part of the answer is the frame counters used.\<close>

fun nd_step :: "block_cipher \<Rightarrow> node_setup \<Rightarrow> node_step \<Rightarrow> node \<Rightarrow> (node \<times> u32 list) option" where
  "nd_step ecb ns (Transmit npdu) nd =
     map_option (\<lambda>(res, r). (nd\<lparr>nd_radio := r\<rparr>, [cc_securityCounter r])) (radio_applyTxSecurity ecb npdu (nd_radio nd))"
| "nd_step ecb ns SaveState nd = Some (nd_save ns nd, [])"
| "nd_step ecb ns (PowerCycle now) nd = map_option (\<lambda>nd'. (nd', [])) (nd_boot ns now (nd_eeprom nd))"

primrec nd_run :: "block_cipher \<Rightarrow> node_setup \<Rightarrow> node_step list \<Rightarrow> node \<Rightarrow> (node \<times> u32 list) option" where
  "nd_run ecb ns [] nd = Some (nd, [])"
| "nd_run ecb ns (s # ss) nd = do {
     (nd1, log1) \<leftarrow> nd_step ecb ns s nd;
     (nd2, log2) \<leftarrow> nd_run ecb ns ss nd1;
     Some (nd2, log1 @ log2)
   }"

text \<open>When power is lost, no more frames have been sent since the last save or start than the blob covers: 1024 after a
  save, none after a start. \<open>Some b\<close>: the blob covers \<open>b\<close> more; \<open>None\<close>: more frames were sent than it
  covers. \<open>loop\<close> does not enforce this: it sends before it saves, so that power must not fail in the first pass
  after a start that sends, and it saves by the clock, whatever the number of frames.\<close>

fun saves_in_time :: "nat option \<Rightarrow> node_step list \<Rightarrow> bool" where
  "saves_in_time b [] \<longleftrightarrow> True"
| "saves_in_time None (Transmit npdu # ss) \<longleftrightarrow> saves_in_time None ss"
| "saves_in_time (Some b) (Transmit npdu # ss) \<longleftrightarrow> saves_in_time (if b = 0 then None else Some (b - 1)) ss"
| "saves_in_time b (SaveState # ss) \<longleftrightarrow> saves_in_time (Some 1024) ss"
| "saves_in_time b (PowerCycle now # ss) \<longleftrightarrow> b \<noteq> None \<and> saves_in_time (Some 0) ss"

definition radio_keyed :: "radio \<Rightarrow> bool" where
  "radio_keyed r \<longleftrightarrow> (\<exists>s. cc_security r = Some s \<and> sc_hasKey s)"

lemma sc_secure_keeps_key:
  "sc_secureNpdu ecb npdu h ieee fc out s = Some (res, s') \<Longrightarrow> sc_hasKey s' = sc_hasKey s"
  by (auto simp: sc_secureNpdu_def Let_def split: option.splits if_splits)

lemma tx_counts:
  assumes "radio_keyed r" "radio_applyTxSecurity ecb npdu r = Some (res, r')"
  shows "radio_keyed r' \<and> cc_securityCounter r' = cc_securityCounter r + 1"
  using assms by (auto simp: radio_keyed_def radio_applyTxSecurity_def Let_def split: option.splits if_splits
      dest: sc_secure_keeps_key)

text \<open>The state that the EEPROM holds, as the next start finds it.\<close>

definition nd_saved :: "node_setup \<Rightarrow> node \<Rightarrow> u32 \<Rightarrow> bool" where
  "nd_saved ns nd c \<longleftrightarrow> (\<exists>s. take 37 (nd_eeprom nd) = ps_blob s \<and> ps_ieeeAddress s = ns_ieee ns \<and>
     ps_outgoingFrameCounter s = c)"

lemma take_blob: "take 37 bs = ps_blob s \<Longrightarrow> sk_loadState ieee bs = Some (ps_ieeeAddress s = ieee, s)"
  using ps_reads_back [of 37 s "[]"] by (simp add: sk_loadState_def)

lemma nd_save_saved: "nd_saved ns (nd_save ns nd) (cc_securityCounter (nd_radio nd) + COUNTER_MARGIN)"
  unfolding nd_saved_def nd_save_def
  by (rule exI [of _ "sk_savedState (ns_ieee ns) (nd_network nd) (cc_securityCounter (nd_radio nd))
        (case cc_security (nd_radio nd) of None \<Rightarrow> 0 | Some s \<Rightarrow> sc_keySequence s)"])
    (simp add: sk_saveState_def ps_serialize_blob sk_savedState_def Let_def)

lemma nd_boot_counter:
  assumes "nd_saved ns nd c" "nd_boot ns now (nd_eeprom nd) = Some nd'"
  shows "cc_securityCounter (nd_radio nd') = c \<and> radio_keyed (nd_radio nd') \<and> nd_eeprom nd' = nd_eeprom nd"
proof -
  obtain s where s: "take 37 (nd_eeprom nd) = ps_blob s" "ps_ieeeAddress s = ns_ieee ns" "ps_outgoingFrameCounter s = c"
    using assms(1) unfolding nd_saved_def by blast
  show ?thesis
    using assms(2) take_blob [OF s(1)] s(2,3)
    by (cases "ns_role ns") (auto simp: nd_boot_def sk_startCoordinator_def sk_restoreDevice_def
        radio_setSecurityFrameCounter_def radio_attachSecurity_def radio_keyed_def sc_setNetworkKey_def Let_def)
qed

text \<open>The counters that the steps use: \<open>c\<close> is the driver's, \<open>F\<close> the one in the EEPROM.\<close>

fun nd_counters :: "u32 \<Rightarrow> u32 \<Rightarrow> node_step list \<Rightarrow> u32 list" where
  "nd_counters c F [] = []"
| "nd_counters c F (Transmit npdu # ss) = (c + 1) # nd_counters (c + 1) F ss"
| "nd_counters c F (SaveState # ss) = nd_counters c (c + COUNTER_MARGIN) ss"
| "nd_counters c F (PowerCycle now # ss) = nd_counters F F ss"

lemma nd_step_counters:
  assumes "nd_step ecb ns st nd = Some (nd1, log1)" "radio_keyed (nd_radio nd)" "nd_saved ns nd F"
  shows "\<exists>F1. radio_keyed (nd_radio nd1) \<and> nd_saved ns nd1 F1 \<and>
    (\<forall>ss. nd_counters (cc_securityCounter (nd_radio nd)) F (st # ss) =
      log1 @ nd_counters (cc_securityCounter (nd_radio nd1)) F1 ss)"
proof (cases st)
  case (Transmit npdu)
  obtain res r where r: "radio_applyTxSecurity ecb npdu (nd_radio nd) = Some (res, r)" "nd1 = nd\<lparr>nd_radio := r\<rparr>"
      "log1 = [cc_securityCounter r]"
    using assms(1) Transmit by auto
  show ?thesis
    using tx_counts [OF assms(2) r(1)] r(2,3) assms(3) by (intro exI [of _ F]) (simp add: Transmit nd_saved_def)
next
  case SaveState
  then have nd1: "nd1 = nd_save ns nd" "log1 = []" using assms(1) by simp_all
  have "nd_radio nd1 = nd_radio nd" by (simp add: nd1 nd_save_def)
  then show ?thesis
    using nd_save_saved [of ns nd] assms(2) SaveState nd1
    by (intro exI [of _ "cc_securityCounter (nd_radio nd) + COUNTER_MARGIN"]) simp
next
  case (PowerCycle now)
  then have b: "nd_boot ns now (nd_eeprom nd) = Some nd1" "log1 = []" using assms(1) by auto
  show ?thesis
    using nd_boot_counter [OF assms(3) b(1)] assms(3) b(2) PowerCycle
    by (intro exI [of _ F]) (simp add: nd_saved_def)
qed

lemma nd_run_log:
  assumes "nd_run ecb ns steps nd = Some (nd', log)" "radio_keyed (nd_radio nd)" "nd_saved ns nd F"
  shows "log = nd_counters (cc_securityCounter (nd_radio nd)) F steps"
  using assms
proof (induction steps arbitrary: nd log F)
  case (Cons st steps)
  obtain nd1 log1 log2 where st: "nd_step ecb ns st nd = Some (nd1, log1)" "nd_run ecb ns steps nd1 = Some (nd', log2)"
      "log = log1 @ log2"
    using Cons.prems(1) by (auto split: Option.bind_splits)
  from nd_step_counters [OF st(1) Cons.prems(2,3)] Cons.IH [OF st(2)] st(3) show ?case by metis
qed simp

lemma nd_counters_rise:
  assumes "saves_in_time b steps" "\<forall>k. b = Some k \<longrightarrow> unat c + k \<le> unat F"
    "unat c + 1024 * length steps < 2 ^ 32" "unat F + 1024 * length steps < 2 ^ 32"
  shows "sorted_wrt (<) (nd_counters c F steps) \<and> (\<forall>d\<in>set (nd_counters c F steps). c < d)"
  using assms
proof (induction steps arbitrary: b c F)
  case (Cons st steps)
  show ?case
  proof (cases st)
    case (Transmit npdu)
    have u: "unat (c + 1) = unat c + 1" using Cons.prems(3) by (simp add: unat_word_ariths)
    let ?b = "case b of Some (Suc k) \<Rightarrow> Some k | _ \<Rightarrow> None"
    have s: "saves_in_time ?b steps" using Cons.prems(1) Transmit by (cases b) (auto split: nat.splits if_splits)
    have "sorted_wrt (<) (nd_counters (c + 1) F steps) \<and> (\<forall>d\<in>set (nd_counters (c + 1) F steps). c + 1 < d)"
      using Cons.prems(2-4) u by (intro Cons.IH [OF s]) (auto split: option.splits nat.splits)
    moreover have "c < c + 1" using u by (simp add: word_less_nat_alt)
    ultimately show ?thesis by (auto simp: Transmit intro: less_trans)
  next
    case SaveState
    have u: "unat (c + COUNTER_MARGIN) = unat c + 1024" using Cons.prems(3) by (simp add: unat_word_ariths)
    have s: "saves_in_time (Some 1024) steps" using Cons.prems(1) SaveState by simp
    have "sorted_wrt (<) (nd_counters c (c + COUNTER_MARGIN) steps) \<and>
        (\<forall>d\<in>set (nd_counters c (c + COUNTER_MARGIN) steps). c < d)"
      using Cons.prems(3) u by (intro Cons.IH [OF s]) simp_all
    then show ?thesis by (simp add: SaveState)
  next
    case (PowerCycle now)
    obtain k where k: "b = Some k" "saves_in_time (Some 0) steps" using Cons.prems(1) PowerCycle by auto
    have "sorted_wrt (<) (nd_counters F F steps) \<and> (\<forall>d\<in>set (nd_counters F F steps). F < d)"
      using Cons.prems(4) by (intro Cons.IH [OF k(2)]) simp_all
    moreover have "c \<le> F" using Cons.prems(2) k(1) by (auto simp: word_le_nat_alt)
    ultimately show ?thesis by (auto simp: PowerCycle intro: le_less_trans)
  qed
qed simp

text \<open>No step fails: securing a frame answers for every frame that the builders make.\<close>

lemma tx_answers:
  assumes "radio_nwkHeaderLength npdu \<le> 26" "length npdu \<le> 116"
  shows "radio_applyTxSecurity ecb npdu r \<noteq> None"
  using assms by (auto simp: radio_applyTxSecurity_def sc_secureNpdu_def Let_def split: option.split)

fun fit_step :: "node_step \<Rightarrow> bool" where
  "fit_step (Transmit npdu) \<longleftrightarrow> radio_nwkHeaderLength npdu \<le> 26 \<and> length npdu \<le> 116"
| "fit_step _ \<longleftrightarrow> True"

lemma nd_step_answers:
  assumes "fit_step st" "nd_saved ns nd F"
  shows "nd_step ecb ns st nd \<noteq> None"
  using assms tx_answers take_blob by (cases st) (auto simp: nd_saved_def nd_boot_def Let_def)

lemma nd_run_answers:
  assumes "radio_keyed (nd_radio nd)" "nd_saved ns nd F" "\<forall>st\<in>set steps. fit_step st"
  shows "\<exists>nd'. nd_run ecb ns steps nd = Some (nd', nd_counters (cc_securityCounter (nd_radio nd)) F steps)"
proof -
  have "nd_run ecb ns steps nd \<noteq> None"
    using assms
  proof (induction steps arbitrary: nd F)
    case (Cons st steps)
    obtain nd1 log1 where st: "nd_step ecb ns st nd = Some (nd1, log1)"
      using nd_step_answers [OF _ Cons.prems(2), of st ecb] Cons.prems(3) by fastforce
    obtain F1 where "radio_keyed (nd_radio nd1)" "nd_saved ns nd1 F1"
      using nd_step_counters [OF st Cons.prems(1,2)] by blast
    from Cons.IH [OF this] Cons.prems(3) st show ?case by auto
  qed simp
  then show ?thesis using nd_run_log [OF _ assms(1,2)] by fastforce
qed

text \<open>C10: Frame counters across power cycles. A node saves its state and from then on sends, saves and loses power at
  any times, but never loses power with more frames sent since the last save or start than the blob covers (1024 after a
  save, none after a start; the sketch does not enforce it): it never secures two frames with the same counter. The
  counters only rise, so no nonce is used twice and no receiver takes a frame for a replay.\<close>

theorem counters_survive_power_cycles:
  assumes "radio_keyed (nd_radio nd)" "saves_in_time (Some 1024) steps" "\<forall>st\<in>set steps. fit_step st"
    and "unat (cc_securityCounter (nd_radio nd)) + 1024 * (length steps + 1) < 2 ^ 32"
  shows "\<exists>nd' log. nd_run ecb ns (SaveState # steps) nd = Some (nd', log) \<and> sorted_wrt (<) log \<and>
    (\<forall>c\<in>set log. cc_securityCounter (nd_radio nd) < c)"
proof -
  let ?c = "cc_securityCounter (nd_radio nd)"
  have rad: "nd_radio (nd_save ns nd) = nd_radio nd" by (simp add: nd_save_def)
  have "unat ?c + 1024 < 2 ^ 32" using assms(4) by simp
  then have u: "unat (?c + COUNTER_MARGIN) = unat ?c + 1024" by (simp add: unat_word_ariths)
  obtain nd' where "nd_run ecb ns steps (nd_save ns nd) = Some (nd', nd_counters ?c (?c + COUNTER_MARGIN) steps)"
    using nd_run_answers [OF _ nd_save_saved assms(3), of ns nd ecb] assms(1) rad by auto
  moreover have "sorted_wrt (<) (nd_counters ?c (?c + COUNTER_MARGIN) steps) \<and>
      (\<forall>d\<in>set (nd_counters ?c (?c + COUNTER_MARGIN) steps). ?c < d)"
    using assms(4) u by (intro nd_counters_rise [OF assms(2)]) simp_all
  ultimately show ?thesis by simp
qed

text \<open>The condition is needed: the loop sends before it saves, and a second loss of power in that time
  repeats a counter.\<close>

definition ns_example :: node_setup where
  "ns_example = \<lparr>ns_ieee = 9, ns_key = replicate 16 0, ns_role = None, ns_routes = None\<rparr>"

definition nd_example :: node where
  "nd_example = \<lparr>nd_network = nw_beginJoinedDevice ZB_DEVICE_ROUTER 0x1A62 7 20 3 0 1 0 nw_init, nd_routes = None,
     nd_radio = radio_attachSecurity (sc_setNetworkKey (replicate 16 0) 0 sc_init) 9 radio_init,
     nd_eeprom = replicate 64 0\<rparr>"

definition npdu_example :: "u8 list" where
  "npdu_example = [0x08, 0x00, 0x00, 0x00, 0x03, 0x00, 30, 1, 0xAA]"

lemma nd_example_keyed: "radio_keyed (nd_radio nd_example)" "cc_securityCounter (nd_radio nd_example) = 0"
  by (simp_all add: nd_example_def radio_attachSecurity_def radio_keyed_def sc_setNetworkKey_def radio_init_def)

lemma npdu_example_fits: "fit_step (Transmit npdu_example)"
  by (simp add: npdu_example_def radio_nwkHeaderLength_def Let_def bit_simps)

lemma restart_window_reuses_counter:
  "\<exists>nd'. nd_run ecb_example ns_example
     [SaveState, PowerCycle 0, Transmit npdu_example, PowerCycle 0, Transmit npdu_example] nd_example = Some (nd', [1025, 1025])"
proof -
  have "nd_radio (nd_save ns_example nd_example) = nd_radio nd_example" by (simp add: nd_save_def)
  then have "\<exists>nd'. nd_run ecb_example ns_example [PowerCycle 0, Transmit npdu_example, PowerCycle 0, Transmit npdu_example]
      (nd_save ns_example nd_example) = Some (nd', [1025, 1025])"
    using nd_run_answers [OF _ nd_save_saved, of ns_example nd_example
        "[PowerCycle 0, Transmit npdu_example, PowerCycle 0, Transmit npdu_example]" ecb_example]
      nd_example_keyed npdu_example_fits by simp
  then show ?thesis by auto
qed

theorem counters_survive_power_cycles_witness:
  "\<exists>nd' log. nd_run ecb_example ns_example
     [SaveState, Transmit npdu_example, PowerCycle 0, Transmit npdu_example, SaveState, PowerCycle 0, Transmit npdu_example] nd_example = Some (nd', log) \<and>
     sorted_wrt (<) log"
  using counters_survive_power_cycles [OF nd_example_keyed(1), of "[Transmit npdu_example, PowerCycle 0,
      Transmit npdu_example, SaveState, PowerCycle 0, Transmit npdu_example]" ecb_example ns_example] nd_example_keyed(2) npdu_example_fits
  by auto

text \<open>C34: A power cycle keeps the node's identity. A joined device that saved its state starts, whenever
  power returns, joined to the same network at the same addresses, depth and role, with its default
  route through its parent and with a frame counter past every one it can have used.\<close>

theorem power_cycle_keeps_identity:
  assumes "ns_role ns = None" "rt_wf (ns_routes ns)" "rt_attached (ns_routes ns)"
    and "nw_isRouter (nd_network nd) \<and> ni_state (nw_info (nd_network nd)) = ZB_NWK_STATE_ROUTER \<or>
         nw_isEndDevice (nd_network nd) \<and> ni_state (nw_info (nd_network nd)) = ZB_NWK_STATE_END_DEVICE"
  shows "\<exists>nd'. nd_boot ns now (nd_eeprom (nd_save ns nd)) = Some nd' \<and>
    nw_info (nd_network nd') = (nw_info (nd_network nd))\<lparr>ni_updateId := 0, ni_outgoingFrameCounter := 0\<rparr> \<and>
    rt_at (nd_routes nd') ZB_NWK_ADDR_COORDINATOR =
      Some (rt_entry ZB_NWK_ADDR_COORDINATOR (ni_parentAddress (nw_info (nd_network nd))) ZB_ROUTE_ACTIVE False False now) \<and>
    cc_securityCounter (nd_radio nd') = cc_securityCounter (nd_radio nd) + COUNTER_MARGIN"
proof -
  let ?s = "sk_savedState (ns_ieee ns) (nd_network nd) (cc_securityCounter (nd_radio nd))
    (case cc_security (nd_radio nd) of None \<Rightarrow> 0 | Some s \<Rightarrow> sc_keySequence s)"
  have "take 37 (nd_eeprom (nd_save ns nd)) = ps_blob ?s"
    by (simp add: nd_save_def sk_saveState_def ps_serialize_blob)
  then have l: "sk_loadState (ns_ieee ns) (nd_eeprom (nd_save ns nd)) = Some (True, ?s)"
    using take_blob by (simp add: sk_savedState_def Let_def)
  let ?r0 = "radio_attachSecurity (sc_setNetworkKey (ns_key ns) 0 sc_init) (ns_ieee ns) radio_init"
  obtain net routes r where s: "sk_restoreDevice ?s now nw_init (ns_routes ns) ?r0 = (net, routes, r)"
    by (cases "sk_restoreDevice ?s now nw_init (ns_routes ns) ?r0")
  have "nw_info net = (nw_info (nd_network nd))\<lparr>ni_updateId := 0, ni_outgoingFrameCounter := 0\<rparr>"
    using s assms(4)
    by (auto simp: sk_restoreDevice_def nw_beginJoinedDevice_def sk_savedState_def Let_def network_info0_def
        nw_isRouter_def nw_isEndDevice_def)
  moreover have "rt_at routes ZB_NWK_ADDR_COORDINATOR =
      Some (rt_entry ZB_NWK_ADDR_COORDINATOR (ni_parentAddress (nw_info (nd_network nd))) ZB_ROUTE_ACTIVE False False now)"
    using s rt_upsert_at [OF assms(2,3)] by (auto simp: sk_restoreDevice_def sk_savedState_def Let_def)
  moreover have "cc_securityCounter r = cc_securityCounter (nd_radio nd) + COUNTER_MARGIN"
    using s by (auto simp: sk_restoreDevice_def radio_setSecurityFrameCounter_def sk_savedState_def Let_def)
  ultimately show ?thesis using l assms(1) s by (simp add: nd_boot_def Let_def)
qed

theorem power_cycle_keeps_identity_witness:
  "\<exists>nd'. nd_boot (ns_example\<lparr>ns_routes := Some [route0, route0]\<rparr>) 5
       (nd_eeprom (nd_save (ns_example\<lparr>ns_routes := Some [route0, route0]\<rparr>) nd_example)) = Some nd' \<and>
     ni_nwkAddress (nw_info (nd_network nd')) = 3 \<and> cc_securityCounter (nd_radio nd') = 1024"
proof -
  let ?ns = "ns_example\<lparr>ns_routes := Some [route0, route0]\<rparr>"
  have "rt_wf (ns_routes ?ns)" "rt_attached (ns_routes ?ns)"
    by (simp_all add: rt_wf_def rt_attached_def route0_def slot_uniq_def)
  moreover have "ns_role ?ns = None" by (simp add: ns_example_def)
  moreover have "nw_isRouter (nd_network nd_example) \<and> ni_state (nw_info (nd_network nd_example)) = ZB_NWK_STATE_ROUTER"
    "ni_nwkAddress (nw_info (nd_network nd_example)) = 3"
    by (simp_all add: nd_example_def nw_beginJoinedDevice_def nw_isRouter_def)
  ultimately show ?thesis
    using power_cycle_keeps_identity [of ?ns nd_example 5] nd_example_keyed(2) by auto
qed

end
