(* ===== verification/ZbZdo.thy ===== *)
theory ZbZdo
  imports ZbPrelude
begin

text \<open>
  \<open>ZigbeeZdo.h/.cpp\<close> and \<open>ZigbeeZdoMgmt.h\<close>: the payloads of the Zigbee Device Object: address, endpoint,
  simple-descriptor and match requests with their responses, the device announcement, binding requests,
  the pages of the neighbor and routing tables, and the management commands.

  \<^item> A cluster list is a \<open>uint16_t\<close> pointer with its count; the pointer is the list of 16-bit values readable
    from it. The parsers cast the payload to such a pointer: \<open>u16_view\<close>.
  \<^item> The outer option of a builder is \<open>None\<close> where the code stores outside its output buffer, that of a
    parser where it reads outside the payload.
\<close>

type_synonym ptr16 = "u16 list option"

fun u16_view :: "u8 list \<Rightarrow> u16 list" where
  "u16_view (a # b # bs) = (ucast a OR push_bit 8 (ucast b)) # u16_view bs"
| "u16_view _ = []"

definition le16s :: "ptr16 \<Rightarrow> nat \<Rightarrow> u8 list" where
  "le16s p n = (case p of None \<Rightarrow> [] | Some cs \<Rightarrow> concat (map le16 (take n cs)))"

abbreviation (input) "ZDO_STATUS_SUCCESS \<equiv> (0x00 :: u8)"
abbreviation (input) "ZDO_STATUS_NO_DESCRIPTOR \<equiv> (0x89 :: u8)"

section \<open>Records\<close>

record zdo_address_request =
  za_sequence :: u8
  za_ieeeAddress :: u64
  za_nwkAddress :: u16
  za_requestType :: u8
  za_startIndex :: u8

record zdo_address_response =
  zA_sequence :: u8
  zA_status :: u8
  zA_ieeeAddress :: u64
  zA_nwkAddress :: u16
  zA_associatedDeviceCount :: u8
  zA_startIndex :: u8
  zA_associatedDevices :: ptr16

record zdo_endpoint_request =
  ze_sequence :: u8
  ze_nwkAddress :: u16

text \<open>\<open>ZdoActiveEndpointResponse\<close> and \<open>ZdoMatchDescriptorResponse\<close> have the same members.\<close>

record zdo_endpoint_response =
  zE_sequence :: u8
  zE_status :: u8
  zE_nwkAddress :: u16
  zE_endpointCount :: u8
  zE_endpoints :: ptr

record zdo_simple_descriptor =
  sd_endpoint :: u8
  sd_profileId :: u16
  sd_deviceId :: u16
  sd_deviceVersion :: u8
  sd_inputClusterCount :: u8
  sd_inputClusters :: ptr16
  sd_outputClusterCount :: u8
  sd_outputClusters :: ptr16

record zdo_simple_request =
  zs_sequence :: u8
  zs_nwkAddress :: u16
  zs_endpoint :: u8

record zdo_simple_response =
  zS_sequence :: u8
  zS_status :: u8
  zS_nwkAddress :: u16
  zS_descriptor :: zdo_simple_descriptor

record zdo_match_request =
  zm_sequence :: u8
  zm_nwkAddress :: u16
  zm_profileId :: u16
  zm_inputClusterCount :: u8
  zm_inputClusters :: ptr16
  zm_outputClusterCount :: u8
  zm_outputClusters :: ptr16

record zdo_announce =
  zn_sequence :: u8
  zn_nwkAddress :: u16
  zn_ieeeAddress :: u64
  zn_capability :: u8

record zdo_mgmt_request =
  zg_sequence :: u8
  zg_startIndex :: u8

record zdo_bind_request =
  zb_sequence :: u8
  zb_srcAddress :: u64
  zb_srcEndpoint :: u8
  zb_clusterId :: u16
  zb_dstAddrMode :: u8
  zb_dstGroup :: u16
  zb_dstAddress :: u64
  zb_dstEndpoint :: u8

record zdo_bind_response =
  zB_sequence :: u8
  zB_status :: u8

record zdo_neighbor_entry =
  zl_extendedPanId :: u64
  zl_extendedAddress :: u64
  zl_nwkAddress :: u16
  zl_deviceType :: u8
  zl_rxOnWhenIdle :: u8
  zl_relationship :: u8
  zl_permitJoining :: u8
  zl_depth :: u8
  zl_lqi :: u8

record zdo_routing_entry =
  zt_destinationAddress :: u16
  zt_status :: u8
  zt_memoryConstrained :: bool
  zt_manyToOne :: bool
  zt_routeRecordRequired :: bool
  zt_nextHopAddress :: u16

text \<open>\<open>ZdoMgmtLqiResponse\<close> and \<open>ZdoMgmtRtgResponse\<close>: \<open>zG_entries\<close> is the number of entries of the table.\<close>

record zdo_mgmt_response =
  zG_sequence :: u8
  zG_status :: u8
  zG_entries :: u8
  zG_startIndex :: u8
  zG_listCount :: u8
  zG_list :: ptr

definition zdo_address_request0 :: zdo_address_request where
  "zdo_address_request0 = \<lparr>za_sequence = 0, za_ieeeAddress = 0, za_nwkAddress = 0, za_requestType = 0,
     za_startIndex = 0\<rparr>"

definition zdo_address_response0 :: zdo_address_response where
  "zdo_address_response0 = \<lparr>zA_sequence = 0, zA_status = 0, zA_ieeeAddress = 0, zA_nwkAddress = 0,
     zA_associatedDeviceCount = 0, zA_startIndex = 0, zA_associatedDevices = None\<rparr>"

definition zdo_endpoint_request0 :: zdo_endpoint_request where
  "zdo_endpoint_request0 = \<lparr>ze_sequence = 0, ze_nwkAddress = 0\<rparr>"

definition zdo_endpoint_response0 :: zdo_endpoint_response where
  "zdo_endpoint_response0 = \<lparr>zE_sequence = 0, zE_status = 0, zE_nwkAddress = 0, zE_endpointCount = 0,
     zE_endpoints = None\<rparr>"

definition zdo_simple_descriptor0 :: zdo_simple_descriptor where
  "zdo_simple_descriptor0 = \<lparr>sd_endpoint = 0, sd_profileId = 0, sd_deviceId = 0, sd_deviceVersion = 0,
     sd_inputClusterCount = 0, sd_inputClusters = None, sd_outputClusterCount = 0, sd_outputClusters = None\<rparr>"

definition zdo_simple_request0 :: zdo_simple_request where
  "zdo_simple_request0 = \<lparr>zs_sequence = 0, zs_nwkAddress = 0, zs_endpoint = 0\<rparr>"

definition zdo_simple_response0 :: zdo_simple_response where
  "zdo_simple_response0 = \<lparr>zS_sequence = 0, zS_status = 0, zS_nwkAddress = 0, zS_descriptor = zdo_simple_descriptor0\<rparr>"

definition zdo_match_request0 :: zdo_match_request where
  "zdo_match_request0 = \<lparr>zm_sequence = 0, zm_nwkAddress = 0, zm_profileId = 0, zm_inputClusterCount = 0,
     zm_inputClusters = None, zm_outputClusterCount = 0, zm_outputClusters = None\<rparr>"

definition zdo_announce0 :: zdo_announce where
  "zdo_announce0 = \<lparr>zn_sequence = 0, zn_nwkAddress = 0, zn_ieeeAddress = 0, zn_capability = 0\<rparr>"

definition zdo_mgmt_request0 :: zdo_mgmt_request where
  "zdo_mgmt_request0 = \<lparr>zg_sequence = 0, zg_startIndex = 0\<rparr>"

definition zdo_bind_request0 :: zdo_bind_request where
  "zdo_bind_request0 = \<lparr>zb_sequence = 0, zb_srcAddress = 0, zb_srcEndpoint = 0, zb_clusterId = 0,
     zb_dstAddrMode = 0, zb_dstGroup = 0, zb_dstAddress = 0, zb_dstEndpoint = 0\<rparr>"

definition zdo_bind_response0 :: zdo_bind_response where
  "zdo_bind_response0 = \<lparr>zB_sequence = 0, zB_status = 0\<rparr>"

definition zdo_neighbor_entry0 :: zdo_neighbor_entry where
  "zdo_neighbor_entry0 = \<lparr>zl_extendedPanId = 0, zl_extendedAddress = 0, zl_nwkAddress = 0, zl_deviceType = 0,
     zl_rxOnWhenIdle = 0, zl_relationship = 0, zl_permitJoining = 0, zl_depth = 0, zl_lqi = 0\<rparr>"

definition zdo_routing_entry0 :: zdo_routing_entry where
  "zdo_routing_entry0 = \<lparr>zt_destinationAddress = 0, zt_status = 0, zt_memoryConstrained = False,
     zt_manyToOne = False, zt_routeRecordRequired = False, zt_nextHopAddress = 0\<rparr>"

definition zdo_mgmt_response0 :: zdo_mgmt_response where
  "zdo_mgmt_response0 = \<lparr>zG_sequence = 0, zG_status = 0, zG_entries = 0, zG_startIndex = 0, zG_listCount = 0,
     zG_list = None\<rparr>"

text \<open>Most parsers start alike: a null pointer or a payload shorter than \<open>n\<close> bytes is refused.\<close>

definition zd_parse :: "ptr \<Rightarrow> nat \<Rightarrow> 'r \<Rightarrow> (u8 list \<Rightarrow> (bool \<times> 'r) option) \<Rightarrow> (bool \<times> 'r) option" where
  "zd_parse payload n r0 body =
     (case payload of None \<Rightarrow> Some (False, r0)
      | Some bs \<Rightarrow> if length bs < n then Some (False, r0) else body bs)"

text \<open>A builder of fixed length: 0 for a null or short buffer.\<close>

definition zd_fixed :: "out_buf \<Rightarrow> u8 list \<Rightarrow> u8 list option" where
  "zd_fixed out bs = (case out of None \<Rightarrow> None | Some outMax \<Rightarrow> if outMax < length bs then None else Some bs)"

section \<open>Addresses\<close>

definition zd_buildNwkAddressRequest :: "out_buf \<Rightarrow> u8 \<Rightarrow> u64 \<Rightarrow> u8 \<Rightarrow> u8 \<Rightarrow> u8 list option" where
  "zd_buildNwkAddressRequest out sequence ieeeAddress requestType startIndex =
     zd_fixed out ([sequence] @ le64 ieeeAddress @ [requestType, startIndex])"

definition zd_parseNwkAddressRequest :: "ptr \<Rightarrow> (bool \<times> zdo_address_request) option" where
  "zd_parseNwkAddressRequest payload = zd_parse payload 11 zdo_address_request0 (\<lambda>bs. do {
     sequence \<leftarrow> rd8 bs 0; ieee \<leftarrow> rd64 bs 1; t \<leftarrow> rd8 bs 9; i \<leftarrow> rd8 bs 10;
     Some (True, zdo_address_request0\<lparr>za_sequence := sequence, za_ieeeAddress := ieee, za_requestType := t,
       za_startIndex := i\<rparr>)
   })"

definition zd_buildIeeeAddressRequest :: "out_buf \<Rightarrow> u8 \<Rightarrow> u16 \<Rightarrow> u8 \<Rightarrow> u8 \<Rightarrow> u8 list option" where
  "zd_buildIeeeAddressRequest out sequence nwkAddress requestType startIndex =
     zd_fixed out ([sequence] @ le16 nwkAddress @ [requestType, startIndex])"

definition zd_parseIeeeAddressRequest :: "ptr \<Rightarrow> (bool \<times> zdo_address_request) option" where
  "zd_parseIeeeAddressRequest payload = zd_parse payload 5 zdo_address_request0 (\<lambda>bs. do {
     sequence \<leftarrow> rd8 bs 0; nwk \<leftarrow> rd16 bs 1; t \<leftarrow> rd8 bs 3; i \<leftarrow> rd8 bs 4;
     Some (True, zdo_address_request0\<lparr>za_sequence := sequence, za_nwkAddress := nwk, za_requestType := t,
       za_startIndex := i\<rparr>)
   })"

definition zd_buildAddressResponse ::
  "out_buf \<Rightarrow> u8 \<Rightarrow> u8 \<Rightarrow> u64 \<Rightarrow> u16 \<Rightarrow> ptr16 \<Rightarrow> u8 \<Rightarrow> u8 \<Rightarrow> u8 list option option"
where
  "zd_buildAddressResponse out sequence status ieeeAddress nwkAddress associatedDevices associatedDeviceCount startIndex =
     (let total = 12 + 2 + unat associatedDeviceCount * 2 in
      case out of None \<Rightarrow> Some None | Some outMax \<Rightarrow>
        if outMax < cast8 total then Some None
        else if 0 < associatedDeviceCount \<and> associatedDevices = None then Some None
        else if outMax < total then None
        else Some (Some ([sequence, status] @ le64 ieeeAddress @ le16 nwkAddress @ [associatedDeviceCount, startIndex] @
               le16s associatedDevices (unat associatedDeviceCount))))"

definition zd_parseAddressResponse :: "ptr \<Rightarrow> (bool \<times> zdo_address_response) option" where
  "zd_parseAddressResponse payload = zd_parse payload 12 zdo_address_response0 (\<lambda>bs. do {
     sequence \<leftarrow> rd8 bs 0; status \<leftarrow> rd8 bs 1; ieee \<leftarrow> rd64 bs 2; nwk \<leftarrow> rd16 bs 10;
     let r = zdo_address_response0\<lparr>zA_sequence := sequence, zA_status := status, zA_ieeeAddress := ieee,
       zA_nwkAddress := nwk\<rparr>;
     if 14 \<le> length bs then do {
       count \<leftarrow> rd8 bs 12; startIndex \<leftarrow> rd8 bs 13;
       let r = r\<lparr>zA_associatedDeviceCount := count, zA_startIndex := startIndex\<rparr>;
       if length bs < cast8 (14 + unat count * 2) then Some (False, r)
       else Some (True, r\<lparr>zA_associatedDevices := Some (u16_view (drop 14 bs))\<rparr>)
     } else Some (True, r)
   })"

section \<open>Endpoints\<close>

definition zd_buildActiveEndpointRequest :: "out_buf \<Rightarrow> u8 \<Rightarrow> u16 \<Rightarrow> u8 list option" where
  "zd_buildActiveEndpointRequest out sequence nwkAddress = zd_fixed out ([sequence] @ le16 nwkAddress)"

definition zd_parseActiveEndpointRequest :: "ptr \<Rightarrow> (bool \<times> zdo_endpoint_request) option" where
  "zd_parseActiveEndpointRequest payload = zd_parse payload 3 zdo_endpoint_request0 (\<lambda>bs. do {
     sequence \<leftarrow> rd8 bs 0; nwk \<leftarrow> rd16 bs 1;
     Some (True, \<lparr>ze_sequence = sequence, ze_nwkAddress = nwk\<rparr>)
   })"

definition zd_buildActiveEndpointResponse ::
  "out_buf \<Rightarrow> u8 \<Rightarrow> u8 \<Rightarrow> u16 \<Rightarrow> ptr \<Rightarrow> u8 \<Rightarrow> u8 list option option"
where
  "zd_buildActiveEndpointResponse out sequence status nwkAddress endpoints endpointCount =
     (let total = 5 + unat endpointCount in
      case out of None \<Rightarrow> Some None | Some outMax \<Rightarrow>
        if outMax < cast8 total then Some None
        else if 0 < endpointCount \<and> endpoints = None then Some None
        else if outMax < total then None
        else Some (Some ([sequence, status] @ le16 nwkAddress @ [endpointCount] @ copied endpoints (unat endpointCount))))"

definition zd_parseActiveEndpointResponse :: "ptr \<Rightarrow> (bool \<times> zdo_endpoint_response) option" where
  "zd_parseActiveEndpointResponse payload = zd_parse payload 5 zdo_endpoint_response0 (\<lambda>bs. do {
     sequence \<leftarrow> rd8 bs 0; status \<leftarrow> rd8 bs 1; nwk \<leftarrow> rd16 bs 2; count \<leftarrow> rd8 bs 4;
     let r = zdo_endpoint_response0\<lparr>zE_sequence := sequence, zE_status := status, zE_nwkAddress := nwk,
       zE_endpointCount := count\<rparr>;
     if length bs < cast8 (5 + unat count) then Some (False, r)
     else Some (True, r\<lparr>zE_endpoints := Some (drop 5 bs)\<rparr>)
   })"

section \<open>Simple descriptors\<close>

definition zd_buildSimpleDescriptor :: "out_buf \<Rightarrow> zdo_simple_descriptor \<Rightarrow> u8 list option option" where
  "zd_buildSimpleDescriptor out d =
     (let total = 8 + unat (sd_inputClusterCount d) * 2 + unat (sd_outputClusterCount d) * 2 in
      case out of None \<Rightarrow> Some None | Some outMax \<Rightarrow>
        if outMax < cast8 total then Some None
        else if 0 < sd_inputClusterCount d \<and> sd_inputClusters d = None then Some None
        else if 0 < sd_outputClusterCount d \<and> sd_outputClusters d = None then Some None
        else if outMax < total then None
        else Some (Some ([sd_endpoint d] @ le16 (sd_profileId d) @ le16 (sd_deviceId d) @
               [sd_deviceVersion d AND 0x0F, sd_inputClusterCount d] @
               le16s (sd_inputClusters d) (unat (sd_inputClusterCount d)) @ [sd_outputClusterCount d] @
               le16s (sd_outputClusters d) (unat (sd_outputClusterCount d)))))"

definition zd_parseSimpleDescriptor :: "ptr \<Rightarrow> nat \<Rightarrow> (bool \<times> zdo_simple_descriptor) option" where
  "zd_parseSimpleDescriptor payload len = (case payload of None \<Rightarrow> Some (False, zdo_simple_descriptor0)
   | Some bs \<Rightarrow> if len < 8 then Some (False, zdo_simple_descriptor0) else do {
     endpoint \<leftarrow> rd8 bs 0; profileId \<leftarrow> rd16 bs 1; deviceId \<leftarrow> rd16 bs 3; version \<leftarrow> rd8 bs 5; inCount \<leftarrow> rd8 bs 6;
     let d = zdo_simple_descriptor0\<lparr>sd_endpoint := endpoint, sd_profileId := profileId, sd_deviceId := deviceId,
       sd_deviceVersion := version AND 0x0F, sd_inputClusterCount := inCount\<rparr>;
     if len < cast8 (7 + unat inCount * 2 + 1) then Some (False, d)
     else do {
       let d = d\<lparr>sd_inputClusters := Some (u16_view (drop 7 bs))\<rparr>;
       let idx = cast8 (7 + unat inCount * 2);
       outCount \<leftarrow> rd8 bs idx;
       let d = d\<lparr>sd_outputClusterCount := outCount\<rparr>;
       let idx = cast8 (idx + 1);
       if len < cast8 (idx + unat outCount * 2) then Some (False, d)
       else Some (True, d\<lparr>sd_outputClusters := Some (u16_view (drop idx bs))\<rparr>)
     }
   })"

definition zd_buildSimpleDescriptorRequest :: "out_buf \<Rightarrow> u8 \<Rightarrow> u16 \<Rightarrow> u8 \<Rightarrow> u8 list option" where
  "zd_buildSimpleDescriptorRequest out sequence nwkAddress endpoint =
     zd_fixed out ([sequence] @ le16 nwkAddress @ [endpoint])"

definition zd_parseSimpleDescriptorRequest :: "ptr \<Rightarrow> (bool \<times> zdo_simple_request) option" where
  "zd_parseSimpleDescriptorRequest payload = zd_parse payload 4 zdo_simple_request0 (\<lambda>bs. do {
     sequence \<leftarrow> rd8 bs 0; nwk \<leftarrow> rd16 bs 1; endpoint \<leftarrow> rd8 bs 3;
     Some (True, \<lparr>zs_sequence = sequence, zs_nwkAddress = nwk, zs_endpoint = endpoint\<rparr>)
   })"

definition zd_buildSimpleDescriptorResponse ::
  "out_buf \<Rightarrow> u8 \<Rightarrow> u8 \<Rightarrow> u16 \<Rightarrow> zdo_simple_descriptor option \<Rightarrow> u8 list option option"
where
  "zd_buildSimpleDescriptorResponse out sequence status nwkAddress descriptor =
     (case out of None \<Rightarrow> Some None | Some outMax \<Rightarrow>
        if outMax < 5 then Some None
        else
          let head = [sequence, status] @ le16 nwkAddress in
          case (if status = ZDO_STATUS_SUCCESS then descriptor else None) of
            None \<Rightarrow> Some (Some (head @ [0]))
          | Some d \<Rightarrow> do {
              res \<leftarrow> zd_buildSimpleDescriptor (Some (cast8 (outMax - 5))) d;
              Some (case res of None \<Rightarrow> None | Some bs \<Rightarrow> Some (head @ [of_nat (length bs)] @ bs))
            })"

definition zd_parseSimpleDescriptorResponse :: "ptr \<Rightarrow> (bool \<times> zdo_simple_response) option" where
  "zd_parseSimpleDescriptorResponse payload = zd_parse payload 5 zdo_simple_response0 (\<lambda>bs. do {
     sequence \<leftarrow> rd8 bs 0; status \<leftarrow> rd8 bs 1; nwk \<leftarrow> rd16 bs 2; descLen \<leftarrow> rd8 bs 4;
     let r = zdo_simple_response0\<lparr>zS_sequence := sequence, zS_status := status, zS_nwkAddress := nwk\<rparr>;
     if length bs < cast8 (5 + unat descLen) then Some (False, r)
     else if descLen = 0 then Some (True, r)
     else do {
       (ok, d) \<leftarrow> zd_parseSimpleDescriptor (Some (drop 5 bs)) (unat descLen);
       Some (ok, r\<lparr>zS_descriptor := d\<rparr>)
     }
   })"

section \<open>Match descriptors\<close>

text \<open>The length that the code compares with the buffer is one short of what it writes.\<close>

definition zd_buildMatchDescriptorRequest ::
  "out_buf \<Rightarrow> u8 \<Rightarrow> u16 \<Rightarrow> u16 \<Rightarrow> ptr16 \<Rightarrow> u8 \<Rightarrow> ptr16 \<Rightarrow> u8 \<Rightarrow> u8 list option option"
where
  "zd_buildMatchDescriptorRequest out sequence nwkAddress profileId inputClusters inputClusterCount
       outputClusters outputClusterCount =
     (let n = cast8 (6 + unat inputClusterCount * 2 + unat outputClusterCount * 2);
          total = 7 + unat inputClusterCount * 2 + unat outputClusterCount * 2 in
      case out of None \<Rightarrow> Some None | Some outMax \<Rightarrow>
        if outMax < n then Some None
        else if 0 < inputClusterCount \<and> inputClusters = None then Some None
        else if 0 < outputClusterCount \<and> outputClusters = None then Some None
        else if outMax < total then None
        else Some (Some ([sequence] @ le16 nwkAddress @ le16 profileId @ [inputClusterCount] @
               le16s inputClusters (unat inputClusterCount) @ [outputClusterCount] @
               le16s outputClusters (unat outputClusterCount))))"

definition zd_parseMatchDescriptorRequest :: "ptr \<Rightarrow> (bool \<times> zdo_match_request) option" where
  "zd_parseMatchDescriptorRequest payload = zd_parse payload 6 zdo_match_request0 (\<lambda>bs. do {
     sequence \<leftarrow> rd8 bs 0; nwk \<leftarrow> rd16 bs 1; profileId \<leftarrow> rd16 bs 3; inCount \<leftarrow> rd8 bs 5;
     let r = zdo_match_request0\<lparr>zm_sequence := sequence, zm_nwkAddress := nwk, zm_profileId := profileId,
       zm_inputClusterCount := inCount\<rparr>;
     if length bs < cast8 (6 + unat inCount * 2 + 1) then Some (False, r)
     else do {
       let r = r\<lparr>zm_inputClusters := Some (u16_view (drop 6 bs))\<rparr>;
       let idx = cast8 (6 + unat inCount * 2);
       outCount \<leftarrow> rd8 bs idx;
       let r = r\<lparr>zm_outputClusterCount := outCount\<rparr>;
       let idx = cast8 (idx + 1);
       if length bs < cast8 (idx + unat outCount * 2) then Some (False, r)
       else Some (True, r\<lparr>zm_outputClusters := Some (u16_view (drop idx bs))\<rparr>)
     }
   })"

definition zd_buildMatchDescriptorResponse ::
  "out_buf \<Rightarrow> u8 \<Rightarrow> u8 \<Rightarrow> u16 \<Rightarrow> ptr \<Rightarrow> u8 \<Rightarrow> u8 list option option"
where
  "zd_buildMatchDescriptorResponse out sequence status nwkAddress endpoints endpointCount =
     (let total = 5 + unat endpointCount in
      case out of None \<Rightarrow> Some None | Some outMax \<Rightarrow>
        if outMax < cast8 total then Some None
        else if 0 < endpointCount \<and> endpoints = None then Some None
        else if outMax < total then None
        else Some (Some ([sequence, status] @ le16 nwkAddress @ [endpointCount] @ copied endpoints (unat endpointCount))))"

definition zd_parseMatchDescriptorResponse :: "ptr \<Rightarrow> (bool \<times> zdo_endpoint_response) option" where
  "zd_parseMatchDescriptorResponse payload = zd_parse payload 5 zdo_endpoint_response0 (\<lambda>bs. do {
     sequence \<leftarrow> rd8 bs 0; status \<leftarrow> rd8 bs 1; nwk \<leftarrow> rd16 bs 2; count \<leftarrow> rd8 bs 4;
     let r = zdo_endpoint_response0\<lparr>zE_sequence := sequence, zE_status := status, zE_nwkAddress := nwk,
       zE_endpointCount := count\<rparr>;
     if length bs < cast8 (5 + unat count) then Some (False, r)
     else Some (True, r\<lparr>zE_endpoints := Some (drop 5 bs)\<rparr>)
   })"

section \<open>Device announce and bindings\<close>

definition zd_buildDeviceAnnounce :: "out_buf \<Rightarrow> u8 \<Rightarrow> u16 \<Rightarrow> u64 \<Rightarrow> u8 \<Rightarrow> u8 list option" where
  "zd_buildDeviceAnnounce out sequence nwkAddress ieeeAddress capability =
     zd_fixed out ([sequence] @ le16 nwkAddress @ le64 ieeeAddress @ [capability])"

definition zd_parseDeviceAnnounce :: "ptr \<Rightarrow> (bool \<times> zdo_announce) option" where
  "zd_parseDeviceAnnounce payload = zd_parse payload 12 zdo_announce0 (\<lambda>bs. do {
     sequence \<leftarrow> rd8 bs 0; nwk \<leftarrow> rd16 bs 1; ieee \<leftarrow> rd64 bs 3; capability \<leftarrow> rd8 bs 11;
     Some (True, \<lparr>zn_sequence = sequence, zn_nwkAddress = nwk, zn_ieeeAddress = ieee, zn_capability = capability\<rparr>)
   })"

abbreviation (input) "kBindAddrModeGroup \<equiv> (0x01 :: u8)"
abbreviation (input) "kBindAddrModeIeee \<equiv> (0x03 :: u8)"

definition zd_buildBindRequest :: "out_buf \<Rightarrow> zdo_bind_request \<Rightarrow> u8 list option" where
  "zd_buildBindRequest out r =
     zd_fixed out ([zb_sequence r] @ le64 (zb_srcAddress r) @ [zb_srcEndpoint r] @ le16 (zb_clusterId r) @ [zb_dstAddrMode r] @
       (if zb_dstAddrMode r = kBindAddrModeGroup then le16 (zb_dstGroup r)
        else le64 (zb_dstAddress r) @ [zb_dstEndpoint r]))"

definition zd_parseBindRequest :: "ptr \<Rightarrow> (bool \<times> zdo_bind_request) option" where
  "zd_parseBindRequest payload = zd_parse payload 13 zdo_bind_request0 (\<lambda>bs. do {
     sequence \<leftarrow> rd8 bs 0; src \<leftarrow> rd64 bs 1; srcEndpoint \<leftarrow> rd8 bs 9; cluster \<leftarrow> rd16 bs 10; mode \<leftarrow> rd8 bs 12;
     let r = zdo_bind_request0\<lparr>zb_sequence := sequence, zb_srcAddress := src, zb_srcEndpoint := srcEndpoint,
       zb_clusterId := cluster, zb_dstAddrMode := mode\<rparr>;
     if mode = kBindAddrModeGroup then
       if length bs < 15 then Some (False, r)
       else do { g \<leftarrow> rd16 bs 13; Some (True, r\<lparr>zb_dstGroup := g\<rparr>) }
     else if mode = kBindAddrModeIeee then
       if length bs < 22 then Some (False, r)
       else do { a \<leftarrow> rd64 bs 13; e \<leftarrow> rd8 bs 21; Some (True, r\<lparr>zb_dstAddress := a, zb_dstEndpoint := e\<rparr>) }
     else Some (False, r)
   })"

definition zd_buildBindResponse :: "out_buf \<Rightarrow> u8 \<Rightarrow> u8 \<Rightarrow> u8 list option" where
  "zd_buildBindResponse out sequence status = zd_fixed out [sequence, status]"

definition zd_parseBindResponse :: "ptr \<Rightarrow> (bool \<times> zdo_bind_response) option" where
  "zd_parseBindResponse payload = zd_parse payload 2 zdo_bind_response0 (\<lambda>bs. do {
     sequence \<leftarrow> rd8 bs 0; status \<leftarrow> rd8 bs 1; Some (True, \<lparr>zB_sequence = sequence, zB_status = status\<rparr>)
   })"

section \<open>Pages of the neighbor and routing tables\<close>

definition zd_kNeighborEntryLen :: nat where "zd_kNeighborEntryLen = 22"
definition zd_kRoutingEntryLen :: nat where "zd_kRoutingEntryLen = 5"

definition zd_buildMgmtLqiRequest :: "out_buf \<Rightarrow> u8 \<Rightarrow> u8 \<Rightarrow> u8 list option" where
  "zd_buildMgmtLqiRequest out sequence startIndex = zd_fixed out [sequence, startIndex]"

definition zd_buildMgmtRtgRequest :: "out_buf \<Rightarrow> u8 \<Rightarrow> u8 \<Rightarrow> u8 list option" where
  "zd_buildMgmtRtgRequest out sequence startIndex = zd_buildMgmtLqiRequest out sequence startIndex"

definition zd_parseMgmtRequest :: "ptr \<Rightarrow> (bool \<times> zdo_mgmt_request) option" where
  "zd_parseMgmtRequest payload = zd_parse payload 2 zdo_mgmt_request0 (\<lambda>bs. do {
     sequence \<leftarrow> rd8 bs 0; i \<leftarrow> rd8 bs 1; Some (True, \<lparr>zg_sequence = sequence, zg_startIndex = i\<rparr>)
   })"

definition zd_neighborEntry :: "zdo_neighbor_entry \<Rightarrow> u8 list" where
  "zd_neighborEntry e = le64 (zl_extendedPanId e) @ le64 (zl_extendedAddress e) @ le16 (zl_nwkAddress e) @
     [(zl_deviceType e AND 0x03) OR push_bit 2 (zl_rxOnWhenIdle e AND 0x03) OR push_bit 4 (zl_relationship e AND 0x07),
      zl_permitJoining e AND 0x03, zl_depth e, zl_lqi e]"

definition zd_routingEntry :: "zdo_routing_entry \<Rightarrow> u8 list" where
  "zd_routingEntry e = le16 (zt_destinationAddress e) @
     [(zt_status e AND 0x07) OR (if zt_memoryConstrained e then 0x08 else 0) OR
      (if zt_manyToOne e then 0x10 else 0) OR (if zt_routeRecordRequired e then 0x20 else 0)] @
     le16 (zt_nextHopAddress e)"

text \<open>
  The two page builders: \<open>entries\<close> is the array, \<open>len\<close> the bytes of an entry. The length is a
  \<open>uint16_t\<close> here; the value returned is cut to eight bits.
\<close>

definition zd_buildPage ::
  "nat \<Rightarrow> ('e \<Rightarrow> u8 list) \<Rightarrow> out_buf \<Rightarrow> u8 \<Rightarrow> u8 \<Rightarrow> u8 \<Rightarrow> u8 \<Rightarrow> 'e list option \<Rightarrow> u8 \<Rightarrow> u8 list option"
where
  "zd_buildPage len enc out sequence status tableEntries startIndex entries listCount =
     (case out of None \<Rightarrow> None | Some outMax \<Rightarrow>
        if 0 < listCount \<and> entries = None then None
        else if outMax < 5 + unat listCount * len then None
        else Some ([sequence, status, tableEntries, startIndex, listCount] @
               (case entries of None \<Rightarrow> [] | Some es \<Rightarrow> concat (map enc (take (unat listCount) es)))))"

definition zd_buildMgmtLqiResponse ::
  "out_buf \<Rightarrow> u8 \<Rightarrow> u8 \<Rightarrow> u8 \<Rightarrow> u8 \<Rightarrow> zdo_neighbor_entry list option \<Rightarrow> u8 \<Rightarrow> u8 list option"
where
  "zd_buildMgmtLqiResponse = zd_buildPage zd_kNeighborEntryLen zd_neighborEntry"

definition zd_buildMgmtRtgResponse ::
  "out_buf \<Rightarrow> u8 \<Rightarrow> u8 \<Rightarrow> u8 \<Rightarrow> u8 \<Rightarrow> zdo_routing_entry list option \<Rightarrow> u8 \<Rightarrow> u8 list option"
where
  "zd_buildMgmtRtgResponse = zd_buildPage zd_kRoutingEntryLen zd_routingEntry"

definition zd_parsePage :: "nat \<Rightarrow> ptr \<Rightarrow> (bool \<times> zdo_mgmt_response) option" where
  "zd_parsePage len payload = zd_parse payload 5 zdo_mgmt_response0 (\<lambda>bs. do {
     sequence \<leftarrow> rd8 bs 0; status \<leftarrow> rd8 bs 1; entries \<leftarrow> rd8 bs 2; startIndex \<leftarrow> rd8 bs 3; count \<leftarrow> rd8 bs 4;
     let r = \<lparr>zG_sequence = sequence, zG_status = status, zG_entries = entries, zG_startIndex = startIndex,
       zG_listCount = count, zG_list = None\<rparr>;
     if length bs < 5 + unat count * len then Some (False, r)
     else Some (True, r\<lparr>zG_list := Some (drop 5 bs)\<rparr>)
   })"

definition zd_parseMgmtLqiResponse :: "ptr \<Rightarrow> (bool \<times> zdo_mgmt_response) option" where
  "zd_parseMgmtLqiResponse = zd_parsePage zd_kNeighborEntryLen"

definition zd_parseMgmtRtgResponse :: "ptr \<Rightarrow> (bool \<times> zdo_mgmt_response) option" where
  "zd_parseMgmtRtgResponse = zd_parsePage zd_kRoutingEntryLen"

definition zd_getNeighborListEntry :: "zdo_mgmt_response \<Rightarrow> u8 \<Rightarrow> (bool \<times> zdo_neighbor_entry) option" where
  "zd_getNeighborListEntry r index =
     (case zG_list r of None \<Rightarrow> Some (False, zdo_neighbor_entry0)
      | Some bs \<Rightarrow>
          if index \<ge> zG_listCount r then Some (False, zdo_neighbor_entry0)
          else do {
            let p = unat index * zd_kNeighborEntryLen;
            epid \<leftarrow> rd64 bs p; ieee \<leftarrow> rd64 bs (p + 8); nwk \<leftarrow> rd16 bs (p + 16); bits \<leftarrow> rd8 bs (p + 18);
            permit \<leftarrow> rd8 bs (p + 19); depth \<leftarrow> rd8 bs (p + 20); lqi \<leftarrow> rd8 bs (p + 21);
            Some (True, \<lparr>zl_extendedPanId = epid, zl_extendedAddress = ieee, zl_nwkAddress = nwk,
              zl_deviceType = bits AND 0x03, zl_rxOnWhenIdle = drop_bit 2 bits AND 0x03,
              zl_relationship = drop_bit 4 bits AND 0x07, zl_permitJoining = permit AND 0x03,
              zl_depth = depth, zl_lqi = lqi\<rparr>)
          })"

definition zd_getRoutingListEntry :: "zdo_mgmt_response \<Rightarrow> u8 \<Rightarrow> (bool \<times> zdo_routing_entry) option" where
  "zd_getRoutingListEntry r index =
     (case zG_list r of None \<Rightarrow> Some (False, zdo_routing_entry0)
      | Some bs \<Rightarrow>
          if index \<ge> zG_listCount r then Some (False, zdo_routing_entry0)
          else do {
            let p = unat index * zd_kRoutingEntryLen;
            dst \<leftarrow> rd16 bs p; bits \<leftarrow> rd8 bs (p + 2); hop \<leftarrow> rd16 bs (p + 3);
            Some (True, \<lparr>zt_destinationAddress = dst, zt_status = bits AND 0x07,
              zt_memoryConstrained = (bits AND 0x08 \<noteq> 0), zt_manyToOne = (bits AND 0x10 \<noteq> 0),
              zt_routeRecordRequired = (bits AND 0x20 \<noteq> 0), zt_nextHopAddress = hop\<rparr>)
          })"

section \<open>Management commands\<close>

record node_descriptor =
  zk_logicalType :: u8
  zk_macCapabilityFlags :: u8
  zk_manufacturerCode :: u16
  zk_maxBufferSize :: u8
  zk_maxIncomingTransferSize :: u16
  zk_serverMask :: u16
  zk_maxOutgoingTransferSize :: u16
  zk_descriptorCapability :: u8

definition node_descriptor0 :: node_descriptor where
  "node_descriptor0 = \<lparr>zk_logicalType = 1, zk_macCapabilityFlags = 0, zk_manufacturerCode = 0, zk_maxBufferSize = 0,
     zk_maxIncomingTransferSize = 0, zk_serverMask = 0, zk_maxOutgoingTransferSize = 0, zk_descriptorCapability = 0\<rparr>"

definition zg_buildPermitJoiningRequest :: "out_buf \<Rightarrow> u8 \<Rightarrow> u8 \<Rightarrow> bool \<Rightarrow> u8 list option" where
  "zg_buildPermitJoiningRequest out sequence duration tcSignificance =
     zd_fixed out [sequence, duration, if tcSignificance then 1 else 0]"

definition zg_buildStatusResponse :: "out_buf \<Rightarrow> u8 \<Rightarrow> u8 \<Rightarrow> u8 list option" where
  "zg_buildStatusResponse out sequence status = zd_fixed out [sequence, status]"

text \<open>The parsers with reference outputs answer \<open>None\<close> for \<open>false\<close>, where the outputs keep their values.\<close>

definition zg_parseStatusResponse :: "ptr \<Rightarrow> (u8 \<times> u8) option option" where
  "zg_parseStatusResponse payload =
     (case payload of None \<Rightarrow> Some None
      | Some bs \<Rightarrow> if length bs < 2 then Some None
          else do { sequence \<leftarrow> rd8 bs 0; status \<leftarrow> rd8 bs 1; Some (Some (sequence, status)) })"

definition zg_buildLeaveRequest :: "out_buf \<Rightarrow> u8 \<Rightarrow> u64 \<Rightarrow> bool \<Rightarrow> bool \<Rightarrow> u8 list option" where
  "zg_buildLeaveRequest out sequence deviceIeee removeChildren rejoin =
     zd_fixed out ([sequence] @ le64 deviceIeee @
       [(if removeChildren then 0x40 else 0) OR (if rejoin then 0x80 else 0)])"

definition zg_parseLeaveRequest :: "ptr \<Rightarrow> (u8 \<times> u64 \<times> bool \<times> bool) option option" where
  "zg_parseLeaveRequest payload =
     (case payload of None \<Rightarrow> Some None
      | Some bs \<Rightarrow> if length bs < 10 then Some None
          else do {
            sequence \<leftarrow> rd8 bs 0; ieee \<leftarrow> rd64 bs 1; flags \<leftarrow> rd8 bs 9;
            Some (Some (sequence, ieee, flags AND 0x40 \<noteq> 0, flags AND 0x80 \<noteq> 0))
          })"

definition zg_buildNodeDescRequest :: "out_buf \<Rightarrow> u8 \<Rightarrow> u16 \<Rightarrow> u8 list option" where
  "zg_buildNodeDescRequest out sequence nwkAddr = zd_fixed out ([sequence] @ le16 nwkAddr)"

definition zg_parseNodeDescRequest :: "ptr \<Rightarrow> (u8 \<times> u16) option option" where
  "zg_parseNodeDescRequest payload =
     (case payload of None \<Rightarrow> Some None
      | Some bs \<Rightarrow> if length bs < 3 then Some None
          else do { sequence \<leftarrow> rd8 bs 0; nwk \<leftarrow> rd16 bs 1; Some (Some (sequence, nwk)) })"

definition zg_buildNodeDescResponse :: "out_buf \<Rightarrow> u8 \<Rightarrow> u8 \<Rightarrow> u16 \<Rightarrow> node_descriptor \<Rightarrow> u8 list option" where
  "zg_buildNodeDescResponse out sequence status nwkAddr d =
     zd_fixed out ([sequence, status] @ le16 nwkAddr @ [zk_logicalType d AND 0x07, 0, zk_macCapabilityFlags d] @
       le16 (zk_manufacturerCode d) @ [zk_maxBufferSize d] @ le16 (zk_maxIncomingTransferSize d) @
       le16 (zk_serverMask d) @ le16 (zk_maxOutgoingTransferSize d) @ [zk_descriptorCapability d])"

definition zg_parseNodeDescResponse :: "ptr \<Rightarrow> (u8 \<times> u8 \<times> u16 \<times> node_descriptor) option option" where
  "zg_parseNodeDescResponse payload =
     (case payload of None \<Rightarrow> Some None
      | Some bs \<Rightarrow> if length bs < 17 then Some None
          else do {
            sequence \<leftarrow> rd8 bs 0; status \<leftarrow> rd8 bs 1; nwk \<leftarrow> rd16 bs 2; t \<leftarrow> rd8 bs 4; mac \<leftarrow> rd8 bs 6;
            man \<leftarrow> rd16 bs 7; buf \<leftarrow> rd8 bs 9; inSize \<leftarrow> rd16 bs 10; mask \<leftarrow> rd16 bs 12; outSize \<leftarrow> rd16 bs 14;
            cap \<leftarrow> rd8 bs 16;
            Some (Some (sequence, status, nwk,
              \<lparr>zk_logicalType = t AND 0x07, zk_macCapabilityFlags = mac, zk_manufacturerCode = man,
               zk_maxBufferSize = buf, zk_maxIncomingTransferSize = inSize, zk_serverMask = mask,
               zk_maxOutgoingTransferSize = outSize, zk_descriptorCapability = cap\<rparr>))
          })"

end
