(* ===== verification/ZbDevice.thy ===== *)
theory ZbDevice
  imports ZbZdo
begin

text \<open>
  \<open>ZigbeeDevice.h/.cpp\<close>: the local descriptor store that answers ZDO discovery requests.

  An array with its count is a list: the endpoints of the device, and the clusters of an endpoint. The
  clusters of a request are read through the pointer that the parser made of the payload, so
  those reads are checked.
\<close>

abbreviation (input) "ZDO_NWK_ADDR_REQ \<equiv> (0x0000 :: u16)"
abbreviation (input) "ZDO_IEEE_ADDR_REQ \<equiv> (0x0001 :: u16)"
abbreviation (input) "ZDO_SIMPLE_DESC_REQ \<equiv> (0x0004 :: u16)"
abbreviation (input) "ZDO_ACTIVE_EP_REQ \<equiv> (0x0005 :: u16)"
abbreviation (input) "ZDO_MATCH_DESC_REQ \<equiv> (0x0006 :: u16)"
abbreviation (input) "ZDO_NWK_ADDR_RSP \<equiv> (0x8000 :: u16)"
abbreviation (input) "ZDO_IEEE_ADDR_RSP \<equiv> (0x8001 :: u16)"
abbreviation (input) "ZDO_SIMPLE_DESC_RSP \<equiv> (0x8004 :: u16)"
abbreviation (input) "ZDO_ACTIVE_EP_RSP \<equiv> (0x8005 :: u16)"
abbreviation (input) "ZDO_MATCH_DESC_RSP \<equiv> (0x8006 :: u16)"

record endpoint_descriptor =
  ep_endpoint :: u8
  ep_profileId :: u16
  ep_deviceId :: u16
  ep_deviceVersion :: u8
  ep_inputClusters :: "u16 list"
  ep_outputClusters :: "u16 list"

record device_object =
  dv_ieeeAddress :: u64
  dv_nwkAddress :: u16
  dv_endpoints :: "endpoint_descriptor list"

definition dv_init :: device_object where
  "dv_init = \<lparr>dv_ieeeAddress = 0, dv_nwkAddress = 0xFFFF, dv_endpoints = []\<rparr>"

definition dv_begin :: "u64 \<Rightarrow> u16 \<Rightarrow> endpoint_descriptor list \<Rightarrow> device_object" where
  "dv_begin ieeeAddress nwkAddress endpoints =
     \<lparr>dv_ieeeAddress = ieeeAddress, dv_nwkAddress = nwkAddress, dv_endpoints = endpoints\<rparr>"

definition dv_setNetworkAddress :: "u16 \<Rightarrow> device_object \<Rightarrow> device_object" where
  "dv_setNetworkAddress nwkAddress d = d\<lparr>dv_nwkAddress := nwkAddress\<rparr>"

definition dv_findEndpoint :: "device_object \<Rightarrow> u8 \<Rightarrow> endpoint_descriptor option" where
  "dv_findEndpoint d endpoint = find (\<lambda>e. ep_endpoint e = endpoint) (dv_endpoints d)"

definition dv_containsCluster :: "u16 list \<Rightarrow> u16 \<Rightarrow> bool" where
  "dv_containsCluster clusters clusterId \<longleftrightarrow> clusterId \<in> set clusters"

text \<open>The loop over the clusters of a request, with the indices still to be read.\<close>

definition rd_cluster :: "ptr16 \<Rightarrow> nat \<Rightarrow> u16 option" where
  "rd_cluster p i = (case p of None \<Rightarrow> None | Some cs \<Rightarrow> if i < length cs then Some (cs ! i) else None)"

primrec dv_containsAll :: "u16 list \<Rightarrow> ptr16 \<Rightarrow> nat list \<Rightarrow> bool option" where
  "dv_containsAll own p [] = Some True"
| "dv_containsAll own p (i # is) = do {
     c \<leftarrow> rd_cluster p i;
     if dv_containsCluster own c then dv_containsAll own p is else Some False
   }"

definition dv_endpointMatches ::
  "device_object \<Rightarrow> u8 \<Rightarrow> u16 \<Rightarrow> ptr16 \<Rightarrow> u8 \<Rightarrow> ptr16 \<Rightarrow> u8 \<Rightarrow> bool option"
where
  "dv_endpointMatches d endpoint profileId inputClusters inputClusterCount outputClusters outputClusterCount =
     (case dv_findEndpoint d endpoint of
        None \<Rightarrow> Some False
      | Some desc \<Rightarrow>
          if ep_profileId desc \<noteq> profileId then Some False
          else do {
            ins \<leftarrow> dv_containsAll (ep_inputClusters desc) inputClusters [0..<unat inputClusterCount];
            if ins then dv_containsAll (ep_outputClusters desc) outputClusters [0..<unat outputClusterCount]
            else Some False
          })"

definition dv_toZdoDescriptor :: "endpoint_descriptor \<Rightarrow> zdo_simple_descriptor" where
  "dv_toZdoDescriptor e =
     \<lparr>sd_endpoint = ep_endpoint e, sd_profileId = ep_profileId e, sd_deviceId = ep_deviceId e,
      sd_deviceVersion = ep_deviceVersion e, sd_inputClusterCount = of_nat (length (ep_inputClusters e)),
      sd_inputClusters = Some (ep_inputClusters e),
      sd_outputClusterCount = of_nat (length (ep_outputClusters e)),
      sd_outputClusters = Some (ep_outputClusters e)\<rparr>"

text \<open>The match loop over the endpoints: \<open>matches\<close> holds the endpoints found, at most 16.\<close>

primrec dv_matchLoop ::
  "device_object \<Rightarrow> zdo_match_request \<Rightarrow> endpoint_descriptor list \<Rightarrow> u8 list \<Rightarrow> u8 list option"
where
  "dv_matchLoop d req [] matches = Some matches"
| "dv_matchLoop d req (e # es) matches =
     (if 16 \<le> length matches then Some matches
      else do {
        hit \<leftarrow> dv_endpointMatches d (ep_endpoint e) (zm_profileId req) (zm_inputClusters req)
                 (zm_inputClusterCount req) (zm_outputClusters req) (zm_outputClusterCount req);
        dv_matchLoop d req es (if hit then matches @ [ep_endpoint e] else matches)
      })"

text \<open>
  \<open>handleRequest\<close> answers the response cluster and the response; \<open>None\<close> inside for the value 0.
\<close>

definition dv_handleRequest ::
  "device_object \<Rightarrow> u16 \<Rightarrow> ptr \<Rightarrow> out_buf \<Rightarrow> (u16 \<times> u8 list option) option"
where
  "dv_handleRequest d requestClusterId request out =
     (if out = None then Some (0, None)
      else if requestClusterId = ZDO_IEEE_ADDR_REQ then do {
        (ok, req) \<leftarrow> zd_parseIeeeAddressRequest request;
        if \<not> ok \<or> za_nwkAddress req \<noteq> dv_nwkAddress d then Some (0, None)
        else do {
          res \<leftarrow> zd_buildAddressResponse out (za_sequence req) ZDO_STATUS_SUCCESS (dv_ieeeAddress d)
                   (dv_nwkAddress d) None 0 0;
          Some (ZDO_IEEE_ADDR_RSP, res)
        }
      }
      else if requestClusterId = ZDO_NWK_ADDR_REQ then do {
        (ok, req) \<leftarrow> zd_parseNwkAddressRequest request;
        if \<not> ok \<or> za_ieeeAddress req \<noteq> dv_ieeeAddress d then Some (0, None)
        else do {
          res \<leftarrow> zd_buildAddressResponse out (za_sequence req) ZDO_STATUS_SUCCESS (dv_ieeeAddress d)
                   (dv_nwkAddress d) None 0 0;
          Some (ZDO_NWK_ADDR_RSP, res)
        }
      }
      else if requestClusterId = ZDO_ACTIVE_EP_REQ then do {
        (ok, req) \<leftarrow> zd_parseActiveEndpointRequest request;
        if \<not> ok \<or> ze_nwkAddress req \<noteq> dv_nwkAddress d then Some (0, None)
        else do {
          let endpoints = map ep_endpoint (take 16 (dv_endpoints d));
          res \<leftarrow> zd_buildActiveEndpointResponse out (ze_sequence req) ZDO_STATUS_SUCCESS (dv_nwkAddress d)
                   (Some endpoints) (of_nat (length endpoints));
          Some (ZDO_ACTIVE_EP_RSP, res)
        }
      }
      else if requestClusterId = ZDO_SIMPLE_DESC_REQ then do {
        (ok, req) \<leftarrow> zd_parseSimpleDescriptorRequest request;
        if \<not> ok \<or> zs_nwkAddress req \<noteq> dv_nwkAddress d then Some (0, None)
        else do {
          res \<leftarrow> (case dv_findEndpoint d (zs_endpoint req) of
                    None \<Rightarrow> zd_buildSimpleDescriptorResponse out (zs_sequence req) ZDO_STATUS_NO_DESCRIPTOR
                              (dv_nwkAddress d) None
                  | Some e \<Rightarrow> zd_buildSimpleDescriptorResponse out (zs_sequence req) ZDO_STATUS_SUCCESS
                              (dv_nwkAddress d) (Some (dv_toZdoDescriptor e)));
          Some (ZDO_SIMPLE_DESC_RSP, res)
        }
      }
      else if requestClusterId = ZDO_MATCH_DESC_REQ then do {
        (ok, req) \<leftarrow> zd_parseMatchDescriptorRequest request;
        if \<not> ok \<or> zm_nwkAddress req \<noteq> dv_nwkAddress d then Some (0, None)
        else do {
          matches \<leftarrow> dv_matchLoop d req (dv_endpoints d) [];
          res \<leftarrow> zd_buildMatchDescriptorResponse out (zm_sequence req) ZDO_STATUS_SUCCESS (dv_nwkAddress d)
                   (Some matches) (of_nat (length matches));
          Some (ZDO_MATCH_DESC_RSP, res)
        }
      }
      else Some (0, None))"

end
