(* ===== verification/ZbZdoFacts.thy ===== *)
theory ZbZdoFacts
  imports ZbDevice
begin

text \<open>
  Service discovery: what a device answers, read by the requester's parsers, is its descriptors; the
  payloads of bindings and announcements round trip; the pages of the tables cover them.
\<close>

lemmas zd_lens [simp] = zd_kNeighborEntryLen_def zd_kRoutingEntryLen_def

section \<open>Cluster lists\<close>

lemma u16_view_le16: "u16_view (le16 c @ bs) = c # u16_view bs"
proof -
  have b: "le16 c = [ucast c, ucast (drop_bit 8 c)]"
    by (simp add: le16_def le_bytes_def upt_rec)
  have "ucast (ucast c :: u8) OR push_bit 8 (ucast (ucast (drop_bit 8 c) :: u8)) = c"
    by (rule bit_word_eqI) (auto simp: bit_simps)
  then show ?thesis by (simp add: b)
qed

lemma u16_view_le16s: "u16_view (concat (map le16 cs) @ bs) = cs @ u16_view bs"
  by (induction cs) (simp_all add: u16_view_le16)

lemma le16s_all: "n = length cs \<Longrightarrow> le16s (Some cs) n = concat (map le16 cs)"
  by (simp add: le16s_def)

lemma containsAll_iff:
  "p = Some (cs @ rest) \<Longrightarrow> dv_containsAll own p [k..<length cs] = Some (set (drop k cs) \<subseteq> set own)"
proof (induction "length cs - k" arbitrary: k)
  case (Suc n)
  then have k: "k < length cs" by simp
  have "dv_containsAll own p [Suc k..<length cs] = Some (set (drop (Suc k) cs) \<subseteq> set own)"
    using Suc by simp
  moreover have "drop k cs = cs ! k # drop (Suc k) cs" using k by (rule Cons_nth_drop_Suc [symmetric])
  moreover have "rd_cluster p k = Some (cs ! k)" using k Suc.prems by (simp add: rd_cluster_def nth_append)
  ultimately show ?case using k by (auto simp: upt_conv_Cons dv_containsCluster_def)
qed simp

lemma drop_at: "length pre = n \<Longrightarrow> drop n (pre @ bs) = bs"
  by auto

lemma rd8_at: "length pre = n \<Longrightarrow> rd8 (pre @ b # bs) n = Some b"
  by (auto simp: rd8_def)

section \<open>Requests and answers\<close>

lemma active_request: "zd_parseActiveEndpointRequest (zd_buildActiveEndpointRequest (Some 96) seq nwk) =
    Some (True, \<lparr>ze_sequence = seq, ze_nwkAddress = nwk\<rparr>)"
  by (simp add: zd_parseActiveEndpointRequest_def zd_buildActiveEndpointRequest_def zd_fixed_def zd_parse_def wire_simps)

lemma simple_request: "zd_parseSimpleDescriptorRequest (zd_buildSimpleDescriptorRequest (Some 96) seq nwk ep) =
    Some (True, \<lparr>zs_sequence = seq, zs_nwkAddress = nwk, zs_endpoint = ep\<rparr>)"
  by (simp add: zd_parseSimpleDescriptorRequest_def zd_buildSimpleDescriptorRequest_def zd_fixed_def zd_parse_def wire_simps)

lemma match_request:
  assumes "7 + length ins * 2 + length outs * 2 \<le> 96"
  shows "\<exists>bs. zd_buildMatchDescriptorRequest (Some 96) seq nwk prof (Some ins) (of_nat (length ins)) (Some outs)
      (of_nat (length outs)) = Some (Some bs) \<and>
    zd_parseMatchDescriptorRequest (Some bs) = Some (True, \<lparr>zm_sequence = seq, zm_nwkAddress = nwk, zm_profileId = prof,
      zm_inputClusterCount = of_nat (length ins),
      zm_inputClusters = Some (ins @ u16_view (of_nat (length outs) # concat (map le16 outs))),
      zm_outputClusterCount = of_nat (length outs), zm_outputClusters = Some outs\<rparr>)"
proof -
  have c: "unat (of_nat (length ins) :: u8) = length ins" "unat (of_nat (length outs) :: u8) = length outs"
    using assms by simp_all
  let ?bs = "[seq] @ le16 nwk @ le16 prof @ [of_nat (length ins)] @ concat (map le16 ins) @ [of_nat (length outs)] @
    concat (map le16 outs)"
  let ?pre = "[seq] @ le16 nwk @ le16 prof @ [of_nat (length ins)] @ concat (map le16 ins)"
  have d: "drop (7 + length ins * 2) ?bs = concat (map le16 outs)"
    using drop_at [of "?pre @ [of_nat (length outs)]" "7 + length ins * 2" "concat (map le16 outs)"] by simp
  have r: "rd8 ?bs (6 + length ins * 2) = Some (of_nat (length outs))"
    using rd8_at [of ?pre "6 + length ins * 2"] by simp
  have b: "zd_buildMatchDescriptorRequest (Some 96) seq nwk prof (Some ins) (of_nat (length ins)) (Some outs)
      (of_nat (length outs)) = Some (Some ?bs)"
    using assms by (simp add: zd_buildMatchDescriptorRequest_def Let_def c le16s_all)
  have "zd_parseMatchDescriptorRequest (Some ?bs) = Some (True, \<lparr>zm_sequence = seq, zm_nwkAddress = nwk, zm_profileId = prof,
      zm_inputClusterCount = of_nat (length ins),
      zm_inputClusters = Some (ins @ u16_view (of_nat (length outs) # concat (map le16 outs))),
      zm_outputClusterCount = of_nat (length outs), zm_outputClusters = Some outs\<rparr>)"
    using assms u16_view_le16s [of outs "[]"] d r
    by (simp add: zd_parseMatchDescriptorRequest_def zd_parse_def zdo_match_request0_def wire_simps c u16_view_le16s
        mult.commute)
  then show ?thesis using b by blast
qed

text \<open>A device whose descriptors fit into the answers.\<close>

definition dv_ok :: "device_object \<Rightarrow> bool" where
  "dv_ok d \<longleftrightarrow> length (dv_endpoints d) \<le> 16 \<and> distinct (map ep_endpoint (dv_endpoints d)) \<and>
     (\<forall>e\<in>set (dv_endpoints d). ep_deviceVersion e < 16 \<and>
        13 + length (ep_inputClusters e) * 2 + length (ep_outputClusters e) * 2 \<le> 96)"

lemma dv_findEndpoint_in:
  assumes "dv_ok d" "e \<in> set (dv_endpoints d)"
  shows "dv_findEndpoint d (ep_endpoint e) = Some e"
proof -
  obtain x where x: "find (\<lambda>x. ep_endpoint x = ep_endpoint e) (dv_endpoints d) = Some x"
    using assms(2) by (metis (mono_tags, lifting) find_None_iff not_None_eq)
  then have "x \<in> set (dv_endpoints d)" "ep_endpoint x = ep_endpoint e" by (auto simp: find_Some_iff)
  then have "x = e" using assms by (auto simp: dv_ok_def distinct_map inj_on_def)
  then show ?thesis using x by (simp add: dv_findEndpoint_def)
qed

lemma active_answer:
  assumes "dv_ok d"
  shows "\<exists>rsp. dv_handleRequest d ZDO_ACTIVE_EP_REQ (zd_buildActiveEndpointRequest (Some 96) seq (dv_nwkAddress d)) (Some 96) =
      Some (ZDO_ACTIVE_EP_RSP, Some rsp) \<and>
    zd_parseActiveEndpointResponse (Some rsp) = Some (True, \<lparr>zE_sequence = seq, zE_status = ZDO_STATUS_SUCCESS,
      zE_nwkAddress = dv_nwkAddress d, zE_endpointCount = of_nat (length (dv_endpoints d)),
      zE_endpoints = Some (map ep_endpoint (dv_endpoints d))\<rparr>)"
proof -
  let ?eps = "map ep_endpoint (dv_endpoints d)"
  let ?rsp = "[seq, ZDO_STATUS_SUCCESS] @ le16 (dv_nwkAddress d) @ [of_nat (length ?eps)] @ ?eps"
  have l: "length (dv_endpoints d) \<le> 16" using assms by (simp add: dv_ok_def)
  then have c: "unat (of_nat (length (dv_endpoints d)) :: u8) = length (dv_endpoints d)" by simp
  have "zd_buildActiveEndpointResponse (Some 96) seq ZDO_STATUS_SUCCESS (dv_nwkAddress d) (Some ?eps)
      (of_nat (length ?eps)) = Some (Some ?rsp)"
    using l by (simp add: zd_buildActiveEndpointResponse_def Let_def c copied_def)
  then have "dv_handleRequest d ZDO_ACTIVE_EP_REQ (zd_buildActiveEndpointRequest (Some 96) seq (dv_nwkAddress d)) (Some 96) =
      Some (ZDO_ACTIVE_EP_RSP, Some ?rsp)"
    using l by (simp add: dv_handleRequest_def active_request)
  moreover have "zd_parseActiveEndpointResponse (Some ?rsp) = Some (True, \<lparr>zE_sequence = seq,
      zE_status = ZDO_STATUS_SUCCESS, zE_nwkAddress = dv_nwkAddress d, zE_endpointCount = of_nat (length (dv_endpoints d)),
      zE_endpoints = Some ?eps\<rparr>)"
    using l by (simp add: zd_parseActiveEndpointResponse_def zd_parse_def zdo_endpoint_response0_def wire_simps c)
  ultimately show ?thesis by blast
qed

lemma simple_descriptor_roundtrip:
  assumes "ep_deviceVersion e < 16" "13 + length (ep_inputClusters e) * 2 + length (ep_outputClusters e) * 2 \<le> 96"
  shows "\<exists>bs rest. zd_buildSimpleDescriptor (Some 91) (dv_toZdoDescriptor e) = Some (Some bs) \<and>
    length bs = 8 + length (ep_inputClusters e) * 2 + length (ep_outputClusters e) * 2 \<and>
    zd_parseSimpleDescriptor (Some bs) (length bs) = Some (True, (dv_toZdoDescriptor e)\<lparr>
      sd_inputClusters := Some (ep_inputClusters e @ rest)\<rparr>)"
proof -
  let ?i = "ep_inputClusters e" and ?o = "ep_outputClusters e"
  have c: "unat (of_nat (length ?i) :: u8) = length ?i" "unat (of_nat (length ?o) :: u8) = length ?o"
    using assms by simp_all
  let ?pre = "[ep_endpoint e] @ le16 (ep_profileId e) @ le16 (ep_deviceId e) @
    [ep_deviceVersion e, of_nat (length ?i)] @ concat (map le16 ?i)"
  let ?bs = "?pre @ [of_nat (length ?o)] @ concat (map le16 ?o)"
  have v: "ep_deviceVersion e AND 0x0F = ep_deviceVersion e"
  proof -
    have "take_bit 4 (ep_deviceVersion e) = ep_deviceVersion e"
      using assms(1) by (intro take_bit_small) (simp add: word_less_nat_alt)
    then show ?thesis by (simp add: take_bit_eq_mask mask_eq_exp_minus_1)
  qed
  have d: "drop (8 + length ?i * 2) ?bs = concat (map le16 ?o)"
    using drop_at [of "?pre @ [of_nat (length ?o)]" "8 + length ?i * 2" "concat (map le16 ?o)"] by simp
  have r: "rd8 ?bs (7 + length ?i * 2) = Some (of_nat (length ?o))"
    using rd8_at [of ?pre "7 + length ?i * 2"] by simp
  have b: "zd_buildSimpleDescriptor (Some 91) (dv_toZdoDescriptor e) = Some (Some ?bs)"
    using assms by (simp add: zd_buildSimpleDescriptor_def dv_toZdoDescriptor_def Let_def c le16s_all v)
  have "zd_parseSimpleDescriptor (Some ?bs) (length ?bs) = Some (True, (dv_toZdoDescriptor e)\<lparr>
      sd_inputClusters := Some (?i @ u16_view (of_nat (length ?o) # concat (map le16 ?o)))\<rparr>)"
    using assms u16_view_le16s [of ?o "[]"] d r
    by (simp add: zd_parseSimpleDescriptor_def zdo_simple_descriptor0_def wire_simps c v
        u16_view_le16s dv_toZdoDescriptor_def mult.commute)
  moreover have "length ?bs = 8 + length ?i * 2 + length ?o * 2" by simp
  ultimately show ?thesis using b by blast
qed

lemma simple_answer:
  assumes "dv_ok d" "e \<in> set (dv_endpoints d)"
  shows "\<exists>rsp rest. dv_handleRequest d ZDO_SIMPLE_DESC_REQ
      (zd_buildSimpleDescriptorRequest (Some 96) seq (dv_nwkAddress d) (ep_endpoint e)) (Some 96) =
      Some (ZDO_SIMPLE_DESC_RSP, Some rsp) \<and>
    zd_parseSimpleDescriptorResponse (Some rsp) = Some (True, \<lparr>zS_sequence = seq, zS_status = ZDO_STATUS_SUCCESS,
      zS_nwkAddress = dv_nwkAddress d,
      zS_descriptor = (dv_toZdoDescriptor e)\<lparr>sd_inputClusters := Some (ep_inputClusters e @ rest)\<rparr>\<rparr>)"
proof -
  have e: "ep_deviceVersion e < 16" "13 + length (ep_inputClusters e) * 2 + length (ep_outputClusters e) * 2 \<le> 96"
    using assms by (auto simp: dv_ok_def)
  obtain bs rest where bs: "zd_buildSimpleDescriptor (Some 91) (dv_toZdoDescriptor e) = Some (Some bs)"
      "length bs = 8 + length (ep_inputClusters e) * 2 + length (ep_outputClusters e) * 2"
      "zd_parseSimpleDescriptor (Some bs) (length bs) = Some (True, (dv_toZdoDescriptor e)\<lparr>
        sd_inputClusters := Some (ep_inputClusters e @ rest)\<rparr>)"
    using simple_descriptor_roundtrip [OF e] by blast
  let ?rsp = "[seq, ZDO_STATUS_SUCCESS] @ le16 (dv_nwkAddress d) @ [of_nat (length bs)] @ bs"
  have l: "length bs < 256" "length bs \<noteq> 0" using bs(2) e(2) by simp_all
  note c = unat_of_nat_u8 [OF l(1)]
  have n0: "(of_nat (length bs) :: u8) \<noteq> 0" using c l(2) by (metis unsigned_0)
  have "dv_handleRequest d ZDO_SIMPLE_DESC_REQ
      (zd_buildSimpleDescriptorRequest (Some 96) seq (dv_nwkAddress d) (ep_endpoint e)) (Some 96) =
      Some (ZDO_SIMPLE_DESC_RSP, Some ?rsp)"
    using dv_findEndpoint_in [OF assms] bs(1)
    by (simp add: dv_handleRequest_def simple_request zd_buildSimpleDescriptorResponse_def)
  moreover have "zd_parseSimpleDescriptorResponse (Some ?rsp) = Some (True, \<lparr>zS_sequence = seq,
      zS_status = ZDO_STATUS_SUCCESS, zS_nwkAddress = dv_nwkAddress d,
      zS_descriptor = (dv_toZdoDescriptor e)\<lparr>sd_inputClusters := Some (ep_inputClusters e @ rest)\<rparr>\<rparr>)"
    using bs(2,3) e(2) n0 c
    by (simp add: zd_parseSimpleDescriptorResponse_def zd_parse_def zdo_simple_response0_def wire_simps)
  ultimately show ?thesis by blast
qed

text \<open>A match: the profile, and every cluster asked for among the endpoint's.\<close>

definition ep_matches :: "u16 \<Rightarrow> u16 list \<Rightarrow> u16 list \<Rightarrow> endpoint_descriptor \<Rightarrow> bool" where
  "ep_matches prof ins outs e \<longleftrightarrow> ep_profileId e = prof \<and> set ins \<subseteq> set (ep_inputClusters e) \<and>
     set outs \<subseteq> set (ep_outputClusters e)"

lemma dv_matchLoop_filter:
  assumes "dv_ok d" "set es \<subseteq> set (dv_endpoints d)" "length acc + length es \<le> 16"
    and "zm_profileId req = prof" "zm_inputClusterCount req = of_nat (length ins)"
    "zm_inputClusters req = Some (ins @ rest)" "zm_outputClusterCount req = of_nat (length outs)"
    "zm_outputClusters req = Some outs" "length ins < 256" "length outs < 256"
  shows "dv_matchLoop d req es acc = Some (acc @ map ep_endpoint (filter (ep_matches prof ins outs) es))"
  using assms(2,3)
proof (induction es arbitrary: acc)
  case (Cons e es)
  have e: "dv_findEndpoint d (ep_endpoint e) = Some e"
    using dv_findEndpoint_in [OF assms(1)] Cons.prems(1) by simp
  have "dv_endpointMatches d (ep_endpoint e) (zm_profileId req) (zm_inputClusters req)
      (zm_inputClusterCount req) (zm_outputClusters req) (zm_outputClusterCount req) = Some (ep_matches prof ins outs e)"
    using containsAll_iff [of "zm_inputClusters req" ins rest _ 0] containsAll_iff [of "zm_outputClusters req" outs "[]" _ 0]
      assms(4-10)
    by (auto simp: dv_endpointMatches_def e ep_matches_def)
  then show ?case using Cons by simp
qed simp

lemma match_answer:
  assumes "dv_ok d" "7 + length ins * 2 + length outs * 2 \<le> 96"
  shows "\<exists>req rsp. zd_buildMatchDescriptorRequest (Some 96) seq (dv_nwkAddress d) prof (Some ins) (of_nat (length ins))
      (Some outs) (of_nat (length outs)) = Some (Some req) \<and>
    dv_handleRequest d ZDO_MATCH_DESC_REQ (Some req) (Some 96) = Some (ZDO_MATCH_DESC_RSP, Some rsp) \<and>
    zd_parseMatchDescriptorResponse (Some rsp) = Some (True, \<lparr>zE_sequence = seq, zE_status = ZDO_STATUS_SUCCESS,
      zE_nwkAddress = dv_nwkAddress d,
      zE_endpointCount = of_nat (length (filter (ep_matches prof ins outs) (dv_endpoints d))),
      zE_endpoints = Some (map ep_endpoint (filter (ep_matches prof ins outs) (dv_endpoints d)))\<rparr>)"
proof -
  let ?f = "filter (ep_matches prof ins outs) (dv_endpoints d)"
  let ?rsp = "[seq, ZDO_STATUS_SUCCESS] @ le16 (dv_nwkAddress d) @ [of_nat (length ?f)] @ map ep_endpoint ?f"
  obtain req r where req: "zd_buildMatchDescriptorRequest (Some 96) seq (dv_nwkAddress d) prof (Some ins) (of_nat (length ins))
      (Some outs) (of_nat (length outs)) = Some (Some req)"
    "zd_parseMatchDescriptorRequest (Some req) = Some (True, r)" "zm_sequence r = seq" "zm_nwkAddress r = dv_nwkAddress d"
    and r: "zm_profileId r = prof" "zm_inputClusterCount r = of_nat (length ins)"
      "zm_inputClusters r = Some (ins @ u16_view (of_nat (length outs) # concat (map le16 outs)))"
      "zm_outputClusterCount r = of_nat (length outs)" "zm_outputClusters r = Some outs"
    using match_request [OF assms(2), of seq "dv_nwkAddress d" prof] by fastforce
  have l: "length (dv_endpoints d) \<le> 16" using assms(1) by (simp add: dv_ok_def)
  then have f: "length ?f \<le> 16" using length_filter_le [of "ep_matches prof ins outs" "dv_endpoints d"] by linarith
  then have c: "unat (of_nat (length ?f) :: u8) = length ?f" by simp
  have "dv_matchLoop d r (dv_endpoints d) [] = Some ([] @ map ep_endpoint ?f)"
    using assms(2) l by (intro dv_matchLoop_filter [OF assms(1) _ _ r]) simp_all
  moreover have "zd_buildMatchDescriptorResponse (Some 96) seq ZDO_STATUS_SUCCESS (dv_nwkAddress d)
      (Some (map ep_endpoint ?f)) (of_nat (length ?f)) = Some (Some ?rsp)"
    using f by (simp add: zd_buildMatchDescriptorResponse_def Let_def c copied_def)
  ultimately have "dv_handleRequest d ZDO_MATCH_DESC_REQ (Some req) (Some 96) = Some (ZDO_MATCH_DESC_RSP, Some ?rsp)"
    using req by (simp add: dv_handleRequest_def)
  moreover have "zd_parseMatchDescriptorResponse (Some ?rsp) = Some (True, \<lparr>zE_sequence = seq,
      zE_status = ZDO_STATUS_SUCCESS, zE_nwkAddress = dv_nwkAddress d, zE_endpointCount = of_nat (length ?f),
      zE_endpoints = Some (map ep_endpoint ?f)\<rparr>)"
    using f by (simp add: zd_parseMatchDescriptorResponse_def zd_parse_def zdo_endpoint_response0_def wire_simps c)
  ultimately show ?thesis using req(1) by blast
qed

lemma address_answers:
  "\<exists>rsp r. dv_handleRequest d ZDO_NWK_ADDR_REQ (zd_buildNwkAddressRequest (Some 96) seq (dv_ieeeAddress d) t i) (Some 96) =
      Some (ZDO_NWK_ADDR_RSP, Some rsp) \<and> zd_parseAddressResponse (Some rsp) = Some (True, r) \<and>
      zA_sequence r = seq \<and> zA_status r = ZDO_STATUS_SUCCESS \<and> zA_nwkAddress r = dv_nwkAddress d"
  "\<exists>rsp r. dv_handleRequest d ZDO_IEEE_ADDR_REQ (zd_buildIeeeAddressRequest (Some 96) seq (dv_nwkAddress d) t i) (Some 96) =
      Some (ZDO_IEEE_ADDR_RSP, Some rsp) \<and> zd_parseAddressResponse (Some rsp) = Some (True, r) \<and>
      zA_sequence r = seq \<and> zA_status r = ZDO_STATUS_SUCCESS \<and> zA_ieeeAddress r = dv_ieeeAddress d"
proof -
  let ?rsp = "[seq, ZDO_STATUS_SUCCESS] @ le64 (dv_ieeeAddress d) @ le16 (dv_nwkAddress d) @ [0, 0]"
  have b: "zd_buildAddressResponse (Some 96) seq ZDO_STATUS_SUCCESS (dv_ieeeAddress d) (dv_nwkAddress d) None 0 0 =
      Some (Some ?rsp)"
    by (simp add: zd_buildAddressResponse_def le16s_def)
  have p: "\<exists>r. zd_parseAddressResponse (Some ?rsp) = Some (True, r) \<and> zA_sequence r = seq \<and>
      zA_status r = ZDO_STATUS_SUCCESS \<and> zA_nwkAddress r = dv_nwkAddress d \<and> zA_ieeeAddress r = dv_ieeeAddress d"
    by (simp add: zd_parseAddressResponse_def zd_parse_def wire_simps)
  have "zd_parseNwkAddressRequest (zd_buildNwkAddressRequest (Some 96) seq (dv_ieeeAddress d) t i) =
      Some (True, zdo_address_request0\<lparr>za_sequence := seq, za_ieeeAddress := dv_ieeeAddress d, za_requestType := t,
        za_startIndex := i\<rparr>)"
    by (simp add: zd_parseNwkAddressRequest_def zd_buildNwkAddressRequest_def zd_fixed_def zd_parse_def wire_simps)
  then show "\<exists>rsp r. dv_handleRequest d ZDO_NWK_ADDR_REQ (zd_buildNwkAddressRequest (Some 96) seq (dv_ieeeAddress d) t i) (Some 96) =
      Some (ZDO_NWK_ADDR_RSP, Some rsp) \<and> zd_parseAddressResponse (Some rsp) = Some (True, r) \<and>
      zA_sequence r = seq \<and> zA_status r = ZDO_STATUS_SUCCESS \<and> zA_nwkAddress r = dv_nwkAddress d"
    using b p by (intro exI [of _ ?rsp]) (auto simp: dv_handleRequest_def)
  have "zd_parseIeeeAddressRequest (zd_buildIeeeAddressRequest (Some 96) seq (dv_nwkAddress d) t i) =
      Some (True, zdo_address_request0\<lparr>za_sequence := seq, za_nwkAddress := dv_nwkAddress d, za_requestType := t,
        za_startIndex := i\<rparr>)"
    by (simp add: zd_parseIeeeAddressRequest_def zd_buildIeeeAddressRequest_def zd_fixed_def zd_parse_def wire_simps)
  then show "\<exists>rsp r. dv_handleRequest d ZDO_IEEE_ADDR_REQ (zd_buildIeeeAddressRequest (Some 96) seq (dv_nwkAddress d) t i) (Some 96) =
      Some (ZDO_IEEE_ADDR_RSP, Some rsp) \<and> zd_parseAddressResponse (Some rsp) = Some (True, r) \<and>
      zA_sequence r = seq \<and> zA_status r = ZDO_STATUS_SUCCESS \<and> zA_ieeeAddress r = dv_ieeeAddress d"
    using b p by (intro exI [of _ ?rsp]) (auto simp: dv_handleRequest_def)
qed

text \<open>The requester's view of an endpoint: the counted clusters of a parsed descriptor.\<close>

definition sd_describes :: "zdo_simple_descriptor \<Rightarrow> endpoint_descriptor \<Rightarrow> bool" where
  "sd_describes sd e \<longleftrightarrow> sd_endpoint sd = ep_endpoint e \<and> sd_profileId sd = ep_profileId e \<and>
     sd_deviceId sd = ep_deviceId e \<and> sd_deviceVersion sd = ep_deviceVersion e \<and>
     map_option (take (unat (sd_inputClusterCount sd))) (sd_inputClusters sd) = Some (ep_inputClusters e) \<and>
     map_option (take (unat (sd_outputClusterCount sd))) (sd_outputClusters sd) = Some (ep_outputClusters e)"

definition zE_list :: "zdo_endpoint_response \<Rightarrow> u8 list option" where
  "zE_list r = (if zE_status r = ZDO_STATUS_SUCCESS then map_option (take (unat (zE_endpointCount r))) (zE_endpoints r)
     else None)"

text \<open>C37: Service discovery describes the device. From the requests that the requester's builders make, a
  device answers, and the requester's parsers read out of the answers: the device's network address
  from its IEEE address; the list of its endpoints; for each endpoint its descriptor with all its
  clusters; and for a profile with input and output clusters exactly the endpoints that serve them.\<close>

theorem service_discovery_describes_device:
  assumes "dv_ok d" "7 + length ins * 2 + length outs * 2 \<le> 96"
  shows "(\<exists>rsp r. dv_handleRequest d ZDO_NWK_ADDR_REQ (zd_buildNwkAddressRequest (Some 96) seq (dv_ieeeAddress d) 0 0)
        (Some 96) = Some (ZDO_NWK_ADDR_RSP, Some rsp) \<and> zd_parseAddressResponse (Some rsp) = Some (True, r) \<and>
        zA_nwkAddress r = dv_nwkAddress d) \<and>
    (\<exists>rsp r. dv_handleRequest d ZDO_ACTIVE_EP_REQ (zd_buildActiveEndpointRequest (Some 96) seq (dv_nwkAddress d))
        (Some 96) = Some (ZDO_ACTIVE_EP_RSP, Some rsp) \<and> zd_parseActiveEndpointResponse (Some rsp) = Some (True, r) \<and>
        zE_list r = Some (map ep_endpoint (dv_endpoints d))) \<and>
    (\<forall>e\<in>set (dv_endpoints d). \<exists>rsp r. dv_handleRequest d ZDO_SIMPLE_DESC_REQ
        (zd_buildSimpleDescriptorRequest (Some 96) seq (dv_nwkAddress d) (ep_endpoint e)) (Some 96) =
        Some (ZDO_SIMPLE_DESC_RSP, Some rsp) \<and> zd_parseSimpleDescriptorResponse (Some rsp) = Some (True, r) \<and>
        sd_describes (zS_descriptor r) e) \<and>
    (\<exists>req rsp r. zd_buildMatchDescriptorRequest (Some 96) seq (dv_nwkAddress d) prof (Some ins) (of_nat (length ins))
        (Some outs) (of_nat (length outs)) = Some (Some req) \<and>
        dv_handleRequest d ZDO_MATCH_DESC_REQ (Some req) (Some 96) = Some (ZDO_MATCH_DESC_RSP, Some rsp) \<and>
        zd_parseMatchDescriptorResponse (Some rsp) = Some (True, r) \<and>
        zE_list r = Some (map ep_endpoint (filter (ep_matches prof ins outs) (dv_endpoints d))))"
proof (intro conjI ballI)
  have l: "length (dv_endpoints d) \<le> 16" using assms(1) by (simp add: dv_ok_def)
  show "\<exists>rsp r. dv_handleRequest d ZDO_NWK_ADDR_REQ (zd_buildNwkAddressRequest (Some 96) seq (dv_ieeeAddress d) 0 0)
      (Some 96) = Some (ZDO_NWK_ADDR_RSP, Some rsp) \<and> zd_parseAddressResponse (Some rsp) = Some (True, r) \<and>
      zA_nwkAddress r = dv_nwkAddress d"
    using address_answers(1) by blast
  show "\<exists>rsp r. dv_handleRequest d ZDO_ACTIVE_EP_REQ (zd_buildActiveEndpointRequest (Some 96) seq (dv_nwkAddress d))
      (Some 96) = Some (ZDO_ACTIVE_EP_RSP, Some rsp) \<and> zd_parseActiveEndpointResponse (Some rsp) = Some (True, r) \<and>
      zE_list r = Some (map ep_endpoint (dv_endpoints d))"
    using active_answer [OF assms(1), of seq] l by (fastforce simp: zE_list_def)
  have f: "length (filter (ep_matches prof ins outs) (dv_endpoints d)) \<le> 16"
    using length_filter_le [of "ep_matches prof ins outs" "dv_endpoints d"] l by linarith
  show "\<exists>req rsp r. zd_buildMatchDescriptorRequest (Some 96) seq (dv_nwkAddress d) prof (Some ins) (of_nat (length ins))
      (Some outs) (of_nat (length outs)) = Some (Some req) \<and>
      dv_handleRequest d ZDO_MATCH_DESC_REQ (Some req) (Some 96) = Some (ZDO_MATCH_DESC_RSP, Some rsp) \<and>
      zd_parseMatchDescriptorResponse (Some rsp) = Some (True, r) \<and>
      zE_list r = Some (map ep_endpoint (filter (ep_matches prof ins outs) (dv_endpoints d)))"
    using match_answer [OF assms, of seq prof] f by (fastforce simp: zE_list_def)
  fix e assume e: "e \<in> set (dv_endpoints d)"
  then have "13 + length (ep_inputClusters e) * 2 + length (ep_outputClusters e) * 2 \<le> 96"
    using assms(1) by (simp add: dv_ok_def)
  then have "sd_describes ((dv_toZdoDescriptor e)\<lparr>sd_inputClusters := Some (ep_inputClusters e @ rest)\<rparr>) e" for rest
    by (simp add: sd_describes_def dv_toZdoDescriptor_def)
  then show "\<exists>rsp r. dv_handleRequest d ZDO_SIMPLE_DESC_REQ
      (zd_buildSimpleDescriptorRequest (Some 96) seq (dv_nwkAddress d) (ep_endpoint e)) (Some 96) =
      Some (ZDO_SIMPLE_DESC_RSP, Some rsp) \<and> zd_parseSimpleDescriptorResponse (Some rsp) = Some (True, r) \<and>
      sd_describes (zS_descriptor r) e"
    using simple_answer [OF assms(1) e, of seq] by (metis zdo_simple_response.select_convs(4))
qed

definition dv_example :: device_object where
  "dv_example = dv_begin 9 3 [\<lparr>ep_endpoint = 1, ep_profileId = 0x0104, ep_deviceId = 0x0100, ep_deviceVersion = 1,
     ep_inputClusters = [0, 6], ep_outputClusters = []\<rparr>]"

theorem service_discovery_describes_device_witness:
  "\<exists>req rsp r. zd_buildMatchDescriptorRequest (Some 96) 7 3 0x0104 (Some [6]) 1 (Some []) 0 = Some (Some req) \<and>
     dv_handleRequest dv_example ZDO_MATCH_DESC_REQ (Some req) (Some 96) = Some (ZDO_MATCH_DESC_RSP, Some rsp) \<and>
     zd_parseMatchDescriptorResponse (Some rsp) = Some (True, r) \<and> zE_list r = Some [1]"
proof -
  have "dv_ok dv_example" by (simp add: dv_ok_def dv_example_def dv_begin_def)
  from service_discovery_describes_device [OF this, of "[6]" "[]" 7 "0x0104"] show ?thesis
    by (auto simp: dv_example_def dv_begin_def ep_matches_def)
qed

text \<open>The eight-bit sums of the match request: 125 clusters pass the length check of a seven-byte
  payload, and the loop over them reads outside it.\<close>

lemma match_request_reads_outside:
  "dv_handleRequest dv_example ZDO_MATCH_DESC_REQ (Some [0, 3, 0, 0x04, 0x01, 125, 0]) (Some 96) = None"
  by code_simp

text \<open>The length check of the request's builder is one byte short.\<close>

lemma match_builder_overflows: "zd_buildMatchDescriptorRequest (Some 6) 0 0 0 None 0 None 0 = None"
  by (simp add: zd_buildMatchDescriptorRequest_def)

end
