(* ===== verification/ZbNode.thy ===== *)
theory ZbNode
  imports ZbZdo ZbApsDelivery ZbRetransmit ZbScan ZbPersist ZbRouting
begin

text \<open>
  The mesh node of \<open>examples/CC2530_BeaconJoin/CC2530_BeaconJoin.ino\<close> in its default configuration: the
  callbacks it registers with the driver, the services its \<open>loop\<close> runs, and \<open>loop\<close> itself. The globals of
  the sketch are the record \<open>mesh_node\<close>; the constants its build flags choose are \<open>mesh_config\<close>. What a
  handler asks of the driver, of the security object and of the serial console is a list of
  \<open>mesh_action\<close>s in the order of the calls; \<open>mesh_perform\<close> says what the driver model does for them. The
  answer of a driver call that the sketch looks at is an argument \<open>ok\<close>, and \<open>now\<close> stands for \<open>millis()\<close>.
  The outer option is a read outside a buffer. The branches behind \<open>NIUS_ZIGBEE_SECURE_JOIN\<close>,
  \<open>GROUPCAST\<close>, \<open>SOURCEROUTE\<close>, \<open>FRAGTEST\<close>, \<open>BINDTEST\<close>, \<open>GP_SINK\<close> and the multi-hop test topologies are
  compiled out here, as in the default build.
\<close>

section \<open>State and actions\<close>

abbreviation (input) "kDefaultRadius \<equiv> (30 :: u8)"
abbreviation (input) "kBroadcastShort \<equiv> (0xFFFF :: u16)"
abbreviation (input) "kBroadcastRxOnWhenIdle \<equiv> (0xFFFD :: u16)"
abbreviation (input) "kBroadcastAllRouters \<equiv> (0xFFFC :: u16)"
abbreviation (input) "NWK_CMD_ROUTE_REQUEST \<equiv> (0x01 :: u8)"
abbreviation (input) "NWK_CMD_ROUTE_REPLY \<equiv> (0x02 :: u8)"
abbreviation (input) "NWK_CMD_LINK_STATUS \<equiv> (0x08 :: u8)"
abbreviation (input) "ZDO_DEVICE_ANNCE \<equiv> (0x0013 :: u16)"
abbreviation (input) "ZDO_MGMT_LQI_REQ \<equiv> (0x0031 :: u16)"
abbreviation (input) "ZDO_MGMT_LQI_RSP \<equiv> (0x8031 :: u16)"
abbreviation (input) "APS_ENDPOINT \<equiv> (1 :: u8)"
abbreviation (input) "APS_CLUSTER \<equiv> (0x1042 :: u16)"
abbreviation (input) "APS_PROFILE \<equiv> (0x0104 :: u16)"
abbreviation (input) "MAX_ASSOC_ATTEMPTS \<equiv> (4 :: u8)"

record mesh_config =
  mg_ieee :: u64
  mg_coordinator :: bool
  mg_router :: bool
  mg_end :: bool
  mg_poolFirst :: u16
  mg_poolLast :: u16
  mg_ignoreShorts :: "u16 list"
  mg_ignoreIeees :: "u64 list"
  mg_scanChannels :: "u8 list"
  mg_apsPeriodMs :: u32
  mg_coord :: coordinator_setup

definition mg_parentCapable :: "mesh_config \<Rightarrow> bool" where
  "mg_parentCapable cfg \<longleftrightarrow> mg_coordinator cfg \<or> mg_router cfg"

definition mg_capability :: "mesh_config \<Rightarrow> u8" where
  "mg_capability cfg = (if mg_end cfg then 0x88 else 0x8A)"

definition mg_ignoredShort :: "mesh_config \<Rightarrow> u16 \<Rightarrow> bool" where
  "mg_ignoredShort cfg macSrc \<longleftrightarrow> macSrc \<in> set (mg_ignoreShorts cfg)"

definition mg_ignoredIeee :: "mesh_config \<Rightarrow> u64 \<Rightarrow> bool" where
  "mg_ignoredIeee cfg ieee \<longleftrightarrow> ieee \<in> set (take (length (mg_ignoreShorts cfg)) (mg_ignoreIeees cfg))"

text \<open>The objects \<open>neighbors\<close> and \<open>routes\<close> are reached through the network and routing objects they are
  attached to.\<close>

record mesh_node =
  mn_net :: network
  mn_routing :: routing
  mn_chosen :: candidate
  mn_scanChannel :: u8
  mn_pendingRreqId :: u8
  mn_nextDiscoveryAt :: u32
  mn_nextActionAt :: u32
  mn_forwarded :: u32
  mn_announced :: bool
  mn_parentReady :: bool
  mn_zdoSequence :: u8
  mn_retx :: retransmit
  mn_dupe :: dupe_table
  mn_apsDuplicates :: u32
  mn_apsCounter :: u8
  mn_apsSeq :: u32
  mn_nextApsSendAt :: u32
  mn_lastApsOkAt :: u32
  mn_lastRouteRepairAt :: u32
  mn_nextLqiCycleAt :: u32
  mn_lqiPending :: bool
  mn_lqiRetryAt :: u32
  mn_lqiSeq :: u8
  mn_lqiTries :: u8
  mn_pendingLqiRsp :: bool
  mn_lqiRspTo :: u16
  mn_lqiRspSeq :: u8
  mn_lqiRspStart :: u8
  mn_nextSaveAt :: u32

datatype mesh_action =
    TxBeacon u16 u16 bool bool "u8 list"
  | TxBeaconRequest
  | TxAssocRequest u16 u16 u64 u8 bool
  | TxAssocResponse u16 u64 u16 u16 u8 bool
  | TxNwkData u16 u16 u16 u16 u16 "u8 list" u8 bool
  | TxNwkCommand u16 u16 u16 u16 u16 u8 "u8 list" u8 bool
  | TxZdo u16 u16 u16 u16 u16 u16 "u8 list" u8 bool
  | ApplyAddress u16 u16
  | SetPromiscuous bool
  | SetChannel u8
  | ResetReplayPeer u64
  | ResetReplayTable
  | PrintData u16 u8 "u8 list"
  | PrintNeighbors u16 u8 "zdo_neighbor_entry list"
  | SaveNode

definition mn_neighbors :: "mesh_node \<Rightarrow> neighbor_table" where
  "mn_neighbors s = (case nw_neighbors (mn_net s) of None \<Rightarrow> None | Some t \<Rightarrow> t)"

definition mn_own :: "mesh_node \<Rightarrow> u16" where
  "mn_own s = ni_nwkAddress (nw_info (mn_net s))"

definition mn_pan :: "mesh_node \<Rightarrow> u16" where
  "mn_pan s = ni_panId (nw_info (mn_net s))"

definition mn_joined :: "mesh_node \<Rightarrow> bool" where
  "mn_joined s \<longleftrightarrow> ni_joined (nw_info (mn_net s))"

text \<open>\<open>(int32_t)(millis() - at) >= 0\<close>\<close>

definition mn_reached :: "u32 \<Rightarrow> u32 \<Rightarrow> bool" where
  "mn_reached now t \<longleftrightarrow> 0 \<le> sint (now - t)"

text \<open>\<open>if (nh == kNoNextHop) nh = ...\<close>\<close>

definition mn_hopOr :: "mesh_node \<Rightarrow> u16 \<Rightarrow> u16 \<Rightarrow> u16" where
  "mn_hopOr s dst other =
     (let nh = zr_nextHopFor (mn_routing s) dst in if nh = kNoNextHop then other else nh)"

definition bytes_of :: "u8 list option \<Rightarrow> u8 list" where
  "bytes_of b = (case b of None \<Rightarrow> [] | Some bs \<Rightarrow> bs)"

section \<open>Parent\<close>

definition mn_becomeParent :: "mesh_config \<Rightarrow> u32 \<Rightarrow> mesh_node \<Rightarrow> mesh_node" where
  "mn_becomeParent cfg now s =
     (if mn_parentReady s \<or> \<not> mg_router cfg \<or> \<not> mn_joined s then s
      else s\<lparr>mn_net := nw_permitJoining 0xFF now
               (nw_configureAddressPool (mg_poolFirst cfg) (mg_poolLast cfg) (mn_net s)),
             mn_parentReady := True\<rparr>)"

definition mn_sendOurBeacon :: "u32 \<Rightarrow> mesh_node \<Rightarrow> mesh_action" where
  "mn_sendOurBeacon now s =
     (let i = nw_info (mn_net s); permit = pj_isOpen (nw_permitJoin (mn_net s)) now in
      TxBeacon (ni_panId i) (ni_nwkAddress i) (nw_isCoordinator (mn_net s)) permit
        (bytes_of (nwk_buildBeaconPayload (Some 15) (ni_extendedPanId i) (ni_depth i) permit permit
           (ni_updateId i) 2)))"

section \<open>MAC commands and beacons\<close>

definition mn_onBeaconRequest :: "mesh_config \<Rightarrow> u32 \<Rightarrow> mesh_node \<Rightarrow> mesh_action list" where
  "mn_onBeaconRequest cfg now s =
     (if mg_parentCapable cfg \<and> mn_joined s \<and> pj_isOpen (nw_permitJoin (mn_net s)) now
      then [mn_sendOurBeacon now s] else [])"

definition mn_isChild :: "neighbor_table \<Rightarrow> u64 \<Rightarrow> bool" where
  "mn_isChild t ieee \<longleftrightarrow>
     (case nt_findByIeee t ieee of None \<Rightarrow> False
      | Some i \<Rightarrow>
          (case nt_slot t i of None \<Rightarrow> False
           | Some e \<Rightarrow> nb_relationship e = ZB_REL_CHILD \<or> nb_relationship e = ZB_REL_PREVIOUS_CHILD))"

definition mn_onAssociationRequest ::
  "mesh_config \<Rightarrow> mac_command_frame \<Rightarrow> u8 \<Rightarrow> u32 \<Rightarrow> mesh_node \<Rightarrow> (mesh_node \<times> mesh_action list) option"
where
  "mn_onAssociationRequest cfg frame lqi now s =
     (if mg_ignoredIeee cfg (mc_srcIeee frame) then Some (s, [])
      else do {
        (ok, request) \<leftarrow> mac_parseAssociationRequest frame;
        if \<not> ok then Some (s, [])
        else
          let isReassociation = mn_isChild (mn_neighbors s) (mc_srcIeee frame);
              (net, decision) = nw_handleAssociationRequest (mc_srcIeee frame) request (lqi AND 0x7F) now (mn_net s)
          in Some (s\<lparr>mn_net := net\<rparr>,
               (if ad_accepted decision \<and> isReassociation then [ResetReplayPeer (mc_srcIeee frame)] else []) @
               [TxAssocResponse (ni_panId (nw_info net)) (mc_srcIeee frame) (ni_nwkAddress (nw_info net))
                  (ad_assignedAddress decision) (ad_status decision) True])
      })"

definition mn_completeJoin :: "mac_assoc_response \<Rightarrow> u32 \<Rightarrow> mesh_node \<Rightarrow> mesh_node \<times> mesh_action list" where
  "mn_completeJoin response now s =
     (let parent = mn_chosen s;
          (net, joined) = nw_completeJoin (as_shortAddress response) (ca_shortAddress parent) (ca_depth parent) (mn_net s)
      in if \<not> joined then (s\<lparr>mn_net := net\<rparr>, [])
         else
           let net = fst (nw_noteParent (ca_shortAddress parent) 0
                 (if ca_depth parent = 0 then ZB_DEVICE_COORDINATOR else ZB_DEVICE_ROUTER)
                 (ca_depth parent) (ca_lqi parent) True now (nw_resetJoinAttempts net))
           in (s\<lparr>mn_net := net,
                 mn_routing := zr_upsert (mn_routing s) ZB_NWK_ADDR_COORDINATOR (ca_shortAddress parent) ZB_ROUTE_ACTIVE now,
                 mn_announced := False, mn_lastApsOkAt := now\<rparr>,
               [ResetReplayTable, ApplyAddress (ca_panId parent) (as_shortAddress response), SetPromiscuous False]))"

definition mn_onMacCommand ::
  "mesh_config \<Rightarrow> mac_command_frame \<Rightarrow> u8 \<Rightarrow> u32 \<Rightarrow> mesh_node \<Rightarrow> (mesh_node \<times> mesh_action list) option"
where
  "mn_onMacCommand cfg frame lqi now s =
     (if mc_commandId frame = MAC_CMD_BEACON_REQUEST then Some (s, mn_onBeaconRequest cfg now s)
      else if mc_commandId frame = MAC_CMD_ASSOCIATION_REQUEST \<and> mg_parentCapable cfg \<and> mn_joined s \<and>
              mc_dstPanId frame = mn_pan s \<and> mc_dstShort frame = mn_own s
      then mn_onAssociationRequest cfg frame lqi now s
      else if mc_commandId frame = MAC_CMD_ASSOCIATION_RESPONSE \<and> \<not> mg_coordinator cfg \<and>
              mc_dstIeee frame = mg_ieee cfg
      then do {
        (ok, response) \<leftarrow> mac_parseAssociationResponse frame;
        if \<not> ok \<or> as_status response \<noteq> MAC_ASSOC_SUCCESS then Some (s, [])
        else Some (mn_completeJoin response now s)
      }
      else Some (s, []))"

definition mn_onBeacon ::
  "mesh_config \<Rightarrow> mac_beacon_frame \<Rightarrow> u8 \<Rightarrow> u8 \<Rightarrow> mesh_node \<Rightarrow> mesh_node option"
where
  "mn_onBeacon cfg beacon rssi lqi s =
     (if mg_coordinator cfg \<or> \<not> nw_isScanning (mn_net s) then Some s
      else if mg_ignoredShort cfg (mb_srcShort beacon) then Some s
      else do {
        (ok, payload) \<leftarrow> nwk_parseBeaconPayload (ptr_take (mb_payload beacon) (mb_payloadLen beacon));
        if \<not> ok then Some s
        else Some (s\<lparr>mn_net := fst (nw_noteBeacon (mn_scanChannel s) beacon payload rssi (lqi AND 0x7F) 0 (mn_net s))\<rparr>)
      })"

section \<open>NWK commands\<close>

definition mn_sendOut :: "mesh_node \<Rightarrow> u16 \<Rightarrow> u16 \<Rightarrow> sk_out \<Rightarrow> mesh_action list" where
  "mn_sendOut s nwkSrc originator out =
     (case out of
        SK_REPLY hop p \<Rightarrow>
          [TxNwkCommand (mn_pan s) hop (mn_own s) originator nwkSrc NWK_CMD_ROUTE_REPLY p kDefaultRadius True]
      | SK_REBROADCAST radius p \<Rightarrow>
          [TxNwkCommand (mn_pan s) kBroadcastShort (mn_own s) kBroadcastAllRouters nwkSrc NWK_CMD_ROUTE_REQUEST p
             radius False]
      | _ \<Rightarrow> [])"

definition mn_onNwkCommand ::
  "mesh_config \<Rightarrow> mac_data_frame \<Rightarrow> nwk_command_frame \<Rightarrow> u8 \<Rightarrow> u32 \<Rightarrow> mesh_node
     \<Rightarrow> (mesh_node \<times> mesh_action list) option"
where
  "mn_onNwkCommand cfg mac nwk lqi now s =
     (let payload = ptr_take (nc_payload nwk) (nc_payloadLen nwk); linkCost = nw_costFromLqi (lqi AND 0x7F) in
      if mg_ignoredShort cfg (md_srcShort mac) then Some (s, [])
      else if nc_commandId nwk = NWK_CMD_LINK_STATUS then do {
        (ok, command) \<leftarrow> nwk_parseLinkStatusPayload payload;
        if \<not> ok then Some (s, [])
        else do {
          (net, _) \<leftarrow> nw_handleLinkStatus (nf_srcShort nwk) command (lqi AND 0x7F) now (mn_net s);
          Some (s\<lparr>mn_net := net\<rparr>, [])
        }
      }
      else if nc_commandId nwk = NWK_CMD_ROUTE_REQUEST \<and> mn_joined s then do {
        (z, out) \<leftarrow> sk_routeRequest (mn_routing s) (mn_own s) (mg_parentCapable cfg) (md_srcShort mac)
                     (nf_srcShort nwk) (nf_radius nwk) (bytes_of payload) linkCost now;
        Some (s\<lparr>mn_routing := z\<rparr>,
          mn_sendOut s (case out of SK_REPLY _ _ \<Rightarrow> mn_own s | _ \<Rightarrow> nf_srcShort nwk) (nf_srcShort nwk) out)
      }
      else if nc_commandId nwk = NWK_CMD_ROUTE_REPLY \<and> mn_joined s then do {
        (z, out) \<leftarrow> sk_routeReply (mn_routing s) (mn_own s) (md_srcShort mac) (bytes_of payload) linkCost now;
        (_, rrep) \<leftarrow> nwk_parseRouteReplyPayload payload;
        Some (s\<lparr>mn_routing := z\<rparr>, mn_sendOut s (nf_srcShort nwk) (rp_originator rrep) out)
      }
      else Some (s, []))"

section \<open>NWK data: reverse routes and forwarding\<close>

definition mn_learnRoute :: "mac_data_frame \<Rightarrow> nwk_data_frame \<Rightarrow> u32 \<Rightarrow> mesh_node \<Rightarrow> mesh_node" where
  "mn_learnRoute mac nwk now s =
     (if nf_srcShort nwk \<noteq> mn_own s \<and> md_srcShort mac < 0xFFF8 \<and> nf_srcShort nwk < 0xFFF8
      then s\<lparr>mn_routing := zr_upsert (mn_routing s) (nf_srcShort nwk) (md_srcShort mac) ZB_ROUTE_ACTIVE now\<rparr>
      else s)"

text \<open>A unicast frame for another node goes to the route's next hop with one hop less to live.\<close>

definition mn_forward :: "mesh_config \<Rightarrow> nwk_data_frame \<Rightarrow> bool \<Rightarrow> mesh_node \<Rightarrow> mesh_node \<times> mesh_action list" where
  "mn_forward cfg nwk ok s =
     (if nf_dstShort nwk \<noteq> mn_own s \<and> nf_dstShort nwk < 0xFFF8 then
        let nextHop = zr_nextHopFor (mn_routing s) (nf_dstShort nwk) in
        if nextHop \<noteq> kNoNextHop \<and> 1 < nf_radius nwk \<and> mg_parentCapable cfg then
          if kMaxPayload < nd_payloadLen nwk then (s, [])
          else (s\<lparr>mn_forwarded := (if ok then mn_forwarded s + 1 else mn_forwarded s)\<rparr>,
            [TxNwkData (mn_pan s) nextHop (mn_own s) (nf_dstShort nwk) (nf_srcShort nwk)
               (copied (nd_payload nwk) (nd_payloadLen nwk)) (nf_radius nwk - 1) True])
        else (s, [])
      else (s, []))"

definition mn_onNwkData ::
  "mesh_config \<Rightarrow> mac_data_frame \<Rightarrow> nwk_data_frame \<Rightarrow> bool \<Rightarrow> u32 \<Rightarrow> mesh_node \<Rightarrow> mesh_node \<times> mesh_action list"
where
  "mn_onNwkData cfg mac nwk ok now s =
     (if \<not> mn_joined s \<or> mg_ignoredShort cfg (md_srcShort mac) then (s, [])
      else mn_forward cfg nwk ok (mn_learnRoute mac nwk now s))"

definition mn_sendApsRouted :: "mesh_node \<Rightarrow> u16 \<Rightarrow> u8 list \<Rightarrow> mesh_action" where
  "mn_sendApsRouted s dst apdu =
     TxNwkData (mn_pan s) (mn_hopOr s dst dst) (mn_own s) dst (mn_own s) apdu kDefaultRadius True"

section \<open>APS data and acknowledgements\<close>

text \<open>The acknowledgement of \<open>onApsData\<close> and of \<open>onZdoFrame\<close>, routed back to the sender.\<close>

definition mn_apsAck :: "mac_data_frame \<Rightarrow> nwk_data_frame \<Rightarrow> aps_data_frame \<Rightarrow> mesh_node \<Rightarrow> mesh_action list" where
  "mn_apsAck mac nwk aps s =
     (if ap_ackRequest aps
      then [TxNwkData (mn_pan s) (mn_hopOr s (nf_srcShort nwk) (md_srcShort mac)) (mn_own s) (nf_srcShort nwk)
              (mn_own s)
              (bytes_of (aps_buildAckFrame (Some aps_kBaseHeaderLen) (ap_srcEndpoint aps) (ap_clusterId aps)
                 (ap_profileId aps) (ap_dstEndpoint aps) (ap_counter aps))) kDefaultRadius True]
      else [])"

definition mn_onApsData ::
  "mac_data_frame \<Rightarrow> nwk_data_frame \<Rightarrow> aps_data_frame \<Rightarrow> u32 \<Rightarrow> mesh_node \<Rightarrow> (mesh_node \<times> mesh_action list) option"
where
  "mn_onApsData mac nwk aps now s =
     (if ap_clusterId aps \<noteq> APS_CLUSTER then Some (s, [])
      else do {
        (dupe, isNew) \<leftarrow> du_checkAndRecord (mn_dupe s) (nf_srcShort nwk) (ap_srcEndpoint aps) (ap_counter aps) now;
        let s = s\<lparr>mn_dupe := dupe\<rparr>;
        if isNew
        then Some (s, mn_apsAck mac nwk aps s @
               [PrintData (nf_srcShort nwk) (ap_counter aps) (copied (ap_payload aps) (ap_payloadLen aps))])
        else Some (s\<lparr>mn_apsDuplicates := mn_apsDuplicates s + 1\<rparr>, mn_apsAck mac nwk aps s)
      })"

definition mn_onApsAck :: "aps_ack_frame \<Rightarrow> u32 \<Rightarrow> mesh_node \<Rightarrow> mesh_node" where
  "mn_onApsAck ack now s =
     (case rx_onAck (mn_retx s) (ak_counter ack) (ak_dstEndpoint ack) of
        (r, True) \<Rightarrow> s\<lparr>mn_retx := r, mn_lastApsOkAt := now\<rparr>
      | (r, False) \<Rightarrow> s\<lparr>mn_retx := r\<rparr>)"

definition mn_serviceApsRetx :: "u32 \<Rightarrow> mesh_node \<Rightarrow> mesh_node \<times> mesh_action list" where
  "mn_serviceApsRetx now s =
     (case rx_due (mn_retx s) now of
        (r, None) \<Rightarrow> (s\<lparr>mn_retx := r\<rparr>, [])
      | (r, Some i) \<Rightarrow>
          let e = the (rx_entries r) ! i; s = s\<lparr>mn_retx := r\<rparr>
          in (s\<lparr>mn_retx := rx_markAttempted r (Some i) now\<rparr>,
              [mn_sendApsRouted s (pe_dstShort e) (take (pe_apduLen e) (pe_apdu e))]))"

section \<open>ZDO\<close>

definition mn_lqiEntry :: "neighbor \<Rightarrow> zdo_neighbor_entry" where
  "mn_lqiEntry nb = \<lparr>zl_extendedPanId = 0, zl_extendedAddress = nb_ieee nb, zl_nwkAddress = nb_nwk nb,
     zl_deviceType = nb_deviceType nb, zl_rxOnWhenIdle = (if nb_rxOnWhenIdle nb then 1 else 0),
     zl_relationship = nb_relationship nb, zl_permitJoining = (if nb_permitJoining nb then 1 else 0),
     zl_depth = nb_depth nb, zl_lqi = nb_lqi nb\<rparr>"

definition mn_replyMgmtLqi :: "nwk_data_frame \<Rightarrow> aps_data_frame \<Rightarrow> mesh_node \<Rightarrow> mesh_node option" where
  "mn_replyMgmtLqi nwk aps s = do {
     (ok, req) \<leftarrow> zd_parseMgmtRequest (ptr_take (ap_payload aps) (ap_payloadLen aps));
     if \<not> ok then Some s
     else Some (s\<lparr>mn_pendingLqiRsp := True, mn_lqiRspTo := nf_srcShort nwk, mn_lqiRspSeq := zg_sequence req,
            mn_lqiRspStart := zg_startIndex req\<rparr>)
   }"

text \<open>The table walk of \<open>sendPendingMgmtLqiRsp\<close>: the used entries, and the at most four of them that follow
  the first \<open>start\<close>.\<close>

definition mn_usedNeighbors :: "neighbor_table \<Rightarrow> neighbor list" where
  "mn_usedNeighbors t = (case t of None \<Rightarrow> [] | Some es \<Rightarrow> filter nb_used es)"

definition mn_lqiPage :: "neighbor_table \<Rightarrow> u8 \<Rightarrow> zdo_neighbor_entry list" where
  "mn_lqiPage t start = map mn_lqiEntry (take 4 (drop (unat start) (mn_usedNeighbors t)))"

definition mn_sendPendingMgmtLqiRsp :: "u32 \<Rightarrow> mesh_node \<Rightarrow> mesh_node \<times> mesh_action list" where
  "mn_sendPendingMgmtLqiRsp now s =
     (if \<not> mn_pendingLqiRsp s then (s, [])
      else
        let s = s\<lparr>mn_pendingLqiRsp := False\<rparr> in
        if rx_hasPendingFor (mn_retx s) (mn_lqiRspTo s) 0 then (s, [])
        else
          let page = mn_lqiPage (mn_neighbors s) (mn_lqiRspStart s) in
          (case zd_buildMgmtLqiResponse (Some 96) (mn_lqiRspSeq s) ZDO_STATUS_SUCCESS
                  (of_nat (length (mn_usedNeighbors (mn_neighbors s)))) (mn_lqiRspStart s) (Some page)
                  (of_nat (length page)) of
             None \<Rightarrow> (s, [])
           | Some payload \<Rightarrow>
               (case aps_buildDataFrame (Some aps_kMaxFrame) 0 ZDO_MGMT_LQI_RSP 0x0000 0 (mn_apsCounter s)
                       (Some payload) (length payload) True of
                  None \<Rightarrow> (s, [])
                | Some apdu \<Rightarrow>
                    (s\<lparr>mn_retx := fst (rx_add (mn_retx s) (mn_lqiRspTo s) (mn_apsCounter s) 0 (Some apdu)
                           (length apdu) 3 2000 now),
                       mn_apsCounter := mn_apsCounter s + 1\<rparr>,
                     [mn_sendApsRouted s (mn_lqiRspTo s) apdu]))))"

primrec mn_readEntries :: "zdo_mgmt_response \<Rightarrow> nat \<Rightarrow> nat \<Rightarrow> zdo_neighbor_entry list option" where
  "mn_readEntries rsp 0 i = Some []"
| "mn_readEntries rsp (Suc n) i = do {
     (ok, e) \<leftarrow> zd_getNeighborListEntry rsp (of_nat i);
     if \<not> ok then Some []
     else do { es \<leftarrow> mn_readEntries rsp n (Suc i); Some (e # es) }
   }"

definition mn_printMgmtLqiRsp ::
  "nwk_data_frame \<Rightarrow> aps_data_frame \<Rightarrow> mesh_node \<Rightarrow> (mesh_node \<times> mesh_action list) option"
where
  "mn_printMgmtLqiRsp nwk aps s = do {
     (ok, rsp) \<leftarrow> zd_parseMgmtLqiResponse (ptr_take (ap_payload aps) (ap_payloadLen aps));
     if \<not> ok then Some (s, [])
     else do {
       es \<leftarrow> mn_readEntries rsp (unat (zG_listCount rsp)) 0;
       Some (if zG_sequence rsp = mn_lqiSeq s then s\<lparr>mn_lqiPending := False\<rparr> else s,
         [PrintNeighbors (nf_srcShort nwk) (zG_entries rsp) es])
     }
   }"

definition mn_noteAnnounce :: "zdo_announce \<Rightarrow> u8 \<Rightarrow> u32 \<Rightarrow> mesh_node \<Rightarrow> mesh_node" where
  "mn_noteAnnounce announce lqi now s =
     (let t = mn_neighbors s in
      case nt_findByIeee t (zn_ieeeAddress announce) of
        None \<Rightarrow> s
      | Some i \<Rightarrow>
          let e = the (nt_slot t i) in
          if nb_relationship e = ZB_REL_CHILD \<or> nb_relationship e = ZB_REL_PREVIOUS_CHILD
          then s\<lparr>mn_net := (mn_net s)\<lparr>nw_neighbors := Some (fst (nt_upsert t (zn_nwkAddress announce)
                   (zn_ieeeAddress announce) (nb_deviceType e) ZB_REL_CHILD (nb_depth e) (lqi AND 0x7F)
                   (nb_rxOnWhenIdle e) False now))\<rparr>\<rparr>
          else s)"

definition mn_onZdoFrame ::
  "mesh_config \<Rightarrow> mac_data_frame \<Rightarrow> nwk_data_frame \<Rightarrow> aps_data_frame \<Rightarrow> u8 \<Rightarrow> u32 \<Rightarrow> mesh_node
     \<Rightarrow> (mesh_node \<times> mesh_action list) option"
where
  "mn_onZdoFrame cfg mac nwk aps lqi now s =
     (let forUs = (nf_dstShort nwk = mn_own s) in
      if ap_clusterId aps = ZDO_DEVICE_ANNCE \<and> mg_parentCapable cfg then do {
        (ok, announce) \<leftarrow> zd_parseDeviceAnnounce (ptr_take (ap_payload aps) (ap_payloadLen aps));
        Some (if ok then mn_noteAnnounce announce lqi now s else s, [])
      }
      else if ap_clusterId aps = ZDO_MGMT_LQI_REQ \<and> forUs then map_option (\<lambda>s. (s, [])) (mn_replyMgmtLqi nwk aps s)
      else if ap_clusterId aps = ZDO_MGMT_LQI_RSP \<and> forUs then do {
        (s, printed) \<leftarrow> mn_printMgmtLqiRsp nwk aps s;
        Some (s, printed @ mn_apsAck mac nwk aps s)
      }
      else Some (s, []))"

definition mn_sendDeviceAnnounce :: "mesh_config \<Rightarrow> mesh_node \<Rightarrow> mesh_node \<times> mesh_action list" where
  "mn_sendDeviceAnnounce cfg s =
     (s\<lparr>mn_zdoSequence := mn_zdoSequence s + 1\<rparr>,
      [TxZdo (mn_pan s) kBroadcastShort (mn_own s) kBroadcastRxOnWhenIdle (mn_own s) ZDO_DEVICE_ANNCE
         (bytes_of (zd_buildDeviceAnnounce (Some 96) (mn_zdoSequence s) (mn_own s) (mg_ieee cfg) (mg_capability cfg)))
         kDefaultRadius False])"

section \<open>Driver events and the active scan\<close>

definition mn_event ::
  "mesh_config \<Rightarrow> bool \<Rightarrow> u32 \<Rightarrow> radio_event \<Rightarrow> mesh_node \<Rightarrow> (mesh_node \<times> mesh_action list) option"
where
  "mn_event cfg ok now ev s =
     (case ev of
        EvMacCommand frame rssi lqi \<Rightarrow> mn_onMacCommand cfg frame lqi now s
      | EvBeacon beacon rssi lqi \<Rightarrow> map_option (\<lambda>s. (s, [])) (mn_onBeacon cfg beacon rssi lqi s)
      | EvNwkCommand mac nwk rssi lqi \<Rightarrow> mn_onNwkCommand cfg mac nwk lqi now s
      | EvNwk mac nwk rssi lqi \<Rightarrow> Some (mn_onNwkData cfg mac nwk ok now s)
      | EvZdo mac nwk aps rssi lqi \<Rightarrow> mn_onZdoFrame cfg mac nwk aps lqi now s
      | EvAps mac nwk aps rssi lqi \<Rightarrow> mn_onApsData mac nwk aps now s
      | EvApsAck mac nwk ack rssi lqi \<Rightarrow> Some (mn_onApsAck ack now s, [])
      | _ \<Rightarrow> Some (s, []))"

fun mn_events ::
  "mesh_config \<Rightarrow> (u32 \<times> bool \<times> radio_event) list \<Rightarrow> mesh_node \<Rightarrow> (mesh_node \<times> mesh_action list) option"
where
  "mn_events cfg [] s = Some (s, [])"
| "mn_events cfg ((now, ok, ev) # evs) s = do {
     (s, a) \<leftarrow> mn_event cfg ok now ev s;
     (s, b) \<leftarrow> mn_events cfg evs s;
     Some (s, a @ b)
   }"

text \<open>
  What the scan hears: for each channel, whether the module switched to it and the events that \<open>poll\<close>
  delivered while the sketch waited there.
\<close>

type_synonym heard = "(bool \<times> (u32 \<times> bool \<times> radio_event) list) list"

fun mn_scanLoop :: "mesh_config \<Rightarrow> u8 list \<Rightarrow> heard \<Rightarrow> mesh_node \<Rightarrow> (mesh_node \<times> mesh_action list) option" where
  "mn_scanLoop cfg [] heard s = Some (s, [])"
| "mn_scanLoop cfg (ch # chs) heard s =
     (case (case heard of [] \<Rightarrow> (False, []) | h # _ \<Rightarrow> h) of (switched, evs) \<Rightarrow>
        let s = s\<lparr>mn_scanChannel := ch\<rparr> in
        if \<not> switched then do {
          (s, b) \<leftarrow> mn_scanLoop cfg chs (tl heard) s;
          Some (s, SetChannel ch # b)
        }
        else do {
          (s, a) \<leftarrow> mn_events cfg evs s;
          (s, b) \<leftarrow> mn_scanLoop cfg chs (tl heard) s;
          Some (s, SetChannel ch # TxBeaconRequest # a @ b)
        })"

definition mn_runActiveScan ::
  "mesh_config \<Rightarrow> heard \<Rightarrow> u32 \<Rightarrow> mesh_node \<Rightarrow> (mesh_node \<times> mesh_action list) option"
where
  "mn_runActiveScan cfg heard now s = do {
     let s = s\<lparr>mn_net := nw_beginScan (if mg_end cfg then ZB_DEVICE_END_DEVICE else ZB_DEVICE_ROUTER) (mn_net s)\<rparr>;
     (s, acts) \<leftarrow> mn_scanLoop cfg (mg_scanChannels cfg) heard s;
     case nw_selectParent (mn_net s) of
       None \<Rightarrow> Some (s\<lparr>mn_nextActionAt := now + 5000\<rparr>, SetPromiscuous True # acts)
     | Some i \<Rightarrow>
         let parent = nw_candidates (mn_net s) ! i in
         Some (s\<lparr>mn_chosen := parent, mn_net := fst (nw_beginJoiningCandidate parent (mn_net s)),
                 mn_nextActionAt := now\<rparr>,
           SetPromiscuous True # acts @ [SetChannel (ca_channel parent), ApplyAddress (ca_panId parent) kBroadcastShort])
   }"

end
