(* ===== verification/ZbNodeLoop.thy ===== *)
theory ZbNodeLoop
  imports ZbNode
begin

text \<open>
  The services of the sketch's \<open>loop\<close>, its start in \<open>setup\<close>, \<open>loop\<close> itself, and what the driver does for
  the actions of the handlers. \<open>loop_input\<close> is what one turn of \<open>loop\<close> reads from outside: the events of
  \<open>poll\<close>, the time, and what the scans hear that the turn may run.
\<close>

section \<open>Route discovery, repair and periodic traffic\<close>

definition mn_dropRoute :: "u16 \<Rightarrow> mesh_node \<Rightarrow> mesh_node" where
  "mn_dropRoute dst s = s\<lparr>mn_routing := (mn_routing s)\<lparr>zr_routes :=
     map_option (\<lambda>t. fst (rt_remove t dst)) (zr_routes (mn_routing s))\<rparr>\<rparr>"

definition mn_discover :: "u16 \<Rightarrow> u32 \<Rightarrow> mesh_node \<Rightarrow> mesh_node \<times> mesh_action list" where
  "mn_discover target now s =
     (if \<not> mn_reached now (mn_nextDiscoveryAt s) then (s, [])
      else
        let (z, rid) = zr_originateDiscovery (mn_routing s) target now;
            s = s\<lparr>mn_nextDiscoveryAt := now + 8000, mn_routing := z, mn_pendingRreqId := rid\<rparr>
        in (s, case nwk_buildRouteRequestPayload (Some 16) rid target 0 False None False of
                 None \<Rightarrow> []
               | Some p \<Rightarrow> [TxNwkCommand (mn_pan s) kBroadcastShort (mn_own s) kBroadcastAllRouters (mn_own s)
                   NWK_CMD_ROUTE_REQUEST p kDefaultRadius False]))"

text \<open>\<open>snprintf("aps %lu", n)\<close>: at most 14 characters, so the buffer of 16 holds them all.\<close>

fun decimal :: "nat \<Rightarrow> u8 list" where
  "decimal n = (if n < 10 then [of_nat (48 + n)] else decimal (n div 10) @ [of_nat (48 + n mod 10)])"

declare decimal.simps [simp del]

definition mn_message :: "u32 \<Rightarrow> u8 list" where
  "mn_message n = [0x61, 0x70, 0x73, 0x20] @ decimal (unat n)"

definition mn_sendPeriodic :: "mesh_config \<Rightarrow> u32 \<Rightarrow> mesh_node \<Rightarrow> mesh_node \<times> mesh_action list" where
  "mn_sendPeriodic cfg now s =
     (if \<not> mn_reached now (mn_nextApsSendAt s) then (s, [])
      else
        let s = s\<lparr>mn_nextApsSendAt := now + mg_apsPeriodMs cfg, mn_apsSeq := mn_apsSeq s + 1\<rparr>;
            msg = mn_message (mn_apsSeq s);
            apdu = bytes_of (aps_buildDataFrame (Some aps_kMaxFrame) APS_ENDPOINT APS_CLUSTER APS_PROFILE APS_ENDPOINT
                     (mn_apsCounter s) (Some msg) (length msg) True)
        in (s\<lparr>mn_retx := fst (rx_add (mn_retx s) ZB_NWK_ADDR_COORDINATOR (mn_apsCounter s) APS_ENDPOINT (Some apdu)
                  (length apdu) 8 1200 now),
              mn_apsCounter := mn_apsCounter s + 1\<rparr>,
            [mn_sendApsRouted s ZB_NWK_ADDR_COORDINATOR apdu]))"

definition mn_startQuery :: "u32 \<Rightarrow> mesh_node \<Rightarrow> mesh_node" where
  "mn_startQuery now s =
     (if \<not> mn_lqiPending s \<and> mn_reached now (mn_nextLqiCycleAt s)
      then s\<lparr>mn_lqiPending := True, mn_lqiTries := 0, mn_lqiSeq := mn_zdoSequence s,
             mn_zdoSequence := mn_zdoSequence s + 1, mn_lqiRetryAt := now, mn_nextLqiCycleAt := now + 30000\<rparr>
      else s)"

definition mn_queryNeighbors :: "u32 \<Rightarrow> mesh_node \<Rightarrow> mesh_node \<times> mesh_action list" where
  "mn_queryNeighbors now s0 =
     (let s = mn_startQuery now s0; target = ZB_NWK_ADDR_COORDINATOR in
      if \<not> mn_lqiPending s \<or> \<not> mn_reached now (mn_lqiRetryAt s) then (s, [])
      else if 6 \<le> mn_lqiTries s then (s\<lparr>mn_lqiPending := False\<rparr>, [])
      else
        (s\<lparr>mn_lqiTries := mn_lqiTries s + 1, mn_lqiRetryAt := now + 2500\<rparr>,
         [TxZdo (mn_pan s) (mn_hopOr s target target) (mn_own s) target (mn_own s) ZDO_MGMT_LQI_REQ
            (bytes_of (zd_buildMgmtLqiRequest (Some 2) (mn_lqiSeq s) 0)) kDefaultRadius True]))"

text \<open>The two tiers of the repair: a stall over 60 s scans again, one over 25 s drops the route.\<close>

definition mn_stalled :: "u32 \<Rightarrow> mesh_node \<Rightarrow> int \<Rightarrow> bool" where
  "mn_stalled now s ms \<longleftrightarrow> mn_lastApsOkAt s \<noteq> 0 \<and> ms < sint (now - mn_lastApsOkAt s)"

definition mn_serviceRouteDiscovery ::
  "mesh_config \<Rightarrow> heard \<Rightarrow> u32 \<Rightarrow> u32 \<Rightarrow> mesh_node \<Rightarrow> (mesh_node \<times> mesh_action list) option"
where
  "mn_serviceRouteDiscovery cfg heard scanned now s =
     (if \<not> mg_end cfg \<or> \<not> mn_joined s then Some (s, [])
      else if mn_stalled now s 60000 then
        mn_runActiveScan cfg heard scanned
          ((mn_dropRoute ZB_NWK_ADDR_COORDINATOR s)\<lparr>mn_lastApsOkAt := now, mn_lastRouteRepairAt := 0\<rparr>)
      else if mn_stalled now s 25000 \<and>
              (mn_lastRouteRepairAt s = 0 \<or> 8000 < sint (now - mn_lastRouteRepairAt s)) then
        let s = mn_dropRoute ZB_NWK_ADDR_COORDINATOR s in
        Some (s\<lparr>mn_routing := zr_expire (mn_routing s) now, mn_nextDiscoveryAt := now, mn_lastRouteRepairAt := now\<rparr>, [])
      else
        let s = s\<lparr>mn_routing := zr_expire (mn_routing s) now\<rparr> in
        if \<not> zr_routeIsActive (mn_routing s) ZB_NWK_ADDR_COORDINATOR
        then Some (mn_discover ZB_NWK_ADDR_COORDINATOR now s)
        else
          let (s, a) = mn_sendPeriodic cfg now s; (s, b) = mn_queryNeighbors now s in Some (s, a @ b))"

section \<open>Link status and aging\<close>

definition mn_serviceLinkStatusAndAging :: "mesh_config \<Rightarrow> u32 \<Rightarrow> mesh_node \<Rightarrow> mesh_node \<times> mesh_action list" where
  "mn_serviceLinkStatusAndAging cfg now s =
     (if \<not> mn_joined s \<or> \<not> mg_parentCapable cfg \<or> \<not> nw_linkStatusDue now (mn_net s) then (s, [])
      else
        let net = nw_markLinkStatusSent now (mn_net s);
            entries = nw_collectLinkStatusEntries 16 net;
            sent = (case nwk_buildLinkStatusPayload (Some 49) (Some entries) (of_nat (length entries)) True True of
                      None \<Rightarrow> []
                    | Some p \<Rightarrow> [TxNwkCommand (mn_pan s) kBroadcastShort (mn_own s) kBroadcastAllRouters (mn_own s)
                        NWK_CMD_LINK_STATUS p 1 False]);
            (net, _, parentLost) = nw_ageNeighbors now net;
            (net, rejoining) = (if parentLost then nw_rejoinParent net else (net, False))
        in (if rejoining then s\<lparr>mn_net := net, mn_announced := False, mn_nextActionAt := now\<rparr> else s\<lparr>mn_net := net\<rparr>,
            sent))"

section \<open>Joining\<close>

definition mn_announce :: "mesh_config \<Rightarrow> mesh_node \<Rightarrow> mesh_node \<times> mesh_action list" where
  "mn_announce cfg s =
     (if mn_joined s \<and> \<not> mn_announced s then mn_sendDeviceAnnounce cfg (s\<lparr>mn_announced := True\<rparr>) else (s, []))"

definition mn_requestAssociation :: "mesh_config \<Rightarrow> u32 \<Rightarrow> mesh_node \<Rightarrow> mesh_node \<times> mesh_action list" where
  "mn_requestAssociation cfg now s =
     (s\<lparr>mn_net := nw_noteJoinAttempt (mn_net s), mn_nextActionAt := now + 3000\<rparr>,
      [TxAssocRequest (ca_panId (mn_chosen s)) (ca_shortAddress (mn_chosen s)) (mg_ieee cfg) (mg_capability cfg) True])"

definition mn_joinStep ::
  "mesh_config \<Rightarrow> heard \<Rightarrow> u32 \<Rightarrow> u32 \<Rightarrow> mesh_node \<Rightarrow> (mesh_node \<times> mesh_action list) option"
where
  "mn_joinStep cfg heard scanned now s =
     (if mg_coordinator cfg then Some (s, [])
      else if (ni_state (nw_info (mn_net s)) = ZB_NWK_STATE_IDLE \<or> nw_isScanning (mn_net s)) \<and>
              mn_reached now (mn_nextActionAt s)
      then mn_runActiveScan cfg heard scanned s
      else if nw_isJoining (mn_net s) \<and> mn_reached now (mn_nextActionAt s) \<and>
              MAX_ASSOC_ATTEMPTS \<le> nw_joinAttempts (mn_net s)
      then mn_runActiveScan cfg heard scanned (s\<lparr>mn_net := nw_resetJoinAttempts (mn_net s)\<rparr>)
      else
        let (s, a) = (if nw_isJoining (mn_net s) \<and> mn_reached now (mn_nextActionAt s)
                      then mn_requestAssociation cfg now s else (s, []));
            (s, b) = mn_announce cfg s
        in Some (s, a @ b))"

section \<open>The loop and the start\<close>

definition mn_persist :: "mesh_config \<Rightarrow> u32 \<Rightarrow> mesh_node \<Rightarrow> mesh_node \<times> mesh_action list" where
  "mn_persist cfg now s =
     (if (mn_joined s \<or> mg_coordinator cfg) \<and> mn_reached now (mn_nextSaveAt s)
      then (s\<lparr>mn_nextSaveAt := now + 20000\<rparr>, [SaveNode]) else (s, []))"

record loop_input =
  li_events :: "(u32 \<times> bool \<times> radio_event) list"
  li_now :: u32
  li_repairScan :: heard
  li_repaired :: u32
  li_joinScan :: heard
  li_scanned :: u32

definition mn_loop :: "mesh_config \<Rightarrow> loop_input \<Rightarrow> mesh_node \<Rightarrow> (mesh_node \<times> mesh_action list) option" where
  "mn_loop cfg inp s = do {
     let now = li_now inp;
     (s, a) \<leftarrow> mn_events cfg (li_events inp) s;
     let (s, b) = mn_serviceLinkStatusAndAging cfg now s;
     (s, c) \<leftarrow> mn_serviceRouteDiscovery cfg (li_repairScan inp) (li_repaired inp) now s;
     let (s, d) = mn_sendPendingMgmtLqiRsp now s;
     let (s, e) = mn_serviceApsRetx now s;
     let s = (if mg_router cfg \<and> mn_joined s then mn_becomeParent cfg now s else s);
     let (s, f) = mn_persist cfg now s;
     (s, g) \<leftarrow> mn_joinStep cfg (li_joinScan inp) (li_scanned inp) now s;
     Some (s, a @ b @ c @ d @ e @ f @ g)
   }"

definition mn_init :: mesh_node where
  "mn_init = \<lparr>mn_net = nw_attachNeighborTable (Some (replicate 8 neighbor0)) nw_init,
     mn_routing = zr_attachRouteTable zr_init (Some (replicate 8 route0)), mn_chosen = candidate0,
     mn_scanChannel = 0, mn_pendingRreqId = 0, mn_nextDiscoveryAt = 0, mn_nextActionAt = 0, mn_forwarded = 0,
     mn_announced = False, mn_parentReady = False, mn_zdoSequence = 0,
     mn_retx = rx_begin (Some (replicate 4 pending0)), mn_dupe = du_begin (Some (replicate 6 dupe0)),
     mn_apsDuplicates = 0, mn_apsCounter = 0, mn_apsSeq = 0, mn_nextApsSendAt = 0, mn_lastApsOkAt = 0,
     mn_lastRouteRepairAt = 0, mn_nextLqiCycleAt = 20000, mn_lqiPending = False, mn_lqiRetryAt = 0, mn_lqiSeq = 0,
     mn_lqiTries = 0, mn_pendingLqiRsp = False, mn_lqiRspTo = 0, mn_lqiRspSeq = 0, mn_lqiRspStart = 0,
     mn_nextSaveAt = 0\<rparr>"

text \<open>The three starts of \<open>setup\<close>; \<open>r\<close> is the driver object the coordinator and the restored device give
  their saved frame counter to.\<close>

definition mn_setup ::
  "mesh_config \<Rightarrow> bool \<times> persistent_state \<Rightarrow> heard \<Rightarrow> u32 \<Rightarrow> u32 \<Rightarrow> radio
     \<Rightarrow> (mesh_node \<times> radio \<times> mesh_action list) option"
where
  "mn_setup cfg loaded heard scanned now r =
     (if mg_coordinator cfg then
        (case sk_startCoordinator (mg_coord cfg) loaded now (mn_net mn_init) r of
           (net, r) \<Rightarrow> Some (mn_init\<lparr>mn_net := net\<rparr>, r,
                         [ApplyAddress (cs_panId (mg_coord cfg)) ZB_NWK_ADDR_COORDINATOR]))
      else if fst loaded then
        (let saved = snd loaded in
         case sk_restoreDevice saved now (mn_net mn_init) (Some (replicate 8 route0)) r of
           (net, routes, r) \<Rightarrow>
             let s = mn_init\<lparr>mn_net := net, mn_routing := zr_attachRouteTable zr_init routes\<rparr>;
                 s = (if mg_router cfg then mn_becomeParent cfg now s else s)
             in Some (s\<lparr>mn_announced := True\<rparr>, r,
                  [SetChannel (ps_channel saved), ApplyAddress (ps_panId saved) (ps_nwkAddress saved),
                   SetPromiscuous False]))
      else map_option (\<lambda>(s, acts). (s, r, acts)) (mn_runActiveScan cfg heard scanned mn_init))"

section \<open>The driver's part\<close>

text \<open>The frame a transmission hands to the module, and the driver after it. The commands that only set
  the module up (\<open>SetChannel\<close>, \<open>SetPromiscuous\<close>, \<open>ApplyAddress\<close>) send no frame.\<close>

definition mesh_perform :: "block_cipher \<Rightarrow> mesh_action \<Rightarrow> radio \<Rightarrow> (u8 list option \<times> radio) option" where
  "mesh_perform ecb act r =
     (case act of
        TxBeacon pan src coord permit p \<Rightarrow> Some (radio_sendBeacon pan src coord permit p r)
      | TxBeaconRequest \<Rightarrow> Some (radio_sendBeaconRequest r)
      | TxAssocRequest pan coord ieee capability ack \<Rightarrow> Some (radio_sendAssociationRequest pan coord ieee capability ack r)
      | TxAssocResponse pan ieee src assigned status ack \<Rightarrow>
          Some (radio_sendAssociationResponse pan ieee src assigned status ack r)
      | TxNwkData pan macDst macSrc dst src p radius ack \<Rightarrow> radio_sendNwkData ecb pan macDst macSrc dst src p radius ack r
      | TxNwkCommand pan macDst macSrc dst src cmd p radius ack \<Rightarrow>
          radio_sendNwkCommand ecb pan macDst macSrc dst src cmd p radius ack r
      | TxZdo pan macDst macSrc dst src cluster p radius ack \<Rightarrow>
          radio_sendZdoCommand ecb pan macDst macSrc dst src cluster p radius ack r
      | ResetReplayPeer ieee \<Rightarrow> Some (None, r\<lparr>cc_security := map_option (sc_resetReplayPeer ieee) (cc_security r)\<rparr>)
      | ResetReplayTable \<Rightarrow> Some (None, r\<lparr>cc_security := map_option sc_resetReplayTable (cc_security r)\<rparr>)
      | _ \<Rightarrow> Some (None, r))"

definition mn_applyAddress ::
  "block_cipher \<Rightarrow> mesh_config \<Rightarrow> u16 \<Rightarrow> u16 \<Rightarrow> u8 list \<Rightarrow> radio
     \<Rightarrow> u8 list \<times> (bool \<times> radio \<times> radio_event list \<times> u8 list) option"
where
  "mn_applyAddress ecb cfg panId shortAddress bytes r =
     (case radio_setAddress ecb panId shortAddress (Some (le64 (mg_ieee cfg))) bytes r of
        (w, None) \<Rightarrow> (w, None)
      | (w, Some (False, r, evs, rest)) \<Rightarrow> (w, Some (False, r, evs, rest))
      | (w, Some (True, r, evs, rest)) \<Rightarrow>
          (case radio_configureMac ecb (0x01 OR 0x02 OR 0x04) 5 rest r of
             (w', res) \<Rightarrow> (w @ w', map_option (\<lambda>(ok, r, evs', rest). (ok, r, evs @ evs', rest)) res)))"

end
