(* ===== verification/ZbMesh.thy ===== *)
theory ZbMesh
  imports ZbNodeLoop ZbHop
begin

text \<open>
  Mesh nodes composed with their drivers: a frame that one node sends is relayed by the routers on its
  path and delivered by the last node, over the drivers, the security layer and the serial lines of
  all of them.
\<close>

section \<open>Stations\<close>

record station =
  sn_cfg :: mesh_config
  sn_node :: mesh_node
  sn_radio :: radio

definition sn_own :: "station \<Rightarrow> u16" where
  "sn_own st = mn_own (sn_node st)"

text \<open>The module forwards a PSDU; \<open>poll\<close> runs the callbacks, whose driver calls all succeed.\<close>

definition station_receive ::
  "block_cipher \<Rightarrow> u32 \<Rightarrow> u8 \<Rightarrow> u8 \<Rightarrow> u8 list \<Rightarrow> station \<Rightarrow> (station \<times> mesh_action list) option"
where
  "station_receive ecb now rssi lqi psdu st = do {
     (r, evs) \<leftarrow> radio_poll ecb (radio_sendFrame RSP_RX_FRAME (rssi # lqi # psdu)) (sn_radio st);
     (s, acts) \<leftarrow> mn_events (sn_cfg st) (map (\<lambda>ev. (now, True, ev)) evs) (sn_node st);
     Some (st\<lparr>sn_node := s, sn_radio := r\<rparr>, acts)
   }"

definition station_send :: "block_cipher \<Rightarrow> mesh_action \<Rightarrow> station \<Rightarrow> (u8 list option \<times> station) option" where
  "station_send ecb act st =
     map_option (\<lambda>(psdu, r). (psdu, st\<lparr>sn_radio := r\<rparr>)) (mesh_perform ecb act (sn_radio st))"

text \<open>A PSDU carried along a chain of stations: each but the last must answer it with one frame.\<close>

fun mesh_carry ::
  "block_cipher \<Rightarrow> u32 \<Rightarrow> u8 \<Rightarrow> u8 \<Rightarrow> u8 list \<Rightarrow> station list \<Rightarrow> (station list \<times> mesh_action list) option"
where
  "mesh_carry ecb now rssi lqi psdu [] = None"
| "mesh_carry ecb now rssi lqi psdu [st] =
     map_option (\<lambda>(st, acts). ([st], acts)) (station_receive ecb now rssi lqi psdu st)"
| "mesh_carry ecb now rssi lqi psdu (st # x # sts) =
     (case station_receive ecb now rssi lqi psdu st of
        Some (st, [act]) \<Rightarrow>
          (case station_send ecb act st of
             Some (Some psdu, st) \<Rightarrow> map_option (\<lambda>(sts, out). (st # sts, out)) (mesh_carry ecb now rssi lqi psdu (x # sts))
           | _ \<Rightarrow> None)
      | _ \<Rightarrow> None)"

section \<open>A path\<close>

definition mesh_callbacks :: callbacks where
  "mesh_callbacks = callbacks0\<lparr>cb_macCommand := True, cb_nwkCommand := True, cb_nwk := True, cb_zdo := True,
     cb_aps := True, cb_apsAck := True\<rparr>"

text \<open>A joined node whose driver is at rest and holds a network key.\<close>

definition station_ok :: "station \<Rightarrow> bool" where
  "station_ok st \<longleftrightarrow>
     radio_ok (sn_radio st) \<and> cc_state (sn_radio st) = 0 \<and> \<not> cc_promiscuous (sn_radio st) \<and>
     cc_cb (sn_radio st) = mesh_callbacks \<and> cc_localShortAddress (sn_radio st) = sn_own st \<and>
     (\<exists>sec. cc_security (sn_radio st) = Some sec \<and> sc_hasKey sec \<and> length (sc_key sec) = 16) \<and>
     mn_joined (sn_node st) \<and> sn_own st < 0xFFF8 \<and> zr_wf (mn_routing (sn_node st)) \<and>
     zr_has_routes (mn_routing (sn_node st))"

text \<open>\<open>b\<close> can open what \<open>a\<close> sends next, and does not ignore \<open>a\<close>.\<close>

definition mesh_link :: "station \<Rightarrow> station \<Rightarrow> bool" where
  "mesh_link a b \<longleftrightarrow>
     (case (cc_security (sn_radio a), cc_security (sn_radio b)) of
        (Some tx, Some rx) \<Rightarrow>
          sc_selectKey (sc_keySequence tx) rx = Some (sc_key tx) \<and>
          fst (sc_replayCheckAndUpdate (cc_securityIeee (sn_radio a)) (sc_keySequence tx)
                 (cc_securityCounter (sn_radio a) + 1) (sc_replay rx)) = ReplayFresh
      | _ \<Rightarrow> False) \<and>
     \<not> mg_ignoredShort (sn_cfg b) (sn_own a)"

text \<open>A relay for frames from \<open>src\<close> to \<open>dst\<close>: a router whose route to \<open>dst\<close> leads to the next station and
  whose route table has room for \<open>src\<close>.\<close>

definition mesh_relay :: "u16 \<Rightarrow> u16 \<Rightarrow> station \<Rightarrow> station \<Rightarrow> bool" where
  "mesh_relay src dst st x \<longleftrightarrow>
     mg_parentCapable (sn_cfg st) \<and> sn_own st \<noteq> src \<and> sn_own st \<noteq> dst \<and>
     zr_nextHopFor (mn_routing (sn_node st)) dst = sn_own x \<and>
     (case zr_routes (mn_routing (sn_node st)) of None \<Rightarrow> False | Some t \<Rightarrow> rt_room t src)"

fun mesh_path :: "u16 \<Rightarrow> u16 \<Rightarrow> station \<Rightarrow> station list \<Rightarrow> bool" where
  "mesh_path src dst a [] \<longleftrightarrow> False"
| "mesh_path src dst a [d] \<longleftrightarrow> station_ok d \<and> mesh_link a d \<and> sn_own d = dst"
| "mesh_path src dst a (r # x # sts) \<longleftrightarrow>
     station_ok r \<and> mesh_link a r \<and> mesh_relay src dst r x \<and> mesh_path src dst r (x # sts)"

section \<open>One relay\<close>

lemma zr_learn:
  assumes "zr_wf z" "zr_has_routes z"
  shows "zr_nextHopFor (zr_upsert z src hop ZB_ROUTE_ACTIVE now) src = hop"
    and "(case zr_routes z of None \<Rightarrow> False | Some t \<Rightarrow> rt_room t src) \<Longrightarrow> dst \<noteq> src \<Longrightarrow>
      zr_nextHopFor (zr_upsert z src hop ZB_ROUTE_ACTIVE now) dst = zr_nextHopFor z dst"
  using assms
  by (auto simp: zr_nextHopFor_def zr_upsert_def zr_wf_def zr_has_routes_def rt_upsert_at rt_upsert_other(2)
      split: option.splits)

lemma learn_simps [simp]:
  "mn_joined (mn_learnRoute mac nwk now s) = mn_joined s" "mn_own (mn_learnRoute mac nwk now s) = mn_own s"
  "mn_pan (mn_learnRoute mac nwk now s) = mn_pan s" "mn_dupe (mn_learnRoute mac nwk now s) = mn_dupe s"
  by (simp_all add: mn_learnRoute_def mn_joined_def mn_own_def mn_pan_def)

text \<open>The sender's side of a hop is all that the next station depends on.\<close>

definition same_sender :: "station \<Rightarrow> station \<Rightarrow> bool" where
  "same_sender a a' \<longleftrightarrow> radio_sameKeys (sn_radio a) (sn_radio a') \<and>
     cc_securityCounter (sn_radio a') = cc_securityCounter (sn_radio a) \<and> sn_own a' = sn_own a"

lemma mesh_link_sender: "same_sender a a' \<Longrightarrow> mesh_link a b \<Longrightarrow> mesh_link a' b"
  by (auto simp: mesh_link_def same_sender_def radio_sameKeys_def sc_sameKeys_def option.rel_sel
      split: option.splits)

lemma mesh_path_sender: "same_sender a a' \<Longrightarrow> mesh_path src dst a p \<Longrightarrow> mesh_path src dst a' p"
  by (cases "(src, dst, a, p)" rule: mesh_path.cases) (auto intro: mesh_link_sender)

lemma station_receives:
  assumes "ecb_works ecb" "station_ok a" "station_ok b" "mesh_link a b" "8 \<le> length apdu" "length apdu \<le> 90"
  obtains psdu a' r frame nwk where
    "station_send ecb (TxNwkData pan macDst (sn_own a) dst src apdu radius ack) a = Some (Some psdu, a')"
    "radio_sameKeys (sn_radio b) r" "cc_securityCounter r = cc_securityCounter (sn_radio b)" "radio_ok r" "cc_state r = 0"
    "md_srcShort frame = sn_own a" "nf_srcShort nwk = src" "nf_dstShort nwk = dst" "nf_radius nwk = radius"
    "nd_payload nwk = Some apdu" "nd_payloadLen nwk = length apdu"
    "\<And>up. (if dst = sn_own b \<or> 0xFFF8 \<le> dst
         then radio_apsEvents mesh_callbacks frame nwk (rssi - 73) lqi else Some []) = Some up \<Longrightarrow>
       radio_poll ecb (radio_sendFrame RSP_RX_FRAME (rssi # lqi # psdu)) (sn_radio b) =
         Some (r, EvNwk frame nwk (rssi - 73) lqi # up)"
proof -
  obtain tx rx where s: "cc_security (sn_radio a) = Some tx" "sc_hasKey tx" "length (sc_key tx) = 16"
    "cc_security (sn_radio b) = Some rx" "sc_hasKey rx"
    using assms(2,3) by (auto simp: station_ok_def)
  have l: "sc_selectKey (sc_keySequence tx) rx = Some (sc_key tx)"
    "fst (sc_replayCheckAndUpdate (cc_securityIeee (sn_radio a)) (sc_keySequence tx)
        (cc_securityCounter (sn_radio a) + 1) (sc_replay rx)) = ReplayFresh"
    using assms(4) s by (simp_all add: mesh_link_def)
  have b: "radio_ok (sn_radio b)" "cc_state (sn_radio b) = 0" "\<not> cc_promiscuous (sn_radio b)"
    "cc_cb (sn_radio b) = mesh_callbacks" "cc_localShortAddress (sn_radio b) = sn_own b"
    using assms(3) by (simp_all add: station_ok_def)
  have cb: "cb_nwk (cc_cb (sn_radio b)) \<or> cb_zcl (cc_cb (sn_radio b))" "\<not> cb_rx mesh_callbacks"
    "\<not> cb_data mesh_callbacks" "cb_nwk mesh_callbacks" by (simp_all add: b(4) mesh_callbacks_def callbacks0_def)
  obtain psdu a' b' frame nwk where
    h: "radio_sendNwkData ecb pan macDst (sn_own a) dst src apdu radius ack (sn_radio a) = Some (Some psdu, a')"
    "radio_sameKeys (sn_radio b) b'" "cc_securityCounter b' = cc_securityCounter (sn_radio b)" "radio_ok b'" "cc_state b' = 0"
    "md_srcShort frame = sn_own a"
    and nwk: "nwk = nwk_data_frame0\<lparr>nf_valid := True, nf_protocolVersion := 2, nf_dstShort := dst, nf_srcShort := src,
       nf_radius := radius, nf_sequence := cc_nwkSequence (sn_radio a), nd_payload := Some apdu, nd_payloadLen := length apdu\<rparr>"
    and poll: "\<And>up. (if radio_localDestination (sn_radio b) nwk
         then radio_apsEvents (cc_cb (sn_radio b)) frame nwk (rssi - 73) lqi else Some []) = Some up \<Longrightarrow>
       radio_poll ecb (radio_sendFrame RSP_RX_FRAME (rssi # lqi # psdu)) (sn_radio b) =
         Some (b', (if cb_rx (cc_cb (sn_radio b)) then [EvRx psdu (rssi - 73) lqi] else []) @
           (if cb_data (cc_cb (sn_radio b)) then [EvData frame (rssi - 73) lqi] else []) @
           (if cb_nwk (cc_cb (sn_radio b)) then [EvNwk frame nwk (rssi - 73) lqi] else []) @ up)"
    by (rule data_hop [OF assms(1) s(1-3) b(1-3) s(4,5) l(1) cb(1) l(2) assms(5,6), of pan macDst "sn_own a" dst src
          radius ack rssi lqi]) (rule that, assumption+)
  have local: "radio_localDestination (sn_radio b) nwk \<longleftrightarrow> dst = sn_own b \<or> 0xFFF8 \<le> dst"
    by (simp add: radio_localDestination_def nwk b(5))
  have sent: "station_send ecb (TxNwkData pan macDst (sn_own a) dst src apdu radius ack) a = Some (Some psdu, a\<lparr>sn_radio := a'\<rparr>)"
    using h(1) by (simp add: station_send_def mesh_perform_def)
  show thesis
  proof (rule that [OF sent h(2-6)])
    show "radio_poll ecb (radio_sendFrame RSP_RX_FRAME (rssi # lqi # psdu)) (sn_radio b) =
        Some (b', EvNwk frame nwk (rssi - 73) lqi # up)"
      if "(if dst = sn_own b \<or> 0xFFF8 \<le> dst
         then radio_apsEvents mesh_callbacks frame nwk (rssi - 73) lqi else Some []) = Some up" for up
      using poll [unfolded local b(4), OF that] cb(2-4) by simp
  qed (simp_all add: nwk)
qed

lemma station_relays:
  assumes "ecb_works ecb" "station_ok a" "station_ok b" "mesh_link a b" "8 \<le> length apdu" "length apdu \<le> 90"
    and "mesh_relay src dst b x" "station_ok x" "src < 0xFFF8" "dst < 0xFFF8" "src \<noteq> dst" "1 < radius"
  obtains psdu a' b' where
    "station_send ecb (TxNwkData pan macDst (sn_own a) dst src apdu radius ack) a = Some (Some psdu, a')"
    "station_receive ecb now rssi lqi psdu b =
       Some (b', [TxNwkData (mn_pan (sn_node b)) (sn_own x) (sn_own b) dst src apdu (radius - 1) True])"
    "station_ok b'" "same_sender b b'" "zr_nextHopFor (mn_routing (sn_node b')) src = sn_own a"
proof -
  obtain psdu a' r frame nwk where
    sent: "station_send ecb (TxNwkData pan macDst (sn_own a) dst src apdu radius ack) a = Some (Some psdu, a')"
    and r: "radio_sameKeys (sn_radio b) r" "cc_securityCounter r = cc_securityCounter (sn_radio b)" "radio_ok r" "cc_state r = 0"
    and f: "md_srcShort frame = sn_own a" "nf_srcShort nwk = src" "nf_dstShort nwk = dst" "nf_radius nwk = radius"
    "nd_payload nwk = Some apdu" "nd_payloadLen nwk = length apdu"
    and poll: "\<And>up. (if dst = sn_own b \<or> 0xFFF8 \<le> dst
         then radio_apsEvents mesh_callbacks frame nwk (rssi - 73) lqi else Some []) = Some up \<Longrightarrow>
       radio_poll ecb (radio_sendFrame RSP_RX_FRAME (rssi # lqi # psdu)) (sn_radio b) =
         Some (r, EvNwk frame nwk (rssi - 73) lqi # up)"
    by (rule station_receives [OF assms(1-6), of pan macDst dst src radius ack rssi lqi]) (rule that, assumption+)
  have b: "mn_joined (sn_node b)" "zr_wf (mn_routing (sn_node b))" "zr_has_routes (mn_routing (sn_node b))"
    "\<not> mg_ignoredShort (sn_cfg b) (sn_own a)" "sn_own a < 0xFFF8" "sn_own x < 0xFFF8"
    using assms(2-4,8) by (simp_all add: station_ok_def mesh_link_def)
  have m: "mg_parentCapable (sn_cfg b)" "sn_own b \<noteq> src" "sn_own b \<noteq> dst"
    "zr_nextHopFor (mn_routing (sn_node b)) dst = sn_own x"
    "case zr_routes (mn_routing (sn_node b)) of None \<Rightarrow> False | Some t \<Rightarrow> rt_room t src"
    using assms(7) by (simp_all add: mesh_relay_def)
  have nl: "\<not> (dst = sn_own b \<or> 0xFFF8 \<le> dst)" using m(3) assms(10) by auto
  let ?s = "mn_learnRoute frame nwk now (sn_node b)"
  have learn: "mn_routing ?s = zr_upsert (mn_routing (sn_node b)) src (sn_own a) ZB_ROUTE_ACTIVE now"
    using m(2) b(5) assms(9) by (simp add: mn_learnRoute_def f sn_own_def)
  have hop: "zr_nextHopFor (mn_routing ?s) dst = sn_own x" "zr_nextHopFor (mn_routing ?s) src = sn_own a"
    unfolding learn using zr_learn [OF b(2,3)] m(4,5) assms(11) by simp_all
  let ?b = "b\<lparr>sn_node := ?s\<lparr>mn_forwarded := mn_forwarded ?s + 1\<rparr>, sn_radio := r\<rparr>"
  have no: "sn_own x \<noteq> kNoNextHop" using b(6) by (auto simp: kNoNextHop_def)
  have "mn_onNwkData (sn_cfg b) frame nwk True now (sn_node b) = (?s\<lparr>mn_forwarded := mn_forwarded ?s + 1\<rparr>,
      [TxNwkData (mn_pan (sn_node b)) (sn_own x) (sn_own b) dst src apdu (radius - 1) True])"
    unfolding mn_onNwkData_def mn_forward_def Let_def using b m(1,3) nl hop(1) no assms(6,12) f by (simp add: sn_own_def not_le)
  then have rec: "station_receive ecb now rssi lqi psdu b =
      Some (?b, [TxNwkData (mn_pan (sn_node b)) (sn_own x) (sn_own b) dst src apdu (radius - 1) True])"
    using poll [of "[]"] nl by (simp add: station_receive_def mn_event_def)
  have own: "sn_own ?b = sn_own b" using learn_simps(2) by (simp add: sn_own_def mn_own_def)
  have "station_ok ?b" using assms(3) r learn b own
    by (auto simp: station_ok_def radio_sameKeys_def sc_sameKeys_def option.rel_sel mn_joined_def mn_learnRoute_def)
  then show thesis
    by (rule that [OF sent rec]) (use r own hop(2) in \<open>simp_all add: same_sender_def\<close>)
qed

section \<open>The last station\<close>

text \<open>The acknowledged data frame of the sketch, and what the node it is for does with it.\<close>

definition mesh_apdu :: "u8 \<Rightarrow> u8 list \<Rightarrow> u8 list" where
  "mesh_apdu ctr msg = bytes_of (aps_buildDataFrame (Some aps_kMaxFrame) APS_ENDPOINT APS_CLUSTER APS_PROFILE
     APS_ENDPOINT ctr (Some msg) (length msg) True)"

definition mesh_ack :: "u8 \<Rightarrow> u8 list" where
  "mesh_ack ctr = bytes_of (aps_buildAckFrame (Some aps_kBaseHeaderLen) APS_ENDPOINT APS_CLUSTER APS_PROFILE APS_ENDPOINT ctr)"

definition mesh_delivered :: "u16 \<Rightarrow> station \<Rightarrow> u16 \<Rightarrow> u8 \<Rightarrow> u8 list \<Rightarrow> mesh_action list" where
  "mesh_delivered hop d src ctr msg =
     [TxNwkData (mn_pan (sn_node d)) hop (sn_own d) src (sn_own d) (mesh_ack ctr) kDefaultRadius True,
      PrintData src ctr msg]"

lemma mesh_apdu_facts:
  assumes "length msg \<le> 82"
  obtains aps where "length (mesh_apdu ctr msg) = 8 + length msg" "aps_frameType (Some (mesh_apdu ctr msg)) = Some 0"
    "aps_parseDataFrame (Some (mesh_apdu ctr msg)) = Some (True, aps)"
    "aps = aps_data_frame0\<lparr>ap_valid := True, ap_ackRequest := True, ap_dstEndpoint := APS_ENDPOINT,
       ap_clusterId := APS_CLUSTER, ap_profileId := APS_PROFILE, ap_srcEndpoint := APS_ENDPOINT,
       ap_counter := ctr, ap_payload := Some msg, ap_payloadLen := length msg\<rparr>"
proof -
  obtain bs where b: "aps_buildDataFrame (Some 108) APS_ENDPOINT APS_CLUSTER APS_PROFILE
     APS_ENDPOINT ctr (Some msg) (length msg) True = Some bs"
    using assms by (simp add: aps_buildDataFrame_def)
  have m: "mesh_apdu ctr msg = bs" using b by (simp add: mesh_apdu_def bytes_of_def aps_kMaxFrame_def)
  show thesis
    by (rule that, unfold m) (rule aps_data_roundtrip [OF b] aps_data_type [OF b] refl)+
qed

lemma station_delivers:
  assumes "ecb_works ecb" "station_ok a" "station_ok b" "mesh_link a b" "length msg \<le> 82"
    and "sn_own b = dst" "src < 0xFFF8" "src \<noteq> dst"
    and "du_checkAndRecord (mn_dupe (sn_node b)) src APS_ENDPOINT ctr now = Some (t, True)"
  obtains psdu a' b' where
    "station_send ecb (TxNwkData pan macDst (sn_own a) dst src (mesh_apdu ctr msg) radius ack) a = Some (Some psdu, a')"
    "station_receive ecb now rssi lqi psdu b = Some (b', mesh_delivered (sn_own a) b src ctr msg)"
    "zr_nextHopFor (mn_routing (sn_node b')) src = sn_own a"
proof -
  obtain aps where aps: "length (mesh_apdu ctr msg) = 8 + length msg" "aps_frameType (Some (mesh_apdu ctr msg)) = Some 0"
    "aps_parseDataFrame (Some (mesh_apdu ctr msg)) = Some (True, aps)"
    and aps': "aps = aps_data_frame0\<lparr>ap_valid := True, ap_ackRequest := True, ap_dstEndpoint := APS_ENDPOINT,
       ap_clusterId := APS_CLUSTER, ap_profileId := APS_PROFILE, ap_srcEndpoint := APS_ENDPOINT,
       ap_counter := ctr, ap_payload := Some msg, ap_payloadLen := length msg\<rparr>"
    by (rule mesh_apdu_facts [OF assms(5)]) (rule that)
  have len: "8 \<le> length (mesh_apdu ctr msg)" "length (mesh_apdu ctr msg) \<le> 90" using aps(1) assms(5) by simp_all
  obtain psdu a' r frame nwk where
    sent: "station_send ecb (TxNwkData pan macDst (sn_own a) dst src (mesh_apdu ctr msg) radius ack) a = Some (Some psdu, a')"
    and f: "md_srcShort frame = sn_own a" "nf_srcShort nwk = src" "nf_dstShort nwk = dst"
    "nd_payload nwk = Some (mesh_apdu ctr msg)" "nd_payloadLen nwk = length (mesh_apdu ctr msg)"
    and poll: "\<And>up. (if dst = sn_own b \<or> 0xFFF8 \<le> dst
         then radio_apsEvents mesh_callbacks frame nwk (rssi - 73) lqi else Some []) = Some up \<Longrightarrow>
       radio_poll ecb (radio_sendFrame RSP_RX_FRAME (rssi # lqi # psdu)) (sn_radio b) =
         Some (r, EvNwk frame nwk (rssi - 73) lqi # up)"
    by (rule station_receives [OF assms(1-4) len, of pan macDst dst src radius ack rssi lqi]) (rule that, assumption+)
  have up: "radio_apsEvents mesh_callbacks frame nwk (rssi - 73) lqi = Some [EvAps frame nwk aps (rssi - 73) lqi]"
    unfolding radio_apsEvents_def Let_def f ptr_take_all using aps(2,3)
    by (simp add: mesh_callbacks_def callbacks0_def aps' aps_data_frame0_def)
  have polled: "radio_poll ecb (radio_sendFrame RSP_RX_FRAME (rssi # lqi # psdu)) (sn_radio b) =
         Some (r, [EvNwk frame nwk (rssi - 73) lqi, EvAps frame nwk aps (rssi - 73) lqi])"
    by (rule poll) (simp add: assms(6) up)
  have b: "mn_joined (sn_node b)" "zr_wf (mn_routing (sn_node b))" "zr_has_routes (mn_routing (sn_node b))"
    "\<not> mg_ignoredShort (sn_cfg b) (sn_own a)" "sn_own a < 0xFFF8" "mn_own (sn_node b) = dst"
    using assms(2-4,6) by (simp_all add: station_ok_def mesh_link_def sn_own_def)
  let ?s = "mn_learnRoute frame nwk now (sn_node b)"
  have "mn_routing ?s = zr_upsert (mn_routing (sn_node b)) src (sn_own a) ZB_ROUTE_ACTIVE now"
    using assms(7,8) b(5,6) by (auto simp: mn_learnRoute_def f)
  then have hop: "zr_nextHopFor (mn_routing ?s) src = sn_own a" using zr_learn(1) [OF b(2,3)] by simp
  have no: "sn_own a \<noteq> kNoNextHop" using b(5) by (auto simp: kNoNextHop_def)
  have data: "mn_onNwkData (sn_cfg b) frame nwk True now (sn_node b) = (?s, [])"
    unfolding mn_onNwkData_def mn_forward_def Let_def using b(1,4,6) f(1,3) by simp
  have ack: "mn_apsAck frame nwk aps (?s\<lparr>mn_dupe := t\<rparr>) = [hd (mesh_delivered (sn_own a) b src ctr msg)]"
    using hop no b(6)
    by (simp add: mn_apsAck_def aps' aps_data_frame0_def mesh_delivered_def mesh_ack_def mn_hopOr_def f sn_own_def
        mn_pan_def mn_own_def mn_learnRoute_def)
  have app: "mn_onApsData frame nwk aps now ?s = Some (?s\<lparr>mn_dupe := t\<rparr>, mesh_delivered (sn_own a) b src ctr msg)"
    unfolding mn_onApsData_def using assms(9) ack
    by (simp add: aps' aps_data_frame0_def f mesh_delivered_def)
  have "station_receive ecb now rssi lqi psdu b =
      Some (b\<lparr>sn_node := ?s\<lparr>mn_dupe := t\<rparr>, sn_radio := r\<rparr>, mesh_delivered (sn_own a) b src ctr msg)"
    unfolding station_receive_def polled by (simp add: mn_event_def data app)
  with sent show thesis by (rule that) (use hop in simp)
qed

section \<open>The whole path\<close>

lemma mesh_carried:
  assumes "ecb_works ecb" "station_ok a" "mesh_path src dst a path" "length path \<le> unat radius"
    and "length msg \<le> 82" "src < 0xFFF8" "dst < 0xFFF8" "src \<noteq> dst"
    and "du_checkAndRecord (mn_dupe (sn_node (last path))) src APS_ENDPOINT ctr now = Some (t, True)"
  shows "\<exists>psdu a' sts.
    station_send ecb (TxNwkData pan (sn_own (hd path)) (sn_own a) dst src (mesh_apdu ctr msg) radius True) a = Some (Some psdu, a') \<and>
    mesh_carry ecb now rssi lqi psdu path = Some (sts, mesh_delivered (last (map sn_own (butlast (a # path)))) (last path) src ctr msg) \<and>
    map (\<lambda>s. zr_nextHopFor (mn_routing (sn_node s)) src) sts = map sn_own (butlast (a # path))"
  using assms(2-4,9)
proof (induction path arbitrary: a pan radius)
  case Nil
  then show ?case by simp
next
  case (Cons r path)
  show ?case
  proof (cases path)
    case Nil
    have d: "station_ok r" "mesh_link a r" "sn_own r = dst" using Cons.prems(2) Nil by simp_all
    have du: "du_checkAndRecord (mn_dupe (sn_node r)) src APS_ENDPOINT ctr now = Some (t, True)" using Cons.prems(4) Nil by simp
    obtain psdu a' r' where
      "station_send ecb (TxNwkData pan (sn_own r) (sn_own a) dst src (mesh_apdu ctr msg) radius True) a = Some (Some psdu, a')"
      "station_receive ecb now rssi lqi psdu r = Some (r', mesh_delivered (sn_own a) r src ctr msg)"
      "zr_nextHopFor (mn_routing (sn_node r')) src = sn_own a"
      by (rule station_delivers [OF assms(1) Cons.prems(1) d(1,2) assms(5) d(3) assms(6,8) du]) (rule that)
    then show ?thesis unfolding Nil by simp
  next
    case (Cons x sts)
    have p: "station_ok r" "mesh_link a r" "mesh_relay src dst r x" "mesh_path src dst r (x # sts)"
      using Cons.prems(2) Cons by simp_all
    have x: "station_ok x" using p(4) by (cases sts) simp_all
    have rad: "1 < radius" "length path \<le> unat (radius - 1)"
      using Cons.prems(3) Cons by (simp_all add: word_less_nat_alt unat_sub word_le_nat_alt)
    obtain apdu where apdu: "length (mesh_apdu ctr msg) = 8 + length msg"
      using mesh_apdu_facts [OF assms(5), of ctr] by metis
    have len: "8 \<le> length (mesh_apdu ctr msg)" "length (mesh_apdu ctr msg) \<le> 90" using apdu assms(5) by simp_all
    obtain psdu a' r' where h:
      "station_send ecb (TxNwkData pan (sn_own r) (sn_own a) dst src (mesh_apdu ctr msg) radius True) a = Some (Some psdu, a')"
      "station_receive ecb now rssi lqi psdu r =
         Some (r', [TxNwkData (mn_pan (sn_node r)) (sn_own x) (sn_own r) dst src (mesh_apdu ctr msg) (radius - 1) True])"
      "station_ok r'" "same_sender r r'" "zr_nextHopFor (mn_routing (sn_node r')) src = sn_own a"
      by (rule station_relays [OF assms(1) Cons.prems(1) p(1,2) len p(3) x assms(6,7,8) rad(1)]) (rule that)
    have own: "sn_own r' = sn_own r" using h(4) by (simp add: same_sender_def)
    have p': "mesh_path src dst r' path" using mesh_path_sender [OF h(4) p(4)] Cons by simp
    have du: "du_checkAndRecord (mn_dupe (sn_node (last path))) src APS_ENDPOINT ctr now = Some (t, True)"
      using Cons.prems(4) Cons by simp
    from Cons.IH [OF h(3) p' rad(2) du, of "mn_pan (sn_node r)"] obtain psdu' r'' sts' where ih:
      "station_send ecb (TxNwkData (mn_pan (sn_node r)) (sn_own x) (sn_own r) dst src (mesh_apdu ctr msg) (radius - 1) True) r' =
         Some (Some psdu', r'')"
      "mesh_carry ecb now rssi lqi psdu' (x # sts) =
         Some (sts', mesh_delivered (last (map sn_own (butlast (r' # path)))) (last path) src ctr msg)"
      "map (\<lambda>s. zr_nextHopFor (mn_routing (sn_node s)) src) sts' = map sn_own (butlast (r' # path))"
      unfolding own Cons by auto
    have rel: "zr_nextHopFor (mn_routing (sn_node r'')) src = sn_own a"
      using ih(1) h(5) by (auto simp: station_send_def)
    have "mesh_carry ecb now rssi lqi psdu (r # x # sts) =
        Some (r'' # sts', mesh_delivered (last (map sn_own (butlast (r' # path)))) (last path) src ctr msg)"
      using h(2) ih(1,2) by simp
    then show ?thesis using h(1) ih(3) rel own Cons by simp
  qed
qed

lemma mesh_path_dst: "mesh_path src dst a path \<Longrightarrow> path \<noteq> [] \<and> station_ok (last path) \<and> sn_own (last path) = dst"
  by (induction src dst a path rule: mesh_path.induct) (auto split: if_splits)

text \<open>C3: Multi-hop delivery. An application message of at most 82 bytes that a node sends to another one is
  relayed along a path of at most 29 routers whose routes lead to the next one, and the last node hands it to
  its application once and answers with an acknowledgement. Every frame of it is secured, framed, sent over
  the serial line, opened and authenticated again at each hop. Afterwards every node on the path has an
  active route back to the sender through the node it heard the frame from, so the acknowledgement
  goes the same way back.\<close>

theorem multi_hop_delivery:
  assumes "ecb_works ecb" "station_ok a" "mesh_path (sn_own a) dst a path" "length path \<le> 30"
    and "mn_hopOr (sn_node a) dst dst = sn_own (hd path)" "dst \<noteq> sn_own a" "length msg \<le> 82"
    and "du_checkAndRecord (mn_dupe (sn_node (last path))) (sn_own a) APS_ENDPOINT ctr now = Some (t, True)"
  shows "\<exists>psdu a' sts.
    station_send ecb (mn_sendApsRouted (sn_node a) dst (mesh_apdu ctr msg)) a = Some (Some psdu, a') \<and>
    mesh_carry ecb now rssi lqi psdu path =
      Some (sts, mesh_delivered (last (map sn_own (butlast (a # path)))) (last path) (sn_own a) ctr msg) \<and>
    map (\<lambda>s. zr_nextHopFor (mn_routing (sn_node s)) (sn_own a)) sts = map sn_own (butlast (a # path))"
proof -
  have "dst < 0xFFF8" "sn_own a < 0xFFF8"
    using mesh_path_dst [OF assms(3)] assms(2) by (auto simp: station_ok_def)
  with mesh_carried [OF assms(1-3), where radius = 30 and pan = "mn_pan (sn_node a)"] assms(4-8) show ?thesis
    by (simp add: mn_sendApsRouted_def sn_own_def)
qed

text \<open>An end device, a router and a coordinator in line.\<close>

definition example_station :: "u16 \<Rightarrow> u64 \<Rightarrow> bool \<Rightarrow> u16 \<Rightarrow> station" where
  "example_station own ieee router hop =
     \<lparr>sn_cfg = \<lparr>mg_ieee = ieee, mg_coordinator = False, mg_router = router, mg_end = \<not> router, mg_poolFirst = 0x31,
        mg_poolLast = 0x3F, mg_ignoreShorts = [0xFFFF], mg_ignoreIeees = [0xFFFFFFFFFFFFFFFF], mg_scanChannels = [15],
        mg_apsPeriodMs = 10000, mg_coord = \<lparr>cs_panId = 0x1A62, cs_extendedPanId = 9, cs_channel = 15,
          cs_poolFirst = 1, cs_poolLast = 15\<rparr>\<rparr>,
      sn_node = mn_init\<lparr>
        mn_net := (mn_net mn_init)\<lparr>nw_info := network_info0\<lparr>ni_joined := True, ni_nwkAddress := own, ni_panId := 0x1A62\<rparr>\<rparr>,
        mn_routing := zr_upsert (mn_routing mn_init) 0 hop ZB_ROUTE_ACTIVE 0\<rparr>,
      sn_radio = radio_attachSecurity (sc_setNetworkKey (replicate 16 3) 1 sc_init) ieee
        (radio_init\<lparr>cc_localShortAddress := own, cc_cb := mesh_callbacks\<rparr>)\<rparr>"

lemma mn_init_routes: "zr_wf (mn_routing mn_init)" "zr_has_routes (mn_routing mn_init)"
  "zr_routes (mn_routing mn_init) = Some (Some (replicate 8 route0))"
  by (simp_all add: mn_init_def zr_wf_def zr_has_routes_def zr_attachRouteTable_def zr_init_def rt_wf_def rt_attached_def
      slot_uniq_def discovery0_def route0_def kMaxDiscoveries_def)

lemma example_station_ok: "own < 0xFFF8 \<Longrightarrow> station_ok (example_station own ieee router hop)"
  using mn_init_routes
  by (auto simp: station_ok_def example_station_def sn_own_def mn_own_def mn_joined_def radio_ok_def radio_attachSecurity_def
      radio_init_def sc_setNetworkKey_def sc_init_def sc_resetReplayTable_def)

lemma example_link:
  assumes "own < 0xFFF8"
  shows "mesh_link (example_station own ieee r h) (example_station own' ieee' r' h')"
proof -
  have "own \<noteq> 0xFFFF" using assms by auto
  then show ?thesis
    by (auto simp: mesh_link_def example_station_def sn_own_def mn_own_def radio_attachSecurity_def sc_setNetworkKey_def sc_init_def
        sc_resetReplayTable_def sc_selectKey_def sc_replayCheckAndUpdate_def replay0_def mg_ignoredShort_def numeral_eq_Suc)
qed

lemma example_hop: "zr_nextHopFor (mn_routing (sn_node (example_station own ieee r hop))) 0 = hop"
  using zr_learn(1) [OF mn_init_routes(1,2)] by (simp add: example_station_def)

lemma example_relay:
  assumes "own \<noteq> 7" "own \<noteq> 0"
  shows "mesh_relay 7 0 (example_station own ieee True hop) (example_station hop ieee' r' hop')"
proof -
  have "rt_room (fst (rt_upsert (Some (replicate 8 route0)) 0 hop 0 False False 0)) 7" by (simp add: rt_upsert_def rt_room_def slot_room_def rt_victim_def rt_find_def slot_find_def route0_def or_else_def rt_firstFree_def numeral_eq_Suc)
  then show ?thesis using assms example_hop [of own ieee True hop]
    by (simp add: mesh_relay_def mg_parentCapable_def) (simp add: example_station_def sn_own_def mn_own_def zr_upsert_def mn_init_routes(3))
qed

lemma example_own: "sn_own (example_station own ieee r h) = own"
  by (simp add: example_station_def sn_own_def mn_own_def)

theorem multi_hop_delivery_witness:
  "\<exists>psdu a' sts. station_send ecb_example (mn_sendApsRouted (sn_node (example_station 7 3 False 1)) 0 (mesh_apdu 5 [1, 2, 3]))
      (example_station 7 3 False 1) = Some (Some psdu, a') \<and>
    mesh_carry ecb_example 100 200 90 psdu [example_station 1 2 True 0, example_station 0 1 True 0] =
      Some (sts, mesh_delivered 1 (example_station 0 1 True 0) 7 5 [1, 2, 3]) \<and>
    map (\<lambda>s. zr_nextHopFor (mn_routing (sn_node s)) 7) sts = [7, 1]"
proof -
  let ?a = "example_station 7 3 False 1" and ?b = "example_station 1 2 True 0" and ?c = "example_station 0 1 True 0"
  have own: "sn_own ?a = 7" "sn_own ?b = 1" "sn_own ?c = 0" by (simp_all add: example_own)
  have hop: "mn_hopOr (sn_node ?a) 0 0 = sn_own (hd [?b, ?c])"
    by (simp add: mn_hopOr_def example_hop own kNoNextHop_def)
  have path: "mesh_path (sn_own ?a) 0 ?a [?b, ?c]"
    by (simp add: own example_station_ok example_link example_relay)
  have du: "du_checkAndRecord (mn_dupe (sn_node (last [?b, ?c]))) (sn_own ?a) 1 5 100 = Some
     (Some ((replicate 6 dupe0)[0 := \<lparr>du_used = True, du_srcShort = 7, du_srcEndpoint = 1, du_lastCounter = 5, du_lastSeenMs = 100\<rparr>]), True)"
    by (simp add: own) (simp add: example_station_def mn_init_def du_begin_def du_checkAndRecord_def dupe0_def or_else_def numeral_eq_Suc)
  from multi_hop_delivery [OF ecb_example_works example_station_ok path _ hop _ _ du, of "[1, 2, 3]" 200 90] show ?thesis
    by (simp add: own)
qed

end
