(* ===== verification/ZbQuery.thy ===== *)
theory ZbQuery
  imports ZbMesh
begin

text \<open>
  The neighbour-table query: one node asks another for its table page by page, and reads the answer.
\<close>

section \<open>A page on the air\<close>

text \<open>What an entry keeps: its four small fields have two or three bits on the air.\<close>

definition zl_air :: "zdo_neighbor_entry \<Rightarrow> zdo_neighbor_entry" where
  "zl_air e = e\<lparr>zl_deviceType := zl_deviceType e AND 3, zl_rxOnWhenIdle := zl_rxOnWhenIdle e AND 3,
     zl_relationship := zl_relationship e AND 7, zl_permitJoining := zl_permitJoining e AND 3\<rparr>"

lemma length_neighborEntry [simp]: "length (zd_neighborEntry e) = 22"
  by (simp add: zd_neighborEntry_def)

lemma length_entries [simp]: "length (concat (map zd_neighborEntry es)) = 22 * length es"
  by (induction es) simp_all

lemma neighbor_bits:
  fixes a b c w :: u8
  assumes "w = (a AND 3) OR push_bit 2 (b AND 3) OR push_bit 4 (c AND 7)"
  shows "w AND 3 = a AND 3" "drop_bit 2 w AND 3 = b AND 3" "drop_bit 4 w AND 7 = c AND 7"
proof -
  have m: "(3 :: u8) = mask 2" "(7 :: u8) = mask 3" by (simp_all add: mask_eq_exp_minus_1)
  show "w AND 3 = a AND 3" "drop_bit 2 w AND 3 = b AND 3" "drop_bit 4 w AND 7 = c AND 7"
    unfolding assms m take_bit_eq_mask [symmetric]
    by (rule bit_word_eqI, auto simp: bit_take_bit_iff bit_or_iff bit_push_bit_iff bit_drop_bit_eq)+
qed

lemma small_count: "n < 256 \<Longrightarrow> unat (of_nat n :: u8) = n"
  by (simp add: unsigned_of_nat take_bit_nat_eq_self)

lemma entry_at:
  assumes "i < length es"
  obtains pre post where "concat (map zd_neighborEntry es) = pre @ zd_neighborEntry (es ! i) @ post" "length pre = i * 22"
proof (rule that [of "concat (map zd_neighborEntry (take i es))" "concat (map zd_neighborEntry (drop (Suc i) es))"])
  show "concat (map zd_neighborEntry es) =
    concat (map zd_neighborEntry (take i es)) @ zd_neighborEntry (es ! i) @ concat (map zd_neighborEntry (drop (Suc i) es))"
    using id_take_nth_drop [OF assms] by (metis concat_append concat.simps(2) map_append list.map(2))
qed (use assms in simp)

lemma entry_read:
  assumes "zG_list r = Some (pre @ zd_neighborEntry e @ post)" "length pre = unat i * 22" "i < zG_listCount r"
  shows "zd_getNeighborListEntry r i = Some (True, zl_air e)"
proof -
  obtain w where w: "w = (zl_deviceType e AND 3) OR push_bit 2 (zl_rxOnWhenIdle e AND 3) OR push_bit 4 (zl_relationship e AND 7)"
    by blast
  have l: "zG_list r = Some (pre @ le64 (zl_extendedPanId e) @ le64 (zl_extendedAddress e) @ le16 (zl_nwkAddress e) @
      [w, zl_permitJoining e AND 3, zl_depth e, zl_lqi e] @ post)"
    using assms(1) unfolding zd_neighborEntry_def w by simp
  show ?thesis
    unfolding zd_getNeighborListEntry_def l using assms(3)
    by (simp add: zd_kNeighborEntryLen_def assms(2) [symmetric] wire_simps rd8_skip rd8_Cons neighbor_bits [OF w] zl_air_def not_le)
qed

text \<open>A page that the buffer of 96 bytes holds reads back.\<close>

lemma entries_read:
  assumes "zG_list r = Some (concat (map zd_neighborEntry es) @ post)" "length es = i + n" "i + n < 256"
    "unat (zG_listCount r) = i + n"
  shows "mn_readEntries r n i = Some (map zl_air (drop i es))"
  using assms(2-4)
proof (induction n arbitrary: i)
  case 0
  then show ?case by simp
next
  case (Suc n)
  then have i: "i < length es" "unat (of_nat i :: u8) = i" by (simp_all add: small_count)
  obtain pre post' where c: "concat (map zd_neighborEntry es) = pre @ zd_neighborEntry (es ! i) @ post'" "length pre = i * 22"
    by (rule entry_at [OF i(1)])
  have "zd_getNeighborListEntry r (of_nat i) = Some (True, zl_air (es ! i))"
    by (rule entry_read) (use assms(1) c i(2) Suc.prems in \<open>simp_all add: word_less_nat_alt\<close>)
  then show ?case using Suc.IH [of "Suc i"] Suc.prems i(1) by (simp add: Cons_nth_drop_Suc [symmetric])
qed

lemma page_roundtrip:
  assumes "length es \<le> 4"
  obtains bs rsp where
    "zd_buildMgmtLqiResponse (Some 96) seq status entries start (Some es) (of_nat (length es)) = Some bs"
    "length bs = 5 + 22 * length es" "zd_parseMgmtLqiResponse (Some bs) = Some (True, rsp)"
    "zG_sequence rsp = seq" "zG_entries rsp = entries" "zG_startIndex rsp = start"
    "mn_readEntries rsp (unat (zG_listCount rsp)) 0 = Some (map zl_air es)"
proof -
  have n: "unat (of_nat (length es) :: u8) = length es" using assms by (simp add: small_count)
  let ?c = "of_nat (length es) :: u8" and ?l = "concat (map zd_neighborEntry es)"
  let ?rsp = "\<lparr>zG_sequence = seq, zG_status = status, zG_entries = entries, zG_startIndex = start, zG_listCount = ?c,
     zG_list = Some ?l\<rparr>"
  show thesis
  proof (rule that)
    show "zd_buildMgmtLqiResponse (Some 96) seq status entries start (Some es) ?c =
        Some ([seq, status, entries, start, ?c] @ ?l)"
      using assms n by (simp add: zd_buildMgmtLqiResponse_def zd_buildPage_def zd_kNeighborEntryLen_def)
    show "zd_parseMgmtLqiResponse (Some ([seq, status, entries, start, ?c] @ ?l)) = Some (True, ?rsp)"
      using n by (simp add: zd_parseMgmtLqiResponse_def zd_parsePage_def zd_parse_def zd_kNeighborEntryLen_def rd8_Cons Let_def)
    show "mn_readEntries ?rsp (unat (zG_listCount ?rsp)) 0 = Some (map zl_air es)"
      using entries_read [of ?rsp es "[]" 0 "length es"] n assms by simp
  qed simp_all
qed

section \<open>The pages of a table\<close>

lemma pages_cover:
  assumes "4 * n \<le> 256" "length (mn_usedNeighbors t) \<le> 4 * n"
  shows "concat (map (\<lambda>k. mn_lqiPage t (of_nat (4 * k))) [0..<n]) = map mn_lqiEntry (mn_usedNeighbors t)"
proof -
  have "concat (map (\<lambda>k. take 4 (drop (4 * k) xs)) [0..<m]) = take (4 * m) xs" for m and xs :: "neighbor list"
  proof (induction m)
    case (Suc m)
    have "take (4 * m + 4) xs = take (4 * m) xs @ take 4 (drop (4 * m) xs)" by (rule take_add)
    with Suc show ?case by (simp add: add.commute)
  qed simp
  moreover have "map (\<lambda>k. mn_lqiPage t (of_nat (4 * k))) [0..<n] =
      map (map mn_lqiEntry) (map (\<lambda>k. take 4 (drop (4 * k) (mn_usedNeighbors t))) [0..<n])"
    using assms(1) small_count by (auto simp: mn_lqiPage_def simp del: of_nat_mult)
  ultimately show ?thesis using assms(2) by (simp only: map_concat [symmetric]) simp
qed

section \<open>Question and answer\<close>

lemma mgmt_request_heard:
  "zd_parseMgmtRequest (Some [seq, start]) = Some (True, \<lparr>zg_sequence = seq, zg_startIndex = start\<rparr>)"
  by (simp add: zd_parseMgmtRequest_def zd_parse_def rd8_Cons)

lemma query_fields [simp]:
  "mn_sendApsRouted (s\<lparr>mn_pendingLqiRsp := b\<rparr>) = mn_sendApsRouted s" "mn_neighbors (s\<lparr>mn_pendingLqiRsp := b\<rparr>) = mn_neighbors s"
  "mn_sendApsRouted (s\<lparr>mn_lqiRspTo := a\<rparr>) = mn_sendApsRouted s" "mn_neighbors (s\<lparr>mn_lqiRspTo := a\<rparr>) = mn_neighbors s"
  "mn_sendApsRouted (s\<lparr>mn_lqiRspSeq := c\<rparr>) = mn_sendApsRouted s" "mn_neighbors (s\<lparr>mn_lqiRspSeq := c\<rparr>) = mn_neighbors s"
  "mn_sendApsRouted (s\<lparr>mn_lqiRspStart := c\<rparr>) = mn_sendApsRouted s" "mn_neighbors (s\<lparr>mn_lqiRspStart := c\<rparr>) = mn_neighbors s"
  by (((rule ext)+)?, simp add: mn_sendApsRouted_def mn_hopOr_def mn_own_def mn_pan_def mn_neighbors_def)+

definition lqi_asked :: "u16 \<Rightarrow> u8 \<Rightarrow> u8 \<Rightarrow> mesh_node \<Rightarrow> mesh_node" where
  "lqi_asked src seq start s =
     s\<lparr>mn_pendingLqiRsp := True, mn_lqiRspTo := src, mn_lqiRspSeq := seq, mn_lqiRspStart := start\<rparr>"

text \<open>The request leaves a note for \<open>loop\<close>.\<close>

lemma lqi_request_noted:
  assumes "nf_srcShort nwk = src" "nf_dstShort nwk = mn_own s" "ap_clusterId aps = ZDO_MGMT_LQI_REQ" "ap_payload aps = Some [seq, start]"
    and "ap_payloadLen aps = 2"
  shows "mn_onZdoFrame cfg mac nwk aps lqi now s = Some (lqi_asked src seq start s, [])"
  using assms by (simp add: mn_onZdoFrame_def mn_replyMgmtLqi_def ptr_take_def mgmt_request_heard lqi_asked_def)

text \<open>\<open>loop\<close> answers with one page, and keeps the frame for retransmission. The page reads back.\<close>

lemma lqi_page_sent:
  assumes "\<not> rx_hasPendingFor (mn_retx s) src 0"
  obtains apdu rsp bs r where
    "mn_sendPendingMgmtLqiRsp now (lqi_asked src seq start s) =
       ((lqi_asked src seq start s)\<lparr>mn_pendingLqiRsp := False,
           mn_retx := fst (rx_add (mn_retx s) src (mn_apsCounter s) 0 (Some apdu) (length apdu) 3 2000 now),
           mn_apsCounter := mn_apsCounter s + 1\<rparr>, [mn_sendApsRouted s src apdu])"
    "length apdu = 13 + 22 * length (mn_lqiPage (mn_neighbors s) start)" "aps_frameType (Some apdu) = Some 0"
    "aps_parseDataFrame (Some apdu) = Some (True, rsp)"
    "rsp = aps_data_frame0\<lparr>ap_valid := True, ap_ackRequest := True, ap_dstEndpoint := 0, ap_clusterId := ZDO_MGMT_LQI_RSP,
       ap_profileId := 0, ap_srcEndpoint := 0, ap_counter := mn_apsCounter s, ap_payload := Some bs, ap_payloadLen := length bs\<rparr>"
    "zd_parseMgmtLqiResponse (Some bs) = Some (True, r)" "zG_sequence r = seq"
    "zG_entries r = of_nat (length (mn_usedNeighbors (mn_neighbors s)))"
    "mn_readEntries r (unat (zG_listCount r)) 0 = Some (map zl_air (mn_lqiPage (mn_neighbors s) start))"
proof -
  let ?page = "mn_lqiPage (mn_neighbors s) start" and ?n = "of_nat (length (mn_usedNeighbors (mn_neighbors s))) :: u8"
  have "length ?page \<le> 4" by (simp add: mn_lqiPage_def)
  then obtain bs r where page: "zd_buildMgmtLqiResponse (Some 96) seq ZDO_STATUS_SUCCESS ?n start (Some ?page) (of_nat (length ?page)) = Some bs"
    "length bs = 5 + 22 * length ?page" "zd_parseMgmtLqiResponse (Some bs) = Some (True, r)" "zG_sequence r = seq" "zG_entries r = ?n"
    "mn_readEntries r (unat (zG_listCount r)) 0 = Some (map zl_air ?page)"
    by (rule page_roundtrip)
  have "length bs \<le> 93" using page(2) \<open>length ?page \<le> 4\<close> by simp
  then obtain apdu where apdu: "aps_buildDataFrame (Some 108) 0 ZDO_MGMT_LQI_RSP 0x0000 0 (mn_apsCounter s) (Some bs) (length bs) True = Some apdu"
    by (simp add: aps_buildDataFrame_def)
  have sent: "mn_sendPendingMgmtLqiRsp now (lqi_asked src seq start s) =
       ((lqi_asked src seq start s)\<lparr>mn_pendingLqiRsp := False,
           mn_retx := fst (rx_add (mn_retx s) src (mn_apsCounter s) 0 (Some apdu) (length apdu) 3 2000 now),
           mn_apsCounter := mn_apsCounter s + 1\<rparr>, [mn_sendApsRouted s src apdu])"
    using assms page(1) apdu unfolding mn_sendPendingMgmtLqiRsp_def Let_def lqi_asked_def
    by (simp add: aps_kMaxFrame_def)
  have "length apdu = 13 + 22 * length ?page" using aps_data_roundtrip(1) [OF apdu] page(2) by simp
  then show thesis
    by (rule that [OF sent _ aps_data_type [OF apdu] aps_data_roundtrip(3) [OF apdu] refl page(3-6)])
qed

text \<open>The answer is printed, and the query it belongs to is over.\<close>

lemma lqi_answer_printed:
  assumes "nf_dstShort nwk = mn_own s" "ap_clusterId aps = ZDO_MGMT_LQI_RSP" "ap_payload aps = Some bs" "ap_payloadLen aps = length bs"
    and "zd_parseMgmtLqiResponse (Some bs) = Some (True, r)" "mn_readEntries r (unat (zG_listCount r)) 0 = Some es"
    and "zG_sequence r = mn_lqiSeq s"
  shows "mn_onZdoFrame cfg mac nwk aps lqi now s = Some (s\<lparr>mn_lqiPending := False\<rparr>,
    PrintNeighbors (nf_srcShort nwk) (zG_entries r) es # mn_apsAck mac nwk aps (s\<lparr>mn_lqiPending := False\<rparr>))"
  using assms by (simp add: mn_onZdoFrame_def mn_printMgmtLqiRsp_def ptr_take_all)

section \<open>A full page does not fit\<close>

text \<open>
  A secured network frame has room for 90 bytes above the network layer. An answer with four entries needs 101:
  the driver refuses it on the first transmission and on every retransmission.
\<close>

lemma secured_data_refused:
  assumes w: "ecb_works ecb" and a: "cc_security a = Some tx" "sc_hasKey tx" "length (sc_key tx) = 16"
    and len: "90 < length apdu" "length apdu \<le> 108"
  shows "\<exists>a'. radio_sendNwkData ecb pan macDst macSrc dst src apdu radius ack a = Some (None, a')"
proof -
  let ?a = "a\<lparr>cc_nwkSequence := cc_nwkSequence a + 1\<rparr>"
  let ?i = "cc_securityIeee a" and ?c = "cc_securityCounter a + 1"
  obtain hdr where nb: "nwk_buildDataFrame (Some 116) dst src radius (cc_nwkSequence a) (Some apdu) (length apdu) 0 =
      Some (8 # 0 # hdr @ apdu)" "length hdr = 6"
    using nwk_build_shape [OF len(2), of dst src radius "cc_nwkSequence a"] by auto
  let ?npdu = "8 # 0 # hdr @ apdu"
  have l: "(2 :: nat) \<le> 8" "(8 :: nat) \<le> 26" "8 \<le> length ?npdu" "length ?npdu + 18 \<le> 134" "(134 :: nat) \<le> 255"
    using nb(2) len by simp_all
  obtain c mic tx' where s: "sc_secureNpdu ecb (Some ?npdu) 8 ?i ?c (Some 134) tx =
       Some (Some (sc_setSecurityBit True (take 8 ?npdu) @ sc_aux ?c ?i (sc_keySequence tx) @ c @ mic), tx')"
    "length c = length ?npdu - 8" "length mic = 4"
    by (rule sc_sealed [OF w a(2,3) l, of ?i ?c]) (rule that)
  let ?f = "sc_setSecurityBit True (take 8 ?npdu) @ sc_aux ?c ?i (sc_keySequence tx) @ c @ mic"
  have lf: "length ?f = 26 + length apdu" using s(2,3) nb(2) by (simp add: sc_setSecurityBit_def)
  then have "length ?f \<le> 134" "116 < length ?f" using len by simp_all
  then have "mac_buildShortDataFrame (Some 125) pan macDst macSrc (cc_macSequence a) (Some ?f) (length ?f) ack = None"
    by (simp add: mac_buildShortDataFrame_def Let_def del: length_append)
  moreover have "radio_applyTxSecurity ecb ?npdu ?a = Some (Some ?f, ?a\<lparr>cc_security := Some tx', cc_securityCounter := ?c\<rparr>)"
    using a s(1) lf len by (simp add: radio_applyTxSecurity_def plain_header Let_def del: length_append)
  ultimately show ?thesis
    using nb(1) by (simp add: radio_sendNwkData_def radio_sendNpdu_def radio_sendData_def)
qed

lemma full_page_never_sent:
  assumes "ecb_works ecb" "cc_security r = Some tx" "sc_hasKey tx" "length (sc_key tx) = 16"
    and "zd_buildMgmtLqiResponse (Some 96) seq status entries start (Some page) 4 = Some bs" "length page = 4"
    and "aps_buildDataFrame (Some 108) 0 ZDO_MGMT_LQI_RSP 0x0000 0 ctr (Some bs) (length bs) True = Some apdu"
  shows "\<exists>r'. mesh_perform ecb (mn_sendApsRouted s dst apdu) r = Some (None, r')"
proof -
  have "length bs = 93" using assms(5,6) by (auto simp: zd_buildMgmtLqiResponse_def zd_buildPage_def zd_kNeighborEntryLen_def)
  then have "length apdu = 101" using aps_data_roundtrip(1) [OF assms(7)] by simp
  then show ?thesis
    using secured_data_refused [OF assms(1-4), of apdu] by (simp add: mn_sendApsRouted_def mesh_perform_def)
qed


section \<open>Through the radio\<close>

text \<open>What a transmission leaves of a driver: all that its receive path depends on.\<close>

definition radio_sent :: "radio \<Rightarrow> radio \<Rightarrow> bool" where
  "radio_sent r r' \<longleftrightarrow> radio_sameKeys r r' \<and> map_option sc_replay (cc_security r') = map_option sc_replay (cc_security r) \<and>
     cc_buf r' = cc_buf r \<and> cc_respData r' = cc_respData r \<and> cc_state r' = cc_state r \<and> cc_idx r' = cc_idx r \<and>
     cc_len r' = cc_len r"

lemma sc_secureNpdu_replay: "leaves (\<lambda>s'. sc_replay s' = sc_replay s) (sc_secureNpdu ecb npdu h ieee c out s)"
  unfolding sc_secureNpdu_def
  by (rule leaves_branches | (rule leaves_Some, simp; fail))+

lemma applyTxSecurity_sent:
  assumes "radio_applyTxSecurity ecb npdu r = Some (res, r')"
  shows "radio_sent r r'"
  using assms applyTxSecurity_keeps [OF assms] sc_secureNpdu_replay [unfolded leaves_def]
  by (auto simp: radio_applyTxSecurity_def radio_sent_def Let_def split: option.splits if_splits)

lemma radio_sent_counters [simp]:
  "radio_sent (r\<lparr>cc_nwkSequence := n\<rparr>) r' = radio_sent r r'" "radio_sent (r\<lparr>cc_apsCounter := n\<rparr>) r' = radio_sent r r'"
  "radio_sent r (r'\<lparr>cc_macSequence := n\<rparr>) = radio_sent r r'" "radio_sent r (r'\<lparr>cc_nwkSequence := n\<rparr>) = radio_sent r r'"
  by (simp_all add: radio_sent_def radio_sameKeys_def)

lemma sendNwkData_sent:
  assumes "radio_sendNwkData ecb pan macDst macSrc dst src apdu radius ack r = Some (res, r')"
  shows "radio_sent r r'"
proof -
  have "radio_sent r r" by (auto simp: radio_sent_def radio_sameKeys_def option.rel_refl)
  with assms show ?thesis
    by (auto simp: radio_sendNwkData_def radio_sendNpdu_def radio_sendData_def split: option.splits
        dest!: applyTxSecurity_sent)
qed

text \<open>A station that has sent a data frame hears as before.\<close>

lemma station_sent:
  assumes "station_send ecb (TxNwkData pan macDst macSrc dst src apdu radius ack) a = Some (res, a')"
  obtains r where "a' = a\<lparr>sn_radio := r\<rparr>" "radio_sent (sn_radio a) r"
  using assms by (auto simp: station_send_def mesh_perform_def dest!: sendNwkData_sent)

lemma sent_hears:
  assumes "radio_sent (sn_radio b) (sn_radio b')" "sn_node b' = sn_node b" "sn_cfg b' = sn_cfg b"
  shows "station_ok b \<Longrightarrow> station_ok b'" "mesh_link a b \<Longrightarrow> mesh_link a b'"
proof -
  have r: "radio_sameKeys (sn_radio b) (sn_radio b')" "map_option sc_replay (cc_security (sn_radio b')) = map_option sc_replay (cc_security (sn_radio b))"
    "radio_ok (sn_radio b') = radio_ok (sn_radio b)" "cc_state (sn_radio b') = cc_state (sn_radio b)"
    using assms(1) by (simp_all add: radio_sent_def radio_ok_def)
  have own: "sn_own b' = sn_own b" using assms(2) by (simp add: sn_own_def)
  show "station_ok b \<Longrightarrow> station_ok b'"
    using r unfolding station_ok_def own assms(2) by (auto simp: radio_sameKeys_def sc_sameKeys_def option.rel_sel)
  have "sc_sameKeys s s' \<Longrightarrow> sc_selectKey n s' = sc_selectKey n s" for n s s'
    by (simp add: sc_selectKey_def sc_sameKeys_def)
  with r(1,2) show "mesh_link a b \<Longrightarrow> mesh_link a b'"
    unfolding mesh_link_def assms(3) radio_sameKeys_def
    by (cases "cc_security (sn_radio a)"; cases "cc_security (sn_radio b)"; cases "cc_security (sn_radio b')") simp_all
qed

text \<open>A data frame for the device object of the next station: after the route back is learned, it is
  all that the handler of such frames sees.\<close>

lemma zdo_heard:
  assumes "ecb_works ecb" "station_ok a" "station_ok b" "mesh_link a b" "8 \<le> length apdu" "length apdu \<le> 90"
    and "sn_own b = dst" "src < 0xFFF8" "src \<noteq> dst"
    and aps: "aps_frameType (Some apdu) = Some 0" "aps_parseDataFrame (Some apdu) = Some (True, aps)" "ap_profileId aps = 0"
      "ap_dstEndpoint aps = 0" "ap_clusterId aps \<noteq> APS_CLUSTER"
  obtains psdu a' r frame nwk where
    "station_send ecb (TxNwkData pan macDst (sn_own a) dst src apdu radius ack) a = Some (Some psdu, a')"
    "radio_sameKeys (sn_radio b) r" "cc_securityCounter r = cc_securityCounter (sn_radio b)" "radio_ok r" "cc_state r = 0"
    "md_srcShort frame = sn_own a" "nf_srcShort nwk = src" "nf_dstShort nwk = dst"
    "station_receive ecb now rssi lqi psdu b = map_option (\<lambda>(s, acts). (b\<lparr>sn_node := s, sn_radio := r\<rparr>, acts))
       (mn_onZdoFrame (sn_cfg b) frame nwk aps lqi now (mn_learnRoute frame nwk now (sn_node b)))"
proof -
  obtain psdu a' r frame nwk where
    sent: "station_send ecb (TxNwkData pan macDst (sn_own a) dst src apdu radius ack) a = Some (Some psdu, a')"
    and r: "radio_sameKeys (sn_radio b) r" "cc_securityCounter r = cc_securityCounter (sn_radio b)" "radio_ok r" "cc_state r = 0"
    and f: "md_srcShort frame = sn_own a" "nf_srcShort nwk = src" "nf_dstShort nwk = dst"
    "nd_payload nwk = Some apdu" "nd_payloadLen nwk = length apdu"
    and poll: "\<And>up. (if dst = sn_own b \<or> 0xFFF8 \<le> dst
         then radio_apsEvents mesh_callbacks frame nwk (rssi - 73) lqi else Some []) = Some up \<Longrightarrow>
       radio_poll ecb (radio_sendFrame RSP_RX_FRAME (rssi # lqi # psdu)) (sn_radio b) =
         Some (r, EvNwk frame nwk (rssi - 73) lqi # up)"
    by (rule station_receives [OF assms(1-6), of pan macDst dst src radius ack rssi lqi]) (rule that, assumption+)
  have up: "radio_apsEvents mesh_callbacks frame nwk (rssi - 73) lqi =
      Some [EvAps frame nwk aps (rssi - 73) lqi, EvZdo frame nwk aps (rssi - 73) lqi]"
    unfolding radio_apsEvents_def Let_def f ptr_take_all using aps
    by (simp add: mesh_callbacks_def callbacks0_def)
  have polled: "radio_poll ecb (radio_sendFrame RSP_RX_FRAME (rssi # lqi # psdu)) (sn_radio b) =
         Some (r, [EvNwk frame nwk (rssi - 73) lqi, EvAps frame nwk aps (rssi - 73) lqi, EvZdo frame nwk aps (rssi - 73) lqi])"
    by (rule poll) (simp add: assms(7) up)
  have b: "mn_joined (sn_node b)" "\<not> mg_ignoredShort (sn_cfg b) (sn_own a)" "mn_own (sn_node b) = dst"
    using assms(3,4,7) by (simp_all add: station_ok_def mesh_link_def sn_own_def)
  have data: "mn_onNwkData (sn_cfg b) frame nwk True now (sn_node b) = (mn_learnRoute frame nwk now (sn_node b), [])"
    unfolding mn_onNwkData_def mn_forward_def Let_def using b f(1,3) by simp
  have app: "mn_onApsData frame nwk aps now s = Some (s, [])" for s
    using aps(5) by (simp add: mn_onApsData_def)
  have "station_receive ecb now rssi lqi psdu b = map_option (\<lambda>(s, acts). (b\<lparr>sn_node := s, sn_radio := r\<rparr>, acts))
       (mn_onZdoFrame (sn_cfg b) frame nwk aps lqi now (mn_learnRoute frame nwk now (sn_node b)))"
    unfolding station_receive_def polled
    by (cases "mn_onZdoFrame (sn_cfg b) frame nwk aps lqi now (mn_learnRoute frame nwk now (sn_node b))")
      (auto simp: mn_event_def data app)
  then show thesis by (rule that [OF sent r f(1-3)])
qed

section \<open>The query\<close>

lemma query_asked:
  assumes "mn_queryNeighbors now s = (s', [act])"
  shows "act = TxZdo (mn_pan s) (mn_hopOr s 0 0) (mn_own s) 0 (mn_own s) ZDO_MGMT_LQI_REQ [mn_lqiSeq s', 0] kDefaultRadius True"
    "mn_lqiPending s'" "mn_net s' = mn_net s" "mn_routing s' = mn_routing s"
  using assms
  by (auto simp: mn_queryNeighbors_def mn_startQuery_def Let_def zd_buildMgmtLqiRequest_def zd_fixed_def bytes_of_def
      mn_pan_def mn_own_def mn_hopOr_def split: if_splits)

lemma net_own: "mn_net s' = mn_net s \<Longrightarrow> mn_own s' = mn_own s" "mn_net s' = mn_net s \<Longrightarrow> mn_joined s' = mn_joined s"
  "mn_net s' = mn_net s \<Longrightarrow> mn_pan s' = mn_pan s" "mn_net s' = mn_net s \<Longrightarrow> mn_neighbors s' = mn_neighbors s"
  by (simp_all add: mn_own_def mn_joined_def mn_pan_def mn_neighbors_def)

lemma learned_fields: "mn_net (mn_learnRoute mac nwk now s) = mn_net s" "mn_retx (mn_learnRoute mac nwk now s) = mn_retx s"
  "mn_apsCounter (mn_learnRoute mac nwk now s) = mn_apsCounter s" "mn_lqiSeq (mn_learnRoute mac nwk now s) = mn_lqiSeq s"
  by (simp_all add: mn_learnRoute_def)

lemma learned_hop:
  assumes "station_ok b" "md_srcShort mac = via" "nf_srcShort nwk = src" "via < 0xFFF8" "src < 0xFFF8" "src \<noteq> sn_own b"
  shows "mn_hopOr (mn_learnRoute mac nwk now (sn_node b)) src other = via"
    "zr_wf (mn_routing (mn_learnRoute mac nwk now (sn_node b)))" "zr_has_routes (mn_routing (mn_learnRoute mac nwk now (sn_node b)))"
proof -
  have z: "zr_wf (mn_routing (sn_node b))" "zr_has_routes (mn_routing (sn_node b))" using assms(1) by (simp_all add: station_ok_def)
  have l: "mn_routing (mn_learnRoute mac nwk now (sn_node b)) = zr_upsert (mn_routing (sn_node b)) src via ZB_ROUTE_ACTIVE now"
    using assms by (simp add: mn_learnRoute_def sn_own_def)
  have "via \<noteq> kNoNextHop" using assms(4) by (auto simp: kNoNextHop_def)
  then show "mn_hopOr (mn_learnRoute mac nwk now (sn_node b)) src other = via"
    using zr_learn(1) [OF z] by (simp add: mn_hopOr_def l)
  show "zr_wf (mn_routing (mn_learnRoute mac nwk now (sn_node b)))" "zr_has_routes (mn_routing (mn_learnRoute mac nwk now (sn_node b)))"
    using z by (simp_all add: l)
qed

lemma zdo_request_sent:
  assumes "station_ok a" "length payload \<le> 82"
  obtains apdu aps a1 where "sn_radio a1 = (sn_radio a)\<lparr>cc_apsCounter := cc_apsCounter (sn_radio a) + 1\<rparr>"
    "station_ok a1" "\<And>b. mesh_link a b \<Longrightarrow> mesh_link a1 b" "\<And>b. mesh_link b a \<Longrightarrow> mesh_link b a1" "sn_own a1 = sn_own a"
    "sn_node a1 = sn_node a" "sn_cfg a1 = sn_cfg a"
    "\<And>pan macDst dst src radius ack.
       station_send ecb (TxZdo pan macDst (sn_own a) dst src cluster payload radius ack) a =
         station_send ecb (TxNwkData pan macDst (sn_own a1) dst src apdu radius ack) a1"
    "length apdu = 8 + length payload" "aps_frameType (Some apdu) = Some 0" "aps_parseDataFrame (Some apdu) = Some (True, aps)"
    "ap_profileId aps = 0" "ap_dstEndpoint aps = 0" "ap_clusterId aps = cluster" "ap_payload aps = Some payload"
    "ap_payloadLen aps = length payload"
proof -
  let ?r = "(sn_radio a)\<lparr>cc_apsCounter := cc_apsCounter (sn_radio a) + 1\<rparr>"
  obtain apdu where b: "aps_buildDataFrame (Some 108) 0 cluster 0 0 (cc_apsCounter (sn_radio a)) (Some payload) (length payload) False = Some apdu"
    using assms(2) by (simp add: aps_buildDataFrame_def)
  let ?a = "a\<lparr>sn_radio := ?r\<rparr>"
  have "same_sender a ?a" "radio_sent (sn_radio a) (sn_radio ?a)"
    by (auto simp: same_sender_def radio_sent_def radio_sameKeys_def option.rel_refl sn_own_def)
  then have l: "station_ok ?a" "mesh_link a b \<Longrightarrow> mesh_link ?a b" "mesh_link b a \<Longrightarrow> mesh_link b ?a" for b
    using mesh_link_sender sent_hears [of a ?a] assms(1) by auto
  show thesis
    by (rule that [of ?a apdu])
      (rule l aps_data_roundtrip [OF b] aps_data_type [OF b] | assumption | simp add: sn_own_def station_send_def mesh_perform_def
         radio_sendZdoCommand_def radio_sendApsData_def b option.map_comp comp_def split_beta aps_data_frame0_def; fail)+
qed

text \<open>A station keeps its links while its network state does not change.\<close>

lemma node_kept:
  assumes "mn_net s = mn_net (sn_node b)"
  shows "sn_own (b\<lparr>sn_node := s\<rparr>) = sn_own b" "mesh_link (b\<lparr>sn_node := s\<rparr>) d = mesh_link b d" "mesh_link d (b\<lparr>sn_node := s\<rparr>) = mesh_link d b"
    "station_ok b \<Longrightarrow> zr_wf (mn_routing s) \<Longrightarrow> zr_has_routes (mn_routing s) \<Longrightarrow> station_ok (b\<lparr>sn_node := s\<rparr>)"
proof -
  show own: "sn_own (b\<lparr>sn_node := s\<rparr>) = sn_own b" using net_own(1) [OF assms] by (simp add: sn_own_def)
  show "mesh_link (b\<lparr>sn_node := s\<rparr>) d = mesh_link b d" "mesh_link d (b\<lparr>sn_node := s\<rparr>) = mesh_link d b"
    unfolding mesh_link_def own by (simp_all split: option.split)
  show "station_ok b \<Longrightarrow> zr_wf (mn_routing s) \<Longrightarrow> zr_has_routes (mn_routing s) \<Longrightarrow> station_ok (b\<lparr>sn_node := s\<rparr>)"
    using net_own(2) [OF assms] unfolding station_ok_def own by simp
qed

lemma radio_kept:
  assumes "radio_sameKeys (sn_radio b) r" "cc_securityCounter r = cc_securityCounter (sn_radio b)"
  shows "same_sender b (b\<lparr>sn_radio := r\<rparr>)" "station_ok b \<Longrightarrow> radio_ok r \<Longrightarrow> cc_state r = 0 \<Longrightarrow> station_ok (b\<lparr>sn_radio := r\<rparr>)"
  using assms by (auto simp: same_sender_def sn_own_def station_ok_def radio_sameKeys_def sc_sameKeys_def option.rel_sel)

lemma query_reaches:
  assumes "ecb_works ecb" "station_ok q" "station_ok c" "mesh_link q c" "sn_own c = 0" "sn_own q \<noteq> 0"
    and "mn_queryNeighbors t0 (sn_node q) = (qn, [query])" "mn_hopOr (sn_node q) 0 0 = 0"
  obtains psdu q1 c1 s where
    "station_send ecb query (q\<lparr>sn_node := qn\<rparr>) = Some (Some psdu, q1)"
    "station_receive ecb t1 rssi lqi psdu c = Some (c1, [])" "sn_node c1 = lqi_asked (sn_own q) (mn_lqiSeq qn) 0 s"
    "mn_net s = mn_net (sn_node c)" "mn_retx s = mn_retx (sn_node c)" "mn_apsCounter s = mn_apsCounter (sn_node c)"
    "mn_hopOr s (sn_own q) (sn_own q) = sn_own q" "station_ok c1" "same_sender c c1"
    "station_ok q1" "\<And>b. mesh_link b q \<Longrightarrow> mesh_link b q1" "sn_node q1 = qn"
proof -
  let ?q = "q\<lparr>sn_node := qn\<rparr>" and ?own = "sn_own q"
  note asked = query_asked [OF assms(7)]
  note k = node_kept [of qn q, OF asked(3)]
  have q: "station_ok ?q" "?own < 0xFFF8" using assms(2) k(4) asked(4) by (simp_all add: station_ok_def)
  obtain req aps q0 where r0: "sn_radio q0 = (sn_radio ?q)\<lparr>cc_apsCounter := cc_apsCounter (sn_radio ?q) + 1\<rparr>"
    and q0: "station_ok q0" "\<And>b. mesh_link ?q b \<Longrightarrow> mesh_link q0 b" "\<And>b. mesh_link b ?q \<Longrightarrow> mesh_link b q0"
    "sn_own q0 = sn_own ?q" "sn_node q0 = sn_node ?q" "sn_cfg q0 = sn_cfg ?q"
    and as_data: "\<And>pan macDst dst src radius ack.
       station_send ecb (TxZdo pan macDst (sn_own ?q) dst src ZDO_MGMT_LQI_REQ [mn_lqiSeq qn, 0] radius ack) ?q =
         station_send ecb (TxNwkData pan macDst (sn_own q0) dst src req radius ack) q0"
    and len: "length req = 8 + length [mn_lqiSeq qn, 0]"
    and req: "aps_frameType (Some req) = Some 0" "aps_parseDataFrame (Some req) = Some (True, aps)"
    "ap_profileId aps = 0" "ap_dstEndpoint aps = 0" "ap_clusterId aps = ZDO_MGMT_LQI_REQ" "ap_payload aps = Some [mn_lqiSeq qn, 0]"
    "ap_payloadLen aps = length [mn_lqiSeq qn, 0]"
    by (rule zdo_request_sent [OF q(1), where payload = "[mn_lqiSeq qn, 0]" and cluster = ZDO_MGMT_LQI_REQ and ecb = ecb]) (simp, rule that)
  have link: "mesh_link q0 c" using q0(2) k(2) assms(4) by simp
  have l: "8 \<le> length req" "length req \<le> 90" "ap_clusterId aps \<noteq> APS_CLUSTER" using len req(5) by simp_all
  obtain psdu q1 r frame nwk where
    sent: "station_send ecb (TxNwkData (mn_pan (sn_node q)) 0 (sn_own q0) 0 ?own req kDefaultRadius True) q0 = Some (Some psdu, q1)"
    and r: "radio_sameKeys (sn_radio c) r" "cc_securityCounter r = cc_securityCounter (sn_radio c)" "radio_ok r" "cc_state r = 0"
    and f: "md_srcShort frame = sn_own q0" "nf_srcShort nwk = ?own" "nf_dstShort nwk = 0"
    and rec: "station_receive ecb t1 rssi lqi psdu c = map_option (\<lambda>(s, acts). (c\<lparr>sn_node := s, sn_radio := r\<rparr>, acts))
       (mn_onZdoFrame (sn_cfg c) frame nwk aps lqi t1 (mn_learnRoute frame nwk t1 (sn_node c)))"
    by (rule zdo_heard [OF assms(1) q0(1) assms(3) link l(1,2) assms(5) q(2) assms(6) req(1-4) l(3)]) (rule that)
  let ?s = "mn_learnRoute frame nwk t1 (sn_node c)"
  let ?s1 = "lqi_asked ?own (mn_lqiSeq qn) 0 ?s"
  let ?c1 = "c\<lparr>sn_node := ?s1, sn_radio := r\<rparr>"
  have own: "mn_own ?s = 0" using assms(5) by (simp add: sn_own_def)
  have rec1: "station_receive ecb t1 rssi lqi psdu c = Some (?c1, [])"
    unfolding rec using lqi_request_noted [of nwk ?own ?s aps "mn_lqiSeq qn" 0] f own req by simp
  have hop: "mn_hopOr ?s ?own ?own = ?own" "zr_wf (mn_routing ?s)" "zr_has_routes (mn_routing ?s)"
    by (rule learned_hop [OF assms(3), of frame ?own nwk ?own]; use f k(1) q0(4) q(2) assms(5,6) in simp)+
  have c1: "mn_net ?s1 = mn_net (sn_node c)" "mn_routing ?s1 = mn_routing ?s" by (simp_all add: lqi_asked_def learned_fields)
  have "station_ok (c\<lparr>sn_node := ?s1\<rparr>)" "sn_own ?c1 = sn_own c"
    using node_kept(1,4) [OF c1(1)] assms(3) hop c1(2) by (simp_all add: sn_own_def)
  then have "station_ok ?c1" "same_sender c ?c1"
    using radio_kept [of "c\<lparr>sn_node := ?s1\<rparr>" r] radio_kept(1) [of c r] r by (simp_all add: same_sender_def)
  moreover obtain r' where "q1 = q0\<lparr>sn_radio := r'\<rparr>" "radio_sent (sn_radio q0) r'" by (rule station_sent [OF sent])
  then have "station_ok q1" "mesh_link b q0 \<Longrightarrow> mesh_link b q1" "sn_node q1 = qn" for b
    using sent_hears(1) [of q0 q1] sent_hears(2) [of q0 q1 b] q0(1,5) by auto
  moreover have "station_send ecb query ?q = Some (Some psdu, q1)"
    using sent as_data asked(1) assms(8) k(1) by (simp add: sn_own_def)
  ultimately show thesis
    by (intro that [of psdu q1 ?c1 ?s]) (use rec1 hop(1) q0(3) k(3) in \<open>simp_all add: learned_fields\<close>)
qed

text \<open>The answer, at the node that asked.\<close>

lemma answer_reaches:
  assumes "ecb_works ecb" "station_ok c" "station_ok q" "mesh_link c q" "sn_own c = 0" "sn_own q \<noteq> 0"
    and len: "8 \<le> length apdu" "length apdu \<le> 90"
    and rsp: "aps_frameType (Some apdu) = Some 0" "aps_parseDataFrame (Some apdu) = Some (True, rsp)"
      "rsp = aps_data_frame0\<lparr>ap_valid := True, ap_ackRequest := True, ap_dstEndpoint := 0, ap_clusterId := ZDO_MGMT_LQI_RSP,
        ap_profileId := 0, ap_srcEndpoint := 0, ap_counter := ctr, ap_payload := Some bs, ap_payloadLen := length bs\<rparr>"
    and page: "zd_parseMgmtLqiResponse (Some bs) = Some (True, r)" "zG_sequence r = mn_lqiSeq (sn_node q)"
      "mn_readEntries r (unat (zG_listCount r)) 0 = Some es"
  shows "\<exists>psdu c' q'.
    station_send ecb (TxNwkData pan macDst 0 (sn_own q) 0 apdu kDefaultRadius True) c = Some (Some psdu, c') \<and>
    station_receive ecb now rssi lqi psdu q = Some (q', [PrintNeighbors 0 (zG_entries r) es,
      TxNwkData (mn_pan (sn_node q)) 0 (sn_own q) 0 (sn_own q) (bytes_of (aps_buildAckFrame (Some aps_kBaseHeaderLen)
        0 ZDO_MGMT_LQI_RSP 0 0 ctr)) kDefaultRadius True]) \<and>
    \<not> mn_lqiPending (sn_node q')"
proof -
  have fields: "ap_profileId rsp = 0" "ap_dstEndpoint rsp = 0" "ap_clusterId rsp \<noteq> APS_CLUSTER" "ap_clusterId rsp = ZDO_MGMT_LQI_RSP"
    "ap_payload rsp = Some bs" "ap_payloadLen rsp = length bs" "ap_ackRequest rsp" "ap_srcEndpoint rsp = 0" "ap_counter rsp = ctr"
    by (simp_all add: rsp(3) aps_data_frame0_def)
  have a: "(0 :: u16) < 0xFFF8" "0 \<noteq> sn_own q" using assms(6) by simp_all
  obtain psdu c' r' frame nwk where
    sent: "station_send ecb (TxNwkData pan macDst (sn_own c) (sn_own q) 0 apdu kDefaultRadius True) c = Some (Some psdu, c')"
    and f: "md_srcShort frame = sn_own c" "nf_srcShort nwk = 0" "nf_dstShort nwk = sn_own q"
    and rec: "station_receive ecb now rssi lqi psdu q = map_option (\<lambda>(s, acts). (q\<lparr>sn_node := s, sn_radio := r'\<rparr>, acts))
       (mn_onZdoFrame (sn_cfg q) frame nwk rsp lqi now (mn_learnRoute frame nwk now (sn_node q)))"
    by (rule zdo_heard [OF assms(1-4) len refl a rsp(1,2) fields(1-3)]) (rule that)
  let ?s = "mn_learnRoute frame nwk now (sn_node q)"
  have keep: "mn_own ?s = sn_own q" "mn_pan ?s = mn_pan (sn_node q)" by (simp_all add: sn_own_def)
  have hop: "mn_hopOr ?s 0 other = 0" for other
    by (rule learned_hop(1) [OF assms(3)]) (use f assms(5) a in simp_all)
  have upd: "mn_hopOr (?s\<lparr>mn_lqiPending := False\<rparr>) = mn_hopOr ?s" "mn_own (?s\<lparr>mn_lqiPending := False\<rparr>) = mn_own ?s"
    "mn_pan (?s\<lparr>mn_lqiPending := False\<rparr>) = mn_pan ?s"
    by (((rule ext)+)?, simp add: mn_hopOr_def mn_own_def mn_pan_def)+
  have ack: "mn_apsAck frame nwk rsp (?s\<lparr>mn_lqiPending := False\<rparr>) =
      [TxNwkData (mn_pan (sn_node q)) 0 (sn_own q) 0 (sn_own q) (bytes_of (aps_buildAckFrame (Some aps_kBaseHeaderLen)
        0 ZDO_MGMT_LQI_RSP 0 0 ctr)) kDefaultRadius True]"
    unfolding mn_apsAck_def upd using fields f hop keep by simp
  have "mn_onZdoFrame (sn_cfg q) frame nwk rsp lqi now ?s = Some (?s\<lparr>mn_lqiPending := False\<rparr>,
      PrintNeighbors (nf_srcShort nwk) (zG_entries r) es # mn_apsAck frame nwk rsp (?s\<lparr>mn_lqiPending := False\<rparr>))"
    by (rule lqi_answer_printed [OF _ fields(4-6) page(1,3)]) (use f keep page(2) in \<open>simp_all add: learned_fields\<close>)
  then have "station_receive ecb now rssi lqi psdu q = Some (q\<lparr>sn_node := ?s\<lparr>mn_lqiPending := False\<rparr>, sn_radio := r'\<rparr>,
      [PrintNeighbors 0 (zG_entries r) es,
       TxNwkData (mn_pan (sn_node q)) 0 (sn_own q) 0 (sn_own q) (bytes_of (aps_buildAckFrame (Some aps_kBaseHeaderLen)
        0 ZDO_MGMT_LQI_RSP 0 0 ctr)) kDefaultRadius True])"
    unfolding rec ack using f(2) by simp
  with sent assms(5) show ?thesis by simp
qed

text \<open>C38: A neighbour query goes out and is answered, through the drivers and the serial lines of both nodes. The
  query of a node for the coordinator's neighbour table is secured, framed and opened by the coordinator,
  which notes it. Its \<open>loop\<close> then answers, to the node the query came from, with one acknowledged frame that
  holds the first page of its table, and keeps the frame for retransmission. When the table has at most
  three used entries, the node that asked prints exactly these and their number, acknowledges the frame and
  stops asking. When there are four or more, the coordinator's driver refuses the frame: it is longer than
  a secured frame can be. The two nodes are neighbours, and the coordinator has no other answer to the
  same node under way.\<close>

theorem neighbor_query_answered:
  fixes q c :: station
  assumes "ecb_works ecb" "station_ok q" "station_ok c" "mesh_link q c" "mesh_link c q" "sn_own c = 0" "sn_own q \<noteq> 0"
    and "mn_queryNeighbors t0 (sn_node q) = (qn, [query])" "mn_hopOr (sn_node q) 0 0 = 0"
    and "\<not> rx_hasPendingFor (mn_retx (sn_node c)) (sn_own q) 0"
  shows "\<exists>psdu q1 c1 cn apdu answer.
    station_send ecb query (q\<lparr>sn_node := qn\<rparr>) = Some (Some psdu, q1) \<and>
    station_receive ecb t1 rssi lqi psdu c = Some (c1, []) \<and>
    mn_sendPendingMgmtLqiRsp t2 (sn_node c1) = (cn, [answer]) \<and>
    answer = TxNwkData (mn_pan (sn_node c)) (sn_own q) 0 (sn_own q) 0 apdu kDefaultRadius True \<and>
    mn_retx cn = fst (rx_add (mn_retx (sn_node c)) (sn_own q) (mn_apsCounter (sn_node c)) 0 (Some apdu) (length apdu) 3 2000 t2) \<and>
    (let used = mn_usedNeighbors (mn_neighbors (sn_node c)) in
     if length used \<le> 3 then
       \<exists>psdu' c2 q2.
         station_send ecb answer (c1\<lparr>sn_node := cn\<rparr>) = Some (Some psdu', c2) \<and>
         station_receive ecb t3 rssi' lqi' psdu' q1 = Some (q2,
           [PrintNeighbors 0 (of_nat (length used)) (map (\<lambda>e. zl_air (mn_lqiEntry e)) used),
            TxNwkData (mn_pan (sn_node q)) 0 (sn_own q) 0 (sn_own q) (bytes_of (aps_buildAckFrame (Some aps_kBaseHeaderLen)
              0 ZDO_MGMT_LQI_RSP 0 0 (mn_apsCounter (sn_node c)))) kDefaultRadius True]) \<and>
         \<not> mn_lqiPending (sn_node q2)
     else \<exists>c2. station_send ecb answer (c1\<lparr>sn_node := cn\<rparr>) = Some (None, c2))"
proof -
  let ?own = "sn_own q" and ?used = "mn_usedNeighbors (mn_neighbors (sn_node c))"
  obtain psdu q1 c1 s where
    asked: "station_send ecb query (q\<lparr>sn_node := qn\<rparr>) = Some (Some psdu, q1)"
      "station_receive ecb t1 rssi lqi psdu c = Some (c1, [])" "sn_node c1 = lqi_asked ?own (mn_lqiSeq qn) 0 s"
    and s: "mn_net s = mn_net (sn_node c)" "mn_retx s = mn_retx (sn_node c)" "mn_apsCounter s = mn_apsCounter (sn_node c)"
      "mn_hopOr s ?own ?own = ?own" and c1: "station_ok c1" "same_sender c c1"
    and q1: "station_ok q1" "\<And>b. mesh_link b q \<Longrightarrow> mesh_link b q1" "sn_node q1 = qn"
    by (rule query_reaches [OF assms(1-4,6-9), of t1 rssi lqi]) (rule that)
  note k = net_own [OF s(1)]
  have np: "\<not> rx_hasPendingFor (mn_retx s) ?own 0" using assms(10) s(2) by simp
  let ?page = "mn_lqiPage (mn_neighbors s) 0"
  obtain apdu rsp bs r where
    sent: "mn_sendPendingMgmtLqiRsp t2 (lqi_asked ?own (mn_lqiSeq qn) 0 s) =
       ((lqi_asked ?own (mn_lqiSeq qn) 0 s)\<lparr>mn_pendingLqiRsp := False,
           mn_retx := fst (rx_add (mn_retx s) ?own (mn_apsCounter s) 0 (Some apdu) (length apdu) 3 2000 t2),
           mn_apsCounter := mn_apsCounter s + 1\<rparr>, [mn_sendApsRouted s ?own apdu])"
    and len: "length apdu = 13 + 22 * length ?page"
    and rsp: "aps_frameType (Some apdu) = Some 0" "aps_parseDataFrame (Some apdu) = Some (True, rsp)"
      "rsp = aps_data_frame0\<lparr>ap_valid := True, ap_ackRequest := True, ap_dstEndpoint := 0, ap_clusterId := ZDO_MGMT_LQI_RSP,
       ap_profileId := 0, ap_srcEndpoint := 0, ap_counter := mn_apsCounter s, ap_payload := Some bs, ap_payloadLen := length bs\<rparr>"
    and page: "zd_parseMgmtLqiResponse (Some bs) = Some (True, r)" "zG_sequence r = mn_lqiSeq qn"
      "zG_entries r = of_nat (length (mn_usedNeighbors (mn_neighbors s)))"
      "mn_readEntries r (unat (zG_listCount r)) 0 = Some (map zl_air ?page)"
    by (rule lqi_page_sent [OF np]) (rule that)
  let ?cn = "(lqi_asked ?own (mn_lqiSeq qn) 0 s)\<lparr>mn_pendingLqiRsp := False,
      mn_retx := fst (rx_add (mn_retx s) ?own (mn_apsCounter s) 0 (Some apdu) (length apdu) 3 2000 t2), mn_apsCounter := mn_apsCounter s + 1\<rparr>"
  let ?c = "c1\<lparr>sn_node := ?cn\<rparr>" and ?answer = "TxNwkData (mn_pan (sn_node c)) ?own 0 ?own 0 apdu kDefaultRadius True"
  have answer: "mn_sendApsRouted s ?own apdu = ?answer"
    using s(4) k assms(6) by (simp add: mn_sendApsRouted_def sn_own_def)
  have net: "mn_net ?cn = mn_net (sn_node c1)" "mn_routing ?cn = mn_routing (sn_node c1)" by (simp_all add: asked(3) lqi_asked_def)
  note n = node_kept [OF net(1)]
  have c: "station_ok ?c" "mesh_link ?c q1" "sn_own ?c = 0"
    using n c1 q1(2) [OF mesh_link_sender [OF c1(2) assms(5)]] assms(6) net(2) by (simp_all add: station_ok_def same_sender_def)
  have own: "sn_own q1 = ?own" "mn_pan (sn_node q1) = mn_pan (sn_node q)"
    using net_own [OF query_asked(3) [OF assms(8)]] q1(3) by (simp_all add: sn_own_def)
  show ?thesis
  proof (cases "length ?used \<le> 3")
    case True
    have p: "?page = map mn_lqiEntry ?used" using True k(4) by (simp add: mn_lqiPage_def)
    have l: "8 \<le> length apdu" "length apdu \<le> 90" using len p True by simp_all
    from answer_reaches [OF assms(1) c(1) q1(1) c(2,3) _ l rsp page(1) _ page(4), of "mn_pan (sn_node c)" ?own t3 rssi' lqi']
    show ?thesis using asked sent answer True p page(2,3) own q1(3) s(2,3) k(4) assms(7)
      by (simp add: comp_def)
  next
    case False
    then have l: "90 < length apdu" "length apdu \<le> 108" using len k(4) by (simp_all add: mn_lqiPage_def)
    obtain tx where t: "cc_security (sn_radio ?c) = Some tx" "sc_hasKey tx" "length (sc_key tx) = 16"
      using c(1) by (auto simp: station_ok_def)
    from secured_data_refused [OF assms(1) t l, of "mn_pan (sn_node c)" ?own 0 ?own 0 kDefaultRadius True]
    show ?thesis using asked sent answer False s(2,3) by (auto simp: station_send_def mesh_perform_def)
  qed
qed

text \<open>A coordinator that knows one device is asked by another one.\<close>

definition query_coordinator :: station where
  "query_coordinator = (example_station 0 1 True 0)\<lparr>sn_node :=
     (let s = sn_node (example_station 0 1 True 0) in
      s\<lparr>mn_net := (mn_net s)\<lparr>nw_neighbors := Some (Some [neighbor0\<lparr>nb_used := True, nb_nwk := 5, nb_ieee := 77\<rparr>])\<rparr>\<rparr>)\<rparr>"

lemma query_coordinator_facts:
  "sn_own query_coordinator = 0" "station_ok query_coordinator" "mesh_link (example_station 7 3 False 0) query_coordinator"
  "mesh_link query_coordinator (example_station 7 3 False 0)" "mn_pan (sn_node query_coordinator) = 0x1A62"
  "mn_usedNeighbors (mn_neighbors (sn_node query_coordinator)) = [neighbor0\<lparr>nb_used := True, nb_nwk := 5, nb_ieee := 77\<rparr>]"
  "mn_retx (sn_node query_coordinator) = mn_retx mn_init"
proof -
  let ?e = "example_station 0 1 True 0" and ?q = "example_station 7 3 False 0"
  show own: "sn_own query_coordinator = 0"
    by (simp add: query_coordinator_def example_station_def sn_own_def mn_own_def Let_def)
  have "station_ok ?e" "mesh_link ?q ?e" "mesh_link ?e ?q" by (simp_all add: example_station_ok example_link)
  then show "station_ok query_coordinator" "mesh_link ?q query_coordinator" "mesh_link query_coordinator ?q"
    unfolding station_ok_def mesh_link_def own example_own
    by (simp_all add: query_coordinator_def Let_def mn_joined_def split: option.splits)
  show "mn_pan (sn_node query_coordinator) = 0x1A62" "mn_retx (sn_node query_coordinator) = mn_retx mn_init"
    "mn_usedNeighbors (mn_neighbors (sn_node query_coordinator)) = [neighbor0\<lparr>nb_used := True, nb_nwk := 5, nb_ieee := 77\<rparr>]"
    by (simp_all add: query_coordinator_def Let_def example_station_def mn_pan_def mn_usedNeighbors_def mn_neighbors_def)
qed

theorem neighbor_query_answered_witness:
  "\<exists>qn query psdu q1 c1 cn answer psdu' c2 q2 e acks.
     mn_queryNeighbors 20001 (sn_node (example_station 7 3 False 0)) = (qn, [query]) \<and>
     station_send ecb_example query ((example_station 7 3 False 0)\<lparr>sn_node := qn\<rparr>) = Some (Some psdu, q1) \<and>
     station_receive ecb_example 20002 200 90 psdu query_coordinator = Some (c1, []) \<and>
     mn_sendPendingMgmtLqiRsp 20003 (sn_node c1) = (cn, [answer]) \<and>
     station_send ecb_example answer (c1\<lparr>sn_node := cn\<rparr>) = Some (Some psdu', c2) \<and>
     station_receive ecb_example 20004 200 90 psdu' q1 = Some (q2, PrintNeighbors 0 1 [e] # acks) \<and>
     zl_nwkAddress e = 5 \<and> zl_extendedAddress e = 77 \<and> \<not> mn_lqiPending (sn_node q2)"
proof -
  let ?q = "example_station 7 3 False 0"
  let ?e = "zl_air (mn_lqiEntry (neighbor0\<lparr>nb_used := True, nb_nwk := 5, nb_ieee := 77\<rparr>))"
  note c = query_coordinator_facts
  have own: "sn_own ?q = 7" by (rule example_own)
  have q: "station_ok ?q" "sn_own ?q \<noteq> 0" "mn_hopOr (sn_node ?q) 0 0 = 0"
    by (simp_all add: example_station_ok own mn_hopOr_def example_hop)
  have p: "\<not> rx_hasPendingFor (mn_retx (sn_node query_coordinator)) (sn_own ?q) 0"
    by (simp add: c(7) mn_init_def rx_begin_def rx_hasPendingFor_def pending0_def)
  have "\<exists>qn query. mn_queryNeighbors 20001 (sn_node ?q) = (qn, [query])"
    by (simp add: mn_queryNeighbors_def mn_startQuery_def Let_def example_station_def mn_init_def mn_reached_def)
  then obtain qn query where asked: "mn_queryNeighbors 20001 (sn_node ?q) = (qn, [query])" by blast
  from neighbor_query_answered [OF ecb_example_works q(1) c(2,3,4,1) q(2) asked q(3) p, of 20002 200 90 20003 20004 200 90]
  show ?thesis using asked by (auto simp: c(6) zl_air_def mn_lqiEntry_def)
qed

end
