(* ===== verification/ZbGreenPower.thy ===== *)
theory ZbGreenPower
  imports ZbCcm ZbSlots
begin

text \<open>
  Green Power: \<open>ZigbeeGreenPower.h\<close> (the frames of battery-less devices, their AES-CCM* security, the
  commissioning command, the sink table), \<open>ZigbeeGreenPowerCluster.h\<close> (the commands with which a proxy
  tunnels such a frame to the sink, and the sink's handlers) and \<open>ZigbeeGpProxy.h\<close> (the proxy).

  A byte buffer with its length is the list of the bytes in use. A builder answers \<open>Some bs\<close> for what it
  wrote and \<open>None\<close> for 0; a parser answers \<open>Some x\<close> for true with what it stored in the caller's object and
  \<open>None\<close> for false. Around both, the outer \<open>None\<close> is an access outside a buffer. \<open>ecb\<close> is the AES block
  of the radio chip, as in \<open>ZbCcm\<close>.
\<close>

section \<open>Device frames\<close>

abbreviation (input) "GPD_CMD_COMMISSIONING \<equiv> (0xE0 :: u8)"
abbreviation (input) "GP_SEC_NONE \<equiv> (0 :: u8)"
abbreviation (input) "GP_SEC_FC_MIC \<equiv> (2 :: u8)"
abbreviation (input) "GP_SEC_ENC_FC_MIC \<equiv> (3 :: u8)"
abbreviation (input) "gp_kMicLen \<equiv> (4 :: nat)"
abbreviation (input) "gp_kPayload \<equiv> (48 :: nat)"

record gpdf =
  gf_securityLevel :: u8
  gf_rxAfterTx :: bool
  gf_srcId :: u32
  gf_frameCounter :: u32
  gf_commandId :: u8
  gf_payload :: "u8 list"

record gp_commissioning =
  gc_deviceId :: u8
  gc_options :: u8
  gc_keyPresent :: bool
  gc_key :: "u8 list"
  gc_outgoingCounterPresent :: bool
  gc_outgoingCounter :: u32

definition gp_fc :: u8 where
  "gp_fc = push_bit 2 3 OR 0x80"

definition gp_extFc :: "u8 \<Rightarrow> u8 \<Rightarrow> bool \<Rightarrow> u8" where
  "gp_extFc appId secLevel rxAfterTx =
     (appId AND 0x07) OR push_bit 3 (secLevel AND 0x03) OR (if rxAfterTx then 0x40 else 0)"

definition gp_nonce :: "u32 \<Rightarrow> u32 \<Rightarrow> u8 list" where
  "gp_nonce srcId frameCounter = le32 srcId @ le32 srcId @ le32 frameCounter @ [0x05]"

text \<open>\<open>need\<close> is a byte: with 249 bytes of payload or more it wraps, and the stores leave the buffer.\<close>

definition gp_buildUnsecured :: "out_buf \<Rightarrow> u32 \<Rightarrow> u8 \<Rightarrow> u8 list \<Rightarrow> u8 list option option" where
  "gp_buildUnsecured out srcId commandId payload =
     (case out of None \<Rightarrow> Some None | Some outMax \<Rightarrow>
        if outMax < cast8 (7 + length payload) then Some None
        else if outMax < 7 + length payload then None
        else Some (Some ([gp_fc, gp_extFc 0 GP_SEC_NONE False] @ le32 srcId @ [commandId] @ payload)))"

definition gp_secure ::
  "block_cipher \<Rightarrow> out_buf \<Rightarrow> u8 list \<Rightarrow> u32 \<Rightarrow> u32 \<Rightarrow> u8 \<Rightarrow> u8 list \<Rightarrow> u8 list option option"
where
  "gp_secure ecb out key srcId frameCounter commandId payload =
     (let encLen = cast8 (1 + length payload); need = cast8 (2 + 4 + 4 + encLen + gp_kMicLen) in
      case out of None \<Rightarrow> Some None | Some outMax \<Rightarrow>
        if outMax < need \<or> gp_kPayload < encLen then Some None
        else if gp_kPayload < 1 + length payload then None
        else
          let hdr = [gp_fc, gp_extFc 0 GP_SEC_ENC_FC_MIC False] @ le32 srcId @ le32 frameCounter in
          (case ccm_starCrypt ecb True key gp_kMicLen (gp_nonce srcId frameCounter) hdr (commandId # payload) None of
             None \<Rightarrow> Some None
           | Some (cipher, mic) \<Rightarrow> Some (Some (hdr @ cipher @ mic))))"

text \<open>\<open>parse\<close>; the command and payload of a secured frame stay 0.\<close>

definition gp_parse :: "ptr \<Rightarrow> gpdf option option" where
  "gp_parse inb =
     (case inb of None \<Rightarrow> Some None | Some bs \<Rightarrow>
        if length bs < 6 then Some None
        else do {
          fc \<leftarrow> rd8 bs 0;
          if drop_bit 2 fc AND 0x0F \<noteq> 3 then Some None
          else do {
            e \<leftarrow> (if fc AND 0x80 \<noteq> 0 then rd8 bs 1 else Some 0);
            let idx = (if fc AND 0x80 \<noteq> 0 then 2 else 1);
            let secLevel = drop_bit 3 e AND 0x03;
            if e AND 0x07 \<noteq> 0 \<or> length bs < idx + 4 then Some None
            else do {
              srcId \<leftarrow> rd32 bs idx;
              if GP_SEC_FC_MIC \<le> secLevel \<and> length bs < idx + 8 then Some None
              else do {
                frameCounter \<leftarrow> (if GP_SEC_FC_MIC \<le> secLevel then rd32 bs (idx + 4) else Some 0);
                let f = \<lparr>gf_securityLevel = secLevel, gf_rxAfterTx = (e AND 0x40 \<noteq> 0), gf_srcId = srcId,
                         gf_frameCounter = frameCounter, gf_commandId = 0, gf_payload = []\<rparr>;
                if secLevel \<noteq> GP_SEC_NONE then Some (Some f)
                else if length bs \<le> idx + 4 then Some None
                else do {
                  commandId \<leftarrow> rd8 bs (idx + 4);
                  if gp_kPayload < length bs - (idx + 5) then Some None
                  else Some (Some (f\<lparr>gf_commandId := commandId, gf_payload := drop (idx + 5) bs\<rparr>))
                }
              }
            }
          }
        })"

text \<open>
  \<open>open\<close> ignores whether the AES block of its own counter mode succeeds; when the hardware fails there, it
  goes on with an uninitialised key stream, the outer \<open>None\<close> here.
\<close>

definition gp_open :: "block_cipher \<Rightarrow> ptr \<Rightarrow> u8 list \<Rightarrow> gpdf option option" where
  "gp_open ecb inb key = do {
     parsed \<leftarrow> gp_parse inb;
     case (parsed, inb) of
       (Some f, Some bs) \<Rightarrow>
         if gf_securityLevel f \<noteq> GP_SEC_ENC_FC_MIC then Some None
         else if length bs < 10 + gp_kMicLen then Some None
         else
           let encLen = cast8 (length bs - 10 - gp_kMicLen) in
           if encLen < 1 \<or> gp_kPayload < encLen then Some None
           else do {
             let nonce = gp_nonce (gf_srcId f) (gf_frameCounter f);
             cipher \<leftarrow> rd_bytes bs 10 encLen;
             mic \<leftarrow> rd_bytes bs (10 + encLen) gp_kMicLen;
             plain \<leftarrow> ctr_xor ecb key nonce 1 cipher;
             case ccm_starCrypt ecb False key gp_kMicLen nonce (take 10 bs) plain (Some mic) of
               None \<Rightarrow> Some None
             | Some _ \<Rightarrow> Some (Some (f\<lparr>gf_commandId := hd plain, gf_payload := tl plain\<rparr>))
           }
     | _ \<Rightarrow> Some None
   }"

section \<open>The commissioning command\<close>

definition gp_buildCommissioning :: "out_buf \<Rightarrow> gp_commissioning \<Rightarrow> u8 list option" where
  "gp_buildCommissioning out c =
     (let need = 2 + (if gc_keyPresent c then 16 else 0) + (if gc_outgoingCounterPresent c then 4 else 0) in
      case out of None \<Rightarrow> None | Some outMax \<Rightarrow>
        if outMax < need then None
        else Some ([gc_deviceId c, gc_options c] @ (if gc_keyPresent c then gc_key c else []) @
               (if gc_outgoingCounterPresent c then le32 (gc_outgoingCounter c) else [])))"

definition gp_parseCommissioning :: "u8 list \<Rightarrow> gp_commissioning option option" where
  "gp_parseCommissioning bs =
     (if length bs < 2 then Some None
      else do {
        deviceId \<leftarrow> rd8 bs 0;
        options \<leftarrow> rd8 bs 1;
        let keyPresent = (options AND 0x20 \<noteq> 0);
        let counterPresent = (options AND 0x40 \<noteq> 0);
        if keyPresent \<and> length bs < 18 then Some None
        else do {
          key \<leftarrow> (if keyPresent then rd_bytes bs 2 16 else Some (replicate 16 0));
          let idx = (if keyPresent then 18 else 2);
          if counterPresent \<and> length bs < idx + 4 then Some None
          else do {
            counter \<leftarrow> (if counterPresent then rd32 bs idx else Some 0);
            Some (Some \<lparr>gc_deviceId = deviceId, gc_options = options, gc_keyPresent = keyPresent, gc_key = key,
                   gc_outgoingCounterPresent = counterPresent, gc_outgoingCounter = counter\<rparr>)
          }
        }
      })"

section \<open>The sink table\<close>

record gp_sink =
  si_used :: bool
  si_srcId :: u32
  si_deviceId :: u8
  si_key :: "u8 list"
  si_lastCounter :: u32

definition gp_sink0 :: gp_sink where
  "gp_sink0 = \<lparr>si_used = False, si_srcId = 0, si_deviceId = 0, si_key = replicate 16 0, si_lastCounter = 0\<rparr>"

type_synonym sink_table = "gp_sink list option"

definition sink_begin :: "sink_table \<Rightarrow> sink_table" where
  "sink_begin storage = map_option (map (\<lambda>_. gp_sink0)) storage"

definition sink_find :: "sink_table \<Rightarrow> u32 \<Rightarrow> nat option" where
  "sink_find t srcId = (case t of None \<Rightarrow> None | Some es \<Rightarrow> slot_find si_used si_srcId es srcId)"

definition sink_firstFree :: "sink_table \<Rightarrow> nat option" where
  "sink_firstFree t = (case t of None \<Rightarrow> None | Some es \<Rightarrow> find_idx (\<lambda>e. \<not> si_used e) es)"

definition sink_commission :: "sink_table \<Rightarrow> u32 \<Rightarrow> u8 \<Rightarrow> u8 list \<Rightarrow> sink_table \<times> nat option" where
  "sink_commission t srcId deviceId key =
     (case or_else (sink_find t srcId) (sink_firstFree t) of None \<Rightarrow> (t, None)
      | Some i \<Rightarrow>
          (map_option (\<lambda>es. es[i := \<lparr>si_used = True, si_srcId = srcId, si_deviceId = deviceId, si_key = take 16 key,
              si_lastCounter = 0\<rparr>]) t, Some i))"

definition sink_checkAndUpdateCounter :: "sink_table \<Rightarrow> u32 \<Rightarrow> u32 \<Rightarrow> sink_table \<times> bool" where
  "sink_checkAndUpdateCounter t srcId frameCounter =
     (case sink_find t srcId of None \<Rightarrow> (t, False)
      | Some i \<Rightarrow>
          let e = the t ! i in
          if frameCounter \<le> si_lastCounter e \<and> si_lastCounter e \<noteq> 0 then (t, False)
          else (map_option (\<lambda>es. es[i := e\<lparr>si_lastCounter := frameCounter\<rparr>]) t, True))"

definition sink_remove :: "sink_table \<Rightarrow> u32 \<Rightarrow> sink_table \<times> bool" where
  "sink_remove t srcId =
     (case sink_find t srcId of None \<Rightarrow> (t, False)
      | Some i \<Rightarrow> (map_option (\<lambda>es. es[i := gp_sink0]) t, True))"

section \<open>Notifications and pairings\<close>

abbreviation (input) "GP_CMD_NOTIFICATION \<equiv> (0x00 :: u8)"
abbreviation (input) "GP_CMD_COMMISSIONING_NOTIFICATION \<equiv> (0x04 :: u8)"
abbreviation (input) "GP_COMM_LIGHTWEIGHT_UNICAST \<equiv> (3 :: u8)"

record gp_notification =
  gn_applicationId :: u8
  gn_securityLevel :: u8
  gn_securityKeyType :: u8
  gn_rxAfterTx :: bool
  gn_srcId :: u32
  gn_frameCounter :: u32
  gn_commandId :: u8
  gn_payload :: "u8 list"
  gn_secured :: bool
  gn_mic :: "u8 list"
  gn_proxyInfoPresent :: bool
  gn_gppShortAddr :: u16
  gn_gppLink :: u8

definition gn_options :: "gp_notification \<Rightarrow> u16" where
  "gn_options n = (ucast (gn_applicationId n) AND 0x07) OR push_bit 3 (ucast (gn_securityLevel n) AND 0x03) OR
     push_bit 5 (ucast (gn_securityKeyType n) AND 0x03) OR (if gn_rxAfterTx n then 0x80 else 0) OR
     (if gn_secured n then 0x100 else 0) OR (if gn_proxyInfoPresent n then 0x200 else 0)"

definition gp_buildNotification :: "out_buf \<Rightarrow> gp_notification \<Rightarrow> u8 list option" where
  "gp_buildNotification out n =
     (if gp_kPayload < length (gn_payload n) then None
      else
        let need = 12 + length (gn_payload n) + (if gn_secured n then 4 else 0) + (if gn_proxyInfoPresent n then 3 else 0) in
        case out of None \<Rightarrow> None | Some outMax \<Rightarrow>
          if outMax < need then None
          else Some (le16 (gn_options n) @ le32 (gn_srcId n) @ le32 (gn_frameCounter n) @
                 [gn_commandId n, of_nat (length (gn_payload n))] @ gn_payload n @
                 (if gn_secured n then gn_mic n else []) @
                 (if gn_proxyInfoPresent n then le16 (gn_gppShortAddr n) @ [gn_gppLink n] else [])))"

definition gp_parseNotification :: "ptr \<Rightarrow> gp_notification option option" where
  "gp_parseNotification p =
     (case p of None \<Rightarrow> Some None | Some bs \<Rightarrow>
        if length bs < 12 then Some None
        else do {
          opt \<leftarrow> rd16 bs 0;
          srcId \<leftarrow> rd32 bs 2;
          frameCounter \<leftarrow> rd32 bs 6;
          commandId \<leftarrow> rd8 bs 10;
          payloadLen \<leftarrow> map_option unat (rd8 bs 11);
          let secured = (opt AND 0x100 \<noteq> 0);
          let proxyInfo = (opt AND 0x200 \<noteq> 0);
          if gp_kPayload < payloadLen \<or> length bs < 12 + payloadLen then Some None
          else do {
            payload \<leftarrow> rd_bytes bs 12 payloadLen;
            let idx = 12 + payloadLen;
            if secured \<and> length bs < idx + 4 then Some None
            else do {
              mic \<leftarrow> (if secured then rd_bytes bs idx 4 else Some (replicate 4 0));
              let idx = (if secured then idx + 4 else idx);
              if proxyInfo \<and> length bs < idx + 3 then Some None
              else do {
                gppShortAddr \<leftarrow> (if proxyInfo then rd16 bs idx else Some 0);
                gppLink \<leftarrow> (if proxyInfo then rd8 bs (idx + 2) else Some 0);
                Some (Some \<lparr>gn_applicationId = ucast (opt AND 0x07), gn_securityLevel = ucast (drop_bit 3 opt AND 0x03),
                  gn_securityKeyType = ucast (drop_bit 5 opt AND 0x03), gn_rxAfterTx = (opt AND 0x80 \<noteq> 0),
                  gn_srcId = srcId, gn_frameCounter = frameCounter, gn_commandId = commandId, gn_payload = payload,
                  gn_secured = secured, gn_mic = mic, gn_proxyInfoPresent = proxyInfo, gn_gppShortAddr = gppShortAddr,
                  gn_gppLink = gppLink\<rparr>)
              }
            }
          }
        })"

record gp_pairing =
  gr_applicationId :: u8
  gr_addSink :: bool
  gr_removeGpd :: bool
  gr_communicationMode :: u8
  gr_securityLevel :: u8
  gr_securityKeyType :: u8
  gr_srcId :: u32
  gr_sinkNwkAddr :: u16
  gr_deviceId :: u8
  gr_frameCounterPresent :: bool
  gr_frameCounter :: u32
  gr_keyPresent :: bool
  gr_key :: "u8 list"

definition gr_options :: "gp_pairing \<Rightarrow> u32" where
  "gr_options g = (ucast (gr_applicationId g) AND 0x07) OR (if gr_addSink g then 0x08 else 0) OR
     (if gr_removeGpd g then 0x10 else 0) OR push_bit 5 (ucast (gr_communicationMode g) AND 0x03) OR
     push_bit 7 (ucast (gr_securityLevel g) AND 0x03) OR push_bit 9 (ucast (gr_securityKeyType g) AND 0x07) OR
     (if gr_frameCounterPresent g then 0x1000 else 0) OR (if gr_keyPresent g then 0x2000 else 0)"

definition gp_buildPairing :: "out_buf \<Rightarrow> gp_pairing \<Rightarrow> u8 list option" where
  "gp_buildPairing out g =
     (let need = 10 + (if gr_frameCounterPresent g then 4 else 0) + (if gr_keyPresent g then 16 else 0); opt = gr_options g in
      case out of None \<Rightarrow> None | Some outMax \<Rightarrow>
        if outMax < need then None
        else Some (le_bytes 3 opt @ le32 (gr_srcId g) @ le16 (gr_sinkNwkAddr g) @ [gr_deviceId g] @
               (if gr_frameCounterPresent g then le32 (gr_frameCounter g) else []) @
               (if gr_keyPresent g then gr_key g else [])))"

definition gp_parsePairing :: "ptr \<Rightarrow> gp_pairing option option" where
  "gp_parsePairing p =
     (case p of None \<Rightarrow> Some None | Some bs \<Rightarrow>
        if length bs < 10 then Some None
        else do {
          opt \<leftarrow> map_option (le_val :: u8 list \<Rightarrow> u32) (rd_bytes bs 0 3);
          srcId \<leftarrow> rd32 bs 3;
          sink \<leftarrow> rd16 bs 7;
          deviceId \<leftarrow> rd8 bs 9;
          let counterPresent = (opt AND 0x1000 \<noteq> 0);
          let keyPresent = (opt AND 0x2000 \<noteq> 0);
          if counterPresent \<and> length bs < 14 then Some None
          else do {
            counter \<leftarrow> (if counterPresent then rd32 bs 10 else Some 0);
            let idx = (if counterPresent then 14 else 10);
            if keyPresent \<and> length bs < idx + 16 then Some None
            else do {
              key \<leftarrow> (if keyPresent then rd_bytes bs idx 16 else Some (replicate 16 0));
              Some (Some \<lparr>gr_applicationId = ucast (opt AND 0x07), gr_addSink = (opt AND 0x08 \<noteq> 0),
                gr_removeGpd = (opt AND 0x10 \<noteq> 0), gr_communicationMode = ucast (drop_bit 5 opt AND 0x03),
                gr_securityLevel = ucast (drop_bit 7 opt AND 0x03), gr_securityKeyType = ucast (drop_bit 9 opt AND 0x07),
                gr_srcId = srcId, gr_sinkNwkAddr = sink, gr_deviceId = deviceId, gr_frameCounterPresent = counterPresent,
                gr_frameCounter = counter, gr_keyPresent = keyPresent, gr_key = key\<rparr>)
            }
          }
        })"

section \<open>The sink's handlers\<close>

text \<open>The slot of the device and the pairing that the sink may announce.\<close>

definition gp_handleCommissioningNotification ::
  "sink_table \<Rightarrow> ptr \<Rightarrow> u16 \<Rightarrow> (sink_table \<times> (nat \<times> gp_pairing) option) option"
where
  "gp_handleCommissioningNotification t payload sinkNwkAddr = do {
     n \<leftarrow> gp_parseNotification payload;
     case n of None \<Rightarrow> Some (t, None)
     | Some n \<Rightarrow>
         if gn_commandId n \<noteq> GPD_CMD_COMMISSIONING then Some (t, None)
         else do {
           c \<leftarrow> gp_parseCommissioning (gn_payload n);
           case c of None \<Rightarrow> Some (t, None)
           | Some c \<Rightarrow>
               if \<not> gc_keyPresent c then Some (t, None)
               else
                 (case sink_commission t (gn_srcId n) (gc_deviceId c) (gc_key c) of
                    (t, None) \<Rightarrow> Some (t, None)
                  | (t, Some i) \<Rightarrow> Some (t, Some (i,
                      \<lparr>gr_applicationId = 0, gr_addSink = True, gr_removeGpd = False,
                       gr_communicationMode = GP_COMM_LIGHTWEIGHT_UNICAST, gr_securityLevel = GP_SEC_ENC_FC_MIC,
                       gr_securityKeyType = 0, gr_srcId = gn_srcId n, gr_sinkNwkAddr = sinkNwkAddr,
                       gr_deviceId = gc_deviceId c, gr_frameCounterPresent = gc_outgoingCounterPresent c,
                       gr_frameCounter = gc_outgoingCounter c, gr_keyPresent = True, gr_key = gc_key c\<rparr>)))
         }
   }"

text \<open>The device's frame again, from the notification.\<close>

definition gp_rebuilt :: "gp_notification \<Rightarrow> u8 list" where
  "gp_rebuilt n = [push_bit 2 3 OR 0x80, push_bit 3 3 OR (if gn_rxAfterTx n then 0x40 else 0)] @
     le32 (gn_srcId n) @ le32 (gn_frameCounter n) @ [gn_commandId n] @ gn_payload n @ gn_mic n"

definition gp_handleNotification ::
  "block_cipher \<Rightarrow> sink_table \<Rightarrow> ptr \<Rightarrow> nat \<Rightarrow> (sink_table \<times> (u8 \<times> u8 list) option) option"
where
  "gp_handleNotification ecb t payload outMax = do {
     n \<leftarrow> gp_parseNotification payload;
     case n of None \<Rightarrow> Some (t, None)
     | Some n \<Rightarrow>
         (case sink_find t (gn_srcId n) of None \<Rightarrow> Some (t, None)
          | Some i \<Rightarrow>
              if gn_secured n then
                if gp_kPayload < 1 + length (gn_payload n) then Some (t, None)
                else do {
                  f \<leftarrow> gp_open ecb (Some (gp_rebuilt n)) (si_key (the t ! i));
                  case f of None \<Rightarrow> Some (t, None)
                  | Some f \<Rightarrow>
                      (case sink_checkAndUpdateCounter t (gn_srcId n) (gf_frameCounter f) of
                         (t, False) \<Rightarrow> Some (t, None)
                       | (t, True) \<Rightarrow>
                           if outMax < length (gf_payload f) then Some (t, None)
                           else Some (t, Some (gf_commandId f, gf_payload f)))
                }
              else
                (case (if gn_frameCounter n = 0 then (t, True)
                       else sink_checkAndUpdateCounter t (gn_srcId n) (gn_frameCounter n)) of
                   (t, False) \<Rightarrow> Some (t, None)
                 | (t, True) \<Rightarrow>
                     if outMax < length (gn_payload n) then Some (t, None)
                     else Some (t, Some (gn_commandId n, gn_payload n))))
   }"

section \<open>The proxy\<close>

record gp_proxy =
  px_used :: bool
  px_srcId :: u32
  px_lastCounter :: u32

definition gp_proxy0 :: gp_proxy where
  "gp_proxy0 = \<lparr>px_used = False, px_srcId = 0, px_lastCounter = 0\<rparr>"

type_synonym proxy_table = "gp_proxy list option"

definition proxy_begin :: "proxy_table \<Rightarrow> proxy_table" where
  "proxy_begin storage = map_option (map (\<lambda>_. gp_proxy0)) storage"

definition proxy_find :: "proxy_table \<Rightarrow> u32 \<Rightarrow> nat option" where
  "proxy_find t srcId = (case t of None \<Rightarrow> None | Some es \<Rightarrow> slot_find px_used px_srcId es srcId)"

definition proxy_firstFree :: "proxy_table \<Rightarrow> nat option" where
  "proxy_firstFree t = (case t of None \<Rightarrow> None | Some es \<Rightarrow> find_idx (\<lambda>e. \<not> px_used e) es)"

definition proxy_oldest :: "proxy_table \<Rightarrow> nat option" where
  "proxy_oldest t =
     (case t of None \<Rightarrow> None | Some es \<Rightarrow> best_idx px_used (\<lambda>e b. px_lastCounter e < px_lastCounter b) es)"

definition proxy_isDuplicate :: "proxy_table \<Rightarrow> u32 \<Rightarrow> u32 \<Rightarrow> proxy_table \<times> bool" where
  "proxy_isDuplicate t srcId frameCounter =
     (case proxy_find t srcId of
        Some i \<Rightarrow>
          let e = the t ! i in
          if frameCounter \<le> px_lastCounter e then (t, True)
          else (map_option (\<lambda>es. es[i := e\<lparr>px_lastCounter := frameCounter\<rparr>]) t, False)
      | None \<Rightarrow>
          (case or_else (proxy_firstFree t) (proxy_oldest t) of
             None \<Rightarrow> (t, False)
           | Some i \<Rightarrow>
               (map_option (\<lambda>es. es[i := \<lparr>px_used = True, px_srcId = srcId, px_lastCounter = frameCounter\<rparr>]) t, False)))"

definition gp_noted :: "gpdf \<Rightarrow> u16 \<Rightarrow> u8 \<Rightarrow> gp_notification" where
  "gp_noted f gppShortAddr gppLink =
     \<lparr>gn_applicationId = 0, gn_securityLevel = gf_securityLevel f, gn_securityKeyType = 0,
      gn_rxAfterTx = gf_rxAfterTx f, gn_srcId = gf_srcId f, gn_frameCounter = gf_frameCounter f,
      gn_commandId = gf_commandId f, gn_payload = gf_payload f, gn_secured = False, gn_mic = replicate 4 0,
      gn_proxyInfoPresent = True, gn_gppShortAddr = gppShortAddr, gn_gppLink = gppLink\<rparr>"

text \<open>\<open>forward\<close>: the cluster command and its payload, or \<open>None\<close> where the frame is dropped.\<close>

definition gp_forward ::
  "proxy_table \<Rightarrow> ptr \<Rightarrow> u16 \<Rightarrow> u8 \<Rightarrow> out_buf \<Rightarrow> (proxy_table \<times> (u8 \<times> u8 list) option) option"
where
  "gp_forward t frame gppShortAddr gppLink out = do {
     parsed \<leftarrow> gp_parse frame;
     case (parsed, frame) of
       (Some f, Some bs) \<Rightarrow>
         let commissioning = (gf_securityLevel f = GP_SEC_NONE \<and> gf_commandId f = GPD_CMD_COMMISSIONING);
             (t, duplicate) = (if \<not> commissioning \<and> GP_SEC_FC_MIC \<le> gf_securityLevel f
                               then proxy_isDuplicate t (gf_srcId f) (gf_frameCounter f) else (t, False));
             n = gp_noted f gppShortAddr gppLink
         in
           if duplicate then Some (t, None)
           else if commissioning then
             Some (t, map_option (Pair GP_CMD_COMMISSIONING_NOTIFICATION) (gp_buildNotification out n))
           else if gf_securityLevel f = GP_SEC_ENC_FC_MIC then
             if length bs < 10 + 1 + 4 then Some (t, None)
             else
               let encLen = cast8 (length bs - 10 - 4) in
               if encLen < 1 \<or> gp_kPayload < encLen then Some (t, None)
               else do {
                 commandId \<leftarrow> rd8 bs 10;
                 payload \<leftarrow> rd_bytes bs 11 (encLen - 1);
                 mic \<leftarrow> rd_bytes bs (length bs - 4) 4;
                 Some (t, map_option (Pair GP_CMD_NOTIFICATION) (gp_buildNotification out
                   (n\<lparr>gn_secured := True, gn_commandId := commandId, gn_payload := payload, gn_mic := mic\<rparr>)))
               }
           else Some (t, map_option (Pair GP_CMD_NOTIFICATION) (gp_buildNotification out n))
     | _ \<Rightarrow> Some (t, None)
   }"

end
