(* ===== verification/ZbGreenPowerFacts.thy ===== *)
theory ZbGreenPowerFacts
  imports ZbGreenPower ZbSecurityFacts
begin

text \<open>
  Green Power end to end: what a device seals is what the sink behind a proxy hands to the application, in
  order and once; what the sink accepts as secured was sealed with the device's key.
\<close>

section \<open>The security of one frame\<close>

definition gp_header :: "u32 \<Rightarrow> u32 \<Rightarrow> bool \<Rightarrow> u8 list" where
  "gp_header src ctr rx = [0x8C, if rx then 0x58 else 0x18] @ le32 src @ le32 ctr"

lemma length_gp_header [simp]: "length (gp_header src ctr rx) = 10"
  by (simp add: gp_header_def)

lemma gp_parse_header:
  "gp_parse (Some (gp_header src ctr rx @ bs)) = Some (Some \<lparr>gf_securityLevel = 3, gf_rxAfterTx = rx, gf_srcId = src,
     gf_frameCounter = ctr, gf_commandId = 0, gf_payload = []\<rparr>)"
  by (cases rx) (simp_all add: gp_parse_def gp_header_def wire_simps)

lemma length_gp_nonce: "length (gp_nonce src ctr) = 13"
  by (simp add: gp_nonce_def)

lemma gp_open_header:
  assumes "length c = Suc k" "k < 48" "length mic = 4"
  shows "gp_open ecb (Some (gp_header src ctr rx @ c @ mic)) key =
    Option.bind (ctr_xor ecb key (gp_nonce src ctr) 1 c) (\<lambda>plain.
      case ccm_starCrypt ecb False key 4 (gp_nonce src ctr) (gp_header src ctr rx) plain (Some mic) of
        None \<Rightarrow> Some None
      | Some _ \<Rightarrow> Some (Some \<lparr>gf_securityLevel = 3, gf_rxAfterTx = rx, gf_srcId = src, gf_frameCounter = ctr,
          gf_commandId = hd plain, gf_payload = tl plain\<rparr>))"
  using assms by (simp add: gp_open_def gp_parse_header Let_def rd_bytes_skip rd_bytes_hit rd_bytes_hit_end cong: option.case_cong)

lemma gp_header_sealed: "[gp_fc, gp_extFc 0 3 False] @ le32 src @ le32 ctr = gp_header src ctr False"
  by (simp add: gp_header_def gp_fc_def gp_extFc_def)

lemma gp_sealed:
  assumes "ecb_works ecb" "length key = 16" "length payload \<le> 47" "15 + length payload \<le> m"
  obtains c mic where "gp_secure ecb (Some m) key src ctr cmd payload = Some (Some (gp_header src ctr False @ c @ mic))"
    "length c = Suc (length payload)" "length mic = 4"
    "gp_open ecb (Some (gp_header src ctr False @ c @ mic)) key = Some (Some \<lparr>gf_securityLevel = 3, gf_rxAfterTx = False,
       gf_srcId = src, gf_frameCounter = ctr, gf_commandId = cmd, gf_payload = payload\<rparr>)"
proof -
  obtain c mic where s: "ccm_starCrypt ecb True key 4 (gp_nonce src ctr) (gp_header src ctr False) (cmd # payload) None = Some (c, mic)"
    "length c = length (cmd # payload)" "length mic = 4" "ctr_xor ecb key (gp_nonce src ctr) 1 c = Some (cmd # payload)"
    "ccm_starCrypt ecb False key 4 (gp_nonce src ctr) (gp_header src ctr False) (cmd # payload) (Some mic) = Some ([], mic)"
    by (rule ccm_seal [OF assms(1,2) length_gp_nonce])
  have "gp_secure ecb (Some m) key src ctr cmd payload = Some (Some (gp_header src ctr False @ c @ mic))"
    using assms(3,4) s(1) by (simp add: gp_secure_def Let_def gp_header_sealed [simplified])
  moreover have "gp_open ecb (Some (gp_header src ctr False @ c @ mic)) key = Some (Some \<lparr>gf_securityLevel = 3, gf_rxAfterTx = False,
       gf_srcId = src, gf_frameCounter = ctr, gf_commandId = cmd, gf_payload = payload\<rparr>)"
    using s assms(3) by (subst gp_open_header [of _ "length payload"]) simp_all
  ultimately show thesis using that s(2,3) by simp
qed

lemma gp_secured_length:
  assumes "gp_secure ecb (Some m) key src ctr cmd payload = Some (Some bs)"
  shows "length payload \<le> 47" "15 + length payload \<le> m"
proof -
  have "\<not> 48 < 1 + length payload" "\<not> m < cast8 (2 + 4 + 4 + cast8 (1 + length payload) + 4)"
    using assms by (auto simp: gp_secure_def Let_def split: if_splits)
  then show "length payload \<le> 47" "15 + length payload \<le> m" by simp_all
qed

text \<open>A frame that a holder of the key sealed: CCM* over the header as it is on air, with the receive-after-transmit bit.\<close>

definition gp_seals :: "block_cipher \<Rightarrow> u8 list \<Rightarrow> u32 \<Rightarrow> u32 \<Rightarrow> bool \<Rightarrow> u8 \<Rightarrow> u8 list \<Rightarrow> u8 list \<Rightarrow> bool" where
  "gp_seals ecb key src ctr rx cmd payload frame \<longleftrightarrow> (\<exists>c mic. frame = gp_header src ctr rx @ c @ mic \<and>
     ccm_starCrypt ecb True key 4 (gp_nonce src ctr) (gp_header src ctr rx) (cmd # payload) None = Some (c, mic))"

lemma gp_opened_was_sealed:
  assumes "ecb_sized ecb" "gp_open ecb (Some (gp_header src ctr rx @ c @ mic)) key = Some (Some f)"
    and "length c = Suc k" "k < 48" "length mic = 4"
  shows "gp_seals ecb key src ctr rx (gf_commandId f) (gf_payload f) (gp_header src ctr rx @ c @ mic)"
    and "\<not> rx \<Longrightarrow> gp_secure ecb (Some 64) key src ctr (gf_commandId f) (gf_payload f) = Some (Some (gp_header src ctr rx @ c @ mic))"
    and "gf_frameCounter f = ctr" "length (gf_payload f) = k"
proof -
  obtain plain where p: "ctr_xor ecb key (gp_nonce src ctr) 1 c = Some plain"
    "ccm_starCrypt ecb False key 4 (gp_nonce src ctr) (gp_header src ctr rx) plain (Some mic) \<noteq> None"
    "gf_commandId f = hd plain" "gf_payload f = tl plain" "gf_frameCounter f = ctr"
    using assms(2) unfolding gp_open_header [OF assms(3-5)] by (auto simp: bind_eq_Some_conv split: option.splits)
  obtain r where r: "ccm_starCrypt ecb False key 4 (gp_nonce src ctr) (gp_header src ctr rx) plain (Some mic) = Some r"
    using p(2) by blast
  have l: "length plain = Suc k" using ctr_xor_length [OF assms(1) p(1)] assms(3) by simp
  then have ht: "hd plain # tl plain = plain" by (cases plain) simp_all
  note s = ccm_unseal [OF assms(1) r p(1) assms(5)]
  then show "gp_seals ecb key src ctr rx (gf_commandId f) (gf_payload f) (gp_header src ctr rx @ c @ mic)"
    by (simp add: gp_seals_def p(3,4) ht)
  show "gp_secure ecb (Some 64) key src ctr (gf_commandId f) (gf_payload f) = Some (Some (gp_header src ctr rx @ c @ mic))" if "\<not> rx"
    using s l assms(4) that by (simp add: gp_secure_def Let_def gp_header_sealed [simplified] p(3,4) ht)
  show "gf_frameCounter f = ctr" "length (gf_payload f) = k" using p(4,5) l by simp_all
qed

section \<open>Notifications\<close>

definition gn_ok :: "gp_notification \<Rightarrow> bool" where
  "gn_ok n \<longleftrightarrow> gn_applicationId n = 0 \<and> gn_securityLevel n \<le> 3 \<and> gn_securityKeyType n = 0 \<and> length (gn_mic n) = 4 \<and>
     (\<not> gn_secured n \<longrightarrow> gn_mic n = replicate 4 0) \<and> gn_proxyInfoPresent n \<and> length (gn_payload n) \<le> 48"

lemma gn_options_fields:
  assumes "gn_ok n"
  shows "ucast (gn_options n AND 0x07) = gn_applicationId n" "ucast (drop_bit 3 (gn_options n) AND 0x03) = gn_securityLevel n"
    "ucast (drop_bit 5 (gn_options n) AND 0x03) = gn_securityKeyType n" "gn_options n AND 0x80 \<noteq> 0 \<longleftrightarrow> gn_rxAfterTx n"
    "gn_options n AND 0x100 \<noteq> 0 \<longleftrightarrow> gn_secured n" "gn_options n AND 0x200 \<noteq> 0 \<longleftrightarrow> gn_proxyInfoPresent n"
proof -
  have z: "gn_applicationId n = 0" "gn_securityKeyType n = 0" "gn_proxyInfoPresent n" using assms by (simp_all add: gn_ok_def)
  have "gn_securityLevel n \<le> 3" using assms by (simp add: gn_ok_def)
  then consider "gn_securityLevel n = 0" | "gn_securityLevel n = 1" | "gn_securityLevel n = 2" | "gn_securityLevel n = 3"
    using u8_le3_cases by blast
  then have "ucast (gn_options n AND 0x07) = gn_applicationId n \<and> ucast (drop_bit 3 (gn_options n) AND 0x03) = gn_securityLevel n \<and>
    ucast (drop_bit 5 (gn_options n) AND 0x03) = gn_securityKeyType n \<and> (gn_options n AND 0x80 \<noteq> 0 \<longleftrightarrow> gn_rxAfterTx n) \<and>
    (gn_options n AND 0x100 \<noteq> 0 \<longleftrightarrow> gn_secured n) \<and> (gn_options n AND 0x200 \<noteq> 0 \<longleftrightarrow> gn_proxyInfoPresent n)"
    by cases (simp_all add: gn_options_def z)
  then show "ucast (gn_options n AND 0x07) = gn_applicationId n" "ucast (drop_bit 3 (gn_options n) AND 0x03) = gn_securityLevel n"
    "ucast (drop_bit 5 (gn_options n) AND 0x03) = gn_securityKeyType n" "gn_options n AND 0x80 \<noteq> 0 \<longleftrightarrow> gn_rxAfterTx n"
    "gn_options n AND 0x100 \<noteq> 0 \<longleftrightarrow> gn_secured n" "gn_options n AND 0x200 \<noteq> 0 \<longleftrightarrow> gn_proxyInfoPresent n"
    by blast+
qed

lemma gp_notification_roundtrip:
  assumes "gn_ok n" "67 \<le> m"
  obtains bs where "gp_buildNotification (Some m) n = Some bs" "gp_parseNotification (Some bs) = Some (Some n)"
proof -
  have n: "length (gn_payload n) \<le> 48" "length (gn_mic n) = 4" "\<not> gn_secured n \<Longrightarrow> gn_mic n = replicate 4 0" "gn_proxyInfoPresent n"
    using assms by (auto simp: gn_ok_def)
  let ?bs = "le16 (gn_options n) @ le32 (gn_srcId n) @ le32 (gn_frameCounter n) @
    [gn_commandId n, of_nat (length (gn_payload n))] @ gn_payload n @ (if gn_secured n then gn_mic n else []) @
    le16 (gn_gppShortAddr n) @ [gn_gppLink n]"
  have "gp_buildNotification (Some m) n = Some ?bs"
    using n assms(2) by (simp add: gp_buildNotification_def Let_def)
  moreover have "gp_parseNotification (Some ?bs) = Some (Some n)"
    using n by (auto simp: gp_parseNotification_def gn_options_fields [OF assms(1)] wire_simps rd_bytes_skip rd_bytes_Cons
        rd_bytes_hit Let_def)
  ultimately show thesis by (rule that)
qed

section \<open>The tables\<close>

text \<open>The proxy has forwarded a frame of the device with this counter or a later one.\<close>

definition proxy_seen :: "proxy_table \<Rightarrow> u32 \<Rightarrow> u32 \<Rightarrow> bool" where
  "proxy_seen t src ctr \<longleftrightarrow> (\<exists>i. proxy_find t src = Some i \<and> ctr \<le> px_lastCounter (the t ! i))"

lemma slot_find_put:
  assumes "slot_find used key es k = Some i \<or> slot_find used key es k = None \<and> i < length es" "used e" "key e = k"
  shows "slot_find used key (es[i := e]) k = Some i"
  using assms unfolding slot_find_def
proof (intro find_idx_SomeI)
  assume a: "find_idx (\<lambda>e. used e \<and> key e = k) es = Some i \<or> find_idx (\<lambda>e. used e \<and> key e = k) es = None \<and> i < length es"
    "used e" "key e = k"
  then have i: "i < length es" by (auto dest: find_idx_bound)
  then show "i < length (es[i := e])" "used (es[i := e] ! i) \<and> key (es[i := e] ! i) = k" using a by simp_all
  fix j assume "j < i"
  then show "\<not> (used (es[i := e] ! j) \<and> key (es[i := e] ! j) = k)" using a(1) i
    by (auto simp: find_idx_Some_iff find_idx_None)
qed

lemma proxy_first_copy:
  assumes "\<not> proxy_seen t src ctr" "t = Some es" "es \<noteq> []"
  obtains es' where "proxy_isDuplicate t src ctr = (Some es', False)" "es' \<noteq> []"
    "\<And>c. proxy_seen (Some es') src c \<longleftrightarrow> c \<le> ctr"
proof (cases "slot_find px_used px_srcId es src")
  case (Some i)
  let ?e = "(es ! i)\<lparr>px_lastCounter := ctr\<rparr>"
  note i = slot_find_sat [OF Some] slot_find_bound [OF Some]
  have f: "slot_find px_used px_srcId (es[i := ?e]) src = Some i" using Some i(1) by (intro slot_find_put) simp_all
  show thesis
  proof (rule that)
    show "proxy_isDuplicate t src ctr = (Some (es[i := ?e]), False)"
      using assms(1,2) Some by (simp add: proxy_isDuplicate_def proxy_find_def proxy_seen_def)
    show "proxy_seen (Some (es[i := ?e])) src c \<longleftrightarrow> c \<le> ctr" for c
      using f i(2) by (simp add: proxy_seen_def proxy_find_def)
  qed (use assms(3) in simp)
next
  case None
  obtain i where p: "slot_pick px_used px_srcId (\<lambda>e b. px_lastCounter e < px_lastCounter b) es src = Some i"
    using slot_pick_ex [OF assms(3)] by (metis (no_types, lifting))
  let ?e = "\<lparr>px_used = True, px_srcId = src, px_lastCounter = ctr\<rparr>"
  have f: "slot_find px_used px_srcId (es[i := ?e]) src = Some i"
    using None slot_pick_bound [OF p] by (intro slot_find_put) simp_all
  show thesis
  proof (rule that)
    show "proxy_isDuplicate t src ctr = (Some (es[i := ?e]), False)"
      using p None assms(2)
      by (simp add: proxy_isDuplicate_def proxy_find_def proxy_firstFree_def proxy_oldest_def slot_pick_def)
    show "proxy_seen (Some (es[i := ?e])) src c \<longleftrightarrow> c \<le> ctr" for c
      using f slot_pick_bound [OF p] by (simp add: proxy_seen_def proxy_find_def)
  qed (use assms(3) in simp)
qed

text \<open>What the sink keeps of a device.\<close>

definition sink_entry :: "sink_table \<Rightarrow> u32 \<Rightarrow> gp_sink option" where
  "sink_entry t src = map_option (\<lambda>i. the t ! i) (sink_find t src)"

lemma sink_find_None [simp]: "sink_find None src = None"
  by (simp add: sink_find_def)

lemma sink_check_entry:
  assumes "sink_checkAndUpdateCounter t src ctr = (t', ok)"
  shows "ok \<longleftrightarrow> (\<exists>e. sink_entry t src = Some e \<and> (si_lastCounter e < ctr \<or> si_lastCounter e = 0))"
    and "sink_entry t' k = (if ok \<and> k = src then map_option (\<lambda>e. e\<lparr>si_lastCounter := ctr\<rparr>) (sink_entry t k) else sink_entry t k)"
proof -
  have "(ok \<longleftrightarrow> (\<exists>e. sink_entry t src = Some e \<and> (si_lastCounter e < ctr \<or> si_lastCounter e = 0))) \<and>
    sink_entry t' k = (if ok \<and> k = src then map_option (\<lambda>e. e\<lparr>si_lastCounter := ctr\<rparr>) (sink_entry t k) else sink_entry t k)"
  proof (cases "sink_find t src")
    case None
    then show ?thesis using assms by (auto simp: sink_checkAndUpdateCounter_def sink_entry_def)
  next
    case (Some i)
    then obtain es where es: "t = Some es" "slot_find si_used si_srcId es src = Some i"
      by (cases t) (simp_all add: sink_find_def)
    note i = slot_find_sat [OF es(2)] slot_find_bound [OF es(2)]
    let ?e = "(es ! i)\<lparr>si_lastCounter := ctr\<rparr>"
    have same: "slot_find si_used si_srcId (es[i := ?e]) k = slot_find si_used si_srcId es k"
    proof -
      have "si_used (es[i := ?e] ! j) \<and> si_srcId (es[i := ?e] ! j) = k \<longleftrightarrow> si_used (es ! j) \<and> si_srcId (es ! j) = k" for j
        using i by (cases "j = i") auto
      then show ?thesis unfolding slot_find_def by (intro option_ext) (simp add: find_idx_Some_iff)
    qed
    show ?thesis
    proof (cases "ctr \<le> si_lastCounter (es ! i) \<and> si_lastCounter (es ! i) \<noteq> 0")
      case True
      then show ?thesis using assms Some es by (auto simp: sink_checkAndUpdateCounter_def sink_entry_def Let_def)
    next
      case False
      then have t': "t' = Some (es[i := ?e])" "ok"
        using assms Some es by (auto simp: sink_checkAndUpdateCounter_def Let_def)
      have "sink_entry t' k = (if k = src then map_option (\<lambda>e. e\<lparr>si_lastCounter := ctr\<rparr>) (sink_entry t k) else sink_entry t k)"
      proof (cases "slot_find si_used si_srcId es k")
        case None
        then show ?thesis by (auto simp: sink_entry_def sink_find_def t' es(1) same)
      next
        case (Some j)
        show ?thesis
        proof (cases "k = src")
          case True
          then show ?thesis using es(2) i(2) same by (simp add: sink_entry_def sink_find_def t' es(1))
        next
          case False
          then have "i \<noteq> j" using i(1) slot_find_sat [OF Some] by auto
          then show ?thesis using Some False by (simp add: sink_entry_def sink_find_def t' es(1) same)
        qed
      qed
      moreover have "sink_entry t src = Some (es ! i)" using Some es(1) by (simp add: sink_entry_def)
      moreover have "si_lastCounter (es ! i) < ctr \<or> si_lastCounter (es ! i) = 0" using False by (simp add: not_le)
      ultimately show ?thesis using t'(2) by simp
    qed
  qed
  then show "ok \<longleftrightarrow> (\<exists>e. sink_entry t src = Some e \<and> (si_lastCounter e < ctr \<or> si_lastCounter e = 0))"
    "sink_entry t' k = (if ok \<and> k = src then map_option (\<lambda>e. e\<lparr>si_lastCounter := ctr\<rparr>) (sink_entry t k) else sink_entry t k)"
    by blast+
qed

lemma sink_commissioned:
  assumes "sink_find t src \<noteq> None \<or> sink_firstFree t \<noteq> None" "length key = 16"
  obtains t' i e where "sink_commission t src dev key = (t', Some i)" "sink_entry t' src = Some e" "si_key e = key"
    "si_lastCounter e = 0" "si_deviceId e = dev"
proof -
  obtain i where i: "or_else (sink_find t src) (sink_firstFree t) = Some i"
    using assms(1) by (cases "or_else (sink_find t src) (sink_firstFree t)") (auto simp: or_else_None)
  then obtain es where es: "t = Some es" by (cases t) (simp_all add: sink_firstFree_def)
  let ?e = "\<lparr>si_used = True, si_srcId = src, si_deviceId = dev, si_key = key, si_lastCounter = 0\<rparr>"
  have p: "slot_find si_used si_srcId es src = Some i \<or> slot_find si_used si_srcId es src = None \<and> i < length es"
    using i es by (cases "slot_find si_used si_srcId es src")
      (auto simp: sink_find_def sink_firstFree_def dest: find_idx_bound)
  then have "slot_find si_used si_srcId (es[i := ?e]) src = Some i" by (rule slot_find_put) simp_all
  moreover have "i < length es" using p by (auto dest: slot_find_bound)
  moreover have "sink_commission t src dev key = (Some (es[i := ?e]), Some i)"
    using i es assms(2) by (simp add: sink_commission_def)
  ultimately show thesis using that [of "Some (es[i := ?e])" i ?e] by (simp add: sink_entry_def sink_find_def)
qed

section \<open>Proxy and sink\<close>

text \<open>One frame from the air over a proxy to the sink, and a sequence of them.\<close>

fun gp_relay ::
  "block_cipher \<Rightarrow> u16 \<Rightarrow> u8 \<Rightarrow> nat \<Rightarrow> proxy_table \<times> sink_table \<Rightarrow> u8 list
     \<Rightarrow> ((proxy_table \<times> sink_table) \<times> (u8 \<times> u8 list) option) option"
where
  "gp_relay ecb self link room (p, t) frame = do {
     (p, sent) \<leftarrow> gp_forward p (Some frame) self link (Some 80);
     case sent of None \<Rightarrow> Some ((p, t), None)
     | Some (cmd, note) \<Rightarrow>
         if cmd = GP_CMD_COMMISSIONING_NOTIFICATION then do {
           (t, _) \<leftarrow> gp_handleCommissioningNotification t (Some note) 0;
           Some ((p, t), None)
         }
         else do {
           (t, r) \<leftarrow> gp_handleNotification ecb t (Some note) room;
           Some ((p, t), r)
         }
   }"

fun gp_relays ::
  "block_cipher \<Rightarrow> u16 \<Rightarrow> u8 \<Rightarrow> nat \<Rightarrow> proxy_table \<times> sink_table \<Rightarrow> u8 list list
     \<Rightarrow> ((proxy_table \<times> sink_table) \<times> (u8 \<times> u8 list) option list) option"
where
  "gp_relays ecb self link room s [] = Some (s, [])"
| "gp_relays ecb self link room s (f # fs) = do {
     (s, r) \<leftarrow> gp_relay ecb self link room s f;
     (s, rs) \<leftarrow> gp_relays ecb self link room s fs;
     Some (s, r # rs)
   }"

lemma gp_forward_sealed:
  assumes "length c = Suc k" "k < 48" "length mic = 4" "proxy_isDuplicate p src ctr = (p', d)"
  shows "gp_forward p (Some (gp_header src ctr False @ c @ mic)) self link (Some 80) =
    Some (p', if d then None else Some (0, the (gp_buildNotification (Some 80)
      \<lparr>gn_applicationId = 0, gn_securityLevel = 3, gn_securityKeyType = 0, gn_rxAfterTx = False, gn_srcId = src,
       gn_frameCounter = ctr, gn_commandId = hd c, gn_payload = tl c, gn_secured = True, gn_mic = mic,
       gn_proxyInfoPresent = True, gn_gppShortAddr = self, gn_gppLink = link\<rparr>)))"
proof -
  obtain c0 cs where c: "c = c0 # cs" "length cs = k" using assms(1) by (cases c) auto
  have b: "gp_buildNotification (Some 80) \<lparr>gn_applicationId = 0, gn_securityLevel = 3, gn_securityKeyType = 0, gn_rxAfterTx = False,
      gn_srcId = src, gn_frameCounter = ctr, gn_commandId = c0, gn_payload = cs, gn_secured = True, gn_mic = mic,
      gn_proxyInfoPresent = True, gn_gppShortAddr = self, gn_gppLink = link\<rparr> \<noteq> None"
    using assms(2) c(2) by (simp add: gp_buildNotification_def Let_def)
  then show ?thesis
    using assms c by (auto simp: gp_forward_def gp_parse_header gp_noted_def Let_def rd8_skip rd8_Cons rd_bytes_skip
        rd_bytes_Cons rd_bytes_hit rd_bytes_hit_end)
qed

lemma gp_relay_sealed:
  assumes w: "ecb_works ecb" and g: "gp_secure ecb (Some m) key src ctr cmd payload = Some (Some g)" and k: "length key = 16"
    and p: "\<not> proxy_seen (Some es) src ctr" "es \<noteq> []"
    and e: "sink_entry t src = Some e" "si_key e = key" "si_lastCounter e < ctr \<or> si_lastCounter e = 0" and r: "47 \<le> room"
  obtains es' t' where "gp_relay ecb self link room (Some es, t) g = Some ((Some es', t'), Some (cmd, payload))" "es' \<noteq> []"
    "\<And>c. proxy_seen (Some es') src c \<longleftrightarrow> c \<le> ctr" "sink_entry t' src = Some (e\<lparr>si_lastCounter := ctr\<rparr>)"
proof -
  note l = gp_secured_length [OF g]
  obtain c mic where s: "g = gp_header src ctr False @ c @ mic" "length c = Suc (length payload)" "length mic = 4"
    "gp_open ecb (Some (gp_header src ctr False @ c @ mic)) key = Some (Some \<lparr>gf_securityLevel = 3, gf_rxAfterTx = False,
       gf_srcId = src, gf_frameCounter = ctr, gf_commandId = cmd, gf_payload = payload\<rparr>)"
    by (rule gp_sealed [OF w k l, of src ctr cmd]) (use g in auto)
  obtain es' where d: "proxy_isDuplicate (Some es) src ctr = (Some es', False)" "es' \<noteq> []" "\<And>c. proxy_seen (Some es') src c \<longleftrightarrow> c \<le> ctr"
    by (rule proxy_first_copy [OF p(1) refl p(2)]) (rule that, assumption+)
  let ?n = "\<lparr>gn_applicationId = 0, gn_securityLevel = 3, gn_securityKeyType = 0, gn_rxAfterTx = False, gn_srcId = src,
       gn_frameCounter = ctr, gn_commandId = hd c, gn_payload = tl c, gn_secured = True, gn_mic = mic,
       gn_proxyInfoPresent = True, gn_gppShortAddr = self, gn_gppLink = link\<rparr>"
  have "gn_ok ?n" using l s(2,3) by (simp add: gn_ok_def)
  then obtain bs where b: "gp_buildNotification (Some 80) ?n = Some bs" "gp_parseNotification (Some bs) = Some (Some ?n)"
    by (rule gp_notification_roundtrip [where m = 80]) simp_all
  have f: "gp_forward (Some es) (Some g) self link (Some 80) = Some (Some es', Some (0, bs))"
    using gp_forward_sealed [OF s(2) _ s(3) d(1), of self link] l s(1) b(1) by simp
  have rb: "gp_rebuilt ?n = gp_header src ctr False @ c @ mic"
    using s(2) by (cases c) (simp_all add: gp_rebuilt_def gp_header_def)
  obtain t' ok where t': "sink_checkAndUpdateCounter t src ctr = (t', ok)" by (cases "sink_checkAndUpdateCounter t src ctr")
  have ok: ok "sink_entry t' src = Some (e\<lparr>si_lastCounter := ctr\<rparr>)"
    using sink_check_entry [OF t'] e by simp_all
  obtain i where i: "sink_find t src = Some i" "si_key (the t ! i) = key" using e(1,2) by (auto simp: sink_entry_def)
  have "gp_handleNotification ecb t (Some bs) room = Some (t', Some (cmd, payload))"
    using i s(2,4) l r t' ok(1) rb by (simp add: gp_handleNotification_def b(2))
  then have "gp_relay ecb self link room (Some es, t) g = Some ((Some es', t'), Some (cmd, payload))" by (simp add: f)
  then show thesis using that d(2,3) ok(2) by blast
qed


lemma gp_relays_sealed:
  assumes w: "ecb_works ecb" and k: "length key = 16" and r: "47 \<le> room"
    and "list_all2 (\<lambda>(ctr, cmd, payload) g. gp_secure ecb (Some m) key src ctr cmd payload = Some (Some g)) frames gs"
    and "sorted_wrt (<) (map fst frames)" "es \<noteq> []" "\<forall>f\<in>set frames. \<not> proxy_seen (Some es) src (fst f)"
    and "sink_entry t src = Some e" "si_key e = key" "\<forall>f\<in>set frames. si_lastCounter e < fst f \<or> si_lastCounter e = 0"
  shows "\<exists>es' t'. gp_relays ecb self link room (Some es, t) gs = Some ((Some es', t'), map (\<lambda>(ctr, cmd, payload). Some (cmd, payload)) frames) \<and>
    es' \<noteq> [] \<and> (\<forall>f\<in>set frames. proxy_seen (Some es') src (fst f))"
  using assms(4-)
proof (induction frames arbitrary: gs es t e)
  case (Cons f frames)
  obtain ctr cmd payload where f: "f = (ctr, cmd, payload)" by (cases f)
  obtain g gs' where gs: "gs = g # gs'" "gp_secure ecb (Some m) key src ctr cmd payload = Some (Some g)"
    "list_all2 (\<lambda>(ctr, cmd, payload) g. gp_secure ecb (Some m) key src ctr cmd payload = Some (Some g)) frames gs'"
    using Cons.prems(1) f by (auto simp: list_all2_Cons1)
  obtain es1 t1 where one: "gp_relay ecb self link room (Some es, t) g = Some ((Some es1, t1), Some (cmd, payload))" "es1 \<noteq> []"
    "\<And>c. proxy_seen (Some es1) src c \<longleftrightarrow> c \<le> ctr" "sink_entry t1 src = Some (e\<lparr>si_lastCounter := ctr\<rparr>)"
    by (rule gp_relay_sealed [OF w gs(2) k _ Cons.prems(3) Cons.prems(5,6) _ r]) (use Cons.prems f in auto)
  have later: "\<forall>f\<in>set frames. ctr < fst f" using Cons.prems(2) f by auto
  obtain es' t' where rest: "gp_relays ecb self link room (Some es1, t1) gs' =
      Some ((Some es', t'), map (\<lambda>(ctr, cmd, payload). Some (cmd, payload)) frames)" "es' \<noteq> []"
    "\<forall>f\<in>set frames. proxy_seen (Some es') src (fst f)"
    using Cons.IH [OF gs(3) _ one(2) _ one(4)] Cons.prems(2,6) one(3) later by (auto simp: not_le)
  have "proxy_seen (Some es') src ctr" if "frames = []"
  proof -
    have "gs' = []" using gs(3) that by simp
    then show ?thesis using rest(1) that one(3) by simp
  qed
  moreover have "proxy_seen (Some es') src ctr" if "frames \<noteq> []"
  proof -
    obtain f' where f': "f' \<in> set frames" using \<open>frames \<noteq> []\<close> by (cases frames) auto
    then obtain i where "proxy_find (Some es') src = Some i" "fst f' \<le> px_lastCounter (the (Some es') ! i)"
      using rest(3) by (auto simp: proxy_seen_def)
    moreover have "ctr \<le> fst f'" using later f' by (simp add: less_imp_le)
    ultimately show ?thesis unfolding proxy_seen_def using order_trans by blast
  qed
  ultimately have "proxy_seen (Some es') src ctr" by blast
  then show ?case using one(1) rest gs(1) f by simp
qed simp

lemma gp_relay_repeated:
  assumes "ecb_works ecb" "length key = 16" "gp_secure ecb (Some m) key src ctr cmd payload = Some (Some g)" "proxy_seen p src ctr"
  shows "gp_relay ecb self link room (p, t) g = Some ((p, t), None)"
proof -
  note l = gp_secured_length [OF assms(3)]
  obtain c mic where s: "g = gp_header src ctr False @ c @ mic" "length c = Suc (length payload)" "length mic = 4"
    by (rule gp_sealed [OF assms(1,2) l, of src ctr cmd]) (use assms(3) in auto)
  have "proxy_isDuplicate p src ctr = (p, True)" using assms(4) by (auto simp: proxy_seen_def proxy_isDuplicate_def)
  from gp_forward_sealed [OF s(2) _ s(3) this, of self link] l s(1) show ?thesis by simp
qed

lemma gp_commissioning_roundtrip:
  assumes "gp_buildCommissioning (Some m) c = Some bs" "gc_keyPresent c" "length (gc_key c) = 16" "gc_options c AND 0x20 \<noteq> 0"
    "gc_outgoingCounterPresent c \<longleftrightarrow> gc_options c AND 0x40 \<noteq> 0" "\<not> gc_outgoingCounterPresent c \<longrightarrow> gc_outgoingCounter c = 0"
  shows "gp_parseCommissioning bs = Some (Some c)" "length bs \<le> 22"
  using assms by (auto simp: gp_buildCommissioning_def gp_parseCommissioning_def Let_def wire_simps rd_bytes_Cons rd_bytes_hit
      rd_bytes_hit_end split: if_splits)

lemma gp_relay_commissioning:
  assumes c: "gp_buildCommissioning (Some m) c = Some bs" "gc_keyPresent c" "length (gc_key c) = 16" "gc_options c AND 0x20 \<noteq> 0"
      "gc_outgoingCounterPresent c \<longleftrightarrow> gc_options c AND 0x40 \<noteq> 0" "\<not> gc_outgoingCounterPresent c \<longrightarrow> gc_outgoingCounter c = 0"
    and g: "gp_buildUnsecured (Some m') src 0xE0 bs = Some (Some g)"
    and t: "sink_find t src \<noteq> None \<or> sink_firstFree t \<noteq> None"
  obtains t' e where "gp_relay ecb self link room (p, t) g = Some ((p, t'), None)" "sink_entry t' src = Some e"
    "si_key e = gc_key c" "si_lastCounter e = 0" "si_deviceId e = gc_deviceId c"
proof -
  note pc = gp_commissioning_roundtrip [OF c]
  have g': "g = [0x8C, 0] @ le32 src @ [0xE0] @ bs"
    using g by (auto simp: gp_buildUnsecured_def gp_fc_def gp_extFc_def split: if_splits)
  have ps: "gp_parse (Some g) = Some (Some \<lparr>gf_securityLevel = 0, gf_rxAfterTx = False, gf_srcId = src, gf_frameCounter = 0,
      gf_commandId = 0xE0, gf_payload = bs\<rparr>)"
    using pc(2) by (simp add: g' gp_parse_def wire_simps)
  let ?n = "gp_noted \<lparr>gf_securityLevel = 0, gf_rxAfterTx = False, gf_srcId = src, gf_frameCounter = 0,
      gf_commandId = 0xE0, gf_payload = bs\<rparr> self link"
  have "gn_ok ?n" using pc(2) by (simp add: gn_ok_def gp_noted_def)
  then obtain ns where b: "gp_buildNotification (Some 80) ?n = Some ns" "gp_parseNotification (Some ns) = Some (Some ?n)"
    by (rule gp_notification_roundtrip [where m = 80]) simp_all
  have f: "gp_forward p (Some g) self link (Some 80) = Some (p, Some (4, ns))" using b(1) by (simp add: gp_forward_def ps)
  obtain t' i e where e: "sink_commission t src (gc_deviceId c) (gc_key c) = (t', Some i)" "sink_entry t' src = Some e"
    "si_key e = gc_key c" "si_lastCounter e = 0" "si_deviceId e = gc_deviceId c"
    by (rule sink_commissioned [OF t c(3)])
  have "gn_commandId ?n = 0xE0" "gn_payload ?n = bs" "gn_srcId ?n = src" by (simp_all add: gp_noted_def)
  then have "gp_relay ecb self link room (p, t) g = Some ((p, t'), None)"
    using e(1) c(2) by (simp add: f gp_handleCommissioningNotification_def b(2) pc(1))
  then show thesis using that e(2-5) by blast
qed

text \<open>C12: Green Power end to end. A battery-less device announces its key in a commissioning frame; then it sends
  secured commands with increasing counters. Over a proxy that knows no key and a sink that has room
  for the device, the sink's application is called with exactly the device's commands, in order, each
  once: every frame that the proxy hears again, at any time after, is dropped.\<close>

theorem green_power_end_to_end:
  assumes "ecb_works ecb" "47 \<le> room" "sink_find t src \<noteq> None \<or> sink_firstFree t \<noteq> None" "es \<noteq> []"
    and "gp_buildCommissioning (Some m) c = Some bs" "gc_keyPresent c" "length (gc_key c) = 16" "gc_options c AND 0x20 \<noteq> 0"
      "gc_outgoingCounterPresent c \<longleftrightarrow> gc_options c AND 0x40 \<noteq> 0" "\<not> gc_outgoingCounterPresent c \<longrightarrow> gc_outgoingCounter c = 0"
    and "gp_buildUnsecured (Some m') src 0xE0 bs = Some (Some g0)"
    and "list_all2 (\<lambda>(ctr, cmd, payload) g. gp_secure ecb (Some m'') (gc_key c) src ctr cmd payload = Some (Some g)) frames gs"
    and "sorted_wrt (<) (map fst frames)" "\<forall>f\<in>set frames. \<not> proxy_seen (Some es) src (fst f)"
  shows "\<exists>st. gp_relays ecb self link room (Some es, t) (g0 # gs) =
      Some (st, None # map (\<lambda>(ctr, cmd, payload). Some (cmd, payload)) frames) \<and>
    (\<forall>g\<in>set gs. gp_relay ecb self link room st g = Some (st, None))"
proof -
  obtain t' e where c: "gp_relay ecb self link room (Some es, t) g0 = Some ((Some es, t'), None)" "sink_entry t' src = Some e"
    "si_key e = gc_key c" "si_lastCounter e = 0"
    by (rule gp_relay_commissioning [OF assms(5-11,3)])
  obtain es' t'' where r: "gp_relays ecb self link room (Some es, t') gs =
      Some ((Some es', t''), map (\<lambda>(ctr, cmd, payload). Some (cmd, payload)) frames)"
    "\<forall>f\<in>set frames. proxy_seen (Some es') src (fst f)"
    using gp_relays_sealed [OF assms(1,7,2,12,13,4,14) c(2,3)] c(4) by blast
  have "gp_relay ecb self link room (Some es', t'') g = Some ((Some es', t''), None)" if g: "g \<in> set gs" for g
  proof -
    obtain i where i: "i < length gs" "gs ! i = g" using g by (auto simp: in_set_conv_nth)
    obtain ctr cmd payload where f: "frames ! i = (ctr, cmd, payload)" by (cases "frames ! i")
    have "i < length frames" "gp_secure ecb (Some m'') (gc_key c) src ctr cmd payload = Some (Some g)"
      using list_all2_nthD2 [OF assms(12) i(1)] list_all2_lengthD [OF assms(12)] i f by simp_all
    moreover from this have "proxy_seen (Some es') src ctr" using r(2) f nth_mem by force
    ultimately show ?thesis using gp_relay_repeated [OF assms(1,7)] by blast
  qed
  then show ?thesis using c(1) r(1) by auto
qed

theorem green_power_end_to_end_witness:
  "\<exists>bs g0 g1 g2 st. gp_buildUnsecured (Some 64) 7 0xE0 bs = Some (Some g0) \<and>
     gp_secure ecb_example (Some 64) (replicate 16 3) 7 1 0x22 [] = Some (Some g1) \<and>
     gp_secure ecb_example (Some 64) (replicate 16 3) 7 4 0x20 [5] = Some (Some g2) \<and>
     gp_relays ecb_example 9 200 48 (Some [gp_proxy0], Some [gp_sink0]) [g0, g1, g2] =
       Some (st, [None, Some (0x22, []), Some (0x20, [5])]) \<and>
     gp_relay ecb_example 9 200 48 st g1 = Some (st, None)"
proof -
  let ?key = "replicate 16 3 :: u8 list"
  let ?c = "\<lparr>gc_deviceId = 2, gc_options = 0x20, gc_keyPresent = True, gc_key = ?key, gc_outgoingCounterPresent = False, gc_outgoingCounter = 0\<rparr>"
  have k: "length ?key = 16" by simp
  obtain bs where b: "gp_buildCommissioning (Some 48) ?c = Some bs" "length bs = 18" by (simp add: gp_buildCommissioning_def)
  obtain g0 where g0: "gp_buildUnsecured (Some 64) 7 0xE0 bs = Some (Some g0)" using b(2) by (simp add: gp_buildUnsecured_def)
  obtain g1 where g1: "gp_secure ecb_example (Some 64) ?key 7 1 0x22 [] = Some (Some g1)"
    using gp_sealed [OF ecb_example_works k, where payload = "[]" and m = 64 and src = 7 and ctr = 1 and cmd = "0x22" and thesis = thesis] by auto
  obtain g2 where g2: "gp_secure ecb_example (Some 64) ?key 7 4 0x20 [5] = Some (Some g2)"
    using gp_sealed [OF ecb_example_works k, where payload = "[5]" and m = 64 and src = 7 and ctr = 4 and cmd = "0x20" and thesis = thesis] by auto
  have "sink_firstFree (Some [gp_sink0]) \<noteq> None" "\<not> proxy_seen (Some [gp_proxy0]) 7 ctr" for ctr
    by (simp_all add: sink_firstFree_def gp_sink0_def gp_proxy0_def proxy_seen_def proxy_find_def slot_find_def)
  with green_power_end_to_end [OF ecb_example_works, of 48 "Some [gp_sink0]" 7 "[gp_proxy0]" 48 ?c bs 64 g0 64
      "[(1, 0x22, []), (4, 0x20, [5])]" "[g1, g2]" 9 200] b g0 g1 g2 show ?thesis by fastforce
qed

section \<open>What the sink accepts\<close>

lemma gp_parse_notification_safe:
  obtains "gp_parseNotification p = Some None"
  | n where "gp_parseNotification p = Some (Some n)" "length (gn_mic n) = 4" "length (gn_payload n) \<le> 48"
proof -
  have "gp_parseNotification p = Some None \<or>
    (\<exists>n. gp_parseNotification p = Some (Some n) \<and> length (gn_mic n) = 4 \<and> length (gn_payload n) \<le> 48)"
  proof (cases p)
    case (Some bs)
    show ?thesis
    proof (cases "length bs < 12")
      case False
      then show ?thesis
        by (auto simp: gp_parseNotification_def Some rd_in rd_bytes_def Let_def)
    qed (simp add: gp_parseNotification_def Some)
  qed (simp add: gp_parseNotification_def)
  then show thesis using that by blast
qed

lemma gp_rebuilt_header:
  "gp_rebuilt n = gp_header (gn_srcId n) (gn_frameCounter n) (gn_rxAfterTx n) @ (gn_commandId n # gn_payload n) @ gn_mic n"
  by (simp add: gp_rebuilt_def gp_header_def)

lemma gp_open_rebuilt:
  assumes "ecb_works ecb" "length key = 16" "length (gn_payload n) < 48" "length (gn_mic n) = 4"
  obtains "gp_open ecb (Some (gp_rebuilt n)) key = Some None"
  | f where "gp_open ecb (Some (gp_rebuilt n)) key = Some (Some f)" "gf_frameCounter f = gn_frameCounter n"
proof -
  obtain plain where "ctr_xor ecb key (gp_nonce (gn_srcId n) (gn_frameCounter n)) 1 (gn_commandId n # gn_payload n) = Some plain"
    using ctr_xor_works [OF assms(1,2) length_gp_nonce] by blast
  then have "gp_open ecb (Some (gp_rebuilt n)) key = Some None \<or>
    (\<exists>f. gp_open ecb (Some (gp_rebuilt n)) key = Some (Some f) \<and> gf_frameCounter f = gn_frameCounter n)"
    using assms(3,4) unfolding gp_rebuilt_header
    by (subst (1 2) gp_open_header [of _ "length (gn_payload n)"]) (auto split: option.splits)
  then show thesis using that by blast
qed

text \<open>One notification: the sink answers, keeps every key, never lowers a counter, and accepts a counter
  that is not 0 only when it is higher than the stored one, which it then becomes.\<close>

definition sink_keyed :: "sink_table \<Rightarrow> bool" where
  "sink_keyed t \<longleftrightarrow> (\<forall>src e. sink_entry t src = Some e \<longrightarrow> length (si_key e) = 16)"

definition sink_after :: "sink_table \<Rightarrow> sink_table \<Rightarrow> bool" where
  "sink_after t t' \<longleftrightarrow> (\<forall>k. rel_option (\<lambda>e e'. si_key e' = si_key e \<and> si_lastCounter e \<le> si_lastCounter e')
     (sink_entry t k) (sink_entry t' k))"

definition sink_accepts :: "sink_table \<Rightarrow> sink_table \<Rightarrow> gp_notification \<Rightarrow> bool" where
  "sink_accepts t t' n \<longleftrightarrow> (\<exists>e. sink_entry t (gn_srcId n) = Some e \<and> (gn_frameCounter n \<noteq> 0 \<longrightarrow>
     si_lastCounter e < gn_frameCounter n \<and>
     (\<exists>e'. sink_entry t' (gn_srcId n) = Some e' \<and> si_lastCounter e' = gn_frameCounter n)))"

definition sink_sealed :: "block_cipher \<Rightarrow> sink_table \<Rightarrow> gp_notification \<Rightarrow> u8 \<Rightarrow> u8 list \<Rightarrow> bool" where
  "sink_sealed ecb t n cmd payload \<longleftrightarrow> (\<exists>e. sink_entry t (gn_srcId n) = Some e \<and>
     gp_seals ecb (si_key e) (gn_srcId n) (gn_frameCounter n) (gn_rxAfterTx n) cmd payload (gp_rebuilt n) \<and>
     (\<not> gn_rxAfterTx n \<longrightarrow>
       gp_secure ecb (Some 64) (si_key e) (gn_srcId n) (gn_frameCounter n) cmd payload = Some (Some (gp_rebuilt n))))"

lemma sink_after_refl: "sink_after t t"
  by (simp add: sink_after_def option.rel_refl)

lemma sink_checked:
  assumes "sink_checkAndUpdateCounter t src ctr = (t', ok)"
  shows "sink_after t t'" "ok \<Longrightarrow> gn_srcId n = src \<Longrightarrow> gn_frameCounter n = ctr \<Longrightarrow> sink_accepts t t' n"
proof -
  note c = sink_check_entry [OF assms]
  have "rel_option (\<lambda>e e'. si_key e' = si_key e \<and> si_lastCounter e \<le> si_lastCounter e') (sink_entry t k) (sink_entry t' k)" for k
  proof (cases "ok \<and> k = src")
    case True
    then obtain e where "sink_entry t k = Some e" "si_lastCounter e < ctr \<or> si_lastCounter e = 0" using c(1) by auto
    then show ?thesis using True c(2) [of k] by auto
  next
    case False
    then show ?thesis using c(2) [of k] by (auto intro: option.rel_refl)
  qed
  then show "sink_after t t'" by (simp add: sink_after_def)
  show "sink_accepts t t' n" if o: ok and n: "gn_srcId n = src" "gn_frameCounter n = ctr"
  proof -
    obtain e where "sink_entry t src = Some e" "si_lastCounter e < ctr \<or> si_lastCounter e = 0" using o c(1) by auto
    then show ?thesis using o n c(2) [of src] by (auto simp: sink_accepts_def word_greater_zero_iff)
  qed
qed

lemma gp_notification_step:
  assumes w: "ecb_works ecb" and t: "sink_keyed t" and n: "gp_parseNotification p = Some (Some n)" "length (gn_mic n) = 4"
  obtains t' r where "gp_handleNotification ecb t p room = Some (t', r)" "sink_after t t'" "r \<noteq> None \<Longrightarrow> sink_accepts t t' n"
    "\<And>cmd payload. r = Some (cmd, payload) \<Longrightarrow> gn_secured n \<Longrightarrow> sink_sealed ecb t n cmd payload"
proof (cases "sink_find t (gn_srcId n)")
  case None
  then show thesis using that [of t None] n sink_after_refl by (simp add: gp_handleNotification_def)
next
  case (Some i)
  then have e: "sink_entry t (gn_srcId n) = Some (the t ! i)" by (simp add: sink_entry_def)
  then have k: "length (si_key (the t ! i)) = 16" using t by (simp add: sink_keyed_def)
  obtain t1 ok where c: "sink_checkAndUpdateCounter t (gn_srcId n) (gn_frameCounter n) = (t1, ok)" by fastforce
  note after = sink_checked [OF c]
  show thesis
  proof (cases "gn_secured n")
    case False
    have "sink_accepts t t n" if "gn_frameCounter n = 0" using that e by (simp add: sink_accepts_def)
    then show thesis using that [of t None] that [of t1 None] that [of t "Some (gn_commandId n, gn_payload n)"]
        that [of t1 "Some (gn_commandId n, gn_payload n)"] after c n Some False sink_after_refl
      by (cases "gn_frameCounter n = 0"; cases ok; cases "room < length (gn_payload n)") (simp_all add: gp_handleNotification_def)
  next
    case True
    show thesis
    proof (cases "48 < 1 + length (gn_payload n)")
      case long: True
      then show thesis using that [of t None] n Some True sink_after_refl by (simp add: gp_handleNotification_def)
    next
      case short: False
      then have s: "length (gn_payload n) < 48" by simp
      show thesis
      proof (rule gp_open_rebuilt [OF w k s n(2)])
        assume "gp_open ecb (Some (gp_rebuilt n)) (si_key (the t ! i)) = Some None"
        then show thesis using that [of t None] n Some True short sink_after_refl by (simp add: gp_handleNotification_def)
      next
        fix f assume f: "gp_open ecb (Some (gp_rebuilt n)) (si_key (the t ! i)) = Some (Some f)" "gf_frameCounter f = gn_frameCounter n"
        have sealed: "sink_sealed ecb t n (gf_commandId f) (gf_payload f)"
        proof -
          have l: "length (gn_commandId n # gn_payload n) = Suc (length (gn_payload n))" by simp
          note g = gp_opened_was_sealed(1,2) [OF ecb_works_sized [OF w] f(1) [unfolded gp_rebuilt_header] l s n(2),
              folded gp_rebuilt_header]
          show ?thesis unfolding sink_sealed_def using e g by blast
        qed
        show thesis using that [of t1 None] that [of t1 "Some (gf_commandId f, gf_payload f)"] after c n Some True short f sealed
          by (cases ok; cases "room < length (gf_payload f)") (simp_all add: gp_handleNotification_def)
      qed
    qed
  qed
qed


text \<open>A run of the sink over any frames, with the notifications it took and the commands it delivered.\<close>

type_synonym gp_log = "(gp_notification \<times> u8 \<times> u8 list) list"

fun gp_notes :: "block_cipher \<Rightarrow> nat \<Rightarrow> sink_table \<Rightarrow> ptr list \<Rightarrow> (sink_table \<times> gp_log) option" where
  "gp_notes ecb room t [] = Some (t, [])"
| "gp_notes ecb room t (p # ps) = do {
     n \<leftarrow> gp_parseNotification p;
     (t1, r) \<leftarrow> gp_handleNotification ecb t p room;
     (t2, log) \<leftarrow> gp_notes ecb room t1 ps;
     Some (t2, case (n, r) of (Some n, Some cmd) \<Rightarrow> (n, cmd) # log | _ \<Rightarrow> log)
   }"

definition gp_counters :: "gp_log \<Rightarrow> u32 \<Rightarrow> u32 list" where
  "gp_counters log src = [gn_frameCounter n. (n, _) \<leftarrow> log, gn_srcId n = src \<and> gn_frameCounter n \<noteq> 0]"

lemma gp_counters_simps [simp]:
  "gp_counters [] src = []"
  "gp_counters ((n, r) # log) src =
     (if gn_srcId n = src \<and> gn_frameCounter n \<noteq> 0 then gn_frameCounter n # gp_counters log src else gp_counters log src)"
  by (simp_all add: gp_counters_def)

lemma sink_after_entry:
  assumes "sink_after t t'" "sink_entry t' k = Some e'"
  obtains e where "sink_entry t k = Some e" "si_key e' = si_key e" "si_lastCounter e \<le> si_lastCounter e'"
  using assms by (cases "sink_entry t k") (auto simp: sink_after_def dest!: spec [of _ k])

lemma sink_after_keyed: "sink_after t t' \<Longrightarrow> sink_keyed t \<Longrightarrow> sink_keyed t'"
  unfolding sink_keyed_def by (metis sink_after_entry)

lemma sink_after_sealed:
  assumes "sink_after t t'" "sink_sealed ecb t' n cmd payload"
  shows "sink_sealed ecb t n cmd payload"
proof -
  obtain e' where "sink_entry t' (gn_srcId n) = Some e'" using assms(2) by (auto simp: sink_sealed_def)
  then obtain e where "sink_entry t (gn_srcId n) = Some e" "si_key e' = si_key e" by (rule sink_after_entry [OF assms(1)])
  then show ?thesis using assms(2) \<open>sink_entry t' (gn_srcId n) = Some e'\<close> by (simp add: sink_sealed_def)
qed

lemma gp_notes_run:
  assumes "ecb_works ecb" "sink_keyed t"
  shows "\<exists>t' log. gp_notes ecb room t ps = Some (t', log) \<and>
     (\<forall>src. sorted_wrt (<) (gp_counters log src) \<and>
        (\<forall>c\<in>set (gp_counters log src). \<exists>e. sink_entry t src = Some e \<and> si_lastCounter e < c)) \<and>
     (\<forall>(n, cmd, payload)\<in>set log. gn_secured n \<longrightarrow> sink_sealed ecb t n cmd payload)"
  using assms(2)
proof (induction ps arbitrary: t)
  case (Cons p ps)
  show ?case
  proof (rule gp_parse_notification_safe [of p])
    assume p: "gp_parseNotification p = Some None"
    then have "gp_handleNotification ecb t p room = Some (t, None)" by (simp add: gp_handleNotification_def)
    then show ?thesis using Cons p by auto
  next
    fix n assume n: "gp_parseNotification p = Some (Some n)" "length (gn_mic n) = 4"
    obtain t1 r where h: "gp_handleNotification ecb t p room = Some (t1, r)" "sink_after t t1" "r \<noteq> None \<Longrightarrow> sink_accepts t t1 n"
      "\<And>cmd payload. r = Some (cmd, payload) \<Longrightarrow> gn_secured n \<Longrightarrow> sink_sealed ecb t n cmd payload"
      by (rule gp_notification_step [OF assms(1) Cons.prems n, of room]) blast
    obtain t2 log where i: "gp_notes ecb room t1 ps = Some (t2, log)"
      "\<And>src. sorted_wrt (<) (gp_counters log src)"
      "\<And>src c. c \<in> set (gp_counters log src) \<Longrightarrow> \<exists>e. sink_entry t1 src = Some e \<and> si_lastCounter e < c"
      "\<And>n cmd payload. (n, cmd, payload) \<in> set log \<Longrightarrow> gn_secured n \<Longrightarrow> sink_sealed ecb t1 n cmd payload"
      using Cons.IH [OF sink_after_keyed [OF h(2) Cons.prems]] by fast
    have above: "\<exists>e. sink_entry t src = Some e \<and> si_lastCounter e < c" if "c \<in> set (gp_counters log src)" for src c
      using i(3) [OF that] sink_after_entry [OF h(2), of src] by (metis le_less_trans)
    have sealed: "sink_sealed ecb t n cmd payload" if "(n, cmd, payload) \<in> set log" "gn_secured n" for n cmd payload
      using i(4) [OF that] sink_after_sealed [OF h(2)] by blast
    show ?thesis
    proof (cases r)
      case None
      then show ?thesis using h(1) i(1,2) n above by (auto dest: sealed)
    next
      case (Some a)
      have fresh: "gn_frameCounter n < c" if "gn_frameCounter n \<noteq> 0" "c \<in> set (gp_counters log (gn_srcId n))" for c
        using h(3) Some that i(3) [OF that(2)] by (auto simp: sink_accepts_def)
      have low: "\<exists>e. sink_entry t (gn_srcId n) = Some e \<and> si_lastCounter e < gn_frameCounter n" if "gn_frameCounter n \<noteq> 0"
        using h(3) Some that by (auto simp: sink_accepts_def)
      show ?thesis using h(1,4) i(1,2) n(1) above fresh low Some by (cases a) (auto dest: sealed)
    qed
  qed
qed simp

text \<open>C13: whatever frames reach the Green Power sink, in any order and however often, the sink answers each of
  them; of the commands it accepts from a device, those with a frame counter other than 0 have strictly
  increasing counters, so that no such notification is acted on twice; each of these counters is higher than the one the
  device was commissioned with; and the frame behind every secured command was sealed with CCM* from that command, counter
  and header under the key the device was commissioned with; it is the frame \<open>secure\<close> makes of them when the
  receive-after-transmit bit is clear, which \<open>secure\<close> never sets.\<close>

theorem gp_sink_accepts_once:
  assumes "ecb_works ecb" "sink_keyed t"
  shows "\<exists>t' log. gp_notes ecb room t ps = Some (t', log) \<and>
     (\<forall>src. sorted_wrt (<) (gp_counters log src) \<and>
        (\<forall>c\<in>set (gp_counters log src). \<exists>e. sink_entry t src = Some e \<and> si_lastCounter e < c)) \<and>
     (\<forall>(n, cmd, payload)\<in>set log. gn_secured n \<longrightarrow> sink_sealed ecb t n cmd payload)"
  by (rule gp_notes_run [OF assms])

theorem gp_sink_accepts_once_witness:
  "\<exists>t' log. gp_notes ecb_example 48 (Some [gp_sink0\<lparr>si_used := True, si_srcId := 7, si_key := replicate 16 3, si_lastCounter := 4\<rparr>])
     [None, Some [0x18, 1, 7, 0, 0, 0, 5, 0, 0, 0, 0x21, 0, 1, 2, 3, 4], Some (replicate 12 0)] = Some (t', log) \<and>
     sorted_wrt (<) (gp_counters log 7)"
proof -
  let ?t = "Some [gp_sink0\<lparr>si_used := True, si_srcId := 7, si_key := replicate 16 3, si_lastCounter := 4\<rparr>]"
  have "sink_keyed ?t"
    by (auto simp: sink_keyed_def sink_entry_def sink_find_def slot_find_def gp_sink0_def split: if_splits)
  from gp_sink_accepts_once [OF ecb_example_works this] show ?thesis by blast
qed


section \<open>Frames the sink takes without a key or a fresh counter\<close>

lemma gp_unsecured_notification_accepted:
  assumes "gp_parseNotification p = Some (Some n)" "sink_find t (gn_srcId n) = Some i"
    "\<not> gn_secured n" "gn_frameCounter n = 0" "length (gn_payload n) \<le> room"
  shows "gp_handleNotification ecb t p room = Some (t, Some (gn_commandId n, gn_payload n))"
  using assms by (simp add: gp_handleNotification_def)

lemma gp_counter_zero_repeats:
  assumes "sink_find t src = Some i" "si_lastCounter (the t ! i) = 0"
  shows "sink_checkAndUpdateCounter t src 0 = (t, True)"
proof -
  have same: "(the t ! i)\<lparr>si_lastCounter := 0\<rparr> = the t ! i" using assms(2) by (cases "the t ! i") simp
  have "(the t)[i := (the t ! i)\<lparr>si_lastCounter := 0\<rparr>] = the t" unfolding same by (rule list_update_id)
  then show ?thesis using assms by (cases t) (simp_all add: sink_checkAndUpdateCounter_def)
qed

end
