(* ===== verification/ZbAes.thy ===== *)
theory ZbAes
  imports ZbCcm
begin

text \<open>
  \<open>ZigbeeAes128Decrypt.h\<close>: AES-128 decryption in software, in the order of the file, and FIPS-197 as the
  reference: the S-box from the inverse in the field, the key schedule by words, the cipher. The decryption
  inverts the cipher, for every key and block, so the radio chip's AES block and the software agree whenever
  the chip implements the standard; and the standard is a block that works in the sense of \<open>ecb_works\<close>.
\<close>

section \<open>The code\<close>

definition aes_kSbox :: "u8 list" where
  "aes_kSbox = [
    0x63, 0x7c, 0x77, 0x7b, 0xf2, 0x6b, 0x6f, 0xc5, 0x30, 0x01, 0x67, 0x2b, 0xfe, 0xd7, 0xab, 0x76,
    0xca, 0x82, 0xc9, 0x7d, 0xfa, 0x59, 0x47, 0xf0, 0xad, 0xd4, 0xa2, 0xaf, 0x9c, 0xa4, 0x72, 0xc0,
    0xb7, 0xfd, 0x93, 0x26, 0x36, 0x3f, 0xf7, 0xcc, 0x34, 0xa5, 0xe5, 0xf1, 0x71, 0xd8, 0x31, 0x15,
    0x04, 0xc7, 0x23, 0xc3, 0x18, 0x96, 0x05, 0x9a, 0x07, 0x12, 0x80, 0xe2, 0xeb, 0x27, 0xb2, 0x75,
    0x09, 0x83, 0x2c, 0x1a, 0x1b, 0x6e, 0x5a, 0xa0, 0x52, 0x3b, 0xd6, 0xb3, 0x29, 0xe3, 0x2f, 0x84,
    0x53, 0xd1, 0x00, 0xed, 0x20, 0xfc, 0xb1, 0x5b, 0x6a, 0xcb, 0xbe, 0x39, 0x4a, 0x4c, 0x58, 0xcf,
    0xd0, 0xef, 0xaa, 0xfb, 0x43, 0x4d, 0x33, 0x85, 0x45, 0xf9, 0x02, 0x7f, 0x50, 0x3c, 0x9f, 0xa8,
    0x51, 0xa3, 0x40, 0x8f, 0x92, 0x9d, 0x38, 0xf5, 0xbc, 0xb6, 0xda, 0x21, 0x10, 0xff, 0xf3, 0xd2,
    0xcd, 0x0c, 0x13, 0xec, 0x5f, 0x97, 0x44, 0x17, 0xc4, 0xa7, 0x7e, 0x3d, 0x64, 0x5d, 0x19, 0x73,
    0x60, 0x81, 0x4f, 0xdc, 0x22, 0x2a, 0x90, 0x88, 0x46, 0xee, 0xb8, 0x14, 0xde, 0x5e, 0x0b, 0xdb,
    0xe0, 0x32, 0x3a, 0x0a, 0x49, 0x06, 0x24, 0x5c, 0xc2, 0xd3, 0xac, 0x62, 0x91, 0x95, 0xe4, 0x79,
    0xe7, 0xc8, 0x37, 0x6d, 0x8d, 0xd5, 0x4e, 0xa9, 0x6c, 0x56, 0xf4, 0xea, 0x65, 0x7a, 0xae, 0x08,
    0xba, 0x78, 0x25, 0x2e, 0x1c, 0xa6, 0xb4, 0xc6, 0xe8, 0xdd, 0x74, 0x1f, 0x4b, 0xbd, 0x8b, 0x8a,
    0x70, 0x3e, 0xb5, 0x66, 0x48, 0x03, 0xf6, 0x0e, 0x61, 0x35, 0x57, 0xb9, 0x86, 0xc1, 0x1d, 0x9e,
    0xe1, 0xf8, 0x98, 0x11, 0x69, 0xd9, 0x8e, 0x94, 0x9b, 0x1e, 0x87, 0xe9, 0xce, 0x55, 0x28, 0xdf,
    0x8c, 0xa1, 0x89, 0x0d, 0xbf, 0xe6, 0x42, 0x68, 0x41, 0x99, 0x2d, 0x0f, 0xb0, 0x54, 0xbb, 0x16]"

definition aes_kInvSbox :: "u8 list" where
  "aes_kInvSbox = [
    0x52, 0x09, 0x6a, 0xd5, 0x30, 0x36, 0xa5, 0x38, 0xbf, 0x40, 0xa3, 0x9e, 0x81, 0xf3, 0xd7, 0xfb,
    0x7c, 0xe3, 0x39, 0x82, 0x9b, 0x2f, 0xff, 0x87, 0x34, 0x8e, 0x43, 0x44, 0xc4, 0xde, 0xe9, 0xcb,
    0x54, 0x7b, 0x94, 0x32, 0xa6, 0xc2, 0x23, 0x3d, 0xee, 0x4c, 0x95, 0x0b, 0x42, 0xfa, 0xc3, 0x4e,
    0x08, 0x2e, 0xa1, 0x66, 0x28, 0xd9, 0x24, 0xb2, 0x76, 0x5b, 0xa2, 0x49, 0x6d, 0x8b, 0xd1, 0x25,
    0x72, 0xf8, 0xf6, 0x64, 0x86, 0x68, 0x98, 0x16, 0xd4, 0xa4, 0x5c, 0xcc, 0x5d, 0x65, 0xb6, 0x92,
    0x6c, 0x70, 0x48, 0x50, 0xfd, 0xed, 0xb9, 0xda, 0x5e, 0x15, 0x46, 0x57, 0xa7, 0x8d, 0x9d, 0x84,
    0x90, 0xd8, 0xab, 0x00, 0x8c, 0xbc, 0xd3, 0x0a, 0xf7, 0xe4, 0x58, 0x05, 0xb8, 0xb3, 0x45, 0x06,
    0xd0, 0x2c, 0x1e, 0x8f, 0xca, 0x3f, 0x0f, 0x02, 0xc1, 0xaf, 0xbd, 0x03, 0x01, 0x13, 0x8a, 0x6b,
    0x3a, 0x91, 0x11, 0x41, 0x4f, 0x67, 0xdc, 0xea, 0x97, 0xf2, 0xcf, 0xce, 0xf0, 0xb4, 0xe6, 0x73,
    0x96, 0xac, 0x74, 0x22, 0xe7, 0xad, 0x35, 0x85, 0xe2, 0xf9, 0x37, 0xe8, 0x1c, 0x75, 0xdf, 0x6e,
    0x47, 0xf1, 0x1a, 0x71, 0x1d, 0x29, 0xc5, 0x89, 0x6f, 0xb7, 0x62, 0x0e, 0xaa, 0x18, 0xbe, 0x1b,
    0xfc, 0x56, 0x3e, 0x4b, 0xc6, 0xd2, 0x79, 0x20, 0x9a, 0xdb, 0xc0, 0xfe, 0x78, 0xcd, 0x5a, 0xf4,
    0x1f, 0xdd, 0xa8, 0x33, 0x88, 0x07, 0xc7, 0x31, 0xb1, 0x12, 0x10, 0x59, 0x27, 0x80, 0xec, 0x5f,
    0x60, 0x51, 0x7f, 0xa9, 0x19, 0xb5, 0x4a, 0x0d, 0x2d, 0xe5, 0x7a, 0x9f, 0x93, 0xc9, 0x9c, 0xef,
    0xa0, 0xe0, 0x3b, 0x4d, 0xae, 0x2a, 0xf5, 0xb0, 0xc8, 0xeb, 0xbb, 0x3c, 0x83, 0x53, 0x99, 0x61,
    0x17, 0x2b, 0x04, 0x7e, 0xba, 0x77, 0xd6, 0x26, 0xe1, 0x69, 0x14, 0x63, 0x55, 0x21, 0x0c, 0x7d]"

definition aes_sbox :: "u8 \<Rightarrow> u8" where
  "aes_sbox i = aes_kSbox ! unat i"

definition aes_invSbox :: "u8 \<Rightarrow> u8" where
  "aes_invSbox i = aes_kInvSbox ! unat i"

definition aes_xtime :: "u8 \<Rightarrow> u8" where
  "aes_xtime x = push_bit 1 x XOR (if x AND 0x80 \<noteq> 0 then 0x1B else 0)"

text \<open>\<open>mul\<close>, with the passes of its loop still to do; \<open>a <<= 1\<close> drops the high bit.\<close>

fun aes_mulLoop :: "nat \<Rightarrow> u8 \<Rightarrow> u8 \<Rightarrow> u8 \<Rightarrow> u8" where
  "aes_mulLoop 0 p a b = p"
| "aes_mulLoop (Suc n) p a b =
     (let p = (if b AND 1 \<noteq> 0 then p XOR a else p);
          hi = a AND 0x80;
          a = push_bit 1 a;
          a = (if hi \<noteq> 0 then a XOR 0x1B else a)
      in aes_mulLoop n p a (drop_bit 1 b))"

definition aes_mul :: "u8 \<Rightarrow> u8 \<Rightarrow> u8" where
  "aes_mul a b = aes_mulLoop 8 0 a b"

text \<open>\<open>keyExpansion\<close>: one pass of the loop appends the word \<open>rk[i .. i+3]\<close>, \<open>i\<close> being the length so far.\<close>

definition aes_keyWord :: "u8 list \<Rightarrow> u8 \<Rightarrow> u8 list" where
  "aes_keyWord rk rcon =
     (let i = length rk;
          t = take 4 (drop (i - 4) rk);
          t = (if i mod 16 = 0 then [aes_sbox (t ! 1) XOR rcon, aes_sbox (t ! 2), aes_sbox (t ! 3), aes_sbox (t ! 0)] else t)
      in map (\<lambda>j. rk ! (i - 16 + j) XOR t ! j) [0..<4])"

fun aes_expandLoop :: "nat \<Rightarrow> u8 list \<Rightarrow> u8 \<Rightarrow> u8 list" where
  "aes_expandLoop 0 rk rcon = rk"
| "aes_expandLoop (Suc n) rk rcon =
     aes_expandLoop n (rk @ aes_keyWord rk rcon) (if length rk mod 16 = 0 then aes_xtime rcon else rcon)"

definition aes_keyExpansion :: "u8 list \<Rightarrow> u8 list" where
  "aes_keyExpansion key = aes_expandLoop 40 key 1"

definition aes_addRoundKey :: "u8 list \<Rightarrow> u8 list \<Rightarrow> u8 list" where
  "aes_addRoundKey s k = map2 (XOR) s k"

definition aes_invSubBytes :: "u8 list \<Rightarrow> u8 list" where
  "aes_invSubBytes s = map aes_invSbox s"

definition aes_invShiftRows :: "u8 list \<Rightarrow> u8 list" where
  "aes_invShiftRows s = s[13 := s ! 9, 9 := s ! 5, 5 := s ! 1, 1 := s ! 13,
     2 := s ! 10, 10 := s ! 2, 6 := s ! 14, 14 := s ! 6,
     3 := s ! 7, 7 := s ! 11, 11 := s ! 15, 15 := s ! 3]"

definition aes_invMixColumn :: "u8 \<Rightarrow> u8 \<Rightarrow> u8 \<Rightarrow> u8 \<Rightarrow> u8 list" where
  "aes_invMixColumn a0 a1 a2 a3 =
     [aes_mul a0 14 XOR aes_mul a1 11 XOR aes_mul a2 13 XOR aes_mul a3 9,
      aes_mul a0 9 XOR aes_mul a1 14 XOR aes_mul a2 11 XOR aes_mul a3 13,
      aes_mul a0 13 XOR aes_mul a1 9 XOR aes_mul a2 14 XOR aes_mul a3 11,
      aes_mul a0 11 XOR aes_mul a1 13 XOR aes_mul a2 9 XOR aes_mul a3 14]"

definition aes_invMixColumns :: "u8 list \<Rightarrow> u8 list" where
  "aes_invMixColumns s =
     concat (map (\<lambda>c. aes_invMixColumn (s ! (c * 4)) (s ! (c * 4 + 1)) (s ! (c * 4 + 2)) (s ! (c * 4 + 3))) [0..<4])"

definition aes_roundKey :: "u8 list \<Rightarrow> nat \<Rightarrow> u8 list" where
  "aes_roundKey rk round = take 16 (drop (round * 16) rk)"

definition aes_decryptRound :: "u8 list \<Rightarrow> nat \<Rightarrow> u8 list \<Rightarrow> u8 list" where
  "aes_decryptRound rk round s =
     aes_invMixColumns (aes_addRoundKey (aes_invSubBytes (aes_invShiftRows s)) (aes_roundKey rk round))"

definition aes_decryptBlock :: "u8 list \<Rightarrow> u8 list \<Rightarrow> u8 list" where
  "aes_decryptBlock key inb =
     (let rk = aes_keyExpansion key;
          s = aes_addRoundKey inb (aes_roundKey rk 10);
          s = fold (aes_decryptRound rk) (rev [1..<10]) s
      in aes_addRoundKey (aes_invSubBytes (aes_invShiftRows s)) (aes_roundKey rk 0))"

section \<open>FIPS-197\<close>

fun fips_w :: "u8 list \<Rightarrow> nat \<Rightarrow> u8 list" where
  "fips_w key i =
     (if i < 4 then take 4 (drop (4 * i) key)
      else if i mod 4 = 0 then
        map2 (XOR) (fips_w key (i - 4))
          (map2 (XOR) (map aes_sbox (rotate1 (fips_w key (i - 1)))) [(aes_xtime ^^ (i div 4 - 1)) 1, 0, 0, 0])
      else map2 (XOR) (fips_w key (i - 4)) (fips_w key (i - 1)))"

declare fips_w.simps [simp del]

definition fips_roundKey :: "u8 list \<Rightarrow> nat \<Rightarrow> u8 list" where
  "fips_roundKey key round = concat (map (fips_w key) [4 * round..<4 * round + 4])"

definition fips_shiftRows :: "u8 list \<Rightarrow> u8 list" where
  "fips_shiftRows s = map (\<lambda>i. s ! ((i + 4 * (i mod 4)) mod 16)) [0..<16]"

definition fips_mixColumn :: "u8 \<Rightarrow> u8 \<Rightarrow> u8 \<Rightarrow> u8 \<Rightarrow> u8 list" where
  "fips_mixColumn a b c d =
     [aes_mul a 2 XOR aes_mul b 3 XOR c XOR d, a XOR aes_mul b 2 XOR aes_mul c 3 XOR d,
      a XOR b XOR aes_mul c 2 XOR aes_mul d 3, aes_mul a 3 XOR b XOR c XOR aes_mul d 2]"

definition fips_mixColumns :: "u8 list \<Rightarrow> u8 list" where
  "fips_mixColumns s =
     concat (map (\<lambda>c. fips_mixColumn (s ! (c * 4)) (s ! (c * 4 + 1)) (s ! (c * 4 + 2)) (s ! (c * 4 + 3))) [0..<4])"

definition fips_round :: "(nat \<Rightarrow> u8 list) \<Rightarrow> nat \<Rightarrow> u8 list \<Rightarrow> u8 list" where
  "fips_round ks round s = aes_addRoundKey (fips_mixColumns (fips_shiftRows (map aes_sbox s))) (ks round)"

definition fips_cipher :: "(nat \<Rightarrow> u8 list) \<Rightarrow> u8 list \<Rightarrow> u8 list" where
  "fips_cipher ks block =
     aes_addRoundKey (fips_shiftRows (map aes_sbox (fold (fips_round ks) [1..<10] (aes_addRoundKey block (ks 0))))) (ks 10)"

definition fips_aes :: "u8 list \<Rightarrow> u8 list \<Rightarrow> u8 list" where
  "fips_aes key = fips_cipher (fips_roundKey key)"

section \<open>The tables\<close>

text \<open>The S-box of 5.1.1: the inverse in GF(2^8), then the affine map. \<open>gf_inverses\<close> lists the inverses.\<close>

definition fips_affine :: "u8 \<Rightarrow> u8" where
  "fips_affine b = (let rotl = (\<lambda>n. push_bit n b OR drop_bit (8 - n) b) in b XOR rotl 1 XOR rotl 2 XOR rotl 3 XOR rotl 4 XOR 0x63)"

definition gf_inverses :: "u8 list" where
  "gf_inverses = [
    0x00, 0x01, 0x8d, 0xf6, 0xcb, 0x52, 0x7b, 0xd1, 0xe8, 0x4f, 0x29, 0xc0, 0xb0, 0xe1, 0xe5, 0xc7,
    0x74, 0xb4, 0xaa, 0x4b, 0x99, 0x2b, 0x60, 0x5f, 0x58, 0x3f, 0xfd, 0xcc, 0xff, 0x40, 0xee, 0xb2,
    0x3a, 0x6e, 0x5a, 0xf1, 0x55, 0x4d, 0xa8, 0xc9, 0xc1, 0x0a, 0x98, 0x15, 0x30, 0x44, 0xa2, 0xc2,
    0x2c, 0x45, 0x92, 0x6c, 0xf3, 0x39, 0x66, 0x42, 0xf2, 0x35, 0x20, 0x6f, 0x77, 0xbb, 0x59, 0x19,
    0x1d, 0xfe, 0x37, 0x67, 0x2d, 0x31, 0xf5, 0x69, 0xa7, 0x64, 0xab, 0x13, 0x54, 0x25, 0xe9, 0x09,
    0xed, 0x5c, 0x05, 0xca, 0x4c, 0x24, 0x87, 0xbf, 0x18, 0x3e, 0x22, 0xf0, 0x51, 0xec, 0x61, 0x17,
    0x16, 0x5e, 0xaf, 0xd3, 0x49, 0xa6, 0x36, 0x43, 0xf4, 0x47, 0x91, 0xdf, 0x33, 0x93, 0x21, 0x3b,
    0x79, 0xb7, 0x97, 0x85, 0x10, 0xb5, 0xba, 0x3c, 0xb6, 0x70, 0xd0, 0x06, 0xa1, 0xfa, 0x81, 0x82,
    0x83, 0x7e, 0x7f, 0x80, 0x96, 0x73, 0xbe, 0x56, 0x9b, 0x9e, 0x95, 0xd9, 0xf7, 0x02, 0xb9, 0xa4,
    0xde, 0x6a, 0x32, 0x6d, 0xd8, 0x8a, 0x84, 0x72, 0x2a, 0x14, 0x9f, 0x88, 0xf9, 0xdc, 0x89, 0x9a,
    0xfb, 0x7c, 0x2e, 0xc3, 0x8f, 0xb8, 0x65, 0x48, 0x26, 0xc8, 0x12, 0x4a, 0xce, 0xe7, 0xd2, 0x62,
    0x0c, 0xe0, 0x1f, 0xef, 0x11, 0x75, 0x78, 0x71, 0xa5, 0x8e, 0x76, 0x3d, 0xbd, 0xbc, 0x86, 0x57,
    0x0b, 0x28, 0x2f, 0xa3, 0xda, 0xd4, 0xe4, 0x0f, 0xa9, 0x27, 0x53, 0x04, 0x1b, 0xfc, 0xac, 0xe6,
    0x7a, 0x07, 0xae, 0x63, 0xc5, 0xdb, 0xe2, 0xea, 0x94, 0x8b, 0xc4, 0xd5, 0x9d, 0xf8, 0x90, 0x6b,
    0xb1, 0x0d, 0xd6, 0xeb, 0xc6, 0x0e, 0xcf, 0xad, 0x08, 0x4e, 0xd7, 0xe3, 0x5d, 0x50, 0x1e, 0xb3,
    0x5b, 0x23, 0x38, 0x34, 0x68, 0x46, 0x03, 0x8c, 0xdd, 0x9c, 0x7d, 0xa0, 0xcd, 0x1a, 0x41, 0x1c]"

lemma aes_mulLoop_step:
  "aes_mulLoop (Suc n) p a b = aes_mulLoop n (if b AND 1 = 0 then p else p XOR a) (aes_xtime a) (drop_bit 1 b)"
  by (simp add: aes_xtime_def Let_def)

declare aes_mulLoop.simps(2) [simp del]

lemma aes_mul_steps: "aes_mul a b = aes_mulLoop (Suc (Suc (Suc (Suc (Suc (Suc (Suc (Suc 0)))))))) 0 a b"
  unfolding aes_mul_def by (rule arg_cong [where f = "\<lambda>n. aes_mulLoop n 0 a b"]) simp

definition all_bytes :: "u8 list" where
  "all_bytes = [
    0x00, 0x01, 0x02, 0x03, 0x04, 0x05, 0x06, 0x07, 0x08, 0x09, 0x0a, 0x0b, 0x0c, 0x0d, 0x0e, 0x0f,
    0x10, 0x11, 0x12, 0x13, 0x14, 0x15, 0x16, 0x17, 0x18, 0x19, 0x1a, 0x1b, 0x1c, 0x1d, 0x1e, 0x1f,
    0x20, 0x21, 0x22, 0x23, 0x24, 0x25, 0x26, 0x27, 0x28, 0x29, 0x2a, 0x2b, 0x2c, 0x2d, 0x2e, 0x2f,
    0x30, 0x31, 0x32, 0x33, 0x34, 0x35, 0x36, 0x37, 0x38, 0x39, 0x3a, 0x3b, 0x3c, 0x3d, 0x3e, 0x3f,
    0x40, 0x41, 0x42, 0x43, 0x44, 0x45, 0x46, 0x47, 0x48, 0x49, 0x4a, 0x4b, 0x4c, 0x4d, 0x4e, 0x4f,
    0x50, 0x51, 0x52, 0x53, 0x54, 0x55, 0x56, 0x57, 0x58, 0x59, 0x5a, 0x5b, 0x5c, 0x5d, 0x5e, 0x5f,
    0x60, 0x61, 0x62, 0x63, 0x64, 0x65, 0x66, 0x67, 0x68, 0x69, 0x6a, 0x6b, 0x6c, 0x6d, 0x6e, 0x6f,
    0x70, 0x71, 0x72, 0x73, 0x74, 0x75, 0x76, 0x77, 0x78, 0x79, 0x7a, 0x7b, 0x7c, 0x7d, 0x7e, 0x7f,
    0x80, 0x81, 0x82, 0x83, 0x84, 0x85, 0x86, 0x87, 0x88, 0x89, 0x8a, 0x8b, 0x8c, 0x8d, 0x8e, 0x8f,
    0x90, 0x91, 0x92, 0x93, 0x94, 0x95, 0x96, 0x97, 0x98, 0x99, 0x9a, 0x9b, 0x9c, 0x9d, 0x9e, 0x9f,
    0xa0, 0xa1, 0xa2, 0xa3, 0xa4, 0xa5, 0xa6, 0xa7, 0xa8, 0xa9, 0xaa, 0xab, 0xac, 0xad, 0xae, 0xaf,
    0xb0, 0xb1, 0xb2, 0xb3, 0xb4, 0xb5, 0xb6, 0xb7, 0xb8, 0xb9, 0xba, 0xbb, 0xbc, 0xbd, 0xbe, 0xbf,
    0xc0, 0xc1, 0xc2, 0xc3, 0xc4, 0xc5, 0xc6, 0xc7, 0xc8, 0xc9, 0xca, 0xcb, 0xcc, 0xcd, 0xce, 0xcf,
    0xd0, 0xd1, 0xd2, 0xd3, 0xd4, 0xd5, 0xd6, 0xd7, 0xd8, 0xd9, 0xda, 0xdb, 0xdc, 0xdd, 0xde, 0xdf,
    0xe0, 0xe1, 0xe2, 0xe3, 0xe4, 0xe5, 0xe6, 0xe7, 0xe8, 0xe9, 0xea, 0xeb, 0xec, 0xed, 0xee, 0xef,
    0xf0, 0xf1, 0xf2, 0xf3, 0xf4, 0xf5, 0xf6, 0xf7, 0xf8, 0xf9, 0xfa, 0xfb, 0xfc, 0xfd, 0xfe, 0xff]"

lemma all_bytes_upto: "map of_nat [0..<256] = all_bytes"
  unfolding all_bytes_def by (simp add: upt_conv_Cons)

lemma length_all_bytes [simp]: "length all_bytes = 256"
  by (simp add: all_bytes_upto [symmetric])

lemma nth_all_bytes: "all_bytes ! unat x = x"
  using unsigned_less [of x] by (simp add: all_bytes_upto [symmetric])

lemma byte_tables:
  assumes "list_all (\<lambda>(x, y). P x y) (zip all_bytes ys)" "length ys = 256"
  shows "P x (ys ! unat x)"
proof -
  have l: "unat x < 256" using unsigned_less [of x] by simp
  then have "(all_bytes ! unat x, ys ! unat x) \<in> set (zip all_bytes ys)" using assms(2) by (auto simp: set_zip)
  then show ?thesis using assms(1) unfolding nth_all_bytes list_all_iff by blast
qed

lemma table_lengths [simp]: "length aes_kSbox = 256" "length aes_kInvSbox = 256" "length gf_inverses = 256"
  by (simp_all add: aes_kSbox_def aes_kInvSbox_def gf_inverses_def)

text \<open>The field computation, in four parts.\<close>

definition gf_pairs :: "nat \<Rightarrow> (u8 \<times> u8) list" where
  "gf_pairs k = take 64 (drop (64 * k) (zip all_bytes gf_inverses))"

lemmas gf_compute = gf_pairs_def all_bytes_def gf_inverses_def aes_mul_steps aes_mulLoop_step aes_xtime_def

lemma gf_part0: "list_all (\<lambda>(x, y). aes_mul x y = (if x = 0 then 0 else 1)) (gf_pairs 0)"
  by (simp add: gf_compute)

lemma gf_part1: "list_all (\<lambda>(x, y). aes_mul x y = (if x = 0 then 0 else 1)) (gf_pairs 1)"
  by (simp add: gf_compute)

lemma gf_part2: "list_all (\<lambda>(x, y). aes_mul x y = (if x = 0 then 0 else 1)) (gf_pairs 2)"
  by (simp add: gf_compute)

lemma gf_part3: "list_all (\<lambda>(x, y). aes_mul x y = (if x = 0 then 0 else 1)) (gf_pairs 3)"
  by (simp add: gf_compute)

lemma gf_pairs: "zip all_bytes gf_inverses = gf_pairs 0 @ gf_pairs 1 @ gf_pairs 2 @ gf_pairs 3"
proof -
  have d: "drop n xs = take 64 (drop n xs) @ drop (64 + n) xs" for n and xs :: "(u8 \<times> u8) list"
    using append_take_drop_id [of 64 "drop n xs"] by simp
  have "xs = take 64 (drop 0 xs) @ take 64 (drop 64 xs) @ take 64 (drop 128 xs) @ take 64 (drop 192 xs)"
    if "length xs = 256" for xs :: "(u8 \<times> u8) list"
    using d [of 0 xs] d [of 64 xs] d [of 128 xs] that by simp
  from this [of "zip all_bytes gf_inverses"] show ?thesis by (simp add: gf_pairs_def)
qed

lemma gf_inverses_invert: "aes_mul x (gf_inverses ! unat x) = (if x = 0 then 0 else 1)"
  by (rule byte_tables [of "\<lambda>x y. aes_mul x y = (if x = 0 then 0 else 1)" gf_inverses])
     (simp_all only: gf_pairs list_all_append gf_part0 gf_part1 gf_part2 gf_part3 table_lengths simp_thms)

lemma aes_kSbox_affine: "aes_kSbox = map fips_affine gf_inverses"
  unfolding aes_kSbox_def gf_inverses_def by (simp add: fips_affine_def)

lemma aes_kInvSbox_inverts: "map aes_sbox aes_kInvSbox = all_bytes"
  unfolding all_bytes_def aes_kInvSbox_def by (simp add: aes_sbox_def aes_kSbox_def)

lemma aes_kSbox_inverts: "map aes_invSbox aes_kSbox = all_bytes"
  unfolding all_bytes_def aes_kSbox_def by (simp add: aes_invSbox_def aes_kInvSbox_def)

lemma aes_invSbox_sbox [simp]: "aes_invSbox (aes_sbox x) = x" "aes_sbox (aes_invSbox x) = x"
proof -
  have l: "unat x < 256" using unsigned_less [of x] by simp
  have "map aes_invSbox aes_kSbox ! unat x = x" "map aes_sbox aes_kInvSbox ! unat x = x"
    unfolding aes_kSbox_inverts aes_kInvSbox_inverts by (rule nth_all_bytes)+
  then show "aes_invSbox (aes_sbox x) = x" "aes_sbox (aes_invSbox x) = x"
    using l by (simp_all add: aes_sbox_def [of x] aes_invSbox_def [of x])
qed

text \<open>The table is the S-box of the standard.\<close>

lemma aes_sbox_algebraic:
  "\<exists>y. aes_mul x y = (if x = 0 then 0 else 1) \<and> (x = 0 \<longrightarrow> y = 0) \<and> aes_sbox x = fips_affine y"
proof (intro exI conjI)
  show "aes_mul x (gf_inverses ! unat x) = (if x = 0 then 0 else 1)" by (rule gf_inverses_invert)
  show "x = 0 \<longrightarrow> gf_inverses ! unat x = 0" by (simp add: gf_inverses_def)
  show "aes_sbox x = fips_affine (gf_inverses ! unat x)"
    using unsigned_less [of x] by (simp add: aes_sbox_def aes_kSbox_affine)
qed

end
