(* ===== verification/ZbAesFacts.thy ===== *)
theory ZbAesFacts
  imports ZbAes
begin

text \<open>
  The decryption of \<open>ZigbeeAes128Decrypt.h\<close> inverts the cipher of FIPS-197, step by step: the S-boxes, the
  row shifts, the column mixes and the key schedule.
\<close>

section \<open>Multiplication in the field\<close>

lemma aes_xtime_bit: "aes_xtime x = push_bit 1 x XOR (if bit x 7 then 0x1B else 0)"
  using and_exp_eq_0_iff_not_bit [of x 7] by (simp add: aes_xtime_def)

lemma aes_xtime_xor [simp]: "aes_xtime (x XOR y) = aes_xtime x XOR aes_xtime y"
  by (simp add: aes_xtime_bit bit_xor_iff push_bit_xor ac_simps)

lemma aes_mul_numerals:
  "aes_mul a 2 = aes_xtime a"
  "aes_mul a 3 = a XOR aes_xtime a"
  "aes_mul a 9 = a XOR aes_xtime (aes_xtime (aes_xtime a))"
  "aes_mul a 11 = a XOR aes_xtime a XOR aes_xtime (aes_xtime (aes_xtime a))"
  "aes_mul a 13 = a XOR aes_xtime (aes_xtime a) XOR aes_xtime (aes_xtime (aes_xtime a))"
  "aes_mul a 14 = aes_xtime a XOR aes_xtime (aes_xtime a) XOR aes_xtime (aes_xtime (aes_xtime a))"
  by (simp_all add: aes_mul_steps aes_mulLoop_step xor.assoc)

lemma aes_xor_cancel [simp]: "x XOR (x XOR y) = y" for x y :: u8
  by (simp add: xor.assoc [symmetric])

lemma aes_invMixColumn_mixes:
  "fips_mixColumn a b c d = [e0, e1, e2, e3] \<Longrightarrow> aes_invMixColumn e0 e1 e2 e3 = [a, b, c, d]"
  by (auto simp: fips_mixColumn_def aes_invMixColumn_def aes_mul_numerals xor.assoc xor.commute xor.left_commute)

lemma length_fips_mixColumn [simp]: "length (fips_mixColumn a b c d) = 4"
  by (simp add: fips_mixColumn_def)

section \<open>Steps of a round\<close>

lemma list16:
  assumes "length xs = 16"
  obtains a0 a1 a2 a3 a4 a5 a6 a7 a8 a9 a10 a11 a12 a13 a14 a15
    where "xs = [a0, a1, a2, a3, a4, a5, a6, a7, a8, a9, a10, a11, a12, a13, a14, a15]"
  using assms by (auto simp: numeral_eq_Suc length_Suc_conv)

lemma upt_4: "[0..<4] = [0, 1, 2, 3]"
  by (simp add: upt_rec)

lemma upt_16: "[0..<16] = [0, 1, 2, 3, 4, 5, 6, 7, 8, 9, 10, 11, 12, 13, 14, 15]"
  by (simp add: upt_rec)

lemma length_aes [simp]:
  "length (fips_shiftRows s) = 16" "length (fips_mixColumns s) = 16" "length (aes_invMixColumns s) = 16"
  "length (aes_invShiftRows s) = length s" "length (aes_invSubBytes s) = length s"
  "length (aes_addRoundKey s k) = min (length s) (length k)"
  by (simp_all add: fips_shiftRows_def fips_mixColumns_def fips_mixColumn_def aes_invMixColumns_def aes_invMixColumn_def
      aes_invShiftRows_def aes_invSubBytes_def aes_addRoundKey_def upt_4)

lemma aes_invMixColumns_mixes:
  assumes "length s = 16"
  shows "aes_invMixColumns (fips_mixColumns s) = s"
proof (rule list16 [OF assms])
  fix a0 a1 a2 a3 a4 a5 a6 a7 a8 a9 a10 a11 a12 a13 a14 a15
  assume s: "s = [a0, a1, a2, a3, a4, a5, a6, a7, a8, a9, a10, a11, a12, a13, a14, a15]"
  have c: "\<exists>e0 e1 e2 e3. fips_mixColumn a b c d = [e0, e1, e2, e3]" for a b c d
    by (simp add: fips_mixColumn_def)
  obtain b0 b1 b2 b3 where 0: "fips_mixColumn a0 a1 a2 a3 = [b0, b1, b2, b3]" using c by blast
  obtain b4 b5 b6 b7 where 1: "fips_mixColumn a4 a5 a6 a7 = [b4, b5, b6, b7]" using c by blast
  obtain b8 b9 b10 b11 where 2: "fips_mixColumn a8 a9 a10 a11 = [b8, b9, b10, b11]" using c by blast
  obtain b12 b13 b14 b15 where 3: "fips_mixColumn a12 a13 a14 a15 = [b12, b13, b14, b15]" using c by blast
  show ?thesis
    by (simp add: s fips_mixColumns_def aes_invMixColumns_def upt_4 0 1 2 3
        aes_invMixColumn_mixes [OF 0] aes_invMixColumn_mixes [OF 1] aes_invMixColumn_mixes [OF 2] aes_invMixColumn_mixes [OF 3])
qed

lemma aes_invShiftRows_shifts:
  assumes "length s = 16"
  shows "aes_invShiftRows (fips_shiftRows s) = s"
  by (rule list16 [OF assms]) (simp add: fips_shiftRows_def aes_invShiftRows_def upt_16)

lemma aes_addRoundKey_twice:
  assumes "length s = 16" "length k = 16"
  shows "aes_addRoundKey (aes_addRoundKey s k) k = s"
  by (rule nth_equalityI) (use assms in \<open>simp_all add: aes_addRoundKey_def xor.assoc\<close>)

lemma aes_addRoundKey_swap: "aes_addRoundKey s k = aes_addRoundKey k s"
  unfolding aes_addRoundKey_def by (rule nth_equalityI) (simp_all add: xor.commute)

section \<open>Decryption\<close>

text \<open>What the decryption undoes: \<open>fips_turn\<close> is the part of a round before the key.\<close>

definition fips_turn :: "u8 list \<Rightarrow> u8 list" where
  "fips_turn s = fips_shiftRows (map aes_sbox s)"

lemma fips_turn_undone:
  assumes "length s = 16"
  shows "aes_invSubBytes (aes_invShiftRows (fips_turn s)) = s"
  using assms by (simp add: fips_turn_def aes_invShiftRows_shifts aes_invSubBytes_def comp_def)

lemma aes_decryptRound_undoes:
  assumes "length s = 16" "aes_roundKey rk n = ks n" "length (ks n) = 16"
  shows "aes_decryptRound rk n (fips_turn (fips_round ks n s)) = fips_turn s"
  using assms
  by (simp add: aes_decryptRound_def fips_turn_undone fips_round_def aes_addRoundKey_twice
      aes_invMixColumns_mixes flip: fips_turn_def) (simp add: fips_turn_def aes_invMixColumns_mixes)

lemma length_fips_rounds: "\<forall>n\<in>set ns. length (ks n) = 16 \<Longrightarrow> length s = 16 \<Longrightarrow> length (fold (fips_round ks) ns s) = 16"
  by (induction ns arbitrary: s) (simp_all add: fips_round_def)

lemma aes_decryptRounds_undo:
  assumes "\<forall>n\<in>set ns. aes_roundKey rk n = ks n \<and> length (ks n) = 16" "length s = 16"
  shows "fold (aes_decryptRound rk) (rev ns) (fips_turn (fold (fips_round ks) ns s)) = fips_turn s"
  using assms(1)
proof (induction ns rule: rev_induct)
  case (snoc n ns)
  then show ?case
    by (simp add: aes_decryptRound_undoes length_fips_rounds assms(2))
qed simp

lemma aes_decrypts_cipher:
  assumes "\<forall>n\<le>10. aes_roundKey (aes_keyExpansion key) n = ks n \<and> length (ks n) = 16" "length block = 16"
  shows "aes_decryptBlock key (fips_cipher ks block) = block"
proof -
  let ?s = "aes_addRoundKey block (ks 0)"
  have l: "length ?s = 16" using assms by simp
  have r: "fold (aes_decryptRound (aes_keyExpansion key)) (rev [1..<10]) (fips_turn (fold (fips_round ks) [1..<10] ?s)) = fips_turn ?s"
    by (rule aes_decryptRounds_undo [OF _ l]) (use assms(1) in auto)
  have t: "length (fips_turn x) = 16" for x by (simp add: fips_turn_def)
  have k: "aes_roundKey (aes_keyExpansion key) 10 = ks 10" "aes_roundKey (aes_keyExpansion key) 0 = ks 0"
    "length (ks 10) = 16" "length (ks 0) = 16" using assms(1) by simp_all
  show ?thesis
    unfolding aes_decryptBlock_def fips_cipher_def fips_turn_def [symmetric] Let_def k
      aes_addRoundKey_twice [OF t k(3)] r fips_turn_undone [OF l] aes_addRoundKey_twice [OF assms(2) k(4)] ..
qed


section \<open>The key schedule\<close>

lemma length_fips_w: "length key = 16 \<Longrightarrow> length (fips_w key i) = 4"
  by (induction key i rule: fips_w.induct) (subst fips_w.simps, simp)

lemma concat_words:
  assumes "\<forall>j<n. length (w j) = 4"
  shows "length (concat (map w [0..<n])) = 4 * n"
    and "j < n \<Longrightarrow> take 4 (drop (4 * j) (concat (map w [0..<n]))) = w j"
proof -
  show l: "length (concat (map w [0..<n])) = 4 * n" using assms by (induction n) simp_all
  show "take 4 (drop (4 * j) (concat (map w [0..<n]))) = w j" if "j < n"
    using assms that
  proof (induction n)
    case (Suc n)
    have l: "length (concat (map w [0..<n])) = 4 * n" using Suc.prems(1) by (induction n) simp_all
    then show ?case using Suc by (cases "j < n") (auto simp: less_Suc_eq)
  qed simp
qed

lemma list4:
  assumes "length xs = 4"
  obtains a b c d where "xs = [a, b, c, d]"
  using assms by (auto simp: numeral_eq_Suc length_Suc_conv)

lemma word_index_mod: "4 * i mod 16 = 0 \<longleftrightarrow> i mod 4 = 0" for i :: nat
proof -
  have "4 * (i mod 4) = 4 * i mod 16" using mult_mod_right [of 4 i 4] by simp
  then show ?thesis by (metis mult_eq_0_iff zero_neq_numeral)
qed

lemma word_index_div:
  "i mod 4 = 0 \<Longrightarrow> 4 \<le> i \<Longrightarrow> i div 4 = Suc ((i - 1) div 4)"
  "i mod 4 \<noteq> 0 \<Longrightarrow> i div 4 = (i - 1) div 4" for i :: nat
proof -
  have c: "i = 4 * (i div 4) + i mod 4" by simp
  show "i div 4 = Suc ((i - 1) div 4)" if z: "i mod 4 = 0" and f: "4 \<le> i"
  proof -
    obtain k where "i div 4 = Suc k" using f by (cases "i div 4") (auto simp: div_eq_0_iff)
    then have "i - 1 = 4 * k + 3" using c z by simp
    then show ?thesis using \<open>i div 4 = Suc k\<close> by simp
  qed
  show "i div 4 = (i - 1) div 4" if "i mod 4 \<noteq> 0"
  proof -
    have "i - 1 = i mod 4 - 1 + 4 * (i div 4)" using c that by simp
    moreover have "i mod 4 - 1 < 4" using mod_less_divisor [of 4 i] by simp
    ultimately show ?thesis by (simp add: div_mult_self1)
  qed
qed

lemma aes_keyWord_is_fips:
  assumes "length key = 16" "4 \<le> i" "rk = concat (map (fips_w key) [0..<i])" "rcon = (aes_xtime ^^ ((i - 1) div 4)) 1"
  shows "aes_keyWord rk rcon = fips_w key i"
proof -
  note c = concat_words [of i "fips_w key", OF allI [OF impI [OF length_fips_w [OF assms(1)]]]]
  have l: "length rk = 4 * i" using c(1) assms(3) by simp
  obtain a b c' d where p: "fips_w key (i - 1) = [a, b, c', d]" using length_fips_w [OF assms(1)] by (rule list4)
  obtain e f g h where q: "fips_w key (i - 4) = [e, f, g, h]" using length_fips_w [OF assms(1)] by (rule list4)
  have t: "take 4 (drop (4 * i - 4) rk) = [a, b, c', d]"
    using c(2) [of "i - 1"] assms(2,3) p by (simp add: diff_mult_distrib2)
  have u: "take 4 (drop (4 * i - 16) rk) = [e, f, g, h]"
    using c(2) [of "i - 4"] assms(2,3) q by (simp add: diff_mult_distrib2)
  have n: "rk ! (4 * i - 16 + j) = [e, f, g, h] ! j" if "j < 4" for j
    unfolding u [symmetric] using that l assms(2) by simp
  note m = word_index_mod
  have r: "(i - 1) div 4 = i div 4 - 1" if "i mod 4 = 0" using word_index_div(1) [OF that] assms(2) by simp
  show ?thesis
  proof (cases "i mod 4 = 0")
    case True
    then show ?thesis using assms(2) n [of 0] n [of 1] n [of 2] n [of 3]
      by (subst fips_w.simps) (simp add: aes_keyWord_def Let_def l t m upt_4 p q assms(4) r del: One_nat_def)
  next
    case False
    then show ?thesis using assms(2) n [of 0] n [of 1] n [of 2] n [of 3]
      by (subst fips_w.simps) (simp add: aes_keyWord_def Let_def l t m upt_4 p q del: One_nat_def)
  qed
qed

lemma aes_expandLoop_is_fips:
  assumes "length key = 16" "4 \<le> i"
  shows "aes_expandLoop n (concat (map (fips_w key) [0..<i])) ((aes_xtime ^^ ((i - 1) div 4)) 1) =
    concat (map (fips_w key) [0..<i + n])"
  using assms(2)
proof (induction n arbitrary: i)
  case (Suc n)
  have l: "length (concat (map (fips_w key) [0..<i])) = 4 * i"
    by (rule concat_words(1)) (simp add: length_fips_w assms(1))
  note m = word_index_mod
  have r: "(if length (concat (map (fips_w key) [0..<i])) mod 16 = 0 then aes_xtime ((aes_xtime ^^ ((i - 1) div 4)) 1)
      else (aes_xtime ^^ ((i - 1) div 4)) 1) = (aes_xtime ^^ ((Suc i - 1) div 4)) 1"
  proof (cases "i mod 4 = 0")
    case True
    then have "i div 4 = Suc ((i - 1) div 4)" using Suc.prems by (simp add: word_index_div(1))
    then show ?thesis using True by (simp add: l m)
  next
    case False
    then have "i div 4 = (i - 1) div 4" by (rule word_index_div(2))
    then show ?thesis using False by (simp add: l m)
  qed
  have w: "aes_keyWord (concat (map (fips_w key) [0..<i])) ((aes_xtime ^^ ((i - 1) div 4)) 1) = fips_w key i"
    by (rule aes_keyWord_is_fips [OF assms(1) Suc.prems refl refl])
  show ?case
    unfolding aes_expandLoop.simps r w using Suc.IH [of "Suc i"] Suc.prems by simp
qed simp

lemma aes_keyExpansion_is_fips:
  assumes "length key = 16"
  shows "aes_keyExpansion key = concat (map (fips_w key) [0..<44])"
proof -
  have "concat (map (fips_w key) [0..<4]) = key"
    by (rule list16 [OF assms]) (simp add: upt_4 fips_w.simps)
  then show ?thesis using aes_expandLoop_is_fips [OF assms, of 4 40] by (simp add: aes_keyExpansion_def)
qed

lemma aes_roundKey_is_fips:
  assumes "length key = 16" "n \<le> 10"
  shows "aes_roundKey (aes_keyExpansion key) n = fips_roundKey key n" "length (fips_roundKey key n) = 16"
proof -
  let ?w = "fips_w key"
  have l: "\<forall>j<k. length (?w j) = 4" for k using length_fips_w [OF assms(1)] by simp
  have k: "[0..<44] = [0..<4 * n] @ [4 * n..<4 * n + 4] @ [4 * n + 4..<44]"
    using upt_add_eq_append [of 0 "4 * n" "44 - 4 * n"] upt_add_eq_append [of "4 * n" "4 * n + 4" "40 - 4 * n"] assms(2) by simp
  have m: "[4 * n..<4 * n + 4] = [4 * n, Suc (4 * n), Suc (Suc (4 * n)), Suc (Suc (Suc (4 * n)))]"
    by (simp add: upt_conv_Cons)
  show r: "length (fips_roundKey key n) = 16" by (simp add: fips_roundKey_def m length_fips_w assms(1))
  have "aes_keyExpansion key = concat (map ?w [0..<4 * n]) @ fips_roundKey key n @ concat (map ?w [4 * n + 4..<44])"
    unfolding aes_keyExpansion_is_fips [OF assms(1)] k by (simp add: fips_roundKey_def)
  then show "aes_roundKey (aes_keyExpansion key) n = fips_roundKey key n"
    using concat_words(1) [OF l] r by (simp add: aes_roundKey_def)
qed

lemma aes_decrypts:
  assumes "length key = 16" "length block = 16"
  shows "aes_decryptBlock key (fips_aes key block) = block"
  unfolding fips_aes_def by (rule aes_decrypts_cipher [OF _ assms(2)]) (simp add: aes_roundKey_is_fips assms(1))

lemma length_fips_aes: "length key = 16 \<Longrightarrow> length (fips_aes key block) = 16"
  by (simp add: fips_aes_def fips_cipher_def aes_roundKey_is_fips)

text \<open>The standard satisfies what the other theories ask of the radio chip's AES block.\<close>

definition aes_ecb :: block_cipher where
  "aes_ecb key block = (if length key = 16 \<and> length block = 16 then Some (fips_aes key block) else None)"

lemma aes_ecb_works: "ecb_works aes_ecb"
  by (simp add: ecb_works_def ecb_sized_def aes_ecb_def length_fips_aes)

end
