(* ===== verification/ZbTouchlink.thy ===== *)
theory ZbTouchlink
  imports ZbAes
begin

text \<open>
  Touchlink: \<open>ZigbeeTouchlink.h\<close> (the commissioning commands and the transport of the network key) and
  \<open>ZigbeeInterPan.h\<close> (the frames that carry them between devices that share no network). A builder answers
  \<open>None\<close> for 0, a parser \<open>Some x\<close> for true with what it stored; around both, the outer \<open>None\<close> is an access
  outside a buffer. A payload is the list of its bytes. \<open>ecb\<close> is \<open>NrfEcb::encrypt\<close>.
\<close>

section \<open>Touchlink commands\<close>

record zll_scan_response =
  zs_transactionId :: u32
  zs_rssiCorrection :: u8
  zs_zigbeeInfo :: u8
  zs_zllInfo :: u8
  zs_keyBitmask :: u16
  zs_responseId :: u32
  zs_extendedPanId :: u64
  zs_nwkUpdateId :: u8
  zs_logicalChannel :: u8
  zs_panId :: u16
  zs_networkAddress :: u16
  zs_numberSubDevices :: u8
  zs_totalGroupIds :: u8

record zll_join_request =
  zj_transactionId :: u32
  zj_keyIndex :: u8
  zj_encryptedNetworkKey :: "u8 list"
  zj_nwkUpdateId :: u8
  zj_logicalChannel :: u8
  zj_panId :: u16
  zj_networkAddress :: u16

definition zll_buildScanRequest :: "out_buf \<Rightarrow> u32 \<Rightarrow> u8 \<Rightarrow> u8 \<Rightarrow> u8 list option" where
  "zll_buildScanRequest out transactionId zigbeeInfo zllInfo =
     (case out of None \<Rightarrow> None | Some outMax \<Rightarrow>
        if outMax < 6 then None else Some (le32 transactionId @ [zigbeeInfo, zllInfo]))"

definition zll_parseScanRequest :: "ptr \<Rightarrow> (u32 \<times> u8 \<times> u8) option option" where
  "zll_parseScanRequest p =
     (case p of None \<Rightarrow> Some None | Some bs \<Rightarrow>
        if length bs < 6 then Some None
        else do {
          transactionId \<leftarrow> rd32 bs 0;
          zigbeeInfo \<leftarrow> rd8 bs 4;
          zllInfo \<leftarrow> rd8 bs 5;
          Some (Some (transactionId, zigbeeInfo, zllInfo))
        })"

definition zll_buildScanResponse :: "out_buf \<Rightarrow> zll_scan_response \<Rightarrow> u8 list option" where
  "zll_buildScanResponse out r =
     (case out of None \<Rightarrow> None | Some outMax \<Rightarrow>
        if outMax < 28 then None
        else Some (le32 (zs_transactionId r) @ [zs_rssiCorrection r, zs_zigbeeInfo r, zs_zllInfo r] @
          le16 (zs_keyBitmask r) @ le32 (zs_responseId r) @ le64 (zs_extendedPanId r) @
          [zs_nwkUpdateId r, zs_logicalChannel r] @ le16 (zs_panId r) @ le16 (zs_networkAddress r) @
          [zs_numberSubDevices r]))"

definition zll_parseScanResponse :: "ptr \<Rightarrow> zll_scan_response option option" where
  "zll_parseScanResponse p =
     (case p of None \<Rightarrow> Some None | Some bs \<Rightarrow>
        if length bs < 28 then Some None
        else do {
          transactionId \<leftarrow> rd32 bs 0;
          rssiCorrection \<leftarrow> rd8 bs 4;
          zigbeeInfo \<leftarrow> rd8 bs 5;
          zllInfo \<leftarrow> rd8 bs 6;
          keyBitmask \<leftarrow> rd16 bs 7;
          responseId \<leftarrow> rd32 bs 9;
          extendedPanId \<leftarrow> rd64 bs 13;
          nwkUpdateId \<leftarrow> rd8 bs 21;
          logicalChannel \<leftarrow> rd8 bs 22;
          panId \<leftarrow> rd16 bs 23;
          networkAddress \<leftarrow> rd16 bs 25;
          numberSubDevices \<leftarrow> rd8 bs 27;
          Some (Some \<lparr>zs_transactionId = transactionId, zs_rssiCorrection = rssiCorrection, zs_zigbeeInfo = zigbeeInfo,
            zs_zllInfo = zllInfo, zs_keyBitmask = keyBitmask, zs_responseId = responseId, zs_extendedPanId = extendedPanId,
            zs_nwkUpdateId = nwkUpdateId, zs_logicalChannel = logicalChannel, zs_panId = panId,
            zs_networkAddress = networkAddress, zs_numberSubDevices = numberSubDevices, zs_totalGroupIds = 0\<rparr>)
        })"

definition zll_buildIdentifyRequest :: "out_buf \<Rightarrow> u32 \<Rightarrow> u16 \<Rightarrow> u8 list option" where
  "zll_buildIdentifyRequest out transactionId duration =
     (case out of None \<Rightarrow> None | Some outMax \<Rightarrow>
        if outMax < 6 then None else Some (le32 transactionId @ le16 duration))"

definition zll_parseIdentifyRequest :: "ptr \<Rightarrow> (u32 \<times> u16) option option" where
  "zll_parseIdentifyRequest p =
     (case p of None \<Rightarrow> Some None | Some bs \<Rightarrow>
        if length bs < 6 then Some None
        else do {
          transactionId \<leftarrow> rd32 bs 0;
          duration \<leftarrow> rd16 bs 4;
          Some (Some (transactionId, duration))
        })"

definition zll_buildNetworkJoinRouterRequest :: "out_buf \<Rightarrow> zll_join_request \<Rightarrow> u8 list option" where
  "zll_buildNetworkJoinRouterRequest out j =
     (case out of None \<Rightarrow> None | Some outMax \<Rightarrow>
        if outMax < 27 then None
        else Some (le32 (zj_transactionId j) @ [zj_keyIndex j] @ zj_encryptedNetworkKey j @
          [zj_nwkUpdateId j, zj_logicalChannel j] @ le16 (zj_panId j) @ le16 (zj_networkAddress j)))"

definition zll_parseNetworkJoinRouterRequest :: "ptr \<Rightarrow> zll_join_request option option" where
  "zll_parseNetworkJoinRouterRequest p =
     (case p of None \<Rightarrow> Some None | Some bs \<Rightarrow>
        if length bs < 27 then Some None
        else do {
          transactionId \<leftarrow> rd32 bs 0;
          keyIndex \<leftarrow> rd8 bs 4;
          encryptedNetworkKey \<leftarrow> rd_bytes bs 5 16;
          nwkUpdateId \<leftarrow> rd8 bs 21;
          logicalChannel \<leftarrow> rd8 bs 22;
          panId \<leftarrow> rd16 bs 23;
          networkAddress \<leftarrow> rd16 bs 25;
          Some (Some \<lparr>zj_transactionId = transactionId, zj_keyIndex = keyIndex, zj_encryptedNetworkKey = encryptedNetworkKey,
            zj_nwkUpdateId = nwkUpdateId, zj_logicalChannel = logicalChannel, zj_panId = panId,
            zj_networkAddress = networkAddress\<rparr>)
        })"

section \<open>The key transport\<close>

definition be32 :: "u32 \<Rightarrow> u8 list" where
  "be32 v = [ucast (drop_bit 24 v), ucast (drop_bit 16 v), ucast (drop_bit 8 v), ucast v]"

definition zll_deriveTransportKey :: "block_cipher \<Rightarrow> u8 list \<Rightarrow> u32 \<Rightarrow> u32 \<Rightarrow> u8 list option" where
  "zll_deriveTransportKey ecb masterKey transactionId responseId =
     ecb masterKey (be32 transactionId @ be32 transactionId @ be32 responseId @ be32 responseId)"

definition zll_encryptNetworkKey :: "block_cipher \<Rightarrow> u8 list \<Rightarrow> u32 \<Rightarrow> u32 \<Rightarrow> u8 list \<Rightarrow> u8 list option" where
  "zll_encryptNetworkKey ecb masterKey transactionId responseId networkKey =
     (case zll_deriveTransportKey ecb masterKey transactionId responseId of None \<Rightarrow> None
      | Some tk \<Rightarrow> ecb tk networkKey)"

definition zll_decryptNetworkKey :: "block_cipher \<Rightarrow> u8 list \<Rightarrow> u32 \<Rightarrow> u32 \<Rightarrow> u8 list \<Rightarrow> u8 list option" where
  "zll_decryptNetworkKey ecb masterKey transactionId responseId encrypted =
     (case zll_deriveTransportKey ecb masterKey transactionId responseId of None \<Rightarrow> None
      | Some tk \<Rightarrow> Some (aes_decryptBlock tk encrypted))"

section \<open>Inter-PAN frames\<close>

record interpan_frame =
  ip_deliveryMode :: u8
  ip_groupAddress :: u16
  ip_clusterId :: u16
  ip_profileId :: u16
  ip_payload :: "u8 list"

abbreviation (input) "INTERPAN_UNICAST \<equiv> 0 :: u8"
abbreviation (input) "INTERPAN_BROADCAST \<equiv> 2 :: u8"
abbreviation (input) "INTERPAN_GROUP \<equiv> 3 :: u8"
abbreviation (input) "kStubNwkHeader \<equiv> 0x0B :: u8"
abbreviation (input) "kIpApsFrameType \<equiv> 0x03 :: u8"

text \<open>\<open>need\<close> is eight bits: a long payload wraps it and is written past the end of the buffer.\<close>

definition ip_build :: "out_buf \<Rightarrow> u8 \<Rightarrow> u16 \<Rightarrow> u16 \<Rightarrow> u16 \<Rightarrow> u8 list \<Rightarrow> u8 list option option" where
  "ip_build out deliveryMode groupAddress clusterId profileId payload =
     (let grp = (deliveryMode = INTERPAN_GROUP);
          hdr = 2 + (if grp then 2 else 0) + 4;
          need = cast8 (hdr + length payload)
      in case out of None \<Rightarrow> Some None | Some outMax \<Rightarrow>
        if outMax < need then Some None
        else if outMax < hdr + length payload then None
        else Some (Some ([kStubNwkHeader, kIpApsFrameType OR push_bit 2 (deliveryMode AND 0x03)] @
          (if grp then le16 groupAddress else []) @ le16 clusterId @ le16 profileId @ payload)))"

definition ip_parse :: "ptr \<Rightarrow> interpan_frame option option" where
  "ip_parse inb =
     (case inb of None \<Rightarrow> Some None | Some bs \<Rightarrow>
        if length bs < 6 then Some None
        else do {
          stub \<leftarrow> rd8 bs 0;
          if stub \<noteq> kStubNwkHeader then Some None
          else do {
            fc \<leftarrow> rd8 bs 1;
            if fc AND 0x03 \<noteq> kIpApsFrameType then Some None
            else do {
              let deliveryMode = drop_bit 2 fc AND 0x03;
              let grp = (deliveryMode = INTERPAN_GROUP);
              groupAddress \<leftarrow> (if grp then rd16 bs 2 else Some 0);
              let idx = (if grp then 4 else 2);
              if length bs < idx + 4 then Some None
              else do {
                clusterId \<leftarrow> rd16 bs idx;
                profileId \<leftarrow> rd16 bs (idx + 2);
                Some (Some \<lparr>ip_deliveryMode = deliveryMode, ip_groupAddress = groupAddress, ip_clusterId = clusterId,
                  ip_profileId = profileId, ip_payload = drop (idx + 4) bs\<rparr>)
              }
            }
          }
        })"

end
