(* ===== verification/ZbTouchlinkFacts.thy ===== *)
theory ZbTouchlinkFacts
  imports ZbAesFacts ZbTouchlink ZbMacFacts
begin

text \<open>
  Touchlink end to end: the commands survive the inter-PAN and MAC frames, and the network key that the
  initiator encrypts with the radio chip's AES is the one the target decrypts in software.
\<close>

lemma zll_scan_request_roundtrip:
  "6 \<le> m \<Longrightarrow> \<exists>bs. zll_buildScanRequest (Some m) tid zi zl = Some bs \<and> length bs = 6 \<and> zll_parseScanRequest (Some bs) = Some (Some (tid, zi, zl))"
  by (simp add: zll_buildScanRequest_def zll_parseScanRequest_def wire_simps)

lemma zll_identify_roundtrip:
  "6 \<le> m \<Longrightarrow> \<exists>bs. zll_buildIdentifyRequest (Some m) tid d = Some bs \<and> length bs = 6 \<and> zll_parseIdentifyRequest (Some bs) = Some (Some (tid, d))"
  by (simp add: zll_buildIdentifyRequest_def zll_parseIdentifyRequest_def wire_simps)

lemma zll_scan_response_roundtrip:
  "28 \<le> m \<Longrightarrow> \<exists>bs. zll_buildScanResponse (Some m) r = Some bs \<and> length bs = 28 \<and>
     zll_parseScanResponse (Some bs) = Some (Some (r\<lparr>zs_totalGroupIds := 0\<rparr>))"
  by (simp add: zll_buildScanResponse_def zll_parseScanResponse_def wire_simps)

lemma zll_join_roundtrip:
  "27 \<le> m \<Longrightarrow> length (zj_encryptedNetworkKey j) = 16 \<Longrightarrow>
     \<exists>bs. zll_buildNetworkJoinRouterRequest (Some m) j = Some bs \<and> length bs = 27 \<and> zll_parseNetworkJoinRouterRequest (Some bs) = Some (Some j)"
  by (simp add: zll_buildNetworkJoinRouterRequest_def zll_parseNetworkJoinRouterRequest_def wire_simps rd_bytes_skip rd_bytes_Cons rd_bytes_hit)

text \<open>No parser reads outside its buffer.\<close>

lemma touchlink_parsers_safe:
  "zll_parseScanRequest p \<noteq> None" "zll_parseScanResponse p \<noteq> None" "zll_parseIdentifyRequest p \<noteq> None"
  "zll_parseNetworkJoinRouterRequest p \<noteq> None" "ip_parse p \<noteq> None"
proof -
  show "zll_parseScanRequest p \<noteq> None" by (cases p) (auto simp: zll_parseScanRequest_def rd_in)
  show "zll_parseScanResponse p \<noteq> None" by (cases p) (auto simp: zll_parseScanResponse_def rd_in)
  show "zll_parseIdentifyRequest p \<noteq> None" by (cases p) (auto simp: zll_parseIdentifyRequest_def rd_in)
  show "zll_parseNetworkJoinRouterRequest p \<noteq> None"
    by (cases p) (auto simp: zll_parseNetworkJoinRouterRequest_def rd_in rd_bytes_def)
  show "ip_parse p \<noteq> None"
  proof (cases p)
    case (Some bs)
    show ?thesis
    proof (cases "length bs < 6")
      case False
      then have "rd8 bs 0 = Some (bs ! 0)" "rd8 bs 1 = Some (bs ! 1)" by (auto simp: rd8_def)
      then show ?thesis using False by (auto simp: Some ip_parse_def rd_in Let_def)
    qed (simp add: Some ip_parse_def)
  qed (simp add: ip_parse_def)
qed

section \<open>Inter-PAN and MAC\<close>

lemma ip_roundtrip:
  assumes "dm \<le> 3" "8 + length pl \<le> m" "m < 256"
  shows "\<exists>bs. ip_build (Some m) dm grp cl pr pl = Some (Some bs) \<and> length bs \<le> 8 + length pl \<and>
     ip_parse (Some bs) = Some (Some \<lparr>ip_deliveryMode = dm, ip_groupAddress = (if dm = 3 then grp else 0), ip_clusterId = cl,
       ip_profileId = pr, ip_payload = pl\<rparr>)"
  using u8_le3_cases [OF assms(1)] assms(2,3)
  by (elim disjE) (simp_all add: ip_build_def ip_parse_def wire_simps Let_def)

lemma ip_build_overflows:
  assumes "length pl = 250"
  shows "ip_build (Some 1) INTERPAN_UNICAST grp cl pr pl = None"
  using assms by (simp add: ip_build_def Let_def cast8_def)

text \<open>
  A command on the air: the inter-PAN frame in the MAC frame \<open>CC2530_InterPan.ino\<close> builds, and what a receiver
  takes out of it.
\<close>

definition tl_air :: "u8 \<Rightarrow> u8 \<Rightarrow> u16 \<Rightarrow> u64 \<Rightarrow> u16 \<Rightarrow> u64 \<Rightarrow> u8 \<Rightarrow> u8 list \<Rightarrow> u8 list option" where
  "tl_air delivery mode dstShort dstIeee srcPan srcIeee seq cmd = do {
     apdu \<leftarrow> ip_build (Some 64) delivery 0 0x1000 0xC05E cmd;
     apdu \<leftarrow> apdu;
     mac_buildInterPanFrame (Some 127) mode 0xFFFF dstShort dstIeee srcPan srcIeee seq (Some apdu) (length apdu) False
   }"

definition tl_taken :: "u8 list \<Rightarrow> u8 list option" where
  "tl_taken psdu = do {
     (valid, m) \<leftarrow> mac_parseInterPanFrame (Some psdu);
     f \<leftarrow> (if valid then ip_parse (map_option (take (mi_payloadLen m)) (mi_payload m)) else Some None);
     f \<leftarrow> f;
     if ip_clusterId f = 0x1000 \<and> ip_profileId f = 0xC05E then Some (ip_payload f) else None
   }"

lemma tl_air_taken:
  assumes "length cmd \<le> 28" "delivery \<le> 3" "mode = 2 \<or> mode = 3"
  obtains psdu where "tl_air delivery mode dstShort dstIeee srcPan srcIeee seq cmd = Some psdu" "length psdu \<le> 127"
    "tl_taken psdu = Some cmd"
proof -
  obtain apdu where a: "ip_build (Some 64) delivery 0 0x1000 0xC05E cmd = Some (Some apdu)" "length apdu \<le> 36"
    "ip_parse (Some apdu) = Some (Some \<lparr>ip_deliveryMode = delivery, ip_groupAddress = (if delivery = 3 then 0 else 0),
       ip_clusterId = 0x1000, ip_profileId = 0xC05E, ip_payload = cmd\<rparr>)"
    using ip_roundtrip [OF assms(2), of cmd 64 0 "0x1000" "0xC05E"] assms(1) by fastforce
  obtain psdu where p: "mac_buildInterPanFrame (Some 127) mode 0xFFFF dstShort dstIeee srcPan srcIeee seq (Some apdu) (length apdu) False = Some psdu"
    using assms(3) a(2) by (auto simp: mac_buildInterPanFrame_def Let_def)
  from mac_interpan_roundtrip [OF p] show thesis
    using that [of psdu] a p by (simp add: tl_air_def tl_taken_def)
qed

section \<open>The network key\<close>

text \<open>The radio chip implements AES.\<close>

definition ecb_aes :: "block_cipher \<Rightarrow> bool" where
  "ecb_aes ecb \<longleftrightarrow> (\<forall>k b. length k = 16 \<longrightarrow> length b = 16 \<longrightarrow> ecb k b = Some (fips_aes k b))"

lemma zll_key_recovered:
  assumes "ecb_aes ecb" "length master = 16" "length networkKey = 16"
  obtains enc where "zll_encryptNetworkKey ecb master tid rid networkKey = Some enc" "length enc = 16"
    "zll_decryptNetworkKey ecb master tid rid enc = Some networkKey"
  using assms that
  by (simp add: zll_encryptNetworkKey_def zll_decryptNetworkKey_def zll_deriveTransportKey_def ecb_aes_def be32_def
      length_fips_aes aes_decrypts)

lemma be32_inject: "be32 v = be32 w \<longleftrightarrow> v = w"
proof -
  have "le_val (rev (be32 v)) = v" for v
    using le_val_le32 [of v] by (simp add: be32_def le32_def le_bytes_def upt_rec)
  then show ?thesis by metis
qed

text \<open>Another transaction or another target gives another transport key.\<close>

lemma zll_transport_key_fresh:
  assumes "ecb_aes ecb" "length master = 16" "(tid, rid) \<noteq> (tid', rid')"
  shows "zll_deriveTransportKey ecb master tid rid \<noteq> zll_deriveTransportKey ecb master tid' rid'"
proof
  let ?b = "\<lambda>t r. be32 t @ be32 t @ be32 r @ be32 r"
  have l: "length (?b t r) = 16" for t r by (simp add: be32_def)
  assume "zll_deriveTransportKey ecb master tid rid = zll_deriveTransportKey ecb master tid' rid'"
  then have "fips_aes master (?b tid rid) = fips_aes master (?b tid' rid')"
    using assms(1,2) l by (simp add: zll_deriveTransportKey_def ecb_aes_def)
  then have "?b tid rid = ?b tid' rid'" using aes_decrypts [OF assms(2) l] by metis
  moreover have "length (be32 x) = length (be32 y)" for x y by (simp add: be32_def)
  ultimately show False using assms(3) by (simp add: be32_inject)
qed

text \<open>C14: Touchlink end to end over the air, for any delivery and address mode: the target reads the scan request of
  the initiator, the initiator reads the target's answer, and from the join request the target recovers exactly the
  network key, although one side encrypts with the radio chip and the other decrypts in software; and the transport
  key of any other transaction or response id is a different one.\<close>

theorem touchlink_delivers_network_key:
  assumes "ecb_aes ecb" "length master = 16" "length networkKey = 16" "d1 \<le> 3" "d2 \<le> 3" "d3 \<le> 3" "mode \<in> {2, 3}"
  shows "\<exists>scan psdu1 rsp psdu2 enc join psdu3.
    zll_buildScanRequest (Some 40) tid zi zl = Some scan \<and> tl_air d1 mode s1 i1 p1 e1 q1 scan = Some psdu1 \<and>
      zll_parseScanRequest (tl_taken psdu1) = Some (Some (tid, zi, zl)) \<and>
    zll_buildScanResponse (Some 40) r = Some rsp \<and> tl_air d2 mode s2 i2 p2 e2 q2 rsp = Some psdu2 \<and>
      zll_parseScanResponse (tl_taken psdu2) = Some (Some (r\<lparr>zs_totalGroupIds := 0\<rparr>)) \<and>
    zll_encryptNetworkKey ecb master tid (zs_responseId r) networkKey = Some enc \<and>
    zll_buildNetworkJoinRouterRequest (Some 40) (j\<lparr>zj_transactionId := tid, zj_encryptedNetworkKey := enc\<rparr>) = Some join \<and>
      tl_air d3 mode s3 i3 p3 e3 q3 join = Some psdu3 \<and>
      zll_parseNetworkJoinRouterRequest (tl_taken psdu3) = Some (Some (j\<lparr>zj_transactionId := tid, zj_encryptedNetworkKey := enc\<rparr>)) \<and>
    zll_decryptNetworkKey ecb master tid (zs_responseId r) enc = Some networkKey \<and>
    (\<forall>tid' rid'. zll_deriveTransportKey ecb master tid' rid' = zll_deriveTransportKey ecb master tid (zs_responseId r) \<longrightarrow>
       tid' = tid \<and> rid' = zs_responseId r)"
proof -
  obtain scan where 1: "zll_buildScanRequest (Some 40) tid zi zl = Some scan" "length scan = 6"
    "zll_parseScanRequest (Some scan) = Some (Some (tid, zi, zl))" using zll_scan_request_roundtrip [of 40] by fastforce
  obtain rsp where 2: "zll_buildScanResponse (Some 40) r = Some rsp" "length rsp = 28"
    "zll_parseScanResponse (Some rsp) = Some (Some (r\<lparr>zs_totalGroupIds := 0\<rparr>))" using zll_scan_response_roundtrip [of 40] by fastforce
  obtain enc where e: "zll_encryptNetworkKey ecb master tid (zs_responseId r) networkKey = Some enc" "length enc = 16"
    "zll_decryptNetworkKey ecb master tid (zs_responseId r) enc = Some networkKey"
    by (rule zll_key_recovered [OF assms(1-3)])
  let ?j = "j\<lparr>zj_transactionId := tid, zj_encryptedNetworkKey := enc\<rparr>"
  obtain join where 3: "zll_buildNetworkJoinRouterRequest (Some 40) ?j = Some join" "length join = 27"
    "zll_parseNetworkJoinRouterRequest (Some join) = Some (Some ?j)" using zll_join_roundtrip [of 40 ?j] e(2) by auto
  have m: "mode = 2 \<or> mode = 3" using assms(7) by simp
  obtain psdu1 where a: "tl_air d1 mode s1 i1 p1 e1 q1 scan = Some psdu1" "tl_taken psdu1 = Some scan"
    using tl_air_taken [OF _ assms(4) m, of scan s1 i1 p1 e1 q1] 1(2) by auto
  obtain psdu2 where b: "tl_air d2 mode s2 i2 p2 e2 q2 rsp = Some psdu2" "tl_taken psdu2 = Some rsp"
    using tl_air_taken [OF _ assms(5) m, of rsp s2 i2 p2 e2 q2] 2(2) by (metis order_refl)
  have l: "length join \<le> 28" using 3(2) by simp
  obtain psdu3 where c: "tl_air d3 mode s3 i3 p3 e3 q3 join = Some psdu3" "tl_taken psdu3 = Some join"
    using tl_air_taken [OF l assms(6) m, of s3 i3 p3 e3 q3] by metis
  have "tid' = tid \<and> rid' = zs_responseId r"
    if "zll_deriveTransportKey ecb master tid' rid' = zll_deriveTransportKey ecb master tid (zs_responseId r)" for tid' rid'
    using zll_transport_key_fresh [OF assms(1,2)] that by blast
  with 1 2 3 e a b c show ?thesis by auto
qed

theorem touchlink_delivers_network_key_witness:
  "\<exists>enc. zll_encryptNetworkKey aes_ecb (replicate 16 1) 0x12345678 0xCAFEBABE (replicate 16 5) = Some enc \<and>
     zll_decryptNetworkKey aes_ecb (replicate 16 1) 0x12345678 0xCAFEBABE enc = Some (replicate 16 5)"
proof -
  have w: "ecb_aes aes_ecb" by (simp add: ecb_aes_def aes_ecb_def)
  let ?r = "\<lparr>zs_transactionId = 0x12345678, zs_rssiCorrection = 0, zs_zigbeeInfo = 0, zs_zllInfo = 0, zs_keyBitmask = 16,
    zs_responseId = 0xCAFEBABE, zs_extendedPanId = 1, zs_nwkUpdateId = 0, zs_logicalChannel = 15, zs_panId = 1,
    zs_networkAddress = 2, zs_numberSubDevices = 0, zs_totalGroupIds = 0\<rparr>"
  show ?thesis
    using touchlink_delivers_network_key [OF w, of "replicate 16 1" "replicate 16 5" 2 0 0 2 "0x12345678" 18 51
        "0xFFFF" 0 "0x1A62" 7 1 ?r 5 0 "0x1A62" 9 2
        "\<lparr>zj_transactionId = 0, zj_keyIndex = 4, zj_encryptedNetworkKey = [], zj_nwkUpdateId = 0, zj_logicalChannel = 15,
          zj_panId = 1, zj_networkAddress = 5\<rparr>" 5 0 "0x1A62" 7 3] by auto
qed

text \<open>C15: the software decryption inverts AES as FIPS-197 specifies it, for every key and block, so that the cipher
  is injective and its blocks decrypt on a device whose hardware cannot.\<close>

theorem aes_decrypt_inverts_fips:
  assumes "length key = 16" "length block = 16"
  shows "aes_decryptBlock key (fips_aes key block) = block"
  by (rule aes_decrypts [OF assms])

theorem aes_decrypt_inverts_fips_witness:
  "aes_decryptBlock (replicate 16 0) (fips_aes (replicate 16 0) (replicate 16 7)) = replicate 16 7"
  by (rule aes_decrypt_inverts_fips) simp_all

end
