(* ===== verification/ZbOta.thy ===== *)
theory ZbOta
  imports ZbPrelude
begin

text \<open>
  OTA upgrade: the commands of \<open>ZigbeeOtaCluster.h\<close>, and from \<open>CC2530_OtaUpgrade.ino\<close> the server's offer and the
  download loop, for any image, block size and current version of the client.

  A builder answers \<open>Some bs\<close>, \<open>None\<close> for 0; a parser \<open>Some x\<close> for true, \<open>None\<close> for false. Around both the outer
  \<open>None\<close> is an access outside a buffer. The loop is a partial function: \<open>None\<close> is a loop that does not end, or an
  access outside a buffer on the way.
\<close>

section \<open>The commands\<close>

abbreviation (input) "OTA_STATUS_SUCCESS \<equiv> 0x00 :: u8"
abbreviation (input) "OTA_STATUS_NO_IMAGE_AVAILABLE \<equiv> 0x98 :: u8"

record ota_image_id =
  oi_manufacturerCode :: u16
  oi_imageType :: u16
  oi_fileVersion :: u32

definition ota_id_bytes :: "ota_image_id \<Rightarrow> u8 list" where
  "ota_id_bytes img = le16 (oi_manufacturerCode img) @ le16 (oi_imageType img) @ le32 (oi_fileVersion img)"

definition ota_id_at :: "u8 list \<Rightarrow> nat \<Rightarrow> ota_image_id option" where
  "ota_id_at bs i = do {
     manufacturerCode \<leftarrow> rd16 bs i;
     imageType \<leftarrow> rd16 bs (i + 2);
     fileVersion \<leftarrow> rd32 bs (i + 4);
     Some \<lparr>oi_manufacturerCode = manufacturerCode, oi_imageType = imageType, oi_fileVersion = fileVersion\<rparr>
   }"

definition ota_buildQueryNextImageRequest :: "out_buf \<Rightarrow> ota_image_id \<Rightarrow> u8 list option" where
  "ota_buildQueryNextImageRequest out cur =
     (case out of None \<Rightarrow> None | Some outMax \<Rightarrow> if outMax < 9 then None else Some (0 # ota_id_bytes cur))"

definition ota_parseQueryNextImageRequest :: "ptr \<Rightarrow> ota_image_id option option" where
  "ota_parseQueryNextImageRequest p =
     (case p of None \<Rightarrow> Some None | Some bs \<Rightarrow>
        if length bs < 9 then Some None else do { cur \<leftarrow> ota_id_at bs 1; Some (Some cur) })"

definition ota_buildQueryNextImageResponse :: "out_buf \<Rightarrow> u8 \<Rightarrow> ota_image_id \<Rightarrow> u32 \<Rightarrow> u8 list option" where
  "ota_buildQueryNextImageResponse out status img imageSize =
     (case out of None \<Rightarrow> None | Some outMax \<Rightarrow>
        if status \<noteq> OTA_STATUS_SUCCESS then (if outMax < 1 then None else Some [status])
        else if outMax < 13 then None
        else Some (status # ota_id_bytes img @ le32 imageSize))"

text \<open>The image is answered only with status SUCCESS.\<close>

definition ota_parseQueryNextImageResponse :: "ptr \<Rightarrow> (u8 \<times> (ota_image_id \<times> u32) option) option option" where
  "ota_parseQueryNextImageResponse p =
     (case p of None \<Rightarrow> Some None | Some bs \<Rightarrow>
        if length bs < 1 then Some None
        else do {
          status \<leftarrow> rd8 bs 0;
          if status \<noteq> OTA_STATUS_SUCCESS then Some (Some (status, None))
          else if length bs < 13 then Some None
          else do {
            img \<leftarrow> ota_id_at bs 1;
            imageSize \<leftarrow> rd32 bs 9;
            Some (Some (status, Some (img, imageSize)))
          }
        })"

definition ota_buildImageBlockRequest :: "out_buf \<Rightarrow> ota_image_id \<Rightarrow> u32 \<Rightarrow> u8 \<Rightarrow> u8 list option" where
  "ota_buildImageBlockRequest out img fileOffset maxDataSize =
     (case out of None \<Rightarrow> None | Some outMax \<Rightarrow>
        if outMax < 14 then None else Some (0 # ota_id_bytes img @ le32 fileOffset @ [maxDataSize]))"

definition ota_parseImageBlockRequest :: "ptr \<Rightarrow> (ota_image_id \<times> u32 \<times> u8) option option" where
  "ota_parseImageBlockRequest p =
     (case p of None \<Rightarrow> Some None | Some bs \<Rightarrow>
        if length bs < 14 then Some None
        else do {
          img \<leftarrow> ota_id_at bs 1;
          fileOffset \<leftarrow> rd32 bs 9;
          maxDataSize \<leftarrow> rd8 bs 13;
          Some (Some (img, fileOffset, maxDataSize))
        })"

text \<open>\<open>data\<close> is the memory from the pointer on, of which \<open>dataSize\<close> bytes are sent.\<close>

definition ota_buildImageBlockResponse ::
  "out_buf \<Rightarrow> u8 \<Rightarrow> ota_image_id \<Rightarrow> u32 \<Rightarrow> u8 list \<Rightarrow> u8 \<Rightarrow> u8 list option option"
where
  "ota_buildImageBlockResponse out status img fileOffset data dataSize =
     (case out of None \<Rightarrow> Some None | Some outMax \<Rightarrow>
        if status \<noteq> OTA_STATUS_SUCCESS then Some (if outMax < 1 then None else Some [status])
        else
          let need = cast8 (14 + unat dataSize) in
          if outMax < need then Some None
          else if outMax < 14 + unat dataSize \<or> length data < unat dataSize then None
          else Some (Some (status # ota_id_bytes img @ le32 fileOffset @ [dataSize] @ take (unat dataSize) data)))"

text \<open>The parser answers the memory from \<open>data\<close> on and the claimed size; the caller reads it.\<close>

definition ota_parseImageBlockResponse :: "ptr \<Rightarrow> (u8 \<times> (ota_image_id \<times> u32 \<times> u8 list \<times> u8) option) option option" where
  "ota_parseImageBlockResponse p =
     (case p of None \<Rightarrow> Some None | Some bs \<Rightarrow>
        if length bs < 1 then Some None
        else do {
          status \<leftarrow> rd8 bs 0;
          if status \<noteq> OTA_STATUS_SUCCESS then Some (Some (status, None))
          else if length bs < 14 then Some None
          else do {
            img \<leftarrow> ota_id_at bs 1;
            fileOffset \<leftarrow> rd32 bs 9;
            dataSize \<leftarrow> rd8 bs 13;
            if length bs < cast8 (14 + unat dataSize) then Some None
            else Some (Some (status, Some (img, fileOffset, drop 14 bs, dataSize)))
          }
        })"

definition ota_buildUpgradeEndRequest :: "out_buf \<Rightarrow> u8 \<Rightarrow> ota_image_id \<Rightarrow> u8 list option" where
  "ota_buildUpgradeEndRequest out status img =
     (case out of None \<Rightarrow> None | Some outMax \<Rightarrow> if outMax < 9 then None else Some (status # ota_id_bytes img))"

definition ota_parseUpgradeEndRequest :: "ptr \<Rightarrow> (u8 \<times> ota_image_id) option option" where
  "ota_parseUpgradeEndRequest p =
     (case p of None \<Rightarrow> Some None | Some bs \<Rightarrow>
        if length bs < 9 then Some None
        else do { status \<leftarrow> rd8 bs 0; img \<leftarrow> ota_id_at bs 1; Some (Some (status, img)) })"

definition ota_buildUpgradeEndResponse :: "out_buf \<Rightarrow> ota_image_id \<Rightarrow> u32 \<Rightarrow> u32 \<Rightarrow> u8 list option" where
  "ota_buildUpgradeEndResponse out img currentTime upgradeTime =
     (case out of None \<Rightarrow> None | Some outMax \<Rightarrow>
        if outMax < 16 then None else Some (ota_id_bytes img @ le32 currentTime @ le32 upgradeTime))"

section \<open>The transfer\<close>

text \<open>\<open>testQuery\<close>: the server offers its image to a client with an older version.\<close>

definition ota_offer :: "ota_image_id \<Rightarrow> u32 \<Rightarrow> ptr \<Rightarrow> u8 list option option" where
  "ota_offer serverImg imgSize req = do {
     pcur \<leftarrow> ota_parseQueryNextImageRequest req;
     let newer = (case pcur of None \<Rightarrow> 0 | Some c \<Rightarrow> oi_fileVersion c) < oi_fileVersion serverImg;
     Some (ota_buildQueryNextImageResponse (Some 16)
       (if newer then OTA_STATUS_SUCCESS else OTA_STATUS_NO_IMAGE_AVAILABLE) serverImg imgSize)
   }"

text \<open>
  \<open>testBlockTransfer\<close>. \<open>ota_serve\<close> answers one block request, \<open>ota_store\<close> is the client's copy loop, one pass of
  \<open>ota_download\<close> is one pass of the while loop, which answers \<open>ok\<close>, the client's image and the block count.
\<close>

definition ota_serve :: "ota_image_id \<Rightarrow> u8 list \<Rightarrow> u32 \<Rightarrow> u8 \<Rightarrow> u8 list option option" where
  "ota_serve serverImg fw roff rmax =
     (let left = of_nat (length fw) - roff;
          dataSize = (if left < ucast rmax then ucast left else rmax)
      in if length fw < unat roff then None
         else ota_buildImageBlockResponse (Some 80) OTA_STATUS_SUCCESS serverImg roff (drop (unat roff) fw) dataSize)"

definition ota_store :: "u8 list \<Rightarrow> u32 \<Rightarrow> u8 list \<Rightarrow> u8 \<Rightarrow> u8 list option" where
  "ota_store client boff data dsz =
     (if unat boff + unat dsz \<le> length client \<and> unat dsz \<le> length data
      then Some (take (unat boff) client @ take (unat dsz) data @ drop (unat boff + unat dsz) client)
      else if dsz = 0 then Some client else None)"

text \<open>The answer of one pass: the next offset and image, or \<open>None\<close> for the two \<open>break\<close>s.\<close>

definition ota_block :: "ota_image_id \<Rightarrow> u8 list \<Rightarrow> u8 \<Rightarrow> u32 \<Rightarrow> u8 list \<Rightarrow> (u32 \<times> u8 list) option option" where
  "ota_block serverImg fw blockMax off client = do {
     r \<leftarrow> ota_parseImageBlockRequest (ota_buildImageBlockRequest (Some 16) serverImg off blockMax);
     case r of None \<Rightarrow> Some None
     | Some (rimg, roff, rmax) \<Rightarrow> do {
         rsp \<leftarrow> ota_serve serverImg fw roff rmax;
         b \<leftarrow> ota_parseImageBlockResponse (Some (case rsp of None \<Rightarrow> [] | Some bs \<Rightarrow> bs));
         case b of
           Some (status, Some (bimg, boff, data, dsz)) \<Rightarrow> do {
             client \<leftarrow> ota_store client boff data dsz;
             Some (Some (boff + ucast dsz, client))
           }
         | _ \<Rightarrow> Some None
       }
   }"

partial_function (option) ota_download ::
  "ota_image_id \<Rightarrow> u8 list \<Rightarrow> u8 \<Rightarrow> u32 \<Rightarrow> u8 list \<Rightarrow> u8 \<Rightarrow> (bool \<times> u8 list \<times> u8) option"
where
  "ota_download serverImg fw blockMax off client blocks =
     (if off < of_nat (length fw) then do {
        s \<leftarrow> ota_block serverImg fw blockMax off client;
        case s of None \<Rightarrow> Some (False, client, blocks)
        | Some (off, client) \<Rightarrow> ota_download serverImg fw blockMax off client (blocks + 1)
      }
      else Some (True, client, blocks))"

section \<open>Commands survive the wire\<close>

lemma length_ota_id_bytes [simp]: "length (ota_id_bytes img) = 8"
  by (simp add: ota_id_bytes_def)

lemma ota_id_read [simp]: "ota_id_at (x # ota_id_bytes img @ bs) (Suc 0) = Some img" "ota_id_at (x # ota_id_bytes img) (Suc 0) = Some img"
  by (simp_all add: ota_id_at_def ota_id_bytes_def wire_simps)

lemma ota_query_roundtrip:
  "9 \<le> m \<Longrightarrow> ota_parseQueryNextImageRequest (ota_buildQueryNextImageRequest (Some m) cur) = Some (Some cur)"
  by (simp add: ota_parseQueryNextImageRequest_def ota_buildQueryNextImageRequest_def)

lemma ota_end_roundtrip:
  "9 \<le> m \<Longrightarrow> ota_parseUpgradeEndRequest (ota_buildUpgradeEndRequest (Some m) st img) = Some (Some (st, img))"
  by (simp add: ota_parseUpgradeEndRequest_def ota_buildUpgradeEndRequest_def rd8_def)

lemma ota_answer_roundtrip:
  "13 \<le> m \<Longrightarrow> ota_parseQueryNextImageResponse (ota_buildQueryNextImageResponse (Some m) st img sz) =
     Some (Some (st, if st = OTA_STATUS_SUCCESS then Some (img, sz) else None))"
  by (auto simp: ota_parseQueryNextImageResponse_def ota_buildQueryNextImageResponse_def rd8_def wire_simps)

lemma ota_block_request_roundtrip:
  "14 \<le> m \<Longrightarrow> ota_parseImageBlockRequest (ota_buildImageBlockRequest (Some m) img off mx) = Some (Some (img, off, mx))"
  by (simp add: ota_parseImageBlockRequest_def ota_buildImageBlockRequest_def wire_simps)

lemma ota_block_response_roundtrip:
  assumes "14 + unat n \<le> m" "m < 256" "unat n \<le> length data"
  shows "\<exists>bs. ota_buildImageBlockResponse (Some m) OTA_STATUS_SUCCESS img off data n = Some (Some bs) \<and>
     ota_parseImageBlockResponse (Some bs) = Some (Some (OTA_STATUS_SUCCESS, Some (img, off, take (unat n) data, n)))"
  using assms by (simp add: ota_buildImageBlockResponse_def ota_parseImageBlockResponse_def rd8_0 wire_simps Let_def)

text \<open>A data size of 242 or more wraps the length both sides check.\<close>

lemma ota_block_builder_overflows:
  "length data = 242 \<Longrightarrow> ota_buildImageBlockResponse (Some 0) OTA_STATUS_SUCCESS img off data 242 = None"
  by (simp add: ota_buildImageBlockResponse_def Let_def cast8_def)

lemma ota_block_parser_wraps:
  "ota_parseImageBlockResponse (Some (OTA_STATUS_SUCCESS # ota_id_bytes img @ le32 off @ [242])) =
     Some (Some (OTA_STATUS_SUCCESS, Some (img, off, [], 242)))"
  by (simp add: ota_parseImageBlockResponse_def rd8_0 wire_simps Let_def cast8_def)


section \<open>The download\<close>

lemma ota_store_in:
  assumes "unat boff + unat dsz \<le> length client" "unat dsz \<le> length data"
  shows "ota_store client boff data dsz =
    Some (take (unat boff) client @ take (unat dsz) data @ drop (unat boff + unat dsz) client)"
  using assms by (simp add: ota_store_def)

text \<open>One pass at an offset inside the image copies one block and moves on by at least one byte.\<close>

lemma ota_block_copies:
  assumes "length fw < 65536" "unat off < length fw" "length client = length fw" "0 < blockMax" "blockMax \<le> 66"
  obtains n where "0 < n" "n \<le> 66" "n = min (unat blockMax) (length fw - unat off)"
    "ota_block img fw blockMax off client =
       Some (Some (off + of_nat n, take (unat off) client @ take n (drop (unat off) fw) @ drop (unat off + n) client))"
proof -
  define n where "n = min (unat blockMax) (length fw - unat off)"
  have b: "0 < unat blockMax" "unat blockMax \<le> 66" using assms(4,5) by (simp_all add: word_less_nat_alt word_le_nat_alt)
  then have n: "0 < n" "n \<le> 66" "unat off + n \<le> length fw" using assms(2) by (auto simp: n_def)
  have left: "unat (of_nat (length fw) - off) = length fw - unat off"
    using assms(1,2) by (simp add: unat_sub word_le_nat_alt unsigned_of_nat take_bit_nat_eq_self)
  define size where "size = (if of_nat (length fw) - off < ucast blockMax then ucast (of_nat (length fw) - off) else blockMax)"
  have u: "unat (ucast blockMax :: u32) = unat blockMax"
    unfolding unsigned_ucast_eq by (rule take_bit_nat_eq_self) (rule less_trans [OF u8_unat_lt], simp)
  have size: "unat size = n"
  proof (cases "of_nat (length fw) - off < (ucast blockMax :: u32)")
    case True
    then have "length fw - unat off < unat blockMax" by (simp add: word_less_nat_alt left u)
    then show ?thesis using True b by (simp add: size_def n_def unsigned_ucast_eq left take_bit_nat_eq_self)
  next
    case False
    then have "unat blockMax \<le> length fw - unat off" by (simp add: word_less_nat_alt left u not_less)
    then show ?thesis using False by (simp add: size_def n_def)
  qed
  obtain bs where bs: "ota_buildImageBlockResponse (Some 80) OTA_STATUS_SUCCESS img off (drop (unat off) fw) size = Some (Some bs)"
    "ota_parseImageBlockResponse (Some bs) =
       Some (Some (OTA_STATUS_SUCCESS, Some (img, off, take (unat size) (drop (unat off) fw), size)))"
    using ota_block_response_roundtrip [of size 80 "drop (unat off) fw" img off] n(2,3) by (auto simp: size le_diff_conv2)
  have "ota_serve img fw off blockMax = Some (Some bs)"
    using bs(1) assms(2) by (simp add: ota_serve_def size_def [symmetric] Let_def)
  moreover have "ota_store client off (take (unat size) (drop (unat off) fw)) size =
      Some (take (unat off) client @ take n (drop (unat off) fw) @ drop (unat off + n) client)"
    using n assms(3) by (simp add: ota_store_in size)
  moreover have "ucast size = (of_nat n :: u32)" unfolding size [symmetric] by simp
  ultimately have "ota_block img fw blockMax off client =
       Some (Some (off + of_nat n, take (unat off) client @ take n (drop (unat off) fw) @ drop (unat off + n) client))"
    using bs(2) by (simp add: ota_block_def ota_block_request_roundtrip)
  then show thesis using that n n_def by blast
qed

lemma ota_download_ends:
  assumes "length fw < 65536" "0 < blockMax" "blockMax \<le> 66" "length client = length fw" "unat off \<le> length fw"
    "take (unat off) client = take (unat off) fw"
  shows "ota_download img fw blockMax off client blocks =
    Some (True, fw, blocks + of_nat ((length fw - unat off + unat blockMax - 1) div unat blockMax))"
  using assms(4-)
proof (induction "length fw - unat off" arbitrary: off client blocks rule: less_induct)
  case less
  have b: "0 < unat blockMax" using assms(2) by (simp add: word_less_nat_alt)
  have lt: "off < of_nat (length fw) \<longleftrightarrow> unat off < length fw"
    using assms(1) by (simp add: word_less_nat_alt unsigned_of_nat take_bit_nat_eq_self)
  show ?case
  proof (cases "unat off < length fw")
    case False
    then have "unat off = length fw" using less.prems(2) by simp
    moreover have "client = fw" using less.prems \<open>unat off = length fw\<close> by simp
    moreover have "(unat blockMax - 1) div unat blockMax = 0" using b by simp
    ultimately show ?thesis using lt by (subst ota_download.simps) simp
  next
    case True
    obtain n where n: "0 < n" "n \<le> 66" "n = min (unat blockMax) (length fw - unat off)"
      "ota_block img fw blockMax off client =
         Some (Some (off + of_nat n, take (unat off) client @ take n (drop (unat off) fw) @ drop (unat off + n) client))"
      by (rule ota_block_copies [OF assms(1) True less.prems(1) assms(2,3)])
    let ?off = "off + of_nat n" let ?client = "take (unat off) client @ take n (drop (unat off) fw) @ drop (unat off + n) client"
    have le: "unat off + n \<le> length fw" using n(3) True by simp
    have u: "unat ?off = unat off + n"
      using le assms(1) by (subst unat_add_lem [THEN iffD1]) (simp_all add: unsigned_of_nat take_bit_nat_eq_self)
    have l: "length ?client = length fw" using le less.prems(1) by simp
    have t: "take (unat ?off) ?client = take (unat ?off) fw"
      using le less.prems(1,3) by (simp add: u take_add)
    have ih: "ota_download img fw blockMax ?off ?client (blocks + 1) =
        Some (True, fw, blocks + 1 + of_nat ((length fw - unat ?off + unat blockMax - 1) div unat blockMax))"
      by (rule less.hyps) (use u l t le n(1) True in simp_all)
    define left where "left = length fw - unat off"
    have d: "length fw - unat ?off = left - n" using u by (simp add: left_def)
    have m: "n = min (unat blockMax) left" "0 < left" using n(3) True by (simp_all add: left_def)
    have count: "(left + unat blockMax - 1) div unat blockMax = Suc ((left - n + unat blockMax - 1) div unat blockMax)"
    proof (cases "unat blockMax \<le> left")
      case whole: True
      then have "left + unat blockMax - 1 = (left - n + unat blockMax - 1) + unat blockMax" using m b by simp
      then show ?thesis using b div_add_self2 [of "unat blockMax" "left - n + unat blockMax - 1"] by (simp only:)
    next
      case last: False
      then have e: "left - n = 0" and f: "left + unat blockMax - 1 = left - 1 + unat blockMax" using m by simp_all
      have "(left - 1 + unat blockMax) div unat blockMax = Suc 0"
        using b last div_add_self2 [of "unat blockMax" "left - 1"] by simp
      moreover have "(0 + unat blockMax - 1) div unat blockMax = 0" using b by simp
      ultimately show ?thesis unfolding e f by (simp only:)
    qed
    show ?thesis
      unfolding left_def [symmetric] count using True lt n(4) ih [unfolded d]
      by (subst ota_download.simps) (simp add: add.assoc)
  qed
qed

text \<open>A block size of 0 is answered with empty blocks for ever.\<close>

lemma ota_block_empty:
  assumes "length fw < 65536" "unat off < length fw" "length client = length fw"
  shows "ota_block img fw 0 off client = Some (Some (off, client))"
proof -
  obtain bs where bs: "ota_buildImageBlockResponse (Some 80) OTA_STATUS_SUCCESS img off (drop (unat off) fw) 0 = Some (Some bs)"
    "ota_parseImageBlockResponse (Some bs) = Some (Some (OTA_STATUS_SUCCESS, Some (img, off, [], 0)))"
    using ota_block_response_roundtrip [of 0 80 "drop (unat off) fw" img off] by auto
  then show ?thesis using assms
    by (simp add: ota_block_def ota_block_request_roundtrip ota_serve_def ota_store_def)
qed


lemma ota_download_endless:
  assumes "length fw < 65536" "unat off < length fw" "length client = length fw"
  shows "ota_download img fw 0 off client blocks = None"
proof -
  have "\<not> (i = img \<and> f = fw \<and> b = 0 \<and> unat off < length fw \<and> length client = length fw)"
    if "ota_download i f b off client blocks = Some r" for i f b off client blocks r
  proof (rule ota_download.raw_induct [OF _ that, where P = "\<lambda>i f b off client blocks r.
      \<not> (i = img \<and> f = fw \<and> b = 0 \<and> unat off < length fw \<and> length client = length fw)"], goal_cases)
    case step: (1 download i f b off client blocks r)
    show ?case
    proof
      assume a: "i = img \<and> f = fw \<and> b = 0 \<and> unat off < length fw \<and> length client = length fw"
      then have "(off :: u32) < of_nat (length fw)"
        using assms(1) by (simp add: word_less_nat_alt unsigned_of_nat take_bit_nat_eq_self)
      then have "download img fw 0 off client (blocks + 1) = Some r"
        using step(2) a ota_block_empty [OF assms(1), of off client img] by simp
      then show False using step(1) a by blast
    qed
  qed
  then show ?thesis using assms by (cases "ota_download img fw 0 off client blocks") blast+
qed

text \<open>C16: the firmware upgrade terminates: the server offers its image to a client with an older version and to no
  other; for every image shorter than 65536 bytes and every block size that fits the buffers of the transfer, the
  download loop ends, after as many blocks as the image needs and without an access outside a buffer, with the
  server's image in the client whatever was there before; and the server reads the upgrade-end request as it was
  sent.\<close>

theorem ota_upgrade_completes:
  assumes "length fw < 65536" "0 < blockMax" "blockMax \<le> 66" "length client = length fw"
  shows "ota_offer img sz (ota_buildQueryNextImageRequest (Some 16) cur) =
      Some (ota_buildQueryNextImageResponse (Some 16)
        (if oi_fileVersion cur < oi_fileVersion img then OTA_STATUS_SUCCESS else OTA_STATUS_NO_IMAGE_AVAILABLE) img sz) \<and>
    ota_parseQueryNextImageResponse (ota_buildQueryNextImageResponse (Some 16)
        (if oi_fileVersion cur < oi_fileVersion img then OTA_STATUS_SUCCESS else OTA_STATUS_NO_IMAGE_AVAILABLE) img sz) =
      Some (Some (if oi_fileVersion cur < oi_fileVersion img then (OTA_STATUS_SUCCESS, Some (img, sz)) else (OTA_STATUS_NO_IMAGE_AVAILABLE, None))) \<and>
    ota_download img fw blockMax 0 client 0 =
      Some (True, fw, of_nat ((length fw + unat blockMax - 1) div unat blockMax)) \<and>
    ota_parseUpgradeEndRequest (ota_buildUpgradeEndRequest (Some 12) OTA_STATUS_SUCCESS img) = Some (Some (OTA_STATUS_SUCCESS, img))"
  using ota_download_ends [OF assms(1-4), of 0 img 0]
  by (simp add: ota_offer_def ota_query_roundtrip ota_answer_roundtrip ota_end_roundtrip)

theorem ota_upgrade_completes_witness:
  "ota_download \<lparr>oi_manufacturerCode = 0x1234, oi_imageType = 1, oi_fileVersion = 2\<rparr> (replicate 128 7) 50 0 (replicate 128 0) 0 =
     Some (True, replicate 128 7, 3)"
  using ota_upgrade_completes [of "replicate 128 7" 50 "replicate 128 0"
      "\<lparr>oi_manufacturerCode = 0x1234, oi_imageType = 1, oi_fileVersion = 2\<rparr>"] by simp

end
