(* ===== verification/ZbCommission.thy ===== *)
theory ZbCommission
  imports ZbGroups
begin

text \<open>
  Commissioning: \<open>ZigbeeBdb.h\<close> (the base device behavior machine that orders the steps) and
  \<open>ZigbeeFindingBinding.h\<close> (the bindings made from the clusters two devices share).
\<close>

section \<open>Base device behavior\<close>

abbreviation (input) "BDB_MODE_INITIATOR_TOUCHLINK \<equiv> 0x01 :: u8"
abbreviation (input) "BDB_MODE_NETWORK_STEERING \<equiv> 0x02 :: u8"
abbreviation (input) "BDB_MODE_NETWORK_FORMATION \<equiv> 0x04 :: u8"
abbreviation (input) "BDB_MODE_FINDING_BINDING \<equiv> 0x08 :: u8"

abbreviation (input) "BDB_STATUS_SUCCESS \<equiv> 0 :: u8"
abbreviation (input) "BDB_STATUS_IN_PROGRESS \<equiv> 1 :: u8"

datatype bdb_state = BDB_IDLE | BDB_IN_PROGRESS_STATE | BDB_DONE

record bdb =
  bb_pending :: u8
  bb_current :: u8
  bb_state :: bdb_state
  bb_lastStatus :: u8

definition bdb0 :: bdb where
  "bdb0 = \<lparr>bb_pending = 0, bb_current = 0, bb_state = BDB_IDLE, bb_lastStatus = BDB_STATUS_SUCCESS\<rparr>"

definition bdb_order :: "u8 list" where
  "bdb_order = [BDB_MODE_INITIATOR_TOUCHLINK, BDB_MODE_NETWORK_STEERING, BDB_MODE_NETWORK_FORMATION, BDB_MODE_FINDING_BINDING]"

definition bdb_advance :: "bdb \<Rightarrow> bdb" where
  "bdb_advance b =
     (case find_idx (\<lambda>m. bb_pending b AND m \<noteq> 0) bdb_order of
        Some i \<Rightarrow> b\<lparr>bb_current := bdb_order ! i, bb_state := BDB_IN_PROGRESS_STATE\<rparr>
      | None \<Rightarrow> b\<lparr>bb_current := 0, bb_state := BDB_DONE\<rparr>)"

definition bdb_start :: "bdb \<Rightarrow> u8 \<Rightarrow> bdb \<times> u8" where
  "bdb_start b modes =
     (let b = bdb_advance (b\<lparr>bb_pending := modes, bb_lastStatus := BDB_STATUS_SUCCESS,
            bb_state := (if modes \<noteq> 0 then BDB_IN_PROGRESS_STATE else BDB_DONE)\<rparr>)
      in (b, bb_current b))"

definition bdb_networkStep :: "u8 \<Rightarrow> bool" where
  "bdb_networkStep finished \<longleftrightarrow> finished = BDB_MODE_NETWORK_STEERING \<or> finished = BDB_MODE_NETWORK_FORMATION"

definition bdb_reportResult :: "bdb \<Rightarrow> u8 \<Rightarrow> bdb \<times> u8" where
  "bdb_reportResult b status =
     (let finished = bb_current b;
          b = b\<lparr>bb_lastStatus := status, bb_pending := bb_pending b AND NOT finished\<rparr>
      in if status \<noteq> BDB_STATUS_SUCCESS \<and> bdb_networkStep finished
         then (b\<lparr>bb_pending := 0, bb_current := 0, bb_state := BDB_DONE\<rparr>, 0)
         else let b = bdb_advance b in (b, bb_current b))"

definition bdb_isActive :: "bdb \<Rightarrow> bool" where
  "bdb_isActive b \<longleftrightarrow> bb_state b = BDB_IN_PROGRESS_STATE"

definition bdb_overallStatus :: "bdb \<Rightarrow> u8" where
  "bdb_overallStatus b = (if bb_state b \<noteq> BDB_DONE then BDB_STATUS_IN_PROGRESS else bb_lastStatus b)"

section \<open>Finding and binding\<close>

text \<open>\<open>matchClusters\<close>: the outer loop with the array \<open>matched\<close> so far; the inner loop stops at the first equal id.\<close>

fun fb_matchLoop :: "u16 list \<Rightarrow> u16 list \<Rightarrow> nat \<Rightarrow> u16 list \<Rightarrow> u16 list" where
  "fb_matchLoop [] ins maxMatched matched = matched"
| "fb_matchLoop (c # outs) ins maxMatched matched =
     (if length matched < maxMatched then
        fb_matchLoop outs ins maxMatched
          (if find_idx (\<lambda>t. c = t) ins \<noteq> None \<and> find_idx (\<lambda>m. m = c) matched = None then matched @ [c] else matched)
      else matched)"

definition fb_matchClusters :: "u16 list \<Rightarrow> u16 list \<Rightarrow> nat \<Rightarrow> u16 list" where
  "fb_matchClusters outs ins maxMatched = fb_matchLoop outs ins maxMatched []"

definition fb_binding :: "u64 \<Rightarrow> u8 \<Rightarrow> u16 \<Rightarrow> u64 \<Rightarrow> u8 \<Rightarrow> binding" where
  "fb_binding srcIeee srcEndpoint cluster targetIeee targetEndpoint =
     \<lparr>bd_used = True, bd_srcIeee = srcIeee, bd_srcEndpoint = srcEndpoint, bd_clusterId = cluster,
      bd_dstAddrMode = ZB_BIND_ADDR_IEEE, bd_dstGroup = 0, bd_dstIeee = targetIeee, bd_dstEndpoint = targetEndpoint\<rparr>"

fun fb_createBindings :: "binding_table \<Rightarrow> u64 \<Rightarrow> u8 \<Rightarrow> u16 list \<Rightarrow> u64 \<Rightarrow> u8 \<Rightarrow> binding_table \<times> nat" where
  "fb_createBindings t srcIeee srcEndpoint [] targetIeee targetEndpoint = (t, 0)"
| "fb_createBindings t srcIeee srcEndpoint (c # matched) targetIeee targetEndpoint =
     (let (t, ok) = bd_add t (fb_binding srcIeee srcEndpoint c targetIeee targetEndpoint);
          (t, added) = fb_createBindings t srcIeee srcEndpoint matched targetIeee targetEndpoint
      in (t, if ok then Suc added else added))"

definition fb_bindMatching ::
  "binding_table \<Rightarrow> u64 \<Rightarrow> u8 \<Rightarrow> u16 list \<Rightarrow> u64 \<Rightarrow> u8 \<Rightarrow> u16 list \<Rightarrow> binding_table \<times> nat"
where
  "fb_bindMatching t srcIeee srcEndpoint outs targetIeee targetEndpoint ins =
     fb_createBindings t srcIeee srcEndpoint (fb_matchClusters outs ins 16) targetIeee targetEndpoint"

section \<open>The order of commissioning\<close>

text \<open>A host that executes each mode it is told, with the outcome \<open>res\<close> of that mode; the modes it executed.\<close>

fun bdb_host :: "nat \<Rightarrow> (u8 \<Rightarrow> u8) \<Rightarrow> bdb \<times> u8 \<Rightarrow> (u8 list \<times> bdb) option" where
  "bdb_host 0 res (b, mode) = None"
| "bdb_host (Suc n) res (b, mode) =
     (if mode = 0 then Some ([], b)
      else map_option (\<lambda>(ms, b). (mode # ms, b)) (bdb_host n res (bdb_reportResult b (res mode))))"

text \<open>The specification: the requested modes in their order, up to the first network step that fails.\<close>

fun bdb_plan :: "(u8 \<Rightarrow> u8) \<Rightarrow> u8 list \<Rightarrow> u8 list" where
  "bdb_plan res [] = []"
| "bdb_plan res (m # ms) = m # (if res m \<noteq> BDB_STATUS_SUCCESS \<and> bdb_networkStep m then [] else bdb_plan res ms)"

lemma bdb_mode_bits:
  "w AND 1 = 0 \<longleftrightarrow> \<not> bit w 0" "w AND 2 = 0 \<longleftrightarrow> \<not> bit w 1" "w AND 4 = 0 \<longleftrightarrow> \<not> bit w 2" "w AND 8 = 0 \<longleftrightarrow> \<not> bit w 3" for w :: u8
  using and_exp_eq_0_iff_not_bit [of w 0] and_exp_eq_0_iff_not_bit [of w 1] and_exp_eq_0_iff_not_bit [of w 2]
    and_exp_eq_0_iff_not_bit [of w 3] by simp_all

definition bdb_wants :: "u8 \<Rightarrow> u8 list" where
  "bdb_wants w = filter (\<lambda>m. w AND m \<noteq> 0) bdb_order"

lemma bdb_advance_wants:
  "bdb_advance b = (case bdb_wants (bb_pending b) of
      m # _ \<Rightarrow> b\<lparr>bb_current := m, bb_state := BDB_IN_PROGRESS_STATE\<rparr>
    | [] \<Rightarrow> b\<lparr>bb_current := 0, bb_state := BDB_DONE\<rparr>)"
  by (simp add: bdb_advance_def bdb_wants_def bdb_order_def)

lemma bdb_wants_next:
  assumes "bdb_wants w = m # ms"
  shows "bdb_wants (w AND NOT m) = ms" "m \<noteq> 0" "m \<in> set bdb_order"
  using assms
  by (auto simp: bdb_wants_def bdb_order_def bdb_mode_bits and.assoc split: if_splits)


lemma bdb_host_runs:
  assumes "bb_lastStatus b = st" "length (bdb_wants (bb_pending b)) < n"
  shows "\<exists>b'. bdb_host n res (bdb_advance b, bb_current (bdb_advance b)) = Some (bdb_plan res (bdb_wants (bb_pending b)), b') \<and>
     bb_state b' = BDB_DONE \<and> bb_current b' = 0 \<and>
     bb_lastStatus b' = (if bdb_wants (bb_pending b) = [] then st else res (last (bdb_plan res (bdb_wants (bb_pending b)))))"
  using assms
proof (induction n arbitrary: b st)
  case (Suc n)
  show ?case
  proof (cases "bdb_wants (bb_pending b)")
    case Nil
    then show ?thesis using Suc.prems by (simp add: bdb_advance_wants)
  next
    case (Cons m ms)
    note next' = bdb_wants_next [OF Cons]
    let ?b = "b\<lparr>bb_current := m, bb_state := BDB_IN_PROGRESS_STATE, bb_lastStatus := res m, bb_pending := bb_pending b AND NOT m\<rparr>"
    show ?thesis
    proof (cases "res m \<noteq> BDB_STATUS_SUCCESS \<and> bdb_networkStep m")
      case True
      then obtain k where "n = Suc k" using Suc.prems(2) Cons by (cases n) simp_all
      then show ?thesis using True Cons next'(2) by (simp add: bdb_advance_wants bdb_reportResult_def Let_def)
    next
      case False
      then have r: "bdb_reportResult (b\<lparr>bb_current := m, bb_state := BDB_IN_PROGRESS_STATE\<rparr>) (res m) = (bdb_advance ?b, bb_current (bdb_advance ?b))"
        by (auto simp: bdb_reportResult_def Let_def)
      have "length (bdb_wants (bb_pending ?b)) < n" using Suc.prems(2) Cons next'(1) by simp
      from Suc.IH [OF _ this, of "res m"] show ?thesis
        using False Cons next' r by (cases ms) (auto simp: bdb_advance_wants [of b])
    qed
  qed
qed simp

section \<open>What finding and binding binds\<close>

lemma fb_matchLoop_matches:
  assumes "distinct matched" "set matched \<subseteq> set ins" "card (set matched \<union> set outs \<inter> set ins) \<le> mx"
  shows "distinct (fb_matchLoop outs ins mx matched)"
    "set (fb_matchLoop outs ins mx matched) = set matched \<union> set outs \<inter> set ins"
proof -
  have "distinct (fb_matchLoop outs ins mx matched) \<and> set (fb_matchLoop outs ins mx matched) = set matched \<union> set outs \<inter> set ins"
    using assms
  proof (induction outs arbitrary: matched)
    case (Cons c outs)
    have f: "find_idx (\<lambda>t. c = t) ins \<noteq> None \<longleftrightarrow> c \<in> set ins" "find_idx (\<lambda>m. m = c) matched = None \<longleftrightarrow> c \<notin> set matched"
      by (auto simp: find_idx_None)
    let ?m = "if c \<in> set ins \<and> c \<notin> set matched then matched @ [c] else matched"
    have s: "set ?m \<union> set outs \<inter> set ins = set matched \<union> set (c # outs) \<inter> set ins" using Cons.prems(2) by auto
    show ?case
    proof (cases "length matched < mx")
      case True
      have "distinct (fb_matchLoop outs ins mx ?m) \<and> set (fb_matchLoop outs ins mx ?m) = set ?m \<union> set outs \<inter> set ins"
        by (rule Cons.IH) (use Cons.prems s in auto)
      then show ?thesis using True s f by simp
    next
      case False
      then have "card (set matched) \<ge> mx" using Cons.prems(1) by (simp add: distinct_card)
      moreover have "finite (set matched \<union> set (c # outs) \<inter> set ins)" by simp
      ultimately have "set matched = set matched \<union> set (c # outs) \<inter> set ins"
        using Cons.prems(3) by (intro card_seteq) auto
      then show ?thesis using False Cons.prems(1) by simp
    qed
  qed auto
  then show "distinct (fb_matchLoop outs ins mx matched)"
    "set (fb_matchLoop outs ins mx matched) = set matched \<union> set outs \<inter> set ins" by simp_all
qed

text \<open>The bindings a table holds, as a set.\<close>

definition bd_keys :: "binding list \<Rightarrow> (u8 \<times> u16 \<times> u8 \<times> (u16 + u64 \<times> u8)) set" where
  "bd_keys es = bd_key ` {e \<in> set es. bd_used e}"

lemma bd_keys_find: "bd_find (Some es) b = None \<longleftrightarrow> bd_key b \<notin> bd_keys es"
proof -
  have "bd_find (Some es) b = None \<longleftrightarrow> (\<forall>e\<in>set es. \<not> (bd_used e \<and> bd_key e = bd_key b))"
    by (auto simp: bd_find_def find_idx_None bd_same_key)
  then show ?thesis by (auto simp: bd_keys_def image_iff)
qed

lemma bd_add_keys:
  assumes "bd_used b" "slot_uniq bd_used bd_key es" "used_count bd_used es < length es \<or> bd_key b \<in> bd_keys es"
  obtains es' where "bd_add (Some es) b = (Some es', True)" "bd_keys es' = insert (bd_key b) (bd_keys es)" "length es' = length es"
    "slot_uniq bd_used bd_key es'" "used_count bd_used es' \<le> Suc (used_count bd_used es)"
proof (cases "bd_key b \<in> bd_keys es")
  case True
  then show ?thesis using that [of es] assms(2) by (auto simp: bd_add_def bd_keys_find)
next
  case False
  have "\<exists>e\<in>set es. \<not> bd_used e"
    using assms(3) False by (auto simp: used_count_def) (metis filter_True less_irrefl)
  then obtain i where i: "find_idx (\<lambda>e. \<not> bd_used e) es = Some i"
    by (cases "find_idx (\<lambda>e. \<not> bd_used e) es") (auto simp: find_idx_None)
  have b: "b\<lparr>bd_used := True\<rparr> = b" using assms(1) by simp
  have l: "i < length es" "\<not> bd_used (es ! i)" using find_idx_bound [OF i] find_idx_sat [OF i] by auto
  let ?es = "es[i := b]"
  have a: "bd_add (Some es) b = (Some ?es, True)" using False i b by (simp add: bd_add_def bd_keys_find)
  have "bd_keys ?es = insert (bd_key b) (bd_keys es)"
    using l assms(1) by (auto simp: bd_keys_def set_conv_nth nth_list_update image_iff)
  moreover have "slot_uniq bd_used bd_key ?es" using bd_add_uniq [OF assms(2), of b] a by simp
  moreover have "used_count bd_used ?es \<le> Suc (used_count bd_used es)"
    using used_count_update [OF l(1), of bd_used b] by (simp add: of_bool_def split: if_splits)
  ultimately show ?thesis using that a by simp
qed

lemma fb_createBindings_keys:
  assumes "slot_uniq bd_used bd_key es" "used_count bd_used es + length cs \<le> length es"
  obtains es' where "fb_createBindings (Some es) si se cs ti te = (Some es', length cs)"
    "bd_keys es' = bd_keys es \<union> (\<lambda>c. bd_key (fb_binding si se c ti te)) ` set cs" "slot_uniq bd_used bd_key es'" "length es' = length es"
  using assms
proof (induction cs arbitrary: es thesis)
  case (Cons c cs)
  obtain es1 where a: "bd_add (Some es) (fb_binding si se c ti te) = (Some es1, True)"
    "bd_keys es1 = insert (bd_key (fb_binding si se c ti te)) (bd_keys es)" "length es1 = length es"
    "slot_uniq bd_used bd_key es1" "used_count bd_used es1 \<le> Suc (used_count bd_used es)"
    by (rule bd_add_keys [OF _ Cons.prems(2), of "fb_binding si se c ti te"]) (use Cons.prems(3) in \<open>auto simp: fb_binding_def\<close>)
  obtain es2 where b: "fb_createBindings (Some es1) si se cs ti te = (Some es2, length cs)"
    "bd_keys es2 = bd_keys es1 \<union> (\<lambda>c. bd_key (fb_binding si se c ti te)) ` set cs" "slot_uniq bd_used bd_key es2" "length es2 = length es1"
    by (rule Cons.IH [OF _ a(4)]) (use Cons.prems(3) a(3,5) in auto)
  show ?case by (rule Cons.prems(1) [of es2]) (use a b in auto)
qed (auto simp: image_def)

lemma fb_createBindings_again:
  "\<forall>c\<in>set cs. bd_key (fb_binding si se c ti te) \<in> bd_keys es \<Longrightarrow>
    fb_createBindings (Some es) si se cs ti te = (Some es, length cs)"
  by (induction cs) (auto simp: bd_add_def bd_keys_find)

text \<open>C17: commissioning: whatever modes an application requests, a host that executes what the machine tells it comes
  to an end after at most four steps; it executes exactly the requested modes, each once and in the order touchlink,
  steering, formation, finding and binding, and stops after the first network step that fails; the machine is then
  done, and its overall status is the outcome of the last mode executed, success when none was.\<close>

theorem bdb_commissions_in_order:
  "\<exists>b'. bdb_host 5 res (bdb_start b modes) = Some (bdb_plan res (filter (\<lambda>m. modes AND m \<noteq> 0) bdb_order), b') \<and>
     bb_state b' = BDB_DONE \<and> bb_current b' = 0 \<and>
     bdb_overallStatus b' =
       (if bdb_plan res (filter (\<lambda>m. modes AND m \<noteq> 0) bdb_order) = [] then BDB_STATUS_SUCCESS
        else res (last (bdb_plan res (filter (\<lambda>m. modes AND m \<noteq> 0) bdb_order))))"
proof -
  let ?b = "b\<lparr>bb_pending := modes, bb_lastStatus := BDB_STATUS_SUCCESS,
    bb_state := (if modes \<noteq> 0 then BDB_IN_PROGRESS_STATE else BDB_DONE)\<rparr>"
  have "length (bdb_wants modes) < 5"
    using length_filter_le [of "\<lambda>m. modes AND m \<noteq> 0" bdb_order] by (simp add: bdb_wants_def bdb_order_def)
  then have "length (bdb_wants (bb_pending ?b)) < 5" by simp
  from bdb_host_runs [OF refl this, of res] obtain b' where
    h: "bdb_host 5 res (bdb_advance ?b, bb_current (bdb_advance ?b)) = Some (bdb_plan res (bdb_wants modes), b')"
    "bb_state b' = BDB_DONE" "bb_current b' = 0"
    "bb_lastStatus b' = (if bdb_wants modes = [] then BDB_STATUS_SUCCESS else res (last (bdb_plan res (bdb_wants modes))))"
    by auto
  have "bdb_start b modes = (bdb_advance ?b, bb_current (bdb_advance ?b))"
    unfolding bdb_start_def Let_def by (rule refl)
  moreover have "bdb_plan res (bdb_wants modes) = [] \<longleftrightarrow> bdb_wants modes = []"
    by (cases "bdb_wants modes") simp_all
  ultimately show ?thesis unfolding bdb_wants_def [symmetric] using h by (simp only: bdb_overallStatus_def) simp
qed

text \<open>C18: finding and binding: between an initiator and a target that share at most sixteen clusters, with room in the
  table, the call answers the number of shared clusters and adds exactly the bindings from the initiator's endpoint
  to the target for the initiator's output clusters that the target has as input clusters, each once, and keeps every
  other binding; a second call answers the same and changes nothing.\<close>

theorem finding_binding_binds_matching:
  assumes "slot_uniq bd_used bd_key es" "card (set outs \<inter> set ins) \<le> 16"
    "used_count bd_used es + card (set outs \<inter> set ins) \<le> length es"
  shows "\<exists>es'. fb_bindMatching (Some es) si se outs ti te ins = (Some es', card (set outs \<inter> set ins)) \<and>
    slot_uniq bd_used bd_key es' \<and> length es' = length es \<and>
    bd_keys es' = bd_keys es \<union> {(se, c, ZB_BIND_ADDR_IEEE, Inr (ti, te)) | c. c \<in> set outs \<and> c \<in> set ins} \<and>
    fb_bindMatching (Some es') si se outs ti te ins = (Some es', card (set outs \<inter> set ins))"
proof -
  let ?cs = "fb_matchClusters outs ins 16"
  have m: "distinct ?cs" "set ?cs = set outs \<inter> set ins"
    using fb_matchLoop_matches [of "[]" ins outs 16] assms(2) by (simp_all add: fb_matchClusters_def)
  then have l: "length ?cs = card (set outs \<inter> set ins)" by (metis distinct_card)
  have k: "bd_key (fb_binding si se c ti te) = (se, c, ZB_BIND_ADDR_IEEE, Inr (ti, te))" for c
    by (simp add: fb_binding_def bd_key_def)
  obtain es' where "fb_createBindings (Some es) si se ?cs ti te = (Some es', length ?cs)"
    "bd_keys es' = bd_keys es \<union> (\<lambda>c. bd_key (fb_binding si se c ti te)) ` set ?cs" "slot_uniq bd_used bd_key es'" "length es' = length es"
    by (rule fb_createBindings_keys [OF assms(1), of ?cs si se ti te]) (use assms(3) l in auto)
  moreover from this have "fb_createBindings (Some es') si se ?cs ti te = (Some es', length ?cs)"
    by (intro fb_createBindings_again) auto
  ultimately show ?thesis unfolding fb_bindMatching_def l m(2) k by auto
qed

theorem finding_binding_binds_matching_witness:
  "\<exists>es'. fb_bindMatching (Some (replicate 4 binding0)) 1 1 [6, 8] 0x31 3 [6, 8, 0] = (Some es', 2) \<and>
     bd_keys es' = {(1, 6, 3, Inr (0x31, 3)), (1, 8, 3, Inr (0x31, 3))}"
proof -
  have c: "set [6, 8] \<inter> set [6, 8, 0] = {6, 8 :: u16}" by auto
  have u: "slot_uniq bd_used bd_key (replicate 4 binding0)" by simp
  have n: "bd_keys (replicate 4 binding0) = {}" by (auto simp: bd_keys_def binding0_def)
  have r: "used_count bd_used (replicate 4 binding0) = 0" by (simp add: binding0_def)
  from finding_binding_binds_matching [OF u, of "[6, 8]" "[6, 8, 0]" 1 1 "0x31" 3] show ?thesis
    unfolding c r by (auto simp: n)
qed

end
