(* ===== verification/ZbLight.thy ===== *)
theory ZbLight
  imports ZbGroups ZbZcl
begin

text \<open>
  The light: \<open>ZigbeeGroupsCluster.h\<close>, \<open>ZigbeeScenesCluster.h\<close>, \<open>ZigbeeLevelControlCluster.h\<close>,
  \<open>ZigbeeColorControlCluster.h\<close>, \<open>ZigbeeIdentifyCluster.h\<close> and \<open>ZigbeeLight.h\<close>, which puts them together.

  A payload is the list of its bytes. A builder answers \<open>Some bs\<close>, \<open>None\<close> for 0. Where a length computed in eight
  bits can wrap, and where a command reads its payload, the outer \<open>None\<close> is an access outside a buffer.
\<close>

section \<open>Groups cluster\<close>

abbreviation (input) "GROUPS_CMD_ADD \<equiv> (0x00 :: u8)"
abbreviation (input) "GROUPS_CMD_GET_MEMBERSHIP \<equiv> (0x02 :: u8)"
abbreviation (input) "GROUPS_CMD_REMOVE \<equiv> (0x03 :: u8)"
abbreviation (input) "GROUPS_CMD_REMOVE_ALL \<equiv> (0x04 :: u8)"
abbreviation (input) "GROUPS_CMD_ADD_IF_IDENTIFYING \<equiv> (0x05 :: u8)"
abbreviation (input) "GROUPS_STATUS_SUCCESS \<equiv> (0x00 :: u8)"
abbreviation (input) "GROUPS_STATUS_INSUFFICIENT_SPACE \<equiv> (0x89 :: u8)"
abbreviation (input) "GROUPS_STATUS_DUPLICATE_EXISTS \<equiv> (0x8A :: u8)"
abbreviation (input) "GROUPS_STATUS_NOT_FOUND \<equiv> (0x8B :: u8)"

definition gcl_buildAddGroup :: "out_buf \<Rightarrow> u16 \<Rightarrow> u8 list option" where
  "gcl_buildAddGroup out groupId =
     (case out of None \<Rightarrow> None | Some outMax \<Rightarrow> if outMax < 3 then None else Some (le16 groupId @ [0]))"

definition gcl_buildGroupId :: "out_buf \<Rightarrow> u16 \<Rightarrow> u8 list option" where
  "gcl_buildGroupId out groupId =
     (case out of None \<Rightarrow> None | Some outMax \<Rightarrow> if outMax < 2 then None else Some (le16 groupId))"

definition gcl_buildGetMembership :: "out_buf \<Rightarrow> u16 list \<Rightarrow> u8 list option option" where
  "gcl_buildGetMembership out groups =
     (let need = cast8 (1 + length groups * 2) in
      case out of None \<Rightarrow> Some None | Some outMax \<Rightarrow>
        if outMax < need then Some None
        else if outMax < 1 + length groups * 2 then None
        else Some (Some (of_nat (length groups) # concat (map le16 groups))))"

definition gcl_buildStatusResponse :: "out_buf \<Rightarrow> u8 \<Rightarrow> u16 \<Rightarrow> u8 list option" where
  "gcl_buildStatusResponse out status groupId =
     (case out of None \<Rightarrow> None | Some outMax \<Rightarrow> if outMax < 3 then None else Some (status # le16 groupId))"

definition gcl_buildMembershipResponse :: "out_buf \<Rightarrow> u8 \<Rightarrow> u16 list \<Rightarrow> u8 list option option" where
  "gcl_buildMembershipResponse out capacity groups =
     (let need = cast8 (2 + length groups * 2) in
      case out of None \<Rightarrow> Some None | Some outMax \<Rightarrow>
        if outMax < need then Some None
        else if outMax < 2 + length groups * 2 then None
        else Some (Some ([capacity, of_nat (length groups)] @ concat (map le16 groups))))"

text \<open>The loop over the requested groups: passes still to do, the counter \<open>i\<close>, and \<open>mine\<close> so far.\<close>

fun gcl_wanted :: "group_table \<Rightarrow> u8 list \<Rightarrow> nat \<Rightarrow> nat \<Rightarrow> u16 list \<Rightarrow> u16 list option" where
  "gcl_wanted t payload 0 i mine = Some mine"
| "gcl_wanted t payload (Suc n) i mine =
     (let off = cast8 (1 + i * 2) in
      if length payload < cast8 (off + 2) then Some mine
      else do {
        g \<leftarrow> rd16 payload off;
        gcl_wanted t payload n (Suc i) (if gt_isMember t g \<and> length mine < 16 then mine @ [g] else mine)
      })"

text \<open>\<open>handle\<close> answers the table, \<open>respCmdId\<close> and the response.\<close>

definition gcl_handle ::
  "group_table \<Rightarrow> u8 \<Rightarrow> u8 list \<Rightarrow> u8 \<Rightarrow> out_buf \<Rightarrow> (group_table \<times> u8 \<times> u8 list option) option"
where
  "gcl_handle t commandId payload respCmdId resp =
     (if commandId = GROUPS_CMD_ADD \<or> commandId = GROUPS_CMD_ADD_IF_IDENTIFYING then
        if length payload < 2 then Some (t, respCmdId, None)
        else do {
          g \<leftarrow> rd16 payload 0;
          let (t', status) = (if gt_isMember t g then (t, GROUPS_STATUS_DUPLICATE_EXISTS)
                              else case gt_add t g of (t', ok) \<Rightarrow>
                                (t', if ok then GROUPS_STATUS_SUCCESS else GROUPS_STATUS_INSUFFICIENT_SPACE));
          Some (t', GROUPS_CMD_ADD, gcl_buildStatusResponse resp status g)
        }
      else if commandId = GROUPS_CMD_REMOVE then
        if length payload < 2 then Some (t, respCmdId, None)
        else do {
          g \<leftarrow> rd16 payload 0;
          let (t', ok) = gt_remove t g;
          Some (t', GROUPS_CMD_REMOVE,
                gcl_buildStatusResponse resp (if ok then GROUPS_STATUS_SUCCESS else GROUPS_STATUS_NOT_FOUND) g)
        }
      else if commandId = GROUPS_CMD_REMOVE_ALL then Some (gt_clear t, respCmdId, None)
      else if commandId = GROUPS_CMD_GET_MEMBERSHIP then
        if length payload < 1 then Some (t, respCmdId, None)
        else do {
          reqCount \<leftarrow> rd8 payload 0;
          mine \<leftarrow> (if reqCount = 0 then Some (map (gt_at t) [0..<min (gt_count t) 16])
                   else gcl_wanted t payload (unat reqCount) 0 []);
          r \<leftarrow> gcl_buildMembershipResponse resp (of_nat (gt_capacity t) - of_nat (gt_count t)) mine;
          Some (t, GROUPS_CMD_GET_MEMBERSHIP, r)
        }
      else Some (t, respCmdId, None))"

section \<open>Scenes cluster\<close>

record scene_entry =
  sn_used :: bool
  sn_groupId :: u16
  sn_sceneId :: u8
  sn_onOff :: bool
  sn_level :: u8

definition scene0 :: scene_entry where
  "scene0 = \<lparr>sn_used = False, sn_groupId = 0, sn_sceneId = 0, sn_onOff = False, sn_level = 0\<rparr>"

type_synonym scene_table = "scene_entry list option"

definition scn_begin :: "scene_table \<Rightarrow> scene_table" where
  "scn_begin storage = map_option (map (\<lambda>_. scene0)) storage"

definition scn_find :: "scene_table \<Rightarrow> u16 \<Rightarrow> u8 \<Rightarrow> nat option" where
  "scn_find t grp scene =
     (case t of None \<Rightarrow> None
      | Some es \<Rightarrow> find_idx (\<lambda>e. sn_used e \<and> sn_groupId e = grp \<and> sn_sceneId e = scene) es)"

definition scn_firstFree :: "scene_table \<Rightarrow> nat option" where
  "scn_firstFree t = (case t of None \<Rightarrow> None | Some es \<Rightarrow> find_idx (\<lambda>e. \<not> sn_used e) es)"

definition scn_store :: "scene_table \<Rightarrow> u16 \<Rightarrow> u8 \<Rightarrow> bool \<Rightarrow> u8 \<Rightarrow> scene_table \<times> bool" where
  "scn_store t grp scene onOff level =
     (case or_else (scn_find t grp scene) (scn_firstFree t) of None \<Rightarrow> (t, False)
      | Some i \<Rightarrow> (map_option (\<lambda>es. es[i := \<lparr>sn_used = True, sn_groupId = grp, sn_sceneId = scene, sn_onOff = onOff,
                    sn_level = level\<rparr>]) t, True))"

definition scn_recall :: "scene_table \<Rightarrow> u16 \<Rightarrow> u8 \<Rightarrow> (bool \<times> u8) option" where
  "scn_recall t grp scene = map_option (\<lambda>i. (sn_onOff (the t ! i), sn_level (the t ! i))) (scn_find t grp scene)"

definition scn_has :: "scene_table \<Rightarrow> u16 \<Rightarrow> u8 \<Rightarrow> bool" where
  "scn_has t grp scene \<longleftrightarrow> scn_find t grp scene \<noteq> None"

definition scn_remove :: "scene_table \<Rightarrow> u16 \<Rightarrow> u8 \<Rightarrow> scene_table \<times> bool" where
  "scn_remove t grp scene =
     (case scn_find t grp scene of None \<Rightarrow> (t, False)
      | Some i \<Rightarrow> (map_option (\<lambda>es. es[i := scene0]) t, True))"

definition scn_removeAllForGroup :: "scene_table \<Rightarrow> u16 \<Rightarrow> scene_table \<times> nat" where
  "scn_removeAllForGroup t grp =
     (map_option (sweep (\<lambda>e. sn_used e \<and> sn_groupId e = grp) scene0) t,
      case t of None \<Rightarrow> 0 | Some es \<Rightarrow> length (filter (\<lambda>e. sn_used e \<and> sn_groupId e = grp) es))"

definition scn_scenesForGroup :: "scene_table \<Rightarrow> u16 \<Rightarrow> nat \<Rightarrow> u8 list" where
  "scn_scenesForGroup t grp outMax =
     (case t of None \<Rightarrow> []
      | Some es \<Rightarrow> take outMax (map sn_sceneId (filter (\<lambda>e. sn_used e \<and> sn_groupId e = grp) es)))"

definition scn_count :: "scene_table \<Rightarrow> nat" where
  "scn_count t = (case t of None \<Rightarrow> 0 | Some es \<Rightarrow> length (filter sn_used es))"

abbreviation (input) "SCENES_CMD_REMOVE \<equiv> (0x02 :: u8)"
abbreviation (input) "SCENES_CMD_REMOVE_ALL \<equiv> (0x03 :: u8)"
abbreviation (input) "SCENES_CMD_STORE \<equiv> (0x04 :: u8)"
abbreviation (input) "SCENES_CMD_RECALL \<equiv> (0x05 :: u8)"
abbreviation (input) "SCENES_STATUS_SUCCESS \<equiv> (0x00 :: u8)"
abbreviation (input) "SCENES_STATUS_INSUFFICIENT_SPACE \<equiv> (0x89 :: u8)"
abbreviation (input) "SCENES_STATUS_NOT_FOUND \<equiv> (0x8B :: u8)"

definition scn_buildGroupScene :: "out_buf \<Rightarrow> u16 \<Rightarrow> u8 \<Rightarrow> u8 list option" where
  "scn_buildGroupScene out grp scene =
     (case out of None \<Rightarrow> None | Some outMax \<Rightarrow> if outMax < 3 then None else Some (le16 grp @ [scene]))"

definition scn_buildGroup :: "out_buf \<Rightarrow> u16 \<Rightarrow> u8 list option" where
  "scn_buildGroup out grp =
     (case out of None \<Rightarrow> None | Some outMax \<Rightarrow> if outMax < 2 then None else Some (le16 grp))"

text \<open>\<open>handle\<close> answers the table, \<open>onOff\<close>, \<open>level\<close>, \<open>status\<close> and whether the command was understood.\<close>

definition scn_handle ::
  "scene_table \<Rightarrow> u8 \<Rightarrow> u8 list \<Rightarrow> bool \<Rightarrow> u8 \<Rightarrow> (scene_table \<times> bool \<times> u8 \<times> u8 \<times> bool) option"
where
  "scn_handle t commandId payload onOff level =
     (let status = SCENES_STATUS_SUCCESS in
      if commandId = SCENES_CMD_STORE then
        if length payload < 3 then Some (t, onOff, level, status, False)
        else do {
          g \<leftarrow> rd16 payload 0;
          scene \<leftarrow> rd8 payload 2;
          let (t', ok) = scn_store t g scene onOff level;
          Some (t', onOff, level, if ok then status else SCENES_STATUS_INSUFFICIENT_SPACE, True)
        }
      else if commandId = SCENES_CMD_RECALL then
        if length payload < 3 then Some (t, onOff, level, status, False)
        else do {
          g \<leftarrow> rd16 payload 0;
          scene \<leftarrow> rd8 payload 2;
          Some (case scn_recall t g scene of
                  None \<Rightarrow> (t, onOff, level, SCENES_STATUS_NOT_FOUND, True)
                | Some (onOff, level) \<Rightarrow> (t, onOff, level, status, True))
        }
      else if commandId = SCENES_CMD_REMOVE then
        if length payload < 3 then Some (t, onOff, level, status, False)
        else do {
          g \<leftarrow> rd16 payload 0;
          scene \<leftarrow> rd8 payload 2;
          let (t', ok) = scn_remove t g scene;
          Some (t', onOff, level, if ok then status else SCENES_STATUS_NOT_FOUND, True)
        }
      else if commandId = SCENES_CMD_REMOVE_ALL then
        if length payload < 2 then Some (t, onOff, level, status, False)
        else do {
          g \<leftarrow> rd16 payload 0;
          Some (fst (scn_removeAllForGroup t g), onOff, level, status, True)
        }
      else Some (t, onOff, level, status, False))"

section \<open>Level control, color control, identify\<close>

abbreviation (input) "LEVEL_CMD_MOVE_TO_LEVEL \<equiv> (0x00 :: u8)"
abbreviation (input) "LEVEL_CMD_STEP \<equiv> (0x02 :: u8)"
abbreviation (input) "LEVEL_CMD_MOVE_TO_LEVEL_WITH_ONOFF \<equiv> (0x04 :: u8)"
abbreviation (input) "LEVEL_CMD_STEP_WITH_ONOFF \<equiv> (0x06 :: u8)"
abbreviation (input) "LEVEL_DIR_UP \<equiv> (0x00 :: u8)"
abbreviation (input) "kMaxLevel \<equiv> (254 :: u8)"

definition lev_buildMoveToLevel :: "out_buf \<Rightarrow> u8 \<Rightarrow> u16 \<Rightarrow> u8 list option" where
  "lev_buildMoveToLevel out level transitionTime =
     (case out of None \<Rightarrow> None | Some outMax \<Rightarrow>
        if outMax < 3 then None else Some ((if kMaxLevel < level then kMaxLevel else level) # le16 transitionTime))"

definition lev_buildMove :: "out_buf \<Rightarrow> u8 \<Rightarrow> u8 \<Rightarrow> u8 list option" where
  "lev_buildMove out moveMode rate =
     (case out of None \<Rightarrow> None | Some outMax \<Rightarrow> if outMax < 2 then None else Some [moveMode, rate])"

definition lev_buildStep :: "out_buf \<Rightarrow> u8 \<Rightarrow> u8 \<Rightarrow> u16 \<Rightarrow> u8 list option" where
  "lev_buildStep out stepMode stepSize transitionTime =
     (case out of None \<Rightarrow> None | Some outMax \<Rightarrow>
        if outMax < 4 then None else Some ([stepMode, stepSize] @ le16 transitionTime))"

definition lev_applyCommand :: "u8 \<Rightarrow> u8 list \<Rightarrow> u8 \<Rightarrow> (u8 \<times> bool) option" where
  "lev_applyCommand commandId payload currentLevel =
     (if commandId = LEVEL_CMD_MOVE_TO_LEVEL \<or> commandId = LEVEL_CMD_MOVE_TO_LEVEL_WITH_ONOFF then
        if length payload < 1 then Some (currentLevel, False)
        else do {
          p \<leftarrow> rd8 payload 0;
          let target = (if kMaxLevel < p then kMaxLevel else p);
          Some (if target = currentLevel then (currentLevel, False) else (target, True))
        }
      else if commandId = LEVEL_CMD_STEP \<or> commandId = LEVEL_CMD_STEP_WITH_ONOFF then
        if length payload < 2 then Some (currentLevel, False)
        else do {
          mode \<leftarrow> rd8 payload 0;
          sz \<leftarrow> rd8 payload 1;
          let lvl = (ucast currentLevel :: u16);
          let lvl = (if mode = LEVEL_DIR_UP
                     then let lvl = lvl + ucast sz in if ucast kMaxLevel < lvl then ucast kMaxLevel else lvl
                     else if lvl \<le> ucast sz then 0 else lvl - ucast sz);
          Some (if ucast lvl = currentLevel then (currentLevel, False) else (ucast lvl, True))
        }
      else Some (currentLevel, False))"

record color_state =
  co_hue :: u8
  co_saturation :: u8
  co_x :: u16
  co_y :: u16
  co_temperatureMireds :: u16
  co_mode :: u8

abbreviation (input) "COLOR_MODE_HUE_SAT \<equiv> (0x00 :: u8)"
abbreviation (input) "COLOR_MODE_XY \<equiv> (0x01 :: u8)"
abbreviation (input) "COLOR_MODE_TEMPERATURE \<equiv> (0x02 :: u8)"

definition color0 :: color_state where
  "color0 = \<lparr>co_hue = 0, co_saturation = 0, co_x = 0, co_y = 0, co_temperatureMireds = 0, co_mode = COLOR_MODE_HUE_SAT\<rparr>"

definition col_buildMoveToHueSat :: "out_buf \<Rightarrow> u8 \<Rightarrow> u8 \<Rightarrow> u16 \<Rightarrow> u8 list option" where
  "col_buildMoveToHueSat out hue saturation transitionTime =
     (case out of None \<Rightarrow> None | Some outMax \<Rightarrow>
        if outMax < 4 then None else Some ([hue, saturation] @ le16 transitionTime))"

definition col_buildMoveToColor :: "out_buf \<Rightarrow> u16 \<Rightarrow> u16 \<Rightarrow> u16 \<Rightarrow> u8 list option" where
  "col_buildMoveToColor out x y transitionTime =
     (case out of None \<Rightarrow> None | Some outMax \<Rightarrow>
        if outMax < 6 then None else Some (le16 x @ le16 y @ le16 transitionTime))"

definition col_buildMoveToColorTemperature :: "out_buf \<Rightarrow> u16 \<Rightarrow> u16 \<Rightarrow> u8 list option" where
  "col_buildMoveToColorTemperature out mireds transitionTime =
     (case out of None \<Rightarrow> None | Some outMax \<Rightarrow>
        if outMax < 4 then None else Some (le16 mireds @ le16 transitionTime))"

definition col_applyCommand :: "u8 \<Rightarrow> u8 list \<Rightarrow> color_state \<Rightarrow> (color_state \<times> bool) option" where
  "col_applyCommand commandId payload c =
     (if commandId = 0x00 then
        if length payload < 1 then Some (c, False)
        else do { h \<leftarrow> rd8 payload 0; Some (c\<lparr>co_hue := h, co_mode := COLOR_MODE_HUE_SAT\<rparr>, True) }
      else if commandId = 0x03 then
        if length payload < 1 then Some (c, False)
        else do { s \<leftarrow> rd8 payload 0; Some (c\<lparr>co_saturation := s, co_mode := COLOR_MODE_HUE_SAT\<rparr>, True) }
      else if commandId = 0x06 then
        if length payload < 2 then Some (c, False)
        else do {
          h \<leftarrow> rd8 payload 0;
          s \<leftarrow> rd8 payload 1;
          Some (c\<lparr>co_hue := h, co_saturation := s, co_mode := COLOR_MODE_HUE_SAT\<rparr>, True)
        }
      else if commandId = 0x07 then
        if length payload < 4 then Some (c, False)
        else do {
          x \<leftarrow> rd16 payload 0;
          y \<leftarrow> rd16 payload 2;
          Some (c\<lparr>co_x := x, co_y := y, co_mode := COLOR_MODE_XY\<rparr>, True)
        }
      else if commandId = 0x0A then
        if length payload < 2 then Some (c, False)
        else do { m \<leftarrow> rd16 payload 0; Some (c\<lparr>co_temperatureMireds := m, co_mode := COLOR_MODE_TEMPERATURE\<rparr>, True) }
      else Some (c, False))"

definition idn_buildIdentify :: "out_buf \<Rightarrow> u16 \<Rightarrow> u8 list option" where
  "idn_buildIdentify out seconds =
     (case out of None \<Rightarrow> None | Some outMax \<Rightarrow> if outMax < 2 then None else Some (le16 seconds))"

definition idn_buildQueryResponse :: "out_buf \<Rightarrow> u16 \<Rightarrow> u8 list option" where
  "idn_buildQueryResponse out timeoutSeconds =
     (case out of None \<Rightarrow> None | Some outMax \<Rightarrow> if outMax < 2 then None else Some (le16 timeoutSeconds))"

definition idn_buildTriggerEffect :: "out_buf \<Rightarrow> u8 \<Rightarrow> u8 \<Rightarrow> u8 list option" where
  "idn_buildTriggerEffect out effectId variant =
     (case out of None \<Rightarrow> None | Some outMax \<Rightarrow> if outMax < 2 then None else Some [effectId, variant])"

definition idn_parseIdentify :: "ptr \<Rightarrow> u16 option option" where
  "idn_parseIdentify payload =
     (case payload of None \<Rightarrow> Some None | Some bs \<Rightarrow>
        if length bs < 2 then Some None else map_option Some (rd16 bs 0))"

definition idn_applyIdentify :: "ptr \<Rightarrow> u16 \<Rightarrow> (u16 \<times> bool) option" where
  "idn_applyIdentify payload identifyTime = do {
     s \<leftarrow> idn_parseIdentify payload;
     Some (case s of None \<Rightarrow> (identifyTime, 0 < identifyTime) | Some s \<Rightarrow> (s, 0 < s))
   }"

definition idn_tick :: "u16 \<Rightarrow> u16 \<Rightarrow> u16 \<times> bool" where
  "idn_tick identifyTime elapsedSeconds =
     (if identifyTime = 0 then (identifyTime, False)
      else let t = (if identifyTime \<le> elapsedSeconds then 0 else identifyTime - elapsedSeconds) in (t, 0 < t))"

section \<open>The light\<close>

record light =
  li_on :: bool
  li_level :: u8
  li_color :: color_state
  li_identifyTime :: u16
  li_groups :: group_table
  li_scenes :: scene_table

definition li_kGroups :: nat where "li_kGroups = 4"
definition li_kScenes :: nat where "li_kScenes = 4"

definition light0 :: light where
  "light0 = \<lparr>li_on = False, li_level = 254, li_color = color0, li_identifyTime = 0,
     li_groups = gt_begin (Some (replicate li_kGroups 0)), li_scenes = scn_begin (Some (replicate li_kScenes scene0))\<rparr>"

definition li_setOn :: "bool \<Rightarrow> light \<Rightarrow> light" where
  "li_setOn on l = l\<lparr>li_on := on\<rparr>"

definition li_setLevel :: "u8 \<Rightarrow> light \<Rightarrow> light" where
  "li_setLevel level l = l\<lparr>li_level := (if 254 < level then 254 else level)\<rparr>"

definition li_tickIdentify :: "light \<Rightarrow> light" where
  "li_tickIdentify l = l\<lparr>li_identifyTime := fst (idn_tick (li_identifyTime l) 1)\<rparr>"

definition li_handleCommand :: "light \<Rightarrow> u16 \<Rightarrow> u8 \<Rightarrow> u8 list \<Rightarrow> (light \<times> bool) option" where
  "li_handleCommand l clusterId commandId payload =
     (if clusterId = 0x0006 then
        (case zcl_applyOnOffCommand commandId (li_on l) of (ok, on) \<Rightarrow> Some (l\<lparr>li_on := on\<rparr>, ok))
      else if clusterId = 0x0008 then
        map_option (\<lambda>(level, ok). (l\<lparr>li_level := level\<rparr>, ok)) (lev_applyCommand commandId payload (li_level l))
      else if clusterId = 0x0300 then
        map_option (\<lambda>(c, ok). (l\<lparr>li_color := c\<rparr>, ok)) (col_applyCommand commandId payload (li_color l))
      else if clusterId = 0x0003 then
        if commandId = 0x00 then
          map_option (\<lambda>(t, _). (l\<lparr>li_identifyTime := t\<rparr>, True)) (idn_applyIdentify (Some payload) (li_identifyTime l))
        else Some (l, False)
      else if clusterId = 0x0004 then
        map_option (\<lambda>(g, _). (l\<lparr>li_groups := g\<rparr>, True)) (gcl_handle (li_groups l) commandId payload 0 (Some 24))
      else if clusterId = 0x0005 then
        map_option (\<lambda>(t, on, level, _, ok). (l\<lparr>li_scenes := t, li_on := on, li_level := level\<rparr>, ok))
          (scn_handle (li_scenes l) commandId payload (li_on l) (li_level l))
      else Some (l, False))"

end
