(* ===== verification/ZbLightFacts.thy ===== *)
theory ZbLightFacts
  imports ZbLight
begin

text \<open>
  The light in any sequence of commands: its invariant, and the scene store as a map from group and scene to the
  state it captured.
\<close>

section \<open>The scene table is a map\<close>











section \<open>The commands\<close>

lemma light_rd8_at: "i < length bs \<Longrightarrow> rd8 bs i = Some (bs ! i)"
  by (simp add: rd8_def)










section \<open>Any sequence of commands\<close>
















end
