(* ===== verification/ZbSensors.thy ===== *)
theory ZbSensors
  imports ZbZclFacts
begin

text \<open>
  Servers of single devices: \<open>ZigbeeOccupancyCluster.h\<close>, \<open>ZigbeeTemperatureMeasurementCluster.h\<close>,
  \<open>ZigbeeHumidityMeasurementCluster.h\<close>, \<open>ZigbeeElectricalMeasurementCluster.h\<close>, \<open>ZigbeeDoorLockCluster.h\<close>,
  \<open>ZigbeeWindowCoveringCluster.h\<close>, \<open>ZigbeeThermostatCluster.h\<close> and \<open>ZigbeeIasZoneCluster.h\<close>.

  Signed values are words in two's complement. The setters that take a \<open>float\<close> are left out: the raw setters
  they end in are modelled.
\<close>

section \<open>Reading attributes\<close>

text \<open>
  \<open>buildReadAttributesResponsePayload\<close>, the same function in five of the classes: \<open>i\<close> is its 8-bit counter, \<open>acc\<close> the
  part of the payload that is filled. The inner \<open>None\<close> is the answer 0, the outer one a read or write outside a
  buffer.
\<close>

function sns_readLoop ::
  "(u16 \<Rightarrow> nat \<Rightarrow> u8 list option) \<Rightarrow> u8 list \<Rightarrow> nat \<Rightarrow> u8 \<Rightarrow> u8 list \<Rightarrow> u8 list option option"
where
  "sns_readLoop append_record req outMax i acc =
     (case zcl_getReadAttributeId (Some req) (length req) i of
        None \<Rightarrow> None
      | Some None \<Rightarrow> Some (if acc = [] then None else Some acc)
      | Some (Some attrId) \<Rightarrow>
          (case append_record attrId (cast8 (outMax - length acc)) of
             None \<Rightarrow> Some None
           | Some r \<Rightarrow>
               if r = [] then Some None
               else if outMax < length acc + length r then None
               else sns_readLoop append_record req outMax (i + 1) (acc @ r)))"
  by pat_completeness auto

termination
  by (relation "measure (\<lambda>(_, _, outMax, _, acc). Suc outMax - length acc)") (auto simp: neq_Nil_conv)

declare sns_readLoop.simps [simp del]

definition sns_readResponse ::
  "(u16 \<Rightarrow> nat \<Rightarrow> u8 list option) \<Rightarrow> ptr \<Rightarrow> out_buf \<Rightarrow> u8 list option option"
where
  "sns_readResponse append_record req out =
     (case (out, req) of (Some outMax, Some req) \<Rightarrow> sns_readLoop append_record req outMax 0 [] | _ \<Rightarrow> Some None)"

abbreviation (input) "ZCL_TYPE_MAP8 \<equiv> (0x18 :: u8)"
abbreviation (input) "ZCL_TYPE_ENUM8 \<equiv> (0x30 :: u8)"

definition sns_unsupported :: "nat \<Rightarrow> u16 \<Rightarrow> u8 list option" where
  "sns_unsupported outMax attrId = zcl_buildAttributeStatusRecord (Some outMax) attrId ZCL_STATUS_UNSUPPORTED_ATTRIBUTE"

section \<open>Occupancy sensing\<close>

record occupancy_cluster =
  oc_occupied :: bool
  oc_sensorType :: u8

definition oc_init :: "u8 \<Rightarrow> occupancy_cluster" where
  "oc_init sensorType = \<lparr>oc_occupied = False, oc_sensorType = sensorType\<rparr>"

definition oc_setOccupied :: "bool \<Rightarrow> occupancy_cluster \<Rightarrow> occupancy_cluster" where
  "oc_setOccupied occupied o1 = o1\<lparr>oc_occupied := occupied\<rparr>"

definition oc_occupancyBitmap :: "occupancy_cluster \<Rightarrow> u8" where
  "oc_occupancyBitmap o1 = (if oc_occupied o1 then 0x01 else 0)"

text \<open>The shift of \<open>1u\<close> is defined below 32, where all sensor types lie.\<close>

definition oc_append :: "occupancy_cluster \<Rightarrow> u16 \<Rightarrow> nat \<Rightarrow> u8 list option" where
  "oc_append o1 attrId outMax =
     (if attrId = 0x0000 then zcl_buildTyped8AttributeRecord (Some outMax) attrId ZCL_TYPE_MAP8 (oc_occupancyBitmap o1)
      else if attrId = 0x0001 then zcl_buildTyped8AttributeRecord (Some outMax) attrId ZCL_TYPE_ENUM8 (oc_sensorType o1)
      else if attrId = 0x0002 then zcl_buildTyped8AttributeRecord (Some outMax) attrId ZCL_TYPE_MAP8
        (ucast (push_bit (unat (oc_sensorType o1)) 1 :: u32))
      else sns_unsupported outMax attrId)"

definition oc_buildReport :: "occupancy_cluster \<Rightarrow> out_buf \<Rightarrow> u8 list option" where
  "oc_buildReport o1 out =
     (case out of None \<Rightarrow> None | Some outMax \<Rightarrow>
        if outMax < 4 then None else Some (le16 0x0000 @ [ZCL_TYPE_MAP8, oc_occupancyBitmap o1]))"

section \<open>Temperature, humidity, electrical measurement\<close>

record temperature_cluster =
  tm_measured :: u16
  tm_min :: u16
  tm_max :: u16
  tm_tolerance :: u16

definition tm_init :: temperature_cluster where
  "tm_init = \<lparr>tm_measured = 2000, tm_min = - 4000, tm_max = 12500, tm_tolerance = 50\<rparr>"

definition tm_setMeasuredRaw :: "u16 \<Rightarrow> temperature_cluster \<Rightarrow> temperature_cluster" where
  "tm_setMeasuredRaw v t = t\<lparr>tm_measured := v\<rparr>"

definition tm_setRange :: "u16 \<Rightarrow> u16 \<Rightarrow> temperature_cluster \<Rightarrow> temperature_cluster" where
  "tm_setRange lo hi t = t\<lparr>tm_min := lo, tm_max := hi\<rparr>"

definition tm_append :: "temperature_cluster \<Rightarrow> u16 \<Rightarrow> nat \<Rightarrow> u8 list option" where
  "tm_append t attrId outMax =
     (if attrId = 0x0000 then zcl_buildInt16AttributeRecord (Some outMax) attrId (tm_measured t)
      else if attrId = 0x0001 then zcl_buildInt16AttributeRecord (Some outMax) attrId (tm_min t)
      else if attrId = 0x0002 then zcl_buildInt16AttributeRecord (Some outMax) attrId (tm_max t)
      else if attrId = 0x0003 then zcl_buildUint16AttributeRecord (Some outMax) attrId (tm_tolerance t)
      else sns_unsupported outMax attrId)"

definition tm_buildReport :: "temperature_cluster \<Rightarrow> out_buf \<Rightarrow> u8 list option" where
  "tm_buildReport t out = zcl_buildReportInt16AttributePayload out 0x0000 (tm_measured t)"

record humidity_cluster =
  hm_measured :: u16
  hm_min :: u16
  hm_max :: u16

definition hm_init :: humidity_cluster where
  "hm_init = \<lparr>hm_measured = 5000, hm_min = 0, hm_max = 10000\<rparr>"

definition hm_setMeasuredRaw :: "u16 \<Rightarrow> humidity_cluster \<Rightarrow> humidity_cluster" where
  "hm_setMeasuredRaw v h = h\<lparr>hm_measured := v\<rparr>"

definition hm_setRange :: "u16 \<Rightarrow> u16 \<Rightarrow> humidity_cluster \<Rightarrow> humidity_cluster" where
  "hm_setRange lo hi h = h\<lparr>hm_min := lo, hm_max := hi\<rparr>"

definition hm_append :: "humidity_cluster \<Rightarrow> u16 \<Rightarrow> nat \<Rightarrow> u8 list option" where
  "hm_append h attrId outMax =
     (if attrId = 0x0000 then zcl_buildUint16AttributeRecord (Some outMax) attrId (hm_measured h)
      else if attrId = 0x0001 then zcl_buildUint16AttributeRecord (Some outMax) attrId (hm_min h)
      else if attrId = 0x0002 then zcl_buildUint16AttributeRecord (Some outMax) attrId (hm_max h)
      else sns_unsupported outMax attrId)"

definition hm_buildReport :: "humidity_cluster \<Rightarrow> out_buf \<Rightarrow> u8 list option" where
  "hm_buildReport h out = zcl_buildReportUint16AttributePayload out 0x0000 (hm_measured h)"

record electrical_cluster =
  el_rmsVoltage :: u16
  el_rmsCurrent :: u16
  el_activePower :: u16
  el_acFrequency :: u16

definition el_init :: electrical_cluster where
  "el_init = \<lparr>el_rmsVoltage = 230, el_rmsCurrent = 0, el_activePower = 0, el_acFrequency = 50\<rparr>"

definition el_setRmsVoltage :: "u16 \<Rightarrow> electrical_cluster \<Rightarrow> electrical_cluster" where
  "el_setRmsVoltage v e = e\<lparr>el_rmsVoltage := v\<rparr>"

definition el_setRmsCurrent :: "u16 \<Rightarrow> electrical_cluster \<Rightarrow> electrical_cluster" where
  "el_setRmsCurrent v e = e\<lparr>el_rmsCurrent := v\<rparr>"

definition el_setActivePower :: "u16 \<Rightarrow> electrical_cluster \<Rightarrow> electrical_cluster" where
  "el_setActivePower v e = e\<lparr>el_activePower := v\<rparr>"

definition el_setAcFrequency :: "u16 \<Rightarrow> electrical_cluster \<Rightarrow> electrical_cluster" where
  "el_setAcFrequency v e = e\<lparr>el_acFrequency := v\<rparr>"

definition el_append :: "electrical_cluster \<Rightarrow> u16 \<Rightarrow> nat \<Rightarrow> u8 list option" where
  "el_append e attrId outMax =
     (if attrId = 0x0300 then zcl_buildUint16AttributeRecord (Some outMax) attrId (el_acFrequency e)
      else if attrId = 0x0505 then zcl_buildUint16AttributeRecord (Some outMax) attrId (el_rmsVoltage e)
      else if attrId = 0x0508 then zcl_buildUint16AttributeRecord (Some outMax) attrId (el_rmsCurrent e)
      else if attrId = 0x050B then zcl_buildInt16AttributeRecord (Some outMax) attrId (el_activePower e)
      else sns_unsupported outMax attrId)"

definition el_buildReport :: "electrical_cluster \<Rightarrow> out_buf \<Rightarrow> u8 list option" where
  "el_buildReport e out = zcl_buildReportInt16AttributePayload out 0x050B (el_activePower e)"

section \<open>Door lock\<close>

abbreviation (input) "DOOR_LOCK_STATE_LOCKED \<equiv> (0x01 :: u8)"
abbreviation (input) "DOOR_LOCK_STATE_UNLOCKED \<equiv> (0x02 :: u8)"
abbreviation (input) "DOOR_STATE_CLOSED \<equiv> (0x01 :: u8)"
abbreviation (input) "ZCL_STATUS_FAILURE \<equiv> (0x01 :: u8)"

record door_lock =
  dl_lockState :: u8
  dl_doorState :: u8
  dl_actuatorEnabled :: bool

definition dl_init :: door_lock where
  "dl_init = \<lparr>dl_lockState = DOOR_LOCK_STATE_LOCKED, dl_doorState = DOOR_STATE_CLOSED, dl_actuatorEnabled = True\<rparr>"

definition dl_isLocked :: "door_lock \<Rightarrow> bool" where
  "dl_isLocked d \<longleftrightarrow> dl_lockState d = DOOR_LOCK_STATE_LOCKED"

definition dl_setActuatorEnabled :: "bool \<Rightarrow> door_lock \<Rightarrow> door_lock" where
  "dl_setActuatorEnabled on d = d\<lparr>dl_actuatorEnabled := on\<rparr>"

definition dl_setDoorState :: "u8 \<Rightarrow> door_lock \<Rightarrow> door_lock" where
  "dl_setDoorState s d = d\<lparr>dl_doorState := s\<rparr>"

text \<open>The answer: the lock, \<open>outStatus\<close> where it is set, and whether the command is known.\<close>

definition dl_applyCommand :: "u8 \<Rightarrow> door_lock \<Rightarrow> door_lock \<times> u8 option \<times> bool" where
  "dl_applyCommand commandId d =
     (if \<not> dl_actuatorEnabled d \<and> (commandId = 0x00 \<or> commandId = 0x01 \<or> commandId = 0x02)
      then (d, Some ZCL_STATUS_FAILURE, True)
      else if commandId = 0x00 then (d\<lparr>dl_lockState := DOOR_LOCK_STATE_LOCKED\<rparr>, Some ZCL_STATUS_SUCCESS, True)
      else if commandId = 0x01 then (d\<lparr>dl_lockState := DOOR_LOCK_STATE_UNLOCKED\<rparr>, Some ZCL_STATUS_SUCCESS, True)
      else if commandId = 0x02 then
        (d\<lparr>dl_lockState := (if dl_isLocked d then DOOR_LOCK_STATE_UNLOCKED else DOOR_LOCK_STATE_LOCKED)\<rparr>,
         Some ZCL_STATUS_SUCCESS, True)
      else (d, None, False))"

definition dl_buildCommandResponse :: "out_buf \<Rightarrow> u8 \<Rightarrow> u8 list option" where
  "dl_buildCommandResponse out status =
     (case out of None \<Rightarrow> None | Some outMax \<Rightarrow> if outMax < 1 then None else Some [status])"

definition dl_append :: "door_lock \<Rightarrow> u16 \<Rightarrow> nat \<Rightarrow> u8 list option" where
  "dl_append d attrId outMax =
     (if attrId = 0x0000 then zcl_buildTyped8AttributeRecord (Some outMax) attrId ZCL_TYPE_ENUM8 (dl_lockState d)
      else if attrId = 0x0003 then zcl_buildTyped8AttributeRecord (Some outMax) attrId ZCL_TYPE_ENUM8 (dl_doorState d)
      else if attrId = 0x0002 then zcl_buildBoolAttributeRecord (Some outMax) attrId (dl_actuatorEnabled d)
      else sns_unsupported outMax attrId)"

definition dl_buildReport :: "door_lock \<Rightarrow> out_buf \<Rightarrow> u8 list option" where
  "dl_buildReport d out =
     (case out of None \<Rightarrow> None | Some outMax \<Rightarrow>
        if outMax < 4 then None else Some (le16 0x0000 @ [ZCL_TYPE_ENUM8, dl_lockState d]))"

section \<open>Window covering, thermostat\<close>

record window_covering =
  wc_lift :: u8
  wc_tilt :: u8
  wc_moving :: bool

definition wc_buildGoTo :: "out_buf \<Rightarrow> u8 \<Rightarrow> u8 list option" where
  "wc_buildGoTo out percent =
     (case out of None \<Rightarrow> None | Some outMax \<Rightarrow> if outMax < 1 then None else Some [if 100 < percent then 100 else percent])"

definition wc_applyCommand :: "u8 \<Rightarrow> u8 list \<Rightarrow> window_covering \<Rightarrow> (window_covering \<times> bool) option" where
  "wc_applyCommand commandId payload w =
     (if commandId = 0x00 then Some (w\<lparr>wc_lift := 0, wc_moving := False\<rparr>, True)
      else if commandId = 0x01 then Some (w\<lparr>wc_lift := 100, wc_moving := False\<rparr>, True)
      else if commandId = 0x02 then Some (w\<lparr>wc_moving := False\<rparr>, True)
      else if commandId = 0x05 then
        if length payload < 1 then Some (w, False)
        else do { p \<leftarrow> rd8 payload 0; Some (w\<lparr>wc_lift := (if 100 < p then 100 else p), wc_moving := False\<rparr>, True) }
      else if commandId = 0x08 then
        if length payload < 1 then Some (w, False)
        else do { p \<leftarrow> rd8 payload 0; Some (w\<lparr>wc_tilt := (if 100 < p then 100 else p)\<rparr>, True) }
      else Some (w, False))"

record thermostat =
  th_localTemperature :: u16
  th_heatingSetpoint :: u16
  th_coolingSetpoint :: u16
  th_systemMode :: u8

definition thermostat0 :: thermostat where
  "thermostat0 = \<lparr>th_localTemperature = 2100, th_heatingSetpoint = 2000, th_coolingSetpoint = 2600, th_systemMode = 0x04\<rparr>"

definition th_buildSetpointRaiseLower :: "out_buf \<Rightarrow> u8 \<Rightarrow> u8 \<Rightarrow> u8 list option" where
  "th_buildSetpointRaiseLower out mode amount =
     (case out of None \<Rightarrow> None | Some outMax \<Rightarrow> if outMax < 2 then None else Some [mode, amount])"

definition th_applyCommand :: "u8 \<Rightarrow> u8 list \<Rightarrow> thermostat \<Rightarrow> (thermostat \<times> bool) option" where
  "th_applyCommand commandId payload t =
     (if commandId \<noteq> 0x00 \<or> length payload < 2 then Some (t, False)
      else do {
        mode \<leftarrow> rd8 payload 0;
        p \<leftarrow> rd8 payload 1;
        let delta = (scast p :: u16) * 10;
        let heat = (mode = 0x00 \<or> mode = 0x02);
        let cool = (mode = 0x01 \<or> mode = 0x02);
        let t = (if heat then t\<lparr>th_heatingSetpoint := th_heatingSetpoint t + delta\<rparr> else t);
        let t = (if cool then t\<lparr>th_coolingSetpoint := th_coolingSetpoint t + delta\<rparr> else t);
        Some (t, heat \<or> cool)
      })"

section \<open>IAS zone\<close>

definition ias_buildStatusChange :: "out_buf \<Rightarrow> u16 \<Rightarrow> u8 \<Rightarrow> u16 \<Rightarrow> u8 list option" where
  "ias_buildStatusChange out zoneStatus zoneId delay =
     (case out of None \<Rightarrow> None | Some outMax \<Rightarrow>
        if outMax < 6 then None else Some (le16 zoneStatus @ [0, zoneId] @ le16 delay))"

definition ias_parseStatusChange :: "ptr \<Rightarrow> (u16 \<times> u8 \<times> u16) option option" where
  "ias_parseStatusChange payload =
     (case payload of None \<Rightarrow> Some None | Some bs \<Rightarrow>
        if length bs < 6 then Some None
        else do { st \<leftarrow> rd16 bs 0; zid \<leftarrow> rd8 bs 3; delay \<leftarrow> rd16 bs 4; Some (Some (st, zid, delay)) })"

definition ias_buildEnrollRequest :: "out_buf \<Rightarrow> u16 \<Rightarrow> u16 \<Rightarrow> u8 list option" where
  "ias_buildEnrollRequest out zoneType manufacturer =
     (case out of None \<Rightarrow> None | Some outMax \<Rightarrow> if outMax < 4 then None else Some (le16 zoneType @ le16 manufacturer))"

definition ias_parseEnrollRequest :: "ptr \<Rightarrow> (u16 \<times> u16) option option" where
  "ias_parseEnrollRequest payload =
     (case payload of None \<Rightarrow> Some None | Some bs \<Rightarrow>
        if length bs < 4 then Some None
        else do { ty \<leftarrow> rd16 bs 0; man \<leftarrow> rd16 bs 2; Some (Some (ty, man)) })"

definition ias_buildEnrollResponse :: "out_buf \<Rightarrow> u8 \<Rightarrow> u8 \<Rightarrow> u8 list option" where
  "ias_buildEnrollResponse out responseCode zoneId =
     (case out of None \<Rightarrow> None | Some outMax \<Rightarrow> if outMax < 2 then None else Some [responseCode, zoneId])"

definition ias_parseEnrollResponse :: "ptr \<Rightarrow> (u8 \<times> u8) option option" where
  "ias_parseEnrollResponse payload =
     (case payload of None \<Rightarrow> Some None | Some bs \<Rightarrow>
        if length bs < 2 then Some None
        else do { code \<leftarrow> rd8 bs 0; zid \<leftarrow> rd8 bs 1; Some (Some (code, zid)) })"

lemma ias_roundtrips:
  "6 \<le> m \<Longrightarrow> ias_parseStatusChange (ias_buildStatusChange (Some m) st zid delay) = Some (Some (st, zid, delay))"
  "4 \<le> m \<Longrightarrow> ias_parseEnrollRequest (ias_buildEnrollRequest (Some m) ty man) = Some (Some (ty, man))"
  "2 \<le> m \<Longrightarrow> ias_parseEnrollResponse (ias_buildEnrollResponse (Some m) code zid) = Some (Some (code, zid))"
  by (simp_all add: ias_parseStatusChange_def ias_buildStatusChange_def ias_parseEnrollRequest_def ias_buildEnrollRequest_def
      ias_parseEnrollResponse_def ias_buildEnrollResponse_def wire_simps)

section \<open>What the servers answer\<close>

lemma sns_readLoop_answers:
  assumes f: "record_function f recs" and ids: "length ids \<le> 48" "i \<le> length ids" and acc: "length acc \<le> m" "m < 256"
    and first: "acc \<noteq> [] \<or> i < length ids"
  shows "sns_readLoop f (concat (map le16 ids)) m (of_nat i) acc =
    (let all = acc @ concat (map recs (drop i ids)) in Some (if length all \<le> m then Some all else None))"
  using ids(2) acc(1) first
proof (induction "length ids - i" arbitrary: i acc)
  case 0
  then show ?case
    using ids read_id [of ids i] by (subst sns_readLoop.simps) (simp add: Let_def)
next
  case (Suc k)
  let ?a = "ids ! i"
  have i: "i < length ids" using Suc.hyps by simp
  have d: "drop i ids = ?a # drop (Suc i) ids" using i by (simp add: Cons_nth_drop_Suc)
  have fa: "f ?a n = (if n < length (recs ?a) then None else Some (recs ?a))" "recs ?a \<noteq> []" for n
    using f by (simp_all add: record_function_def)
  have id: "zcl_getReadAttributeId (Some (concat (map le16 ids))) (length (concat (map le16 ids))) (of_nat i) = Some (Some ?a)"
    using read_id [of ids i] ids i by simp
  have room: "cast8 (m - length acc) = m - length acc" using acc(2) by simp
  show ?case
  proof (cases "length acc + length (recs ?a) \<le> m")
    case True
    have "sns_readLoop f (concat (map le16 ids)) m (of_nat i) acc = sns_readLoop f (concat (map le16 ids)) m (of_nat (Suc i)) (acc @ recs ?a)"
      unfolding sns_readLoop.simps [of _ _ _ "of_nat i"] id room using True fa by (auto simp: add.commute)
    also have "\<dots> = (let all = (acc @ recs ?a) @ concat (map recs (drop (Suc i) ids)) in Some (if length all \<le> m then Some all else None))"
      by (rule Suc.hyps(1)) (use Suc.hyps True i fa in auto)
    finally show ?thesis unfolding d by simp
  next
    case False
    then have "sns_readLoop f (concat (map le16 ids)) m (of_nat i) acc = Some None"
      unfolding sns_readLoop.simps [of _ _ _ "of_nat i"] id room using fa Suc.prems(2) by auto
    with False show ?thesis unfolding d by simp
  qed
qed

text \<open>The attributes of a server, as the type and the value bytes of each; the records of the answer.\<close>

definition sns_record :: "(u16 \<rightharpoonup> u8 list) \<Rightarrow> u16 \<Rightarrow> u8 list" where
  "sns_record attrs a = (case attrs a of None \<Rightarrow> le16 a @ [ZCL_STATUS_UNSUPPORTED_ATTRIBUTE] | Some tv \<Rightarrow> le16 a @ [ZCL_STATUS_SUCCESS] @ tv)"

lemma sns_serves:
  assumes "\<And>a n. f a n = (if n < length (sns_record attrs a) then None else Some (sns_record attrs a))"
  shows "record_function f (sns_record attrs)"
  using assms by (simp add: record_function_def sns_record_def split: option.split)

lemmas sns_builders = zcl_buildTyped8AttributeRecord_def zcl_buildBoolAttributeRecord_def zcl_buildUint16AttributeRecord_def
  zcl_buildInt16AttributeRecord_def sns_unsupported_def zcl_buildAttributeStatusRecord_def sns_record_def

definition oc_attributes :: "occupancy_cluster \<Rightarrow> u16 \<rightharpoonup> u8 list" where
  "oc_attributes o1 = [0x0000 \<mapsto> [0x18, if oc_occupied o1 then 1 else 0], 0x0001 \<mapsto> [0x30, oc_sensorType o1],
     0x0002 \<mapsto> [0x18, ucast (push_bit (unat (oc_sensorType o1)) 1 :: u32)]]"

definition tm_attributes :: "temperature_cluster \<Rightarrow> u16 \<rightharpoonup> u8 list" where
  "tm_attributes t = [0x0000 \<mapsto> 0x29 # le16 (tm_measured t), 0x0001 \<mapsto> 0x29 # le16 (tm_min t),
     0x0002 \<mapsto> 0x29 # le16 (tm_max t), 0x0003 \<mapsto> 0x21 # le16 (tm_tolerance t)]"

definition hm_attributes :: "humidity_cluster \<Rightarrow> u16 \<rightharpoonup> u8 list" where
  "hm_attributes h = [0x0000 \<mapsto> 0x21 # le16 (hm_measured h), 0x0001 \<mapsto> 0x21 # le16 (hm_min h), 0x0002 \<mapsto> 0x21 # le16 (hm_max h)]"

definition el_attributes :: "electrical_cluster \<Rightarrow> u16 \<rightharpoonup> u8 list" where
  "el_attributes e = [0x0300 \<mapsto> 0x21 # le16 (el_acFrequency e), 0x0505 \<mapsto> 0x21 # le16 (el_rmsVoltage e),
     0x0508 \<mapsto> 0x21 # le16 (el_rmsCurrent e), 0x050B \<mapsto> 0x29 # le16 (el_activePower e)]"

definition dl_attributes :: "door_lock \<Rightarrow> u16 \<rightharpoonup> u8 list" where
  "dl_attributes d = [0x0000 \<mapsto> [0x30, dl_lockState d], 0x0003 \<mapsto> [0x30, dl_doorState d],
     0x0002 \<mapsto> [0x10, if dl_actuatorEnabled d then 1 else 0]]"

lemma sns_record_functions:
  "record_function (oc_append o1) (sns_record (oc_attributes o1))"
  "record_function (tm_append t) (sns_record (tm_attributes t))"
  "record_function (hm_append h) (sns_record (hm_attributes h))"
  "record_function (el_append e) (sns_record (el_attributes e))"
  "record_function (dl_append d) (sns_record (dl_attributes d))"
  by (rule sns_serves; simp add: oc_append_def oc_attributes_def oc_occupancyBitmap_def tm_append_def tm_attributes_def
      hm_append_def hm_attributes_def el_append_def el_attributes_def dl_append_def dl_attributes_def sns_builders)+

text \<open>C21: the occupancy, temperature, humidity, electrical and door lock servers, in any state (an occupancy sensor
  type below 32, where the shift of the code is defined), answer a Read Attributes request for up to 48 attributes
  attribute by attribute: type and value for those they have, status UNSUPPORTED_ATTRIBUTE for the others, and no
  answer when the records do not fit the buffer, without touching anything outside of it. (The attribute 0x0000 of the
  electrical server, which its header announces and the code does not have, is not in the claim.)\<close>

theorem sensor_attributes_answered:
  assumes "ids \<noteq> []" "length ids \<le> 48" "m < 256" "zcl_buildReadAttributesPayload (Some 97) (Some ids) (length ids) = Some req"
    "(server, attrs) \<in> {(oc_append o1, oc_attributes o1), (tm_append t, tm_attributes t), (hm_append h, hm_attributes h),
       (el_append e, el_attributes e), (dl_append d, dl_attributes d)}"
    "oc_sensorType o1 < 32" "server = el_append e \<longrightarrow> 0x0000 \<notin> set ids"
  shows "sns_readResponse server (Some req) (Some m) =
    (let answer = concat (map (sns_record attrs) ids) in Some (if length answer \<le> m then Some answer else None))"
proof -
  have f: "record_function server (sns_record attrs)" using assms(5) sns_record_functions by auto
  have "req = concat (map le16 ids)" using assms(1,2,4) by (simp add: zcl_buildReadAttributesPayload_def split: if_splits)
  then show ?thesis using sns_readLoop_answers [OF f assms(2), of 0 "[]" m] assms(1,3) by (simp add: sns_readResponse_def)
qed

theorem sensor_attributes_answered_witness:
  "sns_readResponse (tm_append (tm_setMeasuredRaw 2150 tm_init)) (Some [0, 0, 9, 0]) (Some 40) =
     Some (Some [0, 0, 0, 0x29, 0x66, 0x08, 9, 0, 0x86])"
proof -
  have p: "zcl_buildReadAttributesPayload (Some 97) (Some [0, 9]) (length [0 :: u16, 9]) = Some [0, 0, 9, 0]"
    by (simp add: zcl_buildReadAttributesPayload_def le16_def le_bytes_def upt_rec)
  have "tm_append (tm_setMeasuredRaw 2150 tm_init) 0 8 \<noteq> el_append el_init 0 8"
    by (simp add: tm_append_def el_append_def sns_unsupported_def sns_builders)
  then have n: "tm_append (tm_setMeasuredRaw 2150 tm_init) = el_append el_init \<longrightarrow> 0x0000 \<notin> set [0 :: u16, 9]" by auto
  from sensor_attributes_answered [OF _ _ _ p, of 40 "tm_append (tm_setMeasuredRaw 2150 tm_init)" "tm_attributes (tm_setMeasuredRaw 2150 tm_init)"
      "oc_init 0" "tm_setMeasuredRaw 2150 tm_init" undefined el_init undefined, OF _ _ _ _ _ n] show ?thesis
    by (simp add: sns_record_def tm_attributes_def tm_setMeasuredRaw_def oc_init_def le16_def le_bytes_def upt_rec)
qed

text \<open>Finding: the measurement type of the electrical server is announced, and answered as unsupported.\<close>

lemma electrical_type_unsupported: "el_append e 0x0000 outMax = sns_unsupported outMax 0x0000"
  by (simp add: el_append_def)

end
