(* ===== verification/ZbZnp.thy ===== *)
theory ZbZnp
  imports ZbPrelude
begin

text \<open>
  The driver of a CC2530 that runs the vendor's Z-Stack firmware (\<open>modules/cc2530znp/CC2530ZnpRadio\<close>): the frames of
  the Monitor-and-Test interface on the serial line, synchronous requests and their responses, the indications that
  arrive between them, and every operation of the driver.

  The environment is part of the state. \<open>zn_line\<close> lists the readings of \<open>millis\<close> to come, each with the bytes that
  have arrived on the line by then; \<open>zn_avail\<close> are the bytes that have arrived and were not read. When the readings
  are used up nothing more arrives and the time limit of every wait has passed, so that every wait ends with them. \<open>zn_out\<close> are the bytes written and
  \<open>zn_events\<close> the calls of the callbacks. Every operation answers \<open>None\<close> for an access outside a buffer.
\<close>

section \<open>State\<close>

abbreviation (input) "ZnSof \<equiv> 0xFE :: u8"
abbreviation (input) "ZnMaxData \<equiv> 250 :: nat"
abbreviation (input) "ZnSreq \<equiv> 0x20 :: u8"
abbreviation (input) "ZnAreq \<equiv> 0x40 :: u8"
abbreviation (input) "ZnSrsp \<equiv> 0x60 :: u8"
abbreviation (input) "ZnSys \<equiv> 0x01 :: u8"
abbreviation (input) "ZnAf \<equiv> 0x04 :: u8"
abbreviation (input) "ZnZdo \<equiv> 0x05 :: u8"
abbreviation (input) "ZnUtil \<equiv> 0x07 :: u8"

datatype znp_rx = ZnWaitSof | ZnLen | ZnCmd0 | ZnCmd1 | ZnData | ZnFcs

record znp_incoming =
  zm_groupId :: u16
  zm_clusterId :: u16
  zm_srcAddr :: u16
  zm_srcEndpoint :: u8
  zm_dstEndpoint :: u8
  zm_wasBroadcast :: bool
  zm_linkQuality :: u8
  zm_transSeqNum :: u8
  zm_data :: "u8 list"

datatype znp_event = ZnIncoming znp_incoming | ZnConfirm u8 u8 u8 | ZnState u8

record znp =
  zn_rxState :: znp_rx
  zn_rxLen :: u8
  zn_rxIdx :: u8
  zn_rxCmd0 :: u8
  zn_rxCmd1 :: u8
  zn_rxFcs :: u8
  zn_frmCmd0 :: u8
  zn_frmCmd1 :: u8
  zn_frmLen :: u8
  zn_frm :: "u8 list"
  zn_resp :: "u8 list"
  zn_respLen :: u8
  zn_capabilities :: u16
  zn_incomingCb :: bool
  zn_stateCb :: bool
  zn_dataConfirmCb :: bool
  zn_avail :: "u8 list"
  zn_line :: "(u32 \<times> u8 list) list"
  zn_out :: "u8 list"
  zn_events :: "znp_event list"

text \<open>The constructor, for a driver in static storage, with the line it will see.\<close>

definition znp0 :: "(u32 \<times> u8 list) list \<Rightarrow> znp" where
  "znp0 ls = \<lparr>zn_rxState = ZnWaitSof, zn_rxLen = 0, zn_rxIdx = 0, zn_rxCmd0 = 0, zn_rxCmd1 = 0, zn_rxFcs = 0,
     zn_frmCmd0 = 0, zn_frmCmd1 = 0, zn_frmLen = 0, zn_frm = replicate ZnMaxData 0, zn_resp = replicate ZnMaxData 0,
     zn_respLen = 0, zn_capabilities = 0, zn_incomingCb = False, zn_stateCb = False, zn_dataConfirmCb = False,
     zn_avail = [], zn_line = ls, zn_out = [], zn_events = []\<rparr>"

definition zn_onIncoming :: "bool \<Rightarrow> znp \<Rightarrow> znp" where
  "zn_onIncoming cb z = z\<lparr>zn_incomingCb := cb\<rparr>"

definition zn_onStateChange :: "bool \<Rightarrow> znp \<Rightarrow> znp" where
  "zn_onStateChange cb z = z\<lparr>zn_stateCb := cb\<rparr>"

definition zn_onDataConfirm :: "bool \<Rightarrow> znp \<Rightarrow> znp" where
  "zn_onDataConfirm cb z = z\<lparr>zn_dataConfirmCb := cb\<rparr>"

text \<open>A reading of the clock; \<open>None\<close> after the last one.\<close>

definition zn_millis :: "znp \<Rightarrow> (u32 \<times> znp) option" where
  "zn_millis z = (case zn_line z of [] \<Rightarrow> None
     | (t, bs) # ls \<Rightarrow> Some (t, z\<lparr>zn_line := ls, zn_avail := zn_avail z @ bs\<rparr>))"

section \<open>Frames\<close>

definition zn_computeFcs :: "nat \<Rightarrow> u8 \<Rightarrow> u8 \<Rightarrow> u8 list \<Rightarrow> u8" where
  "zn_computeFcs len cmd0 cmd1 data = foldl (XOR) (of_nat len XOR cmd0 XOR cmd1) (take len data)"

definition zn_encodeFrame :: "out_buf \<Rightarrow> u8 \<Rightarrow> u8 \<Rightarrow> u8 list \<Rightarrow> u8 list option" where
  "zn_encodeFrame out cmd0 cmd1 data =
     (case out of None \<Rightarrow> None
      | Some outMax \<Rightarrow>
          if outMax < length data + 5 then None
          else Some ([ZnSof, of_nat (length data), cmd0, cmd1] @ data @ [zn_computeFcs (length data) cmd0 cmd1 data]))"

definition zn_decodeFrame :: "ptr \<Rightarrow> (u8 \<times> u8 \<times> u8 list) option" where
  "zn_decodeFrame p =
     (case p of None \<Rightarrow> None
      | Some bs \<Rightarrow>
          if length bs < 5 \<or> bs ! 0 \<noteq> ZnSof then None
          else let len = unat (bs ! 1); data = take len (drop 4 bs) in
            if len + 5 \<noteq> length bs then None
            else if zn_computeFcs len (bs ! 2) (bs ! 3) data \<noteq> bs ! (4 + len) then None
            else Some (bs ! 2, bs ! 3, data))"

text \<open>\<open>sendMt\<close>: a frame that does not fit its buffer is not written.\<close>

definition zn_sendMt :: "u8 \<Rightarrow> u8 \<Rightarrow> u8 \<Rightarrow> u8 list \<Rightarrow> znp \<Rightarrow> znp" where
  "zn_sendMt type sub cmd1 data z =
     (case zn_encodeFrame (Some (5 + ZnMaxData)) (type OR (sub AND 0x1F)) cmd1 data of
        None \<Rightarrow> z | Some fr \<Rightarrow> z\<lparr>zn_out := zn_out z @ fr\<rparr>)"

definition zn_feed :: "u8 \<Rightarrow> znp \<Rightarrow> (bool \<times> znp) option" where
  "zn_feed b z =
     (case zn_rxState z of
        ZnWaitSof \<Rightarrow> Some (False, if b = ZnSof then z\<lparr>zn_rxState := ZnLen\<rparr> else z)
      | ZnLen \<Rightarrow> Some (False, z\<lparr>zn_rxLen := b, zn_rxIdx := 0, zn_rxFcs := b, zn_rxState := ZnCmd0\<rparr>)
      | ZnCmd0 \<Rightarrow> Some (False, z\<lparr>zn_rxCmd0 := b, zn_rxFcs := zn_rxFcs z XOR b, zn_rxState := ZnCmd1\<rparr>)
      | ZnCmd1 \<Rightarrow> Some (False, z\<lparr>zn_rxCmd1 := b, zn_rxFcs := zn_rxFcs z XOR b,
                     zn_rxState := (if 0 < zn_rxLen z then ZnData else ZnFcs)\<rparr>)
      | ZnData \<Rightarrow>
          if length (zn_frm z) \<le> unat (zn_rxIdx z) then None
          else Some (False, z\<lparr>zn_frm := (zn_frm z)[unat (zn_rxIdx z) := b], zn_rxIdx := zn_rxIdx z + 1,
                 zn_rxFcs := zn_rxFcs z XOR b,
                 zn_rxState := (if zn_rxLen z \<le> zn_rxIdx z + 1 then ZnFcs else ZnData)\<rparr>)
      | ZnFcs \<Rightarrow>
          if b \<noteq> zn_rxFcs z then Some (False, z\<lparr>zn_rxState := ZnWaitSof\<rparr>)
          else Some (True, z\<lparr>zn_rxState := ZnWaitSof, zn_frmCmd0 := zn_rxCmd0 z, zn_frmCmd1 := zn_rxCmd1 z,
                 zn_frmLen := zn_rxLen z\<rparr>))"

text \<open>The inner loop of \<open>readFrame\<close> over the bytes that are available: stops behind the first frame.\<close>

fun zn_readBytes :: "u8 list \<Rightarrow> znp \<Rightarrow> (bool \<times> znp \<times> u8 list) option" where
  "zn_readBytes [] z = Some (False, z, [])"
| "zn_readBytes (b # bs) z = do {
     (ok, z) \<leftarrow> zn_feed b z;
     if ok then Some (True, z, bs) else zn_readBytes bs z
   }"

definition zn_readAvailable :: "znp \<Rightarrow> (bool \<times> znp) option" where
  "zn_readAvailable z = do {
     (ok, z', rest) \<leftarrow> zn_readBytes (zn_avail z) z;
     Some (ok, z'\<lparr>zn_avail := rest\<rparr>)
   }"

lemma zn_feed_line: "zn_feed b z = Some (ok, z') \<Longrightarrow> zn_line z' = zn_line z"
  by (auto simp: zn_feed_def split: znp_rx.splits if_splits)

lemma zn_readBytes_line: "zn_readBytes bs z = Some (ok, z', rest) \<Longrightarrow> zn_line z' = zn_line z"
  by (induction bs z rule: zn_readBytes.induct) (auto simp: bind_eq_Some_conv dest: zn_feed_line split: if_splits)

lemma zn_readAvailable_line: "zn_readAvailable z = Some (ok, z') \<Longrightarrow> zn_line z' = zn_line z"
  by (auto simp: zn_readAvailable_def bind_eq_Some_conv dest: zn_readBytes_line)

lemma zn_millis_line: "zn_millis z = Some (t, z') \<Longrightarrow> length (zn_line z') < length (zn_line z)"
  by (auto simp: zn_millis_def split: list.splits)

function zn_readWait :: "u32 \<Rightarrow> u32 \<Rightarrow> znp \<Rightarrow> (bool \<times> znp) option" where
  "zn_readWait t0 timeoutMs z =
     (case zn_millis z of None \<Rightarrow> Some (False, z)
      | Some (t, z1) \<Rightarrow>
          if \<not> t - t0 < timeoutMs then Some (False, z1)
          else case zn_readAvailable z1 of None \<Rightarrow> None
            | Some (ok, z2) \<Rightarrow> if ok then Some (True, z2) else zn_readWait t0 timeoutMs z2)"
  by pat_completeness auto

termination
  by (relation "measure (\<lambda>(_, _, z). length (zn_line z))") (auto dest!: zn_readAvailable_line zn_millis_line)

declare zn_readWait.simps [simp del]

definition zn_readFrame :: "u32 \<Rightarrow> znp \<Rightarrow> (bool \<times> znp) option" where
  "zn_readFrame timeoutMs z =
     (case zn_millis z of None \<Rightarrow> Some (False, z) | Some (t0, z1) \<Rightarrow> zn_readWait t0 timeoutMs z1)"

lemma zn_readWait_line: "zn_readWait t0 timeoutMs z = Some (ok, z') \<Longrightarrow> length (zn_line z') \<le> length (zn_line z)"
  by (induction t0 timeoutMs z rule: zn_readWait.induct)
    (subst (asm) (2) zn_readWait.simps, auto dest!: zn_readAvailable_line zn_millis_line split: option.splits if_splits, fastforce)

lemma zn_readFrame_line: "zn_readFrame timeoutMs z = Some (ok, z') \<Longrightarrow> length (zn_line z') \<le> length (zn_line z)"
  by (auto simp: zn_readFrame_def dest!: zn_millis_line zn_readWait_line split: option.splits)


section \<open>Indications and requests\<close>

definition zn_incoming :: "znp \<Rightarrow> znp_incoming" where
  "zn_incoming z = (let f = (\<lambda>i. zn_frm z ! i); f16 = (\<lambda>i. le_val (take 2 (drop i (zn_frm z)))) in
     \<lparr>zm_groupId = f16 0, zm_clusterId = f16 2, zm_srcAddr = f16 4, zm_srcEndpoint = f 6, zm_dstEndpoint = f 7,
      zm_wasBroadcast = (f 8 \<noteq> 0), zm_linkQuality = f 9, zm_transSeqNum = f 15,
      zm_data = take (unat (f 16)) (drop 17 (zn_frm z))\<rparr>)"

definition zn_event :: "znp_event \<Rightarrow> znp \<Rightarrow> znp" where
  "zn_event e z = z\<lparr>zn_events := zn_events z @ [e]\<rparr>"

definition zn_dispatchAreq :: "znp \<Rightarrow> znp" where
  "zn_dispatchAreq z =
     (let frm = zn_frm z; len = unat (zn_frmLen z) in
      if zn_frmCmd0 z = ZnAreq OR ZnAf \<and> zn_frmCmd1 z = 0x81 then
        if \<not> zn_incomingCb z \<or> len < 17 \<or> len < 17 + unat (frm ! 16) then z
        else zn_event (ZnIncoming (zn_incoming z)) z
      else if zn_frmCmd0 z = ZnAreq OR ZnAf \<and> zn_frmCmd1 z = 0x80 then
        if zn_dataConfirmCb z \<and> 3 \<le> len then zn_event (ZnConfirm (frm ! 0) (frm ! 1) (frm ! 2)) z else z
      else if zn_frmCmd0 z = ZnAreq OR ZnZdo \<and> zn_frmCmd1 z = 0xC0 then
        if zn_stateCb z \<and> 1 \<le> len then zn_event (ZnState (frm ! 0)) z else z
      else z)"

lemma zn_dispatchAreq_line [simp]: "zn_line (zn_dispatchAreq z) = zn_line z"
  by (simp add: zn_dispatchAreq_def zn_event_def Let_def)

text \<open>The loop of \<open>sreq\<close> and \<open>reset\<close>: frames other than the awaited one are dispatched.\<close>

function zn_await :: "u8 \<Rightarrow> u8 \<Rightarrow> u32 \<Rightarrow> u32 \<Rightarrow> znp \<Rightarrow> (bool \<times> znp) option" where
  "zn_await cmd0 cmd1 t0 timeoutMs z =
     (case zn_millis z of None \<Rightarrow> Some (False, z)
      | Some (t, z1) \<Rightarrow>
          if \<not> t - t0 < timeoutMs then Some (False, z1)
          else case zn_readFrame timeoutMs z1 of None \<Rightarrow> None
            | Some (ok, z2) \<Rightarrow>
                if \<not> ok then Some (False, z2)
                else if zn_frmCmd0 z2 = cmd0 \<and> zn_frmCmd1 z2 = cmd1 then Some (True, z2)
                else zn_await cmd0 cmd1 t0 timeoutMs (zn_dispatchAreq z2))"
  by pat_completeness auto

termination
  by (relation "measure (\<lambda>(_, _, _, _, z). length (zn_line z))") (auto dest!: zn_readFrame_line zn_millis_line)

declare zn_await.simps [simp del]

lemma zn_await_line: "zn_await cmd0 cmd1 t0 timeoutMs z = Some (ok, z') \<Longrightarrow> length (zn_line z') \<le> length (zn_line z)"
proof (induction cmd0 cmd1 t0 timeoutMs z rule: zn_await.induct)
  case (1 cmd0 cmd1 t0 timeoutMs z)
  show ?case
  proof (cases "zn_millis z")
    case None
    then show ?thesis using "1.prems" by (simp add: zn_await.simps [of _ _ _ _ z])
  next
    case (Some a)
    obtain t z1 where 1: "zn_millis z = Some (t, z1)" using Some by (cases a) auto
    note m = zn_millis_line [OF 1]
    show ?thesis
    proof (cases "t - t0 < timeoutMs")
      case False
      then show ?thesis using "1.prems" 1 m by (simp add: zn_await.simps [of _ _ _ _ z])
    next
      case True
      then obtain ok2 z2 where 2: "zn_readFrame timeoutMs z1 = Some (ok2, z2)"
        using "1.prems" 1 by (auto simp: zn_await.simps [of _ _ _ _ z] split: option.splits)
      note l = zn_readFrame_line [OF 2]
      show ?thesis
      proof (cases "ok2 \<and> \<not> (zn_frmCmd0 z2 = cmd0 \<and> zn_frmCmd1 z2 = cmd1)")
        case False
        then show ?thesis using "1.prems" 1 2 True m l by (auto simp: zn_await.simps [of _ _ _ _ z] split: if_splits)
      next
        case go: True
        then have "zn_await cmd0 cmd1 t0 timeoutMs (zn_dispatchAreq z2) = Some (ok, z')"
          using "1.prems" 1 2 True by (auto simp: zn_await.simps [of _ _ _ _ z])
        from "1.IH" [OF 1 refl _ 2 refl _ _ this] show ?thesis using True go m l by auto
      qed
    qed
  qed
qed

definition zn_sreqFor :: "u32 \<Rightarrow> u8 \<Rightarrow> u8 \<Rightarrow> u8 list \<Rightarrow> znp \<Rightarrow> (bool \<times> znp) option" where
  "zn_sreqFor timeoutMs sub cmd1 data z =
     (let z = zn_sendMt ZnSreq sub cmd1 data z in
      case zn_millis z of None \<Rightarrow> Some (False, z)
      | Some (t0, z) \<Rightarrow> do {
          (ok, z) \<leftarrow> zn_await (ZnSrsp OR (sub AND 0x1F)) cmd1 t0 timeoutMs z;
          Some (ok, if ok then z\<lparr>zn_respLen := zn_frmLen z,
                                 zn_resp := take (unat (zn_frmLen z)) (zn_frm z) @ drop (unat (zn_frmLen z)) (zn_resp z)\<rparr>
                    else z)
        })"

abbreviation zn_sreq :: "u8 \<Rightarrow> u8 \<Rightarrow> u8 list \<Rightarrow> znp \<Rightarrow> (bool \<times> znp) option" where
  "zn_sreq \<equiv> zn_sreqFor 1000"

lemma zn_sreqFor_line:
  assumes "zn_sreqFor timeoutMs sub cmd1 data z = Some (ok, z')"
  shows "length (zn_line z') \<le> length (zn_line z)" "zn_line z \<noteq> [] \<Longrightarrow> length (zn_line z') < length (zn_line z)"
proof -
  have s: "zn_line (zn_sendMt t s c d z) = zn_line z" for t s c d by (simp add: zn_sendMt_def split: option.split)
  show "length (zn_line z') \<le> length (zn_line z)" "zn_line z \<noteq> [] \<Longrightarrow> length (zn_line z') < length (zn_line z)"
    using assms s [of ZnSreq sub cmd1 data]
    by (auto simp: zn_sreqFor_def Let_def bind_eq_Some_conv zn_millis_def dest!: zn_await_line split: option.splits list.splits if_splits)
qed

section \<open>Operations\<close>

definition zn_reset :: "bool \<Rightarrow> u32 \<Rightarrow> znp \<Rightarrow> (bool \<times> znp) option" where
  "zn_reset soft timeoutMs z =
     (let z = zn_sendMt ZnAreq ZnSys 0x00 [if soft then 1 else 0] z in
      case zn_millis z of None \<Rightarrow> Some (False, z)
      | Some (t0, z) \<Rightarrow> zn_await (ZnAreq OR ZnSys) 0x80 t0 timeoutMs z)"

text \<open>\<open>resp_\<close> as its length and bytes; the bytes behind the length are those of earlier responses.\<close>

definition zn_resp16 :: "nat \<Rightarrow> znp \<Rightarrow> u16" where
  "zn_resp16 i z = le_val (take 2 (drop i (zn_resp z)))"

definition zn_ping :: "znp \<Rightarrow> (bool \<times> znp) option" where
  "zn_ping z = do {
     (ok, z) \<leftarrow> zn_sreq ZnSys 0x01 [] z;
     Some (ok, if ok \<and> 2 \<le> zn_respLen z then z\<lparr>zn_capabilities := zn_resp16 0 z\<rparr> else z)
   }"

text \<open>\<open>begin\<close>: what arrives in the first 50 ms is read and dropped.\<close>

function zn_drain :: "u32 \<Rightarrow> znp \<Rightarrow> znp" where
  "zn_drain t0 z =
     (case zn_millis z of None \<Rightarrow> z
      | Some (t, z1) \<Rightarrow> if \<not> t - t0 < 50 then z1 else zn_drain t0 (z1\<lparr>zn_avail := []\<rparr>))"
  by pat_completeness auto

termination
  by (relation "measure (\<lambda>(_, z). length (zn_line z))") (auto dest!: zn_millis_line)

declare zn_drain.simps [simp del]

definition zn_begin :: "znp \<Rightarrow> (bool \<times> znp) option" where
  "zn_begin z =
     (let z = (case zn_millis z of None \<Rightarrow> z | Some (t0, z) \<Rightarrow> zn_drain t0 z) in
      do {
        (ok, z) \<leftarrow> zn_reset False 2000 z;
        if ok then zn_ping z else Some (False, z)
      })"

lemma zn_ping_line: "zn_ping z = Some (ok, z') \<Longrightarrow> zn_line z \<noteq> [] \<Longrightarrow> length (zn_line z') < length (zn_line z)"
  by (auto simp: zn_ping_def bind_eq_Some_conv dest!: zn_sreqFor_line(2) split: if_splits)

lemma zn_ping_line_le: "zn_ping z = Some (ok, z') \<Longrightarrow> length (zn_line z') \<le> length (zn_line z)"
  by (auto simp: zn_ping_def bind_eq_Some_conv dest!: zn_sreqFor_line(1) split: if_splits)

text \<open>The loop of \<open>waitUntilResponsive\<close>; what arrives during its \<open>delay\<close> comes with the next reading.\<close>

function zn_pingLoop :: "u32 \<Rightarrow> u32 \<Rightarrow> znp \<Rightarrow> (bool \<times> znp) option" where
  "zn_pingLoop t0 timeoutMs z =
     (case zn_ping z of None \<Rightarrow> None
      | Some (ok, z1) \<Rightarrow>
          if ok then Some (True, z1)
          else case zn_millis z1 of None \<Rightarrow> Some (False, z1)
            | Some (t, z2) \<Rightarrow> if timeoutMs \<le> t - t0 then Some (False, z2) else zn_pingLoop t0 timeoutMs z2)"
  by pat_completeness auto

termination
  by (relation "measure (\<lambda>(_, _, z). length (zn_line z))") (auto dest!: zn_millis_line zn_ping_line_le)

declare zn_pingLoop.simps [simp del]

definition zn_waitUntilResponsive :: "u32 \<Rightarrow> znp \<Rightarrow> (bool \<times> znp) option" where
  "zn_waitUntilResponsive timeoutMs z =
     (case zn_millis z of None \<Rightarrow> zn_pingLoop 0 timeoutMs z | Some (t0, z) \<Rightarrow> zn_pingLoop t0 timeoutMs z)"

record znp_version =
  zv_transportRev :: u8
  zv_product :: u8
  zv_major :: u8
  zv_minor :: u8
  zv_maint :: u8

record znp_device_info =
  zi_status :: u8
  zi_ieee :: "u8 list"
  zi_shortAddr :: u16
  zi_deviceType :: u8
  zi_deviceState :: u8
  zi_numAssocDevices :: u8

definition zn_getVersion :: "znp \<Rightarrow> (znp_version option \<times> znp) option" where
  "zn_getVersion z = do {
     (ok, z) \<leftarrow> zn_sreq ZnSys 0x02 [] z;
     Some (if \<not> ok \<or> zn_respLen z < 5 then None
           else Some \<lparr>zv_transportRev = zn_resp z ! 0, zv_product = zn_resp z ! 1, zv_major = zn_resp z ! 2,
                      zv_minor = zn_resp z ! 3, zv_maint = zn_resp z ! 4\<rparr>, z)
   }"

definition zn_getDeviceInfo :: "znp \<Rightarrow> (znp_device_info option \<times> znp) option" where
  "zn_getDeviceInfo z = do {
     (ok, z) \<leftarrow> zn_sreq ZnUtil 0x00 [] z;
     Some (if \<not> ok \<or> zn_respLen z < 14 then None
           else Some \<lparr>zi_status = zn_resp z ! 0, zi_ieee = take 8 (drop 1 (zn_resp z)), zi_shortAddr = zn_resp16 9 z,
                      zi_deviceType = zn_resp z ! 11, zi_deviceState = zn_resp z ! 12,
                      zi_numAssocDevices = zn_resp z ! 13\<rparr>, z)
   }"

text \<open>The end that several requests share: \<open>respLen_ >= 1 && resp_[0] == 0\<close>.\<close>

definition zn_success :: "znp \<Rightarrow> bool" where
  "zn_success z \<longleftrightarrow> 1 \<le> zn_respLen z \<and> zn_resp z ! 0 = 0"

definition zn_request :: "u8 \<Rightarrow> u8 \<Rightarrow> u8 list \<Rightarrow> znp \<Rightarrow> (bool \<times> znp) option" where
  "zn_request sub cmd1 data z = do {
     (ok, z) \<leftarrow> zn_sreq sub cmd1 data z;
     Some (ok \<and> zn_success z, z)
   }"

definition zn_nvWrite :: "u16 \<Rightarrow> u8 \<Rightarrow> u8 list \<Rightarrow> znp \<Rightarrow> (bool \<times> znp) option" where
  "zn_nvWrite nvId offset val z =
     (if 32 < length val then Some (False, z)
      else zn_request ZnSys 0x09 (le16 nvId @ [offset, of_nat (length val)] @ val) z)"

definition zn_setLogicalType :: "u8 \<Rightarrow> znp \<Rightarrow> (bool \<times> znp) option" where
  "zn_setLogicalType type = zn_nvWrite 0x0087 0 [type]"

definition zn_setStartupOption :: "u8 \<Rightarrow> znp \<Rightarrow> (bool \<times> znp) option" where
  "zn_setStartupOption startopt = zn_nvWrite 0x0003 0 [startopt]"

definition zn_setPanId :: "u16 \<Rightarrow> znp \<Rightarrow> (bool \<times> znp) option" where
  "zn_setPanId panId = zn_nvWrite 0x0083 0 (le16 panId)"

definition zn_setChannel :: "u8 \<Rightarrow> znp \<Rightarrow> (bool \<times> znp) option" where
  "zn_setChannel channel z =
     (if channel < 11 \<or> 26 < channel then Some (False, z)
      else zn_nvWrite 0x0084 0 (le32 (push_bit (unat channel) 1)) z)"

definition zn_startupFromApp :: "u16 \<Rightarrow> znp \<Rightarrow> (u8 option \<times> znp) option" where
  "zn_startupFromApp startDelayMs z = do {
     (ok, z) \<leftarrow> zn_sreq ZnZdo 0x40 (le16 startDelayMs) z;
     Some (if \<not> ok then None else Some (if 1 \<le> zn_respLen z then zn_resp z ! 0 else 0xFF), z)
   }"

definition zn_permitJoin :: "u8 \<Rightarrow> znp \<Rightarrow> (bool \<times> znp) option" where
  "zn_permitJoin seconds = zn_request ZnZdo 0x36 [0x0F, 0xFC, 0xFF, seconds, 0x00]"

definition zn_registerEndpoint ::
  "u8 \<Rightarrow> u16 \<Rightarrow> u16 \<Rightarrow> u8 \<Rightarrow> u16 list \<Rightarrow> u16 list \<Rightarrow> znp \<Rightarrow> (bool \<times> znp) option"
where
  "zn_registerEndpoint endpoint profileId deviceId deviceVer inClusters outClusters z =
     (let d = [endpoint] @ le16 profileId @ le16 deviceId @ [deviceVer, 0, of_nat (length inClusters)] @
              concat (map le16 inClusters) @ [of_nat (length outClusters)] @ concat (map le16 outClusters)
      in if ZnMaxData < length d then None else zn_request ZnAf 0x00 d z)"

definition zn_sendData ::
  "u16 \<Rightarrow> u8 \<Rightarrow> u8 \<Rightarrow> u16 \<Rightarrow> u8 \<Rightarrow> u8 list \<Rightarrow> u8 \<Rightarrow> bool \<Rightarrow> znp \<Rightarrow> (bool \<times> znp) option"
where
  "zn_sendData dstAddr dstEndpoint srcEndpoint clusterId transId data radius ackRequest z =
     (if 100 < length data then Some (False, z)
      else zn_request ZnAf 0x01 (le16 dstAddr @ [dstEndpoint, srcEndpoint] @ le16 clusterId @
             [transId, if ackRequest then 0x10 else 0x00, radius, of_nat (length data)] @ data) z)"

text \<open>\<open>poll\<close> over the bytes that are available; responses nobody waits for are dropped.\<close>

fun zn_pollBytes :: "u8 list \<Rightarrow> znp \<Rightarrow> znp option" where
  "zn_pollBytes [] z = Some z"
| "zn_pollBytes (b # bs) z = do {
     (ok, z) \<leftarrow> zn_feed b z;
     zn_pollBytes bs (if ok \<and> zn_frmCmd0 z AND 0xE0 = ZnAreq then zn_dispatchAreq z else z)
   }"

definition zn_poll :: "znp \<Rightarrow> znp option" where
  "zn_poll z = zn_pollBytes (zn_avail z) (z\<lparr>zn_avail := []\<rparr>)"

end
