(* ===== verification/ZbZnpFacts.thy ===== *)
theory ZbZnpFacts
  imports ZbZnp
begin

text \<open>
  The driver of the vendor firmware is right: a frame is read back as it was written however the line cuts it up, the
  indications before a response reach their callbacks in order, and a request is answered with its response.
\<close>

section \<open>Frames\<close>

definition zn_frame :: "u8 \<times> u8 \<times> u8 list \<Rightarrow> u8 list" where
  "zn_frame = (\<lambda>(c0, c1, d). [ZnSof, of_nat (length d), c0, c1] @ d @ [zn_computeFcs (length d) c0 c1 d])"

definition zn_fcsAt :: "u8 \<times> u8 \<times> u8 list \<Rightarrow> nat \<Rightarrow> u8" where
  "zn_fcsAt = (\<lambda>(c0, c1, d) j. foldl (XOR) (of_nat (length d) XOR c0 XOR c1) (take j d))"

lemma length_zn_frame [simp]: "length (zn_frame (c0, c1, d)) = length d + 5"
  by (simp add: zn_frame_def)

lemma zn_encodeFrame_frame: "length d + 5 \<le> m \<Longrightarrow> zn_encodeFrame (Some m) c0 c1 d = Some (zn_frame (c0, c1, d))"
  by (simp add: zn_encodeFrame_def zn_frame_def)

lemma zn_decodeFrame_frame:
  assumes "length d < 256"
  shows "zn_decodeFrame (Some (zn_frame (c0, c1, d))) = Some (c0, c1, d)"
  using assms by (simp add: zn_decodeFrame_def zn_frame_def Let_def nth_append)

lemma zn_fcsAt_Suc: "j < length d \<Longrightarrow> zn_fcsAt (c0, c1, d) (Suc j) = zn_fcsAt (c0, c1, d) j XOR d ! j"
  by (simp add: zn_fcsAt_def take_Suc_conv_app_nth)

lemma zn_fcsAt_all: "zn_fcsAt (c0, c1, d) (length d) = zn_computeFcs (length d) c0 c1 d"
  by (simp add: zn_fcsAt_def zn_computeFcs_def)

lemma zn_frame_nth:
  "zn_frame (c0, c1, d) ! 0 = ZnSof" "zn_frame (c0, c1, d) ! 1 = of_nat (length d)"
  "zn_frame (c0, c1, d) ! 2 = c0" "zn_frame (c0, c1, d) ! 3 = c1"
  "j < length d \<Longrightarrow> zn_frame (c0, c1, d) ! (4 + j) = d ! j"
  "zn_frame (c0, c1, d) ! (4 + length d) = zn_fcsAt (c0, c1, d) (length d)"
  by (simp_all add: zn_frame_def zn_fcsAt_all nth_append)

section \<open>The parser\<close>

text \<open>\<open>zn_at\<close>: \<open>k\<close> bytes of the frame have been read. \<open>zn_got\<close>: it has been read, and the parser is idle.\<close>

definition zn_at :: "u8 \<times> u8 \<times> u8 list \<Rightarrow> nat \<Rightarrow> znp \<Rightarrow> bool" where
  "zn_at = (\<lambda>(c0, c1, d) k z. length (zn_frm z) = ZnMaxData \<and>
     (if k = 0 then zn_rxState z = ZnWaitSof else if k = 1 then zn_rxState z = ZnLen
      else zn_rxLen z = of_nat (length d) \<and> zn_rxIdx z = of_nat (k - 4) \<and>
        (if k = 2 then zn_rxState z = ZnCmd0 \<and> zn_rxFcs z = of_nat (length d)
         else zn_rxCmd0 z = c0 \<and>
           (if k = 3 then zn_rxState z = ZnCmd1 \<and> zn_rxFcs z = of_nat (length d) XOR c0
            else zn_rxCmd1 z = c1 \<and> zn_rxFcs z = zn_fcsAt (c0, c1, d) (k - 4) \<and>
              take (k - 4) (zn_frm z) = take (k - 4) d \<and>
              zn_rxState z = (if k - 4 < length d then ZnData else ZnFcs)))))"

definition zn_got :: "u8 \<times> u8 \<times> u8 list \<Rightarrow> znp \<Rightarrow> bool" where
  "zn_got = (\<lambda>(c0, c1, d) z. zn_frmCmd0 z = c0 \<and> zn_frmCmd1 z = c1 \<and> zn_frmLen z = of_nat (length d) \<and>
     length (zn_frm z) = ZnMaxData \<and> take (length d) (zn_frm z) = d \<and> zn_rxState z = ZnWaitSof)"

text \<open>What reading frames leaves alone.\<close>

definition zn_kept :: "znp \<Rightarrow> znp \<Rightarrow> bool" where
  "zn_kept z z' \<longleftrightarrow> zn_resp z' = zn_resp z \<and> zn_respLen z' = zn_respLen z \<and> zn_capabilities z' = zn_capabilities z \<and>
     zn_incomingCb z' = zn_incomingCb z \<and> zn_stateCb z' = zn_stateCb z \<and> zn_dataConfirmCb z' = zn_dataConfirmCb z \<and>
     zn_out z' = zn_out z"

definition zn_same :: "znp \<Rightarrow> znp \<Rightarrow> bool" where
  "zn_same z z' \<longleftrightarrow> zn_kept z z' \<and> zn_events z' = zn_events z \<and> zn_avail z' = zn_avail z \<and> zn_line z' = zn_line z"

lemmas zn_same_defs = zn_same_def zn_kept_def

lemma zn_same_trans: "zn_same x y \<Longrightarrow> zn_same y z \<Longrightarrow> zn_same x z"
  by (simp add: zn_same_defs)

lemma zn_feed_step:
  assumes "zn_at f k z" "k < length (zn_frame f) - 1" "length (zn_frame f) \<le> 255"
  obtains z' where "zn_feed (zn_frame f ! k) z = Some (False, z')" "zn_at f (Suc k) z'" "zn_same z z'"
proof -
  obtain c0 c1 d where f: "f = (c0, c1, d)" by (cases f) auto
  have d: "length d \<le> 250" "k < length d + 4" using assms f by auto
  have "k = 0 \<or> k = 1 \<or> k = 2 \<or> k = 3 \<or> (\<exists>j<length d. k = 4 + j)"
  proof (cases "k < 4")
    case False
    then have "k = 4 + (k - 4)" "k - 4 < length d" using d(2) by auto
    then show ?thesis by blast
  qed auto
  then consider "k = 0" | "k = 1" | "k = 2" | "k = 3" | j where "k = 4 + j" "j < length d" by auto
  then have "\<exists>z'. zn_feed (zn_frame f ! k) z = Some (False, z') \<and> zn_at f (Suc k) z' \<and> zn_same z z'"
  proof cases
    case 1
    then show ?thesis using assms(1) by (auto simp: f zn_at_def zn_feed_def zn_frame_nth zn_same_defs)
  next
    case 2
    then show ?thesis using assms(1) zn_frame_nth(2) [of c0 c1 d] by (auto simp: f zn_at_def zn_feed_def zn_same_defs)
  next
    case 3
    then show ?thesis using assms(1) by (auto simp: f zn_at_def zn_feed_def zn_frame_nth zn_same_defs)
  next
    case 4
    have "(0 < (of_nat (length d) :: u8)) = (0 < length d)" using d(1) by (simp add: word_less_nat_alt)
    then show ?thesis using assms(1) 4 by (auto simp: f zn_at_def zn_feed_def zn_frame_nth zn_same_defs zn_fcsAt_def xor.assoc)
  next
    case (5 j)
    have u: "unat (of_nat j :: u8) = j" "unat (of_nat (Suc j) :: u8) = Suc j" "unat (of_nat (length d) :: u8) = length d"
      using 5 d(1) by (simp_all del: of_nat_Suc)
    then have c: "((of_nat (length d) :: u8) \<le> of_nat j + 1) = (length d \<le> Suc j)"
      by (simp add: word_le_nat_alt add.commute)
    have z: "length (zn_frm z) = 250" "zn_rxState z = ZnData" "zn_rxIdx z = of_nat j" "zn_rxLen z = of_nat (length d)"
      "zn_rxCmd0 z = c0" "zn_rxCmd1 z = c1" "zn_rxFcs z = zn_fcsAt (c0, c1, d) j" "take j (zn_frm z) = take j d"
      using assms(1) 5 by (auto simp: f zn_at_def)
    have t: "take (Suc j) ((zn_frm z)[j := d ! j]) = take (Suc j) d"
      using z(1,8) 5 d(1) by (simp add: take_Suc_conv_app_nth)
    have b: "zn_frame f ! k = d ! j" using 5 zn_frame_nth(5) [of j d c0 c1] by (simp add: f)
    have "zn_feed (d ! j) z = Some (False, z\<lparr>zn_frm := (zn_frm z)[j := d ! j], zn_rxIdx := of_nat j + 1,
        zn_rxFcs := zn_fcsAt (c0, c1, d) (Suc j), zn_rxState := (if length d \<le> Suc j then ZnFcs else ZnData)\<rparr>)"
      using z 5 d(1) c u(1) by (simp add: zn_feed_def zn_fcsAt_Suc)
    then show ?thesis unfolding b using z 5 d(1) t
      by (auto simp: f zn_at_def zn_same_defs add.commute)
  qed
  then show thesis using that by blast
qed

lemma zn_feed_last:
  assumes "zn_at f (length (zn_frame f) - 1) z" "length (zn_frame f) \<le> 255"
  obtains z' where "zn_feed (zn_frame f ! (length (zn_frame f) - 1)) z = Some (True, z')" "zn_got f z'" "zn_same z z'"
proof -
  obtain c0 c1 d where f: "f = (c0, c1, d)" by (cases f) auto
  have n: "length (zn_frame f) - 1 = 4 + length d" by (simp add: f)
  have z: "length (zn_frm z) = 250" "zn_rxState z = ZnFcs" "zn_rxLen z = of_nat (length d)" "zn_rxCmd0 z = c0" "zn_rxCmd1 z = c1"
    "zn_rxFcs z = zn_fcsAt (c0, c1, d) (length d)" "take (length d) (zn_frm z) = d"
    using assms(1) by (auto simp: f zn_at_def)
  then have "\<exists>z'. zn_feed (zn_frame f ! (4 + length d)) z = Some (True, z') \<and> zn_got f z' \<and> zn_same z z'"
    by (simp add: f zn_feed_def zn_frame_nth zn_got_def zn_same_defs)
  then show thesis using that n by auto
qed


lemma zn_readBytes_frame:
  assumes "zn_at f k z" "k < length (zn_frame f)" "length (zn_frame f) \<le> 255" "bs @ left = drop k (zn_frame f) @ rest"
  shows "\<exists>ok z'. zn_readBytes bs z = Some (ok, z', drop (length (zn_frame f) - k) bs) \<and> zn_same z z' \<and>
    (if length (zn_frame f) - k \<le> length bs then ok \<and> zn_got f z' else \<not> ok \<and> zn_at f (k + length bs) z')"
  using assms
proof (induction bs arbitrary: k z)
  case Nil
  have "\<not> length (zn_frame f) - k \<le> 0" using Nil.prems(2) by simp
  then show ?case using Nil.prems(1) by (intro exI [of _ False] exI [of _ z]) (simp add: zn_same_defs)
next
  case (Cons b bs)
  have b: "b = zn_frame f ! k" "bs @ left = drop (Suc k) (zn_frame f) @ rest"
  proof -
    have "b # bs @ left = zn_frame f ! k # drop (Suc k) (zn_frame f) @ rest"
      using Cons.prems(4) Cons_nth_drop_Suc [OF Cons.prems(2)] by (metis append_Cons)
    then show "b = zn_frame f ! k" "bs @ left = drop (Suc k) (zn_frame f) @ rest" by simp_all
  qed
  show ?case
  proof (cases "Suc k < length (zn_frame f)")
    case True
    obtain z1 where 1: "zn_feed b z = Some (False, z1)" "zn_at f (Suc k) z1" "zn_same z z1"
      unfolding b(1) by (rule zn_feed_step [OF Cons.prems(1) _ Cons.prems(3)]) (use True in auto)
    from Cons.IH [OF 1(2) True Cons.prems(3) b(2)] obtain ok z' where 2:
      "zn_readBytes bs z1 = Some (ok, z', drop (length (zn_frame f) - Suc k) bs)" "zn_same z1 z'"
      "if length (zn_frame f) - Suc k \<le> length bs then ok \<and> zn_got f z' else \<not> ok \<and> zn_at f (Suc k + length bs) z'" by blast
    have "length (zn_frame f) - k = Suc (length (zn_frame f) - Suc k)" using True by simp
    then show ?thesis using 1 2 zn_same_trans [OF 1(3) 2(2)] by auto
  next
    case False
    then have k: "k = length (zn_frame f) - 1" using Cons.prems(2) by simp
    obtain z1 where "zn_feed b z = Some (True, z1)" "zn_got f z1" "zn_same z z1"
      unfolding b(1) k by (rule zn_feed_last [OF _ Cons.prems(3)]) (use k Cons.prems(1) in auto)
    moreover have "length (zn_frame f) - k = 1" using k Cons.prems(2) by simp
    ultimately show ?thesis by auto
  qed
qed

lemma zn_got_at: "zn_got f z \<Longrightarrow> zn_at g 0 z"
  by (cases f; cases g) (auto simp: zn_got_def zn_at_def)

section \<open>Waiting for a frame\<close>

text \<open>The bytes still to be read; \<open>zn_quiet n\<close>: none arrive after the next \<open>n\<close> readings of the clock; \<open>zn_in_time\<close>:
  every reading is less than the limit after every earlier one.\<close>

definition zn_stream :: "znp \<Rightarrow> u8 list" where
  "zn_stream z = zn_avail z @ concat (map snd (zn_line z))"

definition zn_quiet :: "nat \<Rightarrow> (u32 \<times> u8 list) list \<Rightarrow> bool" where
  "zn_quiet n ls \<longleftrightarrow> (\<forall>x\<in>set (drop n ls). snd x = [])"

definition zn_in_time :: "u32 \<Rightarrow> u32 list \<Rightarrow> bool" where
  "zn_in_time limit ts \<longleftrightarrow> sorted_wrt (\<lambda>t t'. t' - t < limit) ts"

definition zn_reads :: "nat \<Rightarrow> znp \<Rightarrow> znp \<Rightarrow> bool" where
  "zn_reads i z z' \<longleftrightarrow> zn_kept z z' \<and> zn_events z' = zn_events z \<and> zn_line z' = drop i (zn_line z)"

lemma zn_reads_trans: "zn_reads i x y \<Longrightarrow> zn_reads j y z \<Longrightarrow> zn_reads (j + i) x z"
  by (simp add: zn_reads_def zn_kept_def)

lemma zn_at_line [simp]: "zn_at f k (z\<lparr>zn_line := ls, zn_avail := bs\<rparr>) = zn_at f k z"
  "zn_at f k (z\<lparr>zn_avail := bs\<rparr>) = zn_at f k z" "zn_at f k (z\<lparr>zn_line := ls\<rparr>) = zn_at f k z"
  by (cases f, simp add: zn_at_def)+

lemma zn_got_line [simp]: "zn_got f (z\<lparr>zn_avail := bs\<rparr>) = zn_got f z"
  by (cases f) (simp add: zn_got_def)

lemma zn_millis_reads:
  assumes "zn_line z = (t, bs) # ls"
  obtains z' where "zn_millis z = Some (t, z')" "zn_line z' = ls" "zn_stream z' = zn_stream z" "zn_reads 1 z z'"
    "\<And>f k. zn_at f k z \<Longrightarrow> zn_at f k z'" "zn_avail z' = zn_avail z @ bs"
  using assms by (intro that [of "z\<lparr>zn_line := ls, zn_avail := zn_avail z @ bs\<rparr>"])
    (simp_all add: zn_millis_def zn_stream_def zn_reads_def zn_kept_def)

lemma zn_readWait_frame:
  assumes "zn_at f k z" "k < length (zn_frame f)" "length (zn_frame f) \<le> 255"
    "zn_stream z = drop k (zn_frame f) @ rest" "zn_in_time limit (t0 # map fst (zn_line z))"
    "zn_quiet n (zn_line z)" "n < length (zn_line z)"
  shows "\<exists>z' i. zn_readWait t0 limit z = Some (True, z') \<and> zn_got f z' \<and> zn_reads i z z' \<and> zn_stream z' = rest \<and> i \<le> n + 1"
  using assms
proof (induction n arbitrary: k z)
  case 0
  then obtain t bs ls where l: "zn_line z = (t, bs) # ls" by (cases "zn_line z") auto
  obtain z1 where 1: "zn_millis z = Some (t, z1)" "zn_line z1 = ls" "zn_stream z1 = zn_stream z" "zn_reads 1 z z1" "zn_at f k z1"
    by (rule zn_millis_reads [OF l]) (use "0.prems"(1) in blast)
  have t: "t - t0 < limit" using "0.prems"(5) l by (simp add: zn_in_time_def)
  have q: "concat (map snd ls) = []" using "0.prems"(6) l by (simp add: zn_quiet_def)
  have a: "zn_avail z1 = drop k (zn_frame f) @ rest" using 1(2,3) q "0.prems"(4) by (simp add: zn_stream_def)
  from zn_readBytes_frame [OF 1(5) "0.prems"(2,3), of "zn_avail z1" "[]" rest] a obtain z2 where 2:
    "zn_readBytes (zn_avail z1) z1 = Some (True, z2, rest)" "zn_same z1 z2" "zn_got f z2" by auto
  show ?case
    using 1 2 t q by (intro exI [of _ "z2\<lparr>zn_avail := rest\<rparr>"] exI [of _ 1])
      (auto simp: zn_readWait.simps [of _ _ z] zn_readAvailable_def zn_reads_def zn_same_defs zn_stream_def)
next
  case (Suc n)
  then obtain t bs ls where l: "zn_line z = (t, bs) # ls" by (cases "zn_line z") auto
  obtain z1 where 1: "zn_millis z = Some (t, z1)" "zn_line z1 = ls" "zn_stream z1 = zn_stream z" "zn_reads 1 z z1" "zn_at f k z1"
    by (rule zn_millis_reads [OF l]) (use Suc.prems(1) in blast)
  have t: "t - t0 < limit" using Suc.prems(5) l by (simp add: zn_in_time_def)
  have a: "zn_avail z1 @ concat (map snd ls) = drop k (zn_frame f) @ rest" using 1(2,3) Suc.prems(4) by (simp add: zn_stream_def)
  from zn_readBytes_frame [OF 1(5) Suc.prems(2,3) a] obtain ok z2 where 2:
    "zn_readBytes (zn_avail z1) z1 = Some (ok, z2, drop (length (zn_frame f) - k) (zn_avail z1))" "zn_same z1 z2"
    "if length (zn_frame f) - k \<le> length (zn_avail z1) then ok \<and> zn_got f z2 else \<not> ok \<and> zn_at f (k + length (zn_avail z1)) z2"
    by blast
  let ?z3 = "z2\<lparr>zn_avail := drop (length (zn_frame f) - k) (zn_avail z1)\<rparr>"
  have r: "zn_readAvailable z1 = Some (ok, ?z3)" "zn_reads 1 z ?z3" "zn_line ?z3 = ls"
    using 1 2(1,2) by (auto simp: zn_readAvailable_def zn_reads_def zn_same_defs)
  show ?case
  proof (cases "length (zn_frame f) - k \<le> length (zn_avail z1)")
    case True
    have "zn_stream ?z3 = drop (length (zn_frame f) - k) (zn_avail z1 @ concat (map snd ls))"
      using True r(3) by (simp add: zn_stream_def)
    then have "zn_stream ?z3 = rest" using a by simp
    then show ?thesis using 1(1) 2(3) t r True by (intro exI [of _ ?z3] exI [of _ 1])
        (auto simp: zn_readWait.simps [of _ _ z])
  next
    case False
    let ?k = "k + length (zn_avail z1)"
    have s: "drop k (zn_frame f) = zn_avail z1 @ drop ?k (zn_frame f)"
    proof -
      have "zn_avail z1 = take (length (zn_avail z1)) (drop k (zn_frame f))"
        using arg_cong [OF a, of "take (length (zn_avail z1))"] False by simp
      then show ?thesis by (metis append_take_drop_id drop_drop add.commute)
    qed
    have p: "zn_at f ?k ?z3" using 2(3) False by simp
    have p': "zn_stream ?z3 = drop ?k (zn_frame f) @ rest" using a s False r(3) by (simp add: zn_stream_def)
    have p'': "zn_in_time limit (t0 # map fst (zn_line ?z3))" "zn_quiet n (zn_line ?z3)" "n < length (zn_line ?z3)"
      using Suc.prems(5-7) l r(3) by (auto simp: zn_in_time_def zn_quiet_def)
    have "?k < length (zn_frame f)" using False by simp
    from Suc.IH [OF p this Suc.prems(3) p' p''] obtain z' i where 3: "zn_readWait t0 limit ?z3 = Some (True, z')"
      "zn_got f z'" "zn_reads i ?z3 z'" "zn_stream z' = rest" "i \<le> n + 1" by blast
    have "zn_readWait t0 limit z = Some (True, z')" using 1(1) 2(3) t r(1) 3(1) False by (simp add: zn_readWait.simps [of _ _ z])
    then show ?thesis using 3 zn_reads_trans [OF r(2) 3(3)] by (intro exI [of _ z'] exI [of _ "i + 1"]) auto
  qed
qed


section \<open>Indications\<close>

text \<open>The calls an indication deserves, from its bytes.\<close>

definition zn_told :: "znp \<Rightarrow> u8 \<times> u8 \<times> u8 list \<Rightarrow> znp_event list" where
  "zn_told z = (\<lambda>(c0, c1, d).
     let w = (\<lambda>i. le_val (take 2 (drop i d))) in
     if (c0, c1) = (0x44, 0x81) then
       if zn_incomingCb z \<and> 17 \<le> length d \<and> 17 + unat (d ! 16) \<le> length d then
         [ZnIncoming \<lparr>zm_groupId = w 0, zm_clusterId = w 2, zm_srcAddr = w 4, zm_srcEndpoint = d ! 6, zm_dstEndpoint = d ! 7,
            zm_wasBroadcast = (d ! 8 \<noteq> 0), zm_linkQuality = d ! 9, zm_transSeqNum = d ! 15,
            zm_data = take (unat (d ! 16)) (drop 17 d)\<rparr>]
       else []
     else if (c0, c1) = (0x44, 0x80) then
       if zn_dataConfirmCb z \<and> 3 \<le> length d then [ZnConfirm (d ! 0) (d ! 1) (d ! 2)] else []
     else if (c0, c1) = (0x45, 0xC0) then if zn_stateCb z \<and> 1 \<le> length d then [ZnState (d ! 0)] else []
     else [])"

lemma zn_dispatchAreq_told:
  assumes "zn_got f z" "length (zn_frame f) \<le> 255"
  shows "zn_dispatchAreq z = z\<lparr>zn_events := zn_events z @ zn_told z f\<rparr>"
proof -
  obtain c0 c1 d where f: "f = (c0, c1, d)" by (cases f) auto
  have g: "zn_frmCmd0 z = c0" "zn_frmCmd1 z = c1" "zn_frmLen z = of_nat (length d)" "take (length d) (zn_frm z) = d" "length (zn_frm z) = 250"
    and d: "length d \<le> 250" using assms by (auto simp: f zn_got_def)
  have l: "unat (zn_frmLen z) = length d" using g(3) d by simp
  have n: "zn_frm z ! i = d ! i" if "i < length d" for i using g(4) nth_take [OF that, of "zn_frm z"] by simp
  have w: "take m (drop i (zn_frm z)) = take m (drop i d)" if "i + m \<le> length d" for i m
    using that arg_cong [OF g(4), of "\<lambda>xs. take m (drop i xs)"] by (simp add: drop_take min_def split: if_splits)
  have i: "zn_incoming z = \<lparr>zm_groupId = le_val (take 2 (drop 0 d)), zm_clusterId = le_val (take 2 (drop 2 d)),
      zm_srcAddr = le_val (take 2 (drop 4 d)), zm_srcEndpoint = d ! 6, zm_dstEndpoint = d ! 7,
      zm_wasBroadcast = (d ! 8 \<noteq> 0), zm_linkQuality = d ! 9, zm_transSeqNum = d ! 15,
      zm_data = take (unat (d ! 16)) (drop 17 d)\<rparr>" if "17 \<le> length d" "17 + unat (d ! 16) \<le> length d"
    using that w [of 0 2] w [of 2 2] w [of 4 2] w [of 17 "unat (d ! 16)"] by (simp add: zn_incoming_def Let_def n)
  have c: "ZnAreq OR ZnAf = (0x44 :: u8)" "ZnAreq OR ZnZdo = (0x45 :: u8)" by simp_all
  consider "c0 = 0x44 \<and> c1 = 0x81" | "c0 = 0x44 \<and> c1 = 0x80" | "c0 = 0x45 \<and> c1 = 0xC0"
    | "\<not> (c0 = 0x44 \<and> c1 = 0x81) \<and> \<not> (c0 = 0x44 \<and> c1 = 0x80) \<and> \<not> (c0 = 0x45 \<and> c1 = 0xC0)" by blast
  then show ?thesis
  proof cases
    case 1
    show ?thesis
    proof (cases "17 \<le> length d \<and> 17 + unat (d ! 16) \<le> length d")
      case True
      then have "zn_frm z ! 16 = d ! 16" by (intro n) simp
      then show ?thesis using 1 True i by (simp add: zn_dispatchAreq_def zn_told_def f g(1,2) l c zn_event_def Let_def)
    next
      case False
      then have "length d < 17 \<or> length d < 17 + unat (zn_frm z ! 16)" using n [of 16] by auto
      then show ?thesis using 1 False by (auto simp: zn_dispatchAreq_def zn_told_def f g(1,2) l c zn_event_def Let_def)
    qed
  next
    case 2
    then show ?thesis using n [of 0] n [of 1] n [of 2] by (cases "d = []"; cases "3 \<le> length d") (simp_all add: zn_dispatchAreq_def zn_told_def f g(1,2) l c zn_event_def Let_def)
  next
    case 3
    then show ?thesis by (simp add: zn_dispatchAreq_def zn_told_def f g(1,2) l c zn_event_def Let_def n Suc_le_eq)
  next
    case 4
    have "zn_told z f = []" using 4 by (auto simp: zn_told_def f)
    moreover have "zn_dispatchAreq z = z"
      unfolding zn_dispatchAreq_def g(1,2) c Let_def using 4 by (simp only: if_False)
    ultimately show ?thesis by simp
  qed
qed

lemma zn_told_kept: "zn_kept z z' \<Longrightarrow> zn_told z' = zn_told z"
  by (auto simp: zn_told_def zn_kept_def fun_eq_iff Let_def)

section \<open>Requests\<close>

lemma zn_in_time_drop: "zn_in_time limit (map fst ls) \<Longrightarrow> zn_in_time limit (map fst (drop i ls))"
  by (simp add: zn_in_time_def flip: drop_map)

lemma zn_quiet_drop: "zn_quiet n ls \<Longrightarrow> zn_quiet (n - i) (drop i ls)"
proof -
  assume q: "zn_quiet n ls"
  have "n \<le> n - i + i" by simp
  from set_drop_subset_set_drop [OF this, of ls] q show ?thesis by (auto simp: zn_quiet_def)
qed

definition zn_idle :: "znp \<Rightarrow> bool" where
  "zn_idle z \<longleftrightarrow> zn_rxState z = ZnWaitSof \<and> length (zn_frm z) = ZnMaxData"

lemma zn_idle_at: "zn_idle z \<Longrightarrow> zn_at f 0 z"
  by (cases f) (simp add: zn_at_def zn_idle_def)

lemma zn_got_idle: "zn_got f z \<Longrightarrow> zn_idle z"
  by (cases f) (simp add: zn_got_def zn_idle_def)

lemma zn_await_frame:
  assumes "zn_idle z" "length (zn_frame f) \<le> 255" "zn_stream z = zn_frame f @ rest" "zn_in_time limit (t0 # map fst (zn_line z))"
    "zn_quiet n (zn_line z)" "n + 3 \<le> length (zn_line z)"
  obtains t z1 z2 i where "zn_millis z = Some (t, z1)" "t - t0 < limit" "zn_readFrame limit z1 = Some (True, z2)" "zn_got f z2"
    "zn_reads i z z2" "zn_stream z2 = rest" "i \<le> n + 3"
proof -
  obtain t b t' b' ls where l: "zn_line z = (t, b) # (t', b') # ls"
    using assms(6) by (cases "zn_line z" rule: remdups_adj.cases) auto
  obtain z1 where 1: "zn_millis z = Some (t, z1)" "zn_line z1 = (t', b') # ls" "zn_stream z1 = zn_stream z" "zn_reads 1 z z1" "zn_at f 0 z1"
    by (rule zn_millis_reads [OF l]) (use zn_idle_at [OF assms(1)] in blast)
  obtain z2 where 2: "zn_millis z1 = Some (t', z2)" "zn_line z2 = ls" "zn_stream z2 = zn_stream z1" "zn_reads 1 z1 z2" "zn_at f 0 z2"
    by (rule zn_millis_reads [OF 1(2)]) (use 1(5) in blast)
  have "zn_in_time limit (t' # map fst (zn_line z2))" "zn_quiet (n - 2) (zn_line z2)" "n - 2 < length (zn_line z2)"
    using assms(4,6) zn_quiet_drop [OF assms(5), of 2] l 2(2) by (auto simp: zn_in_time_def)
  from zn_readWait_frame [OF 2(5) _ assms(2) _ this] assms(3) 1(3) 2(3) obtain z3 i where 3:
    "zn_readWait t' limit z2 = Some (True, z3)" "zn_got f z3" "zn_reads i z2 z3" "zn_stream z3 = rest" "i \<le> n - 2 + 1"
    by (cases f) auto
  have "zn_readFrame limit z1 = Some (True, z3)" using 2(1) 3(1) by (simp add: zn_readFrame_def)
  moreover have "t - t0 < limit" using assms(4) l by (simp add: zn_in_time_def)
  moreover have "zn_reads (i + 2) z z3" using zn_reads_trans [OF 1(4) zn_reads_trans [OF 2(4) 3(3)]] by simp
  ultimately show thesis using that [of t z1 z3 "i + 2"] 1(1) 3(2,4,5) by simp
qed

lemma zn_await_answered:
  assumes "zn_idle z" "zn_stream z = concat (map zn_frame inds) @ zn_frame (w0, w1, d) @ rest" "length d \<le> 250"
    "zn_in_time limit (t0 # map fst (zn_line z))" "zn_quiet n (zn_line z)" "n + 3 * (length inds + 1) \<le> length (zn_line z)"
    "\<forall>f\<in>set inds. length (zn_frame f) \<le> 255 \<and> (fst f, fst (snd f)) \<noteq> (w0, w1)"
  shows "\<exists>z'. zn_await w0 w1 t0 limit z = Some (True, z') \<and> zn_got (w0, w1, d) z' \<and> zn_kept z z' \<and>
    zn_events z' = zn_events z @ concat (map (zn_told z) inds) \<and> zn_stream z' = rest"
  using assms
proof (induction inds arbitrary: z n)
  case Nil
  obtain t z1 z2 i where 1: "zn_millis z = Some (t, z1)" "t - t0 < limit" "zn_readFrame limit z1 = Some (True, z2)"
    "zn_got (w0, w1, d) z2" "zn_reads i z z2" "zn_stream z2 = rest"
    by (rule zn_await_frame [OF Nil.prems(1), of "(w0, w1, d)" rest limit t0 n]) (use Nil.prems in auto)
  then show ?case by (auto simp: zn_await.simps [of _ _ _ _ z] zn_got_def zn_reads_def)
next
  case (Cons f inds)
  obtain t z1 z2 i where 1: "zn_millis z = Some (t, z1)" "t - t0 < limit" "zn_readFrame limit z1 = Some (True, z2)"
    "zn_got f z2" "zn_reads i z z2" "zn_stream z2 = concat (map zn_frame inds) @ zn_frame (w0, w1, d) @ rest" "i \<le> n + 3"
    by (rule zn_await_frame [OF Cons.prems(1), of f "concat (map zn_frame inds) @ zn_frame (w0, w1, d) @ rest" limit t0 n])
      (use Cons.prems in auto)
  let ?z3 = "z2\<lparr>zn_events := zn_events z2 @ zn_told z2 f\<rparr>"
  have f: "length (zn_frame f) \<le> 255" "\<not> (zn_frmCmd0 z2 = w0 \<and> zn_frmCmd1 z2 = w1)"
    using Cons.prems(7) 1(4) by (cases f; auto simp: zn_got_def)+
  note e = zn_dispatchAreq_told [OF 1(4) f(1)]
  have l: "zn_line ?z3 = drop i (zn_line z)" using 1(5) by (simp add: zn_reads_def)
  have k: "zn_kept z ?z3" "zn_kept z z2" using 1(5) by (auto simp: zn_reads_def zn_kept_def)
  have "zn_in_time limit (t0 # map fst (zn_line ?z3))"
    using Cons.prems(4) zn_in_time_drop [of limit "zn_line z" i] unfolding l
    by (auto simp: zn_in_time_def dest: in_set_dropD)
  moreover have "zn_quiet (n - i) (zn_line ?z3)" "n - i + 3 * (length inds + 1) \<le> length (zn_line ?z3)"
    using zn_quiet_drop [OF Cons.prems(5)] Cons.prems(6) 1(7) unfolding l by auto
  moreover have "zn_idle ?z3" "zn_stream ?z3 = concat (map zn_frame inds) @ zn_frame (w0, w1, d) @ rest"
    using zn_got_idle [OF 1(4)] 1(6) by (simp_all add: zn_idle_def zn_stream_def)
  ultimately obtain z' where 2: "zn_await w0 w1 t0 limit ?z3 = Some (True, z')" "zn_got (w0, w1, d) z'" "zn_kept ?z3 z'"
    "zn_events z' = zn_events ?z3 @ concat (map (zn_told ?z3) inds)" "zn_stream z' = rest"
    using Cons.IH [of ?z3 "n - i"] Cons.prems(3,7) by auto
  have "zn_await w0 w1 t0 limit z = Some (True, z')"
    using 1(1-3) f(2) 2(1) by (auto simp: zn_await.simps [of _ _ _ _ z] e)
  moreover have "zn_kept z z'" using k(1) 2(3) by (simp add: zn_kept_def)
  ultimately show ?case using 2 1(5) zn_told_kept [OF k(1)] zn_told_kept [OF k(2)] by (auto simp: zn_reads_def)
qed


lemma zn_sreq_answered:
  assumes "zn_idle z" "length (zn_resp z) = ZnMaxData" "length data \<le> 250"
    "zn_stream z = concat (map zn_frame inds) @ zn_frame (ZnSrsp OR (sub AND 0x1F), cmd1, d) @ rest" "length d \<le> 250"
    "zn_in_time limit (map fst (zn_line z))" "zn_quiet n (zn_line z)" "n + 3 * (length inds + 1) < length (zn_line z)"
    "\<forall>f\<in>set inds. length (zn_frame f) \<le> 255 \<and> (fst f, fst (snd f)) \<noteq> (ZnSrsp OR (sub AND 0x1F), cmd1)"
  obtains z' where "zn_sreqFor limit sub cmd1 data z = Some (True, z')" "zn_respLen z' = of_nat (length d)"
    "take (length d) (zn_resp z') = d" "length (zn_resp z') = ZnMaxData"
    "zn_out z' = zn_out z @ zn_frame (ZnSreq OR (sub AND 0x1F), cmd1, data)"
    "zn_events z' = zn_events z @ concat (map (zn_told z) inds)" "zn_stream z' = rest" "zn_idle z'"
proof -
  let ?w = "ZnSrsp OR (sub AND 0x1F)"
  let ?z0 = "z\<lparr>zn_out := zn_out z @ zn_frame (ZnSreq OR (sub AND 0x1F), cmd1, data)\<rparr>"
  have 0: "zn_sendMt ZnSreq sub cmd1 data z = ?z0" using assms(3) by (simp add: zn_sendMt_def zn_encodeFrame_frame)
  obtain t bs ls where l: "zn_line ?z0 = (t, bs) # ls" using assms(8) by (cases "zn_line z") auto
  obtain z1 where 1: "zn_millis ?z0 = Some (t, z1)" "zn_line z1 = ls" "zn_stream z1 = zn_stream ?z0" "zn_reads 1 ?z0 z1" "zn_at (0, 0, []) 0 z1"
    by (rule zn_millis_reads [OF l]) (use zn_idle_at [of ?z0 "(0, 0, [])"] assms(1) in \<open>auto simp: zn_idle_def\<close>)
  have i: "zn_idle z1" using 1(5) by (simp add: zn_at_def zn_idle_def)
  have s: "zn_stream z1 = concat (map zn_frame inds) @ zn_frame (?w, cmd1, d) @ rest" using 1(3) assms(4) by (simp add: zn_stream_def)
  have "zn_in_time limit (t # map fst (zn_line z1))" "zn_quiet (n - 1) (zn_line z1)" "n - 1 + 3 * (length inds + 1) \<le> length (zn_line z1)"
    using assms(6,8) zn_quiet_drop [OF assms(7), of 1] l 1(2) by (auto simp: zn_in_time_def)
  from zn_await_answered [OF i s assms(5) this assms(9)] obtain z2 where 2: "zn_await ?w cmd1 t limit z1 = Some (True, z2)"
    "zn_got (?w, cmd1, d) z2" "zn_kept z1 z2" "zn_events z2 = zn_events z1 @ concat (map (zn_told z1) inds)" "zn_stream z2 = rest" by blast
  have g: "zn_frmLen z2 = of_nat (length d)" "length (zn_frm z2) = 250" "take (length d) (zn_frm z2) = d" using 2(2) by (auto simp: zn_got_def)
  let ?z' = "z2\<lparr>zn_respLen := zn_frmLen z2, zn_resp := d @ drop (length d) (zn_resp z2)\<rparr>"
  have k: "zn_kept ?z0 z2" using 1(4) 2(3) by (simp add: zn_reads_def zn_kept_def)
  then have t: "zn_told z1 = zn_told z" "zn_events z1 = zn_events z" "length (zn_resp z2) = 250"
    using 1(4) zn_told_kept [of ?z0 z1] assms(2) by (auto simp: zn_reads_def zn_kept_def zn_told_def fun_eq_iff)
  have "zn_sreqFor limit sub cmd1 data z = Some (True, ?z')"
    using 0 1(1) 2(1) g assms(5) by (simp add: zn_sreqFor_def Let_def)
  then show thesis
    by (rule that) (use g t 2(4,5) k assms(5) zn_got_idle [OF 2(2)] in \<open>auto simp: zn_kept_def zn_stream_def zn_idle_def\<close>)
qed

text \<open>C19: whatever indications precede the response, however the serial line cuts the bytes up, and whenever they
  arrive within the time limit: \<open>sendData\<close> writes one frame that decodes to the AF data request with its arguments,
  hands every indication to its callback in order, answers whether the module's response says success, reads no byte
  behind the response and leaves the parser idle, and no buffer is overrun.\<close>

theorem znp_send_answered:
  assumes "zn_idle z" "length (zn_resp z) = ZnMaxData" "length data \<le> 100"
    "zn_stream z = concat (map zn_frame inds) @ zn_frame (0x64, 0x01, status # extra) @ rest" "length extra < 250"
    "zn_in_time 1000 (map fst (zn_line z))" "zn_quiet n (zn_line z)" "n + 3 * (length inds + 1) < length (zn_line z)"
    "\<forall>f\<in>set inds. length (zn_frame f) \<le> 255 \<and> (fst f, fst (snd f)) \<noteq> (0x64, 0x01)"
  shows "\<exists>z' frame. zn_sendData dst dstEp srcEp cluster seqno data radius ack z = Some (status = 0, z') \<and>
    zn_out z' = zn_out z @ frame \<and>
    zn_decodeFrame (Some frame) = Some (0x24, 0x01, le16 dst @ [dstEp, srcEp] @ le16 cluster @
      [seqno, if ack then 0x10 else 0, radius, of_nat (length data)] @ data) \<and>
    zn_events z' = zn_events z @ concat (map (zn_told z) inds) \<and> zn_stream z' = rest \<and> zn_idle z'"
proof -
  let ?d = "le16 dst @ [dstEp, srcEp] @ le16 cluster @ [seqno, if ack then 0x10 else 0, radius, of_nat (length data)] @ data"
  have w: "ZnSrsp OR (ZnAf AND 0x1F) = (0x64 :: u8)" "ZnSreq OR (ZnAf AND 0x1F) = (0x24 :: u8)" by simp_all
  have l: "length ?d \<le> 250" "length (status # extra) \<le> 250" using assms(3,5) by simp_all
  obtain z' where 1: "zn_sreq ZnAf 0x01 ?d z = Some (True, z')" "zn_respLen z' = of_nat (length (status # extra))"
    "take (length (status # extra)) (zn_resp z') = status # extra" "zn_out z' = zn_out z @ zn_frame (0x24, 0x01, ?d)"
    "zn_events z' = zn_events z @ concat (map (zn_told z) inds)" "zn_stream z' = rest" "zn_idle z'"
    by (rule zn_sreq_answered [where sub = ZnAf and ?cmd1.0 = "0x01", unfolded w, OF assms(1,2) l(1) assms(4) l(2) assms(6-9)]) blast
  have "zn_respLen z' = of_nat (Suc (length extra))" "unat (of_nat (Suc (length extra)) :: u8) = Suc (length extra)"
    using 1(2) assms(5) by (simp_all del: of_nat_Suc)
  then have "1 \<le> zn_respLen z'" by (simp add: word_le_nat_alt del: of_nat_Suc)
  moreover have "zn_resp z' ! 0 = status" using 1(3) by (cases "zn_resp z'") auto
  ultimately have "zn_sendData dst dstEp srcEp cluster seqno data radius ack z = Some (status = 0, z')"
    using 1(1) assms(3) by (simp add: zn_sendData_def zn_request_def zn_success_def)
  moreover have "length ?d < 256" using l(1) by simp
  ultimately show ?thesis using 1(4-7) zn_decodeFrame_frame [of ?d "0x24" "0x01"] by blast
qed

theorem znp_send_answered_witness:
  "\<exists>z' frame. zn_sendData 0x1234 1 8 6 7 [1, 2, 3] 30 True (zn_onStateChange True (znp0
      ([(10, [0xFE, 1, 0x45]), (12, [0xC0, 9, 0x8D, 0xFE, 1, 0x64, 1, 0, 0x64])] @ replicate 7 (14, [])))) = Some (True, z') \<and>
    zn_out z' = frame \<and> zn_decodeFrame (Some frame) = Some (0x24, 1, [0x34, 0x12, 1, 8, 6, 0, 7, 0x10, 30, 3, 1, 2, 3]) \<and>
    zn_events z' = [ZnState 9] \<and> zn_stream z' = [] \<and> zn_idle z'"
proof -
  let ?z = "zn_onStateChange True (znp0 ([(10, [0xFE, 1, 0x45]), (12, [0xC0, 9, 0x8D, 0xFE, 1, 0x64, 1, 0, 0x64])] @ replicate 7 (14, [])))"
  have r: "replicate 7 (14, []) = [(14, []), (14, []), (14, []), (14, []), (14, []), (14, []), (14 :: u32, [] :: u8 list)]"
    by (simp add: numeral_eq_Suc)
  have 1: "zn_idle ?z" "length (zn_resp ?z) = ZnMaxData" "length [1, 2, 3 :: u8] \<le> 100"
    "zn_stream ?z = concat (map zn_frame [(0x45, 0xC0, [9])]) @ zn_frame (0x64, 0x01, 0 # []) @ []" "length ([] :: u8 list) < 250"
    "zn_in_time 1000 (map fst (zn_line ?z))" "zn_quiet 2 (zn_line ?z)"
    "2 + 3 * (length [(0x45 :: u8, 0xC0 :: u8, [9 :: u8])] + 1) < length (zn_line ?z)"
    "\<forall>f\<in>set [(0x45, 0xC0, [9])]. length (zn_frame f) \<le> 255 \<and> (fst f, fst (snd f)) \<noteq> (0x64 :: u8, 0x01 :: u8)"
    by (simp_all add: zn_idle_def zn_onStateChange_def znp0_def zn_stream_def zn_frame_def zn_computeFcs_def zn_in_time_def zn_quiet_def r)
  have e: "le16 0x1234 = [0x34, 0x12]" "le16 6 = [6, 0]" by (simp_all add: le16_def le_bytes_def upt_rec)
  from znp_send_answered [OF 1, of "0x1234" 1 8 6 7 30 True] show ?thesis
    by (simp add: zn_told_def zn_onStateChange_def znp0_def e)
qed

text \<open>Finding: a frame that announces more data than the buffer holds is written over its end.\<close>

lemma znp_long_frame_overruns:
  assumes "length (zn_frm z) = ZnMaxData" "zn_rxState z = ZnData" "unat (zn_rxIdx z) = ZnMaxData"
  shows "zn_feed b z = None"
  using assms by (simp add: zn_feed_def)

end
