(* ===== verification/Spec2Isabelle.thy ===== *)
theory Spec2Isabelle
  imports ZbTables ZbNwkFacts ZbRoutingFacts ZbBroadcast ZbFragment ZbApsDelivery ZbRetransmit
    ZbGroups ZbIndirect ZbSourceRoute ZbSecurityFacts ZbScan ZbLinkStatus ZbApsSecurityFacts
    ZbPanIdFacts ZbZclFacts ZbStack ZbModule ZbPersistFacts ZbZdoFacts ZbQuery ZbGreenPowerFacts ZbTouchlinkFacts ZbOta ZbCommission ZbLightFacts ZbSensors ZbZnpFacts
begin

text \<open>
  \<^bold>\<open>What this is.\<close> A model of the Zigbee stack NiusZigbee for ArduinoNRF boards with a CC2530 radio module
  (\<open>src/src\<close>, \<open>src/examples/CC2530_BeaconJoin\<close>, \<open>src/extras/firmware/cc2530\<close>), with the theorems that make its
  parts and their composition correct. A board runs the whole stack in single-threaded C++: the sketch's
  \<open>loop\<close> polls the driver, the driver parses the module's serial bytes and calls back, the callbacks use the
  codecs, tables and state machines of the library and send through the driver again.

  \<^bold>\<open>How the code is modelled.\<close> Integers keep their width (\<open>u8\<close> to \<open>u64\<close>, words of HOL-Library), so every
  wrap of the code is a wrap of the model; where the code compares or adds in \<open>int\<close>, so does the model. A
  class is a record of its members with the code's names, an operation is a function from the object to the
  object and the result. A caller-owned array that may not be attached is a list option, a pointer into it an
  index. A byte pointer that may be null is a list option; a read outside a buffer is the outer \<open>None\<close>
  of a parser, so that theorems can say that none happens. A builder answers \<open>None\<close> where the code answers
  length 0. \<open>millis()\<close> is an argument. Callbacks are values: the driver answers a list of events, a
  node's handlers a list of actions in the order of the calls. Two things the sources only call are
  parameters: \<open>ecb\<close>, the AES-128 block of the nRF52 (assumed to answer 16 bytes, \<open>ecb_sized\<close>, and not to fail,
  \<open>ecb_works\<close>, where that matters), and \<open>air\<close>, the radio registers of the CC2530.

  \<^bold>\<open>Foundations.\<close> \<open>ZbPrelude\<close>: byte buffers, little-endian fields, checked reads. \<open>ZbSlots\<close>: fixed arrays with
  a \<open>used\<close> flag, the locales for keyed slots that the tables interpret (lookup after update, uniqueness,
  sweeps).

  \<^bold>\<open>Network layer.\<close> \<open>ZbTables\<close> (\<open>ZigbeeTables\<close>): neighbour and route tables. \<open>ZbNwk\<close>, \<open>ZbNwkFacts\<close>
  (\<open>ZigbeeNwk\<close>): frame and command codecs, source-route relaying; no parser reads outside its buffer.
  \<open>ZbRouting\<close>, \<open>ZbRoutingFacts\<close> (\<open>ZigbeeRouting\<close>): route discovery; the decision on every branch, the flood as a
  step relation with losses, repeats and reordering, loop freedom of the reverse paths, and discovery end to end.
  \<open>ZbBroadcast\<close> (\<open>ZigbeeBroadcastTable\<close>): the transaction table. \<open>ZbSourceRoute\<close> (\<open>ZigbeeSourceRouteTable\<close>).
  \<open>ZbMac\<close>, \<open>ZbMacFacts\<close> (\<open>ZigbeeMac\<close>). \<open>ZbNetwork\<close>, \<open>ZbNetworkFacts\<close>, \<open>ZbNetworkLife\<close>, \<open>ZbScan\<close>, \<open>ZbLinkStatus\<close>
  (\<open>ZigbeeNetwork\<close>): address allocation, association, the life cycle as a step relation, scanning, link status,
  aging. \<open>ZbIndirect\<close> (\<open>ZigbeeIndirectQueue\<close>, \<open>ZigbeeEndDeviceTimeout\<close>). \<open>ZbPanId\<close>, \<open>ZbPanIdFacts\<close>
  (\<open>ZigbeePanIdConflict\<close>).

  \<^bold>\<open>Application support.\<close> \<open>ZbAps\<close>, \<open>ZbFragment\<close> (\<open>ZigbeeAps\<close>, \<open>ZigbeeApsFragment\<close>): frames, and the fragmenter and
  reassembler machines. \<open>ZbApsDelivery\<close>, \<open>ZbRetransmit\<close> (\<open>ZigbeeApsDuplicateTable\<close>, \<open>ZigbeeApsRetransmit\<close>): each
  refines an abstract map or multiset. \<open>ZbGroups\<close> (\<open>ZigbeeGroupTable\<close>, \<open>ZigbeeBindingTable\<close>).

  \<^bold>\<open>Security.\<close> \<open>ZbCcm\<close> (\<open>ZigbeeCcmStar\<close>), \<open>ZbSecurity\<close>, \<open>ZbSecurityFacts\<close> (\<open>ZigbeeSecurity\<close>): what is secured
  opens, what opens was secured, nothing opens twice, a key switch loses nothing. \<open>ZbApsSecurity\<close>,
  \<open>ZbApsSecurityFacts\<close> (\<open>ZigbeeApsSecurity\<close>, \<open>ZigbeeApsKey\<close>, \<open>ZigbeeInstallCode\<close>, \<open>ZigbeeTcLinkKeyStore\<close>): from an
  install code to the network key of the joined device. \<open>ZbPersist\<close>, \<open>ZbPersistFacts\<close> (\<open>ZigbeePersistence\<close> and
  the sketch's use of it): the saved state, and frame counters over any number of power cycles.

  \<^bold>\<open>Applications.\<close> \<open>ZbZcl\<close>, \<open>ZbZclFacts\<close> (\<open>ZigbeeZcl\<close>, \<open>ZigbeeClusters\<close>, \<open>ZigbeeReporting\<close>). \<open>ZbZdo\<close>, \<open>ZbDevice\<close>,
  \<open>ZbZdoFacts\<close> (\<open>ZigbeeZdo\<close>, \<open>ZigbeeZdoMgmt\<close>, \<open>ZigbeeDevice\<close>).
  \<open>ZbGreenPower\<close>, \<open>ZbGreenPowerFacts\<close> (\<open>ZigbeeGreenPower\<close>, \<open>ZigbeeGreenPowerCluster\<close>, \<open>ZigbeeGpProxy\<close>): battery-less
  devices, their proxy and the sink; from the commissioning frame to the command at the application, and what
  the sink accepts from anybody.
  \<open>ZbAes\<close>, \<open>ZbAesFacts\<close> (\<open>ZigbeeAes128Decrypt\<close>): the S-boxes, the key schedule and the decryption against FIPS-197.
  \<open>ZbTouchlink\<close>, \<open>ZbTouchlinkFacts\<close> (\<open>ZigbeeTouchlink\<close>, \<open>ZigbeeInterPan\<close>): commissioning of a device without a network.
  \<open>ZbOta\<close> (\<open>ZigbeeOtaCluster\<close>, \<open>CC2530_OtaUpgrade.ino\<close>): the firmware commands and the download loop, a partial
  function that is shown to end. \<open>ZbCommission\<close> (\<open>ZigbeeBdb\<close>, \<open>ZigbeeFindingBinding\<close>): the order of the commissioning
  steps, and the bindings two devices make.
  \<open>ZbLight\<close>, \<open>ZbLightFacts\<close> (\<open>ZigbeeLight\<close> and the Groups, Scenes, Level, Color and Identify clusters): the light as
  a state and its commands; the scene table refines the map from group and scene to the captured state, for any
  commands with payloads up to 254 bytes. \<open>ZbSensors\<close> (occupancy, temperature, humidity, electrical measurement,
  door lock, window covering, thermostat and IAS zone): one read loop, shared by the servers, over the record
  builder of each; up to 48 attributes.
  \<open>ZbZnp\<close>, \<open>ZbZnpFacts\<close> (\<open>modules/cc2530znp/CC2530ZnpRadio\<close>): the driver of the vendor firmware. Its environment is a list
  of clock readings, each with the bytes that have arrived by then; a wait ends with the list at the latest.
  \<^bold>\<open>Radio.\<close> \<open>ZbRadio\<close>, \<open>ZbRadioLine\<close>, \<open>ZbRadioFacts\<close> (\<open>modules/CC2530/CC2530Radio\<close>): the driver: serial framing,
  receive dispatch, transmit paths; whatever bytes arrive nothing is read out of bounds. \<open>ZbFirmware\<close>,
  \<open>ZbFirmwareFacts\<close> (\<open>cc2530_radio.c\<close>): the module's command parser, CSMA-CA, acknowledgement and retry loops.
  \<open>ZbModule\<close>: driver and firmware together over the serial line.

  \<^bold>\<open>Composition.\<close> \<open>ZbHop\<close>, \<open>ZbStack\<close>: a command from one node's ZCL call to another node's ZCL callback through
  ZCL, APS, NWK, security, MAC and serial line of both. \<open>ZbNode\<close>, \<open>ZbNodeLoop\<close> (the sketch): callbacks, services,
  \<open>setup\<close> and \<open>loop\<close>. \<open>ZbMesh\<close>: stations made of a node and its driver, a message over a path of routers and
  its acknowledgement back. \<open>ZbQuery\<close>: a neighbour query and its
  answer through the drivers of both nodes, and the pages that a secured frame cannot carry.

  \<^bold>\<open>Bounds and fuel.\<close> Fuel stands only where a loop of the code has no structural measure: \<open>fm_send_all\<close> with 256
  (a block count is a byte), walks of routes with the number of nodes, \<open>bd_walk\<close> with capacity + 1, the
  address scan with the span of the pool, the cluster read loop by the bytes left; each has a theorem that the
  fuel suffices. Theorems about one run carry the sizes the code imposes: 8 replay identities, 79 bytes of ZCL
  payload and 82 bytes of message inside a 127-byte frame, radius 30 for a path, 125 bytes of PSDU in the
  module, 1024 sends between two saves and no loss of power after a start with frames unsaved (a condition that the
  sketch does not enforce), at most 2^31 ms between two polls of the report clock. Path costs of
  a flood are assumed not to wrap the byte the code keeps them in; \<open>rreq_cost_wraps\<close> shows what happens then.

  \<^bold>\<open>Not modelled.\<close> Console output that shows no received data; LEDs; the fixed register set-up of the firmware
  (clocks, UART, RF tuning); callbacks that call back into the driver while it dispatches (their effect on the
  driver's buffer is a finding, not a definition); the branches of the sketch behind build flags that the default
  build leaves out, except where their code is modelled with its class (secure join, saved state, source routes,
  fragments, bindings).
  Also the elliptic-curve primitives, and the two setters that convert floating-point measurements.
\<close>

end
